(* ===== verification/Rauc_Base.thy ===== *)
theory Rauc_Base
  imports Main "HOL-Library.Word" "HOL-Library.Char_ord" "HOL-Library.List_Lexorder"
begin

text \<open>
  Shared vocabulary of the development.

  \<^item> \<open>gerror\<close>: the error domains and codes the sources pass to \<open>g_set_error\<close>. The
    human-readable message of a GError is not modelled, its domain and code are.
    \<open>ERROR_UNSET\<close> stands for the situation in which a function returns FALSE but has left
    its \<open>GError **\<close> argument at NULL.
  \<^item> \<open>result\<close>: the outcome of a C function that reports errors through a GError:
    \<open>Ok v\<close>, \<open>Error e\<close>, or \<open>Abort\<close> when the process does not survive the call
    (\<open>g_assert\<close>, \<open>g_error\<close>, a NULL dereference or an out-of-bounds read).
  \<^item> \<open>io\<close>: functions with effects on the outside world, as explicit state passing.
    \<open>io_bind\<close> is the \<open>if (!f(..., &ierror)) return FALSE;\<close> idiom of the sources.
  \<^item> \<open>proc\<close>: how a spawned helper program can end, with the two ways the sources
    evaluate it (\<open>g_subprocess_communicate\<close> plus exit status, \<open>g_subprocess_wait_check\<close>).
  \<^item> the string functions of C and GLib that the sources use, on \<open>char\<close> lists
    without the terminating NUL; a NULL string is \<open>None\<close>.
\<close>

named_theorems io_defs \<open>definitions of the effectful combinators\<close>
named_theorems io_iff \<open>inversion of effectful programs that returned\<close>
named_theorems str_simps \<open>evaluation of the string functions\<close>

subsection \<open>Errors and results\<close>

datatype r_bootchooser_error = R_BOOTCHOOSER_ERROR_FAILED | R_BOOTCHOOSER_ERROR_NOT_SUPPORTED
  | R_BOOTCHOOSER_ERROR_PARSE_FAILED

datatype r_slot_error = R_SLOT_ERROR_NO_CONFIG | R_SLOT_ERROR_NO_BOOTSLOT
  | R_SLOT_ERROR_NO_SLOT_WITH_STATE_BOOTED | R_SLOT_ERROR_FAILED

datatype r_install_error = R_INSTALL_ERROR_FAILED | R_INSTALL_ERROR_COMPAT_MISMATCH
  | R_INSTALL_ERROR_VERSION_MISMATCH | R_INSTALL_ERROR_REJECTED | R_INSTALL_ERROR_MARK_BOOTABLE
  | R_INSTALL_ERROR_MARK_NONBOOTABLE | R_INSTALL_ERROR_TARGET_GROUP | R_INSTALL_ERROR_MOUNTED

datatype r_manifest_error = R_MANIFEST_ERROR_NO_DATA | R_MANIFEST_ERROR_CHECKSUM
  | R_MANIFEST_ERROR_COMPATIBLE | R_MANIFEST_PARSE_ERROR | R_MANIFEST_EMPTY_STRING
  | R_MANIFEST_CHECK_ERROR | R_MANIFEST_ERROR_INVALID_IMAGE_TYPE

datatype r_config_error = R_CONFIG_ERROR_INVALID_FORMAT | R_CONFIG_ERROR_BOOTLOADER
  | R_CONFIG_ERROR_PARENT | R_CONFIG_ERROR_PARENT_LOOP | R_CONFIG_ERROR_MAX_BUNDLE_DOWNLOAD_SIZE
  | R_CONFIG_ERROR_MAX_BUNDLE_SIGNATURE_SIZE | R_CONFIG_ERROR_CHILD_HAS_BOOTNAME
  | R_CONFIG_ERROR_DUPLICATE_BOOTNAME | R_CONFIG_ERROR_DUPLICATE_CLASS | R_CONFIG_ERROR_SLOT_TYPE
  | R_CONFIG_ERROR_INVALID_DEVICE | R_CONFIG_ERROR_DATA_DIRECTORY | R_CONFIG_ERROR_ARTIFACT_REPO_TYPE
  | R_CONFIG_ERROR_EMPTY_FILE | R_CONFIG_ERROR_MISSING_OPTION

datatype r_utils_error = R_UTILS_ERROR_FAILED | R_UTILS_ERROR_INAPPROPRIATE_IOCTL
  | R_UTILS_ERROR_INVALID_ENV_KEY | R_UTILS_ERROR_SEMVER_PARSE | R_UTILS_ERROR_OPEN_FILE

datatype r_update_error = R_UPDATE_ERROR_FAILED | R_UPDATE_ERROR_NO_HANDLER
  | R_UPDATE_ERROR_UNSUPPORTED_ADAPTIVE_MODE

datatype r_checksum_error = R_CHECKSUM_ERROR_FAILED | R_CHECKSUM_ERROR_SIZE_MISMATCH
  | R_CHECKSUM_ERROR_DIGEST_MISMATCH

datatype r_artifacts_error = R_ARTIFACTS_ERROR_DUPLICATE | R_ARTIFACTS_ERROR_INSTALL

datatype r_hash_index_error = R_HASH_INDEX_ERROR_SIZE | R_HASH_INDEX_ERROR_NOT_FOUND
  | R_HASH_INDEX_ERROR_MODIFIED

datatype r_emmc_error = R_EMMC_ERROR_FAILED | R_EMMC_ERROR_IOCTL | R_EMMC_ERROR_BOOTPART_UDA
  | R_EMMC_ERROR_BOOTPART_INVALID

datatype r_bundle_error = R_BUNDLE_ERROR_SIGNATURE | R_BUNDLE_ERROR_KEYRING | R_BUNDLE_ERROR_IDENTIFIER
  | R_BUNDLE_ERROR_UNSAFE | R_BUNDLE_ERROR_PAYLOAD | R_BUNDLE_ERROR_FORMAT | R_BUNDLE_ERROR_VERITY
  | R_BUNDLE_ERROR_CRYPT | R_BUNDLE_ERROR_UNSUPPORTED

datatype g_key_file_error = G_KEY_FILE_ERROR_PARSE | G_KEY_FILE_ERROR_KEY_NOT_FOUND
  | G_KEY_FILE_ERROR_GROUP_NOT_FOUND | G_KEY_FILE_ERROR_INVALID_VALUE

datatype g_file_error = G_FILE_ERROR_NOENT | G_FILE_ERROR_FAILED | G_FILE_ERROR_OTHER int

datatype g_number_parser_error = G_NUMBER_PARSER_ERROR_INVALID | G_NUMBER_PARSER_ERROR_OUT_OF_BOUNDS

datatype gerror =
    R_BOOTCHOOSER_ERROR r_bootchooser_error
  | R_SLOT_ERROR r_slot_error
  | R_INSTALL_ERROR r_install_error
  | R_MANIFEST_ERROR r_manifest_error
  | R_CONFIG_ERROR r_config_error
  | R_UTILS_ERROR r_utils_error
  | R_UPDATE_ERROR r_update_error
  | R_CHECKSUM_ERROR r_checksum_error
  | R_ARTIFACTS_ERROR r_artifacts_error
  | R_HASH_INDEX_ERROR r_hash_index_error
  | R_EMMC_ERROR r_emmc_error
  | R_BUNDLE_ERROR r_bundle_error
  | G_KEY_FILE_ERROR g_key_file_error
  | G_FILE_ERROR g_file_error
  | G_NUMBER_PARSER_ERROR g_number_parser_error
  | G_SPAWN_ERROR_FAILED
  | G_SPAWN_EXIT_ERROR int
  | G_IO_ERROR int
  | ERROR_UNSET

datatype 'a result = Ok 'a | Error gerror | Abort

fun is_ok :: "'a result \<Rightarrow> bool" where
  "is_ok (Ok _) = True"
| "is_ok _ = False"

fun result_bind :: "'a result \<Rightarrow> ('a \<Rightarrow> 'b result) \<Rightarrow> 'b result" where
  "result_bind (Ok x) k = k x"
| "result_bind (Error e) k = Error e"
| "result_bind Abort k = Abort"

lemma result_bind_Ok_iff [io_iff]:
  "result_bind r k = Ok y \<longleftrightarrow> (\<exists>x. r = Ok x \<and> k x = Ok y)"
  by (cases r) auto

lemma is_ok_iff: "is_ok r \<longleftrightarrow> (\<exists>x. r = Ok x)"
  by (cases r) auto

text \<open>\<open>if (cond) { g_set_error(...); return FALSE; }\<close>\<close>

definition fail_if :: "bool \<Rightarrow> gerror \<Rightarrow> unit result" where
  "fail_if b e = (if b then Error e else Ok ())"

lemma fail_if_Ok [simp]: "fail_if b e = Ok u \<longleftrightarrow> \<not> b"
  by (simp add: fail_if_def)

lemma fail_if_not_Abort [simp]: "fail_if b e \<noteq> Abort"
  by (simp add: fail_if_def)

subsection \<open>Effects\<close>

type_synonym ('w, 'a) io = "'w \<Rightarrow> 'a result \<times> 'w"

definition io_return :: "'a \<Rightarrow> ('w, 'a) io" where
  [io_defs]: "io_return x w = (Ok x, w)"

definition io_fail :: "gerror \<Rightarrow> ('w, 'a) io" where
  [io_defs]: "io_fail e w = (Error e, w)"

definition io_abort :: "('w, 'a) io" where
  [io_defs]: "io_abort w = (Abort, w)"

definition io_lift :: "'a result \<Rightarrow> ('w, 'a) io" where
  [io_defs]: "io_lift r w = (r, w)"

definition io_bind :: "('w, 'a) io \<Rightarrow> ('a \<Rightarrow> ('w, 'b) io) \<Rightarrow> ('w, 'b) io" where
  [io_defs]: "io_bind m k w = (case m w of
      (Ok x, w') \<Rightarrow> k x w'
    | (Error e, w') \<Rightarrow> (Error e, w')
    | (Abort, w') \<Rightarrow> (Abort, w'))"

text \<open>\<open>if (!f(..., &ierror)) { ...handle ierror... }\<close>, where the caller goes on.\<close>

definition io_catch :: "('w, 'a) io \<Rightarrow> (gerror \<Rightarrow> ('w, 'a) io) \<Rightarrow> ('w, 'a) io" where
  [io_defs]: "io_catch m h w = (case m w of
      (Ok x, w') \<Rightarrow> (Ok x, w')
    | (Error e, w') \<Rightarrow> h e w'
    | (Abort, w') \<Rightarrow> (Abort, w'))"

text \<open>
  \<open>g_message("...: %s", ierror->message); g_clear_error(&ierror);\<close>: the error is logged and
  dropped. When the callee failed without setting an error, this dereferences NULL.
\<close>

definition io_warn :: "('w, 'a) io \<Rightarrow> ('w, 'a option) io" where
  "io_warn m = io_catch (io_bind m (\<lambda>x. io_return (Some x)))
     (\<lambda>e. if e = ERROR_UNSET then io_abort else io_return None)"

lemma io_return_iff [io_iff]: "io_return x w = (r, w') \<longleftrightarrow> r = Ok x \<and> w' = w"
  by (auto simp: io_return_def)

lemma io_fail_iff [io_iff]: "io_fail e w = (r, w') \<longleftrightarrow> r = Error e \<and> w' = w"
  by (auto simp: io_fail_def)

lemma io_abort_iff [io_iff]: "io_abort w = (r, w') \<longleftrightarrow> r = Abort \<and> w' = w"
  by (auto simp: io_abort_def)

lemma io_lift_iff [io_iff]: "io_lift q w = (r, w') \<longleftrightarrow> q = r \<and> w' = w"
  by (auto simp: io_lift_def)

lemma io_bind_Ok_iff [io_iff]:
  "io_bind m k w = (Ok y, w'') \<longleftrightarrow> (\<exists>x w'. m w = (Ok x, w') \<and> k x w' = (Ok y, w''))"
  by (cases "m w") (auto simp: io_bind_def split: result.splits)

lemma io_catch_Ok_iff [io_iff]:
  "io_catch m h w = (Ok y, w'') \<longleftrightarrow>
     m w = (Ok y, w'') \<or> (\<exists>e w'. m w = (Error e, w') \<and> h e w' = (Ok y, w''))"
  by (cases "m w") (auto simp: io_catch_def split: result.splits)

lemma io_warn_Ok_iff [io_iff]:
  "io_warn m w = (Ok y, w') \<longleftrightarrow>
     (\<exists>x. y = Some x \<and> m w = (Ok x, w')) \<or> (\<exists>e. e \<noteq> ERROR_UNSET \<and> y = None \<and> m w = (Error e, w'))"
  by (cases "m w") (auto simp: io_warn_def io_catch_def io_bind_def io_return_def io_abort_def
      split: result.splits if_splits)

lemma io_bind_OkI: "m w = (Ok x, w') \<Longrightarrow> io_bind m k w = k x w'"
  by (simp add: io_bind_def)

lemma io_bind_ErrorI: "m w = (Error e, w') \<Longrightarrow> io_bind m k w = (Error e, w')"
  by (simp add: io_bind_def)

lemma io_bind_return [simp]: "io_bind (io_return x) k = k x"
  by (rule ext) (simp add: io_bind_def io_return_def)

lemma io_bind_fail [simp]: "io_bind (io_fail e) k = io_fail e"
  by (rule ext) (simp add: io_bind_def io_fail_def)

lemma io_bind_abort [simp]: "io_bind io_abort k = io_abort"
  by (rule ext) (simp add: io_bind_def io_abort_def)

text \<open>The part of a result that later steps of a program depend on is unchanged.\<close>

lemma io_bind_inv:
  assumes "io_bind m k w = (r, w'')"
    and "\<And>r' w'. m w = (r', w') \<Longrightarrow> I w'"
    and "\<And>x w' r''. I w' \<Longrightarrow> k x w' = (r'', w'') \<Longrightarrow> I w''"
  shows "I w''"
  using assms by (cases "m w") (auto simp: io_bind_def split: result.splits)

subsection \<open>Programs that keep a part of the state\<close>

text \<open>Whatever the outcome, the view \<open>v\<close> of the state is the same afterwards.\<close>

definition preserves :: "('w \<Rightarrow> 'b) \<Rightarrow> ('w, 'a) io \<Rightarrow> bool" where
  "preserves v m \<longleftrightarrow> (\<forall>w. v (snd (m w)) = v w)"

named_theorems preserves_intros \<open>introduction rules for programs that keep a view of the state\<close>

lemma preservesD: "preserves v m \<Longrightarrow> m w = (r, w') \<Longrightarrow> v w' = v w"
  unfolding preserves_def by (metis snd_conv)

lemma preserves_basic [preserves_intros]:
  "preserves v (io_return x)" "preserves v (io_fail e)" "preserves v io_abort" "preserves v (io_lift r)"
  by (auto simp: preserves_def io_defs)

lemma preserves_bind [preserves_intros]:
  "preserves v m \<Longrightarrow> (\<And>x. preserves v (k x)) \<Longrightarrow> preserves v (io_bind m k)"
  unfolding preserves_def io_bind_def
  by (auto split: prod.splits result.splits) (metis snd_conv)+

lemma preserves_catch [preserves_intros]:
  "preserves v m \<Longrightarrow> (\<And>e. preserves v (h e)) \<Longrightarrow> preserves v (io_catch m h)"
  unfolding preserves_def io_catch_def
  by (auto split: prod.splits result.splits) (metis snd_conv)+

lemma preserves_warn [preserves_intros]: "preserves v m \<Longrightarrow> preserves v (io_warn m)"
  unfolding io_warn_def by (auto intro!: preserves_intros)

lemma preserves_if [preserves_intros]: "preserves v m \<Longrightarrow> preserves v m' \<Longrightarrow> preserves v (if b then m else m')"
  by simp

lemma preserves_option [preserves_intros]:
  "preserves v m \<Longrightarrow> (\<And>x. preserves v (k x)) \<Longrightarrow> preserves v (case o1 of None \<Rightarrow> m | Some x \<Rightarrow> k x)"
  by (cases o1) auto

subsection \<open>Helper programs\<close>

datatype proc =
    Spawn_Failed gerror        \<comment> \<open>\<open>g_subprocess_newv\<close> returned NULL\<close>
  | Comm_Failed gerror         \<comment> \<open>\<open>g_subprocess_communicate\<close> returned FALSE\<close>
  | Not_Exited                 \<comment> \<open>terminated by a signal\<close>
  | Exited int string          \<comment> \<open>exit status and standard output\<close>

type_synonym 'w runner = "string list \<Rightarrow> 'w \<Rightarrow> proc \<times> 'w"

fun proc_stdout :: "proc \<Rightarrow> string result" where
  "proc_stdout (Spawn_Failed e) = Error e"
| "proc_stdout (Comm_Failed e) = Error e"
| "proc_stdout Not_Exited = Error G_SPAWN_ERROR_FAILED"
| "proc_stdout (Exited ret out) = (if ret \<noteq> 0 then Error (G_SPAWN_EXIT_ERROR ret) else Ok out)"

fun proc_wait_check :: "proc \<Rightarrow> unit result" where
  "proc_wait_check (Spawn_Failed e) = Error e"
| "proc_wait_check (Comm_Failed e) = Error e"
| "proc_wait_check Not_Exited = Error G_SPAWN_ERROR_FAILED"
| "proc_wait_check (Exited ret out) = (if ret \<noteq> 0 then Error (G_SPAWN_EXIT_ERROR ret) else Ok ())"

definition run_stdout :: "'w runner \<Rightarrow> string list \<Rightarrow> ('w, string) io" where
  "run_stdout run args w = (case run args w of (p, w') \<Rightarrow> (proc_stdout p, w'))"

definition run_wait_check :: "'w runner \<Rightarrow> string list \<Rightarrow> ('w, unit) io" where
  "run_wait_check run args w = (case run args w of (p, w') \<Rightarrow> (proc_wait_check p, w'))"

lemma proc_stdout_Ok_iff: "proc_stdout p = Ok out \<longleftrightarrow> p = Exited 0 out"
  by (cases p) auto

lemma proc_wait_check_Ok_iff: "proc_wait_check p = Ok u \<longleftrightarrow> (\<exists>out. p = Exited 0 out)"
  by (cases p) auto

lemma run_stdout_Ok_iff [io_iff]:
  "run_stdout run args w = (Ok out, w') \<longleftrightarrow> run args w = (Exited 0 out, w')"
  by (cases "run args w") (auto simp: run_stdout_def proc_stdout_Ok_iff)

lemma run_wait_check_Ok_iff [io_iff]:
  "run_wait_check run args w = (Ok u, w') \<longleftrightarrow> (\<exists>out. run args w = (Exited 0 out, w'))"
  by (cases "run args w") (auto simp: run_wait_check_def proc_wait_check_Ok_iff)

end
