(* ===== verification/Rauc_Strings.thy ===== *)
theory Rauc_Strings
  imports Rauc_Base
begin

text \<open>
  The C and GLib string functions the sources call, and the facts about them the components
  share: comparison with NULL (\<open>g_strcmp0\<close>), splitting and joining (\<open>g_strsplit\<close>,
  \<open>g_strjoinv\<close>), trimming (\<open>g_strchomp\<close>, \<open>g_strstrip\<close>), prefixes, number parsing
  (\<open>g_ascii_strtoull\<close>, \<open>g_ascii_string_to_unsigned\<close>) with its 64-bit saturation, and the
  \<open>%i\<close>, \<open>%u\<close> and \<open>%x\<close> conversions of \<open>g_strdup_printf\<close>.
  The main facts are that joining and splitting are inverse to each other and that a printed
  number parses back to itself.
\<close>

subsection \<open>Characters\<close>

abbreviation NEWLINE :: char where "NEWLINE \<equiv> CHR 0x0A"
abbreviation TAB :: char where "TAB \<equiv> CHR 0x09"

text \<open>\<open>g_ascii_isspace\<close>: space, form feed, newline, carriage return, tab.\<close>

definition g_ascii_isspace :: "char \<Rightarrow> bool" where
  "g_ascii_isspace c \<longleftrightarrow>
     c = CHR '' '' \<or> c = CHR 0x0C \<or> c = NEWLINE \<or> c = CHR 0x0D \<or> c = TAB"

definition g_ascii_isdigit :: "char \<Rightarrow> bool" where
  "g_ascii_isdigit c \<longleftrightarrow> (48 :: nat) \<le> of_char c \<and> of_char c \<le> (57 :: nat)"

definition g_ascii_isupper :: "char \<Rightarrow> bool" where
  "g_ascii_isupper c \<longleftrightarrow> (65 :: nat) \<le> of_char c \<and> of_char c \<le> (90 :: nat)"

definition g_ascii_islower :: "char \<Rightarrow> bool" where
  "g_ascii_islower c \<longleftrightarrow> (97 :: nat) \<le> of_char c \<and> of_char c \<le> (122 :: nat)"

definition g_ascii_isalnum :: "char \<Rightarrow> bool" where
  "g_ascii_isalnum c \<longleftrightarrow> g_ascii_isdigit c \<or> g_ascii_isupper c \<or> g_ascii_islower c"

definition g_ascii_toupper :: "char \<Rightarrow> char" where
  "g_ascii_toupper c = (if g_ascii_islower c then char_of (of_char c - 32 :: nat) else c)"

text \<open>Value of a digit in any base up to 36.\<close>

definition ascii_digit_val :: "char \<Rightarrow> nat option" where
  "ascii_digit_val c =
     (if g_ascii_isdigit c then Some (of_char c - 48)
      else if g_ascii_isupper c then Some (of_char c - 55)
      else if g_ascii_islower c then Some (of_char c - 87)
      else None)"

text \<open>\<open>g_ascii_xdigit_value\<close>, with \<open>None\<close> for its \<open>-1\<close>.\<close>

definition g_ascii_xdigit_value :: "char \<Rightarrow> nat option" where
  "g_ascii_xdigit_value c = (case ascii_digit_val c of
      Some d \<Rightarrow> if d < 16 then Some d else None | None \<Rightarrow> None)"

definition digit_char :: "nat \<Rightarrow> char" where
  "digit_char d = (if d < 10 then char_of (48 + d) else char_of (87 + d))"

lemma of_char_digit_char:
  "d < 36 \<Longrightarrow> of_char (digit_char d) = (if d < 10 then 48 + d else 87 + d :: nat)"
  by (simp add: digit_char_def)

lemma ascii_digit_val_digit_char [simp]: "d < 36 \<Longrightarrow> ascii_digit_val (digit_char d) = Some d"
  by (auto simp: ascii_digit_val_def g_ascii_isdigit_def g_ascii_isupper_def g_ascii_islower_def
      of_char_digit_char)

lemma digit_char_isalnum: "d < 36 \<Longrightarrow> g_ascii_isalnum (digit_char d)"
  by (auto simp: g_ascii_isalnum_def g_ascii_isdigit_def g_ascii_islower_def of_char_digit_char)

lemma isalnum_not_isspace: "g_ascii_isalnum c \<Longrightarrow> \<not> g_ascii_isspace c"
  by (auto simp: g_ascii_isalnum_def g_ascii_isdigit_def g_ascii_isupper_def g_ascii_islower_def
      g_ascii_isspace_def)

lemma xdigit_value_digit_char [simp]: "d < 16 \<Longrightarrow> g_ascii_xdigit_value (digit_char d) = Some d"
  by (simp add: g_ascii_xdigit_value_def)

lemma xdigit_value_less: "g_ascii_xdigit_value c = Some d \<Longrightarrow> d < 16"
  by (auto simp: g_ascii_xdigit_value_def split: option.splits if_splits)

subsection \<open>NULL-aware comparison and prefixes\<close>

text \<open>\<open>g_strcmp0(a, b) == 0\<close> is equality of \<open>string option\<close>: NULL equals only NULL.\<close>

fun g_str_has_prefix :: "string \<Rightarrow> string \<Rightarrow> bool" where
  "g_str_has_prefix _ [] = True"
| "g_str_has_prefix [] (_ # _) = False"
| "g_str_has_prefix (c # cs) (p # ps) = (c = p \<and> g_str_has_prefix cs ps)"

lemma has_prefix_iff: "g_str_has_prefix s p \<longleftrightarrow> (\<exists>r. s = p @ r)"
  by (induction s p rule: g_str_has_prefix.induct) auto

lemma has_prefix_append [simp]: "g_str_has_prefix (p @ r) p"
  by (simp add: has_prefix_iff)

definition g_str_has_suffix :: "string \<Rightarrow> string \<Rightarrow> bool" where
  "g_str_has_suffix s p = g_str_has_prefix (rev s) (rev p)"

lemma has_suffix_iff: "g_str_has_suffix s p \<longleftrightarrow> (\<exists>r. s = r @ p)"
  unfolding g_str_has_suffix_def has_prefix_iff
  by (metis rev_append rev_rev_ident)

text \<open>A key of the form \<open>k=\<close> at the start of a line determines the key.\<close>

lemma append_sep_inject:
  assumes "k @ d # v = k' @ d # v'" and "d \<notin> set k" and "d \<notin> set k'"
  shows "k = k' \<and> v = v'"
  using assms
proof (induction k arbitrary: k')
  case Nil
  then show ?case by (cases k') auto
next
  case (Cons c cs)
  then show ?case by (cases k') auto
qed

subsection \<open>Trimming\<close>

definition g_strchomp :: "string \<Rightarrow> string" where
  "g_strchomp s = rev (dropWhile g_ascii_isspace (rev s))"

definition g_strchug :: "string \<Rightarrow> string" where
  "g_strchug s = dropWhile g_ascii_isspace s"

definition g_strstrip :: "string \<Rightarrow> string" where
  "g_strstrip s = g_strchomp (g_strchug s)"

lemma g_strchomp_Nil [simp]: "g_strchomp [] = []"
  by (simp add: g_strchomp_def)

lemma g_strchomp_snoc:
  "g_strchomp (s @ [c]) = (if g_ascii_isspace c then g_strchomp s else s @ [c])"
  by (simp add: g_strchomp_def)

lemma g_strchomp_id: "s = [] \<or> \<not> g_ascii_isspace (last s) \<Longrightarrow> g_strchomp s = s"
  by (cases s rule: rev_cases) (auto simp: g_strchomp_snoc)

lemma g_strchomp_newline:
  "s = [] \<or> \<not> g_ascii_isspace (last s) \<Longrightarrow> g_strchomp (s @ [NEWLINE]) = s"
  by (simp add: g_strchomp_snoc g_ascii_isspace_def g_strchomp_id)

lemma g_strchomp_strip_newline [simp]: "g_strchomp (s @ [NEWLINE]) = g_strchomp s"
  by (simp add: g_strchomp_snoc g_ascii_isspace_def)

lemma g_strchomp_idem [simp]: "g_strchomp (g_strchomp s) = g_strchomp s"
  by (simp add: g_strchomp_def)

lemma g_strchomp_prefix: "\<exists>t. s = g_strchomp s @ t \<and> (\<forall>c\<in>set t. g_ascii_isspace c)"
proof -
  have "rev s = takeWhile g_ascii_isspace (rev s) @ dropWhile g_ascii_isspace (rev s)"
    by simp
  then have "s = rev (dropWhile g_ascii_isspace (rev s)) @ rev (takeWhile g_ascii_isspace (rev s))"
    by (metis rev_append rev_rev_ident)
  then show ?thesis
    unfolding g_strchomp_def by (metis set_rev set_takeWhileD)
qed

subsection \<open>Splitting and joining\<close>

text \<open>
  \<open>g_strsplit(s, d, max)\<close> for a one-character delimiter, which is all the sources use.
  The empty string gives the empty vector; \<open>max\<close> below 1 means no limit (\<open>split_on\<close>).
\<close>

fun split_on :: "char \<Rightarrow> string \<Rightarrow> string list" where
  "split_on d [] = [[]]"
| "split_on d (c # cs) =
     (if c = d then [] # split_on d cs
      else (case split_on d cs of [] \<Rightarrow> [[c]] | x # xs \<Rightarrow> (c # x) # xs))"

definition g_strsplit :: "string \<Rightarrow> char \<Rightarrow> string list" where
  "g_strsplit s d = (if s = [] then [] else split_on d s)"

fun split_max :: "nat \<Rightarrow> char \<Rightarrow> string \<Rightarrow> string list" where
  "split_max 0 d s = [s]"
| "split_max (Suc 0) d s = [s]"
| "split_max (Suc (Suc n)) d s =
     (let t = takeWhile (\<lambda>c. c \<noteq> d) s; r = dropWhile (\<lambda>c. c \<noteq> d) s
      in case r of [] \<Rightarrow> [s] | _ # r' \<Rightarrow> t # split_max (Suc n) d r')"

definition g_strsplit_max :: "string \<Rightarrow> char \<Rightarrow> nat \<Rightarrow> string list" where
  "g_strsplit_max s d n = (if s = [] then [] else split_max n d s)"

fun g_strjoinv :: "string \<Rightarrow> string list \<Rightarrow> string" where
  "g_strjoinv sep [] = []"
| "g_strjoinv sep [x] = x"
| "g_strjoinv sep (x # y # ys) = x @ sep @ g_strjoinv sep (y # ys)"

lemma split_on_neq_Nil [simp]: "split_on d s \<noteq> []"
  by (induction s) (auto split: list.splits)

lemma split_on_no_delim: "d \<notin> set s \<Longrightarrow> split_on d s = [s]"
  by (induction s) auto

lemma split_on_append_delim: "d \<notin> set x \<Longrightarrow> split_on d (x @ d # s) = x # split_on d s"
  by (induction x) auto

lemma split_on_pieces: "x \<in> set (split_on d s) \<Longrightarrow> d \<notin> set x"
  by (induction s arbitrary: x) (auto split: if_splits list.splits)

lemma split_on_join:
  assumes "xs \<noteq> []" and "\<forall>x\<in>set xs. d \<notin> set x"
  shows "split_on d (g_strjoinv [d] xs) = xs"
  using assms
  by (induction xs rule: induct_list012) (simp_all add: split_on_no_delim split_on_append_delim)

lemma join_Cons: "ys \<noteq> [] \<Longrightarrow> g_strjoinv sep (x # ys) = x @ sep @ g_strjoinv sep ys"
  by (cases ys) auto

lemma join_split_on: "g_strjoinv [d] (split_on d s) = s"
proof (induction s)
  case Nil
  then show ?case by simp
next
  case (Cons c cs)
  show ?case
  proof (cases "c = d")
    case True
    then show ?thesis using Cons by (simp add: join_Cons)
  next
    case False
    obtain x xs where *: "split_on d cs = x # xs"
      by (meson neq_Nil_conv split_on_neq_Nil)
    then have "g_strjoinv [d] ((c # x) # xs) = c # g_strjoinv [d] (x # xs)"
      by (cases xs) auto
    then show ?thesis using False * Cons by simp
  qed
qed

lemma join_eq_Nil: "g_strjoinv sep xs = [] \<Longrightarrow> xs = [] \<or> sep = [] \<or> xs = [[]]"
  by (cases "(sep, xs)" rule: g_strjoinv.cases) auto

text \<open>Splitting undoes joining, except that joining the empty list and the list of one empty
  string both give the empty string, which splits into nothing.\<close>

lemma g_strsplit_join:
  assumes "\<forall>x\<in>set xs. d \<notin> set x" and "xs \<noteq> [[]]"
  shows "g_strsplit (g_strjoinv [d] xs) d = xs"
proof (cases "xs = []")
  case False
  then have "g_strjoinv [d] xs \<noteq> []" using assms(2) join_eq_Nil by blast
  then show ?thesis using assms False by (simp add: g_strsplit_def split_on_join)
qed (simp add: g_strsplit_def)

lemma g_strsplit_no_delim: "s \<noteq> [] \<Longrightarrow> d \<notin> set s \<Longrightarrow> g_strsplit s d = [s]"
  by (simp add: g_strsplit_def split_on_no_delim)

lemma g_strsplit_append_delim:
  "d \<notin> set x \<Longrightarrow> g_strsplit (x @ d # s) d = x # split_on d s"
  by (simp add: g_strsplit_def split_on_append_delim)

lemma g_strsplit_pieces: "x \<in> set (g_strsplit s d) \<Longrightarrow> d \<notin> set x"
  by (auto simp: g_strsplit_def split_on_pieces split: if_splits)

lemma last_join:
  assumes "xs \<noteq> []" and "\<forall>x\<in>set xs. x \<noteq> []"
  shows "g_strjoinv sep xs \<noteq> [] \<and> last (g_strjoinv sep xs) = last (last xs)"
  using assms by (induction xs rule: induct_list012) auto

lemma set_join: "set (g_strjoinv sep xs) \<subseteq> set sep \<union> (\<Union>x\<in>set xs. set x)"
  by (induction xs rule: induct_list012) auto

subsection \<open>Numbers\<close>

abbreviation G_MAXUINT64 :: int where "G_MAXUINT64 \<equiv> 18446744073709551615"

fun parse_digits :: "nat \<Rightarrow> int \<Rightarrow> string \<Rightarrow> int \<times> string" where
  "parse_digits b acc [] = (acc, [])"
| "parse_digits b acc (c # cs) = (case ascii_digit_val c of
      None \<Rightarrow> (acc, c # cs)
    | Some d \<Rightarrow> if d < b then parse_digits b (acc * int b + int d) cs else (acc, c # cs))"

definition isspace_v :: "char \<Rightarrow> bool" where
  "isspace_v c \<longleftrightarrow> g_ascii_isspace c \<or> c = CHR 0x0B"

text \<open>The optional sign.\<close>

fun skip_sign :: "string \<Rightarrow> bool \<times> string" where
  "skip_sign [] = (False, [])"
| "skip_sign (c # cs) =
     (if c = CHR ''-'' then (True, cs) else if c = CHR ''+'' then (False, cs) else (False, c # cs))"

text \<open>The \<open>0x\<close> prefix and the choice of the base; the flag tells that a prefix was skipped.\<close>

fun skip_base :: "nat \<Rightarrow> string \<Rightarrow> nat \<times> bool \<times> string" where
  "skip_base b (z # x # r) =
     (if z = CHR ''0'' then
        if (b = 0 \<or> b = 16) \<and> g_ascii_toupper x = CHR ''X'' then (16, True, r)
        else (if b = 0 then 8 else b, False, z # x # r)
      else (if b = 0 then 10 else b, False, z # x # r))"
| "skip_base b [z] = (if b = 0 then (if z = CHR ''0'' then 8 else 10) else b, False, [z])"
| "skip_base b [] = (if b = 0 then 10 else b, False, [])"

text \<open>
  \<open>g_ascii_strtoull(s, &end, base)\<close>: the value, what is left at \<open>end\<close>, and whether
  \<open>errno\<close> was set to ERANGE (the value is then \<open>G_MAXUINT64\<close>, all bits set).
\<close>

definition g_ascii_strtoull :: "string \<Rightarrow> nat \<Rightarrow> 64 word \<times> string \<times> bool" where
  "g_ascii_strtoull s base =
     (let (neg, s2) = skip_sign (dropWhile isspace_v s);
          (b, pre, s3) = skip_base base s2;
          (v, rest) = parse_digits b 0 s3
      in if rest = s3 then (0, (if pre then tl s2 else s), False)
         else let overflow = v > G_MAXUINT64;
                  n = (if overflow then - 1 else of_int v)
              in ((if neg then - n else n), rest, overflow))"

abbreviation strtoull_val :: "string \<Rightarrow> nat \<Rightarrow> 64 word" where
  "strtoull_val s base \<equiv> fst (g_ascii_strtoull s base)"

text \<open>\<open>g_ascii_string_to_unsigned(s, 10, 0, G_MAXUINT64, &out, &error)\<close>\<close>

definition g_ascii_string_to_unsigned :: "string \<Rightarrow> 64 word result" where
  "g_ascii_string_to_unsigned s =
     (case s of
        [] \<Rightarrow> Error (G_NUMBER_PARSER_ERROR G_NUMBER_PARSER_ERROR_INVALID)
      | c # _ \<Rightarrow>
         (let (n, rest, erange) = g_ascii_strtoull s 10 in
          if g_ascii_isspace c \<or> c = CHR ''-'' \<or> c = CHR ''+'' \<or> rest \<noteq> []
          then Error (G_NUMBER_PARSER_ERROR G_NUMBER_PARSER_ERROR_INVALID)
          else if erange then Error (G_NUMBER_PARSER_ERROR G_NUMBER_PARSER_ERROR_OUT_OF_BOUNDS)
          else Ok n))"

lemma string_to_unsigned_not_Abort [simp]: "g_ascii_string_to_unsigned s \<noteq> Abort"
  by (auto simp: g_ascii_string_to_unsigned_def split: list.splits prod.splits)

text \<open>Printing a natural number in a base.\<close>

function nat_str :: "nat \<Rightarrow> nat \<Rightarrow> string" where
  "nat_str b n = (if b < 2 \<or> n < b then [digit_char n] else nat_str b (n div b) @ [digit_char (n mod b)])"
  by pat_completeness auto
termination
  by (relation "measure (\<lambda>(b, n). n)") (auto simp: div_less_dividend)

declare nat_str.simps [simp del]

definition int_str :: "int \<Rightarrow> string" where
  "int_str i = (if i < 0 then CHR ''-'' # nat_str 10 (nat (- i)) else nat_str 10 (nat i))"

lemma nat_str_neq_Nil [simp]: "nat_str b n \<noteq> []"
  by (subst nat_str.simps) simp

lemma nat_str_digits:
  assumes "2 \<le> b" and "b \<le> 36"
  shows "\<forall>c\<in>set (nat_str b n). \<exists>d<b. c = digit_char d"
  using assms
proof (induction b n rule: nat_str.induct)
  case (1 b n)
  show ?case
  proof (cases "n < b")
    case True
    then show ?thesis by (subst nat_str.simps) auto
  next
    case False
    with 1 have "\<forall>c\<in>set (nat_str b (n div b)). \<exists>d<b. c = digit_char d" by simp
    moreover have "\<exists>d<b. digit_char (n mod b) = digit_char d"
      using 1(2) by (intro exI [of _ "n mod b"]) simp
    ultimately show ?thesis using False 1(2) by (subst nat_str.simps) auto
  qed
qed

lemma nat_str_isalnum:
  "2 \<le> b \<Longrightarrow> b \<le> 36 \<Longrightarrow> c \<in> set (nat_str b n) \<Longrightarrow> g_ascii_isalnum c"
  using nat_str_digits digit_char_isalnum by (metis order_less_le_trans)

lemma parse_digits_append:
  assumes "\<forall>c\<in>set ds. \<exists>d<b. c = digit_char d" and "b \<le> 36"
  shows "parse_digits b acc (ds @ rest)
       = parse_digits b (foldl (\<lambda>a c. a * int b + int (the (ascii_digit_val c))) acc ds) rest"
  using assms by (induction ds arbitrary: acc) auto

lemma nat_str_value:
  assumes "2 \<le> b" and "b \<le> 36"
  shows "foldl (\<lambda>a c. a * int b + int (the (ascii_digit_val c))) 0 (nat_str b n) = int n"
  using assms
proof (induction b n rule: nat_str.induct)
  case (1 b n)
  show ?case
  proof (cases "n < b")
    case True
    then show ?thesis using 1(2,3) by (subst nat_str.simps) simp
  next
    case False
    have "n mod b < 36" using 1(2,3) by (meson less_le_trans mod_less_divisor order_less_le_trans zero_less_numeral)
    moreover have "int (n div b) * int b + int (n mod b) = int n"
      by (metis div_mult_mod_eq of_nat_add of_nat_mult)
    ultimately show ?thesis using False 1 by (subst nat_str.simps) simp
  qed
qed

lemma parse_digits_nat_str:
  assumes "2 \<le> b" and "b \<le> 36"
  shows "parse_digits b 0 (nat_str b n) = (int n, [])"
  using parse_digits_append [OF nat_str_digits [OF assms] assms(2), where n1 = n and acc = 0 and rest = "[]"] nat_str_value [OF assms]
  by simp

lemma digit_char_first_all:
  "list_all (\<lambda>d. \<not> isspace_v (digit_char d) \<and> digit_char d \<noteq> CHR ''-'' \<and> digit_char d \<noteq> CHR ''+''
     \<and> g_ascii_toupper (digit_char d) \<noteq> CHR ''X'' \<and> \<not> g_ascii_isspace (digit_char d)) [0..<16]"
  by code_simp

lemma digit_char_first:
  assumes "d < 16"
  shows "\<not> isspace_v (digit_char d)" "digit_char d \<noteq> CHR ''-''" "digit_char d \<noteq> CHR ''+''"
    "g_ascii_toupper (digit_char d) \<noteq> CHR ''X''" "\<not> g_ascii_isspace (digit_char d)"
  using digit_char_first_all assms by (auto simp: list_all_iff simp del: upt.simps upt_rec_numeral)

lemma skip_base_nat_str:
  assumes "2 \<le> b" and "b \<le> 16"
  shows "skip_base b (nat_str b n) = (b, False, nat_str b n)"
proof -
  have "\<forall>c\<in>set (nat_str b n). g_ascii_toupper c \<noteq> CHR ''X''"
    using nat_str_digits [of b n] assms digit_char_first(4) by fastforce
  then show ?thesis using assms(1)
    by (cases "(b, nat_str b n)" rule: skip_base.cases) auto
qed

text \<open>A printed number is read back exactly, as long as it fits into 64 bits.\<close>

lemma strtoull_nat_str:
  assumes "2 \<le> b" and "b \<le> 16" and "int n \<le> G_MAXUINT64"
  shows "g_ascii_strtoull (nat_str b n) b = (of_nat n, [], False)"
proof -
  obtain c cs where s: "nat_str b n = c # cs"
    by (meson neq_Nil_conv nat_str_neq_Nil)
  then obtain d where d: "d < b" "c = digit_char d"
    using nat_str_digits [of b n] assms by fastforce
  have sign: "skip_sign (dropWhile isspace_v (nat_str b n)) = (False, nat_str b n)"
    using s d assms digit_char_first [of d] by simp
  show ?thesis
    unfolding g_ascii_strtoull_def sign
    using assms nat_str_neq_Nil [of b n] by (simp add: skip_base_nat_str parse_digits_nat_str eq_commute)
qed

lemma string_to_unsigned_nat_str:
  assumes "int n \<le> G_MAXUINT64"
  shows "g_ascii_string_to_unsigned (nat_str 10 n) = Ok (of_nat n)"
proof -
  obtain c cs where s: "nat_str 10 n = c # cs"
    by (meson neq_Nil_conv nat_str_neq_Nil)
  then obtain d where d: "d < 10" "c = digit_char d"
    using nat_str_digits [of 10 n] by fastforce
  have "g_ascii_strtoull (c # cs) 10 = (of_nat n, [], False)"
    using strtoull_nat_str [of 10 n] assms s by simp
  then show ?thesis
    using s d digit_char_first [of d] by (simp add: g_ascii_string_to_unsigned_def)
qed

end
