(* ===== verification/Key_File.thy ===== *)
theory Key_File
  imports Rauc_Strings "HOL-Library.AList"
begin

text \<open>
  The key files (GKeyFile) that carry the manifest, the system configuration and the slot
  status, and the helpers of \<open>src/src/utils.c\<close> that read them.

  A key file is an ordered list of groups, each an ordered list of keys with their values. A
  value is modelled as the string that \<open>g_key_file_get_string\<close> returns, i.e. without
  GKeyFile's own backslash escapes. Integers are stored in decimal, string lists with a
  semicolon after each element.

  The \<open>consume\<close> idiom: the parsers remove what they have read and then require that nothing
  is left (\<open>check_remaining_keys\<close>, \<open>check_remaining_groups\<close>), so that unknown settings
  are errors.
\<close>

type_synonym kf_group = "(string \<times> string) list"
type_synonym key_file = "(string \<times> kf_group) list"

named_theorems kf_simps \<open>read-over-write laws of key files\<close>

subsection \<open>GKeyFile\<close>

definition kf_keys :: "key_file \<Rightarrow> string \<Rightarrow> kf_group" where
  "kf_keys kf g = (case map_of kf g of None \<Rightarrow> [] | Some ks \<Rightarrow> ks)"

text \<open>Group and key together, as a partial map.\<close>

definition kf_get :: "key_file \<Rightarrow> string \<Rightarrow> string \<Rightarrow> string option" where
  "kf_get kf g k = map_of (kf_keys kf g) k"

definition g_key_file_has_group :: "key_file \<Rightarrow> string \<Rightarrow> bool" where
  "g_key_file_has_group kf g \<longleftrightarrow> map_of kf g \<noteq> None"

definition g_key_file_get_groups :: "key_file \<Rightarrow> string list" where
  "g_key_file_get_groups kf = map fst kf"

definition g_key_file_get_keys :: "key_file \<Rightarrow> string \<Rightarrow> string list" where
  "g_key_file_get_keys kf g = map fst (kf_keys kf g)"

definition g_key_file_get_string :: "key_file \<Rightarrow> string \<Rightarrow> string \<Rightarrow> string result" where
  "g_key_file_get_string kf g k = (case map_of kf g of
      None \<Rightarrow> Error (G_KEY_FILE_ERROR G_KEY_FILE_ERROR_GROUP_NOT_FOUND)
    | Some ks \<Rightarrow> (case map_of ks k of
        None \<Rightarrow> Error (G_KEY_FILE_ERROR G_KEY_FILE_ERROR_KEY_NOT_FOUND)
      | Some v \<Rightarrow> Ok v))"

definition g_key_file_set_string :: "key_file \<Rightarrow> string \<Rightarrow> string \<Rightarrow> string \<Rightarrow> key_file" where
  "g_key_file_set_string kf g k v = AList.update g (AList.update k v (kf_keys kf g)) kf"

definition g_key_file_remove_key :: "key_file \<Rightarrow> string \<Rightarrow> string \<Rightarrow> key_file" where
  "g_key_file_remove_key kf g k = (case map_of kf g of
      None \<Rightarrow> kf | Some ks \<Rightarrow> AList.update g (AList.delete k ks) kf)"

definition g_key_file_remove_group :: "key_file \<Rightarrow> string \<Rightarrow> key_file" where
  "g_key_file_remove_group kf g = AList.delete g kf"

definition g_key_file_get_uint64 :: "key_file \<Rightarrow> string \<Rightarrow> string \<Rightarrow> 64 word result" where
  "g_key_file_get_uint64 kf g k = result_bind (g_key_file_get_string kf g k) (\<lambda>s.
     let (n, rest, erange) = g_ascii_strtoull s 10
     in if s = [] \<or> rest \<noteq> [] then Error (G_KEY_FILE_ERROR G_KEY_FILE_ERROR_INVALID_VALUE)
        else Ok n)"

definition g_key_file_set_uint64 :: "key_file \<Rightarrow> string \<Rightarrow> string \<Rightarrow> 64 word \<Rightarrow> key_file" where
  "g_key_file_set_uint64 kf g k n = g_key_file_set_string kf g k (nat_str 10 (unat n))"

text \<open>A list value: the pieces between the separators; a final empty piece does not count.\<close>

definition kf_parse_list :: "string \<Rightarrow> string list" where
  "kf_parse_list s =
     (let ps = split_on (CHR '';'') s in if last ps = [] then butlast ps else ps)"

definition kf_print_list :: "string list \<Rightarrow> string" where
  "kf_print_list xs = concat (map (\<lambda>x. x @ '';'') xs)"

definition g_key_file_get_string_list :: "key_file \<Rightarrow> string \<Rightarrow> string \<Rightarrow> string list option" where
  "g_key_file_get_string_list kf g k = map_option kf_parse_list (kf_get kf g k)"

definition g_key_file_set_string_list ::
    "key_file \<Rightarrow> string \<Rightarrow> string \<Rightarrow> string list \<Rightarrow> key_file" where
  "g_key_file_set_string_list kf g k xs = g_key_file_set_string kf g k (kf_print_list xs)"

text \<open>\<open>g_key_file_get_boolean\<close> accepts \<open>true\<close>, \<open>1\<close>, \<open>false\<close> and \<open>0\<close>, trailing blanks ignored.\<close>

definition g_key_file_get_boolean :: "key_file \<Rightarrow> string \<Rightarrow> string \<Rightarrow> bool result" where
  "g_key_file_get_boolean kf g k = result_bind (g_key_file_get_string kf g k) (\<lambda>s.
     let t = g_strchomp s in
     if t = ''true'' \<or> t = ''1'' then Ok True
     else if t = ''false'' \<or> t = ''0'' then Ok False
     else Error (G_KEY_FILE_ERROR G_KEY_FILE_ERROR_INVALID_VALUE))"

subsection \<open>Helpers of utils.c\<close>

text \<open>The first remaining group is an error.\<close>

definition check_remaining_groups :: "key_file \<Rightarrow> unit result" where
  "check_remaining_groups kf =
     fail_if (g_key_file_get_groups kf \<noteq> []) (G_KEY_FILE_ERROR G_KEY_FILE_ERROR_PARSE)"

definition check_remaining_keys :: "key_file \<Rightarrow> string \<Rightarrow> unit result" where
  "check_remaining_keys kf g =
     fail_if (g_key_file_get_keys kf g \<noteq> []) (G_KEY_FILE_ERROR G_KEY_FILE_ERROR_PARSE)"

text \<open>The value together with the key file without the key; the key is also removed when its
  value is empty, which is an error.\<close>

definition key_file_consume_string ::
    "key_file \<Rightarrow> string \<Rightarrow> string \<Rightarrow> string result \<times> key_file" where
  "key_file_consume_string kf g k = (case g_key_file_get_string kf g k of
      Ok v \<Rightarrow> ((if v = [] then Error (G_KEY_FILE_ERROR G_KEY_FILE_ERROR_PARSE) else Ok v),
              g_key_file_remove_key kf g k)
    | Error e \<Rightarrow> (Error e, kf)
    | Abort \<Rightarrow> (Abort, kf))"

text \<open>The same with the error ignored (a NULL \<open>GError **\<close>).\<close>

definition key_file_consume_string_opt ::
    "key_file \<Rightarrow> string \<Rightarrow> string \<Rightarrow> string option \<times> key_file" where
  "key_file_consume_string_opt kf g k = (case key_file_consume_string kf g k of
      (Ok v, kf') \<Rightarrow> (Some v, kf') | (_, kf') \<Rightarrow> (None, kf'))"

definition value_check_tab_whitespace :: "string \<Rightarrow> unit result" where
  "value_check_tab_whitespace s =
     fail_if (TAB \<in> set s \<or> CHR '' '' \<in> set s) (G_KEY_FILE_ERROR G_KEY_FILE_ERROR_PARSE)"

text \<open>
  A number with an optional K, M, G or T suffix; \<open>*scale | 0x20\<close> on the first character after
  the number maps upper to lower case. The shift drops bits beyond the 64th.
\<close>

definition binary_suffix_shift :: "string \<Rightarrow> nat" where
  "binary_suffix_shift scale = (case scale of [] \<Rightarrow> 0 | c # _ \<Rightarrow>
     (if c = CHR ''k'' \<or> c = CHR ''K'' then 10
      else if c = CHR ''m'' \<or> c = CHR ''M'' then 20
      else if c = CHR ''g'' \<or> c = CHR ''G'' then 30
      else if c = CHR ''t'' \<or> c = CHR ''T'' then 40
      else 0))"

definition key_file_consume_binary_suffixed_string ::
    "key_file \<Rightarrow> string \<Rightarrow> string \<Rightarrow> 64 word result \<times> key_file" where
  "key_file_consume_binary_suffixed_string kf g k = (case key_file_consume_string kf g k of
      (Ok s, kf') \<Rightarrow>
        (let (n, scale, erange) = g_ascii_strtoull s 10
         in (Ok (if n = 0 then n else push_bit (binary_suffix_shift scale) n), kf'))
    | (Error e, kf') \<Rightarrow> (Error e, kf')
    | (Abort, kf') \<Rightarrow> (Abort, kf'))"

subsection \<open>Parsers\<close>

text \<open>The parsers consume the key file: programs whose state is what is left of it.\<close>

type_synonym 'a kf_parser = "(key_file, 'a) io"

definition consume :: "string \<Rightarrow> string \<Rightarrow> string kf_parser" where
  "consume g k kf = key_file_consume_string kf g k"

definition consume_opt :: "string \<Rightarrow> string \<Rightarrow> string option kf_parser" where
  "consume_opt g k kf = (case key_file_consume_string_opt kf g k of (v, kf') \<Rightarrow> (Ok v, kf'))"

definition consume_size :: "string \<Rightarrow> string \<Rightarrow> 64 word kf_parser" where
  "consume_size g k kf = key_file_consume_binary_suffixed_string kf g k"

definition kf_query :: "(key_file \<Rightarrow> 'a result) \<Rightarrow> 'a kf_parser" where
  "kf_query f kf = (f kf, kf)"

text \<open>A string key that may be missing, but not empty.\<close>

definition consume_unless_missing :: "string \<Rightarrow> string \<Rightarrow> string option kf_parser" where
  "consume_unless_missing g k = io_catch (io_bind (consume g k) (\<lambda>v. io_return (Some v)))
     (\<lambda>e. if e = G_KEY_FILE_ERROR G_KEY_FILE_ERROR_KEY_NOT_FOUND then io_return None else io_fail e)"

text \<open>A list that may be missing; the key is removed.\<close>

definition consume_list :: "string \<Rightarrow> string \<Rightarrow> string list option kf_parser" where
  "consume_list g k kf = (Ok (g_key_file_get_string_list kf g k), g_key_file_remove_key kf g k)"

definition remove_group :: "string \<Rightarrow> unit kf_parser" where
  "remove_group g kf = (Ok (), g_key_file_remove_group kf g)"

definition remove_key :: "string \<Rightarrow> string \<Rightarrow> unit kf_parser" where
  "remove_key g k kf = (Ok (), g_key_file_remove_key kf g k)"

text \<open>A flag that may be missing; any other problem is an error.\<close>

definition get_flag :: "string \<Rightarrow> string \<Rightarrow> bool kf_parser \<Rightarrow> bool kf_parser" where
  "get_flag g k otherwise kf = (case g_key_file_get_boolean kf g k of
      Ok b \<Rightarrow> (Ok b, kf)
    | Error e \<Rightarrow> if e = G_KEY_FILE_ERROR G_KEY_FILE_ERROR_KEY_NOT_FOUND then otherwise kf else (Error e, kf)
    | Abort \<Rightarrow> (Abort, kf))"

definition consume_flag :: "string \<Rightarrow> string \<Rightarrow> bool kf_parser" where
  "consume_flag g k = io_bind (get_flag g k (io_return False)) (\<lambda>b. io_bind (remove_key g k) (\<lambda>_. io_return b))"

subsection \<open>Laws\<close>

lemma kf_query_iff [io_iff]: "kf_query f kf = (r, kf') \<longleftrightarrow> f kf = r \<and> kf' = kf"
  by (auto simp: kf_query_def)

lemma remove_key_iff [io_iff]: "remove_key g k kf = (r, kf') \<longleftrightarrow> r = Ok () \<and> kf' = g_key_file_remove_key kf g k"
  by (auto simp: remove_key_def)

lemma remove_group_iff [io_iff]: "remove_group g kf = (r, kf') \<longleftrightarrow> r = Ok () \<and> kf' = g_key_file_remove_group kf g"
  by (auto simp: remove_group_def)


lemma kf_keys_set_string:
  "kf_keys (g_key_file_set_string kf g k v) g' =
     (if g' = g then AList.update k v (kf_keys kf g) else kf_keys kf g')"
  by (simp add: kf_keys_def g_key_file_set_string_def update_conv')

lemma kf_get_set_string [kf_simps]:
  "kf_get (g_key_file_set_string kf g k v) g' k' =
     (if g' = g \<and> k' = k then Some v else kf_get kf g' k')"
  by (auto simp: kf_get_def kf_keys_set_string update_conv')

lemma kf_get_remove_key [kf_simps]:
  "kf_get (g_key_file_remove_key kf g k) g' k' =
     (if g' = g \<and> k' = k then None else kf_get kf g' k')"
  by (auto simp: kf_get_def kf_keys_def g_key_file_remove_key_def update_conv' delete_conv'
      split: option.splits)

lemma kf_get_remove_group [kf_simps]:
  "kf_get (g_key_file_remove_group kf g) g' k = (if g' = g then None else kf_get kf g' k)"
  by (auto simp: kf_get_def kf_keys_def g_key_file_remove_group_def delete_conv')

lemma kf_get_set_uint64 [kf_simps]:
  "kf_get (g_key_file_set_uint64 kf g k n) g' k' =
     (if g' = g \<and> k' = k then Some (nat_str 10 (unat n)) else kf_get kf g' k')"
  by (simp add: g_key_file_set_uint64_def kf_get_set_string)

lemma kf_get_set_string_list [kf_simps]:
  "kf_get (g_key_file_set_string_list kf g k xs) g' k' =
     (if g' = g \<and> k' = k then Some (kf_print_list xs) else kf_get kf g' k')"
  by (simp add: g_key_file_set_string_list_def kf_get_set_string)

lemma kf_get_empty [kf_simps]: "kf_get [] g k = None"
  by (simp add: kf_get_def kf_keys_def)

lemma get_string_eq:
  "g_key_file_get_string kf g k = (case kf_get kf g k of
      Some v \<Rightarrow> Ok v
    | None \<Rightarrow> Error (G_KEY_FILE_ERROR (if g_key_file_has_group kf g
        then G_KEY_FILE_ERROR_KEY_NOT_FOUND else G_KEY_FILE_ERROR_GROUP_NOT_FOUND)))"
  by (auto simp: g_key_file_get_string_def kf_get_def kf_keys_def g_key_file_has_group_def
      split: option.splits)

lemma get_string_Ok_iff: "g_key_file_get_string kf g k = Ok v \<longleftrightarrow> kf_get kf g k = Some v"
  by (simp add: get_string_eq split: option.splits)

lemma get_string_not_Abort [simp]: "g_key_file_get_string kf g k \<noteq> Abort"
  by (simp add: get_string_eq split: option.splits)

lemma consume_string_opt_fst [kf_simps]:
  "fst (key_file_consume_string_opt kf g k) =
     (case kf_get kf g k of None \<Rightarrow> None | Some v \<Rightarrow> if v = [] then None else Some v)"
  by (simp add: key_file_consume_string_opt_def key_file_consume_string_def get_string_eq
      split: option.splits)

lemma consume_string_opt_snd [kf_simps]:
  "kf_get (snd (key_file_consume_string_opt kf g k)) g' k' =
     (if g' = g \<and> k' = k then None else kf_get kf g' k')"
  by (auto simp: key_file_consume_string_opt_def key_file_consume_string_def get_string_eq
      kf_get_remove_key split: option.splits)

lemma consume_string_not_Abort [simp]: "fst (key_file_consume_string kf g k) \<noteq> Abort"
  by (simp add: key_file_consume_string_def get_string_eq split: option.splits)

lemma get_uint64_set [kf_simps]:
  "kf_get kf g k = Some (nat_str 10 (unat n)) \<Longrightarrow> g_key_file_get_uint64 kf g k = Ok n"
proof -
  assume *: "kf_get kf g k = Some (nat_str 10 (unat n))"
  have "int (unat n) \<le> G_MAXUINT64"
    using uint_lt2p [of n] by simp
  then have "g_ascii_strtoull (nat_str 10 (unat n)) 10 = (n, [], False)"
    using strtoull_nat_str [of 10 "unat n"] by simp
  with * show ?thesis
    by (simp add: g_key_file_get_uint64_def get_string_eq)
qed

lemma get_uint64_missing:
  "kf_get kf g k = None \<Longrightarrow> \<exists>e. g_key_file_get_uint64 kf g k = Error e"
  by (simp add: g_key_file_get_uint64_def get_string_eq)

lemma print_list_split:
  "\<forall>x\<in>set xs. CHR '';'' \<notin> set x \<Longrightarrow> split_on (CHR '';'') (kf_print_list xs) = xs @ [[]]"
  by (induction xs) (simp_all add: kf_print_list_def split_on_append_delim)

lemma kf_list_roundtrip:
  "\<forall>x\<in>set xs. CHR '';'' \<notin> set x \<Longrightarrow> kf_parse_list (kf_print_list xs) = xs"
  by (simp add: kf_parse_list_def print_list_split)

lemma check_remaining_keys_Ok:
  "check_remaining_keys kf g = Ok u \<longleftrightarrow> kf_keys kf g = []"
  by (simp add: check_remaining_keys_def g_key_file_get_keys_def)

lemma check_remaining_groups_Ok: "check_remaining_groups kf = Ok u \<longleftrightarrow> kf = []"
  by (simp add: check_remaining_groups_def g_key_file_get_groups_def)

end
