(* ===== verification/Rauc_Utils.thy ===== *)
theory Rauc_Utils
  imports Key_File
begin

unbundle bit_operations_syntax

text \<open>
  Small routines of \<open>src/src/utils.c\<close>: hexadecimal encoding of digests, keys and salts,
  environment variable names for manifest metadata, path construction, and the interface to the
  operating system that the effectful components share.

  \<open>os\<close> collects what RAUC asks of the kernel, of GLib's file and time functions and of
  helper programs; every component that needs one of these takes the record as a parameter, and
  what it relies on is stated as a hypothesis where it is used.
\<close>

subsection \<open>Hexadecimal strings\<close>

fun hex_decode_loop :: "string \<Rightarrow> 8 word list option" where
  "hex_decode_loop (u # l # cs) = (case (g_ascii_xdigit_value u, g_ascii_xdigit_value l) of
      (Some upper, Some lower) \<Rightarrow>
        map_option (\<lambda>raw. (push_bit 4 (of_nat upper) OR of_nat lower) # raw) (hex_decode_loop cs)
    | _ \<Rightarrow> None)"
| "hex_decode_loop _ = Some []"

definition r_hex_decode :: "string \<Rightarrow> nat \<Rightarrow> 8 word list option" where
  "r_hex_decode hex len = (if length hex \<noteq> len * 2 then None else hex_decode_loop hex)"

fun hex_encode_loop :: "8 word list \<Rightarrow> string" where
  "hex_encode_loop [] = []"
| "hex_encode_loop (b # bs) =
     digit_char (unat (drop_bit 4 b)) # digit_char (unat (b AND 15)) # hex_encode_loop bs"

definition r_hex_encode :: "8 word list \<Rightarrow> string result" where
  "r_hex_encode raw = (if raw = [] then Abort else Ok (hex_encode_loop raw))"

lemma nibble_bounds: "unat (drop_bit 4 (b :: 8 word)) < 16" "unat (b AND 15) < 16"
proof -
  have "unat (b AND 15) \<le> unat (15 :: 8 word)"
    by (rule word_and_le1 [THEN word_le_nat_alt [THEN iffD1]])
  then show "unat (b AND 15) < 16" by simp
  have "unat b < 2 ^ LENGTH(8)" by (rule unsigned_less)
  then have "unat b < 256" by simp
  then show "unat (drop_bit 4 b) < 16"
    by (simp only: unat_drop_bit_eq) (simp add: drop_bit_eq_div)
qed

lemma nibbles_byte: "push_bit 4 (drop_bit 4 b) OR (b AND 15) = (b :: 8 word)"
proof -
  have mask: "(15 :: 8 word) = mask 4" by (simp add: mask_eq_exp_minus_1)
  show ?thesis
    unfolding mask
    by (rule bit_word_eqI) (auto simp: bit_simps)
qed

lemma hex_encode_length: "length (hex_encode_loop raw) = length raw * 2"
  by (induction raw) auto

lemma hex_decode_encode_loop: "hex_decode_loop (hex_encode_loop raw) = Some raw"
  by (induction raw) (simp_all add: nibble_bounds nibbles_byte)

lemma hex_decode_loop_length:
  "hex_decode_loop hex = Some raw \<Longrightarrow> even (length hex) \<Longrightarrow> length hex = length raw * 2"
  by (induction hex arbitrary: raw rule: hex_decode_loop.induct) (auto split: option.splits)

subsection \<open>Environment variable names\<close>

definition env_key_char :: "char \<Rightarrow> char option" where
  "env_key_char c = (let u = g_ascii_toupper c in
     if g_ascii_isalnum u then Some u
     else if u = CHR ''_'' then Some u
     else if u = CHR ''-'' then Some (CHR ''_'')
     else None)"

fun r_prepare_env_key :: "string \<Rightarrow> string result" where
  "r_prepare_env_key [] = Ok []"
| "r_prepare_env_key (c # cs) = (case env_key_char c of
      None \<Rightarrow> Error (R_UTILS_ERROR R_UTILS_ERROR_INVALID_ENV_KEY)
    | Some u \<Rightarrow> result_bind (r_prepare_env_key cs) (\<lambda>us. Ok (u # us)))"

text \<open>Upper case letters, digits and the underscore.\<close>

definition env_key_char_ok :: "char \<Rightarrow> bool" where
  "env_key_char_ok c \<longleftrightarrow> g_ascii_isupper c \<or> g_ascii_isdigit c \<or> c = CHR ''_''"

lemma toupper_not_lower: "\<not> g_ascii_islower (g_ascii_toupper c)"
proof (cases "g_ascii_islower c")
  case True
  then have "of_char c - 32 < (256 :: nat)" "of_char c - 32 \<le> (90 :: nat)"
    by (auto simp: g_ascii_islower_def)
  then have "of_char (char_of (of_char c - 32 :: nat)) \<le> (90 :: nat)" by simp
  with True show ?thesis
    by (simp add: g_ascii_toupper_def) (simp add: g_ascii_islower_def)
qed (simp add: g_ascii_toupper_def)

lemma env_key_char_Some: "env_key_char c = Some u \<Longrightarrow> env_key_char_ok u"
  using toupper_not_lower [of c]
  by (auto simp: env_key_char_def env_key_char_ok_def g_ascii_isalnum_def Let_def split: if_splits)

lemma env_key_char_ok_fix: "env_key_char_ok u \<Longrightarrow> env_key_char u = Some u"
  by (auto simp: env_key_char_def env_key_char_ok_def g_ascii_isalnum_def Let_def
      g_ascii_toupper_def g_ascii_islower_def g_ascii_isupper_def g_ascii_isdigit_def)

lemma prepare_env_key_chars:
  "r_prepare_env_key k = Ok k' \<Longrightarrow> length k' = length k \<and> (\<forall>c\<in>set k'. env_key_char_ok c)"
  by (induction k arbitrary: k') (auto simp: io_iff env_key_char_Some split: option.splits)

lemma prepare_env_key_fix: "\<forall>c\<in>set k. env_key_char_ok c \<Longrightarrow> r_prepare_env_key k = Ok k"
  by (induction k) (auto simp: env_key_char_ok_fix)

subsection \<open>Paths\<close>

definition g_path_is_absolute :: "string \<Rightarrow> bool" where
  "g_path_is_absolute p \<longleftrightarrow> (case p of c # _ \<Rightarrow> c = CHR ''/'' | [] \<Rightarrow> False)"

text \<open>\<open>g_build_filename(a, b, NULL)\<close>: exactly one separator between the two parts; empty parts
  are left out.\<close>

definition g_build_filename :: "string \<Rightarrow> string \<Rightarrow> string" where
  "g_build_filename a b =
     (if a = [] then b else if b = [] then a
      else rev (dropWhile (\<lambda>c. c = CHR ''/'') (rev a)) @ ''/'' @ dropWhile (\<lambda>c. c = CHR ''/'') b)"

definition g_path_get_basename :: "string \<Rightarrow> string" where
  "g_path_get_basename f =
     (if f = [] then ''.''
      else let s = dropWhile (\<lambda>c. c = CHR ''/'') (rev f) in
        if s = [] then ''/'' else rev (takeWhile (\<lambda>c. c \<noteq> CHR ''/'') s))"

definition g_path_get_dirname :: "string \<Rightarrow> string" where
  "g_path_get_dirname f =
     (if CHR ''/'' \<notin> set f then ''.''
      else let d = dropWhile (\<lambda>c. c = CHR ''/'') (dropWhile (\<lambda>c. c \<noteq> CHR ''/'') (rev f)) in
        if d = [] then ''/'' else rev d)"

text \<open>A path relative to the file that mentions it; \<open>cwd\<close> is the current directory.\<close>

definition resolve_path :: "string \<Rightarrow> string option \<Rightarrow> string \<Rightarrow> string" where
  "resolve_path cwd basefile path =
     (if g_str_has_prefix path ''pkcs11:'' then path
      else if g_path_is_absolute path then path
      else case basefile of
        None \<Rightarrow> g_build_filename cwd path
      | Some f \<Rightarrow>
          let dir = g_path_get_dirname f in
          if g_path_is_absolute dir then g_build_filename dir path
          else g_build_filename (g_build_filename cwd dir) path)"

lemma build_filename_absolute: "g_path_is_absolute a \<Longrightarrow> g_path_is_absolute (g_build_filename a b)"
proof (cases "b = []")
  case True
  then show "g_path_is_absolute a \<Longrightarrow> ?thesis" by (auto simp: g_build_filename_def)
next
  case False
  assume "g_path_is_absolute a"
  then obtain r where a: "a = CHR ''/'' # r"
    by (auto simp: g_path_is_absolute_def split: list.splits)
  show ?thesis
  proof (cases "rev (dropWhile (\<lambda>c. c = CHR ''/'') (rev a))")
    case Nil
    then have "g_build_filename a b = CHR ''/'' # dropWhile (\<lambda>c. c = CHR ''/'') b"
      using a False by (simp only: g_build_filename_def) simp
    then show ?thesis by (simp add: g_path_is_absolute_def)
  next
    case (Cons c cs)
    have "a = rev (dropWhile (\<lambda>c. c = CHR ''/'') (rev a)) @ rev (takeWhile (\<lambda>c. c = CHR ''/'') (rev a))"
      by (metis rev_append rev_rev_ident takeWhile_dropWhile_id)
    then have "c = CHR ''/''" using a Cons by (metis append_Cons list.inject)
    then have "\<exists>r'. g_build_filename a b = CHR ''/'' # r'"
      using a Cons False by (simp only: g_build_filename_def) simp
    then show ?thesis by (auto simp: g_path_is_absolute_def)
  qed
qed

subsection \<open>The operating system\<close>

record 'w os =
  os_run :: "'w runner"
  os_file_exists :: "string \<Rightarrow> 'w \<Rightarrow> bool"
  os_is_dir :: "string \<Rightarrow> 'w \<Rightarrow> bool"
  os_realpath :: "string \<Rightarrow> 'w \<Rightarrow> string option"
  os_read_file :: "string \<Rightarrow> 'w \<Rightarrow> string result"
  os_list_dir :: "string \<Rightarrow> 'w \<Rightarrow> string list option"
  os_mkdir_with_parents :: "string \<Rightarrow> ('w, unit) io"
  os_rmdir :: "string \<Rightarrow> 'w \<Rightarrow> 'w"
  os_rename :: "string \<Rightarrow> string \<Rightarrow> ('w, unit) io"
  os_remove_tree :: "string \<Rightarrow> ('w, unit) io"
  os_load_key_file :: "string \<Rightarrow> 'w \<Rightarrow> key_file result"
  os_save_key_file :: "string \<Rightarrow> key_file \<Rightarrow> ('w, unit) io"
  os_now :: "'w \<Rightarrow> int"
  os_time_format :: "int \<Rightarrow> string"
  os_time_parse :: "string \<Rightarrow> int option"

text \<open>
  \<open>rm_tree\<close> refuses, without setting an error, to touch anything but a non-trivial absolute
  path (\<open>g_return_val_if_fail\<close>), and otherwise walks the tree with \<open>nftw\<close>.
\<close>

definition rm_tree :: "'w os \<Rightarrow> string \<Rightarrow> ('w, unit) io" where
  "rm_tree os path =
     (if \<not> length path > 1 \<or> \<not> g_path_is_absolute path then io_fail ERROR_UNSET
      else os_remove_tree os path)"

text \<open>An operating system without a file system, for examples that only run programs.\<close>

definition os_programs :: "'w runner \<Rightarrow> 'w os" where
  "os_programs run = \<lparr>os_run = run, os_file_exists = (\<lambda>p w. False), os_is_dir = (\<lambda>p w. False),
     os_realpath = (\<lambda>p w. None), os_read_file = (\<lambda>p w. Error (G_FILE_ERROR G_FILE_ERROR_NOENT)),
     os_list_dir = (\<lambda>p w. None), os_mkdir_with_parents = (\<lambda>p. io_fail (G_FILE_ERROR G_FILE_ERROR_FAILED)),
     os_rmdir = (\<lambda>p w. w), os_rename = (\<lambda>p q. io_fail (G_FILE_ERROR G_FILE_ERROR_NOENT)),
     os_remove_tree = (\<lambda>p. io_fail (G_FILE_ERROR G_FILE_ERROR_NOENT)),
     os_load_key_file = (\<lambda>p w. Error (G_FILE_ERROR G_FILE_ERROR_NOENT)),
     os_save_key_file = (\<lambda>p k. io_fail (G_FILE_ERROR G_FILE_ERROR_FAILED)), os_now = (\<lambda>w. 0),
     os_time_format = int_str, os_time_parse = (\<lambda>s. None)\<rparr>"

lemma os_programs_run [simp]: "os_run (os_programs run) = run"
  by (simp add: os_programs_def)

end
