(* ===== verification/Slot.thy ===== *)
theory Slot
  imports Rauc_Utils
begin

text \<open>
  Slots (\<open>src/src/slot.c\<close>, \<open>src/include/slot.h\<close>): the partitions RAUC updates.

  A \<open>RaucSlot *\<close> is identified by the slot's name, the key of the configuration's hash table; the
  \<open>parent\<close> pointer is the name of the parent slot. The hash table itself is the list of its
  values in iteration order, which GLib does not specify but which is fixed as long as the table is
  not modified (after parsing it never is). \<open>slots_wf\<close> is the invariant that \<open>parse_slots\<close> establishes;
  it does not depend on the order: every list that \<open>iterates\<close> over the same slots has it as well.
\<close>

subsection \<open>Data\<close>

datatype g_checksum_type = G_CHECKSUM_MD5 | G_CHECKSUM_SHA1 | G_CHECKSUM_SHA256
  | G_CHECKSUM_SHA512 | G_CHECKSUM_SHA384

text \<open>\<open>size\<close> is a \<open>goffset\<close>: 64 bits, read as signed.\<close>

record rauc_checksum =
  cs_type :: g_checksum_type
  cs_digest :: "string option"
  cs_size :: "64 word"

definition checksum_new0 :: rauc_checksum where
  "checksum_new0 = \<lparr>cs_type = G_CHECKSUM_MD5, cs_digest = None, cs_size = 0\<rparr>"

datatype slot_state = ST_UNKNOWN | ST_ACTIVE | ST_INACTIVE | ST_BOOTED

text \<open>
  A \<open>GDateTime\<close> is the number of microseconds since 1970 (a \<open>GTimeSpan\<close>). The status file keeps only the
  whole seconds of it.
\<close>

record rauc_slot_status =
  st_bundle_compatible :: "string option"
  st_bundle_version :: "string option"
  st_bundle_description :: "string option"
  st_bundle_build :: "string option"
  st_bundle_hash :: "string option"
  st_status :: "string option"
  st_checksum :: rauc_checksum
  st_installed_txn :: "string option"
  st_installed_timestamp :: "int option"
  st_installed_count :: "32 word"
  st_activated_timestamp :: "int option"
  st_activated_count :: "32 word"

definition slot_status_new0 :: rauc_slot_status where
  "slot_status_new0 = \<lparr>st_bundle_compatible = None, st_bundle_version = None,
     st_bundle_description = None, st_bundle_build = None, st_bundle_hash = None,
     st_status = None, st_checksum = checksum_new0, st_installed_txn = None,
     st_installed_timestamp = None, st_installed_count = 0,
     st_activated_timestamp = None, st_activated_count = 0\<rparr>"

record rauc_slot =
  slot_name :: string
  slot_description :: "string option"
  slot_sclass :: string
  slot_device :: string
  slot_type :: string
  slot_extra_mkfs_opts :: "string list option"
  slot_bootname :: "string option"
  slot_allow_mounted :: bool
  slot_readonly :: bool
  slot_install_same :: bool
  slot_extra_mount_opts :: "string option"
  slot_resize :: bool
  slot_region_start :: "64 word"
  slot_region_size :: "64 word"
  slot_size_limit :: "64 word"
  slot_efi_loader :: "string option"
  slot_efi_cmdline :: "string option"
  slot_state :: slot_state
  slot_boot_good :: bool
  slot_parent :: "string option"
  slot_parent_name :: "string option"
  slot_mount_point :: "string option"
  slot_ext_mount_point :: "string option"
  slot_status :: "rauc_slot_status option"
  slot_data_directory :: "string option"

type_synonym slots = "rauc_slot list"

definition slot_new0 :: "string \<Rightarrow> string \<Rightarrow> rauc_slot" where
  "slot_new0 nm cls = \<lparr>slot_name = nm, slot_description = None, slot_sclass = cls, slot_device = [],
     slot_type = [], slot_extra_mkfs_opts = None, slot_bootname = None, slot_allow_mounted = False,
     slot_readonly = False, slot_install_same = False, slot_extra_mount_opts = None,
     slot_resize = False, slot_region_start = 0, slot_region_size = 0, slot_size_limit = 0,
     slot_efi_loader = None, slot_efi_cmdline = None, slot_state = ST_UNKNOWN,
     slot_boot_good = False, slot_parent = None, slot_parent_name = None, slot_mount_point = None,
     slot_ext_mount_point = None, slot_status = None, slot_data_directory = None\<rparr>"

text \<open>\<open>g_hash_table_lookup(slots, name)\<close>\<close>

definition slot_lookup :: "slots \<Rightarrow> string \<Rightarrow> rauc_slot option" where
  "slot_lookup slots n = find (\<lambda>s. slot_name s = n) slots"

text \<open>Writing through a slot pointer.\<close>

definition slot_update :: "slots \<Rightarrow> string \<Rightarrow> (rauc_slot \<Rightarrow> rauc_slot) \<Rightarrow> slots" where
  "slot_update slots n f = map (\<lambda>s. if slot_name s = n then f s else s) slots"

subsection \<open>Operations\<close>

definition r_slot_clear_status :: "rauc_slot_status \<Rightarrow> rauc_slot_status" where
  "r_slot_clear_status st = st\<lparr>st_bundle_compatible := None, st_bundle_version := None,
     st_bundle_description := None, st_bundle_build := None, st_bundle_hash := None,
     st_status := None, st_checksum := (st_checksum st)\<lparr>cs_digest := None, cs_size := 0\<rparr>,
     st_installed_txn := None, st_installed_timestamp := None, st_activated_timestamp := None\<rparr>"

definition r_slot_find_by_device :: "slots \<Rightarrow> string \<Rightarrow> rauc_slot option" where
  "r_slot_find_by_device slots device = find (\<lambda>s. slot_device s = device) slots"

definition r_slot_get_booted :: "slots \<Rightarrow> rauc_slot option" where
  "r_slot_get_booted slots = find (\<lambda>s. slot_state s = ST_BOOTED) slots"

fun r_slot_slotstate_to_str :: "slot_state \<Rightarrow> string result" where
  "r_slot_slotstate_to_str ST_ACTIVE = Ok ''active''"
| "r_slot_slotstate_to_str ST_INACTIVE = Ok ''inactive''"
| "r_slot_slotstate_to_str ST_BOOTED = Ok ''booted''"
| "r_slot_slotstate_to_str ST_UNKNOWN = Abort"

definition r_slot_str_to_slotstate :: "string \<Rightarrow> slot_state" where
  "r_slot_str_to_slotstate s =
     (if s = ''active'' then ST_ACTIVE
      else if s = ''inactive'' then ST_INACTIVE
      else if s = ''booted'' then ST_BOOTED
      else ST_UNKNOWN)"

definition supported_slot_types :: "(string \<times> bool) list" where
  "supported_slot_types = [(''raw'', False), (''ext4'', True), (''ubifs'', True), (''ubivol'', False),
     (''nand'', False), (''nor'', False), (''boot-emmc'', False), (''boot-mbr-switch'', False),
     (''boot-gpt-switch'', False), (''vfat'', True), (''boot-raw-fallback'', False)]"

definition r_slot_is_valid_type :: "string \<Rightarrow> bool" where
  "r_slot_is_valid_type ty \<longleftrightarrow> map_of supported_slot_types ty \<noteq> None"

definition r_slot_is_mountable :: "rauc_slot \<Rightarrow> bool" where
  "r_slot_is_mountable slot = (case map_of supported_slot_types (slot_type slot) of
      Some mountable \<Rightarrow> mountable | None \<Rightarrow> False)"

text \<open>
  Follows the parent pointers. With a pointer cycle the loop does not end; the configuration
  parser rejects cycles, and \<open>parent_root_total\<close> below shows that the loop then returns.
\<close>

partial_function (option) r_slot_get_parent_root :: "slots \<Rightarrow> rauc_slot \<Rightarrow> rauc_slot option" where
  "r_slot_get_parent_root slots base = (case slot_parent base of
      None \<Rightarrow> Some base
    | Some p \<Rightarrow> (case slot_lookup slots p of
        None \<Rightarrow> None
      | Some base' \<Rightarrow> r_slot_get_parent_root slots base'))"

declare r_slot_get_parent_root.simps [code]

text \<open>
  The per-slot data directories \<open>hash-<digest>\<close>. A missing data directory setting gives NULL
  without an error (\<open>Ok None\<close>).
\<close>

definition hash_dir :: "string \<Rightarrow> string" where
  "hash_dir digest = ''hash-'' @ digest"

definition r_slot_get_checksum_data_directory ::
    "'w os \<Rightarrow> rauc_slot \<Rightarrow> rauc_checksum option \<Rightarrow> ('w, string option) io" where
  "r_slot_get_checksum_data_directory os slot checksum = (case slot_data_directory slot of
      None \<Rightarrow> io_return None
    | Some dir \<Rightarrow>
       (let d1 = (case checksum of None \<Rightarrow> None | Some c \<Rightarrow> cs_digest c);
            d2 = (case (d1, slot_status slot) of
                    (None, Some st) \<Rightarrow> cs_digest (st_checksum st) | _ \<Rightarrow> d1);
            hex_digest = (case d2 of None \<Rightarrow> ''unknown'' | Some d \<Rightarrow> d);
            path = g_build_filename dir (hash_dir hex_digest)
        in io_bind (os_mkdir_with_parents os path) (\<lambda>_. io_return (Some path))))"

definition r_slot_move_checksum_data_directory ::
    "'w os \<Rightarrow> rauc_slot \<Rightarrow> string option \<Rightarrow> string option \<Rightarrow> ('w, unit) io" where
  "r_slot_move_checksum_data_directory os slot old_digest new_digest =
     (case (slot_data_directory slot, old_digest) of
        (None, _) \<Rightarrow> io_return ()
      | (_, None) \<Rightarrow> io_return ()
      | (Some dir, Some old) \<Rightarrow>
         (let new = (case new_digest of None \<Rightarrow> ''unknown'' | Some d \<Rightarrow> d);
              old_path = g_build_filename dir (hash_dir old);
              new_path = g_build_filename dir (hash_dir new)
          in io_bind (\<lambda>w. if os_file_exists os new_path w then rm_tree os new_path w else (Ok (), w))
             (\<lambda>_. io_catch (os_rename os old_path new_path)
                (\<lambda>e. if e = G_FILE_ERROR G_FILE_ERROR_NOENT then io_return () else io_fail e))))"

text \<open>
  \<open>g_strdup_printf("hash-%s", NULL)\<close> prints \<open>(null)\<close>; that is what the code compares with when
  the slot has a status without a digest.
\<close>

definition clean_expected_directory :: "rauc_slot \<Rightarrow> string" where
  "clean_expected_directory slot = hash_dir (case slot_status slot of
      None \<Rightarrow> ''unknown''
    | Some st \<Rightarrow> (case cs_digest (st_checksum st) of None \<Rightarrow> ''(null)'' | Some d \<Rightarrow> d))"

fun clean_data_loop :: "'w os \<Rightarrow> string \<Rightarrow> string \<Rightarrow> string list \<Rightarrow> ('w, unit) io" where
  "clean_data_loop os dir expected [] = io_return ()"
| "clean_data_loop os dir expected (name # names) =
     (if \<not> g_str_has_prefix name ''hash-'' then clean_data_loop os dir expected names
      else if name = expected then clean_data_loop os dir expected names
      else io_bind
        (io_catch (rm_tree os (g_build_filename dir name))
           (\<lambda>e. if e = ERROR_UNSET then io_abort else io_return ()))
        (\<lambda>_. clean_data_loop os dir expected names))"

definition r_slot_clean_data_directory :: "'w os \<Rightarrow> rauc_slot \<Rightarrow> ('w, unit) io" where
  "r_slot_clean_data_directory os slot = (case slot_data_directory slot of
      None \<Rightarrow> io_return ()
    | Some dir \<Rightarrow>
        if \<not> g_path_is_absolute dir then io_abort
        else if (case slot_status slot of None \<Rightarrow> False | Some st \<Rightarrow> st_status st = Some ''pending'')
        then io_return ()
        else (\<lambda>w. case os_list_dir os dir w of
             None \<Rightarrow> (Ok (), w)
           | Some names \<Rightarrow> clean_data_loop os dir (clean_expected_directory slot) names w))"

text \<open>\<open>g_ptr_array_remove_fast\<close> moves the last element into the gap.\<close>

fun g_ptr_array_remove_fast :: "'a \<Rightarrow> 'a list \<Rightarrow> 'a list" where
  "g_ptr_array_remove_fast x [] = []"
| "g_ptr_array_remove_fast x (y # ys) =
     (if y = x then (if ys = [] then [] else last ys # butlast ys)
      else y # g_ptr_array_remove_fast x ys)"

definition ptr_array_add_unique :: "'a \<Rightarrow> 'a list \<Rightarrow> 'a list" where
  "ptr_array_add_unique x xs = g_ptr_array_remove_fast x xs @ [x]"

definition r_slot_get_root_classes :: "slots \<Rightarrow> string list" where
  "r_slot_get_root_classes slots =
     fold (\<lambda>s acc. if slot_parent s \<noteq> None then acc else ptr_array_add_unique (slot_sclass s) acc) slots []"

definition r_slot_list_contains :: "slots \<Rightarrow> rauc_slot \<Rightarrow> bool" where
  "r_slot_list_contains slotlist testslot = list_ex (\<lambda>s. slot_name s = slot_name testslot) slotlist"

definition r_slot_get_all_of_class :: "slots \<Rightarrow> string \<Rightarrow> slots" where
  "r_slot_get_all_of_class slots cls = filter (\<lambda>s. slot_sclass s = cls) slots"

text \<open>\<open>None\<close> when the search for a parent root does not end.\<close>

fun r_slot_get_all_children_loop :: "slots \<Rightarrow> rauc_slot \<Rightarrow> slots \<Rightarrow> slots option" where
  "r_slot_get_all_children_loop slots parent [] = Some []"
| "r_slot_get_all_children_loop slots parent (s # ss) =
     (if slot_name s = slot_name parent then r_slot_get_all_children_loop slots parent ss
      else (case r_slot_get_parent_root slots s of
        None \<Rightarrow> None
      | Some r \<Rightarrow> (case r_slot_get_all_children_loop slots parent ss of
          None \<Rightarrow> None
        | Some rest \<Rightarrow> Some (if slot_name parent \<noteq> slot_name r then rest else s # rest))))"

definition r_slot_get_all_children :: "slots \<Rightarrow> rauc_slot \<Rightarrow> slots option" where
  "r_slot_get_all_children slots parent = r_slot_get_all_children_loop slots parent slots"

subsection \<open>Well-formed slot tables\<close>

definition bootnames :: "slots \<Rightarrow> string list" where
  "bootnames slots = concat (map (\<lambda>s. case slot_bootname s of None \<Rightarrow> [] | Some b \<Rightarrow> [b]) slots)"

definition bootname_ok :: "string \<Rightarrow> bool" where
  "bootname_ok b \<longleftrightarrow> b \<noteq> [] \<and> TAB \<notin> set b \<and> CHR '' '' \<notin> set b"

definition parent_ok :: "slots \<Rightarrow> rauc_slot \<Rightarrow> bool" where
  "parent_ok slots s = (case slot_parent s of None \<Rightarrow> True
     | Some p \<Rightarrow> slot_bootname s = None \<and>
         (case slot_lookup slots p of None \<Rightarrow> False | Some q \<Rightarrow> slot_parent q = None))"

definition slots_wf :: "slots \<Rightarrow> bool" where
  "slots_wf slots \<longleftrightarrow> distinct (map slot_name slots) \<and> distinct (bootnames slots)
     \<and> list_all bootname_ok (bootnames slots) \<and> list_all (parent_ok slots) slots"

text \<open>A walk through the hash table: each of its slots once, in any order.\<close>

definition iterates :: "slots \<Rightarrow> slots \<Rightarrow> bool" where
  "iterates table slots \<longleftrightarrow> distinct (map slot_name table) \<and> set table = set slots"

subsection \<open>Facts\<close>

lemma slot_lookup_Some: "slot_lookup slots n = Some s \<Longrightarrow> s \<in> set slots \<and> slot_name s = n"
  by (auto simp: slot_lookup_def find_Some_iff)

lemma slot_lookup_name:
  "distinct (map slot_name slots) \<Longrightarrow> s \<in> set slots \<Longrightarrow> slot_lookup slots (slot_name s) = Some s"
  by (induction slots) (auto simp: slot_lookup_def image_iff)

lemma slots_eq_name:
  "distinct (map slot_name slots) \<Longrightarrow> s \<in> set slots \<Longrightarrow> t \<in> set slots \<Longrightarrow>
   slot_name s = slot_name t \<Longrightarrow> s = t"
  by (rule inj_onD [of slot_name "set slots"]) (simp_all add: distinct_map)

lemma set_bootnames: "b \<in> set (bootnames slots) \<longleftrightarrow> (\<exists>s\<in>set slots. slot_bootname s = Some b)"
  by (induction slots) (auto simp: bootnames_def split: option.splits)

lemma bootname_unique:
  "distinct (bootnames slots) \<Longrightarrow> s \<in> set slots \<Longrightarrow> t \<in> set slots \<Longrightarrow>
   slot_bootname s = Some b \<Longrightarrow> slot_bootname t = Some b \<Longrightarrow> s = t"
proof (induction slots)
  case (Cons u us)
  then have tl: "distinct (bootnames us)" and
    hd: "slot_bootname u = Some b \<Longrightarrow> b \<notin> set (bootnames us)"
    by (auto simp: bootnames_def)
  show ?case
  proof (cases "slot_bootname u = Some b")
    case True
    then have "\<forall>v\<in>set us. slot_bootname v \<noteq> Some b" using hd set_bootnames by blast
    with Cons.prems show ?thesis by auto
  next
    case False
    with Cons tl show ?thesis by auto
  qed
qed simp

lemma slots_wfD:
  assumes "slots_wf slots"
  shows "distinct (map slot_name slots)" "distinct (bootnames slots)"
    "\<And>s b. s \<in> set slots \<Longrightarrow> slot_bootname s = Some b \<Longrightarrow> bootname_ok b"
    "\<And>s. s \<in> set slots \<Longrightarrow> parent_ok slots s"
  using assms set_bootnames by (auto simp: slots_wf_def list_all_iff)

lemma distinct_bootnamesI:
  "distinct slots \<Longrightarrow> (\<And>s t b. s \<in> set slots \<Longrightarrow> t \<in> set slots \<Longrightarrow> slot_bootname s = Some b \<Longrightarrow>
     slot_bootname t = Some b \<Longrightarrow> s = t) \<Longrightarrow> distinct (bootnames slots)"
proof (induction slots)
  case (Cons u us)
  then have "distinct (bootnames us)" by auto
  moreover have "b \<notin> set (bootnames us)" if "slot_bootname u = Some b" for b
    using Cons.prems that by (auto simp: set_bootnames)
  ultimately show ?case by (auto simp: bootnames_def split: option.splits)
qed (simp add: bootnames_def)

lemma slots_wf_iterates:
  assumes "slots_wf slots" and "iterates table slots"
  shows "slots_wf table"
proof -
  have d: "distinct (map slot_name table)" and eq: "set table = set slots" using assms(2) by (auto simp: iterates_def)
  have look: "slot_lookup table n = Some q" if "slot_lookup slots n = Some q" for n q
    using slot_lookup_Some [OF that] slot_lookup_name [OF d, of q] eq by auto
  have "distinct (bootnames table)"
    using slots_wfD(2) [OF assms(1)] d eq bootname_unique
    by (intro distinct_bootnamesI) (auto simp: distinct_map dest: bootname_unique)
  moreover have "parent_ok table s" if "s \<in> set table" for s
    using slots_wfD(4) [OF assms(1), of s] that eq by (auto simp: parent_ok_def split: option.splits dest: look)
  moreover have "list_all bootname_ok (bootnames table)"
    using assms(1) eq by (auto simp: slots_wf_def list_all_iff set_bootnames)
  ultimately show ?thesis using d by (simp add: slots_wf_def list_all_iff)
qed

text \<open>In a well-formed table a slot's group root is itself or its direct parent.\<close>

lemma parent_root_self [simp]:
  "slot_parent s = None \<Longrightarrow> r_slot_get_parent_root slots s = Some s"
  by (subst r_slot_get_parent_root.simps) simp

lemma parent_root_parent:
  assumes "slots_wf slots" and "s \<in> set slots" and "slot_parent s = Some p"
  obtains q where "slot_lookup slots p = Some q" "slot_parent q = None"
    "r_slot_get_parent_root slots s = Some q"
proof -
  obtain q where q: "slot_lookup slots p = Some q" "slot_parent q = None"
    using slots_wfD(4) [OF assms(1,2)] assms(3) by (auto simp: parent_ok_def split: option.splits)
  moreover have "r_slot_get_parent_root slots s = Some q"
    using q assms(3) by (subst r_slot_get_parent_root.simps) simp
  ultimately show ?thesis using that by blast
qed

lemma parent_root_total:
  assumes "slots_wf slots" and "s \<in> set slots"
  obtains q where "r_slot_get_parent_root slots s = Some q" "q \<in> set slots" "slot_parent q = None"
proof (cases "slot_parent s")
  case None
  then show ?thesis using that assms(2) by simp
next
  case (Some p)
  then show ?thesis using parent_root_parent [OF assms Some] slot_lookup_Some that by metis
qed

lemma remove_fast_set:
  "distinct xs \<Longrightarrow> set (g_ptr_array_remove_fast x xs) = set xs - {x} \<and>
     distinct (g_ptr_array_remove_fast x xs)"
proof (induction xs)
  case (Cons y ys)
  show ?case
  proof (cases "y = x \<and> ys \<noteq> []")
    case True
    then obtain zs z where "ys = zs @ [z]" by (metis rev_exhaust)
    with True Cons.prems show ?thesis by auto
  next
    case False
    with Cons show ?thesis by auto
  qed
qed simp

lemma ptr_array_add_unique_set:
  "distinct xs \<Longrightarrow> set (ptr_array_add_unique x xs) = insert x (set xs) \<and>
     distinct (ptr_array_add_unique x xs)"
  using remove_fast_set [of xs x] by (auto simp: ptr_array_add_unique_def)

lemma root_classes_fold:
  assumes "distinct acc"
  shows "distinct (fold (\<lambda>s acc. if slot_parent s \<noteq> None then acc
             else ptr_array_add_unique (slot_sclass s) acc) slots acc)
    \<and> set (fold (\<lambda>s acc. if slot_parent s \<noteq> None then acc
             else ptr_array_add_unique (slot_sclass s) acc) slots acc)
       = set acc \<union> slot_sclass ` {s \<in> set slots. slot_parent s = None}"
  using assms
proof (induction slots arbitrary: acc)
  case (Cons s ss)
  show ?case
  proof (cases "slot_parent s")
    case None
    have "distinct (ptr_array_add_unique (slot_sclass s) acc)"
      using ptr_array_add_unique_set [OF Cons.prems] by blast
    from Cons.IH [OF this] None show ?thesis
      using ptr_array_add_unique_set [OF Cons.prems, of "slot_sclass s"] by auto
  next
    case (Some p)
    with Cons show ?thesis by auto
  qed
qed auto

lemma r_slot_get_root_classes_spec:
  "distinct (r_slot_get_root_classes slots)"
  "set (r_slot_get_root_classes slots) = slot_sclass ` {s \<in> set slots. slot_parent s = None}"
  using root_classes_fold [of "[]" slots] by (auto simp: r_slot_get_root_classes_def)

lemma slot_names_update [simp]:
  assumes "\<And>s. slot_name (f s) = slot_name s"
  shows "map slot_name (slot_update slots n f) = map slot_name slots"
  using assms by (simp add: slot_update_def)

lemma slot_lookup_update:
  assumes "\<And>s. slot_name (f s) = slot_name s"
  shows "slot_lookup (slot_update slots n f) m =
     (if m = n then map_option f (slot_lookup slots m) else slot_lookup slots m)"
  using assms by (induction slots) (auto simp: slot_lookup_def slot_update_def)

text \<open>Textual and internal slot states correspond, \<open>ST_UNKNOWN\<close> apart.\<close>

lemma slotstate_roundtrip:
  "r_slot_slotstate_to_str st = Ok s \<Longrightarrow> r_slot_str_to_slotstate s = st"
  by (cases st) (auto simp: r_slot_str_to_slotstate_def)

end
