(* ===== verification/Boot_Spec.thy ===== *)
theory Boot_Spec
  imports Slot
begin

text \<open>
  The configuration record (\<open>src/include/config_file.h\<close>, the fields the modelled components
  read) and the contract between RAUC and a boot loader backend.

  A backend stores which slot is booted next (the primary) and which slots may be booted at all
  (their state, good or bad). The locales state what the rest of RAUC relies on:

  \<^item> \<open>boot_primary\<close>: after a successful \<open>set_primary\<close>, \<open>get_primary\<close> answers that slot;
  \<^item> \<open>boot_backend\<close>: in addition, the new primary is good; after a successful
    \<open>set_state\<close> to bad the slot is neither good nor primary, and every other good slot stays good.

  The theories of the backends prove these contracts for the translated code, relative to the
  documented behaviour of the helper program each backend calls.
\<close>

subsection \<open>Configuration\<close>

record rauc_config =
  cfg_system_compatible :: "string option"
  cfg_system_min_bundle_version :: "string option"
  cfg_system_variant :: "string option"
  cfg_system_bootloader :: "string option"
  cfg_system_bb_statename :: "string option"
  cfg_system_bb_dtbpath :: "string option"
  cfg_boot_default_attempts :: "32 word"
  cfg_boot_attempts_primary :: "32 word"
  cfg_grubenv_path :: "string option"
  cfg_custom_bootloader_backend :: string
  cfg_efi_use_bootnext :: bool
  cfg_prevent_late_fallback :: bool
  cfg_activate_installed :: bool
  cfg_mount_prefix :: string
  cfg_data_directory :: "string option"
  cfg_statusfile_path :: "string option"
  cfg_preinstall_handler :: "string option"
  cfg_postinstall_handler :: "string option"

text \<open>The settings on which the example configurations are based.\<close>

definition config_default :: rauc_config where
  "config_default = \<lparr>cfg_system_compatible = None, cfg_system_min_bundle_version = None,
     cfg_system_variant = None, cfg_system_bootloader = None, cfg_system_bb_statename = None,
     cfg_system_bb_dtbpath = None, cfg_boot_default_attempts = 0, cfg_boot_attempts_primary = 0,
     cfg_grubenv_path = None, cfg_custom_bootloader_backend = [], cfg_efi_use_bootnext = True,
     cfg_prevent_late_fallback = False, cfg_activate_installed = True,
     cfg_mount_prefix = ''/mnt/rauc/'', cfg_data_directory = None, cfg_statusfile_path = None,
     cfg_preinstall_handler = None, cfg_postinstall_handler = None\<rparr>"

text \<open>A \<open>gint\<close> attempts setting that is not positive selects the backend's default.\<close>

definition attempts_or_default :: "32 word \<Rightarrow> 32 word \<Rightarrow> 32 word" where
  "attempts_or_default attempts dflt = (if sint attempts \<le> 0 then dflt else attempts)"

lemma attempts_positive:
  "0 < sint dflt \<Longrightarrow> 0 < sint (attempts_or_default a dflt)"
  by (simp add: attempts_or_default_def)

lemma sint_pos_unat: "0 < sint (a :: 32 word) \<Longrightarrow> 0 < unat a"
  by (metis neq0_conv order_less_irrefl sint_0 unsigned_eq_0_iff)

subsection \<open>Boot order\<close>

text \<open>
  \<open>r_bootchooser_order_primary\<close>: the given slot first, then every other slot that has a
  bootname, in the order of the hash table.
\<close>

definition r_bootchooser_order_primary :: "slots \<Rightarrow> rauc_slot \<Rightarrow> string" where
  "r_bootchooser_order_primary slots slot =
     (case slot_bootname slot of None \<Rightarrow> [] | Some b \<Rightarrow> b) @
     concat (map (\<lambda>s. if slot_name s = slot_name slot then []
                     else (case slot_bootname s of None \<Rightarrow> [] | Some b \<Rightarrow> '' '' @ b)) slots)"

definition other_bootnames :: "slots \<Rightarrow> rauc_slot \<Rightarrow> string list" where
  "other_bootnames slots slot = bootnames (filter (\<lambda>s. slot_name s \<noteq> slot_name slot) slots)"

definition bootable :: "slots \<Rightarrow> rauc_slot \<Rightarrow> bool" where
  "bootable slots s \<longleftrightarrow> s \<in> set slots \<and> slot_bootname s \<noteq> None"

text \<open>Bootnames without any white space; \<open>parse_slots\<close> itself only excludes blank and tab.\<close>

definition bootname_clean :: "string \<Rightarrow> bool" where
  "bootname_clean b \<longleftrightarrow> b \<noteq> [] \<and> (\<forall>c\<in>set b. \<not> g_ascii_isspace c)"

definition boot_slots_ok :: "slots \<Rightarrow> bool" where
  "boot_slots_ok slots \<longleftrightarrow> distinct (map slot_name slots) \<and> distinct (bootnames slots) \<and>
     list_all bootname_clean (bootnames slots)"

lemma boot_slots_okD:
  assumes "boot_slots_ok slots"
  shows "distinct (map slot_name slots)" "distinct (bootnames slots)"
    "\<And>s b. s \<in> set slots \<Longrightarrow> slot_bootname s = Some b \<Longrightarrow> bootname_clean b"
  using assms set_bootnames by (auto simp: boot_slots_ok_def list_all_iff)

lemma bootname_clean_no_blank: "bootname_clean b \<Longrightarrow> CHR '' '' \<notin> set b"
  by (auto simp: bootname_clean_def g_ascii_isspace_def)

lemma join_blanks: "g_strjoinv '' '' (x # ys) = x @ concat (map (\<lambda>y. '' '' @ y) ys)"
  by (induction ys arbitrary: x) auto

lemma order_primary_join:
  assumes "slot_bootname slot = Some b"
  shows "r_bootchooser_order_primary slots slot = g_strjoinv '' '' (b # other_bootnames slots slot)"
proof -
  have "concat (map (\<lambda>s. if slot_name s = slot_name slot then []
          else (case slot_bootname s of None \<Rightarrow> [] | Some b \<Rightarrow> '' '' @ b)) slots)
      = concat (map (\<lambda>y. '' '' @ y) (other_bootnames slots slot))"
    by (induction slots) (auto simp: other_bootnames_def bootnames_def split: option.splits)
  then show ?thesis using assms by (simp add: r_bootchooser_order_primary_def join_blanks)
qed

lemma set_other_bootnames: "set (other_bootnames slots slot) \<subseteq> set (bootnames slots)"
  by (auto simp: other_bootnames_def set_bootnames)

lemma all_bootnames_clean:
  assumes "boot_slots_ok slots" and "s \<in> set slots" and "slot_bootname s = Some b"
  shows "list_all bootname_clean (b # other_bootnames slots s)"
proof -
  have "list_all bootname_clean (other_bootnames slots s)"
    using assms(1) set_other_bootnames [of slots s] by (auto simp: boot_slots_ok_def list_all_iff)
  then show ?thesis using boot_slots_okD(3) [OF assms] by simp
qed

text \<open>Printing a NULL bootname with \<open>%s\<close>.\<close>

definition bootname_str :: "rauc_slot \<Rightarrow> string" where
  "bootname_str slot = (case slot_bootname slot of None \<Rightarrow> ''(null)'' | Some b \<Rightarrow> b)"

text \<open>A boot order as the helper programs store it: names separated by blanks, no other white
  space. Reading such a value back gives the same names.\<close>

definition clean_order :: "string \<Rightarrow> bool" where
  "clean_order v \<longleftrightarrow> (\<forall>c\<in>set v. g_ascii_isspace c \<longrightarrow> c = CHR '' '')"

definition order_names :: "string \<Rightarrow> string list" where
  "order_names v = g_strsplit (g_strchomp v) (CHR '' '')"

lemma set_chomp: "set (g_strchomp v) \<subseteq> set v"
  using g_strchomp_prefix [of v] by (metis set_append sup_ge1)

lemma set_split_on: "t \<in> set (split_on d s) \<Longrightarrow> set t \<subseteq> set s"
  by (induction s arbitrary: t) (fastforce split: if_splits list.splits)+

lemma order_names_clean:
  assumes "clean_order v" and "t \<in> set (order_names v)" and "t \<noteq> []"
  shows "bootname_clean t"
proof -
  have "set t \<subseteq> set v"
    using assms(2) set_chomp set_split_on
    by (fastforce simp: order_names_def g_strsplit_def split: if_splits)
  moreover have "CHR '' '' \<notin> set t"
    using assms(2) g_strsplit_pieces by (auto simp: order_names_def)
  ultimately show ?thesis
    using assms(1,3) by (auto simp: bootname_clean_def clean_order_def)
qed

lemma order_chomp:
  assumes "list_all bootname_clean xs"
  shows "g_strchomp (g_strjoinv '' '' xs) = g_strjoinv '' '' xs"
proof (cases "xs = []")
  case False
  have "\<forall>x\<in>set xs. x \<noteq> []" using assms by (auto simp: list_all_iff bootname_clean_def)
  moreover have "\<not> g_ascii_isspace (last (last xs))"
    using assms False by (metis bootname_clean_def last_in_set list_all_iff)
  ultimately show ?thesis using last_join [OF False] by (metis g_strchomp_id)
qed simp

lemma order_names_join:
  assumes "list_all bootname_clean xs"
  shows "order_names (g_strjoinv '' '' xs) = xs"
proof -
  have "\<forall>x\<in>set xs. CHR '' '' \<notin> set x" and "xs \<noteq> [[]]"
    using assms bootname_clean_no_blank by (auto simp: list_all_iff bootname_clean_def)
  then show ?thesis
    using g_strsplit_join order_chomp [OF assms] by (simp add: order_names_def)
qed

lemma clean_order_join:
  assumes "list_all bootname_clean xs"
  shows "clean_order (g_strjoinv '' '' xs)"
  using assms set_join [of "'' ''" xs]
  by (auto simp: clean_order_def list_all_iff bootname_clean_def)

lemma clean_order_newline: "clean_order v \<Longrightarrow> NEWLINE \<notin> set v"
  by (auto simp: clean_order_def g_ascii_isspace_def)

subsection \<open>Searching a slot by bootname\<close>

definition slot_by_bootname :: "slots \<Rightarrow> string \<Rightarrow> rauc_slot option" where
  "slot_by_bootname slots b = find (\<lambda>s. slot_bootname s = Some b) slots"

lemma slot_by_bootname_Some:
  "slot_by_bootname slots b = Some s \<Longrightarrow> s \<in> set slots \<and> slot_bootname s = Some b"
  by (auto simp: slot_by_bootname_def find_Some_iff)

lemma slot_by_bootname_found:
  assumes "distinct (bootnames slots)" and "s \<in> set slots" and "slot_bootname s = Some b"
  shows "slot_by_bootname slots b = Some s"
proof (cases "slot_by_bootname slots b")
  case None
  then show ?thesis using assms by (auto simp: slot_by_bootname_def find_None_iff)
next
  case (Some t)
  then show ?thesis
    using slot_by_bootname_Some [OF Some] bootname_unique [OF assms(1)] assms(2,3) by metis
qed

subsection \<open>The contract of a backend\<close>

locale boot_primary =
  fixes slots :: slots
    and inv :: "'w \<Rightarrow> bool"
    and get_primary :: "('w, rauc_slot) io"
    and set_primary :: "rauc_slot \<Rightarrow> ('w, unit) io"
  assumes primary_after_set_primary:
      "\<lbrakk>inv w; bootable slots s; set_primary s w = (Ok (), w')\<rbrakk> \<Longrightarrow> get_primary w' = (Ok s, w')"
    and set_primary_inv: "\<lbrakk>inv w; bootable slots s; set_primary s w = (Ok (), w')\<rbrakk> \<Longrightarrow> inv w'"
begin

text \<open>The last successful activation wins.\<close>

lemma primary_after_two:
  assumes "inv w" and "bootable slots s" and "bootable slots t"
    and "set_primary s w = (Ok (), w1)" and "set_primary t w1 = (Ok (), w2)"
  shows "get_primary w2 = (Ok t, w2)"
  using assms primary_after_set_primary set_primary_inv by blast

end

locale boot_backend = boot_primary slots inv get_primary set_primary
  for slots and inv :: "'w \<Rightarrow> bool" and get_primary and set_primary +
  fixes get_state :: "rauc_slot \<Rightarrow> ('w, bool) io"
    and set_state :: "rauc_slot \<Rightarrow> bool \<Rightarrow> ('w, unit) io"
  assumes good_after_set_primary:
      "\<lbrakk>inv w; bootable slots s; set_primary s w = (Ok (), w')\<rbrakk> \<Longrightarrow> get_state s w' = (Ok True, w')"
    and bad_after_set_bad:
      "\<lbrakk>inv w; bootable slots s; set_state s False w = (Ok (), w')\<rbrakk> \<Longrightarrow> fst (get_state s w') \<noteq> Ok True"
    and not_primary_after_set_bad:
      "\<lbrakk>inv w; bootable slots s; set_state s False w = (Ok (), w')\<rbrakk> \<Longrightarrow> fst (get_primary w') \<noteq> Ok s"
    and good_kept_by_set_bad:
      "\<lbrakk>inv w; bootable slots s; bootable slots t; t \<noteq> s; get_state t w = (Ok True, w);
        set_state s False w = (Ok (), w')\<rbrakk> \<Longrightarrow> get_state t w' = (Ok True, w')"
    and set_bad_inv: "\<lbrakk>inv w; bootable slots s; set_state s False w = (Ok (), w')\<rbrakk> \<Longrightarrow> inv w'"
begin

text \<open>
  The sequence an installation performs on the target slot: mark it bad, write it, activate it.
  Between the two the target cannot be chosen by the boot loader, and a good other slot
  (the one the system runs from) remains bootable; afterwards the target is primary and good.
\<close>

lemma install_sequence:
  assumes "inv w" and "bootable slots s" and "set_state s False w = (Ok (), w1)"
    and "set_primary s w1 = (Ok (), w2)"
  shows "fst (get_primary w1) \<noteq> Ok s" "fst (get_state s w1) \<noteq> Ok True"
    "get_primary w2 = (Ok s, w2)" "get_state s w2 = (Ok True, w2)" "inv w2"
  using assms not_primary_after_set_bad bad_after_set_bad set_bad_inv
    primary_after_set_primary good_after_set_primary set_primary_inv
  by blast+

text \<open>Marking a list of slots bad leaves every good slot outside the list good.\<close>

lemma good_kept_by_set_bad_list:
  assumes "inv w" and "\<forall>s\<in>set ss. bootable slots s \<and> s \<noteq> t" and "bootable slots t"
    and "get_state t w = (Ok True, w)"
    and "fold (\<lambda>s m. io_bind m (\<lambda>_. set_state s False)) ss (io_return ()) w = (Ok (), w')"
  shows "inv w' \<and> get_state t w' = (Ok True, w')"
  using assms(2,5)
proof (induction ss arbitrary: w' rule: rev_induct)
  case Nil
  then show ?case using assms by (simp add: io_iff)
next
  case (snoc s ss)
  then obtain w1 where "fold (\<lambda>s m. io_bind m (\<lambda>_. set_state s False)) ss (io_return ()) w = (Ok (), w1)"
    and s: "set_state s False w1 = (Ok (), w')"
    by (auto simp: io_iff)
  with snoc have "inv w1" "get_state t w1 = (Ok True, w1)" by auto
  then show ?case using snoc.prems(1) s assms(3) good_kept_by_set_bad [of w1 s t w'] set_bad_inv by auto
qed

end

end
