(* ===== verification/Uboot.thy ===== *)
theory Uboot
  imports Boot_Spec "HOL-Library.AList"
begin

text \<open>
  The U-Boot backend (\<open>src/src/bootloaders/uboot.c\<close>). The boot environment is read with
  \<open>fw_printenv\<close> and written with \<open>fw_setenv\<close>: \<open>BOOT_ORDER\<close> lists the bootnames in the order
  U-Boot tries them, \<open>BOOT_x_LEFT\<close> counts the remaining attempts of slot \<open>x\<close> in hexadecimal.

  \<open>fw_env_tools\<close> states what is documented of the two programs; the backend contract
  \<open>boot_backend\<close> is proved for the code relative to it.
\<close>

abbreviation UBOOT_DEFAULT_ATTEMPTS :: "32 word" where "UBOOT_DEFAULT_ATTEMPTS \<equiv> 3"
abbreviation UBOOT_ATTEMPTS_PRIMARY :: "32 word" where "UBOOT_ATTEMPTS_PRIMARY \<equiv> 3"

subsection \<open>Environment access\<close>

text \<open>
  The output is \<open>key=value\<close>; the code skips the key and the equal sign without looking. If the
  output is shorter than that, \<open>size - offset\<close> wraps around and the read goes out of bounds.
\<close>

definition uboot_env_get :: "'w runner \<Rightarrow> string \<Rightarrow> ('w, string) io" where
  "uboot_env_get run key =
     io_bind (run_stdout run [''fw_printenv'', key]) (\<lambda>data.
       let offset = length key + 1 in
       if length data < offset then io_abort
       else io_return (g_strchomp (drop offset data)))"

definition uboot_env_set :: "'w runner \<Rightarrow> string \<Rightarrow> string \<Rightarrow> ('w, unit) io" where
  "uboot_env_set run key value = run_wait_check run [''fw_setenv'', key, value]"

definition uboot_left_key :: "rauc_slot \<Rightarrow> string" where
  "uboot_left_key slot = ''BOOT_'' @ bootname_str slot @ ''_LEFT''"

subsection \<open>Backend operations\<close>

definition r_uboot_get_state :: "'w runner \<Rightarrow> rauc_slot \<Rightarrow> ('w, bool) io" where
  "r_uboot_get_state run slot =
     io_bind (uboot_env_get run ''BOOT_ORDER'') (\<lambda>order.
       if slot_bootname slot \<notin> Some ` set (g_strsplit order (CHR '' '')) then io_return False
       else io_bind (uboot_env_get run (uboot_left_key slot)) (\<lambda>attempts.
         io_return (strtoull_val attempts 16 > 0)))"

text \<open>\<open>BOOT_ORDER\<close> without the slot and without empty names.\<close>

definition uboot_order_without :: "rauc_slot \<Rightarrow> string \<Rightarrow> string list" where
  "uboot_order_without slot order =
     filter (\<lambda>b. Some b \<noteq> slot_bootname slot \<and> b \<noteq> []) (g_strsplit order (CHR '' ''))"

definition r_uboot_set_state :: "'w runner \<Rightarrow> rauc_config \<Rightarrow> rauc_slot \<Rightarrow> bool \<Rightarrow> ('w, unit) io" where
  "r_uboot_set_state run cfg slot good =
     io_bind
       (if good then io_return ()
        else (\<lambda>w. case uboot_env_get run ''BOOT_ORDER'' w of
            (Ok order_current, w') \<Rightarrow>
              uboot_env_set run ''BOOT_ORDER'' (g_strjoinv '' '' (uboot_order_without slot order_current)) w'
          | (Error e, w') \<Rightarrow> (Ok (), w')
          | (Abort, w') \<Rightarrow> (Abort, w')))
       (\<lambda>_. let attempts = (if good
              then attempts_or_default (cfg_boot_default_attempts cfg) UBOOT_DEFAULT_ATTEMPTS else 0)
            in uboot_env_set run (uboot_left_key slot) (nat_str 16 (unat attempts)))"

text \<open>The inner loop over the slots, the outer loop over the names of the boot order.\<close>

fun uboot_scan_slots :: "'w runner \<Rightarrow> string \<Rightarrow> slots \<Rightarrow> ('w, rauc_slot option) io" where
  "uboot_scan_slots run bootname [] = io_return None"
| "uboot_scan_slots run bootname (slot # ss) =
     (if slot_bootname slot \<noteq> Some bootname then uboot_scan_slots run bootname ss
      else io_bind (uboot_env_get run (uboot_left_key slot)) (\<lambda>attempts.
        if strtoull_val attempts 16 \<le> 0 then uboot_scan_slots run bootname ss
        else io_return (Some slot)))"

fun uboot_scan_order :: "'w runner \<Rightarrow> slots \<Rightarrow> string list \<Rightarrow> ('w, rauc_slot) io" where
  "uboot_scan_order run slots [] = io_fail (R_BOOTCHOOSER_ERROR R_BOOTCHOOSER_ERROR_PARSE_FAILED)"
| "uboot_scan_order run slots (bootname # bs) =
     io_bind (uboot_scan_slots run bootname slots) (\<lambda>primary. case primary of
         Some slot \<Rightarrow> io_return slot
       | None \<Rightarrow> uboot_scan_order run slots bs)"

definition r_uboot_get_primary :: "'w runner \<Rightarrow> slots \<Rightarrow> ('w, rauc_slot) io" where
  "r_uboot_get_primary run slots =
     io_bind (uboot_env_get run ''BOOT_ORDER'') (\<lambda>order.
       uboot_scan_order run slots (g_strsplit order (CHR '' '')))"

definition r_uboot_set_primary ::
    "'w runner \<Rightarrow> rauc_config \<Rightarrow> slots \<Rightarrow> rauc_slot \<Rightarrow> ('w, unit) io" where
  "r_uboot_set_primary run cfg slots slot =
     io_bind
       (io_catch (uboot_env_get run ''BOOT_ORDER'')
          (\<lambda>e. io_return (r_bootchooser_order_primary slots slot)))
       (\<lambda>order_current.
         let order_new = (case slot_bootname slot of None \<Rightarrow> [] | Some b \<Rightarrow> b) @
               concat (map (\<lambda>b. '' '' @ b) (uboot_order_without slot order_current));
             attempts = attempts_or_default (cfg_boot_attempts_primary cfg) UBOOT_ATTEMPTS_PRIMARY
         in io_bind (uboot_env_set run (uboot_left_key slot) (nat_str 16 (unat attempts)))
              (\<lambda>_. uboot_env_set run ''BOOT_ORDER'' order_new))"

subsection \<open>The U-Boot environment tools\<close>

text \<open>
  \<open>env w\<close> is the environment in state \<open>w\<close>. \<open>fw_printenv\<close> prints a variable that is set and
  fails for one that is not; \<open>fw_setenv\<close>, when it succeeds, sets the variable, or deletes it
  when the value is empty. It may also fail, with any effect.
\<close>

locale fw_env_tools =
  fixes run :: "'w runner" and env :: "'w \<Rightarrow> string \<rightharpoonup> string"
  assumes printenv_set: "env w k = Some v \<Longrightarrow>
      run [''fw_printenv'', k] w = (Exited 0 (k @ ''='' @ v @ [NEWLINE]), w)"
    and printenv_unset: "env w k = None \<Longrightarrow>
      \<exists>ret out. ret \<noteq> 0 \<and> run [''fw_printenv'', k] w = (Exited ret out, w)"
    and setenv: "run [''fw_setenv'', k, v] w = (Exited 0 out, w') \<Longrightarrow>
      env w' = (env w)(k := (if v = [] then None else Some v))"

definition uboot_inv :: "('w \<Rightarrow> string \<rightharpoonup> string) \<Rightarrow> 'w \<Rightarrow> bool" where
  "uboot_inv env w \<longleftrightarrow> (case env w ''BOOT_ORDER'' of None \<Rightarrow> True | Some v \<Rightarrow> clean_order v)"

lemma left_key_neq_order: "uboot_left_key s \<noteq> ''BOOT_ORDER''"
proof
  assume "uboot_left_key s = ''BOOT_ORDER''"
  then have "last (uboot_left_key s) = last ''BOOT_ORDER''" by simp
  then show False by (simp add: uboot_left_key_def)
qed

lemma left_key_inject: "uboot_left_key s = uboot_left_key t \<longleftrightarrow> bootname_str s = bootname_str t"
  by (simp add: uboot_left_key_def)

lemma hex_attempts_positive: "0 < unat (a :: 32 word) \<Longrightarrow> 0 < strtoull_val (nat_str 16 (unat a)) 16"
proof -
  assume a: "0 < unat a"
  have lt: "uint a < 4294967296" using uint_lt2p [of a] by simp
  then have "g_ascii_strtoull (nat_str 16 (unat a)) 16 = (of_nat (unat a), [], False)"
    by (intro strtoull_nat_str) auto
  moreover have "uint (of_nat (unat a) :: 64 word) = uint a"
    by (simp add: uint_up_ucast is_up)
  ultimately show ?thesis using a by (auto simp: word_less_def unat_gt_0 word_neq_0_conv)
qed

lemma hex_chomp: "g_strchomp (nat_str 16 n) = nat_str 16 n"
proof (rule g_strchomp_id)
  have "g_ascii_isalnum (last (nat_str 16 n))"
    using nat_str_isalnum [of 16 "last (nat_str 16 n)" n] by simp
  then show "nat_str 16 n = [] \<or> \<not> g_ascii_isspace (last (nat_str 16 n))"
    by (simp add: isalnum_not_isspace)
qed

context fw_env_tools
begin

lemma env_get_set: "env w k = Some v \<Longrightarrow> uboot_env_get run k w = (Ok (g_strchomp v), w)"
proof -
  assume "env w k = Some v"
  then have "run_stdout run [''fw_printenv'', k] w = (Ok (k @ ''='' @ v @ [NEWLINE]), w)"
    by (simp add: io_iff printenv_set)
  then have "uboot_env_get run k w = io_return (g_strchomp (v @ [NEWLINE])) w"
    by (simp add: uboot_env_get_def io_bind_OkI)
  then show ?thesis by (simp add: io_return_def)
qed

lemma env_get_unset: "env w k = None \<Longrightarrow> \<exists>e. uboot_env_get run k w = (Error e, w)"
proof -
  assume "env w k = None"
  then obtain ret out where "ret \<noteq> 0" "run [''fw_printenv'', k] w = (Exited ret out, w)"
    using printenv_unset by blast
  then show ?thesis
    by (intro exI) (simp add: uboot_env_get_def run_stdout_def io_bind_def)
qed

lemma env_set: "uboot_env_set run k v w = (Ok (), w') \<Longrightarrow>
    env w' = (env w)(k := (if v = [] then None else Some v))"
  by (auto simp: uboot_env_set_def io_iff dest: setenv)

text \<open>When \<open>r_uboot_get_state\<close> answers good.\<close>

lemma get_state_good_iff:
  assumes "slot_bootname s = Some b"
  shows "fst (r_uboot_get_state run s w) = Ok True \<longleftrightarrow>
      (\<exists>v a. env w ''BOOT_ORDER'' = Some v \<and> b \<in> set (order_names v) \<and>
             env w (uboot_left_key s) = Some a \<and> strtoull_val (g_strchomp a) 16 > 0)"
    and "fst (r_uboot_get_state run s w) = Ok True \<Longrightarrow> r_uboot_get_state run s w = (Ok True, w)"
proof -
  have *: "(fst (r_uboot_get_state run s w) = Ok True \<longleftrightarrow>
      (\<exists>v a. env w ''BOOT_ORDER'' = Some v \<and> b \<in> set (order_names v) \<and>
             env w (uboot_left_key s) = Some a \<and> strtoull_val (g_strchomp a) 16 > 0)) \<and>
      (fst (r_uboot_get_state run s w) = Ok True \<longrightarrow> r_uboot_get_state run s w = (Ok True, w))"
  proof (cases "env w ''BOOT_ORDER''")
    case None
    then obtain e where "uboot_env_get run ''BOOT_ORDER'' w = (Error e, w)" using env_get_unset by blast
    then show ?thesis using None by (simp add: r_uboot_get_state_def io_bind_ErrorI)
  next
    case (Some v)
    note order = env_get_set [OF Some]
    show ?thesis
    proof (cases "b \<in> set (order_names v)")
      case False
      then show ?thesis using Some assms
        by (auto simp: r_uboot_get_state_def io_bind_def order order_names_def io_return_def)
    next
      case True
      show ?thesis
      proof (cases "env w (uboot_left_key s)")
        case None
        then obtain e where "uboot_env_get run (uboot_left_key s) w = (Error e, w)"
          using env_get_unset by blast
        then show ?thesis using None True assms
          by (auto simp: r_uboot_get_state_def io_bind_def order order_names_def io_bind_ErrorI)
      next
        case left: (Some a)
        then show ?thesis using Some True assms
          by (auto simp: r_uboot_get_state_def io_bind_def order order_names_def
              env_get_set [OF left] io_return_def)
      qed
    qed
  qed
  then show "fst (r_uboot_get_state run s w) = Ok True \<longleftrightarrow>
      (\<exists>v a. env w ''BOOT_ORDER'' = Some v \<and> b \<in> set (order_names v) \<and>
             env w (uboot_left_key s) = Some a \<and> strtoull_val (g_strchomp a) 16 > 0)"
    and "fst (r_uboot_get_state run s w) = Ok True \<Longrightarrow> r_uboot_get_state run s w = (Ok True, w)"
    by blast+
qed

lemma scan_slots_found:
  assumes "s \<in> set ss" and "slot_bootname s = Some b" and "\<forall>t\<in>set ss. slot_bootname t = Some b \<longrightarrow> t = s"
    and "env w (uboot_left_key s) = Some a" and "strtoull_val (g_strchomp a) 16 > 0"
  shows "uboot_scan_slots run b ss w = (Ok (Some s), w)"
  using assms(1,3)
proof (induction ss)
  case (Cons u us)
  show ?case
  proof (cases "u = s")
    case True
    then show ?thesis using assms(2,5)
      by (simp add: io_bind_def env_get_set [OF assms(4)] io_return_def word_greater_zero_iff)
  next
    case False
    then have "slot_bootname u \<noteq> Some b" using Cons.prems by auto
    then show ?thesis using Cons False by auto
  qed
qed simp

lemma set_state_bad_env:
  assumes "r_uboot_set_state run cfg s False w = (Ok (), w')"
  shows "env w' = (case env w ''BOOT_ORDER'' of
       None \<Rightarrow> env w
     | Some v \<Rightarrow> (let names = uboot_order_without s (g_strchomp v) in
         (env w)(''BOOT_ORDER'' := (if g_strjoinv '' '' names = [] then None
            else Some (g_strjoinv '' '' names)))))(uboot_left_key s \<mapsto> nat_str 16 0)"
proof (cases "env w ''BOOT_ORDER''")
  case None
  then obtain e where "uboot_env_get run ''BOOT_ORDER'' w = (Error e, w)" using env_get_unset by blast
  with assms have "uboot_env_set run (uboot_left_key s) (nat_str 16 0) w = (Ok (), w')"
    by (auto simp: r_uboot_set_state_def io_iff)
  from env_set [OF this] show ?thesis using None by simp
next
  case (Some v)
  obtain w1 where w1: "uboot_env_set run ''BOOT_ORDER''
        (g_strjoinv '' '' (uboot_order_without s (g_strchomp v))) w = (Ok (), w1)"
    and w': "uboot_env_set run (uboot_left_key s) (nat_str 16 0) w1 = (Ok (), w')"
    using assms env_get_set [OF Some] by (auto simp: r_uboot_set_state_def io_iff)
  from env_set [OF w1] env_set [OF w'] show ?thesis using Some by (simp add: Let_def)
qed

lemma order_without_clean:
  "clean_order v \<Longrightarrow> list_all bootname_clean (uboot_order_without s (g_strchomp v))"
  using order_names_clean [of v]
  by (auto simp: uboot_order_without_def list_all_iff order_names_def)

lemma set_primary_env:
  assumes "r_uboot_set_primary run cfg slots s w = (Ok (), w')" and "slot_bootname s = Some b"
    and "uboot_inv env w" and "boot_slots_ok slots" and "s \<in> set slots"
  obtains names where "list_all bootname_clean names"
    "env w' = (env w)(uboot_left_key s \<mapsto> nat_str 16 (unat (attempts_or_default
        (cfg_boot_attempts_primary cfg) UBOOT_ATTEMPTS_PRIMARY)),
      ''BOOT_ORDER'' \<mapsto> g_strjoinv '' '' (b # names))"
proof -
  obtain cur w1 where
      cur: "io_catch (uboot_env_get run ''BOOT_ORDER'')
          (\<lambda>e. io_return (r_bootchooser_order_primary slots s)) w = (Ok cur, w1)"
    and rest: "io_bind (uboot_env_set run (uboot_left_key s) (nat_str 16 (unat (attempts_or_default
            (cfg_boot_attempts_primary cfg) UBOOT_ATTEMPTS_PRIMARY))))
          (\<lambda>_. uboot_env_set run ''BOOT_ORDER''
             (g_strjoinv '' '' (b # uboot_order_without s cur))) w1 = (Ok (), w')"
    using assms(1,2) by (auto simp: r_uboot_set_primary_def io_bind_Ok_iff Let_def join_blanks)
  have clean: "list_all bootname_clean (uboot_order_without s cur) \<and> w1 = w"
  proof (cases "env w ''BOOT_ORDER''")
    case None
    then obtain e where "uboot_env_get run ''BOOT_ORDER'' w = (Error e, w)" using env_get_unset by blast
    with cur have c: "cur = r_bootchooser_order_primary slots s" "w1 = w" by (auto simp: io_iff)
    have names: "list_all bootname_clean (b # other_bootnames slots s)"
      by (rule all_bootnames_clean [OF assms(4,5,2)])
    have "clean_order cur" and "order_names cur = b # other_bootnames slots s"
      unfolding c(1) order_primary_join [OF assms(2)]
      by (rule clean_order_join [OF names], rule order_names_join [OF names])
    moreover have "g_strchomp cur = cur"
      unfolding c(1) order_primary_join [OF assms(2)] by (rule order_chomp [OF names])
    ultimately show ?thesis using order_without_clean [of cur s] c by simp
  next
    case (Some v)
    with cur env_get_set [OF Some] have "cur = g_strchomp v" "w1 = w" by (auto simp: io_iff)
    then show ?thesis using order_without_clean [of v s] assms(3) Some by (simp add: uboot_inv_def)
  qed
  moreover have "g_strjoinv '' '' (b # ns) \<noteq> []" for ns
    using assms(2,4,5) boot_slots_okD(3) by (cases ns) (auto simp: bootname_clean_def)
  ultimately show ?thesis
    using that rest by (auto simp: io_bind_Ok_iff dest!: env_set)
qed

end

subsection \<open>The contract\<close>

text \<open>\<open>boot_slots_ok\<close> is a property of the configuration, so it is part of the locale's context.\<close>

locale uboot_backend = fw_env_tools run env for run :: "'w runner" and env +
  fixes cfg :: rauc_config and slots :: slots
  assumes slots_ok: "boot_slots_ok slots"
begin

lemma left_key_neq:
  assumes "bootable slots s" and "bootable slots t" and "t \<noteq> s"
  shows "uboot_left_key t \<noteq> uboot_left_key s"
  using assms bootname_unique [OF boot_slots_okD(2) [OF slots_ok]]
  by (auto simp: bootable_def left_key_inject bootname_str_def)

lemma set_primary_get_primary:
  assumes "uboot_inv env w" and "bootable slots s" and "r_uboot_set_primary run cfg slots s w = (Ok (), w')"
  shows "r_uboot_get_primary run slots w' = (Ok s, w')" "r_uboot_get_state run s w' = (Ok True, w')"
    "uboot_inv env w'"
proof -
  obtain b where b: "slot_bootname s = Some b" "s \<in> set slots" using assms(2) by (auto simp: bootable_def)
  obtain names where names: "list_all bootname_clean names"
    and env: "env w' = (env w)(uboot_left_key s \<mapsto> nat_str 16 (unat (attempts_or_default
        (cfg_boot_attempts_primary cfg) UBOOT_ATTEMPTS_PRIMARY)),
      ''BOOT_ORDER'' \<mapsto> g_strjoinv '' '' (b # names))"
    using set_primary_env [OF assms(3) b(1) assms(1) slots_ok b(2)] .
  let ?a = "nat_str 16 (unat (attempts_or_default (cfg_boot_attempts_primary cfg) UBOOT_ATTEMPTS_PRIMARY))"
  have bn: "list_all bootname_clean (b # names)"
    using names b boot_slots_okD(3) [OF slots_ok] by simp
  have left: "env w' (uboot_left_key s) = Some ?a"
    using env left_key_neq_order [of s] by simp
  have order: "env w' ''BOOT_ORDER'' = Some (g_strjoinv '' '' (b # names))" using env by simp
  have pos: "strtoull_val (g_strchomp ?a) 16 > 0"
    using hex_attempts_positive [OF sint_pos_unat [OF attempts_positive]] by (simp add: hex_chomp)
  have "uboot_scan_slots run b slots w' = (Ok (Some s), w')"
    using scan_slots_found [OF b(2,1) _ left pos]
      bootname_unique [OF boot_slots_okD(2) [OF slots_ok] _ b(2) _ b(1)] by blast
  then have "uboot_scan_order run slots (b # names) w' = (Ok s, w')"
    by (simp add: io_bind_OkI io_return_def)
  then show "r_uboot_get_primary run slots w' = (Ok s, w')"
    using order_names_join [OF bn]
    by (simp add: r_uboot_get_primary_def io_bind_def env_get_set [OF order] order_names_def)
  have "b \<in> set (order_names (g_strjoinv '' '' (b # names)))"
    using order_names_join [OF bn] by simp
  then show "r_uboot_get_state run s w' = (Ok True, w')"
    using get_state_good_iff [OF b(1), of w'] order left pos by blast
  show "uboot_inv env w'" using order clean_order_join [OF bn] by (simp add: uboot_inv_def)
qed

lemma scan_order_name:
  "uboot_scan_order run slots bs w = (Ok s, w') \<Longrightarrow> \<exists>b\<in>set bs. slot_bootname s = Some b"
proof (induction bs arbitrary: w)
  case (Cons b bs)
  have "uboot_scan_slots run b ss w = (Ok (Some t), w1) \<Longrightarrow> slot_bootname t = Some b" for ss t w w1
    by (induction ss arbitrary: w) (auto simp: io_iff split: if_splits)
  with Cons show ?case by (fastforce simp: io_iff split: option.splits)
qed (simp add: io_iff)

lemma set_bad_order:
  assumes "uboot_inv env w" and "r_uboot_set_state run cfg s False w = (Ok (), w')"
    and "env w' ''BOOT_ORDER'' = Some v'"
  obtains v where "env w ''BOOT_ORDER'' = Some v" "clean_order v'"
    "order_names v' = uboot_order_without s (g_strchomp v)"
proof -
  obtain v where v: "env w ''BOOT_ORDER'' = Some v"
    using set_state_bad_env [OF assms(2)] assms(3) left_key_neq_order [of s]
    by (cases "env w ''BOOT_ORDER''") auto
  have c: "list_all bootname_clean (uboot_order_without s (g_strchomp v))"
    using order_without_clean assms(1) v by (simp add: uboot_inv_def)
  have "v' = g_strjoinv '' '' (uboot_order_without s (g_strchomp v))"
    using set_state_bad_env [OF assms(2)] assms(3) v left_key_neq_order [of s]
    by (auto simp: Let_def split: if_splits)
  then show ?thesis using that v order_names_join [OF c] clean_order_join [OF c] by blast
qed

lemma order_without_name: "slot_bootname s = Some b \<Longrightarrow> b \<notin> set (uboot_order_without s v)"
  by (auto simp: uboot_order_without_def)

lemma set_bad_laws:
  assumes "uboot_inv env w" and "bootable slots s" and "r_uboot_set_state run cfg s False w = (Ok (), w')"
  shows "fst (r_uboot_get_state run s w') \<noteq> Ok True" "fst (r_uboot_get_primary run slots w') \<noteq> Ok s"
    "uboot_inv env w'"
proof -
  obtain b where b: "slot_bootname s = Some b" using assms(2) by (auto simp: bootable_def)
  have absent: "b \<notin> set (order_names v')" if "env w' ''BOOT_ORDER'' = Some v'" for v'
    using set_bad_order [OF assms(1,3) that] order_without_name [OF b] by metis
  then show "fst (r_uboot_get_state run s w') \<noteq> Ok True"
    using get_state_good_iff(1) [OF b, of w'] by blast
  show "uboot_inv env w'"
    using set_bad_order [OF assms(1,3)] by (fastforce simp: uboot_inv_def split: option.splits)
  show "fst (r_uboot_get_primary run slots w') \<noteq> Ok s"
  proof (cases "env w' ''BOOT_ORDER''")
    case None
    then obtain e where "uboot_env_get run ''BOOT_ORDER'' w' = (Error e, w')" using env_get_unset by blast
    then show ?thesis by (simp add: r_uboot_get_primary_def io_bind_ErrorI)
  next
    case (Some v')
    show ?thesis
    proof
      assume "fst (r_uboot_get_primary run slots w') = Ok s"
      then obtain w2 where "uboot_scan_order run slots (order_names v') w' = (Ok s, w2)"
        by (cases "r_uboot_get_primary run slots w'")
          (auto simp: r_uboot_get_primary_def io_bind_def env_get_set [OF Some] order_names_def)
      then show False using scan_order_name absent [OF Some] b by (metis option.inject)
    qed
  qed
qed

lemma good_kept:
  assumes "uboot_inv env w" and "bootable slots s" and "bootable slots t" and "t \<noteq> s"
    and "r_uboot_get_state run t w = (Ok True, w)" and "r_uboot_set_state run cfg s False w = (Ok (), w')"
  shows "r_uboot_get_state run t w' = (Ok True, w')"
proof -
  obtain b where b: "slot_bootname t = Some b" using assms(3) by (auto simp: bootable_def)
  obtain v a where v: "env w ''BOOT_ORDER'' = Some v" and in_v: "b \<in> set (order_names v)"
    and a: "env w (uboot_left_key t) = Some a" "strtoull_val (g_strchomp a) 16 > 0"
    using get_state_good_iff(1) [OF b, of w] assms(5) by auto
  have bs: "slot_bootname s \<noteq> Some b"
    using assms(2,3,4) b bootname_unique [OF boot_slots_okD(2) [OF slots_ok]] by (auto simp: bootable_def)
  have bt: "bootname_clean b" using boot_slots_okD(3) [OF slots_ok] assms(3) b by (auto simp: bootable_def)
  have mem: "b \<in> set (uboot_order_without s (g_strchomp v))"
    using in_v bs bt by (auto simp: uboot_order_without_def order_names_def bootname_clean_def)
  let ?names = "uboot_order_without s (g_strchomp v)"
  have c: "list_all bootname_clean ?names"
    using order_without_clean assms(1) v by (simp add: uboot_inv_def)
  have ne: "g_strjoinv '' '' ?names \<noteq> []"
    using mem c join_eq_Nil [of "'' ''" ?names] by (auto simp: bootname_clean_def)
  have "env w' ''BOOT_ORDER'' = Some (g_strjoinv '' '' ?names)" "env w' (uboot_left_key t) = Some a"
    using set_state_bad_env [OF assms(6)] v ne a left_key_neq_order [of s] left_key_neq_order [of t]
      left_key_neq [OF assms(2,3,4)]
    by (auto simp: Let_def)
  moreover have "b \<in> set (order_names (g_strjoinv '' '' ?names))"
    using order_names_join [OF c] mem by simp
  ultimately show ?thesis using get_state_good_iff [OF b, of w'] a(2) by blast
qed

end

sublocale uboot_backend \<subseteq> boot_backend slots "uboot_inv env" "r_uboot_get_primary run slots"
  "r_uboot_set_primary run cfg slots" "r_uboot_get_state run" "r_uboot_set_state run cfg"
  proof (unfold_locales, goal_cases)
  case (1 w s w') then show ?case by (rule set_primary_get_primary(1))
next
  case (2 w s w') then show ?case by (rule set_primary_get_primary(3))
next
  case (3 w s w') then show ?case by (rule set_primary_get_primary(2))
next
  case (4 w s w') then show ?case by (rule set_bad_laws(1))
next
  case (5 w s w') then show ?case by (rule set_bad_laws(2))
next
  case (6 w s t w') then show ?case by (rule good_kept)
next
  case (7 w s w') then show ?case by (rule set_bad_laws(3))
qed

context uboot_backend
begin

lemma backend_contract:
  "boot_backend slots (uboot_inv env) (r_uboot_get_primary run slots) (r_uboot_set_primary run cfg slots)
     (r_uboot_get_state run) (r_uboot_set_state run cfg)"
  by unfold_locales

end

subsection \<open>A simulator of the environment tools\<close>

text \<open>The environment as an association list; the two programs, and any other one fails to start.\<close>

fun fw_env_sim :: "(string \<times> string) list runner" where
  "fw_env_sim [prog, k] w =
     (if prog = ''fw_printenv'' then
        (case map_of w k of None \<Rightarrow> (Exited 1 [], w) | Some v \<Rightarrow> (Exited 0 (k @ ''='' @ v @ [NEWLINE]), w))
      else (Spawn_Failed (G_FILE_ERROR G_FILE_ERROR_NOENT), w))"
| "fw_env_sim [prog, k, v] w =
     (if prog = ''fw_setenv'' then (Exited 0 [], if v = [] then AList.delete k w else AList.update k v w)
      else (Spawn_Failed (G_FILE_ERROR G_FILE_ERROR_NOENT), w))"
| "fw_env_sim args w = (Spawn_Failed (G_FILE_ERROR G_FILE_ERROR_NOENT), w)"

interpretation fw_sim: fw_env_tools fw_env_sim map_of
  by unfold_locales (auto simp: update_conv' delete_conv')

definition uboot_demo_slots :: slots where
  "uboot_demo_slots =
     [(slot_new0 ''rootfs.0'' ''rootfs'') \<lparr>slot_bootname := Some ''A''\<rparr>,
      (slot_new0 ''rootfs.1'' ''rootfs'') \<lparr>slot_bootname := Some ''B''\<rparr>,
      slot_new0 ''appfs.0'' ''appfs'']"

definition uboot_demo_env :: "(string \<times> string) list" where
  "uboot_demo_env = [(''BOOT_ORDER'', ''A B''), (''BOOT_A_LEFT'', ''3''), (''BOOT_B_LEFT'', ''1'')]"

lemma uboot_demo_slots_ok: "boot_slots_ok uboot_demo_slots"
  by code_simp

interpretation uboot_demo: uboot_backend fw_env_sim map_of cfg uboot_demo_slots for cfg
  by unfold_locales (rule uboot_demo_slots_ok)

subsection \<open>Properties\<close>

text \<open>
  The U-Boot calls of an installation, for any helper programs that behave as documented:
  once the target slot has been marked bad it is neither good nor chosen as primary; once it has
  been activated afterwards it is the primary slot and good.
\<close>

theorem uboot_install_sequence:
  assumes "uboot_backend run env slots" and "uboot_inv env w" and "bootable slots s"
    and "r_uboot_set_state run cfg s False w = (Ok (), w1)"
    and "r_uboot_set_primary run cfg slots s w1 = (Ok (), w2)"
  shows "fst (r_uboot_get_state run s w1) \<noteq> Ok True \<and> fst (r_uboot_get_primary run slots w1) \<noteq> Ok s \<and>
    r_uboot_get_primary run slots w2 = (Ok s, w2) \<and> r_uboot_get_state run s w2 = (Ok True, w2)"
  using boot_backend.install_sequence [OF uboot_backend.backend_contract [OF assms(1)] assms(2-5)] by blast

theorem uboot_install_sequence_witness:
  "r_uboot_get_primary fw_env_sim uboot_demo_slots
      [(''BOOT_ORDER'', ''B A''), (''BOOT_A_LEFT'', ''3''), (''BOOT_B_LEFT'', ''3'')] =
     (Ok (uboot_demo_slots ! 1),
      [(''BOOT_ORDER'', ''B A''), (''BOOT_A_LEFT'', ''3''), (''BOOT_B_LEFT'', ''3'')])"
proof -
  have "uboot_inv map_of uboot_demo_env" "bootable uboot_demo_slots (uboot_demo_slots ! 1)"
    "r_uboot_set_state fw_env_sim config_default (uboot_demo_slots ! 1) False uboot_demo_env =
      (Ok (), [(''BOOT_ORDER'', ''A''), (''BOOT_A_LEFT'', ''3''), (''BOOT_B_LEFT'', ''0'')])"
    "r_uboot_set_primary fw_env_sim config_default uboot_demo_slots (uboot_demo_slots ! 1)
      [(''BOOT_ORDER'', ''A''), (''BOOT_A_LEFT'', ''3''), (''BOOT_B_LEFT'', ''0'')] =
      (Ok (), [(''BOOT_ORDER'', ''B A''), (''BOOT_A_LEFT'', ''3''), (''BOOT_B_LEFT'', ''3'')])"
    by code_simp+
  from uboot_install_sequence [OF uboot_demo.uboot_backend_axioms this] show ?thesis by blast
qed

text \<open>
  Marking one slot bad keeps every other good slot good: the running system stays bootable
  while its sibling is being written.
\<close>

theorem uboot_good_kept:
  assumes "uboot_backend run env slots" and "uboot_inv env w" and "bootable slots s" and "bootable slots t"
    and "t \<noteq> s" and "r_uboot_get_state run t w = (Ok True, w)"
    and "r_uboot_set_state run cfg s False w = (Ok (), w')"
  shows "r_uboot_get_state run t w' = (Ok True, w')"
  using uboot_backend.good_kept [OF assms] .

theorem uboot_good_kept_witness:
  "r_uboot_get_state fw_env_sim (uboot_demo_slots ! 0)
      [(''BOOT_ORDER'', ''A''), (''BOOT_A_LEFT'', ''3''), (''BOOT_B_LEFT'', ''0'')] =
     (Ok True, [(''BOOT_ORDER'', ''A''), (''BOOT_A_LEFT'', ''3''), (''BOOT_B_LEFT'', ''0'')])"
proof -
  have "uboot_inv map_of uboot_demo_env" "bootable uboot_demo_slots (uboot_demo_slots ! 1)"
    "bootable uboot_demo_slots (uboot_demo_slots ! 0)" "uboot_demo_slots ! 0 \<noteq> uboot_demo_slots ! 1"
    "r_uboot_get_state fw_env_sim (uboot_demo_slots ! 0) uboot_demo_env = (Ok True, uboot_demo_env)"
    "r_uboot_set_state fw_env_sim config_default (uboot_demo_slots ! 1) False uboot_demo_env =
      (Ok (), [(''BOOT_ORDER'', ''A''), (''BOOT_A_LEFT'', ''3''), (''BOOT_B_LEFT'', ''0'')])"
    by code_simp+
  from uboot_good_kept [OF uboot_demo.uboot_backend_axioms this] show ?thesis .
qed

end
