(* ===== verification/Grub.thy ===== *)
theory Grub
  imports Boot_Spec "HOL-Library.AList"
begin

text \<open>
  The GRUB backend (\<open>src/src/bootloaders/grub.c\<close>). The environment block is read with
  \<open>grub-editenv [path] list\<close>, which prints every variable, and changed with
  \<open>grub-editenv path set k=v ...\<close>. \<open>ORDER\<close> lists the bootnames, \<open>x_OK\<close> and \<open>x_TRY\<close> hold the
  state of slot \<open>x\<close>. \<open>grub_editenv\<close> states what is documented of the program; the contract
  \<open>boot_backend\<close> is proved relative to it.
\<close>

subsection \<open>Environment access\<close>

text \<open>
  The value is cut off the first line that starts with \<open>key=\<close>. \<open>g_strchomp\<close> shortens the C
  string inside the GString but leaves its \<open>len\<close> alone, so both are returned.
\<close>

definition grub_env_get :: "'w runner \<Rightarrow> rauc_config \<Rightarrow> string \<Rightarrow> ('w, string \<times> nat) io" where
  "grub_env_get run cfg key =
     io_bind (run_stdout run ([''grub-editenv''] @
         (case cfg_grubenv_path cfg of None \<Rightarrow> [] | Some path \<Rightarrow> [path]) @ [''list'']))
       (\<lambda>stdout_str.
         let key_prefix = key @ ''='' in
         case find (\<lambda>variable. g_str_has_prefix variable key_prefix) (g_strsplit stdout_str NEWLINE) of
           None \<Rightarrow> io_fail (R_BOOTCHOOSER_ERROR R_BOOTCHOOSER_ERROR_PARSE_FAILED)
         | Some variable \<Rightarrow> let v = drop (length key_prefix) variable in io_return (g_strchomp v, length v))"

definition grub_env_set :: "'w runner \<Rightarrow> rauc_config \<Rightarrow> string list \<Rightarrow> ('w, unit) io" where
  "grub_env_set run cfg pairs =
     (if pairs = [] then io_abort
      else case cfg_grubenv_path cfg of
        None \<Rightarrow> io_abort
      | Some path \<Rightarrow> run_wait_check run ([''grub-editenv'', path, ''set''] @ pairs))"

subsection \<open>Backend operations\<close>

text \<open>\<open>x_OK\<close> and \<open>x_TRY\<close> of a slot, numerically.\<close>

definition grub_slot_vars :: "'w runner \<Rightarrow> rauc_config \<Rightarrow> string \<Rightarrow> ('w, 64 word \<times> 64 word) io" where
  "grub_slot_vars run cfg bootname =
     io_bind (grub_env_get run cfg (bootname @ ''_OK'')) (\<lambda>slot_ok.
     io_bind (grub_env_get run cfg (bootname @ ''_TRY'')) (\<lambda>slot_try.
       io_return (strtoull_val (fst slot_ok) 0, strtoull_val (fst slot_try) 0)))"

definition r_grub_get_state :: "'w runner \<Rightarrow> rauc_config \<Rightarrow> rauc_slot \<Rightarrow> ('w, bool) io" where
  "r_grub_get_state run cfg slot = (case slot_bootname slot of
      None \<Rightarrow> io_fail ERROR_UNSET
    | Some bn \<Rightarrow>
        io_bind (grub_env_get run cfg ''ORDER'') (\<lambda>order.
          if bn \<notin> set (g_strsplit (fst order) (CHR '' '')) then io_return False
          else io_bind (grub_slot_vars run cfg bn) (\<lambda>(slot_ok, slot_try).
            io_return (slot_ok = 1 \<and> slot_try = 0))))"

definition r_grub_set_state :: "'w runner \<Rightarrow> rauc_config \<Rightarrow> rauc_slot \<Rightarrow> bool \<Rightarrow> ('w, unit) io" where
  "r_grub_set_state run cfg slot good = (case slot_bootname slot of
      None \<Rightarrow> io_fail ERROR_UNSET
    | Some bn \<Rightarrow> grub_env_set run cfg
        (if good then [bn @ ''_OK=1'', bn @ ''_TRY=0''] else [bn @ ''_OK=0'', bn @ ''_TRY=0'']))"

fun grub_scan_slots :: "'w runner \<Rightarrow> rauc_config \<Rightarrow> string \<Rightarrow> slots \<Rightarrow> ('w, rauc_slot option) io" where
  "grub_scan_slots run cfg bootname [] = io_return None"
| "grub_scan_slots run cfg bootname (slot # ss) =
     (if slot_bootname slot \<noteq> Some bootname then grub_scan_slots run cfg bootname ss
      else io_bind (grub_slot_vars run cfg bootname) (\<lambda>(slot_ok, slot_try).
        if slot_ok \<noteq> 1 \<or> slot_try > 0 then grub_scan_slots run cfg bootname ss
        else io_return (Some slot)))"

fun grub_scan_order :: "'w runner \<Rightarrow> rauc_config \<Rightarrow> slots \<Rightarrow> string list \<Rightarrow> ('w, rauc_slot) io" where
  "grub_scan_order run cfg slots [] = io_fail (R_BOOTCHOOSER_ERROR R_BOOTCHOOSER_ERROR_PARSE_FAILED)"
| "grub_scan_order run cfg slots (bootname # bs) =
     io_bind (grub_scan_slots run cfg bootname slots) (\<lambda>primary. case primary of
         Some slot \<Rightarrow> io_return slot
       | None \<Rightarrow> grub_scan_order run cfg slots bs)"

definition r_grub_get_primary :: "'w runner \<Rightarrow> rauc_config \<Rightarrow> slots \<Rightarrow> ('w, rauc_slot) io" where
  "r_grub_get_primary run cfg slots =
     io_bind (grub_env_get run cfg ''ORDER'') (\<lambda>(order, len).
       if len = 0 then io_fail (R_BOOTCHOOSER_ERROR R_BOOTCHOOSER_ERROR_PARSE_FAILED)
       else grub_scan_order run cfg slots (g_strsplit order (CHR '' '')))"

definition r_grub_set_primary ::
    "'w runner \<Rightarrow> rauc_config \<Rightarrow> slots \<Rightarrow> rauc_slot \<Rightarrow> ('w, unit) io" where
  "r_grub_set_primary run cfg slots slot =
     grub_env_set run cfg
       [bootname_str slot @ ''_OK='' @ int_str 1, bootname_str slot @ ''_TRY='' @ int_str 0,
        ''ORDER='' @ r_bootchooser_order_primary slots slot]"

subsection \<open>grub-editenv\<close>

text \<open>
  A variable name has no equal sign and neither name nor value has a line break. \<open>list\<close> prints
  one line per variable; \<open>set\<close>, when it succeeds, assigns the given variables in order and
  touches no other one.
\<close>

definition editenv_var :: "string \<times> string \<Rightarrow> bool" where
  "editenv_var p \<longleftrightarrow> CHR ''='' \<notin> set (fst p) \<and> NEWLINE \<notin> set (fst p) \<and> NEWLINE \<notin> set (snd p)"

definition editenv_line :: "string \<times> string \<Rightarrow> string" where
  "editenv_line p = fst p @ ''='' @ snd p"

definition editenv_set :: "(string \<rightharpoonup> string) \<Rightarrow> (string \<times> string) list \<Rightarrow> (string \<rightharpoonup> string)" where
  "editenv_set m ps = foldl (\<lambda>m (k, v). m(k \<mapsto> v)) m ps"

locale grub_editenv =
  fixes run :: "'w runner" and path :: string and env :: "'w \<Rightarrow> (string \<times> string) list"
  assumes editenv_list:
      "run [''grub-editenv'', path, ''list''] w
         = (Exited 0 (concat (map (\<lambda>p. editenv_line p @ [NEWLINE]) (env w))), w)"
    and editenv_set_ok:
      "\<lbrakk>list_all editenv_var (env w); list_all editenv_var ps;
        run ([''grub-editenv'', path, ''set''] @ map editenv_line ps) w = (Exited 0 out, w')\<rbrakk> \<Longrightarrow>
       list_all editenv_var (env w') \<and> map_of (env w') = editenv_set (map_of (env w)) ps"

definition grub_inv :: "('w \<Rightarrow> (string \<times> string) list) \<Rightarrow> 'w \<Rightarrow> bool" where
  "grub_inv env w \<longleftrightarrow> list_all editenv_var (env w)"

lemma editenv_split:
  "list_all editenv_var xs \<Longrightarrow>
   split_on NEWLINE (concat (map (\<lambda>p. editenv_line p @ [NEWLINE]) xs)) = map editenv_line xs @ [[]]"
proof (induction xs)
  case (Cons p xs)
  then have "NEWLINE \<notin> set (editenv_line p)" by (auto simp: editenv_var_def editenv_line_def)
  from split_on_append_delim [OF this] Cons show ?case by simp
qed simp

lemma editenv_prefix:
  assumes "editenv_var p" and "CHR ''='' \<notin> set key"
  shows "g_str_has_prefix (editenv_line p) (key @ ''='') \<longleftrightarrow> fst p = key"
proof
  assume "g_str_has_prefix (editenv_line p) (key @ ''='')"
  then obtain r where "fst p @ CHR ''='' # snd p = key @ CHR ''='' # r"
    by (auto simp: has_prefix_iff editenv_line_def)
  then show "fst p = key" using append_sep_inject assms by (metis editenv_var_def)
next
  assume "fst p = key"
  then show "g_str_has_prefix (editenv_line p) (key @ ''='')"
    by (auto simp: has_prefix_iff editenv_line_def)
qed

lemma editenv_find:
  assumes "list_all editenv_var xs" and "CHR ''='' \<notin> set key"
  shows "find (\<lambda>l. g_str_has_prefix l (key @ ''='')) (map editenv_line xs @ [[]]) =
    map_option (\<lambda>v. editenv_line (key, v)) (map_of xs key)"
  using assms(1)
proof (induction xs)
  case Nil
  then show ?case by (cases key) auto
next
  case (Cons p xs)
  then show ?case using editenv_prefix [OF _ assms(2), of p] by (cases p) auto
qed

subsection \<open>The contract\<close>

locale grub_backend = grub_editenv run path env for run :: "'w runner" and path and env +
  fixes cfg :: rauc_config and slots :: slots
  assumes path: "cfg_grubenv_path cfg = Some path"
    and slots_ok: "boot_slots_ok slots"
    and no_equal_sign: "list_all (\<lambda>b. CHR ''='' \<notin> set b) (bootnames slots)"
begin

lemma env_get:
  assumes "grub_inv env w" and "CHR ''='' \<notin> set key"
  shows "grub_env_get run cfg key w = (case map_of (env w) key of
      None \<Rightarrow> (Error (R_BOOTCHOOSER_ERROR R_BOOTCHOOSER_ERROR_PARSE_FAILED), w)
    | Some v \<Rightarrow> (Ok (g_strchomp v, length v), w))"
proof -
  let ?out = "concat (map (\<lambda>p. editenv_line p @ [NEWLINE]) (env w))"
  have out: "run_stdout run [''grub-editenv'', path, ''list''] w = (Ok ?out, w)"
    by (simp add: run_stdout_def editenv_list)
  have "find (\<lambda>l. g_str_has_prefix l (key @ ''='')) (g_strsplit ?out NEWLINE) =
      map_option (\<lambda>v. editenv_line (key, v)) (map_of (env w) key)"
  proof (cases "env w")
    case Nil
    then show ?thesis by (simp add: g_strsplit_def)
  next
    case (Cons p ps)
    then have "?out \<noteq> []" by simp
    then show ?thesis
      using editenv_split editenv_find assms by (simp add: g_strsplit_def grub_inv_def)
  qed
  then show ?thesis
    using out by (cases "map_of (env w) key")
      (simp_all add: grub_env_get_def path io_bind_def Let_def io_fail_def io_return_def editenv_line_def)
qed

lemma env_set:
  assumes "grub_inv env w" and "list_all editenv_var ps"
    and "grub_env_set run cfg (map editenv_line ps) w = (Ok (), w')"
  shows "grub_inv env w'" "map_of (env w') = editenv_set (map_of (env w)) ps"
proof -
  obtain out where "run ([''grub-editenv'', path, ''set''] @ map editenv_line ps) w = (Exited 0 out, w')"
    using assms(3) by (auto simp: grub_env_set_def path io_iff split: if_splits)
  from editenv_set_ok [OF _ assms(2) this] assms(1)
  show "grub_inv env w'" "map_of (env w') = editenv_set (map_of (env w)) ps"
    by (auto simp: grub_inv_def)
qed

lemma bootname_chars:
  assumes "bootable slots s" and "slot_bootname s = Some b"
  shows "CHR ''='' \<notin> set b" "NEWLINE \<notin> set b" "bootname_clean b"
proof -
  have "b \<in> set (bootnames slots)" using assms by (auto simp: bootable_def set_bootnames)
  then show "CHR ''='' \<notin> set b" using no_equal_sign by (auto simp: list_all_iff)
  show c: "bootname_clean b" using boot_slots_okD(3) [OF slots_ok] assms by (auto simp: bootable_def)
  show "NEWLINE \<notin> set b"
  proof
    assume "NEWLINE \<in> set b"
    then have "\<not> g_ascii_isspace NEWLINE" using c by (auto simp: bootname_clean_def)
    then show False by (simp add: g_ascii_isspace_def)
  qed
qed

text \<open>The two variables of a slot, when both are set.\<close>

lemma slot_vars_set:
  assumes "grub_inv env w" and "CHR ''='' \<notin> set b"
    and "map_of (env w) (b @ ''_OK'') = Some ok" and "map_of (env w) (b @ ''_TRY'') = Some tr"
  shows "grub_slot_vars run cfg b w
    = (Ok (strtoull_val (g_strchomp ok) 0, strtoull_val (g_strchomp tr) 0), w)"
  using assms env_get [OF assms(1), of "b @ ''_OK''"] env_get [OF assms(1), of "b @ ''_TRY''"]
  by (simp add: grub_slot_vars_def io_bind_def io_return_def)

lemma slot_vars_Ok:
  assumes "grub_inv env w" and "CHR ''='' \<notin> set b" and "grub_slot_vars run cfg b w = (Ok (x, y), w')"
  obtains ok tr where "map_of (env w) (b @ ''_OK'') = Some ok" "map_of (env w) (b @ ''_TRY'') = Some tr"
    "x = strtoull_val (g_strchomp ok) 0" "y = strtoull_val (g_strchomp tr) 0" "w' = w"
  using assms env_get [OF assms(1), of "b @ ''_OK''"] env_get [OF assms(1), of "b @ ''_TRY''"]
  by (auto simp: grub_slot_vars_def io_iff split: option.splits)

lemma get_state_good_iff:
  assumes "grub_inv env w" and "bootable slots s" and "slot_bootname s = Some b"
  shows "r_grub_get_state run cfg s w = (Ok True, w') \<longleftrightarrow> w' = w \<and>
      (\<exists>v ok tr. map_of (env w) ''ORDER'' = Some v \<and> b \<in> set (order_names v) \<and>
         map_of (env w) (b @ ''_OK'') = Some ok \<and> strtoull_val (g_strchomp ok) 0 = 1 \<and>
         map_of (env w) (b @ ''_TRY'') = Some tr \<and> strtoull_val (g_strchomp tr) 0 = 0)"
    (is "?l \<longleftrightarrow> _ \<and> ?r")
proof -
  note be = bootname_chars(1) [OF assms(2,3)]
  have order: "grub_env_get run cfg ''ORDER'' w = (case map_of (env w) ''ORDER'' of
      None \<Rightarrow> (Error (R_BOOTCHOOSER_ERROR R_BOOTCHOOSER_ERROR_PARSE_FAILED), w)
    | Some v \<Rightarrow> (Ok (g_strchomp v, length v), w))" using env_get [OF assms(1)] by simp
  show ?thesis
  proof
    assume ?l
    then show "w' = w \<and> ?r" using assms(3) order
      by (auto simp: r_grub_get_state_def io_iff order_names_def split: if_splits option.splits
          elim!: slot_vars_Ok [OF assms(1) be])
  next
    assume "w' = w \<and> ?r"
    then show ?l using assms(3) order
      by (auto simp: r_grub_get_state_def io_bind_def io_return_def order_names_def
          slot_vars_set [OF assms(1) be])
  qed
qed

lemma scan_slots_found:
  assumes "grub_inv env w" and "s \<in> set ss" and "slot_bootname s = Some b" and "CHR ''='' \<notin> set b"
    and "\<forall>t\<in>set ss. slot_bootname t = Some b \<longrightarrow> t = s"
    and "map_of (env w) (b @ ''_OK'') = Some ''1''" and "map_of (env w) (b @ ''_TRY'') = Some ''0''"
  shows "grub_scan_slots run cfg b ss w = (Ok (Some s), w)"
proof -
  have vals: "strtoull_val (g_strchomp ''1'') 0 = 1" "strtoull_val (g_strchomp ''0'') 0 = 0"
    by code_simp+
  show ?thesis using assms(2,5)
  proof (induction ss)
    case (Cons u us)
    show ?case
    proof (cases "u = s")
      case True
      then show ?thesis
        using assms(3) vals by (simp add: io_bind_def slot_vars_set [OF assms(1,4,6,7)] io_return_def)
    next
      case False
      then have "slot_bootname u \<noteq> Some b" using Cons.prems by auto
      then show ?thesis using Cons False by auto
    qed
  qed simp
qed

lemma set_primary_laws:
  assumes "grub_inv env w" and "bootable slots s" and "r_grub_set_primary run cfg slots s w = (Ok (), w')"
  shows "r_grub_get_primary run cfg slots w' = (Ok s, w')" "r_grub_get_state run cfg s w' = (Ok True, w')"
    "grub_inv env w'"
proof -
  obtain b where b: "slot_bootname s = Some b" "s \<in> set slots" using assms(2) by (auto simp: bootable_def)
  let ?names = "b # other_bootnames slots s"
  let ?ps = "[(b @ ''_OK'', ''1''), (b @ ''_TRY'', ''0''), (''ORDER'', g_strjoinv '' '' ?names)]"
  note bc = bootname_chars [OF assms(2) b(1)]
  note clean = all_bootnames_clean [OF slots_ok b(2,1)]
  have nums: "int_str 1 = ''1''" "int_str 0 = ''0''" by code_simp+
  have lines: "map editenv_line ?ps = [bootname_str s @ ''_OK='' @ int_str 1,
      bootname_str s @ ''_TRY='' @ int_str 0, ''ORDER='' @ r_bootchooser_order_primary slots s]"
    using b(1) by (simp add: editenv_line_def bootname_str_def nums order_primary_join [OF b(1)]
        del: g_strjoinv.simps)
  have vars: "list_all editenv_var ?ps"
    using bc clean_order_newline [OF clean_order_join [OF clean]] by (simp add: editenv_var_def)
  have "grub_env_set run cfg (map editenv_line ?ps) w = (Ok (), w')"
    using assms(3) unfolding lines r_grub_set_primary_def .
  note set = env_set [OF assms(1) vars this]
  show inv': "grub_inv env w'" by (rule set(1))
  have ne: "b @ ''_OK'' \<noteq> ''ORDER''" "b @ ''_TRY'' \<noteq> ''ORDER''" "b @ ''_OK'' \<noteq> b @ ''_TRY''"
    by (auto dest: arg_cong [where f = last])
  have ok: "map_of (env w') (b @ ''_OK'') = Some ''1''" and tr: "map_of (env w') (b @ ''_TRY'') = Some ''0''"
    and order: "map_of (env w') ''ORDER'' = Some (g_strjoinv '' '' ?names)"
    using ne by (simp_all add: set(2) editenv_set_def)
  have scan: "grub_scan_slots run cfg b slots w' = (Ok (Some s), w')"
    using scan_slots_found [OF inv' b(2,1) bc(1) _ ok tr]
      bootname_unique [OF boot_slots_okD(2) [OF slots_ok] _ b(2) _ b(1)] by blast
  have "g_strjoinv '' '' ?names \<noteq> []" using clean by (auto simp: bootname_clean_def join_blanks)
  then show "r_grub_get_primary run cfg slots w' = (Ok s, w')"
    using env_get [OF inv', of "''ORDER''"] order order_names_join [OF clean] scan
    by (simp add: r_grub_get_primary_def io_bind_def order_names_def io_return_def)
  have "strtoull_val (g_strchomp ''1'') 0 = 1" "strtoull_val (g_strchomp ''0'') 0 = 0" by code_simp+
  then show "r_grub_get_state run cfg s w' = (Ok True, w')"
    using get_state_good_iff [OF inv' assms(2) b(1), of w'] ok tr order order_names_join [OF clean]
    by auto
qed

lemma set_bad_env:
  assumes "grub_inv env w" and "bootable slots s" and "slot_bootname s = Some b"
    and "r_grub_set_state run cfg s False w = (Ok (), w')"
  shows "grub_inv env w'"
    "map_of (env w') = (map_of (env w))(b @ ''_OK'' \<mapsto> ''0'', b @ ''_TRY'' \<mapsto> ''0'')"
proof -
  let ?ps = "[(b @ ''_OK'', ''0''), (b @ ''_TRY'', ''0'')]"
  have "map editenv_line ?ps = [b @ ''_OK=0'', b @ ''_TRY=0'']" by (simp add: editenv_line_def)
  then have call: "grub_env_set run cfg (map editenv_line ?ps) w = (Ok (), w')"
    using assms(3,4) by (simp add: r_grub_set_state_def)
  have vars: "list_all editenv_var ?ps"
    using bootname_chars [OF assms(2,3)] by (simp add: editenv_var_def)
  show "grub_inv env w'"
    "map_of (env w') = (map_of (env w))(b @ ''_OK'' \<mapsto> ''0'', b @ ''_TRY'' \<mapsto> ''0'')"
    using env_set [OF assms(1) vars call] by (simp_all add: editenv_set_def)
qed

lemma scan_slots_ok:
  assumes "grub_inv env w" and "grub_scan_slots run cfg b ss w = (Ok (Some t), w1)" and "CHR ''='' \<notin> set b"
  shows "slot_bootname t = Some b \<and> (\<exists>ok. map_of (env w) (b @ ''_OK'') = Some ok \<and>
    strtoull_val (g_strchomp ok) 0 = 1)"
  using assms(2)
  by (induction ss) (auto simp: io_iff split: if_splits elim!: slot_vars_Ok [OF assms(1,3)])

lemma scan_slots_world:
  assumes "grub_inv env w" and "CHR ''='' \<notin> set b" and "grub_scan_slots run cfg b ss w = (Ok r, w1)"
  shows "w1 = w"
  using assms(3)
  by (induction ss) (auto simp: io_iff split: if_splits elim!: slot_vars_Ok [OF assms(1,2)])

lemma scan_slots_unknown:
  assumes "b \<notin> set (bootnames slots)" and "set ss \<subseteq> set slots"
  shows "grub_scan_slots run cfg b ss = io_return None"
  using assms(2)
proof (induction ss)
  case (Cons u us)
  then have "slot_bootname u \<noteq> Some b" using assms(1) by (auto simp: set_bootnames)
  then show ?case using Cons by simp
qed simp

lemma scan_order_ok:
  assumes "grub_inv env w" and "grub_scan_order run cfg slots bs w = (Ok t, w1)"
  shows "\<exists>b ok. slot_bootname t = Some b \<and> map_of (env w) (b @ ''_OK'') = Some ok \<and>
    strtoull_val (g_strchomp ok) 0 = 1"
  using assms(2)
proof (induction bs)
  case Nil
  then show ?case by (simp add: io_iff)
next
  case (Cons b bs)
  show ?case
  proof (cases "b \<in> set (bootnames slots)")
    case False
    then show ?thesis using Cons scan_slots_unknown [OF False order_refl] by simp
  next
    case True
    then have be: "CHR ''='' \<notin> set b" using no_equal_sign by (auto simp: list_all_iff)
    obtain r w2 where r: "grub_scan_slots run cfg b slots w = (Ok r, w2)"
      and rest: "(case r of Some slot \<Rightarrow> io_return slot | None \<Rightarrow> grub_scan_order run cfg slots bs) w2 = (Ok t, w1)"
      using Cons.prems by (auto simp: io_iff)
    show ?thesis
    proof (cases r)
      case None
      then show ?thesis using Cons.IH rest scan_slots_world [OF assms(1) be r] by simp
    next
      case (Some u)
      then show ?thesis using scan_slots_ok [OF assms(1) _ be] r rest by (auto simp: io_iff)
    qed
  qed
qed

lemma set_bad_laws:
  assumes "grub_inv env w" and "bootable slots s" and "r_grub_set_state run cfg s False w = (Ok (), w')"
  shows "fst (r_grub_get_state run cfg s w') \<noteq> Ok True" "fst (r_grub_get_primary run cfg slots w') \<noteq> Ok s"
    "grub_inv env w'"
proof -
  obtain b where b: "slot_bootname s = Some b" using assms(2) by (auto simp: bootable_def)
  note env' = set_bad_env [OF assms(1,2) b assms(3)]
  show inv': "grub_inv env w'" by (rule env'(1))
  have zero: "strtoull_val (g_strchomp ''0'') 0 \<noteq> 1" by code_simp
  then have not_ok: "\<not> (\<exists>ok. map_of (env w') (b @ ''_OK'') = Some ok \<and> strtoull_val (g_strchomp ok) 0 = 1)"
    by (simp add: env'(2))
  show "fst (r_grub_get_state run cfg s w') \<noteq> Ok True"
    using get_state_good_iff [OF inv' assms(2) b] not_ok by (metis prod.collapse)
  show "fst (r_grub_get_primary run cfg slots w') \<noteq> Ok s"
  proof
    assume "fst (r_grub_get_primary run cfg slots w') = Ok s"
    then obtain w2 where "r_grub_get_primary run cfg slots w' = (Ok s, w2)" by (metis prod.collapse)
    then obtain bs w3 where "grub_scan_order run cfg slots bs w' = (Ok s, w3)"
      using env_get [OF inv', of "''ORDER''"]
      by (auto simp: r_grub_get_primary_def io_iff split: option.splits if_splits)
    from scan_order_ok [OF inv' this] show False using not_ok b by auto
  qed
qed

lemma good_kept:
  assumes "grub_inv env w" and "bootable slots s" and "bootable slots t" and "t \<noteq> s"
    and "r_grub_get_state run cfg t w = (Ok True, w)" and "r_grub_set_state run cfg s False w = (Ok (), w')"
  shows "r_grub_get_state run cfg t w' = (Ok True, w')"
proof -
  obtain b c where b: "slot_bootname s = Some b" and c: "slot_bootname t = Some c"
    using assms(2,3) by (auto simp: bootable_def)
  have "c \<noteq> b"
    using assms(2-4) b c bootname_unique [OF boot_slots_okD(2) [OF slots_ok]] by (auto simp: bootable_def)
  then have ne: "c @ ''_OK'' \<noteq> b @ ''_OK''" "c @ ''_TRY'' \<noteq> b @ ''_TRY''" by auto
  have ne2: "c @ ''_OK'' \<noteq> b @ ''_TRY''" "c @ ''_TRY'' \<noteq> b @ ''_OK''"
      "''ORDER'' \<noteq> b @ ''_OK''" "''ORDER'' \<noteq> b @ ''_TRY''"
    by (auto dest: arg_cong [where f = last])
  note env' = set_bad_env [OF assms(1,2) b assms(6)]
  have same: "map_of (env w') ''ORDER'' = map_of (env w) ''ORDER''"
    "map_of (env w') (c @ ''_OK'') = map_of (env w) (c @ ''_OK'')"
    "map_of (env w') (c @ ''_TRY'') = map_of (env w) (c @ ''_TRY'')"
    using ne ne2 by (simp_all add: env'(2))
  show ?thesis
    using get_state_good_iff [OF assms(1,3) c, of w] get_state_good_iff [OF env'(1) assms(3) c, of w']
      assms(5) unfolding same by simp
qed

end

sublocale grub_backend \<subseteq> boot_backend slots "grub_inv env" "r_grub_get_primary run cfg slots"
  "r_grub_set_primary run cfg slots" "r_grub_get_state run cfg" "r_grub_set_state run cfg"
proof (unfold_locales, goal_cases)
  case (1 w s w') then show ?case by (rule set_primary_laws(1))
next
  case (2 w s w') then show ?case by (rule set_primary_laws(3))
next
  case (3 w s w') then show ?case by (rule set_primary_laws(2))
next
  case (4 w s w') then show ?case by (rule set_bad_laws(1))
next
  case (5 w s w') then show ?case by (rule set_bad_laws(2))
next
  case (6 w s t w') then show ?case by (rule good_kept)
next
  case (7 w s w') then show ?case by (rule set_bad_laws(3))
qed

context grub_backend
begin

lemma backend_contract:
  "boot_backend slots (grub_inv env) (r_grub_get_primary run cfg slots) (r_grub_set_primary run cfg slots)
     (r_grub_get_state run cfg) (r_grub_set_state run cfg)"
  by unfold_locales

end

subsection \<open>A simulator of grub-editenv\<close>

definition editenv_split_pair :: "string \<Rightarrow> string \<times> string" where
  "editenv_split_pair s = (takeWhile (\<lambda>c. c \<noteq> CHR ''='') s, drop 1 (dropWhile (\<lambda>c. c \<noteq> CHR ''='') s))"

fun editenv_sim :: "string \<Rightarrow> (string \<times> string) list runner" where
  "editenv_sim path (prog # p # cmd # args) w =
     (if prog = ''grub-editenv'' \<and> p = path then
        if cmd = ''list'' \<and> args = [] then (Exited 0 (concat (map (\<lambda>p. editenv_line p @ [NEWLINE]) w)), w)
        else if cmd = ''set''
          then (Exited 0 [], foldl (\<lambda>m p. case editenv_split_pair p of (k, v) \<Rightarrow> AList.update k v m) w args)
        else (Exited 1 [], w)
      else (Spawn_Failed (G_FILE_ERROR G_FILE_ERROR_NOENT), w))"
| "editenv_sim path args w = (Spawn_Failed (G_FILE_ERROR G_FILE_ERROR_NOENT), w)"

lemma editenv_split_line: "editenv_var p \<Longrightarrow> editenv_split_pair (editenv_line p) = p"
proof -
  assume "editenv_var p"
  then have "\<forall>c\<in>set (fst p). c \<noteq> CHR ''=''" by (auto simp: editenv_var_def)
  then show ?thesis by (simp add: editenv_split_pair_def editenv_line_def)
qed

lemma editenv_sim_set:
  assumes "list_all editenv_var w" and "list_all editenv_var ps"
  shows "list_all editenv_var (foldl (\<lambda>m p. case editenv_split_pair p of (k, v) \<Rightarrow> AList.update k v m) w
        (map editenv_line ps)) \<and>
    map_of (foldl (\<lambda>m p. case editenv_split_pair p of (k, v) \<Rightarrow> AList.update k v m) w
        (map editenv_line ps)) = editenv_set (map_of w) ps"
  using assms
proof (induction ps arbitrary: w)
  case (Cons p ps)
  have "list_all editenv_var (AList.update (fst p) (snd p) w)"
    using Cons.prems by (induction w) (auto simp: editenv_var_def)
  then show ?case using Cons
    by (cases p) (simp add: editenv_split_line editenv_set_def update_conv')
qed (simp add: editenv_set_def)

interpretation editenv_sim: grub_editenv "editenv_sim path" path "\<lambda>w. w" for path
  using editenv_sim_set by unfold_locales auto

definition grub_demo_slots :: slots where
  "grub_demo_slots =
     [(slot_new0 ''rootfs.0'' ''rootfs'') \<lparr>slot_bootname := Some ''system0''\<rparr>,
      (slot_new0 ''rootfs.1'' ''rootfs'') \<lparr>slot_bootname := Some ''system1''\<rparr>]"

definition grub_demo_config :: rauc_config where
  "grub_demo_config = config_default \<lparr>cfg_grubenv_path := Some ''/grubenv''\<rparr>"

definition grub_demo_env :: "(string \<times> string) list" where
  "grub_demo_env = [(''ORDER'', ''system0 system1''), (''system0_OK'', ''1''), (''system0_TRY'', ''0''),
     (''system1_OK'', ''1''), (''system1_TRY'', ''0'')]"

lemma grub_demo_ok:
  "boot_slots_ok grub_demo_slots \<and> cfg_grubenv_path grub_demo_config = Some ''/grubenv'' \<and>
   list_all (\<lambda>b. CHR ''='' \<notin> set b) (bootnames grub_demo_slots)"
  by code_simp

interpretation grub_demo: grub_backend "editenv_sim ''/grubenv''" "''/grubenv''" "\<lambda>w. w"
    grub_demo_config grub_demo_slots
  using grub_demo_ok by unfold_locales auto

subsection \<open>Properties\<close>

text \<open>
  The GRUB calls of an installation, for a \<open>grub-editenv\<close> that behaves as documented:
  after marking the target bad it is neither good nor primary; after activating it, it is the
  primary slot and good.
\<close>

theorem grub_install_sequence:
  assumes "grub_backend run path env cfg slots" and "grub_inv env w" and "bootable slots s"
    and "r_grub_set_state run cfg s False w = (Ok (), w1)"
    and "r_grub_set_primary run cfg slots s w1 = (Ok (), w2)"
  shows "fst (r_grub_get_state run cfg s w1) \<noteq> Ok True \<and> fst (r_grub_get_primary run cfg slots w1) \<noteq> Ok s \<and>
    r_grub_get_primary run cfg slots w2 = (Ok s, w2) \<and> r_grub_get_state run cfg s w2 = (Ok True, w2)"
  using boot_backend.install_sequence [OF grub_backend.backend_contract [OF assms(1)] assms(2-5)] by blast

theorem grub_install_sequence_witness:
  "fst (r_grub_get_primary (editenv_sim ''/grubenv'') grub_demo_config grub_demo_slots
      (snd (r_grub_set_primary (editenv_sim ''/grubenv'') grub_demo_config grub_demo_slots (grub_demo_slots ! 1)
        (snd (r_grub_set_state (editenv_sim ''/grubenv'') grub_demo_config (grub_demo_slots ! 1) False
          grub_demo_env))))) = Ok (grub_demo_slots ! 1)"
proof -
  have "grub_inv (\<lambda>w. w) grub_demo_env" "bootable grub_demo_slots (grub_demo_slots ! 1)"
    "r_grub_set_state (editenv_sim ''/grubenv'') grub_demo_config (grub_demo_slots ! 1) False grub_demo_env =
      (Ok (), snd (r_grub_set_state (editenv_sim ''/grubenv'') grub_demo_config (grub_demo_slots ! 1) False
        grub_demo_env))"
    "r_grub_set_primary (editenv_sim ''/grubenv'') grub_demo_config grub_demo_slots (grub_demo_slots ! 1)
        (snd (r_grub_set_state (editenv_sim ''/grubenv'') grub_demo_config (grub_demo_slots ! 1) False
          grub_demo_env)) =
      (Ok (), snd (r_grub_set_primary (editenv_sim ''/grubenv'') grub_demo_config grub_demo_slots
        (grub_demo_slots ! 1) (snd (r_grub_set_state (editenv_sim ''/grubenv'') grub_demo_config
          (grub_demo_slots ! 1) False grub_demo_env))))"
    by code_simp+
  from grub_install_sequence [OF grub_demo.grub_backend_axioms this] show ?thesis by simp
qed

end
