(* ===== verification/Barebox.thy ===== *)
theory Barebox
  imports Boot_Spec "HOL-Library.AList"
begin

text \<open>
  The barebox backend (\<open>src/src/bootloaders/barebox.c\<close>). The program \<open>barebox-state\<close> keeps two
  unsigned 32-bit variables per slot, \<open>bootstate.x.priority\<close> and
  \<open>bootstate.x.remaining_attempts\<close>; the slot with the highest priority that has attempts left is
  booted. \<open>barebox_state_tool\<close> states what is documented of the program.
\<close>

abbreviation BAREBOX_STATE_DEFAULT_ATTEMPTS :: "32 word" where "BAREBOX_STATE_DEFAULT_ATTEMPTS \<equiv> 3"
abbreviation BAREBOX_STATE_ATTEMPTS_PRIMARY :: "32 word" where "BAREBOX_STATE_ATTEMPTS_PRIMARY \<equiv> 3"
abbreviation BAREBOX_STATE_DEFAULT_PRIORITY :: "32 word" where "BAREBOX_STATE_DEFAULT_PRIORITY \<equiv> 10"
abbreviation BAREBOX_STATE_PRIORITY_PRIMARY :: "32 word" where "BAREBOX_STATE_PRIORITY_PRIMARY \<equiv> 20"

record barebox_slot_state =
  bb_prio :: "32 word"
  bb_attempts :: "32 word"

subsection \<open>Calling barebox-state\<close>

definition barebox_args :: "rauc_config \<Rightarrow> string list \<Rightarrow> string list" where
  "barebox_args cfg args = [''barebox-state''] @
     (case cfg_system_bb_statename cfg of None \<Rightarrow> [] | Some n \<Rightarrow> [''-n'', n]) @ args @
     (case cfg_system_bb_dtbpath cfg of None \<Rightarrow> [] | Some p \<Rightarrow> [''-i'', p])"

definition bb_prio_key :: "string \<Rightarrow> string" where
  "bb_prio_key bootname = ''bootstate.'' @ bootname @ ''.priority''"

definition bb_attempts_key :: "string \<Rightarrow> string" where
  "bb_attempts_key bootname = ''bootstate.'' @ bootname @ ''.remaining_attempts''"

text \<open>
  One line of output, NULL when there are fewer lines. \<open>errno\<close> is taken to be zero before the
  call, so that it is set exactly when the number did not fit.
\<close>

definition barebox_parse_line :: "string list \<Rightarrow> nat \<Rightarrow> 64 word result" where
  "barebox_parse_line outlines i =
     (if length outlines \<le> i then Error (R_BOOTCHOOSER_ERROR R_BOOTCHOOSER_ERROR_PARSE_FAILED)
      else let outline = outlines ! i; (v, endptr, erange) = g_ascii_strtoull outline 10 in
        if v = 0 \<and> endptr = outline then Error (R_BOOTCHOOSER_ERROR R_BOOTCHOOSER_ERROR_PARSE_FAILED)
        else if v = - 1 \<and> erange then Error (R_BOOTCHOOSER_ERROR R_BOOTCHOOSER_ERROR_PARSE_FAILED)
        else Ok v)"

text \<open>The two 64-bit results are stored into 32-bit fields.\<close>

definition barebox_state_get ::
    "'w runner \<Rightarrow> rauc_config \<Rightarrow> string option \<Rightarrow> ('w, barebox_slot_state) io" where
  "barebox_state_get run cfg bootname = (case bootname of
      None \<Rightarrow> io_fail ERROR_UNSET
    | Some bn \<Rightarrow>
        io_bind (run_stdout run (barebox_args cfg [''-g'', bb_prio_key bn, ''-g'', bb_attempts_key bn]))
          (\<lambda>stdout_str. let outlines = g_strsplit stdout_str NEWLINE in
            io_lift (result_bind (barebox_parse_line outlines 0) (\<lambda>r0.
                     result_bind (barebox_parse_line outlines 1) (\<lambda>r1.
                       Ok \<lparr>bb_prio = ucast r0, bb_attempts = ucast r1\<rparr>)))))"

definition barebox_state_set :: "'w runner \<Rightarrow> rauc_config \<Rightarrow> string list \<Rightarrow> ('w, unit) io" where
  "barebox_state_set run cfg pairs =
     (if pairs = [] then io_abort
      else run_wait_check run (barebox_args cfg (concat (map (\<lambda>p. [''-s'', p]) pairs))))"

subsection \<open>Backend operations\<close>

definition bb_prio_pair :: "rauc_slot \<Rightarrow> 32 word \<Rightarrow> string" where
  "bb_prio_pair slot prio = bb_prio_key (bootname_str slot) @ ''='' @ int_str (sint prio)"

definition bb_attempts_pair :: "rauc_slot \<Rightarrow> 32 word \<Rightarrow> string" where
  "bb_attempts_pair slot attempts = bb_attempts_key (bootname_str slot) @ ''='' @ int_str (sint attempts)"

definition r_barebox_set_state :: "'w runner \<Rightarrow> rauc_config \<Rightarrow> rauc_slot \<Rightarrow> bool \<Rightarrow> ('w, unit) io" where
  "r_barebox_set_state run cfg slot good =
     (let attempts = (if good
            then attempts_or_default (cfg_boot_default_attempts cfg) BAREBOX_STATE_DEFAULT_ATTEMPTS else 0)
      in barebox_state_set run cfg
           ((if good then [] else [bb_prio_pair slot 0]) @ [bb_attempts_pair slot attempts]))"

fun barebox_scan :: "'w runner \<Rightarrow> rauc_config \<Rightarrow> slots \<Rightarrow> rauc_slot option \<Rightarrow> 32 word
    \<Rightarrow> ('w, rauc_slot option) io" where
  "barebox_scan run cfg [] primary top_prio = io_return primary"
| "barebox_scan run cfg (slot # ss) primary top_prio =
     (if slot_bootname slot = None then barebox_scan run cfg ss primary top_prio
      else io_bind (barebox_state_get run cfg (slot_bootname slot)) (\<lambda>state.
        if bb_attempts state = 0 then barebox_scan run cfg ss primary top_prio
        else if bb_prio state > top_prio then barebox_scan run cfg ss (Some slot) (bb_prio state)
        else barebox_scan run cfg ss primary top_prio))"

definition r_barebox_get_primary :: "'w runner \<Rightarrow> rauc_config \<Rightarrow> slots \<Rightarrow> ('w, rauc_slot) io" where
  "r_barebox_get_primary run cfg slots =
     io_bind (barebox_scan run cfg slots None 0) (\<lambda>primary. case primary of
         None \<Rightarrow> io_fail (R_BOOTCHOOSER_ERROR R_BOOTCHOOSER_ERROR_PARSE_FAILED)
       | Some slot \<Rightarrow> io_return slot)"

definition r_barebox_get_state :: "'w runner \<Rightarrow> rauc_config \<Rightarrow> rauc_slot \<Rightarrow> ('w, bool) io" where
  "r_barebox_get_state run cfg slot =
     io_bind (barebox_state_get run cfg (slot_bootname slot)) (\<lambda>state.
       io_return (if bb_prio state > 0 then bb_attempts state > 0 else False))"

fun barebox_prio_pairs :: "'w runner \<Rightarrow> rauc_config \<Rightarrow> rauc_slot \<Rightarrow> slots \<Rightarrow> ('w, string list) io" where
  "barebox_prio_pairs run cfg slot [] = io_return []"
| "barebox_prio_pairs run cfg slot (s # ss) =
     (if slot_bootname s = None then barebox_prio_pairs run cfg slot ss
      else io_bind (barebox_state_get run cfg (slot_bootname s)) (\<lambda>bb_state.
        let prio = (if slot_name s = slot_name slot then BAREBOX_STATE_PRIORITY_PRIMARY
                    else if bb_prio bb_state = 0 then 0 else BAREBOX_STATE_DEFAULT_PRIORITY)
        in io_bind (barebox_prio_pairs run cfg slot ss) (\<lambda>pairs.
             io_return (bb_prio_pair s prio # pairs))))"

definition r_barebox_set_primary ::
    "'w runner \<Rightarrow> rauc_config \<Rightarrow> slots \<Rightarrow> rauc_slot \<Rightarrow> ('w, unit) io" where
  "r_barebox_set_primary run cfg slots slot =
     io_bind (barebox_prio_pairs run cfg slot slots) (\<lambda>pairs.
       let attempts = attempts_or_default (cfg_boot_attempts_primary cfg) BAREBOX_STATE_ATTEMPTS_PRIMARY
       in barebox_state_set run cfg (pairs @ [bb_attempts_pair slot attempts]))"

subsection \<open>barebox-state\<close>

text \<open>
  \<open>vars w\<close> are the variables of the state. \<open>-g\<close> prints values in decimal, one per line, and
  fails when a variable does not exist; a successful call with \<open>-s\<close> options assigns them in order.
\<close>

definition bb_assign :: "string \<times> 32 word \<Rightarrow> string" where
  "bb_assign p = fst p @ ''='' @ nat_str 10 (unat (snd p))"

definition bb_update :: "(string \<rightharpoonup> 32 word) \<Rightarrow> (string \<times> 32 word) list \<Rightarrow> (string \<rightharpoonup> 32 word)" where
  "bb_update m ps = foldl (\<lambda>m (k, v). m(k \<mapsto> v)) m ps"

locale barebox_state_tool =
  fixes run :: "'w runner" and cfg :: rauc_config and vars :: "'w \<Rightarrow> string \<rightharpoonup> 32 word"
  assumes state_get: "\<lbrakk>vars w k1 = Some a; vars w k2 = Some b\<rbrakk> \<Longrightarrow>
      run (barebox_args cfg [''-g'', k1, ''-g'', k2]) w
        = (Exited 0 (nat_str 10 (unat a) @ [NEWLINE] @ nat_str 10 (unat b) @ [NEWLINE]), w)"
    and state_get_fail: "vars w k1 = None \<or> vars w k2 = None \<Longrightarrow>
      \<exists>ret out. ret \<noteq> 0 \<and> run (barebox_args cfg [''-g'', k1, ''-g'', k2]) w = (Exited ret out, w)"
    and state_set: "\<lbrakk>list_all (\<lambda>p. CHR ''='' \<notin> set (fst p)) ps;
        run (barebox_args cfg (concat (map (\<lambda>p. [''-s'', bb_assign p]) ps))) w = (Exited 0 out, w')\<rbrakk> \<Longrightarrow>
      vars w' = bb_update (vars w) ps"

lemma bb_parse_number:
  assumes "outlines ! i = nat_str 10 (unat (a :: 32 word))" and "i < length outlines"
  shows "barebox_parse_line outlines i = Ok (ucast a)"
proof -
  have "uint a < 4294967296" using uint_lt2p [of a] by simp
  then have "g_ascii_strtoull (nat_str 10 (unat a)) 10 = (of_nat (unat a), [], False)"
    by (intro strtoull_nat_str) auto
  then show ?thesis using assms by (simp add: barebox_parse_line_def nat_str_neq_Nil [symmetric])
qed

lemma bb_int_str: "0 \<le> sint (a :: 32 word) \<Longrightarrow> int_str (sint a) = nat_str 10 (unat a)"
proof -
  assume "0 \<le> sint a"
  then have "uint a = sint a"
    using sint_lt [of a] by (simp add: uint_sint take_bit_int_eq_self)
  then show ?thesis using \<open>0 \<le> sint a\<close> by (metis int_str_def linorder_not_le unat_eq_nat_uint)
qed

context barebox_state_tool
begin

abbreviation slot_vars :: "'w \<Rightarrow> string \<Rightarrow> barebox_slot_state \<Rightarrow> bool" where
  "slot_vars w b st \<equiv> vars w (bb_prio_key b) = Some (bb_prio st) \<and>
     vars w (bb_attempts_key b) = Some (bb_attempts st)"

lemma get_Ok_iff:
  "barebox_state_get run cfg (Some b) w = (Ok st, w') \<longleftrightarrow> slot_vars w b st \<and> w' = w"
proof (cases "vars w (bb_prio_key b) = None \<or> vars w (bb_attempts_key b) = None")
  case True
  from state_get_fail [OF this]
  have "barebox_state_get run cfg (Some b) w \<noteq> (Ok st, w')"
    by (auto simp: barebox_state_get_def io_iff)
  then show ?thesis using True by auto
next
  case False
  then obtain p a where pa: "vars w (bb_prio_key b) = Some p" "vars w (bb_attempts_key b) = Some a" by auto
  let ?lines = "[nat_str 10 (unat p), nat_str 10 (unat a), []]"
  have nl: "NEWLINE \<notin> set (nat_str 10 (unat x))" for x :: "32 word"
    using nat_str_isalnum [of 10 NEWLINE "unat x"] isalnum_not_isspace [of NEWLINE]
    by (auto simp: g_ascii_isspace_def)
  have "g_strsplit (nat_str 10 (unat p) @ [NEWLINE] @ nat_str 10 (unat a) @ [NEWLINE]) NEWLINE = ?lines"
    using g_strsplit_append_delim [OF nl] split_on_append_delim [OF nl, of a "[]"] by simp
  moreover have "barebox_parse_line ?lines 0 = Ok (ucast p)" "barebox_parse_line ?lines 1 = Ok (ucast a)"
    by (rule bb_parse_number; simp)+
  ultimately have "barebox_state_get run cfg (Some b) w = (Ok \<lparr>bb_prio = p, bb_attempts = a\<rparr>, w)"
    using state_get [OF pa]
    by (simp add: barebox_state_get_def run_stdout_def io_bind_def io_lift_def ucast_up_ucast_id is_up)
  then show ?thesis using pa by (cases st) auto
qed

lemma state_set_vars:
  assumes "list_all (\<lambda>p. CHR ''='' \<notin> set (fst p)) ps"
    and "barebox_state_set run cfg (map bb_assign ps) w = (Ok (), w')"
  shows "vars w' = bb_update (vars w) ps"
  using assms state_set [OF assms(1), of w _ w']
  by (auto simp: barebox_state_set_def io_iff comp_def split: if_splits)

end

subsection \<open>The contract\<close>

lemma bb_keys [simp]:
  "bb_prio_key b = bb_prio_key c \<longleftrightarrow> b = c" "bb_attempts_key b = bb_attempts_key c \<longleftrightarrow> b = c"
  "bb_prio_key b \<noteq> bb_attempts_key c" "bb_attempts_key c \<noteq> bb_prio_key b"
proof -
  have "last (bb_prio_key b) \<noteq> last (bb_attempts_key c)" by (simp add: bb_prio_key_def bb_attempts_key_def)
  then show "bb_prio_key b \<noteq> bb_attempts_key c" "bb_attempts_key c \<noteq> bb_prio_key b" by auto
qed (auto simp: bb_prio_key_def bb_attempts_key_def)

lemma bb_keys_equal_sign:
  "CHR ''='' \<notin> set b \<Longrightarrow> CHR ''='' \<notin> set (bb_prio_key b) \<and> CHR ''='' \<notin> set (bb_attempts_key b)"
  by (simp add: bb_prio_key_def bb_attempts_key_def)

lemma bb_update_distinct:
  "distinct (map fst ps) \<Longrightarrow> bb_update m ps k = (case map_of ps k of None \<Rightarrow> m k | Some v \<Rightarrow> Some v)"
proof (induction ps arbitrary: m)
  case (Cons p ps)
  then have "map_of ps (fst p) = None" by (simp add: map_of_eq_None_iff)
  with Cons show ?case by (cases p) (auto simp: bb_update_def split: option.splits)
qed (simp add: bb_update_def)

text \<open>The priorities an activation of \<open>slot\<close> assigns.\<close>

definition bb_new_prio :: "(string \<rightharpoonup> 32 word) \<Rightarrow> rauc_slot \<Rightarrow> rauc_slot \<Rightarrow> 32 word" where
  "bb_new_prio m slot s = (if slot_name s = slot_name slot then BAREBOX_STATE_PRIORITY_PRIMARY
     else if m (bb_prio_key (bootname_str s)) = Some 0 then 0 else BAREBOX_STATE_DEFAULT_PRIORITY)"

definition bb_new_prios ::
    "(string \<rightharpoonup> 32 word) \<Rightarrow> rauc_slot \<Rightarrow> slots \<Rightarrow> (string \<times> 32 word) list" where
  "bb_new_prios m slot ss = map (\<lambda>s. (bb_prio_key (bootname_str s), bb_new_prio m slot s))
     (filter (\<lambda>s. slot_bootname s \<noteq> None) ss)"

lemma int_str_zero: "int_str 0 = nat_str 10 0"
  by (simp add: int_str_def)

lemma bb_pairs_assign:
  "bb_prio_pair s (bb_new_prio m slot s) = bb_assign (bb_prio_key (bootname_str s), bb_new_prio m slot s)"
  "bb_prio_pair s 0 = bb_assign (bb_prio_key (bootname_str s), 0)"
  "0 \<le> sint a \<Longrightarrow> bb_attempts_pair s a = bb_assign (bb_attempts_key (bootname_str s), a)"
  by (simp_all add: bb_prio_pair_def bb_attempts_pair_def bb_assign_def bb_int_str bb_new_prio_def int_str_zero)

lemma bb_new_prios_distinct:
  "distinct (bootnames ss) \<Longrightarrow> distinct (map fst (bb_new_prios m slot ss))"
proof (induction ss)
  case (Cons s ss)
  then show ?case
  proof (cases "slot_bootname s")
    case (Some b)
    then have "b \<notin> set (bootnames ss)" using Cons.prems by (simp add: bootnames_def)
    then have "bb_prio_key (bootname_str s) \<notin> fst ` set (bb_new_prios m slot ss)"
      using Some by (auto simp: bb_new_prios_def bootname_str_def set_bootnames)
    then show ?thesis using Cons Some by (simp add: bb_new_prios_def bootnames_def image_image)
  qed (simp add: bb_new_prios_def bootnames_def)
qed (simp add: bb_new_prios_def)

locale barebox_backend = barebox_state_tool run cfg vars for run :: "'w runner" and cfg and vars +
  fixes slots :: slots
  assumes slots_ok: "boot_slots_ok slots"
    and no_equal_sign: "list_all (\<lambda>b. CHR ''='' \<notin> set b) (bootnames slots)"
begin

lemma no_equal: "bootable slots s \<Longrightarrow> slot_bootname s = Some b \<Longrightarrow> CHR ''='' \<notin> set b"
  using no_equal_sign by (auto simp: bootable_def list_all_iff set_bootnames)

lemma prio_pairs_Ok:
  "barebox_prio_pairs run cfg slot ss w = (Ok pairs, w') \<Longrightarrow>
   w' = w \<and> pairs = map bb_assign (bb_new_prios (vars w) slot ss) \<and>
   (\<forall>s\<in>set ss. \<forall>b. slot_bootname s = Some b \<longrightarrow> (\<exists>st. slot_vars w b st))"
proof (induction ss arbitrary: pairs w')
  case Nil
  then show ?case by (simp add: io_iff bb_new_prios_def)
next
  case (Cons s ss)
  show ?case
  proof (cases "slot_bootname s")
    case None
    then show ?thesis using Cons by (simp add: bb_new_prios_def)
  next
    case (Some b)
    then obtain st rest where st: "slot_vars w b st"
      and rest: "barebox_prio_pairs run cfg slot ss w = (Ok rest, w')"
      and pairs: "pairs = bb_prio_pair s (if slot_name s = slot_name slot then BAREBOX_STATE_PRIORITY_PRIMARY
                    else if bb_prio st = 0 then 0 else BAREBOX_STATE_DEFAULT_PRIORITY) # rest"
      using Cons.prems by (auto simp: io_bind_Ok_iff io_return_iff Let_def get_Ok_iff)
    have "pairs = bb_prio_pair s (bb_new_prio (vars w) slot s) # rest"
      using pairs st Some by (simp add: bb_new_prio_def bootname_str_def)
    then show ?thesis
      using Cons.IH [OF rest] st Some by (auto simp: bb_new_prios_def bb_pairs_assign)
  qed
qed

lemma scan_top:
  assumes "slot_bootname s = Some b" and "slot_vars w b st" and "bb_prio st = 20" and "bb_attempts st \<noteq> 0"
    and "\<forall>t\<in>set ss. \<forall>c. slot_bootname t = Some c \<and> t \<noteq> s \<longrightarrow> (\<exists>st. slot_vars w c st \<and> bb_prio st \<le> 10)"
    and "tp \<le> 10 \<and> s \<in> set ss \<or> prim = Some s \<and> tp = 20"
  shows "barebox_scan run cfg ss prim tp w = (Ok (Some s), w)"
  using assms(5,6)
proof (induction ss arbitrary: prim tp)
  case Nil
  then show ?case by (simp add: io_return_def)
next
  case (Cons t ts)
  consider "slot_bootname t = None" | "t = s" | c where "slot_bootname t = Some c" "t \<noteq> s"
    by fastforce
  then show ?case
  proof cases
    case 1
    then have "t \<noteq> s" using assms(1) by auto
    with 1 Cons show ?thesis by auto
  next
    case 2
    have "barebox_state_get run cfg (Some b) w = (Ok st, w)" using assms(2) by (simp add: get_Ok_iff)
    moreover have "barebox_scan run cfg ts (Some s) 20 w = (Ok (Some s), w)" using Cons by simp
    moreover have "tp < 20" if "tp \<le> 10" using that by (rule order_le_less_trans) simp
    ultimately show ?thesis using 2 assms(1,3,4) Cons.prems(2) by (auto simp: io_bind_def)
  next
    case 3
    then obtain st' where st': "slot_vars w c st'" "bb_prio st' \<le> 10" using Cons.prems(1) by fastforce
    have get: "barebox_state_get run cfg (Some c) w = (Ok st', w)" using st' by (simp add: get_Ok_iff)
    have hyp: "\<forall>t\<in>set ts. \<forall>c. slot_bootname t = Some c \<and> t \<noteq> s \<longrightarrow> (\<exists>st. slot_vars w c st \<and> bb_prio st \<le> 10)"
      using Cons.prems(1) by auto
    have same: "barebox_scan run cfg ts prim tp w = (Ok (Some s), w)"
      by (rule Cons.IH [OF hyp]) (use Cons.prems(2) 3 in auto)
    have "barebox_scan run cfg ts (Some t) (bb_prio st') w = (Ok (Some s), w)" if "tp < bb_prio st'"
    proof (rule Cons.IH [OF hyp])
      have "tp < 10" using that st'(2) by (rule order_less_le_trans)
      then have "tp \<noteq> 20" by auto
      then show "bb_prio st' \<le> 10 \<and> s \<in> set ts \<or> Some t = Some s \<and> bb_prio st' = 20"
        using st'(2) Cons.prems(2) 3 by auto
    qed
    with same show ?thesis using 3 by (simp add: io_bind_def get)
  qed
qed

lemma scan_attempts:
  assumes "barebox_scan run cfg ss prim tp w = (Ok (Some t), w')"
  shows "prim = Some t \<or> (\<exists>b st. slot_bootname t = Some b \<and> slot_vars w b st \<and> bb_attempts st \<noteq> 0)"
  using assms
proof (induction ss arbitrary: prim tp)
  case (Cons u us)
  show ?case
  proof (cases "slot_bootname u")
    case None
    then show ?thesis using Cons by simp
  next
    case (Some b)
    then obtain st where st: "slot_vars w b st"
      and rest: "(if bb_attempts st = 0 then barebox_scan run cfg us prim tp
        else if bb_prio st > tp then barebox_scan run cfg us (Some u) (bb_prio st)
        else barebox_scan run cfg us prim tp) w = (Ok (Some t), w')"
      using Cons.prems by (auto simp: io_bind_Ok_iff get_Ok_iff simp del: if_split_asm)
    consider "barebox_scan run cfg us prim tp w = (Ok (Some t), w')"
      | "bb_attempts st \<noteq> 0" "barebox_scan run cfg us (Some u) (bb_prio st) w = (Ok (Some t), w')"
      using rest by (auto split: if_splits)
    then show ?thesis
    proof cases
      case 1
      then show ?thesis by (rule Cons.IH)
    next
      case 2
      then show ?thesis using Cons.IH [OF 2(2)] st Some by auto
    qed
  qed
qed (simp add: io_iff)

lemma get_state_good_iff:
  assumes "slot_bootname s = Some b"
  shows "r_barebox_get_state run cfg s w = (Ok True, w') \<longleftrightarrow> w' = w \<and>
    (\<exists>st. slot_vars w b st \<and> bb_prio st > 0 \<and> bb_attempts st > 0)"
  using assms by (auto simp: r_barebox_get_state_def io_iff get_Ok_iff)

lemma set_primary_vars:
  assumes "bootable slots s" and "slot_bootname s = Some b" and "r_barebox_set_primary run cfg slots s w = (Ok (), w')"
  shows "vars w' (bb_prio_key b) = Some 20"
    "\<exists>a. vars w' (bb_attempts_key b) = Some a \<and> a \<noteq> 0"
    "\<lbrakk>bootable slots t; slot_bootname t = Some c; t \<noteq> s\<rbrakk> \<Longrightarrow> \<exists>st. slot_vars w' c st \<and> bb_prio st \<le> 10"
proof -
  let ?a = "attempts_or_default (cfg_boot_attempts_primary cfg) BAREBOX_STATE_ATTEMPTS_PRIMARY"
  let ?ps = "bb_new_prios (vars w) s slots @ [(bb_attempts_key b, ?a)]"
  have pos: "0 < sint ?a" by (rule attempts_positive) simp
  obtain pairs w1 where "barebox_prio_pairs run cfg s slots w = (Ok pairs, w1)"
    and set: "barebox_state_set run cfg (pairs @ [bb_attempts_pair s ?a]) w1 = (Ok (), w')"
    using assms(3) by (auto simp: r_barebox_set_primary_def io_iff Let_def)
  note pp = prio_pairs_Ok [OF this(1)]
  have call: "barebox_state_set run cfg (map bb_assign ?ps) w = (Ok (), w')"
    using set pp assms(2) pos by (simp add: bb_pairs_assign bootname_str_def)
  have keys: "list_all (\<lambda>p. CHR ''='' \<notin> set (fst p)) ?ps"
    using no_equal assms(1,2) bb_keys_equal_sign
    by (auto simp: list_all_iff bb_new_prios_def bootname_str_def bootable_def)
  have "distinct (map fst ?ps)"
    using boot_slots_okD(2) [OF slots_ok] bb_new_prios_distinct [of slots "vars w" s]
    by (auto simp: bb_new_prios_def)
  then have v: "vars w' k = (case map_of ?ps k of None \<Rightarrow> vars w k | Some v \<Rightarrow> Some v)" for k
    using state_set_vars [OF keys call] bb_update_distinct by simp
  have prio: "vars w' (bb_prio_key c) = Some (bb_new_prio (vars w) s t)"
    if "bootable slots t" "slot_bootname t = Some c" for t c
  proof -
    have "(bb_prio_key c, bb_new_prio (vars w) s t) \<in> set ?ps"
      using that by (auto simp: bb_new_prios_def bootable_def bootname_str_def intro!: image_eqI [where x = t])
    with \<open>distinct (map fst ?ps)\<close> show ?thesis by (simp add: v map_of_eq_Some_iff del: map_of_append)
  qed
  show "vars w' (bb_prio_key b) = Some 20" using prio [OF assms(1,2)] by (simp add: bb_new_prio_def)
  have none: "map_of (bb_new_prios (vars w) s slots) (bb_attempts_key c) = None" for c
    by (auto simp: map_of_eq_None_iff bb_new_prios_def)
  have "?a \<noteq> 0" using pos by auto
  then show "\<exists>a. vars w' (bb_attempts_key b) = Some a \<and> a \<noteq> 0" using none by (simp add: v map_add_def)
  assume t: "bootable slots t" "slot_bootname t = Some c" "t \<noteq> s"
  have "slot_name t \<noteq> slot_name s"
    using t assms(1) boot_slots_okD(1) [OF slots_ok] by (auto simp: bootable_def distinct_map inj_on_def)
  then have "bb_new_prio (vars w) s t \<le> 10" by (simp add: bb_new_prio_def)
  moreover have "c \<noteq> b"
    using t assms(1,2) bootname_unique [OF boot_slots_okD(2) [OF slots_ok]] by (auto simp: bootable_def)
  then have "vars w' (bb_attempts_key c) = vars w (bb_attempts_key c)" using none by (simp add: v map_add_def)
  moreover obtain st where "slot_vars w c st" using pp t by (auto simp: bootable_def)
  ultimately show "\<exists>st. slot_vars w' c st \<and> bb_prio st \<le> 10"
    using prio [OF t(1,2)]
    by (intro exI [of _ "\<lparr>bb_prio = bb_new_prio (vars w) s t, bb_attempts = bb_attempts st\<rparr>"]) simp
qed

lemma set_primary_laws:
  assumes "bootable slots s" and "r_barebox_set_primary run cfg slots s w = (Ok (), w')"
  shows "r_barebox_get_primary run cfg slots w' = (Ok s, w')" "r_barebox_get_state run cfg s w' = (Ok True, w')"
proof -
  obtain b where b: "slot_bootname s = Some b" "s \<in> set slots" using assms(1) by (auto simp: bootable_def)
  note vars' = set_primary_vars [OF assms(1) b(1) assms(2)]
  obtain a where a: "vars w' (bb_attempts_key b) = Some a" "a \<noteq> 0" using vars'(2) by blast
  have st: "slot_vars w' b \<lparr>bb_prio = 20, bb_attempts = a\<rparr>" using vars'(1) a by simp
  have others: "\<forall>t\<in>set slots. \<forall>c. slot_bootname t = Some c \<and> t \<noteq> s \<longrightarrow>
      (\<exists>st. slot_vars w' c st \<and> bb_prio st \<le> 10)"
    using vars'(3) by (auto simp: bootable_def)
  have "barebox_scan run cfg slots None 0 w' = (Ok (Some s), w')"
    by (rule scan_top [OF b(1) st _ _ others]) (use a b(2) in auto)
  then show "r_barebox_get_primary run cfg slots w' = (Ok s, w')"
    by (simp add: r_barebox_get_primary_def io_bind_def io_return_def)
  show "r_barebox_get_state run cfg s w' = (Ok True, w')"
    unfolding get_state_good_iff [OF b(1)] using st a(2)
    by (intro conjI exI [of _ "\<lparr>bb_prio = 20, bb_attempts = a\<rparr>"]) (auto simp: word_gt_0)
qed

lemma set_bad_vars:
  assumes "bootable slots s" and "slot_bootname s = Some b" and "r_barebox_set_state run cfg s False w = (Ok (), w')"
  shows "vars w' = (vars w)(bb_prio_key b \<mapsto> 0, bb_attempts_key b \<mapsto> 0)"
proof -
  let ?ps = "[(bb_prio_key b, 0), (bb_attempts_key b, 0)] :: (string \<times> 32 word) list"
  have "barebox_state_set run cfg (map bb_assign ?ps) w = (Ok (), w')"
    using assms(2,3) by (simp add: r_barebox_set_state_def bb_pairs_assign bootname_str_def)
  moreover have "list_all (\<lambda>p. CHR ''='' \<notin> set (fst p)) ?ps"
    using bb_keys_equal_sign [OF no_equal [OF assms(1,2)]] by simp
  ultimately show ?thesis using state_set_vars [of ?ps w w'] by (simp add: bb_update_def)
qed

lemma set_bad_laws:
  assumes "bootable slots s" and "r_barebox_set_state run cfg s False w = (Ok (), w')"
  shows "fst (r_barebox_get_state run cfg s w') \<noteq> Ok True" "fst (r_barebox_get_primary run cfg slots w') \<noteq> Ok s"
proof -
  obtain b where b: "slot_bootname s = Some b" using assms(1) by (auto simp: bootable_def)
  note vars' = set_bad_vars [OF assms(1) b assms(2)]
  have zero: "bb_attempts st = 0" if "slot_vars w' b st" for st using that by (simp add: vars')
  show "fst (r_barebox_get_state run cfg s w') \<noteq> Ok True"
    using get_state_good_iff [OF b, of w'] zero by (metis prod.collapse less_irrefl)
  show "fst (r_barebox_get_primary run cfg slots w') \<noteq> Ok s"
  proof
    assume "fst (r_barebox_get_primary run cfg slots w') = Ok s"
    then obtain w2 where "r_barebox_get_primary run cfg slots w' = (Ok s, w2)" by (metis prod.collapse)
    then obtain w3 where "barebox_scan run cfg slots None 0 w' = (Ok (Some s), w3)"
      by (auto simp: r_barebox_get_primary_def io_iff split: option.splits)
    from scan_attempts [OF this] show False using b zero by auto
  qed
qed

lemma good_kept:
  assumes "bootable slots s" and "bootable slots t" and "t \<noteq> s"
    and "r_barebox_get_state run cfg t w = (Ok True, w)" and "r_barebox_set_state run cfg s False w = (Ok (), w')"
  shows "r_barebox_get_state run cfg t w' = (Ok True, w')"
proof -
  obtain b c where b: "slot_bootname s = Some b" and c: "slot_bootname t = Some c"
    using assms(1,2) by (auto simp: bootable_def)
  have "c \<noteq> b"
    using assms(1-3) b c bootname_unique [OF boot_slots_okD(2) [OF slots_ok]] by (auto simp: bootable_def)
  then have "vars w' (bb_prio_key c) = vars w (bb_prio_key c)"
    "vars w' (bb_attempts_key c) = vars w (bb_attempts_key c)"
    by (simp_all add: set_bad_vars [OF assms(1) b assms(5)])
  then show ?thesis
    using assms(4) get_state_good_iff [OF c, of w w] get_state_good_iff [OF c, of w' w'] by simp
qed

end

sublocale barebox_backend \<subseteq> boot_backend slots "\<lambda>w. True" "r_barebox_get_primary run cfg slots"
  "r_barebox_set_primary run cfg slots" "r_barebox_get_state run cfg" "r_barebox_set_state run cfg"
proof (unfold_locales, goal_cases)
  case (1 w s w') then show ?case using set_primary_laws(1) by simp
next
  case (3 w s w') then show ?case using set_primary_laws(2) by simp
next
  case (4 w s w') then show ?case using set_bad_laws(1) by simp
next
  case (5 w s w') then show ?case using set_bad_laws(2) by simp
next
  case (6 w s t w') then show ?case using good_kept by blast
qed simp_all

context barebox_backend
begin

lemma backend_contract:
  "boot_backend slots (\<lambda>w. True) (r_barebox_get_primary run cfg slots) (r_barebox_set_primary run cfg slots)
     (r_barebox_get_state run cfg) (r_barebox_set_state run cfg)"
  by unfold_locales

end

subsection \<open>A simulator of barebox-state\<close>

text \<open>The state variables as an association list, without the options for a state name or a
  device tree. An assignment is split at its first equal sign.\<close>

definition bb_sim_assign :: "(string \<times> 32 word) list \<Rightarrow> string \<Rightarrow> (string \<times> 32 word) list" where
  "bb_sim_assign w s = AList.update (takeWhile (\<lambda>c. c \<noteq> CHR ''='') s)
     (ucast (strtoull_val (drop 1 (dropWhile (\<lambda>c. c \<noteq> CHR ''='') s)) 10)) w"

fun bb_sim_set :: "string list \<Rightarrow> (string \<times> 32 word) list \<Rightarrow> proc \<times> (string \<times> 32 word) list" where
  "bb_sim_set [] w = (Exited 0 [], w)"
| "bb_sim_set (opt # s # args) w = (if opt = ''-s'' then bb_sim_set args (bb_sim_assign w s) else (Exited 1 [], w))"
| "bb_sim_set args w = (Exited 1 [], w)"

definition bb_sim :: "(string \<times> 32 word) list runner" where
  "bb_sim args w = (case args of
      [p, g1, k1, g2, k2] \<Rightarrow>
        if p = ''barebox-state'' \<and> g1 = ''-g'' \<and> g2 = ''-g'' then
          (case (map_of w k1, map_of w k2) of
             (Some a, Some b) \<Rightarrow>
               (Exited 0 (nat_str 10 (unat a) @ [NEWLINE] @ nat_str 10 (unat b) @ [NEWLINE]), w)
           | _ \<Rightarrow> (Exited 1 [], w))
        else bb_sim_set (tl args) w
    | _ \<Rightarrow> bb_sim_set (tl args) w)"

lemma bb_sim_assign_ok:
  "CHR ''='' \<notin> set (fst p) \<Longrightarrow> map_of (bb_sim_assign w (bb_assign p)) = (map_of w)(fst p \<mapsto> snd p)"
proof -
  assume "CHR ''='' \<notin> set (fst p)"
  then have *: "\<forall>c\<in>set (fst p). c \<noteq> CHR ''=''" by auto
  have "uint (snd p) < 4294967296" using uint_lt2p [of "snd p"] by simp
  then have "strtoull_val (nat_str 10 (unat (snd p))) 10 = of_nat (unat (snd p))"
    by (subst strtoull_nat_str) auto
  then show ?thesis using *
    by (simp add: bb_sim_assign_def bb_assign_def update_conv' ucast_up_ucast_id is_up)
qed

lemma bb_sim_set_ok:
  assumes "list_all (\<lambda>p. CHR ''='' \<notin> set (fst p)) ps"
    and "bb_sim_set (concat (map (\<lambda>p. [''-s'', bb_assign p]) ps)) w = (Exited 0 out, w')"
  shows "map_of w' = bb_update (map_of w) ps"
  using assms
proof (induction ps arbitrary: w)
  case (Cons p ps)
  then show ?case using bb_sim_assign_ok [of p w] by (cases p) (simp add: bb_update_def)
qed (simp add: bb_update_def)

lemma bb_sim_set_args:
  "bb_sim (''barebox-state'' # concat (map (\<lambda>p. [''-s'', bb_assign p]) ps)) w
    = bb_sim_set (concat (map (\<lambda>p. [''-s'', bb_assign p]) ps)) w"
  by (cases ps) (auto simp: bb_sim_def split: list.splits)

interpretation bb_sim: barebox_state_tool bb_sim config_default map_of
proof (unfold_locales, goal_cases)
  case (1 w k1 a k2 b)
  then show ?case by (simp add: bb_sim_def barebox_args_def config_default_def)
next
  case (2 w k1 k2)
  then show ?case by (auto simp: bb_sim_def barebox_args_def config_default_def split: option.splits)
next
  case (3 ps w out w')
  then show ?case
    using bb_sim_set_ok bb_sim_set_args by (simp add: barebox_args_def config_default_def)
qed

definition barebox_demo_slots :: slots where
  "barebox_demo_slots =
     [(slot_new0 ''rootfs.0'' ''rootfs'') \<lparr>slot_bootname := Some ''system0''\<rparr>,
      (slot_new0 ''rootfs.1'' ''rootfs'') \<lparr>slot_bootname := Some ''system1''\<rparr>]"

definition barebox_demo_state :: "(string \<times> 32 word) list" where
  "barebox_demo_state =
     [(''bootstate.system0.priority'', 20), (''bootstate.system0.remaining_attempts'', 3),
      (''bootstate.system1.priority'', 10), (''bootstate.system1.remaining_attempts'', 3)]"

lemma barebox_demo_ok:
  "boot_slots_ok barebox_demo_slots \<and> list_all (\<lambda>b. CHR ''='' \<notin> set b) (bootnames barebox_demo_slots)"
  by code_simp

interpretation barebox_demo: barebox_backend bb_sim config_default map_of barebox_demo_slots
  using barebox_demo_ok by unfold_locales auto

subsection \<open>Properties\<close>

text \<open>
  The barebox calls of an installation, for a \<open>barebox-state\<close> that behaves as documented:
  after marking the target bad it is neither good nor primary; after activating it, it has the
  top priority among the slots with attempts left, so that it is primary and good.
\<close>

theorem barebox_install_sequence:
  assumes "barebox_backend run cfg vars slots" and "bootable slots s"
    and "r_barebox_set_state run cfg s False w = (Ok (), w1)"
    and "r_barebox_set_primary run cfg slots s w1 = (Ok (), w2)"
  shows "fst (r_barebox_get_state run cfg s w1) \<noteq> Ok True \<and> fst (r_barebox_get_primary run cfg slots w1) \<noteq> Ok s \<and>
    r_barebox_get_primary run cfg slots w2 = (Ok s, w2) \<and> r_barebox_get_state run cfg s w2 = (Ok True, w2)"
  using boot_backend.install_sequence [OF barebox_backend.backend_contract [OF assms(1)] TrueI assms(2-4)]
  by blast

theorem barebox_install_sequence_witness:
  "fst (r_barebox_get_primary bb_sim config_default barebox_demo_slots
      (snd (r_barebox_set_primary bb_sim config_default barebox_demo_slots (barebox_demo_slots ! 1)
        (snd (r_barebox_set_state bb_sim config_default (barebox_demo_slots ! 1) False
          barebox_demo_state))))) = Ok (barebox_demo_slots ! 1)"
proof -
  have "bootable barebox_demo_slots (barebox_demo_slots ! 1)"
    "r_barebox_set_state bb_sim config_default (barebox_demo_slots ! 1) False barebox_demo_state =
      (Ok (), snd (r_barebox_set_state bb_sim config_default (barebox_demo_slots ! 1) False
        barebox_demo_state))"
    "r_barebox_set_primary bb_sim config_default barebox_demo_slots (barebox_demo_slots ! 1)
        (snd (r_barebox_set_state bb_sim config_default (barebox_demo_slots ! 1) False barebox_demo_state)) =
      (Ok (), snd (r_barebox_set_primary bb_sim config_default barebox_demo_slots (barebox_demo_slots ! 1)
        (snd (r_barebox_set_state bb_sim config_default (barebox_demo_slots ! 1) False
          barebox_demo_state))))"
    by code_simp+
  from barebox_install_sequence [OF barebox_demo.barebox_backend_axioms this] show ?thesis by simp
qed

end
