(* ===== verification/Custom.thy ===== *)
theory Custom
  imports Boot_Spec
begin

text \<open>
  The custom backend (\<open>src/src/bootloaders/custom.c\<close>), which delegates every operation to a
  program of the integrator: \<open>get-primary\<close>, \<open>set-primary\<close>, \<open>get-state\<close>, \<open>set-state\<close> and
  \<open>get-current\<close>. \<open>custom_script\<close> states the documented interface of that program.
\<close>

subsection \<open>Calling the program\<close>

definition custom_backend_get ::
    "'w runner \<Rightarrow> rauc_config \<Rightarrow> string \<Rightarrow> string option \<Rightarrow> ('w, string) io" where
  "custom_backend_get run cfg cmd bootname =
     io_bind (run_stdout run ([cfg_custom_bootloader_backend cfg, cmd] @
         (case bootname of None \<Rightarrow> [] | Some b \<Rightarrow> [b])))
       (\<lambda>out. io_return (g_strstrip out))"

definition custom_backend_set ::
    "'w runner \<Rightarrow> rauc_config \<Rightarrow> string \<Rightarrow> string option \<Rightarrow> string option \<Rightarrow> ('w, unit) io" where
  "custom_backend_set run cfg cmd bootname arg = (case bootname of
      None \<Rightarrow> io_fail ERROR_UNSET
    | Some b \<Rightarrow> run_wait_check run ([cfg_custom_bootloader_backend cfg, cmd, b] @
        (case arg of None \<Rightarrow> [] | Some a \<Rightarrow> [a])))"

subsection \<open>Backend operations\<close>

text \<open>Only the first line of the output is read; it must not be empty.\<close>

definition r_custom_get_current_bootname :: "'w runner \<Rightarrow> rauc_config \<Rightarrow> ('w, string) io" where
  "r_custom_get_current_bootname run cfg =
     io_bind (run_stdout run [cfg_custom_bootloader_backend cfg, ''get-current'']) (\<lambda>out.
       let outline = takeWhile (\<lambda>c. c \<noteq> NEWLINE) out in
       if outline = [] then io_fail (R_BOOTCHOOSER_ERROR R_BOOTCHOOSER_ERROR_PARSE_FAILED)
       else io_return outline)"

definition r_custom_set_state :: "'w runner \<Rightarrow> rauc_config \<Rightarrow> rauc_slot \<Rightarrow> bool \<Rightarrow> ('w, unit) io" where
  "r_custom_set_state run cfg slot good =
     custom_backend_set run cfg ''set-state'' (slot_bootname slot) (Some (if good then ''good'' else ''bad''))"

definition r_custom_get_primary :: "'w runner \<Rightarrow> rauc_config \<Rightarrow> slots \<Rightarrow> ('w, rauc_slot) io" where
  "r_custom_get_primary run cfg slots =
     io_bind (custom_backend_get run cfg ''get-primary'' None) (\<lambda>ret_str.
       case slot_by_bootname slots ret_str of
         None \<Rightarrow> io_fail (R_BOOTCHOOSER_ERROR R_BOOTCHOOSER_ERROR_PARSE_FAILED)
       | Some slot \<Rightarrow> io_return slot)"

definition r_custom_get_state :: "'w runner \<Rightarrow> rauc_config \<Rightarrow> rauc_slot \<Rightarrow> ('w, bool) io" where
  "r_custom_get_state run cfg slot =
     io_bind (custom_backend_get run cfg ''get-state'' (slot_bootname slot)) (\<lambda>ret_str.
       if ret_str = ''good'' then io_return True
       else if ret_str = ''bad'' then io_return False
       else io_fail (R_BOOTCHOOSER_ERROR R_BOOTCHOOSER_ERROR_FAILED))"

definition r_custom_set_primary :: "'w runner \<Rightarrow> rauc_config \<Rightarrow> rauc_slot \<Rightarrow> ('w, unit) io" where
  "r_custom_set_primary run cfg slot =
     custom_backend_set run cfg ''set-primary'' (slot_bootname slot) None"

subsection \<open>The program's interface\<close>

locale custom_script =
  fixes run :: "'w runner" and cfg :: rauc_config
    and primary :: "'w \<Rightarrow> string option" and state :: "'w \<Rightarrow> string \<Rightarrow> bool"
  assumes script_get_primary: "primary w = Some b \<Longrightarrow>
      run [cfg_custom_bootloader_backend cfg, ''get-primary''] w = (Exited 0 (b @ [NEWLINE]), w)"
    and script_set_primary:
      "run [cfg_custom_bootloader_backend cfg, ''set-primary'', b] w = (Exited 0 out, w') \<Longrightarrow>
       primary w' = Some b"
    and script_get_state: "run [cfg_custom_bootloader_backend cfg, ''get-state'', b] w
        = (Exited 0 ((if state w b then ''good'' else ''bad'') @ [NEWLINE]), w)"
    and script_set_state:
      "run [cfg_custom_bootloader_backend cfg, ''set-state'', b, if good then ''good'' else ''bad''] w
         = (Exited 0 out, w') \<Longrightarrow> state w' = (state w)(b := good)"

locale custom_backend = custom_script run cfg primary state
  for run :: "'w runner" and cfg and primary and state +
  fixes slots :: slots
  assumes slots_ok: "boot_slots_ok slots"
begin

lemma strip_clean: "bootname_clean b \<Longrightarrow> g_strstrip (b @ [NEWLINE]) = b"
proof -
  assume b: "bootname_clean b"
  then have "g_strchug (b @ [NEWLINE]) = b @ [NEWLINE]"
    by (cases b) (auto simp: g_strchug_def bootname_clean_def)
  moreover have "\<not> g_ascii_isspace (last b)" using b by (auto simp: bootname_clean_def)
  ultimately show ?thesis by (simp add: g_strstrip_def g_strchomp_id)
qed

lemma set_primary_get_primary:
  assumes "bootable slots s" and "r_custom_set_primary run cfg s w = (Ok (), w')"
  shows "r_custom_get_primary run cfg slots w' = (Ok s, w')"
proof -
  obtain b where b: "slot_bootname s = Some b" "s \<in> set slots" using assms(1) by (auto simp: bootable_def)
  have "primary w' = Some b"
    using assms(2) b script_set_primary
    by (auto simp: r_custom_set_primary_def custom_backend_set_def io_iff)
  note get = script_get_primary [OF this]
  have clean: "bootname_clean b" using boot_slots_okD(3) [OF slots_ok b(2,1)] .
  have "slot_by_bootname slots b = Some s"
    using slot_by_bootname_found [OF boot_slots_okD(2) [OF slots_ok] b(2,1)] .
  then show ?thesis
    using get strip_clean [OF clean]
    by (simp add: r_custom_get_primary_def custom_backend_get_def run_stdout_def io_bind_def io_return_def)
qed

lemma get_state_eq:
  "slot_bootname s = Some b \<Longrightarrow> r_custom_get_state run cfg s w = (Ok (state w b), w)"
proof -
  have strip: "g_strstrip (''good'' @ [NEWLINE]) = ''good''" "g_strstrip (''bad'' @ [NEWLINE]) = ''bad''"
    by code_simp+
  assume "slot_bootname s = Some b"
  then show ?thesis
    using strip script_get_state [of b w]
    by (simp add: r_custom_get_state_def custom_backend_get_def run_stdout_def io_bind_def io_return_def)
qed

lemma set_state_get_state:
  assumes "slot_bootname s = Some b" and "slot_bootname t = Some c"
    and "r_custom_set_state run cfg s good w = (Ok (), w')"
  shows "r_custom_get_state run cfg t w' = (Ok (if c = b then good else state w c), w')"
proof -
  have "state w' = (state w)(b := good)"
    using assms(1,3) script_set_state
    by (auto simp: r_custom_set_state_def custom_backend_set_def io_iff)
  then show ?thesis using get_state_eq [OF assms(2), of w'] by simp
qed

end

sublocale custom_backend \<subseteq> boot_primary slots "\<lambda>w. True" "r_custom_get_primary run cfg slots"
  "r_custom_set_primary run cfg"
  using set_primary_get_primary by unfold_locales auto

subsection \<open>A simulator\<close>

text \<open>The script keeps the primary bootname and the list of good bootnames.\<close>

fun custom_sim :: "rauc_config \<Rightarrow> (string option \<times> string list) runner" where
  "custom_sim cfg [p, cmd] (prim, good) =
     (if p = cfg_custom_bootloader_backend cfg \<and> cmd = ''get-primary'' \<and> prim \<noteq> None
      then (Exited 0 (the prim @ [NEWLINE]), (prim, good)) else (Exited 1 [], (prim, good)))"
| "custom_sim cfg [p, cmd, b] (prim, good) =
     (if cmd = ''set-primary'' then (Exited 0 [], (Some b, good))
      else if cmd = ''get-state''
        then (Exited 0 ((if b \<in> set good then ''good'' else ''bad'') @ [NEWLINE]), (prim, good))
      else (Exited 1 [], (prim, good)))"
| "custom_sim cfg [p, cmd, b, arg] (prim, good) =
     (if cmd = ''set-state''
      then (Exited 0 [], (prim, if arg = ''good'' then b # good else filter (\<lambda>x. x \<noteq> b) good))
      else (Exited 1 [], (prim, good)))"
| "custom_sim cfg args w = (Exited 1 [], w)"

interpretation custom_sim: custom_script "custom_sim cfg" cfg fst "\<lambda>w b. b \<in> set (snd w)" for cfg
  by (unfold_locales; auto split: if_splits)

definition custom_demo_slots :: slots where
  "custom_demo_slots =
     [(slot_new0 ''rootfs.0'' ''rootfs'') \<lparr>slot_bootname := Some ''A''\<rparr>,
      (slot_new0 ''rootfs.1'' ''rootfs'') \<lparr>slot_bootname := Some ''B''\<rparr>]"

lemma custom_demo_slots_ok: "boot_slots_ok custom_demo_slots"
  by code_simp

interpretation custom_demo: custom_backend "custom_sim config_default" config_default fst
    "\<lambda>w b. b \<in> set (snd w)" custom_demo_slots
  using custom_demo_slots_ok by unfold_locales

end
