(* ===== verification/Efi.thy ===== *)
theory Efi
  imports Boot_Spec
begin

text \<open>
  The EFI backend (\<open>src/src/bootloaders/efi.c\<close>), on top of \<open>efibootmgr\<close>. Boot entries map a
  four-digit number to a name, the bootname of a slot; \<open>BootOrder\<close> is the persistent order and
  \<open>BootNext\<close>, when set, is tried once before it. The output of \<open>efibootmgr\<close> is read with regular
  expressions that each match within one line; they are modelled by functions on lines.
\<close>

subsection \<open>Parsing the output of efibootmgr\<close>

record efi_bootentry =
  efi_num :: string
  efi_name :: string
  efi_active :: bool

definition efi_number :: "string \<Rightarrow> bool" where
  "efi_number s \<longleftrightarrow> length s = 4 \<and> (\<forall>c\<in>set s. g_ascii_xdigit_value c \<noteq> None)"

text \<open>\<open>^Boot([0-9a-fA-F]{4})[\* ] (.+)$\<close>, the name cut at the first tab.\<close>

definition efi_match_entry :: "string \<Rightarrow> efi_bootentry option" where
  "efi_match_entry line =
     (let num = take 4 (drop 4 line); rest = drop 8 line in
      if g_str_has_prefix line ''Boot'' \<and> efi_number num then
        (case rest of
           m # sp # name \<Rightarrow>
             if (m = CHR ''*'' \<or> m = CHR '' '') \<and> sp = CHR '' '' \<and> name \<noteq> []
             then Some \<lparr>efi_num = num, efi_name = takeWhile (\<lambda>c. c \<noteq> TAB) name, efi_active = False\<rparr>
             else None
         | _ \<Rightarrow> None)
      else None)"

text \<open>\<open>^BootNext: ([0-9a-fA-F]{4})$\<close> and \<open>^BootCurrent: ([0-9a-fA-F]{4})$\<close>\<close>

definition efi_match_number :: "string \<Rightarrow> string \<Rightarrow> string option" where
  "efi_match_number key line =
     (let num = drop (length key) line in
      if g_str_has_prefix line key \<and> efi_number num then Some num else None)"

text \<open>\<open>^BootOrder: (\S+)$\<close>\<close>

definition efi_match_order :: "string \<Rightarrow> string option" where
  "efi_match_order line =
     (let order = drop (length ''BootOrder: '') line in
      if g_str_has_prefix line ''BootOrder: '' \<and> order \<noteq> [] \<and> (\<forall>c\<in>set order. \<not> isspace_v c)
      then Some order else None)"

definition first_match :: "('a \<Rightarrow> 'b option) \<Rightarrow> 'a list \<Rightarrow> 'b option" where
  "first_match f xs = (case List.map_filter f xs of [] \<Rightarrow> None | y # _ \<Rightarrow> Some y)"

definition get_efi_entry_by_bootnum :: "efi_bootentry list \<Rightarrow> string \<Rightarrow> efi_bootentry option" where
  "get_efi_entry_by_bootnum entries bootnum = find (\<lambda>e. efi_num e = bootnum) entries"

text \<open>What \<open>efi_bootorder_get\<close> returns through its four out parameters.\<close>

record efi_info =
  efi_order_entries :: "efi_bootentry list"
  efi_all_entries :: "efi_bootentry list"
  efi_bootnext :: "efi_bootentry option"
  efi_bootcurrent :: "efi_bootentry option"

definition efi_parse_output :: "string \<Rightarrow> efi_info result" where
  "efi_parse_output stdout_str =
     (let lines = split_on NEWLINE stdout_str;
          entries = List.map_filter efi_match_entry lines
      in if entries = [] then Error (R_BOOTCHOOSER_ERROR R_BOOTCHOOSER_ERROR_FAILED)
         else case first_match efi_match_order lines of
           None \<Rightarrow> Error (R_BOOTCHOOSER_ERROR R_BOOTCHOOSER_ERROR_FAILED)
         | Some matched \<Rightarrow> Ok
             \<lparr>efi_order_entries = List.map_filter (get_efi_entry_by_bootnum entries) (g_strsplit matched (CHR '','')),
              efi_all_entries = entries,
              efi_bootnext = Option.bind (first_match (efi_match_number ''BootNext: '') lines)
                (get_efi_entry_by_bootnum entries),
              efi_bootcurrent = Option.bind (first_match (efi_match_number ''BootCurrent: '') lines)
                (get_efi_entry_by_bootnum entries)\<rparr>)"

definition efi_bootorder_get :: "'w runner \<Rightarrow> ('w, efi_info) io" where
  "efi_bootorder_get run = io_bind (run_stdout run [''efibootmgr'']) (\<lambda>out. io_lift (efi_parse_output out))"

subsection \<open>Changing the boot entries\<close>

definition efi_bootentry_create :: "'w os \<Rightarrow> rauc_slot \<Rightarrow> ('w, unit) io" where
  "efi_bootentry_create os slot w =
     (case (slot_bootname slot, slot_efi_loader slot, slot_efi_cmdline slot) of
        (Some bn, Some loader, Some cmdline) \<Rightarrow>
          (case os_realpath os (slot_device slot) w of
             None \<Rightarrow> (Error (R_BOOTCHOOSER_ERROR R_BOOTCHOOSER_ERROR_FAILED), w)
           | Some realdev \<Rightarrow>
               let sysfs_part_path = g_build_filename
                     (g_build_filename ''/sys/class/block'' (g_path_get_basename realdev)) ''partition''
               in io_bind (io_lift (os_read_file os sysfs_part_path w)) (\<lambda>part_num.
                    run_wait_check (os_run os) [''efibootmgr'', ''--create-only'', ''--disk'', realdev,
                      ''--part'', g_strchomp part_num, ''--label'', bn, ''--loader'', loader,
                      ''--unicode'', cmdline]) w)
      | _ \<Rightarrow> (Error ERROR_UNSET, w))"

definition efi_bootorder_set :: "'w runner \<Rightarrow> string \<Rightarrow> ('w, unit) io" where
  "efi_bootorder_set run order = run_wait_check run [''efibootmgr'', ''--bootorder'', order]"

definition efi_set_bootnext :: "'w runner \<Rightarrow> string \<Rightarrow> ('w, unit) io" where
  "efi_set_bootnext run bootnumber = run_wait_check run [''efibootmgr'', ''--bootnext'', bootnumber]"

definition efi_entry_for :: "rauc_slot \<Rightarrow> efi_bootentry list \<Rightarrow> efi_bootentry option" where
  "efi_entry_for slot entries = find (\<lambda>e. Some (efi_name e) = slot_bootname slot) entries"

text \<open>An entry that does not exist is created when the slot configures a loader and a command line.\<close>

definition efi_bootorder_prepare :: "'w os \<Rightarrow> rauc_slot \<Rightarrow> ('w, efi_info) io" where
  "efi_bootorder_prepare os slot =
     io_bind (efi_bootorder_get (os_run os)) (\<lambda>info.
       if efi_entry_for slot (efi_all_entries info) \<noteq> None then io_return info
       else if slot_efi_loader slot = None \<or> slot_efi_cmdline slot = None
         then io_fail (R_BOOTCHOOSER_ERROR R_BOOTCHOOSER_ERROR_FAILED)
       else io_bind (efi_bootentry_create os slot) (\<lambda>_. efi_bootorder_get (os_run os)))"

definition efi_set_temp_primary :: "'w os \<Rightarrow> rauc_slot \<Rightarrow> ('w, unit) io" where
  "efi_set_temp_primary os slot =
     io_bind (efi_bootorder_prepare os slot) (\<lambda>info.
       case efi_entry_for slot (efi_all_entries info) of
         None \<Rightarrow> io_abort
       | Some entry \<Rightarrow> efi_set_bootnext (os_run os) (efi_num entry))"

text \<open>Remove the first entry of the order that belongs to the slot.\<close>

fun efi_remove_slot :: "rauc_slot \<Rightarrow> efi_bootentry list \<Rightarrow> efi_bootentry list" where
  "efi_remove_slot slot [] = []"
| "efi_remove_slot slot (e # es) =
     (if Some (efi_name e) = slot_bootname slot then es else e # efi_remove_slot slot es)"

text \<open>
  \<open>efi_bootorder_set\<close> is called without an error argument, so that its failure leaves the
  caller's error unset.
\<close>

definition efi_modify_persistent_bootorder :: "'w os \<Rightarrow> rauc_slot \<Rightarrow> bool \<Rightarrow> ('w, unit) io" where
  "efi_modify_persistent_bootorder os slot prepend =
     io_bind (efi_bootorder_prepare os slot) (\<lambda>info.
       let entries = efi_remove_slot slot (efi_order_entries info) in
       io_bind
         (if prepend then
            (case efi_entry_for slot (efi_all_entries info) of
               None \<Rightarrow> io_abort
             | Some entry \<Rightarrow> io_return (entry # entries))
          else io_return entries)
         (\<lambda>entries. io_catch (efi_bootorder_set (os_run os) (g_strjoinv '','' (map efi_num entries)))
            (\<lambda>e. io_fail ERROR_UNSET)))"

subsection \<open>Backend operations\<close>

definition r_efi_set_state :: "'w os \<Rightarrow> rauc_slot \<Rightarrow> bool \<Rightarrow> ('w, unit) io" where
  "r_efi_set_state os slot good = efi_modify_persistent_bootorder os slot good"

definition r_efi_get_primary :: "'w runner \<Rightarrow> slots \<Rightarrow> ('w, rauc_slot) io" where
  "r_efi_get_primary run slots =
     io_bind (efi_bootorder_get run) (\<lambda>info.
       let bootorder_entries =
         (case efi_bootnext info of None \<Rightarrow> [] | Some e \<Rightarrow> [e]) @ efi_order_entries info
       in case first_match (\<lambda>e. slot_by_bootname slots (efi_name e)) bootorder_entries of
            None \<Rightarrow> io_fail (R_BOOTCHOOSER_ERROR R_BOOTCHOOSER_ERROR_PARSE_FAILED)
          | Some slot \<Rightarrow> io_return slot)"

definition r_efi_set_primary :: "'w os \<Rightarrow> rauc_config \<Rightarrow> rauc_slot \<Rightarrow> ('w, unit) io" where
  "r_efi_set_primary os cfg slot =
     (if cfg_efi_use_bootnext cfg then efi_set_temp_primary os slot
      else efi_modify_persistent_bootorder os slot True)"

definition r_efi_get_state :: "'w runner \<Rightarrow> rauc_slot \<Rightarrow> ('w, bool) io" where
  "r_efi_get_state run slot =
     io_bind (efi_bootorder_get run) (\<lambda>info.
       io_return (efi_entry_for slot (efi_order_entries info) \<noteq> None))"

text \<open>\<open>bootcurrent\<close> is dereferenced for every slot that is compared, also when it is NULL.\<close>

definition r_efi_get_current_bootname :: "'w runner \<Rightarrow> slots \<Rightarrow> ('w, string) io" where
  "r_efi_get_current_bootname run slots =
     io_bind (efi_bootorder_get run) (\<lambda>info.
       case efi_bootcurrent info of
         None \<Rightarrow> (if slots = [] then io_fail (R_BOOTCHOOSER_ERROR R_BOOTCHOOSER_ERROR_FAILED) else io_abort)
       | Some e \<Rightarrow>
           (if slot_by_bootname slots (efi_name e) = None
            then io_fail (R_BOOTCHOOSER_ERROR R_BOOTCHOOSER_ERROR_FAILED)
            else io_return (efi_name e)))"

subsection \<open>efibootmgr\<close>

text \<open>
  The firmware's boot variables. \<open>efibootmgr\<close> without arguments prints them, one per line;
  \<open>--bootorder\<close> and \<open>--bootnext\<close> assign them.
\<close>

record efi_vars =
  ev_entries :: "efi_bootentry list"
  ev_order :: "string list"
  ev_next :: "string option"
  ev_current :: "string option"

definition efi_entry_line :: "efi_bootentry \<Rightarrow> string" where
  "efi_entry_line e = ''Boot'' @ efi_num e @ (if efi_active e then ''* '' else ''  '') @ efi_name e @
     TAB # ''path''"

definition efi_var_lines :: "efi_vars \<Rightarrow> string list" where
  "efi_var_lines v =
     (case ev_next v of None \<Rightarrow> [] | Some n \<Rightarrow> [''BootNext: '' @ n]) @
     (case ev_current v of None \<Rightarrow> [] | Some n \<Rightarrow> [''BootCurrent: '' @ n]) @
     [''Timeout: 1 seconds''] @
     [''BootOrder: '' @ g_strjoinv '','' (ev_order v)] @ map efi_entry_line (ev_entries v)"

definition efi_print :: "efi_vars \<Rightarrow> string" where
  "efi_print v = g_strjoinv [NEWLINE] (efi_var_lines v) @ [NEWLINE]"

text \<open>
  Numbers have four hexadecimal digits and identify an entry; names have no tab or line break
  and are not empty; every number in use has an entry.
\<close>

definition efi_wf :: "efi_vars \<Rightarrow> bool" where
  "efi_wf v \<longleftrightarrow> ev_entries v \<noteq> [] \<and> ev_order v \<noteq> [] \<and>
     list_all (\<lambda>e. efi_number (efi_num e) \<and> efi_name e \<noteq> [] \<and>
       TAB \<notin> set (efi_name e) \<and> NEWLINE \<notin> set (efi_name e)) (ev_entries v) \<and>
     distinct (map efi_num (ev_entries v)) \<and> distinct (map efi_name (ev_entries v)) \<and>
     distinct (ev_order v) \<and>
     set (ev_order v) \<subseteq> efi_num ` set (ev_entries v) \<and>
     (case ev_next v of None \<Rightarrow> True | Some n \<Rightarrow> n \<in> efi_num ` set (ev_entries v)) \<and>
     (case ev_current v of None \<Rightarrow> True | Some n \<Rightarrow> n \<in> efi_num ` set (ev_entries v))"

subsection \<open>Printing and parsing agree\<close>

lemma efi_number_cases:
  assumes "efi_number n"
  obtains a b c d where "n = [a, b, c, d]" "g_ascii_xdigit_value a \<noteq> None" "g_ascii_xdigit_value b \<noteq> None"
  using assms by (auto simp: efi_number_def numeral_eq_Suc length_Suc_conv)

lemma hex_digit_char:
  assumes "g_ascii_xdigit_value c \<noteq> None"
  shows "c \<noteq> CHR ''N''" "c \<noteq> CHR ''u''" "c \<noteq> CHR ''O''" "c \<noteq> NEWLINE" "c \<noteq> CHR '',''" "\<not> isspace_v c"
proof -
  let ?cs = "[CHR ''N'', CHR ''u'', CHR ''O'', NEWLINE, CHR '','', TAB, CHR '' '', CHR 0x0C, CHR 0x0D, CHR 0x0B]"
  have "list_all (\<lambda>x. g_ascii_xdigit_value x = None) ?cs" by code_simp
  then have all: "\<forall>x\<in>set ?cs. g_ascii_xdigit_value x = None" by (simp only: list_all_iff)
  have *: "c \<notin> set ?cs"
  proof
    assume "c \<in> set ?cs"
    from bspec [OF all this] assms show False by (rule notE [rotated])
  qed
  then show "c \<noteq> CHR ''N''" "c \<noteq> CHR ''u''" "c \<noteq> CHR ''O''" "c \<noteq> NEWLINE" "c \<noteq> CHR '',''"
    by simp_all
  show "\<not> isspace_v c" using * by (simp add: isspace_v_def g_ascii_isspace_def)
qed

text \<open>The entry as the parser reports it: the activity flag is never set.\<close>

definition efi_plain :: "efi_bootentry \<Rightarrow> efi_bootentry" where
  "efi_plain e = e\<lparr>efi_active := False\<rparr>"

lemma efi_plain_simps [simp]: "efi_num (efi_plain e) = efi_num e" "efi_name (efi_plain e) = efi_name e"
  by (simp_all add: efi_plain_def)

lemma efi_match_entry_line:
  assumes "efi_number (efi_num e)" and "efi_name e \<noteq> []" and "TAB \<notin> set (efi_name e)"
  shows "efi_match_entry (efi_entry_line e) = Some (efi_plain e)"
    "efi_match_order (efi_entry_line e) = None"
    "efi_match_number ''BootNext: '' (efi_entry_line e) = None"
    "efi_match_number ''BootCurrent: '' (efi_entry_line e) = None"
proof -
  obtain a b c d where n: "efi_num e = [a, b, c, d]" "g_ascii_xdigit_value a \<noteq> None" "g_ascii_xdigit_value b \<noteq> None"
    using efi_number_cases [OF assms(1)] .
  have tw: "takeWhile (\<lambda>c. c \<noteq> TAB) (efi_name e @ TAB # r) = efi_name e" for r
    using assms(3) by (subst takeWhile_append2) auto
  show "efi_match_entry (efi_entry_line e) = Some (efi_plain e)"
    using assms(1) tw n(1) by (cases e) (simp add: efi_match_entry_def efi_entry_line_def efi_plain_def)
  show "efi_match_order (efi_entry_line e) = None"
    "efi_match_number ''BootNext: '' (efi_entry_line e) = None"
    "efi_match_number ''BootCurrent: '' (efi_entry_line e) = None"
    using n hex_digit_char [OF n(2)] hex_digit_char [OF n(3)]
    by (simp_all add: efi_match_order_def efi_match_number_def efi_entry_line_def)
qed

lemma efi_non_hex:
  "\<not> efi_number (CHR ''N'' # r)" "\<not> efi_number (CHR ''O'' # r)" "\<not> efi_number (x # CHR ''u'' # r)"
  using hex_digit_char [of "CHR ''N''"] hex_digit_char [of "CHR ''O''"] hex_digit_char [of "CHR ''u''"]
  by (auto simp: efi_number_def)

lemma efi_match_head_lines:
  "efi_match_entry (''BootNext: '' @ n) = None" "efi_match_entry (''BootCurrent: '' @ n) = None"
  "efi_match_entry ''Timeout: 1 seconds'' = None" "efi_match_entry (''BootOrder: '' @ n) = None"
  "efi_match_order (''BootNext: '' @ n) = None" "efi_match_order (''BootCurrent: '' @ n) = None"
  "efi_match_order ''Timeout: 1 seconds'' = None"
  "efi_match_number ''BootNext: '' (''BootCurrent: '' @ n) = None"
  "efi_match_number ''BootNext: '' ''Timeout: 1 seconds'' = None"
  "efi_match_number ''BootNext: '' (''BootOrder: '' @ n) = None"
  "efi_match_number ''BootCurrent: '' (''BootNext: '' @ n) = None"
  "efi_match_number ''BootCurrent: '' ''Timeout: 1 seconds'' = None"
  "efi_match_number ''BootCurrent: '' (''BootOrder: '' @ n) = None"
  "efi_match_number ''BootNext: '' (''BootNext: '' @ n) = (if efi_number n then Some n else None)"
  "efi_match_number ''BootCurrent: '' (''BootCurrent: '' @ n) = (if efi_number n then Some n else None)"
  "efi_match_entry [] = None" "efi_match_order [] = None" "efi_match_number (CHR ''B'' # k) [] = None"
  by (simp_all add: efi_match_entry_def efi_match_order_def efi_match_number_def efi_non_hex)

lemma first_match_simps:
  "first_match f [] = None"
  "first_match f (x # xs) = (case f x of Some y \<Rightarrow> Some y | None \<Rightarrow> first_match f xs)"
  by (simp_all add: first_match_def List.map_filter_def split: option.splits)

lemma first_match_append:
  "first_match f (xs @ ys) = (case first_match f xs of Some y \<Rightarrow> Some y | None \<Rightarrow> first_match f ys)"
  by (induction xs) (auto simp: first_match_simps split: option.splits)

lemma first_match_None: "\<forall>x\<in>set xs. f x = None \<Longrightarrow> first_match f xs = None"
  by (induction xs) (auto simp: first_match_simps)

lemma efi_wfD:
  assumes "efi_wf v" and "e \<in> set (ev_entries v)"
  shows "efi_number (efi_num e)" "efi_name e \<noteq> []" "TAB \<notin> set (efi_name e)" "NEWLINE \<notin> set (efi_name e)"
  using assms by (auto simp: efi_wf_def list_all_iff)

lemma efi_wf_numbers:
  assumes "efi_wf v"
  shows "n \<in> set (ev_order v) \<Longrightarrow> efi_number n" "ev_next v = Some n \<Longrightarrow> efi_number n"
    "ev_current v = Some n \<Longrightarrow> efi_number n"
  using assms by (auto simp: efi_wf_def list_all_iff)

lemma efi_number_chars:
  assumes "efi_number n"
  shows "NEWLINE \<notin> set n \<and> CHR '','' \<notin> set n \<and> (\<forall>c\<in>set n. \<not> isspace_v c) \<and> n \<noteq> []"
proof -
  have *: "g_ascii_xdigit_value c \<noteq> None" if "c \<in> set n" for c
    using assms that unfolding efi_number_def by blast
  have "n \<noteq> []" using assms unfolding efi_number_def by (cases n) simp_all
  then show ?thesis
    using hex_digit_char(4) [OF *, of NEWLINE] hex_digit_char(5) [OF *, of "CHR '',''"] hex_digit_char(6) [OF *]
    by metis
qed

lemma efi_order_text:
  assumes "efi_wf v"
  shows "g_strjoinv '','' (ev_order v) \<noteq> []" "\<forall>c\<in>set (g_strjoinv '','' (ev_order v)). \<not> isspace_v c"
    "g_strsplit (g_strjoinv '','' (ev_order v)) (CHR '','') = ev_order v"
proof -
  have nums: "efi_number n" if "n \<in> set (ev_order v)" for n using efi_wf_numbers(1) [OF assms that] .
  have ne: "ev_order v \<noteq> []" using assms by (simp add: efi_wf_def)
  have pieces: "\<forall>n\<in>set (ev_order v). n \<noteq> []" "\<forall>n\<in>set (ev_order v). CHR '','' \<notin> set n"
    using nums efi_number_chars by blast+
  show "g_strjoinv '','' (ev_order v) \<noteq> []" using last_join [OF ne pieces(1)] by blast
  have "\<not> isspace_v (CHR '','')" by (simp add: isspace_v_def g_ascii_isspace_def)
  then show "\<forall>c\<in>set (g_strjoinv '','' (ev_order v)). \<not> isspace_v c"
    using set_join [of "'',''" "ev_order v"] nums efi_number_chars by fastforce
  have "ev_order v \<noteq> [[]]" using pieces(1) by auto
  then show "g_strsplit (g_strjoinv '','' (ev_order v)) (CHR '','') = ev_order v"
    using g_strsplit_join [OF pieces(2)] by simp
qed

lemma efi_lines_newline:
  assumes "efi_wf v" and "l \<in> set (efi_var_lines v)"
  shows "NEWLINE \<notin> set l"
proof -
  have order: "NEWLINE \<notin> set (g_strjoinv '','' (ev_order v))"
    using efi_order_text(2) [OF assms(1)] by (auto simp: isspace_v_def g_ascii_isspace_def)
  have entry: "NEWLINE \<notin> set (efi_entry_line e)" if "e \<in> set (ev_entries v)" for e
    using efi_wfD [OF assms(1) that] efi_number_chars [of "efi_num e"] by (auto simp: efi_entry_line_def)
  show ?thesis
    using assms(2) order entry efi_wf_numbers(2,3) [OF assms(1)] efi_number_chars
    by (auto simp: efi_var_lines_def split: option.splits)
qed

lemma efi_print_lines:
  assumes "efi_wf v"
  shows "split_on NEWLINE (efi_print v) = efi_var_lines v @ [[]]"
proof -
  have join: "g_strjoinv [NEWLINE] xs @ [NEWLINE] = g_strjoinv [NEWLINE] (xs @ [[]])" if "xs \<noteq> []" for xs
    using that by (induction xs rule: induct_list012) auto
  have "efi_var_lines v \<noteq> []" by (simp add: efi_var_lines_def)
  then show ?thesis
    using split_on_join [of "efi_var_lines v @ [[]]" NEWLINE] efi_lines_newline [OF assms]
    by (auto simp: efi_print_def join)
qed

lemma map_filter_append: "List.map_filter f (xs @ ys) = List.map_filter f xs @ List.map_filter f ys"
  by (simp add: List.map_filter_def)

lemma efi_entries_lines:
  assumes "efi_wf v"
  shows "List.map_filter efi_match_entry (map efi_entry_line (ev_entries v)) = map efi_plain (ev_entries v)"
    "first_match efi_match_order (map efi_entry_line (ev_entries v)) = None"
    "first_match (efi_match_number ''BootNext: '') (map efi_entry_line (ev_entries v)) = None"
    "first_match (efi_match_number ''BootCurrent: '') (map efi_entry_line (ev_entries v)) = None"
proof -
  note m = efi_match_entry_line [OF efi_wfD(1-3) [OF assms]]
  show "first_match efi_match_order (map efi_entry_line (ev_entries v)) = None"
    "first_match (efi_match_number ''BootNext: '') (map efi_entry_line (ev_entries v)) = None"
    "first_match (efi_match_number ''BootCurrent: '') (map efi_entry_line (ev_entries v)) = None"
    by (rule first_match_None; use m(2-4) in auto)+
  have "List.map_filter efi_match_entry (map efi_entry_line es) = map efi_plain es"
    if "set es \<subseteq> set (ev_entries v)" for es
    using that m(1) by (induction es) (auto simp: List.map_filter_def)
  then show "List.map_filter efi_match_entry (map efi_entry_line (ev_entries v)) = map efi_plain (ev_entries v)"
    by simp
qed

lemma efi_parse_print:
  assumes "efi_wf v"
  shows "efi_parse_output (efi_print v) = Ok
    \<lparr>efi_order_entries = List.map_filter (get_efi_entry_by_bootnum (map efi_plain (ev_entries v))) (ev_order v),
     efi_all_entries = map efi_plain (ev_entries v),
     efi_bootnext = Option.bind (ev_next v) (get_efi_entry_by_bootnum (map efi_plain (ev_entries v))),
     efi_bootcurrent = Option.bind (ev_current v) (get_efi_entry_by_bootnum (map efi_plain (ev_entries v)))\<rparr>"
proof -
  have ne: "ev_entries v \<noteq> []" using assms by (simp add: efi_wf_def)
  have order_line: "efi_match_order (''BootOrder: '' @ g_strjoinv '','' (ev_order v))
      = Some (g_strjoinv '','' (ev_order v))"
    using efi_order_text(1,2) [OF assms] by (simp add: efi_match_order_def)
  have entries: "List.map_filter efi_match_entry (efi_var_lines v @ [[]]) = map efi_plain (ev_entries v)"
    using efi_entries_lines(1) [OF assms]
    by (auto simp: efi_var_lines_def map_filter_append efi_match_head_lines [simplified] List.map_filter_def split: option.splits)
  have order: "first_match efi_match_order (efi_var_lines v @ [[]]) = Some (g_strjoinv '','' (ev_order v))"
    unfolding efi_var_lines_def
    by (auto simp: first_match_append first_match_simps efi_match_head_lines [simplified] order_line [simplified] split: option.splits)
  have "first_match (efi_match_number ''BootNext: '') (efi_var_lines v @ [[]]) = ev_next v"
    "first_match (efi_match_number ''BootCurrent: '') (efi_var_lines v @ [[]]) = ev_current v"
    unfolding efi_var_lines_def using efi_wf_numbers(2,3) [OF assms]
    by (auto simp: first_match_append first_match_simps efi_match_head_lines [simplified] efi_entries_lines [OF assms]
        split: option.splits)
  then show ?thesis
    using ne entries order efi_order_text(3) [OF assms]
    by (simp add: efi_parse_output_def efi_print_lines [OF assms] Let_def)
qed

subsection \<open>The contract\<close>

definition efi_order :: "efi_vars \<Rightarrow> string list \<Rightarrow> efi_bootentry list" where
  "efi_order v ns = List.map_filter (get_efi_entry_by_bootnum (map efi_plain (ev_entries v))) ns"

lemma efi_lookup:
  assumes "efi_wf v" and "e \<in> set (ev_entries v)"
  shows "get_efi_entry_by_bootnum (map efi_plain (ev_entries v)) (efi_num e) = Some (efi_plain e)"
proof -
  have "distinct (map efi_num es) \<Longrightarrow> e \<in> set es \<Longrightarrow>
      find (\<lambda>x. efi_num x = efi_num e) (map efi_plain es) = Some (efi_plain e)" for es
    by (induction es) auto
  then show ?thesis using assms by (simp add: get_efi_entry_by_bootnum_def efi_wf_def)
qed

lemma efi_order_nums:
  assumes "efi_wf v" and "set ns \<subseteq> efi_num ` set (ev_entries v)"
  shows "map efi_num (efi_order v ns) = ns \<and> set (efi_order v ns) \<subseteq> efi_plain ` set (ev_entries v)"
  using assms(2)
proof (induction ns)
  case (Cons n ns)
  then obtain e where "e \<in> set (ev_entries v)" "n = efi_num e" by auto
  then show ?case using Cons efi_lookup [OF assms(1), of e]
    by (auto simp: efi_order_def List.map_filter_def)
qed (simp add: efi_order_def List.map_filter_def)

lemma efi_order_distinct:
  assumes "efi_wf v" and "set ns \<subseteq> efi_num ` set (ev_entries v)" and "distinct ns"
  shows "distinct (map efi_name (efi_order v ns))"
proof -
  note o = efi_order_nums [OF assms(1,2)]
  have d: "distinct (efi_order v ns)" using o assms(3) by (metis distinct_map)
  have "inj_on efi_name (efi_plain ` set (ev_entries v))"
    using assms(1) unfolding efi_wf_def inj_on_def
    by (auto simp: distinct_map inj_on_def efi_plain_def)
  then show ?thesis using d o by (metis distinct_map inj_on_subset)
qed

lemma efi_remove_filter:
  "distinct (map efi_name es) \<Longrightarrow>
   efi_remove_slot s es = filter (\<lambda>e. Some (efi_name e) \<noteq> slot_bootname s) es"
proof (induction es)
  case (Cons e es)
  show ?case
  proof (cases "Some (efi_name e) = slot_bootname s")
    case True
    then have "\<forall>x\<in>set es. Some (efi_name x) \<noteq> slot_bootname s" using Cons.prems
      by (metis distinct.simps(2) imageI list.set_map list.simps(9) option.inject)
    then show ?thesis using True by simp
  next
    case False
    then show ?thesis using Cons by simp
  qed
qed simp

locale efibootmgr_tool =
  fixes os :: "'w os" and vars :: "'w \<Rightarrow> efi_vars"
  assumes efi_print_vars: "efi_wf (vars w) \<Longrightarrow>
      os_run os [''efibootmgr''] w = (Exited 0 (efi_print (vars w)), w)"
    and efi_bootnext_ok: "os_run os [''efibootmgr'', ''--bootnext'', n] w = (Exited 0 out, w') \<Longrightarrow>
      vars w' = (vars w)\<lparr>ev_next := Some n\<rparr>"
    and efi_bootorder_ok: "\<lbrakk>ns \<noteq> []; list_all efi_number ns;
        os_run os [''efibootmgr'', ''--bootorder'', g_strjoinv '','' ns] w = (Exited 0 out, w')\<rbrakk> \<Longrightarrow>
      vars w' = (vars w)\<lparr>ev_order := ns\<rparr>"

text \<open>Every bootable slot has its boot entry; without \<open>BootNext\<close> mode nobody sets \<open>BootNext\<close>.\<close>

definition efi_inv :: "rauc_config \<Rightarrow> slots \<Rightarrow> ('w \<Rightarrow> efi_vars) \<Rightarrow> 'w \<Rightarrow> bool" where
  "efi_inv cfg slots vars w \<longleftrightarrow> efi_wf (vars w) \<and>
     set (bootnames slots) \<subseteq> efi_name ` set (ev_entries (vars w)) \<and>
     (\<not> cfg_efi_use_bootnext cfg \<longrightarrow> ev_next (vars w) = None)"

locale efi_backend = efibootmgr_tool os vars for os :: "'w os" and vars +
  fixes cfg :: rauc_config and slots :: slots
  assumes slots_ok: "boot_slots_ok slots"
begin

lemma get_info:
  assumes "efi_wf (vars w)"
  shows "efi_bootorder_get (os_run os) w = (Ok
    \<lparr>efi_order_entries = efi_order (vars w) (ev_order (vars w)),
     efi_all_entries = map efi_plain (ev_entries (vars w)),
     efi_bootnext = Option.bind (ev_next (vars w)) (get_efi_entry_by_bootnum (map efi_plain (ev_entries (vars w)))),
     efi_bootcurrent = Option.bind (ev_current (vars w))
       (get_efi_entry_by_bootnum (map efi_plain (ev_entries (vars w))))\<rparr>, w)"
  using efi_print_vars [OF assms] efi_parse_print [OF assms]
  by (simp add: efi_bootorder_get_def run_stdout_def io_bind_def io_lift_def efi_order_def)

lemma slot_entry:
  assumes "efi_inv cfg slots vars w" and "bootable slots s" and "slot_bootname s = Some b"
  obtains e where "e \<in> set (ev_entries (vars w))" "efi_name e = b"
    "efi_entry_for s (map efi_plain (ev_entries (vars w))) = Some (efi_plain e)"
proof -
  have "b \<in> set (bootnames slots)" using assms(2,3) by (auto simp: bootable_def set_bootnames)
  then have "\<exists>e\<in>set (ev_entries (vars w)). efi_name e = b"
    using assms(1) unfolding efi_inv_def by auto
  moreover have "(\<exists>e\<in>set es. efi_name e = b) \<Longrightarrow> \<exists>e\<in>set es. efi_name e = b \<and>
      find (\<lambda>e. Some (efi_name e) = slot_bootname s) (map efi_plain es) = Some (efi_plain e)" for es
    using assms(3) by (induction es) auto
  ultimately show ?thesis using that by (auto simp: efi_entry_for_def)
qed

lemma prepare_ok:
  assumes "efi_inv cfg slots vars w" and "bootable slots s"
  shows "efi_bootorder_prepare os s w = efi_bootorder_get (os_run os) w"
proof -
  obtain b where b: "slot_bootname s = Some b" using assms(2) by (auto simp: bootable_def)
  obtain e where "efi_entry_for s (map efi_plain (ev_entries (vars w))) = Some (efi_plain e)"
    using slot_entry [OF assms b] .
  moreover have "efi_wf (vars w)" using assms(1) by (simp add: efi_inv_def)
  ultimately show ?thesis
    using get_info by (simp add: efi_bootorder_prepare_def io_bind_def io_return_def)
qed

lemma temp_primary:
  assumes "efi_inv cfg slots vars w" and "bootable slots s" and "cfg_efi_use_bootnext cfg"
    and "efi_set_temp_primary os s w = (Ok (), w')"
  shows "efi_inv cfg slots vars w'" "r_efi_get_primary (os_run os) slots w' = (Ok s, w')"
proof -
  obtain b where b: "slot_bootname s = Some b" "s \<in> set slots" using assms(2) by (auto simp: bootable_def)
  obtain e where e: "e \<in> set (ev_entries (vars w))" "efi_name e = b"
    "efi_entry_for s (map efi_plain (ev_entries (vars w))) = Some (efi_plain e)"
    using slot_entry [OF assms(1,2) b(1)] .
  have wf: "efi_wf (vars w)" using assms(1) by (simp add: efi_inv_def)
  have "\<exists>out. os_run os [''efibootmgr'', ''--bootnext'', efi_num e] w = (Exited 0 out, w')"
    using assms(4) prepare_ok [OF assms(1,2)] get_info [OF wf] e(3)
    by (simp add: efi_set_temp_primary_def io_bind_def efi_set_bootnext_def run_wait_check_Ok_iff)
  then have v: "vars w' = (vars w)\<lparr>ev_next := Some (efi_num e)\<rparr>" using efi_bootnext_ok by blast
  show inv': "efi_inv cfg slots vars w'" using assms(1,3) e(1) by (simp add: efi_inv_def v efi_wf_def split: option.splits)
  then have wf': "efi_wf (vars w')" by (simp add: efi_inv_def)
  have "slot_by_bootname slots b = Some s"
    using slot_by_bootname_found [OF boot_slots_okD(2) [OF slots_ok] b(2,1)] .
  then show "r_efi_get_primary (os_run os) slots w' = (Ok s, w')"
    using get_info [OF wf'] efi_lookup [OF wf e(1)] e(2)
    by (simp add: r_efi_get_primary_def io_bind_def v first_match_simps io_return_def)
qed

lemma persistent_order:
  assumes "efi_inv cfg slots vars w" and "bootable slots s" and "slot_bootname s = Some b"
    and "efi_modify_persistent_bootorder os s prepend w = (Ok (), w')"
    and "prepend \<or> (\<exists>n\<in>set (ev_order (vars w)). \<exists>e\<in>set (ev_entries (vars w)). efi_num e = n \<and> efi_name e \<noteq> b)"
  shows "efi_inv cfg slots vars w' \<and> ev_entries (vars w') = ev_entries (vars w) \<and> ev_next (vars w') = ev_next (vars w) \<and>
    (\<exists>e. efi_name e = b \<and> efi_order (vars w') (ev_order (vars w')) =
      (if prepend then [e] else []) @
      filter (\<lambda>e. efi_name e \<noteq> b) (efi_order (vars w) (ev_order (vars w))))"
proof -
  let ?v = "vars w"
  obtain e where e: "e \<in> set (ev_entries ?v)" "efi_name e = b"
    "efi_entry_for s (map efi_plain (ev_entries ?v)) = Some (efi_plain e)"
    using slot_entry [OF assms(1-3)] .
  have wf: "efi_wf ?v" using assms(1) by (simp add: efi_inv_def)
  then have sub: "set (ev_order ?v) \<subseteq> efi_num ` set (ev_entries ?v)" and dist: "distinct (ev_order ?v)"
    by (simp_all add: efi_wf_def)
  let ?rest = "filter (\<lambda>e. efi_name e \<noteq> b) (efi_order ?v (ev_order ?v))"
  have rest: "efi_remove_slot s (efi_order ?v (ev_order ?v)) = ?rest"
    using efi_remove_filter [OF efi_order_distinct [OF wf sub dist], of s] assms(3) by (simp add: eq_commute)
  let ?es = "(if prepend then [efi_plain e] else []) @ ?rest"
  let ?ns = "map efi_num ?es"
  note onum = efi_order_nums [OF wf sub]
  obtain out where out: "os_run os [''efibootmgr'', ''--bootorder'', g_strjoinv '','' ?ns] w = (Exited 0 out, w')"
    using assms(4) prepare_ok [OF assms(1,2)] get_info [OF wf] e(3) rest
    by (auto simp: efi_modify_persistent_bootorder_def io_bind_def Let_def io_catch_Ok_iff io_return_def
        efi_bootorder_set_def run_wait_check_Ok_iff io_fail_iff split: if_splits)
  have es: "set ?es \<subseteq> efi_plain ` set (ev_entries ?v)" using onum e(1) by auto
  have sub': "set ?ns \<subseteq> efi_num ` set (ev_entries ?v)"
    unfolding set_map using image_mono [OF es, of efi_num] unfolding image_image efi_plain_simps .
  have ne: "?ns \<noteq> []"
  proof (cases prepend)
    case False
    then obtain x where x: "x \<in> set (ev_entries ?v)" "efi_num x \<in> set (ev_order ?v)" "efi_name x \<noteq> b"
      using assms(5) by auto
    then have "efi_plain x \<in> set (efi_order ?v (ev_order ?v))"
      using efi_lookup [OF wf x(1)] by (force simp: efi_order_def List.map_filter_def)
    then have "efi_plain x \<in> set ?rest" using x(3) by simp
    then show ?thesis by force
  qed simp
  have nums: "list_all efi_number ?ns" unfolding list_all_iff using sub' efi_wfD(1) [OF wf] by blast
  note v' = efi_bootorder_ok [OF ne nums out]
  have inj: "efi_num x \<noteq> efi_num e" if "x \<in> efi_plain ` set (ev_entries ?v)" "efi_name x \<noteq> b" for x
    using that e(1,2) wf by (auto simp: efi_wf_def distinct_map inj_on_def)
  have "distinct (map efi_num ?rest)" using onum dist by (metis distinct_map_filter)
  moreover have "\<forall>x\<in>set ?rest. efi_num e \<noteq> efi_num x"
  proof
    fix x
    assume "x \<in> set ?rest"
    then show "efi_num e \<noteq> efi_num x" using inj [of x] onum by auto
  qed
  ultimately have dist': "distinct ?ns" by (simp add: image_iff)
  have lookup: "efi_order ?v (map efi_num xs) = xs" if "set xs \<subseteq> efi_plain ` set (ev_entries ?v)" for xs
    using that efi_lookup [OF wf] by (induction xs) (auto simp: efi_order_def List.map_filter_def)
  have "efi_order (vars w') (ev_order (vars w')) = ?es"
    using lookup [OF es] by (simp add: v' efi_order_def)
  moreover have "efi_inv cfg slots vars w'"
    using assms(1) ne dist' sub' by (simp add: efi_inv_def v' efi_wf_def split: option.splits)
  ultimately show ?thesis using e(2) by (auto simp: v')
qed

lemma get_state_iff:
  assumes "efi_wf (vars w)" and "slot_bootname s = Some b"
  shows "r_efi_get_state (os_run os) s w =
    (Ok (b \<in> efi_name ` set (efi_order (vars w) (ev_order (vars w)))), w)"
proof -
  have "(find (\<lambda>e. Some (efi_name e) = slot_bootname s) es \<noteq> None) = (b \<in> efi_name ` set es)" for es
    using assms(2) by (auto simp: find_None_iff)
  then show ?thesis
    using get_info [OF assms(1)] by (simp add: r_efi_get_state_def io_bind_def io_return_def efi_entry_for_def)
qed

lemma persistent_primary:
  assumes "efi_inv cfg slots vars w" and "bootable slots s" and "\<not> cfg_efi_use_bootnext cfg"
    and "efi_modify_persistent_bootorder os s True w = (Ok (), w')"
  shows "efi_inv cfg slots vars w'" "r_efi_get_primary (os_run os) slots w' = (Ok s, w')"
    "r_efi_get_state (os_run os) s w' = (Ok True, w')"
proof -
  obtain b where b: "slot_bootname s = Some b" "s \<in> set slots" using assms(2) by (auto simp: bootable_def)
  obtain e where inv': "efi_inv cfg slots vars w'" and next': "ev_next (vars w') = ev_next (vars w)"
    and e: "efi_name e = b" and order: "efi_order (vars w') (ev_order (vars w')) =
      e # filter (\<lambda>e. efi_name e \<noteq> b) (efi_order (vars w) (ev_order (vars w)))"
    using persistent_order [OF assms(1,2) b(1) assms(4)] by auto
  show "efi_inv cfg slots vars w'" by (rule inv')
  have wf': "efi_wf (vars w')" and none: "ev_next (vars w') = None"
    using inv' assms(3) by (simp_all add: efi_inv_def)
  have "slot_by_bootname slots b = Some s"
    using slot_by_bootname_found [OF boot_slots_okD(2) [OF slots_ok] b(2,1)] .
  then show "r_efi_get_primary (os_run os) slots w' = (Ok s, w')"
    using get_info [OF wf'] none order e
    by (simp add: r_efi_get_primary_def io_bind_def first_match_simps io_return_def)
  show "r_efi_get_state (os_run os) s w' = (Ok True, w')"
    using get_state_iff [OF wf' b(1)] order e by simp
qed

lemma persistent_bad:
  assumes "efi_inv cfg slots vars w" and "bootable slots s" and "bootable slots t" and "t \<noteq> s"
    and "r_efi_get_state (os_run os) t w = (Ok True, w)" and "r_efi_set_state os s False w = (Ok (), w')"
  shows "r_efi_get_state (os_run os) s w' = (Ok False, w')" "r_efi_get_state (os_run os) t w' = (Ok True, w')"
    "efi_inv cfg slots vars w'"
proof -
  obtain b c where b: "slot_bootname s = Some b" and c: "slot_bootname t = Some c"
    using assms(2,3) by (auto simp: bootable_def)
  have cb: "c \<noteq> b"
    using assms(2-4) b c bootname_unique [OF boot_slots_okD(2) [OF slots_ok]] by (auto simp: bootable_def)
  have wf: "efi_wf (vars w)" using assms(1) by (simp add: efi_inv_def)
  then have sub: "set (ev_order (vars w)) \<subseteq> efi_num ` set (ev_entries (vars w))" by (simp add: efi_wf_def)
  have inc: "c \<in> efi_name ` set (efi_order (vars w) (ev_order (vars w)))"
    using assms(5) get_state_iff [OF wf c] by simp
  note on = efi_order_nums [OF wf sub]
  obtain x where x: "x \<in> set (efi_order (vars w) (ev_order (vars w)))" "efi_name x = c" using inc by auto
  have "efi_num x \<in> set (ev_order (vars w))" using on x(1) by (metis image_eqI list.set_map)
  moreover obtain y where "y \<in> set (ev_entries (vars w))" "x = efi_plain y" using on x(1) by auto
  ultimately have other: "\<exists>n\<in>set (ev_order (vars w)). \<exists>e\<in>set (ev_entries (vars w)). efi_num e = n \<and> efi_name e \<noteq> b"
    using x(2) cb by auto
  have p: "efi_inv cfg slots vars w' \<and> efi_order (vars w') (ev_order (vars w')) =
      filter (\<lambda>e. efi_name e \<noteq> b) (efi_order (vars w) (ev_order (vars w)))"
    using persistent_order [OF assms(1,2) b, of False w'] assms(6) other by (auto simp: r_efi_set_state_def)
  then show "efi_inv cfg slots vars w'" by simp
  then have wf': "efi_wf (vars w')" by (simp add: efi_inv_def)
  show "r_efi_get_state (os_run os) s w' = (Ok False, w')" "r_efi_get_state (os_run os) t w' = (Ok True, w')"
    using get_state_iff [OF wf' b] get_state_iff [OF wf' c] p x cb by auto
qed

lemma set_primary_laws:
  assumes "efi_inv cfg slots vars w" and "bootable slots s" and "r_efi_set_primary os cfg s w = (Ok (), w')"
  shows "r_efi_get_primary (os_run os) slots w' = (Ok s, w') \<and> efi_inv cfg slots vars w'"
proof (cases "cfg_efi_use_bootnext cfg")
  case True
  then show ?thesis
    using temp_primary [OF assms(1,2) True] assms(3) by (simp add: r_efi_set_primary_def)
next
  case False
  then show ?thesis
    using persistent_primary [OF assms(1,2) False] assms(3) by (simp add: r_efi_set_primary_def)
qed

end

sublocale efi_backend \<subseteq> boot_primary slots "efi_inv cfg slots vars" "r_efi_get_primary (os_run os) slots"
  "r_efi_set_primary os cfg"
proof (unfold_locales, goal_cases)
  case (1 w s w') then show ?case using set_primary_laws by blast
next
  case (2 w s w') then show ?case using set_primary_laws by blast
qed

subsection \<open>A simulator of efibootmgr\<close>

fun efi_sim :: "efi_vars runner" where
  "efi_sim [prog] v = (Exited 0 (efi_print v), v)"
| "efi_sim [prog, opt, arg] v =
     (if opt = ''--bootnext'' then (Exited 0 [], v\<lparr>ev_next := Some arg\<rparr>)
      else if opt = ''--bootorder'' then (Exited 0 [], v\<lparr>ev_order := g_strsplit arg (CHR '','')\<rparr>)
      else (Exited 1 [], v))"
| "efi_sim args v = (Exited 1 [], v)"

lemma efi_numbers_split:
  assumes "ns \<noteq> []" and "list_all efi_number ns"
  shows "g_strsplit (g_strjoinv '','' ns) (CHR '','') = ns"
proof -
  have "\<forall>n\<in>set ns. CHR '','' \<notin> set n" and "\<forall>n\<in>set ns. n \<noteq> []"
    using assms(2) efi_number_chars unfolding list_all_iff by blast+
  moreover from this(2) have "ns \<noteq> [[]]" by auto
  ultimately show ?thesis using g_strsplit_join by simp
qed

interpretation efi_sim: efibootmgr_tool "os_programs efi_sim" "\<lambda>v. v"
  using efi_numbers_split by unfold_locales auto

definition efi_demo_slots :: slots where
  "efi_demo_slots =
     [(slot_new0 ''rootfs.0'' ''rootfs'') \<lparr>slot_bootname := Some ''system0''\<rparr>,
      (slot_new0 ''rootfs.1'' ''rootfs'') \<lparr>slot_bootname := Some ''system1''\<rparr>]"

definition efi_demo_vars :: efi_vars where
  "efi_demo_vars =
     \<lparr>ev_entries = [\<lparr>efi_num = ''0000'', efi_name = ''system0'', efi_active = True\<rparr>,
        \<lparr>efi_num = ''0001'', efi_name = ''system1'', efi_active = True\<rparr>],
      ev_order = [''0000'', ''0001''], ev_next = None, ev_current = Some ''0000''\<rparr>"

lemma efi_demo_slots_ok: "boot_slots_ok efi_demo_slots"
  by code_simp

interpretation efi_demo: efi_backend "os_programs efi_sim" "\<lambda>v. v" cfg efi_demo_slots for cfg
  using efi_demo_slots_ok by unfold_locales

subsection \<open>Properties\<close>

text \<open>
  C17. With an \<open>efibootmgr\<close> that behaves as documented, the slot that \<open>r_efi_set_primary\<close> activates
  is the one \<open>r_efi_get_primary\<close> then reports, both when activation goes through \<open>BootNext\<close>
  and when it changes the persistent \<open>BootOrder\<close>.
\<close>

theorem efi_set_primary_get_primary:
  assumes "efi_backend os vars slots" and "efi_inv cfg slots vars w" and "bootable slots s"
    and "r_efi_set_primary os cfg s w = (Ok (), w')"
  shows "r_efi_get_primary (os_run os) slots w' = (Ok s, w') \<and> efi_inv cfg slots vars w'"
  using efi_backend.set_primary_laws [OF assms] .

theorem efi_set_primary_get_primary_witness:
  "r_efi_get_primary efi_sim efi_demo_slots (efi_demo_vars\<lparr>ev_next := Some ''0001''\<rparr>) =
     (Ok (efi_demo_slots ! 1), efi_demo_vars\<lparr>ev_next := Some ''0001''\<rparr>) \<and>
   r_efi_get_primary efi_sim efi_demo_slots (efi_demo_vars\<lparr>ev_order := [''0001'', ''0000'']\<rparr>) =
     (Ok (efi_demo_slots ! 1), efi_demo_vars\<lparr>ev_order := [''0001'', ''0000'']\<rparr>)"
proof -
  have hyps: "efi_inv config_default efi_demo_slots (\<lambda>v. v) efi_demo_vars"
    "efi_inv (config_default\<lparr>cfg_efi_use_bootnext := False\<rparr>) efi_demo_slots (\<lambda>v. v) efi_demo_vars"
    "bootable efi_demo_slots (efi_demo_slots ! 1)"
    "r_efi_set_primary (os_programs efi_sim) config_default (efi_demo_slots ! 1) efi_demo_vars =
      (Ok (), efi_demo_vars\<lparr>ev_next := Some ''0001''\<rparr>)"
    "r_efi_set_primary (os_programs efi_sim) (config_default\<lparr>cfg_efi_use_bootnext := False\<rparr>)
      (efi_demo_slots ! 1) efi_demo_vars = (Ok (), efi_demo_vars\<lparr>ev_order := [''0001'', ''0000'']\<rparr>)"
    by code_simp+
  show ?thesis
    using efi_set_primary_get_primary [OF efi_demo.efi_backend_axioms hyps(1,3,4)]
      efi_set_primary_get_primary [OF efi_demo.efi_backend_axioms hyps(2,3,5)] by simp
qed

end
