(* ===== verification/Bootchooser.thy ===== *)
theory Bootchooser
  imports Uboot Grub Barebox Custom Efi
begin

text \<open>
  The bootchooser (\<open>src/src/bootchooser.c\<close>): every operation is dispatched to the backend that
  the configuration names. Also the detection of the booted slot from the kernel command line
  (\<open>get_bootname\<close> and its helpers in \<open>src/src/context.c\<close>).

  For U-Boot, GRUB and barebox the dispatched operations satisfy the contract \<open>boot_backend\<close>;
  this is what the installation relies on.
\<close>

subsection \<open>The kernel command line\<close>

text \<open>
  \<open>r_regex_match_simple\<close> with a pattern of the form \<open>(?:p1|p2|...)(\S+)\<close> for literal \<open>p1\<close>,
  \<open>p2\<close>: the leftmost position where one of them is followed by at least one non-blank character.
\<close>

definition nonblank_run :: "string \<Rightarrow> string" where
  "nonblank_run s = takeWhile (\<lambda>c. \<not> isspace_v c) s"

fun cmdline_value :: "string list \<Rightarrow> string \<Rightarrow> string option" where
  "cmdline_value ps [] = None"
| "cmdline_value ps (c # cs) =
     (case filter (\<lambda>p. g_str_has_prefix (c # cs) p \<and> nonblank_run (drop (length p) (c # cs)) \<noteq> []) ps of
        p # _ \<Rightarrow> Some (nonblank_run (drop (length p) (c # cs)))
      | [] \<Rightarrow> cmdline_value ps cs)"

fun strstr :: "string \<Rightarrow> string \<Rightarrow> bool" where
  "strstr [] needle \<longleftrightarrow> needle = []"
| "strstr (c # cs) needle \<longleftrightarrow> g_str_has_prefix (c # cs) needle \<or> strstr cs needle"

definition r_barebox_get_current_bootname :: "string \<Rightarrow> string option" where
  "r_barebox_get_current_bootname cmdline =
     cmdline_value [''bootstate.active='', ''bootchooser.active=''] cmdline"

definition get_cmdline_bootname_explicit :: "string option \<Rightarrow> string option" where
  "get_cmdline_bootname_explicit cmdline = (case cmdline of
      None \<Rightarrow> None
    | Some line \<Rightarrow>
        if strstr line ''rauc.external'' then Some ''_external_''
        else if strstr line ''root=/dev/nfs'' then Some ''_external_''
        else cmdline_value [''rauc.slot=''] line)"

definition replace_label :: "string \<Rightarrow> string \<Rightarrow> string \<Rightarrow> string" where
  "replace_label prefix dir bootname =
     (if g_str_has_prefix bootname prefix then g_build_filename dir (drop (length prefix) bootname)
      else bootname)"

definition get_cmdline_bootname_root :: "'w os \<Rightarrow> string option \<Rightarrow> 'w \<Rightarrow> string option" where
  "get_cmdline_bootname_root os cmdline w = (case cmdline of
      None \<Rightarrow> None
    | Some line \<Rightarrow>
        (case (case cmdline_value [''root=''] line of
                 Some b \<Rightarrow> Some b | None \<Rightarrow> cmdline_value [''systemd.verity_root_data=''] line) of
           None \<Rightarrow> None
         | Some b \<Rightarrow>
             let bootname = replace_label ''UUID='' ''/dev/disk/by-uuid/''
                   (replace_label ''PARTUUID='' ''/dev/disk/by-partuuid/''
                     (replace_label ''PARTLABEL='' ''/dev/disk/by-partlabel/'' b))
             in (case os_realpath os bootname w of
                   None \<Rightarrow> Some bootname
                 | Some realdev \<Rightarrow> Some realdev)))"

subsection \<open>Dispatch\<close>

definition supported_bootloaders :: "string list" where
  "supported_bootloaders = [''barebox'', ''grub'', ''uboot'', ''efi'', ''custom'', ''noop'']"

definition r_boot_is_supported_bootloader :: "string \<Rightarrow> bool" where
  "r_boot_is_supported_bootloader bootloader \<longleftrightarrow> bootloader \<in> set supported_bootloaders"

definition not_supported :: "('w, 'a) io" where
  "not_supported = io_fail (R_BOOTCHOOSER_ERROR R_BOOTCHOOSER_ERROR_NOT_SUPPORTED)"

text \<open>The other boot loaders do not know the booted slot: NULL without an error.\<close>

definition r_boot_get_current_bootname ::
    "'w os \<Rightarrow> rauc_config \<Rightarrow> slots \<Rightarrow> string option \<Rightarrow> ('w, string option) io" where
  "r_boot_get_current_bootname os cfg slots cmdline =
     (if cfg_system_bootloader cfg = Some ''custom'' then
        io_bind (r_custom_get_current_bootname (os_run os) cfg) (\<lambda>b. io_return (Some b))
      else if cfg_system_bootloader cfg = Some ''efi'' then
        io_bind (r_efi_get_current_bootname (os_run os) slots) (\<lambda>b. io_return (Some b))
      else if cfg_system_bootloader cfg = Some ''barebox'' then
        io_return (Option.bind cmdline r_barebox_get_current_bootname)
      else io_return None)"

definition r_boot_get_state :: "'w os \<Rightarrow> rauc_config \<Rightarrow> rauc_slot \<Rightarrow> ('w, bool) io" where
  "r_boot_get_state os cfg slot =
     (if slot_bootname slot = None then io_abort
      else if cfg_system_bootloader cfg = Some ''barebox'' then r_barebox_get_state (os_run os) cfg slot
      else if cfg_system_bootloader cfg = Some ''grub'' then r_grub_get_state (os_run os) cfg slot
      else if cfg_system_bootloader cfg = Some ''uboot'' then r_uboot_get_state (os_run os) slot
      else if cfg_system_bootloader cfg = Some ''efi'' then r_efi_get_state (os_run os) slot
      else if cfg_system_bootloader cfg = Some ''custom'' then r_custom_get_state (os_run os) cfg slot
      else not_supported)"

definition r_boot_set_state :: "'w os \<Rightarrow> rauc_config \<Rightarrow> rauc_slot \<Rightarrow> bool \<Rightarrow> ('w, unit) io" where
  "r_boot_set_state os cfg slot good =
     (if cfg_system_bootloader cfg = Some ''barebox'' then r_barebox_set_state (os_run os) cfg slot good
      else if cfg_system_bootloader cfg = Some ''grub'' then r_grub_set_state (os_run os) cfg slot good
      else if cfg_system_bootloader cfg = Some ''uboot'' then r_uboot_set_state (os_run os) cfg slot good
      else if cfg_system_bootloader cfg = Some ''efi'' then r_efi_set_state os slot good
      else if cfg_system_bootloader cfg = Some ''custom'' then r_custom_set_state (os_run os) cfg slot good
      else if cfg_system_bootloader cfg = Some ''noop'' then io_return ()
      else not_supported)"

definition r_boot_get_primary :: "'w os \<Rightarrow> rauc_config \<Rightarrow> slots \<Rightarrow> ('w, rauc_slot) io" where
  "r_boot_get_primary os cfg slots =
     (if cfg_system_bootloader cfg = Some ''barebox'' then r_barebox_get_primary (os_run os) cfg slots
      else if cfg_system_bootloader cfg = Some ''grub'' then r_grub_get_primary (os_run os) cfg slots
      else if cfg_system_bootloader cfg = Some ''uboot'' then r_uboot_get_primary (os_run os) slots
      else if cfg_system_bootloader cfg = Some ''efi'' then r_efi_get_primary (os_run os) slots
      else if cfg_system_bootloader cfg = Some ''custom'' then r_custom_get_primary (os_run os) cfg slots
      else not_supported)"

definition r_boot_set_primary :: "'w os \<Rightarrow> rauc_config \<Rightarrow> slots \<Rightarrow> rauc_slot \<Rightarrow> ('w, unit) io" where
  "r_boot_set_primary os cfg slots slot =
     (if cfg_system_bootloader cfg = Some ''barebox'' then r_barebox_set_primary (os_run os) cfg slots slot
      else if cfg_system_bootloader cfg = Some ''grub'' then r_grub_set_primary (os_run os) cfg slots slot
      else if cfg_system_bootloader cfg = Some ''uboot'' then r_uboot_set_primary (os_run os) cfg slots slot
      else if cfg_system_bootloader cfg = Some ''efi'' then r_efi_set_primary os cfg slot
      else if cfg_system_bootloader cfg = Some ''custom'' then r_custom_set_primary (os_run os) cfg slot
      else if cfg_system_bootloader cfg = Some ''noop'' then io_return ()
      else not_supported)"

text \<open>An explicit command line setting wins over the boot loader, which wins over \<open>root=\<close>; a
  failing boot loader query is only logged.\<close>

definition get_bootname ::
    "'w os \<Rightarrow> rauc_config \<Rightarrow> slots \<Rightarrow> string option \<Rightarrow> ('w, string option) io" where
  "get_bootname os cfg slots cmdline =
     (case get_cmdline_bootname_explicit cmdline of
        Some b \<Rightarrow> io_return (Some b)
      | None \<Rightarrow>
          io_bind (io_catch (r_boot_get_current_bootname os cfg slots cmdline) (\<lambda>e. io_return None))
            (\<lambda>bootname. case bootname of
                Some b \<Rightarrow> io_return (Some b)
              | None \<Rightarrow> (\<lambda>w. (Ok (get_cmdline_bootname_root os cmdline w), w))))"

subsection \<open>The dispatched contract\<close>

text \<open>
  The three backends that fulfil the full contract, selected by the configuration.
  \<open>boot_ok\<close> collects what each of them needs of its helper program.
\<close>

definition boot_ok :: "'w os \<Rightarrow> rauc_config \<Rightarrow> slots \<Rightarrow> ('w \<Rightarrow> bool) \<Rightarrow> bool" where
  "boot_ok os cfg slots I \<longleftrightarrow>
     cfg_system_bootloader cfg = Some ''barebox'' \<and>
       (\<exists>vars. barebox_backend (os_run os) cfg vars slots \<and> I = (\<lambda>w. True)) \<or>
     cfg_system_bootloader cfg = Some ''grub'' \<and>
       (\<exists>path env. grub_backend (os_run os) path env cfg slots \<and> I = grub_inv env) \<or>
     cfg_system_bootloader cfg = Some ''uboot'' \<and>
       (\<exists>env. uboot_backend (os_run os) env slots \<and> I = uboot_inv env)"

lemma bootable_not_None: "bootable slots s \<Longrightarrow> slot_bootname s \<noteq> None"
  by (simp add: bootable_def)

lemma boot_backend_cong:
  assumes "boot_backend slots I gp sp gs ss" and "\<And>s. slot_bootname s \<noteq> None \<Longrightarrow> gs' s = gs s"
  shows "boot_backend slots I gp sp gs' ss"
proof -
  have gs': "gs' s = gs s" if "bootable slots s" for s using assms(2) bootable_not_None [OF that] .
  show ?thesis
  proof (unfold_locales, goal_cases)
    case (1 w s w') then show ?case
      using boot_primary.primary_after_set_primary [OF boot_backend.axioms(1) [OF assms(1)]] by blast
  next
    case (2 w s w') then show ?case
      using boot_primary.set_primary_inv [OF boot_backend.axioms(1) [OF assms(1)]] by blast
  next
    case (3 w s w') then show ?case
      using boot_backend.good_after_set_primary [OF assms(1)] gs' by simp
  next
    case (4 w s w') then show ?case
      using boot_backend.bad_after_set_bad [OF assms(1)] gs' by simp
  next
    case (5 w s w') then show ?case
      using boot_backend.not_primary_after_set_bad [OF assms(1)] by blast
  next
    case (6 w s t w') then show ?case
      using boot_backend.good_kept_by_set_bad [OF assms(1), of w s t w'] gs' by simp
  next
    case (7 w s w') then show ?case
      using boot_backend.set_bad_inv [OF assms(1)] by blast
  qed
qed

lemma boot_ok_contract:
  assumes "boot_ok os cfg slots I"
  shows "boot_backend slots I (r_boot_get_primary os cfg slots) (r_boot_set_primary os cfg slots)
    (r_boot_get_state os cfg) (r_boot_set_state os cfg)"
proof -
  consider (barebox) vars where "cfg_system_bootloader cfg = Some ''barebox''"
      "barebox_backend (os_run os) cfg vars slots" "I = (\<lambda>w. True)"
    | (grub) path env where "cfg_system_bootloader cfg = Some ''grub''"
      "grub_backend (os_run os) path env cfg slots" "I = grub_inv env"
    | (uboot) env where "cfg_system_bootloader cfg = Some ''uboot''"
      "uboot_backend (os_run os) env slots" "I = uboot_inv env"
    using assms unfolding boot_ok_def by blast
  then show ?thesis
  proof cases
    case barebox
    have "boot_backend slots I (r_boot_get_primary os cfg slots) (r_boot_set_primary os cfg slots)
        (r_barebox_get_state (os_run os) cfg) (r_boot_set_state os cfg)"
      using barebox_backend.backend_contract [OF barebox(2)] barebox(1,3)
      by (simp add: r_boot_get_primary_def [abs_def] r_boot_set_primary_def [abs_def] r_boot_set_state_def [abs_def])
    then show ?thesis by (rule boot_backend_cong) (use barebox(1) in \<open>auto simp: r_boot_get_state_def\<close>)
  next
    case grub
    have "boot_backend slots I (r_boot_get_primary os cfg slots) (r_boot_set_primary os cfg slots)
        (r_grub_get_state (os_run os) cfg) (r_boot_set_state os cfg)"
      using grub_backend.backend_contract [OF grub(2)] grub(1,3)
      by (simp add: r_boot_get_primary_def [abs_def] r_boot_set_primary_def [abs_def] r_boot_set_state_def [abs_def])
    then show ?thesis by (rule boot_backend_cong) (use grub(1) in \<open>auto simp: r_boot_get_state_def\<close>)
  next
    case uboot
    have "boot_backend slots I (r_boot_get_primary os cfg slots) (r_boot_set_primary os cfg slots)
        (r_uboot_get_state (os_run os)) (r_boot_set_state os cfg)"
      using uboot_backend.backend_contract [OF uboot(2)] uboot(1,3)
      by (simp add: r_boot_get_primary_def [abs_def] r_boot_set_primary_def [abs_def] r_boot_set_state_def [abs_def])
    then show ?thesis by (rule boot_backend_cong) (use uboot(1) in \<open>auto simp: r_boot_get_state_def\<close>)
  qed
qed

subsection \<open>Detection of the booted slot\<close>

lemma nonblank_run_word: "\<forall>c\<in>set v. \<not> isspace_v c \<Longrightarrow> nonblank_run (v @ CHR '' '' # r) = v"
proof -
  assume v: "\<forall>c\<in>set v. \<not> isspace_v c"
  have "isspace_v (CHR '' '')" by (simp add: isspace_v_def g_ascii_isspace_def)
  then show ?thesis using v by (simp add: nonblank_run_def takeWhile_append2)
qed

lemma cmdline_value_nonempty: "cmdline_value ps s = Some v \<Longrightarrow> v \<noteq> [] \<and> (\<forall>c\<in>set v. \<not> isspace_v c)"
proof (induction s)
  case (Cons c cs)
  let ?ok = "\<lambda>p. g_str_has_prefix (c # cs) p \<and> nonblank_run (drop (length p) (c # cs)) \<noteq> []"
  show ?case
  proof (cases "filter ?ok ps")
    case Nil
    then show ?thesis using Cons by simp
  next
    case filt: (Cons p qs)
    then have "p \<in> set (filter ?ok ps)" by (metis list.set_intros(1))
    then have "nonblank_run (drop (length p) (c # cs)) \<noteq> []" by simp
    moreover have "v = nonblank_run (drop (length p) (c # cs))" using Cons.prems filt by simp
    ultimately show ?thesis unfolding nonblank_run_def by (metis set_takeWhileD)
  qed
qed simp

text \<open>
  C16. An installation driven through the bootchooser with U-Boot, GRUB or barebox: after
  marking the target slot bad it is neither good nor primary, every other good slot is still
  good, and after activating the target it is primary and good.
\<close>

theorem boot_install_sequence:
  assumes "boot_ok os cfg slots I" and "I w" and "bootable slots s"
    and "r_boot_set_state os cfg s False w = (Ok (), w1)"
    and "bootable slots t" and "t \<noteq> s" and "r_boot_get_state os cfg t w = (Ok True, w)"
    and "r_boot_set_primary os cfg slots s w1 = (Ok (), w2)"
  shows "fst (r_boot_get_state os cfg s w1) \<noteq> Ok True \<and> fst (r_boot_get_primary os cfg slots w1) \<noteq> Ok s \<and>
    r_boot_get_state os cfg t w1 = (Ok True, w1) \<and>
    r_boot_get_primary os cfg slots w2 = (Ok s, w2) \<and> r_boot_get_state os cfg s w2 = (Ok True, w2)"
  using boot_backend.install_sequence [OF boot_ok_contract [OF assms(1)] assms(2-4,8)]
    boot_backend.good_kept_by_set_bad [OF boot_ok_contract [OF assms(1)] assms(2,3,5-7,4)] by blast

definition boot_demo_config :: rauc_config where
  "boot_demo_config = config_default \<lparr>cfg_system_bootloader := Some ''uboot''\<rparr>"

lemma boot_demo_ok: "boot_ok (os_programs fw_env_sim) boot_demo_config uboot_demo_slots (uboot_inv map_of)"
  using uboot_demo.uboot_backend_axioms by (auto simp: boot_ok_def boot_demo_config_def)

theorem boot_install_sequence_witness:
  "r_boot_get_primary (os_programs fw_env_sim) boot_demo_config uboot_demo_slots
      [(''BOOT_ORDER'', ''B A''), (''BOOT_A_LEFT'', ''3''), (''BOOT_B_LEFT'', ''3'')] =
     (Ok (uboot_demo_slots ! 1),
      [(''BOOT_ORDER'', ''B A''), (''BOOT_A_LEFT'', ''3''), (''BOOT_B_LEFT'', ''3'')])"
proof -
  have "uboot_inv map_of uboot_demo_env" "bootable uboot_demo_slots (uboot_demo_slots ! 1)"
    "r_boot_set_state (os_programs fw_env_sim) boot_demo_config (uboot_demo_slots ! 1) False uboot_demo_env =
      (Ok (), [(''BOOT_ORDER'', ''A''), (''BOOT_A_LEFT'', ''3''), (''BOOT_B_LEFT'', ''0'')])"
    "bootable uboot_demo_slots (uboot_demo_slots ! 0)" "uboot_demo_slots ! 0 \<noteq> uboot_demo_slots ! 1"
    "r_boot_get_state (os_programs fw_env_sim) boot_demo_config (uboot_demo_slots ! 0) uboot_demo_env
      = (Ok True, uboot_demo_env)"
    "r_boot_set_primary (os_programs fw_env_sim) boot_demo_config uboot_demo_slots (uboot_demo_slots ! 1)
      [(''BOOT_ORDER'', ''A''), (''BOOT_A_LEFT'', ''3''), (''BOOT_B_LEFT'', ''0'')] =
      (Ok (), [(''BOOT_ORDER'', ''B A''), (''BOOT_A_LEFT'', ''3''), (''BOOT_B_LEFT'', ''3'')])"
    by code_simp+
  from boot_install_sequence [OF boot_demo_ok this] show ?thesis by blast
qed

end
