(* ===== verification/Mount.thy ===== *)
theory Mount
  imports Boot_Spec
begin

text \<open>
  Mounting slots (\<open>src/src/mount.c\<close>). The slot structures of the configuration are shared
  mutable state, so the functions that write to them run on a pair of the slot table and the
  outside world; a slot argument is the slot's name.

  The loop devices and the bundle mounts are in the theory \<open>Bundle_Devices\<close>.
\<close>

subsection \<open>Shared slot state\<close>

type_synonym 'w sys = "slots \<times> 'w"

definition in_world :: "('w, 'a) io \<Rightarrow> ('s \<times> 'w, 'a) io" where
  "in_world m s = (case m (snd s) of (r, w') \<Rightarrow> (r, (fst s, w')))"

definition get_slot :: "string \<Rightarrow> ('w sys, rauc_slot) io" where
  "get_slot n s = (case slot_lookup (fst s) n of None \<Rightarrow> (Abort, s) | Some slot \<Rightarrow> (Ok slot, s))"

definition get_slots :: "('w sys, slots) io" where
  "get_slots s = (Ok (fst s), s)"

definition get_world :: "('s \<times> 'w, 'w) io" where
  "get_world s = (Ok (snd s), s)"

definition modify_slot :: "string \<Rightarrow> (rauc_slot \<Rightarrow> rauc_slot) \<Rightarrow> ('w sys, unit) io" where
  "modify_slot n f s = (Ok (), (slot_update (fst s) n f, snd s))"

lemma in_world_Ok_iff [io_iff]:
  "in_world m s = (Ok x, s') \<longleftrightarrow> fst s' = fst s \<and> m (snd s) = (Ok x, snd s')"
  by (cases "m (snd s)"; cases s') (auto simp: in_world_def)

lemma get_slot_Ok_iff [io_iff]:
  "get_slot n s = (Ok x, s') \<longleftrightarrow> slot_lookup (fst s) n = Some x \<and> s' = s"
  by (auto simp: get_slot_def split: option.splits)

lemma get_slots_iff [io_iff]: "get_slots s = (r, s') \<longleftrightarrow> r = Ok (fst s) \<and> s' = s"
  by (auto simp: get_slots_def)

lemma get_world_iff [io_iff]: "get_world s = (r, s') \<longleftrightarrow> r = Ok (snd s) \<and> s' = s"
  by (auto simp: get_world_def)

lemma modify_slot_iff [io_iff]:
  "modify_slot n f s = (r, s') \<longleftrightarrow> r = Ok () \<and> s' = (slot_update (fst s) n f, snd s)"
  by (auto simp: modify_slot_def)

subsection \<open>Programs that keep a part of the state\<close>

lemma preserves_sys [preserves_intros]:
  "preserves v (get_slot nm)" "preserves v get_slots" "preserves v get_world"
  by (auto simp: preserves_def get_slot_def get_slots_def get_world_def split: option.splits)

text \<open>The slots and their statuses.\<close>

definition status_view :: "slots \<Rightarrow> (string \<times> rauc_slot_status option) list" where
  "status_view ss = map (\<lambda>s. (slot_name s, slot_status s)) ss"

abbreviation keeps_status :: "('w sys, 'a) io \<Rightarrow> bool" where
  "keeps_status m \<equiv> preserves (\<lambda>s. status_view (fst s)) m"

lemma keeps_in_world [preserves_intros]: "keeps_status (in_world n)"
  by (auto simp: preserves_def in_world_def split: prod.splits)

lemma keeps_modify [preserves_intros]:
  "(\<And>s. slot_name (f s) = slot_name s \<and> slot_status (f s) = slot_status s) \<Longrightarrow> keeps_status (modify_slot n f)"
  by (simp add: preserves_def modify_slot_def slot_update_def status_view_def)

text \<open>The names of the slots and of their boot targets, and a view of the outside world.\<close>

definition name_view :: "slots \<Rightarrow> (string \<times> string option) list" where
  "name_view ss = map (\<lambda>s. (slot_name s, slot_bootname s)) ss"

abbreviation leaves :: "('w \<Rightarrow> 'b) \<Rightarrow> ('w sys, 'a) io \<Rightarrow> bool" where
  "leaves v m \<equiv> preserves (\<lambda>s. (name_view (fst s), v (snd s))) m"

lemma leaves_in_world [preserves_intros]: "preserves v m \<Longrightarrow> leaves v (in_world m)"
  by (auto simp: preserves_def in_world_def split: prod.splits) (metis snd_conv)

lemma leaves_modify [preserves_intros]:
  "(\<And>s. slot_name (f s) = slot_name s \<and> slot_bootname (f s) = slot_bootname s) \<Longrightarrow> leaves v (modify_slot n f)"
  by (simp add: preserves_def modify_slot_def slot_update_def name_view_def)

subsection \<open>Operations\<close>

definition r_mount_full ::
    "'w runner \<Rightarrow> string \<Rightarrow> string \<Rightarrow> string option \<Rightarrow> string option \<Rightarrow> ('w, unit) io" where
  "r_mount_full run source mountpoint type extra_options =
     run_wait_check run ([''mount''] @
       (case type of None \<Rightarrow> [] | Some t \<Rightarrow> [''-t'', t]) @
       (case extra_options of None \<Rightarrow> [] | Some opts \<Rightarrow> [''-o'', opts]) @
       [if type = Some ''jffs2'' then g_path_get_basename source else source, mountpoint])"

definition r_umount :: "'w runner \<Rightarrow> string \<Rightarrow> ('w, unit) io" where
  "r_umount run filename = run_wait_check run [''umount'', filename]"

definition r_create_mount_point :: "'w os \<Rightarrow> rauc_config \<Rightarrow> string \<Rightarrow> ('w, string) io" where
  "r_create_mount_point os cfg n w =
     (let mountpoint = g_build_filename (cfg_mount_prefix cfg) n in
      if os_is_dir os mountpoint w then (Ok mountpoint, w)
      else io_bind (os_mkdir_with_parents os mountpoint) (\<lambda>_. io_return mountpoint) w)"

definition r_mount_slot :: "'w os \<Rightarrow> rauc_config \<Rightarrow> string \<Rightarrow> ('w sys, unit) io" where
  "r_mount_slot os cfg n =
     io_bind (get_slot n) (\<lambda>slot.
     if slot_mount_point slot \<noteq> None then io_fail ERROR_UNSET
     else io_bind get_world (\<lambda>w.
       if \<not> os_file_exists os (slot_device slot) w then io_fail (G_FILE_ERROR G_FILE_ERROR_NOENT)
       else io_bind (in_world (r_create_mount_point os cfg (slot_name slot))) (\<lambda>mount_point.
         io_bind
           (io_catch (in_world (r_mount_full (os_run os) (slot_device slot) mount_point
                (Some (slot_type slot)) (slot_extra_mount_opts slot)))
              (\<lambda>e. io_bind (in_world (\<lambda>w. (Ok (), os_rmdir os mount_point w))) (\<lambda>_. io_fail e)))
           (\<lambda>_. modify_slot n (\<lambda>s. s\<lparr>slot_mount_point := Some mount_point\<rparr>)))))"

definition r_umount_slot :: "'w os \<Rightarrow> string \<Rightarrow> ('w sys, unit) io" where
  "r_umount_slot os n =
     io_bind (get_slot n) (\<lambda>slot. case slot_mount_point slot of
         None \<Rightarrow> io_fail ERROR_UNSET
       | Some mp \<Rightarrow>
           io_bind (in_world (r_umount (os_run os) mp)) (\<lambda>_.
           io_bind (in_world (\<lambda>w. (Ok (), os_rmdir os mp w))) (\<lambda>_.
             modify_slot n (\<lambda>s. s\<lparr>slot_mount_point := None\<rparr>))))"

subsection \<open>Facts\<close>

lemma keeps_mount [preserves_intros]: "keeps_status (r_mount_slot os cfg n)" "keeps_status (r_umount_slot os n)"
  unfolding r_mount_slot_def r_umount_slot_def by (intro preserves_intros; simp)+

text \<open>A slot that was mounted is recorded as such, and only then can it be unmounted.\<close>

lemma mount_slot_Ok:
  assumes "r_mount_slot os cfg n (ss, w) = (Ok (), (ss', w'))"
  obtains slot where "slot_lookup ss n = Some slot" "slot_mount_point slot = None"
    "ss' = slot_update ss n (\<lambda>s. s\<lparr>slot_mount_point := Some (g_build_filename (cfg_mount_prefix cfg) (slot_name slot))\<rparr>)"
  using assms
  by (auto simp: r_mount_slot_def io_iff r_create_mount_point_def Let_def split: if_splits)

lemma umount_slot_Ok:
  assumes "r_umount_slot os n (ss, w) = (Ok (), (ss', w'))"
  shows "(\<exists>slot mp. slot_lookup ss n = Some slot \<and> slot_mount_point slot = Some mp) \<and>
    ss' = slot_update ss n (\<lambda>s. s\<lparr>slot_mount_point := None\<rparr>)"
  using assms by (auto simp: r_umount_slot_def io_iff split: option.splits)

end
