(* ===== verification/Status_File.thy ===== *)
theory Status_File
  imports Mount
begin

text \<open>
  The slot status files (\<open>src/src/status_file.c\<close>): one \<open>slot.raucs\<close> per slot, or one central
  file with a group \<open>slot.<name>\<close> per slot and a group \<open>system\<close>. The statuses are stored in the
  slot structures, so the operations work on the shared slot state of \<open>Mount\<close>.

  Main results: what was written is read back (except for the transaction id, which the reader
  ignores), for a single group and for the central file, and saving slot statuses leaves the
  other groups of the central file alone.
\<close>

subsection \<open>One status\<close>

text \<open>A count that is missing, not a number or too big for 32 bits reads as zero.\<close>

definition status_get_count :: "key_file \<Rightarrow> string \<Rightarrow> string \<Rightarrow> 32 word" where
  "status_get_count kf g k = (case g_key_file_get_uint64 kf g k of
      Ok count \<Rightarrow> if count > 0xFFFFFFFF then 0 else ucast count
    | _ \<Rightarrow> 0)"

definition status_get_time :: "(string \<Rightarrow> int option) \<Rightarrow> key_file \<Rightarrow> string \<Rightarrow> string \<Rightarrow> int option" where
  "status_get_time parse kf g k = Option.bind (fst (key_file_consume_string_opt kf g k)) parse"

text \<open>The keys that are consumed belong to this group only, and each is read once; the key file
  is not used for the group again.\<close>

definition status_file_get_slot_status ::
    "(string \<Rightarrow> int option) \<Rightarrow> key_file \<Rightarrow> string \<Rightarrow> rauc_slot_status \<Rightarrow> rauc_slot_status" where
  "status_file_get_slot_status parse kf g st0 =
     (let st = r_slot_clear_status st0;
          str = (\<lambda>k. fst (key_file_consume_string_opt kf g k));
          checksum = (case str ''sha256'' of
              None \<Rightarrow> st_checksum st
            | Some digest \<Rightarrow> \<lparr>cs_type = G_CHECKSUM_SHA256, cs_digest = Some digest,
                cs_size = (case g_key_file_get_uint64 kf g ''size'' of Ok n \<Rightarrow> n | _ \<Rightarrow> 0)\<rparr>)
      in st\<lparr>st_bundle_compatible := str ''bundle.compatible'',
            st_bundle_version := str ''bundle.version'',
            st_bundle_description := str ''bundle.description'',
            st_bundle_build := str ''bundle.build'',
            st_bundle_hash := str ''bundle.hash'',
            st_status := str ''status'',
            st_checksum := checksum,
            st_installed_timestamp := status_get_time parse kf g ''installed.timestamp'',
            st_installed_count := status_get_count kf g ''installed.count'',
            st_activated_timestamp := status_get_time parse kf g ''activated.timestamp'',
            st_activated_count := status_get_count kf g ''activated.count''\<rparr>)"

definition status_file_set_string_or_remove_key ::
    "key_file \<Rightarrow> string \<Rightarrow> string \<Rightarrow> string option \<Rightarrow> key_file" where
  "status_file_set_string_or_remove_key kf g k s = (case s of
      Some v \<Rightarrow> g_key_file_set_string kf g k v
    | None \<Rightarrow> g_key_file_remove_key kf g k)"

definition status_set_checksum :: "key_file \<Rightarrow> string \<Rightarrow> rauc_checksum \<Rightarrow> key_file" where
  "status_set_checksum kf g c = (case cs_digest c of
      Some d \<Rightarrow>
        if cs_type c = G_CHECKSUM_SHA256
        then g_key_file_set_uint64 (g_key_file_set_string kf g ''sha256'' d) g ''size'' (cs_size c)
        else g_key_file_remove_key (g_key_file_remove_key kf g ''sha256'') g ''size''
    | None \<Rightarrow> g_key_file_remove_key (g_key_file_remove_key kf g ''sha256'') g ''size'')"

definition status_set_count :: "key_file \<Rightarrow> string \<Rightarrow> string \<Rightarrow> 32 word \<Rightarrow> key_file" where
  "status_set_count kf g k n =
     (if n > 0 then g_key_file_set_uint64 kf g k (ucast n) else g_key_file_remove_key kf g k)"

definition status_file_set_slot_status ::
    "(int \<Rightarrow> string) \<Rightarrow> key_file \<Rightarrow> string \<Rightarrow> rauc_slot_status \<Rightarrow> key_file" where
  "status_file_set_slot_status fmt kf0 g st =
     (let set = (\<lambda>k v kf. status_file_set_string_or_remove_key kf g k v);
          kf1 = set ''status'' (st_status st) (set ''bundle.hash'' (st_bundle_hash st)
                  (set ''bundle.build'' (st_bundle_build st)
                    (set ''bundle.description'' (st_bundle_description st)
                      (set ''bundle.version'' (st_bundle_version st)
                        (set ''bundle.compatible'' (st_bundle_compatible st) kf0)))));
          kf2 = status_set_checksum kf1 g (st_checksum st);
          kf3 = set ''installed.transaction'' (st_installed_txn st) kf2;
          kf4 = set ''installed.timestamp'' (map_option fmt (st_installed_timestamp st)) kf3;
          kf5 = status_set_count kf4 g ''installed.count'' (st_installed_count st);
          kf6 = set ''activated.timestamp'' (map_option fmt (st_activated_timestamp st)) kf5
      in status_set_count kf6 g ''activated.count'' (st_activated_count st))"

subsection \<open>Files\<close>

definition r_slot_status_read ::
    "'w os \<Rightarrow> string \<Rightarrow> rauc_slot_status \<Rightarrow> 'w \<Rightarrow> rauc_slot_status result" where
  "r_slot_status_read os filename st w =
     result_bind (os_load_key_file os filename w) (\<lambda>kf.
       Ok (status_file_get_slot_status (os_time_parse os) kf ''slot'' st))"

definition r_slot_status_write :: "'w os \<Rightarrow> string \<Rightarrow> rauc_slot_status \<Rightarrow> ('w, unit) io" where
  "r_slot_status_write os filename st =
     os_save_key_file os filename (status_file_set_slot_status (os_time_format os) [] ''slot'' st)"

text \<open>
  The mount is skipped when the slot is mounted by someone else; errors are logged, and the slot
  keeps the empty status. \<open>None\<close> from the mount ends the function.
\<close>

definition slot_status_path :: "rauc_slot \<Rightarrow> string result" where
  "slot_status_path slot = (case slot_ext_mount_point slot of
      Some mp \<Rightarrow> Ok (g_build_filename mp ''slot.raucs'')
    | None \<Rightarrow> (case slot_mount_point slot of
        Some mp \<Rightarrow> Ok (g_build_filename mp ''slot.raucs'')
      | None \<Rightarrow> Abort))"

definition load_slot_status_locally :: "'w os \<Rightarrow> rauc_config \<Rightarrow> string \<Rightarrow> ('w sys, unit) io" where
  "load_slot_status_locally os cfg n =
     io_bind (get_slot n) (\<lambda>slot.
     if slot_status slot \<noteq> None then io_return ()
     else io_bind (modify_slot n (\<lambda>s. s\<lparr>slot_status := Some slot_status_new0\<rparr>)) (\<lambda>_.
     if \<not> r_slot_is_mountable slot then io_return ()
     else io_bind
       (if slot_ext_mount_point slot = None then io_warn (r_mount_slot os cfg n) else io_return (Some ()))
       (\<lambda>mounted. if mounted = None then io_return ()
         else io_bind (get_slot n) (\<lambda>slot'.
           io_bind (io_lift (slot_status_path slot')) (\<lambda>path.
           io_bind get_world (\<lambda>w.
           io_bind (io_warn (io_bind (io_lift (r_slot_status_read os path slot_status_new0 w))
               (\<lambda>st. modify_slot n (\<lambda>s. s\<lparr>slot_status := Some st\<rparr>)))) (\<lambda>_.
             if slot_ext_mount_point slot' = None
             then io_bind (io_warn (r_umount_slot os n)) (\<lambda>_. io_return ())
             else io_return ())))))))"

text \<open>\<open>slot.<name>\<close>\<close>

definition status_group :: "string \<Rightarrow> string" where
  "status_group n = ''slot.'' @ n"

definition load_status_group :: "(string \<Rightarrow> int option) \<Rightarrow> key_file \<Rightarrow> string \<Rightarrow> slots \<Rightarrow> slots" where
  "load_status_group parse kf grp slots =
     (if \<not> g_str_has_prefix grp ''slot.'' then slots
      else let slotname = drop (length ''slot.'') grp in
        case slot_lookup slots slotname of
          None \<Rightarrow> slots
        | Some slot \<Rightarrow>
            if slot_status slot \<noteq> None then slots
            else slot_update slots slotname
              (\<lambda>s. s\<lparr>slot_status := Some (status_file_get_slot_status parse kf grp slot_status_new0)\<rparr>))"

definition set_default_status :: "rauc_slot \<Rightarrow> rauc_slot" where
  "set_default_status s = (if slot_status s \<noteq> None then s else s\<lparr>slot_status := Some slot_status_new0\<rparr>)"

text \<open>A file that cannot be loaded counts as empty; without a file name nothing happens at all
  (\<open>g_return_if_fail\<close>).\<close>

definition r_slot_status_load_globally :: "'w os \<Rightarrow> string option \<Rightarrow> slots \<Rightarrow> 'w \<Rightarrow> slots" where
  "r_slot_status_load_globally os filename slots w = (case filename of
      None \<Rightarrow> slots
    | Some fn \<Rightarrow>
        let kf = (case os_load_key_file os fn w of Ok kf \<Rightarrow> kf | _ \<Rightarrow> []) in
        map set_default_status
          (fold (load_status_group (os_time_parse os) kf) (g_key_file_get_groups kf) slots))"

definition r_slot_status_load :: "'w os \<Rightarrow> rauc_config \<Rightarrow> string \<Rightarrow> ('w sys, unit) io" where
  "r_slot_status_load os cfg n =
     io_bind (get_slot n) (\<lambda>slot.
     io_bind
       (if slot_status slot \<noteq> None then io_return ()
        else if cfg_statusfile_path cfg = Some ''per-slot'' then load_slot_status_locally os cfg n
        else (\<lambda>(slots, w). (Ok (), (r_slot_status_load_globally os (cfg_statusfile_path cfg) slots w, w))))
       (\<lambda>_. io_bind (get_slot n) (\<lambda>slot. in_world (r_slot_clean_data_directory os slot))))"

definition save_slot_status_locally :: "'w os \<Rightarrow> rauc_config \<Rightarrow> string \<Rightarrow> ('w sys, unit) io" where
  "save_slot_status_locally os cfg n =
     io_bind (get_slot n) (\<lambda>slot. case slot_status slot of
         None \<Rightarrow> io_fail ERROR_UNSET
       | Some st \<Rightarrow>
           if \<not> r_slot_is_mountable slot then io_return ()
           else io_bind (r_mount_slot os cfg n) (\<lambda>_.
             io_bind (get_slot n) (\<lambda>slot'. case slot_mount_point slot' of
                 None \<Rightarrow> io_abort
               | Some mp \<Rightarrow>
                   io_bind (io_catch (in_world (r_slot_status_write os (g_build_filename mp ''slot.raucs'') st))
                       (\<lambda>e. io_bind (io_catch (r_umount_slot os n) (\<lambda>e'. io_return ())) (\<lambda>_. io_fail e)))
                     (\<lambda>_. r_umount_slot os n))))"

text \<open>
  The central file without the groups that start with the prefix; they are about to be written
  again. A file that cannot be parsed is moved away and replaced.
\<close>

definition key_file_init_from_shared_status_file :: "'w os \<Rightarrow> string \<Rightarrow> string \<Rightarrow> ('w, key_file) io" where
  "key_file_init_from_shared_status_file os path prefix w =
     (let drop_groups = (\<lambda>kf. fold (\<lambda>g kf. if g_str_has_prefix g prefix then g_key_file_remove_group kf g else kf)
            (g_key_file_get_groups kf) kf)
      in case os_load_key_file os path w of
           Ok kf \<Rightarrow> (Ok (drop_groups kf), w)
         | Error e \<Rightarrow>
             if e = G_FILE_ERROR G_FILE_ERROR_NOENT then (Ok [], w)
             else io_bind (io_catch (os_rename os path (path @ ''.broken'')) (\<lambda>e. io_return ()))
               (\<lambda>_. io_return []) w
         | Abort \<Rightarrow> (Abort, w))"

definition status_file_set_slots :: "(int \<Rightarrow> string) \<Rightarrow> slots \<Rightarrow> key_file \<Rightarrow> key_file" where
  "status_file_set_slots fmt slots kf =
     fold (\<lambda>slot kf. case slot_status slot of
         None \<Rightarrow> kf
       | Some st \<Rightarrow> status_file_set_slot_status fmt kf (status_group (slot_name slot)) st) slots kf"

definition save_slot_status_globally :: "'w os \<Rightarrow> rauc_config \<Rightarrow> slots \<Rightarrow> ('w, unit) io" where
  "save_slot_status_globally os cfg slots = (case cfg_statusfile_path cfg of
      None \<Rightarrow> io_fail ERROR_UNSET
    | Some path \<Rightarrow>
        io_bind (key_file_init_from_shared_status_file os path ''slot.'') (\<lambda>kf.
          os_save_key_file os path (status_file_set_slots (os_time_format os) slots kf)))"

definition r_slot_status_save :: "'w os \<Rightarrow> rauc_config \<Rightarrow> string \<Rightarrow> ('w sys, unit) io" where
  "r_slot_status_save os cfg n =
     io_bind (get_slot n) (\<lambda>slot.
     io_bind (in_world (r_slot_clean_data_directory os slot)) (\<lambda>_.
       if cfg_statusfile_path cfg = Some ''per-slot'' then save_slot_status_locally os cfg n
       else io_bind get_slots (\<lambda>slots. in_world (save_slot_status_globally os cfg slots))))"

definition r_system_status_load :: "'w os \<Rightarrow> string \<Rightarrow> 'w \<Rightarrow> string option result" where
  "r_system_status_load os filename w =
     result_bind (os_load_key_file os filename w) (\<lambda>kf.
       Ok (case g_key_file_get_string kf ''system'' ''boot-id'' of Ok s \<Rightarrow> Some s | _ \<Rightarrow> None))"

definition r_system_status_save :: "'w os \<Rightarrow> rauc_config \<Rightarrow> string option \<Rightarrow> ('w, unit) io" where
  "r_system_status_save os cfg boot_id =
     (if cfg_statusfile_path cfg = Some ''per-slot'' then io_return ()
      else case cfg_statusfile_path cfg of
        None \<Rightarrow> io_abort
      | Some path \<Rightarrow>
          io_bind (key_file_init_from_shared_status_file os path ''system'') (\<lambda>kf.
            os_save_key_file os path (case boot_id of
                None \<Rightarrow> kf
              | Some bid \<Rightarrow> g_key_file_set_string kf ''system'' ''boot-id'' bid)))"

subsection \<open>Round trip of one status\<close>

text \<open>
  What the file format keeps of a status. An empty text is read back as none, a checksum is kept only
  with a SHA-256 digest (a slot marked \<open>pending\<close> has none), times are written without the fraction of a
  second (they are counted in microseconds here), and the id of the transaction is written but not read.
\<close>

definition kept_text :: "string option \<Rightarrow> string option" where
  "kept_text s = (if s = Some [] then None else s)"

definition kept_checksum :: "rauc_checksum \<Rightarrow> rauc_checksum" where
  "kept_checksum c = (if cs_type c = G_CHECKSUM_SHA256 \<and> kept_text (cs_digest c) \<noteq> None then c else checksum_new0)"

definition whole_seconds :: "int \<Rightarrow> int" where
  "whole_seconds t = 1000000 * (t div 1000000)"

definition read_back :: "rauc_slot_status \<Rightarrow> rauc_slot_status" where
  "read_back st = \<lparr>st_bundle_compatible = kept_text (st_bundle_compatible st), st_bundle_version = kept_text (st_bundle_version st),
     st_bundle_description = kept_text (st_bundle_description st), st_bundle_build = kept_text (st_bundle_build st),
     st_bundle_hash = kept_text (st_bundle_hash st), st_status = kept_text (st_status st),
     st_checksum = kept_checksum (st_checksum st), st_installed_txn = None,
     st_installed_timestamp = map_option whole_seconds (st_installed_timestamp st), st_installed_count = st_installed_count st,
     st_activated_timestamp = map_option whole_seconds (st_activated_timestamp st), st_activated_count = st_activated_count st\<rparr>"

text \<open>\<open>kf_get\<close> after the setters.\<close>

lemma kf_get_set_or_remove [kf_simps]:
  "kf_get (status_file_set_string_or_remove_key kf g k s) g' k' =
     (if g' = g \<and> k' = k then s else kf_get kf g' k')"
  by (auto simp: status_file_set_string_or_remove_key_def kf_simps split: option.splits)

lemma unat_ucast_32_64: "unat (ucast (n :: 32 word) :: 64 word) = unat n"
proof -
  have "uint (ucast n :: 64 word) = uint n" by (simp add: uint_up_ucast is_up)
  then show ?thesis by (simp only: unat_eq_nat_uint)
qed

lemma kf_get_set_count [kf_simps]:
  "kf_get (status_set_count kf g k n) g' k' =
     (if g' = g \<and> k' = k then (if n > 0 then Some (nat_str 10 (unat n)) else None) else kf_get kf g' k')"
  by (simp add: status_set_count_def kf_simps unat_ucast_32_64)

lemma kf_get_set_checksum [kf_simps]:
  "kf_get (status_set_checksum kf g c) g' k' =
     (if g' = g \<and> k' = ''sha256''
      then (if cs_type c = G_CHECKSUM_SHA256 then cs_digest c else None)
      else if g' = g \<and> k' = ''size''
      then (if cs_type c = G_CHECKSUM_SHA256 \<and> cs_digest c \<noteq> None then Some (nat_str 10 (unat (cs_size c))) else None)
      else kf_get kf g' k')"
  by (auto simp: status_set_checksum_def kf_simps split: option.splits)

lemma status_get_count_set:
  assumes "kf_get kf g k = (if n > 0 then Some (nat_str 10 (unat n)) else None)"
  shows "status_get_count kf g k = n"
proof (cases "n > 0")
  case True
  then have "g_key_file_get_uint64 kf g k = Ok (ucast n)"
    using assms get_uint64_set [of kf g k "ucast n"] by (simp add: unat_ucast_32_64)
  moreover have "uint n < 4294967296" using uint_lt2p [of n] by simp
  then have "\<not> (ucast n :: 64 word) > 0xFFFFFFFF"
    by (simp add: word_less_def uint_up_ucast is_up)
  ultimately show ?thesis by (simp add: status_get_count_def ucast_up_ucast_id is_up)
next
  case False
  then have "n = 0" by (simp add: word_gt_0)
  moreover obtain e where "g_key_file_get_uint64 kf g k = Error e"
    using assms False get_uint64_missing [of kf g k] by auto
  ultimately show ?thesis by (simp add: status_get_count_def)
qed

text \<open>What a group holds after writing a status into it.\<close>

lemma set_slot_status_get:
  "kf_get (status_file_set_slot_status fmt kf g st) g k =
     (if k = ''bundle.compatible'' then st_bundle_compatible st
      else if k = ''bundle.version'' then st_bundle_version st
      else if k = ''bundle.description'' then st_bundle_description st
      else if k = ''bundle.build'' then st_bundle_build st
      else if k = ''bundle.hash'' then st_bundle_hash st
      else if k = ''status'' then st_status st
      else if k = ''sha256''
        then (if cs_type (st_checksum st) = G_CHECKSUM_SHA256 then cs_digest (st_checksum st) else None)
      else if k = ''size''
        then (if cs_type (st_checksum st) = G_CHECKSUM_SHA256 \<and> cs_digest (st_checksum st) \<noteq> None
              then Some (nat_str 10 (unat (cs_size (st_checksum st)))) else None)
      else if k = ''installed.transaction'' then st_installed_txn st
      else if k = ''installed.timestamp'' then map_option fmt (st_installed_timestamp st)
      else if k = ''installed.count''
        then (if st_installed_count st > 0 then Some (nat_str 10 (unat (st_installed_count st))) else None)
      else if k = ''activated.timestamp'' then map_option fmt (st_activated_timestamp st)
      else if k = ''activated.count''
        then (if st_activated_count st > 0 then Some (nat_str 10 (unat (st_activated_count st))) else None)
      else kf_get kf g k)"
  unfolding status_file_set_slot_status_def Let_def kf_simps by simp

lemma set_slot_status_other_group:
  "g' \<noteq> g \<Longrightarrow> kf_get (status_file_set_slot_status fmt kf g st) g' k = kf_get kf g' k"
  unfolding status_file_set_slot_status_def Let_def kf_simps by simp

text \<open>Reading depends on the contents of the group only.\<close>

lemma get_uint64_cong:
  assumes "kf_get kf g k = kf_get kf' g k"
  shows "(case g_key_file_get_uint64 kf g k of Ok n \<Rightarrow> f n | _ \<Rightarrow> z)
      = (case g_key_file_get_uint64 kf' g k of Ok n \<Rightarrow> f n | _ \<Rightarrow> z)"
  by (simp add: g_key_file_get_uint64_def get_string_eq assms split: option.splits)

lemma get_slot_status_cong:
  assumes "\<And>k. kf_get kf g k = kf_get kf' g k"
  shows "status_file_get_slot_status parse kf g st = status_file_get_slot_status parse kf' g st"
proof -
  have "fst (key_file_consume_string_opt kf g k) = fst (key_file_consume_string_opt kf' g k)" for k
    by (simp add: kf_simps assms)
  moreover have "status_get_count kf g k = status_get_count kf' g k" for k
    unfolding status_get_count_def by (rule get_uint64_cong [OF assms])
  moreover have "(case g_key_file_get_uint64 kf g ''size'' of Ok n \<Rightarrow> n | _ \<Rightarrow> 0)
      = (case g_key_file_get_uint64 kf' g ''size'' of Ok n \<Rightarrow> n | _ \<Rightarrow> 0)"
    by (rule get_uint64_cong [OF assms])
  ultimately show ?thesis
    by (simp only: status_file_get_slot_status_def status_get_time_def Let_def)
qed

lemma status_roundtrip:
  assumes "\<And>t. parse (fmt t) = Some (whole_seconds t)" and "\<And>t. fmt t \<noteq> []"
  shows "status_file_get_slot_status parse (status_file_set_slot_status fmt kf g st) g slot_status_new0 = read_back st"
proof -
  let ?kf = "status_file_set_slot_status fmt kf g st"
  note get = set_slot_status_get [of fmt kf g st]
  have str_get: "fst (key_file_consume_string_opt ?kf g k) = kept_text s" if "kf_get ?kf g k = s" for k s
    using that by (cases s) (simp_all add: consume_string_opt_fst kept_text_def)
  have time: "status_get_time parse ?kf g k = map_option whole_seconds t" if "kf_get ?kf g k = map_option fmt t" for k t
    using that assms by (cases t) (simp_all add: status_get_time_def consume_string_opt_fst)
  have strings: "fst (key_file_consume_string_opt ?kf g ''bundle.compatible'') = kept_text (st_bundle_compatible st)"
    "fst (key_file_consume_string_opt ?kf g ''bundle.version'') = kept_text (st_bundle_version st)"
    "fst (key_file_consume_string_opt ?kf g ''bundle.description'') = kept_text (st_bundle_description st)"
    "fst (key_file_consume_string_opt ?kf g ''bundle.build'') = kept_text (st_bundle_build st)"
    "fst (key_file_consume_string_opt ?kf g ''bundle.hash'') = kept_text (st_bundle_hash st)"
    "fst (key_file_consume_string_opt ?kf g ''status'') = kept_text (st_status st)"
    by (rule str_get; simp add: get)+
  have times: "status_get_time parse ?kf g ''installed.timestamp'' = map_option whole_seconds (st_installed_timestamp st)"
    "status_get_time parse ?kf g ''activated.timestamp'' = map_option whole_seconds (st_activated_timestamp st)"
    by (rule time; simp add: get)+
  have counts: "status_get_count ?kf g ''installed.count'' = st_installed_count st"
    "status_get_count ?kf g ''activated.count'' = st_activated_count st"
    by (rule status_get_count_set; simp add: get)+
  have sum: "(case fst (key_file_consume_string_opt ?kf g ''sha256'') of
        None \<Rightarrow> st_checksum (r_slot_clear_status slot_status_new0)
      | Some digest \<Rightarrow> \<lparr>cs_type = G_CHECKSUM_SHA256, cs_digest = Some digest,
          cs_size = (case g_key_file_get_uint64 ?kf g ''size'' of Ok n \<Rightarrow> n | _ \<Rightarrow> 0)\<rparr>) = kept_checksum (st_checksum st)"
  proof (cases "cs_type (st_checksum st) = G_CHECKSUM_SHA256 \<and> kept_text (cs_digest (st_checksum st)) \<noteq> None")
    case False
    then show ?thesis using get
      by (cases "cs_digest (st_checksum st)")
        (auto simp: consume_string_opt_fst kept_checksum_def kept_text_def r_slot_clear_status_def slot_status_new0_def checksum_new0_def
          split: if_splits)
  next
    case True
    then obtain d where d: "cs_digest (st_checksum st) = Some d" "d \<noteq> []" by (auto simp: kept_text_def split: if_splits)
    then have "g_key_file_get_uint64 ?kf g ''size'' = Ok (cs_size (st_checksum st))"
      using True get by (intro get_uint64_set) simp
    then show ?thesis using True get d
      by (simp add: consume_string_opt_fst kept_checksum_def)
  qed
  show ?thesis
    unfolding status_file_get_slot_status_def Let_def strings times counts sum
    by (simp add: read_back_def r_slot_clear_status_def slot_status_new0_def)
qed

subsection \<open>The central status file\<close>

lemma status_group_inject [simp]: "status_group m = status_group n \<longleftrightarrow> m = n"
  by (simp add: status_group_def)

lemma set_slots_other:
  assumes "\<And>slot. slot \<in> set slots \<Longrightarrow> g \<noteq> status_group (slot_name slot)"
  shows "kf_get (status_file_set_slots fmt slots kf) g k = kf_get kf g k"
  using assms
proof (induction slots arbitrary: kf)
  case (Cons s ss)
  then show ?case
    using set_slot_status_other_group [of g "status_group (slot_name s)"]
    by (auto simp: status_file_set_slots_def split: option.splits)
qed (simp add: status_file_set_slots_def)

lemma set_slot_status_fresh:
  assumes "\<And>k. kf_get kf g k = None"
  shows "kf_get (status_file_set_slot_status fmt kf g st) g k = kf_get (status_file_set_slot_status fmt [] g st) g k"
  by (simp only: set_slot_status_get assms kf_get_empty)

lemma set_slots_get:
  assumes "distinct (map slot_name slots)" and "slot \<in> set slots" and "slot_status slot = Some st"
    and "\<And>k. kf_get kf (status_group (slot_name slot)) k = None"
  shows "kf_get (status_file_set_slots fmt slots kf) (status_group (slot_name slot)) k
    = kf_get (status_file_set_slot_status fmt [] (status_group (slot_name slot)) st) (status_group (slot_name slot)) k"
  using assms
proof (induction slots arbitrary: kf)
  case (Cons s ss)
  let ?g = "status_group (slot_name slot)"
  let ?kf' = "case slot_status s of None \<Rightarrow> kf
    | Some st \<Rightarrow> status_file_set_slot_status fmt kf (status_group (slot_name s)) st"
  have step: "status_file_set_slots fmt (s # ss) kf = status_file_set_slots fmt ss ?kf'"
    by (simp add: status_file_set_slots_def)
  show ?case
  proof (cases "s = slot")
    case True
    then have "\<And>t. t \<in> set ss \<Longrightarrow> ?g \<noteq> status_group (slot_name t)" using Cons.prems(1) by auto
    then have "kf_get (status_file_set_slots fmt (s # ss) kf) ?g k = kf_get ?kf' ?g k"
      unfolding step by (rule set_slots_other)
    then show ?thesis
      using True Cons.prems(3) set_slot_status_fresh [OF Cons.prems(4)] by simp
  next
    case False
    then have "slot \<in> set ss" "slot_name s \<noteq> slot_name slot" using Cons.prems(1,2) by auto
    then show ?thesis
      using Cons.IH [of ?kf'] Cons.prems set_slot_status_other_group [of ?g "status_group (slot_name s)"]
      unfolding step by (auto split: option.splits)
  qed
qed simp

lemma drop_groups_get:
  "kf_get (fold (\<lambda>g kf. if g_str_has_prefix g p then g_key_file_remove_group kf g else kf) gs kf) g k =
     (if g \<in> set gs \<and> g_str_has_prefix g p then None else kf_get kf g k)"
  by (induction gs arbitrary: kf) (auto simp: kf_simps)

lemma kf_get_no_group: "g \<notin> set (g_key_file_get_groups kf) \<Longrightarrow> kf_get kf g k = None"
proof -
  assume "g \<notin> set (g_key_file_get_groups kf)"
  then have "map_of kf g = None" by (auto simp: g_key_file_get_groups_def map_of_eq_None_iff)
  then show ?thesis by (simp add: kf_get_def kf_keys_def)
qed

lemma shared_status_file_get:
  assumes "key_file_init_from_shared_status_file os path p w = (Ok kf, w')"
  shows "g_str_has_prefix g p \<Longrightarrow> kf_get kf g k = None"
    and "\<lbrakk>\<not> g_str_has_prefix g p; os_load_key_file os path w = Ok kf0\<rbrakk> \<Longrightarrow> kf_get kf g k = kf_get kf0 g k"
  using assms kf_get_no_group
  by (auto simp: key_file_init_from_shared_status_file_def drop_groups_get kf_get_empty io_iff
      split: result.splits if_splits)

text \<open>Loading assigns to every slot without a status the one of its group, or the default.\<close>

lemma load_status_group_map:
  assumes "distinct (map slot_name slots)"
  shows "load_status_group parse kf g slots =
    map (\<lambda>s. if status_group (slot_name s) = g \<and> slot_status s = None
             then s\<lparr>slot_status := Some (status_file_get_slot_status parse kf g slot_status_new0)\<rparr> else s) slots"
proof (cases "\<exists>slot\<in>set slots. status_group (slot_name slot) = g")
  case False
  then have "slot_lookup slots n = None" if "g = status_group n" for n
    using that slot_lookup_Some [of slots n] by (cases "slot_lookup slots n") auto
  then have "load_status_group parse kf g slots = slots"
    by (auto simp: load_status_group_def status_group_def has_prefix_iff)
  then show ?thesis using False by (simp add: map_idI)
next
  case True
  then obtain slot where slot: "slot \<in> set slots" "g = status_group (slot_name slot)" by auto
  have g: "g_str_has_prefix g ''slot.''" "drop (length ''slot.'') g = slot_name slot"
    using slot by (simp_all add: status_group_def has_prefix_iff)
  note look = slot_lookup_name [OF assms slot(1)]
  have same: "slot_status s = slot_status slot" if "s \<in> set slots" "slot_name s = slot_name slot" for s
    using that slot(1) assms by (metis distinct_map inj_on_def)
  show ?thesis
    using slot(2) g look same
    by (cases "slot_status slot")
      (auto simp: load_status_group_def slot_update_def Let_def intro!: map_cong map_idI [symmetric])
qed

lemma load_groups_map:
  assumes "distinct (map slot_name slots)"
  shows "fold (load_status_group parse kf) gs slots =
    map (\<lambda>s. if status_group (slot_name s) \<in> set gs \<and> slot_status s = None
             then s\<lparr>slot_status := Some (status_file_get_slot_status parse kf (status_group (slot_name s))
                 slot_status_new0)\<rparr> else s) slots"
  using assms
proof (induction gs arbitrary: slots)
  case Nil
  then show ?case by (simp add: map_idI)
next
  case (Cons g gs)
  let ?one = "load_status_group parse kf g slots"
  have names: "map slot_name ?one = map slot_name slots"
    unfolding load_status_group_map [OF Cons.prems] by (simp add: comp_def)
  then have "distinct (map slot_name ?one)" using Cons.prems by simp
  from Cons.IH [OF this] show ?case
    unfolding fold.simps comp_apply load_status_group_map [OF Cons.prems] by auto
qed

lemma get_slot_status_empty: "status_file_get_slot_status parse [] g slot_status_new0 = slot_status_new0"
proof -
  have "fst (key_file_consume_string_opt [] g k) = None" for k
    by (simp add: consume_string_opt_fst kf_get_empty)
  moreover have "status_get_count [] g k = 0" for k
    using get_uint64_missing [of "[]" g k] by (auto simp: status_get_count_def kf_get_empty)
  ultimately show ?thesis
    by (simp add: status_file_get_slot_status_def status_get_time_def Let_def r_slot_clear_status_def
        slot_status_new0_def checksum_new0_def)
qed

text \<open>
  The file system and the time formatting functions: a key file that was saved is the one that
  is loaded, and a formatted time parses back to the same time without the fraction of a second
  (\<open>RAUC_FORMAT_ISO_8601\<close> is \<open>%Y-%m-%dT%H:%M:%SZ\<close>).
\<close>

locale key_file_store =
  fixes os :: "'w os"
  assumes save_load: "os_save_key_file os path kf w = (Ok (), w') \<Longrightarrow> os_load_key_file os path w' = Ok kf"
    and time_roundtrip: "os_time_parse os (os_time_format os t) = Some (whole_seconds t)"
    and time_format_nonempty: "os_time_format os t \<noteq> []"
begin

lemma saved_file:
  assumes "cfg_statusfile_path cfg = Some path" and "save_slot_status_globally os cfg slots w = (Ok (), w')"
  obtains kf w1 where "key_file_init_from_shared_status_file os path ''slot.'' w = (Ok kf, w1)"
    "os_load_key_file os path w' = Ok (status_file_set_slots (os_time_format os) slots kf)"
  using assms save_load by (auto simp: save_slot_status_globally_def io_iff)

lemma saved_group:
  assumes "cfg_statusfile_path cfg = Some path" and "save_slot_status_globally os cfg slots w = (Ok (), w')"
    and "distinct (map slot_name slots)" and "slot \<in> set slots" and "slot_status slot = Some st"
    and "os_load_key_file os path w' = Ok kf'"
  shows "kf_get kf' (status_group (slot_name slot)) k = kf_get (status_file_set_slot_status (os_time_format os) []
    (status_group (slot_name slot)) st) (status_group (slot_name slot)) k"
proof -
  let ?g = "status_group (slot_name slot)"
  obtain kf w1 where init: "key_file_init_from_shared_status_file os path ''slot.'' w = (Ok kf, w1)"
    and load: "os_load_key_file os path w' = Ok (status_file_set_slots (os_time_format os) slots kf)"
    using saved_file [OF assms(1,2)] .
  have "kf_get kf ?g k = None" for k
    by (rule shared_status_file_get(1) [OF init]) (simp add: status_group_def has_prefix_iff)
  then show ?thesis using set_slots_get [OF assms(3-5)] load assms(6) by simp
qed

lemma saved_status:
  assumes "cfg_statusfile_path cfg = Some path" and "save_slot_status_globally os cfg slots w = (Ok (), w')"
    and "distinct (map slot_name slots)" and "slot \<in> set slots" and "slot_status slot = Some st"
    and "os_load_key_file os path w' = Ok kf'"
  shows "status_file_get_slot_status (os_time_parse os) kf' (status_group (slot_name slot)) slot_status_new0
    = read_back st"
proof -
  let ?g = "status_group (slot_name slot)"
  note saved_group [OF assms]
  then have "status_file_get_slot_status (os_time_parse os) kf' ?g slot_status_new0 =
      status_file_get_slot_status (os_time_parse os) (status_file_set_slot_status (os_time_format os) [] ?g st)
        ?g slot_status_new0"
    by (rule get_slot_status_cong)
  then show ?thesis
    using status_roundtrip [of "os_time_parse os" "os_time_format os"]
      time_roundtrip time_format_nonempty by simp
qed

lemma save_load_status:
  assumes "cfg_statusfile_path cfg = Some path" and "save_slot_status_globally os cfg slots w = (Ok (), w')"
    and "distinct (map slot_name slots)" and "slot \<in> set slots" and "slot_status slot = Some st"
  shows "slot\<lparr>slot_status := Some (read_back st)\<rparr> \<in>
    set (r_slot_status_load_globally os (Some path) (map (\<lambda>s. s\<lparr>slot_status := None\<rparr>) slots) w')"
proof -
  obtain kf' where kf': "os_load_key_file os path w' = Ok kf'" using saved_file [OF assms(1,2)] by metis
  let ?g = "status_group (slot_name slot)"
  let ?parse = "os_time_parse os"
  note st = saved_status [OF assms kf']
  have empty: "read_back st = slot_status_new0" if "?g \<notin> set (g_key_file_get_groups kf')"
    using get_slot_status_cong [of kf' ?g "[]"] kf_get_no_group [OF that] st
      get_slot_status_empty by (simp add: kf_get_empty)
  let ?f = "\<lambda>s. set_default_status (if status_group (slot_name s) \<in> set (g_key_file_get_groups kf')
      then s\<lparr>slot_status := Some (status_file_get_slot_status ?parse kf' (status_group (slot_name s))
        slot_status_new0)\<rparr> else s\<lparr>slot_status := None\<rparr>)"
  have "distinct (map slot_name (map (\<lambda>s. s\<lparr>slot_status := None\<rparr>) slots))" using assms(3) by (simp add: comp_def)
  from load_groups_map [OF this, of ?parse kf' "g_key_file_get_groups kf'"]
  have "r_slot_status_load_globally os (Some path) (map (\<lambda>s. s\<lparr>slot_status := None\<rparr>) slots) w' = map ?f slots"
    by (simp add: r_slot_status_load_globally_def kf' comp_def if_distrib [of set_default_status] cong: if_cong)
  moreover have "?f slot = slot\<lparr>slot_status := Some (read_back st)\<rparr>"
    by (cases "?g \<in> set (g_key_file_get_groups kf')") (simp_all add: set_default_status_def st empty)
  moreover have "?f slot \<in> set (map ?f slots)" unfolding set_map by (rule imageI [OF assms(4)])
  ultimately show ?thesis by (simp only:)
qed

lemma save_keeps_groups:
  assumes "cfg_statusfile_path cfg = Some path" and "save_slot_status_globally os cfg slots w = (Ok (), w')"
    and "os_load_key_file os path w = Ok kf0" and "os_load_key_file os path w' = Ok kf'"
    and "\<not> g_str_has_prefix g ''slot.''"
  shows "kf_get kf' g k = kf_get kf0 g k"
proof -
  obtain kf w1 where init: "key_file_init_from_shared_status_file os path ''slot.'' w = (Ok kf, w1)"
    and load: "os_load_key_file os path w' = Ok (status_file_set_slots (os_time_format os) slots kf)"
    using saved_file [OF assms(1,2)] .
  have "g \<noteq> status_group n" for n using assms(5) by (auto simp: status_group_def has_prefix_iff)
  then show ?thesis
    using load assms(4) set_slots_other shared_status_file_get(2) [OF init assms(5,3)] by simp
qed

end

subsection \<open>A simulated file system\<close>

text \<open>Key files under their paths; times are printed as decimal numbers of seconds.\<close>

definition digits_parse :: "string \<Rightarrow> int option" where
  "digits_parse s = (case s of [] \<Rightarrow> None | c # cs \<Rightarrow>
     (if c = CHR ''-'' then (case parse_digits 10 0 cs of (v, rest) \<Rightarrow> if rest = [] then Some (- v) else None)
      else (case parse_digits 10 0 s of (v, rest) \<Rightarrow> if rest = [] then Some v else None)))"

definition kf_sim :: "(string \<times> key_file) list os" where
  "kf_sim = (os_programs (\<lambda>args w. (Exited 0 [], w)))
     \<lparr>os_load_key_file := (\<lambda>p w. case map_of w p of None \<Rightarrow> Error (G_FILE_ERROR G_FILE_ERROR_NOENT) | Some kf \<Rightarrow> Ok kf),
      os_save_key_file := (\<lambda>p kf w. (Ok (), AList.update p kf w)),
      os_time_format := (\<lambda>t. int_str (t div 1000000)), os_time_parse := (\<lambda>s. map_option ((*) 1000000) (digits_parse s))\<rparr>"

lemma digits_roundtrip: "digits_parse (int_str t) = Some t"
proof (cases "t < 0")
  case True
  then show ?thesis by (simp add: digits_parse_def int_str_def parse_digits_nat_str)
next
  case False
  obtain c cs where c: "nat_str 10 (nat t) = c # cs" by (meson neq_Nil_conv nat_str_neq_Nil)
  obtain d where "c = digit_char d" "d < 10" using nat_str_digits [of 10 "nat t"] c by auto
  then have "c \<noteq> CHR ''-''" using digit_char_first(2) [of d] by simp
  then show ?thesis
    using False c parse_digits_nat_str [of 10 "nat t"] by (simp add: digits_parse_def int_str_def)
qed

lemma int_str_neq_Nil [simp]: "int_str t \<noteq> []"
  by (simp add: int_str_def)

interpretation kf_sim: key_file_store kf_sim
  by unfold_locales (auto simp: kf_sim_def update_conv' digits_roundtrip whole_seconds_def)

subsection \<open>Properties\<close>

text \<open>
  C27. Round trip of the central status file: after a successful save, loading into a table of slots
  without status gives every slot the status it had, as far as the format keeps it (\<open>read_back\<close>). Lost
  are empty texts, which become absent, a checksum without a SHA-256 digest, the fraction of a second
  of the times, and the id of the installation transaction, which is written but never read.
\<close>

theorem status_file_roundtrip:
  assumes "key_file_store os" and "cfg_statusfile_path cfg = Some path"
    and "save_slot_status_globally os cfg slots w = (Ok (), w')"
    and "distinct (map slot_name slots)" and "slot \<in> set slots" and "slot_status slot = Some st"
  shows "slot\<lparr>slot_status := Some (read_back st)\<rparr> \<in>
    set (r_slot_status_load_globally os (Some path) (map (\<lambda>s. s\<lparr>slot_status := None\<rparr>) slots) w')"
  using key_file_store.save_load_status [OF assms] .

definition status_demo_config :: rauc_config where
  "status_demo_config = config_default\<lparr>cfg_statusfile_path := Some ''/data/central.raucs''\<rparr>"

definition status_demo_status :: rauc_slot_status where
  "status_demo_status = slot_status_new0\<lparr>st_bundle_version := Some ''1.2'', st_status := Some ''ok'',
     st_checksum := \<lparr>cs_type = G_CHECKSUM_SHA256, cs_digest = Some ''d0'', cs_size = 9\<rparr>,
     st_installed_txn := Some ''t1'', st_installed_timestamp := Some 7000001, st_installed_count := 2\<rparr>"

definition status_demo_slot :: rauc_slot where
  "status_demo_slot = (slot_new0 ''rootfs.0'' ''rootfs'')\<lparr>slot_status := Some status_demo_status\<rparr>"

theorem status_file_roundtrip_witness:
  "status_demo_slot\<lparr>slot_status := Some (status_demo_status\<lparr>st_installed_txn := None, st_installed_timestamp := Some 7000000\<rparr>)\<rparr> \<in>
    set (r_slot_status_load_globally kf_sim (Some ''/data/central.raucs'')
      (map (\<lambda>s. s\<lparr>slot_status := None\<rparr>) [status_demo_slot, slot_new0 ''appfs.0'' ''appfs''])
      (snd (save_slot_status_globally kf_sim status_demo_config
        [status_demo_slot, slot_new0 ''appfs.0'' ''appfs''] [])))"
proof -
  have path: "cfg_statusfile_path status_demo_config = Some ''/data/central.raucs''"
    by (simp add: status_demo_config_def)
  let ?slots = "[status_demo_slot, slot_new0 ''appfs.0'' ''appfs'']"
  have ok: "distinct (map slot_name ?slots)" "slot_status status_demo_slot = Some status_demo_status"
    "read_back status_demo_status = status_demo_status\<lparr>st_installed_txn := None, st_installed_timestamp := Some 7000000\<rparr>"
    by code_simp+
  have saved: "save_slot_status_globally kf_sim status_demo_config ?slots [] =
      (Ok (), snd (save_slot_status_globally kf_sim status_demo_config ?slots []))"
    by (simp add: save_slot_status_globally_def path kf_sim_def io_bind_def
        key_file_init_from_shared_status_file_def)
  show ?thesis
    unfolding ok(3) [symmetric]
    by (rule status_file_roundtrip [OF kf_sim.key_file_store_axioms path saved ok(1) _ ok(2)]) simp
qed

text \<open>
  Saving the slot statuses into the central file changes nothing outside the groups of the
  slots; in particular the \<open>system\<close> group survives.
\<close>

theorem status_file_keeps_other_groups:
  assumes "key_file_store os" and "cfg_statusfile_path cfg = Some path"
    and "save_slot_status_globally os cfg slots w = (Ok (), w')"
    and "os_load_key_file os path w = Ok kf0" and "os_load_key_file os path w' = Ok kf'"
    and "\<not> g_str_has_prefix g ''slot.''"
  shows "kf_get kf' g k = kf_get kf0 g k"
  using key_file_store.save_keeps_groups [OF assms] .

theorem status_file_keeps_other_groups_witness:
  "kf_get (the (map_of (snd (save_slot_status_globally kf_sim status_demo_config [status_demo_slot]
      [(''/data/central.raucs'', [(''system'', [(''boot-id'', ''b1'')])])])) ''/data/central.raucs''))
    ''system'' ''boot-id'' = Some ''b1''"
proof -
  let ?w = "[(''/data/central.raucs'', [(''system'', [(''boot-id'', ''b1'')])])]"
  let ?w' = "snd (save_slot_status_globally kf_sim status_demo_config [status_demo_slot] ?w)"
  have path: "cfg_statusfile_path status_demo_config = Some ''/data/central.raucs''"
    by (simp add: status_demo_config_def)
  have saved: "save_slot_status_globally kf_sim status_demo_config [status_demo_slot] ?w = (Ok (), ?w')"
    and found: "map_of ?w' ''/data/central.raucs'' \<noteq> None"
    by (simp_all add: save_slot_status_globally_def path kf_sim_def io_bind_def update_conv'
        key_file_init_from_shared_status_file_def)
  have before: "os_load_key_file kf_sim ''/data/central.raucs'' ?w = Ok [(''system'', [(''boot-id'', ''b1'')])]"
    by (simp add: kf_sim_def)
  have after: "os_load_key_file kf_sim ''/data/central.raucs'' ?w' = Ok (the (map_of ?w' ''/data/central.raucs''))"
    using found by (auto simp: kf_sim_def)
  have "\<not> g_str_has_prefix ''system'' ''slot.''" by simp
  from status_file_keeps_other_groups [OF kf_sim.key_file_store_axioms path saved before after this]
  show ?thesis by (simp add: kf_get_def kf_keys_def)
qed

end
