(* ===== verification/Mark.thy ===== *)
theory Mark
  imports Bootchooser Status_File
begin

text \<open>
  Marking slots (\<open>src/src/mark.c\<close>): the \<open>rauc status mark-good|mark-bad|mark-active\<close> commands
  and the functions the installer uses. The event log calls write log messages only; they are
  modelled where they can fail (\<open>r_event_log_mark_active\<close> dereferences the slot status).

  The result of \<open>mark_run\<close> is its return value with the names of the marked slots; the
  human-readable message is not modelled.
\<close>

subsection \<open>Slot identifiers\<close>

definition get_slots_by_identifier :: "slots \<Rightarrow> string \<Rightarrow> slots result" where
  "get_slots_by_identifier slots identifier =
     (let booted = r_slot_get_booted slots in
      if identifier = ''booted'' then
        (case booted of
           Some b \<Rightarrow> Ok [b]
         | None \<Rightarrow> Error (R_SLOT_ERROR R_SLOT_ERROR_NO_SLOT_WITH_STATE_BOOTED))
      else if identifier = ''other'' then
        (case booted of
           Some b \<Rightarrow>
             let others = filter (\<lambda>s. slot_sclass s = slot_sclass b \<and> slot_parent s = None \<and>
                   slot_bootname s \<noteq> None \<and> slot_name s \<noteq> slot_name b) slots
             in if others = [] then Error (R_SLOT_ERROR R_SLOT_ERROR_FAILED) else Ok others
         | None \<Rightarrow> Error (R_SLOT_ERROR R_SLOT_ERROR_NO_SLOT_WITH_STATE_BOOTED))
      else if length (g_strsplit identifier (CHR ''.'')) = 2 then
        (case slot_lookup slots identifier of
           None \<Rightarrow> Error (R_SLOT_ERROR R_SLOT_ERROR_FAILED)
         | Some slot \<Rightarrow>
             if slot_bootname slot = None then Error (R_SLOT_ERROR R_SLOT_ERROR_FAILED)
             else Ok [slot])
      else Error (R_SLOT_ERROR R_SLOT_ERROR_FAILED))"

subsection \<open>Marking one slot\<close>

text \<open>
  A failing bootchooser call becomes \<open>R_INSTALL_ERROR_MARK_BOOTABLE\<close>; its message is read
  through \<open>ierror\<close>, which is NULL when the backend did not set an error.
\<close>

definition mark_error :: "('w, unit) io \<Rightarrow> ('w, unit) io" where
  "mark_error m = io_catch m (\<lambda>e. if e = ERROR_UNSET then io_abort
     else io_fail (R_INSTALL_ERROR R_INSTALL_ERROR_MARK_BOOTABLE))"

definition activate_status :: "int \<Rightarrow> rauc_slot_status \<Rightarrow> rauc_slot_status" where
  "activate_status now st =
     st\<lparr>st_activated_timestamp := Some now, st_activated_count := st_activated_count st + 1\<rparr>"

definition r_mark_active :: "'w os \<Rightarrow> rauc_config \<Rightarrow> string \<Rightarrow> ('w sys, unit) io" where
  "r_mark_active os cfg n =
     io_bind (r_slot_status_load os cfg n) (\<lambda>_.
     io_bind (get_slot n) (\<lambda>slot.
     io_bind get_slots (\<lambda>slots.
     io_bind (in_world (mark_error (r_boot_set_primary os cfg slots slot))) (\<lambda>_.
     if slot_status slot = None then io_abort
     else io_bind get_world (\<lambda>w.
       io_bind (modify_slot n (\<lambda>s. s\<lparr>slot_status := map_option (activate_status (os_now os w)) (slot_status s)\<rparr>))
         (\<lambda>_. io_bind (io_warn (r_slot_status_save os cfg n)) (\<lambda>_. io_return ())))))))"

definition r_mark_good :: "'w os \<Rightarrow> rauc_config \<Rightarrow> string \<Rightarrow> ('w sys, unit) io" where
  "r_mark_good os cfg n =
     io_bind (get_slot n) (\<lambda>slot. in_world (mark_error (r_boot_set_state os cfg slot True)))"

definition r_mark_bad :: "'w os \<Rightarrow> rauc_config \<Rightarrow> string \<Rightarrow> ('w sys, unit) io" where
  "r_mark_bad os cfg n =
     io_bind (get_slot n) (\<lambda>slot. in_world (mark_error (r_boot_set_state os cfg slot False)))"

fun mark_bad_list :: "'w os \<Rightarrow> rauc_config \<Rightarrow> slots \<Rightarrow> ('w sys, unit) io" where
  "mark_bad_list os cfg [] = io_return ()"
| "mark_bad_list os cfg (s # ss) = io_bind (r_mark_bad os cfg (slot_name s)) (\<lambda>_. mark_bad_list os cfg ss)"

subsection \<open>The mark command\<close>

text \<open>
  \<open>mark_run\<close> calls itself at most once, for \<open>bad other\<close> after \<open>good booted\<close>; \<open>mark_bad_run\<close> is
  that call. \<open>g_list_first(slots)->data\<close> needs a non-empty list.
\<close>

definition mark_bad_run :: "'w os \<Rightarrow> rauc_config \<Rightarrow> string \<Rightarrow> ('w sys, string list) io" where
  "mark_bad_run os cfg identifier =
     io_bind get_slots (\<lambda>table.
     io_bind (io_lift (get_slots_by_identifier table identifier)) (\<lambda>slots.
     io_bind (mark_bad_list os cfg slots) (\<lambda>_. io_return (map slot_name slots))))"

definition mark_run :: "'w os \<Rightarrow> rauc_config \<Rightarrow> string \<Rightarrow> string \<Rightarrow> ('w sys, string list) io" where
  "mark_run os cfg state identifier =
     (if state = ''bad'' then mark_bad_run os cfg identifier
      else
        io_bind get_slots (\<lambda>table.
        io_bind (io_lift (get_slots_by_identifier table identifier)) (\<lambda>slots.
          if state = ''good'' then
            (case slots of
               [] \<Rightarrow> io_abort
             | [slot] \<Rightarrow>
                 io_bind (r_mark_good os cfg (slot_name slot)) (\<lambda>_.
                 io_bind (if cfg_prevent_late_fallback cfg \<and> identifier = ''booted''
                          then mark_bad_run os cfg ''other'' else io_return [])
                   (\<lambda>_. io_return (map slot_name slots)))
             | _ # _ # _ \<Rightarrow> io_fail ERROR_UNSET)
          else if state = ''active'' then
            (case slots of
               [] \<Rightarrow> io_abort
             | [slot] \<Rightarrow>
                 io_bind (r_mark_active os cfg (slot_name slot)) (\<lambda>_. io_return (map slot_name slots))
             | _ # _ # _ \<Rightarrow> io_fail ERROR_UNSET)
          else io_fail ERROR_UNSET)))"

subsection \<open>Facts\<close>

lemma get_booted_Some: "r_slot_get_booted slots = Some b \<Longrightarrow> b \<in> set slots \<and> slot_state b = ST_BOOTED"
  by (auto simp: r_slot_get_booted_def find_Some_iff)

lemma identifier_slots:
  assumes "get_slots_by_identifier table identifier = Ok ss"
  shows "ss \<noteq> []" "set ss \<subseteq> set table"
  using assms get_booted_Some slot_lookup_Some
  by (fastforce simp: get_slots_by_identifier_def Let_def split: if_splits option.splits)+

lemma identifier_other:
  assumes "get_slots_by_identifier table ''other'' = Ok ss" and "r_slot_get_booted table = Some b"
  shows "\<forall>s\<in>set ss. s \<in> set table \<and> slot_bootname s \<noteq> None \<and> slot_name s \<noteq> slot_name b"
  using assms by (auto simp: get_slots_by_identifier_def Let_def split: if_splits option.splits)

lemma mark_error_Ok [io_iff]: "mark_error m w = (Ok u, w') \<longleftrightarrow> m w = (Ok u, w')"
  by (cases "m w") (auto simp: mark_error_def io_catch_def io_abort_def io_fail_def split: result.splits)

lemma mark_bad_Ok:
  "r_mark_bad os cfg n (ss, w) = (Ok (), (ss', w')) \<longleftrightarrow>
     ss' = ss \<and> (\<exists>slot. slot_lookup ss n = Some slot \<and> r_boot_set_state os cfg slot False w = (Ok (), w'))"
  by (auto simp: r_mark_bad_def io_iff)

lemma mark_good_Ok:
  "r_mark_good os cfg n (ss, w) = (Ok (), (ss', w')) \<longleftrightarrow>
     ss' = ss \<and> (\<exists>slot. slot_lookup ss n = Some slot \<and> r_boot_set_state os cfg slot True w = (Ok (), w'))"
  by (auto simp: r_mark_good_def io_iff)

text \<open>Marking a list of slots bad performs the bootchooser calls in order and leaves the slot
  table alone.\<close>

lemma mark_bad_list_Ok:
  assumes "distinct (map slot_name table)" and "set ss \<subseteq> set table"
    and "mark_bad_list os cfg ss (table, w) = (Ok (), (table', w'))"
  shows "table' = table"
    "fold (\<lambda>s m. io_bind m (\<lambda>_. r_boot_set_state os cfg s False)) ss (io_return ()) w = (Ok (), w')"
proof -
  have "table' = table \<and> fold (\<lambda>s m. io_bind m (\<lambda>_. r_boot_set_state os cfg s False)) ss m0 w0 = (Ok (), w')"
    if "m0 w0 = (Ok (), w)" for m0 w0
    using assms(2,3) that
  proof (induction ss arbitrary: w m0)
    case Nil
    then show ?case by (simp add: io_iff)
  next
    case (Cons s ss)
    obtain w1 where s: "r_boot_set_state os cfg s False w = (Ok (), w1)"
      and rest: "mark_bad_list os cfg ss (table, w1) = (Ok (), (table', w'))"
      using Cons.prems(1,2) slot_lookup_name [OF assms(1)]
      by (auto simp: io_bind_Ok_iff mark_bad_Ok)
    have "io_bind m0 (\<lambda>_. r_boot_set_state os cfg s False) w0 = (Ok (), w1)"
      using Cons.prems(3) s by (simp add: io_iff)
    then show ?case using Cons.IH [OF _ rest] Cons.prems(1) by simp
  qed
  from this [of "io_return ()" w] show "table' = table"
    "fold (\<lambda>s m. io_bind m (\<lambda>_. r_boot_set_state os cfg s False)) ss (io_return ()) w = (Ok (), w')"
    by (simp_all add: io_return_def)
qed

lemma keeps_save [preserves_intros]: "keeps_status (r_slot_status_save os cfg n)"
  unfolding r_slot_status_save_def save_slot_status_locally_def by (intro preserves_intros)

lemma status_view_lookup:
  assumes "status_view ss' = status_view ss"
  shows "map_option slot_status (slot_lookup ss' n) = map_option slot_status (slot_lookup ss n)"
proof -
  have "map_option slot_status (slot_lookup xs n) = map_of (status_view xs) n" for xs
    by (induction xs) (auto simp: slot_lookup_def status_view_def)
  then show ?thesis using assms by simp
qed

lemma mark_active_run:
  assumes "r_mark_active os cfg n (ss, w) = (Ok (), (ss', w'))"
  obtains ss1 w1 slot st w2 x where "r_slot_status_load os cfg n (ss, w) = (Ok (), (ss1, w1))"
    "slot_lookup ss1 n = Some slot" "slot_status slot = Some st"
    "r_boot_set_primary os cfg ss1 slot w1 = (Ok (), w2)"
    "io_warn (r_slot_status_save os cfg n)
      (slot_update ss1 n (\<lambda>s. s\<lparr>slot_status := map_option (activate_status (os_now os w2)) (slot_status s)\<rparr>), w2)
        = (Ok x, (ss', w'))"
  using assms by (auto simp: r_mark_active_def io_iff split: if_splits)

lemma mark_active_Ok:
  assumes "r_mark_active os cfg n (ss, w) = (Ok (), (ss', w'))"
  obtains ss1 w1 slot st w2 where "r_slot_status_load os cfg n (ss, w) = (Ok (), (ss1, w1))"
    "slot_lookup ss1 n = Some slot" "slot_status slot = Some st"
    "r_boot_set_primary os cfg ss1 slot w1 = (Ok (), w2)"
    "map_option slot_status (slot_lookup ss' n) = Some (Some (activate_status (os_now os w2) st))"
proof -
  from mark_active_run [OF assms]
  obtain ss1 w1 slot st w2 x where load: "r_slot_status_load os cfg n (ss, w) = (Ok (), (ss1, w1))"
    and slot: "slot_lookup ss1 n = Some slot" "slot_status slot = Some st"
    and prim: "r_boot_set_primary os cfg ss1 slot w1 = (Ok (), w2)"
    and save: "io_warn (r_slot_status_save os cfg n)
      (slot_update ss1 n (\<lambda>s. s\<lparr>slot_status := map_option (activate_status (os_now os w2)) (slot_status s)\<rparr>), w2)
        = (Ok x, (ss', w'))" .
  have "keeps_status (io_warn (r_slot_status_save os cfg n))" by (intro preserves_intros)
  note view = status_view_lookup [OF preservesD [OF this save], of n]
  have "map_option slot_status (slot_lookup ss' n) = Some (Some (activate_status (os_now os w2) st))"
    using view slot by (simp add: slot_lookup_update)
  from that [OF load slot prim this] show ?thesis .
qed

subsection \<open>Properties\<close>

text \<open>
  A successful \<open>r_mark_active\<close> has made the slot the primary one, and its status records
  the activation: the time of the call and the count one higher (modulo \<open>2 ^ 32\<close>), whether or
  not the status could be written to the status file.
\<close>

theorem mark_active_records:
  assumes "r_mark_active os cfg n (ss, w) = (Ok (), (ss', w'))"
  shows "\<exists>ss1 w1 slot st w2. slot_lookup ss1 n = Some slot \<and> slot_status slot = Some st \<and>
    r_boot_set_primary os cfg ss1 slot w1 = (Ok (), w2) \<and>
    map_option slot_status (slot_lookup ss' n) = Some (Some (st\<lparr>st_activated_timestamp := Some (os_now os w2),
      st_activated_count := st_activated_count st + 1\<rparr>))"
  using mark_active_Ok [OF assms] unfolding activate_status_def by metis

text \<open>
  C28. \<open>mark_run bad other\<close>, which also guards against a late fallback after \<open>mark-good\<close>: when
  it succeeds, the booted slot, if it was good before, is still good, so that the running system
  remains bootable although every other slot of its class was marked bad.
\<close>

theorem mark_other_bad_keeps_booted_good:
  assumes "boot_ok os cfg table I" and "I w" and "distinct (map slot_name table)"
    and "r_slot_get_booted table = Some b" and "slot_bootname b \<noteq> None"
    and "r_boot_get_state os cfg b w = (Ok True, w)"
    and "mark_run os cfg ''bad'' ''other'' (table, w) = (Ok marked, (table', w'))"
  shows "r_boot_get_state os cfg b w' = (Ok True, w') \<and> slot_name b \<notin> set marked \<and> table' = table"
proof -
  obtain ss where ss: "get_slots_by_identifier table ''other'' = Ok ss" "marked = map slot_name ss"
    and bad: "mark_bad_list os cfg ss (table, w) = (Ok (), (table', w'))"
    using assms(7) by (auto simp: mark_run_def mark_bad_run_def io_iff)
  note other = identifier_other [OF ss(1) assms(4)]
  have b: "bootable table b" using get_booted_Some [OF assms(4)] assms(5) by (simp add: bootable_def)
  note run = mark_bad_list_Ok [OF assms(3) identifier_slots(2) [OF ss(1)] bad]
  have "\<forall>s\<in>set ss. bootable table s \<and> s \<noteq> b" using other by (auto simp: bootable_def)
  from boot_backend.good_kept_by_set_bad_list [OF boot_ok_contract [OF assms(1)] assms(2) this b assms(6) run(2)]
  show ?thesis using run(1) ss(2) other by auto
qed

definition mark_demo_slots :: slots where
  "mark_demo_slots =
     [(slot_new0 ''rootfs.0'' ''rootfs'')\<lparr>slot_bootname := Some ''A'', slot_state := ST_BOOTED\<rparr>,
      (slot_new0 ''rootfs.1'' ''rootfs'')\<lparr>slot_bootname := Some ''B'', slot_state := ST_INACTIVE\<rparr>]"

lemma mark_demo_ok: "boot_ok (os_programs fw_env_sim) boot_demo_config mark_demo_slots (uboot_inv map_of)"
proof -
  have "boot_slots_ok mark_demo_slots" by code_simp
  then have "uboot_backend fw_env_sim map_of mark_demo_slots"
    using fw_sim.fw_env_tools_axioms by (simp add: uboot_backend_def uboot_backend_axioms_def)
  then show ?thesis by (auto simp: boot_ok_def boot_demo_config_def)
qed

theorem mark_active_records_witness:
  "\<exists>ss1 w1 slot st w2. slot_lookup ss1 ''rootfs.1'' = Some slot \<and> slot_status slot = Some st \<and>
    r_boot_set_primary (os_programs fw_env_sim) (boot_demo_config\<lparr>cfg_statusfile_path := Some ''/s''\<rparr>) ss1 slot w1 = (Ok (), w2) \<and>
    map_option slot_status (slot_lookup (fst (snd (r_mark_active (os_programs fw_env_sim)
        (boot_demo_config\<lparr>cfg_statusfile_path := Some ''/s''\<rparr>) ''rootfs.1'' (mark_demo_slots, uboot_demo_env)))) ''rootfs.1'') =
      Some (Some (st\<lparr>st_activated_timestamp := Some (os_now (os_programs fw_env_sim) w2),
        st_activated_count := st_activated_count st + 1\<rparr>))"
proof -
  let ?run = "r_mark_active (os_programs fw_env_sim) (boot_demo_config\<lparr>cfg_statusfile_path := Some ''/s''\<rparr>)
    ''rootfs.1'' (mark_demo_slots, uboot_demo_env)"
  have "fst ?run = Ok ()" by code_simp
  then have "?run = (Ok (), (fst (snd ?run), snd (snd ?run)))" by (simp add: prod_eq_iff)
  from mark_active_records [OF this] show ?thesis .
qed

theorem mark_other_bad_keeps_booted_good_witness:
  "r_boot_get_state (os_programs fw_env_sim) boot_demo_config (mark_demo_slots ! 0)
      [(''BOOT_ORDER'', ''A''), (''BOOT_A_LEFT'', ''3''), (''BOOT_B_LEFT'', ''0'')] =
     (Ok True, [(''BOOT_ORDER'', ''A''), (''BOOT_A_LEFT'', ''3''), (''BOOT_B_LEFT'', ''0'')])"
proof -
  have "uboot_inv map_of uboot_demo_env" "distinct (map slot_name mark_demo_slots)"
    "r_slot_get_booted mark_demo_slots = Some (mark_demo_slots ! 0)" "slot_bootname (mark_demo_slots ! 0) \<noteq> None"
    "r_boot_get_state (os_programs fw_env_sim) boot_demo_config (mark_demo_slots ! 0) uboot_demo_env
      = (Ok True, uboot_demo_env)"
    "mark_run (os_programs fw_env_sim) boot_demo_config ''bad'' ''other'' (mark_demo_slots, uboot_demo_env) =
      (Ok [''rootfs.1''], (mark_demo_slots,
        [(''BOOT_ORDER'', ''A''), (''BOOT_A_LEFT'', ''3''), (''BOOT_B_LEFT'', ''0'')]))"
    by code_simp+
  from mark_other_bad_keeps_booted_good [OF mark_demo_ok this] show ?thesis by blast
qed

end
