(* ===== verification/Update_Types.thy ===== *)
theory Update_Types
  imports Slot
begin

text \<open>
  The tables of \<open>src/src/update_handler.c\<close> that decide how an image is written: the image type
  derived from a file name (\<open>ext_type_map\<close>) and the handler for an image type and a slot type
  (\<open>image_type_map\<close>). The tables are those of a build with eMMC boot and GPT support.
\<close>

subsection \<open>Glob patterns\<close>

text \<open>\<open>g_pattern_match_simple\<close>: an asterisk matches any string, a question mark any character.\<close>

fun g_pattern_match_simple :: "string \<Rightarrow> string \<Rightarrow> bool" where
  "g_pattern_match_simple [] s \<longleftrightarrow> s = []"
| "g_pattern_match_simple (p # ps) [] \<longleftrightarrow> p = CHR ''*'' \<and> g_pattern_match_simple ps []"
| "g_pattern_match_simple (p # ps) (c # cs) \<longleftrightarrow>
     (if p = CHR ''*'' then g_pattern_match_simple ps (c # cs) \<or> g_pattern_match_simple (p # ps) cs
      else (p = CHR ''?'' \<or> p = c) \<and> g_pattern_match_simple ps cs)"

lemma pattern_match_star:
  "g_pattern_match_simple (CHR ''*'' # ps) s \<longleftrightarrow> (\<exists>a b. s = a @ b \<and> g_pattern_match_simple ps b)"
proof (induction s)
  case (Cons c cs)
  show ?case
  proof
    assume "g_pattern_match_simple (CHR ''*'' # ps) (c # cs)"
    then have "g_pattern_match_simple ps (c # cs) \<or> g_pattern_match_simple (CHR ''*'' # ps) cs" by simp
    then show "\<exists>a b. c # cs = a @ b \<and> g_pattern_match_simple ps b"
      using Cons.IH by (metis append_Cons append_Nil)
  next
    assume "\<exists>a b. c # cs = a @ b \<and> g_pattern_match_simple ps b"
    then obtain a b where ab: "c # cs = a @ b" "g_pattern_match_simple ps b" by blast
    then show "g_pattern_match_simple (CHR ''*'' # ps) (c # cs)"
      using Cons.IH by (cases a) auto
  qed
qed auto

definition wildcard_free :: "string \<Rightarrow> bool" where
  "wildcard_free ps \<longleftrightarrow> CHR ''*'' \<notin> set ps \<and> CHR ''?'' \<notin> set ps"

lemma pattern_match_plain: "wildcard_free ps \<Longrightarrow> g_pattern_match_simple ps s \<longleftrightarrow> s = ps"
proof (induction ps arbitrary: s)
  case (Cons p ps)
  then have ps: "p \<noteq> CHR ''*''" "p \<noteq> CHR ''?''" "wildcard_free ps"
    by (auto simp: wildcard_free_def)
  show ?case using ps Cons.IH [OF ps(3)] by (cases s) auto
qed (simp add: wildcard_free_def)

lemma pattern_match_suffix:
  "wildcard_free ps \<Longrightarrow> g_pattern_match_simple (CHR ''*'' # ps) s \<longleftrightarrow> (\<exists>a. s = a @ ps)"
  by (simp add: pattern_match_star pattern_match_plain)

subsection \<open>Image types\<close>

definition ext_type_map :: "(string \<times> string) list" where
  "ext_type_map = [(''*.ext4.caibx'', ''ext4-caibx''), (''*.vfat.caibx'', ''vfat-caibx''),
     (''*.ubifs.caibx'', ''ubifs-caibx''), (''*.img.caibx'', ''raw-caibx''),
     (''*.squashfs.caibx'', ''squashfs-caibx''), (''*.squashfs-*.caibx'', ''squashfs-caibx''),
     (''*.catar'', ''catar''), (''*.caidx'', ''caidx''), (''*.tar*'', ''tar''), (''*.tgz'', ''tar''),
     (''*.ext4'', ''ext4''), (''*.vfat'', ''vfat''), (''*.img'', ''raw''),
     (''*.squashfs-*'', ''squashfs''), (''*.squashfs'', ''squashfs''), (''*.ubifs'', ''ubifs'')]"

fun derive_image_type_loop :: "(string \<times> string) list \<Rightarrow> string \<Rightarrow> string option" where
  "derive_image_type_loop [] filename = None"
| "derive_image_type_loop ((fileext, type) # rest) filename =
     (if g_pattern_match_simple fileext filename then Some type else derive_image_type_loop rest filename)"

definition derive_image_type_from_filename_pattern :: "string \<Rightarrow> string option" where
  "derive_image_type_from_filename_pattern filename = derive_image_type_loop ext_type_map filename"

subsection \<open>Handlers\<close>

datatype img_to_slot_handler = img_to_fs_handler | img_to_raw_handler | img_to_ubivol_handler
  | img_to_ubifs_handler | archive_to_ext4_handler | archive_to_ubifs_handler | archive_to_vfat_handler
  | archive_to_jffs2_handler | img_to_nor_handler | img_to_nand_handler | img_to_boot_emmc_handler
  | img_to_boot_mbr_switch_handler | img_to_boot_gpt_switch_handler | img_to_boot_raw_fallback_handler
  | hook_install_handler

definition image_type_map :: "(string \<times> string \<times> img_to_slot_handler) list" where
  "image_type_map = [
     (''ext4-caibx'', ''ext4'', img_to_fs_handler), (''raw-caibx'', ''ext4'', img_to_raw_handler),
     (''ext4-caibx'', ''raw'', img_to_raw_handler), (''vfat-caibx'', ''raw'', img_to_raw_handler),
     (''raw-caibx'', ''raw'', img_to_raw_handler), (''raw-caibx'', ''vfat'', img_to_raw_handler),
     (''raw-caibx'', ''jffs2'', img_to_raw_handler), (''raw-caibx'', ''nor'', img_to_raw_handler),
     (''raw-caibx'', ''nand'', img_to_raw_handler), (''squashfs-caibx'', ''raw'', img_to_raw_handler),
     (''squashfs-caibx'', ''ubivol'', img_to_ubivol_handler), (''ubifs-caibx'', ''ubivol'', img_to_ubivol_handler),
     (''raw-caibx'', ''ubivol'', img_to_ubivol_handler), (''ubifs-caibx'', ''ubifs'', img_to_ubifs_handler),
     (''raw-caibx'', ''ubifs'', img_to_ubifs_handler),
     (''caidx'', ''ext4'', archive_to_ext4_handler), (''caidx'', ''ubifs'', archive_to_ubifs_handler),
     (''caidx'', ''vfat'', archive_to_vfat_handler), (''catar'', ''ext4'', archive_to_ext4_handler),
     (''ext4'', ''ext4'', img_to_fs_handler), (''ext4'', ''raw'', img_to_raw_handler),
     (''vfat'', ''vfat'', img_to_fs_handler), (''vfat'', ''raw'', img_to_raw_handler),
     (''squashfs'', ''ubivol'', img_to_ubivol_handler), (''squashfs'', ''raw'', img_to_raw_handler),
     (''ubifs'', ''ubivol'', img_to_ubivol_handler), (''ubifs'', ''ubifs'', img_to_ubifs_handler),
     (''raw'', ''ext4'', img_to_fs_handler), (''raw'', ''nor'', img_to_nor_handler),
     (''raw'', ''nand'', img_to_nand_handler), (''raw'', ''ubifs'', img_to_ubifs_handler),
     (''raw'', ''ubivol'', img_to_ubivol_handler), (''raw'', ''vfat'', img_to_fs_handler),
     (''raw'', ''raw'', img_to_raw_handler), (''raw'', ''jffs2'', img_to_raw_handler),
     (''tar'', ''ext4'', archive_to_ext4_handler), (''tar'', ''ubifs'', archive_to_ubifs_handler),
     (''tar'', ''vfat'', archive_to_vfat_handler), (''tar'', ''jffs2'', archive_to_jffs2_handler),
     (''raw'', ''boot-emmc'', img_to_boot_emmc_handler),
     (''vfat'', ''boot-mbr-switch'', img_to_boot_mbr_switch_handler),
     (''raw'', ''boot-mbr-switch'', img_to_boot_mbr_switch_handler),
     (''vfat'', ''boot-gpt-switch'', img_to_boot_gpt_switch_handler),
     (''ext4'', ''boot-gpt-switch'', img_to_boot_gpt_switch_handler),
     (''raw'', ''boot-gpt-switch'', img_to_boot_gpt_switch_handler),
     (''raw'', ''boot-raw-fallback'', img_to_boot_raw_fallback_handler),
     (''emptyfs'', ''ext4'', archive_to_ext4_handler)]"

definition get_handler_from_type :: "string \<Rightarrow> string \<Rightarrow> img_to_slot_handler option" where
  "get_handler_from_type image_type slottype =
     (case find (\<lambda>(t, s, h). t = image_type \<and> s = slottype) image_type_map of
        None \<Rightarrow> None | Some (t, s, h) \<Rightarrow> Some h)"

definition is_image_type_supported :: "string \<Rightarrow> bool" where
  "is_image_type_supported type = list_ex (\<lambda>(t, s, h). t = type) image_type_map"

subsection \<open>The tables fit together\<close>

lemma derive_loop_in: "derive_image_type_loop tbl f = Some t \<Longrightarrow> t \<in> snd ` set tbl"
  by (induction tbl f rule: derive_image_type_loop.induct) (auto split: if_splits)

lemma ext_types_supported: "list_all (\<lambda>(e, t). is_image_type_supported t) ext_type_map"
  by code_simp

lemma get_handler_Some: "get_handler_from_type t s = Some h \<Longrightarrow> (t, s, h) \<in> set image_type_map"
  by (auto simp: get_handler_from_type_def find_Some_iff split: option.splits) (metis nth_mem)

lemma derived_type_supported:
  assumes "derive_image_type_from_filename_pattern f = Some t"
  shows "is_image_type_supported t"
proof -
  have "t \<in> snd ` set ext_type_map"
    using assms by (simp add: derive_image_type_from_filename_pattern_def derive_loop_in)
  then show ?thesis using ext_types_supported by (auto simp: list_all_iff)
qed

end
