(* ===== verification/Checksum.thy ===== *)
theory Checksum
  imports Slot
begin

text \<open>
  Checksums of files (\<open>src/src/checksum.c\<close>).

  GChecksum is GLib's: a parameter with a context, an update function and the final hexadecimal
  string. \<open>g_checksum\<close> states what it documents, that feeding data in pieces is the same as
  feeding their concatenation. Opening and reading a file is a parameter too: the open error, or
  the results of the successive \<open>read\<close> calls, of which the last is an error or of length 0.
\<close>

record 'c gchecksum =
  g_checksum_new :: "g_checksum_type \<Rightarrow> 'c"
  g_checksum_update :: "'c \<Rightarrow> string \<Rightarrow> 'c"
  g_checksum_get_string :: "'c \<Rightarrow> string"

datatype read_result = Read_Bytes string | Read_Failed gerror

type_synonym 'w reader = "string \<Rightarrow> 'w \<Rightarrow> read_result list result"

abbreviation RAUC_DEFAULT_CHECKSUM :: g_checksum_type where
  "RAUC_DEFAULT_CHECKSUM \<equiv> G_CHECKSUM_SHA256"

subsection \<open>Operations\<close>

text \<open>The \<open>read\<close> loop; an exhausted list stands for end of file.\<close>

fun read_loop :: "'c gchecksum \<Rightarrow> 'c \<Rightarrow> 64 word \<Rightarrow> read_result list \<Rightarrow> ('c \<times> 64 word) result" where
  "read_loop gc ctx sz [] = Ok (ctx, sz)"
| "read_loop gc ctx sz (Read_Failed e # rs) = Error e"
| "read_loop gc ctx sz (Read_Bytes buf # rs) =
     (if buf = [] then Ok (ctx, sz)
      else read_loop gc (g_checksum_update gc ctx buf) (sz + of_nat (length buf)) rs)"

definition update_from_file ::
    "'c gchecksum \<Rightarrow> 'w reader \<Rightarrow> 'c \<Rightarrow> string \<Rightarrow> 64 word \<Rightarrow> 'w \<Rightarrow> ('c \<times> 64 word) result" where
  "update_from_file gc reader ctx filename tot w =
     result_bind (reader filename w) (\<lambda>rs.
     result_bind (read_loop gc ctx 0 rs) (\<lambda>(ctx, sz). Ok (ctx, tot + sz)))"

definition compute_checksum ::
    "'c gchecksum \<Rightarrow> 'w reader \<Rightarrow> rauc_checksum \<Rightarrow> string \<Rightarrow> 'w \<Rightarrow> rauc_checksum result" where
  "compute_checksum gc reader checksum filename w =
     (let type = (if cs_type checksum = G_CHECKSUM_MD5 then RAUC_DEFAULT_CHECKSUM else cs_type checksum) in
      result_bind (update_from_file gc reader (g_checksum_new gc type) filename 0 w) (\<lambda>(ctx, tot).
        Ok (checksum\<lparr>cs_digest := Some (g_checksum_get_string gc ctx), cs_size := tot, cs_type := type\<rparr>)))"

definition verify_checksum ::
    "'c gchecksum \<Rightarrow> 'w reader \<Rightarrow> rauc_checksum \<Rightarrow> string \<Rightarrow> 'w \<Rightarrow> unit result" where
  "verify_checksum gc reader checksum filename w = (case cs_digest checksum of
      None \<Rightarrow> Error (R_CHECKSUM_ERROR R_CHECKSUM_ERROR_FAILED)
    | Some digest \<Rightarrow>
        result_bind (compute_checksum gc reader (checksum_new0\<lparr>cs_type := cs_type checksum\<rparr>) filename w) (\<lambda>computed.
        result_bind (fail_if (cs_size checksum \<noteq> cs_size computed)
            (R_CHECKSUM_ERROR R_CHECKSUM_ERROR_SIZE_MISMATCH)) (\<lambda>_.
          fail_if (Some digest \<noteq> cs_digest computed) (R_CHECKSUM_ERROR R_CHECKSUM_ERROR_DIGEST_MISMATCH))))"

subsection \<open>What a file's checksum is\<close>

text \<open>The content delivered by the reads, or nothing when one of them fails.\<close>

fun reads_content :: "read_result list \<Rightarrow> string option" where
  "reads_content [] = Some []"
| "reads_content (Read_Failed e # rs) = None"
| "reads_content (Read_Bytes buf # rs) =
     (if buf = [] then Some [] else map_option (\<lambda>c. buf @ c) (reads_content rs))"

definition file_content :: "'w reader \<Rightarrow> string \<Rightarrow> 'w \<Rightarrow> string option" where
  "file_content reader filename w = (case reader filename w of Ok rs \<Rightarrow> reads_content rs | _ \<Rightarrow> None)"

locale g_checksum =
  fixes gc :: "'c gchecksum" and hash :: "g_checksum_type \<Rightarrow> string \<Rightarrow> string"
  assumes hash: "g_checksum_get_string gc (fold (\<lambda>b c. g_checksum_update gc c b) bs (g_checksum_new gc t))
    = hash t (concat bs)"
begin

lemma read_loop_content:
  "reads_content rs = Some content \<Longrightarrow>
     \<exists>bs. concat bs = content \<and>
       read_loop gc ctx sz rs = Ok (fold (\<lambda>b c. g_checksum_update gc c b) bs ctx, sz + of_nat (length content))"
proof (induction gc ctx sz rs arbitrary: content rule: read_loop.induct)
  case (3 gc ctx sz buf rs)
  show ?case
  proof (cases "buf = []")
    case True
    with "3.prems" show ?thesis by (intro exI [of _ "[]"]) simp
  next
    case False
    with "3.prems" obtain c where c: "reads_content rs = Some c" "content = buf @ c" by auto
    from "3.IH" [OF False c(1)] obtain bs where "concat bs = c"
      and "read_loop gc (g_checksum_update gc ctx buf) (sz + of_nat (length buf)) rs
        = Ok (fold (\<lambda>b c. g_checksum_update gc c b) bs (g_checksum_update gc ctx buf),
            sz + of_nat (length buf) + of_nat (length c))" by blast
    with False c(2) show ?thesis by (intro exI [of _ "buf # bs"]) (simp add: add.assoc)
  qed
next
  case (1 gc ctx sz)
  then show ?case by (intro exI [of _ "[]"]) simp
qed simp

lemma compute_checksum_content:
  assumes "file_content reader f w = Some content"
  shows "compute_checksum gc reader cs f w =
    (let t = (if cs_type cs = G_CHECKSUM_MD5 then RAUC_DEFAULT_CHECKSUM else cs_type cs) in
     Ok (cs\<lparr>cs_digest := Some (hash t content), cs_size := of_nat (length content), cs_type := t\<rparr>))"
proof -
  obtain rs where rs: "reader f w = Ok rs" "reads_content rs = Some content"
    using assms by (auto simp: file_content_def split: result.splits)
  define t where "t = (if cs_type cs = G_CHECKSUM_MD5 then RAUC_DEFAULT_CHECKSUM else cs_type cs)"
  obtain bs where "concat bs = content"
    and "read_loop gc (g_checksum_new gc t) 0 rs
      = Ok (fold (\<lambda>b c. g_checksum_update gc c b) bs (g_checksum_new gc t), of_nat (length content))"
    using read_loop_content [OF rs(2), of "g_checksum_new gc t" 0] by auto
  then show ?thesis
    using rs(1) hash by (simp add: compute_checksum_def update_from_file_def t_def [symmetric] Let_def)
qed

text \<open>The two sides of a transfer: what the bundle creator computed verifies on the device exactly
  when the file is the same as far as length and hash can tell.\<close>

lemma verify_checksum_iff:
  assumes "file_content reader f w = Some content"
  shows "verify_checksum gc reader cs f w = Ok () \<longleftrightarrow>
    cs_size cs = of_nat (length content) \<and>
    cs_digest cs = Some (hash (if cs_type cs = G_CHECKSUM_MD5 then RAUC_DEFAULT_CHECKSUM else cs_type cs) content)"
  using compute_checksum_content [OF assms, of "checksum_new0\<lparr>cs_type := cs_type cs\<rparr>"]
  by (auto simp: verify_checksum_def Let_def io_iff checksum_new0_def split: option.splits)

lemma verify_computed:
  assumes "compute_checksum gc reader cs f w = Ok cs'" and "file_content reader f w = Some content"
  shows "verify_checksum gc reader cs' f w = Ok ()"
  using assms(1) compute_checksum_content [OF assms(2), of cs]
  by (auto simp: verify_checksum_iff [OF assms(2)] Let_def split: if_splits)

end

lemma compute_checksum_Ok_content:
  "compute_checksum gc reader cs f w = Ok cs' \<Longrightarrow> \<exists>content. file_content reader f w = Some content"
proof -
  have loop: "read_loop gc ctx sz rs = Ok r \<Longrightarrow> \<exists>content. reads_content rs = Some content" for ctx sz rs r
    by (induction gc ctx sz rs rule: read_loop.induct) (auto split: if_splits)
  assume "compute_checksum gc reader cs f w = Ok cs'"
  then show ?thesis
    by (auto simp: compute_checksum_def update_from_file_def io_iff Let_def file_content_def dest: loop)
qed

subsection \<open>A checksum\<close>

text \<open>A toy hash, the content itself, meets the interface.\<close>

definition plain_gchecksum :: "string gchecksum" where
  "plain_gchecksum = \<lparr>g_checksum_new = (\<lambda>t. []), g_checksum_update = (\<lambda>c b. c @ b),
     g_checksum_get_string = (\<lambda>c. c)\<rparr>"

interpretation plain: g_checksum plain_gchecksum "\<lambda>t c. c"
proof
  fix bs :: "string list" and t
  have "fold (\<lambda>b c. g_checksum_update plain_gchecksum c b) bs acc = acc @ concat bs" for acc
    by (induction bs arbitrary: acc) (simp_all add: plain_gchecksum_def)
  then show "g_checksum_get_string plain_gchecksum
      (fold (\<lambda>b c. g_checksum_update plain_gchecksum c b) bs (g_checksum_new plain_gchecksum t)) = concat bs"
    by (simp add: plain_gchecksum_def)
qed

text \<open>
  A file whose checksum was computed verifies against that checksum, and verification accepts
  another file only if it has the same length (modulo the 64 bits of a \<open>goffset\<close>) and the same hash.
\<close>

theorem checksum_compute_verify:
  assumes "g_checksum gc hash" and "compute_checksum gc reader cs f w = Ok cs'"
  shows "verify_checksum gc reader cs' f w = Ok () \<and>
    (\<forall>f' w' content content'. file_content reader f w = Some content \<longrightarrow>
       file_content reader f' w' = Some content' \<longrightarrow>
       (verify_checksum gc reader cs' f' w' = Ok () \<longleftrightarrow>
          (of_nat (length content') :: 64 word) = of_nat (length content) \<and>
          hash (cs_type cs') content' = hash (cs_type cs') content))"
proof -
  obtain content where c: "file_content reader f w = Some content"
    using compute_checksum_Ok_content [OF assms(2)] by blast
  have cs': "cs_size cs' = of_nat (length content)" "cs_digest cs' = Some (hash (cs_type cs') content)"
      "cs_type cs' \<noteq> G_CHECKSUM_MD5"
    using assms(2) g_checksum.compute_checksum_content [OF assms(1) c, of cs]
    by (auto simp: Let_def split: if_splits)
  show ?thesis
    using g_checksum.verify_computed [OF assms(1,2) c]
    by (auto simp: g_checksum.verify_checksum_iff [OF assms(1)] cs' c)
qed

theorem checksum_compute_verify_witness:
  "verify_checksum plain_gchecksum (\<lambda>f w. Ok [Read_Bytes ''ab'', Read_Bytes ''c''])
     \<lparr>cs_type = G_CHECKSUM_SHA256, cs_digest = Some ''abc'', cs_size = 3\<rparr> ''image.img'' () = Ok ()"
proof -
  have "compute_checksum plain_gchecksum (\<lambda>f w. Ok [Read_Bytes ''ab'', Read_Bytes ''c'']) checksum_new0 ''image.img'' ()
    = Ok \<lparr>cs_type = G_CHECKSUM_SHA256, cs_digest = Some ''abc'', cs_size = 3\<rparr>"
    by (simp add: compute_checksum_def update_from_file_def plain_gchecksum_def checksum_new0_def)
  from checksum_compute_verify [OF plain.g_checksum_axioms this] show ?thesis by blast
qed

end
