(* ===== verification/Semver.thy ===== *)
theory Semver
  imports Rauc_Strings "HOL-Library.Product_Lexorder"
begin

text \<open>
  Semantic versions (\<open>r_semver_parse\<close> and \<open>r_semver_less_equal\<close> of \<open>src/src/utils.c\<close>), which
  decide whether a bundle satisfies \<open>min-bundle-version\<close> and whether RAUC itself satisfies the
  \<open>min-rauc-version\<close> of a manifest.

  The comparison loops of the source are translated as they are; the specification is the linear
  order on \<open>semver_key\<close> (core numbers, then pre-release identifiers, a release above all of its
  pre-releases), and the main lemma shows that the code computes that order.
\<close>

subsection \<open>Parsing\<close>

text \<open>\<open>g_strrstr\<close> with a one-character needle, and the cut the code makes there: what stands
  before and after the last occurrence.\<close>

definition strrstr_cut :: "char \<Rightarrow> string \<Rightarrow> (string \<times> string) option" where
  "strrstr_cut d s =
     (if d \<in> set s
      then Some (rev (tl (dropWhile (\<lambda>c. c \<noteq> d) (rev s))), rev (takeWhile (\<lambda>c. c \<noteq> d) (rev s)))
      else None)"

fun semver_parse_core :: "string list \<Rightarrow> 64 word list result" where
  "semver_parse_core [] = Ok []"
| "semver_parse_core (p # ps) =
     result_bind (g_ascii_string_to_unsigned p) (\<lambda>n.
     result_bind (semver_parse_core ps) (\<lambda>ns. Ok (n # ns)))"

text \<open>The three core numbers (missing ones are 0), the pre-release and the build part.\<close>

definition r_semver_parse ::
    "string \<Rightarrow> (64 word list \<times> string option \<times> string option) result" where
  "r_semver_parse version_string =
     (let (version_copy, build) = (case strrstr_cut (CHR ''+'') version_string of
            None \<Rightarrow> (version_string, None) | Some (c, b) \<Rightarrow> (c, Some b));
          (version_copy, pre_release) = (case strrstr_cut (CHR ''-'') version_copy of
            None \<Rightarrow> (version_copy, None) | Some (c, p) \<Rightarrow> (c, Some p));
          version_parts = g_strsplit_max version_copy (CHR ''.'') 3
      in if version_parts = [] then Error (R_UTILS_ERROR R_UTILS_ERROR_SEMVER_PARSE)
         else result_bind (semver_parse_core version_parts) (\<lambda>core.
           Ok (core @ replicate (3 - length core) 0, pre_release, build)))"

subsection \<open>Comparison\<close>

text \<open>The loop over major, minor and patch: \<open>None\<close> when all are equal.\<close>

fun semver_core_cmp :: "64 word list \<Rightarrow> 64 word list \<Rightarrow> bool option" where
  "semver_core_cmp (a # as) (b # bs) =
     (if a < b then Some True else if a > b then Some False else semver_core_cmp as bs)"
| "semver_core_cmp _ _ = None"

text \<open>The loop over the dot-separated pre-release identifiers.\<close>

fun semver_pre_cmp :: "string list \<Rightarrow> string list \<Rightarrow> bool" where
  "semver_pre_cmp (a # as) (b # bs) =
     (case (g_ascii_string_to_unsigned a, g_ascii_string_to_unsigned b) of
        (Ok num_a, Ok num_b) \<Rightarrow>
          if num_a < num_b then True else if num_a > num_b then False else semver_pre_cmp as bs
      | (Ok _, _) \<Rightarrow> True
      | (_, Ok _) \<Rightarrow> False
      | (_, _) \<Rightarrow>
          if a < b then True else if a > b then False else semver_pre_cmp as bs)"
| "semver_pre_cmp [] [] = True"
| "semver_pre_cmp [] (b # bs) = True"
| "semver_pre_cmp (a # as) [] = False"

definition r_semver_less_equal :: "string \<Rightarrow> string \<Rightarrow> bool result" where
  "r_semver_less_equal version_string_a version_string_b =
     result_bind (r_semver_parse version_string_a) (\<lambda>(core_a, pre_a, _).
     result_bind (r_semver_parse version_string_b) (\<lambda>(core_b, pre_b, _).
       case semver_core_cmp core_a core_b of
         Some r \<Rightarrow> Ok r
       | None \<Rightarrow> (case (pre_a, pre_b) of
             (None, None) \<Rightarrow> Ok True
           | (None, Some _) \<Rightarrow> Ok False
           | (Some _, None) \<Rightarrow> Ok True
           | (Some pa, Some pb) \<Rightarrow>
               Ok (semver_pre_cmp (g_strsplit pa (CHR ''.'')) (g_strsplit pb (CHR ''.''))))))"

subsection \<open>The order of versions\<close>

text \<open>Pre-release identifiers: numbers below words, numbers by value, words by bytes.\<close>

datatype semver_field = SvNum "64 word" | SvAlpha string

instantiation semver_field :: linorder
begin

fun less_eq_semver_field :: "semver_field \<Rightarrow> semver_field \<Rightarrow> bool" where
  "less_eq_semver_field (SvNum a) (SvNum b) = (a \<le> b)"
| "less_eq_semver_field (SvNum a) (SvAlpha b) = True"
| "less_eq_semver_field (SvAlpha a) (SvNum b) = False"
| "less_eq_semver_field (SvAlpha a) (SvAlpha b) = (a \<le> b)"

definition less_semver_field :: "semver_field \<Rightarrow> semver_field \<Rightarrow> bool" where
  "less_semver_field x y = (x \<le> y \<and> \<not> y \<le> x)"

instance
proof
  fix x y z :: semver_field
  show "(x < y) = (x \<le> y \<and> \<not> y \<le> x)" by (rule less_semver_field_def)
  show "x \<le> x" by (cases x) auto
  show "x \<le> y \<Longrightarrow> y \<le> z \<Longrightarrow> x \<le> z" by (cases x; cases y; cases z) auto
  show "x \<le> y \<Longrightarrow> y \<le> x \<Longrightarrow> x = y" by (cases x; cases y) auto
  show "x \<le> y \<or> y \<le> x" by (cases x; cases y) auto
qed

end

text \<open>A release is above all its pre-releases.\<close>

datatype semver_pre = SvPre "semver_field list" | SvRelease

instantiation semver_pre :: linorder
begin

fun less_eq_semver_pre :: "semver_pre \<Rightarrow> semver_pre \<Rightarrow> bool" where
  "less_eq_semver_pre _ SvRelease = True"
| "less_eq_semver_pre SvRelease (SvPre _) = False"
| "less_eq_semver_pre (SvPre a) (SvPre b) = (a \<le> b)"

definition less_semver_pre :: "semver_pre \<Rightarrow> semver_pre \<Rightarrow> bool" where
  "less_semver_pre x y = (x \<le> y \<and> \<not> y \<le> x)"

instance
proof
  fix x y z :: semver_pre
  show "(x < y) = (x \<le> y \<and> \<not> y \<le> x)" by (rule less_semver_pre_def)
  show "x \<le> x" by (cases x) auto
  show "x \<le> y \<Longrightarrow> y \<le> z \<Longrightarrow> x \<le> z" by (cases x; cases y; cases z) auto
  show "x \<le> y \<Longrightarrow> y \<le> x \<Longrightarrow> x = y" by (cases x; cases y) auto
  show "x \<le> y \<or> y \<le> x" by (cases x; cases y) auto
qed

end

definition semver_field_key :: "string \<Rightarrow> semver_field" where
  "semver_field_key f = (case g_ascii_string_to_unsigned f of Ok n \<Rightarrow> SvNum n | _ \<Rightarrow> SvAlpha f)"

definition semver_pre_key :: "string option \<Rightarrow> semver_pre" where
  "semver_pre_key p = (case p of None \<Rightarrow> SvRelease
     | Some s \<Rightarrow> SvPre (map semver_field_key (g_strsplit s (CHR ''.''))))"

definition semver_key :: "string \<Rightarrow> (64 word list \<times> semver_pre) result" where
  "semver_key v = result_bind (r_semver_parse v) (\<lambda>(core, pre, _). Ok (core, semver_pre_key pre))"

lemma semver_field_less:
  "SvNum a < SvNum b \<longleftrightarrow> a < b" "SvAlpha s < SvAlpha t \<longleftrightarrow> s < t"
  "SvNum a < SvAlpha t" "\<not> SvAlpha s < SvNum b"
  by (auto simp: less_semver_field_def)

lemma semver_pre_cmp_key:
  "semver_pre_cmp as bs \<longleftrightarrow> map semver_field_key as \<le> map semver_field_key bs"
proof (induction as bs rule: semver_pre_cmp.induct)
  case (1 a as b bs)
  then show ?case
    by (cases "g_ascii_string_to_unsigned a"; cases "g_ascii_string_to_unsigned b")
      (auto simp: semver_field_key_def Cons_le_Cons semver_field_less)
qed auto

lemma semver_core_cmp_key:
  assumes "length as = length bs"
  shows "semver_core_cmp as bs = (if as < bs then Some True else if as > bs then Some False else None)"
  using assms
  by (induction as bs rule: semver_core_cmp.induct) (auto simp: Cons_less_Cons)

lemma split_max_length: "length (split_max n d s) \<le> max n 1"
  by (induction n d s rule: split_max.induct) (auto split: list.splits)

lemma split_max_neq_Nil [simp]: "split_max n d s \<noteq> []"
  by (cases "(n, d, s)" rule: split_max.cases) (auto split: list.splits)

lemma semver_parse_core_length: "semver_parse_core ps = Ok core \<Longrightarrow> length core = length ps"
  by (induction ps arbitrary: core) (auto simp: io_iff)

lemma r_semver_parse_core_length:
  assumes "r_semver_parse v = Ok (core, pre, bld)"
  shows "length core = 3"
proof -
  have le: "length (g_strsplit_max s (CHR ''.'') 3) \<le> 3" for s
    using split_max_length [of 3 "CHR ''.''" s] by (simp add: g_strsplit_max_def)
  from assms show ?thesis
    unfolding r_semver_parse_def Let_def
    by (auto simp: io_iff split: if_splits option.splits prod.splits
        dest!: semver_parse_core_length intro: le [THEN le_trans] simp: le)
qed

lemma r_semver_parse_not_Abort [simp]: "r_semver_parse v \<noteq> Abort"
proof -
  have *: "semver_parse_core ps \<noteq> Abort" for ps
  proof (induction ps)
    case (Cons p ps)
    then show ?case
      by (cases "g_ascii_string_to_unsigned p"; cases "semver_parse_core ps") auto
  qed simp
  have "result_bind (semver_parse_core ps) (\<lambda>x. Ok (f x)) \<noteq> Abort" 
    for ps and f :: "64 word list \<Rightarrow> 64 word list \<times> string option \<times> string option"
    using * [of ps] by (cases "semver_parse_core ps") auto
  then show ?thesis
    by (simp add: r_semver_parse_def Let_def split: prod.splits option.splits)
qed

text \<open>The comparison is the linear order on keys.\<close>

lemma r_semver_less_equal_key:
  assumes "semver_key a = Ok ka" and "semver_key b = Ok kb"
  shows "r_semver_less_equal a b = Ok (ka \<le> kb)"
proof -
  obtain ca pa ba where a: "r_semver_parse a = Ok (ca, pa, ba)" and ka: "ka = (ca, semver_pre_key pa)"
    using assms(1) by (auto simp: semver_key_def io_iff)
  obtain cb pb bb where b: "r_semver_parse b = Ok (cb, pb, bb)" and kb: "kb = (cb, semver_pre_key pb)"
    using assms(2) by (auto simp: semver_key_def io_iff)
  have "length ca = length cb"
    using a b r_semver_parse_core_length by metis
  then have cmp: "semver_core_cmp ca cb
      = (if ca < cb then Some True else if ca > cb then Some False else None)"
    by (rule semver_core_cmp_key)
  show ?thesis
    unfolding r_semver_less_equal_def a b ka kb
    by (cases pa; cases pb) (auto simp: cmp semver_pre_key_def semver_pre_cmp_key less_eq_prod_def)
qed

lemma semver_key_cases:
  obtains k where "semver_key v = Ok k" | e where "r_semver_parse v = Error e" "semver_key v = Error e"
  by (cases "r_semver_parse v") (auto simp: semver_key_def)

end
