(* ===== verification/Manifest.thy ===== *)
theory Manifest
  imports Update_Types Checksum Semver
begin

text \<open>
  The bundle manifest (\<open>src/src/manifest.c\<close>): its data, the parser, the printer and the checks
  for the manifests that go into, and come out of, a bundle.

  The parser consumes the key file it is given and rejects what it does not know; hash tables
  (\<open>meta\<close>) are association lists in insertion order. GLib's text format of key files and its
  checksum are parameters of the loaders. The progress steps around the checks
  (\<open>r_context_begin_step\<close>) are not modelled.
\<close>

subsection \<open>Data\<close>

record slot_hooks =
  hook_pre_install :: bool
  hook_install :: bool
  hook_post_install :: bool

record rauc_image =
  img_slotclass :: "string option"
  img_artifact :: "string option"
  img_variant :: "string option"
  img_checksum :: rauc_checksum
  img_filename :: "string option"
  img_type :: "string option"
  img_type_from_fileext :: bool
  img_hooks :: slot_hooks
  img_adaptive :: "string list option"
  img_convert :: "string list option"
  img_converted :: "string list option"

datatype bundle_format = R_MANIFEST_FORMAT_PLAIN | R_MANIFEST_FORMAT_VERITY | R_MANIFEST_FORMAT_CRYPT

record rauc_manifest =
  mf_update_compatible :: "string option"
  mf_update_version :: "string option"
  mf_update_description :: "string option"
  mf_update_build :: "string option"
  mf_update_min_rauc_version :: "string option"
  mf_bundle_format :: bundle_format
  mf_bundle_verity_salt :: "string option"
  mf_bundle_verity_hash :: "string option"
  mf_bundle_verity_size :: "64 word"
  mf_bundle_format_explicit :: bool
  mf_bundle_crypt_key :: "string option"
  mf_handler_name :: "string option"
  mf_handler_args :: "string option"
  mf_hook_name :: "string option"
  mf_install_check :: bool
  mf_images :: "rauc_image list"
  mf_meta :: "(string \<times> (string \<times> string) list) list"
  mf_hash :: "string option"
  mf_warnings :: "string list"

fun r_manifest_bundle_format_to_str :: "bundle_format \<Rightarrow> string" where
  "r_manifest_bundle_format_to_str R_MANIFEST_FORMAT_PLAIN = ''plain''"
| "r_manifest_bundle_format_to_str R_MANIFEST_FORMAT_VERITY = ''verity''"
| "r_manifest_bundle_format_to_str R_MANIFEST_FORMAT_CRYPT = ''crypt''"

definition no_hooks :: slot_hooks where
  "no_hooks = \<lparr>hook_pre_install = False, hook_install = False, hook_post_install = False\<rparr>"

definition r_new_image :: rauc_image where
  "r_new_image = \<lparr>img_slotclass = None, img_artifact = None, img_variant = None,
     img_checksum = checksum_new0\<lparr>cs_size := -1\<rparr>, img_filename = None, img_type = None,
     img_type_from_fileext = False, img_hooks = no_hooks, img_adaptive = None, img_convert = None,
     img_converted = None\<rparr>"

definition manifest_new0 :: rauc_manifest where
  "manifest_new0 = \<lparr>mf_update_compatible = None, mf_update_version = None, mf_update_description = None,
     mf_update_build = None, mf_update_min_rauc_version = None, mf_bundle_format = R_MANIFEST_FORMAT_PLAIN,
     mf_bundle_verity_salt = None, mf_bundle_verity_hash = None, mf_bundle_verity_size = 0,
     mf_bundle_format_explicit = False, mf_bundle_crypt_key = None, mf_handler_name = None,
     mf_handler_args = None, mf_hook_name = None, mf_install_check = False, mf_images = [],
     mf_meta = [], mf_hash = None, mf_warnings = []\<rparr>"

abbreviation hooks_install :: "rauc_image \<Rightarrow> bool" where
  "hooks_install img \<equiv> hook_install (img_hooks img)"

subsection \<open>Parsing an image section\<close>

text \<open>The end of a section: nothing may be left in it.\<close>

definition close_group :: "string \<Rightarrow> unit kf_parser" where
  "close_group grp = io_bind (kf_query (\<lambda>kf. check_remaining_keys kf grp)) (\<lambda>_. remove_group grp)"

definition handle_missing_type :: "rauc_image \<Rightarrow> rauc_image result" where
  "handle_missing_type img =
     (if hooks_install img then Ok img
      else case img_filename img of
        None \<Rightarrow> Error (G_KEY_FILE_ERROR G_KEY_FILE_ERROR_INVALID_VALUE)
      | Some f \<Rightarrow> (case derive_image_type_from_filename_pattern f of
          None \<Rightarrow> Error (G_KEY_FILE_ERROR G_KEY_FILE_ERROR_INVALID_VALUE)
        | Some t \<Rightarrow> Ok (img\<lparr>img_type_from_fileext := True, img_type := Some t\<rparr>)))"

definition validate_filename_requirements :: "rauc_image \<Rightarrow> unit result" where
  "validate_filename_requirements img =
     (if img_type img = Some ''emptyfs'' then
        fail_if (img_filename img \<noteq> None) (R_MANIFEST_ERROR R_MANIFEST_PARSE_ERROR)
      else
        fail_if (img_filename img = None \<and> \<not> hooks_install img)
          (G_KEY_FILE_ERROR G_KEY_FILE_ERROR_KEY_NOT_FOUND))"

fun parse_slot_hooks :: "string list \<Rightarrow> slot_hooks \<Rightarrow> slot_hooks result" where
  "parse_slot_hooks [] h = Ok h"
| "parse_slot_hooks (x # xs) h =
     (if x = ''pre-install'' then parse_slot_hooks xs (h\<lparr>hook_pre_install := True\<rparr>)
      else if x = ''install'' then parse_slot_hooks xs (h\<lparr>hook_install := True\<rparr>)
      else if x = ''post-install'' then parse_slot_hooks xs (h\<lparr>hook_post_install := True\<rparr>)
      else Error (G_KEY_FILE_ERROR G_KEY_FILE_ERROR_PARSE))"

text \<open>The section name: \<open>image.<class>[/<artifact>][.<variant>]\<close>.\<close>

definition image_of_group :: "string \<Rightarrow> rauc_image result" where
  "image_of_group grp = (case g_strsplit_max grp (CHR ''.'') 3 of
      p # t # rest \<Rightarrow>
        if p \<noteq> ''image'' then Abort
        else let img = (case g_strsplit_max t (CHR ''/'') 2 of
                  [c, a] \<Rightarrow> r_new_image\<lparr>img_slotclass := Some c, img_artifact := Some a\<rparr>
                | [c] \<Rightarrow> r_new_image\<lparr>img_slotclass := Some c\<rparr>
                | _ \<Rightarrow> r_new_image)
             in Ok (case rest of [v] \<Rightarrow> img\<lparr>img_variant := Some v\<rparr> | _ \<Rightarrow> img)
    | _ \<Rightarrow> Abort)"

definition parse_image_size :: "string \<Rightarrow> 64 word kf_parser" where
  "parse_image_size grp =
     io_bind (io_catch (kf_query (\<lambda>kf. g_key_file_get_uint64 kf grp ''size''))
       (\<lambda>e. if e = G_KEY_FILE_ERROR G_KEY_FILE_ERROR_KEY_NOT_FOUND then io_return (- 1) else io_fail e)) (\<lambda>sz.
     io_bind (remove_key grp ''size'') (\<lambda>_. io_return sz))"

definition parse_image_hooks :: "string \<Rightarrow> slot_hooks kf_parser" where
  "parse_image_hooks grp =
     io_bind (kf_query (\<lambda>kf. Ok (g_key_file_get_string_list kf grp ''hooks''))) (\<lambda>hooks.
     io_bind (io_lift (parse_slot_hooks (case hooks of None \<Rightarrow> [] | Some hs \<Rightarrow> hs) no_hooks)) (\<lambda>h.
     io_bind (remove_key grp ''hooks'') (\<lambda>_. io_return h)))"

definition image_type_supported :: "rauc_image \<Rightarrow> bool" where
  "image_type_supported img = (case img_type img of None \<Rightarrow> False | Some t \<Rightarrow> is_image_type_supported t)"

definition parse_image_type :: "string \<Rightarrow> rauc_image \<Rightarrow> rauc_image kf_parser" where
  "parse_image_type grp img =
     (if img_artifact img \<noteq> None then io_return img
      else io_bind (consume_unless_missing grp ''type'') (\<lambda>type.
        io_bind (case type of
            None \<Rightarrow> io_lift (handle_missing_type img)
          | Some t \<Rightarrow> io_return (img\<lparr>img_type := Some t\<rparr>)) (\<lambda>img.
        io_bind (io_lift (fail_if (\<not> hooks_install img \<and> \<not> image_type_supported img)
            (R_MANIFEST_ERROR R_MANIFEST_ERROR_INVALID_IMAGE_TYPE))) (\<lambda>_.
          io_return img))))"

definition parse_image :: "string \<Rightarrow> rauc_image kf_parser" where
  "parse_image grp =
     io_bind (io_lift (image_of_group grp)) (\<lambda>img.
     io_bind (consume_opt grp ''sha256'') (\<lambda>digest.
     io_bind (parse_image_size grp) (\<lambda>sz.
     io_bind (parse_image_hooks grp) (\<lambda>hooks.
     io_bind (consume_unless_missing grp ''filename'') (\<lambda>filename.
     let img = img\<lparr>img_checksum := \<lparr>cs_type = (if digest = None then cs_type (img_checksum img) else G_CHECKSUM_SHA256),
           cs_digest = digest, cs_size = sz\<rparr>, img_hooks := hooks, img_filename := filename\<rparr> in
     io_bind (parse_image_type grp img) (\<lambda>img.
     io_bind (io_lift (validate_filename_requirements img)) (\<lambda>_.
     io_bind (remove_key grp ''version'') (\<lambda>_.
     io_bind (remove_key grp ''description'') (\<lambda>_.
     io_bind (remove_key grp ''build'') (\<lambda>_.
     io_bind (consume_list grp ''adaptive'') (\<lambda>adaptive.
     io_bind (consume_list grp ''convert'') (\<lambda>convert.
     io_bind (consume_list grp ''converted'') (\<lambda>converted.
     io_bind (close_group grp) (\<lambda>_.
       io_return (img\<lparr>img_adaptive := adaptive, img_convert := convert, img_converted := converted\<rparr>)))))))))))))))"

subsection \<open>Parsing a meta section\<close>

fun parse_meta_keys :: "string \<Rightarrow> string list \<Rightarrow> (string \<times> string) list \<Rightarrow> (string \<times> string) list kf_parser" where
  "parse_meta_keys grp [] kvs = io_return kvs"
| "parse_meta_keys grp (k # ks) kvs =
     io_bind (consume grp k) (\<lambda>v.
     io_bind (io_lift (r_prepare_env_key k)) (\<lambda>_.
       parse_meta_keys grp ks (AList.update k v kvs)))"

definition parse_meta :: "string \<Rightarrow> (string \<times> (string \<times> string) list) list
    \<Rightarrow> (string \<times> (string \<times> string) list) list kf_parser" where
  "parse_meta grp meta = (case g_strsplit_max grp (CHR ''.'') 2 of
      [p, label] \<Rightarrow>
        if CHR ''.'' \<in> set label then io_fail (G_KEY_FILE_ERROR G_KEY_FILE_ERROR_PARSE)
        else
          io_bind (io_lift (r_prepare_env_key label)) (\<lambda>_.
          io_bind (kf_query (\<lambda>kf. Ok (g_key_file_get_keys kf grp))) (\<lambda>keys.
          io_bind (parse_meta_keys grp keys []) (\<lambda>kvs.
          io_bind (remove_group grp) (\<lambda>_. io_return (AList.update label kvs meta)))))
    | _ \<Rightarrow> io_fail (G_KEY_FILE_ERROR G_KEY_FILE_ERROR_PARSE))"

subsection \<open>Parsing the manifest\<close>

definition parse_update :: "rauc_manifest \<Rightarrow> rauc_manifest kf_parser" where
  "parse_update mf =
     io_bind (consume ''update'' ''compatible'') (\<lambda>compatible.
     io_bind (consume_opt ''update'' ''version'') (\<lambda>version.
     io_bind (consume_opt ''update'' ''description'') (\<lambda>description.
     io_bind (consume_opt ''update'' ''build'') (\<lambda>build.
     io_bind (consume_opt ''update'' ''min-rauc-version'') (\<lambda>min_rauc_version.
     io_bind (close_group ''update'') (\<lambda>_.
       io_return (mf\<lparr>mf_update_compatible := Some compatible, mf_update_version := version,
         mf_update_description := description, mf_update_build := build,
         mf_update_min_rauc_version := min_rauc_version\<rparr>)))))))"

definition format_warnings :: "string list" where
  "format_warnings = [
     ''WARNING: The manifest does not specify a bundle format, defaulting to 'plain'.'',
     ''  We recommend using the 'verity' format instead, if possible.'',
     ''  To silence this warning, select the 'plain' format explicitly.'',
     ''  See https://rauc.readthedocs.io/en/latest/reference.html#sec-ref-formats for details.'' @ [CHR 0x27]]"

definition parse_bundle_format :: "string option \<Rightarrow> rauc_manifest \<Rightarrow> rauc_manifest kf_parser" where
  "parse_bundle_format tmp mf =
     (if tmp = None \<or> tmp = Some ''plain'' then io_return (mf\<lparr>mf_bundle_format := R_MANIFEST_FORMAT_PLAIN\<rparr>)
      else if tmp = Some ''verity'' \<or> tmp = Some ''crypt'' then
        io_bind (consume_opt ''bundle'' ''verity-hash'') (\<lambda>hash.
        io_bind (consume_opt ''bundle'' ''verity-salt'') (\<lambda>salt.
        io_bind (kf_query (\<lambda>kf. Ok (case g_key_file_get_uint64 kf ''bundle'' ''verity-size'' of Ok n \<Rightarrow> n | _ \<Rightarrow> 0))) (\<lambda>sz.
        io_bind (remove_key ''bundle'' ''verity-size'') (\<lambda>_.
          io_return (mf\<lparr>mf_bundle_format := (if tmp = Some ''crypt'' then R_MANIFEST_FORMAT_CRYPT else R_MANIFEST_FORMAT_VERITY),
            mf_bundle_verity_hash := hash, mf_bundle_verity_salt := salt, mf_bundle_verity_size := sz\<rparr>)))))
      else io_fail (G_KEY_FILE_ERROR G_KEY_FILE_ERROR_PARSE))"

definition parse_bundle :: "rauc_manifest \<Rightarrow> rauc_manifest kf_parser" where
  "parse_bundle mf =
     io_bind (consume_opt ''bundle'' ''format'') (\<lambda>tmp.
     let mf = (if tmp = None then mf\<lparr>mf_warnings := mf_warnings mf @ format_warnings\<rparr>
               else mf\<lparr>mf_bundle_format_explicit := True\<rparr>) in
     io_bind (parse_bundle_format tmp mf) (\<lambda>mf.
     io_bind (if tmp = Some ''crypt'' then
                io_bind (consume_opt ''bundle'' ''crypt-key'') (\<lambda>key. io_return (mf\<lparr>mf_bundle_crypt_key := key\<rparr>))
              else io_return mf) (\<lambda>mf.
     io_bind (close_group ''bundle'') (\<lambda>_. io_return mf))))"

definition parse_handler :: "rauc_manifest \<Rightarrow> rauc_manifest kf_parser" where
  "parse_handler mf =
     io_bind (consume_opt ''handler'' ''filename'') (\<lambda>name.
     io_bind (consume_opt ''handler'' ''args'') (\<lambda>args.
     io_bind (io_lift (fail_if (args \<noteq> None \<and> name = None) (G_KEY_FILE_ERROR G_KEY_FILE_ERROR_PARSE))) (\<lambda>_.
     io_bind (close_group ''handler'') (\<lambda>_.
       io_return (mf\<lparr>mf_handler_name := name, mf_handler_args := args\<rparr>)))))"

definition parse_hooks :: "rauc_manifest \<Rightarrow> rauc_manifest kf_parser" where
  "parse_hooks mf =
     io_bind (consume_opt ''hooks'' ''filename'') (\<lambda>name.
     io_bind (consume_list ''hooks'' ''hooks'') (\<lambda>hooks.
     let hs = (case hooks of None \<Rightarrow> [] | Some hs \<Rightarrow> hs) in
     io_bind (io_lift (fail_if (\<not> list_all (\<lambda>h. h = ''install-check'') hs) (G_KEY_FILE_ERROR G_KEY_FILE_ERROR_PARSE))) (\<lambda>_.
     io_bind (close_group ''hooks'') (\<lambda>_.
       io_return (mf\<lparr>mf_hook_name := name, mf_install_check := mf_install_check mf \<or> hs \<noteq> []\<rparr>)))))"

fun parse_manifest_groups :: "string list \<Rightarrow> rauc_manifest \<Rightarrow> rauc_manifest kf_parser" where
  "parse_manifest_groups [] mf = io_return mf"
| "parse_manifest_groups (g # gs) mf =
     io_bind (if g_str_has_prefix g ''image.'' then
         io_bind (parse_image g) (\<lambda>img. io_return (mf\<lparr>mf_images := mf_images mf @ [img]\<rparr>))
       else io_return mf) (\<lambda>mf.
     io_bind (if g_str_has_prefix g ''meta.'' then
         io_bind (parse_meta g (mf_meta mf)) (\<lambda>meta. io_return (mf\<lparr>mf_meta := meta\<rparr>))
       else io_return mf) (\<lambda>mf.
       parse_manifest_groups gs mf))"

definition parse_manifest :: "rauc_manifest kf_parser" where
  "parse_manifest =
     io_bind (parse_update manifest_new0) (\<lambda>mf.
     io_bind (parse_bundle mf) (\<lambda>mf.
     io_bind (parse_handler mf) (\<lambda>mf.
     io_bind (parse_hooks mf) (\<lambda>mf.
     io_bind (kf_query (\<lambda>kf. Ok (g_key_file_get_groups kf))) (\<lambda>groups.
     io_bind (parse_manifest_groups groups mf) (\<lambda>mf.
     io_bind (remove_group ''rollout'') (\<lambda>_.
     io_bind (kf_query check_remaining_groups) (\<lambda>_. io_return mf))))))))"

text \<open>\<open>load\<close> is \<open>g_key_file_load_from_data\<close>, \<open>sha256\<close> is \<open>g_compute_checksum_for_data\<close>.\<close>

definition load_manifest_mem ::
    "(string \<Rightarrow> key_file result) \<Rightarrow> (string \<Rightarrow> string) \<Rightarrow> string option \<Rightarrow> rauc_manifest result" where
  "load_manifest_mem load sha256 mem = (case mem of
      None \<Rightarrow> Error (R_MANIFEST_ERROR R_MANIFEST_ERROR_NO_DATA)
    | Some data \<Rightarrow>
        result_bind (load data) (\<lambda>kf.
        result_bind (fst (parse_manifest kf)) (\<lambda>mf. Ok (mf\<lparr>mf_hash := Some (sha256 data)\<rparr>))))"

definition load_manifest_file ::
    "'w os \<Rightarrow> (string \<Rightarrow> key_file result) \<Rightarrow> (string \<Rightarrow> string) \<Rightarrow> string \<Rightarrow> 'w \<Rightarrow> rauc_manifest result" where
  "load_manifest_file os load sha256 filename w =
     result_bind (os_read_file os filename w) (\<lambda>data.
     result_bind (load data) (\<lambda>kf.
     result_bind (fst (parse_manifest kf)) (\<lambda>mf. Ok (mf\<lparr>mf_hash := Some (sha256 data)\<rparr>))))"

subsection \<open>Checks\<close>

abbreviation check_error :: gerror where
  "check_error \<equiv> R_MANIFEST_ERROR R_MANIFEST_CHECK_ERROR"

text \<open>\<open>r_semver_less_equal\<close> with the error ignored: FALSE when a version does not parse.\<close>

definition semver_le :: "string \<Rightarrow> string \<Rightarrow> bool" where
  "semver_le a b \<longleftrightarrow> r_semver_less_equal a b = Ok True"

definition has_hooks :: "rauc_image \<Rightarrow> bool" where
  "has_hooks img \<longleftrightarrow> hook_pre_install (img_hooks img) \<or> hooks_install img \<or> hook_post_install (img_hooks img)"

text \<open>\<open>version\<close> is \<open>RAUC_MESON_VERSION\<close>, which the build generates.\<close>

definition check_min_rauc_version :: "string \<Rightarrow> string \<Rightarrow> unit result" where
  "check_min_rauc_version version v =
     result_bind (fail_if (\<not> semver_le ''0'' v) check_error) (\<lambda>_.
     result_bind (fail_if (\<not> semver_le v version) check_error) (\<lambda>_.
       fail_if (semver_le v ''1.13'') check_error))"

definition check_manifest_common :: "string \<Rightarrow> rauc_manifest \<Rightarrow> unit result" where
  "check_manifest_common version mf =
     result_bind (case mf_update_min_rauc_version mf of None \<Rightarrow> Ok () | Some v \<Rightarrow> check_min_rauc_version version v) (\<lambda>_.
       fail_if ((mf_install_check mf \<or> list_ex has_hooks (mf_images mf)) \<and> mf_hook_name mf = None) check_error)"

fun check_manifest_plain_images :: "rauc_image list \<Rightarrow> unit result" where
  "check_manifest_plain_images [] = Ok ()"
| "check_manifest_plain_images (img # imgs) =
     result_bind (fail_if (img_artifact img \<noteq> None) check_error) (\<lambda>_.
     result_bind (fail_if (img_convert img \<noteq> None \<or>
         (case img_converted img of None \<Rightarrow> False | Some cs \<Rightarrow> length cs \<noteq> 0)) check_error) (\<lambda>_.
       check_manifest_plain_images imgs))"

definition check_manifest_plain :: "rauc_manifest \<Rightarrow> unit result" where
  "check_manifest_plain mf =
     (if mf_bundle_format mf \<noteq> R_MANIFEST_FORMAT_PLAIN then Abort
      else check_manifest_plain_images (mf_images mf))"

text \<open>The check for one image of a bundled manifest; it gives a missing size the value 0 when the
  image has an install hook.\<close>

definition check_bundled_image :: "rauc_image \<Rightarrow> rauc_image result" where
  "check_bundled_image img =
     (if img_filename img = None then Ok img
      else
        result_bind (fail_if (cs_type (img_checksum img) \<noteq> G_CHECKSUM_SHA256) check_error) (\<lambda>_.
        result_bind (fail_if (cs_digest (img_checksum img) = None) check_error) (\<lambda>_.
        result_bind (if sint (cs_size (img_checksum img)) < 0 then
            (if hooks_install img then Ok (img\<lparr>img_checksum := (img_checksum img)\<lparr>cs_size := 0\<rparr>\<rparr>)
             else Error check_error)
          else Ok img) (\<lambda>img.
        result_bind (case img_convert img of
            None \<Rightarrow> Ok ()
          | Some conv \<Rightarrow> (case img_converted img of
              None \<Rightarrow> Error check_error
            | Some cs \<Rightarrow> fail_if (length conv \<noteq> length cs) check_error)) (\<lambda>_.
          Ok img)))))"

fun check_bundled_images :: "rauc_image list \<Rightarrow> rauc_image list result" where
  "check_bundled_images [] = Ok []"
| "check_bundled_images (img # imgs) =
     result_bind (check_bundled_image img) (\<lambda>img.
     result_bind (check_bundled_images imgs) (\<lambda>imgs. Ok (img # imgs)))"

definition check_manifest_bundled :: "rauc_manifest \<Rightarrow> rauc_manifest result" where
  "check_manifest_bundled mf =
     result_bind (check_bundled_images (mf_images mf)) (\<lambda>imgs. Ok (mf\<lparr>mf_images := imgs\<rparr>))"

fun check_input_images :: "rauc_image list \<Rightarrow> unit result" where
  "check_input_images [] = Ok ()"
| "check_input_images (img # imgs) =
     result_bind (fail_if (case img_filename img of None \<Rightarrow> False | Some f \<Rightarrow> CHR ''/'' \<in> set f) check_error) (\<lambda>_.
     result_bind (fail_if (cs_digest (img_checksum img) \<noteq> None) check_error) (\<lambda>_.
     result_bind (fail_if (cs_size (img_checksum img) \<noteq> - 1) check_error) (\<lambda>_.
     result_bind (fail_if (case img_converted img of None \<Rightarrow> False | Some cs \<Rightarrow> length cs \<noteq> 0) check_error) (\<lambda>_.
       check_input_images imgs))))"

definition check_manifest_input :: "string \<Rightarrow> rauc_manifest \<Rightarrow> unit result" where
  "check_manifest_input version mf =
     result_bind (check_manifest_common version mf) (\<lambda>_.
     result_bind (if mf_bundle_format mf = R_MANIFEST_FORMAT_PLAIN then check_manifest_plain mf else Ok ()) (\<lambda>_.
       check_input_images (mf_images mf)))"

definition check_manifest_internal :: "string \<Rightarrow> rauc_manifest \<Rightarrow> rauc_manifest result" where
  "check_manifest_internal version mf =
     result_bind (check_manifest_common version mf) (\<lambda>_.
     result_bind (fail_if (mf_bundle_format mf \<noteq> R_MANIFEST_FORMAT_PLAIN) check_error) (\<lambda>_.
     result_bind (check_manifest_bundled mf) (\<lambda>mf.
     result_bind (check_manifest_plain mf) (\<lambda>_.
     result_bind (fail_if (mf_bundle_crypt_key mf \<noteq> None) check_error) (\<lambda>_.
     result_bind (fail_if (mf_bundle_verity_hash mf \<noteq> None) check_error) (\<lambda>_.
     result_bind (fail_if (mf_bundle_verity_salt mf \<noteq> None) check_error) (\<lambda>_.
     result_bind (fail_if (mf_bundle_verity_size mf \<noteq> 0) check_error) (\<lambda>_. Ok mf))))))))"

text \<open>A hexadecimal value of 32 bytes.\<close>

definition check_hex32 :: "string option \<Rightarrow> unit result" where
  "check_hex32 s = (case s of
      None \<Rightarrow> Error check_error
    | Some h \<Rightarrow> fail_if (r_hex_decode h 32 = None) check_error)"

definition check_verity :: "rauc_manifest \<Rightarrow> unit result" where
  "check_verity mf =
     result_bind (check_hex32 (mf_bundle_verity_hash mf)) (\<lambda>_.
     result_bind (check_hex32 (mf_bundle_verity_salt mf)) (\<lambda>_.
     result_bind (fail_if (mf_bundle_verity_size mf = 0) check_error) (\<lambda>_.
       fail_if (mf_bundle_verity_size mf mod 4096 \<noteq> 0) check_error)))"

definition check_manifest_external :: "string \<Rightarrow> rauc_manifest \<Rightarrow> rauc_manifest result" where
  "check_manifest_external version mf =
     result_bind (check_manifest_common version mf) (\<lambda>_.
     result_bind (case mf_bundle_format mf of
         R_MANIFEST_FORMAT_PLAIN \<Rightarrow> Error check_error
       | R_MANIFEST_FORMAT_CRYPT \<Rightarrow> result_bind (check_hex32 (mf_bundle_crypt_key mf)) (\<lambda>_. check_verity mf)
       | R_MANIFEST_FORMAT_VERITY \<Rightarrow> check_verity mf) (\<lambda>_.
       check_manifest_bundled mf))"

definition check_manifest_create :: "rauc_manifest \<Rightarrow> unit result" where
  "check_manifest_create mf =
     fail_if (list_ex (\<lambda>img. hooks_install img \<and>
         (hook_pre_install (img_hooks img) \<or> hook_post_install (img_hooks img))) (mf_images mf)) check_error"

subsection \<open>Printing\<close>

definition set_string_opt :: "string \<Rightarrow> string \<Rightarrow> string option \<Rightarrow> key_file \<Rightarrow> key_file" where
  "set_string_opt g k v kf = (case v of None \<Rightarrow> kf | Some s \<Rightarrow> g_key_file_set_string kf g k s)"

definition set_list_opt :: "string \<Rightarrow> string \<Rightarrow> string list option \<Rightarrow> key_file \<Rightarrow> key_file" where
  "set_list_opt g k v kf = (case v of None \<Rightarrow> kf | Some xs \<Rightarrow> g_key_file_set_string_list kf g k xs)"

definition nonempty_list :: "string list \<Rightarrow> string list option" where
  "nonempty_list xs = (if xs = [] then None else Some xs)"

definition prepare_bundle :: "rauc_manifest \<Rightarrow> key_file \<Rightarrow> key_file" where
  "prepare_bundle mf kf =
     (let verity = (\<lambda>kf.
        let kf = g_key_file_set_string kf ''bundle'' ''format'' (r_manifest_bundle_format_to_str (mf_bundle_format mf));
            kf = set_string_opt ''bundle'' ''verity-hash'' (mf_bundle_verity_hash mf) kf;
            kf = set_string_opt ''bundle'' ''verity-salt'' (mf_bundle_verity_salt mf) kf
        in if mf_bundle_verity_size mf \<noteq> 0
           then g_key_file_set_uint64 kf ''bundle'' ''verity-size'' (mf_bundle_verity_size mf) else kf)
      in case mf_bundle_format mf of
        R_MANIFEST_FORMAT_PLAIN \<Rightarrow>
          if mf_bundle_format_explicit mf then g_key_file_set_string kf ''bundle'' ''format'' ''plain'' else kf
      | R_MANIFEST_FORMAT_CRYPT \<Rightarrow> verity (set_string_opt ''bundle'' ''crypt-key'' (mf_bundle_crypt_key mf) kf)
      | R_MANIFEST_FORMAT_VERITY \<Rightarrow> verity kf)"

definition image_group :: "rauc_image \<Rightarrow> string \<Rightarrow> string" where
  "image_group img slotclass = ''image.'' @ slotclass
     @ (case img_artifact img of None \<Rightarrow> [] | Some a \<Rightarrow> ''/'' @ a)
     @ (case img_variant img of None \<Rightarrow> [] | Some v \<Rightarrow> ''.'' @ v)"

definition hooklist :: "slot_hooks \<Rightarrow> string list" where
  "hooklist h = (if hook_pre_install h then [''pre-install''] else [])
     @ (if hook_install h then [''install''] else [])
     @ (if hook_post_install h then [''post-install''] else [])"

definition prepare_image :: "rauc_image \<Rightarrow> key_file \<Rightarrow> key_file" where
  "prepare_image img kf = (case img_slotclass img of
      None \<Rightarrow> kf
    | Some slotclass \<Rightarrow>
        let grp = image_group img slotclass;
            kf = (if cs_type (img_checksum img) = G_CHECKSUM_SHA256
                  then set_string_opt grp ''sha256'' (cs_digest (img_checksum img)) kf else kf);
            kf = (if sint (cs_size (img_checksum img)) \<ge> 0
                  then g_key_file_set_uint64 kf grp ''size'' (cs_size (img_checksum img)) else kf);
            kf = set_string_opt grp ''filename'' (img_filename img) kf;
            kf = (if img_type_from_fileext img then kf else set_string_opt grp ''type'' (img_type img) kf);
            kf = set_list_opt grp ''hooks'' (nonempty_list (hooklist (img_hooks img))) kf;
            kf = set_list_opt grp ''adaptive'' (img_adaptive img) kf;
            kf = set_list_opt grp ''convert'' (img_convert img) kf
        in set_list_opt grp ''converted'' (case img_converted img of None \<Rightarrow> None | Some cs \<Rightarrow> nonempty_list cs) kf)"

definition prepare_meta :: "string \<times> (string \<times> string) list \<Rightarrow> key_file \<Rightarrow> key_file" where
  "prepare_meta m kf = (case m of (label, kvs) \<Rightarrow>
     fold (\<lambda>(k, v) kf. g_key_file_set_string kf (''meta.'' @ label) k v) kvs kf)"

definition prepare_manifest :: "rauc_manifest \<Rightarrow> key_file" where
  "prepare_manifest mf =
     (let kf = set_string_opt ''update'' ''compatible'' (mf_update_compatible mf) [];
          kf = set_string_opt ''update'' ''version'' (mf_update_version mf) kf;
          kf = set_string_opt ''update'' ''description'' (mf_update_description mf) kf;
          kf = set_string_opt ''update'' ''build'' (mf_update_build mf) kf;
          kf = prepare_bundle mf kf;
          kf = set_string_opt ''handler'' ''filename'' (mf_handler_name mf) kf;
          kf = set_string_opt ''handler'' ''args'' (mf_handler_args mf) kf;
          kf = set_string_opt ''hooks'' ''filename'' (mf_hook_name mf) kf;
          kf = (if mf_install_check mf then g_key_file_set_string_list kf ''hooks'' ''hooks'' [''install-check''] else kf);
          kf = fold prepare_image (mf_images mf) kf
      in fold prepare_meta (mf_meta mf) kf)"

subsection \<open>Images of the manifest\<close>

definition r_manifest_has_artifact_image :: "rauc_manifest \<Rightarrow> string option \<Rightarrow> string option \<Rightarrow> bool" where
  "r_manifest_has_artifact_image mf repo artifact =
     (if repo = None \<and> artifact \<noteq> None then False
      else list_ex (\<lambda>img. img_artifact img \<noteq> None \<and> (repo = None \<or> repo = img_slotclass img) \<and>
             (artifact = None \<or> artifact = img_artifact img)) (mf_images mf))"

fun update_image_checksums ::
    "'c gchecksum \<Rightarrow> 'w reader \<Rightarrow> string \<Rightarrow> 'w \<Rightarrow> rauc_image list \<Rightarrow> rauc_image list result" where
  "update_image_checksums gc reader dir w [] = Ok []"
| "update_image_checksums gc reader dir w (img # imgs) =
     result_bind (case img_filename img of
         None \<Rightarrow> Ok (img\<lparr>img_checksum := (img_checksum img)\<lparr>cs_size := - 1\<rparr>\<rparr>)
       | Some f \<Rightarrow> (case compute_checksum gc reader (img_checksum img) (g_build_filename dir f) w of
           Ok cs \<Rightarrow> Ok (img\<lparr>img_checksum := cs\<rparr>)
         | Error e \<Rightarrow> Error (R_MANIFEST_ERROR R_MANIFEST_ERROR_CHECKSUM)
         | Abort \<Rightarrow> Abort)) (\<lambda>img.
     result_bind (update_image_checksums gc reader dir w imgs) (\<lambda>imgs. Ok (img # imgs)))"

definition update_manifest_checksums ::
    "'c gchecksum \<Rightarrow> 'w reader \<Rightarrow> rauc_manifest \<Rightarrow> string \<Rightarrow> 'w \<Rightarrow> rauc_manifest result" where
  "update_manifest_checksums gc reader mf dir w =
     result_bind (update_image_checksums gc reader dir w (mf_images mf)) (\<lambda>imgs. Ok (mf\<lparr>mf_images := imgs\<rparr>))"

definition sync_manifest_with_contentdir ::
    "'w os \<Rightarrow> 'c gchecksum \<Rightarrow> 'w reader \<Rightarrow> rauc_manifest \<Rightarrow> string \<Rightarrow> 'w \<Rightarrow> rauc_manifest result" where
  "sync_manifest_with_contentdir os gc reader mf dir w =
     (let path = (\<lambda>f. case f of None \<Rightarrow> dir | Some f \<Rightarrow> g_build_filename dir f) in
      result_bind (fail_if (\<not> list_all (\<lambda>img. os_file_exists os (path (img_filename img)) w) (mf_images mf))
          (R_MANIFEST_ERROR R_MANIFEST_ERROR_CHECKSUM)) (\<lambda>_.
      result_bind (fail_if (case mf_hook_name mf of None \<Rightarrow> False | Some h \<Rightarrow> \<not> os_file_exists os (path (Some h)) w)
          (R_MANIFEST_ERROR R_MANIFEST_ERROR_CHECKSUM)) (\<lambda>_.
        update_manifest_checksums gc reader mf dir w)))"

end
