(* ===== verification/Install.thy ===== *)
theory Install
  imports Mark Manifest
begin

text \<open>
  The decisions of an installation (\<open>src/src/install.c\<close>): which slots are booted, active and
  inactive, which slots form the target group, which image goes to which slot, and the checks
  before anything is written.

  The slot table is shared mutable state (see \<open>Mount\<close>); slot pointers are slot names. A
  configuration with slots is loaded, so the \<open>slots == NULL\<close> error of \<open>determine_slot_states\<close>
  does not occur.
\<close>

subsection \<open>Mounted slots\<close>

text \<open>The first match of the regular expression \<open>/dev/(loop\d+)(p\d+)?\<close>: its first group.\<close>

fun match_loop :: "string \<Rightarrow> string option" where
  "match_loop [] = None"
| "match_loop (c # cs) =
     (if g_str_has_prefix (c # cs) ''/dev/loop'' \<and> takeWhile g_ascii_isdigit (drop 9 (c # cs)) \<noteq> []
      then Some (''loop'' @ takeWhile g_ascii_isdigit (drop 9 (c # cs)))
      else match_loop cs)"

definition resolve_loop_device :: "'w os \<Rightarrow> string \<Rightarrow> 'w \<Rightarrow> string result" where
  "resolve_loop_device os devicepath w = (case match_loop devicepath of
      None \<Rightarrow> Ok devicepath
    | Some name \<Rightarrow>
        result_bind (os_read_file os (''/sys/block/'' @ name @ ''/loop/backing_file'') w) (\<lambda>content.
          Ok (g_strchomp content)))"

text \<open>\<open>mounts\<close> is \<open>g_unix_mounts_get\<close>: device and mount path of every entry, in order.\<close>

fun assign_mount_points :: "'w os \<Rightarrow> 'w \<Rightarrow> (string \<times> string) list \<Rightarrow> slots \<Rightarrow> slots result" where
  "assign_mount_points os w [] slots = Ok slots"
| "assign_mount_points os w ((dev, path) # ms) slots =
     result_bind (resolve_loop_device os dev w) (\<lambda>devicepath.
       case r_slot_find_by_device slots devicepath of
         None \<Rightarrow> assign_mount_points os w ms slots
       | Some s \<Rightarrow>
           if slot_ext_mount_point s \<noteq> None then assign_mount_points os w ms slots
           else assign_mount_points os w ms
             (slot_update slots (slot_name s) (\<lambda>s. s\<lparr>slot_ext_mount_point := Some path\<rparr>)))"

definition update_external_mount_points :: "'w os \<Rightarrow> ('w \<Rightarrow> (string \<times> string) list) \<Rightarrow> ('w sys, unit) io" where
  "update_external_mount_points os mounts s =
     (let slots = map (\<lambda>s. s\<lparr>slot_ext_mount_point := None\<rparr>) (fst s) in
      case assign_mount_points os (snd s) (mounts (snd s)) slots of
        Ok slots' \<Rightarrow> (Ok (), (slots', snd s))
      | Error e \<Rightarrow> (Error e, (slots, snd s))
      | Abort \<Rightarrow> (Abort, (slots, snd s)))"

subsection \<open>Slot states\<close>

definition slot_is_bootslot :: "'w os \<Rightarrow> string \<Rightarrow> 'w \<Rightarrow> rauc_slot \<Rightarrow> bool" where
  "slot_is_bootslot os bootslot w s \<longleftrightarrow>
     slot_bootname s = Some bootslot \<or> slot_name s = bootslot \<or>
     (case os_realpath os (slot_device s) w of None \<Rightarrow> slot_device s | Some d \<Rightarrow> d) = bootslot"

definition slot_state_for :: "rauc_slot \<Rightarrow> rauc_slot \<Rightarrow> slot_state" where
  "slot_state_for booted s =
     (if slot_name s = slot_name booted then ST_BOOTED
      else if slot_parent s = Some (slot_name booted) then ST_ACTIVE
      else ST_INACTIVE)"

definition determine_slot_states :: "'w os \<Rightarrow> string option \<Rightarrow> ('w sys, unit) io" where
  "determine_slot_states os bootslot s = (case bootslot of
      None \<Rightarrow> (Error (R_SLOT_ERROR R_SLOT_ERROR_NO_BOOTSLOT), s)
    | Some b \<Rightarrow> (case find (slot_is_bootslot os b (snd s)) (fst s) of
        None \<Rightarrow>
          if b = ''_external_''
          then (Ok (), (map (\<lambda>s. s\<lparr>slot_state := ST_INACTIVE\<rparr>) (fst s), snd s))
          else (Error (R_SLOT_ERROR R_SLOT_ERROR_NO_SLOT_WITH_STATE_BOOTED), s)
      | Some booted \<Rightarrow>
          (Ok (), (map (\<lambda>s. s\<lparr>slot_state := slot_state_for booted s\<rparr>) (fst s), snd s))))"

text \<open>The loop over the slots with a bootname; failures are logged and counted. A failure without
  an error set dereferences NULL.\<close>

fun boot_states_loop :: "'w os \<Rightarrow> rauc_config \<Rightarrow> string list \<Rightarrow> bool \<Rightarrow> ('w sys, bool) io" where
  "boot_states_loop os cfg [] had_errors = io_return had_errors"
| "boot_states_loop os cfg (n # ns) had_errors =
     io_bind (get_slot n) (\<lambda>slot.
       if slot_bootname slot = None then boot_states_loop os cfg ns had_errors
       else io_bind (io_warn (in_world (r_boot_get_state os cfg slot))) (\<lambda>r. case r of
           None \<Rightarrow> boot_states_loop os cfg ns True
         | Some good \<Rightarrow>
             io_bind (modify_slot n (\<lambda>s. s\<lparr>slot_boot_good := good\<rparr>)) (\<lambda>_. boot_states_loop os cfg ns had_errors)))"

definition determine_boot_states :: "'w os \<Rightarrow> rauc_config \<Rightarrow> ('w sys, unit) io" where
  "determine_boot_states os cfg =
     io_bind get_slots (\<lambda>slots.
     io_bind (boot_states_loop os cfg (map slot_name slots) False) (\<lambda>had_errors.
       if had_errors then io_fail (R_SLOT_ERROR R_SLOT_ERROR_NO_SLOT_WITH_STATE_BOOTED) else io_return ()))"

subsection \<open>The target group\<close>

definition older_candidate :: "rauc_slot \<Rightarrow> int \<Rightarrow> (rauc_slot \<times> int) option \<Rightarrow> (rauc_slot \<times> int) option" where
  "older_candidate s t candidate = (case candidate of
      None \<Rightarrow> Some (s, t)
    | Some (c, tc) \<Rightarrow> if t < tc then Some (s, t) else Some (c, tc))"

fun select_member_loop :: "bool \<Rightarrow> string \<Rightarrow> slots \<Rightarrow> (rauc_slot \<times> int) option \<Rightarrow> rauc_slot option result" where
  "select_member_loop per_slot rootclass [] candidate = Ok (map_option fst candidate)"
| "select_member_loop per_slot rootclass (s # ss) candidate =
     (if slot_state s \<noteq> ST_INACTIVE then select_member_loop per_slot rootclass ss candidate
      else if slot_sclass s \<noteq> rootclass then select_member_loop per_slot rootclass ss candidate
      else if per_slot then Ok (Some s)
      else case slot_status s of
        None \<Rightarrow> Abort
      | Some st \<Rightarrow>
          if st_status st = Some ''failed'' then Ok (Some s)
          else (case st_installed_timestamp st of
            None \<Rightarrow> Ok (Some s)
          | Some t \<Rightarrow>
              select_member_loop per_slot rootclass ss (older_candidate s t candidate)))"

definition select_inactive_slot_class_member :: "rauc_config \<Rightarrow> slots \<Rightarrow> string \<Rightarrow> rauc_slot option result" where
  "select_inactive_slot_class_member cfg slots rootclass =
     select_member_loop (cfg_statusfile_path cfg = Some ''per-slot'') rootclass slots None"

fun select_roots :: "rauc_config \<Rightarrow> slots \<Rightarrow> string list \<Rightarrow> slots result" where
  "select_roots cfg slots [] = Ok []"
| "select_roots cfg slots (c # cs) =
     result_bind (select_inactive_slot_class_member cfg slots c) (\<lambda>selected.
     result_bind (select_roots cfg slots cs) (\<lambda>rest.
       Ok (case selected of None \<Rightarrow> rest | Some s \<Rightarrow> s # rest)))"

text \<open>The mapping from slot classes to target slots; \<open>Abort\<close> stands for a search for the parent
  root that does not end.\<close>

type_synonym target_group = "(string \<times> string) list"

fun collect_group :: "slots \<Rightarrow> slots \<Rightarrow> slots \<Rightarrow> target_group \<Rightarrow> target_group result" where
  "collect_group slots roots [] tg = Ok tg"
| "collect_group slots roots (s # ss) tg = (case r_slot_get_parent_root slots s of
      None \<Rightarrow> Abort
    | Some parent \<Rightarrow>
        collect_group slots roots ss
          (if r_slot_list_contains roots parent then AList.update (slot_sclass s) (slot_name s) tg else tg))"

definition determine_target_install_group :: "rauc_config \<Rightarrow> slots \<Rightarrow> target_group result" where
  "determine_target_install_group cfg slots =
     result_bind (select_roots cfg slots (r_slot_get_root_classes slots)) (\<lambda>roots.
       collect_group slots roots slots [])"

subsection \<open>Installation plans\<close>

record install_plan =
  plan_image :: rauc_image
  plan_target_slot :: "string option"
  plan_slot_handler :: "img_to_slot_handler option"
  plan_target_repo :: "string option"

fun get_all_manifest_slot_classes_loop :: "rauc_image list \<Rightarrow> string list \<Rightarrow> string list result" where
  "get_all_manifest_slot_classes_loop [] acc = Ok acc"
| "get_all_manifest_slot_classes_loop (img # imgs) acc = (case img_slotclass img of
      None \<Rightarrow> Abort
    | Some c \<Rightarrow>
        get_all_manifest_slot_classes_loop imgs
          (if img_artifact img \<noteq> None then acc else ptr_array_add_unique c acc))"

definition get_all_manifest_slot_classes :: "rauc_manifest \<Rightarrow> string list result" where
  "get_all_manifest_slot_classes mf = get_all_manifest_slot_classes_loop (mf_images mf) []"

text \<open>The image for a class: the first one for the system's variant, or else the first one without
  a variant.\<close>

fun select_image :: "string option \<Rightarrow> string \<Rightarrow> rauc_image list \<Rightarrow> rauc_image option \<Rightarrow> rauc_image option" where
  "select_image variant cls [] matching = matching"
| "select_image variant cls (img # imgs) matching =
     (if img_slotclass img \<noteq> Some cls then select_image variant cls imgs matching
      else case img_variant img of
        None \<Rightarrow> select_image variant cls imgs (if matching = None then Some img else matching)
      | Some v \<Rightarrow> if variant = Some v then Some img else select_image variant cls imgs matching)"

definition get_update_handler :: "rauc_image \<Rightarrow> rauc_slot \<Rightarrow> img_to_slot_handler result" where
  "get_update_handler img dest_slot =
     (if hooks_install img then Ok hook_install_handler
      else case Option.bind (img_type img) (\<lambda>t. get_handler_from_type t (slot_type dest_slot)) of
        None \<Rightarrow> Error (R_UPDATE_ERROR R_UPDATE_ERROR_NO_HANDLER)
      | Some h \<Rightarrow> Ok h)"

definition make_slot_plan :: "rauc_config \<Rightarrow> slots \<Rightarrow> rauc_manifest \<Rightarrow> target_group \<Rightarrow> string \<Rightarrow> install_plan result" where
  "make_slot_plan cfg slots mf tg cls =
     (case select_image (cfg_system_variant cfg) cls (mf_images mf) None of
        None \<Rightarrow> Error (R_INSTALL_ERROR R_INSTALL_ERROR_FAILED)
      | Some img \<Rightarrow> (case map_of tg cls of
          None \<Rightarrow> Error (R_INSTALL_ERROR R_INSTALL_ERROR_FAILED)
        | Some n \<Rightarrow> (case slot_lookup slots n of
            None \<Rightarrow> Abort
          | Some slot \<Rightarrow>
              if slot_readonly slot then Error (R_INSTALL_ERROR R_INSTALL_ERROR_FAILED)
              else result_bind (get_update_handler img slot) (\<lambda>h.
                Ok \<lparr>plan_image = img, plan_target_slot = Some n, plan_slot_handler = Some h, plan_target_repo = None\<rparr>))))"

fun make_slot_plans :: "rauc_config \<Rightarrow> slots \<Rightarrow> rauc_manifest \<Rightarrow> target_group \<Rightarrow> string list \<Rightarrow> install_plan list result" where
  "make_slot_plans cfg slots mf tg [] = Ok []"
| "make_slot_plans cfg slots mf tg (c # cs) =
     result_bind (make_slot_plan cfg slots mf tg c) (\<lambda>p.
     result_bind (make_slot_plans cfg slots mf tg cs) (\<lambda>ps. Ok (p # ps)))"

text \<open>\<open>repos\<close>: the configured artifact repositories, name and path.\<close>

fun make_artifact_plans :: "(string \<times> string) list \<Rightarrow> rauc_image list \<Rightarrow> install_plan list result" where
  "make_artifact_plans repos [] = Ok []"
| "make_artifact_plans repos (img # imgs) =
     (if img_artifact img = None then make_artifact_plans repos imgs
      else case img_slotclass img of
        None \<Rightarrow> Abort
      | Some r \<Rightarrow>
          if map_of repos r = None then Error (R_INSTALL_ERROR R_INSTALL_ERROR_FAILED)
          else result_bind (make_artifact_plans repos imgs) (\<lambda>ps.
            Ok (\<lparr>plan_image = img, plan_target_slot = None, plan_slot_handler = None, plan_target_repo = Some r\<rparr> # ps)))"

text \<open>The artifact repositories (\<open>src/src/artifacts.c\<close>), as the installer uses them.\<close>

record 'w artifact_ops =
  art_repos :: "(string \<times> string) list"
  art_init :: "('w sys, unit) io"
  art_prune :: "('w sys, unit) io"
  art_install :: "rauc_manifest \<Rightarrow> install_plan \<Rightarrow> ('w sys, unit) io"

definition r_install_make_plans :: "'w artifact_ops \<Rightarrow> rauc_config \<Rightarrow> rauc_manifest \<Rightarrow> target_group
    \<Rightarrow> ('w sys, install_plan list) io" where
  "r_install_make_plans arts cfg mf tg =
     io_bind (io_lift (get_all_manifest_slot_classes mf)) (\<lambda>classes.
     io_bind get_slots (\<lambda>slots.
     io_bind (io_lift (make_slot_plans cfg slots mf tg classes)) (\<lambda>slot_plans.
     io_bind (art_init arts) (\<lambda>_.
     io_bind (art_prune arts) (\<lambda>_.
     io_bind (io_lift (make_artifact_plans (art_repos arts) (mf_images mf))) (\<lambda>artifact_plans.
       if slot_plans @ artifact_plans = [] then io_fail (R_INSTALL_ERROR R_INSTALL_ERROR_FAILED)
       else io_return (slot_plans @ artifact_plans)))))))"

end
