(* ===== verification/Install_Target.thy ===== *)
theory Install_Target
  imports Install
begin

text \<open>
  The choice of the target slots is safe: no slot of the running system is ever written.
\<close>

subsection \<open>Slot states\<close>

lemma slots_wf_update_map:
  assumes "slots_wf slots" and "\<And>s. slot_name (f s) = slot_name s" and "\<And>s. slot_bootname (f s) = slot_bootname s"
    and "\<And>s. slot_parent (f s) = slot_parent s"
  shows "slots_wf (map f slots)"
proof -
  have look: "slot_lookup (map f slots) n = map_option f (slot_lookup slots n)" for n
    using assms(2) by (induction slots) (auto simp: slot_lookup_def)
  have "bootnames (map f slots) = bootnames slots"
    using assms(3) by (simp add: bootnames_def comp_def)
  moreover have "map (slot_name \<circ> f) slots = map slot_name slots" using assms(2) by simp
  moreover have "parent_ok (map f slots) (f s) = parent_ok slots s" for s
    using assms(3,4) by (simp add: parent_ok_def look split: option.splits)
  ultimately show ?thesis using assms(1) by (simp add: slots_wf_def list_all_iff del: map_eq_conv)
qed

lemma slots_wf_states: "slots_wf slots \<Longrightarrow> slots_wf (map (\<lambda>s. s\<lparr>slot_state := g s\<rparr>) slots)"
  by (rule slots_wf_update_map) simp_all

text \<open>The states of a table in which a slot is booted.\<close>

definition states_for :: "rauc_slot \<Rightarrow> slots \<Rightarrow> bool" where
  "states_for booted slots \<longleftrightarrow> (\<forall>s\<in>set slots. slot_state s = slot_state_for booted s)"

lemma determine_slot_states_Ok:
  assumes "determine_slot_states os bootslot s = (Ok (), s')"
  shows "snd s' = snd s \<and>
    ((\<exists>booted\<in>set (fst s'). states_for booted (fst s')) \<or> (\<forall>t\<in>set (fst s'). slot_state t = ST_INACTIVE))"
proof -
  obtain b where b: "bootslot = Some b"
    using assms by (auto simp: determine_slot_states_def split: option.splits)
  show ?thesis
  proof (cases "find (slot_is_bootslot os b (snd s)) (fst s)")
    case None
    then show ?thesis using assms b by (auto simp: determine_slot_states_def split: if_splits)
  next
    case (Some t)
    then have t: "t \<in> set (fst s)" by (auto simp: find_Some_iff)
    have s': "s' = (map (\<lambda>u. u\<lparr>slot_state := slot_state_for t u\<rparr>) (fst s), snd s)"
      using assms b Some by (simp add: determine_slot_states_def)
    have "slot_state_for t u = slot_state_for (t\<lparr>slot_state := st\<rparr>) (u\<lparr>slot_state := st'\<rparr>)" for u st st'
      by (simp add: slot_state_for_def)
    then have "states_for (t\<lparr>slot_state := slot_state_for t t\<rparr>) (fst s')"
      by (auto simp: s' states_for_def)
    moreover have "t\<lparr>slot_state := slot_state_for t t\<rparr> \<in> set (fst s')" using t by (auto simp: s')
    ultimately show ?thesis using s' by auto
  qed
qed

lemma determine_slot_states_wf:
  assumes "determine_slot_states os bootslot s = (Ok (), s')" and "slots_wf (fst s)"
  shows "slots_wf (fst s')"
  using assms slots_wf_states [OF assms(2)]
  by (auto simp: determine_slot_states_def split: option.splits if_splits)

lemma slot_state_for_iff:
  "slot_state_for b s = ST_BOOTED \<longleftrightarrow> slot_name s = slot_name b"
  "slot_state_for b s = ST_ACTIVE \<longleftrightarrow> slot_name s \<noteq> slot_name b \<and> slot_parent s = Some (slot_name b)"
  by (auto simp: slot_state_for_def)

subsection \<open>Selecting a member\<close>

definition inactive_member :: "slots \<Rightarrow> string \<Rightarrow> rauc_slot \<Rightarrow> bool" where
  "inactive_member slots c s \<longleftrightarrow> s \<in> set slots \<and> slot_state s = ST_INACTIVE \<and> slot_sclass s = c"

definition installed_at :: "rauc_slot \<Rightarrow> int option" where
  "installed_at s = Option.bind (slot_status s) st_installed_timestamp"

definition needs_update :: "rauc_slot \<Rightarrow> bool" where
  "needs_update s \<longleftrightarrow> (case slot_status s of None \<Rightarrow> False | Some st \<Rightarrow>
     st_status st = Some ''failed'' \<or> st_installed_timestamp st = None)"

lemma older_candidate_Some:
  assumes "older_candidate s t cand = Some (u, tu)"
  shows "(u = s \<and> tu = t \<or> cand = Some (u, tu)) \<and> tu \<le> t \<and> (\<forall>v tv. cand = Some (v, tv) \<longrightarrow> tu \<le> tv)"
  using assms by (auto simp: older_candidate_def split: option.splits if_splits)

lemma older_candidate_exists: "\<exists>u tu. older_candidate s t cand = Some (u, tu)"
  by (auto simp: older_candidate_def split: option.splits)

text \<open>One step of the loop at a member of the class.\<close>

lemma select_member_loop_skip:
  "\<not> (slot_state x = ST_INACTIVE \<and> slot_sclass x = c) \<Longrightarrow>
     select_member_loop ps c (x # ss) cand = select_member_loop ps c ss cand"
  by auto

lemma select_member_loop_step:
  assumes "slot_state x = ST_INACTIVE" "slot_sclass x = c" "select_member_loop False c (x # ss) cand = Ok r"
  shows "needs_update x \<and> r = Some x \<or>
    (\<exists>t. installed_at x = Some t \<and> select_member_loop False c ss (older_candidate x t cand) = Ok r)"
  using assms by (auto simp: needs_update_def installed_at_def split: if_splits option.splits)

lemma inactive_member_Cons:
  "inactive_member (x # ss) c u \<longleftrightarrow>
     u = x \<and> slot_state x = ST_INACTIVE \<and> slot_sclass x = c \<or> inactive_member ss c u"
  by (auto simp: inactive_member_def)

lemma select_member_loop_in:
  "select_member_loop ps c ss cand = Ok (Some s) \<Longrightarrow> inactive_member ss c s \<or> (\<exists>t. cand = Some (s, t))"
proof (induction ss arbitrary: cand)
  case (Cons x ss)
  show ?case
  proof (cases "slot_state x = ST_INACTIVE \<and> slot_sclass x = c")
    case False
    have skip: "inactive_member (x # ss) c u = inactive_member ss c u" for u
      using False by (auto simp: inactive_member_Cons)
    from Cons select_member_loop_skip [OF False] show ?thesis by (simp only: skip)
  next
    case True
    show ?thesis
    proof (cases ps)
      case True
      with \<open>slot_state x = ST_INACTIVE \<and> slot_sclass x = c\<close> Cons.prems show ?thesis
        by (simp add: inactive_member_Cons)
    next
      case False
      with True select_member_loop_step [of x c ss cand "Some s"] Cons.prems
      consider "s = x" | t where "select_member_loop ps c ss (older_candidate x t cand) = Ok (Some s)" by auto
      then show ?thesis
      proof cases
        case 2
        from Cons.IH [OF this] True show ?thesis
          by (auto simp: inactive_member_Cons dest: older_candidate_Some)
      qed (simp add: True inactive_member_Cons)
    qed
  qed
qed auto

lemma select_member_loop_oldest:
  assumes "select_member_loop False c ss cand = Ok (Some s)"
    and "\<forall>u t. cand = Some (u, t) \<longrightarrow> installed_at u = Some t"
  shows "needs_update s \<or> (\<exists>t. installed_at s = Some t \<and>
    (\<forall>u. inactive_member ss c u \<longrightarrow> (\<exists>tu\<ge>t. installed_at u = Some tu)) \<and>
    (\<forall>u tu. cand = Some (u, tu) \<longrightarrow> t \<le> tu))"
  using assms
proof (induction ss arbitrary: cand)
  case Nil
  then show ?case by (cases cand) (auto simp: inactive_member_def)
next
  case (Cons x ss)
  show ?case
  proof (cases "slot_state x = ST_INACTIVE \<and> slot_sclass x = c")
    case False
    have skip: "inactive_member (x # ss) c u = inactive_member ss c u" for u
      using False by (auto simp: inactive_member_Cons)
    from Cons select_member_loop_skip [OF False] show ?thesis by (simp only: skip)
  next
    case True
    with select_member_loop_step [of x c ss cand "Some s"] Cons.prems(1)
    consider "needs_update s"
      | t where "installed_at x = Some t" "select_member_loop False c ss (older_candidate x t cand) = Ok (Some s)"
      by auto
    then show ?thesis
    proof cases
      case (2 t)
      obtain u tu where u: "older_candidate x t cand = Some (u, tu)" using older_candidate_exists by blast
      note o = older_candidate_Some [OF u]
      have "\<forall>v tv. older_candidate x t cand = Some (v, tv) \<longrightarrow> installed_at v = Some tv"
        using o u 2(1) Cons.prems(2) by auto
      from Cons.IH [OF 2(2) this] show ?thesis
        using o u 2(1) by (fastforce simp: inactive_member_Cons)
    qed simp
  qed
qed

text \<open>
  C15. With a central status file, the slot chosen for a class is an inactive one of that class
  which failed before or was never installed, or whose installation is the oldest of all inactive
  slots of the class.
\<close>

theorem select_member_oldest:
  assumes "select_inactive_slot_class_member cfg slots c = Ok (Some s)"
    and "cfg_statusfile_path cfg \<noteq> Some ''per-slot''"
  shows "inactive_member slots c s \<and> (needs_update s \<or> (\<exists>t. installed_at s = Some t \<and>
    (\<forall>u. inactive_member slots c u \<longrightarrow> (\<exists>tu\<ge>t. installed_at u = Some tu))))"
  using assms select_member_loop_in [of False c slots None s] select_member_loop_oldest [of c slots None s]
  by (auto simp: select_inactive_slot_class_member_def)

definition installed_on :: "int \<Rightarrow> rauc_slot_status" where
  "installed_on t = slot_status_new0\<lparr>st_status := Some ''ok'', st_installed_timestamp := Some t\<rparr>"

definition target_demo_slots :: slots where
  "target_demo_slots =
     [(slot_new0 ''rootfs.0'' ''rootfs'')\<lparr>slot_bootname := Some ''A'', slot_device := ''/dev/a'', slot_type := ''raw'',
        slot_status := Some (installed_on 3)\<rparr>,
      (slot_new0 ''rootfs.1'' ''rootfs'')\<lparr>slot_bootname := Some ''B'', slot_device := ''/dev/b'', slot_type := ''raw'',
        slot_status := Some (installed_on 5)\<rparr>,
      (slot_new0 ''rootfs.2'' ''rootfs'')\<lparr>slot_bootname := Some ''C'', slot_device := ''/dev/c'', slot_type := ''raw'',
        slot_status := Some (installed_on 4)\<rparr>,
      (slot_new0 ''appfs.0'' ''appfs'')\<lparr>slot_device := ''/dev/d'', slot_type := ''raw'', slot_parent := Some ''rootfs.0''\<rparr>,
      (slot_new0 ''appfs.2'' ''appfs'')\<lparr>slot_device := ''/dev/e'', slot_type := ''raw'', slot_parent := Some ''rootfs.2''\<rparr>]"

definition target_demo_states :: slots where
  "target_demo_states = fst (snd (determine_slot_states (os_programs fw_env_sim) (Some ''A'') (target_demo_slots, [])))"

lemma target_demo_run:
  "determine_slot_states (os_programs fw_env_sim) (Some ''A'') (target_demo_slots, []) = (Ok (), (target_demo_states, []))"
  unfolding target_demo_states_def by code_simp

theorem select_member_oldest_witness:
  "\<exists>s. select_inactive_slot_class_member config_default target_demo_states ''rootfs'' = Ok (Some s) \<and>
     slot_name s = ''rootfs.2'' \<and> inactive_member target_demo_states ''rootfs'' s"
proof -
  have run: "select_inactive_slot_class_member config_default target_demo_states ''rootfs'' = Ok (Some (target_demo_states ! 2))"
    "slot_name (target_demo_states ! 2) = ''rootfs.2''" "cfg_statusfile_path config_default \<noteq> Some ''per-slot''"
    by code_simp+
  from run select_member_oldest [OF run(1,3)] show ?thesis by blast
qed

subsection \<open>The group\<close>

lemma select_roots_in:
  "select_roots cfg slots cs = Ok rs \<Longrightarrow> r \<in> set rs \<Longrightarrow> r \<in> set slots \<and> slot_state r = ST_INACTIVE"
proof (induction cs arbitrary: rs)
  case (Cons c cs)
  then show ?case
    by (auto simp: io_iff select_inactive_slot_class_member_def inactive_member_def
        dest!: select_member_loop_in split: option.splits)
qed simp

lemma collect_group_in:
  assumes "collect_group slots roots ss tg = Ok tg'" and "(c, n) \<in> set tg'"
  shows "(c, n) \<in> set tg \<or> (\<exists>s\<in>set ss. slot_name s = n \<and> slot_sclass s = c \<and>
    (\<exists>q. r_slot_get_parent_root slots s = Some q \<and> r_slot_list_contains roots q))"
  using assms
proof (induction ss arbitrary: tg)
  case (Cons s ss)
  have upd: "(c, n) \<in> set (AList.update a b tg) \<Longrightarrow> (c, n) = (a, b) \<or> (c, n) \<in> set tg" for a b
    by (induction tg) (auto split: if_splits)
  obtain q where q: "r_slot_get_parent_root slots s = Some q"
    using Cons.prems(1) by (auto split: option.splits)
  with Cons.prems(1) have "collect_group slots roots ss
      (if r_slot_list_contains roots q then AList.update (slot_sclass s) (slot_name s) tg else tg) = Ok tg'"
    by simp
  from Cons.IH [OF this Cons.prems(2)] q upd show ?case by (auto split: if_splits)
qed simp

lemma target_group_members:
  assumes "determine_target_install_group cfg slots = Ok tg" and "map_of tg c = Some n"
  shows "\<exists>s\<in>set slots. slot_name s = n \<and> slot_sclass s = c \<and>
    (\<exists>q r. r_slot_get_parent_root slots s = Some q \<and> r \<in> set slots \<and> slot_state r = ST_INACTIVE \<and> slot_name r = slot_name q)"
proof -
  obtain roots where roots: "select_roots cfg slots (r_slot_get_root_classes slots) = Ok roots"
    and tg: "collect_group slots roots slots [] = Ok tg"
    using assms(1) by (auto simp: determine_target_install_group_def io_iff)
  from collect_group_in [OF tg map_of_SomeD [OF assms(2)]] select_roots_in [OF roots] show ?thesis
    by (fastforce simp: r_slot_list_contains_def list_ex_iff)
qed

lemma target_group_inactive_lemma:
  assumes "slots_wf (fst s)" and "determine_slot_states os bootslot s = (Ok (), s')"
    and "\<forall>b\<in>set (fst s'). slot_state b = ST_BOOTED \<longrightarrow> slot_parent b = None"
    and "determine_target_install_group cfg (fst s') = Ok tg" and "map_of tg c = Some n"
  shows "\<exists>t. slot_lookup (fst s') n = Some t \<and> slot_sclass t = c \<and> slot_state t = ST_INACTIVE"
proof -
  have wf: "slots_wf (fst s')" by (rule determine_slot_states_wf [OF assms(2,1)])
  obtain t q r where t: "t \<in> set (fst s')" "slot_name t = n" "slot_sclass t = c"
    and q: "r_slot_get_parent_root (fst s') t = Some q"
    and r: "r \<in> set (fst s')" "slot_state r = ST_INACTIVE" "slot_name r = slot_name q"
    using target_group_members [OF assms(4,5)] by blast
  have look: "slot_lookup (fst s') n = Some t" using slot_lookup_name [OF slots_wfD(1) [OF wf] t(1)] t(2) by simp
  from determine_slot_states_Ok [OF assms(2)] have "slot_state t = ST_INACTIVE"
  proof (elim conjE disjE)
    assume "\<exists>booted\<in>set (fst s'). states_for booted (fst s')"
    then obtain b where b: "b \<in> set (fst s')" "states_for b (fst s')" by blast
    then have st: "slot_state u = slot_state_for b u" if "u \<in> set (fst s')" for u using that by (simp add: states_for_def)
    have "slot_parent b = None" using assms(3) st [OF b(1)] b(1) by (simp add: slot_state_for_def)
    have neq: "slot_name q \<noteq> slot_name b" using r st [OF r(1)] by (auto simp: slot_state_for_def split: if_splits)
    have "slot_name t \<noteq> slot_name b"
    proof
      assume "slot_name t = slot_name b"
      then have "t = b" by (rule slots_eq_name [OF slots_wfD(1) [OF wf] t(1) b(1)])
      then have "q = b" using q \<open>slot_parent b = None\<close> by simp
      with neq show False by simp
    qed
    moreover have "slot_parent t \<noteq> Some (slot_name b)"
    proof
      assume p: "slot_parent t = Some (slot_name b)"
      from parent_root_parent [OF wf t(1) p] q slot_lookup_Some neq show False by (metis option.inject)
    qed
    ultimately show ?thesis using st [OF t(1)] by (simp add: slot_state_for_def)
  qed (use t(1) in blast)
  with look t(3) show ?thesis by blast
qed

text \<open>
  C3. When the system runs from a slot without a parent, no slot of the target group is the booted
  slot or an active slot (a child of the booted one): an installation never writes to a slot that
  is in use by the running system. Every class is mapped to a slot of that class.
\<close>

theorem target_group_inactive:
  assumes "slots_wf (fst s)" and "determine_slot_states os bootslot s = (Ok (), s')"
    and "\<forall>b\<in>set (fst s'). slot_state b = ST_BOOTED \<longrightarrow> slot_parent b = None"
    and "determine_target_install_group cfg (fst s') = Ok tg" and "map_of tg c = Some n"
  shows "\<exists>t. slot_lookup (fst s') n = Some t \<and> slot_sclass t = c \<and> slot_state t = ST_INACTIVE"
  by (rule target_group_inactive_lemma [OF assms])

theorem target_group_inactive_witness:
  "\<exists>t. slot_lookup target_demo_states ''appfs.2'' = Some t \<and> slot_sclass t = ''appfs'' \<and> slot_state t = ST_INACTIVE"
proof -
  have pre: "slots_wf (fst (target_demo_slots, [] :: (string \<times> string) list))" by code_simp
  have root: "\<forall>b\<in>set (fst (target_demo_states, [] :: (string \<times> string) list)). slot_state b = ST_BOOTED \<longrightarrow> slot_parent b = None"
    by code_simp
  have tg: "determine_target_install_group config_default (fst (target_demo_states, [] :: (string \<times> string) list)) =
      Ok [(''rootfs'', ''rootfs.2''), (''appfs'', ''appfs.2'')]" by code_simp
  have "map_of [(''rootfs'', ''rootfs.2''), (''appfs'', ''appfs.2'')] ''appfs'' = Some ''appfs.2''" by simp
  from target_group_inactive [OF pre target_demo_run root tg this] show ?thesis by simp
qed

text \<open>The booted slot and the root of its group, when the system runs from a child slot.\<close>

lemma booted_child_states:
  assumes "slots_wf (fst s)" and "determine_slot_states os bootslot s = (Ok (), s')"
    and "b \<in> set (fst s')" and "slot_state b = ST_BOOTED"
    and "slot_parent b = Some p" and "slot_lookup (fst s') p = Some q"
  shows "q \<in> set (fst s') \<and> slot_parent q = None \<and> slot_state q = ST_INACTIVE"
proof -
  have wf: "slots_wf (fst s')" by (rule determine_slot_states_wf [OF assms(2,1)])
  have q: "q \<in> set (fst s')" using slot_lookup_Some [OF assms(6)] by simp
  have root: "slot_parent q = None" using parent_root_parent [OF wf assms(3,5)] assms(6) by auto
  have "\<exists>booted\<in>set (fst s'). states_for booted (fst s')"
    using determine_slot_states_Ok [OF assms(2)] assms(3,4) by auto
  then obtain b0 where b0: "b0 \<in> set (fst s')" "states_for b0 (fst s')" by blast
  then have "slot_name b = slot_name b0" using assms(3,4) by (auto simp: states_for_def slot_state_for_iff)
  then have "b = b0" by (rule slots_eq_name [OF slots_wfD(1) [OF wf] assms(3) b0(1)])
  moreover have "slot_name q \<noteq> slot_name b"
    using slots_eq_name [OF slots_wfD(1) [OF wf] q assms(3)] root assms(5) by auto
  ultimately have "slot_state q = ST_INACTIVE" using b0(2) q root by (simp add: states_for_def slot_state_for_def)
  with q root show ?thesis by blast
qed

lemma select_roots_selected:
  assumes "select_roots cfg slots cs = Ok rs"
  shows "r \<in> set rs \<longleftrightarrow> slot_sclass r \<in> set cs \<and> select_inactive_slot_class_member cfg slots (slot_sclass r) = Ok (Some r)"
  using assms
proof (induction cs arbitrary: rs)
  case (Cons c cs)
  obtain sel rest where sel: "select_inactive_slot_class_member cfg slots c = Ok sel"
    and rest: "select_roots cfg slots cs = Ok rest"
    and rs: "rs = (case sel of None \<Rightarrow> rest | Some u \<Rightarrow> u # rest)"
    using Cons.prems by (auto simp: io_iff)
  have cls: "slot_sclass u = c" if "sel = Some u" for u
    using select_member_loop_in [of _ c slots None u] sel that
    by (auto simp: select_inactive_slot_class_member_def inactive_member_def)
  show ?case using Cons.IH [OF rest] sel rs cls by (cases sel) auto
qed simp

text \<open>The entry of a class in the group: the one slot of the class whose root was selected.\<close>

lemma collect_group_entry:
  assumes "collect_group slots roots ss tg = Ok tg'"
    and "\<And>s q. s \<in> set ss \<Longrightarrow> slot_sclass s = c \<Longrightarrow> r_slot_get_parent_root slots s = Some q \<Longrightarrow>
      r_slot_list_contains roots q \<Longrightarrow> slot_name s = n"
    and "map_of tg c = Some n \<or> (\<exists>s\<in>set ss. slot_sclass s = c \<and>
      (\<exists>q. r_slot_get_parent_root slots s = Some q \<and> r_slot_list_contains roots q))"
  shows "map_of tg' c = Some n"
  using assms
proof (induction ss arbitrary: tg)
  case (Cons s ss)
  obtain q where q: "r_slot_get_parent_root slots s = Some q"
    using Cons.prems(1) by (auto split: option.splits)
  let ?tg = "if r_slot_list_contains roots q then AList.update (slot_sclass s) (slot_name s) tg else tg"
  have "collect_group slots roots ss ?tg = Ok tg'" using Cons.prems(1) q by simp
  then show ?case
  proof (rule Cons.IH)
    show "slot_name u = n" if "u \<in> set ss" "slot_sclass u = c" "r_slot_get_parent_root slots u = Some r"
      "r_slot_list_contains roots r" for u r using Cons.prems(2) [of u r] that by simp
    show "map_of ?tg c = Some n \<or> (\<exists>s\<in>set ss. slot_sclass s = c \<and>
        (\<exists>q. r_slot_get_parent_root slots s = Some q \<and> r_slot_list_contains roots q))"
    proof (cases "r_slot_list_contains roots q \<and> slot_sclass s = c")
      case True
      then show ?thesis using Cons.prems(2) [of s q] q by (simp add: AList.update_conv')
    next
      case False
      then show ?thesis using Cons.prems(3) q by (auto simp: AList.update_conv')
    qed
  qed
qed simp

text \<open>
  C4. The hypothesis of the previous property is needed. When the system runs from a child slot, the
  root of its group counts as inactive; and whenever that root is the one selected for its class,
  the booted slot itself becomes an installation target, provided the other slots of its class
  belong to other groups of the same kind (as in every symmetric A/B layout).
\<close>

theorem booted_child_is_target:
  assumes "slots_wf (fst s)" and "determine_slot_states os bootslot s = (Ok (), s')"
    and "b \<in> set (fst s')" and "slot_state b = ST_BOOTED"
    and "slot_parent b = Some p" and "slot_lookup (fst s') p = Some q"
    and "select_inactive_slot_class_member cfg (fst s') (slot_sclass q) = Ok (Some q)"
    and "\<forall>u\<in>set (fst s'). slot_sclass u = slot_sclass b \<longrightarrow> u = b \<or>
      (\<exists>n r. slot_parent u = Some n \<and> n \<noteq> p \<and> slot_lookup (fst s') n = Some r \<and> slot_sclass r = slot_sclass q)"
    and "determine_target_install_group cfg (fst s') = Ok tg"
  shows "slot_state q = ST_INACTIVE \<and> map_of tg (slot_sclass b) = Some (slot_name b)"
proof -
  have wf: "slots_wf (fst s')" by (rule determine_slot_states_wf [OF assms(2,1)])
  note q = booted_child_states [OF assms(1-6)]
  have root: "r_slot_get_parent_root (fst s') b = Some q" using parent_root_parent [OF wf assms(3,5)] assms(6) by auto
  obtain roots where roots: "select_roots cfg (fst s') (r_slot_get_root_classes (fst s')) = Ok roots"
    and tg: "collect_group (fst s') roots (fst s') [] = Ok tg"
    using assms(9) by (auto simp: determine_target_install_group_def io_iff)
  have sel: "r = q" if "r \<in> set roots" "slot_sclass r = slot_sclass q" for r
    using select_roots_selected [OF roots, of r] that assms(7) by simp
  have "q \<in> set roots"
    using select_roots_selected [OF roots, of q] q assms(7) by (auto simp: r_slot_get_root_classes_spec)
  then have cont: "r_slot_list_contains roots q" by (auto simp: r_slot_list_contains_def list_ex_iff)
  have "map_of tg (slot_sclass b) = Some (slot_name b)"
  proof (rule collect_group_entry [OF tg])
    fix u r
    assume u: "u \<in> set (fst s')" "slot_sclass u = slot_sclass b" "r_slot_get_parent_root (fst s') u = Some r"
      "r_slot_list_contains roots r"
    show "slot_name u = slot_name b"
    proof (rule ccontr)
      assume "slot_name u \<noteq> slot_name b"
      with assms(8) u obtain n r' where n: "slot_parent u = Some n" "n \<noteq> p" "slot_lookup (fst s') n = Some r'"
        "slot_sclass r' = slot_sclass q" by blast
      have "r' = r" using parent_root_parent [OF wf u(1) n(1)] n(3) u(3) by auto
      moreover obtain r0 where r0: "r0 \<in> set roots" "slot_name r0 = slot_name r"
        using u(4) by (auto simp: r_slot_list_contains_def list_ex_iff)
      moreover have "r0 = r"
        using slots_eq_name [OF slots_wfD(1) [OF wf]] select_roots_in [OF roots r0(1)] slot_lookup_Some [OF n(3)] r0(2) \<open>r' = r\<close>
        by blast
      ultimately have "r' = q" using sel n(4) by blast
      then show False using slot_lookup_Some [OF n(3)] slot_lookup_Some [OF assms(6)] n(2) by simp
    qed
  qed (use assms(3) root cont in auto)
  with q show ?thesis by blast
qed

definition child_demo_slots :: slots where
  "child_demo_slots = [(slot_new0 ''rootfs.0'' ''rootfs'')\<lparr>slot_device := ''/dev/c''\<rparr>,
     (slot_new0 ''rootfs.1'' ''rootfs'')\<lparr>slot_device := ''/dev/d''\<rparr>,
     (slot_new0 ''appfs.0'' ''appfs'')\<lparr>slot_device := ''/dev/e'', slot_parent := Some ''rootfs.0''\<rparr>,
     (slot_new0 ''appfs.1'' ''appfs'')\<lparr>slot_device := ''/dev/f'', slot_parent := Some ''rootfs.1''\<rparr>]"

definition child_demo_states :: slots where
  "child_demo_states = fst (snd (determine_slot_states (os_programs fw_env_sim) (Some ''/dev/e'') (child_demo_slots, [])))"

theorem booted_child_is_target_witness:
  "slot_state (child_demo_states ! 2) = ST_BOOTED \<and> slot_name (child_demo_states ! 2) = ''appfs.0'' \<and>
   determine_target_install_group (config_default\<lparr>cfg_statusfile_path := Some ''per-slot''\<rparr>) child_demo_states =
     Ok [(''rootfs'', ''rootfs.0''), (''appfs'', ''appfs.0'')] \<and>
   slot_state (child_demo_states ! 0) = ST_INACTIVE \<and>
   map_of [(''rootfs'', ''rootfs.0''), (''appfs'', ''appfs.0'')] (slot_sclass (child_demo_states ! 2)) =
     Some (slot_name (child_demo_states ! 2))"
proof -
  let ?s = "(child_demo_states, [] :: (string \<times> string) list)"
  let ?cfg = "config_default\<lparr>cfg_statusfile_path := Some ''per-slot''\<rparr>"
  have wf: "slots_wf (fst (child_demo_slots, [] :: (string \<times> string) list))" by code_simp
  have run: "determine_slot_states (os_programs fw_env_sim) (Some ''/dev/e'') (child_demo_slots, []) = (Ok (), ?s)"
    unfolding child_demo_states_def by code_simp
  have b: "child_demo_states ! 2 \<in> set (fst ?s)" "slot_state (child_demo_states ! 2) = ST_BOOTED"
    "slot_parent (child_demo_states ! 2) = Some ''rootfs.0''" by code_simp+
  have q: "slot_lookup (fst ?s) ''rootfs.0'' = Some (child_demo_states ! 0)" by code_simp
  have sel: "select_inactive_slot_class_member ?cfg (fst ?s) (slot_sclass (child_demo_states ! 0)) = Ok (Some (child_demo_states ! 0))"
    by code_simp
  have "set (fst ?s) = {child_demo_states ! 0, child_demo_states ! 1, child_demo_states ! 2, child_demo_states ! 3}" by code_simp
  moreover have "slot_sclass (child_demo_states ! 0) = ''rootfs''" "slot_sclass (child_demo_states ! 1) = ''rootfs''"
    "slot_sclass (child_demo_states ! 2) = ''appfs''" "slot_parent (child_demo_states ! 3) = Some ''rootfs.1''"
    "slot_lookup (fst ?s) ''rootfs.1'' = Some (child_demo_states ! 1)" by code_simp+
  ultimately have others: "\<forall>u\<in>set (fst ?s). slot_sclass u = slot_sclass (child_demo_states ! 2) \<longrightarrow> u = child_demo_states ! 2 \<or>
      (\<exists>n r. slot_parent u = Some n \<and> n \<noteq> ''rootfs.0'' \<and> slot_lookup (fst ?s) n = Some r \<and>
        slot_sclass r = slot_sclass (child_demo_states ! 0))" by auto
  have tg: "determine_target_install_group ?cfg (fst ?s) = Ok [(''rootfs'', ''rootfs.0''), (''appfs'', ''appfs.0'')]" by code_simp
  have "slot_name (child_demo_states ! 2) = ''appfs.0''" by code_simp
  with b(2) tg booted_child_is_target [OF wf run b q sel others tg] show ?thesis by simp
qed

subsection \<open>The group is always found\<close>

lemma select_member_loop_total:
  "ps \<or> (\<forall>s\<in>set ss. slot_status s \<noteq> None) \<Longrightarrow> \<exists>r. select_member_loop ps c ss cand = Ok r"
proof (induction ss arbitrary: cand)
  case (Cons x ss)
  then have IH: "\<exists>r. select_member_loop ps c ss cand' = Ok r" for cand' by auto
  show ?case using Cons.prems IH by (cases "slot_status x") (auto split: option.splits)
qed simp

lemma select_roots_total:
  assumes "cfg_statusfile_path cfg = Some ''per-slot'' \<or> (\<forall>s\<in>set slots. slot_status s \<noteq> None)"
  shows "\<exists>rs. select_roots cfg slots cs = Ok rs"
proof (induction cs)
  case (Cons c cs)
  obtain r where "select_inactive_slot_class_member cfg slots c = Ok r"
    using select_member_loop_total [OF assms, of c None] by (auto simp: select_inactive_slot_class_member_def)
  with Cons show ?case by auto
qed simp

lemma collect_group_total:
  assumes "slots_wf slots" and "set ss \<subseteq> set slots"
  shows "\<exists>tg'. collect_group slots roots ss tg = Ok tg'"
  using assms(2)
proof (induction ss arbitrary: tg)
  case (Cons s ss)
  obtain q where "r_slot_get_parent_root slots s = Some q"
    using parent_root_total [OF assms(1), of s] Cons.prems by auto
  with Cons show ?case by auto
qed simp

lemma target_group_total_lemma:
  assumes "slots_wf slots"
    and "cfg_statusfile_path cfg = Some ''per-slot'' \<or> (\<forall>s\<in>set slots. slot_status s \<noteq> None)"
  shows "\<exists>tg. determine_target_install_group cfg slots = Ok tg"
proof -
  obtain roots where "select_roots cfg slots (r_slot_get_root_classes slots) = Ok roots"
    using select_roots_total [OF assms(2)] by blast
  moreover obtain tg where "collect_group slots roots slots [] = Ok tg"
    using collect_group_total [OF assms(1)] by blast
  ultimately show ?thesis by (auto simp: determine_target_install_group_def)
qed

lemma select_member_loop_cases:
  "(\<exists>r. select_member_loop ps c ss cand = Ok r) \<or> select_member_loop ps c ss cand = Abort \<and> \<not> ps \<and>
     (\<exists>s. inactive_member ss c s \<and> slot_status s = None)"
proof (induction ss arbitrary: cand)
  case (Cons x ss)
  have up: "\<exists>s. inactive_member (x # ss) c s \<and> slot_status s = None" if "\<exists>s. inactive_member ss c s \<and> slot_status s = None"
    using that by (auto simp: inactive_member_Cons)
  show ?case
  proof (cases "slot_state x = ST_INACTIVE \<and> slot_sclass x = c")
    case False
    then show ?thesis using Cons.IH [of cand] up by auto
  next
    case True
    show ?thesis
    proof (cases "slot_status x")
      case None
      with True show ?thesis by (auto simp: inactive_member_Cons)
    next
      case (Some st)
      have "(\<exists>r. select_member_loop ps c ss (older_candidate x t cand) = Ok r) \<or>
          select_member_loop ps c ss (older_candidate x t cand) = Abort \<and> \<not> ps \<and>
            (\<exists>s. inactive_member (x # ss) c s \<and> slot_status s = None)" for t
        using Cons.IH [of "older_candidate x t cand"] up by blast
      with True Some show ?thesis by (cases ps; cases "st_installed_timestamp st") simp_all
    qed
  qed
qed simp

lemma select_roots_cases:
  "(\<exists>rs. select_roots cfg slots cs = Ok rs) \<or> select_roots cfg slots cs = Abort \<and>
     cfg_statusfile_path cfg \<noteq> Some ''per-slot'' \<and> (\<exists>c. c \<in> set cs \<and> (\<exists>s. inactive_member slots c s \<and> slot_status s = None))"
proof (induction cs)
  case (Cons c cs)
  from select_member_loop_cases [of "cfg_statusfile_path cfg = Some ''per-slot''" c slots None] Cons show ?case
    by (auto simp: select_inactive_slot_class_member_def split: option.splits)
qed simp

text \<open>
  C14. For a well-formed table every walk along the parent pointers ends at a slot without parent,
  and the determination of the target group either returns a group or ends the process; the latter
  only with a central status file and an inactive slot of a root class whose status was never loaded
  (a NULL status is dereferenced). It never fails with an error.
\<close>

theorem target_group_total:
  assumes "slots_wf slots"
  shows "(\<forall>s\<in>set slots. \<exists>q. r_slot_get_parent_root slots s = Some q \<and> slot_parent q = None) \<and>
    ((\<exists>tg. determine_target_install_group cfg slots = Ok tg) \<or>
     determine_target_install_group cfg slots = Abort \<and> cfg_statusfile_path cfg \<noteq> Some ''per-slot'' \<and>
     (\<exists>c s. c \<in> set (r_slot_get_root_classes slots) \<and> inactive_member slots c s \<and> slot_status s = None))"
proof -
  from select_roots_cases [of cfg slots "r_slot_get_root_classes slots"] collect_group_total [OF assms, of slots]
  have "(\<exists>tg. determine_target_install_group cfg slots = Ok tg) \<or>
     determine_target_install_group cfg slots = Abort \<and> cfg_statusfile_path cfg \<noteq> Some ''per-slot'' \<and>
     (\<exists>c s. c \<in> set (r_slot_get_root_classes slots) \<and> inactive_member slots c s \<and> slot_status s = None)"
    by (auto simp: determine_target_install_group_def)
  with parent_root_total [OF assms] show ?thesis by metis
qed

theorem target_group_total_witness:
  "\<exists>tg. determine_target_install_group config_default target_demo_states = Ok tg"
proof -
  have wf: "slots_wf target_demo_states" by code_simp
  have "determine_target_install_group config_default target_demo_states \<noteq> Abort" by code_simp
  with target_group_total [OF wf, of config_default] show ?thesis by blast
qed

subsection \<open>Plans\<close>

lemma select_image_Some:
  assumes "select_image variant cls imgs m = Some img" and "m \<noteq> None \<Longrightarrow> img_variant (the m) = None"
  shows "(img \<in> set imgs \<and> img_slotclass img = Some cls \<or> m = Some img) \<and>
    (if \<exists>i\<in>set imgs. img_slotclass i = Some cls \<and> img_variant i \<noteq> None \<and> img_variant i = variant
     then img_variant img = variant else img_variant img = None)"
  using assms
proof (induction imgs arbitrary: m)
  case (Cons i imgs)
  show ?case
  proof (cases "img_slotclass i = Some cls")
    case False
    with Cons show ?thesis by auto
  next
    case cls: True
    show ?thesis
    proof (cases "img_variant i")
      case None
      let ?m = "if m = None then Some i else m"
      have "select_image variant cls imgs ?m = Some img" using Cons.prems(1) cls None by simp
      moreover have "img_variant (the ?m) = None" using Cons.prems(2) None by auto
      ultimately show ?thesis using Cons.IH [of ?m] cls None by (auto split: if_splits)
    next
      case (Some v)
      with Cons cls show ?thesis by (cases "variant = Some v") auto
    qed
  qed
qed auto

lemma make_slot_plan_Ok:
  assumes "make_slot_plan cfg slots mf tg cls = Ok p"
  obtains n slot h where "plan_target_slot p = Some n" "plan_slot_handler p = Some h" "plan_target_repo p = None"
    "map_of tg cls = Some n" "slot_lookup slots n = Some slot" "\<not> slot_readonly slot"
    "get_update_handler (plan_image p) slot = Ok h"
    "select_image (cfg_system_variant cfg) cls (mf_images mf) None = Some (plan_image p)"
  using assms by (auto simp: make_slot_plan_def io_iff split: option.splits if_splits)

lemma make_slot_plans_in:
  "make_slot_plans cfg slots mf tg cs = Ok ps \<Longrightarrow> p \<in> set ps \<Longrightarrow> \<exists>c\<in>set cs. make_slot_plan cfg slots mf tg c = Ok p"
  by (induction cs arbitrary: ps) (auto simp: io_iff)

lemma make_artifact_plans_in:
  "make_artifact_plans repos imgs = Ok ps \<Longrightarrow> p \<in> set ps \<Longrightarrow> plan_target_slot p = None"
  by (induction imgs arbitrary: ps) (auto simp: io_iff split: if_splits option.splits)

lemma make_plans_slot:
  assumes "r_install_make_plans arts cfg mf tg s = (Ok plans, s')" and "p \<in> set plans" and "plan_target_slot p \<noteq> None"
  shows "\<exists>c. make_slot_plan cfg (fst s) mf tg c = Ok p"
proof -
  obtain classes ps aps where ps: "make_slot_plans cfg (fst s) mf tg classes = Ok ps"
    and aps: "make_artifact_plans (art_repos arts) (mf_images mf) = Ok aps" and "plans = ps @ aps"
    using assms(1) by (auto simp: r_install_make_plans_def io_iff get_slots_def io_lift_def split: if_splits)
  with assms(2,3) make_artifact_plans_in [OF aps] have "p \<in> set ps" by auto
  with make_slot_plans_in [OF ps] show ?thesis by blast
qed

text \<open>
  C5. Every slot update planned by \<open>r_install_make_plans\<close> for a system that runs from a slot without
  parent is safe and fits: the target is an inactive, writable slot of the image's class, the image
  is the one for the system's variant when the manifest has one and a variant-less one otherwise,
  and the image is handed to the handler for its type and the slot's. (For a system that runs from a
  child slot the target need not be inactive, see above.)
\<close>

theorem slot_plans_safe:
  assumes "slots_wf (fst s)" and "determine_slot_states os bootslot s = (Ok (), s')"
    and "\<forall>b\<in>set (fst s'). slot_state b = ST_BOOTED \<longrightarrow> slot_parent b = None"
    and "determine_target_install_group cfg (fst s') = Ok tg"
    and "r_install_make_plans arts cfg mf tg s' = (Ok plans, s'')" and "p \<in> set plans" and "plan_target_slot p \<noteq> None"
  shows "\<exists>n t c h. plan_target_slot p = Some n \<and> slot_lookup (fst s') n = Some t \<and> slot_state t = ST_INACTIVE \<and>
    \<not> slot_readonly t \<and> plan_image p \<in> set (mf_images mf) \<and> img_slotclass (plan_image p) = Some c \<and> slot_sclass t = c \<and>
    plan_slot_handler p = Some h \<and> get_update_handler (plan_image p) t = Ok h \<and>
    (if \<exists>i\<in>set (mf_images mf). img_slotclass i = Some c \<and> img_variant i \<noteq> None \<and> img_variant i = cfg_system_variant cfg
     then img_variant (plan_image p) = cfg_system_variant cfg else img_variant (plan_image p) = None)"
proof -
  obtain c where c: "make_slot_plan cfg (fst s') mf tg c = Ok p"
    using make_plans_slot [OF assms(5-7)] by blast
  from make_slot_plan_Ok [OF c] obtain n slot h where
    p: "plan_target_slot p = Some n" "plan_slot_handler p = Some h" "map_of tg c = Some n"
      "slot_lookup (fst s') n = Some slot" "\<not> slot_readonly slot" "get_update_handler (plan_image p) slot = Ok h"
      "select_image (cfg_system_variant cfg) c (mf_images mf) None = Some (plan_image p)" by metis
  note img = select_image_Some [OF p(7), simplified]
  obtain t where "slot_lookup (fst s') n = Some t" "slot_sclass t = c" "slot_state t = ST_INACTIVE"
    using target_group_inactive_lemma [OF assms(1-4) p(3)] by blast
  with p img show ?thesis by (intro exI [of _ n] exI [of _ slot] exI [of _ c] exI [of _ h]) auto
qed

definition plan_demo_manifest :: rauc_manifest where
  "plan_demo_manifest = manifest_new0\<lparr>mf_images :=
     [r_new_image\<lparr>img_slotclass := Some ''rootfs'', img_filename := Some ''rootfs.img'', img_type := Some ''raw''\<rparr>]\<rparr>"

definition plan_demo_arts :: "(string \<times> string) list artifact_ops" where
  "plan_demo_arts = \<lparr>art_repos = [], art_init = io_return (), art_prune = io_return (), art_install = (\<lambda>mf p. io_return ())\<rparr>"

theorem slot_plans_safe_witness:
  "\<exists>p t. r_install_make_plans plan_demo_arts config_default plan_demo_manifest
       [(''rootfs'', ''rootfs.2''), (''appfs'', ''appfs.2'')] (target_demo_states, []) = (Ok [p], (target_demo_states, [])) \<and>
     plan_target_slot p = Some ''rootfs.2'' \<and>
     slot_lookup target_demo_states ''rootfs.2'' = Some t \<and> slot_state t = ST_INACTIVE"
proof -
  let ?p = "\<lparr>plan_image = mf_images plan_demo_manifest ! 0, plan_target_slot = Some ''rootfs.2'',
      plan_slot_handler = Some img_to_raw_handler, plan_target_repo = None\<rparr>"
  have pre: "slots_wf (fst (target_demo_slots, [] :: (string \<times> string) list))" by code_simp
  have root: "\<forall>b\<in>set (fst (target_demo_states, [] :: (string \<times> string) list)). slot_state b = ST_BOOTED \<longrightarrow> slot_parent b = None"
    by code_simp
  have tg: "determine_target_install_group config_default (fst (target_demo_states, [] :: (string \<times> string) list)) =
      Ok [(''rootfs'', ''rootfs.2''), (''appfs'', ''appfs.2'')]" by code_simp
  have plans: "r_install_make_plans plan_demo_arts config_default plan_demo_manifest
       [(''rootfs'', ''rootfs.2''), (''appfs'', ''appfs.2'')] (target_demo_states, []) = (Ok [?p], (target_demo_states, []))"
    by code_simp
  have "?p \<in> set [?p]" "plan_target_slot ?p \<noteq> None" by simp_all
  from slot_plans_safe [OF pre target_demo_run root tg plans this] plans show ?thesis by auto
qed

end
