(* ===== verification/Install_Run.thy ===== *)
theory Install_Run
  imports Install_Target
begin

text \<open>
  The execution of an installation (\<open>src/src/install.c\<close>): the checks on the manifest, the
  environment of the handlers, the checks before writing, the update of one slot, the default
  installation procedure and \<open>do_install_bundle\<close>.

  Writing an image (\<open>src/src/update_handler.c\<close>), the artifact repositories and the bundle
  (\<open>check_bundle\<close>, \<open>mount_bundle\<close>) are parameters. Messages for the user, event log and progress
  steps are not modelled.
\<close>

subsection \<open>Manifest checks\<close>

record install_args =
  args_name :: string
  args_ignore_compatible :: bool
  args_ignore_version_limit :: bool
  args_require_manifest_hash :: "string option"
  args_transaction :: "string option"

definition verify_compatible :: "rauc_config \<Rightarrow> install_args \<Rightarrow> rauc_manifest \<Rightarrow> unit result" where
  "verify_compatible cfg args mf =
     fail_if (\<not> args_ignore_compatible args \<and> cfg_system_compatible cfg \<noteq> mf_update_compatible mf)
       (R_INSTALL_ERROR R_INSTALL_ERROR_COMPAT_MISMATCH)"

definition check_version_limits :: "rauc_config \<Rightarrow> install_args \<Rightarrow> rauc_manifest \<Rightarrow> unit result" where
  "check_version_limits cfg args mf = (case cfg_system_min_bundle_version cfg of
      None \<Rightarrow> Ok ()
    | Some limit \<Rightarrow>
        if args_ignore_version_limit args then Ok ()
        else case mf_update_version mf of
          None \<Rightarrow> Error (R_INSTALL_ERROR R_INSTALL_ERROR_VERSION_MISMATCH)
        | Some v \<Rightarrow> result_bind (r_semver_less_equal limit v) (\<lambda>le.
            fail_if (\<not> le) (R_INSTALL_ERROR R_INSTALL_ERROR_VERSION_MISMATCH)))"

subsection \<open>Handler output\<close>

text \<open>
  The words of a status line; a NULL word is printed as \<open>(null)\<close>. The word after the end of the
  array of words, which the code reads for \<open><< image\<close> without an image name, is not there.
\<close>

definition status_word :: "string list \<Rightarrow> nat \<Rightarrow> string result" where
  "status_word ws i =
     (if i < length ws then Ok (ws ! i) else if i = length ws then Ok ''(null)'' else Abort)"

definition parse_handler_output :: "string \<Rightarrow> string option result" where
  "parse_handler_output line =
     (if \<not> g_str_has_prefix line ''<< '' then Ok None
      else let ws = g_strsplit_max line (CHR '' '') 5 in
        if length ws < 2 then Ok None
        else let w = ws ! 1 in
          if w = ''handler'' then result_bind (status_word ws 2) (\<lambda>a. Ok (Some (''Handler status: '' @ a)))
          else if w = ''image'' then
            result_bind (status_word ws 2) (\<lambda>a. result_bind (status_word ws 3) (\<lambda>b.
              Ok (Some (''Image '' @ [CHR 0x27] @ a @ [CHR 0x27] @ '' status: '' @ b))))
          else if w = ''bootloader'' then result_bind (status_word ws 2) (\<lambda>a. Ok (Some (''Bootloader status: '' @ a)))
          else if w = ''error'' then Ok (Some (''Error: '' @ g_strjoinv '' '' (drop 2 ws)))
          else if w = ''debug'' then Ok (Some (''Debug: '' @ g_strjoinv '' '' (drop 2 ws)))
          else Ok (Some (''Unknown handler output: '' @ line)))"

fun handler_messages :: "string list \<Rightarrow> string list result" where
  "handler_messages [] = Ok []"
| "handler_messages (l # ls) =
     result_bind (parse_handler_output l) (\<lambda>m.
     result_bind (handler_messages ls) (\<lambda>ms. Ok (case m of None \<Rightarrow> ms | Some s \<Rightarrow> s # ms)))"

subsection \<open>Environment of the handlers\<close>

text \<open>An environment is a list of names with values; \<open>g_environ_setenv\<close> replaces in place or appends.
  For a NULL value it returns NULL, the empty environment.\<close>

type_synonym environ = "(string \<times> string) list"

definition g_environ_setenv :: "environ \<Rightarrow> string \<Rightarrow> string \<Rightarrow> bool \<Rightarrow> environ" where
  "g_environ_setenv envp k v overwrite =
     (if \<not> overwrite \<and> map_of envp k \<noteq> None then envp else AList.update k v envp)"

abbreviation setenv :: "environ \<Rightarrow> string \<Rightarrow> string \<Rightarrow> environ" where
  "setenv envp k v \<equiv> g_environ_setenv envp k v True"

definition or_empty :: "string option \<Rightarrow> string" where
  "or_empty s = (case s of None \<Rightarrow> [] | Some x \<Rightarrow> x)"

text \<open>Names without an environment form are left out.\<close>

definition r_shell_from_manifest_meta :: "rauc_manifest \<Rightarrow> string list" where
  "r_shell_from_manifest_meta mf = concat (map (\<lambda>(grp, kvs). case r_prepare_env_key grp of
      Ok env_group \<Rightarrow> concat (map (\<lambda>(k, v). case r_prepare_env_key k of
          Ok env_key \<Rightarrow> [''RAUC_META_'' @ env_group @ ''_'' @ env_key @ ''='' @ v]
        | _ \<Rightarrow> []) kvs)
    | _ \<Rightarrow> []) (mf_meta mf))"

fun r_environ_setenv_ptr_array :: "environ \<Rightarrow> string list \<Rightarrow> bool \<Rightarrow> environ result" where
  "r_environ_setenv_ptr_array envp [] overwrite = Ok envp"
| "r_environ_setenv_ptr_array envp (e # es) overwrite =
     (case dropWhile (\<lambda>c. c \<noteq> CHR ''='') e of
        [] \<Rightarrow> Abort
      | _ # v \<Rightarrow> r_environ_setenv_ptr_array
          (g_environ_setenv envp (takeWhile (\<lambda>c. c \<noteq> CHR ''='') e) v overwrite) es overwrite)"

record install_context =
  ctx_configpath :: string
  ctx_bootslot :: "string option"
  ctx_system_info :: environ
  ctx_handlerextra :: "string option"
  ctx_environ :: environ

definition add_system_environment :: "install_context \<Rightarrow> rauc_config \<Rightarrow> environ \<Rightarrow> environ" where
  "add_system_environment ctx cfg envp =
     (let envp = setenv envp ''RAUC_SYSTEM_CONFIG'' (ctx_configpath ctx);
          envp = setenv envp ''RAUC_SYSTEM_VARIANT'' (or_empty (cfg_system_variant cfg));
          envp = (case ctx_bootslot ctx of None \<Rightarrow> [] | Some b \<Rightarrow> setenv envp ''RAUC_CURRENT_BOOTNAME'' b);
          envp = setenv envp ''RAUC_MOUNT_PREFIX'' (cfg_mount_prefix cfg)
      in fold (\<lambda>(k, v) envp. g_environ_setenv envp k v False) (ctx_system_info ctx) envp)"

text \<open>The first image of a class; an image without a class is dereferenced.\<close>

fun image_for_class :: "string \<Rightarrow> rauc_image list \<Rightarrow> rauc_image option result" where
  "image_for_class cls [] = Ok None"
| "image_for_class cls (img # imgs) = (case img_slotclass img of
      None \<Rightarrow> Abort
    | Some c \<Rightarrow> if cls = c then Ok (Some img) else image_for_class cls imgs)"

definition image_environment :: "rauc_manifest \<Rightarrow> rauc_slot \<Rightarrow> string \<Rightarrow> environ \<Rightarrow> environ result" where
  "image_environment mf slot cnt envp =
     result_bind (image_for_class (slot_sclass slot) (mf_images mf)) (\<lambda>img. Ok (case img of
         None \<Rightarrow> envp
       | Some img \<Rightarrow>
           setenv (setenv (setenv envp (''RAUC_IMAGE_NAME_'' @ cnt) (or_empty (img_filename img)))
             (''RAUC_IMAGE_DIGEST_'' @ cnt) (or_empty (cs_digest (img_checksum img))))
             (''RAUC_IMAGE_CLASS_'' @ cnt) (slot_sclass slot)))"

definition slot_environment :: "rauc_slot \<Rightarrow> string \<Rightarrow> environ \<Rightarrow> environ" where
  "slot_environment slot cnt envp =
     (let envp = setenv envp (''RAUC_SLOT_NAME_'' @ cnt) (slot_name slot);
          envp = setenv envp (''RAUC_SLOT_CLASS_'' @ cnt) (slot_sclass slot);
          envp = setenv envp (''RAUC_SLOT_TYPE_'' @ cnt) (slot_type slot);
          envp = setenv envp (''RAUC_SLOT_DEVICE_'' @ cnt) (slot_device slot);
          envp = setenv envp (''RAUC_SLOT_BOOTNAME_'' @ cnt) (or_empty (slot_bootname slot))
      in setenv envp (''RAUC_SLOT_PARENT_'' @ cnt) (or_empty (slot_parent slot)))"

text \<open>The loop over the slots: environment, slot numbers and numbers of the target slots. Each
  mapping of the target group to the slot counts.\<close>

fun member_environment :: "rauc_manifest \<Rightarrow> rauc_slot \<Rightarrow> string \<Rightarrow> target_group \<Rightarrow> environ \<Rightarrow> string list
    \<Rightarrow> (environ \<times> string list) result" where
  "member_environment mf slot cnt [] envp targets = Ok (envp, targets)"
| "member_environment mf slot cnt ((c, n) # tg) envp targets =
     (if slot_name slot \<noteq> n then member_environment mf slot cnt tg envp targets
      else result_bind (image_environment mf slot cnt envp) (\<lambda>envp.
        member_environment mf slot cnt tg envp (targets @ [cnt])))"

fun slots_environment :: "rauc_manifest \<Rightarrow> target_group \<Rightarrow> slots \<Rightarrow> nat \<Rightarrow> environ \<Rightarrow> string list \<Rightarrow> string list
    \<Rightarrow> (environ \<times> string list \<times> string list) result" where
  "slots_environment mf tg [] i envp nums targets = Ok (envp, nums, targets)"
| "slots_environment mf tg (s # ss) i envp nums targets =
     (let cnt = nat_str 10 (Suc i) in
      result_bind (member_environment mf s cnt tg envp targets) (\<lambda>(envp, targets).
        slots_environment mf tg ss (Suc i) (slot_environment s cnt envp) (nums @ [cnt]) targets))"

definition prepare_environment :: "install_context \<Rightarrow> rauc_config \<Rightarrow> slots \<Rightarrow> string \<Rightarrow> rauc_manifest \<Rightarrow> string
    \<Rightarrow> target_group \<Rightarrow> environ result" where
  "prepare_environment ctx cfg slots update_source mf transaction tg =
     (let envp = add_system_environment ctx cfg (ctx_environ ctx);
          envp = setenv envp ''RAUC_BUNDLE_MOUNT_POINT'' update_source;
          envp = setenv envp ''RAUC_UPDATE_SOURCE'' update_source;
          envp = setenv envp ''RAUC_TRANSACTION_ID'' transaction
      in result_bind (slots_environment mf tg slots 0 envp [] []) (\<lambda>(envp, nums, targets).
         let envp = setenv envp ''RAUC_SLOTS'' (g_strjoinv '' '' nums);
             envp = setenv envp ''RAUC_TARGET_SLOTS'' (g_strjoinv '' '' targets)
         in r_environ_setenv_ptr_array envp (r_shell_from_manifest_meta mf) False))"

subsection \<open>Programs started by the installation\<close>

text \<open>
  \<open>launch argv env\<close> runs a program and gives how it ended, with the lines it printed on standard
  output and standard error as \<open>GSubprocess\<close> delivers them.
\<close>

type_synonym 'w launcher = "string list \<Rightarrow> environ \<Rightarrow> 'w \<Rightarrow> (proc \<times> string list) \<times> 'w"

definition launch_and_wait_handler :: "'w launcher \<Rightarrow> string \<Rightarrow> string list \<Rightarrow> environ \<Rightarrow> ('w, string list) io" where
  "launch_and_wait_handler launch handler_name handler_argv env w =
     (case launch (handler_name # handler_argv) env w of
        ((p, lines), w') \<Rightarrow> (case p of
            Spawn_Failed e \<Rightarrow> (Error e, w')
          | _ \<Rightarrow> (result_bind (handler_messages lines) (\<lambda>ms. result_bind (proc_wait_check p) (\<lambda>_. Ok ms)), w')))"

abbreviation INSTALL_HOOK_REJECT_CODE :: int where "INSTALL_HOOK_REJECT_CODE \<equiv> 10"

definition bundle_hook_environment :: "rauc_config \<Rightarrow> rauc_manifest \<Rightarrow> environ \<Rightarrow> environ result" where
  "bundle_hook_environment cfg mf envp =
     (let envp = (case cfg_system_compatible cfg of None \<Rightarrow> [] | Some c \<Rightarrow> setenv envp ''RAUC_SYSTEM_COMPATIBLE'' c);
          envp = setenv envp ''RAUC_SYSTEM_VARIANT'' (or_empty (cfg_system_variant cfg));
          envp = (case mf_update_compatible mf of None \<Rightarrow> [] | Some c \<Rightarrow> setenv envp ''RAUC_MF_COMPATIBLE'' c);
          envp = setenv envp ''RAUC_MF_VERSION'' (or_empty (mf_update_version mf));
          envp = setenv envp ''RAUC_MF_BUILD'' (or_empty (mf_update_build mf));
          envp = setenv envp ''RAUC_MOUNT_PREFIX'' (cfg_mount_prefix cfg)
      in r_environ_setenv_ptr_array envp (r_shell_from_manifest_meta mf) True)"

text \<open>An exit code from \<open>INSTALL_HOOK_REJECT_CODE\<close> on, with a message on standard error, rejects
  the bundle.\<close>

definition hook_error :: "gerror \<Rightarrow> string list \<Rightarrow> gerror" where
  "hook_error e lines = (case e of
      G_SPAWN_EXIT_ERROR code \<Rightarrow>
        if code \<ge> INSTALL_HOOK_REJECT_CODE \<and> lines \<noteq> [] then R_INSTALL_ERROR R_INSTALL_ERROR_REJECTED else e
    | _ \<Rightarrow> e)"

definition run_bundle_hook :: "'w launcher \<Rightarrow> install_context \<Rightarrow> rauc_config \<Rightarrow> rauc_manifest \<Rightarrow> string \<Rightarrow> string
    \<Rightarrow> ('w, unit) io" where
  "run_bundle_hook launch ctx cfg mf bundledir hook_cmd = (case mf_hook_name mf of
      None \<Rightarrow> io_abort
    | Some h \<Rightarrow> io_bind (io_lift (bundle_hook_environment cfg mf (ctx_environ ctx))) (\<lambda>env w.
        case launch [g_build_filename bundledir h, hook_cmd] env w of
          ((p, lines), w') \<Rightarrow> (case proc_wait_check p of
              Error e \<Rightarrow> (Error (hook_error e lines), w')
            | r \<Rightarrow> (r, w'))))"

definition launch_and_wait_custom_handler :: "'w launcher \<Rightarrow> (string \<Rightarrow> string list result) \<Rightarrow> install_context
    \<Rightarrow> string \<Rightarrow> rauc_manifest \<Rightarrow> environ \<Rightarrow> ('w, string list) io" where
  "launch_and_wait_custom_handler launch shell ctx bundledir mf env = (case mf_handler_name mf of
      None \<Rightarrow> io_abort
    | Some h \<Rightarrow>
        io_bind (io_lift (case mf_handler_args mf of None \<Rightarrow> Ok [] | Some a \<Rightarrow> shell a)) (\<lambda>argv1.
        io_bind (io_lift (case ctx_handlerextra ctx of None \<Rightarrow> Ok [] | Some a \<Rightarrow> shell a)) (\<lambda>argv2.
          launch_and_wait_handler launch (g_build_filename bundledir h) (argv1 @ argv2) env)))"

subsection \<open>Checks before writing\<close>

definition pre_install_check_slot_mount_status :: "rauc_slot \<Rightarrow> rauc_image \<Rightarrow> unit result" where
  "pre_install_check_slot_mount_status slot img =
     fail_if ((slot_mount_point slot \<noteq> None \<or> slot_ext_mount_point slot \<noteq> None) \<and>
         \<not> (slot_allow_mounted slot \<and> hooks_install img))
       (R_INSTALL_ERROR R_INSTALL_ERROR_MOUNTED)"

definition in_bundle :: "string \<Rightarrow> string \<Rightarrow> string" where
  "in_bundle bundledir f = (if g_path_is_absolute f then f else g_build_filename bundledir f)"

text \<open>The image's files, made absolute; a missing file name is an assertion failure unless the image
  has an install hook.\<close>

definition pre_install_check_image :: "'w os \<Rightarrow> string \<Rightarrow> 'w \<Rightarrow> rauc_image \<Rightarrow> rauc_image result" where
  "pre_install_check_image os bundledir w img = (case img_filename img of
      None \<Rightarrow> if hooks_install img then Ok img else Abort
    | Some f \<Rightarrow>
        let f = in_bundle bundledir f;
            converted = map_option (map (in_bundle bundledir)) (img_converted img)
        in result_bind (fail_if (\<not> os_file_exists os f w \<and> (converted = None \<or> converted = Some []))
              (G_FILE_ERROR G_FILE_ERROR_NOENT)) (\<lambda>_.
           result_bind (fail_if (\<not> list_all (\<lambda>c. os_file_exists os c w) (case converted of None \<Rightarrow> [] | Some cs \<Rightarrow> cs))
              (G_FILE_ERROR G_FILE_ERROR_NOENT)) (\<lambda>_.
             Ok (img\<lparr>img_filename := Some f, img_converted := converted\<rparr>))))"

definition pre_install_check_plan :: "'w os \<Rightarrow> (string \<times> string) list \<Rightarrow> slots \<Rightarrow> string \<Rightarrow> 'w \<Rightarrow> install_plan \<Rightarrow> install_plan result" where
  "pre_install_check_plan os repos slots bundledir w p =
     result_bind (pre_install_check_image os bundledir w (plan_image p)) (\<lambda>img.
     result_bind (case plan_target_slot p of
         Some n \<Rightarrow> (case slot_lookup slots n of
             None \<Rightarrow> Abort
           | Some slot \<Rightarrow>
               if plan_target_repo p \<noteq> None then Abort
               else result_bind (fail_if (\<not> os_file_exists os (slot_device slot) w) (G_FILE_ERROR G_FILE_ERROR_NOENT)) (\<lambda>_.
                 pre_install_check_slot_mount_status slot img))
       | None \<Rightarrow> (case Option.bind (plan_target_repo p) (map_of repos) of
             None \<Rightarrow> Abort
           | Some path \<Rightarrow> fail_if (\<not> os_file_exists os path w) (G_FILE_ERROR G_FILE_ERROR_NOENT))) (\<lambda>_.
       Ok (p\<lparr>plan_image := img\<rparr>)))"

fun pre_install_checks :: "'w os \<Rightarrow> (string \<times> string) list \<Rightarrow> slots \<Rightarrow> string \<Rightarrow> 'w \<Rightarrow> install_plan list \<Rightarrow> install_plan list result" where
  "pre_install_checks os repos slots bundledir w [] = Ok []"
| "pre_install_checks os repos slots bundledir w (p # ps) =
     result_bind (pre_install_check_plan os repos slots bundledir w p) (\<lambda>p.
     result_bind (pre_install_checks os repos slots bundledir w ps) (\<lambda>ps. Ok (p # ps)))"

subsection \<open>Updating one slot\<close>

definition update_slot_status :: "int \<Rightarrow> string \<Rightarrow> rauc_manifest \<Rightarrow> rauc_image \<Rightarrow> install_args \<Rightarrow> rauc_slot_status \<Rightarrow> rauc_slot_status" where
  "update_slot_status now status mf img args st =
     (let st = r_slot_clear_status st in
      st\<lparr>st_bundle_compatible := mf_update_compatible mf, st_bundle_version := mf_update_version mf,
         st_bundle_description := mf_update_description mf, st_bundle_build := mf_update_build mf,
         st_bundle_hash := mf_hash mf, st_status := Some status, st_checksum := img_checksum img,
         st_installed_txn := args_transaction args, st_installed_timestamp := Some now,
         st_installed_count := st_installed_count st + 1\<rparr>)"

definition modify_status :: "string \<Rightarrow> (rauc_slot_status \<Rightarrow> rauc_slot_status) \<Rightarrow> ('w sys, unit) io" where
  "modify_status n f = modify_slot n (\<lambda>s. s\<lparr>slot_status := map_option f (slot_status s)\<rparr>)"

definition record_status :: "'w os \<Rightarrow> string \<Rightarrow> string \<Rightarrow> rauc_manifest \<Rightarrow> rauc_image \<Rightarrow> install_args \<Rightarrow> ('w sys, unit) io" where
  "record_status os n status mf img args =
     io_bind get_world (\<lambda>w. modify_status n (update_slot_status (os_now os w) status mf img args))"

text \<open>With a central status file the slot is marked \<open>pending\<close>, without a digest, before it is written.\<close>

definition mark_pending :: "'w os \<Rightarrow> rauc_config \<Rightarrow> string \<Rightarrow> rauc_slot_status \<Rightarrow> ('w sys, unit) io" where
  "mark_pending os cfg n st =
     (if cfg_statusfile_path cfg = Some ''per-slot'' then io_return ()
      else
        io_bind (modify_status n (\<lambda>st. st\<lparr>st_status := Some ''pending'',
            st_checksum := (st_checksum st)\<lparr>cs_digest := None, cs_size := 0\<rparr>\<rparr>)) (\<lambda>_.
        io_bind (get_slot n) (\<lambda>slot.
        io_bind (io_warn (in_world (r_slot_move_checksum_data_directory os slot (cs_digest (st_checksum st)) None))) (\<lambda>_.
          r_slot_status_save os cfg n))))"

text \<open>\<open>write\<close> is the slot handler of \<open>update_handler.c\<close>.\<close>

type_synonym 'w writer = "img_to_slot_handler \<Rightarrow> rauc_image \<Rightarrow> string \<Rightarrow> string option \<Rightarrow> ('w sys, unit) io"

definition write_slot :: "'w os \<Rightarrow> 'w writer \<Rightarrow> rauc_config \<Rightarrow> rauc_manifest \<Rightarrow> install_args \<Rightarrow> string option
    \<Rightarrow> rauc_image \<Rightarrow> string \<Rightarrow> img_to_slot_handler \<Rightarrow> rauc_slot_status \<Rightarrow> ('w sys, unit) io" where
  "write_slot os write cfg mf args hook_name img n h st =
     io_bind (mark_pending os cfg n st) (\<lambda>_.
     io_bind (modify_status n (\<lambda>st. st\<lparr>st_status := Some ''update''\<rparr>)) (\<lambda>_.
     io_bind (io_catch (write h img n hook_name) (\<lambda>e.
         io_bind (record_status os n ''failed'' mf img args) (\<lambda>_.
         io_bind (io_warn (r_slot_status_save os cfg n)) (\<lambda>_. io_fail e)))) (\<lambda>_.
     io_bind (record_status os n ''ok'' mf img args) (\<lambda>_.
       r_slot_status_save os cfg n))))"

text \<open>The slot already holds the image.\<close>

definition slot_up_to_date :: "rauc_slot \<Rightarrow> rauc_slot_status \<Rightarrow> rauc_image \<Rightarrow> bool" where
  "slot_up_to_date slot st img \<longleftrightarrow> \<not> slot_install_same slot \<and> st_status st = Some ''ok'' \<and>
     cs_digest (img_checksum img) = cs_digest (st_checksum st)"

definition handle_slot_install_plan :: "'w os \<Rightarrow> 'w writer \<Rightarrow> rauc_config \<Rightarrow> rauc_manifest \<Rightarrow> install_args
    \<Rightarrow> string option \<Rightarrow> install_plan \<Rightarrow> ('w sys, unit) io" where
  "handle_slot_install_plan os write cfg mf args hook_name p = (case (plan_target_slot p, plan_slot_handler p) of
      (Some n, Some h) \<Rightarrow>
        io_bind (r_slot_status_load os cfg n) (\<lambda>_.
        io_bind (get_slot n) (\<lambda>slot.
        if slot_mount_point slot \<noteq> None then io_fail (R_INSTALL_ERROR R_INSTALL_ERROR_MOUNTED)
        else case slot_status slot of
          None \<Rightarrow> io_abort
        | Some st \<Rightarrow>
            if slot_up_to_date slot st (plan_image p)
            then io_bind (record_status os n ''ok'' mf (plan_image p) args) (\<lambda>_. r_slot_status_save os cfg n)
            else write_slot os write cfg mf args hook_name (plan_image p) n h st))
    | _ \<Rightarrow> io_abort)"

subsection \<open>The default installation procedure\<close>

fun boot_mark_loop :: "slots \<Rightarrow> install_plan list \<Rightarrow> string option \<Rightarrow> string option result" where
  "boot_mark_loop slots [] bootslot = Ok bootslot"
| "boot_mark_loop slots (p # ps) bootslot = (case plan_target_slot p of
      None \<Rightarrow> boot_mark_loop slots ps bootslot
    | Some n \<Rightarrow> (case slot_lookup slots n of
        None \<Rightarrow> Abort
      | Some slot \<Rightarrow>
          if slot_parent slot \<noteq> None \<or> slot_bootname slot = None then boot_mark_loop slots ps bootslot
          else if bootslot \<noteq> None then Abort
          else boot_mark_loop slots ps (Some n)))"

definition get_boot_mark_slot :: "slots \<Rightarrow> install_plan list \<Rightarrow> string option result" where
  "get_boot_mark_slot slots ps = boot_mark_loop slots ps None"

fun handle_plans :: "'w os \<Rightarrow> 'w writer \<Rightarrow> 'w artifact_ops \<Rightarrow> rauc_config \<Rightarrow> rauc_manifest \<Rightarrow> install_args
    \<Rightarrow> string option \<Rightarrow> install_plan list \<Rightarrow> ('w sys, unit) io" where
  "handle_plans os write arts cfg mf args hook_name [] = io_return ()"
| "handle_plans os write arts cfg mf args hook_name (p # ps) =
     io_bind (if plan_target_slot p \<noteq> None then handle_slot_install_plan os write cfg mf args hook_name p
              else if plan_target_repo p \<noteq> None then art_install arts mf p
              else io_return ()) (\<lambda>_.
       handle_plans os write arts cfg mf args hook_name ps)"

text \<open>Marking the target bad; the message of the error is read, so a failure without one crashes.\<close>

definition mark_nonbootable :: "'w os \<Rightarrow> rauc_config \<Rightarrow> string option \<Rightarrow> ('w sys, unit) io" where
  "mark_nonbootable os cfg bootslot = (case bootslot of
      None \<Rightarrow> io_return ()
    | Some n \<Rightarrow> io_catch (r_mark_bad os cfg n) (\<lambda>e. if e = ERROR_UNSET then io_abort
         else io_fail (R_INSTALL_ERROR R_INSTALL_ERROR_MARK_NONBOOTABLE)))"

definition activate_installed_slot :: "'w os \<Rightarrow> rauc_config \<Rightarrow> string option \<Rightarrow> ('w sys, unit) io" where
  "activate_installed_slot os cfg bootslot = (case bootslot of
      None \<Rightarrow> io_return ()
    | Some n \<Rightarrow> if cfg_activate_installed cfg then r_mark_active os cfg n else io_return ())"

definition launch_and_wait_default_handler :: "'w os \<Rightarrow> 'w writer \<Rightarrow> 'w artifact_ops \<Rightarrow> rauc_config \<Rightarrow> install_args
    \<Rightarrow> string \<Rightarrow> rauc_manifest \<Rightarrow> target_group \<Rightarrow> ('w sys, unit) io" where
  "launch_and_wait_default_handler os write arts cfg args bundledir mf tg =
     io_bind (r_install_make_plans arts cfg mf tg) (\<lambda>plans.
     io_bind get_slots (\<lambda>slots.
     io_bind (io_lift (get_boot_mark_slot slots plans)) (\<lambda>boot_mark_slot.
     io_bind get_world (\<lambda>w.
     io_bind (io_lift (pre_install_checks os (art_repos arts) slots bundledir w plans)) (\<lambda>plans.
     io_bind (mark_nonbootable os cfg boot_mark_slot) (\<lambda>_.
     io_bind (handle_plans os write arts cfg mf args (map_option (g_build_filename bundledir) (mf_hook_name mf)) plans) (\<lambda>_.
     io_bind (art_prune arts) (\<lambda>_.
       activate_installed_slot os cfg boot_mark_slot))))))))"

subsection \<open>Installing a bundle\<close>

text \<open>
  What the installation sees of a bundle, and the operations of \<open>bundle.c\<close> it uses. Mounting may
  set the mount point and the manifest of the bundle also when it fails.
\<close>

record rauc_bundle =
  bnd_manifest :: "rauc_manifest option"
  bnd_was_encrypted :: bool
  bnd_mount_point :: "string option"

record ('w, 'b) bundle_ops =
  bop_check :: "string \<Rightarrow> ('w sys, 'b rauc_bundle_scheme) io"
  bop_mount :: "'b rauc_bundle_scheme \<Rightarrow> 'w sys \<Rightarrow> (unit result \<times> 'b rauc_bundle_scheme) \<times> 'w sys"
  bop_umount :: "'b rauc_bundle_scheme \<Rightarrow> ('w sys, unit) io"

text \<open>The checks between \<open>check_bundle\<close> and \<open>mount_bundle\<close>.\<close>

definition bundle_acceptable :: "install_args \<Rightarrow> 'b rauc_bundle_scheme \<Rightarrow> unit result" where
  "bundle_acceptable args bundle =
     result_bind (case args_require_manifest_hash args of
         None \<Rightarrow> Ok ()
       | Some h \<Rightarrow> (case bnd_manifest bundle of
           None \<Rightarrow> Error (R_INSTALL_ERROR R_INSTALL_ERROR_REJECTED)
         | Some mf \<Rightarrow> fail_if (mf_hash mf \<noteq> Some h) (R_INSTALL_ERROR R_INSTALL_ERROR_REJECTED))) (\<lambda>_.
       case bnd_manifest bundle of
         None \<Rightarrow> Ok ()
       | Some mf \<Rightarrow> fail_if (mf_bundle_format mf = R_MANIFEST_FORMAT_CRYPT \<and> \<not> bnd_was_encrypted bundle)
           (R_INSTALL_ERROR R_INSTALL_ERROR_REJECTED))"

text \<open>Only an error that is set stops the installation after the install-check hook.\<close>

definition check_compatible :: "'w launcher \<Rightarrow> install_context \<Rightarrow> rauc_config \<Rightarrow> install_args \<Rightarrow> string \<Rightarrow> rauc_manifest
    \<Rightarrow> ('w sys, unit) io" where
  "check_compatible launch ctx cfg args mp mf =
     (if mf_install_check mf
      then io_catch (in_world (run_bundle_hook launch ctx cfg mf mp ''install-check''))
        (\<lambda>e. if e = ERROR_UNSET then io_return () else io_fail e)
      else io_lift (verify_compatible cfg args mf))"

definition run_system_handler :: "'w launcher \<Rightarrow> string option \<Rightarrow> environ \<Rightarrow> ('w sys, unit) io" where
  "run_system_handler launch handler env = (case handler of
      None \<Rightarrow> io_return ()
    | Some h \<Rightarrow> io_bind (in_world (launch_and_wait_handler launch h [] env)) (\<lambda>_. io_return ()))"

text \<open>From the target group to the post-install handler, with the bundle mounted at \<open>mp\<close>.\<close>

definition install_mounted :: "'w os \<Rightarrow> 'w launcher \<Rightarrow> (string \<Rightarrow> string list result) \<Rightarrow> 'w writer \<Rightarrow> 'w artifact_ops
    \<Rightarrow> install_context \<Rightarrow> rauc_config \<Rightarrow> install_args \<Rightarrow> string \<Rightarrow> string \<Rightarrow> rauc_manifest \<Rightarrow> ('w sys, unit) io" where
  "install_mounted os launch shell write arts ctx cfg args transaction mp mf =
     io_bind get_slots (\<lambda>slots.
     io_bind (io_lift (determine_target_install_group cfg slots)) (\<lambda>tg.
     io_bind (io_lift (prepare_environment ctx cfg slots mp mf transaction tg)) (\<lambda>env.
     io_bind (run_system_handler launch (cfg_preinstall_handler cfg) env) (\<lambda>_.
     io_bind (check_compatible launch ctx cfg args mp mf) (\<lambda>_.
     io_bind (io_lift (check_version_limits cfg args mf)) (\<lambda>_.
     io_bind
       (if mf_handler_name mf \<noteq> None
        then io_bind (in_world (launch_and_wait_custom_handler launch shell ctx mp mf env)) (\<lambda>_. io_return ())
        else launch_and_wait_default_handler os write arts cfg args mp mf tg) (\<lambda>_.
       run_system_handler launch (cfg_postinstall_handler cfg) env)))))))"

text \<open>The \<open>umount\<close> label: the outcome of unmounting the bundle is ignored.\<close>

definition finally_umount :: "('w, 'b) bundle_ops \<Rightarrow> 'b rauc_bundle_scheme \<Rightarrow> ('w sys, unit) io \<Rightarrow> ('w sys, unit) io" where
  "finally_umount bops bundle m s = (case m s of
      (Abort, s') \<Rightarrow> (Abort, s')
    | (r, s') \<Rightarrow>
        if bnd_mount_point bundle = None then (r, s')
        else (case bop_umount bops bundle s' of
            (Abort, s'') \<Rightarrow> (Abort, s'')
          | (_, s'') \<Rightarrow> (r, s'')))"

text \<open>A mounted bundle has a mount point and a manifest; otherwise a NULL pointer is used.\<close>

definition install_from :: "'w os \<Rightarrow> 'w launcher \<Rightarrow> (string \<Rightarrow> string list result) \<Rightarrow> 'w writer \<Rightarrow> 'w artifact_ops
    \<Rightarrow> ('w, 'b) bundle_ops \<Rightarrow> install_context \<Rightarrow> rauc_config \<Rightarrow> install_args \<Rightarrow> string \<Rightarrow> 'b rauc_bundle_scheme \<Rightarrow> ('w sys, unit) io" where
  "install_from os launch shell write arts bops ctx cfg args transaction bundle s =
     (case bop_mount bops bundle s of
        ((r, bundle'), s') \<Rightarrow>
          finally_umount bops bundle'
            (io_bind (io_lift r) (\<lambda>_. case (bnd_mount_point bundle', bnd_manifest bundle') of
                (Some mp, Some mf) \<Rightarrow> install_mounted os launch shell write arts ctx cfg args transaction mp mf
              | _ \<Rightarrow> io_abort)) s')"

definition do_install_bundle :: "'w os \<Rightarrow> 'w launcher \<Rightarrow> (string \<Rightarrow> string list result) \<Rightarrow> 'w writer \<Rightarrow> 'w artifact_ops
    \<Rightarrow> ('w, 'b) bundle_ops \<Rightarrow> ('w \<Rightarrow> (string \<times> string) list) \<Rightarrow> string \<Rightarrow> install_context \<Rightarrow> rauc_config \<Rightarrow> install_args
    \<Rightarrow> ('w sys, unit) io" where
  "do_install_bundle os launch shell write arts bops mounts uuid ctx cfg args =
     (let transaction = (case args_transaction args of None \<Rightarrow> uuid | Some t \<Rightarrow> t);
          args = args\<lparr>args_transaction := Some transaction\<rparr>
      in io_bind (update_external_mount_points os mounts) (\<lambda>_.
         io_bind (bop_check bops (args_name args)) (\<lambda>bundle.
         io_bind (io_lift (bundle_acceptable args bundle)) (\<lambda>_.
           install_from os launch shell write arts bops ctx cfg args transaction bundle))))"

text \<open>The event that is logged at the end. A failure without an error counts as a success here.\<close>

datatype install_event = INSTALLATION_SUCCEEDED | INSTALLATION_FAILED | INSTALLATION_REJECTED

record install_log =
  log_event :: install_event
  log_bundle_hash :: string
  log_bundle_description :: string
  log_bundle_version :: string
  log_transaction :: "string option"

definition log_event_installation_done :: "install_args \<Rightarrow> rauc_manifest option \<Rightarrow> gerror option \<Rightarrow> install_log" where
  "log_event_installation_done args mf e =
     \<lparr>log_event = (case e of
          None \<Rightarrow> INSTALLATION_SUCCEEDED
        | Some e \<Rightarrow>
            if e = R_INSTALL_ERROR R_INSTALL_ERROR_REJECTED \<or> e = R_INSTALL_ERROR R_INSTALL_ERROR_COMPAT_MISMATCH
            then INSTALLATION_REJECTED else INSTALLATION_FAILED),
      log_bundle_hash = (case mf of None \<Rightarrow> [] | Some m \<Rightarrow> or_empty (mf_hash m)),
      log_bundle_description = (case mf of None \<Rightarrow> [] | Some m \<Rightarrow> or_empty (mf_update_description m)),
      log_bundle_version = (case mf of None \<Rightarrow> [] | Some m \<Rightarrow> or_empty (mf_update_version m)),
      log_transaction = args_transaction args\<rparr>"

text \<open>The installer thread turns the outcome into the status code 0 or 1; it reads the message of the
  error.\<close>

definition install_thread :: "('w sys, unit) io \<Rightarrow> ('w sys, nat) io" where
  "install_thread install =
     io_catch (io_bind install (\<lambda>_. io_return 0)) (\<lambda>e. if e = ERROR_UNSET then io_abort else io_return 1)"

definition supported_http_headers :: "string list" where
  "supported_http_headers =
     [''boot-id'', ''transaction-id'', ''machine-id'', ''system-version'', ''serial'', ''variant'', ''uptime'']"

definition r_install_is_supported_http_header :: "string \<Rightarrow> bool" where
  "r_install_is_supported_http_header header \<longleftrightarrow> header \<in> set supported_http_headers"

end
