(* ===== verification/Install_Safety.thy ===== *)
theory Install_Safety
  imports Install_Run
begin

text \<open>
  The default installation procedure is safe: while slots are written the boot loader will not
  choose the target, and it is activated only after everything was written.
\<close>

subsection \<open>Operations that leave the boot loader alone\<close>

text \<open>
  \<open>v\<close> is what the boot loader answers. Creating, moving and deleting files of the status and data
  directories and mounting do not change it.
\<close>

locale boot_frame =
  fixes os :: "'w os" and v :: "'w \<Rightarrow> 'b"
  assumes mkdir: "preserves v (os_mkdir_with_parents os p)"
    and rmdir: "v (os_rmdir os p w) = v w"
    and rename: "preserves v (os_rename os p q)"
    and remove_tree: "preserves v (os_remove_tree os p)"
    and save_key_file: "preserves v (os_save_key_file os p kf)"
    and mount: "v (snd (os_run os (''mount'' # argv) w)) = v w"
    and umount: "v (snd (os_run os [''umount'', p] w)) = v w"
begin

lemma rm_tree_leaves [preserves_intros]: "preserves v (rm_tree os p)"
  unfolding rm_tree_def by (intro preserves_intros remove_tree)

lemma rmdir_leaves [preserves_intros]: "preserves v (\<lambda>w. (Ok (), os_rmdir os p w))"
  by (simp add: preserves_def rmdir)

lemma mount_leaves [preserves_intros]:
  "preserves v (r_mount_full (os_run os) src mp t opts)" "preserves v (r_umount (os_run os) mp)"
  using mount umount
  by (auto simp: preserves_def r_mount_full_def r_umount_def run_wait_check_def split: prod.splits option.splits)
    (metis snd_conv)+

lemma clean_data_loop_leaves: "preserves v (clean_data_loop os dir expected names)"
  by (induction names) (auto intro!: preserves_intros)

lemma clean_data_directory_leaves [preserves_intros]: "preserves v (r_slot_clean_data_directory os slot)"
proof -
  have "preserves v (\<lambda>w. case os_list_dir os dir w of
             None \<Rightarrow> (Ok (), w)
           | Some names \<Rightarrow> clean_data_loop os dir e names w)" for dir e
    using clean_data_loop_leaves by (auto simp: preserves_def split: option.splits)
  then show ?thesis unfolding r_slot_clean_data_directory_def by (intro preserves_intros)
qed

lemma move_data_directory_leaves [preserves_intros]:
  "preserves v (r_slot_move_checksum_data_directory os slot old_digest new_digest)"
proof -
  have "preserves v (\<lambda>w. if os_file_exists os p w then rm_tree os p w else (Ok (), w))" for p
    using rm_tree_leaves [of p] by (simp add: preserves_def)
  then show ?thesis
    unfolding r_slot_move_checksum_data_directory_def Let_def
    by (cases "slot_data_directory slot"; cases old_digest) (auto intro!: preserves_intros rename)
qed

lemma create_mount_point_leaves [preserves_intros]: "preserves v (r_create_mount_point os cfg n)"
  using preserves_bind [OF mkdir preserves_basic(1), of _ "\<lambda>_. g_build_filename (cfg_mount_prefix cfg) n"]
  by (auto simp: preserves_def r_create_mount_point_def Let_def)

lemma mount_slot_leaves [preserves_intros]: "leaves v (r_mount_slot os cfg n)" "leaves v (r_umount_slot os n)"
  unfolding r_mount_slot_def r_umount_slot_def by (intro preserves_intros; simp)+

lemma save_leaves [preserves_intros]: "leaves v (r_slot_status_save os cfg n)"
proof -
  have "preserves v (key_file_init_from_shared_status_file os path p)" for path p
    using preserves_bind [OF preserves_catch [OF rename [of path "path @ ''.broken''"] preserves_basic(1) [of _ "()"]]
        preserves_basic(1) [of _ "[]"]]
    by (auto simp: preserves_def key_file_init_from_shared_status_file_def Let_def split: result.splits)
  then have "preserves v (save_slot_status_globally os cfg slots)" for slots
    unfolding save_slot_status_globally_def by (intro preserves_intros save_key_file)
  moreover have "preserves v (r_slot_status_write os path st)" for path st
    unfolding r_slot_status_write_def by (rule save_key_file)
  ultimately show ?thesis
    unfolding r_slot_status_save_def save_slot_status_locally_def by (intro preserves_intros)
qed

lemma load_leaves [preserves_intros]: "leaves v (r_slot_status_load os cfg n)"
proof -
  have upd: "name_view (load_status_group parse kf grp slots) = name_view slots" for parse kf grp slots
    by (auto simp: load_status_group_def Let_def slot_update_def name_view_def split: option.splits)
  have "name_view (fold (load_status_group parse kf) grps slots) = name_view slots" for parse kf grps slots
    by (induction grps arbitrary: slots) (auto simp: upd)
  then have "name_view (map set_default_status (fold (load_status_group parse kf) grps slots)) = name_view slots"
    for parse kf grps slots
    by (auto simp: name_view_def set_default_status_def comp_def if_distrib cong: if_cong)
  then have "leaves v (\<lambda>(slots, w). (Ok (), (r_slot_status_load_globally os fn slots w, w)))" for fn
    by (auto simp: preserves_def r_slot_status_load_globally_def Let_def split: option.splits)
  moreover have "leaves v (load_slot_status_locally os cfg n)"
    unfolding load_slot_status_locally_def by (intro preserves_intros; simp)
  ultimately show ?thesis unfolding r_slot_status_load_def by (intro preserves_intros)
qed

end

subsection \<open>The installation steps\<close>

text \<open>
  Writing an image to a slot and the artifact repositories, which are no slots, do not change the
  boot loader's answers either; the repositories do not change the slot table.
\<close>

locale install_frame = boot_frame os v for os :: "'w os" and v :: "'w \<Rightarrow> 'b" +
  fixes wr :: "'w writer" and arts :: "'w artifact_ops"
  assumes wr_leaves: "leaves v (wr h img n hook)"
    and art_init: "preserves (\<lambda>s. (fst s, v (snd s))) (art_init arts)"
    and art_prune: "preserves (\<lambda>s. (fst s, v (snd s))) (art_prune arts)"
    and art_install: "preserves (\<lambda>s. (fst s, v (snd s))) (art_install arts mf p)"
begin

lemma leaves_table: "preserves (\<lambda>s. (fst s, v (snd s))) m \<Longrightarrow> leaves v m"
  by (auto simp: preserves_def)

lemmas art_leaves = art_init [THEN leaves_table] art_prune [THEN leaves_table] art_install [THEN leaves_table]

lemma modify_status_leaves [preserves_intros]: "leaves v (modify_status n f)"
  unfolding modify_status_def by (intro preserves_intros) simp

lemma handle_slot_leaves: "leaves v (handle_slot_install_plan os wr cfg mf args hook p)"
  unfolding handle_slot_install_plan_def write_slot_def record_status_def mark_pending_def
  by (cases "plan_target_slot p"; cases "plan_slot_handler p") (auto intro!: preserves_intros wr_leaves)

lemma handle_plans_leaves [preserves_intros]: "leaves v (handle_plans os wr arts cfg mf args hook ps)"
  by (induction ps) (auto intro!: preserves_intros handle_slot_leaves art_leaves)

lemma make_plans_table: "preserves (\<lambda>s. (fst s, v (snd s))) (r_install_make_plans arts cfg mf tg)"
  unfolding r_install_make_plans_def by (intro preserves_intros art_init art_prune)

end

subsection \<open>The boot loader's answers\<close>

text \<open>Which slots are good, which one is primary, and whether asking changes anything.\<close>

definition boot_view :: "'w os \<Rightarrow> rauc_config \<Rightarrow> ('w \<Rightarrow> bool) \<Rightarrow> 'w
    \<Rightarrow> bool \<times> (rauc_slot \<Rightarrow> bool result) \<times> (slots \<Rightarrow> rauc_slot result) \<times> (rauc_slot \<Rightarrow> bool)" where
  "boot_view os cfg I w = (I w, \<lambda>s. fst (r_boot_get_state os cfg s w),
     \<lambda>slots. fst (r_boot_get_primary os cfg slots w), \<lambda>s. snd (r_boot_get_state os cfg s w) = w)"

lemma boot_viewD:
  assumes "boot_view os cfg I w' = boot_view os cfg I w"
  shows "I w' = I w" "fst (r_boot_get_state os cfg s w') = fst (r_boot_get_state os cfg s w)"
    "fst (r_boot_get_primary os cfg slots w') = fst (r_boot_get_primary os cfg slots w)"
    "r_boot_get_state os cfg s w' = (Ok b, w') \<longleftrightarrow> r_boot_get_state os cfg s w = (Ok b, w)"
proof -
  show "I w' = I w" "fst (r_boot_get_primary os cfg slots w') = fst (r_boot_get_primary os cfg slots w)"
    using assms by (simp_all add: boot_view_def fun_eq_iff)
  show st: "fst (r_boot_get_state os cfg s w') = fst (r_boot_get_state os cfg s w)"
    using assms by (simp add: boot_view_def fun_eq_iff)
  have "(snd (r_boot_get_state os cfg s w') = w') = (snd (r_boot_get_state os cfg s w) = w)"
    using assms by (simp add: boot_view_def fun_eq_iff)
  with st show "r_boot_get_state os cfg s w' = (Ok b, w') \<longleftrightarrow> r_boot_get_state os cfg s w = (Ok b, w)"
    by (simp add: prod_eq_iff)
qed

lemma bootnames_view: "name_view ss = name_view ss' \<Longrightarrow> bootnames ss = bootnames ss'"
proof -
  have "bootnames ss = concat (map (\<lambda>p. case snd p of None \<Rightarrow> [] | Some b \<Rightarrow> [b]) (name_view ss))" for ss
    by (simp add: bootnames_def name_view_def comp_def)
  then show "name_view ss = name_view ss' \<Longrightarrow> bootnames ss = bootnames ss'" by simp
qed

lemma names_view: "name_view ss = name_view ss' \<Longrightarrow> map slot_name ss = map slot_name ss'"
proof -
  have "map slot_name ss = map fst (name_view ss)" for ss by (simp add: name_view_def comp_def)
  then show "name_view ss = name_view ss' \<Longrightarrow> map slot_name ss = map slot_name ss'" by simp
qed

text \<open>What the backends need of the slot table are the names.\<close>

lemma boot_ok_view: "boot_ok os cfg ss I \<Longrightarrow> name_view ss' = name_view ss \<Longrightarrow> boot_ok os cfg ss' I"
  using bootnames_view [of ss' ss] names_view [of ss' ss]
  by (simp add: boot_ok_def barebox_backend_def barebox_backend_axioms_def grub_backend_def grub_backend_axioms_def
      uboot_backend_def uboot_backend_axioms_def boot_slots_ok_def)

lemma lookup_view:
  assumes "name_view ss' = name_view ss" and "slot_lookup ss n = Some s"
  obtains s' where "slot_lookup ss' n = Some s'" "slot_bootname s' = slot_bootname s"
proof -
  have eq: "map_option slot_bootname (slot_lookup ss n) = map_of (name_view ss) n" for ss
    by (induction ss) (auto simp: slot_lookup_def name_view_def)
  then have "map_option slot_bootname (slot_lookup ss' n) = Some (slot_bootname s)" using assms by (metis option.map(2))
  then show ?thesis using that by auto
qed

subsection \<open>Marking and activating\<close>

definition target_disabled :: "'w os \<Rightarrow> rauc_config \<Rightarrow> slots \<Rightarrow> string \<Rightarrow> 'w \<Rightarrow> 'w \<Rightarrow> bool" where
  "target_disabled os cfg slots n w w' \<longleftrightarrow>
     (\<forall>s. slot_lookup slots n = Some s \<longrightarrow>
        fst (r_boot_get_state os cfg s w') \<noteq> Ok True \<and> fst (r_boot_get_primary os cfg slots w') \<noteq> Ok s) \<and>
     (\<forall>t. bootable slots t \<and> slot_name t \<noteq> n \<and> r_boot_get_state os cfg t w = (Ok True, w) \<longrightarrow>
        r_boot_get_state os cfg t w' = (Ok True, w'))"

definition target_active :: "'w os \<Rightarrow> rauc_config \<Rightarrow> slots \<Rightarrow> string \<Rightarrow> 'w \<Rightarrow> bool" where
  "target_active os cfg slots n w' \<longleftrightarrow> (\<exists>table s. name_view table = name_view slots \<and> slot_lookup table n = Some s \<and>
     fst (r_boot_get_primary os cfg table w') = Ok s \<and> fst (r_boot_get_state os cfg s w') = Ok True)"

lemma target_disabled_view:
  assumes "target_disabled os cfg slots n w w'" and "boot_view os cfg I w'' = boot_view os cfg I w'"
  shows "target_disabled os cfg slots n w w''"
  using assms(1) by (simp only: target_disabled_def boot_viewD [OF assms(2)])

lemma mark_bad_disables:
  assumes "boot_ok os cfg slots I" and "I w" and "slot_lookup slots n = Some s" and "slot_bootname s \<noteq> None"
    and "r_mark_bad os cfg n (slots, w) = (Ok (), (slots', w'))"
  shows "slots' = slots" "I w'" "target_disabled os cfg slots n w w'"
proof -
  from assms(5) mark_bad_Ok [of os cfg n slots w slots' w'] assms(3)
  have set: "r_boot_set_state os cfg s False w = (Ok (), w')" and eq: "slots' = slots" by auto
  have s: "bootable slots s" using assms(3,4) slot_lookup_Some by (auto simp: bootable_def)
  note contract = boot_ok_contract [OF assms(1)]
  show "slots' = slots" by (rule eq)
  show "I w'" by (rule boot_backend.set_bad_inv [OF contract assms(2) s set])
  have "r_boot_get_state os cfg t w' = (Ok True, w')"
    if "bootable slots t" "slot_name t \<noteq> n" "r_boot_get_state os cfg t w = (Ok True, w)" for t
    using boot_backend.good_kept_by_set_bad [OF contract assms(2) s that(1) _ that(3) set] that(2)
      slot_lookup_Some [OF assms(3)] by auto
  then show "target_disabled os cfg slots n w w'"
    using boot_backend.bad_after_set_bad [OF contract assms(2) s set]
      boot_backend.not_primary_after_set_bad [OF contract assms(2) s set] assms(3)
    by (auto simp: target_disabled_def)
qed

lemma mark_active_enables:
  assumes "boot_frame os (boot_view os cfg I)" and "boot_ok os cfg slots I" and "I w"
    and "slot_lookup slots n = Some s" and "slot_bootname s \<noteq> None"
    and "r_mark_active os cfg n (slots, w) = (Ok (), (slots', w'))"
  shows "target_active os cfg slots n w'"
proof -
  from mark_active_run [OF assms(6)] obtain ss1 w1 slot st w2 x where
    load: "r_slot_status_load os cfg n (slots, w) = (Ok (), (ss1, w1))"
    and slot: "slot_lookup ss1 n = Some slot" "slot_status slot = Some st"
    and prim: "r_boot_set_primary os cfg ss1 slot w1 = (Ok (), w2)"
    and save: "io_warn (r_slot_status_save os cfg n)
      (slot_update ss1 n (\<lambda>s. s\<lparr>slot_status := map_option (activate_status (os_now os w2)) (slot_status s)\<rparr>), w2)
        = (Ok x, (slots', w'))" .
  from preservesD [OF boot_frame.load_leaves [OF assms(1)] load]
  have view1: "name_view ss1 = name_view slots" "boot_view os cfg I w1 = boot_view os cfg I w" by simp_all
  from preservesD [OF preserves_warn [OF boot_frame.save_leaves [OF assms(1)]] save]
  have view2: "boot_view os cfg I w' = boot_view os cfg I w2" by simp
  have "slot_bootname slot \<noteq> None"
    using lookup_view [OF view1(1) assms(4)] slot(1) assms(5) by (metis option.inject)
  then have b: "bootable ss1 slot" using slot(1) slot_lookup_Some by (auto simp: bootable_def)
  note contract = boot_ok_contract [OF boot_ok_view [OF assms(2) view1(1)]]
  have I1: "I w1" using boot_viewD(1) [OF view1(2)] assms(3) by simp
  have "fst (r_boot_get_primary os cfg ss1 w') = Ok slot"
    using boot_primary.primary_after_set_primary [OF boot_backend.axioms(1) [OF contract] I1 b prim]
    by (simp add: boot_viewD(3) [OF view2])
  moreover have "fst (r_boot_get_state os cfg slot w') = Ok True"
    using boot_backend.good_after_set_primary [OF contract I1 b prim] by (simp add: boot_viewD(2) [OF view2])
  ultimately show ?thesis using view1(1) slot(1) unfolding target_active_def by blast
qed

lemma boot_mark_loop_bootname:
  assumes "boot_mark_loop slots ps b = Ok (Some n)" and "\<And>m. b = Some m \<Longrightarrow> \<exists>s. slot_lookup slots m = Some s \<and> slot_bootname s \<noteq> None"
  shows "\<exists>s. slot_lookup slots n = Some s \<and> slot_bootname s \<noteq> None"
  using assms by (induction ps arbitrary: b) (auto split: option.splits if_splits)

subsection \<open>The whole procedure\<close>

lemma io_warn_no_Error: "fst (io_warn m s) \<noteq> Error e"
  by (cases "m s") (auto simp: io_warn_def io_catch_def io_bind_def io_return_def io_abort_def split: result.splits)

lemma mark_error_Error: "mark_error m w = (Error e, w') \<Longrightarrow> e = R_INSTALL_ERROR R_INSTALL_ERROR_MARK_BOOTABLE"
  by (cases "m w") (auto simp: mark_error_def io_catch_def io_abort_def io_fail_def split: result.splits if_splits)

lemma io_bind_Error_iff:
  "io_bind m k w = (Error e, w'') \<longleftrightarrow>
     m w = (Error e, w'') \<or> (\<exists>x w'. m w = (Ok x, w') \<and> k x w' = (Error e, w''))"
  by (cases "m w") (auto simp: io_bind_def split: result.splits)

lemma sys_Error_iff:
  "in_world m' s = (Error e, s') \<longleftrightarrow> fst s' = fst s \<and> m' (snd s) = (Error e, snd s')"
  "get_slot n s \<noteq> (Error e, s')"
  by (cases "m' (snd s)"; cases s') (auto simp: in_world_def get_slot_def split: option.splits)

lemma mark_active_Error:
  assumes "boot_frame os v" and "r_mark_active os cfg n (slots, w) = (Error e, (slots', w'))"
    and "e \<noteq> R_INSTALL_ERROR R_INSTALL_ERROR_MARK_BOOTABLE"
  shows "v w' = v w"
proof -
  have no_warn: "io_warn m s \<noteq> (Error e, s')" for m :: "('a sys, unit) io" and s s'
    using io_warn_no_Error [of m s e] by auto
  have "r_slot_status_load os cfg n (slots, w) = (Error e, (slots', w'))"
    using assms(2,3)
    by (auto simp: r_mark_active_def io_bind_Error_iff sys_Error_iff io_iff no_warn
        dest: mark_error_Error split: if_splits)
  from preservesD [OF boot_frame.load_leaves [OF assms(1)] this] show ?thesis by simp
qed

context install_frame
begin

text \<open>From the marking of the target on.\<close>

definition write_phase :: "rauc_config \<Rightarrow> rauc_manifest \<Rightarrow> install_args \<Rightarrow> string option \<Rightarrow> install_plan list \<Rightarrow> string option
    \<Rightarrow> ('w sys, unit) io" where
  "write_phase cfg mf args hook plans bootslot =
     io_bind (mark_nonbootable os cfg bootslot) (\<lambda>_.
     io_bind (handle_plans os wr arts cfg mf args hook plans) (\<lambda>_.
     io_bind (art_prune arts) (\<lambda>_. activate_installed_slot os cfg bootslot)))"

lemma written_view:
  assumes "io_bind (handle_plans os wr arts cfg mf args hook plans) (\<lambda>_. art_prune arts) (ss, w) = (r, (ss', w'))"
  shows "name_view ss' = name_view ss" "v w' = v w"
proof -
  have "leaves v (io_bind (handle_plans os wr arts cfg mf args hook plans) (\<lambda>_. art_prune arts))"
    by (intro preserves_intros art_leaves)
  from preservesD [OF this assms] show "name_view ss' = name_view ss" "v w' = v w" by simp_all
qed

lemma write_phase_cases:
  assumes "write_phase cfg mf args hook plans b s = (r, s')"
  obtains "fst (mark_nonbootable os cfg b s) = r" "r \<noteq> Ok ()"
  | s1 where "mark_nonbootable os cfg b s = (Ok (), s1)" "r \<noteq> Ok ()"
      "io_bind (handle_plans os wr arts cfg mf args hook plans) (\<lambda>_. art_prune arts) s1 = (r, s')"
  | s1 s2 where "mark_nonbootable os cfg b s = (Ok (), s1)"
      "io_bind (handle_plans os wr arts cfg mf args hook plans) (\<lambda>_. art_prune arts) s1 = (Ok (), s2)"
      "activate_installed_slot os cfg b s2 = (r, s')"
proof -
  define h where "h = io_bind (handle_plans os wr arts cfg mf args hook plans) (\<lambda>_. art_prune arts)"
  obtain r1 s1 where m: "mark_nonbootable os cfg b s = (r1, s1)" by (cases "mark_nonbootable os cfg b s")
  obtain r2 s2 where h: "h s1 = (r2, s2)" by (cases "h s1")
  have "io_bind (handle_plans os wr arts cfg mf args hook plans) (\<lambda>_.
     io_bind (art_prune arts) (\<lambda>_. activate_installed_slot os cfg b)) = io_bind h (\<lambda>_. activate_installed_slot os cfg b)"
    by (rule ext) (simp add: h_def io_bind_def split: prod.splits result.splits)
  then have "write_phase cfg mf args hook plans b s =
      io_bind (mark_nonbootable os cfg b) (\<lambda>_. io_bind h (\<lambda>_. activate_installed_slot os cfg b)) s"
    by (simp add: write_phase_def)
  then have run: "(r, s') = (case r1 of Ok _ \<Rightarrow> (case r2 of Ok _ \<Rightarrow> activate_installed_slot os cfg b s2
        | Error e \<Rightarrow> (Error e, s2) | Abort \<Rightarrow> (Abort, s2)) | Error e \<Rightarrow> (Error e, s1) | Abort \<Rightarrow> (Abort, s1))"
    using assms m h by (cases r1) (simp_all add: io_bind_def)
  note h = h [unfolded h_def]
  consider "r1 \<noteq> Ok ()" | "r1 = Ok ()" "r2 \<noteq> Ok ()" | "r1 = Ok ()" "r2 = Ok ()" by blast
  then show ?thesis
  proof cases
    case 1
    then have "r = r1" using run by (cases r1) auto
    then show ?thesis using that(1) m 1 by simp
  next
    case 2
    then have "r = r2 \<and> s' = s2" using run by (cases r2) auto
    then show ?thesis using that(2) m h 2 by simp
  next
    case 3
    then have "activate_installed_slot os cfg b s2 = (r, s')" using run by simp
    then show ?thesis using that(3) m h 3 by simp
  qed
qed

end

text \<open>The outcome of the procedure for the boot loader, by what it returned.\<close>

definition boot_outcome :: "'w os \<Rightarrow> rauc_config \<Rightarrow> slots \<Rightarrow> string \<Rightarrow> 'w \<Rightarrow> 'w \<Rightarrow> unit result \<Rightarrow> bool" where
  "boot_outcome os cfg slots n w w' r = (case r of
      Ok _ \<Rightarrow> if cfg_activate_installed cfg then target_active os cfg slots n w' else target_disabled os cfg slots n w w'
    | Error e \<Rightarrow> e = R_INSTALL_ERROR R_INSTALL_ERROR_MARK_NONBOOTABLE \<or> e = R_INSTALL_ERROR R_INSTALL_ERROR_MARK_BOOTABLE \<or>
        target_disabled os cfg slots n w w'
    | Abort \<Rightarrow> True)"

lemma write_phase_outcome:
  assumes frame: "install_frame os (boot_view os cfg I) wr arts" and "boot_ok os cfg slots I" and "I w"
    and slot: "slot_lookup slots n = Some s" "slot_bootname s \<noteq> None"
    and run: "install_frame.write_phase os wr arts cfg mf args hook plans (Some n) (slots, w) = (r, (slots', w'))"
  shows "boot_outcome os cfg slots n w w' r"
proof -
  note bf = install_frame.axioms(1) [OF frame]
  have disabled: "slots1 = slots \<and> I w1 \<and> target_disabled os cfg slots n w w1"
    if "mark_nonbootable os cfg (Some n) (slots, w) = (Ok (), (slots1, w1))" for slots1 w1
    using that mark_bad_disables [OF assms(2,3) slot]
    by (auto simp: mark_nonbootable_def io_iff split: if_splits)
  show ?thesis
  proof (rule install_frame.write_phase_cases [OF frame run], goal_cases)
    case 1
    then show ?thesis
      by (cases "r_mark_bad os cfg n (slots, w)")
        (auto simp: mark_nonbootable_def io_catch_def io_abort_def io_fail_def boot_outcome_def
          split: result.splits if_splits)
  next
    case (2 s1)
    obtain ss1 w1 where s1: "s1 = (ss1, w1)" by (cases s1)
    have "target_disabled os cfg slots n w w1" using disabled [OF 2(1) [unfolded s1]] by simp
    then have "target_disabled os cfg slots n w w'"
      by (rule target_disabled_view) (rule install_frame.written_view(2) [OF frame 2(3) [unfolded s1]])
    then show ?thesis using 2(2) by (auto simp: boot_outcome_def split: result.splits)
  next
    case (3 s1 s2)
    obtain ss1 w1 ss2 w2 where s12: "s1 = (ss1, w1)" "s2 = (ss2, w2)" by (cases s1; cases s2)
    note view = install_frame.written_view [OF frame 3(2) [unfolded s12]]
    have dis1: "target_disabled os cfg slots n w w1" and I2: "I w2" and eq: "name_view ss2 = name_view slots"
      using disabled [OF 3(1) [unfolded s12(1)]] boot_viewD(1) [OF view(2)] view(1) by auto
    have dis: "target_disabled os cfg slots n w w2" by (rule target_disabled_view [OF dis1 view(2)])
    show ?thesis
    proof (cases "cfg_activate_installed cfg")
      case False
      then have "w' = w2" "r = Ok ()" using 3(3) s12 by (auto simp: activate_installed_slot_def io_iff)
      then show ?thesis using dis False by (simp add: boot_outcome_def)
    next
      case True
      then have act: "r_mark_active os cfg n (ss2, w2) = (r, (slots', w'))"
        using 3(3) s12 by (simp add: activate_installed_slot_def)
      obtain s2' where "slot_lookup ss2 n = Some s2'" "slot_bootname s2' = slot_bootname s"
        using lookup_view [OF eq slot(1)] by blast
      with mark_active_enables [OF bf boot_ok_view [OF assms(2) eq] I2] slot(2) act
      have "r = Ok () \<Longrightarrow> target_active os cfg ss2 n w'" by auto
      then have "r = Ok () \<Longrightarrow> target_active os cfg slots n w'" using eq by (simp add: target_active_def)
      moreover have "target_disabled os cfg slots n w w'"
        if "r = Error e" "e \<noteq> R_INSTALL_ERROR R_INSTALL_ERROR_MARK_BOOTABLE" for e
        by (rule target_disabled_view [OF dis mark_active_Error [OF bf act [unfolded that(1)] that(2)]])
      ultimately show ?thesis using True by (auto simp: boot_outcome_def split: result.splits)
    qed
  qed
qed

lemma boot_outcome_from:
  assumes "boot_view os cfg I w1 = boot_view os cfg I w" and "boot_outcome os cfg slots n w1 w' r"
  shows "boot_outcome os cfg slots n w w' r"
proof -
  have "target_disabled os cfg slots n w1 w' \<Longrightarrow> target_disabled os cfg slots n w w'"
    by (simp only: target_disabled_def boot_viewD(4) [OF assms(1)])
  then show ?thesis using assms(2) by (auto simp: boot_outcome_def split: result.splits if_splits)
qed

text \<open>
  C1. The default installation procedure is safe for the boot loader (U-Boot, GRUB or barebox), when
  one of the planned images goes to a slot with a bootname, the target of the marking. After success
  with \<open>activate-installed\<close> the target is primary and good; after success without it, the target is
  neither primary nor good and every other good slot is still good. After a failure that is not one of
  marking the target non-bootable or of activating it, the same holds, or the boot loader's answers are
  as before the installation. Nothing is promised when one of these two steps fails (the calls of the
  boot loader may then have had any effect), or when the process is aborted after the first of them.
  What is written to slots, status files and artifact repositories is assumed not to be the boot
  loader's own storage.
\<close>

theorem default_install_boot_safe:
  assumes frame: "install_frame os (boot_view os cfg I) wr arts" and "boot_ok os cfg slots I" and "I w"
    and plans: "r_install_make_plans arts cfg mf tg (slots, w) = (Ok plans, s1)"
    and target: "get_boot_mark_slot slots plans = Ok (Some n)"
    and run: "launch_and_wait_default_handler os wr arts cfg args bundledir mf tg (slots, w) = (r, (slots', w'))"
  shows "boot_outcome os cfg slots n w w' r \<or> r \<noteq> Ok () \<and> boot_view os cfg I w' = boot_view os cfg I w"
proof -
  obtain w1 where s1: "s1 = (slots, w1)" and view: "boot_view os cfg I w1 = boot_view os cfg I w"
    using preservesD [OF install_frame.make_plans_table [OF frame] plans] by (cases s1) auto
  obtain s where s: "slot_lookup slots n = Some s" "slot_bootname s \<noteq> None"
    using boot_mark_loop_bootname [OF target [unfolded get_boot_mark_slot_def]] by auto
  let ?hook = "map_option (g_build_filename bundledir) (mf_hook_name mf)"
  let ?checks = "pre_install_checks os (art_repos arts) slots bundledir w1 plans"
  have "(r, (slots', w')) = (case ?checks of
      Ok plans' \<Rightarrow> install_frame.write_phase os wr arts cfg mf args ?hook plans' (Some n) (slots, w1)
    | Error e \<Rightarrow> (Error e, (slots, w1)) | Abort \<Rightarrow> (Abort, (slots, w1)))"
    using run plans target s1
    by (simp add: launch_and_wait_default_handler_def install_frame.write_phase_def [OF frame] io_bind_def [of "r_install_make_plans arts cfg mf tg"]
        io_bind_def [of get_slots] io_bind_def [of get_world] io_bind_def [of "io_lift q" for q] get_slots_def get_world_def io_lift_def
        split: result.splits)
  then consider plans' where "install_frame.write_phase os wr arts cfg mf args ?hook plans' (Some n) (slots, w1) = (r, (slots', w'))"
    | "r \<noteq> Ok ()" "w' = w1" by (cases ?checks) auto
  then show ?thesis
  proof cases
    case (1 plans')
    have "I w1" using boot_viewD(1) [OF view] assms(3) by simp
    from write_phase_outcome [OF frame assms(2) this s 1] show ?thesis using boot_outcome_from [OF view] by simp
  next
    case 2
    then show ?thesis using view by simp
  qed
qed

subsection \<open>An example installation\<close>

definition install_demo_os :: "(string \<times> string) list os" where
  "install_demo_os = (os_programs fw_env_sim)\<lparr>os_file_exists := (\<lambda>p w. True), os_save_key_file := (\<lambda>p kf. io_return ())\<rparr>"

definition install_demo_config :: rauc_config where
  "install_demo_config = boot_demo_config\<lparr>cfg_statusfile_path := Some ''/data/central.raucs''\<rparr>"

definition install_demo_writer :: "(string \<times> string) list writer" where
  "install_demo_writer h img n hook = io_return ()"

definition install_demo_arts :: "(string \<times> string) list artifact_ops" where
  "install_demo_arts = \<lparr>art_repos = [], art_init = io_return (), art_prune = io_return (), art_install = (\<lambda>mf p. io_return ())\<rparr>"

lemma install_demo_os_simps [simp]:
  "os_run install_demo_os = fw_env_sim" "os_mkdir_with_parents install_demo_os p = io_fail (G_FILE_ERROR G_FILE_ERROR_FAILED)"
  "os_rmdir install_demo_os p w = w" "os_rename install_demo_os p q = io_fail (G_FILE_ERROR G_FILE_ERROR_NOENT)"
  "os_remove_tree install_demo_os p = io_fail (G_FILE_ERROR G_FILE_ERROR_NOENT)"
  "os_save_key_file install_demo_os p kf = io_return ()"
  by (simp_all add: install_demo_os_def os_programs_def)

interpretation install_demo: install_frame install_demo_os v install_demo_writer install_demo_arts for v
proof unfold_locales
  show "v (snd (os_run install_demo_os (''mount'' # argv) w)) = v w" for argv w
    by (cases "(''mount'' # argv, w)" rule: fw_env_sim.cases) simp_all
  show "v (snd (os_run install_demo_os [''umount'', p] w)) = v w" for p w by simp
qed (simp_all add: install_demo_writer_def install_demo_arts_def preserves_basic)

definition install_demo_slots :: slots where
  "install_demo_slots = map (\<lambda>s. s\<lparr>slot_type := ''raw''\<rparr>) mark_demo_slots"

lemma install_demo_boot_ok: "boot_ok install_demo_os install_demo_config install_demo_slots (uboot_inv map_of)"
proof -
  have "boot_slots_ok install_demo_slots" by code_simp
  then have "uboot_backend fw_env_sim map_of install_demo_slots"
    using fw_sim.fw_env_tools_axioms by (simp add: uboot_backend_def uboot_backend_axioms_def)
  then show ?thesis by (auto simp: boot_ok_def install_demo_config_def boot_demo_config_def)
qed

definition install_demo_args :: install_args where
  "install_demo_args = \<lparr>args_name = ''/b.raucb'', args_ignore_compatible = False, args_ignore_version_limit = False,
     args_require_manifest_hash = None, args_transaction = None\<rparr>"

definition install_demo_run where
  "install_demo_run = launch_and_wait_default_handler install_demo_os install_demo_writer install_demo_arts
     install_demo_config install_demo_args ''/mnt/b'' plan_demo_manifest [(''rootfs'', ''rootfs.1'')]
     (install_demo_slots, uboot_demo_env)"

theorem default_install_boot_safe_witness:
  "fst install_demo_run = Ok () \<and>
   target_active install_demo_os install_demo_config install_demo_slots ''rootfs.1'' (snd (snd install_demo_run))"
proof -
  let ?plan = "\<lparr>plan_image = mf_images plan_demo_manifest ! 0, plan_target_slot = Some ''rootfs.1'',
      plan_slot_handler = Some img_to_raw_handler, plan_target_repo = None\<rparr>"
  have ok: "fst install_demo_run = Ok ()" by code_simp
  have inv: "uboot_inv map_of uboot_demo_env" by code_simp
  have plans: "r_install_make_plans install_demo_arts install_demo_config plan_demo_manifest [(''rootfs'', ''rootfs.1'')]
      (install_demo_slots, uboot_demo_env) = (Ok [?plan], (install_demo_slots, uboot_demo_env))" by code_simp
  have tgt: "get_boot_mark_slot install_demo_slots [?plan] = Ok (Some ''rootfs.1'')" by code_simp
  have run: "launch_and_wait_default_handler install_demo_os install_demo_writer install_demo_arts
     install_demo_config install_demo_args ''/mnt/b'' plan_demo_manifest [(''rootfs'', ''rootfs.1'')]
     (install_demo_slots, uboot_demo_env) = (Ok (), (fst (snd install_demo_run), snd (snd install_demo_run)))"
    using ok by (simp add: install_demo_run_def prod_eq_iff)
  have act: "cfg_activate_installed install_demo_config" by code_simp
  from default_install_boot_safe [OF install_demo.install_frame_axioms install_demo_boot_ok inv plans tgt run]
  show ?thesis using ok act by (simp add: boot_outcome_def)
qed

end
