(* ===== verification/Artifacts.thy ===== *)
theory Artifacts
  imports Manifest Mount
begin

text \<open>
  Artifact repositories (\<open>src/src/artifacts.c\<close>), in a build without composefs support.

  A repository is a directory. The content of an artifact is the entry \<open>.artifact-<name>-<digest>\<close>;
  the artifact is active while a symbolic link \<open><name>\<close> points to it (in a sub-directory per parent
  slot, for repositories with a parent class). The in-memory repository is shared mutable state: the
  operations run on a pair of the repository and the outside world, and both keep their changes when
  an operation fails. Pointers to the two heap objects of a repository are NULL, valid or dangling.
\<close>

subsection \<open>Data\<close>

datatype 'a ptr = Null | Ptr 'a | Dangling

record rartifact =
  art_name :: string
  art_bundle_compatible :: "string option"
  art_bundle_version :: "string option"
  art_bundle_description :: "string option"
  art_bundle_build :: "string option"
  art_bundle_hash :: "string option"
  art_checksum :: rauc_checksum
  art_references :: "string list"
  art_path :: "string option"
  art_path_tmp :: "string option"

text \<open>The table of the instances of each artifact, by name and then by digest.\<close>

type_synonym instances = "(string option \<times> rartifact) list"
type_synonym artifact_table = "(string \<times> instances) list"

record artifact_repo =
  repo_name :: string
  repo_description :: "string option"
  repo_path :: string
  repo_type :: string
  repo_parent_class :: "string option"
  repo_artifacts :: "artifact_table ptr"
  repo_possible_references :: "string list ptr"

type_synonym 'w repo_sys = "artifact_repo \<times> 'w"

definition artifact_new0 :: "string \<Rightarrow> string option \<Rightarrow> rartifact" where
  "artifact_new0 name digest = \<lparr>art_name = name, art_bundle_compatible = None, art_bundle_version = None,
     art_bundle_description = None, art_bundle_build = None, art_bundle_hash = None,
     art_checksum = checksum_new0\<lparr>cs_digest := digest\<rparr>, art_references = [], art_path = None, art_path_tmp = None\<rparr>"

text \<open>
  What the repositories use of the file system beyond \<open>os\<close>: symbolic links, errors of opening a
  directory, the walk of \<open>nftw\<close> (the entries visited, and whether the walk itself fails), leases,
  and the streams of the copy. The results of the successive reads of a file are a list.
\<close>

datatype ftw_type = FTW_F | FTW_SL | FTW_DP | FTW_OTHER
datatype lease_result = Lease_Granted | Lease_Open_Failed g_file_error | Lease_Busy | Lease_Failed g_file_error

record 'w fs =
  fs_os :: "'w os"
  fs_list_dir :: "string \<Rightarrow> 'w \<Rightarrow> string list result"
  fs_is_symlink :: "string \<Rightarrow> 'w \<Rightarrow> bool"
  fs_read_link :: "string \<Rightarrow> 'w \<Rightarrow> string result"
  fs_symlink :: "string \<Rightarrow> string \<Rightarrow> ('w, unit) io"
  fs_unlink :: "string \<Rightarrow> ('w, unit) io"
  fs_mkdir :: "string \<Rightarrow> ('w, unit) io"
  fs_open_dir :: "string \<Rightarrow> 'w \<Rightarrow> unit result"
  fs_syncfs :: "string \<Rightarrow> ('w, unit) io"
  fs_fsync :: "string \<Rightarrow> ('w, unit) io"
  fs_walk :: "string \<Rightarrow> 'w \<Rightarrow> (string \<times> ftw_type) list \<times> bool"
  fs_lease :: "string \<Rightarrow> 'w \<Rightarrow> lease_result"
  fs_reads :: "'w reader"
  fs_create :: "string \<Rightarrow> ('w, unit) io"
  fs_write :: "string \<Rightarrow> string \<Rightarrow> ('w, unit) io"
  fs_close :: "string \<Rightarrow> ('w, unit) io"

definition get_repo :: "('w repo_sys, artifact_repo) io" where
  "get_repo s = (Ok (fst s), s)"

definition modify_repo :: "(artifact_repo \<Rightarrow> artifact_repo) \<Rightarrow> ('w repo_sys, unit) io" where
  "modify_repo f s = (Ok (), (f (fst s), snd s))"

text \<open>Following the pointers of a repository.\<close>

definition get_table :: "('w repo_sys, artifact_table) io" where
  "get_table s = (case repo_artifacts (fst s) of Ptr t \<Rightarrow> (Ok t, s) | _ \<Rightarrow> (Abort, s))"

definition get_parents :: "('w repo_sys, string list) io" where
  "get_parents s = (case repo_possible_references (fst s) of Ptr ps \<Rightarrow> (Ok ps, s) | _ \<Rightarrow> (Abort, s))"

text \<open>\<open>g_ptr_array_find\<close> on the possible references; it takes NULL.\<close>

definition find_parent :: "string \<Rightarrow> ('w repo_sys, bool) io" where
  "find_parent p s = (case repo_possible_references (fst s) of
      Ptr ps \<Rightarrow> (Ok (p \<in> set ps), s) | Null \<Rightarrow> (Ok False, s) | Dangling \<Rightarrow> (Abort, s))"

definition set_table :: "artifact_table \<Rightarrow> ('w repo_sys, unit) io" where
  "set_table t = modify_repo (\<lambda>r. r\<lparr>repo_artifacts := Ptr t\<rparr>)"

definition set_parents :: "string list \<Rightarrow> ('w repo_sys, unit) io" where
  "set_parents ps = modify_repo (\<lambda>r. r\<lparr>repo_possible_references := Ptr ps\<rparr>)"

subsection \<open>File system helpers\<close>

definition r_update_symlink :: "'w fs \<Rightarrow> string \<Rightarrow> string \<Rightarrow> ('w, unit) io" where
  "r_update_symlink fs target name =
     (let tmp_name = name @ ''.tmp-link'';
          replace = io_bind (fs_symlink fs target tmp_name) (\<lambda>_.
            io_catch (os_rename (fs_os fs) tmp_name name) (\<lambda>e.
              io_bind (io_catch (fs_unlink fs tmp_name) (\<lambda>_. io_return ())) (\<lambda>_. io_fail e)))
      in (\<lambda>w. case fs_read_link fs name w of
            Ok old_target \<Rightarrow> if old_target = target then (Ok (), w) else replace w
          | Error e \<Rightarrow> if e = G_FILE_ERROR G_FILE_ERROR_NOENT then replace w else (Error e, w)
          | Abort \<Rightarrow> (Abort, w)))"

text \<open>The value of the callback, and the error it leaves for \<open>r_tree_check_open\<close>.\<close>

fun tree_check_open_cb :: "'w fs \<Rightarrow> 'w \<Rightarrow> string \<times> ftw_type \<Rightarrow> int \<times> gerror option" where
  "tree_check_open_cb fs w (fpath, FTW_F) = (case fs_lease fs fpath w of
      Lease_Granted \<Rightarrow> (0, None)
    | Lease_Open_Failed e \<Rightarrow> (- 1, Some (G_FILE_ERROR e))
    | Lease_Busy \<Rightarrow> (1, Some (R_UTILS_ERROR R_UTILS_ERROR_OPEN_FILE))
    | Lease_Failed e \<Rightarrow> (- 1, Some (G_FILE_ERROR e)))"
| "tree_check_open_cb fs w (fpath, FTW_SL) = (0, None)"
| "tree_check_open_cb fs w (fpath, FTW_DP) = (0, None)"
| "tree_check_open_cb fs w (fpath, FTW_OTHER) = (- 1, None)"

text \<open>\<open>nftw\<close> stops at the first callback that does not return 0.\<close>

fun tree_walk :: "'w fs \<Rightarrow> 'w \<Rightarrow> (string \<times> ftw_type) list \<Rightarrow> bool \<Rightarrow> int \<times> gerror option" where
  "tree_walk fs w [] failed = (if failed then - 1 else 0, None)"
| "tree_walk fs w (x # xs) failed = (case tree_check_open_cb fs w x of
      (ret, err) \<Rightarrow> if ret = 0 then tree_walk fs w xs failed else (ret, err))"

definition r_tree_check_open :: "'w fs \<Rightarrow> string \<Rightarrow> 'w \<Rightarrow> unit result" where
  "r_tree_check_open fs path w =
     (if \<not> length path > 1 \<or> \<not> g_path_is_absolute path then Error ERROR_UNSET
      else case fs_walk fs path w of (xs, failed) \<Rightarrow> (case tree_walk fs w xs failed of
        (ret, err) \<Rightarrow>
          if ret = 0 then Ok ()
          else if ret < 0 then Error (case err of Some e \<Rightarrow> e | None \<Rightarrow> G_FILE_ERROR G_FILE_ERROR_FAILED)
          else Error (case err of Some e \<Rightarrow> e | None \<Rightarrow> ERROR_UNSET)))"

text \<open>The copy loop of \<open>update_utils.c\<close>; an exhausted list stands for end of file.\<close>

fun copy_loop :: "'w fs \<Rightarrow> string \<Rightarrow> read_result list \<Rightarrow> ('w, unit) io" where
  "copy_loop fs out [] = io_return ()"
| "copy_loop fs out (Read_Failed e # rs) = io_fail e"
| "copy_loop fs out (Read_Bytes buf # rs) =
     (if buf = [] then io_return ()
      else io_bind (fs_write fs out buf) (\<lambda>_. copy_loop fs out rs))"

definition r_copy_stream_with_progress :: "'w fs \<Rightarrow> read_result list \<Rightarrow> string \<Rightarrow> 64 word \<Rightarrow> ('w, unit) io" where
  "r_copy_stream_with_progress fs in_reads out sz =
     (if sint sz < 0 then io_fail ERROR_UNSET
      else if sz = 0 then io_return ()
      else copy_loop fs out in_reads)"

subsection \<open>Names of artifact entries\<close>

definition or_null :: "string option \<Rightarrow> string" where
  "or_null s = (case s of None \<Rightarrow> ''(null)'' | Some t \<Rightarrow> t)"

definition is_hex :: "char \<Rightarrow> bool" where
  "is_hex c \<longleftrightarrow> c \<in> set ''0123456789abcdef''"

text \<open>
  \<open>^<prefix>(.*)-([0-9a-f]+)$\<close>: the digest contains no dash, so it starts after the last one. The
  final anchor also matches before a newline at the end; a dot matches no newline.
\<close>

definition artifact_regex :: "string \<Rightarrow> string \<Rightarrow> (string \<times> string) option" where
  "artifact_regex prefix s =
     (let s = (if s \<noteq> [] \<and> last s = NEWLINE then butlast s else s);
          r = rev (drop (length prefix) s);
          digest = rev (takeWhile (\<lambda>c. c \<noteq> CHR ''-'') r);
          name = rev (drop 1 (dropWhile (\<lambda>c. c \<noteq> CHR ''-'') r))
      in if g_str_has_prefix s prefix \<and> CHR ''-'' \<in> set r \<and> digest \<noteq> [] \<and> list_all is_hex digest \<and>
            NEWLINE \<notin> set name
         then Some (name, digest) else None)"

definition artifact_entry :: "string \<Rightarrow> string option \<Rightarrow> string" where
  "artifact_entry name digest = ''.artifact-'' @ name @ ''-'' @ or_null digest"

definition link_prefix :: "string \<Rightarrow> string" where
  "link_prefix parent = (if parent = [] then '''' else ''../'')"

subsection \<open>The repository\<close>

definition r_artifact_repo_is_valid_type :: "string \<Rightarrow> bool" where
  "r_artifact_repo_is_valid_type type \<longleftrightarrow> type \<in> set [''files'', ''trees'']"

definition inner_of :: "artifact_table \<Rightarrow> string \<Rightarrow> instances" where
  "inner_of t name = (case map_of t name of None \<Rightarrow> [] | Some inner \<Rightarrow> inner)"

definition r_artifact_repo_insert :: "'w fs \<Rightarrow> rartifact \<Rightarrow> ('w repo_sys, unit) io" where
  "r_artifact_repo_insert fs a =
     io_bind get_table (\<lambda>t.
     io_bind get_repo (\<lambda>repo.
     io_bind get_world (\<lambda>w.
       let digest = cs_digest (art_checksum a);
           path = repo_path repo @ ''/'' @ artifact_entry (art_name a) digest;
           path_tmp = path @ ''.tmp'';
           inner = inner_of t (art_name a)
       in if art_path a \<noteq> None \<or> art_path_tmp a \<noteq> None then io_abort
          else if fs_is_symlink fs path w \<or> fs_is_symlink fs path_tmp w then io_abort
          else if map_of inner digest \<noteq> None then io_fail (R_ARTIFACTS_ERROR R_ARTIFACTS_ERROR_DUPLICATE)
          else set_table (AList.update (art_name a)
                 (AList.update digest (a\<lparr>art_path := Some path, art_path_tmp := Some path_tmp\<rparr>) inner) t))))"

definition modify_artifact :: "string \<Rightarrow> string option \<Rightarrow> (rartifact \<Rightarrow> rartifact) \<Rightarrow> artifact_table \<Rightarrow> artifact_table" where
  "modify_artifact name digest f = AList.map_entry name (AList.map_entry digest f)"

definition add_reference :: "string \<Rightarrow> rartifact \<Rightarrow> rartifact" where
  "add_reference parent a = a\<lparr>art_references := art_references a @ [parent]\<rparr>"

definition artifact_known :: "artifact_table \<Rightarrow> string \<Rightarrow> string option \<Rightarrow> bool" where
  "artifact_known t name digest \<longleftrightarrow> map_of (inner_of t name) digest \<noteq> None"

text \<open>Links that do not lead to a known artifact are logged and skipped.\<close>

fun read_links_loop :: "'w fs \<Rightarrow> string \<Rightarrow> string \<Rightarrow> 'w \<Rightarrow> string list \<Rightarrow> artifact_table \<Rightarrow> artifact_table" where
  "read_links_loop fs path parent w [] t = t"
| "read_links_loop fs path parent w (name # names) t = read_links_loop fs path parent w names
     (if g_str_has_prefix name ''.'' then t
      else case fs_read_link fs (g_build_filename path name) w of
        Ok target \<Rightarrow> (case artifact_regex (link_prefix parent @ ''.artifact-'') target of
            Some (a_name, a_digest) \<Rightarrow>
              if artifact_known t a_name (Some a_digest)
              then modify_artifact a_name (Some a_digest) (add_reference parent) t else t
          | None \<Rightarrow> t)
      | _ \<Rightarrow> t)"

definition artifact_repo_read_links :: "'w fs \<Rightarrow> string \<Rightarrow> ('w repo_sys, unit) io" where
  "artifact_repo_read_links fs parent =
     io_bind (find_parent parent) (\<lambda>possible.
     if \<not> possible then io_fail ERROR_UNSET
     else io_bind get_repo (\<lambda>repo.
       let path = g_build_filename (repo_path repo) parent in
       io_bind get_world (\<lambda>w.
       io_bind (io_lift (fs_list_dir fs path w)) (\<lambda>names.
       io_bind get_table (\<lambda>t.
         set_table (read_links_loop fs path parent w names t))))))"

text \<open>Freeing the objects of an earlier preparation; a second free of the same object aborts.\<close>

definition free_ptr :: "'a ptr \<Rightarrow> 'a ptr result" where
  "free_ptr p = (case p of Null \<Rightarrow> Ok Null | Ptr _ \<Rightarrow> Ok Dangling | Dangling \<Rightarrow> Abort)"

definition free_repo :: "('w repo_sys, unit) io" where
  "free_repo =
     io_bind get_repo (\<lambda>repo.
     io_bind (io_lift (free_ptr (repo_artifacts repo))) (\<lambda>p.
     io_bind (modify_repo (\<lambda>r. r\<lparr>repo_artifacts := p\<rparr>)) (\<lambda>_.
     io_bind (io_lift (free_ptr (repo_possible_references repo))) (\<lambda>q.
       modify_repo (\<lambda>r. r\<lparr>repo_possible_references := q\<rparr>)))))"

fun prepare_entries :: "'w fs \<Rightarrow> string list \<Rightarrow> ('w repo_sys, unit) io" where
  "prepare_entries fs [] = io_return ()"
| "prepare_entries fs (entry # entries) = (case artifact_regex ''.artifact-'' entry of
      None \<Rightarrow> prepare_entries fs entries
    | Some (name, digest) \<Rightarrow>
        io_bind (r_artifact_repo_insert fs (artifact_new0 name (Some digest))) (\<lambda>_. prepare_entries fs entries))"

definition add_possible_reference :: "string \<Rightarrow> ('w repo_sys, unit) io" where
  "add_possible_reference p = io_bind get_parents (\<lambda>ps. set_parents (ps @ [p]))"

fun prepare_parents :: "'w fs \<Rightarrow> slots \<Rightarrow> ('w repo_sys, unit) io" where
  "prepare_parents fs [] = io_return ()"
| "prepare_parents fs (slot # ss) =
     io_bind get_repo (\<lambda>repo.
     io_bind (in_world (os_mkdir_with_parents (fs_os fs) (g_build_filename (repo_path repo) (slot_name slot)))) (\<lambda>_.
     io_bind (add_possible_reference (slot_name slot)) (\<lambda>_.
     io_bind (artifact_repo_read_links fs (slot_name slot)) (\<lambda>_.
       prepare_parents fs ss))))"

definition r_artifact_repo_prepare :: "'w fs \<Rightarrow> slots \<Rightarrow> ('w repo_sys, unit) io" where
  "r_artifact_repo_prepare fs slots =
     io_bind free_repo (\<lambda>_.
     io_bind get_repo (\<lambda>repo.
     io_bind get_world (\<lambda>w.
     io_bind (io_lift (fs_list_dir fs (repo_path repo) w)) (\<lambda>entries.
     io_bind (set_table []) (\<lambda>_.
     io_bind (prepare_entries fs entries) (\<lambda>_.
     io_bind (set_parents []) (\<lambda>_.
     io_bind (case repo_parent_class repo of
         Some cls \<Rightarrow> prepare_parents fs (r_slot_get_all_of_class slots cls)
       | None \<Rightarrow> io_bind (add_possible_reference '''') (\<lambda>_. artifact_repo_read_links fs '''')) (\<lambda>_.
       if repo_type repo = ''composefs'' then io_abort else io_return ()))))))))"

subsection \<open>Pruning\<close>

text \<open>
  A sub-directory that cannot be opened leaves an error behind although the call returns TRUE. The
  error variable of \<open>r_artifact_repo_prune\<close> is then set (\<open>stale\<close>), and every later call that takes
  its address fails at once (\<open>g_return_val_if_fail\<close>) with that error.
\<close>

definition keep_first :: "gerror option \<Rightarrow> gerror \<Rightarrow> gerror" where
  "keep_first stale e = (case stale of None \<Rightarrow> e | Some e' \<Rightarrow> e')"

fun prune_subdir_loop :: "'w fs \<Rightarrow> string \<Rightarrow> gerror option \<Rightarrow> string list \<Rightarrow> ('w, unit) io" where
  "prune_subdir_loop fs path stale [] = io_return ()"
| "prune_subdir_loop fs path stale (name # names) = (\<lambda>w.
     if fs_is_symlink fs (g_build_filename path name) w then prune_subdir_loop fs path stale names w
     else io_bind (io_catch (rm_tree (fs_os fs) (g_build_filename path name)) (\<lambda>e. io_fail (keep_first stale e)))
            (\<lambda>_. prune_subdir_loop fs path stale names) w)"

definition artifact_repo_prune_subdir :: "'w fs \<Rightarrow> string \<Rightarrow> string \<Rightarrow> gerror option \<Rightarrow> ('w, gerror option) io" where
  "artifact_repo_prune_subdir fs repo_dir parent stale w =
     (let path = g_build_filename repo_dir parent in
      case fs_list_dir fs path w of
        Error e \<Rightarrow> (Ok (Some (keep_first stale e)), w)
      | Abort \<Rightarrow> (Abort, w)
      | Ok names \<Rightarrow> io_bind (prune_subdir_loop fs path stale names) (\<lambda>_. io_return stale) w)"

fun prune_subdirs :: "'w fs \<Rightarrow> string \<Rightarrow> slots \<Rightarrow> gerror option \<Rightarrow> ('w, gerror option) io" where
  "prune_subdirs fs repo_dir [] stale = io_return stale"
| "prune_subdirs fs repo_dir (slot # ss) stale =
     io_bind (artifact_repo_prune_subdir fs repo_dir (slot_name slot) stale) (prune_subdirs fs repo_dir ss)"

definition checked_rm_tree :: "'w fs \<Rightarrow> gerror option \<Rightarrow> string \<Rightarrow> ('w, unit) io" where
  "checked_rm_tree fs stale path = (case stale of None \<Rightarrow> rm_tree (fs_os fs) path | Some e \<Rightarrow> io_fail e)"

text \<open>Entries of the repository that stay: artifacts, and the links or the parents' directories.\<close>

definition entry_expected :: "'w fs \<Rightarrow> artifact_repo \<Rightarrow> bool \<Rightarrow> 'w \<Rightarrow> string \<Rightarrow> bool" where
  "entry_expected fs repo is_parent w name \<longleftrightarrow>
     (let full_name = g_build_filename (repo_path repo) name in
      artifact_regex ''.artifact-'' name \<noteq> None \<or>
      (if repo_parent_class repo \<noteq> None
       then is_parent \<and> os_is_dir (fs_os fs) full_name w \<and> \<not> fs_is_symlink fs full_name w
       else fs_is_symlink fs full_name w) \<or>
      repo_type repo = ''composefs'' \<and> name = ''.rauc-cfs-store'')"

fun prune_unexpected :: "'w fs \<Rightarrow> gerror option \<Rightarrow> string list \<Rightarrow> ('w repo_sys, unit) io" where
  "prune_unexpected fs stale [] = io_return ()"
| "prune_unexpected fs stale (name # names) =
     io_bind get_repo (\<lambda>repo.
     io_bind (if repo_parent_class repo \<noteq> None then find_parent name else io_return False) (\<lambda>is_parent.
     io_bind get_world (\<lambda>w.
     io_bind (if entry_expected fs repo is_parent w name then io_return ()
              else in_world (checked_rm_tree fs stale (g_build_filename (repo_path repo) name))) (\<lambda>_.
       prune_unexpected fs stale names))))"

definition checked_open :: "'w fs \<Rightarrow> gerror option \<Rightarrow> string \<Rightarrow> 'w \<Rightarrow> unit result" where
  "checked_open fs stale path w = (case stale of None \<Rightarrow> r_tree_check_open fs path w | Some e \<Rightarrow> Error e)"

text \<open>Artifacts without references, unless they are in use.\<close>

fun prune_instances :: "'w fs \<Rightarrow> gerror option \<Rightarrow> string \<Rightarrow> instances \<Rightarrow> ('w repo_sys, unit) io" where
  "prune_instances fs stale name [] = io_return ()"
| "prune_instances fs stale name ((digest, a) # as) =
     (if art_references a \<noteq> [] then prune_instances fs stale name as
      else case art_path a of
        None \<Rightarrow> io_abort
      | Some path \<Rightarrow>
          io_bind get_world (\<lambda>w. case checked_open fs stale path w of
              Error e \<Rightarrow>
                if e = R_UTILS_ERROR R_UTILS_ERROR_OPEN_FILE then prune_instances fs stale name as else io_fail e
            | Abort \<Rightarrow> io_abort
            | Ok _ \<Rightarrow>
                io_bind (in_world (rm_tree (fs_os fs) path)) (\<lambda>_.
                io_bind get_table (\<lambda>t.
                io_bind (set_table (AList.map_entry name (AList.delete digest) t)) (\<lambda>_.
                  prune_instances fs stale name as)))))"

fun prune_unused :: "'w fs \<Rightarrow> gerror option \<Rightarrow> artifact_table \<Rightarrow> ('w repo_sys, unit) io" where
  "prune_unused fs stale [] = io_return ()"
| "prune_unused fs stale ((name, inner) # rest) =
     io_bind (prune_instances fs stale name inner) (\<lambda>_.
     io_bind get_table (\<lambda>t.
     io_bind (if inner_of t name = [] then set_table (AList.delete name t) else io_return ()) (\<lambda>_.
       prune_unused fs stale rest)))"

definition r_artifact_repo_prune :: "'w fs \<Rightarrow> slots \<Rightarrow> ('w repo_sys, unit) io" where
  "r_artifact_repo_prune fs slots =
     io_bind get_repo (\<lambda>repo.
     io_bind (case repo_parent_class repo of
         Some cls \<Rightarrow> in_world (prune_subdirs fs (repo_path repo) (r_slot_get_all_of_class slots cls) None)
       | None \<Rightarrow> io_return None) (\<lambda>stale.
     io_bind get_world (\<lambda>w.
     io_bind (io_catch (io_lift (fs_list_dir fs (repo_path repo) w)) (\<lambda>e. io_fail (keep_first stale e))) (\<lambda>names.
     io_bind (prune_unexpected fs stale names) (\<lambda>_.
     io_bind get_table (\<lambda>t.
     io_bind (prune_unused fs stale t) (\<lambda>_.
       if repo_type repo = ''composefs'' then io_abort else io_return ())))))))"

subsection \<open>Committing\<close>

text \<open>The first instance that is active for the parent; every instance looked at must exist.\<close>

fun enabled_instance :: "'w fs \<Rightarrow> string \<Rightarrow> 'w \<Rightarrow> instances \<Rightarrow> rartifact option result" where
  "enabled_instance fs parent w [] = Ok None"
| "enabled_instance fs parent w ((digest, a) # as) = (case art_path a of
      None \<Rightarrow> Abort
    | Some path \<Rightarrow>
        if \<not> os_file_exists (fs_os fs) path w then Abort
        else if parent \<in> set (art_references a) then Ok (Some a)
        else enabled_instance fs parent w as)"

definition artifact_link_target :: "string \<Rightarrow> rartifact \<Rightarrow> string" where
  "artifact_link_target parent a = link_prefix parent @ artifact_entry (art_name a) (cs_digest (art_checksum a))"

definition artifact_link :: "string \<Rightarrow> string \<Rightarrow> string \<Rightarrow> string" where
  "artifact_link repo_dir parent name = g_build_filename (g_build_filename repo_dir parent) name"

fun commit_links :: "'w fs \<Rightarrow> string \<Rightarrow> string \<Rightarrow> artifact_table \<Rightarrow> ('w, unit) io" where
  "commit_links fs repo_dir parent [] = io_return ()"
| "commit_links fs repo_dir parent ((name, inner) # rest) =
     io_bind (\<lambda>w. (enabled_instance fs parent w inner, w)) (\<lambda>enabled.
     io_bind (case enabled of
         Some a \<Rightarrow> r_update_symlink fs (artifact_link_target parent a) (artifact_link repo_dir parent name)
       | None \<Rightarrow> io_catch (fs_unlink fs (artifact_link repo_dir parent name)) (\<lambda>e.
           if e = G_FILE_ERROR G_FILE_ERROR_NOENT then io_return () else io_fail e)) (\<lambda>_.
       commit_links fs repo_dir parent rest))"

fun commit_parents :: "'w fs \<Rightarrow> string \<Rightarrow> artifact_table \<Rightarrow> string list \<Rightarrow> ('w, unit) io" where
  "commit_parents fs repo_dir t [] = io_return ()"
| "commit_parents fs repo_dir t (parent # ps) =
     io_bind (commit_links fs repo_dir parent t) (\<lambda>_. commit_parents fs repo_dir t ps)"

definition r_syncfs :: "'w fs \<Rightarrow> string \<Rightarrow> ('w, unit) io" where
  "r_syncfs fs path w = (case fs_open_dir fs path w of
      Ok _ \<Rightarrow> fs_syncfs fs path w | Error e \<Rightarrow> (Error e, w) | Abort \<Rightarrow> (Abort, w))"

definition r_artifact_repo_commit :: "'w fs \<Rightarrow> ('w repo_sys, unit) io" where
  "r_artifact_repo_commit fs =
     io_bind get_repo (\<lambda>repo.
     io_bind get_parents (\<lambda>ps.
     io_bind (if ps = [] then io_return [] else get_table) (\<lambda>t.
     io_bind (in_world (commit_parents fs (repo_path repo) t ps)) (\<lambda>_.
       in_world (r_syncfs fs (repo_path repo))))))"

subsection \<open>Installing and activating\<close>

definition artifact_get_converted :: "rauc_image \<Rightarrow> string \<Rightarrow> string option result" where
  "artifact_get_converted img method = (case img_convert img of
      None \<Rightarrow> Ok None
    | Some convert \<Rightarrow> (case img_converted img of
        None \<Rightarrow> Abort
      | Some converted \<Rightarrow>
          if converted = [] \<or> length convert \<noteq> length converted then Ok None
          else Ok (map_of (zip convert converted) method)))"

definition files_artifact_install :: "'w fs \<Rightarrow> string \<Rightarrow> rauc_image \<Rightarrow> ('w, unit) io" where
  "files_artifact_install fs path_tmp img = (case img_filename img of
      None \<Rightarrow> io_fail ERROR_UNSET
    | Some f \<Rightarrow>
        io_bind (\<lambda>w. (fs_reads fs f w, w)) (\<lambda>reads.
        io_bind (fs_create fs path_tmp) (\<lambda>_.
        io_bind (r_copy_stream_with_progress fs reads path_tmp (cs_size (img_checksum img))) (\<lambda>_.
        io_bind (io_catch (fs_fsync fs path_tmp) (\<lambda>e. io_fail (R_ARTIFACTS_ERROR R_ARTIFACTS_ERROR_INSTALL))) (\<lambda>_.
          fs_close fs path_tmp)))))"

definition tree_artifact_install_tar :: "'w fs \<Rightarrow> string \<Rightarrow> string \<Rightarrow> ('w, unit) io" where
  "tree_artifact_install_tar fs path_tmp name =
     io_bind (fs_mkdir fs path_tmp) (\<lambda>_.
       run_wait_check (os_run (fs_os fs))
         [''tar'', ''--numeric-owner'', ''--acl'', ''--selinux'', ''--xattrs'', ''-xf'', name, ''-C'', path_tmp])"

definition r_tree_artifact_install_extracted :: "'w fs \<Rightarrow> string \<Rightarrow> string \<Rightarrow> ('w, unit) io" where
  "r_tree_artifact_install_extracted fs path_tmp name =
     run_wait_check (os_run (fs_os fs)) [''cp'', ''-a'', name, path_tmp]"

definition r_artifact_find :: "artifact_table \<Rightarrow> string option \<Rightarrow> string option \<Rightarrow> rartifact option" where
  "r_artifact_find t name digest = (case (name, digest) of
      (Some n, Some d) \<Rightarrow> map_of (inner_of t n) (Some d)
    | _ \<Rightarrow> None)"

text \<open>Writing the content to the temporary path, by the type of the repository.\<close>

definition artifact_copy :: "'w fs \<Rightarrow> string \<Rightarrow> string \<Rightarrow> rauc_image \<Rightarrow> ('w, unit) io" where
  "artifact_copy fs type path_tmp img =
     (if type = ''files'' then files_artifact_install fs path_tmp img
      else if type = ''trees'' then
        io_bind (io_lift (artifact_get_converted img ''tar-extract'')) (\<lambda>extracted. case extracted of
            Some name \<Rightarrow> r_tree_artifact_install_extracted fs path_tmp name
          | None \<Rightarrow>
              io_bind (io_lift (artifact_get_converted img ''keep'')) (\<lambda>kept. case kept of
                  Some name \<Rightarrow> tree_artifact_install_tar fs path_tmp name
                | None \<Rightarrow> (case img_filename img of
                    None \<Rightarrow> io_abort
                  | Some f \<Rightarrow> (\<lambda>w.
                      if \<not> os_file_exists (fs_os fs) f w
                      then (Error (R_ARTIFACTS_ERROR R_ARTIFACTS_ERROR_INSTALL), w)
                      else tree_artifact_install_tar fs path_tmp f w))))
      else if type = ''composefs'' then
        io_bind (io_lift (artifact_get_converted img ''composefs'')) (\<lambda>converted. case converted of
            Some name \<Rightarrow> io_abort
          | None \<Rightarrow> io_fail (R_ARTIFACTS_ERROR R_ARTIFACTS_ERROR_INSTALL))
      else io_abort)"

definition r_artifact_install :: "'w fs \<Rightarrow> artifact_repo \<Rightarrow> rartifact \<Rightarrow> rauc_image \<Rightarrow> ('w, unit) io" where
  "r_artifact_install fs repo a img = (case (art_path a, art_path_tmp a) of
      (Some path, Some path_tmp) \<Rightarrow> (\<lambda>w.
        if os_file_exists (fs_os fs) path w \<or> os_file_exists (fs_os fs) path_tmp w \<or>
           \<not> (case img_filename img of None \<Rightarrow> False | Some f \<Rightarrow> g_path_is_absolute f)
        then (Abort, w)
        else io_bind (artifact_copy fs (repo_type repo) path_tmp img) (\<lambda>_.
          io_bind (\<lambda>w. (fs_open_dir fs (repo_path repo) w, w)) (\<lambda>_.
          io_bind (fs_syncfs fs (repo_path repo)) (\<lambda>_.
          io_bind (os_rename (fs_os fs) path_tmp path) (\<lambda>_.
            fs_fsync fs (repo_path repo))))) w)
    | _ \<Rightarrow> io_fail ERROR_UNSET)"

text \<open>Both return without doing anything when \<open>parent\<close> is not a possible reference.\<close>

definition r_artifact_deactivate :: "string \<Rightarrow> rartifact \<Rightarrow> rartifact" where
  "r_artifact_deactivate parent a = a\<lparr>art_references := remove1 parent (art_references a)\<rparr>"

definition activate_instance :: "string option \<Rightarrow> string \<Rightarrow> string option \<times> rartifact \<Rightarrow> string option \<times> rartifact" where
  "activate_instance digest parent x = (case x of (d, a) \<Rightarrow>
     (d, if d \<noteq> digest then r_artifact_deactivate parent a
         else if parent \<in> set (art_references a) then a else add_reference parent a))"

definition r_artifact_activate :: "string \<Rightarrow> string option \<Rightarrow> string \<Rightarrow> ('w repo_sys, unit) io" where
  "r_artifact_activate name digest parent =
     io_bind (find_parent parent) (\<lambda>possible.
     if \<not> possible then io_return ()
     else io_bind get_table (\<lambda>t. case map_of t name of
         None \<Rightarrow> io_abort
       | Some inner \<Rightarrow> set_table (AList.update name (map (activate_instance digest parent) inner) t)))"

subsection \<open>All repositories\<close>

text \<open>Running an operation on each repository of the configuration, until one fails.\<close>

fun each_repo :: "('w repo_sys, unit) io \<Rightarrow> (artifact_repo list \<times> 'w, unit) io" where
  "each_repo m ([], w) = (Ok (), ([], w))"
| "each_repo m (repo # repos, w) = (case m (repo, w) of
      (Ok _, (repo', w')) \<Rightarrow> (case each_repo m (repos, w') of (r, (repos', w'')) \<Rightarrow> (r, (repo' # repos', w'')))
    | (Error e, (repo', w')) \<Rightarrow> (Error e, (repo' # repos, w'))
    | (Abort, (repo', w')) \<Rightarrow> (Abort, (repo' # repos, w')))"

definition r_artifacts_init :: "'w fs \<Rightarrow> slots \<Rightarrow> (artifact_repo list \<times> 'w, unit) io" where
  "r_artifacts_init fs slots = each_repo (r_artifact_repo_prepare fs slots)"

definition r_artifacts_prune :: "'w fs \<Rightarrow> slots \<Rightarrow> (artifact_repo list \<times> 'w, unit) io" where
  "r_artifacts_prune fs slots = each_repo (r_artifact_repo_prune fs slots)"

end
