(* ===== verification/Artifact_Links.thy ===== *)
theory Artifact_Links
  imports Artifacts
begin

text \<open>
  What the artifact repositories promise. The symbolic links of the file system are an abstract map
  \<open>links\<close> from paths to targets; the locale \<open>link_store\<close> states what \<open>readlink\<close>, \<open>symlink\<close>,
  \<open>rename\<close> and \<open>unlink\<close> document about it. Over it, committing a repository makes the links
  agree with the references in memory.
\<close>

subsection \<open>Steps on a repository\<close>

lemma get_repo_iff [io_iff]: "get_repo s = (r, s') \<longleftrightarrow> r = Ok (fst s) \<and> s' = s"
  by (auto simp: get_repo_def)

lemma modify_repo_iff [io_iff]: "modify_repo f s = (r, s') \<longleftrightarrow> r = Ok () \<and> s' = (f (fst s), snd s)"
  by (auto simp: modify_repo_def)

lemma set_table_iff [io_iff]:
  "set_table t s = (r, s') \<longleftrightarrow> r = Ok () \<and> s' = ((fst s)\<lparr>repo_artifacts := Ptr t\<rparr>, snd s)"
  by (auto simp: set_table_def io_iff)

lemma set_parents_iff [io_iff]:
  "set_parents ps s = (r, s') \<longleftrightarrow> r = Ok () \<and> s' = ((fst s)\<lparr>repo_possible_references := Ptr ps\<rparr>, snd s)"
  by (auto simp: set_parents_def io_iff)

lemma get_table_Ok_iff [io_iff]:
  "get_table s = (Ok t, s') \<longleftrightarrow> repo_artifacts (fst s) = Ptr t \<and> s' = s"
  by (auto simp: get_table_def split: ptr.splits)

lemma get_parents_Ok_iff [io_iff]:
  "get_parents s = (Ok ps, s') \<longleftrightarrow> repo_possible_references (fst s) = Ptr ps \<and> s' = s"
  by (auto simp: get_parents_def split: ptr.splits)

lemma find_parent_Ok_iff [io_iff]:
  "find_parent p s = (Ok b, s') \<longleftrightarrow> s' = s \<and>
     (case repo_possible_references (fst s) of Ptr ps \<Rightarrow> b = (p \<in> set ps) | Null \<Rightarrow> \<not> b | Dangling \<Rightarrow> False)"
  by (auto simp: find_parent_def split: ptr.splits)

lemma preserves_repo [preserves_intros]:
  "preserves v get_repo" "preserves v get_table" "preserves v get_parents" "preserves v (find_parent p)"
  by (auto simp: preserves_def get_repo_def get_table_def get_parents_def find_parent_def split: ptr.splits)

subsection \<open>Names\<close>

lemma cut_at_dash:
  "CHR ''-'' \<notin> set d \<Longrightarrow> takeWhile (\<lambda>c. c \<noteq> CHR ''-'') (rev d @ CHR ''-'' # r) = rev d"
  "CHR ''-'' \<notin> set d \<Longrightarrow> dropWhile (\<lambda>c. c \<noteq> CHR ''-'') (rev d @ CHR ''-'' # r) = CHR ''-'' # r"
  by (simp_all add: takeWhile_append dropWhile_append)

lemma is_hex_no_dash: "list_all is_hex d \<Longrightarrow> CHR ''-'' \<notin> set d \<and> NEWLINE \<notin> set d"
proof -
  assume "list_all is_hex d"
  moreover have "\<not> is_hex (CHR ''-'')" "\<not> is_hex NEWLINE" by (simp_all add: is_hex_def)
  ultimately show ?thesis unfolding list_all_iff by metis
qed

lemma artifact_regex_entry:
  assumes "d \<noteq> []" and "list_all is_hex d" and "NEWLINE \<notin> set n"
  shows "artifact_regex p (p @ n @ ''-'' @ d) = Some (n, d)"
proof -
  have "last d \<noteq> NEWLINE" using is_hex_no_dash [OF assms(2)] assms(1) by (metis last_in_set)
  then have last: "last (p @ n @ ''-'' @ d) \<noteq> NEWLINE" using assms(1) by simp
  show ?thesis
    using assms is_hex_no_dash [OF assms(2)] last
    by (simp add: artifact_regex_def Let_def cut_at_dash)
qed

text \<open>Different entries have different names and digests.\<close>

lemma artifact_regex_inverse:
  assumes "artifact_regex p s = Some (n, d)" and "s = [] \<or> last s \<noteq> NEWLINE"
  shows "s = p @ n @ ''-'' @ d \<and> d \<noteq> [] \<and> list_all is_hex d"
proof -
  let ?nodash = "\<lambda>c. c \<noteq> CHR ''-''"
  let ?r = "rev (drop (length p) s)"
  have strip: "(if s \<noteq> [] \<and> last s = NEWLINE then butlast s else s) = s" using assms(2) by auto
  have *: "g_str_has_prefix s p" "CHR ''-'' \<in> set ?r" "d = rev (takeWhile ?nodash ?r)" "d \<noteq> []"
      "list_all is_hex d" "n = rev (drop 1 (dropWhile ?nodash ?r))"
    using assms(1) unfolding artifact_regex_def Let_def strip by (auto split: if_splits)
  have "dropWhile ?nodash ?r \<noteq> []" using *(2) by (auto simp: dropWhile_eq_Nil_conv)
  then have "dropWhile ?nodash ?r = CHR ''-'' # drop 1 (dropWhile ?nodash ?r)"
    using hd_dropWhile [of ?nodash ?r] by (cases "dropWhile ?nodash ?r") auto
  then have "?r = rev d @ CHR ''-'' # rev n"
    using *(3,6) takeWhile_dropWhile_id [of ?nodash ?r] by simp
  then have "drop (length p) s = n @ ''-'' @ d" by (metis append.assoc append_Cons append_Nil rev.simps(2) rev_append rev_rev_ident rev_swap)
  then show ?thesis using * append_take_drop_id [of "length p" s] by (auto simp: has_prefix_iff)
qed

subsection \<open>Paths of links\<close>

text \<open>A name for a directory entry.\<close>

definition entry_name :: "string \<Rightarrow> bool" where
  "entry_name n \<longleftrightarrow> n \<noteq> [] \<and> CHR ''/'' \<notin> set n"

lemma build_filename_entry:
  assumes "entry_name n" and "a \<noteq> []"
  shows "g_build_filename a n = rev (dropWhile (\<lambda>c. c = CHR ''/'') (rev a)) @ ''/'' @ n"
proof -
  have "dropWhile (\<lambda>c. c = CHR ''/'') n = n"
    using assms(1) by (cases n) (auto simp: entry_name_def)
  then show ?thesis using assms by (simp add: g_build_filename_def entry_name_def)
qed

lemma split_last_slash:
  assumes "CHR ''/'' \<notin> set n" and "CHR ''/'' \<notin> set m" and "a @ CHR ''/'' # n = b @ CHR ''/'' # m"
  shows "a = b \<and> n = m"
proof -
  have "takeWhile (\<lambda>c. c \<noteq> CHR ''/'') (rev (a @ CHR ''/'' # n)) = rev n"
    "takeWhile (\<lambda>c. c \<noteq> CHR ''/'') (rev (b @ CHR ''/'' # m)) = rev m"
    using assms(1,2) by (simp_all add: takeWhile_append)
  then have "n = m" using assms(3) by (metis rev_rev_ident)
  then show ?thesis using assms(3) by simp
qed

lemma build_filename_inj:
  assumes "entry_name n" "entry_name m" "a \<noteq> []" "b \<noteq> []" "g_build_filename a n = g_build_filename b m"
  shows "n = m \<and> rev (dropWhile (\<lambda>c. c = CHR ''/'') (rev a)) = rev (dropWhile (\<lambda>c. c = CHR ''/'') (rev b))"
proof -
  have "rev (dropWhile (\<lambda>c. c = CHR ''/'') (rev a)) @ CHR ''/'' # n =
        rev (dropWhile (\<lambda>c. c = CHR ''/'') (rev b)) @ CHR ''/'' # m"
    using assms by (simp add: build_filename_entry)
  from split_last_slash [OF _ _ this] show ?thesis using assms(1,2) by (simp add: entry_name_def)
qed

lemma build_filename_nonempty: "entry_name n \<Longrightarrow> a \<noteq> [] \<Longrightarrow> g_build_filename a n \<noteq> []"
  by (simp add: build_filename_entry)

lemma strip_build_filename:
  assumes "entry_name p" and "a \<noteq> []"
  shows "rev (dropWhile (\<lambda>c. c = CHR ''/'') (rev (g_build_filename a p))) = g_build_filename a p"
proof -
  obtain p' c where "p = p' @ [c]" "c \<noteq> CHR ''/''"
    using assms(1) by (cases p rule: rev_cases) (auto simp: entry_name_def)
  then show ?thesis using assms by (simp add: build_filename_entry)
qed

text \<open>The parents of a repository: none, or slot names.\<close>

definition parents_ok :: "string list \<Rightarrow> bool" where
  "parents_ok ps \<longleftrightarrow> distinct ps \<and> (ps = [''''] \<or> list_all entry_name ps)"

lemma artifact_link_inj:
  assumes "dir \<noteq> []" "parents_ok ps" "p \<in> set ps" "q \<in> set ps" "entry_name n" "entry_name m"
    and eq: "artifact_link dir p n = artifact_link dir q m"
  shows "p = q \<and> n = m"
proof (cases "ps = ['''']")
  case True
  then show ?thesis using assms build_filename_inj [of n m dir dir] by (auto simp: artifact_link_def g_build_filename_def)
next
  case False
  then have pq: "entry_name p" "entry_name q" using assms by (auto simp: parents_ok_def list_all_iff)
  have "n = m \<and> g_build_filename dir p = g_build_filename dir q"
    using build_filename_inj [OF assms(5,6) _ _ eq [unfolded artifact_link_def]] assms(1) pq
    by (simp add: build_filename_nonempty strip_build_filename)
  then show ?thesis using build_filename_inj [OF pq assms(1) assms(1)] by simp
qed

subsection \<open>Links\<close>

locale link_store =
  fixes fs :: "'w fs" and links :: "'w \<Rightarrow> string \<Rightarrow> string option"
  assumes read_link: "fs_read_link fs p w = Ok t \<longleftrightarrow> links w p = Some t"
    and symlink: "fs_symlink fs t p w = (r, w') \<Longrightarrow> links w' = (if r = Ok () then (links w)(p \<mapsto> t) else links w)"
    and symlink_exists: "links w p \<noteq> None \<Longrightarrow> fst (fs_symlink fs t p w) \<noteq> Ok ()"
    and rename: "\<lbrakk>p \<noteq> q; links w p = Some t; os_rename (fs_os fs) p q w = (r, w')\<rbrakk> \<Longrightarrow>
      links w' = (if r = Ok () then (links w)(p := None, q \<mapsto> t) else links w)"
    and unlink: "fs_unlink fs p w = (r, w') \<Longrightarrow> links w' = (if r = Ok () then (links w)(p := None) else links w)"
    and unlink_missing: "fs_unlink fs p w = (Error (G_FILE_ERROR G_FILE_ERROR_NOENT), w') \<Longrightarrow> links w p = None"
    and syncfs: "links (snd (fs_syncfs fs p w)) = links w"
begin

lemma update_symlink_Ok:
  assumes "r_update_symlink fs t p w = (Ok (), w')"
  shows "links w' = (links w)(p \<mapsto> t)"
proof (cases "fs_read_link fs p w = Ok t")
  case True
  then have "w' = w" "links w p = Some t"
    using assms by (simp_all add: r_update_symlink_def Let_def read_link [symmetric])
  then show ?thesis by auto
next
  case False
  let ?tmp = "p @ ''.tmp-link''"
  obtain w1 where 1: "fs_symlink fs t ?tmp w = (Ok (), w1)"
    and 2: "os_rename (fs_os fs) ?tmp p w1 = (Ok (), w')"
    using assms False
    by (auto simp: r_update_symlink_def Let_def io_iff split: result.splits if_splits)
  have none: "links w ?tmp = None" using symlink_exists 1 by (metis fst_conv)
  have l1: "links w1 = (links w)(?tmp \<mapsto> t)" using symlink [OF 1] by simp
  have "links w' = (links w1)(?tmp := None, p \<mapsto> t)" using rename [OF _ _ 2, of t] l1 by simp
  then show ?thesis using l1 none by (auto simp: fun_eq_iff)
qed

text \<open>A failed update leaves the link as it was.\<close>

lemma update_symlink_fails:
  assumes "r_update_symlink fs t p w = (r, w')" and "r \<noteq> Ok ()" and "q \<noteq> p @ ''.tmp-link''"
  shows "links w' q = links w q"
proof -
  let ?tmp = "p @ ''.tmp-link''"
  let ?replace = "io_bind (fs_symlink fs t ?tmp) (\<lambda>_. io_catch (os_rename (fs_os fs) ?tmp p) (\<lambda>e.
      io_bind (io_catch (fs_unlink fs ?tmp) (\<lambda>_. io_return ())) (\<lambda>_. io_fail e)))"
  have "w' = w \<or> ?replace w = (r, w')"
    using assms(1,2) by (auto simp: r_update_symlink_def Let_def split: result.splits if_splits)
  then show ?thesis
  proof
    assume rep: "?replace w = (r, w')"
    obtain r1 w1 where 1: "fs_symlink fs t ?tmp w = (r1, w1)" by fastforce
    show ?thesis
    proof (cases "r1 = Ok ()")
      case False
      then have "w' = w1" using rep 1 by (cases r1) (auto simp: io_bind_def)
      then show ?thesis using symlink [OF 1] False by simp
    next
      case True
      have l1: "links w1 = (links w)(?tmp \<mapsto> t)" using symlink [OF 1] True by simp
      obtain r2 w2 where 2: "os_rename (fs_os fs) ?tmp p w1 = (r2, w2)" by fastforce
      have "r2 \<noteq> Ok ()" using rep 1 2 True assms(2) by (auto simp: io_bind_def io_catch_def)
      then have l2: "links w2 = links w1" using rename [OF _ _ 2, of t] l1 by simp
      have "w' = w2 \<or> w' = snd (fs_unlink fs ?tmp w2)"
        using rep 1 2 True \<open>r2 \<noteq> Ok ()\<close>
        by (cases r2; cases "fs_unlink fs ?tmp w2")
          (auto simp: io_bind_def io_catch_def io_return_def io_fail_def split: result.splits)
      then show ?thesis
        using l1 l2 assms(3) unlink [of ?tmp w2 "fst (fs_unlink fs ?tmp w2)" "snd (fs_unlink fs ?tmp w2)"]
        by (auto split: if_splits)
    qed
  qed simp
qed

end

text \<open>The target that the link of an artifact should have for a parent.\<close>

definition wanted_link :: "string \<Rightarrow> instances \<Rightarrow> string option" where
  "wanted_link parent inner =
     map_option (\<lambda>(d, a). artifact_link_target parent a) (find (\<lambda>(d, a). parent \<in> set (art_references a)) inner)"

lemma enabled_instance_Ok:
  "enabled_instance fs parent w inner = Ok r \<Longrightarrow> map_option (artifact_link_target parent) r = wanted_link parent inner"
  by (induction fs parent w inner rule: enabled_instance.induct)
    (auto simp: wanted_link_def split: option.splits if_splits)

text \<open>Table entries with usable names.\<close>

definition table_names_ok :: "artifact_table \<Rightarrow> bool" where
  "table_names_ok t \<longleftrightarrow> distinct (map fst t) \<and> list_all (\<lambda>x. entry_name (fst x)) t"

context link_store
begin

lemma commit_link_Ok:
  assumes "commit_links fs dir parent [(name, inner)] w = (Ok (), w')"
  shows "links w' = (links w)(artifact_link dir parent name := wanted_link parent inner)"
proof -
  obtain r where r: "enabled_instance fs parent w inner = Ok r"
    and step: "(case r of
         Some a \<Rightarrow> r_update_symlink fs (artifact_link_target parent a) (artifact_link dir parent name)
       | None \<Rightarrow> io_catch (fs_unlink fs (artifact_link dir parent name)) (\<lambda>e.
           if e = G_FILE_ERROR G_FILE_ERROR_NOENT then io_return () else io_fail e)) w = (Ok (), w')"
    using assms by (auto simp: io_iff)
  note wanted = enabled_instance_Ok [OF r]
  show ?thesis
  proof (cases r)
    case None
    obtain r1 w1 where 1: "fs_unlink fs (artifact_link dir parent name) w = (r1, w1)" by fastforce
    have "w' = w1 \<and> (r1 = Ok () \<or> r1 = Error (G_FILE_ERROR G_FILE_ERROR_NOENT))"
      using step None 1 by (cases r1) (auto simp: io_catch_def io_iff split: if_splits)
    then show ?thesis
      using unlink [OF 1] unlink_missing [of "artifact_link dir parent name" w w1] 1 wanted None
      by (auto simp: fun_eq_iff)
  next
    case (Some a)
    then show ?thesis using update_symlink_Ok [of "artifact_link_target parent a"] step wanted by simp
  qed
qed

lemma commit_links_Ok:
  assumes "commit_links fs dir parent t w = (Ok (), w')"
    and "distinct (map fst t)" and "inj_on (artifact_link dir parent) (fst ` set t)"
  shows "(\<forall>(name, inner)\<in>set t. links w' (artifact_link dir parent name) = wanted_link parent inner) \<and>
    (\<forall>q. q \<notin> artifact_link dir parent ` fst ` set t \<longrightarrow> links w' q = links w q)"
  using assms
proof (induction t arbitrary: w)
  case (Cons x t)
  obtain name inner where x: "x = (name, inner)" by fastforce
  obtain w1 where first: "commit_links fs dir parent [x] w = (Ok (), w1)"
    and rest: "commit_links fs dir parent t w1 = (Ok (), w')"
    using Cons.prems(1) by (auto simp: x io_iff)
  have l1: "links w1 = (links w)(artifact_link dir parent name := wanted_link parent inner)"
    using commit_link_Ok first by (simp add: x)
  have ih: "\<forall>(name, inner)\<in>set t. links w' (artifact_link dir parent name) = wanted_link parent inner"
    "\<And>q. q \<notin> artifact_link dir parent ` fst ` set t \<Longrightarrow> links w' q = links w1 q"
    using Cons.IH [OF rest] Cons.prems(2,3) by (auto simp: inj_on_insert)
  have new: "artifact_link dir parent name \<notin> artifact_link dir parent ` fst ` set t"
    using Cons.prems(2,3) by (auto simp: x inj_on_insert)
  have "links w' (artifact_link dir parent name) = wanted_link parent inner"
    using ih(2) [OF new] l1 by simp
  moreover have "links w' q = links w q" if "q \<notin> artifact_link dir parent ` fst ` set (x # t)" for q
    using that ih(2) [of q] l1 by (auto simp: x)
  ultimately show ?case using ih(1) by (auto simp: x)
qed (simp add: io_iff)

lemma commit_parents_Ok:
  assumes "commit_parents fs dir t ps w = (Ok (), w')" and "dir \<noteq> []" and "table_names_ok t"
    and "parents_ok ps0" and "set ps \<subseteq> set ps0" and "distinct ps"
  shows "(\<forall>p\<in>set ps. \<forall>(name, inner)\<in>set t. links w' (artifact_link dir p name) = wanted_link p inner) \<and>
    (\<forall>q. q \<notin> (\<Union>p\<in>set ps. artifact_link dir p ` fst ` set t) \<longrightarrow> links w' q = links w q)"
  using assms(1,5,6)
proof (induction ps arbitrary: w)
  case (Cons p ps)
  have inj: "a = b \<and> n = m" if "a \<in> set (p # ps)" "b \<in> set (p # ps)" "n \<in> fst ` set t" "m \<in> fst ` set t"
    "artifact_link dir a n = artifact_link dir b m" for a b n m
    using artifact_link_inj [OF assms(2,4), of a b n m] that Cons.prems(2) assms(3)
    by (auto simp: table_names_ok_def list_all_iff)
  obtain w1 where first: "commit_links fs dir p t w = (Ok (), w1)" and rest: "commit_parents fs dir t ps w1 = (Ok (), w')"
    using Cons.prems(1) by (auto simp: io_iff)
  have "inj_on (artifact_link dir p) (fst ` set t)"
    by (rule inj_onI) (use inj [of p p] in simp)
  then have l1: "\<forall>(name, inner)\<in>set t. links w1 (artifact_link dir p name) = wanted_link p inner"
    "\<And>q. q \<notin> artifact_link dir p ` fst ` set t \<Longrightarrow> links w1 q = links w q"
    using commit_links_Ok [OF first] assms(3) by (simp_all add: table_names_ok_def)
  have ih: "\<forall>p\<in>set ps. \<forall>(name, inner)\<in>set t. links w' (artifact_link dir p name) = wanted_link p inner"
    "\<And>q. q \<notin> (\<Union>p\<in>set ps. artifact_link dir p ` fst ` set t) \<Longrightarrow> links w' q = links w1 q"
    using Cons.IH [OF rest] Cons.prems(2,3) by auto
  have "links w' (artifact_link dir p name) = wanted_link p inner" if "(name, inner) \<in> set t" for name inner
  proof -
    have "artifact_link dir p name \<notin> (\<Union>p\<in>set ps. artifact_link dir p ` fst ` set t)"
    proof
      assume "artifact_link dir p name \<in> (\<Union>p\<in>set ps. artifact_link dir p ` fst ` set t)"
      then obtain b m where "b \<in> set ps" "m \<in> fst ` set t" "artifact_link dir p name = artifact_link dir b m"
        by blast
      moreover have "name \<in> fst ` set t" using that by (metis fst_conv image_eqI)
      ultimately have "p = b" using inj [of p b name m] by simp
      with \<open>b \<in> set ps\<close> show False using Cons.prems(3) by simp
    qed
    then show ?thesis using ih(2) l1(1) that by fastforce
  qed
  then show ?case using ih l1(2) by auto
qed (simp add: io_iff)

lemma repo_commit_Ok:
  assumes "r_artifact_repo_commit fs (repo, w) = (Ok (), (repo', w'))"
    and "repo_path repo \<noteq> []" and "repo_artifacts repo = Ptr t" and "table_names_ok t"
    and "repo_possible_references repo = Ptr ps" and "parents_ok ps"
  shows "repo' = repo \<and>
    (\<forall>p\<in>set ps. \<forall>(name, inner)\<in>set t. links w' (artifact_link (repo_path repo) p name) = wanted_link p inner) \<and>
    (\<forall>q. q \<notin> (\<Union>p\<in>set ps. artifact_link (repo_path repo) p ` fst ` set t) \<longrightarrow> links w' q = links w q)"
proof -
  obtain w1 where c: "commit_parents fs (repo_path repo) (if ps = [] then [] else t) ps w = (Ok (), w1)"
    and s: "r_syncfs fs (repo_path repo) w1 = (Ok (), w')" and "repo' = repo"
    using assms(1,3,5) by (auto simp: r_artifact_repo_commit_def io_iff split: if_splits)
  have "links w' = links w1" using s syncfs [of "repo_path repo" w1] by (auto simp: r_syncfs_def split: result.splits)
  moreover have "commit_parents fs (repo_path repo) t ps w = (Ok (), w1)" using c by (cases "ps = []") auto
  moreover have "distinct ps" using assms(6) by (simp add: parents_ok_def)
  ultimately show ?thesis
    using commit_parents_Ok [OF _ assms(2,4,6) subset_refl] \<open>repo' = repo\<close> by simp
qed

end

subsection \<open>A simulated file system\<close>

text \<open>The world is a table of symbolic links and a list of other files.\<close>

type_synonym link_world = "(string \<times> string) list \<times> string list"

definition sim_rename :: "string \<Rightarrow> string \<Rightarrow> (link_world, unit) io" where
  "sim_rename p q w = (case map_of (fst w) p of
      Some t \<Rightarrow> (Ok (), (AList.update q t (AList.delete p (fst w)), snd w))
    | None \<Rightarrow> if p \<in> set (snd w) then (Ok (), (fst w, q # removeAll p (snd w)))
              else (Error (G_FILE_ERROR G_FILE_ERROR_NOENT), w))"

definition sim_symlink :: "string \<Rightarrow> string \<Rightarrow> (link_world, unit) io" where
  "sim_symlink t p w = (if map_of (fst w) p \<noteq> None \<or> p \<in> set (snd w)
     then (Error (G_FILE_ERROR G_FILE_ERROR_FAILED), w) else (Ok (), (AList.update p t (fst w), snd w)))"

definition sim_unlink :: "string \<Rightarrow> (link_world, unit) io" where
  "sim_unlink p w = (if map_of (fst w) p \<noteq> None then (Ok (), (AList.delete p (fst w), snd w))
     else (Error (G_FILE_ERROR G_FILE_ERROR_NOENT), w))"

definition sim_read_link :: "string \<Rightarrow> link_world \<Rightarrow> string result" where
  "sim_read_link p w = (case map_of (fst w) p of Some t \<Rightarrow> Ok t | None \<Rightarrow> Error (G_FILE_ERROR G_FILE_ERROR_NOENT))"

definition sim_add_file :: "string \<Rightarrow> (link_world, unit) io" where
  "sim_add_file p w = (Ok (), (fst w, p # snd w))"

definition link_sim :: "link_world fs" where
  "link_sim = \<lparr>fs_os = (os_programs (\<lambda>args w. (Exited 0 '''', w)))
       \<lparr>os_file_exists := \<lambda>p w. p \<in> set (snd w), os_rename := sim_rename\<rparr>,
     fs_list_dir = (\<lambda>p w. Ok []), fs_is_symlink = (\<lambda>p w. map_of (fst w) p \<noteq> None), fs_read_link = sim_read_link,
     fs_symlink = sim_symlink, fs_unlink = sim_unlink, fs_mkdir = sim_add_file, fs_open_dir = (\<lambda>p w. Ok ()),
     fs_syncfs = (\<lambda>p. io_return ()), fs_fsync = (\<lambda>p. io_return ()), fs_walk = (\<lambda>p w. ([], False)),
     fs_lease = (\<lambda>p w. Lease_Granted), fs_reads = (\<lambda>p w. Ok [Read_Bytes ''data'']), fs_create = sim_add_file,
     fs_write = (\<lambda>p d. io_return ()), fs_close = (\<lambda>p. io_return ())\<rparr>"

interpretation link_sim: link_store link_sim "\<lambda>w. map_of (fst w)"
proof (unfold_locales, goal_cases)
  case 1 show ?case by (auto simp: link_sim_def sim_read_link_def split: option.splits)
next
  case 2 then show ?case by (auto simp: link_sim_def sim_symlink_def update_conv' split: if_splits)
next
  case 3 then show ?case by (simp add: link_sim_def sim_symlink_def)
next
  case 4 then show ?case by (auto simp: link_sim_def sim_rename_def update_conv' delete_conv')
next
  case 5 then show ?case by (auto simp: link_sim_def sim_unlink_def delete_conv' split: if_splits)
next
  case 6 then show ?case by (auto simp: link_sim_def sim_unlink_def split: if_splits)
next
  case 7 show ?case by (simp add: link_sim_def io_return_def)
qed

definition artifact_demo_repo :: artifact_repo where
  "artifact_demo_repo = \<lparr>repo_name = ''apps'', repo_description = None, repo_path = ''/r'', repo_type = ''files'',
     repo_parent_class = None, repo_artifacts = Ptr [
       (''app'', [(Some ''aa'', (artifact_new0 ''app'' (Some ''aa''))\<lparr>art_references := [''''], art_path := Some ''/r/.artifact-app-aa''\<rparr>)]),
       (''old'', [(Some ''cc'', (artifact_new0 ''old'' (Some ''cc''))\<lparr>art_references := [''''], art_path := Some ''/r/.artifact-old-cc''\<rparr>)])],
     repo_possible_references = Ptr ['''']\<rparr>"

definition stale_demo_world :: link_world where
  "stale_demo_world = ([(''/r/app.tmp-link'', ''.artifact-app-bb''), (''/r/app'', ''.artifact-app-aa'')], [])"

text \<open>
  An update of an artifact link that is interrupted between creating the temporary link and
  renaming it blocks every later change of this link: the temporary name is taken, the update fails
  and leaves the link as it is; and pruning a repository without parents keeps the temporary link,
  because it is a symbolic link.
\<close>

theorem stale_link_blocks_update:
  assumes "link_store fs links" and "links w (p @ ''.tmp-link'') \<noteq> None" and "links w p \<noteq> Some t"
  shows "(case r_update_symlink fs t p w of (r, w') \<Rightarrow> r \<noteq> Ok () \<and> links w' p = links w p) \<and>
    (repo_parent_class repo = None \<and> fs_is_symlink fs (g_build_filename (repo_path repo) n) w \<longrightarrow>
      entry_expected fs repo is_parent w n)"
proof -
  obtain r w' where run: "r_update_symlink fs t p w = (r, w')" by fastforce
  have "fs_read_link fs p w \<noteq> Ok t" using link_store.read_link [OF assms(1)] assms(3) by simp
  then have "r \<noteq> Ok ()"
    using run link_store.symlink_exists [of fs links w "p @ ''.tmp-link''" t, OF assms(1,2)]
    by (auto simp: r_update_symlink_def Let_def io_bind_def split: result.splits prod.splits if_splits)
  moreover have "links w' p = links w p"
    using link_store.update_symlink_fails [of fs links t p w r w' p, OF assms(1) run \<open>r \<noteq> Ok ()\<close>] by simp
  ultimately show ?thesis using run by (simp add: entry_expected_def Let_def)
qed

theorem stale_link_blocks_update_witness:
  "(case r_update_symlink link_sim ''.artifact-app-bb'' ''/r/app'' stale_demo_world of
      (r, w') \<Rightarrow> r \<noteq> Ok () \<and> map_of (fst w') ''/r/app'' = Some ''.artifact-app-aa'') \<and>
   entry_expected link_sim artifact_demo_repo False stale_demo_world ''app.tmp-link''"
proof -
  have "map_of (fst stale_demo_world) (''/r/app'' @ ''.tmp-link'') \<noteq> None"
    "map_of (fst stale_demo_world) ''/r/app'' \<noteq> Some ''.artifact-app-bb''"
    "map_of (fst stale_demo_world) ''/r/app'' = Some ''.artifact-app-aa''"
    "repo_parent_class artifact_demo_repo = None \<and>
      fs_is_symlink link_sim (g_build_filename (repo_path artifact_demo_repo) ''app.tmp-link'') stale_demo_world"
    by code_simp+
  then show ?thesis
    using stale_link_blocks_update [of link_sim "\<lambda>w. map_of (fst w)" stale_demo_world "''/r/app''" "''.artifact-app-bb''"
        artifact_demo_repo "''app.tmp-link''" False, OF link_sim.link_store_axioms] by simp
qed

text \<open>
  C26. When the directory of a prepared repository cannot be opened, the preparation fails and leaves
  both of its objects freed but still referenced; the next preparation frees them again.
\<close>

theorem failed_prepare_double_free:
  assumes "repo_artifacts repo = Ptr t" and "repo_possible_references repo = Ptr ps"
    and "fs_list_dir fs (repo_path repo) w = Error e"
  shows "\<exists>repo'. r_artifact_repo_prepare fs slots (repo, w) = (Error e, (repo', w)) \<and>
    fst (r_artifact_repo_prepare fs slots (repo', w')) = Abort"
proof -
  let ?freed = "repo\<lparr>repo_artifacts := Dangling, repo_possible_references := Dangling\<rparr>"
  have free: "free_repo (repo, w) = (Ok (), (?freed, w))"
    using assms(1,2) by (simp add: free_repo_def io_bind_def get_repo_def io_lift_def free_ptr_def modify_repo_def)
  have "r_artifact_repo_prepare fs slots (repo, w) = (Error e, (?freed, w))"
    using assms(3)
    by (simp add: r_artifact_repo_prepare_def io_bind_OkI [where m = free_repo and w = "(repo, w)", OF free])
      (simp add: io_bind_def get_repo_def get_world_def io_lift_def)
  moreover have "fst (r_artifact_repo_prepare fs slots (?freed, w')) = Abort"
    by (simp add: r_artifact_repo_prepare_def free_repo_def io_bind_def get_repo_def io_lift_def free_ptr_def)
  ultimately show ?thesis by blast
qed

theorem failed_prepare_double_free_witness:
  "\<exists>repo'. r_artifact_repo_prepare (link_sim\<lparr>fs_list_dir := \<lambda>p w. Error (G_FILE_ERROR G_FILE_ERROR_NOENT)\<rparr>) [] (artifact_demo_repo, ([], [])) =
      (Error (G_FILE_ERROR G_FILE_ERROR_NOENT), (repo', ([], []))) \<and>
    fst (r_artifact_repo_prepare (link_sim\<lparr>fs_list_dir := \<lambda>p w. Error (G_FILE_ERROR G_FILE_ERROR_NOENT)\<rparr>) [] (repo', ([], []))) = Abort"
  by (rule failed_prepare_double_free) (simp_all add: artifact_demo_repo_def)

end
