(* ===== verification/Install_Artifacts.thy ===== *)
theory Install_Artifacts
  imports Install_Safety Artifact_Links
begin

text \<open>
  Installing artifacts (\<open>src/src/install.c\<close> on top of \<open>src/src/artifacts.c\<close>), and the artifact
  repositories as the installer of \<open>Install_Run\<close> uses them.
\<close>

subsection \<open>Operations\<close>

text \<open>Artifacts that the manifest does not mention lose their references.\<close>

definition drop_old :: "(string \<Rightarrow> bool) \<Rightarrow> artifact_table \<Rightarrow> artifact_table" where
  "drop_old keep t = map (\<lambda>(n, inner).
     (n, if keep n then inner else map (\<lambda>(d, a). (d, a\<lparr>art_references := []\<rparr>)) inner)) t"

definition remove_old_artifacts :: "'w fs \<Rightarrow> rauc_manifest \<Rightarrow> ('w repo_sys, unit) io" where
  "remove_old_artifacts fs mf =
     io_bind get_repo (\<lambda>repo.
     io_bind get_table (\<lambda>t.
     io_bind (set_table (drop_old (\<lambda>n. r_manifest_has_artifact_image mf (Some (repo_name repo)) (Some n)) t)) (\<lambda>_.
       r_artifact_repo_commit fs)))"

definition artifact_for :: "rauc_manifest \<Rightarrow> rauc_image \<Rightarrow> string \<Rightarrow> rartifact" where
  "artifact_for mf img name = (artifact_new0 name None)\<lparr>art_bundle_compatible := mf_update_compatible mf,
     art_bundle_version := mf_update_version mf, art_bundle_description := mf_update_description mf,
     art_bundle_build := mf_update_build mf, art_bundle_hash := mf_hash mf, art_checksum := img_checksum img\<rparr>"

text \<open>The artifact that the plan is about: an existing instance, or a new one that is copied in.\<close>

definition provide_artifact :: "'w fs \<Rightarrow> rauc_manifest \<Rightarrow> rauc_image \<Rightarrow> string \<Rightarrow> ('w repo_sys, unit) io" where
  "provide_artifact fs mf img name =
     (let digest = cs_digest (img_checksum img) in
      io_bind get_table (\<lambda>t. case r_artifact_find t (Some name) digest of
          Some a \<Rightarrow> io_return ()
        | None \<Rightarrow>
            io_bind (r_artifact_repo_insert fs (artifact_for mf img name)) (\<lambda>_.
            io_bind get_repo (\<lambda>repo.
            io_bind get_table (\<lambda>t. case map_of (inner_of t name) digest of
                None \<Rightarrow> io_abort
              | Some a \<Rightarrow> in_world (r_artifact_install fs repo a img))))))"

definition handle_artifact_install_plan :: "'w fs \<Rightarrow> rauc_manifest \<Rightarrow> rauc_image \<Rightarrow> ('w repo_sys, unit) io" where
  "handle_artifact_install_plan fs mf img =
     io_bind (remove_old_artifacts fs mf) (\<lambda>_. case img_artifact img of
         None \<Rightarrow> io_abort
       | Some name \<Rightarrow>
           io_bind (provide_artifact fs mf img name) (\<lambda>_.
           io_bind get_repo (\<lambda>repo.
             if repo_parent_class repo \<noteq> None then io_abort
             else io_bind (r_artifact_activate name (cs_digest (img_checksum img)) '''') (\<lambda>_.
               r_artifact_repo_commit fs))))"

subsection \<open>Tables\<close>

text \<open>
  Each instance is stored under its own name and digest, and no parent refers to it twice.
\<close>

definition instance_ok :: "string \<Rightarrow> string option \<times> rartifact \<Rightarrow> bool" where
  "instance_ok n x \<longleftrightarrow> art_name (snd x) = n \<and> cs_digest (art_checksum (snd x)) = fst x \<and> distinct (art_references (snd x))"

definition inner_ok :: "string \<Rightarrow> instances \<Rightarrow> bool" where
  "inner_ok n inner \<longleftrightarrow> distinct (map fst inner) \<and> list_all (instance_ok n) inner"

definition table_ok :: "artifact_table \<Rightarrow> bool" where
  "table_ok t \<longleftrightarrow> table_names_ok t \<and> (\<forall>(n, inner)\<in>set t. inner_ok n inner)"

lemma table_okD:
  assumes "table_ok t"
  shows "table_names_ok t" "(n, inner) \<in> set t \<Longrightarrow> inner_ok n inner" "(n, inner) \<in> set t \<Longrightarrow> inner_of t n = inner"
  using assms by (auto simp: table_ok_def table_names_ok_def inner_of_def)

lemma table_names_okD: "table_names_ok t \<Longrightarrow> n \<in> fst ` set t \<Longrightarrow> entry_name n"
  by (auto simp: table_names_ok_def list_all_iff)

lemma inner_ok_map:
  assumes "inner_ok n inner" and "\<And>x. fst (f x) = fst x" and "\<And>x. instance_ok n x \<Longrightarrow> instance_ok n (f x)"
  shows "inner_ok n (map f inner)"
  using assms by (auto simp: inner_ok_def list_all_iff comp_def)

lemma drop_old_fst [simp]: "map fst (drop_old keep t) = map fst t"
  by (induction t) (auto simp: drop_old_def)

lemma drop_old_ok:
  assumes "table_ok t"
  shows "table_ok (drop_old keep t)"
proof -
  have "table_names_ok (drop_old keep t)"
    using table_okD(1) [OF assms] by (auto simp: table_names_ok_def list_all_iff drop_old_def comp_def case_prod_unfold)
  moreover have "inner_ok n (map (\<lambda>(d, a). (d, a\<lparr>art_references := []\<rparr>)) inner)" if "inner_ok n inner" for n inner
    using that by (rule inner_ok_map) (auto simp: instance_ok_def split: prod.splits)
  ultimately show ?thesis using table_okD(2) [OF assms] by (auto simp: table_ok_def drop_old_def)
qed

lemma wanted_drop_old: "wanted_link p (map (\<lambda>(d, a). (d, a\<lparr>art_references := []\<rparr>)) inner) = None"
  by (auto simp: wanted_link_def find_None_iff)

text \<open>Activation makes an instance the only one of its name that the parent refers to.\<close>

lemma wanted_activated:
  assumes "digest \<in> fst ` set inner" and "list_all (instance_ok n) inner"
  shows "wanted_link p (map (activate_instance digest p) inner) =
    Some (link_prefix p @ artifact_entry n digest)"
  using assms
proof (induction inner)
  case (Cons x inner)
  obtain d b where x: "x = (d, b)" by fastforce
  have ok: "art_name b = n" "cs_digest (art_checksum b) = d" "distinct (art_references b)"
    using Cons.prems(2) by (simp_all add: x instance_ok_def)
  show ?case
  proof (cases "d = digest")
    case True
    then show ?thesis using ok
      by (auto simp: x wanted_link_def activate_instance_def add_reference_def artifact_link_target_def)
  next
    case False
    then have "wanted_link p (map (activate_instance digest p) (x # inner)) =
        wanted_link p (map (activate_instance digest p) inner)"
      using ok by (simp add: x wanted_link_def activate_instance_def r_artifact_deactivate_def)
    then show ?thesis using Cons False by (simp add: x)
  qed
qed simp

lemma activate_ok: "inner_ok n inner \<Longrightarrow> inner_ok n (map (activate_instance d p) inner)"
  by (erule inner_ok_map)
    (auto simp: instance_ok_def activate_instance_def r_artifact_deactivate_def add_reference_def split: prod.splits)

lemma table_update_ok:
  assumes "table_ok t" and "inner_ok n inner" and "entry_name n"
  shows "table_ok (AList.update n inner t)"
proof -
  have "distinct (map fst (AList.update n inner t))"
    using assms(1) by (auto simp: table_ok_def table_names_ok_def distinct_update)
  moreover have "set (AList.update n inner t) \<subseteq> insert (n, inner) (set t)"
    by (induction t) auto
  ultimately show ?thesis
    using assms by (auto simp: table_ok_def table_names_ok_def list_all_iff)
qed

lemma inner_of_ok: "table_ok t \<Longrightarrow> inner_ok n (inner_of t n)"
  by (auto simp: inner_of_def table_ok_def inner_ok_def split: option.splits dest!: map_of_SomeD)

lemma inner_update_ok:
  assumes "inner_ok n inner" and "instance_ok n (d, a)"
  shows "inner_ok n (AList.update d a inner)"
proof -
  have "set (AList.update d a inner) \<subseteq> insert (d, a) (set inner)" by (induction inner) auto
  then show ?thesis using assms by (auto simp: inner_ok_def list_all_iff distinct_update)
qed

lemma repo_set_table [simp]: "repo_artifacts repo = Ptr t \<Longrightarrow> repo\<lparr>repo_artifacts := Ptr t\<rparr> = repo"
  by simp

subsection \<open>The plan\<close>

lemma insert_Ok:
  assumes "r_artifact_repo_insert fs a (repo, w) = (Ok (), (repo', w'))" and "repo_artifacts repo = Ptr t"
    and "table_ok t" and "entry_name (art_name a)" and "art_references a = []"
  defines "d \<equiv> cs_digest (art_checksum a)"
  obtains t' where "repo' = repo\<lparr>repo_artifacts := Ptr t'\<rparr>" "table_ok t'" "d \<in> fst ` set (inner_of t' (art_name a))"
    "\<And>n. n \<noteq> art_name a \<Longrightarrow> map_of t' n = map_of t n"
proof -
  define path where "path = repo_path repo @ ''/'' @ artifact_entry (art_name a) d"
  define a' where "a' = a\<lparr>art_path := Some path, art_path_tmp := Some (path @ ''.tmp'')\<rparr>"
  have a': "art_name a' = art_name a" "art_checksum a' = art_checksum a" "art_references a' = []"
    using assms(5) by (simp_all add: a'_def)
  have repo': "repo' = repo\<lparr>repo_artifacts := Ptr (AList.update (art_name a)
       (AList.update d a' (inner_of t (art_name a))) t)\<rparr>"
    using assms(1,2) by (auto simp: r_artifact_repo_insert_def io_iff Let_def d_def path_def a'_def split: if_splits)
  have "inner_ok (art_name a) (AList.update d a' (inner_of t (art_name a)))"
    by (rule inner_update_ok [OF inner_of_ok [OF assms(3)]]) (use a' in \<open>simp add: instance_ok_def d_def\<close>)
  then have "table_ok (AList.update (art_name a) (AList.update d a' (inner_of t (art_name a))) t)"
    using table_update_ok assms(3,4) by blast
  then show thesis
    by (rule that [OF repo']) (auto simp: inner_of_def update_conv' dom_update)
qed

lemma install_keeps_repo:
  "in_world m (repo, w) = (r, (repo', w')) \<Longrightarrow> repo' = repo"
  by (auto simp: in_world_def split: prod.splits)

lemma provide_Ok:
  assumes "provide_artifact fs mf img name (repo, w) = (Ok (), (repo', w'))" and "repo_artifacts repo = Ptr t"
    and "table_ok t" and "entry_name name"
  obtains t' where "repo' = repo\<lparr>repo_artifacts := Ptr t'\<rparr>" "table_ok t'"
    "cs_digest (img_checksum img) \<in> fst ` set (inner_of t' name)"
    "\<And>n. n \<noteq> name \<Longrightarrow> map_of t' n = map_of t n"
proof (cases "r_artifact_find t (Some name) (cs_digest (img_checksum img))")
  case None
  let ?a = "artifact_for mf img name"
  obtain repo1 w1 where 1: "r_artifact_repo_insert fs ?a (repo, w) = (Ok (), (repo1, w1))"
    and "repo' = repo1"
    using assms(1,2) None
    by (fastforce simp: provide_artifact_def io_iff Let_def split: option.splits)
  have "art_name ?a = name" "art_references ?a = []" "art_checksum ?a = img_checksum img"
    by (simp_all add: artifact_for_def artifact_new0_def)
  with insert_Ok [OF 1 assms(2,3)] that assms(4) \<open>repo' = repo1\<close> show thesis by metis
next
  case (Some a)
  then have "repo' = repo" using assms(1,2) by (simp add: provide_artifact_def io_iff Let_def)
  moreover have "cs_digest (img_checksum img) \<in> fst ` set (inner_of t name)"
    using Some by (auto simp: r_artifact_find_def split: option.splits dest!: map_of_SomeD) (metis fst_conv image_eqI)
  ultimately show thesis using that [of t] assms(2,3) by simp
qed

lemma activate_Ok:
  assumes "r_artifact_activate name d p (repo, w) = (Ok (), (repo', w'))" and "repo_artifacts repo = Ptr t"
    and "table_ok t" and "entry_name name" and "d \<in> fst ` set (inner_of t name)"
    and "repo_possible_references repo = Ptr ps" and "p \<in> set ps"
  obtains t' where "repo' = repo\<lparr>repo_artifacts := Ptr t'\<rparr>" "table_ok t'" "name \<in> fst ` set t'"
    "wanted_link p (inner_of t' name) = Some (link_prefix p @ artifact_entry name d)"
    "\<And>n. n \<noteq> name \<Longrightarrow> map_of t' n = map_of t n"
proof -
  let ?inner = "map (activate_instance d p) (inner_of t name)"
  have "repo' = repo\<lparr>repo_artifacts := Ptr (AList.update name ?inner t)\<rparr>"
    using assms(1,2,6,7)
    by (auto simp: r_artifact_activate_def io_iff inner_of_def split: option.splits)
  moreover have "table_ok (AList.update name ?inner t)"
    using table_update_ok [OF assms(3) activate_ok [OF inner_of_ok [OF assms(3)]] assms(4)] .
  moreover have "wanted_link p ?inner = Some (link_prefix p @ artifact_entry name d)"
    using wanted_activated [OF assms(5)] inner_of_ok [OF assms(3)] by (simp add: inner_ok_def)
  moreover have "inner_of (AList.update name ?inner t) name = ?inner" by (simp add: inner_of_def update_conv')
  moreover have "name \<in> fst ` set (AList.update name ?inner t)" by (simp add: dom_update)
  ultimately show thesis using that [of "AList.update name ?inner t"] by (simp add: update_conv')
qed

lemma remove_old_Ok:
  assumes "remove_old_artifacts fs mf (repo, w) = (Ok (), (repo', w'))" and "repo_artifacts repo = Ptr t"
  shows "repo' = repo\<lparr>repo_artifacts :=
      Ptr (drop_old (\<lambda>n. r_manifest_has_artifact_image mf (Some (repo_name repo)) (Some n)) t)\<rparr>"
  using assms by (auto simp: remove_old_artifacts_def r_artifact_repo_commit_def io_iff split: if_splits)

lemma map_of_drop_old:
  "map_of (drop_old keep t) n = map_option (\<lambda>inner. if keep n then inner
     else map (\<lambda>(d, a). (d, a\<lparr>art_references := []\<rparr>)) inner) (map_of t n)"
  by (induction t) (auto simp: drop_old_def)

text \<open>The state after a successful plan: the repository, and the table that was committed.\<close>

lemma handle_plan_Ok:
  assumes "link_store fs links"
    and run: "handle_artifact_install_plan fs mf img (repo, w) = (Ok (), (repo', w'))"
    and "repo_path repo \<noteq> []" and t: "repo_artifacts repo = Ptr t" "table_ok t"
    and ps: "repo_possible_references repo = Ptr ['''']"
    and name: "img_artifact img = Some name" "entry_name name"
  defines "keep \<equiv> \<lambda>n. r_manifest_has_artifact_image mf (Some (repo_name repo)) (Some n)"
  obtains t' where "repo' = repo\<lparr>repo_artifacts := Ptr t'\<rparr>" "table_ok t'" "name \<in> fst ` set t'"
    "wanted_link '''' (inner_of t' name) = Some (artifact_entry name (cs_digest (img_checksum img)))"
    "\<And>n. n \<noteq> name \<Longrightarrow> map_of t' n = map_of (drop_old keep t) n"
    "\<And>n inner. (n, inner) \<in> set t' \<Longrightarrow> links w' (artifact_link (repo_path repo) '''' n) = wanted_link '''' inner"
proof -
  obtain s1 s2 s3 where r1: "remove_old_artifacts fs mf (repo, w) = (Ok (), s1)"
    and r2: "provide_artifact fs mf img name s1 = (Ok (), s2)"
    and r3: "r_artifact_activate name (cs_digest (img_checksum img)) '''' s2 = (Ok (), s3)"
    and r4: "r_artifact_repo_commit fs s3 = (Ok (), (repo', w'))"
    using run name(1) by (auto simp: handle_artifact_install_plan_def io_iff split: if_splits)
  obtain repo1 w1 repo2 w2 repo3 w3 where s: "s1 = (repo1, w1)" "s2 = (repo2, w2)" "s3 = (repo3, w3)"
    by (cases s1; cases s2; cases s3) auto
  have repo1: "repo1 = repo\<lparr>repo_artifacts := Ptr (drop_old keep t)\<rparr>"
    using remove_old_Ok [OF _ t(1)] r1 by (simp add: s keep_def)
  obtain t2 where repo2: "repo2 = repo\<lparr>repo_artifacts := Ptr t2\<rparr>" "table_ok t2"
    and d: "cs_digest (img_checksum img) \<in> fst ` set (inner_of t2 name)"
    and m2: "\<And>n. n \<noteq> name \<Longrightarrow> map_of t2 n = map_of (drop_old keep t) n"
    by (rule provide_Ok [OF r2 [unfolded s] _ drop_old_ok [OF t(2)] name(2)]) (use repo1 in auto)
  obtain t3 where repo3: "repo3 = repo\<lparr>repo_artifacts := Ptr t3\<rparr>" "table_ok t3" "name \<in> fst ` set t3"
    and w3: "wanted_link '''' (inner_of t3 name) = Some (artifact_entry name (cs_digest (img_checksum img)))"
    and m3: "\<And>n. n \<noteq> name \<Longrightarrow> map_of t3 n = map_of t2 n"
    by (rule activate_Ok [OF r3 [unfolded s] _ repo2(2) name(2) d, of "['''']"])
      (use repo2(1) ps in \<open>auto simp: link_prefix_def\<close>)
  have final: "repo' = repo3 \<and> (\<forall>(n, inner)\<in>set t3. links w' (artifact_link (repo_path repo) '''' n) = wanted_link '''' inner)"
    using link_store.repo_commit_Ok [OF assms(1) r4 [unfolded s], of t3 "['''']"] repo3 assms(3) ps
    by (simp add: parents_ok_def table_okD(1))
  show thesis
    by (rule that [OF _ repo3(2,3) w3]) (use final repo3(1) m2 m3 in auto)
qed

text \<open>
  C24. After a successful artifact installation into a repository without parent slots, the links of
  the artifacts that the repository knows are those the manifest asks for: the artifact's link points to the content with the image's digest, the links of
  the other artifacts that the manifest contains point to their active content, and the artifacts
  that are not in the manifest have no link. The links of those old artifacts are removed by the commit
  at the end of \<open>remove_old_artifacts\<close>, although the comment there says that pruning does it later
  (only their data is left to pruning). The repository in memory stays consistent.
\<close>

theorem artifact_install_links:
  assumes "link_store fs links" and "handle_artifact_install_plan fs mf img (repo, w) = (Ok (), (repo', w'))"
    and "repo_path repo \<noteq> []" and "repo_artifacts repo = Ptr t" and "table_ok t"
    and "repo_possible_references repo = Ptr ['''']" and "img_artifact img = Some name" and "entry_name name"
  shows "links w' (artifact_link (repo_path repo) '''' name) = Some (artifact_entry name (cs_digest (img_checksum img))) \<and>
    (\<forall>(n, inner)\<in>set t. n \<noteq> name \<longrightarrow> links w' (artifact_link (repo_path repo) '''' n) =
       (if r_manifest_has_artifact_image mf (Some (repo_name repo)) (Some n) then wanted_link '''' inner else None)) \<and>
    (\<exists>t'. repo_artifacts repo' = Ptr t' \<and> table_ok t')"
proof (rule handle_plan_Ok [OF assms])
  fix t'
  assume repo': "repo' = repo\<lparr>repo_artifacts := Ptr t'\<rparr>" and ok: "table_ok t'" and "name \<in> fst ` set t'"
    and wanted: "wanted_link '''' (inner_of t' name) = Some (artifact_entry name (cs_digest (img_checksum img)))"
    and others: "\<And>n. n \<noteq> name \<Longrightarrow> map_of t' n =
      map_of (drop_old (\<lambda>n. r_manifest_has_artifact_image mf (Some (repo_name repo)) (Some n)) t) n"
    and linked: "\<And>n inner. (n, inner) \<in> set t' \<Longrightarrow> links w' (artifact_link (repo_path repo) '''' n) = wanted_link '''' inner"
  have by_name: "links w' (artifact_link (repo_path repo) '''' n) = wanted_link '''' inner" if "map_of t' n = Some inner" for n inner
    using linked map_of_SomeD [OF that] .
  obtain inner where "map_of t' name = Some inner" using \<open>name \<in> fst ` set t'\<close> by (metis map_of_eq_None_iff not_None_eq)
  then have "links w' (artifact_link (repo_path repo) '''' name) = Some (artifact_entry name (cs_digest (img_checksum img)))"
    using by_name wanted by (simp add: inner_of_def)
  moreover have "links w' (artifact_link (repo_path repo) '''' n) =
      (if r_manifest_has_artifact_image mf (Some (repo_name repo)) (Some n) then wanted_link '''' inner else None)"
    if "(n, inner) \<in> set t" "n \<noteq> name" for n inner
  proof -
    have "map_of t n = Some inner" using that(1) assms(5) by (simp add: table_ok_def table_names_ok_def)
    then show ?thesis using by_name [of n] others [OF that(2)] by (simp add: map_of_drop_old wanted_drop_old)
  qed
  ultimately show ?thesis using repo' ok by auto
qed

definition artifact_demo_image :: rauc_image where
  "artifact_demo_image = r_new_image\<lparr>img_slotclass := Some ''apps'', img_artifact := Some ''app'', img_filename := Some ''/b/app.img'',
     img_checksum := \<lparr>cs_type = G_CHECKSUM_SHA256, cs_digest = Some ''bb'', cs_size = 4\<rparr>\<rparr>"

definition artifact_demo_world :: link_world where
  "artifact_demo_world = ([(''/r/app'', ''.artifact-app-aa''), (''/r/old'', ''.artifact-old-cc'')],
     [''/r/.artifact-app-aa'', ''/r/.artifact-old-cc''])"

definition artifact_demo_run :: "unit result \<times> (artifact_repo \<times> link_world)" where
  "artifact_demo_run = handle_artifact_install_plan link_sim (manifest_new0\<lparr>mf_images := [artifact_demo_image]\<rparr>)
     artifact_demo_image (artifact_demo_repo, artifact_demo_world)"

theorem artifact_install_links_witness:
  "map_of (fst (snd (snd artifact_demo_run))) ''/r/app'' = Some ''.artifact-app-bb'' \<and>
   map_of (fst (snd (snd artifact_demo_run))) ''/r/old'' = None"
proof -
  obtain t where t: "repo_artifacts artifact_demo_repo = Ptr t" by (simp add: artifact_demo_repo_def)
  have run: "handle_artifact_install_plan link_sim (manifest_new0\<lparr>mf_images := [artifact_demo_image]\<rparr>)
      artifact_demo_image (artifact_demo_repo, artifact_demo_world) = (Ok (), (fst (snd artifact_demo_run), snd (snd artifact_demo_run)))"
    by code_simp
  have hyps: "repo_path artifact_demo_repo \<noteq> []" "case repo_artifacts artifact_demo_repo of Ptr t \<Rightarrow> table_ok t | _ \<Rightarrow> False"
    "repo_possible_references artifact_demo_repo = Ptr ['''']" "img_artifact artifact_demo_image = Some ''app''"
    "entry_name ''app''" "case repo_artifacts artifact_demo_repo of Ptr t \<Rightarrow> ''old'' \<in> fst ` set t | _ \<Rightarrow> False"
    by code_simp+
  have eqs: "artifact_link (repo_path artifact_demo_repo) '''' ''app'' = ''/r/app''"
    "artifact_link (repo_path artifact_demo_repo) '''' ''old'' = ''/r/old''"
    "artifact_entry ''app'' (cs_digest (img_checksum artifact_demo_image)) = ''.artifact-app-bb''"
    "r_manifest_has_artifact_image (manifest_new0\<lparr>mf_images := [artifact_demo_image]\<rparr>) (Some (repo_name artifact_demo_repo)) (Some ''old'') = False"
    by code_simp+
  show ?thesis
    using artifact_install_links [of link_sim "\<lambda>w. map_of (fst w)", OF link_sim.link_store_axioms run hyps(1) t _ hyps(3-5)]
      hyps(2,6) eqs t by fastforce
qed

subsection \<open>The repositories as the installer sees them\<close>

text \<open>
  The configured repositories are memory of the process: \<open>mem\<close> reads and \<open>set_mem\<close> writes them
  in the state the installer works on. \<open>paths\<close> lists names and paths, which never change.
\<close>

definition with_repos :: "('w \<Rightarrow> artifact_repo list) \<Rightarrow> (artifact_repo list \<Rightarrow> 'w \<Rightarrow> 'w)
    \<Rightarrow> (slots \<Rightarrow> (artifact_repo list \<times> 'w, unit) io) \<Rightarrow> ('w sys, unit) io" where
  "with_repos mem set_mem m s =
     (case m (fst s) (mem (snd s), snd s) of (r, (repos, w)) \<Rightarrow> (r, (fst s, set_mem repos w)))"

fun on_repo :: "string \<Rightarrow> ('w repo_sys, unit) io \<Rightarrow> (artifact_repo list \<times> 'w, unit) io" where
  "on_repo n m ([], w) = (Abort, ([], w))"
| "on_repo n m (repo # repos, w) =
     (if repo_name repo = n then (case m (repo, w) of (r, (repo', w')) \<Rightarrow> (r, (repo' # repos, w')))
      else (case on_repo n m (repos, w) of (r, (repos', w')) \<Rightarrow> (r, (repo # repos', w'))))"

definition repo_ops :: "'w fs \<Rightarrow> ('w \<Rightarrow> artifact_repo list) \<Rightarrow> (artifact_repo list \<Rightarrow> 'w \<Rightarrow> 'w) \<Rightarrow> (string \<times> string) list
    \<Rightarrow> 'w artifact_ops" where
  "repo_ops fs mem set_mem paths = \<lparr>art_repos = paths,
     art_init = with_repos mem set_mem (r_artifacts_init fs),
     art_prune = with_repos mem set_mem (r_artifacts_prune fs),
     art_install = (\<lambda>mf p. case plan_target_repo p of
         None \<Rightarrow> io_abort
       | Some n \<Rightarrow> with_repos mem set_mem (\<lambda>_. on_repo n (handle_artifact_install_plan fs mf (plan_image p))))\<rparr>"

text \<open>File system operations that do not touch the storage of the boot loader.\<close>

abbreviation spares :: "('w \<Rightarrow> 'b) \<Rightarrow> ('s \<times> 'w, 'a) io \<Rightarrow> bool" where
  "spares v m \<equiv> preserves (\<lambda>s. v (snd s)) m"

lemma spares_in_world [preserves_intros]: "preserves v m \<Longrightarrow> spares v (in_world m)"
  by (auto simp: preserves_def in_world_def split: prod.splits) (metis snd_conv)

lemma spares_get_world [preserves_intros]: "spares v get_world"
  by (simp add: preserves_def get_world_def)

lemma spares_modify [preserves_intros]: "spares v (modify_repo f)" "spares v (set_table t)" "spares v (set_parents ps)"
  by (simp_all add: preserves_def modify_repo_def set_table_def set_parents_def)

lemma preserves_reading [preserves_intros]: "preserves v (\<lambda>w. (f w, w))"
  by (simp add: preserves_def)

lemma preserves_by_result:
  "(\<And>r. preserves v (k r)) \<Longrightarrow> preserves v (\<lambda>w. k (f w) w)"
  by (simp add: preserves_def)

lemma spares_each_repo:
  assumes "spares v m"
  shows "spares v (each_repo m)"
proof -
  have "v (snd (snd (each_repo m (repos, w)))) = v w" for repos w
  proof (induction repos arbitrary: w)
    case (Cons repo repos)
    have "v (snd (snd (m (repo, w)))) = v w" using assms by (simp add: preserves_def)
    with Cons.IH [of "snd (snd (m (repo, w)))"] show ?case by (auto split: prod.splits result.splits)
  qed simp
  then show ?thesis by (auto simp: preserves_def)
qed

lemma spares_on_repo:
  assumes "spares v m"
  shows "spares v (on_repo n m)"
proof -
  have "v (snd (snd (on_repo n m (repos, w)))) = v w" for repos w
  proof (induction repos)
    case (Cons repo repos)
    have "v (snd (snd (m (repo, w)))) = v w" using assms by (simp add: preserves_def)
    with Cons.IH show ?case by (auto split: prod.splits)
  qed simp
  then show ?thesis by (auto simp: preserves_def)
qed

locale fs_frame = boot_frame "fs_os fs" v for fs :: "'w fs" and v :: "'w \<Rightarrow> 'b" +
  assumes symlink: "preserves v (fs_symlink fs t p)"
    and unlink: "preserves v (fs_unlink fs p)"
    and fs_mkdir: "preserves v (fs_mkdir fs p)"
    and syncfs: "preserves v (fs_syncfs fs p)"
    and fsync: "preserves v (fs_fsync fs p)"
    and create: "preserves v (fs_create fs p)"
    and write_file: "preserves v (fs_write fs p d)"
    and close_file: "preserves v (fs_close fs p)"
    and tar: "v (snd (os_run (fs_os fs) (''tar'' # argv) w)) = v w"
    and cp: "v (snd (os_run (fs_os fs) (''cp'' # argv) w)) = v w"
begin

lemmas fs_leaves = symlink unlink fs_mkdir syncfs fsync create write_file close_file rename mkdir rm_tree_leaves

lemma update_symlink_leaves: "preserves v (r_update_symlink fs t p)"
proof -
  let ?replace = "io_bind (fs_symlink fs t (p @ ''.tmp-link'')) (\<lambda>_.
      io_catch (os_rename (fs_os fs) (p @ ''.tmp-link'') p) (\<lambda>e.
        io_bind (io_catch (fs_unlink fs (p @ ''.tmp-link'')) (\<lambda>_. io_return ())) (\<lambda>_. io_fail e)))"
  have "preserves v ?replace" by (intro preserves_intros fs_leaves)
  then show ?thesis
    unfolding r_update_symlink_def Let_def preserves_def by (auto split: result.splits)
qed

lemma commit_links_leaves: "preserves v (commit_links fs dir p t)"
proof (induction t)
  case (Cons x t)
  then show ?case by (cases x) (auto intro!: preserves_intros update_symlink_leaves unlink)
qed (simp add: preserves_intros)

lemma commit_leaves [preserves_intros]: "spares v (r_artifact_repo_commit fs)"
proof -
  have "preserves v (commit_parents fs dir t ps)" for dir t ps
    by (induction ps) (auto intro!: preserves_intros commit_links_leaves)
  moreover have "preserves v (r_syncfs fs p)" for p
    using syncfs by (auto simp: preserves_def r_syncfs_def split: result.splits)
  ultimately show ?thesis unfolding r_artifact_repo_commit_def by (intro preserves_intros)
qed

lemma insert_leaves [preserves_intros]: "spares v (r_artifact_repo_insert fs a)"
  unfolding r_artifact_repo_insert_def Let_def by (intro preserves_intros)

lemma read_links_leaves [preserves_intros]: "spares v (artifact_repo_read_links fs p)"
  unfolding artifact_repo_read_links_def Let_def by (intro preserves_intros)

lemma prepare_leaves: "spares v (r_artifact_repo_prepare fs slots)"
proof -
  have entries: "spares v (prepare_entries fs es)" for es
    by (induction es) (auto intro!: preserves_intros split: option.splits)
  have ref: "spares v (add_possible_reference p)" for p
    unfolding add_possible_reference_def by (intro preserves_intros)
  have "spares v (prepare_parents fs ss)" for ss
    by (induction ss) (auto intro!: preserves_intros mkdir ref)
  then show ?thesis
    unfolding r_artifact_repo_prepare_def free_repo_def by (intro preserves_intros entries ref)
qed

lemma prune_subdirs_leaves: "preserves v (prune_subdirs fs dir ss stale)"
proof -
  have loop: "preserves v (prune_subdir_loop fs path stale names)" for path stale names
  proof (induction names)
    case (Cons n names)
    have "preserves v (io_bind (io_catch (rm_tree (fs_os fs) (g_build_filename path n)) (\<lambda>e. io_fail (keep_first stale e)))
        (\<lambda>_. prune_subdir_loop fs path stale names))"
      by (intro preserves_intros Cons)
    then show ?case using Cons by (simp add: preserves_def)
  qed (simp add: preserves_intros)
  have "preserves v (artifact_repo_prune_subdir fs dir parent stale)" for parent stale
    using preserves_bind [OF loop preserves_basic(1) [of v stale]]
    by (auto simp: preserves_def artifact_repo_prune_subdir_def Let_def split: result.splits)
  then show ?thesis by (induction ss arbitrary: stale) (auto intro!: preserves_intros)
qed

lemma prune_unexpected_leaves: "spares v (prune_unexpected fs stale names)"
proof -
  have "preserves v (checked_rm_tree fs stale path)" for path
    unfolding checked_rm_tree_def by (intro preserves_intros)
  then show ?thesis by (induction names) (auto intro!: preserves_intros)
qed

lemma prune_instances_leaves: "spares v (prune_instances fs stale name as)"
proof (induction "as")
  case (Cons x "as")
  obtain d a where x: "x = (d, a)" by fastforce
  have step: "spares v (case q of
              Error e \<Rightarrow> if e = R_UTILS_ERROR R_UTILS_ERROR_OPEN_FILE then prune_instances fs stale name as else io_fail e
            | Abort \<Rightarrow> io_abort
            | Ok _ \<Rightarrow> io_bind (in_world (rm_tree (fs_os fs) path)) (\<lambda>_.
                io_bind get_table (\<lambda>t.
                io_bind (set_table (AList.map_entry name (AList.delete d) t)) (\<lambda>_.
                  prune_instances fs stale name as))))" for q path
    by (cases q) (auto intro!: preserves_intros Cons)
  show ?case by (simp add: x) (intro conjI impI preserves_intros step Cons)
qed (simp add: preserves_intros)

lemma prune_leaves: "spares v (r_artifact_repo_prune fs slots)"
proof -
  have "spares v (prune_unused fs stale t)" for stale t
  proof (induction t)
    case (Cons x t)
    then show ?case by (cases x) (auto intro!: preserves_intros prune_instances_leaves)
  qed (simp add: preserves_intros)
  then show ?thesis
    unfolding r_artifact_repo_prune_def by (intro preserves_intros prune_subdirs_leaves prune_unexpected_leaves)
qed

lemma run_leaves: "preserves v (run_wait_check (os_run (fs_os fs)) (''tar'' # argv))"
  "preserves v (run_wait_check (os_run (fs_os fs)) (''cp'' # argv))"
  using tar cp by (auto simp: preserves_def run_wait_check_def split: prod.splits) (metis snd_conv)+

lemma copy_stream_leaves: "preserves v (r_copy_stream_with_progress fs rs out sz)"
proof -
  have "preserves v (copy_loop fs out rs)"
  proof (induction rs)
    case (Cons r rs)
    then show ?case by (cases r) (auto intro!: preserves_intros write_file)
  qed (simp add: preserves_intros)
  then show ?thesis unfolding r_copy_stream_with_progress_def by (intro preserves_intros)
qed

lemma artifact_copy_leaves: "preserves v (artifact_copy fs type path_tmp img)"
proof -
  have tar': "preserves v (tree_artifact_install_tar fs path_tmp name)" for name
    unfolding tree_artifact_install_tar_def by (intro preserves_intros fs_mkdir run_leaves)
  have "preserves v (\<lambda>w. if \<not> os_file_exists (fs_os fs) f w then (Error (R_ARTIFACTS_ERROR R_ARTIFACTS_ERROR_INSTALL), w)
      else tree_artifact_install_tar fs path_tmp f w)" for f
    using tar' by (simp add: preserves_def)
  moreover have "preserves v (r_tree_artifact_install_extracted fs path_tmp name)" for name
    unfolding r_tree_artifact_install_extracted_def by (rule run_leaves)
  moreover have "preserves v (files_artifact_install fs path_tmp img)"
    unfolding files_artifact_install_def by (intro preserves_intros create copy_stream_leaves fsync close_file)
  ultimately show ?thesis unfolding artifact_copy_def by (intro preserves_intros tar')
qed

lemma artifact_install_leaves: "preserves v (r_artifact_install fs repo a img)"
proof -
  have "preserves v (io_bind (artifact_copy fs (repo_type repo) path_tmp img) (\<lambda>_.
          io_bind (\<lambda>w. (fs_open_dir fs (repo_path repo) w, w)) (\<lambda>_.
          io_bind (fs_syncfs fs (repo_path repo)) (\<lambda>_.
          io_bind (os_rename (fs_os fs) path_tmp path) (\<lambda>_.
            fs_fsync fs (repo_path repo))))))" for path_tmp path
    by (intro preserves_intros artifact_copy_leaves syncfs rename fsync)
  then show ?thesis
    unfolding r_artifact_install_def
    by (cases "art_path a"; cases "art_path_tmp a") (auto simp: preserves_def io_fail_def)
qed

lemma handle_artifact_leaves: "spares v (handle_artifact_install_plan fs mf img)"
proof -
  have "spares v (remove_old_artifacts fs mf)"
    unfolding remove_old_artifacts_def by (intro preserves_intros)
  moreover have "spares v (provide_artifact fs mf img name)" for name
    unfolding provide_artifact_def Let_def by (intro preserves_intros artifact_install_leaves)
  moreover have "spares v (r_artifact_activate name d p)" for name d p
    unfolding r_artifact_activate_def by (intro preserves_intros)
  ultimately show ?thesis unfolding handle_artifact_install_plan_def by (intro preserves_intros)
qed

end

text \<open>With the repositories of \<open>artifacts.c\<close> the installer keeps its promise to the boot loader.\<close>

locale artifact_frame = fs_frame fs v for fs :: "'w fs" and v :: "'w \<Rightarrow> 'b" +
  fixes wr :: "'w writer" and mem :: "'w \<Rightarrow> artifact_repo list" and set_mem :: "artifact_repo list \<Rightarrow> 'w \<Rightarrow> 'w"
    and paths :: "(string \<times> string) list"
  assumes handler_leaves: "leaves v (wr h img n hook)" and set_mem_leaves: "v (set_mem repos w) = v w"
begin

lemma with_repos_table:
  assumes "\<And>slots. spares v (m slots)"
  shows "preserves (\<lambda>s. (fst s, v (snd s))) (with_repos mem set_mem m)"
  using assms set_mem_leaves by (auto simp: preserves_def with_repos_def split: prod.splits) (metis snd_conv)

end

sublocale artifact_frame \<subseteq> install_frame "fs_os fs" v wr "repo_ops fs mem set_mem paths"
proof (unfold_locales, goal_cases)
  case 1 show ?case by (rule handler_leaves)
next
  case 2 show ?case
    by (simp add: repo_ops_def r_artifacts_init_def with_repos_table spares_each_repo prepare_leaves)
next
  case 3 show ?case
    by (simp add: repo_ops_def r_artifacts_prune_def with_repos_table spares_each_repo prune_leaves)
next
  case (4 mf p) show ?case
    by (cases "plan_target_repo p")
      (simp_all add: repo_ops_def preserves_basic with_repos_table spares_on_repo handle_artifact_leaves)
qed

subsection \<open>An example\<close>

text \<open>A system with a U-Boot environment, the simulated links and one repository in memory.\<close>

type_synonym demo_world = "(string \<times> string) list \<times> (link_world \<times> artifact_repo list)"

definition demo_op :: "(link_world, 'a) io \<Rightarrow> (demo_world, 'a) io" where
  "demo_op m s = (case m (fst (snd s)) of (r, l) \<Rightarrow> (r, (fst s, (l, snd (snd s)))))"

definition demo_run :: "demo_world runner" where
  "demo_run args s = (case fw_env_sim args (fst s) of (p, e) \<Rightarrow> (p, (e, snd s)))"

definition demo_fs :: "demo_world fs" where
  "demo_fs = \<lparr>fs_os = (os_programs demo_run)\<lparr>os_file_exists := \<lambda>p s. p \<in> set (snd (fst (snd s))),
       os_rename := \<lambda>p q. demo_op (sim_rename p q), os_save_key_file := (\<lambda>p kf. io_return ())\<rparr>,
     fs_list_dir = (\<lambda>p s. Ok []), fs_is_symlink = (\<lambda>p s. map_of (fst (fst (snd s))) p \<noteq> None),
     fs_read_link = (\<lambda>p s. sim_read_link p (fst (snd s))),
     fs_symlink = (\<lambda>t p. demo_op (sim_symlink t p)), fs_unlink = (\<lambda>p. demo_op (sim_unlink p)),
     fs_mkdir = (\<lambda>p. demo_op (sim_add_file p)), fs_open_dir = (\<lambda>p s. Ok ()),
     fs_syncfs = (\<lambda>p. io_return ()), fs_fsync = (\<lambda>p. io_return ()), fs_walk = (\<lambda>p s. ([], False)),
     fs_lease = (\<lambda>p s. Lease_Granted), fs_reads = (\<lambda>p s. Ok [Read_Bytes ''data'']),
     fs_create = (\<lambda>p. demo_op (sim_add_file p)), fs_write = (\<lambda>p d. io_return ()), fs_close = (\<lambda>p. io_return ())\<rparr>"

lemma demo_op_leaves: "preserves (\<lambda>s. f (fst s)) (demo_op m)"
  by (simp add: preserves_def demo_op_def split: prod.splits)

lemma demo_run_idle:
  assumes "cmd \<noteq> ''fw_setenv''"
  shows "fst (snd (demo_run (cmd # argv) s)) = fst s"
  using assms by (cases "(cmd # argv, fst s)" rule: fw_env_sim.cases) (auto simp: demo_run_def split: prod.splits option.splits)

interpretation artifact_demo: artifact_frame demo_fs "\<lambda>s. f (fst s)" "\<lambda>h img n hook. io_return ()" "\<lambda>s. snd (snd s)"
  "\<lambda>repos s. (fst s, (fst (snd s), repos))" "[(''apps'', ''/r'')]" for f
  by unfold_locales
    (auto simp: demo_fs_def os_programs_def demo_run_idle demo_op_leaves preserves_basic)

end
