(* ===== verification/Artifact_Prune.thy ===== *)
theory Artifact_Prune
  imports Install_Artifacts
begin

text \<open>
  Pruning an artifact repository never removes the content of an active artifact. The property is
  stated with a file system whose tree removal stops the program when it is asked to remove a
  protected path: nothing changes.
\<close>

definition guarding :: "string set \<Rightarrow> 'w fs \<Rightarrow> 'w fs" where
  "guarding P fs = fs\<lparr>fs_os := (fs_os fs)\<lparr>os_remove_tree :=
     (\<lambda>p. if p \<in> P then io_abort else os_remove_tree (fs_os fs) p)\<rparr>\<rparr>"

lemma guarding_simps [simp]:
  "fs_is_symlink (guarding P fs) = fs_is_symlink fs" "fs_list_dir (guarding P fs) = fs_list_dir fs"
  "fs_walk (guarding P fs) = fs_walk fs" "fs_lease (guarding P fs) = fs_lease fs"
  "os_is_dir (fs_os (guarding P fs)) = os_is_dir (fs_os fs)"
  by (simp_all add: guarding_def)

lemma guarding_rm_tree: "p \<notin> P \<Longrightarrow> rm_tree (fs_os (guarding P fs)) p = rm_tree (fs_os fs) p"
  by (simp add: rm_tree_def guarding_def)

lemma guarding_expected [simp]: "entry_expected (guarding P fs) = entry_expected fs"
  by (intro ext) (simp add: entry_expected_def)

lemma guarding_check_open [simp]: "checked_open (guarding P fs) = checked_open fs"
proof -
  have "tree_check_open_cb (guarding P fs) w x = tree_check_open_cb fs w x" for w x
    by (cases x rule: prod.exhaust; cases "snd x") auto
  then have "tree_walk (guarding P fs) w xs b = tree_walk fs w xs b" for w xs b
    by (induction xs) (simp_all split: prod.split)
  then have "r_tree_check_open (guarding P fs) = r_tree_check_open fs"
    by (intro ext) (simp add: r_tree_check_open_def)
  then show ?thesis by (intro ext) (simp add: checked_open_def split: option.split)
qed

text \<open>The paths of the artifacts that a parent refers to, and where the content of an artifact lies.\<close>

definition active_paths :: "artifact_table \<Rightarrow> string set" where
  "active_paths t = (\<Union>(n, inner)\<in>set t. \<Union>(d, a)\<in>set inner.
     if art_references a = [] then {} else set_option (art_path a))"

definition placed :: "string \<Rightarrow> string \<Rightarrow> string option \<times> rartifact \<Rightarrow> bool" where
  "placed dir n x \<longleftrightarrow> (case fst x of None \<Rightarrow> False | Some h \<Rightarrow> h \<noteq> [] \<and> list_all is_hex h) \<and>
     NEWLINE \<notin> set n \<and> art_path (snd x) = Some (dir @ ''/'' @ artifact_entry n (fst x))"

definition table_placed :: "string \<Rightarrow> artifact_table \<Rightarrow> bool" where
  "table_placed dir t \<longleftrightarrow> (\<forall>(n, inner)\<in>set t. list_all (placed dir n) inner)"

lemma placedD:
  assumes "placed dir n x"
  obtains h where "fst x = Some h" "art_path (snd x) = Some (dir @ ''/'' @ artifact_entry n (Some h))"
    "artifact_regex ''.artifact-'' (artifact_entry n (Some h)) = Some (n, h)"
proof -
  obtain h where h: "fst x = Some h" "h \<noteq> []" "list_all is_hex h" "NEWLINE \<notin> set n"
    "art_path (snd x) = Some (dir @ ''/'' @ artifact_entry n (fst x))"
    using assms by (auto simp: placed_def split: option.splits)
  have "artifact_regex ''.artifact-'' (''.artifact-'' @ n @ ''-'' @ h) = Some (n, h)"
    using artifact_regex_entry [OF h(2-4), of "''.artifact-''"] .
  then show thesis using that h by (simp add: artifact_entry_def or_null_def)
qed

text \<open>Two instances with the same path are the same.\<close>

lemma placed_unique:
  assumes "table_ok t" "table_placed dir t" "(n, inner) \<in> set t" "x \<in> set inner" "(m, inner') \<in> set t" "y \<in> set inner'"
    and "art_path (snd x) = art_path (snd y)"
  shows "x = y"
proof -
  have "placed dir n x" and "placed dir m y"
    using assms by (auto simp: table_placed_def list_all_iff)
  from this(1) obtain h where h: "fst x = Some h" "art_path (snd x) = Some (dir @ ''/'' @ artifact_entry n (Some h))"
      "artifact_regex ''.artifact-'' (artifact_entry n (Some h)) = Some (n, h)" by (rule placedD) (rule that)
  from \<open>placed dir m y\<close> obtain k where k: "fst y = Some k" "art_path (snd y) = Some (dir @ ''/'' @ artifact_entry m (Some k))"
      "artifact_regex ''.artifact-'' (artifact_entry m (Some k)) = Some (m, k)"
    by (rule placedD) (rule that)
  have eq: "artifact_entry n (Some h) = artifact_entry m (Some k)" using h(2) k(2) assms(7) by simp
  have "Some (m, k) = Some (n, h)" using h(3) unfolding eq k(3) .
  then have nm: "n = m" "fst x = fst y" using h(1) k(1) by simp_all
  then have "inner = inner'" using table_okD(3) [OF assms(1,3)] table_okD(3) [OF assms(1,5)] by simp
  moreover have "distinct (map fst inner)" using table_okD(2) [OF assms(1,3)] by (simp add: inner_ok_def)
  ultimately show "x = y"
    using nm(2) assms(4,6) by (cases x; cases y) (auto dest: eq_key_imp_eq_value)
qed

lemma inactive_path:
  assumes "table_ok t" "table_placed dir t" "(n, inner) \<in> set t" "(d, a) \<in> set inner" "art_references a = []"
    "art_path a = Some p"
  shows "p \<notin> active_paths t"
proof
  assume "p \<in> active_paths t"
  then obtain m inner' d' b where "(m, inner') \<in> set t" "(d', b) \<in> set inner'" "art_references b \<noteq> []" "art_path b = Some p"
    by (auto simp: active_paths_def split: if_splits)
  with placed_unique [OF assms(1-4), of m inner' "(d', b)"] assms(5,6) show False by simp
qed

subsection \<open>Pruning with a guard\<close>

lemma guarded_instances:
  assumes "\<And>d a p. (d, a) \<in> set as \<Longrightarrow> art_references a = [] \<Longrightarrow> art_path a = Some p \<Longrightarrow> p \<notin> P"
  shows "prune_instances (guarding P fs) stale n as = prune_instances fs stale n as"
  using assms
proof (induction "as")
  case (Cons x "as")
  obtain d a where x: "x = (d, a)" by fastforce
  have ih: "prune_instances (guarding P fs) stale n as = prune_instances fs stale n as"
    by (rule Cons.IH) (use Cons.prems in auto)
  show ?case
  proof (cases "art_references a = []")
    case True
    show ?thesis
    proof (cases "art_path a")
      case (Some p)
      have "(d, a) \<in> set (x # as)" by (simp add: x)
      then have "p \<notin> P" using Cons.prems True Some by blast
      then have "rm_tree (fs_os (guarding P fs)) p = rm_tree (fs_os fs) p" by (rule guarding_rm_tree)
      then show ?thesis by (simp only: x prune_instances.simps True Some option.case ih guarding_check_open)
    qed (simp add: x True)
  qed (simp add: x ih)
qed simp

lemma guarded_unused:
  assumes "\<And>n inner d a p. (n, inner) \<in> set t \<Longrightarrow> (d, a) \<in> set inner \<Longrightarrow> art_references a = [] \<Longrightarrow>
      art_path a = Some p \<Longrightarrow> p \<notin> P"
  shows "prune_unused (guarding P fs) stale t = prune_unused fs stale t"
  using assms
proof (induction t)
  case (Cons x t)
  obtain n inner where x: "x = (n, inner)" by fastforce
  have "prune_unused (guarding P fs) stale t = prune_unused fs stale t"
    by (rule Cons.IH) (erule (3) Cons.prems [OF list.set_intros(2)])
  moreover have "prune_instances (guarding P fs) stale n inner = prune_instances fs stale n inner"
    by (rule guarded_instances) (use Cons.prems [of n inner] x in simp)
  ultimately show ?case by (simp add: x)
qed simp

lemma unexpected_path:
  assumes "dir \<noteq> []" "last dir \<noteq> CHR ''/''" "entry_name n" "artifact_regex ''.artifact-'' n = None"
    and "table_placed dir t"
  shows "g_build_filename dir n \<notin> active_paths t"
proof
  have strip: "rev (dropWhile (\<lambda>c. c = CHR ''/'') (rev dir)) = dir"
    using assms(1,2) by (cases dir rule: rev_cases) auto
  assume "g_build_filename dir n \<in> active_paths t"
  then obtain m inner x where "(m, inner) \<in> set t" "x \<in> set inner" and path: "art_path (snd x) = Some (g_build_filename dir n)"
    by (auto simp: active_paths_def split: if_splits)
  then have "placed dir m x" using assms(5) by (auto simp: table_placed_def list_all_iff)
  then obtain h where "art_path (snd x) = Some (dir @ ''/'' @ artifact_entry m (Some h))"
    "artifact_regex ''.artifact-'' (artifact_entry m (Some h)) = Some (m, h)"
    by (rule placedD) (rule that)
  then show False using path assms(4) build_filename_entry [OF assms(3,1)] strip by simp
qed

lemma preserves_repo_part [preserves_intros]: "preserves fst (in_world m)" "preserves fst get_world"
  by (auto simp: preserves_def in_world_def get_world_def split: prod.splits)

lemma prune_unexpected_repo:
  assumes "prune_unexpected fs stale names (repo, w) = (r, (repo', w'))"
  shows "repo' = repo"
proof -
  have "preserves fst (prune_unexpected fs stale names)"
    by (induction names) (auto intro!: preserves_intros)
  from preservesD [OF this assms] show ?thesis by simp
qed

lemma guarded_unexpected:
  assumes "repo_parent_class repo = None"
    and "\<And>n. n \<in> set names \<Longrightarrow> artifact_regex ''.artifact-'' n = None \<Longrightarrow> g_build_filename (repo_path repo) n \<notin> P"
  shows "prune_unexpected (guarding P fs) None names (repo, w) = prune_unexpected fs None names (repo, w)"
  using assms(2)
proof (induction names arbitrary: w)
  case (Cons n names)
  have ih: "prune_unexpected (guarding P fs) None names (repo, w) = prune_unexpected fs None names (repo, w)" for w
    by (rule Cons.IH) (use Cons.prems in auto)
  have "entry_expected fs repo False w n \<or> g_build_filename (repo_path repo) n \<notin> P"
    using Cons.prems [of n] by (cases "artifact_regex ''.artifact-'' n") (simp_all add: entry_expected_def Let_def)
  then have "entry_expected fs repo False w n \<or> rm_tree (fs_os (guarding P fs)) (g_build_filename (repo_path repo) n) =
      rm_tree (fs_os fs) (g_build_filename (repo_path repo) n)"
    using guarding_rm_tree by blast
  then show ?case
    using assms(1) ih
    by (auto simp: io_bind_def get_repo_def get_world_def io_return_def checked_rm_tree_def in_world_def
        split: prod.splits result.splits)
qed simp

subsection \<open>Property\<close>

text \<open>
  C25. Pruning a repository without parents removes neither the content of an active artifact nor
  anything else in its place: with a file system that stops the program at such a removal, the
  result is the same, whatever is found in the directory and whatever fails.
\<close>

theorem prune_keeps_active:
  assumes "repo_parent_class repo = None" and "repo_artifacts repo = Ptr t" and "table_ok t"
    and "table_placed (repo_path repo) t" and "repo_path repo \<noteq> []" and "last (repo_path repo) \<noteq> CHR ''/''"
    and "\<And>names. fs_list_dir fs (repo_path repo) w = Ok names \<Longrightarrow> list_all entry_name names"
  shows "r_artifact_repo_prune (guarding (active_paths t) fs) slots (repo, w) = r_artifact_repo_prune fs slots (repo, w)"
proof (cases "fs_list_dir fs (repo_path repo) w")
  case (Ok names)
  let ?P = "active_paths t"
  have unexp: "prune_unexpected (guarding ?P fs) None names (repo, w) = prune_unexpected fs None names (repo, w)"
    by (rule guarded_unexpected [OF assms(1)], rule unexpected_path [OF assms(5,6) _ _ assms(4)])
      (use assms(7) [OF Ok] in \<open>auto simp: list_all_iff\<close>)
  have unused: "prune_unused (guarding ?P fs) None t = prune_unused fs None t"
    by (rule guarded_unused) (rule inactive_path [OF assms(3,4)])
  obtain r repo' w' where run: "prune_unexpected fs None names (repo, w) = (r, (repo', w'))" by (metis surj_pair)
  have "repo' = repo" using prune_unexpected_repo [OF run] .
  then show ?thesis
    using Ok assms(1,2) unused run unexp
    by (cases r) (simp_all add: r_artifact_repo_prune_def io_bind_def io_catch_def get_repo_def get_world_def
        io_lift_def io_return_def get_table_def)
qed (simp_all add: r_artifact_repo_prune_def io_bind_def io_catch_def get_repo_def get_world_def io_lift_def
      io_return_def io_fail_def assms(1))

definition prune_demo_repo :: artifact_repo where
  "prune_demo_repo = artifact_demo_repo\<lparr>repo_artifacts := Ptr [
     (''app'', [(Some ''aa'', (artifact_new0 ''app'' (Some ''aa''))\<lparr>art_path := Some ''/r/.artifact-app-aa''\<rparr>),
        (Some ''bb'', (artifact_new0 ''app'' (Some ''bb''))\<lparr>art_references := [''''], art_path := Some ''/r/.artifact-app-bb''\<rparr>)])]\<rparr>"

theorem prune_keeps_active_witness:
  "r_artifact_repo_prune (guarding {''/r/.artifact-app-bb''} link_sim) [] (prune_demo_repo, ([], [])) =
   r_artifact_repo_prune link_sim [] (prune_demo_repo, ([], []))"
proof -
  define t where "t = (case repo_artifacts prune_demo_repo of Ptr t \<Rightarrow> t | _ \<Rightarrow> [])"
  have "active_paths t = {''/r/.artifact-app-bb''}"
    by (simp add: active_paths_def t_def prune_demo_repo_def artifact_new0_def)
  moreover have "repo_parent_class prune_demo_repo = None" "repo_path prune_demo_repo \<noteq> []"
    "last (repo_path prune_demo_repo) \<noteq> CHR ''/''"
    by (simp_all add: prune_demo_repo_def artifact_demo_repo_def)
  moreover have "repo_artifacts prune_demo_repo = Ptr t" by (simp add: t_def prune_demo_repo_def)
  moreover have "table_ok t" "table_placed (repo_path prune_demo_repo) t" unfolding t_def by code_simp+
  ultimately show ?thesis
    using prune_keeps_active [of prune_demo_repo t link_sim "([], [])" "[]"] by (simp add: link_sim_def)
qed

end
