(* ===== verification/Boot_Device.thy ===== *)
theory Boot_Device
  imports Manifest
begin

text \<open>
  Writing boot partitions (\<open>src/src/update_handler.c\<close>: clearing a partition, copying an image to
  it, checking whether an area is clear).

  The device is its bytes and what the kernel reports about it. Every \<open>write\<close> and \<open>fsync\<close> is a tick of
  a clock, and \<open>bd_faults\<close> says at which ticks the call fails without an effect. As the pattern of faults
  is arbitrary, a property that holds whatever the outcome holds at every interruption between two
  calls. \<open>bd_bytes\<close> is what a reader of the device sees; \<open>bd_synced\<close> is what was there at the last \<open>fsync\<close>
  that succeeded, which survives a loss of power. Of the writes after it any may be lost. A write that
  reaches the end of the device is short, one behind it fails. Seeking behind the end fails as it does for
  block devices. The image file is its bytes; a read that reaches the
  position \<open>src_error\<close> fails.
\<close>

record blk =
  bd_bytes :: "8 word list"
  bd_sector_size :: "32 word"
  bd_geometry :: "(8 word \<times> 8 word) option"
  bd_sectors :: "32 word option"
  bd_openable :: bool
  bd_clock :: nat
  bd_faults :: "nat \<Rightarrow> bool"
  bd_synced :: "8 word list"

record image_source =
  src_bytes :: "8 word list"
  src_error :: "nat option"

record boot_switch_partition =
  part_start :: "64 word"
  part_size :: "64 word"

abbreviation UPDATE_FAILED :: gerror where
  "UPDATE_FAILED \<equiv> R_UPDATE_ERROR R_UPDATE_ERROR_FAILED"

subsection \<open>System calls\<close>

definition overwrite :: "nat \<Rightarrow> 'a list \<Rightarrow> 'a list \<Rightarrow> 'a list" where
  "overwrite pos data bytes = take pos bytes @ data @ drop (pos + length data) bytes"

definition tick :: "blk \<Rightarrow> blk" where
  "tick b = b\<lparr>bd_clock := Suc (bd_clock b)\<rparr>"

text \<open>\<open>write\<close> at a position: the number of bytes, or \<open>None\<close> for -1.\<close>

definition blk_write :: "nat \<Rightarrow> 8 word list \<Rightarrow> blk \<Rightarrow> nat option \<times> blk" where
  "blk_write pos data b =
     (if bd_faults b (bd_clock b) \<or> pos \<ge> length (bd_bytes b) then (None, tick b)
      else let n = min (length data) (length (bd_bytes b) - pos) in
        (Some n, (tick b)\<lparr>bd_bytes := overwrite pos (take n data) (bd_bytes b)\<rparr>))"

definition blk_fsync :: "(blk, unit) io" where
  "blk_fsync b = (if bd_faults b (bd_clock b) then (Error UPDATE_FAILED, tick b)
     else (Ok (), (tick b)\<lparr>bd_synced := bd_bytes b\<rparr>))"

text \<open>\<open>lseek(fd, start, SEEK_SET) != (off_t) start\<close>\<close>

definition blk_seek :: "64 word \<Rightarrow> (blk, nat) io" where
  "blk_seek start b = (if unat start \<le> length (bd_bytes b) then Ok (unat start) else Error UPDATE_FAILED, b)"

definition blk_open :: "(blk, unit) io" where
  "blk_open b = (if bd_openable b then Ok () else Error UPDATE_FAILED, b)"

text \<open>\<open>g_output_stream_write_all\<close>: a short write is followed by one that fails.\<close>

definition write_all :: "nat \<Rightarrow> 8 word list \<Rightarrow> (blk, unit) io" where
  "write_all pos data b =
     (if data = [] then (Ok (), b)
      else case blk_write pos data b of
          (None, b') \<Rightarrow> (Error (G_IO_ERROR 0), b')
        | (Some n, b') \<Rightarrow> if n < length data then (Error (G_IO_ERROR 0), tick b') else (Ok (), b'))"

subsection \<open>Clearing a partition\<close>

text \<open>
  The loop of \<open>clear_boot_switch_partition\<close>. \<open>clear_count\<close> is a \<open>guint\<close>, the size of the partition a
  \<open>guint64\<close>. \<open>clear_size\<close> is at least 1, so that the branch for a write of no bytes is not reached.
\<close>

function clear_loop :: "64 word \<Rightarrow> nat \<Rightarrow> 32 word \<Rightarrow> nat \<Rightarrow> blk \<Rightarrow> 32 word \<times> blk" where
  "clear_loop sz clear_size clear_count pos b =
     (if \<not> ucast clear_count < sz then (clear_count, b)
      else
        let clear_size = (if sz - ucast clear_count < 512 then unat (sz - ucast clear_count) else clear_size) in
        case blk_write pos (replicate clear_size 0) b of
          (None, b') \<Rightarrow> (clear_count, b')
        | (Some n, b') \<Rightarrow>
            if n = 0 then (clear_count, b') else clear_loop sz clear_size (clear_count + of_nat n) (pos + n) b')"
  by pat_completeness auto

lemma overwrite_length: "pos + length data \<le> length bytes \<Longrightarrow> length (overwrite pos data bytes) = length bytes"
  by (simp add: overwrite_def)

lemma blk_write_Some:
  assumes "blk_write pos data b = (Some n, b')"
  shows "pos < length (bd_bytes b)" and "n = min (length data) (length (bd_bytes b) - pos)"
    and "b' = (tick b)\<lparr>bd_bytes := overwrite pos (take n data) (bd_bytes b)\<rparr>"
    and "length (bd_bytes b') = length (bd_bytes b)"
  using assms by (auto simp: blk_write_def Let_def overwrite_length split: if_splits)

termination clear_loop
proof (relation "measure (\<lambda>(sz, cs, cc, pos, b). length (bd_bytes b) - pos)", simp, goal_cases)
  case (1 sz clear_size clear_count pos b x xa y x2)
  note w = blk_write_Some [of pos "replicate x 0" b x2 y]
  have "blk_write pos (replicate x 0) b = (Some x2, y)" using 1 by simp
  then show ?case using w 1 by simp
qed

declare clear_loop.simps [simp del]

definition clear_boot_switch_partition :: "boot_switch_partition \<Rightarrow> (blk, unit) io" where
  "clear_boot_switch_partition dest_partition =
     io_bind blk_open (\<lambda>_.
     io_bind (blk_seek (part_start dest_partition)) (\<lambda>pos b.
       case clear_loop (part_size dest_partition) 512 0 pos b of
         (clear_count, b') \<Rightarrow>
           (if ucast clear_count \<noteq> part_size dest_partition then Error UPDATE_FAILED else Ok (), b')))"

subsection \<open>Copying an image\<close>

text \<open>\<open>g_input_stream_read\<close> of up to \<open>len\<close> bytes.\<close>

definition src_read :: "image_source \<Rightarrow> nat \<Rightarrow> nat \<Rightarrow> 8 word list result" where
  "src_read src in_pos len =
     (let data = take len (drop in_pos (src_bytes src)) in
      case src_error src of
        None \<Rightarrow> Ok data
      | Some e \<Rightarrow> if e < in_pos + len then Error (G_IO_ERROR 0) else Ok data)"

text \<open>The loop of \<open>r_copy_stream_with_progress\<close>, which gives the positions of both streams.\<close>

function copy_stream_loop :: "image_source \<Rightarrow> nat \<Rightarrow> nat \<Rightarrow> (blk, nat \<times> nat) io" where
  "copy_stream_loop src in_pos out_pos =
     (case src_read src in_pos 8192 of
        Error e \<Rightarrow> io_fail e
      | Abort \<Rightarrow> io_abort
      | Ok data \<Rightarrow>
          if data = [] then io_return (in_pos, out_pos)
          else io_bind (write_all out_pos data)
            (\<lambda>_. copy_stream_loop src (in_pos + length data) (out_pos + length data)))"
  by pat_completeness auto
termination
  by (relation "measure (\<lambda>(src, in_pos, out_pos). length (src_bytes src) - in_pos)")
    (auto simp: src_read_def Let_def split: option.splits if_splits)

declare copy_stream_loop.simps [simp del]

definition copy_stream :: "image_source \<Rightarrow> 64 word \<Rightarrow> nat \<Rightarrow> nat \<Rightarrow> (blk, nat \<times> nat) io" where
  "copy_stream src sz in_pos out_pos =
     (if sint sz < 0 then io_fail ERROR_UNSET
      else if sz = 0 then io_return (in_pos, out_pos)
      else copy_stream_loop src in_pos out_pos)"

text \<open>
  \<open>copy_raw_image\<close>: the image at the current position of the device, with the first
  \<open>len_header_last\<close> bytes written at the end.
\<close>

definition read_header :: "image_source \<Rightarrow> nat \<Rightarrow> (blk, 8 word list) io" where
  "read_header src len_header_last b =
     (if len_header_last = 0 then Ok []
      else if len_header_last \<noteq> unat (bd_sector_size b) then Error UPDATE_FAILED
      else src_read src 0 len_header_last, b)"

definition write_header :: "nat \<Rightarrow> 8 word list \<Rightarrow> (blk, unit) io" where
  "write_header pos header =
     (if header = [] then io_return ()
      else io_bind blk_fsync (\<lambda>_. write_all pos header))"

definition copy_raw_image :: "image_source result \<Rightarrow> 64 word \<Rightarrow> nat \<Rightarrow> nat \<Rightarrow> (blk, unit) io" where
  "copy_raw_image file sz pos len_header_last =
     (if sint sz < 0 then io_fail ERROR_UNSET
      else io_bind (io_lift file) (\<lambda>src.
        io_bind (read_header src len_header_last) (\<lambda>header.
        io_bind (copy_stream src sz (length header) (pos + length header)) (\<lambda>(in_pos, out_pos).
          if int in_pos \<noteq> sint sz then io_fail UPDATE_FAILED
          else io_bind (write_header (out_pos - in_pos) header) (\<lambda>_. blk_fsync)))))"

definition write_boot_switch_partition :: "image_source result \<Rightarrow> 64 word \<Rightarrow> boot_switch_partition \<Rightarrow> nat \<Rightarrow> (blk, unit) io" where
  "write_boot_switch_partition file sz dest_partition len_header_last =
     io_bind blk_open (\<lambda>_.
     io_bind (blk_seek (part_start dest_partition)) (\<lambda>pos.
       copy_raw_image file sz pos len_header_last))"

subsection \<open>Checking an area\<close>

text \<open>
  \<open>check_if_area_is_clear\<close>: in steps of 512 bytes. At the end of the device \<open>read\<close> returns 0 for ever;
  \<open>None\<close> means that the loop does not end.
\<close>

function check_loop :: "8 word list \<Rightarrow> nat \<Rightarrow> nat \<Rightarrow> bool option" where
  "check_loop bytes pos remaining =
     (if remaining = 0 then Some True
      else let buf = take (min remaining 512) (drop pos bytes) in
        if buf = [] then None
        else if \<exists>x \<in> set buf. x \<noteq> 0 \<and> x \<noteq> 0xFF then Some False
        else check_loop bytes (pos + length buf) (remaining - length buf))"
  by pat_completeness auto
termination by (relation "measure (\<lambda>(bytes, pos, remaining). remaining)") auto

declare check_loop.simps [simp del]

definition check_if_area_is_clear :: "64 word \<Rightarrow> nat \<Rightarrow> blk \<Rightarrow> bool result option" where
  "check_if_area_is_clear start len b =
     (if \<not> bd_openable b \<or> unat start > length (bd_bytes b) then Some (Error UPDATE_FAILED)
      else map_option Ok (check_loop (bd_bytes b) (unat start) len))"

subsection \<open>What the calls change\<close>

definition same_params :: "blk \<Rightarrow> blk \<Rightarrow> bool" where
  "same_params b b' \<longleftrightarrow> bd_sector_size b' = bd_sector_size b \<and> bd_geometry b' = bd_geometry b \<and>
     bd_sectors b' = bd_sectors b \<and> bd_openable b' = bd_openable b \<and> bd_faults b' = bd_faults b"

text \<open>Only the bytes at \<open>pos\<close> changed, to \<open>data\<close>.\<close>

definition written :: "nat \<Rightarrow> 8 word list \<Rightarrow> blk \<Rightarrow> blk \<Rightarrow> bool" where
  "written pos data b b' \<longleftrightarrow> pos + length data \<le> length (bd_bytes b) \<and>
     bd_bytes b' = overwrite pos data (bd_bytes b) \<and> same_params b b'"

lemma overwrite_Nil [simp]: "overwrite pos [] bytes = bytes"
  by (simp add: overwrite_def)

lemma overwrite_append:
  assumes "pos + length a + length c \<le> length bytes"
  shows "overwrite (pos + length a) c (overwrite pos a bytes) = overwrite pos (a @ c) bytes"
  using assms by (cases a) (auto simp: overwrite_def add.commute add.left_commute min_def)

lemma overwrite_same: "length a = length c \<Longrightarrow> pos + length a \<le> length bytes \<Longrightarrow> overwrite pos c (overwrite pos a bytes) = overwrite pos c bytes"
  by (simp add: overwrite_def)

lemma nth_overwrite:
  "pos + length data \<le> length bytes \<Longrightarrow> i < length bytes \<Longrightarrow>
    overwrite pos data bytes ! i = (if pos \<le> i \<and> i < pos + length data then data ! (i - pos) else bytes ! i)"
  by (auto simp: overwrite_def nth_append min_def)

lemma same_params_trans: "same_params b b' \<Longrightarrow> same_params b' b'' \<Longrightarrow> same_params b b''"
  by (simp add: same_params_def)

lemma same_params_refl [simp]: "same_params b b" "same_params b (tick b)"
  by (simp_all add: same_params_def tick_def)

lemma written_Nil [simp]: "written pos [] b b' \<longleftrightarrow> pos \<le> length (bd_bytes b) \<and> bd_bytes b' = bd_bytes b \<and> same_params b b'"
  by (simp add: written_def)

lemma written_length: "written pos data b b' \<Longrightarrow> length (bd_bytes b') = length (bd_bytes b)"
  by (simp add: written_def overwrite_length)

lemma written_append:
  assumes "written pos a b b'" and "written (pos + length a) c b' b''"
  shows "written pos (a @ c) b b''"
proof -
  have "pos + length a + length c \<le> length (bd_bytes b)"
    using assms written_length [OF assms(1)] by (simp add: written_def)
  moreover have "bd_bytes b'' = overwrite (pos + length a) c (overwrite pos a (bd_bytes b))"
    using assms by (simp add: written_def)
  ultimately show ?thesis
    using assms by (auto simp: written_def overwrite_append intro: same_params_trans)
qed

text \<open>The bytes outside and inside the written area.\<close>

lemma written_outside:
  "written pos data b b' \<Longrightarrow> i < pos \<or> pos + length data \<le> i \<Longrightarrow> i < length (bd_bytes b) \<Longrightarrow>
    bd_bytes b' ! i = bd_bytes b ! i"
  by (auto simp: written_def nth_overwrite)

lemma written_inside:
  "written pos data b b' \<Longrightarrow> take (length data) (drop pos (bd_bytes b')) = data"
  by (auto simp: written_def overwrite_def min_def)

lemma blk_write_written:
  assumes "blk_write pos data b = (Some n, b')"
  shows "written pos (take n data) b b'" and "n \<le> length data" and "data \<noteq> [] \<Longrightarrow> n \<noteq> 0"
    and "n < length data \<Longrightarrow> pos + n = length (bd_bytes b)"
  using assms by (auto simp: blk_write_def Let_def written_def same_params_def tick_def split: if_splits)

lemma blk_write_None: "blk_write pos data b = (None, b') \<Longrightarrow> b' = tick b"
  by (auto simp: blk_write_def Let_def split: if_splits)

lemma tick_bytes [simp]: "bd_bytes (tick b) = bd_bytes b" "bd_faults (tick b) = bd_faults b" "bd_openable (tick b) = bd_openable b"
  "bd_sector_size (tick b) = bd_sector_size b"
  by (simp_all add: tick_def)

text \<open>With room for all data, \<open>write_all\<close> writes everything or nothing.\<close>

lemma write_all_written:
  assumes "write_all pos data b = (r, b')" and "pos \<le> length (bd_bytes b)"
  obtains n where "written pos (take n data) b b'" and "n \<le> length data"
    and "r = Ok () \<Longrightarrow> n = length data" and "r \<noteq> Ok () \<Longrightarrow> pos + length data \<le> length (bd_bytes b) \<Longrightarrow> n = 0"
    and "r \<noteq> Abort"
proof (cases "data = []")
  case True
  then show ?thesis using assms by (intro that [of 0]) (auto simp: write_all_def)
next
  case False
  show ?thesis
  proof (cases "blk_write pos data b")
    case (Pair x b1)
    show ?thesis
    proof (cases x)
      case None
      then show ?thesis
        using assms Pair False blk_write_None [of pos data b b1]
        by (intro that [of 0]) (auto simp: write_all_def)
    next
      case (Some n)
      note w = blk_write_written [OF Pair [unfolded Some]]
      show ?thesis
      proof (cases "n < length data")
        case True
        then have "b' = tick b1" "r = Error (G_IO_ERROR 0)" using assms(1) False Pair Some by (simp_all add: write_all_def)
        then show ?thesis
          using True w by (intro that [of n]) (auto simp: written_def intro: same_params_trans)
      next
        case False
        then have "b' = b1" "r = Ok ()" using assms(1) \<open>data \<noteq> []\<close> Pair Some by (simp_all add: write_all_def)
        then show ?thesis using False w by (intro that [of n]) auto
      qed
    qed
  qed
qed

lemma unat_ucast_64 [simp]: "unat (ucast (w :: 32 word) :: 64 word) = unat w"
proof -
  have "unat w < 2 ^ 64" using unsigned_less [of w, where ?'a = nat] by simp
  then show ?thesis by (simp add: unsigned_ucast_eq take_bit_nat_eq_self_iff)
qed

text \<open>
  Clearing less than 4 GiB: zeros from the position on, as many as counted, and never beyond the end of
  the partition. Nothing or at least a full block is cleared.
\<close>

lemma clear_loop_written:
  assumes "clear_loop sz clear_size cc pos b = (cc', b')" and "unat sz < 2 ^ 32" and "unat cc \<le> unat sz"
    and "0 < clear_size" and "clear_size \<le> 512" and "pos + (unat sz - unat cc) \<le> length (bd_bytes b)"
  shows "\<exists>d. written pos (replicate d 0) b b' \<and> unat cc' = unat cc + d \<and> d \<le> unat sz - unat cc \<and>
      (d \<noteq> 0 \<longrightarrow> min clear_size (unat sz - unat cc) \<le> d)"
  using assms
proof (induction sz clear_size cc pos b rule: clear_loop.induct)
  case (1 sz clear_size cc pos b)
  note ucc = unat_ucast_64 [of cc]
  show ?case
  proof (cases "ucast cc < sz")
    case False
    then have "unat cc = unat sz" using "1.prems"(3) ucc by (simp add: word_less_nat_alt)
    moreover have "clear_loop sz clear_size cc pos b = (cc, b)" using False by (subst clear_loop.simps) simp
    ultimately show ?thesis using "1.prems"(1,6) by (intro exI [of _ 0]) simp
  next
    case True
    define n0 where "n0 = (if sz - ucast cc < 512 then unat (sz - ucast cc) else clear_size)"
    have rem: "unat (sz - ucast cc) = unat sz - unat cc" "unat cc < unat sz"
      using True ucc unat_sub [of "ucast cc" sz] by (simp_all add: word_less_nat_alt word_le_nat_alt)
    have n0: "0 < n0" "n0 \<le> 512" "n0 \<le> unat sz - unat cc" "min clear_size (unat sz - unat cc) \<le> n0"
      using rem "1.prems"(4,5) by (auto simp: n0_def word_less_nat_alt)
    show ?thesis
    proof (cases "blk_write pos (replicate n0 0) b")
      case (Pair x b1)
      show ?thesis
      proof (cases x)
        case None
        then have "clear_loop sz clear_size cc pos b = (cc, b1)"
          using True Pair by (subst clear_loop.simps) (simp add: n0_def Let_def)
        then have "cc' = cc" "b' = tick b"
          using "1.prems"(1) None Pair blk_write_None [of pos "replicate n0 0" b b1] by simp_all
        then show ?thesis using "1.prems"(6) by (intro exI [of _ 0]) simp
      next
        case (Some n)
        note w = blk_write_Some [OF Pair [unfolded Some]] blk_write_written [OF Pair [unfolded Some]]
        have n: "n = n0" using w(2) n0 "1.prems"(6) by simp
        have step: "clear_loop sz clear_size cc pos b = clear_loop sz n0 (cc + of_nat n) (pos + n) b1"
          using True Pair Some n n0(1) by (subst clear_loop.simps) (simp add: n0_def [symmetric] Let_def)
        have ucc': "unat (cc + of_nat n) = unat cc + n"
          using n n0(3) rem(2) "1.prems"(2) by (simp add: unat_word_ariths unat_of_nat)
        have "\<exists>d. written (pos + n) (replicate d 0) b1 b' \<and> unat cc' = unat (cc + of_nat n) + d \<and>
            d \<le> unat sz - unat (cc + of_nat n) \<and> (d \<noteq> 0 \<longrightarrow> min n0 (unat sz - unat (cc + of_nat n)) \<le> d)"
        proof (rule "1.IH")
          show "\<not> \<not> ucast cc < sz" using True by simp
          show "n0 = (if sz - ucast cc < 512 then unat (sz - ucast cc) else clear_size)" by (rule n0_def)
          show "(x, b1) = blk_write pos (replicate n0 0) b" "x = Some n" "n \<noteq> 0" using Pair Some n n0 by simp_all
        qed (use "1.prems" step ucc' n n0 w(4) rem in simp_all)
        then obtain d where d: "written (pos + n) (replicate d 0) b1 b'" "unat cc' = unat cc + n + d"
          "d \<le> unat sz - (unat cc + n)"
          unfolding ucc' by blast
        have "written pos (replicate n 0) b b1" using w(5) n by simp
        then have "written pos (replicate (n + d) 0) b b'"
          using written_append [of pos "replicate n 0" b b1 "replicate d 0" b'] d(1) by (simp add: replicate_add)
        then show ?thesis using d n n0 rem by (intro exI [of _ "n + d"]) auto
      qed
    qed
  qed
qed

text \<open>From 4 GiB on, the 32 bit counter never reaches the size: the loop runs to the end of the device.\<close>

lemma dvd_512_add:
  assumes "512 dvd unat (cc :: 32 word)"
  shows "512 dvd unat (cc + 512)" and "unat cc \<le> 2 ^ 32 - 512"
proof -
  have "unat cc < 2 ^ 32" using unsigned_less [of cc, where ?'a = nat] by simp
  then obtain k where "unat cc = 512 * k" "k < 2 ^ 23" using assms by (auto elim!: dvdE)
  then show "unat cc \<le> 2 ^ 32 - 512" by simp
  have "unat (cc + 512) = (unat cc + 512) mod 2 ^ 32" by (simp add: unat_word_ariths)
  then show "512 dvd unat (cc + 512)" using assms by (simp add: dvd_mod)
qed

lemma clear_loop_overrun:
  assumes "clear_loop sz clear_size cc pos b = (cc', b')" and "2 ^ 32 \<le> unat sz" and "\<And>k. \<not> bd_faults b k"
    and "pos = length (bd_bytes b) \<or> pos < length (bd_bytes b) \<and> clear_size = 512 \<and> 512 dvd unat cc"
  shows "written pos (replicate (length (bd_bytes b) - pos) 0) b b'"
  using assms
proof (induction sz clear_size cc pos b rule: clear_loop.induct)
  case (1 sz clear_size cc pos b)
  have "unat cc < 2 ^ 32" using unsigned_less [of cc, where ?'a = nat] by simp
  then have more: "ucast cc < sz" using "1.prems"(2) by (simp add: word_less_nat_alt)
  show ?case
  proof (cases "pos = length (bd_bytes b)")
    case True
    then have "blk_write pos data b = (None, tick b)" for data by (simp add: blk_write_def)
    then have "clear_loop sz clear_size cc pos b = (cc, tick b)"
      using more by (subst clear_loop.simps) (simp add: Let_def)
    then show ?thesis using "1.prems"(1) True by auto
  next
    case False
    then have inv: "pos < length (bd_bytes b)" "clear_size = 512" "512 dvd unat cc" using "1.prems"(4) by auto
    have "512 \<le> unat sz - unat cc" using dvd_512_add(2) [OF inv(3)] "1.prems"(2) by simp
    moreover have "unat (sz - ucast cc) = unat sz - unat cc"
      using more unat_sub [of "ucast cc" sz] by (simp add: word_less_nat_alt word_le_nat_alt)
    ultimately have full: "\<not> sz - ucast cc < 512" by (simp add: word_less_nat_alt)
    define n where "n = min 512 (length (bd_bytes b) - pos)"
    obtain b1 where w: "blk_write pos (replicate 512 0) b = (Some n, b1)"
      using inv(1) "1.prems"(3) by (simp add: blk_write_def Let_def n_def)
    note ww = blk_write_written [OF w] blk_write_Some(4) [OF w]
    have n: "n \<noteq> 0" "pos + n \<le> length (bd_bytes b)" using inv(1) by (auto simp: n_def)
    have step: "clear_loop sz clear_size cc pos b = clear_loop sz 512 (cc + of_nat n) (pos + n) b1"
      using more full w n inv(2) by (subst clear_loop.simps) (simp add: Let_def)
    have faults: "bd_faults b1 = bd_faults b" using ww(1) by (simp add: written_def same_params_def)
    have "written (pos + n) (replicate (length (bd_bytes b1) - (pos + n)) 0) b1 b'"
    proof (rule "1.IH" [of 512 "Some n" b1 n])
      show "\<not> \<not> ucast cc < sz" "512 = (if sz - ucast cc < 512 then unat (sz - ucast cc) else clear_size)"
        "(Some n, b1) = blk_write pos (replicate 512 0) b"
        using more full inv(2) w by simp_all
      show "clear_loop sz 512 (cc + of_nat n) (pos + n) b1 = (cc', b')" using "1.prems"(1) step by simp
      show "pos + n = length (bd_bytes b1) \<or> pos + n < length (bd_bytes b1) \<and> 512 = 512 \<and> 512 dvd unat (cc + of_nat n)"
        using n ww(5) dvd_512_add(1) [OF inv(3)] by (auto simp: n_def min_def)
    qed (use "1.prems" n faults in simp_all)
    moreover have "written pos (replicate n 0) b b1" using ww(1) by (simp add: n_def)
    ultimately have "written pos (replicate n 0 @ replicate (length (bd_bytes b1) - (pos + n)) 0) b b'"
      using written_append [of pos "replicate n 0"] by simp
    then show ?thesis using n ww(5) by (simp add: replicate_add [symmetric])
  qed
qed

subsection \<open>Clearing and copying as a whole\<close>

text \<open>The error of a copy is set and the copy does not crash.\<close>

lemma clear_partition_written:
  assumes "clear_boot_switch_partition p b = (r, b')" and "unat (part_size p) < 2 ^ 32"
    and "unat (part_start p) + unat (part_size p) \<le> length (bd_bytes b)"
  obtains d where "written (unat (part_start p)) (replicate d 0) b b'" and "d \<le> unat (part_size p)"
    and "r = Ok () \<Longrightarrow> d = unat (part_size p)" and "d = 0 \<or> min 512 (unat (part_size p)) \<le> d" and "r \<noteq> Abort"
proof (cases "bd_openable b")
  case False
  then show ?thesis
    using assms by (intro that [of 0]) (auto simp: clear_boot_switch_partition_def io_bind_def blk_open_def)
next
  case True
  obtain cc' b1 where loop: "clear_loop (part_size p) 512 0 (unat (part_start p)) b = (cc', b1)" by fastforce
  then obtain d where d: "written (unat (part_start p)) (replicate d 0) b b1" "unat cc' = d"
      "d \<le> unat (part_size p)" "d \<noteq> 0 \<longrightarrow> min 512 (unat (part_size p)) \<le> d"
    using clear_loop_written [OF loop] assms(2,3) by auto
  have r: "b' = b1" "r = (if ucast cc' \<noteq> part_size p then Error UPDATE_FAILED else Ok ())"
    using assms(1,3) True loop
    by (auto simp: clear_boot_switch_partition_def io_bind_def blk_open_def blk_seek_def)
  have "(ucast cc' = part_size p) = (d = unat (part_size p))" using d(2) by (auto simp: word_unat_eq_iff)
  then show ?thesis using r d by (intro that [of d]) auto
qed

lemma src_read_Ok:
  "src_read src in_pos len = Ok data \<Longrightarrow> data = take len (drop in_pos (src_bytes src))"
  by (auto simp: src_read_def Let_def split: option.splits if_splits)

lemma src_read_not_Abort [simp]: "src_read src in_pos len \<noteq> Abort"
  by (simp add: src_read_def Let_def split: option.splits)

lemma copy_stream_loop_written:
  assumes "copy_stream_loop src in_pos out_pos b = (r, b')" and "out_pos \<le> length (bd_bytes b)"
    and "in_pos \<le> length (src_bytes src)"
  shows "\<exists>m. written out_pos (take m (drop in_pos (src_bytes src))) b b' \<and> r \<noteq> Abort \<and>
      (\<forall>i o'. r = Ok (i, o') \<longrightarrow> i = length (src_bytes src) \<and> o' = out_pos + (length (src_bytes src) - in_pos) \<and>
        length (src_bytes src) - in_pos \<le> m)"
  using assms
proof (induction src in_pos out_pos arbitrary: b rule: copy_stream_loop.induct)
  case (1 src in_pos out_pos)
  show ?case
  proof (cases "src_read src in_pos 8192")
    case (Error e)
    then show ?thesis
      using "1.prems" by (intro exI [of _ 0]) (auto simp: copy_stream_loop.simps [of src] io_fail_def)
  next
    case Abort
    then show ?thesis by simp
  next
    case (Ok data)
    have data: "data = take 8192 (drop in_pos (src_bytes src))" using src_read_Ok [OF Ok] .
    show ?thesis
    proof (cases "data = []")
      case True
      then have "length (src_bytes src) \<le> in_pos" using data by simp
      then show ?thesis
        using "1.prems" True Ok by (intro exI [of _ 0]) (auto simp: copy_stream_loop.simps [of src] io_return_def)
    next
      case False
      obtain r1 b1 where w1: "write_all out_pos data b = (r1, b1)" by fastforce
      obtain n where n: "written out_pos (take n data) b b1" "n \<le> length data" "r1 = Ok () \<Longrightarrow> n = length data" "r1 \<noteq> Abort"
        using write_all_written [OF w1 "1.prems"(2)] by blast
      have step: "copy_stream_loop src in_pos out_pos b =
          (case r1 of Ok _ \<Rightarrow> copy_stream_loop src (in_pos + length data) (out_pos + length data) b1
           | Error e \<Rightarrow> (Error e, b1) | Abort \<Rightarrow> (Abort, b1))"
        using Ok False w1 by (subst copy_stream_loop.simps) (simp add: io_bind_def split: result.split)
      show ?thesis
      proof (cases r1)
        case (Error e)
        have "take n data = take (min n 8192) (drop in_pos (src_bytes src))" by (simp add: data)
        then show ?thesis using n "1.prems"(1) step Error by (intro exI [of _ "min n 8192"]) auto
      next
        case Abort
        then show ?thesis using n by simp
      next
        case (Ok u)
        then have whole: "written out_pos data b b1" using n by simp
        have len: "in_pos + length data \<le> length (src_bytes src)" using data "1.prems"(3) by simp
        have room: "out_pos + length data \<le> length (bd_bytes b1)"
          using whole written_length [OF whole] by (simp add: written_def)
        have "copy_stream_loop src (in_pos + length data) (out_pos + length data) b1 = (r, b')"
          using "1.prems"(1) step Ok by simp
        from "1.IH" [OF \<open>src_read src in_pos 8192 = Ok data\<close> False this room len]
        obtain m where m: "written (out_pos + length data) (take m (drop (in_pos + length data) (src_bytes src))) b1 b'" "r \<noteq> Abort"
            "\<forall>i o'. r = Ok (i, o') \<longrightarrow> i = length (src_bytes src) \<and>
               o' = out_pos + length data + (length (src_bytes src) - (in_pos + length data)) \<and>
               length (src_bytes src) - (in_pos + length data) \<le> m"
          by blast
        have "data @ take m (drop (in_pos + length data) (src_bytes src)) = take (length data + m) (drop in_pos (src_bytes src))"
        proof -
          have "take (length data) (drop in_pos (src_bytes src)) = data" by (simp add: data min_def)
          then show ?thesis
            using take_add [of "length data" m "drop in_pos (src_bytes src)"] by (simp add: add.commute)
        qed
        then have "written out_pos (take (length data + m) (drop in_pos (src_bytes src))) b b'"
          using written_append [OF whole m(1)] by simp
        then show ?thesis using m(2,3) len by (intro exI [of _ "length data + m"]) auto
      qed
    qed
  qed
qed

lemma overwrite_prepend:
  assumes "pos + length a + length c \<le> length bytes"
  shows "overwrite pos a (overwrite (pos + length a) c bytes) = overwrite pos (a @ c) bytes"
  using assms by (intro nth_equalityI) (auto simp: nth_overwrite overwrite_length nth_append)

lemma written_prepend:
  assumes "written (pos + length a) c b b'" and "written pos a b' b''"
  shows "written pos (a @ c) b b''"
  using assms written_length [OF assms(1)]
  by (auto simp: written_def overwrite_prepend intro: same_params_trans)

lemma written_cong: "bd_bytes b'' = bd_bytes b' \<Longrightarrow> same_params b' b'' \<Longrightarrow> written pos d b b' \<Longrightarrow> written pos d b b''"
  by (auto simp: written_def intro: same_params_trans)

lemma blk_fsync_facts:
  "blk_fsync b = (r, b') \<Longrightarrow> bd_bytes b' = bd_bytes b \<and> same_params b b' \<and> r \<noteq> Abort"
  by (auto simp: blk_fsync_def same_params_def tick_def split: if_splits)

lemma blk_fsync_synced:
  "blk_fsync b = (r, b') \<Longrightarrow> bd_synced b' = (if r = Ok () then bd_bytes b' else bd_synced b)"
  by (auto simp: blk_fsync_def tick_def split: if_splits)

lemma write_header_written:
  assumes "write_header pos h b = (r, b')" and room: "pos + length h \<le> length (bd_bytes b)"
  shows "(written pos [] b b' \<and> r \<noteq> Ok () \<or> written pos h b b') \<and> r \<noteq> Abort"
proof (cases "h = []")
  case True
  then show ?thesis using assms by (auto simp: write_header_def io_return_def)
next
  case False
  obtain r1 b1 where s: "blk_fsync b = (r1, b1)" by fastforce
  note s' = blk_fsync_facts [OF s]
  show ?thesis
  proof (cases r1)
    case (Ok u)
    then have w: "write_all pos h b1 = (r, b')" using assms(1) False s by (simp add: write_header_def io_bind_def)
    obtain n where n: "written pos (take n h) b1 b'" "r = Ok () \<Longrightarrow> n = length h" "r \<noteq> Ok () \<Longrightarrow> n = 0" "r \<noteq> Abort"
      using write_all_written [OF w] room s' by auto
    have "written pos (take n h) b b'" using n(1) s' by (auto simp: written_def intro: same_params_trans)
    then show ?thesis using n by (cases "r = Ok ()") auto
  qed (use assms s s' False in \<open>auto simp: write_header_def io_bind_def\<close>)
qed

text \<open>
  An image whose size is the one in the manifest: whatever happens, either a part of the image behind
  the header has been written, or all of it.
\<close>

definition image_matches :: "image_source \<Rightarrow> 64 word \<Rightarrow> bool" where
  "image_matches src sz \<longleftrightarrow> src_bytes src \<noteq> [] \<and> int (length (src_bytes src)) = sint sz"

text \<open>Only \<open>fsync\<close> changes what is synced.\<close>

lemma blk_write_synced: "blk_write pos data b = (x, b') \<Longrightarrow> bd_synced b' = bd_synced b"
  by (auto simp: blk_write_def Let_def tick_def split: if_splits)

lemma write_all_synced: "preserves bd_synced (write_all pos data)"
  unfolding preserves_def write_all_def
  by (auto simp: tick_def split: prod.splits option.splits dest: blk_write_synced)

lemma clear_loop_synced: "clear_loop sz clear_size cc pos b = (cc', b') \<Longrightarrow> bd_synced b' = bd_synced b"
proof (induction sz clear_size cc pos b rule: clear_loop.induct)
  case (1 sz clear_size cc pos b)
  show ?case
  proof (cases "ucast cc < sz")
    case False
    then show ?thesis using "1.prems" by (simp add: clear_loop.simps [of sz])
  next
    case True
    define n0 where "n0 = (if sz - ucast cc < 512 then unat (sz - ucast cc) else clear_size)"
    obtain x b1 where w: "blk_write pos (replicate n0 0) b = (x, b1)" by fastforce
    have step: "clear_loop sz clear_size cc pos b = (case x of None \<Rightarrow> (cc, b1)
        | Some n \<Rightarrow> if n = 0 then (cc, b1) else clear_loop sz n0 (cc + of_nat n) (pos + n) b1)"
      using True w by (subst clear_loop.simps) (simp add: n0_def [symmetric] Let_def)
    show ?thesis
    proof (cases "\<exists>n. x = Some n \<and> n \<noteq> 0")
      case False
      then have "b' = b1" using "1.prems" step by (auto split: option.splits if_splits)
      then show ?thesis using blk_write_synced [OF w] by simp
    next
      case n: True
      then obtain n where n: "x = Some n" "n \<noteq> 0" by blast
      have "bd_synced b' = bd_synced b1"
        by (rule "1.IH" [of n0 x b1 n]) (use True w n step "1.prems" in \<open>simp_all add: n0_def\<close>)
      then show ?thesis using blk_write_synced [OF w] by simp
    qed
  qed
qed

lemma copy_stream_loop_synced: "preserves bd_synced (copy_stream_loop src in_pos out_pos)"
proof (induction src in_pos out_pos rule: copy_stream_loop.induct)
  case (1 src in_pos out_pos)
  show ?case
    by (subst copy_stream_loop.simps)
      (auto intro!: preserves_intros write_all_synced 1 split: result.split)
qed

lemma clear_partition_synced: "preserves bd_synced (clear_boot_switch_partition p)"
proof -
  have "preserves bd_synced (\<lambda>b. case clear_loop (part_size p) 512 0 pos b of
      (cc, b') \<Rightarrow> (if ucast cc \<noteq> part_size p then Error UPDATE_FAILED else Ok (), b'))" for pos
    unfolding preserves_def by (auto split: prod.split dest: clear_loop_synced)
  moreover have "preserves bd_synced blk_open" "preserves bd_synced (blk_seek x)" for x
    by (simp_all add: preserves_def blk_open_def blk_seek_def)
  ultimately show ?thesis unfolding clear_boot_switch_partition_def by (intro preserves_bind)
qed

text \<open>
  The steps of a copy: it fails before all of the image behind the header is written, and has not
  synced anything; or all of that is written and the header follows.
\<close>

lemma copy_raw_image_steps:
  assumes "copy_raw_image (Ok src) sz pos L b = (r, b')" and img: "image_matches src sz"
    and room: "pos + length (src_bytes src) \<le> length (bd_bytes b)"
  defines "hl \<equiv> length (take L (src_bytes src))"
  obtains (early) m where "written (pos + hl) (take m (drop hl (src_bytes src))) b b'" "r \<noteq> Ok ()" "r \<noteq> Abort"
      "bd_synced b' = bd_synced b"
  | (late) b1 where "written (pos + hl) (drop hl (src_bytes src)) b b1" "bd_synced b1 = bd_synced b"
      "io_bind (write_header pos (take L (src_bytes src))) (\<lambda>_. blk_fsync) b1 = (r, b')"
proof -
  let ?s = "src_bytes src"
  have sz: "\<not> sint sz < 0" "sz \<noteq> 0" using img by (auto simp: image_matches_def)
  have hl: "hl \<le> length ?s" by (simp add: hl_def)
  have none: "written (pos + hl) (take 0 (drop hl ?s)) b b" using room hl by simp
  obtain hr b0 where Pair: "read_header src L b = (hr, b0)" by fastforce
  have b0: "b0 = b" using Pair by (simp add: read_header_def)
  have hr: "hr \<noteq> Abort" "\<And>h. hr = Ok h \<Longrightarrow> h = take L ?s"
    using Pair by (auto simp: read_header_def dest: src_read_Ok split: if_splits)
  show ?thesis
  proof (cases hr)
    case (Error e)
    then have "b' = b" "r = Error e"
      using assms(1) sz Pair b0 by (auto simp: copy_raw_image_def io_bind_def io_lift_def)
    then show ?thesis using none by (intro early [of 0]) simp_all
  next
    case Abort
    then show ?thesis using hr by simp
  next
    case (Ok h)
    then have h: "h = take L ?s" "length h = hl" using hr(2) by (simp_all add: hl_def)
    obtain r1 b1 where c: "copy_stream_loop src hl (pos + hl) b = (r1, b1)" by fastforce
    have sync: "bd_synced b1 = bd_synced b" by (rule preservesD [OF copy_stream_loop_synced c])
    have "pos + hl \<le> length (bd_bytes b)" using room hl by simp
    from copy_stream_loop_written [OF c this hl] obtain m where
      m: "written (pos + hl) (take m (drop hl ?s)) b b1" "r1 \<noteq> Abort"
        "\<forall>i o'. r1 = Ok (i, o') \<longrightarrow> i = length ?s \<and> o' = pos + hl + (length ?s - hl) \<and> length ?s - hl \<le> m"
      by blast
    have eq: "copy_raw_image (Ok src) sz pos L b = (case r1 of
        Ok (i, o') \<Rightarrow> (if int i \<noteq> sint sz then io_fail UPDATE_FAILED
          else io_bind (write_header (o' - i) h) (\<lambda>_. blk_fsync)) b1
      | Error e \<Rightarrow> (Error e, b1) | Abort \<Rightarrow> (Abort, b1))"
      using sz c Pair b0 Ok h(2)
      by (simp add: copy_raw_image_def io_bind_def io_lift_def copy_stream_def split: result.split prod.split)
    show ?thesis
    proof (cases r1)
      case (Error e)
      then show ?thesis using eq m assms(1) sync by (intro early [of m]) auto
    next
      case Abort
      then show ?thesis using m by simp
    next
      case (Ok io)
      then have "io = (length ?s, pos + length ?s)" "length ?s - hl \<le> m" using m(3) hl by (cases io; auto)+
      then show ?thesis
        using eq Ok assms(1) img m(1) h(1) sync by (intro late [of b1]) (simp_all add: image_matches_def)
    qed
  qed
qed

lemma header_body: "take L s @ drop (length (take L s)) s = s"
  by (cases "L \<le> length s") (simp_all add: min_def)

lemma copy_raw_image_written:
  assumes "copy_raw_image (Ok src) sz pos L b = (r, b')" and img: "image_matches src sz"
    and room: "pos + length (src_bytes src) \<le> length (bd_bytes b)"
  defines "hl \<equiv> length (take L (src_bytes src))"
  shows "((\<exists>m. written (pos + hl) (take m (drop hl (src_bytes src))) b b') \<and> r \<noteq> Ok () \<or> written pos (src_bytes src) b b') \<and> r \<noteq> Abort"
proof (cases rule: copy_raw_image_steps [OF assms(1) img room])
  case (1 m)
  then show ?thesis unfolding hl_def by blast
next
  case (2 b1)
  let ?s = "src_bytes src" and ?h = "take L (src_bytes src)"
  have body: "written (pos + length ?h) (drop hl ?s) b b1" using 2(1) by (simp only: hl_def)
  have join: "?h @ drop hl ?s = ?s" unfolding hl_def by (rule header_body)
  obtain r2 b2 where w: "write_header pos ?h b1 = (r2, b2)" by fastforce
  have "pos + length ?h \<le> length (bd_bytes b1)" using room written_length [OF body] by simp
  note w' = write_header_written [OF w this]
  show ?thesis
  proof (cases "r2 = Ok ()")
    case True
    then have "written pos ?s b b2" using w' written_prepend [OF body, of b2] by (simp add: join)
    moreover have "bd_bytes b' = bd_bytes b2 \<and> same_params b2 b' \<and> r \<noteq> Abort"
      using 2(3) w True blk_fsync_facts [of b2 r b'] by (simp add: io_bind_def)
    ultimately show ?thesis using written_cong by blast
  next
    case False
    then have rb: "r \<noteq> Ok ()" "b' = b2" "r \<noteq> Abort" using 2(3) w w' by (cases r2; auto simp: io_bind_def)+
    consider "written pos [] b1 b2" | "written pos ?h b1 b2" using w' False by blast
    then show ?thesis
    proof cases
      case 1
      then have "written (pos + hl) (drop hl ?s) b b2" using written_cong [OF _ _ body] by (simp add: hl_def)
      then have "written (pos + hl) (take (length ?s) (drop hl ?s)) b b'" using rb by simp
      then show ?thesis using rb by blast
    next
      case 2
      then have "written pos ?s b b2" using written_prepend [OF body] by (simp add: join)
      then show ?thesis using rb by simp
    qed
  qed
qed

lemma write_header_synced:
  assumes "write_header pos h b = (r, b')" and "h \<noteq> []" and room: "pos + length h \<le> length (bd_bytes b)"
  shows "bd_synced b' = bd_synced b \<and> written pos [] b b' \<and> r \<noteq> Ok () \<or>
    (\<forall>j < length (bd_bytes b). j < pos \<or> pos + length h \<le> j \<longrightarrow> bd_synced b' ! j = bd_bytes b' ! j)"
proof -
  obtain r1 b1 where s: "blk_fsync b = (r1, b1)" by fastforce
  note s' = blk_fsync_facts [OF s] blk_fsync_synced [OF s]
  show ?thesis
  proof (cases "r1 = Ok ()")
    case False
    then have "b' = b1" "r \<noteq> Ok ()" using assms(1,2) s by (cases r1; auto simp: write_header_def io_bind_def)+
    then show ?thesis using s' False room by simp
  next
    case True
    then have w: "write_all pos h b1 = (r, b')" using assms(1,2) s by (simp add: write_header_def io_bind_def)
    obtain n where n: "written pos (take n h) b1 b'" using write_all_written [OF w] room s' by auto
    have "bd_synced b' = bd_bytes b" using preservesD [OF write_all_synced w] s' True by simp
    then show ?thesis using written_outside [OF n] s' by auto
  qed
qed

text \<open>
  A success is reported only when everything is synced. The header is written only when everything
  else is.
\<close>

lemma copy_raw_image_synced:
  assumes "copy_raw_image (Ok src) sz pos L b = (r, b')" and img: "image_matches src sz"
    and room: "pos + length (src_bytes src) \<le> length (bd_bytes b)"
  defines "hl \<equiv> length (take L (src_bytes src))"
  shows "(r = Ok () \<longrightarrow> bd_synced b' = bd_bytes b') \<and>
    (bd_synced b' = bd_synced b \<and> (0 < hl \<longrightarrow> (\<exists>m. written (pos + hl) (take m (drop hl (src_bytes src))) b b')) \<or>
     (\<forall>j < length (bd_bytes b). j < pos \<or> pos + hl \<le> j \<longrightarrow> bd_synced b' ! j = bd_bytes b' ! j))"
proof (cases rule: copy_raw_image_steps [OF assms(1) img room])
  case (1 m)
  then show ?thesis unfolding hl_def by blast
next
  case (2 b1)
  let ?s = "src_bytes src" and ?h = "take L (src_bytes src)"
  have len: "length (bd_bytes b1) = length (bd_bytes b)" using written_length [OF 2(1)] .
  obtain r2 b2 where w: "write_header pos ?h b1 = (r2, b2)" by fastforce
  have none: "b2 = b1 \<and> r2 = Ok ()" if "hl = 0"
  proof -
    have "?h = []" using that unfolding hl_def by (rule length_0_conv [THEN iffD1])
    then show ?thesis using w unfolding write_header_def io_return_def by simp
  qed
  have header: "bd_synced b2 = bd_synced b1 \<and> written pos [] b1 b2 \<and> r2 \<noteq> Ok () \<or>
      (\<forall>j < length (bd_bytes b). j < pos \<or> pos + hl \<le> j \<longrightarrow> bd_synced b2 ! j = bd_bytes b2 ! j)" if "0 < hl"
    using write_header_synced [OF w] that room len by (auto simp: hl_def)
  show ?thesis
  proof (cases "r2 = Ok ()")
    case False
    then have rb: "r \<noteq> Ok ()" "b' = b2" using 2(3) w by (cases r2; auto simp: io_bind_def)+
    have "written (pos + hl) (take (length ?s) (drop hl ?s)) b b2" if "written pos [] b1 b2"
      using that written_cong [OF _ _ 2(1), of b2] by (simp add: hl_def)
    then have "written pos [] b1 b2 \<Longrightarrow> \<exists>m. written (pos + hl) (take m (drop hl ?s)) b b2" by blast
    moreover have "0 < hl" using none False by blast
    ultimately show ?thesis using header rb 2(2) unfolding rb(2) by metis
  next
    case True
    then have f: "blk_fsync b2 = (r, b')" using 2(3) w by (simp add: io_bind_def)
    note f' = blk_fsync_facts [OF f] blk_fsync_synced [OF f]
    show ?thesis
    proof (cases "hl = 0")
      case hl0: True
      then show ?thesis using f' none 2(2) by (auto split: if_splits)
    next
      case False
      then show ?thesis using f' header True by (auto split: if_splits)
    qed
  qed
qed

end
