(* ===== verification/Mbr.thy ===== *)
theory Mbr
  imports Boot_Device
begin

unbundle bit_operations_syntax

text \<open>
  Switching the boot partition in the master boot record (\<open>src/src/mbr.c\<close>). A region of the device
  holds two boot partitions of equal size; the first entry of the partition table points to the active
  one. The record is the list of its 512 bytes; numbers in it are little endian.
\<close>

subsection \<open>The record\<close>

definition BOOT_PARTITION_ENTRY :: nat where
  [simp]: "BOOT_PARTITION_ENTRY = 0"

definition MBR_NUMBER_OF_PARTITIONS :: nat where
  [simp]: "MBR_NUMBER_OF_PARTITIONS = 4"

type_synonym mbr = "8 word list"

definition entry_offset :: "nat \<Rightarrow> nat" where
  "entry_offset i = 446 + 16 * i"

definition le32 :: "8 word list \<Rightarrow> 32 word" where
  "le32 bs = of_nat (unat (bs ! 0) + 256 * unat (bs ! 1) + 65536 * unat (bs ! 2) + 16777216 * unat (bs ! 3))"

definition to_le32 :: "32 word \<Rightarrow> 8 word list" where
  "to_le32 w = map (\<lambda>k. of_nat (unat w div 256 ^ k)) [0, 1, 2, 3]"

definition partition_start :: "mbr \<Rightarrow> nat \<Rightarrow> 32 word" where
  "partition_start m i = le32 (drop (entry_offset i + 8) m)"

definition partition_size :: "mbr \<Rightarrow> nat \<Rightarrow> 32 word" where
  "partition_size m i = le32 (drop (entry_offset i + 12) m)"

definition read_mbr :: "blk \<Rightarrow> mbr result" where
  "read_mbr b =
     (if length (bd_bytes b) < 512 then Error UPDATE_FAILED
      else let m = take 512 (bd_bytes b) in
        if m ! 510 \<noteq> 0x55 \<or> m ! 511 \<noteq> 0xAA then Error UPDATE_FAILED else Ok m)"

subsection \<open>The region\<close>

text \<open>
  The sector size is that of the device, 512 when it cannot be asked. The number of sectors is what
  \<open>BLKGETSIZE\<close> reports, \<open>None\<close> when the ioctl fails.
\<close>

definition get_sectorsize :: "blk \<Rightarrow> 32 word" where
  "get_sectorsize b = (if bd_openable b then bd_sector_size b else 512)"

definition get_number_of_sectors :: "blk \<Rightarrow> 32 word result" where
  "get_number_of_sectors b = (case (bd_openable b, bd_sectors b) of
      (True, Some n) \<Rightarrow> Ok n | _ \<Rightarrow> Error UPDATE_FAILED)"

definition validate_region :: "blk \<Rightarrow> 64 word \<Rightarrow> 64 word \<Rightarrow> 32 word \<Rightarrow> unit result" where
  "validate_region b start sz sector_size =
     (if start < 512 \<or> sz = 0 then Error UPDATE_FAILED
      else if sector_size = 0 then Abort
      else if start mod ucast sector_size \<noteq> 0 then Error UPDATE_FAILED
      else if 2 * sector_size = 0 then Abort
      else if sz mod ucast (2 * sector_size) \<noteq> 0 then Error UPDATE_FAILED
      else result_bind (get_number_of_sectors b) (\<lambda>number_of_sectors.
        if start + sz \<ge> ucast number_of_sectors * ucast sector_size then Error UPDATE_FAILED else Ok ()))"

definition entry_overlaps :: "64 word \<Rightarrow> 64 word \<Rightarrow> mbr \<Rightarrow> 32 word \<Rightarrow> nat \<Rightarrow> bool" where
  "entry_overlaps region_start region_size m sector_size i \<longleftrightarrow>
     i \<noteq> BOOT_PARTITION_ENTRY \<and> partition_size m i \<noteq> 0 \<and>
     (let p_start = ucast (partition_start m i) * ucast sector_size;
          p_end = ucast (partition_size m i) * ucast sector_size + p_start - 1 in
      region_start \<ge> p_start \<and> region_start \<le> p_end \<or>
      p_start \<ge> region_start \<and> p_start \<le> region_start + region_size - 1)"

definition is_region_free :: "64 word \<Rightarrow> 64 word \<Rightarrow> mbr \<Rightarrow> 32 word \<Rightarrow> unit result" where
  "is_region_free region_start region_size m sector_size =
     (if list_ex (entry_overlaps region_start region_size m sector_size) [0..<MBR_NUMBER_OF_PARTITIONS]
      then Error UPDATE_FAILED else Ok ())"

subsection \<open>Partition entries\<close>

text \<open>Cylinder, head and sector of a block; the bytes stay as they are when the geometry is zero.\<close>

definition get_chs :: "8 word list \<Rightarrow> 32 word \<Rightarrow> 8 word \<Rightarrow> 8 word \<Rightarrow> 8 word list" where
  "get_chs chs lba heads sectors =
     (if heads = 0 \<or> sectors = 0 then chs
      else
        let sector = ucast (lba mod ucast sectors + 1) :: 8 word;
            lba = lba div ucast sectors;
            head = ucast (lba mod ucast heads) :: 8 word;
            lba = lba div ucast heads;
            cylinder = ucast (lba AND 0xFF) :: 8 word in
        [head, sector OR ucast (drop_bit 2 lba AND 0xC0), cylinder])"

definition get_hd_geometry :: "blk \<Rightarrow> 8 word \<times> 8 word" where
  "get_hd_geometry b = (case bd_geometry b of Some g \<Rightarrow> g | None \<Rightarrow> (255, 63))"

text \<open>The entry keeps its boot indicator and its type.\<close>

definition get_raw_partition_entry :: "blk \<Rightarrow> 8 word list \<Rightarrow> boot_switch_partition \<Rightarrow> 8 word list result" where
  "get_raw_partition_entry b raw_entry p =
     (let sector_size = ucast (get_sectorsize b) in
      if sector_size = 0 then Abort
      else if part_start p mod sector_size \<noteq> 0 \<or> part_size p mod sector_size \<noteq> 0 then Error UPDATE_FAILED
      else
        let start = ucast (part_start p div sector_size) :: 32 word;
            sz = ucast (part_size p div sector_size) :: 32 word;
            (heads, sectors) = get_hd_geometry b in
        Ok ([raw_entry ! 0] @ get_chs (take 3 (drop 1 raw_entry)) start heads sectors @ [raw_entry ! 4] @
          get_chs (take 3 (drop 5 raw_entry)) (start + sz - 1) heads sectors @ to_le32 start @ to_le32 sz))"

subsection \<open>Switching\<close>

definition r_mbr_switch_get_inactive_partition :: "blk \<Rightarrow> 64 word \<Rightarrow> 64 word \<Rightarrow> boot_switch_partition result" where
  "r_mbr_switch_get_inactive_partition b region_start region_size =
     (let sector_size = get_sectorsize b in
      result_bind (validate_region b region_start region_size sector_size) (\<lambda>_.
      result_bind (read_mbr b) (\<lambda>m.
      result_bind (is_region_free region_start region_size m sector_size) (\<lambda>_.
      let boot = partition_start m BOOT_PARTITION_ENTRY; half = region_size div 2 in
      if boot = 0 then Error UPDATE_FAILED
      else if region_start div ucast sector_size = ucast boot
        then Ok \<lparr>part_start = region_start + half, part_size = half\<rparr>
      else if (region_start + half) div ucast sector_size = ucast boot
        then Ok \<lparr>part_start = region_start, part_size = half\<rparr>
      else Error UPDATE_FAILED))))"

definition r_mbr_switch_set_boot_partition :: "boot_switch_partition \<Rightarrow> (blk, unit) io" where
  "r_mbr_switch_set_boot_partition p b =
     (if \<not> bd_openable b then (Error UPDATE_FAILED, b)
      else case result_bind (read_mbr b) (\<lambda>m.
          result_bind (get_raw_partition_entry b (take 16 (drop (entry_offset BOOT_PARTITION_ENTRY) m)) p) (\<lambda>e.
          Ok (overwrite (entry_offset BOOT_PARTITION_ENTRY) e m))) of
        Error e \<Rightarrow> (Error e, b)
      | Abort \<Rightarrow> (Abort, b)
      | Ok m \<Rightarrow> (case blk_write 0 m b of
            (Some n, b') \<Rightarrow> (if n \<noteq> 512 then Error UPDATE_FAILED else Ok (), b')
          | (None, b') \<Rightarrow> (Error UPDATE_FAILED, b')))"

subsection \<open>Little endian numbers\<close>

lemma unat_div_256:
  "unat (of_nat (n div 256 ^ k) :: 8 word) = n div 256 ^ k mod 256"
  by (simp add: unat_of_nat)

lemma base_256_digits:
  assumes "(n :: nat) < 2 ^ 32"
  shows "n mod 256 + 256 * (n div 256 mod 256) + 65536 * (n div 65536 mod 256) + 16777216 * (n div 16777216 mod 256) = n"
proof -
  have "n mod 256 + 256 * (n div 256) = n" by simp
  moreover have "n div 256 mod 256 + 256 * (n div 65536) = n div 256"
    using mod_mult_div_eq [of "n div 256" 256] div_mult2_eq [of n 256 256] by simp
  moreover have "n div 65536 mod 256 + 256 * (n div 16777216) = n div 65536"
    using mod_mult_div_eq [of "n div 65536" 256] div_mult2_eq [of n 65536 256] by simp
  moreover have "n div 16777216 mod 256 = n div 16777216" using assms by simp
  ultimately show ?thesis by linarith
qed

lemma le32_to_le32: "le32 (to_le32 w @ rest) = w"
proof -
  have "unat w < 2 ^ 32" using unsigned_less [of w, where ?'a = nat] by simp
  from base_256_digits [OF this] show ?thesis
    using unat_div_256 [of "unat w" 0] unat_div_256 [of "unat w" 1] unat_div_256 [of "unat w" 2] unat_div_256 [of "unat w" 3]
    by (simp add: le32_def to_le32_def)
qed

subsection \<open>The inactive half\<close>

lemma unat_less_32: "unat (a :: 32 word) < 2 ^ 32"
  using unsigned_less [of a, where ?'a = nat] by simp

lemma unat_mult_32: "unat (ucast (a :: 32 word) * ucast (s :: 32 word) :: 64 word) = unat a * unat s"
proof -
  have "unat a * unat s < 2 ^ 32 * 2 ^ 32"
    using unsigned_less [of a, where ?'a = nat] unsigned_less [of s, where ?'a = nat] by (intro mult_strict_mono) auto
  then show ?thesis by (simp add: unat_word_ariths)
qed

lemma unat_add_64: "unat a + unat b < 2 ^ 64 \<Longrightarrow> unat (a + b :: 64 word) = unat a + unat b"
  by (simp add: unat_word_ariths)

text \<open>The sector sizes for which the sums of the check do not wrap around.\<close>

definition sector_size_ok :: "32 word \<Rightarrow> bool" where
  "sector_size_ok s \<longleftrightarrow> 0 < unat s \<and> unat s \<le> 2 ^ 16"

lemma validate_region_Ok:
  assumes "validate_region b start sz s = Ok u" and "sector_size_ok s" and "unat start + unat sz < 2 ^ 64"
  obtains n where "bd_openable b" and "bd_sectors b = Some n" and "512 \<le> unat start" and "0 < unat sz"
    and "unat s dvd unat start" and "2 * unat s dvd unat sz" and "unat start + unat sz < unat n * unat s"
proof -
  have s2: "unat (2 * s) = 2 * unat s" using assms(2) by (simp add: sector_size_ok_def unat_word_ariths)
  have s0: "s \<noteq> 0" using assms(2) by (auto simp: sector_size_ok_def)
  have r1: "\<not> start < 512" and r2: "sz \<noteq> 0"
    using assms(1) by (intro notI; simp add: validate_region_def)+
  have s20: "2 * s \<noteq> 0" using s2 s0 by (auto simp: word_unat_eq_iff)
  have r3: "start mod ucast s = 0"
    using assms(1) r1 r2 s0 by (cases "start mod ucast s = 0") (simp_all add: validate_region_def)
  have r4: "sz mod ucast (2 * s) = 0"
    using assms(1) r1 r2 s0 s20 r3 by (cases "sz mod ucast (2 * s) = 0") (simp_all add: validate_region_def)
  have "validate_region b start sz s = result_bind (get_number_of_sectors b) (\<lambda>n.
        if start + sz \<ge> ucast n * ucast s then Error UPDATE_FAILED else Ok ())"
    unfolding validate_region_def using r1 r2 s0 s20 r3 r4 by simp
  then obtain n where n: "get_number_of_sectors b = Ok n" and r5: "\<not> ucast n * ucast s \<le> start + sz"
    using assms(1) by (cases "get_number_of_sectors b") (auto split: if_splits)
  have "bd_openable b" "bd_sectors b = Some n"
    using n by (auto simp: get_number_of_sectors_def split: bool.splits option.splits)
  moreover have "512 \<le> unat start" "0 < unat sz" using r1 r2 by (simp_all add: word_less_nat_alt unat_gt_0)
  moreover have "unat s dvd unat start"
    using r3 by (simp add: word_unat_eq_iff unat_mod dvd_eq_mod_eq_0)
  moreover have "2 * unat s dvd unat sz"
    using r4 s2 by (simp add: word_unat_eq_iff unat_mod dvd_eq_mod_eq_0)
  moreover have "unat start + unat sz < unat n * unat s"
    using r5 unat_add_64 [OF assms(3)] by (simp add: word_le_nat_alt unat_mult_32)
  ultimately show thesis using that by blast
qed

lemma region_free:
  assumes "\<not> entry_overlaps start sz m s i" and "i \<noteq> 0" and "partition_size m i \<noteq> 0"
    and "sector_size_ok s" and "unat start + unat sz < 2 ^ 64" and "0 < unat sz"
  shows "unat start + unat sz \<le> unat (partition_start m i) * unat s \<or>
    (unat (partition_start m i) + unat (partition_size m i)) * unat s \<le> unat start"
proof -
  let ?ps = "unat (partition_start m i) * unat s" and ?pz = "unat (partition_size m i) * unat s"
  have "unat (partition_start m i) < 2 ^ 32" "unat (partition_size m i) < 2 ^ 32" "unat s \<le> 2 ^ 16"
    using unat_less_32 assms(4) by (auto simp only: sector_size_ok_def)
  then have "?ps \<le> 2 ^ 32 * 2 ^ 16" "?pz \<le> 2 ^ 32 * 2 ^ 16" by (meson less_imp_le mult_le_mono)+
  then have sum: "?pz + ?ps < 2 ^ 64" by simp
  have "0 < unat (partition_size m i)" "0 < unat s"
    using assms(3,4) by (simp_all add: unat_gt_0 sector_size_ok_def)
  then have pz: "0 < ?pz" by simp
  define pe where "pe = ucast (partition_size m i) * ucast s + ucast (partition_start m i) * ucast s - (1 :: 64 word)"
  have pe1: "unat (ucast (partition_size m i) * ucast s + ucast (partition_start m i) * ucast s :: 64 word) = ?pz + ?ps"
    using sum by (simp add: unat_add_64 unat_mult_32)
  then have pe: "unat pe = ?pz + ?ps - 1"
    unfolding pe_def using pz by (subst unat_minus_one) (simp_all add: unat_gt_0 [symmetric])
  have last: "unat (start + sz - 1) = unat start + unat sz - 1"
    using assms(6) unat_add_64 [OF assms(5)] by (subst unat_minus_one) (auto simp flip: unat_gt_0)
  have "\<not> (?ps \<le> unat start \<and> unat start \<le> unat pe)" "\<not> (unat start \<le> ?ps \<and> ?ps \<le> unat start + unat sz - 1)"
    using assms(1,2,3)
    by (simp_all add: entry_overlaps_def Let_def word_le_nat_alt unat_mult_32 last flip: pe_def)
  then show ?thesis using pe pz by (auto simp: add_mult_distrib)
qed

definition boot_address :: "blk \<Rightarrow> nat" where
  "boot_address b = unat (partition_start (take 512 (bd_bytes b)) BOOT_PARTITION_ENTRY) * unat (bd_sector_size b)"

lemma read_mbr_Ok: "read_mbr b = Ok m \<longleftrightarrow> 512 \<le> length (bd_bytes b) \<and> m = take 512 (bd_bytes b) \<and> m ! 510 = 0x55 \<and> m ! 511 = 0xAA"
  by (auto simp: read_mbr_def Let_def)

lemma inactive_partition_facts:
  assumes ok: "r_mbr_switch_get_inactive_partition b start sz = Ok p"
    and s: "sector_size_ok (bd_sector_size b)" and wrap: "unat start + unat sz < 2 ^ 64"
  obtains n where "bd_openable b" and "bd_sectors b = Some n" and "512 \<le> unat start" and "0 < unat sz"
    and "unat (bd_sector_size b) dvd unat start" and "2 * unat (bd_sector_size b) dvd unat sz"
    and "unat start + unat sz < unat n * unat (bd_sector_size b)"
    and "\<And>i. i < 4 \<Longrightarrow> i \<noteq> 0 \<Longrightarrow> partition_size (take 512 (bd_bytes b)) i \<noteq> 0 \<Longrightarrow>
      unat start + unat sz \<le> unat (partition_start (take 512 (bd_bytes b)) i) * unat (bd_sector_size b) \<or>
      (unat (partition_start (take 512 (bd_bytes b)) i) + unat (partition_size (take 512 (bd_bytes b)) i)) *
        unat (bd_sector_size b) \<le> unat start"
    and "part_size p = sz div 2"
    and "part_start p = start + sz div 2 \<and> boot_address b = unat start \<or>
      part_start p = start \<and> boot_address b = unat start + unat sz div 2"
    and "read_mbr b = Ok (take 512 (bd_bytes b))" and "is_ok (is_region_free start sz (take 512 (bd_bytes b)) (bd_sector_size b))"
    and "0 < boot_address b"
proof -
  let ?s = "unat (bd_sector_size b)" and ?half = "sz div 2"
  obtain u m u' where v: "validate_region b start sz (get_sectorsize b) = Ok u" and m: "read_mbr b = Ok m"
    and free: "is_region_free start sz m (get_sectorsize b) = Ok u'"
    and pick: "(if partition_start m 0 = 0 then Error UPDATE_FAILED
      else if start div ucast (get_sectorsize b) = ucast (partition_start m 0)
        then Ok \<lparr>part_start = start + ?half, part_size = ?half\<rparr>
      else if (start + ?half) div ucast (get_sectorsize b) = ucast (partition_start m 0)
        then Ok \<lparr>part_start = start, part_size = ?half\<rparr>
      else Error UPDATE_FAILED) = Ok p"
    using ok unfolding r_mbr_switch_get_inactive_partition_def Let_def result_bind_Ok_iff BOOT_PARTITION_ENTRY_def
    by (elim exE conjE) (rule that)
  have opened: "bd_openable b"
  proof (rule ccontr)
    assume "\<not> bd_openable b"
    then have "get_number_of_sectors b = Error UPDATE_FAILED" "get_sectorsize b = 512"
      by (simp_all add: get_number_of_sectors_def get_sectorsize_def)
    then show False using v by (simp add: validate_region_def split: if_splits)
  qed
  then have gs: "get_sectorsize b = bd_sector_size b" by (simp add: get_sectorsize_def)
  obtain n where n: "bd_sectors b = Some n" "512 \<le> unat start" "0 < unat sz" "?s dvd unat start" "2 * ?s dvd unat sz"
      "unat start + unat sz < unat n * ?s"
    using validate_region_Ok [OF v [unfolded gs] s wrap] by blast
  have m': "m = take 512 (bd_bytes b)" using m by (simp add: read_mbr_Ok)
  have "unat start + unat sz \<le> unat (partition_start m i) * ?s \<or>
      (unat (partition_start m i) + unat (partition_size m i)) * ?s \<le> unat start"
    if "i < 4" "i \<noteq> 0" "partition_size m i \<noteq> 0" for i
  proof -
    have "\<not> entry_overlaps start sz m (bd_sector_size b) i"
      using free that(1) by (auto simp: is_region_free_def gs list_ex_iff split: if_splits)
    then show ?thesis using region_free that s wrap n(3) by blast
  qed
  moreover have "part_size p = sz div 2" using pick by (auto split: if_splits)
  moreover have "boot_address b > 0"
    using pick s by (auto simp: boot_address_def m' sector_size_ok_def unat_gt_0 split: if_splits)
  moreover have "part_start p = start + sz div 2 \<and> boot_address b = unat start \<or>
      part_start p = start \<and> boot_address b = unat start + unat sz div 2"
  proof -
    have half: "unat ?half = unat sz div 2" by (simp add: unat_div)
    then have sum: "unat (start + ?half) = unat start + unat sz div 2" using wrap by (simp add: unat_add_64)
    have "?s dvd unat sz div 2" using n(5) by (metis dvd_mult_div_cancel dvd_times_left_cancel_iff dvd_mult_left zero_neq_numeral)
    then have "?s dvd unat start + unat sz div 2" using n(4) by simp
    then have exact: "unat (start + ?half) div ?s * ?s = unat start + unat sz div 2" "unat start div ?s * ?s = unat start"
      using n(4) sum by simp_all
    have iff: "w div ucast (bd_sector_size b) = ucast (partition_start m 0) \<longleftrightarrow> unat w div ?s = unat (partition_start m 0)" for w :: "64 word"
      by (auto simp: word_unat_eq_iff unat_div)
    have "unat start div ?s = unat (partition_start m 0) \<and> part_start p = start + ?half \<or>
        unat (start + ?half) div ?s = unat (partition_start m 0) \<and> part_start p = start"
      using pick unfolding gs iff by (simp split: if_splits) auto
    then show ?thesis
      unfolding boot_address_def m' [symmetric] using exact by (elim disjE conjE) simp_all
  qed
  ultimately show thesis using opened n m free gs unfolding m' by (intro that) simp_all
qed

subsection \<open>Switching to the other half\<close>

lemma raw_entry_facts:
  assumes "get_raw_partition_entry b raw p = Ok e" and "length raw = 16" and "bd_openable b"
  shows "length e = 16" and "take 4 (drop 8 e) = to_le32 (ucast (part_start p div ucast (bd_sector_size b)))"
    and "drop 12 e = to_le32 (ucast (part_size p div ucast (bd_sector_size b)))"
proof -
  have chs: "length (get_chs c l h s) = 3" if "length c = 3" for c l h s
    using that by (simp add: get_chs_def Let_def)
  have le: "length (to_le32 w) = 4" for w by (simp add: to_le32_def)
  obtain h s where hs: "get_hd_geometry b = (h, s)" by fastforce
  define st sz where "st = (ucast (part_start p div ucast (bd_sector_size b)) :: 32 word)"
    and "sz = (ucast (part_size p div ucast (bd_sector_size b)) :: 32 word)"
  have "e = [raw ! 0] @ get_chs (take 3 (drop 1 raw)) st h s @ [raw ! 4] @
      get_chs (take 3 (drop 5 raw)) (st + sz - 1) h s @ to_le32 st @ to_le32 sz"
    using assms(1,3) hs by (simp add: get_raw_partition_entry_def Let_def get_sectorsize_def st_def sz_def split: if_splits)
  moreover obtain c1 c2 where "c1 = get_chs (take 3 (drop 1 raw)) st h s" "c2 = get_chs (take 3 (drop 5 raw)) (st + sz - 1) h s" by simp
  moreover have "length c1 = 3" "length c2 = 3" using calculation(2,3) chs assms(2) by simp_all
  ultimately show "length e = 16" "take 4 (drop 8 e) = to_le32 st" "drop 12 e = to_le32 sz"
    by (simp_all add: le)
qed

lemma set_boot_partition_effect:
  assumes "r_mbr_switch_set_boot_partition p b = (r, b')"
  shows "same_params b b'" and "r \<noteq> Ok () \<Longrightarrow> bd_bytes b' = bd_bytes b"
    and "r = Ok () \<Longrightarrow> \<exists>e. bd_openable b \<and> read_mbr b = Ok (take 512 (bd_bytes b)) \<and>
      get_raw_partition_entry b (take 16 (drop 446 (take 512 (bd_bytes b)))) p = Ok e \<and> length e = 16 \<and>
      bd_bytes b' = overwrite 446 e (bd_bytes b)"
proof -
  let ?m = "take 512 (bd_bytes b)" and ?raw = "take 16 (drop 446 (take 512 (bd_bytes b)))"
  have "same_params b b' \<and> (r \<noteq> Ok () \<longrightarrow> bd_bytes b' = bd_bytes b) \<and>
    (r = Ok () \<longrightarrow> (\<exists>e. bd_openable b \<and> read_mbr b = Ok ?m \<and> get_raw_partition_entry b ?raw p = Ok e \<and> length e = 16 \<and>
      bd_bytes b' = overwrite 446 e (bd_bytes b)))"
  proof (cases "bd_openable b \<and> read_mbr b = Ok ?m \<and> (\<exists>e. get_raw_partition_entry b ?raw p = Ok e)")
    case False
    define R where "R = result_bind (read_mbr b) (\<lambda>m.
          result_bind (get_raw_partition_entry b (take 16 (drop (entry_offset BOOT_PARTITION_ENTRY) m)) p) (\<lambda>e.
          Ok (overwrite (entry_offset BOOT_PARTITION_ENTRY) e m)))"
    have "bd_openable b \<Longrightarrow> \<forall>m. R \<noteq> Ok m"
      using False by (auto simp: R_def io_iff read_mbr_Ok entry_offset_def)
    then have "r \<noteq> Ok () \<and> b' = b"
      using assms unfolding r_mbr_switch_set_boot_partition_def R_def [symmetric]
      by (cases "bd_openable b"; cases R) auto
    then show ?thesis by simp
  next
    case True
    then obtain e where e: "bd_openable b" "read_mbr b = Ok ?m" "get_raw_partition_entry b ?raw p = Ok e" by blast
    then have len: "512 \<le> length (bd_bytes b)" by (simp add: read_mbr_Ok)
    then have le: "length e = 16" using raw_entry_facts(1) [OF e(3) _ e(1)] by simp
    have eq: "r_mbr_switch_set_boot_partition p b = (case blk_write 0 (overwrite 446 e ?m) b of
        (Some n, b') \<Rightarrow> (if n \<noteq> 512 then Error UPDATE_FAILED else Ok (), b') | (None, b') \<Rightarrow> (Error UPDATE_FAILED, b'))"
      using e by (simp add: r_mbr_switch_set_boot_partition_def entry_offset_def)
    have lm: "length (overwrite 446 e ?m) = 512" using le len by (simp add: overwrite_length)
    have whole: "overwrite 0 (overwrite 446 e ?m) (bd_bytes b) = overwrite 446 e (bd_bytes b)"
      using le len lm by (intro nth_equalityI) (simp_all add: nth_overwrite overwrite_length)
    show ?thesis
    proof (cases "blk_write 0 (overwrite 446 e ?m) b")
      case (Pair x b1)
      show ?thesis
      proof (cases x)
        case None
        then show ?thesis using assms eq Pair blk_write_None [of 0 "overwrite 446 e ?m" b b1] by auto
      next
        case (Some n)
        note w = blk_write_Some(2) [OF Pair [unfolded Some]] blk_write_written(1) [OF Pair [unfolded Some]]
        have "n = 512" using w(1) lm len by simp
        then show ?thesis using assms eq Pair Some w(2) whole e le lm by (auto simp: written_def)
      qed
    qed
  qed
  then show "same_params b b'" "r \<noteq> Ok () \<Longrightarrow> bd_bytes b' = bd_bytes b"
    "r = Ok () \<Longrightarrow> \<exists>e. bd_openable b \<and> read_mbr b = Ok ?m \<and> get_raw_partition_entry b ?raw p = Ok e \<and> length e = 16 \<and>
      bd_bytes b' = overwrite 446 e (bd_bytes b)"
    by auto
qed

lemma le32_cong: "\<forall>k < 4. xs ! k = ys ! k \<Longrightarrow> le32 xs = le32 ys"
  by (simp add: le32_def)

lemma set_boot_entries:
  assumes "512 \<le> length bytes" and "length e = 16"
  shows "partition_start (take 512 (overwrite 446 e bytes)) 0 = le32 (take 4 (drop 8 e))"
    and "0 < i \<Longrightarrow> i < 4 \<Longrightarrow> partition_start (take 512 (overwrite 446 e bytes)) i = partition_start (take 512 bytes) i"
    and "0 < i \<Longrightarrow> i < 4 \<Longrightarrow> partition_size (take 512 (overwrite 446 e bytes)) i = partition_size (take 512 bytes) i"
proof -
  let ?m = "take 512 (overwrite 446 e bytes)"
  show "partition_start ?m 0 = le32 (take 4 (drop 8 e))"
    unfolding partition_start_def entry_offset_def using assms by (intro le32_cong) (simp add: nth_overwrite overwrite_length)
  show "partition_start ?m i = partition_start (take 512 bytes) i" if "0 < i" "i < 4"
    unfolding partition_start_def entry_offset_def using assms that by (intro le32_cong) (simp add: nth_overwrite overwrite_length)
  show "partition_size ?m i = partition_size (take 512 bytes) i" if "0 < i" "i < 4"
    unfolding partition_size_def entry_offset_def using assms that by (intro le32_cong) (simp add: nth_overwrite overwrite_length)
qed

lemma set_boot_address:
  assumes "r_mbr_switch_set_boot_partition p b = (Ok (), b')"
    and "unat (bd_sector_size b) dvd unat (part_start p)" and "unat (part_start p) div unat (bd_sector_size b) < 2 ^ 32"
  shows "boot_address b' = unat (part_start p)"
    and "\<And>i. 0 < i \<Longrightarrow> i < 4 \<Longrightarrow> partition_start (take 512 (bd_bytes b')) i = partition_start (take 512 (bd_bytes b)) i \<and>
      partition_size (take 512 (bd_bytes b')) i = partition_size (take 512 (bd_bytes b)) i"
    and "read_mbr b' = Ok (take 512 (bd_bytes b'))"
    and "length (bd_bytes b') = length (bd_bytes b)"
    and "\<And>j. j < 446 \<or> 462 \<le> j \<Longrightarrow> j < length (bd_bytes b) \<Longrightarrow> bd_bytes b' ! j = bd_bytes b ! j"
proof -
  obtain e where e: "bd_openable b" "read_mbr b = Ok (take 512 (bd_bytes b))"
      "get_raw_partition_entry b (take 16 (drop 446 (take 512 (bd_bytes b)))) p = Ok e" "length e = 16"
      "bd_bytes b' = overwrite 446 e (bd_bytes b)"
    using set_boot_partition_effect(3) [OF assms(1)] by auto
  have same: "same_params b b'" using set_boot_partition_effect(1) [OF assms(1)] .
  have len: "512 \<le> length (bd_bytes b)" using e(2) by (simp add: read_mbr_Ok)
  then have "take 4 (drop 8 e) = to_le32 (ucast (part_start p div ucast (bd_sector_size b)))"
    using raw_entry_facts(2) [OF e(3) _ e(1)] by simp
  then have "partition_start (take 512 (bd_bytes b')) 0 = ucast (part_start p div ucast (bd_sector_size b))"
    using set_boot_entries(1) [OF len e(4)] le32_to_le32 [of _ "[]"] by (simp add: e(5))
  moreover have "unat (ucast (part_start p div ucast (bd_sector_size b)) :: 32 word) = unat (part_start p) div unat (bd_sector_size b)"
    using assms(3) by (simp add: unsigned_ucast_eq unat_div take_bit_nat_eq_self)
  ultimately show "boot_address b' = unat (part_start p)"
    using assms(2) same by (simp add: boot_address_def same_params_def)
  show "partition_start (take 512 (bd_bytes b')) i = partition_start (take 512 (bd_bytes b)) i \<and>
      partition_size (take 512 (bd_bytes b')) i = partition_size (take 512 (bd_bytes b)) i" if "0 < i" "i < 4" for i
    using set_boot_entries(2,3) [OF len e(4) that] by (simp add: e(5))
  show len': "length (bd_bytes b') = length (bd_bytes b)" using e(4,5) len by (simp add: overwrite_length)
  show other: "bd_bytes b' ! j = bd_bytes b ! j" if "j < 446 \<or> 462 \<le> j" "j < length (bd_bytes b)" for j
    using that e(4,5) len by (auto simp: nth_overwrite)
  show "read_mbr b' = Ok (take 512 (bd_bytes b'))"
    using e(2) len len' other [of 510] other [of 511] by (simp add: read_mbr_Ok)
qed

text \<open>
  The partition that is going to be written is one half of the configured region, and the other
  half is the one the boot entry points to. The region lies behind the record, within what the check
  takes as the size of the device, and does not overlap any other partition of the table.
\<close>

theorem mbr_inactive_half:
  assumes "r_mbr_switch_get_inactive_partition b start sz = Ok p"
    and "sector_size_ok (bd_sector_size b)" and "unat start + unat sz < 2 ^ 64"
  shows "unat (part_size p) = unat sz div 2 \<and> 2 * (unat sz div 2) = unat sz \<and> 512 \<le> unat start \<and>
    (unat (part_start p) = unat start \<and> boot_address b = unat start + unat sz div 2 \<or>
     unat (part_start p) = unat start + unat sz div 2 \<and> boot_address b = unat start) \<and>
    (\<exists>n. bd_sectors b = Some n \<and> unat start + unat sz < unat n * unat (bd_sector_size b)) \<and>
    (\<forall>i \<in> {1, 2, 3}. partition_size (take 512 (bd_bytes b)) i \<noteq> 0 \<longrightarrow>
      {unat start..<unat start + unat sz} \<inter>
      {unat (partition_start (take 512 (bd_bytes b)) i) * unat (bd_sector_size b)..<
       (unat (partition_start (take 512 (bd_bytes b)) i) + unat (partition_size (take 512 (bd_bytes b)) i)) *
         unat (bd_sector_size b)} = {})"
proof (rule inactive_partition_facts [OF assms])
  fix n
  assume n: "bd_openable b" "bd_sectors b = Some n" "512 \<le> unat start" "0 < unat sz"
    "unat (bd_sector_size b) dvd unat start" "2 * unat (bd_sector_size b) dvd unat sz"
    "unat start + unat sz < unat n * unat (bd_sector_size b)" "part_size p = sz div 2"
  assume disj: "\<And>i. i < 4 \<Longrightarrow> i \<noteq> 0 \<Longrightarrow> partition_size (take 512 (bd_bytes b)) i \<noteq> 0 \<Longrightarrow>
      unat start + unat sz \<le> unat (partition_start (take 512 (bd_bytes b)) i) * unat (bd_sector_size b) \<or>
      (unat (partition_start (take 512 (bd_bytes b)) i) + unat (partition_size (take 512 (bd_bytes b)) i)) *
        unat (bd_sector_size b) \<le> unat start"
  assume half: "part_start p = start + sz div 2 \<and> boot_address b = unat start \<or>
      part_start p = start \<and> boot_address b = unat start + unat sz div 2"
  have even: "2 * (unat sz div 2) = unat sz" using n(6) by (metis dvd_mult_div_cancel dvd_mult_left)
  have sum: "unat (start + sz div 2) = unat start + unat sz div 2" using assms(3) by (simp add: unat_add_64 unat_div)
  show ?thesis
  proof (intro conjI ballI impI)
    fix i :: nat
    assume i: "i \<in> {1, 2, 3}" "partition_size (take 512 (bd_bytes b)) i \<noteq> 0"
    then have "i < 4" "i \<noteq> 0" by auto
    from disj [OF this i(2)] show "{unat start..<unat start + unat sz} \<inter>
      {unat (partition_start (take 512 (bd_bytes b)) i) * unat (bd_sector_size b)..<
       (unat (partition_start (take 512 (bd_bytes b)) i) + unat (partition_size (take 512 (bd_bytes b)) i)) *
         unat (bd_sector_size b)} = {}"
      by (elim disjE) (auto simp: disjoint_iff)
  qed (use n half even sum in \<open>auto simp: unat_div\<close>)
qed

definition mbr_demo :: blk where
  "mbr_demo = \<lparr>bd_bytes = replicate 446 0 @ [0x80, 0, 0, 0, 0x0c, 0, 0, 0] @ to_le32 2 @ to_le32 2 @ replicate 48 0 @
     [0x55, 0xAA], bd_sector_size = 512, bd_geometry = None, bd_sectors = Some 100, bd_openable = True, bd_clock = 0,
     bd_faults = (\<lambda>_. False), bd_synced = []\<rparr>"

definition mbr_demo_part :: boot_switch_partition where
  "mbr_demo_part = \<lparr>part_start = 2048, part_size = 1024\<rparr>"

lemma mbr_demo_entries:
  "length (bd_bytes mbr_demo) = 512" "read_mbr mbr_demo = Ok (bd_bytes mbr_demo)"
  "partition_start (bd_bytes mbr_demo) 0 = 2" "0 < i \<Longrightarrow> i < 4 \<Longrightarrow> partition_size (bd_bytes mbr_demo) i = 0"
proof -
  have le: "length (to_le32 w) = 4" for w by (simp add: to_le32_def)
  show len: "length (bd_bytes mbr_demo) = 512" by (simp add: mbr_demo_def le)
  then show "read_mbr mbr_demo = Ok (bd_bytes mbr_demo)"
    by (simp add: read_mbr_Ok) (simp add: mbr_demo_def le nth_append)
  show "partition_start (bd_bytes mbr_demo) 0 = 2"
    by (simp add: partition_start_def entry_offset_def mbr_demo_def le le32_to_le32)
  show "partition_size (bd_bytes mbr_demo) i = 0" if i: "0 < i" "i < 4"
  proof -
    have "bd_bytes mbr_demo ! j = 0" if "462 \<le> j" "j < 510" for j
      using that by (auto simp: mbr_demo_def le nth_append)
    then show ?thesis
      using i len by (simp add: partition_size_def entry_offset_def le32_def)
  qed
qed

lemma mbr_demo_inactive: "r_mbr_switch_get_inactive_partition mbr_demo 1024 2048 = Ok mbr_demo_part"
proof -
  have "validate_region mbr_demo 1024 2048 512 = Ok ()"
    by (simp add: validate_region_def get_number_of_sectors_def mbr_demo_def)
  moreover have "is_region_free 1024 2048 (bd_bytes mbr_demo) 512 = Ok ()"
    using mbr_demo_entries(4) by (auto simp: is_region_free_def entry_overlaps_def list_ex_iff)
  moreover have "get_sectorsize mbr_demo = 512" by (simp add: get_sectorsize_def mbr_demo_def)
  ultimately show ?thesis
    by (simp add: r_mbr_switch_get_inactive_partition_def mbr_demo_entries mbr_demo_part_def)
qed

lemma mbr_demo_sector: "sector_size_ok (bd_sector_size mbr_demo)"
  by (simp add: sector_size_ok_def mbr_demo_def)

theorem mbr_inactive_half_witness: "512 \<le> (1024 :: nat) \<and> unat (part_size mbr_demo_part) = 2048 div 2"
  using mbr_inactive_half [OF mbr_demo_inactive mbr_demo_sector] by simp

lemma inactive_partition_Ok:
  assumes "validate_region b start sz (get_sectorsize b) = Ok ()" and "read_mbr b = Ok m"
    and "is_ok (is_region_free start sz m (get_sectorsize b))" and "partition_start m 0 \<noteq> 0"
  shows "r_mbr_switch_get_inactive_partition b start sz =
     (let boot = unat (partition_start m 0); s = unat (get_sectorsize b); half = sz div 2 in
      if unat start div s = boot then Ok \<lparr>part_start = start + half, part_size = half\<rparr>
      else if unat (start + half) div s = boot then Ok \<lparr>part_start = start, part_size = half\<rparr>
      else Error UPDATE_FAILED)"
proof -
  have iff: "w div ucast (get_sectorsize b) = ucast (partition_start m 0) \<longleftrightarrow>
      unat w div unat (get_sectorsize b) = unat (partition_start m 0)" for w :: "64 word"
    by (auto simp: word_unat_eq_iff unat_div)
  show ?thesis
    using assms
    by (cases "is_region_free start sz m (get_sectorsize b)")
      (simp_all add: r_mbr_switch_get_inactive_partition_def iff Let_def)
qed

text \<open>
  Switching alternates: when the inactive half has been made the boot partition, the boot entry
  points to it, the half that was active before is the inactive one of the next update, and no byte
  of the device but the boot entry has changed.
\<close>

theorem mbr_switch_alternates:
  assumes get: "r_mbr_switch_get_inactive_partition b start sz = Ok p"
    and set: "r_mbr_switch_set_boot_partition p b = (Ok (), b')"
    and s: "sector_size_ok (bd_sector_size b)" and wrap: "unat start + unat sz < 2 ^ 64"
  shows "boot_address b' = unat (part_start p) \<and>
    (\<exists>p'. r_mbr_switch_get_inactive_partition b' start sz = Ok p' \<and> unat (part_start p') = boot_address b \<and> part_size p' = part_size p) \<and>
    (\<forall>j < length (bd_bytes b). j < 446 \<or> 462 \<le> j \<longrightarrow> bd_bytes b' ! j = bd_bytes b ! j)"
proof (rule inactive_partition_facts [OF get s wrap])
  let ?s = "unat (bd_sector_size b)" and ?m' = "take 512 (bd_bytes b')"
  fix n
  assume n: "bd_openable b" "bd_sectors b = Some n" "512 \<le> unat start" "0 < unat sz" "?s dvd unat start" "2 * ?s dvd unat sz"
    "unat start + unat sz < unat n * ?s" "part_size p = sz div 2"
    "part_start p = start + sz div 2 \<and> boot_address b = unat start \<or>
      part_start p = start \<and> boot_address b = unat start + unat sz div 2"
    "read_mbr b = Ok (take 512 (bd_bytes b))" "is_ok (is_region_free start sz (take 512 (bd_bytes b)) (bd_sector_size b))"
  have s0: "0 < ?s" using s by (simp add: sector_size_ok_def)
  have half: "unat (start + sz div 2) = unat start + unat sz div 2" using wrap by (simp add: unat_add_64 unat_div)
  have dvd: "?s dvd unat sz div 2" using n(6) by (metis dvd_mult_div_cancel dvd_times_left_cancel_iff dvd_mult_left zero_neq_numeral)
  then have big: "?s \<le> unat sz div 2" using n(4,6) by (intro dvd_imp_le) (auto elim!: dvdE)
  have start: "?s dvd unat (part_start p)" "unat (part_start p) < unat n * ?s" "0 < unat (part_start p)"
    using n(3,5,7,9) dvd half by auto
  then have "unat (part_start p) div ?s < unat n" using s0 by (simp add: less_mult_imp_div_less)
  then have small: "unat (part_start p) div ?s < 2 ^ 32" using unat_less_32 [of n] by simp
  note eff = set_boot_address [OF set start(1) small]
  have same: "same_params b b'" using set_boot_partition_effect(1) [OF set] .
  have params: "get_sectorsize b' = bd_sector_size b" "get_number_of_sectors b' = get_number_of_sectors b"
      "bd_sector_size b' = bd_sector_size b" "get_sectorsize b = bd_sector_size b"
    using same n(1) by (simp_all add: same_params_def get_sectorsize_def get_number_of_sectors_def)
  have "validate_region b start sz (get_sectorsize b) = Ok ()"
    using get by (auto simp: r_mbr_switch_get_inactive_partition_def Let_def io_iff)
  moreover have "validate_region b' start sz x = validate_region b start sz x" for x
    unfolding validate_region_def params(2) by (rule refl)
  ultimately have v: "validate_region b' start sz (get_sectorsize b') = Ok ()" by (simp only: params)
  have "entry_overlaps start sz ?m' (bd_sector_size b) i = entry_overlaps start sz (take 512 (bd_bytes b)) (bd_sector_size b) i"
    if "i < 4" for i
    using eff(2) [of i] that by (cases "i = 0") (simp_all add: entry_overlaps_def)
  then have free: "is_ok (is_region_free start sz ?m' (get_sectorsize b'))"
    using n(11) by (simp add: is_region_free_def params list_ex_iff split: if_splits)
  have boot: "unat (partition_start ?m' 0) * ?s = unat (part_start p)"
    using eff(1) by (simp add: boot_address_def params)
  then have nz: "partition_start ?m' 0 \<noteq> 0" using start(3) by auto
  have bd: "unat (partition_start ?m' 0) = unat (part_start p) div ?s"
    using s0 by (simp add: boot [symmetric])
  have ne: "unat start div ?s \<noteq> unat (start + sz div 2) div ?s"
    using big s0 half n(5) dvd by (auto simp: div_add elim!: dvdE)
  have "\<exists>p'. r_mbr_switch_get_inactive_partition b' start sz = Ok p' \<and> unat (part_start p') = boot_address b \<and> part_size p' = part_size p"
    using n(9) inactive_partition_Ok [OF v eff(3) free nz] ne half
    by (elim disjE conjE) (simp_all add: Let_def params bd n(8))
  then show ?thesis using eff(1,5) by blast
qed

lemma mbr_demo_set: "is_ok (fst (r_mbr_switch_set_boot_partition mbr_demo_part mbr_demo))"
proof -
  let ?raw = "take 16 (drop 446 (bd_bytes mbr_demo))"
  obtain e where e: "get_raw_partition_entry mbr_demo ?raw mbr_demo_part = Ok e"
    by (simp add: get_raw_partition_entry_def mbr_demo_def mbr_demo_part_def get_sectorsize_def get_hd_geometry_def)
  have op: "bd_openable mbr_demo" "\<not> bd_faults mbr_demo (bd_clock mbr_demo)" by (simp_all add: mbr_demo_def)
  have "length e = 16" using raw_entry_facts(1) [OF e] op by (simp add: mbr_demo_entries)
  then have "blk_write 0 (overwrite 446 e (bd_bytes mbr_demo)) mbr_demo = (Some 512, snd (blk_write 0 (overwrite 446 e (bd_bytes mbr_demo)) mbr_demo))"
    using op by (simp add: blk_write_def Let_def mbr_demo_entries(1) overwrite_length)
  then show ?thesis
    using op e
    by (simp add: r_mbr_switch_set_boot_partition_def mbr_demo_entries(2) entry_offset_def split: prod.split option.split)
      (metis fst_conv option.distinct(1) option.inject)
qed

theorem mbr_switch_alternates_witness:
  "boot_address (snd (r_mbr_switch_set_boot_partition mbr_demo_part mbr_demo)) = 2048"
proof -
  have "r_mbr_switch_set_boot_partition mbr_demo_part mbr_demo =
      (Ok (), snd (r_mbr_switch_set_boot_partition mbr_demo_part mbr_demo))"
    using mbr_demo_set by (cases "r_mbr_switch_set_boot_partition mbr_demo_part mbr_demo") (simp add: is_ok_iff)
  from mbr_switch_alternates [OF mbr_demo_inactive this mbr_demo_sector] show ?thesis
    by (simp add: mbr_demo_part_def)
qed

end
