(* ===== verification/Boot_Switch.thy ===== *)
theory Boot_Switch
  imports Mbr Mount "HOL-Library.AList"
begin

text \<open>
  The handlers for boot slots that hold two copies (\<open>src/src/update_handler.c\<close>):
  \<open>img_to_boot_mbr_switch_handler\<close>, \<open>img_to_boot_gpt_switch_handler\<close> and
  \<open>img_to_boot_raw_fallback_handler\<close>, and the slot hooks they run. The state is the device of the slot
  and the rest of the world. The partition table functions of \<open>gpt.c\<close>, which call libfdisk, are
  parameters.
\<close>

subsection \<open>Slot hooks\<close>

text \<open>
  What a hook is told about a slot. The name, the class and the type are options because a handler
  makes up a slot that has none.
\<close>

record hook_slot =
  hs_name :: "string option"
  hs_sclass :: "string option"
  hs_type :: "string option"
  hs_device :: string
  hs_state :: slot_state
  hs_bootname :: "string option"
  hs_parent :: "(string \<times> string option) option"
  hs_mount_point :: "string option"
  hs_ext_mount_point :: "string option"

definition hook_slot_of :: "slots \<Rightarrow> rauc_slot \<Rightarrow> hook_slot" where
  "hook_slot_of slots slot = \<lparr>hs_name = Some (slot_name slot), hs_sclass = Some (slot_sclass slot),
     hs_type = Some (slot_type slot), hs_device = slot_device slot, hs_state = slot_state slot,
     hs_bootname = slot_bootname slot,
     hs_parent = (case slot_parent slot of None \<Rightarrow> None
       | Some p \<Rightarrow> map_option (\<lambda>q. (slot_name q, slot_bootname q)) (slot_lookup slots p)),
     hs_mount_point = slot_mount_point slot, hs_ext_mount_point = slot_ext_mount_point slot\<rparr>"

text \<open>The settings a hook sees: system compatible and variant, mount prefix, and those of the bundle.\<close>

record hook_context =
  hc_compatible :: "string option"
  hc_variant :: "string option"
  hc_mount_prefix :: string
  hc_bundle :: "(string \<times> string) list"

text \<open>A hook script: name, argument, environment.\<close>

type_synonym 's hook_runner = "string \<Rightarrow> string \<Rightarrow> (string \<times> string) list \<Rightarrow> 's \<Rightarrow> proc \<times> 's"

definition setenv :: "(string \<times> string) list \<Rightarrow> (string \<times> string) list \<Rightarrow> (string \<times> string) list" where
  "setenv env new = fold (\<lambda>(k, v) e. AList.update k v e) new env"

definition hook_environment :: "hook_context \<Rightarrow> rauc_image option \<Rightarrow> hook_slot \<Rightarrow> string \<Rightarrow> string \<Rightarrow> string
    \<Rightarrow> (string \<times> string) list \<Rightarrow> (string \<times> string) list" where
  "hook_environment hc img slot nm sclass state variables =
     (let or_empty = (\<lambda>s. case s of None \<Rightarrow> [] | Some x \<Rightarrow> x) in
      setenv [] (
        [(''RAUC_SYSTEM_COMPATIBLE'', or_empty (hc_compatible hc)), (''RAUC_SYSTEM_VARIANT'', or_empty (hc_variant hc)),
         (''RAUC_SLOT_NAME'', nm), (''RAUC_SLOT_STATE'', state), (''RAUC_SLOT_CLASS'', sclass)] @
        (case hs_type slot of None \<Rightarrow> [] | Some t \<Rightarrow> [(''RAUC_SLOT_TYPE'', t)]) @
        [(''RAUC_SLOT_DEVICE'', hs_device slot),
         (''RAUC_SLOT_BOOTNAME'', or_empty (case hs_parent slot of Some (p, bn) \<Rightarrow> bn | None \<Rightarrow> hs_bootname slot)),
         (''RAUC_SLOT_PARENT'', case hs_parent slot of Some (p, bn) \<Rightarrow> p | None \<Rightarrow> [])] @
        (case (hs_mount_point slot, hs_ext_mount_point slot) of
           (Some m, _) \<Rightarrow> [(''RAUC_SLOT_MOUNT_POINT'', m)]
         | (None, Some m) \<Rightarrow> [(''RAUC_SLOT_MOUNT_POINT'', m)]
         | _ \<Rightarrow> []) @
        (case img of None \<Rightarrow> []
         | Some i \<Rightarrow>
             [(''RAUC_IMAGE_NAME'', or_empty (img_filename i)), (''RAUC_IMAGE_SIZE'', int_str (sint (cs_size (img_checksum i)))),
              (''RAUC_IMAGE_DIGEST'', or_empty (cs_digest (img_checksum i)))] @
             (case img_slotclass i of None \<Rightarrow> [] | Some c \<Rightarrow> [(''RAUC_IMAGE_CLASS'', c)])) @
        [(''RAUC_MOUNT_PREFIX'', hc_mount_prefix hc)] @ hc_bundle hc @ variables))"

definition run_slot_hook_extra_env :: "'s hook_runner \<Rightarrow> hook_context \<Rightarrow> string \<Rightarrow> string \<Rightarrow> rauc_image option \<Rightarrow> hook_slot
    \<Rightarrow> (string \<times> string) list \<Rightarrow> ('s, unit) io" where
  "run_slot_hook_extra_env run hc hook_name hook_cmd img slot variables =
     (case (hs_name slot, hs_sclass slot) of
        (Some nm, Some sclass) \<Rightarrow>
          io_bind (io_lift (r_slot_slotstate_to_str (hs_state slot))) (\<lambda>state s.
            case run hook_name hook_cmd (hook_environment hc img slot nm sclass state variables) s of
              (p, s') \<Rightarrow> (proc_wait_check p, s'))
      | _ \<Rightarrow> io_fail ERROR_UNSET)"

definition run_slot_hook :: "'s hook_runner \<Rightarrow> hook_context \<Rightarrow> string \<Rightarrow> string \<Rightarrow> rauc_image option \<Rightarrow> hook_slot \<Rightarrow> ('s, unit) io" where
  "run_slot_hook run hc hook_name hook_cmd img slot = run_slot_hook_extra_env run hc hook_name hook_cmd img slot []"

definition R_SLOT_HOOK_PRE_INSTALL :: string where "R_SLOT_HOOK_PRE_INSTALL = ''slot-pre-install''"
definition R_SLOT_HOOK_POST_INSTALL :: string where "R_SLOT_HOOK_POST_INSTALL = ''slot-post-install''"

text \<open>\<open>if (hook_name && image->hooks.pre_install)\<close> and the same after the installation.\<close>

definition pre_install_hook :: "'s hook_runner \<Rightarrow> hook_context \<Rightarrow> string option \<Rightarrow> rauc_image \<Rightarrow> hook_slot
    \<Rightarrow> (string \<times> string) list \<Rightarrow> ('s, unit) io" where
  "pre_install_hook run hc hook_name img slot variables = (case hook_name of
      Some h \<Rightarrow> if hook_pre_install (img_hooks img)
        then run_slot_hook_extra_env run hc h R_SLOT_HOOK_PRE_INSTALL (Some img) slot variables else io_return ()
    | None \<Rightarrow> io_return ())"

definition post_install_hook :: "'s hook_runner \<Rightarrow> hook_context \<Rightarrow> string option \<Rightarrow> rauc_image \<Rightarrow> hook_slot
    \<Rightarrow> (string \<times> string) list \<Rightarrow> ('s, unit) io" where
  "post_install_hook run hc hook_name img slot variables = (case hook_name of
      Some h \<Rightarrow> if hook_post_install (img_hooks img)
        then run_slot_hook_extra_env run hc h R_SLOT_HOOK_POST_INSTALL (Some img) slot variables else io_return ()
    | None \<Rightarrow> io_return ())"

subsection \<open>Switching handlers\<close>

definition on_device :: "(blk, 'a) io \<Rightarrow> (blk \<times> 'w, 'a) io" where
  "on_device m s = (case m (fst s) of (r, b') \<Rightarrow> (r, b', snd s))"

definition switch_vars :: "64 word \<Rightarrow> boot_switch_partition \<Rightarrow> (string \<times> string) list" where
  "switch_vars region_start p =
     [(''RAUC_BOOT_PARTITION_ACTIVATING'', int_str (if part_start p = region_start then 0 else 1)),
      (''RAUC_BOOT_PARTITION_START'', int_str (uint (part_start p))),
      (''RAUC_BOOT_PARTITION_SIZE'', int_str (uint (part_size p)))]"

text \<open>The two handlers differ in the functions that find and set the partition.\<close>

definition boot_switch_handler :: "(blk \<Rightarrow> 64 word \<Rightarrow> 64 word \<Rightarrow> boot_switch_partition result)
    \<Rightarrow> (boot_switch_partition \<Rightarrow> (blk, unit) io) \<Rightarrow> (blk \<times> 'w) hook_runner \<Rightarrow> hook_context \<Rightarrow> image_source result
    \<Rightarrow> rauc_image \<Rightarrow> rauc_slot \<Rightarrow> hook_slot \<Rightarrow> string option \<Rightarrow> (blk \<times> 'w, unit) io" where
  "boot_switch_handler get_inactive set_boot run hc file img slot hslot hook_name s =
     io_bind (io_lift (get_inactive (fst s) (slot_region_start slot) (slot_region_size slot))) (\<lambda>p.
       let sz = cs_size (img_checksum img); vars = switch_vars (slot_region_start slot) p in
       if part_size p < sz then io_fail UPDATE_FAILED
       else io_bind (pre_install_hook run hc hook_name img hslot vars) (\<lambda>_.
         io_bind (on_device (clear_boot_switch_partition p)) (\<lambda>_.
         io_bind (on_device (write_boot_switch_partition file sz p 0)) (\<lambda>_.
         io_bind (post_install_hook run hc hook_name img hslot vars) (\<lambda>_.
         on_device (set_boot p)))))) s"

definition img_to_boot_mbr_switch_handler :: "(blk \<times> 'w) hook_runner \<Rightarrow> hook_context \<Rightarrow> image_source result
    \<Rightarrow> rauc_image \<Rightarrow> rauc_slot \<Rightarrow> hook_slot \<Rightarrow> string option \<Rightarrow> (blk \<times> 'w, unit) io" where
  "img_to_boot_mbr_switch_handler = boot_switch_handler r_mbr_switch_get_inactive_partition r_mbr_switch_set_boot_partition"

definition img_to_boot_gpt_switch_handler :: "(blk \<Rightarrow> 64 word \<Rightarrow> 64 word \<Rightarrow> boot_switch_partition result)
    \<Rightarrow> (boot_switch_partition \<Rightarrow> (blk, unit) io) \<Rightarrow> (blk \<times> 'w) hook_runner \<Rightarrow> hook_context \<Rightarrow> image_source result
    \<Rightarrow> rauc_image \<Rightarrow> rauc_slot \<Rightarrow> hook_slot \<Rightarrow> string option \<Rightarrow> (blk \<times> 'w, unit) io" where
  "img_to_boot_gpt_switch_handler = boot_switch_handler"

subsection \<open>Two copies with a fallback\<close>

definition fallback_vars :: "rauc_slot \<Rightarrow> (string \<times> string) list" where
  "fallback_vars slot = [(''RAUC_BOOT_REGION_START'', int_str (uint (slot_region_start slot))),
     (''RAUC_BOOT_REGION_SIZE'', int_str (uint (slot_region_size slot)))]"

definition update_copy :: "image_source result \<Rightarrow> 64 word \<Rightarrow> boot_switch_partition \<Rightarrow> (blk, unit) io" where
  "update_copy file sz p =
     io_bind (clear_boot_switch_partition p) (\<lambda>_. write_boot_switch_partition file sz p 512)"

text \<open>The copies in the order of the array, which the loop starts at its first or at its second element.\<close>

definition part_desc :: "rauc_slot \<Rightarrow> boot_switch_partition list" where
  "part_desc slot =
     (let half_size = slot_region_size slot div 2 in
      [\<lparr>part_start = slot_region_start slot + half_size, part_size = half_size\<rparr>,
       \<lparr>part_start = slot_region_start slot, part_size = half_size\<rparr>])"

definition update_copies :: "image_source result \<Rightarrow> 64 word \<Rightarrow> rauc_slot \<Rightarrow> bool \<Rightarrow> (blk, unit) io" where
  "update_copies file sz slot primary_clear =
     (let first = (if primary_clear then 1 else 0) in
      io_bind (update_copy file sz (part_desc slot ! (first mod 2)))
        (\<lambda>_. update_copy file sz (part_desc slot ! ((first + 1) mod 2))))"

definition img_to_boot_raw_fallback_handler :: "(blk \<times> 'w) hook_runner \<Rightarrow> hook_context \<Rightarrow> image_source result
    \<Rightarrow> rauc_image \<Rightarrow> rauc_slot \<Rightarrow> hook_slot \<Rightarrow> string option \<Rightarrow> blk \<times> 'w \<Rightarrow> (unit result \<times> blk \<times> 'w) option" where
  "img_to_boot_raw_fallback_handler run hc file img slot hslot hook_name s =
     (let half_size = slot_region_size slot div 2; sz = cs_size (img_checksum img); vars = fallback_vars slot in
      if slot_region_start slot mod 512 \<noteq> 0 \<or> half_size mod 512 \<noteq> 0 \<or> half_size < sz then Some (Error UPDATE_FAILED, s)
      else case pre_install_hook run hc hook_name img hslot vars s of
          (Error e, s') \<Rightarrow> Some (Error e, s')
        | (Abort, s') \<Rightarrow> Some (Abort, s')
        | (Ok u, s') \<Rightarrow> (case check_if_area_is_clear (slot_region_start slot) 512 (fst s') of
              None \<Rightarrow> None
            | Some (Error e) \<Rightarrow> Some (Error UPDATE_FAILED, s')
            | Some Abort \<Rightarrow> Some (Abort, s')
            | Some (Ok primary_clear) \<Rightarrow> Some (io_bind (on_device (update_copies file sz slot primary_clear))
                (\<lambda>_. post_install_hook run hc hook_name img hslot vars) s')))"

subsection \<open>Changes stay within an area\<close>

definition outside :: "nat \<Rightarrow> nat \<Rightarrow> blk \<Rightarrow> blk \<Rightarrow> bool" where
  "outside lo hi b b' \<longleftrightarrow> length (bd_bytes b') = length (bd_bytes b) \<and> same_params b b' \<and>
     (\<forall>j < length (bd_bytes b). j < lo \<or> hi \<le> j \<longrightarrow> bd_bytes b' ! j = bd_bytes b ! j)"

lemma outside_refl [simp]: "outside lo hi b b"
  by (simp add: outside_def)

lemma outside_trans: "outside lo hi b b' \<Longrightarrow> outside lo hi b' b'' \<Longrightarrow> outside lo hi b b''"
  by (auto simp: outside_def intro: same_params_trans)

lemma outside_mono: "outside lo hi b b' \<Longrightarrow> lo' \<le> lo \<Longrightarrow> hi \<le> hi' \<Longrightarrow> outside lo' hi' b b'"
  by (auto simp: outside_def)

lemma written_is_outside: "written pos data b b' \<Longrightarrow> lo \<le> pos \<Longrightarrow> pos + length data \<le> hi \<Longrightarrow> outside lo hi b b'"
  using written_outside written_length by (auto simp: outside_def written_def)

lemma take_drop_nth:
  "pos + n \<le> length xs \<Longrightarrow> length ys = n \<Longrightarrow> take n (drop pos xs) = ys \<longleftrightarrow> (\<forall>j < n. xs ! (pos + j) = ys ! j)"
  by (auto simp: list_eq_iff_nth_eq)

lemma outside_content:
  assumes "outside lo hi b b'" and "pos + n \<le> lo \<or> hi \<le> pos" and "pos + n \<le> length (bd_bytes b)"
  shows "take n (drop pos (bd_bytes b')) = take n (drop pos (bd_bytes b))"
  using assms by (auto simp: list_eq_iff_nth_eq outside_def)

subsection \<open>One copy\<close>

text \<open>
  Whatever happens to the update of a copy, either nothing was written to it, or its header is cleared,
  or it holds the whole image.
\<close>

definition header_zero :: "nat \<Rightarrow> blk \<Rightarrow> bool" where
  "header_zero pos b \<longleftrightarrow> (\<forall>j. pos \<le> j \<and> j < pos + 512 \<longrightarrow> bd_bytes b ! j = 0)"

definition holds_image :: "image_source \<Rightarrow> nat \<Rightarrow> blk \<Rightarrow> bool" where
  "holds_image src pos b \<longleftrightarrow> take (length (src_bytes src)) (drop pos (bd_bytes b)) = src_bytes src"

text \<open>All of the image behind the header survives a loss of power.\<close>

definition body_synced :: "image_source \<Rightarrow> nat \<Rightarrow> blk \<Rightarrow> bool" where
  "body_synced src pos b \<longleftrightarrow> (\<forall>j. pos + 512 \<le> j \<and> j < pos + length (src_bytes src) \<longrightarrow> bd_synced b ! j = bd_bytes b ! j)"

text \<open>What is synced outside of an area that alone was written to.\<close>

definition synced_outside :: "nat \<Rightarrow> nat \<Rightarrow> blk \<Rightarrow> blk \<Rightarrow> bool" where
  "synced_outside lo hi b b' \<longleftrightarrow> (\<forall>j < length (bd_bytes b). j < lo \<or> hi \<le> j \<longrightarrow>
     bd_synced b' ! j = bd_synced b ! j \<or> bd_synced b' ! j = bd_bytes b ! j)"

lemma write_partition_written:
  assumes "write_boot_switch_partition (Ok src) sz p L b = (r, b')" and "image_matches src sz"
    and "unat (part_start p) + length (src_bytes src) \<le> length (bd_bytes b)"
  defines "hl \<equiv> length (take L (src_bytes src))"
  shows "((\<exists>m. written (unat (part_start p) + hl) (take m (drop hl (src_bytes src))) b b') \<and> r \<noteq> Ok () \<or>
      written (unat (part_start p)) (src_bytes src) b b') \<and> r \<noteq> Abort"
proof (cases "bd_openable b")
  case False
  then have "b' = b" "r = Error UPDATE_FAILED"
    using assms(1) by (simp_all add: write_boot_switch_partition_def io_bind_def blk_open_def)
  moreover have "written (unat (part_start p) + hl) (take 0 (drop hl (src_bytes src))) b b"
    using assms(3) by (simp add: hl_def)
  ultimately show ?thesis by blast
next
  case True
  then have "copy_raw_image (Ok src) sz (unat (part_start p)) L b = (r, b')"
    using assms(1,3) by (simp add: write_boot_switch_partition_def io_bind_def blk_open_def blk_seek_def)
  from copy_raw_image_written [OF this assms(2,3)] show ?thesis by (simp add: hl_def)
qed

lemma write_partition_synced:
  assumes "write_boot_switch_partition (Ok src) sz p L b = (r, b')" and "image_matches src sz"
    and "unat (part_start p) + length (src_bytes src) \<le> length (bd_bytes b)"
  defines "hl \<equiv> length (take L (src_bytes src))"
  shows "(r = Ok () \<longrightarrow> bd_synced b' = bd_bytes b') \<and>
    (bd_synced b' = bd_synced b \<and>
       (0 < hl \<longrightarrow> (\<exists>m. written (unat (part_start p) + hl) (take m (drop hl (src_bytes src))) b b')) \<or>
     (\<forall>j < length (bd_bytes b). j < unat (part_start p) \<or> unat (part_start p) + hl \<le> j \<longrightarrow> bd_synced b' ! j = bd_bytes b' ! j))"
proof (cases "bd_openable b")
  case False
  then have "b' = b" "r = Error UPDATE_FAILED"
    using assms(1) by (simp_all add: write_boot_switch_partition_def io_bind_def blk_open_def)
  moreover have "written (unat (part_start p) + hl) (take 0 (drop hl (src_bytes src))) b b"
    using assms(3) by (simp add: hl_def)
  ultimately show ?thesis by blast
next
  case True
  then have "copy_raw_image (Ok src) sz (unat (part_start p)) L b = (r, b')"
    using assms(1,3) by (simp add: write_boot_switch_partition_def io_bind_def blk_open_def blk_seek_def)
  from copy_raw_image_synced [OF this assms(2,3)] show ?thesis by (simp add: hl_def)
qed

lemma write_partition_error:
  "write_boot_switch_partition (Error e) sz p L b = (r, b') \<Longrightarrow> b' = b \<and> r \<noteq> Ok () \<and> r \<noteq> Abort"
  by (auto simp: write_boot_switch_partition_def copy_raw_image_def io_bind_def blk_open_def blk_seek_def io_lift_def
      io_fail_def split: if_splits)

text \<open>The image file: it cannot be opened, or it is as long as the manifest says.\<close>

definition file_ok :: "image_source result \<Rightarrow> image_source \<Rightarrow> 64 word \<Rightarrow> bool" where
  "file_ok file src sz \<longleftrightarrow> image_matches src sz \<and> (file = Ok src \<or> (\<exists>e. file = Error e))"

text \<open>Copying an image into a cleared area, the header last.\<close>

lemma copy_into_cleared:
  assumes w: "write_boot_switch_partition (Ok src) sz p 512 b = (r, b')" and match: "image_matches src sz"
    and z: "header_zero (unat (part_start p)) b" and fit: "length (src_bytes src) \<le> unat (part_size p)"
    and small: "512 \<le> unat (part_size p)" and room: "unat (part_start p) + unat (part_size p) \<le> length (bd_bytes b)"
  shows "outside (unat (part_start p)) (unat (part_start p) + unat (part_size p)) b b' \<and> r \<noteq> Abort \<and>
    synced_outside (unat (part_start p)) (unat (part_start p) + unat (part_size p)) b b' \<and>
    (r = Ok () \<longrightarrow> holds_image src (unat (part_start p)) b' \<and> bd_synced b' = bd_bytes b') \<and>
    (header_zero (unat (part_start p)) b' \<or>
     holds_image src (unat (part_start p)) b' \<and> body_synced src (unat (part_start p)) b')"
proof -
  let ?pos = "unat (part_start p)" and ?size = "unat (part_size p)" and ?s = "src_bytes src"
  let ?hl = "length (take 512 ?s)"
  have in_room: "?pos + length ?s \<le> length (bd_bytes b)" using fit room by simp
  have res: "(\<exists>m. written (?pos + ?hl) (take m (drop ?hl ?s)) b b') \<and> r \<noteq> Ok () \<or> written ?pos ?s b b'" "r \<noteq> Abort"
    using write_partition_written [OF w match in_room] by auto
  have sync: "r = Ok () \<longrightarrow> bd_synced b' = bd_bytes b'"
      "bd_synced b' = bd_synced b \<and> (\<exists>m. written (?pos + ?hl) (take m (drop ?hl ?s)) b b') \<or>
       (\<forall>j < length (bd_bytes b). j < ?pos \<or> ?pos + ?hl \<le> j \<longrightarrow> bd_synced b' ! j = bd_bytes b' ! j)"
    using write_partition_synced [OF w match in_room] match by (auto simp: image_matches_def)
  have out: "outside ?pos (?pos + ?size) b b'"
    using res(1) fit by (auto dest: written_is_outside [where lo = ?pos and hi = "?pos + ?size"])
  have so: "synced_outside ?pos (?pos + ?size) b b'"
    using sync(2) out small by (auto simp: synced_outside_def outside_def)
  have body: "header_zero ?pos b'" if m: "written (?pos + ?hl) (take m (drop ?hl ?s)) b b'" for m
  proof (cases "length ?s \<le> 512")
    case True
    then have "bd_bytes b' = bd_bytes b" using m by simp
    then show ?thesis using z by (simp add: header_zero_def)
  next
    case False
    then have "bd_bytes b' ! j = bd_bytes b ! j" if "j < ?pos + 512" for j
      using written_outside [OF m] that small room by simp
    then show ?thesis using z by (simp add: header_zero_def)
  qed
  have whole: "holds_image src ?pos b'" if "written ?pos ?s b b'"
    using written_inside [OF that] by (simp add: holds_image_def)
  show ?thesis
  proof (cases "\<exists>m. written (?pos + ?hl) (take m (drop ?hl ?s)) b b'")
    case True
    then show ?thesis using body out so res sync(1) whole by blast
  next
    case False
    then have wr: "written ?pos ?s b b'" and agree: "\<forall>j < length (bd_bytes b). j < ?pos \<or> ?pos + ?hl \<le> j \<longrightarrow> bd_synced b' ! j = bd_bytes b' ! j"
      using res(1) sync(2) by blast+
    have "body_synced src ?pos b'" unfolding body_synced_def using agree in_room by (auto simp: min_def)
    then show ?thesis using whole [OF wr] out so res(2) sync(1) by blast
  qed
qed

lemma update_copy_cases:
  assumes "update_copy file sz p b = (r, b')" and imf: "file_ok file src sz"
    and fit: "length (src_bytes src) \<le> unat (part_size p)"
    and small: "512 \<le> unat (part_size p)" "unat (part_size p) < 2 ^ 32"
    and room: "unat (part_start p) + unat (part_size p) \<le> length (bd_bytes b)"
  shows "outside (unat (part_start p)) (unat (part_start p) + unat (part_size p)) b b' \<and> r \<noteq> Abort \<and>
    synced_outside (unat (part_start p)) (unat (part_start p) + unat (part_size p)) b b' \<and>
    (r = Ok () \<longrightarrow> holds_image src (unat (part_start p)) b' \<and> bd_synced b' = bd_bytes b') \<and>
    (bd_bytes b' = bd_bytes b \<or> header_zero (unat (part_start p)) b' \<or>
     holds_image src (unat (part_start p)) b' \<and> body_synced src (unat (part_start p)) b')"
proof -
  let ?pos = "unat (part_start p)" and ?size = "unat (part_size p)"
  obtain r1 b1 where c: "clear_boot_switch_partition p b = (r1, b1)" by fastforce
  have sync1: "bd_synced b1 = bd_synced b" by (rule preservesD [OF clear_partition_synced c])
  obtain d where d: "written ?pos (replicate d 0) b b1" "d \<le> ?size" "r1 = Ok () \<Longrightarrow> d = ?size" "d = 0 \<or> min 512 ?size \<le> d" "r1 \<noteq> Abort"
    using clear_partition_written [OF c small(2) room] by blast
  have out1: "outside ?pos (?pos + ?size) b b1" using written_is_outside [OF d(1)] d(2) by simp
  have zero1: "header_zero ?pos b1" if "d \<noteq> 0"
    using d that small(1) unfolding header_zero_def by (auto simp: written_def nth_overwrite)
  show ?thesis
  proof (cases "r1 = Ok ()")
    case False
    then have "b' = b1" "r \<noteq> Ok ()" "r \<noteq> Abort"
      using assms(1) c d(5) by (cases r1; auto simp: update_copy_def io_bind_def)+
    moreover have "bd_bytes b1 = bd_bytes b \<or> header_zero ?pos b1" using zero1 d(1) by (cases "d = 0") auto
    ultimately show ?thesis using out1 sync1 by (auto simp: synced_outside_def)
  next
    case True
    then have w: "write_boot_switch_partition file sz p 512 b1 = (r, b')"
      using assms(1) c by (simp add: update_copy_def io_bind_def)
    have "d \<noteq> 0" using d(3) [OF True] small(1) by simp
    note z = zero1 [OF this]
    have len: "length (bd_bytes b1) = length (bd_bytes b)" using written_length [OF d(1)] .
    consider (err) e where "file = Error e" | (ok) "file = Ok src" using imf by (auto simp: file_ok_def)
    then show ?thesis
    proof cases
      case err
      then have "b' = b1" "r \<noteq> Ok ()" "r \<noteq> Abort" using write_partition_error w by blast+
      then show ?thesis using out1 z sync1 by (simp add: synced_outside_def)
    next
      case ok
      have match: "image_matches src sz" using imf by (simp add: file_ok_def)
      from copy_into_cleared [OF w [unfolded ok] match z fit small(1)] room len
      have cw: "outside ?pos (?pos + ?size) b1 b'" "r \<noteq> Abort" "synced_outside ?pos (?pos + ?size) b1 b'"
          "r = Ok () \<longrightarrow> holds_image src ?pos b' \<and> bd_synced b' = bd_bytes b'"
          "header_zero ?pos b' \<or> holds_image src ?pos b' \<and> body_synced src ?pos b'" by auto
      have "synced_outside ?pos (?pos + ?size) b b'"
        using cw(3) sync1 out1 len by (auto simp: synced_outside_def outside_def)
      then show ?thesis using outside_trans [OF out1 cw(1)] cw by blast
    qed
  qed
qed

subsection \<open>The fallback\<close>

text \<open>
  The boot ROM is not part of the repository. \<open>rom_copy\<close> is what \<open>docs/advanced.rst\<close> requires of it: it
  takes the primary copy unless its header is clear (zeros or erased bytes), and the second copy then.
\<close>

definition header_clear :: "nat \<Rightarrow> blk \<Rightarrow> bool" where
  "header_clear pos b \<longleftrightarrow> (\<forall>j. pos \<le> j \<and> j < pos + 512 \<longrightarrow> bd_bytes b ! j = 0 \<or> bd_bytes b ! j = 0xFF)"

definition rom_copy :: "nat \<Rightarrow> nat \<Rightarrow> blk \<Rightarrow> nat" where
  "rom_copy start half b = (if header_clear start b then start + half else start)"

definition image_has_header :: "image_source \<Rightarrow> bool" where
  "image_has_header src \<longleftrightarrow> (\<exists>j < length (src_bytes src). j < 512 \<and> src_bytes src ! j \<noteq> 0 \<and> src_bytes src ! j \<noteq> 0xFF)"

lemma shift_ex: "(\<exists>i < n. Q (s + i)) = (\<exists>j. s \<le> j \<and> j < s + n \<and> Q j)" for s :: nat
proof
  assume "\<exists>j. s \<le> j \<and> j < s + n \<and> Q j"
  then obtain j where "s \<le> j" "j < s + n" "Q j" by blast
  then show "\<exists>i < n. Q (s + i)" by (intro exI [of _ "j - s"]) simp
next
  assume "\<exists>i < n. Q (s + i)"
  then obtain i where "i < n" "Q (s + i)" by blast
  then show "\<exists>j. s \<le> j \<and> j < s + n \<and> Q j" by (intro exI [of _ "s + i"]) simp
qed

lemma check_loop_header:
  assumes "start + 512 \<le> length bytes"
  shows "check_loop bytes start 512 = Some (\<forall>j. start \<le> j \<and> j < start + 512 \<longrightarrow> bytes ! j = 0 \<or> bytes ! j = 0xFF)"
proof -
  let ?buf = "take 512 (drop start bytes)"
  have len: "length ?buf = 512" using assms by simp
  have nth: "?buf ! i = bytes ! (start + i)" if "i < 512" for i using assms that by simp
  have "(\<exists>x \<in> set ?buf. x \<noteq> 0 \<and> x \<noteq> 0xFF) = (\<exists>i < length ?buf. ?buf ! i \<noteq> 0 \<and> ?buf ! i \<noteq> 0xFF)"
    unfolding set_conv_nth by blast
  also have "\<dots> = (\<exists>i < 512. bytes ! (start + i) \<noteq> 0 \<and> bytes ! (start + i) \<noteq> 0xFF)"
    unfolding len using nth by (metis (no_types, lifting))
  also have "\<dots> = (\<not> (\<forall>j. start \<le> j \<and> j < start + 512 \<longrightarrow> bytes ! j = 0 \<or> bytes ! j = 0xFF))"
    unfolding shift_ex [of _ "\<lambda>j. bytes ! j \<noteq> 0 \<and> bytes ! j \<noteq> 0xFF"] by blast
  finally show ?thesis
    using len by (subst check_loop.simps) (auto simp: Let_def check_loop.simps [of _ _ 0])
qed

lemma check_area_header:
  assumes "unat start + 512 \<le> length (bd_bytes b)" and "check_if_area_is_clear start 512 b = Some (Ok c)"
  shows "c = header_clear (unat start) b"
  using assms by (simp add: check_if_area_is_clear_def check_loop_header header_clear_def split: if_splits)

lemma header_zero_clear: "header_zero pos b \<Longrightarrow> header_clear pos b"
  by (simp add: header_zero_def header_clear_def)

lemma holds_image_not_clear:
  assumes "holds_image src pos b" and "image_has_header src" and "pos + length (src_bytes src) \<le> length (bd_bytes b)"
  shows "\<not> header_clear pos b"
proof -
  obtain j where j: "j < length (src_bytes src)" "j < 512" "src_bytes src ! j \<noteq> 0" "src_bytes src ! j \<noteq> 0xFF"
    using assms(2) by (auto simp: image_has_header_def)
  then have "bd_bytes b ! (pos + j) = src_bytes src ! j"
    using assms(1,3) unfolding holds_image_def by (simp add: take_drop_nth)
  then show ?thesis using j by (auto simp: header_clear_def intro!: exI [of _ "pos + j"])
qed

lemma outside_header: "outside lo hi b b' \<Longrightarrow> pos + 512 \<le> lo \<or> hi \<le> pos \<Longrightarrow> pos + 512 \<le> length (bd_bytes b) \<Longrightarrow>
    header_clear pos b' = header_clear pos b"
  by (auto simp: outside_def header_clear_def)

text \<open>
  The copy the ROM takes holds the new image, or it is the one it took before and has not changed.
\<close>

definition rom_safe :: "image_source \<Rightarrow> nat \<Rightarrow> nat \<Rightarrow> blk \<Rightarrow> blk \<Rightarrow> bool" where
  "rom_safe src start half b b' \<longleftrightarrow> holds_image src (rom_copy start half b') b' \<or>
     rom_copy start half b' = rom_copy start half b \<and>
     take half (drop (rom_copy start half b) (bd_bytes b')) = take half (drop (rom_copy start half b) (bd_bytes b))"

text \<open>
  Each copy is as it was before, or its header is cleared, so that the ROM does not take it, or it holds
  the new image, and all of it but the header survives a loss of power.
\<close>

definition copy_state :: "image_source \<Rightarrow> nat \<Rightarrow> nat \<Rightarrow> blk \<Rightarrow> blk \<Rightarrow> bool" where
  "copy_state src pos half b b' \<longleftrightarrow> take half (drop pos (bd_bytes b')) = take half (drop pos (bd_bytes b)) \<or>
     header_zero pos b' \<or> holds_image src pos b' \<and> body_synced src pos b'"

text \<open>A complete and synced copy stays so while the other one is written.\<close>

lemma complete_copy_kept:
  assumes "holds_image src pos b" and "bd_synced b = bd_bytes b" and "outside lo hi b b'" and "synced_outside lo hi b b'"
    and "pos + length (src_bytes src) \<le> lo \<or> hi \<le> pos" and "pos + length (src_bytes src) \<le> length (bd_bytes b)"
  shows "holds_image src pos b' \<and> body_synced src pos b'"
proof
  show "holds_image src pos b'"
    using outside_content [OF assms(3,5,6)] assms(1) by (simp add: holds_image_def)
  show "body_synced src pos b'" unfolding body_synced_def
    using assms(2-6) by (auto simp: outside_def synced_outside_def)
qed

text \<open>Two areas of which one is updated after the other.\<close>

lemma update_two_copies:
  assumes u: "io_bind (update_copy file sz p) (\<lambda>_. update_copy file sz q) b = (r, b')" and imf: "file_ok file src sz"
    and fit: "length (src_bytes src) \<le> half" and small: "512 \<le> half" "half < 2 ^ 32"
    and p: "unat (part_start p) = x" "unat (part_size p) = half" and q: "unat (part_start q) = y" "unat (part_size q) = half"
    and room: "x + half \<le> length (bd_bytes b)" "y + half \<le> length (bd_bytes b)" and disj: "x + half \<le> y \<or> y + half \<le> x"
  obtains (first) "outside x (x + half) b b'" "bd_bytes b' = bd_bytes b \<or> header_zero x b' \<or> holds_image src x b' \<and> body_synced src x b'"
      "r \<noteq> Ok ()" "r \<noteq> Abort"
  | (second) b1 where "outside x (x + half) b b1" "outside y (y + half) b1 b'"
      "bd_bytes b' = bd_bytes b1 \<or> header_zero y b' \<or> holds_image src y b' \<and> body_synced src y b'"
      "holds_image src x b'" "body_synced src x b'" "r = Ok () \<longrightarrow> holds_image src y b' \<and> bd_synced b' = bd_bytes b'" "r \<noteq> Abort"
proof -
  obtain r1 b1 where u1: "update_copy file sz p b = (r1, b1)" by fastforce
  have c1: "outside x (x + half) b b1" "r1 \<noteq> Abort" "r1 = Ok () \<longrightarrow> holds_image src x b1 \<and> bd_synced b1 = bd_bytes b1"
      "bd_bytes b1 = bd_bytes b \<or> header_zero x b1 \<or> holds_image src x b1 \<and> body_synced src x b1"
    using update_copy_cases [OF u1 imf] p fit small room by auto
  have len1: "length (bd_bytes b1) = length (bd_bytes b)" using c1(1) by (simp add: outside_def)
  show ?thesis
  proof (cases "r1 = Ok ()")
    case False
    then have "b' = b1" "r \<noteq> Ok ()" "r \<noteq> Abort" using u u1 c1(2) by (cases r1; auto simp: io_bind_def)+
    then show ?thesis using c1 by (intro first) simp_all
  next
    case True
    then have u2: "update_copy file sz q b1 = (r, b')" using u u1 by (simp add: io_bind_def)
    have c2: "outside y (y + half) b1 b'" "r \<noteq> Abort" "synced_outside y (y + half) b1 b'"
        "r = Ok () \<longrightarrow> holds_image src y b' \<and> bd_synced b' = bd_bytes b'"
        "bd_bytes b' = bd_bytes b1 \<or> header_zero y b' \<or> holds_image src y b' \<and> body_synced src y b'"
      using update_copy_cases [OF u2 imf] q fit small room len1 by auto
    have "holds_image src x b' \<and> body_synced src x b'"
      by (rule complete_copy_kept [OF _ _ c2(1,3)]) (use c1(3) True disj fit room len1 in auto)
    then show ?thesis using c1 c2 by (intro second [of b1]) simp_all
  qed
qed

lemma two_copies_state:
  assumes u: "io_bind (update_copy file sz p) (\<lambda>_. update_copy file sz q) b = (r, b')" and imf: "file_ok file src sz"
    and fit: "length (src_bytes src) \<le> half" and small: "512 \<le> half" "half < 2 ^ 32"
    and p: "unat (part_start p) = x" "unat (part_size p) = half" and q: "unat (part_start q) = y" "unat (part_size q) = half"
    and room: "x + half \<le> length (bd_bytes b)" "y + half \<le> length (bd_bytes b)" and disj: "x + half \<le> y \<or> y + half \<le> x"
  shows "copy_state src x half b b' \<and> copy_state src y half b b' \<and> r \<noteq> Abort \<and>
    (r = Ok () \<longrightarrow> holds_image src x b' \<and> holds_image src y b' \<and> bd_synced b' = bd_bytes b')"
proof (cases rule: update_two_copies [OF assms])
  case 1
  have "take half (drop y (bd_bytes b')) = take half (drop y (bd_bytes b))"
    by (rule outside_content [OF 1(1)]) (use disj room in auto)
  then show ?thesis using 1 by (auto simp: copy_state_def)
next
  case (2 b1)
  have "take half (drop y (bd_bytes b1)) = take half (drop y (bd_bytes b))"
    by (rule outside_content [OF 2(1)]) (use disj room in auto)
  then show ?thesis using 2 by (auto simp: copy_state_def)
qed

text \<open>The copies in the order the handler writes them, and the choice of the ROM in between.\<close>

lemma update_copies_safe:
  assumes "update_copies file sz slot (header_clear start b) b = (r, b')" and imf: "file_ok file src sz"
    and hdr: "image_has_header src" and fit: "length (src_bytes src) \<le> half"
    and start: "start = unat (slot_region_start slot)" and half: "half = unat (slot_region_size slot div 2)"
    and small: "512 \<le> half" "half < 2 ^ 32" and room: "start + 2 * half \<le> length (bd_bytes b)" "start + 2 * half < 2 ^ 64"
  shows "rom_safe src start half b b' \<and> copy_state src start half b b' \<and> copy_state src (start + half) half b b' \<and>
    (r = Ok () \<longrightarrow> holds_image src start b' \<and> holds_image src (start + half) b' \<and> bd_synced b' = bd_bytes b') \<and> r \<noteq> Abort"
proof -
  let ?fb = "part_desc slot ! 0" and ?pr = "part_desc slot ! 1"
  have fb: "unat (part_start ?fb) = start + half" "unat (part_size ?fb) = half"
    using room(2) by (simp_all add: part_desc_def Let_def start half unat_add_64)
  have pr: "unat (part_start ?pr) = start" "unat (part_size ?pr) = half"
    by (simp_all add: part_desc_def Let_def start half)
  have rooms: "start + half \<le> length (bd_bytes b)" "start + half + half \<le> length (bd_bytes b)" using room(1) by simp_all
  have apart: "start + half \<le> start + half \<or> start + half + half \<le> start" "start + half + half \<le> start \<or> start + half \<le> start + half"
    by simp_all
  have not_clear: "\<not> header_clear start c" if "holds_image src start c" "length (bd_bytes c) = length (bd_bytes b)" for c
    using holds_image_not_clear [OF that(1) hdr] that(2) fit room by simp
  show ?thesis
  proof (cases "header_clear start b")
    case False
    then have u: "io_bind (update_copy file sz ?fb) (\<lambda>_. update_copy file sz ?pr) b = (r, b')"
      using assms(1) by (simp add: update_copies_def)
    have rom: "rom_copy start half b = start" using False by (simp add: rom_copy_def)
    have "rom_safe src start half b b'"
    proof (cases rule: update_two_copies [OF u imf fit small fb pr rooms(2,1) apart(2)])
      case 1
      have "rom_copy start half b' = start"
        using outside_header [OF 1(1), of start] False small room by (simp add: rom_copy_def)
      then show ?thesis using outside_content [OF 1(1), of start half] room by (simp add: rom_safe_def rom)
    next
      case (2 b1)
      have len: "length (bd_bytes b') = length (bd_bytes b)" using 2(1,2) by (simp add: outside_def)
      have keep: "rom_copy start half b1 = start" "take half (drop start (bd_bytes b1)) = take half (drop start (bd_bytes b))"
        using outside_header [OF 2(1), of start] outside_content [OF 2(1), of start half] False small room by (simp_all add: rom_copy_def)
      from 2(3) show ?thesis
      proof (elim disjE conjE)
        assume eq: "bd_bytes b' = bd_bytes b1"
        then have "rom_copy start half b' = start" using keep(1) by (simp add: rom_copy_def header_clear_def)
        then show ?thesis using keep(2) eq by (simp add: rom_safe_def rom)
      next
        assume "header_zero start b'"
        then show ?thesis using 2(4) header_zero_clear by (simp add: rom_safe_def rom_copy_def)
      next
        assume "holds_image src start b'"
        then show ?thesis using not_clear [OF _ len] by (simp add: rom_safe_def rom_copy_def)
      qed
    qed
    with two_copies_state [OF u imf fit small fb pr rooms(2,1) apart(2)] show ?thesis by simp
  next
    case True
    then have u: "io_bind (update_copy file sz ?pr) (\<lambda>_. update_copy file sz ?fb) b = (r, b')"
      using assms(1) by (simp add: update_copies_def)
    have rom: "rom_copy start half b = start + half" using True by (simp add: rom_copy_def)
    have "rom_safe src start half b b'"
    proof (cases rule: update_two_copies [OF u imf fit small pr fb rooms apart(1)])
      case 1
      have len: "length (bd_bytes b') = length (bd_bytes b)" using 1(1) by (simp add: outside_def)
      have same: "take half (drop (start + half) (bd_bytes b')) = take half (drop (start + half) (bd_bytes b))"
        using outside_content [OF 1(1)] room by simp
      from 1(2) show ?thesis
      proof (elim disjE conjE)
        assume "bd_bytes b' = bd_bytes b"
        then show ?thesis using True by (simp add: rom_safe_def rom_copy_def header_clear_def)
      next
        assume "header_zero start b'"
        then show ?thesis using same rom header_zero_clear by (simp add: rom_safe_def rom_copy_def)
      next
        assume "holds_image src start b'"
        then show ?thesis using not_clear [OF _ len] by (simp add: rom_safe_def rom_copy_def)
      qed
    next
      case (2 b1)
      then have "length (bd_bytes b') = length (bd_bytes b)" by (simp add: outside_def)
      then show ?thesis using 2(4) not_clear by (simp add: rom_safe_def rom_copy_def)
    qed
    with two_copies_state [OF u imf fit small pr fb rooms apart(1)] show ?thesis by simp
  qed
qed

lemma image_matches_length:
  assumes "image_matches src sz"
  shows "length (src_bytes src) = unat sz" and "0 < unat sz"
proof -
  have "0 \<le> sint sz" "src_bytes src \<noteq> []" using assms by (auto simp: image_matches_def)
  then have "uint sz = sint sz" using sint_lt [of sz] by (simp add: uint_sint take_bit_int_eq_self)
  then show "length (src_bytes src) = unat sz" using assms nat_int [of "length (src_bytes src)"] by (simp add: image_matches_def unat_eq_nat_uint)
  then show "0 < unat sz" using \<open>src_bytes src \<noteq> []\<close> by (metis length_greater_0_conv)
qed

text \<open>Hooks that leave the device of the slot alone.\<close>

definition hook_keeps_device :: "(blk \<times> 'w) hook_runner \<Rightarrow> bool" where
  "hook_keeps_device run \<longleftrightarrow> (\<forall>h c env s. fst (snd (run h c env s)) = fst s)"

lemma run_slot_hook_keeps:
  "hook_keeps_device run \<Longrightarrow> preserves fst (run_slot_hook_extra_env run hc h c img slot vars)"
proof -
  assume keep: "hook_keeps_device run"
  have step: "preserves fst (\<lambda>s. case run x y z s of (p, s') \<Rightarrow> (proc_wait_check p, s'))" for x y z
    using keep by (simp add: preserves_def hook_keeps_device_def split_beta)
  show ?thesis
    by (cases "hs_name slot"; cases "hs_sclass slot")
      (simp_all add: run_slot_hook_extra_env_def preserves_basic preserves_bind step)
qed

lemma hooks_keep:
  "hook_keeps_device run \<Longrightarrow> preserves fst (pre_install_hook run hc h img slot vars)"
  "hook_keeps_device run \<Longrightarrow> preserves fst (post_install_hook run hc h img slot vars)"
  by (auto simp: pre_install_hook_def post_install_hook_def intro!: preserves_intros run_slot_hook_keeps)

lemma fallback_bootable:
  assumes run: "img_to_boot_raw_fallback_handler run hc file img slot hslot hook_name (b, w) = Some (r, b', w')"
    and imf: "file_ok file src (cs_size (img_checksum img))" and hdr: "image_has_header src"
    and hooks: "hook_keeps_device run"
    and region: "unat (slot_region_start slot) + unat (slot_region_size slot) \<le> length (bd_bytes b)"
      "length (bd_bytes b) < 2 ^ 63" "unat (slot_region_size slot) < 2 ^ 33"
  shows "rom_safe src (unat (slot_region_start slot)) (unat (slot_region_size slot) div 2) b b' \<and>
    copy_state src (unat (slot_region_start slot)) (unat (slot_region_size slot) div 2) b b' \<and>
    copy_state src (unat (slot_region_start slot) + unat (slot_region_size slot) div 2) (unat (slot_region_size slot) div 2) b b' \<and>
    (r = Ok () \<longrightarrow> holds_image src (unat (slot_region_start slot)) b' \<and>
      holds_image src (unat (slot_region_start slot) + unat (slot_region_size slot) div 2) b' \<and> bd_synced b' = bd_bytes b')"
proof -
  let ?start = "unat (slot_region_start slot)" and ?half = "unat (slot_region_size slot) div 2"
    and ?sz = "cs_size (img_checksum img)" and ?vars = "fallback_vars slot"
  have half: "?half = unat (slot_region_size slot div 2)" by (simp add: unat_div)
  have unchanged: "rom_safe src ?start ?half b b1 \<and> copy_state src ?start ?half b b1 \<and>
      copy_state src (?start + ?half) ?half b b1 \<and> r \<noteq> Ok ()" if "bd_bytes b1 = bd_bytes b" "r \<noteq> Ok ()" for b1
    using that by (simp add: rom_safe_def rom_copy_def header_clear_def copy_state_def)
  show ?thesis
  proof (cases "slot_region_start slot mod 512 \<noteq> 0 \<or> slot_region_size slot div 2 mod 512 \<noteq> 0 \<or> slot_region_size slot div 2 < ?sz")
    case True
    then have "b' = b" "r \<noteq> Ok ()" using run by (auto simp: img_to_boot_raw_fallback_handler_def Let_def)
    then show ?thesis using unchanged by simp
  next
    case False
    have "image_matches src ?sz" using imf by (simp add: file_ok_def)
    note img_len = image_matches_length [OF this]
    have fit: "length (src_bytes src) \<le> ?half" using False img_len half by (simp add: word_less_nat_alt)
    have "512 dvd ?half" using False by (simp add: half word_unat_eq_iff unat_mod dvd_eq_mod_eq_0)
    then have h512: "512 \<le> ?half" using fit img_len by (intro dvd_imp_le) simp_all
    obtain r1 b1 w1 where h1: "pre_install_hook run hc hook_name img hslot ?vars (b, w) = (r1, b1, w1)" by (metis prod_cases3)
    have b1: "b1 = b" using preservesD [OF hooks_keep(1) [OF hooks] h1] by simp
    show ?thesis
    proof (cases "\<exists>c. r1 = Ok () \<and> check_if_area_is_clear (slot_region_start slot) 512 b = Some (Ok c)")
      case no: False
      then have "b' = b" "r \<noteq> Ok ()"
        using run False h1 b1
        by (auto simp: img_to_boot_raw_fallback_handler_def Let_def split: result.splits option.splits)
      then show ?thesis using unchanged by simp
    next
      case True
      then obtain c where c: "r1 = Ok ()" "check_if_area_is_clear (slot_region_start slot) 512 b = Some (Ok c)" by blast
      have cc: "c = header_clear ?start b" using check_area_header [OF _ c(2)] h512 region(1) by simp
      obtain r2 b2 where u: "update_copies file ?sz slot (header_clear ?start b) b = (r2, b2)" by fastforce
      have safe: "rom_safe src ?start ?half b b2" "copy_state src ?start ?half b b2" "copy_state src (?start + ?half) ?half b b2"
          "r2 = Ok () \<longrightarrow> holds_image src ?start b2 \<and> holds_image src (?start + ?half) b2 \<and> bd_synced b2 = bd_bytes b2"
        using update_copies_safe [OF u imf hdr fit refl half h512] region by auto
      have "(r, b', w') = io_bind (on_device (update_copies file ?sz slot c)) (\<lambda>_. post_install_hook run hc hook_name img hslot ?vars) (b, w1)"
        using run False h1 b1 c by (simp add: img_to_boot_raw_fallback_handler_def Let_def)
      then have eq: "(r, b', w') = (case r2 of Ok _ \<Rightarrow> post_install_hook run hc hook_name img hslot ?vars (b2, w1)
          | Error e \<Rightarrow> (Error e, b2, w1) | Abort \<Rightarrow> (Abort, b2, w1))"
        using u cc by (simp add: io_bind_def on_device_def split: result.split)
      have b': "b' = b2"
      proof (cases "r2 = Ok ()")
        case True
        then have "post_install_hook run hc hook_name img hslot ?vars (b2, w1) = (r, b', w')" using eq by simp
        from preservesD [OF hooks_keep(2) [OF hooks] this] show ?thesis by simp
      next
        case False
        then show ?thesis using eq by (cases r2) simp_all
      qed
      have "r = Ok () \<longrightarrow> r2 = Ok ()" using eq by (cases r2) auto
      then show ?thesis using safe b' by simp
    qed
  qed
qed

lemma fallback_returns:
  assumes "unat (slot_region_start slot) + unat (slot_region_size slot) \<le> length (bd_bytes b)" and hooks: "hook_keeps_device run"
    and match: "image_matches src (cs_size (img_checksum img))"
  shows "\<exists>r b' w'. img_to_boot_raw_fallback_handler run hc file img slot hslot hook_name (b, w) = Some (r, b', w')"
proof (cases "slot_region_start slot mod 512 \<noteq> 0 \<or> slot_region_size slot div 2 mod 512 \<noteq> 0 \<or>
    slot_region_size slot div 2 < cs_size (img_checksum img)")
  case True
  then show ?thesis by (auto simp: img_to_boot_raw_fallback_handler_def Let_def)
next
  case False
  let ?half = "unat (slot_region_size slot div 2)"
  have "0 < ?half" using False image_matches_length(2) [OF match] by (simp add: word_less_nat_alt)
  moreover have "512 dvd ?half" using False by (simp add: word_unat_eq_iff unat_mod dvd_eq_mod_eq_0)
  ultimately have "512 \<le> ?half" by (intro dvd_imp_le)
  then have "unat (slot_region_start slot) + 512 \<le> length (bd_bytes b)" using assms(1) by (simp add: unat_div)
  then have check: "check_if_area_is_clear (slot_region_start slot) 512 b \<noteq> None"
    by (simp add: check_if_area_is_clear_def check_loop_header)
  obtain r1 b1 w1 where h1: "pre_install_hook run hc hook_name img hslot (fallback_vars slot) (b, w) = (r1, b1, w1)" by (metis prod_cases3)
  have "b1 = b" using preservesD [OF hooks_keep(1) [OF hooks] h1] by simp
  then show ?thesis
    using False h1 check
    by (auto simp: img_to_boot_raw_fallback_handler_def Let_def split: result.split option.split) (metis prod_cases3)
qed

text \<open>
  C21. A boot slot with a fallback copy stays bootable during an update by a ROM that behaves as
  \<open>docs/advanced.rst\<close> demands (\<open>rom_copy\<close>: it takes the first copy unless its header is clear). The update
  returns; and however it ends (the pattern of failing calls is arbitrary, so also when it is cut off
  between any two of them), the copy the ROM takes from what was written holds the complete new image,
  or is the copy it took before, unchanged. Each copy is unchanged, or its header is cleared, or it is
  complete; the header of a new copy is only written when the rest of it is synced. A successful update leaves
  the new image, synced, in both copies. This is for a region inside the device with halves below 4 GiB,
  an image file that is as long as the manifest says or cannot be opened, an image whose header is
  not clear itself, and hooks that leave the device alone. The clearing of a copy is not synced before the copy is
  written, so that the choice of the ROM is shown for the written and not for the synced content.
\<close>

theorem fallback_always_bootable:
  assumes imf: "file_ok file src (cs_size (img_checksum img))" and hdr: "image_has_header src"
    and hooks: "hook_keeps_device run"
    and region: "unat (slot_region_start slot) + unat (slot_region_size slot) \<le> length (bd_bytes b)"
      "length (bd_bytes b) < 2 ^ 63" "unat (slot_region_size slot) < 2 ^ 33"
  shows "\<exists>r b' w'. img_to_boot_raw_fallback_handler run hc file img slot hslot hook_name (b, w) = Some (r, b', w') \<and>
    rom_safe src (unat (slot_region_start slot)) (unat (slot_region_size slot) div 2) b b' \<and>
    copy_state src (unat (slot_region_start slot)) (unat (slot_region_size slot) div 2) b b' \<and>
    copy_state src (unat (slot_region_start slot) + unat (slot_region_size slot) div 2) (unat (slot_region_size slot) div 2) b b' \<and>
    (r = Ok () \<longrightarrow> holds_image src (unat (slot_region_start slot)) b' \<and>
      holds_image src (unat (slot_region_start slot) + unat (slot_region_size slot) div 2) b' \<and> bd_synced b' = bd_bytes b')"
proof -
  have "image_matches src (cs_size (img_checksum img))" using imf by (simp add: file_ok_def)
  then obtain r b' w' where run: "img_to_boot_raw_fallback_handler run hc file img slot hslot hook_name (b, w) = Some (r, b', w')"
    using fallback_returns [OF region(1) hooks] by blast
  from fallback_bootable [OF run imf hdr hooks region] run show ?thesis by blast
qed

definition boot_demo_image :: rauc_image where
  "boot_demo_image = r_new_image\<lparr>img_checksum := checksum_new0\<lparr>cs_size := 600\<rparr>\<rparr>"

definition boot_demo_source :: image_source where
  "boot_demo_source = \<lparr>src_bytes = replicate 600 7, src_error = None\<rparr>"

definition boot_demo_slot :: rauc_slot where
  "boot_demo_slot = (slot_new0 ''boot.0'' ''boot'')\<lparr>slot_region_start := 1024, slot_region_size := 2048\<rparr>"

definition boot_demo_hooks :: "(blk \<times> unit) hook_runner" where
  "boot_demo_hooks h c env s = (Exited 0 [], s)"

text \<open>A device with a partition table, behind it nothing but ones, and writes that fail from the fifth on.\<close>

definition boot_demo_device :: blk where
  "boot_demo_device = mbr_demo\<lparr>bd_bytes := bd_bytes mbr_demo @ replicate 2600 1, bd_faults := (\<lambda>k. 4 < k)\<rparr>"

definition boot_demo_context :: hook_context where
  "boot_demo_context = \<lparr>hc_compatible = None, hc_variant = None, hc_mount_prefix = [], hc_bundle = []\<rparr>"

lemma boot_demo_facts:
  "file_ok (Ok boot_demo_source) boot_demo_source (cs_size (img_checksum boot_demo_image))"
  "hook_keeps_device boot_demo_hooks" "length (bd_bytes boot_demo_device) = 3112"
  "slot_region_start boot_demo_slot = 1024" "slot_region_size boot_demo_slot = 2048"
  by (simp_all add: file_ok_def image_matches_def boot_demo_source_def boot_demo_image_def hook_keeps_device_def
      boot_demo_hooks_def boot_demo_device_def boot_demo_slot_def mbr_demo_entries(1))

theorem fallback_always_bootable_witness:
  "\<exists>r b' w'. img_to_boot_raw_fallback_handler boot_demo_hooks boot_demo_context (Ok boot_demo_source) boot_demo_image boot_demo_slot
      (hook_slot_of [] boot_demo_slot) None (boot_demo_device, ()) = Some (r, b', w') \<and> rom_safe boot_demo_source 1024 1024 boot_demo_device b'"
proof -
  have "image_has_header boot_demo_source"
    by (auto simp: image_has_header_def boot_demo_source_def intro!: exI [of _ 0])
  then show ?thesis
    using fallback_always_bootable [OF boot_demo_facts(1) _ boot_demo_facts(2), of boot_demo_slot boot_demo_device boot_demo_context
        "hook_slot_of [] boot_demo_slot" None "()"]
      boot_demo_facts(3-5) by auto
qed

subsection \<open>Switching the boot partition\<close>

text \<open>The part of the handler between the hooks.\<close>

lemma clear_and_write:
  assumes "io_bind (clear_boot_switch_partition p) (\<lambda>_. write_boot_switch_partition file sz p 0) b = (r, b')"
    and imf: "file_ok file src sz" and fit: "length (src_bytes src) \<le> unat (part_size p)"
    and small: "unat (part_size p) < 2 ^ 32" and room: "unat (part_start p) + unat (part_size p) \<le> length (bd_bytes b)"
  shows "outside (unat (part_start p)) (unat (part_start p) + unat (part_size p)) b b' \<and> r \<noteq> Abort \<and>
    (r = Ok () \<longrightarrow> holds_image src (unat (part_start p)) b')"
proof -
  let ?pos = "unat (part_start p)" and ?size = "unat (part_size p)"
  obtain r1 b1 where c: "clear_boot_switch_partition p b = (r1, b1)" by fastforce
  obtain d where d: "written ?pos (replicate d 0) b b1" "d \<le> ?size" "r1 \<noteq> Abort"
    using clear_partition_written [OF c small room] by blast
  have out1: "outside ?pos (?pos + ?size) b b1" using written_is_outside [OF d(1)] d(2) by simp
  show ?thesis
  proof (cases "r1 = Ok ()")
    case False
    then have "b' = b1" "r \<noteq> Ok ()" "r \<noteq> Abort" using assms(1) c d(3) by (cases r1; auto simp: io_bind_def)+
    then show ?thesis using out1 by simp
  next
    case True
    then have w: "write_boot_switch_partition file sz p 0 b1 = (r, b')" using assms(1) c by (simp add: io_bind_def)
    consider (err) e where "file = Error e" | (ok) "file = Ok src" using imf by (auto simp: file_ok_def)
    then show ?thesis
    proof cases
      case err
      then show ?thesis using write_partition_error [of e sz p 0 b1 r b'] w out1 by simp
    next
      case ok
      have match: "image_matches src sz" using imf by (simp add: file_ok_def)
      have "?pos + length (src_bytes src) \<le> length (bd_bytes b1)" using fit room written_length [OF d(1)] by simp
      from write_partition_written [OF w [unfolded ok] match this]
      have res: "(\<exists>m. written ?pos (take m (src_bytes src)) b1 b') \<and> r \<noteq> Ok () \<or> written ?pos (src_bytes src) b1 b'"
        and na: "r \<noteq> Abort" by auto
      from res show ?thesis
      proof (elim disjE conjE exE)
        fix m
        assume m: "written ?pos (take m (src_bytes src)) b1 b'" and no: "r \<noteq> Ok ()"
        have "outside ?pos (?pos + ?size) b1 b'" using fit by (intro written_is_outside [OF m]) auto
        then show ?thesis using outside_trans [OF out1] na no by simp
      next
        assume whole: "written ?pos (src_bytes src) b1 b'"
        then have "outside ?pos (?pos + ?size) b1 b'" using fit by (intro written_is_outside) auto
        then show ?thesis
          using outside_trans [OF out1] na written_inside [OF whole] by (simp add: holds_image_def)
      qed
    qed
  qed
qed

lemma io_bind_assoc: "io_bind (io_bind m f) g = io_bind m (\<lambda>x. io_bind (f x) g)"
  by (rule ext) (simp add: io_bind_def split: prod.split result.split)

lemma on_device_bind: "io_bind (on_device m) (\<lambda>x. on_device (k x)) = on_device (io_bind m k)"
  by (rule ext) (simp add: io_bind_def on_device_def split: prod.split result.split)

text \<open>The handler once the partition has been found, in the steps the property talks about.\<close>

lemma mbr_handler_steps:
  assumes run: "img_to_boot_mbr_switch_handler run hc file img slot hslot hook_name (b, w) = (r, b', w')"
    and get: "r_mbr_switch_get_inactive_partition b (slot_region_start slot) (slot_region_size slot) = Ok p"
    and hooks: "hook_keeps_device run"
  obtains (early) "b' = b" "r \<noteq> Ok ()"
  | (copy) r1 where "io_bind (clear_boot_switch_partition p)
        (\<lambda>_. write_boot_switch_partition file (cs_size (img_checksum img)) p 0) b = (r1, b')" "r \<noteq> Ok ()"
      "\<not> part_size p < cs_size (img_checksum img)"
  | (switch) b2 where "io_bind (clear_boot_switch_partition p)
        (\<lambda>_. write_boot_switch_partition file (cs_size (img_checksum img)) p 0) b = (Ok (), b2)"
      "r_mbr_switch_set_boot_partition p b2 = (r, b')" "\<not> part_size p < cs_size (img_checksum img)"
proof -
  let ?sz = "cs_size (img_checksum img)" and ?vars = "switch_vars (slot_region_start slot) p"
  let ?cw = "io_bind (clear_boot_switch_partition p) (\<lambda>_. write_boot_switch_partition file ?sz p 0)"
  show thesis
  proof (cases "part_size p < ?sz")
    case True
    then show ?thesis
      using run get by (intro early) (auto simp: img_to_boot_mbr_switch_handler_def boot_switch_handler_def io_bind_def io_lift_def
          Let_def io_fail_def)
  next
    case False
    obtain r1 b1 w1 where h1: "pre_install_hook run hc hook_name img hslot ?vars (b, w) = (r1, b1, w1)" by (metis prod_cases3)
    have b1: "b1 = b" using preservesD [OF hooks_keep(1) [OF hooks] h1] by simp
    have eq: "(r, b', w') = io_bind (pre_install_hook run hc hook_name img hslot ?vars) (\<lambda>_.
        io_bind (on_device ?cw) (\<lambda>_. io_bind (post_install_hook run hc hook_name img hslot ?vars)
          (\<lambda>_. on_device (r_mbr_switch_set_boot_partition p)))) (b, w)"
      using run get False
      by (simp add: img_to_boot_mbr_switch_handler_def boot_switch_handler_def Let_def io_bind_assoc
          flip: on_device_bind) (simp add: io_bind_def io_lift_def)
    show ?thesis
    proof (cases "r1 = Ok ()")
      case no: False
      then have "b' = b" "r \<noteq> Ok ()" using eq h1 b1 by (cases r1; simp add: io_bind_def)+
      then show ?thesis by (rule early)
    next
      case True
      obtain r2 b2 where cw: "?cw b = (r2, b2)" by fastforce
      have eq2: "(r, b', w') = (case r2 of Ok _ \<Rightarrow> io_bind (post_install_hook run hc hook_name img hslot ?vars)
          (\<lambda>_. on_device (r_mbr_switch_set_boot_partition p)) (b2, w1) | Error e \<Rightarrow> (Error e, b2, w1) | Abort \<Rightarrow> (Abort, b2, w1))"
        using eq h1 b1 True cw by (simp add: io_bind_def [of "pre_install_hook run hc hook_name img hslot ?vars"]
            io_bind_def [of "on_device ?cw"] on_device_def [of ?cw] split: result.split)
      show ?thesis
      proof (cases "r2 = Ok ()")
        case no: False
        then have "b' = b2" "r \<noteq> Ok ()" using eq2 by (cases r2; simp)+
        then show ?thesis using cw False by (intro copy [of r2]) simp_all
      next
        case ok: True
        obtain r3 b3 w3 where h3: "post_install_hook run hc hook_name img hslot ?vars (b2, w1) = (r3, b3, w3)" by (metis prod_cases3)
        have b3: "b3 = b2" using preservesD [OF hooks_keep(2) [OF hooks] h3] by simp
        show ?thesis
        proof (cases "r3 = Ok ()")
          case no: False
          then have "b' = b2" "r \<noteq> Ok ()" using eq2 ok h3 b3 by (cases r3; simp add: io_bind_def)+
          then show ?thesis using cw False by (intro copy [of r2]) simp_all
        next
          case True
          then have "r_mbr_switch_set_boot_partition p b2 = (r, b')"
            using eq2 ok h3 b3 by (cases "r_mbr_switch_set_boot_partition p b2") (simp add: io_bind_def on_device_def)
          then show ?thesis using cw ok False by (intro switch [of b2]) simp_all
        qed
      qed
    qed
  qed
qed

text \<open>
  C22. An update of a switched boot partition never touches the active one. Whatever the outcome, no
  byte of the half the boot entry points to changes, nor any byte outside the inactive half and the
  boot entry. If the update does not succeed the partition table is unchanged, and if it succeeds the
  boot entry points to the other half, which holds the image. This is for halves below 4 GiB in a
  region inside the device (from 4 GiB on the clearing overruns the half, see below), an image file that
  is as long as the manifest says or cannot be opened (a longer one is written beyond the half), and
  hooks that leave the device alone.
\<close>

theorem mbr_update_safe:
  assumes run: "img_to_boot_mbr_switch_handler run hc file img slot hslot hook_name (b, w) = (r, b', w')"
    and get: "r_mbr_switch_get_inactive_partition b (slot_region_start slot) (slot_region_size slot) = Ok p"
    and imf: "file_ok file src (cs_size (img_checksum img))" and hooks: "hook_keeps_device run"
    and s: "sector_size_ok (bd_sector_size b)"
    and region: "unat (slot_region_start slot) + unat (slot_region_size slot) \<le> length (bd_bytes b)"
      "length (bd_bytes b) < 2 ^ 63" "unat (slot_region_size slot) < 2 ^ 33"
  shows "(\<forall>j < length (bd_bytes b). (j < 446 \<or> 462 \<le> j) \<and> (j < unat (part_start p) \<or> unat (part_start p) + unat (part_size p) \<le> j)
      \<longrightarrow> bd_bytes b' ! j = bd_bytes b ! j) \<and>
    (\<forall>j. boot_address b \<le> j \<and> j < boot_address b + unat (slot_region_size slot) div 2 \<longrightarrow> bd_bytes b' ! j = bd_bytes b ! j) \<and>
    (r \<noteq> Ok () \<longrightarrow> (\<forall>j < 512. bd_bytes b' ! j = bd_bytes b ! j)) \<and>
    (r = Ok () \<longrightarrow> boot_address b' = unat (part_start p) \<and> holds_image src (unat (part_start p)) b')"
proof -
  let ?start = "unat (slot_region_start slot)" and ?size = "unat (slot_region_size slot)" and ?s = "unat (bd_sector_size b)"
    and ?p = "unat (part_start p)" and ?h = "unat (part_size p)"
  have wrap: "?start + ?size < 2 ^ 64" using region by simp
  obtain n :: "32 word" where facts: "512 \<le> ?start" "2 * (?size div 2) = ?size" "?h = ?size div 2"
      "?p = ?start \<and> boot_address b = ?start + ?size div 2 \<or> ?p = ?start + ?size div 2 \<and> boot_address b = ?start"
    and n: "?start + ?size < unat n * ?s" "?s dvd ?p"
  proof (rule inactive_partition_facts [OF get s wrap])
    fix n :: "32 word"
    assume a: "512 \<le> ?start" "0 < ?size" "?s dvd ?start" "2 * ?s dvd ?size" "?start + ?size < unat n * ?s"
      "part_size p = slot_region_size slot div 2"
      "part_start p = slot_region_start slot + slot_region_size slot div 2 \<and> boot_address b = ?start \<or>
        part_start p = slot_region_start slot \<and> boot_address b = ?start + ?size div 2"
    have half: "unat (slot_region_start slot + slot_region_size slot div 2) = ?start + ?size div 2"
      using wrap by (simp add: unat_add_64 unat_div)
    have "?s dvd ?size div 2" using a(4) by (metis dvd_mult_div_cancel dvd_times_left_cancel_iff dvd_mult_left zero_neq_numeral)
    then show ?thesis
      using a half by (intro that [of n]) (auto simp: unat_div dest: dvd_mult_left)
  qed
  have room: "?p + ?h \<le> length (bd_bytes b)" using facts region(1) by auto
  have fits: "length (src_bytes src) \<le> ?h" if "\<not> part_size p < cs_size (img_checksum img)"
    using image_matches_length(1) [of src "cs_size (img_checksum img)"] imf that by (simp add: file_ok_def word_less_nat_alt)
  have small: "?h < 2 ^ 32" using facts(3) region(3) by simp
  have inactive: "j < ?p \<or> ?p + ?h \<le> j" if "boot_address b \<le> j \<and> j < boot_address b + ?size div 2 \<or> j < 512" for j
    using that facts by auto
  have within: "j < length (bd_bytes b)" if "boot_address b \<le> j \<and> j < boot_address b + ?size div 2 \<or> j < 512" for j
    using that facts region(1) by auto
  have behind: "462 \<le> j" if "boot_address b \<le> j" for j using that facts by auto
  show ?thesis
  proof (cases rule: mbr_handler_steps [OF run get hooks])
    case 1
    then show ?thesis by simp
  next
    case (2 r1)
    have "outside ?p (?p + ?h) b b'" using clear_and_write [OF 2(1) imf fits [OF 2(3)] small room] by simp
    then show ?thesis using 2(2) inactive within by (auto simp: outside_def)
  next
    case (3 b2)
    note cw = clear_and_write [OF 3(1) imf fits [OF 3(3)] small room]
    then have out: "outside ?p (?p + ?h) b b2" and img: "holds_image src ?p b2" by auto
    have params: "bd_sector_size b2 = bd_sector_size b" "length (bd_bytes b2) = length (bd_bytes b)"
      using out by (simp_all add: outside_def same_params_def)
    show ?thesis
    proof (cases "r = Ok ()")
      case False
      then have "bd_bytes b' = bd_bytes b2" using set_boot_partition_effect(2) [OF 3(2)] by simp
      then show ?thesis using False out inactive within by (auto simp: outside_def)
    next
      case True
      have "?p < unat n * ?s" using facts n(1) by auto
      then have "?p div ?s < unat n" by (simp add: less_mult_imp_div_less)
      then have "?p div unat (bd_sector_size b2) < 2 ^ 32" using unat_less_32 [of n] by (simp add: params)
      note eff = set_boot_address [OF 3(2) [unfolded True] _ this]
      have dvd: "unat (bd_sector_size b2) dvd ?p" using n(2) by (simp add: params)
      have keep: "bd_bytes b' ! j = bd_bytes b2 ! j" if "j < 446 \<or> 462 \<le> j" "j < length (bd_bytes b)" for j
        using eff(5) [OF dvd that(1)] that(2) by (simp add: params)
      have "512 \<le> ?p" using facts by auto
      then have "holds_image src ?p b'"
        using img keep fits [OF 3(3)] room eff(4) [OF dvd] params(2)
        unfolding holds_image_def by (auto simp: list_eq_iff_nth_eq)
      moreover have act: "bd_bytes b2 ! j = bd_bytes b ! j" if "boot_address b \<le> j \<and> j < boot_address b + ?size div 2" for j
        using out inactive [of j] within [of j] that unfolding outside_def by blast
      ultimately show ?thesis
        using True eff(1) [OF dvd] keep out within behind by (auto simp: outside_def)
    qed
  qed
qed

lemma boot_demo_inactive: "r_mbr_switch_get_inactive_partition boot_demo_device 1024 2048 = Ok mbr_demo_part"
proof -
  have "take 512 (bd_bytes boot_demo_device) = bd_bytes mbr_demo"
    by (simp add: boot_demo_device_def mbr_demo_entries(1))
  moreover have "take 512 (bd_bytes mbr_demo) = bd_bytes mbr_demo" by (simp add: mbr_demo_entries(1))
  ultimately have same: "read_mbr boot_demo_device = read_mbr mbr_demo"
    using boot_demo_facts(3) mbr_demo_entries(1) by (simp add: read_mbr_def)
  have params: "get_sectorsize boot_demo_device = get_sectorsize mbr_demo"
      "get_number_of_sectors boot_demo_device = get_number_of_sectors mbr_demo"
    by (simp_all add: get_sectorsize_def get_number_of_sectors_def boot_demo_device_def)
  show ?thesis
    using mbr_demo_inactive unfolding r_mbr_switch_get_inactive_partition_def validate_region_def same params .
qed

theorem mbr_update_safe_witness:
  "\<exists>r b' w'. img_to_boot_mbr_switch_handler boot_demo_hooks boot_demo_context (Ok boot_demo_source) boot_demo_image boot_demo_slot
      (hook_slot_of [] boot_demo_slot) None (boot_demo_device, ()) = (r, b', w') \<and> bd_bytes b' ! 1500 = 1"
proof -
  obtain r b' w' where run: "img_to_boot_mbr_switch_handler boot_demo_hooks boot_demo_context (Ok boot_demo_source) boot_demo_image
      boot_demo_slot (hook_slot_of [] boot_demo_slot) None (boot_demo_device, ()) = (r, b', w')"
    by (metis prod_cases3)
  have get: "r_mbr_switch_get_inactive_partition boot_demo_device (slot_region_start boot_demo_slot)
      (slot_region_size boot_demo_slot) = Ok mbr_demo_part"
    using boot_demo_inactive by (simp add: boot_demo_facts)
  have sector: "sector_size_ok (bd_sector_size boot_demo_device)"
    using mbr_demo_sector by (simp add: boot_demo_device_def)
  have "bd_bytes b' ! 1500 = bd_bytes boot_demo_device ! 1500"
    using mbr_update_safe [OF run get boot_demo_facts(1,2) sector] boot_demo_facts by (simp add: mbr_demo_part_def)
  moreover have "bd_bytes boot_demo_device ! 1500 = 1"
    by (simp add: boot_demo_device_def nth_append mbr_demo_entries(1))
  ultimately show ?thesis using run by auto
qed

text \<open>
  C40. The counter of \<open>clear_boot_switch_partition\<close> has 32 bits. For a partition of 4 GiB or more it
  never reaches the size: the loop clears the device from the start of the partition to its end,
  the partitions behind it included, and then fails.
\<close>

theorem clear_overruns_partition:
  assumes "unat (part_size p) \<ge> 2 ^ 32" and "bd_openable b" and "\<And>k. \<not> bd_faults b k"
    and "unat (part_start p) < length (bd_bytes b)"
  shows "fst (clear_boot_switch_partition p b) = Error UPDATE_FAILED \<and>
    (\<forall>j. unat (part_start p) \<le> j \<and> j < length (bd_bytes b) \<longrightarrow> bd_bytes (snd (clear_boot_switch_partition p b)) ! j = 0)"
proof -
  obtain cc b' where loop: "clear_loop (part_size p) 512 0 (unat (part_start p)) b = (cc, b')" by fastforce
  have w: "written (unat (part_start p)) (replicate (length (bd_bytes b) - unat (part_start p)) 0) b b'"
    using clear_loop_overrun [OF loop] assms by simp
  have "unat cc < 2 ^ 32" by (rule unat_less_32)
  then have ne: "ucast cc \<noteq> part_size p" using assms(1) by (auto simp: word_unat_eq_iff)
  have "clear_boot_switch_partition p b = (Error UPDATE_FAILED, b')"
    using assms loop ne by (simp add: clear_boot_switch_partition_def io_bind_def blk_open_def blk_seek_def)
  then show ?thesis using w assms(4) by (auto simp: written_def nth_overwrite)
qed

theorem clear_overruns_partition_witness:
  "fst (clear_boot_switch_partition \<lparr>part_start = 500, part_size = 4294967296\<rparr> mbr_demo) = Error UPDATE_FAILED"
proof -
  have "fst (clear_boot_switch_partition \<lparr>part_start = 500, part_size = 4294967296\<rparr> mbr_demo) = Error UPDATE_FAILED \<and>
    (\<forall>j. unat (part_start \<lparr>part_start = 500, part_size = 4294967296\<rparr>) \<le> j \<and> j < length (bd_bytes mbr_demo) \<longrightarrow>
       bd_bytes (snd (clear_boot_switch_partition \<lparr>part_start = 500, part_size = 4294967296\<rparr> mbr_demo)) ! j = 0)"
    by (rule clear_overruns_partition) (simp_all add: mbr_demo_def to_le32_def)
  then show ?thesis by simp
qed

end
