(* ===== verification/Hash_Index.thy ===== *)
theory Hash_Index
  imports Mount "HOL-Library.Product_Lexorder"
begin

text \<open>
  The block hash index of adaptive updates (\<open>src/src/hash_index.c\<close>): for every 4096 byte chunk of
  an image or device its SHA-256 hash, and a table of the chunk numbers sorted by hash that is
  searched by bisection.

  An open file or device is a number (a duplicated descriptor has the number of the original) and
  its content a list of chunks. A chunk that cannot be read is the error of \<open>pread\<close>;
  \<open>dev_write_errors\<close> says for which chunks \<open>pwrite\<close> fails and what they hold afterwards. SHA-256 is a
  parameter. The access statistics (\<open>stats.c\<close>) have no influence and are left out. A value of type
  \<open>option\<close> is \<open>None\<close> when the search does not return.

  The products with \<open>SHA256_LEN\<close> are 32 bit wide as in the code, so that the hash table has
  \<open>unat (count * 32)\<close> bytes and the comparison of the sort reads the row \<open>unat (i * 32) div 32\<close>.
\<close>

subsection \<open>Data\<close>

type_synonym chunk = "8 word list"
type_synonym hash = "8 word list"

text \<open>The content of an index file: its rows and the bytes behind the last complete row.\<close>

type_synonym index_file = "hash list \<times> 8 word list"

record device =
  dev_size :: "64 word"
  dev_chunks :: "(g_file_error + chunk) list"
  dev_write_errors :: "nat \<Rightarrow> (g_file_error \<times> chunk) option"

type_synonym devices = "nat \<Rightarrow> device"

record hash_index =
  hi_label :: string
  hi_data_fd :: nat
  hi_count :: "32 word"
  hi_hashes :: "hash list"
  hi_rest :: "8 word list"
  hi_lookup :: "32 word list"
  hi_invalid_below :: "32 word"
  hi_invalid_from :: "32 word"
  hi_skip_hash_check :: bool

abbreviation G_MAXUINT32 :: "32 word" where
  "G_MAXUINT32 \<equiv> - 1"

abbreviation SHA256_LEN :: "32 word" where
  "SHA256_LEN \<equiv> 32"

abbreviation R_HASH_INDEX_GEN_PROGRESS_SPAN :: "32 word" where
  "R_HASH_INDEX_GEN_PROGRESS_SPAN \<equiv> 10"

text \<open>The files an index is opened from: \<open>g_open\<close>, the mapping of an index file (\<open>None\<close> when it is no
  regular file), \<open>write_file\<close> and whether \<open>fsync\<close> succeeds.\<close>

record 'w index_files =
  if_open :: "string \<Rightarrow> bool \<Rightarrow> ('w, nat) io"
  if_map :: "string \<Rightarrow> 'w \<Rightarrow> index_file result option"
  if_write :: "string \<Rightarrow> index_file \<Rightarrow> ('w, unit) io"
  if_fsync :: "nat \<Rightarrow> 'w \<Rightarrow> bool"

subsection \<open>Chunks on devices\<close>

definition r_pread_exact :: "devices \<Rightarrow> nat \<Rightarrow> nat \<Rightarrow> chunk result" where
  "r_pread_exact devs fd i =
     (if i < length (dev_chunks (devs fd))
      then case dev_chunks (devs fd) ! i of Inr c \<Rightarrow> Ok c | Inl e \<Rightarrow> Error (G_FILE_ERROR e)
      else Error (G_FILE_ERROR G_FILE_ERROR_FAILED))"

definition set_chunk :: "nat \<Rightarrow> nat \<Rightarrow> chunk \<Rightarrow> devices \<Rightarrow> devices" where
  "set_chunk fd i c devs = devs(fd := (devs fd)\<lparr>dev_chunks := (dev_chunks (devs fd))[i := Inr c]\<rparr>)"

definition r_pwrite_exact :: "nat \<Rightarrow> chunk \<Rightarrow> nat \<Rightarrow> (devices, unit) io" where
  "r_pwrite_exact fd c i devs = (case dev_write_errors (devs fd) i of
      Some (e, c') \<Rightarrow> (Error (G_FILE_ERROR e), set_chunk fd i c' devs)
    | None \<Rightarrow> (Ok (), set_chunk fd i c devs))"

definition r_pwrite_lazy :: "nat \<Rightarrow> chunk \<Rightarrow> nat \<Rightarrow> (devices, unit) io" where
  "r_pwrite_lazy fd c i devs = (case r_pread_exact devs fd i of
      Ok c' \<Rightarrow> if c = c' then (Ok (), devs) else r_pwrite_exact fd c i devs
    | Error e \<Rightarrow> (Error e, devs)
    | Abort \<Rightarrow> (Abort, devs))"

subsection \<open>Building an index\<close>

text \<open>\<open>off_t\<close> is signed; a negative size stands for a failing \<open>lseek\<close>.\<close>

definition get_chunk_count :: "devices \<Rightarrow> nat \<Rightarrow> 32 word result" where
  "get_chunk_count devs fd =
     (let sz = sint (dev_size (devs fd)) in
      if sz < 0 then Error (G_FILE_ERROR G_FILE_ERROR_FAILED)
      else if sz = 0 then Error (R_HASH_INDEX_ERROR R_HASH_INDEX_ERROR_SIZE)
      else if sz div 4096 > uint G_MAXUINT32 then Error (R_HASH_INDEX_ERROR R_HASH_INDEX_ERROR_SIZE)
      else if sz mod 4096 \<noteq> 0 then Error (R_HASH_INDEX_ERROR R_HASH_INDEX_ERROR_SIZE)
      else Ok (of_int (sz div 4096)))"

text \<open>
  Hashing a file chunk by chunk. The row of a chunk is written to a table of \<open>count * SHA256_LEN\<close>
  bytes. While progress is reported, the remainder by \<open>count / (R_HASH_INDEX_GEN_PROGRESS_SPAN - 1)\<close>
  is taken, which faults when that is zero.
\<close>

fun hash_loop :: "(chunk \<Rightarrow> hash) \<Rightarrow> bool \<Rightarrow> devices \<Rightarrow> nat \<Rightarrow> 32 word \<Rightarrow> nat list \<Rightarrow> hash list result" where
  "hash_loop sha progress devs fd count [] = Ok []"
| "hash_loop sha progress devs fd count (i # is) =
     result_bind (r_pread_exact devs fd i) (\<lambda>c.
       if unat (of_nat i * SHA256_LEN) + 32 > unat (count * SHA256_LEN) then Abort
       else if progress \<and> count div (R_HASH_INDEX_GEN_PROGRESS_SPAN - 1) = 0 then Abort
       else result_bind (hash_loop sha progress devs fd count is) (\<lambda>hs. Ok (sha c # hs)))"

definition hash_file :: "(chunk \<Rightarrow> hash) \<Rightarrow> bool \<Rightarrow> devices \<Rightarrow> nat \<Rightarrow> 32 word \<Rightarrow> hash list result" where
  "hash_file sha progress devs fd count = hash_loop sha progress devs fd count [0..<unat count]"

fun memcmp :: "8 word list \<Rightarrow> 8 word list \<Rightarrow> int" where
  "memcmp (a # as) (b # bs) = (if a = b then memcmp as bs else uint a - uint b)"
| "memcmp _ _ = 0"

definition intcmp :: "32 word \<Rightarrow> 32 word \<Rightarrow> int" where
  "intcmp a b = (if a < b then - 1 else if a > b then 1 else 0)"

definition lookup_compare_sort :: "hash list \<Rightarrow> 32 word \<Rightarrow> 32 word \<Rightarrow> int" where
  "lookup_compare_sort hashes a b =
     (let res = memcmp (hashes ! (unat (a * SHA256_LEN) div 32)) (hashes ! (unat (b * SHA256_LEN) div 32))
      in if res \<noteq> 0 then res else intcmp a b)"

text \<open>\<open>qsort_r\<close>: the comparison never gives 0 for different elements here, so the result does not
  depend on the algorithm.\<close>

fun insert_by :: "('a \<Rightarrow> 'a \<Rightarrow> int) \<Rightarrow> 'a \<Rightarrow> 'a list \<Rightarrow> 'a list" where
  "insert_by cmp x [] = [x]"
| "insert_by cmp x (y # ys) = (if cmp x y \<le> 0 then x # y # ys else y # insert_by cmp x ys)"

definition qsort_r :: "('a \<Rightarrow> 'a \<Rightarrow> int) \<Rightarrow> 'a list \<Rightarrow> 'a list" where
  "qsort_r cmp xs = foldr (insert_by cmp) xs []"

definition build_lookup :: "hash list \<Rightarrow> 32 word list" where
  "build_lookup hashes =
     qsort_r (lookup_compare_sort hashes) (map of_nat [0..<unat (of_nat (length hashes) :: 32 word)])"

definition hash_index_prepare :: "hash_index \<Rightarrow> hash_index" where
  "hash_index_prepare idx = idx\<lparr>hi_lookup := build_lookup (hi_hashes idx), hi_invalid_below := 0,
     hi_invalid_from := G_MAXUINT32\<rparr>"

definition r_hash_index_open :: "(chunk \<Rightarrow> hash) \<Rightarrow> bool \<Rightarrow> devices \<Rightarrow> string \<Rightarrow> nat \<Rightarrow> index_file result option
    \<Rightarrow> hash_index result" where
  "r_hash_index_open sha progress devs label fd mapped =
     result_bind (get_chunk_count devs fd) (\<lambda>count.
     result_bind (case mapped of
         None \<Rightarrow> result_bind (hash_file sha progress devs fd count) (\<lambda>hs. Ok (hs, [], count))
       | Some f \<Rightarrow> result_bind f (\<lambda>(hs, rest).
           let mapped_size = 32 * length hs + length rest in
           if \<not> mapped_size < unat G_MAXUINT32 then Abort
           else Ok (hs, rest, if mapped_size div 32 < unat count then of_nat (mapped_size div 32) else count)))
       (\<lambda>(hs, rest, count).
         Ok (hash_index_prepare \<lparr>hi_label = label, hi_data_fd = fd, hi_count = count, hi_hashes = hs, hi_rest = rest,
           hi_lookup = [], hi_invalid_below = 0, hi_invalid_from = 0, hi_skip_hash_check = False\<rparr>)))"

definition r_hash_index_reuse :: "devices \<Rightarrow> string \<Rightarrow> hash_index \<Rightarrow> nat \<Rightarrow> hash_index result" where
  "r_hash_index_reuse devs label idx new_fd =
     result_bind (get_chunk_count devs new_fd) (\<lambda>count.
       let count = (if count > hi_count idx then hi_count idx else count) in
       if unat (count * SHA256_LEN) > 32 * length (hi_hashes idx) then Abort
       else Ok (hash_index_prepare \<lparr>hi_label = label @ '' (reusing '' @ hi_label idx @ '')'', hi_data_fd = new_fd,
         hi_count = count, hi_hashes = take (unat (count * SHA256_LEN) div 32) (hi_hashes idx), hi_rest = [], hi_lookup = [],
         hi_invalid_below = 0, hi_invalid_from = 0, hi_skip_hash_check = False\<rparr>))"

text \<open>The descriptor of the device or image goes with the index.\<close>

definition r_hash_index_open_slot :: "(chunk \<Rightarrow> hash) \<Rightarrow> bool \<Rightarrow> 'w index_files \<Rightarrow> 'w os \<Rightarrow> string \<Rightarrow> rauc_slot \<Rightarrow> bool
    \<Rightarrow> (devices \<times> 'w, hash_index) io" where
  "r_hash_index_open_slot sha progress fs os label slot rdwr =
     io_bind (in_world (if_open fs (slot_device slot) rdwr)) (\<lambda>fd.
     io_bind (in_world (r_slot_get_checksum_data_directory os slot None)) (\<lambda>dir. case dir of
         None \<Rightarrow> io_fail ERROR_UNSET
       | Some d \<Rightarrow> (\<lambda>(devs, w).
           (r_hash_index_open sha progress devs label fd (if_map fs (g_build_filename d ''block-hash-index'') w), devs, w))))"

definition r_hash_index_open_image :: "(chunk \<Rightarrow> hash) \<Rightarrow> bool \<Rightarrow> 'w index_files \<Rightarrow> string \<Rightarrow> string
    \<Rightarrow> (devices \<times> 'w, hash_index) io" where
  "r_hash_index_open_image sha progress fs label filename =
     io_bind (in_world (if_open fs filename False)) (\<lambda>fd (devs, w).
       (r_hash_index_open sha progress devs label fd (if_map fs (filename @ ''.block-hash-index'') w), devs, w))"

definition r_hash_index_export :: "'w index_files \<Rightarrow> hash_index \<Rightarrow> string \<Rightarrow> ('w, unit) io" where
  "r_hash_index_export fs idx hashes_filename = if_write fs hashes_filename (hi_hashes idx, hi_rest idx)"

definition r_hash_index_export_slot :: "'w index_files \<Rightarrow> 'w os \<Rightarrow> hash_index \<Rightarrow> rauc_slot \<Rightarrow> rauc_checksum option
    \<Rightarrow> ('w, unit) io" where
  "r_hash_index_export_slot fs os idx slot checksum =
     io_bind (r_slot_get_checksum_data_directory os slot checksum) (\<lambda>dir. case dir of
         None \<Rightarrow> io_fail ERROR_UNSET
       | Some d \<Rightarrow> if_write fs (g_build_filename d ''block-hash-index'') (hi_hashes idx, hi_rest idx))"

subsection \<open>Searching\<close>

text \<open>The hash at a position of the lookup table; \<open>None\<close> is an access out of bounds.\<close>

definition row :: "hash_index \<Rightarrow> 32 word \<Rightarrow> (32 word \<times> hash) option" where
  "row idx i =
     (if unat i < length (hi_lookup idx) then
        let c = hi_lookup idx ! unat i in
        if unat c < length (hi_hashes idx) then Some (c, hi_hashes idx ! unat c) else None
      else None)"

partial_function (option) hash_search :: "hash_index \<Rightarrow> hash \<Rightarrow> 32 word \<Rightarrow> 32 word \<Rightarrow> 32 word option result option" where
  "hash_search idx h left right =
     (if left \<le> right then
        let middle = left + (right - left) div 2 in
        case row idx middle of
          None \<Rightarrow> Some Abort
        | Some (c, r) \<Rightarrow>
            let cmp = memcmp r h in
            if cmp = 0 then Some (Ok (Some middle))
            else if cmp < 0 then hash_search idx h (middle + 1) right
            else if middle > 0 then hash_search idx h left (middle - 1)
            else Some (Ok None)
      else Some (Ok None))"

declare hash_search.simps [code]

text \<open>Going back to the first entry with the hash; \<open>middle\<close> stays when the loop reaches 0.\<close>

fun first_chunk :: "hash_index \<Rightarrow> hash \<Rightarrow> 32 word \<Rightarrow> nat \<Rightarrow> 32 word result" where
  "first_chunk idx h middle 0 = Ok middle"
| "first_chunk idx h middle (Suc i) = (case row idx (of_nat i) of
      None \<Rightarrow> Abort
    | Some (c, r) \<Rightarrow> if memcmp r h \<noteq> 0 then Ok (of_nat (Suc i)) else first_chunk idx h middle i)"

text \<open>Going forward to the first one in the valid range.\<close>

fun valid_chunk :: "hash_index \<Rightarrow> hash \<Rightarrow> nat list \<Rightarrow> 32 word option result" where
  "valid_chunk idx h [] = Ok None"
| "valid_chunk idx h (i # is) = (case row idx (of_nat i) of
      None \<Rightarrow> Abort
    | Some (cur, r) \<Rightarrow>
        if memcmp r h \<noteq> 0 then Ok None
        else if cur \<ge> hi_invalid_from idx then Ok None
        else if cur < hi_invalid_below idx then valid_chunk idx h is
        else Ok (Some cur))"

definition read_chunk :: "(chunk \<Rightarrow> hash) \<Rightarrow> hash_index \<Rightarrow> hash \<Rightarrow> devices \<Rightarrow> 32 word \<Rightarrow> chunk result" where
  "read_chunk sha idx h devs c =
     result_bind (r_pread_exact devs (hi_data_fd idx) (unat c)) (\<lambda>data.
       if \<not> hi_skip_hash_check idx \<and> sha data \<noteq> h then Error (R_HASH_INDEX_ERROR R_HASH_INDEX_ERROR_MODIFIED)
       else Ok data)"

text \<open>The chunk number that is read.\<close>

definition find_chunk :: "hash_index \<Rightarrow> hash \<Rightarrow> 32 word result option" where
  "find_chunk idx h =
     (if \<not> hi_count idx > 0 then Some (Error ERROR_UNSET)
      else map_option (\<lambda>r.
        result_bind r (\<lambda>found. case found of
            None \<Rightarrow> Error (R_HASH_INDEX_ERROR R_HASH_INDEX_ERROR_NOT_FOUND)
          | Some middle \<Rightarrow>
              result_bind (first_chunk idx h middle (unat middle)) (\<lambda>middle.
              result_bind (valid_chunk idx h [unat middle..<unat (hi_count idx)]) (\<lambda>valid. case valid of
                  None \<Rightarrow> Error (R_HASH_INDEX_ERROR R_HASH_INDEX_ERROR_NOT_FOUND)
                | Some c \<Rightarrow> Ok c))))
        (hash_search idx h 0 (hi_count idx - 1)))"

definition r_hash_index_get_chunk :: "(chunk \<Rightarrow> hash) \<Rightarrow> hash_index \<Rightarrow> hash \<Rightarrow> devices \<Rightarrow> chunk result option" where
  "r_hash_index_get_chunk sha idx h devs =
     map_option (\<lambda>r. result_bind r (read_chunk sha idx h devs)) (find_chunk idx h)"

subsection \<open>The lookup table is sorted\<close>

lemma memcmp_eq0: "length a = length b \<Longrightarrow> memcmp a b = 0 \<longleftrightarrow> a = b"
  by (induction a b rule: memcmp.induct) (auto simp: word_uint_eq_iff)

lemma memcmp_refl [simp]: "memcmp a a = 0"
  by (induction a) auto

lemma memcmp_less: "length a = length b \<Longrightarrow> memcmp a b < 0 \<longleftrightarrow> a < b"
  by (induction a b rule: memcmp.induct) (auto simp: word_less_def)

lemma intcmp_le: "intcmp a b \<le> 0 \<longleftrightarrow> a \<le> b"
  by (auto simp: intcmp_def)

lemma mult_sha256_len: "unat (i :: 32 word) < 2 ^ 27 \<Longrightarrow> unat (i * SHA256_LEN) = unat i * 32"
  by (subst unat_mult_lem [THEN iffD1]) auto

text \<open>The order of the table: by hash, then by number.\<close>

definition chunk_key :: "hash list \<Rightarrow> 32 word \<Rightarrow> hash \<times> 32 word" where
  "chunk_key hashes i = (hashes ! unat i, i)"

definition hashes_wf :: "hash list \<Rightarrow> bool" where
  "hashes_wf hashes \<longleftrightarrow> (\<forall>h\<in>set hashes. length h = 32) \<and> length hashes < 2 ^ 27"

lemma lookup_compare_key:
  assumes "hashes_wf hashes" and "unat a < length hashes" and "unat b < length hashes"
  shows "lookup_compare_sort hashes a b \<le> 0 \<longleftrightarrow> chunk_key hashes a \<le> chunk_key hashes b"
proof -
  let ?x = "hashes ! unat a" and ?y = "hashes ! unat b"
  have len: "length ?x = length ?y" and small: "unat a < 2 ^ 27" "unat b < 2 ^ 27"
    using assms by (auto simp: hashes_wf_def)
  have "lookup_compare_sort hashes a b = (if memcmp ?x ?y \<noteq> 0 then memcmp ?x ?y else intcmp a b)"
    by (simp add: lookup_compare_sort_def Let_def mult_sha256_len [OF small(1)] mult_sha256_len [OF small(2)])
  then show ?thesis
    using memcmp_eq0 [OF len] memcmp_less [OF len]
    by (auto simp: chunk_key_def less_eq_prod_def intcmp_le)
qed

lemma insert_by_insort:
  "(\<And>y. y \<in> set ys \<Longrightarrow> cmp x y \<le> 0 \<longleftrightarrow> k x \<le> k y) \<Longrightarrow> insert_by cmp x ys = insort_key k x ys"
  by (induction ys) auto

lemma qsort_r_sort_key:
  "(\<And>x y. x \<in> set xs \<Longrightarrow> y \<in> set xs \<Longrightarrow> cmp x y \<le> 0 \<longleftrightarrow> k x \<le> k y) \<Longrightarrow> qsort_r cmp xs = sort_key k xs"
proof (induction xs)
  case (Cons x xs)
  then have "qsort_r cmp xs = sort_key k xs" by simp
  then have "qsort_r cmp (x # xs) = insert_by cmp x (sort_key k xs)"
    by (simp add: qsort_r_def)
  also have "\<dots> = insort_key k x (sort_key k xs)"
    using Cons.prems by (intro insert_by_insort) simp
  finally show ?case by simp
qed (simp add: qsort_r_def)

definition numbers :: "nat \<Rightarrow> 32 word list" where
  "numbers n = map of_nat [0..<n]"

lemma set_numbers: "n \<le> 2 ^ 32 \<Longrightarrow> set (numbers n) = {i. unat i < n}"
proof (intro set_eqI iffI)
  fix i :: "32 word"
  assume "n \<le> 2 ^ 32" "i \<in> set (numbers n)"
  then show "i \<in> {i. unat i < n}" by (auto simp: numbers_def unat_of_nat)
next
  fix i :: "32 word"
  assume "i \<in> {i. unat i < n}"
  then show "i \<in> set (numbers n)"
    by (auto simp: numbers_def intro!: image_eqI [where x = "unat i"])
qed

lemma build_lookup_sorted:
  assumes "hashes_wf hashes"
  shows "build_lookup hashes = sort_key (chunk_key hashes) (numbers (length hashes))"
proof -
  have n: "unat (of_nat (length hashes) :: 32 word) = length hashes"
    using assms by (simp add: hashes_wf_def unat_of_nat)
  have "length hashes \<le> 2 ^ 32" using assms by (simp add: hashes_wf_def)
  then show ?thesis
    unfolding build_lookup_def n numbers_def [symmetric]
    by (intro qsort_r_sort_key lookup_compare_key [OF assms]) (simp_all add: set_numbers)
qed

subsection \<open>The invariant of an index\<close>

definition index_ok :: "hash_index \<Rightarrow> bool" where
  "index_ok idx \<longleftrightarrow> hashes_wf (hi_hashes idx) \<and> unat (hi_count idx) \<le> length (hi_hashes idx) \<and>
     hi_lookup idx = build_lookup (hi_hashes idx)"

lemma index_okD:
  assumes "index_ok idx"
  shows "hashes_wf (hi_hashes idx)" and "unat (hi_count idx) \<le> length (hi_hashes idx)"
    and "hi_lookup idx = sort_key (chunk_key (hi_hashes idx)) (numbers (length (hi_hashes idx)))"
  using assms build_lookup_sorted by (auto simp: index_ok_def)

lemma index_okI:
  assumes "hashes_wf hs" and "unat c \<le> length hs"
  shows "index_ok (hash_index_prepare \<lparr>hi_label = l, hi_data_fd = fd, hi_count = c, hi_hashes = hs, hi_rest = r,
    hi_lookup = x, hi_invalid_below = b, hi_invalid_from = f, hi_skip_hash_check = k\<rparr>)"
  using assms by (simp add: index_ok_def hash_index_prepare_def)

text \<open>The table written by \<open>hash_file\<close>. An image of \<open>2 ^ 27\<close> or more chunks does not get through.\<close>

lemma hash_loop_Ok:
  assumes "hash_loop sha progress devs fd count is = Ok hs"
  shows "map Inr (map (\<lambda>i. projr (dev_chunks (devs fd) ! i)) is) = map (\<lambda>i. dev_chunks (devs fd) ! i) is"
    and "hs = map (\<lambda>i. sha (projr (dev_chunks (devs fd) ! i))) is"
    and "\<forall>i\<in>set is. i < length (dev_chunks (devs fd)) \<and> unat (of_nat i * SHA256_LEN) + 32 \<le> unat (count * SHA256_LEN)"
  using assms
  by (induction "is" arbitrary: hs)
    (auto simp: io_iff r_pread_exact_def Let_def not_less split: if_splits sum.splits)

lemma hash_file_bound:
  assumes "hash_file sha progress devs fd count = Ok hs"
  shows "unat count < 2 ^ 27" and "length hs = unat count"
proof -
  note ok = hash_loop_Ok [OF assms [unfolded hash_file_def]]
  show "length hs = unat count" using ok(2) by simp
  show "unat count < 2 ^ 27"
  proof (rule ccontr)
    assume big: "\<not> unat count < 2 ^ 27"
    define i where "i = unat count mod 2 ^ 27"
    have i: "i < 2 ^ 27" "i < unat count" using big by (auto simp: i_def intro: less_le_trans)
    have "unat (of_nat i * SHA256_LEN) = i * 32"
      using i by (simp add: unat_mult_lem [THEN iffD1] unat_of_nat mult_sha256_len)
    moreover have "unat (count * SHA256_LEN) = i * 32"
      using mod_mult_mult2 [of "unat count" 32 "2 ^ 27"] by (simp add: unat_word_ariths i_def)
    ultimately show False using ok(3) [rule_format, of i] i(2) by simp
  qed
qed

text \<open>An index file is a sequence of rows of 32 bytes and an incomplete row.\<close>

fun index_file_wf :: "index_file \<Rightarrow> bool" where
  "index_file_wf (hs, rest) \<longleftrightarrow> (\<forall>h\<in>set hs. length h = 32) \<and> length rest < 32"

lemma r_hash_index_open_ok:
  assumes "r_hash_index_open sha progress devs label fd mapped = Ok idx"
    and "\<And>c. length (sha c) = 32"
    and "\<And>f. mapped = Some (Ok f) \<Longrightarrow> index_file_wf f"
  shows "index_ok idx"
proof -
  have wf: "hashes_wf hs" if "length hs < 2 ^ 27" "\<forall>h\<in>set hs. length h = 32" for hs
    using that by (simp add: hashes_wf_def)
  show ?thesis
  proof (cases mapped)
    case None
    then obtain count hs where hf: "hash_file sha progress devs fd count = Ok hs"
      and idx: "idx = hash_index_prepare \<lparr>hi_label = label, hi_data_fd = fd, hi_count = count, hi_hashes = hs,
        hi_rest = [], hi_lookup = [], hi_invalid_below = 0, hi_invalid_from = 0, hi_skip_hash_check = False\<rparr>"
      using assms(1) by (auto simp: r_hash_index_open_def io_iff)
    have "\<forall>h\<in>set hs. length h = 32"
      using hash_loop_Ok(2) [OF hf [unfolded hash_file_def]] assms(2) by auto
    then show ?thesis unfolding idx using hash_file_bound [OF hf] by (intro index_okI wf) auto
  next
    case (Some f)
    then obtain hs rest where f: "f = Ok (hs, rest)"
      using assms(1) by (auto simp: r_hash_index_open_def io_iff)
    then have rows: "\<forall>h\<in>set hs. length h = 32" "(32 * length hs + length rest) div 32 = length hs"
      using assms(3) Some by auto
    obtain count where small: "32 * length hs + length rest < unat G_MAXUINT32" and count: "unat count \<le> length hs"
      and idx: "idx = hash_index_prepare \<lparr>hi_label = label, hi_data_fd = fd, hi_count = count, hi_hashes = hs,
        hi_rest = rest, hi_lookup = [], hi_invalid_below = 0, hi_invalid_from = 0, hi_skip_hash_check = False\<rparr>"
    proof -
      obtain c0 where c0: "get_chunk_count devs fd = Ok c0"
        using assms(1) by (auto simp: r_hash_index_open_def io_iff)
      define count where "count = (if length hs < unat c0 then of_nat (length hs) else c0)"
      have "unat count \<le> length hs" by (simp add: count_def unat_of_nat)
      then show ?thesis
        using assms(1) unfolding Some f r_hash_index_open_def c0
        by (intro that [of count]) (simp_all add: rows(2) Let_def count_def split: if_splits)
    qed
    have "length hs < 2 ^ 27" using small by (simp add: unsigned_minus_1_eq_mask mask_eq_exp_minus_1)
    then show ?thesis unfolding idx using count rows by (intro index_okI wf) auto
  qed
qed

lemma r_hash_index_reuse_ok:
  assumes "r_hash_index_reuse devs label idx fd = Ok new" and "index_ok idx"
  shows "index_ok new" and "hi_hashes new = take (unat (hi_count new)) (hi_hashes idx)"
    and "hi_data_fd new = fd" and "unat (hi_count new) \<le> unat (hi_count idx)"
proof -
  obtain count where count: "count \<le> hi_count idx"
    and new: "new = hash_index_prepare \<lparr>hi_label = label @ '' (reusing '' @ hi_label idx @ '')'', hi_data_fd = fd,
      hi_count = count, hi_hashes = take (unat (count * SHA256_LEN) div 32) (hi_hashes idx), hi_rest = [],
      hi_lookup = [], hi_invalid_below = 0, hi_invalid_from = 0, hi_skip_hash_check = False\<rparr>"
  proof -
    obtain c0 where c0: "get_chunk_count devs fd = Ok c0"
      using assms(1) by (auto simp: r_hash_index_reuse_def io_iff)
    show ?thesis
      using assms(1) unfolding r_hash_index_reuse_def c0
      by (intro that [of "if c0 > hi_count idx then hi_count idx else c0"])
        (simp_all add: Let_def split: if_splits)
  qed
  have le: "unat count \<le> unat (hi_count idx)" using count by (simp add: word_le_nat_alt)
  also have "unat (hi_count idx) \<le> length (hi_hashes idx)" using index_okD(2) [OF assms(2)] .
  finally have len: "unat count \<le> length (hi_hashes idx)" .
  then have "unat count < 2 ^ 27" using index_okD(1) [OF assms(2)] by (simp add: hashes_wf_def)
  then have rows: "unat (count * SHA256_LEN) div 32 = unat count" by (simp add: mult_sha256_len)
  have "hashes_wf (take (unat count) (hi_hashes idx))"
    using index_okD(1) [OF assms(2)] by (auto simp: hashes_wf_def dest: in_set_takeD)
  then show "index_ok new" unfolding new rows using len by (intro index_okI) simp_all
  show "hi_hashes new = take (unat (hi_count new)) (hi_hashes idx)" "hi_data_fd new = fd"
      "unat (hi_count new) \<le> unat (hi_count idx)"
    using le by (simp_all add: new rows hash_index_prepare_def)
qed

subsection \<open>The search\<close>

text \<open>The row at a position of the sorted table.\<close>

definition row_hash :: "hash_index \<Rightarrow> nat \<Rightarrow> hash" where
  "row_hash idx p = hi_hashes idx ! unat (hi_lookup idx ! p)"

lemma lookup_facts:
  assumes "index_ok idx"
  shows "length (hi_lookup idx) = length (hi_hashes idx)"
    and "set (hi_lookup idx) = {i. unat i < length (hi_hashes idx)}"
    and "distinct (hi_lookup idx)"
    and "sorted (map (chunk_key (hi_hashes idx)) (hi_lookup idx))"
proof -
  note ok = index_okD [OF assms]
  have n: "length (hi_hashes idx) \<le> 2 ^ 32" using ok(1) by (simp add: hashes_wf_def)
  have "inj_on (of_nat :: nat \<Rightarrow> 32 word) {0..<length (hi_hashes idx)}"
    using n by (auto simp: inj_on_def unat_of_nat word_unat_eq_iff)
  then show "length (hi_lookup idx) = length (hi_hashes idx)" "distinct (hi_lookup idx)"
      "set (hi_lookup idx) = {i. unat i < length (hi_hashes idx)}"
      "sorted (map (chunk_key (hi_hashes idx)) (hi_lookup idx))"
    unfolding ok(3) using n by (simp_all add: numbers_def distinct_map set_numbers [unfolded numbers_def] del: set_map)
qed

lemma row_in_bounds:
  assumes "index_ok idx" and "unat i < length (hi_hashes idx)"
  shows "row idx i = Some (hi_lookup idx ! unat i, row_hash idx (unat i))"
proof -
  have "hi_lookup idx ! unat i \<in> set (hi_lookup idx)"
    using assms lookup_facts(1) [OF assms(1)] by simp
  then show ?thesis
    using assms lookup_facts [OF assms(1)] by (simp add: row_def row_hash_def Let_def)
qed

lemma lookup_less:
  assumes ok: "index_ok idx" and "p < length (hi_hashes idx)"
  shows "unat (hi_lookup idx ! p) < length (hi_hashes idx)"
  using lookup_facts(1,2) [OF ok] assms(2) nth_mem by fastforce

lemma row_hash_mono:
  assumes "index_ok idx" and "p \<le> q" and "q < length (hi_hashes idx)"
  shows "row_hash idx p \<le> row_hash idx q"
proof -
  have "chunk_key (hi_hashes idx) (hi_lookup idx ! p) \<le> chunk_key (hi_hashes idx) (hi_lookup idx ! q)"
    using sorted_nth_mono [OF lookup_facts(4) [OF assms(1)] assms(2)] assms lookup_facts(1) [OF assms(1)] by simp
  then show ?thesis by (auto simp: chunk_key_def less_eq_prod_def row_hash_def)
qed

lemma row_hash_length:
  assumes "index_ok idx" and "p < length (hi_hashes idx)"
  shows "length (row_hash idx p) = 32"
proof -
  have "hi_lookup idx ! p \<in> set (hi_lookup idx)"
    using assms lookup_facts(1) [OF assms(1)] by simp
  then show ?thesis
    using lookup_facts(2) [OF assms(1)] index_okD(1) [OF assms(1)] by (simp add: row_hash_def hashes_wf_def)
qed

lemma memcmp_row:
  assumes "index_ok idx" and "p < length (hi_hashes idx)" and "length h = 32"
  shows "memcmp (row_hash idx p) h = 0 \<longleftrightarrow> row_hash idx p = h"
    and "memcmp (row_hash idx p) h < 0 \<longleftrightarrow> row_hash idx p < h"
  using assms memcmp_eq0 memcmp_less row_hash_length by simp_all

lemma unat_less32: "unat (x :: 32 word) < 2 ^ 32"
  using unsigned_less [of x, where ?'a = nat] by simp

lemma unat_middle:
  assumes "(left :: 32 word) \<le> right"
  shows "unat (left + (right - left) div 2) = unat left + (unat right - unat left) div 2"
proof -
  have "unat ((right - left) div 2) = (unat right - unat left) div 2"
    using assms by (simp add: unat_div unat_sub)
  moreover have "unat left + (unat right - unat left) div 2 \<le> unat right"
    using assms by (simp add: word_le_nat_alt)
  then have "unat left + (unat right - unat left) div 2 < 2 ^ 32"
    using unat_less32 [of right] by simp
  ultimately show ?thesis by (simp add: unat_word_ariths)
qed

text \<open>The bisection ends and finds a position with the hash if there is one.\<close>

lemma hash_search_spec:
  assumes ok: "index_ok idx" and h: "length h = 32" and right: "unat right < unat (hi_count idx)"
    and below: "\<forall>p < unat left. row_hash idx p < h"
    and above: "\<forall>p. unat right < p \<longrightarrow> p < unat (hi_count idx) \<longrightarrow> h < row_hash idx p"
  shows "\<exists>r. hash_search idx h left right = Some (Ok r) \<and> (case r of
      Some m \<Rightarrow> unat m < unat (hi_count idx) \<and> row_hash idx (unat m) = h
    | None \<Rightarrow> \<forall>p < unat (hi_count idx). row_hash idx p \<noteq> h)"
  using right below above
proof (induction "unat right + 1 - unat left" arbitrary: left right rule: less_induct)
  case less
  show ?case
  proof (cases "left \<le> right")
    case False
    then have "row_hash idx p \<noteq> h" if "p < unat (hi_count idx)" for p
      using less.prems(2,3) that
      by (cases "p < unat left") (auto simp: word_le_nat_alt not_le not_less dest: less_le_trans)
    then show ?thesis using False by (subst hash_search.simps) auto
  next
    case True
    define middle where "middle = left + (right - left) div 2"
    have mid: "unat left \<le> unat middle" "unat middle \<le> unat right"
      using True by (auto simp: middle_def unat_middle word_le_nat_alt)
    have len: "unat middle < length (hi_hashes idx)"
      using mid less.prems(1) index_okD(2) [OF ok] by simp
    note cmp = memcmp_row [OF ok len h]
    have unfold: "hash_search idx h left right =
        (if row_hash idx (unat middle) = h then Some (Ok (Some middle))
         else if row_hash idx (unat middle) < h then hash_search idx h (middle + 1) right
         else if middle > 0 then hash_search idx h left (middle - 1) else Some (Ok None))"
      using True cmp by (subst hash_search.simps) (simp add: Let_def middle_def [symmetric] row_in_bounds [OF ok len])
    consider (eq) "row_hash idx (unat middle) = h" | (lt) "row_hash idx (unat middle) < h"
      | (gt) "h < row_hash idx (unat middle)" "middle > 0" | (zero) "h < row_hash idx (unat middle)" "middle = 0"
      by (metis not_less_iff_gr_or_eq word_gt_0)
    then show ?thesis
    proof cases
      case eq
      then show ?thesis using mid less.prems(1) by (simp add: unfold)
    next
      case lt
      have suc: "unat (middle + 1) = unat middle + 1"
        using mid(2) less.prems(1) unat_less32 [of "hi_count idx"] by (simp add: unat_word_ariths)
      have "row_hash idx p < h" if "p < unat (middle + 1)" for p
        using that lt row_hash_mono [OF ok, of p "unat middle"] len suc by (auto intro: le_less_trans)
      then show ?thesis
        using lt less.hyps [of right "middle + 1"] less.prems mid suc by (simp add: unfold)
    next
      case gt
      have pred: "unat (middle - 1) = unat middle - 1" "unat middle \<noteq> 0"
        using gt(2) by (auto simp: unat_minus_one unat_eq_0)
      have "h < row_hash idx p" if "unat (middle - 1) < p" "p < unat (hi_count idx)" for p
        using that gt(1) row_hash_mono [OF ok, of "unat middle" p] index_okD(2) [OF ok] pred
        by (auto intro: less_le_trans)
      moreover have "row_hash idx (unat middle) \<noteq> h" "\<not> row_hash idx (unat middle) < h" using gt(1) by auto
      ultimately show ?thesis
        using gt(2) less.hyps [of "middle - 1" left] less.prems mid pred by (simp add: unfold)
    next
      case zero
      have "row_hash idx p \<noteq> h" if "p < unat (hi_count idx)" for p
        using that zero row_hash_mono [OF ok, of 0 p] index_okD(2) [OF ok] by auto
      moreover have "row_hash idx (unat middle) \<noteq> h" "\<not> row_hash idx (unat middle) < h" using zero(1) by auto
      ultimately show ?thesis using zero(2) by (simp add: unfold)
    qed
  qed
qed

lemma first_chunk_spec:
  assumes ok: "index_ok idx" and h: "length h = 32" and i: "i \<le> unat middle"
    and mid: "unat middle < length (hi_hashes idx)"
    and eq: "\<forall>p. i \<le> p \<and> p \<le> unat middle \<longrightarrow> row_hash idx p = h"
  shows "\<exists>m. first_chunk idx h middle i = Ok m \<and> unat m \<le> unat middle \<and>
      (\<forall>p. unat m \<le> p \<and> p \<le> unat middle \<longrightarrow> row_hash idx p = h) \<and>
      ((\<forall>p \<le> unat middle. row_hash idx p = h) \<or> (\<forall>p < unat m. row_hash idx p < h))"
  using i eq
proof (induction i)
  case (Suc i)
  have le: "i < length (hi_hashes idx)" "i < 2 ^ 32" "Suc i < 2 ^ 32"
    using Suc.prems(1) mid unat_less32 [of middle] by simp_all
  have row: "row idx (of_nat i) = Some (hi_lookup idx ! i, row_hash idx i)"
    using row_in_bounds [OF ok, of "of_nat i"] le by (simp add: unat_of_nat)
  show ?case
  proof (cases "row_hash idx i = h")
    case True
    then have "\<forall>p. i \<le> p \<and> p \<le> unat middle \<longrightarrow> row_hash idx p = h"
      using Suc.prems(2) by (metis le_antisym not_less_eq_eq)
    then show ?thesis
      using Suc.IH Suc.prems(1) True by (simp add: row memcmp_row [OF ok le(1) h])
  next
    case False
    have suc: "unat (of_nat (Suc i) :: 32 word) = Suc i" using le(3) by (simp only: unat_of_nat) simp
    have "row_hash idx p < h" if "p < Suc i" for p
    proof -
      have "row_hash idx p \<le> row_hash idx i" "row_hash idx i \<le> row_hash idx (unat middle)"
        using that Suc.prems(1) mid by (auto intro: row_hash_mono [OF ok])
      moreover have "row_hash idx (unat middle) = h" using Suc.prems by simp
      ultimately show ?thesis using False by simp
    qed
    then show ?thesis
      using False Suc.prems suc
      by (simp add: row memcmp_row [OF ok le(1) h] del: of_nat_Suc)
  qed
qed (auto simp: mid)

definition chunk_valid :: "hash_index \<Rightarrow> 32 word \<Rightarrow> bool" where
  "chunk_valid idx c \<longleftrightarrow> hi_invalid_below idx \<le> c \<and> c < hi_invalid_from idx"

text \<open>Within the entries of one hash the chunk numbers ascend.\<close>

lemma lookup_ascending:
  assumes ok: "index_ok idx" and "p < q" and "q < length (hi_hashes idx)" and "row_hash idx p = row_hash idx q"
  shows "hi_lookup idx ! p < hi_lookup idx ! q"
proof -
  have "chunk_key (hi_hashes idx) (hi_lookup idx ! p) \<le> chunk_key (hi_hashes idx) (hi_lookup idx ! q)"
    using sorted_nth_mono [OF lookup_facts(4) [OF ok], of p q] assms lookup_facts(1) [OF ok] by simp
  moreover have "hi_lookup idx ! p \<noteq> hi_lookup idx ! q"
    using lookup_facts(1,3) [OF ok] assms by (simp add: nth_eq_iff_index_eq)
  ultimately show ?thesis using assms(4) by (auto simp: chunk_key_def less_eq_prod_def row_hash_def)
qed

lemma valid_chunk_spec:
  assumes ok: "index_ok idx" and h: "length h = 32" and n: "n \<le> length (hi_hashes idx)"
    and ge: "\<forall>p. m \<le> p \<and> p < n \<longrightarrow> h \<le> row_hash idx p"
  shows "(\<exists>p. m \<le> p \<and> p < n \<and> row_hash idx p = h \<and> chunk_valid idx (hi_lookup idx ! p) \<and>
        (\<forall>q. m \<le> q \<and> q < p \<longrightarrow> \<not> chunk_valid idx (hi_lookup idx ! q)) \<and>
        valid_chunk idx h [m..<n] = Ok (Some (hi_lookup idx ! p))) \<or>
      valid_chunk idx h [m..<n] = Ok None \<and>
        (\<forall>p. m \<le> p \<and> p < n \<and> row_hash idx p = h \<longrightarrow> \<not> chunk_valid idx (hi_lookup idx ! p))"
  using ge
proof (induction "n - m" arbitrary: m)
  case (Suc k)
  have m: "m < n" and upt: "[m..<n] = m # [Suc m..<n]" using Suc.hyps(2) by (simp_all add: upt_conv_Cons)
  have le: "m < length (hi_hashes idx)" using m n by simp
  have "m < 2 ^ 32" using le index_okD(1) [OF ok] by (simp add: hashes_wf_def)
  then have row: "row idx (of_nat m) = Some (hi_lookup idx ! m, row_hash idx m)"
    using row_in_bounds [OF ok, of "of_nat m"] le by (simp add: unat_of_nat)
  let ?c = "hi_lookup idx ! m"
  consider (other) "row_hash idx m \<noteq> h" | (beyond) "row_hash idx m = h" "?c \<ge> hi_invalid_from idx"
    | (valid) "row_hash idx m = h" "chunk_valid idx ?c"
    | (below) "row_hash idx m = h" "?c < hi_invalid_from idx" "?c < hi_invalid_below idx"
    unfolding chunk_valid_def by (meson not_le)
  then show ?case
  proof cases
    case other
    then have "h < row_hash idx p" if "m \<le> p" "p < n" for p
      using Suc.prems [rule_format, of m] m n that row_hash_mono [OF ok, of m p] by simp
    then show ?thesis
      using other unfolding upt by (auto simp: row memcmp_row [OF ok le h])
  next
    case beyond
    then have "\<not> chunk_valid idx (hi_lookup idx ! p)" if "m \<le> p" "p < n" "row_hash idx p = h" for p
      using that n lookup_ascending [OF ok, of m p] by (cases "m = p") (auto simp: chunk_valid_def)
    then show ?thesis
      using beyond unfolding upt by (auto simp: row memcmp_row [OF ok le h])
  next
    case valid
    then have "valid_chunk idx h [m..<n] = Ok (Some ?c)"
      unfolding upt by (auto simp: row memcmp_row [OF ok le h] chunk_valid_def not_le dest: leD)
    then show ?thesis using valid m by (intro disjI1 exI [of _ m]) auto
  next
    case below
    then have step: "valid_chunk idx h [m..<n] = valid_chunk idx h [Suc m..<n]"
      unfolding upt by (simp add: row memcmp_row [OF ok le h] not_le)
    have skip: "\<not> chunk_valid idx ?c" using below by (simp add: chunk_valid_def not_le)
    then have here: "\<not> chunk_valid idx (hi_lookup idx ! q)" if "m \<le> q" "\<not> Suc m \<le> q" for q
      using that by (cases "q = m") auto
    have "k = n - Suc m" "\<forall>p. Suc m \<le> p \<and> p < n \<longrightarrow> h \<le> row_hash idx p" using Suc.hyps(2) Suc.prems by auto
    from Suc.hyps(1) [OF this] show ?thesis
    proof (elim disjE exE conjE)
      fix p
      assume p: "Suc m \<le> p" "p < n" "row_hash idx p = h" "chunk_valid idx (hi_lookup idx ! p)"
          "\<forall>q. Suc m \<le> q \<and> q < p \<longrightarrow> \<not> chunk_valid idx (hi_lookup idx ! q)"
          "valid_chunk idx h [Suc m..<n] = Ok (Some (hi_lookup idx ! p))"
      have "\<forall>q. m \<le> q \<and> q < p \<longrightarrow> \<not> chunk_valid idx (hi_lookup idx ! q)" using p(5) here by blast
      then show ?thesis using p by (intro disjI1 exI [of _ p]) (simp add: step)
    next
      assume "valid_chunk idx h [Suc m..<n] = Ok None"
        "\<forall>p. Suc m \<le> p \<and> p < n \<and> row_hash idx p = h \<longrightarrow> \<not> chunk_valid idx (hi_lookup idx ! p)"
      then show ?thesis using here unfolding step by blast
    qed
  qed
qed auto

subsection \<open>Finding a chunk\<close>

text \<open>
  The search as a whole. It returns and stays in bounds. A chunk it gives is valid and has the hash.
  When it gives none, there is none, unless the hash is the smallest one of the index.
\<close>

lemma find_chunk_spec:
  assumes ok: "index_ok idx" and h: "length h = 32" and count: "hi_count idx > 0"
  obtains (found) p where "find_chunk idx h = Some (Ok (hi_lookup idx ! p))" "p < unat (hi_count idx)"
      "row_hash idx p = h" "chunk_valid idx (hi_lookup idx ! p)"
      "\<And>q. q < p \<Longrightarrow> row_hash idx q = h \<Longrightarrow> row_hash idx 0 < h \<Longrightarrow> \<not> chunk_valid idx (hi_lookup idx ! q)"
  | (missing) "find_chunk idx h = Some (Error (R_HASH_INDEX_ERROR R_HASH_INDEX_ERROR_NOT_FOUND))"
      "\<And>p. p < unat (hi_count idx) \<Longrightarrow> row_hash idx p = h \<Longrightarrow> row_hash idx 0 < h \<or> (\<forall>c. unat c < length (hi_hashes idx) \<longrightarrow> chunk_valid idx c)
         \<Longrightarrow> \<not> chunk_valid idx (hi_lookup idx ! p)"
proof -
  have n: "unat (hi_count idx) \<le> length (hi_hashes idx)" using index_okD(2) [OF ok] .
  have last: "unat (hi_count idx - 1) = unat (hi_count idx) - 1" "0 < unat (hi_count idx)"
    using count by (auto simp: unat_minus_one unat_gt_0)
  obtain r where search: "hash_search idx h 0 (hi_count idx - 1) = Some (Ok r)"
    and r: "case r of Some m \<Rightarrow> unat m < unat (hi_count idx) \<and> row_hash idx (unat m) = h
      | None \<Rightarrow> \<forall>p < unat (hi_count idx). row_hash idx p \<noteq> h"
  proof -
    have "\<forall>p. unat (hi_count idx - 1) < p \<longrightarrow> p < unat (hi_count idx) \<longrightarrow> h < row_hash idx p" using last by auto
    then show ?thesis using hash_search_spec [OF ok h, of "hi_count idx - 1" 0] last that by auto
  qed
  show thesis
  proof (cases r)
    case None
    then show ?thesis using search r count by (intro missing) (auto simp: find_chunk_def)
  next
    case (Some middle)
    then have mid: "unat middle < unat (hi_count idx)" "row_hash idx (unat middle) = h" using r by auto
    have pre: "unat middle < length (hi_hashes idx)" "\<forall>p. unat middle \<le> p \<and> p \<le> unat middle \<longrightarrow> row_hash idx p = h"
      using mid n by auto
    obtain m where first: "first_chunk idx h middle (unat middle) = Ok m" "unat m \<le> unat middle"
        "\<forall>p. unat m \<le> p \<and> p \<le> unat middle \<longrightarrow> row_hash idx p = h"
        "(\<forall>p \<le> unat middle. row_hash idx p = h) \<or> (\<forall>p < unat m. row_hash idx p < h)"
      using first_chunk_spec [OF ok h order_refl pre] by (elim exE conjE) (rule that)
    have "h \<le> row_hash idx p" if "unat m \<le> p" "p < unat (hi_count idx)" for p
      using row_hash_mono [OF ok that(1)] that(2) n first(2,3) by auto
    then have "\<forall>p. unat m \<le> p \<and> p < unat (hi_count idx) \<longrightarrow> h \<le> row_hash idx p" by blast
    note valid = valid_chunk_spec [OF ok h n this]
    have before: "unat m \<le> q" if "row_hash idx q = h" "row_hash idx 0 < h" for q
    proof (rule ccontr)
      assume "\<not> unat m \<le> q"
      moreover have "row_hash idx 0 \<noteq> h" using that(2) by blast
      then have "\<forall>p < unat m. row_hash idx p < h" using first(4) by blast
      ultimately show False using that(1) by (auto simp: not_le)
    qed
    have eq: "find_chunk idx h = Some (result_bind (valid_chunk idx h [unat m..<unat (hi_count idx)]) (\<lambda>v. case v of
        None \<Rightarrow> Error (R_HASH_INDEX_ERROR R_HASH_INDEX_ERROR_NOT_FOUND) | Some c \<Rightarrow> Ok c))"
      using count by (simp add: find_chunk_def search Some first(1))
    from valid show ?thesis
    proof (elim disjE exE conjE)
      fix p
      assume p: "unat m \<le> p" "p < unat (hi_count idx)" "row_hash idx p = h" "chunk_valid idx (hi_lookup idx ! p)"
          "\<forall>q. unat m \<le> q \<and> q < p \<longrightarrow> \<not> chunk_valid idx (hi_lookup idx ! q)"
          "valid_chunk idx h [unat m..<unat (hi_count idx)] = Ok (Some (hi_lookup idx ! p))"
      show ?thesis using p before by (intro found [of p]) (auto simp: eq)
    next
      assume none: "valid_chunk idx h [unat m..<unat (hi_count idx)] = Ok None"
        "\<forall>p. unat m \<le> p \<and> p < unat (hi_count idx) \<and> row_hash idx p = h \<longrightarrow> \<not> chunk_valid idx (hi_lookup idx ! p)"
      have "\<not> (\<forall>c. unat c < length (hi_hashes idx) \<longrightarrow> chunk_valid idx c)"
        using none(2) mid first(2) lookup_less [OF ok pre(1)] by blast
      then have "\<not> chunk_valid idx (hi_lookup idx ! p)" if "p < unat (hi_count idx)" "row_hash idx p = h"
          "row_hash idx 0 < h \<or> (\<forall>c. unat c < length (hi_hashes idx) \<longrightarrow> chunk_valid idx c)" for p
        using none(2) before that by blast
      then show ?thesis using none(1) by (intro missing) (simp_all add: eq)
    qed
  qed
qed

text \<open>The plain search: the first chunk of the valid range with the hash.\<close>

definition linear_search :: "hash_index \<Rightarrow> hash \<Rightarrow> 32 word option" where
  "linear_search idx h = find (\<lambda>c. hi_hashes idx ! unat c = h \<and> chunk_valid idx c) (numbers (length (hi_hashes idx)))"

lemma find_numbers_Some:
  assumes "n \<le> 2 ^ 32" and "unat c < n" and "P c" and "\<And>c'. unat c' < n \<Longrightarrow> P c' \<Longrightarrow> c \<le> c'"
  shows "find P (numbers n) = Some c"
proof -
  have "numbers n ! unat c = c" "unat c < length (numbers n)"
    using assms(2) by (simp_all add: numbers_def)
  moreover have "\<not> P (numbers n ! j)" if "j < unat c" for j
  proof
    assume "P (numbers n ! j)"
    moreover have j: "numbers n ! j = of_nat j" "unat (of_nat j :: 32 word) = j"
      using that assms(1,2) by (simp_all add: numbers_def unat_of_nat)
    ultimately show False using assms(4) [of "of_nat j"] that assms(2) by (simp add: word_le_nat_alt)
  qed
  ultimately show ?thesis using assms(3) by (metis find_Some_iff)
qed

lemma row_hash_surj:
  assumes ok: "index_ok idx" and "unat c < length (hi_hashes idx)"
  obtains p where "p < length (hi_hashes idx)" and "hi_lookup idx ! p = c" and "row_hash idx p = hi_hashes idx ! unat c"
proof -
  have "c \<in> set (hi_lookup idx)" using lookup_facts(2) [OF ok] assms(2) by simp
  then show thesis using lookup_facts(1) [OF ok] that by (auto simp: in_set_conv_nth row_hash_def)
qed

lemma row_hash_0_least:
  assumes ok: "index_ok idx" and "h' \<in> set (hi_hashes idx)"
  shows "row_hash idx 0 \<le> h'"
proof -
  obtain i where i: "i < length (hi_hashes idx)" "h' = hi_hashes idx ! i"
    using assms(2) by (auto simp: in_set_conv_nth)
  have "i < 2 ^ 32" using i(1) index_okD(1) [OF ok] by (simp add: hashes_wf_def)
  then have u: "unat (of_nat i :: 32 word) = i" by (simp add: unat_of_nat)
  obtain p where "p < length (hi_hashes idx)" "row_hash idx p = h'"
    using row_hash_surj [OF ok, of "of_nat i"] i u by auto
  then show ?thesis using row_hash_mono [OF ok, of 0 p] by simp
qed

lemma find_chunk_linear:
  assumes ok: "index_ok idx" and h: "length h = 32" and count: "unat (hi_count idx) = length (hi_hashes idx)"
    and smaller: "h' \<in> set (hi_hashes idx)" "h' < h"
  shows "find_chunk idx h = Some (case linear_search idx h of
      None \<Rightarrow> Error (R_HASH_INDEX_ERROR R_HASH_INDEX_ERROR_NOT_FOUND) | Some c \<Rightarrow> Ok c)"
proof -
  have pos: "hi_count idx > 0" using count smaller(1) by (cases "hi_hashes idx") (auto simp: word_less_nat_alt)
  have zero: "row_hash idx 0 < h" using row_hash_0_least [OF ok smaller(1)] smaller(2) by (rule le_less_trans)
  have n: "length (hi_hashes idx) \<le> 2 ^ 32" using index_okD(1) [OF ok] by (simp add: hashes_wf_def)
  show ?thesis
  proof (cases rule: find_chunk_spec [OF ok h pos])
    case (1 p)
    let ?c = "hi_lookup idx ! p"
    have p: "p < length (hi_hashes idx)" "hi_hashes idx ! unat ?c = h"
      using 1(2,3) count by (simp_all add: row_hash_def)
    have "?c \<le> c" if c: "unat c < length (hi_hashes idx)" "hi_hashes idx ! unat c = h \<and> chunk_valid idx c" for c
    proof -
      obtain q where q: "q < length (hi_hashes idx)" "hi_lookup idx ! q = c" "row_hash idx q = h"
        using row_hash_surj [OF ok c(1)] c(2) by auto
      then have "\<not> q < p" using 1(5) zero c(2) by blast
      then show ?thesis using lookup_ascending [OF ok, of p q] q 1(3) by (cases "p = q") auto
    qed
    then have "linear_search idx h = Some ?c"
      unfolding linear_search_def using p 1(4) lookup_less [OF ok p(1)] n by (intro find_numbers_Some) auto
    then show ?thesis using 1(1) by simp
  next
    case 2
    have "\<not> (hi_hashes idx ! unat c = h \<and> chunk_valid idx c)" if c: "unat c < length (hi_hashes idx)" for c
      using row_hash_surj [OF ok c] 2(2) zero count by metis
    then have "linear_search idx h = None"
      unfolding linear_search_def using n by (auto simp: find_None_iff set_numbers)
    then show ?thesis using 2(1) by simp
  qed
qed

subsection \<open>Properties\<close>

text \<open>
  C34. The bisection with its two corrections is the plain search: for a hash that is not the smallest
  one of the index, \<open>r_hash_index_get_chunk\<close> reads the first chunk of the valid range that the index
  lists with this hash, and reports that there is none exactly when there is none.
\<close>

theorem get_chunk_is_linear_search:
  assumes "index_ok idx" and "unat (hi_count idx) = length (hi_hashes idx)" and "length h = 32"
    and "h' \<in> set (hi_hashes idx)" and "h' < h"
  shows "r_hash_index_get_chunk sha idx h devs = Some (case linear_search idx h of
      None \<Rightarrow> Error (R_HASH_INDEX_ERROR R_HASH_INDEX_ERROR_NOT_FOUND)
    | Some c \<Rightarrow> read_chunk sha idx h devs c)"
  unfolding r_hash_index_get_chunk_def find_chunk_linear [OF assms(1,3,2,4,5)]
  by (simp split: option.split)

text \<open>An index of three chunks with the hashes 2, 1, 2, of which the first is invalid.\<close>

definition demo_index :: hash_index where
  "demo_index = (hash_index_prepare \<lparr>hi_label = ''demo'', hi_data_fd = 0, hi_count = 3,
     hi_hashes = [replicate 32 2, replicate 32 1, replicate 32 2], hi_rest = [], hi_lookup = [],
     hi_invalid_below = 0, hi_invalid_from = 0, hi_skip_hash_check = True\<rparr>)\<lparr>hi_invalid_below := 1\<rparr>"

definition demo_device :: device where
  "demo_device = \<lparr>dev_size = 12288, dev_chunks = [Inr [7], Inr [8], Inr [9]], dev_write_errors = \<lambda>_. None\<rparr>"

lemma demo_index_ok: "index_ok demo_index" "length (hi_hashes demo_index) = 3" "hi_count demo_index = 3"
  by (simp_all add: demo_index_def index_ok_def hash_index_prepare_def hashes_wf_def)

theorem get_chunk_is_linear_search_witness:
  "r_hash_index_get_chunk (\<lambda>_. []) demo_index (replicate 32 2) (\<lambda>_. demo_device) = Some (Ok [9])"
proof -
  have "linear_search demo_index (replicate 32 2) = Some 2"
    by (simp add: linear_search_def demo_index_def hash_index_prepare_def numbers_def chunk_valid_def upt_rec)
  moreover have "read_chunk (\<lambda>_. []) demo_index (replicate 32 2) (\<lambda>_. demo_device) 2 = Ok [9]"
    by (simp add: read_chunk_def r_pread_exact_def demo_index_def hash_index_prepare_def demo_device_def)
  moreover have "replicate 32 1 \<in> set (hi_hashes demo_index)" "replicate 32 1 < replicate 32 (2 :: 8 word)"
    by (simp_all add: demo_index_def hash_index_prepare_def numeral_eq_Suc)
  moreover have "unat (hi_count demo_index) = length (hi_hashes demo_index)" using demo_index_ok by simp
  ultimately show ?thesis
    using get_chunk_is_linear_search [OF demo_index_ok(1), of "replicate 32 2" "replicate 32 1"] by simp
qed

text \<open>
  C35. An index that was opened, whatever its limits are set to later and whatever happened to the
  device since, is searched without leaving its tables: the search returns with a result other than
  a crash, and a chunk it delivers has the requested hash unless the check is switched off.
\<close>

theorem get_chunk_in_bounds:
  assumes "r_hash_index_open sha progress devs label fd mapped = Ok idx"
    and sha: "\<And>c. length (sha c) = 32" and "\<And>f. mapped = Some (Ok f) \<Longrightarrow> index_file_wf f" and h: "length h = 32"
  shows "\<exists>r. r_hash_index_get_chunk sha (idx\<lparr>hi_invalid_below := b, hi_invalid_from := f, hi_skip_hash_check := k\<rparr>) h devs' = Some r
      \<and> r \<noteq> Abort \<and> (\<forall>c. r = Ok c \<and> \<not> k \<longrightarrow> sha c = h)"
proof -
  let ?idx = "idx\<lparr>hi_invalid_below := b, hi_invalid_from := f, hi_skip_hash_check := k\<rparr>"
  have ok: "index_ok ?idx"
    using r_hash_index_open_ok [OF assms(1,2,3)] by (simp add: index_ok_def)
  have read: "r \<noteq> Abort \<and> (\<forall>c. r = Ok c \<and> \<not> k \<longrightarrow> sha c = h)" if "r = read_chunk sha ?idx h devs' c'" for r c'
    using that by (auto simp: read_chunk_def r_pread_exact_def io_iff split: sum.splits if_splits)
  show ?thesis
  proof (cases "hi_count ?idx > 0")
    case True
    then show ?thesis
      by (cases rule: find_chunk_spec [OF ok h True]) (auto simp: r_hash_index_get_chunk_def read)
  qed (simp add: r_hash_index_get_chunk_def find_chunk_def)
qed

definition demo_sha :: "chunk \<Rightarrow> hash" where
  "demo_sha c = replicate 32 (hd c)"

theorem get_chunk_in_bounds_witness:
  "\<exists>idx r. r_hash_index_open demo_sha False (\<lambda>_. demo_device) ''demo'' 0 None = Ok idx \<and>
     r_hash_index_get_chunk demo_sha (idx\<lparr>hi_invalid_below := 1, hi_invalid_from := 2, hi_skip_hash_check := False\<rparr>)
       (replicate 32 8) (\<lambda>_. demo_device) = Some r \<and> r \<noteq> Abort"
proof -
  have "\<exists>idx. r_hash_index_open demo_sha False (\<lambda>_. demo_device) ''demo'' 0 None = Ok idx"
    by (simp add: r_hash_index_open_def get_chunk_count_def demo_device_def hash_file_def r_pread_exact_def upt_rec Let_def
        unsigned_minus_1_eq_mask mask_eq_exp_minus_1)
  then obtain idx where idx: "r_hash_index_open demo_sha False (\<lambda>_. demo_device) ''demo'' 0 None = Ok idx" ..
  have "\<exists>r. r_hash_index_get_chunk demo_sha (idx\<lparr>hi_invalid_below := 1, hi_invalid_from := 2, hi_skip_hash_check := False\<rparr>)
       (replicate 32 8) (\<lambda>_. demo_device) = Some r \<and> r \<noteq> Abort \<and> (\<forall>c. r = Ok c \<and> \<not> False \<longrightarrow> demo_sha c = replicate 32 8)"
    by (rule get_chunk_in_bounds [OF idx]) (simp_all add: demo_sha_def)
  with idx show ?thesis by blast
qed

lemma first_chunk_stays:
  assumes ok: "index_ok idx" and h: "length h = 32" and i: "i \<le> length (hi_hashes idx)"
    and "\<forall>p < i. row_hash idx p = h"
  shows "first_chunk idx h middle i = Ok middle"
  using i assms(4)
proof (induction i)
  case (Suc i)
  have "i < 2 ^ 32" using Suc.prems(1) index_okD(1) [OF ok] by (simp add: hashes_wf_def)
  then have "row idx (of_nat i) = Some (hi_lookup idx ! i, row_hash idx i)"
    using row_in_bounds [OF ok, of "of_nat i"] Suc.prems(1) by (simp add: unat_of_nat)
  then show ?case using Suc by simp
qed simp

text \<open>
  The correction that goes back to the first entry with the hash does not move when it reaches the
  start of the table. In an index whose chunks are all equal, of which only the first is valid, the
  search reports that there is none although the plain search finds it.
\<close>

theorem smallest_hash_missed:
  assumes ok: "index_ok idx" and hs: "hi_hashes idx = replicate n h" and h: "length h = 32"
    and count: "unat (hi_count idx) = n" and n: "n \<ge> 3"
    and limits: "hi_invalid_below idx = 0" "hi_invalid_from idx = 1"
  shows "linear_search idx h = Some 0 \<and>
    r_hash_index_get_chunk sha idx h devs = Some (Error (R_HASH_INDEX_ERROR R_HASH_INDEX_ERROR_NOT_FOUND))"
proof
  have small: "n \<le> 2 ^ 32" using index_okD(1) [OF ok] hs by (simp add: hashes_wf_def)
  show "linear_search idx h = Some 0"
    unfolding linear_search_def using small n
    by (intro find_numbers_Some) (auto simp: hs chunk_valid_def limits)
  have rows: "row_hash idx p = h" if "p < n" for p
    using lookup_less [OF ok] that by (simp add: row_hash_def hs)
  define middle where "middle = 0 + (hi_count idx - 1 - 0) div 2"
  have pos: "hi_count idx > 0" using count n by (simp add: word_less_nat_alt)
  then have mid: "unat middle = (n - 1) div 2"
    by (simp add: middle_def unat_div unat_minus_one count word_gt_0)
  then have m: "unat middle < n" "unat middle > 0" using n by simp_all
  note row = row_in_bounds [OF ok, of middle, unfolded hs length_replicate, OF m(1)]
  have "hash_search idx h 0 (hi_count idx - 1) = Some (Ok (Some middle))"
    by (subst hash_search.simps) (simp add: Let_def middle_def [simplified, symmetric] row rows m)
  moreover have "first_chunk idx h middle (unat middle) = Ok middle"
    using m rows by (intro first_chunk_stays [OF ok h]) (simp_all add: hs)
  moreover have "hi_lookup idx ! unat middle \<ge> 1"
  proof -
    have "hi_lookup idx ! 0 < hi_lookup idx ! unat middle"
      using m rows by (intro lookup_ascending [OF ok]) (simp_all add: hs)
    then have "hi_lookup idx ! unat middle > 0" by (rule le_less_trans [OF word_zero_le])
    then show ?thesis by (simp add: inc_le [where i = 0, simplified])
  qed
  then have "valid_chunk idx h [unat middle..<unat (hi_count idx)] = Ok None"
    using m by (simp add: count upt_conv_Cons row rows limits)
  ultimately show "r_hash_index_get_chunk sha idx h devs = Some (Error (R_HASH_INDEX_ERROR R_HASH_INDEX_ERROR_NOT_FOUND))"
    using pos by (simp add: r_hash_index_get_chunk_def find_chunk_def)
qed

definition demo_equal :: hash_index where
  "demo_equal = (hash_index_prepare \<lparr>hi_label = ''demo'', hi_data_fd = 0, hi_count = 3,
     hi_hashes = replicate 3 (replicate 32 2), hi_rest = [], hi_lookup = [],
     hi_invalid_below = 0, hi_invalid_from = 0, hi_skip_hash_check = True\<rparr>)\<lparr>hi_invalid_from := 1\<rparr>"

theorem smallest_hash_missed_witness:
  "linear_search demo_equal (replicate 32 2) = Some 0 \<and>
   r_hash_index_get_chunk demo_sha demo_equal (replicate 32 2) (\<lambda>_. demo_device)
     = Some (Error (R_HASH_INDEX_ERROR R_HASH_INDEX_ERROR_NOT_FOUND))"
proof (rule smallest_hash_missed)
  show "index_ok demo_equal"
    by (simp add: demo_equal_def index_ok_def hash_index_prepare_def hashes_wf_def)
  show "hi_hashes demo_equal = replicate 3 (replicate 32 2)"
    by (simp add: demo_equal_def hash_index_prepare_def)
qed (simp_all add: demo_equal_def hash_index_prepare_def)

text \<open>
  With 32 bit products, the table of an image of \<open>2 ^ 27\<close> chunks (512 GiB) or more is too small and
  \<open>hash_file\<close> writes behind its end; with progress reporting an image of less than nine chunks is a
  division by zero.
\<close>

lemma hash_file_large:
  assumes "\<forall>i < unat count. i < length (dev_chunks (devs fd)) \<and> (\<exists>c. dev_chunks (devs fd) ! i = Inr c)"
    and "unat count \<ge> 2 ^ 27"
  shows "hash_file sha progress devs fd count = Abort"
proof -
  have "hash_loop sha progress devs fd count is \<noteq> Error e" if "set is \<subseteq> {0..<unat count}" for "is" e
    using that
  proof (induction "is")
    case (Cons i "is")
    then obtain c where "r_pread_exact devs fd i = Ok c" using assms(1) by (auto simp: r_pread_exact_def)
    then show ?case using Cons by (cases "hash_loop sha progress devs fd count is") auto
  qed simp
  then have "hash_file sha progress devs fd count \<noteq> Error e" for e by (simp add: hash_file_def)
  moreover have "hash_file sha progress devs fd count \<noteq> Ok hs" for hs
    using hash_file_bound(1) assms(2) by (metis not_le)
  ultimately show ?thesis by (metis result.exhaust)
qed

lemma hash_file_small:
  assumes "unat count < 9" and "count > 0" and "dev_chunks (devs fd) = Inr c # cs"
  shows "hash_file sha True devs fd count = Abort"
proof -
  have "count div 9 = 0" using assms(1) by (simp add: word_arith_nat_div unat_eq_0 word_unat_eq_iff unat_div)
  then show ?thesis
    using assms by (simp add: hash_file_def upt_conv_Cons r_pread_exact_def word_less_nat_alt)
qed

end
