(* ===== verification/Adaptive_Copy.thy ===== *)
theory Adaptive_Copy
  imports Hash_Index Manifest
begin

text \<open>
  The adaptive update of a slot (\<open>copy_block_hash_index_image_to_dev\<close> and its callers in
  \<open>src/src/update_handler.c\<close>). The chunks of the image are looked up by hash in what was written
  already, in the old content of the target, in the active slot and at last in the image, and written
  to the target slot. The state is the content of the devices and the rest of the world. Seeking within
  an open device succeeds.
\<close>

subsection \<open>Opening the sources\<close>

definition R_HASH_INDEX_ZERO_CHUNK :: hash where
  "R_HASH_INDEX_ZERO_CHUNK = [0xad, 0x7f, 0xac, 0xb2, 0x58, 0x6f, 0xc6, 0xe9, 0x66, 0xc0, 0x04, 0xd7, 0xd1, 0xd1, 0x6b,
     0x02, 0x4f, 0x58, 0x05, 0xff, 0x7c, 0xb4, 0x7c, 0x7a, 0x85, 0xda, 0xbd, 0x8b, 0x48, 0x89, 0x2c, 0xa7]"

text \<open>
  The size of a device as \<open>get_device_size\<close> reports it. An error other than
  \<open>R_UTILS_ERROR_INAPPROPRIATE_IOCTL\<close> comes with the size 0 and is only noticed when that is too small.
\<close>

definition check_image_size :: "64 word result \<Rightarrow> rauc_slot \<Rightarrow> rauc_image \<Rightarrow> unit result" where
  "check_image_size get_device_size slot img =
     (let size = cs_size (img_checksum img) in
      if slot_size_limit slot > 0 \<and> size > slot_size_limit slot then Error (R_UPDATE_ERROR R_UPDATE_ERROR_FAILED)
      else case get_device_size of
          Error e \<Rightarrow>
            if e = R_UTILS_ERROR R_UTILS_ERROR_INAPPROPRIATE_IOCTL then Ok ()
            else if 0 < sint size then Error e else Ok ()
        | Abort \<Rightarrow> Abort
        | Ok dsize \<Rightarrow> if sint dsize < sint size then Error (R_UPDATE_ERROR R_UPDATE_ERROR_FAILED) else Ok ())"

definition get_active_slot_class_member :: "slots \<Rightarrow> string option \<Rightarrow> rauc_slot option" where
  "get_active_slot_class_member slots slotclass = (case slotclass of
      None \<Rightarrow> None
    | Some c \<Rightarrow> find (\<lambda>s. slot_state s \<noteq> ST_INACTIVE \<and> slot_sclass s = c) slots)"

text \<open>The seed slot if there is one.\<close>

definition open_active :: "(chunk \<Rightarrow> hash) \<Rightarrow> bool \<Rightarrow> 'w index_files \<Rightarrow> 'w os \<Rightarrow> slots \<Rightarrow> rauc_image
    \<Rightarrow> (devices \<times> 'w, hash_index list) io" where
  "open_active sha progress fs os slots img = (case get_active_slot_class_member slots (img_slotclass img) of
      None \<Rightarrow> io_return []
    | Some seedslot \<Rightarrow>
        io_bind (r_hash_index_open_slot sha progress fs os ''active_slot'' seedslot False) (\<lambda>a. io_return [a]))"

text \<open>The image; its data is read-only and authenticated. Opening a NULL file name is \<open>EFAULT\<close>.\<close>

definition open_source :: "(chunk \<Rightarrow> hash) \<Rightarrow> bool \<Rightarrow> 'w index_files \<Rightarrow> rauc_image \<Rightarrow> (devices \<times> 'w, hash_index) io" where
  "open_source sha progress fs img = (case img_filename img of
      None \<Rightarrow> io_fail (G_FILE_ERROR (G_FILE_ERROR_OTHER 10))
    | Some filename \<Rightarrow> io_bind (r_hash_index_open_image sha progress fs ''source_image'' filename)
        (\<lambda>source. io_return (source\<lparr>hi_skip_hash_check := True\<rparr>)))"

text \<open>The index of the image for what has been written to the target; nothing is valid yet.\<close>

definition open_written :: "hash_index \<Rightarrow> hash_index \<Rightarrow> (devices \<times> 'w, hash_index) io" where
  "open_written target source s =
     (result_bind (r_hash_index_reuse (fst s) ''target_slot_written'' source (hi_data_fd target))
        (\<lambda>written. Ok (written\<lparr>hi_invalid_from := 0, hi_skip_hash_check := True\<rparr>)), s)"

text \<open>The array of sources: written chunks, old target, active slot if there is one, image.\<close>

definition open_sources :: "(chunk \<Rightarrow> hash) \<Rightarrow> bool \<Rightarrow> 'w index_files \<Rightarrow> 'w os \<Rightarrow> (nat \<Rightarrow> 64 word result) \<Rightarrow> slots
    \<Rightarrow> rauc_image \<Rightarrow> rauc_slot \<Rightarrow> (devices \<times> 'w, hash_index list) io" where
  "open_sources sha progress fs os get_device_size slots img slot =
     io_bind (r_hash_index_open_slot sha progress fs os ''target_slot'' slot True) (\<lambda>target.
     io_bind (io_lift (check_image_size (get_device_size (hi_data_fd target)) slot img)) (\<lambda>_.
     io_bind (open_active sha progress fs os slots img) (\<lambda>active.
     io_bind (open_source sha progress fs img) (\<lambda>source.
     io_bind (open_written target source) (\<lambda>written.
     io_return (written # target # active @ [source]))))))"

subsection \<open>Copying\<close>

fun find_source :: "(chunk \<Rightarrow> hash) \<Rightarrow> hash \<Rightarrow> devices \<Rightarrow> hash_index list \<Rightarrow> chunk option result option" where
  "find_source sha h devs [] = Some (Ok None)"
| "find_source sha h devs (s # ss) = (case r_hash_index_get_chunk sha s h devs of
      None \<Rightarrow> None
    | Some (Ok c) \<Rightarrow> Some (Ok (Some c))
    | Some (Error e) \<Rightarrow> find_source sha h devs ss
    | Some Abort \<Rightarrow> Some Abort)"

definition next_chunk :: "(chunk \<Rightarrow> hash) \<Rightarrow> hash \<Rightarrow> devices \<Rightarrow> hash_index list \<Rightarrow> chunk option result option" where
  "next_chunk sha h devs sources =
     (if memcmp h R_HASH_INDEX_ZERO_CHUNK = 0 then Some (Ok (Some (replicate 4096 0)))
      else find_source sha h devs sources)"

text \<open>\<open>target_written->invalid_from = c+1; target_old->invalid_below = c;\<close>\<close>

fun update_limits :: "nat \<Rightarrow> hash_index list \<Rightarrow> hash_index list" where
  "update_limits c (written # old # rest) =
     written\<lparr>hi_invalid_from := of_nat c + 1\<rparr> # old\<lparr>hi_invalid_below := of_nat c\<rparr> # rest"
| "update_limits c sources = sources"

fun copy_chunks :: "(chunk \<Rightarrow> hash) \<Rightarrow> nat \<Rightarrow> hash list \<Rightarrow> nat list \<Rightarrow> hash_index list \<Rightarrow> devices
    \<Rightarrow> (unit result \<times> devices) option" where
  "copy_chunks sha target_fd chunk_hashes [] sources devs = Some (Ok (), devs)"
| "copy_chunks sha target_fd chunk_hashes (c # cs) sources devs =
     (if \<not> c < length chunk_hashes then Some (Abort, devs)
      else case next_chunk sha (chunk_hashes ! c) devs sources of
          None \<Rightarrow> None
        | Some (Ok None) \<Rightarrow> Some (Error (R_HASH_INDEX_ERROR R_HASH_INDEX_ERROR_NOT_FOUND), devs)
        | Some (Ok (Some data)) \<Rightarrow> (case r_pwrite_lazy target_fd data c devs of
              (Ok u, devs') \<Rightarrow> copy_chunks sha target_fd chunk_hashes cs (update_limits c sources) devs'
            | (Error e, devs') \<Rightarrow> Some (Error e, devs')
            | (Abort, devs') \<Rightarrow> Some (Abort, devs'))
        | Some (Error e) \<Rightarrow> Some (Error e, devs)
        | Some Abort \<Rightarrow> Some (Abort, devs))"

definition copy_block_hash_index_image_to_dev :: "(chunk \<Rightarrow> hash) \<Rightarrow> bool \<Rightarrow> 'w index_files \<Rightarrow> 'w os
    \<Rightarrow> (nat \<Rightarrow> 64 word result) \<Rightarrow> slots \<Rightarrow> rauc_image \<Rightarrow> rauc_slot \<Rightarrow> devices \<times> 'w \<Rightarrow> (unit result \<times> devices \<times> 'w) option" where
  "copy_block_hash_index_image_to_dev sha progress fs os get_device_size slots img slot s =
     (case open_sources sha progress fs os get_device_size slots img slot s of
        (Error e, s') \<Rightarrow> Some (Error e, s')
      | (Abort, s') \<Rightarrow> Some (Abort, s')
      | (Ok sources, devs, w) \<Rightarrow>
          let target_fd = hi_data_fd (hd sources); source = last sources in
          case copy_chunks sha target_fd (hi_hashes source) [0..<unat (hi_count source)] sources devs of
            None \<Rightarrow> None
          | Some (Error e, devs') \<Rightarrow> Some (Error e, devs', w)
          | Some (Abort, devs') \<Rightarrow> Some (Abort, devs', w)
          | Some (Ok u, devs') \<Rightarrow> Some (
              if \<not> if_fsync fs target_fd w then (Error (R_UPDATE_ERROR R_UPDATE_ERROR_FAILED), devs', w)
              else io_bind (io_warn (in_world (r_hash_index_export_slot fs os source slot (Some (img_checksum img)))))
                (\<lambda>_. io_return ()) (devs', w)))"

definition copy_adaptive_image_to_dev :: "(chunk \<Rightarrow> hash) \<Rightarrow> bool \<Rightarrow> 'w index_files \<Rightarrow> 'w os
    \<Rightarrow> (nat \<Rightarrow> 64 word result) \<Rightarrow> slots \<Rightarrow> string list \<Rightarrow> rauc_image \<Rightarrow> rauc_slot \<Rightarrow> devices \<times> 'w
    \<Rightarrow> (unit result \<times> devices \<times> 'w) option" where
  "copy_adaptive_image_to_dev sha progress fs os get_device_size slots adaptive img slot s =
     (if ''block-hash-index'' \<in> set adaptive
      then copy_block_hash_index_image_to_dev sha progress fs os get_device_size slots img slot s
      else Some (Error (R_UPDATE_ERROR R_UPDATE_ERROR_UNSUPPORTED_ADAPTIVE_MODE), s))"

text \<open>
  The image is extracted by casync, or copied adaptively, or, when that is not possible or fails,
  copied as it is. \<open>casync\<close> and \<open>raw_copy\<close> stand for the calls of \<open>casync_extract_image\<close> and
  \<open>copy_raw_image_to_dev\<close>.
\<close>

definition write_image_to_dev :: "(chunk \<Rightarrow> hash) \<Rightarrow> bool \<Rightarrow> 'w index_files \<Rightarrow> 'w os \<Rightarrow> (nat \<Rightarrow> 64 word result)
    \<Rightarrow> (devices \<times> 'w, unit) io \<Rightarrow> (devices \<times> 'w, unit) io \<Rightarrow> slots \<Rightarrow> rauc_image \<Rightarrow> rauc_slot \<Rightarrow> devices \<times> 'w
    \<Rightarrow> (unit result \<times> devices \<times> 'w) option" where
  "write_image_to_dev sha progress fs os get_device_size casync raw_copy slots img slot s =
     (if (case img_filename img of None \<Rightarrow> False | Some filename \<Rightarrow> g_str_has_suffix filename ''.caibx'') then Some (casync s)
      else case (img_adaptive img, slot_data_directory slot) of
          (Some adaptive, Some _) \<Rightarrow>
            (case copy_adaptive_image_to_dev sha progress fs os get_device_size slots adaptive img slot s of
               None \<Rightarrow> None
             | Some (Ok u, s') \<Rightarrow> Some (Ok (), s')
             | Some (Error e, s') \<Rightarrow> Some (if e = ERROR_UNSET then (Abort, s') else raw_copy s')
             | Some (Abort, s') \<Rightarrow> Some (Abort, s'))
        | _ \<Rightarrow> Some (raw_copy s))"

subsection \<open>Sources deliver what is asked for\<close>

text \<open>A source whose chunks are not checked must hold what its index says, in the valid range.\<close>

definition good_source :: "(chunk \<Rightarrow> hash) \<Rightarrow> devices \<Rightarrow> hash_index \<Rightarrow> bool" where
  "good_source sha devs idx \<longleftrightarrow> index_ok idx \<and> (hi_skip_hash_check idx \<longrightarrow>
     (\<forall>c d. unat c < length (hi_hashes idx) \<and> chunk_valid idx c \<and> r_pread_exact devs (hi_data_fd idx) (unat c) = Ok d
        \<longrightarrow> sha d = hi_hashes idx ! unat c))"

lemma pread_not_Abort [simp]: "r_pread_exact devs fd i \<noteq> Abort"
  by (simp add: r_pread_exact_def split: sum.split)

lemma read_chunk_not_Abort: "read_chunk sha idx h devs c \<noteq> Abort"
  by (cases "r_pread_exact devs (hi_data_fd idx) (unat c)") (auto simp: read_chunk_def)

lemma good_source_get:
  assumes good: "good_source sha devs idx" and h: "length h = 32"
  obtains r where "r_hash_index_get_chunk sha idx h devs = Some r" and "r \<noteq> Abort" and "\<And>d. r = Ok d \<Longrightarrow> sha d = h"
proof (cases "hi_count idx > 0")
  case True
  have ok: "index_ok idx" using good by (simp add: good_source_def)
  show thesis
  proof (cases rule: find_chunk_spec [OF ok h True])
    case (1 p)
    let ?c = "hi_lookup idx ! p"
    have p: "p < length (hi_hashes idx)" using 1(2) index_okD(2) [OF ok] by simp
    have "sha d = h" if d: "read_chunk sha idx h devs ?c = Ok d" for d
    proof (cases "hi_skip_hash_check idx")
      case True
      then have "r_pread_exact devs (hi_data_fd idx) (unat ?c) = Ok d" using d by (auto simp: read_chunk_def io_iff)
      then show ?thesis
        using good True lookup_less [OF ok p] 1(3,4) by (auto simp: good_source_def row_hash_def)
    next
      case False
      then show ?thesis using d by (auto simp: read_chunk_def io_iff split: if_splits)
    qed
    then show thesis
      using 1(1) by (intro that [of "read_chunk sha idx h devs ?c"]) (simp_all add: r_hash_index_get_chunk_def read_chunk_not_Abort)
  next
    case 2
    then show thesis
      by (intro that [of "Error (R_HASH_INDEX_ERROR R_HASH_INDEX_ERROR_NOT_FOUND)"])
        (simp_all add: r_hash_index_get_chunk_def)
  qed
next
  case False
  then show thesis
    by (intro that [of "Error ERROR_UNSET"]) (simp_all add: r_hash_index_get_chunk_def find_chunk_def)
qed

lemma find_source_sound:
  assumes "\<forall>s \<in> set sources. good_source sha devs s" and h: "length h = 32"
  shows "\<exists>r. find_source sha h devs sources = Some (Ok r) \<and> (\<forall>d. r = Some d \<longrightarrow> sha d = h)"
  using assms(1)
proof (induction sources)
  case (Cons s ss)
  obtain r where "r_hash_index_get_chunk sha s h devs = Some r" "r \<noteq> Abort" "\<And>d. r = Ok d \<Longrightarrow> sha d = h"
    using good_source_get [OF _ h] Cons.prems by (metis list.set_intros(1))
  then show ?case using Cons by (cases r) auto
qed simp

text \<open>The image: everything is valid, indexed and readable.\<close>

definition full_source :: "(chunk \<Rightarrow> hash) \<Rightarrow> devices \<Rightarrow> hash_index \<Rightarrow> chunk list \<Rightarrow> bool" where
  "full_source sha devs idx cs \<longleftrightarrow> index_ok idx \<and> hi_skip_hash_check idx \<and> hi_invalid_below idx = 0 \<and>
     hi_invalid_from idx = G_MAXUINT32 \<and> unat (hi_count idx) = length cs \<and> hi_hashes idx = map sha cs \<and>
     dev_chunks (devs (hi_data_fd idx)) = map Inr cs"

lemma full_source_read:
  "full_source sha devs idx cs \<Longrightarrow> unat c < length cs \<Longrightarrow> r_pread_exact devs (hi_data_fd idx) (unat c) = Ok (cs ! unat c)"
  by (simp add: full_source_def r_pread_exact_def)

lemma full_source_good: "full_source sha devs idx cs \<Longrightarrow> good_source sha devs idx"
  by (auto simp: good_source_def full_source_def r_pread_exact_def)

lemma full_source_finds:
  assumes full: "full_source sha devs idx cs" and i: "i < length cs" and h: "length (sha (cs ! i)) = 32"
  shows "\<exists>d. r_hash_index_get_chunk sha idx (sha (cs ! i)) devs = Some (Ok d)"
proof -
  have ok: "index_ok idx" and hs: "hi_hashes idx = map sha cs" "unat (hi_count idx) = length cs"
    and skip: "hi_skip_hash_check idx"
    using full by (auto simp: full_source_def)
  have small: "length cs < 2 ^ 27" using index_okD(1) [OF ok] hs by (simp add: hashes_wf_def)
  have valid: "chunk_valid idx c" if "unat c < length cs" for c
    using full that small
    by (auto simp: full_source_def chunk_valid_def word_less_nat_alt unsigned_minus_1_eq_mask mask_eq_exp_minus_1)
  have pos: "hi_count idx > 0" using hs i by (auto simp: word_less_nat_alt)
  show ?thesis
  proof (cases rule: find_chunk_spec [OF ok h pos])
    case (1 p)
    then have "unat (hi_lookup idx ! p) < length cs" using lookup_less [OF ok, of p] hs by simp
    from full_source_read [OF full this] show ?thesis
      using 1(1) skip by (simp add: r_hash_index_get_chunk_def read_chunk_def)
  next
    case 2
    have u: "unat (of_nat i :: 32 word) = i" using i small by (simp add: unat_of_nat)
    obtain p where p: "p < length cs" "hi_lookup idx ! p = of_nat i" "row_hash idx p = sha (cs ! i)"
      using row_hash_surj [OF ok, of "of_nat i"] i u hs by auto
    then have "chunk_valid idx (hi_lookup idx ! p)" using valid i u by simp
    then show ?thesis using 2(2) [of p] p valid hs by auto
  qed
qed

lemma find_source_finds:
  assumes "\<forall>s \<in> set sources. good_source sha devs s" and "length h = 32"
    and "s \<in> set sources" and "\<exists>d. r_hash_index_get_chunk sha s h devs = Some (Ok d)"
  shows "\<exists>d. find_source sha h devs sources = Some (Ok (Some d))"
  using assms(1,3)
proof (induction sources)
  case (Cons t ts)
  obtain r where r: "r_hash_index_get_chunk sha t h devs = Some r" "r \<noteq> Abort"
    using good_source_get [OF _ assms(2)] Cons.prems(1) by (metis list.set_intros(1))
  show ?case
  proof (cases "s = t")
    case True
    then show ?thesis using assms(4) by auto
  next
    case False
    then show ?thesis using Cons r by (cases r) auto
  qed
qed simp

subsection \<open>The copy loop\<close>

text \<open>The first \<open>n\<close> chunks of the target can be read and written.\<close>

definition target_ready :: "devices \<Rightarrow> nat \<Rightarrow> nat \<Rightarrow> bool" where
  "target_ready devs fd n \<longleftrightarrow> n \<le> length (dev_chunks (devs fd)) \<and>
     (\<forall>i < n. (\<exists>d. dev_chunks (devs fd) ! i = Inr d) \<and> dev_write_errors (devs fd) i = None)"

text \<open>The chunks before \<open>c\<close> have been copied, up to their hash.\<close>

definition copied :: "(chunk \<Rightarrow> hash) \<Rightarrow> devices \<Rightarrow> nat \<Rightarrow> chunk list \<Rightarrow> nat \<Rightarrow> bool" where
  "copied sha devs fd cs c \<longleftrightarrow> (\<forall>j < c. \<exists>d. dev_chunks (devs fd) ! j = Inr d \<and> sha d = sha (cs ! j))"

definition copy_inv :: "(chunk \<Rightarrow> hash) \<Rightarrow> devices \<Rightarrow> nat \<Rightarrow> chunk list \<Rightarrow> nat \<Rightarrow> hash_index list \<Rightarrow> bool" where
  "copy_inv sha devs fd cs c sources \<longleftrightarrow> (\<exists>written old active source.
     sources = written # old # active @ [source] \<and>
     full_source sha devs source cs \<and> hi_data_fd source \<noteq> fd \<and>
     index_ok written \<and> hi_data_fd written = fd \<and> hi_invalid_from written = of_nat c \<and>
     (\<exists>k. hi_hashes written = take k (map sha cs)) \<and>
     (\<forall>s \<in> set (old # active). index_ok s \<and> \<not> hi_skip_hash_check s)) \<and>
     copied sha devs fd cs c \<and> target_ready devs fd (length cs) \<and> length cs < 2 ^ 27"

lemma copy_inv_good:
  assumes "copy_inv sha devs fd cs c sources" and "c \<le> length cs" and "s \<in> set sources"
  shows "good_source sha devs s"
proof -
  obtain written old active source k where sources: "sources = written # old # active @ [source]"
    and full: "full_source sha devs source cs"
    and w: "index_ok written" "hi_data_fd written = fd" "hi_invalid_from written = of_nat c"
      "hi_hashes written = take k (map sha cs)"
    and plain: "\<forall>s \<in> set (old # active). index_ok s \<and> \<not> hi_skip_hash_check s"
    and sofar: "copied sha devs fd cs c" and small: "length cs < 2 ^ 27"
    using assms(1) unfolding copy_inv_def by blast
  have "good_source sha devs written"
  proof (unfold good_source_def, intro conjI impI allI)
    fix i :: "32 word" and d
    assume i: "unat i < length (hi_hashes written) \<and> chunk_valid written i \<and>
      r_pread_exact devs (hi_data_fd written) (unat i) = Ok d"
    have "unat (of_nat c :: 32 word) = c" using assms(2) small by (simp add: unat_of_nat)
    then have "unat i < c" using i w(3) by (simp add: chunk_valid_def word_less_nat_alt)
    then obtain d' where d': "dev_chunks (devs fd) ! unat i = Inr d'" "sha d' = sha (cs ! unat i)"
      using sofar by (auto simp: copied_def)
    then have "d' = d" using i w(2) by (auto simp: r_pread_exact_def split: if_splits)
    then show "sha d = hi_hashes written ! unat i" using d'(2) i w(4) by simp
  qed (rule w(1))
  moreover have "good_source sha devs t" if "t \<in> set (old # active)" for t
    using plain that by (auto simp: good_source_def)
  ultimately show ?thesis
    using assms(3) full_source_good [OF full] by (auto simp: sources)
qed

lemma pread_ready:
  assumes "target_ready devs fd n" and "i < n"
  obtains d where "r_pread_exact devs fd i = Ok d" and "dev_chunks (devs fd) ! i = Inr d"
  using assms that by (auto simp: target_ready_def r_pread_exact_def split: sum.splits)

lemma pwrite_lazy_ready:
  assumes ready: "target_ready devs fd n" and i: "i < n"
  shows "r_pwrite_lazy fd d i devs = (Ok (), set_chunk fd i d devs)"
proof -
  obtain d' where d': "r_pread_exact devs fd i = Ok d'" "dev_chunks (devs fd) ! i = Inr d'"
    using pread_ready [OF assms] .
  have none: "dev_write_errors (devs fd) i = None" using assms by (simp add: target_ready_def)
  have "set_chunk fd i d devs = devs" if "d = d'"
  proof -
    have "(dev_chunks (devs fd))[i := Inr d] = dev_chunks (devs fd)" using d'(2) that by (metis list_update_id)
    then show ?thesis by (simp add: set_chunk_def)
  qed
  then show ?thesis by (auto simp: r_pwrite_lazy_def d' r_pwrite_exact_def none)
qed

lemma set_chunk_simps [simp]:
  "fd' \<noteq> fd \<Longrightarrow> set_chunk fd i d devs fd' = devs fd'"
  "dev_chunks (set_chunk fd i d devs fd) = (dev_chunks (devs fd))[i := Inr d]"
  "dev_write_errors (set_chunk fd i d devs fd') = dev_write_errors (devs fd')"
  by (simp_all add: set_chunk_def)

lemma copy_step:
  assumes inv: "copy_inv sha devs fd cs c sources" and c: "c < length cs"
    and sha: "\<And>x. length (sha x) = 32" and zero: "sha (replicate 4096 0) = R_HASH_INDEX_ZERO_CHUNK"
  obtains d where "next_chunk sha (sha (cs ! c)) devs sources = Some (Ok (Some d))"
    and "copy_inv sha (set_chunk fd c d devs) fd cs (Suc c) (update_limits c sources)"
proof -
  obtain written old active source k where sources: "sources = written # old # active @ [source]"
    and full: "full_source sha devs source cs" "hi_data_fd source \<noteq> fd"
    and w: "index_ok written" "hi_data_fd written = fd" "hi_invalid_from written = of_nat c"
      "hi_hashes written = take k (map sha cs)"
    and plain: "\<forall>s \<in> set (old # active). index_ok s \<and> \<not> hi_skip_hash_check s"
    and rest: "copied sha devs fd cs c" "target_ready devs fd (length cs)" "length cs < 2 ^ 27"
    using inv unfolding copy_inv_def by blast
  have good: "\<forall>s \<in> set sources. good_source sha devs s"
    using copy_inv_good [OF inv] c by simp
  obtain d where d: "next_chunk sha (sha (cs ! c)) devs sources = Some (Ok (Some d))" "sha d = sha (cs ! c)"
  proof (cases "sha (cs ! c) = R_HASH_INDEX_ZERO_CHUNK")
    case True
    then show ?thesis by (intro that [of "replicate 4096 0"]) (simp_all add: next_chunk_def zero)
  next
    case False
    have "memcmp (sha (cs ! c)) R_HASH_INDEX_ZERO_CHUNK \<noteq> 0"
      using False memcmp_eq0 [of "sha (cs ! c)" R_HASH_INDEX_ZERO_CHUNK] sha by (simp add: zero [symmetric])
    moreover obtain d where d: "find_source sha (sha (cs ! c)) devs sources = Some (Ok (Some d))"
      using find_source_finds [OF good sha, of source] full_source_finds [OF full(1) c sha] by (auto simp: sources)
    moreover have "sha d = sha (cs ! c)" using find_source_sound [OF good sha, of "cs ! c"] d by auto
    ultimately show ?thesis by (intro that [of d]) (simp_all add: next_chunk_def)
  qed
  let ?devs = "set_chunk fd c d devs"
  have "full_source sha ?devs source cs" using full by (simp add: full_source_def)
  moreover have "index_ok (written\<lparr>hi_invalid_from := of_nat c + 1\<rparr>)" "index_ok (old\<lparr>hi_invalid_below := of_nat c\<rparr>)"
    using w(1) plain by (simp_all add: index_ok_def)
  moreover have "copied sha ?devs fd cs (Suc c)" "target_ready ?devs fd (length cs)"
    using rest d(2) c by (auto simp: copied_def target_ready_def nth_list_update less_Suc_eq)
  ultimately have "copy_inv sha ?devs fd cs (Suc c) (update_limits c sources)"
    unfolding copy_inv_def sources using full(2) w plain rest(3) by (auto simp: add.commute)
  then show thesis using d(1) that by blast
qed

lemma copy_chunks_Ok:
  assumes sha: "\<And>x. length (sha x) = 32" and zero: "sha (replicate 4096 0) = R_HASH_INDEX_ZERO_CHUNK"
    and "copy_inv sha devs fd cs c sources" and "c \<le> length cs"
  shows "\<exists>devs'. copy_chunks sha fd (map sha cs) [c..<length cs] sources devs = Some (Ok (), devs') \<and>
      copied sha devs' fd cs (length cs) \<and> (\<forall>fd'. fd' \<noteq> fd \<longrightarrow> devs' fd' = devs fd') \<and>
      (\<forall>i \<ge> length cs. dev_chunks (devs' fd) ! i = dev_chunks (devs fd) ! i)"
  using assms(3,4)
proof (induction "length cs - c" arbitrary: c sources devs)
  case 0
  then show ?case by (simp add: copy_inv_def)
next
  case (Suc k)
  then have c: "c < length cs" and upt: "[c..<length cs] = c # [Suc c..<length cs]" by (simp_all add: upt_conv_Cons)
  obtain d where d: "next_chunk sha (sha (cs ! c)) devs sources = Some (Ok (Some d))"
    "copy_inv sha (set_chunk fd c d devs) fd cs (Suc c) (update_limits c sources)"
    using copy_step [OF Suc.prems(1) c sha zero] by blast
  have "target_ready devs fd (length cs)" using Suc.prems(1) by (simp add: copy_inv_def)
  note lazy = pwrite_lazy_ready [OF this c, of d]
  have "k = length cs - Suc c" using Suc.hyps(2) by simp
  from Suc.hyps(1) [OF this d(2)] c show ?case
    unfolding upt by (auto simp: d(1) lazy)
qed

subsection \<open>The whole copy\<close>

text \<open>A call that reports its failures, as \<open>g_warning("...: %s", ierror->message)\<close> expects.\<close>

definition reports_errors :: "('w, 'a) io \<Rightarrow> bool" where
  "reports_errors m \<longleftrightarrow> (\<forall>w. fst (m w) \<noteq> Abort \<and> fst (m w) \<noteq> Error ERROR_UNSET)"

lemma io_warn_reports:
  "reports_errors m \<Longrightarrow> \<exists>r s'. io_warn m s = (Ok r, s') \<and> s' = snd (m s)"
proof -
  assume "reports_errors m"
  then have "fst (m s) \<noteq> Abort" "fst (m s) \<noteq> Error ERROR_UNSET" by (auto simp: reports_errors_def)
  then show ?thesis
    by (cases "m s"; cases "fst (m s)") (auto simp: io_warn_def io_catch_def io_bind_def io_return_def)
qed

definition index_files_wf :: "'w index_files \<Rightarrow> bool" where
  "index_files_wf fs \<longleftrightarrow> (\<forall>name w f. if_map fs name w = Some (Ok f) \<longrightarrow> index_file_wf f)"

lemma open_slot_ok:
  assumes "r_hash_index_open_slot sha progress fs os label slot rw (devs, w) = (Ok idx, devs', w')"
    and "\<And>x. length (sha x) = 32" and "index_files_wf fs"
  shows "index_ok idx \<and> \<not> hi_skip_hash_check idx \<and> devs' = devs \<and> slot_data_directory slot \<noteq> None"
proof -
  let ?dir = "r_slot_get_checksum_data_directory os slot None"
  obtain fd s1 dir s2 where fd: "in_world (if_open fs (slot_device slot) rw) (devs, w) = (Ok fd, s1)"
    and dir: "in_world ?dir s1 = (Ok dir, s2)"
    and idx: "(case dir of None \<Rightarrow> io_fail ERROR_UNSET
        | Some d \<Rightarrow> (\<lambda>(devs, w).
           (r_hash_index_open sha progress devs label fd (if_map fs (g_build_filename d ''block-hash-index'') w), devs, w))) s2
      = (Ok idx, devs', w')"
    using assms(1) unfolding r_hash_index_open_slot_def io_bind_Ok_iff by (elim exE conjE) (rule that)
  have s2: "fst s2 = devs" using fd dir by (auto simp: in_world_def split: prod.splits)
  obtain d where d: "dir = Some d" using idx by (cases dir) (auto simp: io_fail_def)
  have "slot_data_directory slot \<noteq> None"
    using dir d by (cases "slot_data_directory slot") (auto simp: in_world_def r_slot_get_checksum_data_directory_def io_return_def)
  moreover have "devs' = devs"
    and "r_hash_index_open sha progress devs label fd (if_map fs (g_build_filename d ''block-hash-index'') (snd s2)) = Ok idx"
    using idx s2 unfolding d by (cases s2; simp)+
  moreover have "\<not> hi_skip_hash_check idx"
    using calculation(3) by (auto simp: r_hash_index_open_def hash_index_prepare_def io_iff)
  ultimately show ?thesis using r_hash_index_open_ok assms(2,3) unfolding index_files_wf_def by blast
qed

lemma open_image_ok:
  assumes "r_hash_index_open_image sha progress fs label filename (devs, w) = (Ok idx, devs', w')"
    and "\<And>x. length (sha x) = 32" and "index_files_wf fs"
  shows "index_ok idx \<and> hi_invalid_below idx = 0 \<and> hi_invalid_from idx = G_MAXUINT32 \<and> devs' = devs"
proof -
  obtain fd s1 where fd: "in_world (if_open fs filename False) (devs, w) = (Ok fd, s1)"
    and idx: "(case s1 of (devs, w) \<Rightarrow>
        (r_hash_index_open sha progress devs label fd (if_map fs (filename @ ''.block-hash-index'') w), devs, w)) = (Ok idx, devs', w')"
    using assms(1) unfolding r_hash_index_open_image_def io_bind_Ok_iff by (elim exE conjE) (rule that)
  have s1: "fst s1 = devs" using fd by (auto simp: in_world_def split: prod.splits)
  have "r_hash_index_open sha progress devs label fd (if_map fs (filename @ ''.block-hash-index'') (snd s1)) = Ok idx"
    and "devs' = devs"
    using idx s1 by (cases s1; simp)+
  moreover have "hi_invalid_below idx = 0 \<and> hi_invalid_from idx = G_MAXUINT32"
    using calculation(1) by (auto simp: r_hash_index_open_def hash_index_prepare_def io_iff)
  ultimately show ?thesis using r_hash_index_open_ok assms(2,3) unfolding index_files_wf_def by blast
qed

lemma open_active_ok:
  assumes a: "open_active sha progress fs os slots img (devs, w) = (Ok active, devs', w')"
    and sha: "\<And>x. length (sha x) = 32" and files: "index_files_wf fs"
  shows "(\<forall>x \<in> set active. index_ok x \<and> \<not> hi_skip_hash_check x) \<and> devs' = devs"
proof (cases "get_active_slot_class_member slots (img_slotclass img)")
  case None
  then show ?thesis using a by (simp add: open_active_def io_return_def)
next
  case (Some seed)
  then obtain x where x: "r_hash_index_open_slot sha progress fs os ''active_slot'' seed False (devs, w) = (Ok x, devs', w')"
    and "active = [x]"
    using a unfolding open_active_def Some option.case io_bind_Ok_iff by (auto simp: io_return_def)
  then show ?thesis using open_slot_ok [OF x sha files] by simp
qed

lemma open_source_ok:
  assumes i: "open_source sha progress fs img (devs, w) = (Ok source, devs', w')"
    and sha: "\<And>x. length (sha x) = 32" and files: "index_files_wf fs"
  shows "index_ok source \<and> hi_skip_hash_check source \<and> hi_invalid_below source = 0 \<and>
    hi_invalid_from source = G_MAXUINT32 \<and> devs' = devs"
proof (cases "img_filename img")
  case None
  then show ?thesis using i by (simp add: open_source_def io_fail_def)
next
  case (Some f)
  then obtain x where x: "r_hash_index_open_image sha progress fs ''source_image'' f (devs, w) = (Ok x, devs', w')"
    and "source = x\<lparr>hi_skip_hash_check := True\<rparr>"
    using i unfolding open_source_def Some option.case io_bind_Ok_iff by (auto simp: io_return_def)
  then show ?thesis using open_image_ok [OF x sha files] by (simp add: index_ok_def)
qed

lemma open_written_ok:
  assumes "open_written target source s = (Ok written, s')" and "index_ok source"
  shows "index_ok written \<and> hi_invalid_from written = 0 \<and> hi_data_fd written = hi_data_fd target \<and>
    (\<exists>k. hi_hashes written = take k (hi_hashes source)) \<and> s' = s"
proof -
  obtain x where x: "r_hash_index_reuse (fst s) ''target_slot_written'' source (hi_data_fd target) = Ok x"
    using assms(1)
    by (cases "r_hash_index_reuse (fst s) ''target_slot_written'' source (hi_data_fd target)") (simp_all add: open_written_def)
  then have w: "written = x\<lparr>hi_invalid_from := 0, hi_skip_hash_check := True\<rparr>" "s' = s"
    using assms(1) by (simp_all add: open_written_def)
  have "\<exists>k. hi_hashes x = take k (hi_hashes source)" using r_hash_index_reuse_ok(2) [OF x assms(2)] by blast
  then show ?thesis
    using r_hash_index_reuse_ok(1,3) [OF x assms(2)] unfolding w by (simp add: index_ok_def)
qed

lemma open_sources_inv:
  assumes opened: "open_sources sha progress fs os gds slots img slot (devs, w) = (Ok sources, devs1, w1)"
    and sha: "\<And>x. length (sha x) = 32" and files: "index_files_wf fs"
    and source: "hi_hashes (last sources) = map sha cs" "unat (hi_count (last sources)) = length cs"
      "dev_chunks (devs (hi_data_fd (last sources))) = map Inr cs"
    and target: "hi_data_fd (last sources) \<noteq> hi_data_fd (hd sources)" "target_ready devs (hi_data_fd (hd sources)) (length cs)"
  shows "copy_inv sha devs (hi_data_fd (hd sources)) cs 0 sources \<and> devs1 = devs"
proof -
  obtain tgt s1 active s3 src s4 written where
      t: "r_hash_index_open_slot sha progress fs os ''target_slot'' slot True (devs, w) = (Ok tgt, s1)"
    and a: "open_active sha progress fs os slots img s1 = (Ok active, s3)"
    and i: "open_source sha progress fs img s3 = (Ok src, s4)"
    and r: "open_written tgt src s4 = (Ok written, devs1, w1)"
    and sources: "sources = written # tgt # active @ [src]"
    using opened unfolding open_sources_def io_bind_Ok_iff io_lift_iff io_return_iff result.inject
    by (elim exE conjE) (rule that; simp only:)
  obtain d1 w2 d3 w3 d4 w4 where s: "s1 = (d1, w2)" "s3 = (d3, w3)" "s4 = (d4, w4)" by (metis prod.exhaust)
  note ti = open_slot_ok [OF t [unfolded s(1)] sha files]
  then have d1: "d1 = devs" by blast
  note ai = open_active_ok [OF a [unfolded s(1) s(2) d1] sha files]
  then have d3: "d3 = devs" by blast
  note ii = open_source_ok [OF i [unfolded s(2) s(3) d3] sha files]
  then have s4: "d4 = devs" by blast
  note wi = open_written_ok [OF r conjunct1 [OF ii]]
  have "length cs < 2 ^ 27"
    using index_okD(1) [OF conjunct1 [OF ii]] source(1) by (simp add: sources hashes_wf_def)
  moreover have "full_source sha devs src cs" using ii source by (simp add: sources full_source_def)
  ultimately show ?thesis
    using ti ai wi source(1) target s(3) s4 unfolding copy_inv_def sources by (simp add: copied_def)
qed

text \<open>
  C18. The adaptive update does what a plain copy does: when the sources could be opened, the index of
  the image is the index of its content, and the devices can be read and written, the copy succeeds,
  every chunk of the target has the hash of the chunk of the image at its position, and nothing
  behind it and no other device has changed. What the target and the active slot hold, and what their
  indices say, does not matter.
\<close>

theorem adaptive_copy_correct:
  assumes opened: "open_sources sha progress fs os gds slots img slot (devs, w) = (Ok sources, devs1, w1)"
    and sha: "\<And>x. length (sha x) = 32" and zero: "sha (replicate 4096 0) = R_HASH_INDEX_ZERO_CHUNK"
    and files: "index_files_wf fs"
    and source: "hi_hashes (last sources) = map sha cs" "unat (hi_count (last sources)) = length cs"
      "dev_chunks (devs (hi_data_fd (last sources))) = map Inr cs"
    and target: "hi_data_fd (hd sources) = fd" "hi_data_fd (last sources) \<noteq> fd" "target_ready devs fd (length cs)"
    and sync: "if_fsync fs fd w1"
    and export: "reports_errors (r_hash_index_export_slot fs os (last sources) slot (Some (img_checksum img)))"
  shows "\<exists>devs' w'. copy_block_hash_index_image_to_dev sha progress fs os gds slots img slot (devs, w) = Some (Ok (), devs', w') \<and>
    (\<forall>i < length cs. \<exists>d. dev_chunks (devs' fd) ! i = Inr d \<and> sha d = sha (cs ! i)) \<and>
    (\<forall>i \<ge> length cs. dev_chunks (devs' fd) ! i = dev_chunks (devs fd) ! i) \<and>
    (\<forall>fd'. fd' \<noteq> fd \<longrightarrow> devs' fd' = devs fd')"
proof -
  have inv: "copy_inv sha devs fd cs 0 sources" and devs1: "devs1 = devs"
    using open_sources_inv [OF opened sha files source] target by auto
  obtain devs' where loop: "copy_chunks sha fd (map sha cs) [0..<length cs] sources devs = Some (Ok (), devs')"
    and res: "copied sha devs' fd cs (length cs)" "\<forall>fd'. fd' \<noteq> fd \<longrightarrow> devs' fd' = devs fd'"
      "\<forall>i \<ge> length cs. dev_chunks (devs' fd) ! i = dev_chunks (devs fd) ! i"
    using copy_chunks_Ok [OF sha zero inv] by auto
  have "reports_errors (in_world (r_hash_index_export_slot fs os (last sources) slot (Some (img_checksum img)))
      :: (devices \<times> 'a, unit) io)"
    using export by (simp add: reports_errors_def in_world_def split: prod.split) (metis fst_conv)
  then obtain r w2 where "io_warn (in_world (r_hash_index_export_slot fs os (last sources) slot (Some (img_checksum img)))) (devs', w1)
      = (Ok r, devs', w2)"
    using io_warn_reports [of _ "(devs', w1)"] by (fastforce simp: in_world_def split: prod.splits)
  then have "copy_block_hash_index_image_to_dev sha progress fs os gds slots img slot (devs, w) = Some (Ok (), devs', w2)"
    unfolding copy_block_hash_index_image_to_dev_def opened
    by (simp add: devs1 Let_def target(1) source loop sync io_bind_def io_return_def)
  then show ?thesis using res by (auto simp: copied_def)
qed

definition copy_sha :: "chunk \<Rightarrow> hash" where
  "copy_sha c = (if length c = 4096 then R_HASH_INDEX_ZERO_CHUNK else replicate 32 (hd c))"

definition copy_chunk_list :: "chunk list" where
  "copy_chunk_list = [[7], [8]]"

definition copy_devs :: devices where
  "copy_devs fd = \<lparr>dev_size = (if fd = 0 then 12288 else 8192),
     dev_chunks = (if fd = 0 then [Inr [5], Inr [6], Inr [7]] else [Inr [7], Inr [8]]), dev_write_errors = (\<lambda>_. None)\<rparr>"

definition copy_files :: "unit index_files" where
  "copy_files = \<lparr>if_open = (\<lambda>name rw w. (Ok (if name = ''slot'' then 0 else 1), w)), if_map = (\<lambda>name w. None),
     if_write = (\<lambda>name f. io_return ()), if_fsync = (\<lambda>fd w. True)\<rparr>"

definition copy_os :: "unit os" where
  "copy_os = (os_programs (\<lambda>a w. (Not_Exited, w)))\<lparr>os_mkdir_with_parents := (\<lambda>f. io_return ())\<rparr>"

definition copy_slot :: rauc_slot where
  "copy_slot = (slot_new0 ''rootfs.0'' ''rootfs'')\<lparr>slot_device := ''slot'', slot_data_directory := Some ''/data''\<rparr>"

definition copy_image :: rauc_image where
  "copy_image = r_new_image\<lparr>img_filename := Some ''image''\<rparr>"

definition copy_sources :: "hash_index list" where
  "copy_sources = (case open_sources copy_sha False copy_files copy_os (\<lambda>_. Ok 12288) [] copy_image copy_slot (copy_devs, ()) of
     (Ok s, _) \<Rightarrow> s | _ \<Rightarrow> [])"

lemma copy_demo_facts:
  "is_ok (fst (open_sources copy_sha False copy_files copy_os (\<lambda>_. Ok 12288) [] copy_image copy_slot (copy_devs, ())))"
  "hi_data_fd (hd copy_sources) = 0 \<and> hi_data_fd (last copy_sources) = 1 \<and> hi_count (last copy_sources) = 2"
  "hi_hashes (last copy_sources) = map copy_sha copy_chunk_list"
  by code_simp+

theorem adaptive_copy_correct_witness:
  "\<exists>devs' w' d. copy_block_hash_index_image_to_dev copy_sha False copy_files copy_os (\<lambda>_. Ok 12288) [] copy_image copy_slot
      (copy_devs, ()) = Some (Ok (), devs', w') \<and> dev_chunks (devs' 0) ! 1 = Inr d \<and> copy_sha d = copy_sha [8]"
proof -
  obtain devs1 w1 where opened: "open_sources copy_sha False copy_files copy_os (\<lambda>_. Ok 12288) [] copy_image copy_slot (copy_devs, ())
      = (Ok copy_sources, devs1, w1)"
    using copy_demo_facts(1)
    by (cases "open_sources copy_sha False copy_files copy_os (\<lambda>_. Ok 12288) [] copy_image copy_slot (copy_devs, ())")
      (auto simp: copy_sources_def is_ok_iff)
  note facts = copy_demo_facts(2) [THEN conjunct1] copy_demo_facts(2) [THEN conjunct2, THEN conjunct1]
    copy_demo_facts(2) [THEN conjunct2, THEN conjunct2] copy_demo_facts(3)
  have "\<exists>devs' w'. copy_block_hash_index_image_to_dev copy_sha False copy_files copy_os (\<lambda>_. Ok 12288) [] copy_image copy_slot
      (copy_devs, ()) = Some (Ok (), devs', w') \<and>
    (\<forall>i < length copy_chunk_list. \<exists>d. dev_chunks (devs' 0) ! i = Inr d \<and> copy_sha d = copy_sha (copy_chunk_list ! i)) \<and>
    (\<forall>i \<ge> length copy_chunk_list. dev_chunks (devs' 0) ! i = dev_chunks (copy_devs 0) ! i) \<and>
    (\<forall>fd'. fd' \<noteq> 0 \<longrightarrow> devs' fd' = copy_devs fd')"
  proof (rule adaptive_copy_correct [OF opened _ _ _ facts(4) _ _ facts(1)])
    show "index_files_wf copy_files" by (simp add: index_files_wf_def copy_files_def)
    show "target_ready copy_devs 0 (length copy_chunk_list)"
      by (auto simp: target_ready_def copy_devs_def less_Suc_eq copy_chunk_list_def)
    show "reports_errors (r_hash_index_export_slot copy_files copy_os (last copy_sources) copy_slot (Some (img_checksum copy_image)))"
      by (simp add: reports_errors_def r_hash_index_export_slot_def r_slot_get_checksum_data_directory_def copy_slot_def
          copy_os_def copy_files_def Let_def io_return_def io_bind_def)
  qed (simp_all add: copy_sha_def R_HASH_INDEX_ZERO_CHUNK_def facts copy_devs_def copy_files_def copy_chunk_list_def)
  moreover have "1 < length copy_chunk_list" "copy_chunk_list ! 1 = [8]" by (simp_all add: copy_chunk_list_def)
  ultimately show ?thesis by metis
qed

end
