(* ===== verification/Emmc.thy ===== *)
theory Emmc
  imports Boot_Switch Adaptive_Copy
begin

text \<open>
  eMMC boot partitions (\<open>src/src/emmc.c\<close> and \<open>img_to_boot_emmc_handler\<close> in
  \<open>src/src/update_handler.c\<close>). The card has two boot partitions; the register \<open>EXT_CSD_PART_CONFIG\<close>
  says which one is active. Every \<open>open\<close>, \<open>ioctl\<close> and sysfs access is a tick of a clock, and \<open>em_faults\<close>
  says at which ticks the call fails. \<open>em_switch_lost\<close> is the kernel bug that the handler checks for:
  the write to the register has no effect.
\<close>

record emmc =
  em_config :: "8 word"
  em_part :: "nat \<Rightarrow> blk"
  em_read_only :: "nat \<Rightarrow> bool"
  em_clock :: nat
  em_faults :: "nat \<Rightarrow> g_file_error option"
  em_switch_lost :: bool

subsection \<open>The register\<close>

text \<open>A call that may fail at this tick.\<close>

definition em_call :: "(g_file_error \<Rightarrow> gerror) \<Rightarrow> (emmc, unit) io" where
  "em_call err e = (case em_faults e (em_clock e) of None \<Rightarrow> Ok () | Some x \<Rightarrow> Error (err x),
     e\<lparr>em_clock := Suc (em_clock e)\<rparr>)"

abbreviation EMMC_IOCTL :: "g_file_error \<Rightarrow> gerror" where
  "EMMC_IOCTL x \<equiv> R_EMMC_ERROR R_EMMC_ERROR_IOCTL"

definition r_emmc_read_extcsd :: "(emmc, 8 word) io" where
  "r_emmc_read_extcsd = io_bind (em_call EMMC_IOCTL) (\<lambda>_ e. (Ok (em_config e), e))"

text \<open>Active partition 0 or 1, or -1 when the card is not enabled for booting.\<close>

definition decode_bootpart :: "8 word \<Rightarrow> int result" where
  "decode_bootpart v =
     (let active_partition = uint (drop_bit 3 (v AND 0x38)) in
      if active_partition = 0 then Ok (- 1)
      else if active_partition = 1 \<or> active_partition = 2 then Ok (active_partition - 1)
      else if active_partition = 7 then Error (R_EMMC_ERROR R_EMMC_ERROR_BOOTPART_UDA)
      else Error (R_EMMC_ERROR R_EMMC_ERROR_BOOTPART_INVALID))"

definition r_emmc_read_bootpart :: "(emmc, int) io" where
  "r_emmc_read_bootpart =
     io_bind (em_call G_FILE_ERROR) (\<lambda>_. io_bind r_emmc_read_extcsd (\<lambda>v. io_lift (decode_bootpart v)))"

definition r_emmc_write_extcsd :: "8 word \<Rightarrow> (emmc, unit) io" where
  "r_emmc_write_extcsd v = io_bind (em_call EMMC_IOCTL)
     (\<lambda>_ e. (Ok (), if em_switch_lost e then e else e\<lparr>em_config := v\<rparr>))"

definition encode_bootpart :: "8 word \<Rightarrow> int \<Rightarrow> 8 word" where
  "encode_bootpart old bootpart_active =
     (old AND 0x40) OR (if bootpart_active = 0 then 0x08 else if bootpart_active = 1 then 0x10 else 0)"

definition r_emmc_write_bootpart :: "int \<Rightarrow> (emmc, unit) io" where
  "r_emmc_write_bootpart bootpart_active =
     (if \<not> (bootpart_active = 0 \<or> bootpart_active = 1) then io_fail ERROR_UNSET
      else io_bind (em_call G_FILE_ERROR) (\<lambda>_.
        io_bind r_emmc_read_extcsd (\<lambda>v. r_emmc_write_extcsd (encode_bootpart v bootpart_active))))"

text \<open>\<open>/sys/block/.../force_ro\<close>: opening and writing the attribute.\<close>

definition r_emmc_force_part_write :: "nat \<Rightarrow> bool \<Rightarrow> (emmc, unit) io" where
  "r_emmc_force_part_write n ro =
     io_bind (em_call G_FILE_ERROR) (\<lambda>_. io_bind (em_call (\<lambda>_. G_FILE_ERROR G_FILE_ERROR_FAILED))
       (\<lambda>_ e. (Ok (), e\<lparr>em_read_only := (em_read_only e)(n := ro)\<rparr>)))"

definition r_emmc_force_part_ro :: "nat \<Rightarrow> (emmc, unit) io" where
  "r_emmc_force_part_ro n = r_emmc_force_part_write n True"

definition r_emmc_force_part_rw :: "nat \<Rightarrow> (emmc, unit) io" where
  "r_emmc_force_part_rw n = r_emmc_force_part_write n False"

subsection \<open>Writing a boot partition\<close>

text \<open>
  The loop of \<open>clear_slot\<close>: blocks of zeros up to the size limit, or to the end of the device, where
  \<open>G_IO_ERROR_NO_SPACE\<close> is expected.
\<close>

definition CLEAR_BLOCK_SIZE :: nat where
  "CLEAR_BLOCK_SIZE = 1024"

function clear_slot_loop :: "nat \<Rightarrow> nat \<Rightarrow> (blk, unit) io" where
  "clear_slot_loop size_limit total_written b =
     (let write_size = (if size_limit > 0 \<and> total_written + CLEAR_BLOCK_SIZE > size_limit
        then size_limit - total_written else CLEAR_BLOCK_SIZE) in
      case blk_write total_written (replicate write_size 0) b of
        (None, b') \<Rightarrow> (if bd_faults b (bd_clock b) then Error (G_IO_ERROR 0) else Ok (), b')
      | (Some n, b') \<Rightarrow>
          if size_limit > 0 \<and> total_written + n \<ge> size_limit then (Ok (), b')
          else if n = 0 then (Ok (), b')
          else clear_slot_loop size_limit (total_written + n) b')"
  by pat_completeness auto

termination
proof (relation "measure (\<lambda>(l, t, b). length (bd_bytes b) - t)", simp, goal_cases)
  case (1 l t b x xa y x2)
  then have w: "blk_write t (replicate x 0) b = (Some x2, y)" by simp
  have "x2 \<noteq> 0" using 1 by simp
  then show ?case using blk_write_Some(1,4) [OF w] by simp
qed

declare clear_slot_loop.simps [simp del]

definition clear_slot :: "64 word \<Rightarrow> (blk, unit) io" where
  "clear_slot size_limit = io_bind blk_open (\<lambda>_. clear_slot_loop (unat size_limit) 0)"

definition copy_raw_image_to_dev :: "image_source result \<Rightarrow> rauc_image \<Rightarrow> rauc_slot \<Rightarrow> (blk, unit) io" where
  "copy_raw_image_to_dev file img slot =
     io_bind blk_open (\<lambda>_ b.
       io_bind (io_lift (check_image_size (Ok (of_nat (length (bd_bytes b)))) slot img))
         (\<lambda>_. copy_raw_image file (cs_size (img_checksum img)) 0 0) b)"

definition on_part :: "nat \<Rightarrow> (blk, 'a) io \<Rightarrow> (emmc \<times> 'w, 'a) io" where
  "on_part n m s = (case m (em_part (fst s) n) of
     (r, b') \<Rightarrow> (r, (fst s)\<lparr>em_part := (em_part (fst s))(n := b')\<rparr>, snd s))"

definition on_card :: "(emmc, 'a) io \<Rightarrow> (emmc \<times> 'w, 'a) io" where
  "on_card m s = (case m (fst s) of (r, e') \<Rightarrow> (r, e', snd s))"

text \<open>
  \<open>copy_img_to_emmc_bootpart\<close>. The slot is the temporary one of the handler: it has a device and a size
  limit and nothing else.
\<close>

definition part_slot :: "string \<Rightarrow> hook_slot" where
  "part_slot device = \<lparr>hs_name = None, hs_sclass = None, hs_type = None, hs_device = device, hs_state = ST_UNKNOWN,
     hs_bootname = None, hs_parent = None, hs_mount_point = None, hs_ext_mount_point = None\<rparr>"

definition copy_img_to_emmc_bootpart :: "(emmc \<times> 'w) hook_runner \<Rightarrow> hook_context \<Rightarrow> image_source result \<Rightarrow> rauc_image
    \<Rightarrow> rauc_slot \<Rightarrow> nat \<Rightarrow> string \<Rightarrow> string option \<Rightarrow> (string \<times> string) list \<Rightarrow> (emmc \<times> 'w, unit) io" where
  "copy_img_to_emmc_bootpart run hc file img slot n device hook_name vars =
     io_catch
       (io_bind (on_card (r_emmc_force_part_rw n)) (\<lambda>_.
        io_bind (pre_install_hook run hc hook_name img (part_slot device) vars) (\<lambda>_.
        io_bind (on_part n (clear_slot (slot_size_limit slot))) (\<lambda>_.
        io_bind (on_part n (copy_raw_image_to_dev file img slot)) (\<lambda>_.
        io_bind (post_install_hook run hc hook_name img (part_slot device) vars) (\<lambda>_.
        on_card (r_emmc_force_part_ro n)))))))
       (\<lambda>e. io_bind (io_catch (on_card (r_emmc_force_part_ro n)) (\<lambda>_. io_return ())) (\<lambda>_. io_fail e))"

definition INACTIVE_BOOT_PARTITION :: "int \<Rightarrow> nat" where
  "INACTIVE_BOOT_PARTITION part_active = nat ((part_active + 1) mod 2)"

definition emmc_vars :: "string \<Rightarrow> nat \<Rightarrow> rauc_slot \<Rightarrow> (string \<times> string) list" where
  "emmc_vars realdev n slot = [(''RAUC_BOOT_PARTITION_ACTIVATING'', int_str (int n)),
     (''RAUC_BOOT_SIZE_LIMIT'', int_str (uint (slot_size_limit slot))), (''RAUC_SLOT_DEVICE'', realdev)]"

definition img_to_boot_emmc_handler :: "(emmc \<times> 'w) hook_runner \<Rightarrow> hook_context \<Rightarrow> image_source result \<Rightarrow> rauc_image
    \<Rightarrow> rauc_slot \<Rightarrow> string option \<Rightarrow> string option \<Rightarrow> (emmc \<times> 'w, unit) io" where
  "img_to_boot_emmc_handler run hc file img slot real_device hook_name = (case real_device of
      None \<Rightarrow> io_fail UPDATE_FAILED
    | Some realdev \<Rightarrow>
        io_bind (on_card r_emmc_read_bootpart) (\<lambda>found.
          let part_active = (if found = - 1 then 1 else found);
              n = INACTIVE_BOOT_PARTITION part_active;
              device = realdev @ ''boot'' @ int_str (int n) in
          io_bind (copy_img_to_emmc_bootpart run hc file img slot n device hook_name (emmc_vars realdev n slot)) (\<lambda>_.
          io_bind (on_card (r_emmc_write_bootpart (int n))) (\<lambda>_.
          io_bind (on_card r_emmc_read_bootpart) (\<lambda>part_active_after.
            if part_active = part_active_after then io_fail UPDATE_FAILED else io_return ())))))"

subsection \<open>The register\<close>

lemma encode_masked: "encode_bootpart v 0 AND 0x38 = 0x08" "encode_bootpart v 1 AND 0x38 = 0x10"
  by (simp_all add: encode_bootpart_def and.assoc bit.conj_disj_distrib2)

lemma decode_encode: "n = 0 \<or> n = 1 \<Longrightarrow> decode_bootpart (encode_bootpart v n) = Ok n"
proof (elim disjE)
  show "n = 0 \<Longrightarrow> decode_bootpart (encode_bootpart v n) = Ok n"
    unfolding decode_bootpart_def by (simp only: encode_masked) simp
  show "n = 1 \<Longrightarrow> decode_bootpart (encode_bootpart v n) = Ok n"
    unfolding decode_bootpart_def by (simp only: encode_masked) simp
qed

lemma encode_keeps_ack: "n = 0 \<or> n = 1 \<Longrightarrow> encode_bootpart v n AND 0x40 = v AND 0x40"
  by (auto simp: encode_bootpart_def bit.conj_disj_distrib2 and.assoc)

lemma em_call_state: "em_call err e = (r, e') \<Longrightarrow> e' = e\<lparr>em_clock := Suc (em_clock e)\<rparr> \<and> r \<noteq> Abort"
  by (auto simp: em_call_def split: option.splits)

lemma em_call_Ok [io_iff]: "em_call err e = (Ok u, e') \<longleftrightarrow> em_faults e (em_clock e) = None \<and> e' = e\<lparr>em_clock := Suc (em_clock e)\<rparr>"
  by (auto simp: em_call_def split: option.splits)

lemma read_extcsd_Ok [io_iff]:
  "r_emmc_read_extcsd e = (Ok v, e') \<longleftrightarrow> em_faults e (em_clock e) = None \<and> v = em_config e \<and> e' = e\<lparr>em_clock := Suc (em_clock e)\<rparr>"
  by (auto simp: r_emmc_read_extcsd_def io_iff)

lemma read_bootpart_Ok:
  assumes "r_emmc_read_bootpart e = (Ok n, e')"
  shows "decode_bootpart (em_config e) = Ok n" and "e' = e\<lparr>em_clock := Suc (Suc (em_clock e))\<rparr>"
  using assms by (auto simp: r_emmc_read_bootpart_def io_iff)

lemma write_bootpart_Ok:
  assumes "r_emmc_write_bootpart n e = (Ok (), e')"
  shows "n = 0 \<or> n = 1"
    and "e' = e\<lparr>em_clock := Suc (Suc (Suc (em_clock e))),
      em_config := if em_switch_lost e then em_config e else encode_bootpart (em_config e) n\<rparr>"
  using assms by (auto simp: r_emmc_write_bootpart_def r_emmc_write_extcsd_def io_iff io_fail_def split: if_splits)

text \<open>
  The boot partition that was set is the one that is read afterwards, and the acknowledge bit of
  the register, which some boot ROMs need, is kept.
\<close>

theorem emmc_bootpart_roundtrip:
  assumes "r_emmc_write_bootpart n e = (Ok (), e')" and "\<not> em_switch_lost e"
    and "em_faults e' (em_clock e') = None" and "em_faults e' (Suc (em_clock e')) = None"
  shows "fst (r_emmc_read_bootpart e') = Ok n \<and> em_config e' AND 0x40 = em_config e AND 0x40"
proof -
  have "em_config e' = encode_bootpart (em_config e) n" and n: "n = 0 \<or> n = 1"
    using write_bootpart_Ok [OF assms(1)] assms(2) by auto
  then show ?thesis
    using assms(3,4) decode_encode [OF n] encode_keeps_ack [OF n]
    by (simp add: r_emmc_read_bootpart_def r_emmc_read_extcsd_def em_call_def io_bind_def io_lift_def)
qed

definition emmc_demo :: emmc where
  "emmc_demo = \<lparr>em_config = 0x48, em_part = (\<lambda>_. mbr_demo), em_read_only = (\<lambda>_. True), em_clock = 0,
     em_faults = (\<lambda>_. None), em_switch_lost = False\<rparr>"

theorem emmc_bootpart_roundtrip_witness:
  "fst (r_emmc_read_bootpart (snd (r_emmc_write_bootpart 1 emmc_demo))) = Ok 1"
proof -
  have "r_emmc_write_bootpart 1 emmc_demo = (Ok (), snd (r_emmc_write_bootpart 1 emmc_demo))"
    by (simp add: r_emmc_write_bootpart_def r_emmc_read_extcsd_def r_emmc_write_extcsd_def em_call_def io_bind_def emmc_demo_def)
  from emmc_bootpart_roundtrip [OF this] write_bootpart_Ok(2) [OF this] show ?thesis by (simp add: emmc_demo_def)
qed

subsection \<open>The update\<close>

definition hook_keeps_card :: "(emmc \<times> 'w) hook_runner \<Rightarrow> bool" where
  "hook_keeps_card run \<longleftrightarrow> (\<forall>h c env s. fst (snd (run h c env s)) = fst s)"

lemma card_hooks_keep:
  assumes "hook_keeps_card run"
  shows "preserves (\<lambda>s. v (fst s)) (pre_install_hook run hc h img slot vars)"
    and "preserves (\<lambda>s. v (fst s)) (post_install_hook run hc h img slot vars)"
proof -
  have step: "preserves (\<lambda>s. v (fst s)) (\<lambda>s. case run x y z s of (p, s') \<Rightarrow> (proc_wait_check p, s'))" for x y z
    using assms by (simp add: preserves_def hook_keeps_card_def split_beta)
  have "preserves (\<lambda>s. v (fst s)) (run_slot_hook_extra_env run hc x c i slot vars)" for x c i
    by (cases "hs_name slot"; cases "hs_sclass slot")
      (simp_all add: run_slot_hook_extra_env_def preserves_basic preserves_bind step)
  then show "preserves (\<lambda>s. v (fst s)) (pre_install_hook run hc h img slot vars)"
    "preserves (\<lambda>s. v (fst s)) (post_install_hook run hc h img slot vars)"
    by (auto simp: pre_install_hook_def post_install_hook_def intro!: preserves_intros)
qed

lemma force_part_state:
  "r_emmc_force_part_write n ro e = (r, e') \<Longrightarrow>
     em_part e' = em_part e \<and> em_config e' = em_config e \<and> em_switch_lost e' = em_switch_lost e"
  by (auto simp: r_emmc_force_part_write_def io_bind_def em_call_def split: option.splits)

lemma force_part_keeps:
  assumes "\<And>e e'. em_part e' = em_part e \<Longrightarrow> em_config e' = em_config e \<Longrightarrow> em_switch_lost e' = em_switch_lost e \<Longrightarrow> v e' = v e"
  shows "preserves (\<lambda>s. v (fst s)) (on_card (r_emmc_force_part_write n ro))"
  unfolding preserves_def
proof
  fix s
  obtain r e' where f: "r_emmc_force_part_write n ro (fst s) = (r, e')" by fastforce
  have "v e' = v (fst s)" using force_part_state [OF f] by (intro assms) simp_all
  then show "v (fst (snd (on_card (r_emmc_force_part_write n ro) s))) = v (fst s)" by (simp add: on_card_def f)
qed

text \<open>Everything but the partition that is written stays as it is.\<close>

lemma copy_img_keeps:
  assumes "hook_keeps_card run"
    and v: "\<And>e e'. (\<forall>k. k \<noteq> n \<longrightarrow> em_part e' k = em_part e k) \<Longrightarrow> em_config e' = em_config e \<Longrightarrow>
      em_switch_lost e' = em_switch_lost e \<Longrightarrow> v e' = v e"
  shows "preserves (\<lambda>s. v (fst s)) (copy_img_to_emmc_bootpart run hc file img slot n device h vars)"
proof -
  have part: "preserves (\<lambda>s. v (fst s)) (on_part n m)" for m :: "(blk, unit) io"
    unfolding preserves_def on_part_def by (auto intro: v split: prod.split)
  have force: "preserves (\<lambda>s. v (fst s)) (on_card (r_emmc_force_part_write n ro))" for ro
    by (rule force_part_keeps) (auto intro: v)
  show ?thesis
    unfolding copy_img_to_emmc_bootpart_def r_emmc_force_part_ro_def r_emmc_force_part_rw_def
    by (intro preserves_intros part force card_hooks_keep [OF assms(1)])
qed

lemma on_card_Ok [io_iff]: "on_card m s = (Ok x, s') \<longleftrightarrow> m (fst s) = (Ok x, fst s') \<and> snd s' = snd s"
  by (cases s'; cases "m (fst s)") (auto simp: on_card_def)

lemma clear_slot_length:
  "clear_slot_loop l t b = (r, b') \<Longrightarrow> length (bd_bytes b') = length (bd_bytes b) \<and> same_params b b'"
proof (induction l t b rule: clear_slot_loop.induct)
  case (1 l t b)
  define x where "x = (if l > 0 \<and> t + CLEAR_BLOCK_SIZE > l then l - t else CLEAR_BLOCK_SIZE)"
  show ?case
  proof (cases "blk_write t (replicate x 0) b")
    case (Pair o1 b1)
    show ?thesis
    proof (cases o1)
      case None
      then have "b' = b1" using "1.prems" Pair by (subst (asm) clear_slot_loop.simps) (simp add: x_def Let_def)
      then show ?thesis using blk_write_None [of t "replicate x 0" b b1] Pair None by simp
    next
      case (Some k)
      note w = blk_write_written(1) [OF Pair [unfolded Some]]
      then have same: "length (bd_bytes b1) = length (bd_bytes b)" "same_params b b1"
        using written_length by (auto simp: written_def)
      show ?thesis
      proof (cases "l > 0 \<and> t + k \<ge> l \<or> k = 0")
        case True
        then have "b' = b1" using "1.prems" Pair Some by (subst (asm) clear_slot_loop.simps) (auto simp: x_def Let_def split: if_splits)
        then show ?thesis using same by simp
      next
        case False
        then have "clear_slot_loop l (t + k) b1 = (r, b')"
          using "1.prems" Pair Some by (subst (asm) clear_slot_loop.simps) (auto simp: x_def Let_def split: if_splits)
        then have "length (bd_bytes b') = length (bd_bytes b1) \<and> same_params b1 b'"
          using "1.IH" [OF x_def Pair [symmetric] Some] False by auto
        then show ?thesis using same same_params_trans by auto
      qed
    qed
  qed
qed

lemma sint_of_length: "n < 2 ^ 63 \<Longrightarrow> sint (of_nat n :: 64 word) = int n"
  by (simp add: sint_uint uint_nat unat_of_nat signed_take_bit_int_eq_self)

lemma copy_to_dev_Ok:
  assumes "copy_raw_image_to_dev (Ok src) img slot b = (Ok (), b')" and "image_matches src (cs_size (img_checksum img))"
    and "length (bd_bytes b) < 2 ^ 63"
  shows "holds_image src 0 b'"
proof -
  let ?sz = "cs_size (img_checksum img)" and ?len = "of_nat (length (bd_bytes b)) :: 64 word"
  have c: "check_image_size (Ok ?len) slot img = Ok ()"
    and r: "copy_raw_image (Ok src) ?sz 0 0 b = (Ok (), b')"
    using assms(1) by (auto simp: copy_raw_image_to_dev_def io_iff blk_open_def split: if_splits)
  have "sint ?sz \<le> sint ?len" using c by (simp add: check_image_size_def Let_def split: if_splits)
  moreover have "sint ?len = int (length (bd_bytes b))"
    using assms(3) by (intro sint_of_length) simp
  ultimately have "length (src_bytes src) \<le> length (bd_bytes b)" using assms(2) by (simp add: image_matches_def)
  then have "written 0 (src_bytes src) b b'" using copy_raw_image_written [OF r assms(2)] by simp
  from written_inside [OF this] show ?thesis by (simp add: holds_image_def)
qed

lemma copy_img_Ok:
  assumes "copy_img_to_emmc_bootpart run hc (Ok src) img slot n device h vars (e, w) = (Ok (), e', w')"
    and "hook_keeps_card run" and "image_matches src (cs_size (img_checksum img))" and "length (bd_bytes (em_part e n)) < 2 ^ 63"
  shows "holds_image src 0 (em_part e' n)"
proof -
  let ?pre = "pre_install_hook run hc h img (part_slot device) vars" and ?post = "post_install_hook run hc h img (part_slot device) vars"
  obtain s1 s2 s3 s4 s5 where
      s1: "on_card (r_emmc_force_part_rw n) (e, w) = (Ok (), s1)" and s2: "?pre s1 = (Ok (), s2)"
    and s3: "on_part n (clear_slot (slot_size_limit slot)) s2 = (Ok (), s3)"
    and s4: "on_part n (copy_raw_image_to_dev (Ok src) img slot) s3 = (Ok (), s4)"
    and s5: "?post s4 = (Ok (), s5)" and s6: "on_card (r_emmc_force_part_ro n) s5 = (Ok (), e', w')"
    using assms(1) unfolding copy_img_to_emmc_bootpart_def io_catch_Ok_iff io_bind_Ok_iff
    by (auto simp: io_fail_def)
  have "em_part (fst s1) = em_part e" using s1 by (auto simp: io_iff r_emmc_force_part_rw_def dest: force_part_state)
  moreover have "fst s2 = fst s1" using preservesD [OF card_hooks_keep(1) [OF assms(2), where v = "\<lambda>x. x"] s2] .
  ultimately have p2: "em_part (fst s2) n = em_part e n" by simp
  obtain b3 where b3: "clear_slot (slot_size_limit slot) (em_part (fst s2) n) = (Ok (), b3)" "em_part (fst s3) n = b3"
    using s3 by (cases "clear_slot (slot_size_limit slot) (em_part (fst s2) n)") (auto simp: on_part_def)
  have "length (bd_bytes b3) = length (bd_bytes (em_part e n))"
    using b3(1) p2 clear_slot_length by (auto simp: clear_slot_def io_iff blk_open_def split: if_splits)
  then have len: "length (bd_bytes (em_part (fst s3) n)) < 2 ^ 63" using b3(2) assms(4) by simp
  obtain b4 where b4: "copy_raw_image_to_dev (Ok src) img slot (em_part (fst s3) n) = (Ok (), b4)" "em_part (fst s4) n = b4"
    using s4 by (cases "copy_raw_image_to_dev (Ok src) img slot (em_part (fst s3) n)") (auto simp: on_part_def)
  have "holds_image src 0 (em_part (fst s4) n)" using copy_to_dev_Ok [OF b4(1) assms(3) len] b4(2) by simp
  moreover have "fst s5 = fst s4" using preservesD [OF card_hooks_keep(2) [OF assms(2), where v = "\<lambda>x. x"] s5] .
  moreover have "em_part e' = em_part (fst s5)" using s6 by (auto simp: io_iff r_emmc_force_part_ro_def dest: force_part_state)
  ultimately show ?thesis by simp
qed

lemma io_bindE:
  assumes "io_bind m k s = (r, s'')"
  obtains (stop) r' where "m s = (r', s'')" "\<And>y. r \<noteq> Ok y"
  | (go) x s' where "m s = (Ok x, s')" "k x s' = (r, s'')"
  using assms by (cases "m s"; cases "fst (m s)") (auto simp: io_bind_def)

text \<open>The partitions, and whether the card loses switches, are the same.\<close>

definition same_card :: "emmc \<Rightarrow> emmc \<Rightarrow> bool" where
  "same_card e e' \<longleftrightarrow> em_part e' = em_part e \<and> em_switch_lost e' = em_switch_lost e"

lemma read_bootpart_state:
  assumes "on_card r_emmc_read_bootpart s = (r, s')"
  shows "same_card (fst s) (fst s') \<and> em_config (fst s') = em_config (fst s)"
  using assms
  by (auto simp: on_card_def r_emmc_read_bootpart_def r_emmc_read_extcsd_def io_bind_def em_call_def io_lift_def same_card_def
      split: option.splits prod.splits result.splits)

lemma write_bootpart_state:
  assumes "on_card (r_emmc_write_bootpart n) s = (r, s')"
  shows "same_card (fst s) (fst s') \<and> (em_config (fst s') = em_config (fst s) \<or> em_config (fst s') = encode_bootpart (em_config (fst s)) n)"
  using assms
  by (auto simp: on_card_def r_emmc_write_bootpart_def r_emmc_read_extcsd_def r_emmc_write_extcsd_def io_bind_def em_call_def
      io_fail_def same_card_def split: option.splits prod.splits result.splits if_splits)

text \<open>What holds of the card at every exit of the handler, and what more if it succeeds.\<close>

definition emmc_bootable :: "image_source \<Rightarrow> nat \<Rightarrow> emmc \<Rightarrow> emmc \<Rightarrow> bool" where
  "emmc_bootable src n e e' \<longleftrightarrow> (\<forall>k. k \<noteq> n \<longrightarrow> em_part e' k = em_part e k) \<and>
     (em_config e' = em_config e \<or>
      em_config e' = encode_bootpart (em_config e) (int n) \<and> holds_image src 0 (em_part e' n))"

lemma copy_img_card:
  assumes "copy_img_to_emmc_bootpart run hc file img slot n device h vars s = (r, s')" and "hook_keeps_card run"
  shows "(\<forall>k. k \<noteq> n \<longrightarrow> em_part (fst s') k = em_part (fst s) k) \<and> em_config (fst s') = em_config (fst s)"
proof -
  have "em_part (fst s') k = em_part (fst s) k" if "k \<noteq> n" for k
    using preservesD [OF copy_img_keeps [OF assms(2), of n "\<lambda>e. em_part e k"] assms(1)] that by blast
  moreover have "em_config (fst s') = em_config (fst s)"
    using preservesD [OF copy_img_keeps [OF assms(2), of n em_config] assms(1)] by blast
  ultimately show ?thesis by blast
qed

lemma emmc_after_read:
  assumes run: "io_bind (copy_img_to_emmc_bootpart run hc (Ok src) img slot n device h vars) (\<lambda>_.
      io_bind (on_card (r_emmc_write_bootpart (int n))) (\<lambda>_. io_bind (on_card r_emmc_read_bootpart) (\<lambda>after.
        if act = after then io_fail UPDATE_FAILED else io_return ()))) s = (r, (e', w'))"
    and hooks: "hook_keeps_card run" and img: "image_matches src (cs_size (img_checksum img))"
    and len: "length (bd_bytes (em_part (fst s) n)) < 2 ^ 63" and n: "n < 2"
  shows "emmc_bootable src n (fst s) e' \<and>
    (r = Ok () \<longrightarrow> holds_image src 0 (em_part e' n) \<and> (\<exists>after. after \<noteq> act \<and> decode_bootpart (em_config e') = Ok after))"
  using run
proof (cases rule: io_bindE)
  case (stop r1)
  then show ?thesis using copy_img_card [OF stop(1) hooks] by (simp add: emmc_bootable_def)
next
  case copy: (go x s1)
  have holds: "holds_image src 0 (em_part (fst s1) n)"
    using copy_img_Ok [of run hc src img slot n device h vars "fst s" "snd s" "fst s1" "snd s1"] copy(1) hooks img len by simp
  note keep = copy_img_card [OF copy(1) hooks]
  from copy(2) show ?thesis
  proof (cases rule: io_bindE)
    case (stop r2)
    then show ?thesis using write_bootpart_state [OF stop(1)] keep holds by (auto simp: emmc_bootable_def same_card_def)
  next
    case wr: (go x2 s2)
    note e2 = write_bootpart_state [OF wr(1)]
    from wr(2) show ?thesis
    proof (cases rule: io_bindE)
      case (stop r3)
      then show ?thesis using read_bootpart_state [OF stop(1)] e2 keep holds by (auto simp: emmc_bootable_def same_card_def)
    next
      case rd: (go after s3)
      then have e': "s3 = (e', w')" "r = Ok () \<Longrightarrow> after \<noteq> act" by (auto simp: io_fail_def io_return_def split: if_splits)
      note e3 = read_bootpart_state [OF rd(1)]
      have "decode_bootpart (em_config e') = Ok after"
        using rd(1) e3 e'(1) read_bootpart_Ok(1) [of "fst s2" after "fst s3"] by (simp add: io_iff)
      then show ?thesis using e2 e3 e' keep holds by (auto simp: emmc_bootable_def same_card_def)
    qed
  qed
qed

text \<open>
  C23. An update of an eMMC boot partition leaves the card bootable at every exit, whatever calls fail
  and whatever is written: the other boot partition is untouched, and the register either still selects
  what it selected before or selects the new partition, which then holds the whole image. If the
  handler reports success and the card was enabled for booting, the register was really switched, even
  on a kernel that loses the switch.
\<close>

theorem emmc_update_safe:
  assumes run: "img_to_boot_emmc_handler run hc (Ok src) img slot real_device h (e, w) = (r, e', w')"
    and found: "decode_bootpart (em_config e) = Ok found"
    and hooks: "hook_keeps_card run" and img: "image_matches src (cs_size (img_checksum img))"
    and len: "\<And>k. length (bd_bytes (em_part e k)) < 2 ^ 63"
  shows "emmc_bootable src (INACTIVE_BOOT_PARTITION found) e e' \<and>
    (r = Ok () \<longrightarrow> holds_image src 0 (em_part e' (INACTIVE_BOOT_PARTITION found)) \<and>
       (found \<noteq> - 1 \<longrightarrow> decode_bootpart (em_config e') = Ok (int (INACTIVE_BOOT_PARTITION found))))"
proof -
  let ?n = "INACTIVE_BOOT_PARTITION found"
  define act where "act = (if found = - 1 then 1 else found)"
  have n: "INACTIVE_BOOT_PARTITION act = ?n" by (simp add: act_def INACTIVE_BOOT_PARTITION_def)
  show ?thesis
  proof (cases real_device)
    case None
    then show ?thesis using run by (auto simp: img_to_boot_emmc_handler_def io_fail_def emmc_bootable_def)
  next
    case (Some dev)
    let ?copy = "copy_img_to_emmc_bootpart run hc (Ok src) img slot ?n (dev @ ''boot'' @ int_str (int ?n)) h (emmc_vars dev ?n slot)"
    let ?last = "\<lambda>after. if act = after then io_fail UPDATE_FAILED else io_return ()"
    have bind: "io_bind (on_card r_emmc_read_bootpart) (\<lambda>f. let part_active = (if f = - 1 then 1 else f);
        n = INACTIVE_BOOT_PARTITION part_active; device = dev @ ''boot'' @ int_str (int n) in
        io_bind (copy_img_to_emmc_bootpart run hc (Ok src) img slot n device h (emmc_vars dev n slot)) (\<lambda>_.
        io_bind (on_card (r_emmc_write_bootpart (int n))) (\<lambda>_. io_bind (on_card r_emmc_read_bootpart) (\<lambda>part_active_after.
          if part_active = part_active_after then io_fail UPDATE_FAILED else io_return ())))) (e, w) = (r, (e', w'))"
      using run unfolding img_to_boot_emmc_handler_def Some option.case .
    then show ?thesis
    proof (cases rule: io_bindE)
      case (stop r1)
      then show ?thesis using read_bootpart_state [OF stop(1)] by (simp add: emmc_bootable_def same_card_def)
    next
      case first: (go f s1)
      have e1: "same_card e (fst s1)" "em_config (fst s1) = em_config e" using read_bootpart_state [OF first(1)] by simp_all
      have "f = found" using first(1) read_bootpart_Ok(1) [of e f "fst s1"] found by (simp add: io_iff)
      then have "io_bind ?copy (\<lambda>_. io_bind (on_card (r_emmc_write_bootpart (int ?n)))
          (\<lambda>_. io_bind (on_card r_emmc_read_bootpart) ?last)) s1 = (r, (e', w'))"
        using first(2) unfolding Let_def by (simp only: act_def [symmetric] n)
      from emmc_after_read [OF this hooks img] have after: "emmc_bootable src ?n (fst s1) e' \<and>
          (r = Ok () \<longrightarrow> holds_image src 0 (em_part e' ?n) \<and> (\<exists>after. after \<noteq> act \<and> decode_bootpart (em_config e') = Ok after))"
        using len e1(1) by (simp add: same_card_def INACTIVE_BOOT_PARTITION_def nat_less_iff)
      have "decode_bootpart (em_config e') = Ok (int ?n)" if sw: "found \<noteq> - 1 \<and> r = Ok ()"
      proof -
        obtain after where a: "after \<noteq> act" "decode_bootpart (em_config e') = Ok after" using after sw by blast
        have "act = found" using sw by (simp add: act_def)
        then have "em_config e' \<noteq> em_config e" using a found by auto
        then have "em_config e' = encode_bootpart (em_config e) (int ?n)"
          using after e1(2) by (simp add: emmc_bootable_def)
        moreover have "int ?n = 0 \<or> int ?n = 1" unfolding INACTIVE_BOOT_PARTITION_def by auto
        ultimately show ?thesis using decode_encode by simp
      qed
      moreover have "emmc_bootable src ?n e e'" using after e1 by (simp add: emmc_bootable_def same_card_def)
      ultimately show ?thesis using after by blast
    qed
  qed
qed

definition emmc_demo_hooks :: "(emmc \<times> unit) hook_runner" where
  "emmc_demo_hooks h c env s = (Exited 0 [], s)"

definition emmc_demo_card :: emmc where
  "emmc_demo_card = emmc_demo\<lparr>em_part := (\<lambda>_. boot_demo_device), em_faults := (\<lambda>k. if k = 5 then Some G_FILE_ERROR_FAILED else None)\<rparr>"

theorem emmc_update_safe_witness:
  "\<exists>r e' w'. img_to_boot_emmc_handler emmc_demo_hooks boot_demo_context (Ok boot_demo_source) boot_demo_image boot_demo_slot
      (Some ''/dev/mmcblk0'') None (emmc_demo_card, ()) = (r, e', w') \<and> emmc_bootable boot_demo_source 1 emmc_demo_card e'"
proof -
  obtain r e' w' where run: "img_to_boot_emmc_handler emmc_demo_hooks boot_demo_context (Ok boot_demo_source) boot_demo_image
      boot_demo_slot (Some ''/dev/mmcblk0'') None (emmc_demo_card, ()) = (r, e', w')"
    by (metis prod_cases3)
  have "decode_bootpart (em_config emmc_demo_card) = Ok 0"
    by (simp add: decode_bootpart_def emmc_demo_card_def emmc_demo_def)
  moreover have "hook_keeps_card emmc_demo_hooks" by (simp add: hook_keeps_card_def emmc_demo_hooks_def)
  moreover have "image_matches boot_demo_source (cs_size (img_checksum boot_demo_image))"
    using boot_demo_facts(1) by (simp add: file_ok_def)
  moreover have "length (bd_bytes (em_part emmc_demo_card k)) < 2 ^ 63" for k
    by (simp add: emmc_demo_card_def boot_demo_facts)
  ultimately have "emmc_bootable boot_demo_source (INACTIVE_BOOT_PARTITION 0) emmc_demo_card e'"
    using emmc_update_safe [OF run] by blast
  then show ?thesis using run by (auto simp: INACTIVE_BOOT_PARTITION_def)
qed

text \<open>
  A slot hook of a boot-emmc slot never runs and makes the update fail: the slot that the handler
  hands to the hook has no name, which \<open>run_slot_hook_extra_env\<close> refuses.
\<close>

theorem emmc_hooks_fail:
  assumes "hook_pre_install (img_hooks img) \<or> hook_post_install (img_hooks img)"
  shows "fst (img_to_boot_emmc_handler run hc file img slot real_device (Some h) (e, w)) \<noteq> Ok ()"
proof -
  have hook: "run_slot_hook_extra_env run hc h c i (part_slot device) vars s' \<noteq> (Ok (), s'')" for c i device vars s' s''
    by (simp add: run_slot_hook_extra_env_def part_slot_def io_fail_def)
  have copy: "copy_img_to_emmc_bootpart run hc file img slot n device (Some h) vars s \<noteq> (Ok (), s')" for n device vars s s'
    using assms unfolding copy_img_to_emmc_bootpart_def io_catch_Ok_iff io_bind_Ok_iff
    by (auto simp: io_fail_def pre_install_hook_def post_install_hook_def hook split: if_splits)
  show ?thesis
  proof
    assume "fst (img_to_boot_emmc_handler run hc file img slot real_device (Some h) (e, w)) = Ok ()"
    then obtain s' where "img_to_boot_emmc_handler run hc file img slot real_device (Some h) (e, w) = (Ok (), s')"
      by (metis prod.collapse)
    then show False
      unfolding img_to_boot_emmc_handler_def Let_def
      by (cases real_device) (auto simp: io_fail_def io_bind_Ok_iff copy)
  qed
qed

theorem emmc_hooks_fail_witness:
  "fst (img_to_boot_emmc_handler emmc_demo_hooks boot_demo_context (Ok boot_demo_source)
     (boot_demo_image\<lparr>img_hooks := (img_hooks boot_demo_image)\<lparr>hook_post_install := True\<rparr>\<rparr>) boot_demo_slot
     (Some ''/dev/mmcblk0'') (Some ''hook.sh'') (emmc_demo, ())) \<noteq> Ok ()"
  by (rule emmc_hooks_fail) simp

end
