(* ===== verification/Verity.thy ===== *)
theory Verity
  imports Boot_Device
begin

text \<open>
  dm-verity hash trees (\<open>src/src/verity_hash.c\<close>). The data blocks of a file are followed by the levels
  of the tree, the top one first; a level holds the digests of the blocks of the level below, 128 to a
  block. The file is a list of bytes, in which some positions may fail to be read or written. SHA-256 is
  a parameter. A failure drops the file: \<open>create_bundle\<close> removes it then.
\<close>

datatype verity_error = EIO | EINVAL | EPERM

record vfile =
  vf_bytes :: "8 word list"
  vf_openable :: bool
  vf_writable :: bool
  vf_read_error :: "nat \<Rightarrow> bool"
  vf_write_error :: "nat \<Rightarrow> bool"

type_synonym sha256 = "8 word list \<Rightarrow> 8 word list"

definition data_block_size :: nat where "data_block_size = 4096"
definition hash_block_size :: nat where "hash_block_size = 4096"
definition digest_size :: nat where "digest_size = 32"
definition VERITY_MAX_LEVELS :: nat where "VERITY_MAX_LEVELS = 63"

subsection \<open>Streams\<close>

definition subbytes :: "nat \<Rightarrow> nat \<Rightarrow> 'a list \<Rightarrow> 'a list" where
  "subbytes pos n bs = take n (drop pos bs)"

definition fread :: "vfile \<Rightarrow> nat \<Rightarrow> nat \<Rightarrow> 8 word list option" where
  "fread f pos n = (if pos + n \<le> length (vf_bytes f) \<and> \<not> list_ex (vf_read_error f) [pos..<pos + n]
     then Some (subbytes pos n (vf_bytes f)) else None)"

text \<open>A write behind the end leaves a gap that reads as zeros.\<close>

definition write_at :: "nat \<Rightarrow> 8 word list \<Rightarrow> 8 word list \<Rightarrow> 8 word list" where
  "write_at pos data bs = (if data = [] then bs
     else take pos bs @ replicate (pos - length bs) 0 @ data @ drop (pos + length data) bs)"

definition fwrite :: "vfile \<Rightarrow> nat \<Rightarrow> 8 word list \<Rightarrow> vfile option" where
  "fwrite f pos data = (if list_ex (vf_write_error f) [pos..<pos + length data] then None
     else Some (f\<lparr>vf_bytes := write_at pos data (vf_bytes f)\<rparr>))"

subsection \<open>The code\<close>

function get_bits_up_from :: "nat \<Rightarrow> nat \<Rightarrow> nat" where
  "get_bits_up_from u i = (if 2 ^ i < u then get_bits_up_from u (Suc i) else i)"
  by pat_completeness auto

termination
  by (relation "measure (\<lambda>(u, i). u - 2 ^ i)") (auto intro: diff_less_mono2)

definition get_bits_up :: "nat \<Rightarrow> nat" where
  "get_bits_up u = get_bits_up_from u 0"

function get_bits_down_from :: "nat \<Rightarrow> nat \<Rightarrow> nat" where
  "get_bits_down_from u i = (if u div 2 ^ i > 1 then get_bits_down_from u (Suc i) else i)"
  by pat_completeness auto

termination
proof (relation "measure (\<lambda>(u, i). u div 2 ^ i)", simp, goal_cases)
  case (1 u i)
  have "u div 2 ^ Suc i = u div 2 ^ i div 2" by (simp only: power_Suc2 div_mult2_eq)
  then show ?case using 1 by simp
qed

definition get_bits_down :: "nat \<Rightarrow> nat" where
  "get_bits_down u = get_bits_down_from u 0"

declare get_bits_up_from.simps [simp del] get_bits_down_from.simps [simp del]

definition hash_per_block_bits :: nat where
  "hash_per_block_bits = get_bits_down (hash_block_size div digest_size)"

definition hash_per_block :: nat where
  "hash_per_block = 2 ^ get_bits_down (hash_block_size div digest_size)"

definition digest_size_full :: nat where
  "digest_size_full = 2 ^ get_bits_up digest_size"

definition verify_zero :: "vfile \<Rightarrow> nat \<Rightarrow> nat \<Rightarrow> verity_error + unit" where
  "verify_zero f pos n = (case fread f pos n of
      None \<Rightarrow> Inl EIO
    | Some block \<Rightarrow> if list_ex (\<lambda>b. b \<noteq> 0) block then Inl EPERM else Inr ())"

definition verify_hash_block :: "sha256 \<Rightarrow> 8 word list \<Rightarrow> 8 word list \<Rightarrow> 8 word list" where
  "verify_hash_block sha data salt = sha (salt @ data)"

definition uint64_mult_overflow :: "64 word \<Rightarrow> nat \<Rightarrow> 64 word option" where
  "uint64_mult_overflow b sz = (let u = b * of_nat sz in if u div of_nat sz \<noteq> b then None else Some u)"

function count_levels :: "64 word \<Rightarrow> nat \<Rightarrow> nat" where
  "count_levels data_file_blocks levels =
     (if hash_per_block_bits * levels < 64 \<and> drop_bit (hash_per_block_bits * levels) (data_file_blocks - 1) \<noteq> 0 \<and> hash_per_block_bits \<noteq> 0
      then count_levels data_file_blocks (Suc levels) else levels)"
  by pat_completeness auto

termination
  by (relation "measure (\<lambda>(n, l). 64 - hash_per_block_bits * l)") auto

declare count_levels.simps [simp del]

text \<open>The loop over the levels, from the top: positions and sizes, as lists indexed by the level.\<close>

fun level_positions :: "64 word \<Rightarrow> nat \<Rightarrow> 64 word \<Rightarrow> verity_error + 64 word \<times> (64 word \<times> 64 word) list" where
  "level_positions n 0 hash_position = Inr (hash_position, [])"
| "level_positions n (Suc i) hash_position =
     (let s_shift = (i + 1) * hash_per_block_bits in
      if s_shift > 63 then Inl EINVAL
      else let s = drop_bit s_shift (n + push_bit s_shift 1 - 1) in
        if hash_position + s < hash_position then Inl EINVAL
        else case level_positions n i (hash_position + s) of
          Inl e \<Rightarrow> Inl e
        | Inr (end_position, ls) \<Rightarrow> Inr (end_position, ls @ [(hash_position, s)]))"

definition hash_levels :: "64 word \<Rightarrow> 64 word \<Rightarrow> verity_error + 64 word \<times> (64 word \<times> 64 word) list" where
  "hash_levels data_file_blocks hash_position =
     (if digest_size = 0 \<or> hash_per_block_bits = 0 then Inl EINVAL
      else let levels = count_levels data_file_blocks 0 in
        if levels > VERITY_MAX_LEVELS then Inl EINVAL
        else level_positions data_file_blocks levels hash_position)"

text \<open>The loop of \<open>create_or_verify\<close>: both positions, the blocks that are left, the last digest.\<close>

record vstate =
  vs_file :: vfile
  vs_rd :: nat
  vs_wr :: nat
  vs_blocks :: nat
  vs_left :: nat
  vs_digest :: "8 word list"

definition put_digest :: "bool \<Rightarrow> vstate \<Rightarrow> verity_error + vstate" where
  "put_digest verify st =
     (if verify then case fread (vs_file st) (vs_wr st) digest_size of
          None \<Rightarrow> Inl EIO
        | Some d \<Rightarrow> if d \<noteq> vs_digest st then Inl EPERM else Inr (st\<lparr>vs_wr := vs_wr st + digest_size\<rparr>)
      else case fwrite (vs_file st) (vs_wr st) (vs_digest st) of
          None \<Rightarrow> Inl EIO
        | Some f' \<Rightarrow> Inr (st\<lparr>vs_file := f', vs_wr := vs_wr st + length (vs_digest st)\<rparr>))"

definition put_spare :: "bool \<Rightarrow> nat \<Rightarrow> vstate \<Rightarrow> verity_error + vstate" where
  "put_spare verify n st =
     (if n = 0 then Inr st
      else if verify then case verify_zero (vs_file st) (vs_wr st) n of
          Inl e \<Rightarrow> Inl e
        | Inr _ \<Rightarrow> Inr (st\<lparr>vs_wr := vs_wr st + n\<rparr>)
      else case fwrite (vs_file st) (vs_wr st) (replicate n 0) of
          None \<Rightarrow> Inl EIO
        | Some f' \<Rightarrow> Inr (st\<lparr>vs_file := f', vs_wr := vs_wr st + n\<rparr>))"

fun digest_row :: "sha256 \<Rightarrow> 8 word list \<Rightarrow> bool \<Rightarrow> bool \<Rightarrow> nat \<Rightarrow> vstate \<Rightarrow> verity_error + vstate" where
  "digest_row sha salt verify wr 0 st = Inr st"
| "digest_row sha salt verify wr (Suc i) st =
     (if vs_blocks st = 0 then Inr st
      else case fread (vs_file st) (vs_rd st) data_block_size of
        None \<Rightarrow> Inl EIO
      | Some data \<Rightarrow>
          let st1 = st\<lparr>vs_blocks := vs_blocks st - 1, vs_rd := vs_rd st + data_block_size,
            vs_digest := verify_hash_block sha data salt\<rparr> in
          if \<not> wr then Inr st1
          else case put_digest verify st1 of
            Inl e \<Rightarrow> Inl e
          | Inr st2 \<Rightarrow> (case put_spare verify (digest_size_full - digest_size) st2 of
              Inl e \<Rightarrow> Inl e
            | Inr st3 \<Rightarrow> digest_row sha salt verify wr i (st3\<lparr>vs_left := vs_left st3 - digest_size_full\<rparr>)))"

fun digest_rows :: "sha256 \<Rightarrow> 8 word list \<Rightarrow> bool \<Rightarrow> bool \<Rightarrow> nat \<Rightarrow> vstate \<Rightarrow> verity_error + vstate" where
  "digest_rows sha salt verify wr 0 st = Inr st"
| "digest_rows sha salt verify wr (Suc blocks_to_write) st =
     (case digest_row sha salt verify wr hash_per_block (st\<lparr>vs_left := hash_block_size\<rparr>) of
        Inl e \<Rightarrow> Inl e
      | Inr st1 \<Rightarrow> (case (if wr then put_spare verify (vs_left st1) st1 else Inr st1) of
          Inl e \<Rightarrow> Inl e
        | Inr st2 \<Rightarrow> digest_rows sha salt verify wr blocks_to_write st2))"

definition create_or_verify :: "sha256 \<Rightarrow> 8 word list \<Rightarrow> bool \<Rightarrow> bool \<Rightarrow> 64 word \<Rightarrow> 64 word \<Rightarrow> 64 word
    \<Rightarrow> 8 word list \<Rightarrow> vfile \<Rightarrow> verity_error + vfile \<times> 8 word list" where
  "create_or_verify sha salt verify wr data_block hash_block blocks calculated_digest f =
     (case (uint64_mult_overflow data_block data_block_size, uint64_mult_overflow hash_block hash_block_size) of
        (Some seek_rd, Some seek_wr) \<Rightarrow>
          if sint seek_rd < 0 \<or> wr \<and> sint seek_wr < 0 then Inl EIO
          else (case digest_rows sha salt verify wr
              (unat ((blocks + of_nat hash_per_block - 1) div of_nat hash_per_block))
              \<lparr>vs_file = f, vs_rd = unat seek_rd, vs_wr = unat seek_wr, vs_blocks = unat blocks, vs_left = 0,
                vs_digest = calculated_digest\<rparr> of
            Inl e \<Rightarrow> Inl e
          | Inr st \<Rightarrow> Inr (vs_file st, vs_digest st))
      | _ \<Rightarrow> Inl EINVAL)"

text \<open>Each level hashes the blocks of the one before it; the first hashes the data.\<close>

fun tree_loop :: "sha256 \<Rightarrow> 8 word list \<Rightarrow> bool \<Rightarrow> 64 word \<times> 64 word \<Rightarrow> (64 word \<times> 64 word) list
    \<Rightarrow> 8 word list \<Rightarrow> vfile \<Rightarrow> verity_error + vfile \<times> 8 word list" where
  "tree_loop sha salt verify (data_block, blocks) [] digest f =
     create_or_verify sha salt verify False data_block 0 blocks digest f"
| "tree_loop sha salt verify (data_block, blocks) ((hash_block, s) # ls) digest f =
     (case create_or_verify sha salt verify True data_block hash_block blocks digest f of
        Inl e \<Rightarrow> Inl e
      | Inr (f', digest') \<Rightarrow> tree_loop sha salt verify (hash_block, if ls = [] then 1 else s) ls digest' f')"

definition verity_create_or_verify_hash :: "sha256 \<Rightarrow> bool \<Rightarrow> 64 word \<Rightarrow> 8 word list \<Rightarrow> 8 word list \<Rightarrow> vfile
    \<Rightarrow> verity_error + vfile \<times> 64 word \<times> 8 word list" where
  "verity_create_or_verify_hash sha verify data_blocks root_hash salt f =
     (case uint64_mult_overflow data_blocks data_block_size of
        None \<Rightarrow> Inl EINVAL
      | Some data_device_size \<Rightarrow> (case hash_levels data_blocks data_blocks of
          Inl e \<Rightarrow> Inl EINVAL
        | Inr (hash_position, ls) \<Rightarrow> (case uint64_mult_overflow hash_position hash_block_size of
            None \<Rightarrow> Inl EINVAL
          | Some hash_device_size \<Rightarrow>
              if \<not> vf_openable f \<or> \<not> verify \<and> \<not> vf_writable f then Inl EIO
              else (case tree_loop sha salt verify (0, data_blocks) ls (replicate digest_size 0) f of
                Inl e \<Rightarrow> Inl e
              | Inr (f', digest) \<Rightarrow>
                  if verify \<and> root_hash \<noteq> digest then Inl EPERM else Inr (f', hash_position, digest)))))"

definition r_verity_hash_create :: "sha256 \<Rightarrow> 64 word \<Rightarrow> 8 word list \<Rightarrow> vfile \<Rightarrow> verity_error + vfile \<times> 64 word \<times> 8 word list" where
  "r_verity_hash_create sha data_blocks salt f = verity_create_or_verify_hash sha False data_blocks [] salt f"

definition r_verity_hash_verify :: "sha256 \<Rightarrow> 64 word \<Rightarrow> 8 word list \<Rightarrow> 8 word list \<Rightarrow> vfile \<Rightarrow> verity_error + unit" where
  "r_verity_hash_verify sha data_blocks root_hash salt f =
     (case verity_create_or_verify_hash sha True data_blocks root_hash salt f of Inl e \<Rightarrow> Inl e | Inr _ \<Rightarrow> Inr ())"

subsection \<open>Constants\<close>

lemma bits_consts [simp]:
  "hash_per_block_bits = 7" "hash_per_block = 128" "digest_size_full = 32" "data_block_size = 4096"
  "hash_block_size = 4096" "digest_size = 32"
  by (simp_all add: hash_per_block_bits_def hash_per_block_def digest_size_full_def data_block_size_def hash_block_size_def
      digest_size_def get_bits_down_def get_bits_up_def get_bits_down_from.simps get_bits_up_from.simps)

lemma put_spare_0 [simp]: "put_spare v 0 st = Inr st"
  by (simp add: put_spare_def)

subsection \<open>Writing\<close>

lemma length_subbytes [simp]: "p + n \<le> length bs \<Longrightarrow> length (subbytes p n bs) = n"
  by (simp add: subbytes_def)

lemma subbytes_subbytes: "q + m \<le> n \<Longrightarrow> subbytes q m (subbytes p n bs) = subbytes (p + q) m bs"
  by (simp add: subbytes_def drop_take min_def add.commute)

lemma length_write_at: "length (write_at p d bs) = (if d = [] then length bs else max (p + length d) (length bs))"
  by (auto simp: write_at_def max_def min_def)

lemma subbytes_write_at: "subbytes p (length d) (write_at p d bs) = d"
  by (simp add: subbytes_def write_at_def min_def)

lemma subbytes_write_before:
  assumes "q + n \<le> p" and "q + n \<le> length bs"
  shows "subbytes q n (write_at p d bs) = subbytes q n bs"
proof -
  have "n \<le> length bs - q" "n \<le> p - q" using assms by linarith+
  then show ?thesis by (simp add: subbytes_def write_at_def drop_take)
qed

lemma subbytes_write_behind:
  assumes "p + length d \<le> q"
  shows "subbytes q n (write_at p d bs) = subbytes q n bs"
proof (cases "p \<le> length bs")
  case True
  then show ?thesis using assms by (simp add: subbytes_def write_at_def)
next
  case False
  then show ?thesis using assms by (simp add: subbytes_def write_at_def)
qed

lemma subbytes_write_other:
  assumes "p + length d \<le> q \<or> q + n \<le> p" and "q + n \<le> length bs"
  shows "subbytes q n (write_at p d bs) = subbytes q n bs"
  using assms subbytes_write_before subbytes_write_behind by blast

lemma write_at_append: "write_at (p + length d) d' (write_at p d bs) = write_at p (d @ d') bs"
  by (cases "p \<le> length bs") (auto simp: write_at_def min_def ac_simps)

lemma subbytes_append: "subbytes p (a + b) bs = subbytes p a bs @ subbytes (p + a) b bs"
  by (simp add: subbytes_def take_add drop_drop add.commute)

lemma subbytes_0 [simp]: "subbytes p 0 bs = []"
  by (simp add: subbytes_def)

lemma fread_Some_iff: "fread f p n = Some d \<longleftrightarrow>
    p + n \<le> length (vf_bytes f) \<and> \<not> list_ex (vf_read_error f) [p..<p + n] \<and> d = subbytes p n (vf_bytes f)"
  by (auto simp: fread_def)

subsection \<open>One level\<close>

definition block_digests :: "sha256 \<Rightarrow> 8 word list \<Rightarrow> 8 word list \<Rightarrow> nat \<Rightarrow> nat \<Rightarrow> 8 word list" where
  "block_digests sha salt bs p n = concat (map (\<lambda>k. sha (salt @ subbytes (p + 4096 * k) 4096 bs)) [0..<n])"

lemma block_digests_0 [simp]: "block_digests sha salt bs p 0 = []"
  by (simp add: block_digests_def)

lemma block_digests_add:
  "block_digests sha salt bs p (m + n) = block_digests sha salt bs p m @ block_digests sha salt bs (p + 4096 * m) n"
proof -
  have "[0..<m + n] = [0..<m] @ map (\<lambda>k. k + m) [0..<n]" 
    using upt_add_eq_append [of 0 m n] map_add_upt [of m n] by (simp only: add_0 add.commute [of n m])
  then show ?thesis by (simp add: block_digests_def comp_def ac_simps distrib_left)
qed

lemma block_digests_Suc:
  "block_digests sha salt bs p (Suc n) = sha (salt @ subbytes p 4096 bs) @ block_digests sha salt bs (p + 4096) n"
  using block_digests_add [of sha salt bs p 1 n] by (simp add: block_digests_def)

lemma length_block_digests: "(\<And>x. length (sha x) = 32) \<Longrightarrow> length (block_digests sha salt bs p n) = 32 * n"
  by (induction n arbitrary: p) (simp_all add: block_digests_Suc)

lemma block_digests_cong:
  "subbytes p (4096 * n) bs = subbytes p (4096 * n) bs' \<Longrightarrow> block_digests sha salt bs p n = block_digests sha salt bs' p n"
proof (induction n arbitrary: p)
  case (Suc n)
  then have eq: "subbytes p (4096 + 4096 * n) bs = subbytes p (4096 + 4096 * n) bs'" by simp
  have "subbytes p 4096 bs = subbytes p 4096 bs'"
    using arg_cong [OF eq, of "take 4096"] by (simp add: subbytes_def)
  moreover have "subbytes (p + 4096) (4096 * n) bs = subbytes (p + 4096) (4096 * n) bs'"
    using arg_cong [OF eq, of "drop 4096"] by (simp add: subbytes_def drop_take add.commute)
  ultimately show ?case using Suc.IH by (simp add: block_digests_Suc)
qed simp

definition advance :: "nat \<Rightarrow> nat \<Rightarrow> vstate \<Rightarrow> vstate \<Rightarrow> bool" where
  "advance m w st st' \<longleftrightarrow> vs_rd st' = vs_rd st + 4096 * m \<and> vs_wr st' = vs_wr st + w \<and> vs_blocks st' = vs_blocks st - m"

text \<open>One turn of the inner loop.\<close>

lemma digest_row_Suc:
  fixes sha :: sha256 and salt :: "8 word list"
  assumes "vs_blocks st = Suc b" and "\<And>x. length (sha x) = 32"
  defines "d \<equiv> sha (salt @ subbytes (vs_rd st) 4096 (vf_bytes (vs_file st)))"
  defines "st1 \<equiv> st\<lparr>vs_blocks := b, vs_rd := vs_rd st + 4096, vs_digest := d\<rparr>"
  shows "digest_row sha salt v True (Suc i) st =
    (if fread (vs_file st) (vs_rd st) 4096 = None then Inl EIO
     else if v then (case fread (vs_file st) (vs_wr st) 32 of
         None \<Rightarrow> Inl EIO | Some x \<Rightarrow> if x \<noteq> d then Inl EPERM
           else digest_row sha salt v True i (st1\<lparr>vs_wr := vs_wr st + 32, vs_left := vs_left st - 32\<rparr>))
     else (case fwrite (vs_file st) (vs_wr st) d of
         None \<Rightarrow> Inl EIO | Some f' \<Rightarrow> digest_row sha salt v True i
           (st1\<lparr>vs_file := f', vs_wr := vs_wr st + 32, vs_left := vs_left st - 32\<rparr>)))"
proof (cases "fread (vs_file st) (vs_rd st) 4096")
  case None
  then show ?thesis using assms(1) by simp
next
  case (Some x)
  then have "x = subbytes (vs_rd st) 4096 (vf_bytes (vs_file st))" by (simp add: fread_Some_iff)
  then show ?thesis
    using Some assms(1,2)
    by (cases v; cases "fread (vs_file st) (vs_wr st) 32"; cases "fwrite (vs_file st) (vs_wr st) d")
      (simp_all add: Let_def put_digest_def verify_hash_block_def d_def st1_def)
qed

lemma row_verify:
  assumes "digest_row sha salt True True i st = Inr st'" and len: "\<And>x. length (sha x) = 32"
  defines "m \<equiv> min i (vs_blocks st)" and "bs \<equiv> vf_bytes (vs_file st)"
  shows "vs_file st' = vs_file st \<and> advance m (32 * m) st st' \<and> vs_left st' = vs_left st - 32 * m \<and>
    (0 < m \<longrightarrow> vs_rd st + 4096 * m \<le> length bs \<and> vs_wr st + 32 * m \<le> length bs) \<and>
    subbytes (vs_wr st) (32 * m) bs = block_digests sha salt bs (vs_rd st) m"
  using assms(1) unfolding m_def bs_def
proof (induction i arbitrary: st)
  case 0
  then show ?case by (simp add: advance_def)
next
  case (Suc i)
  show ?case
  proof (cases "vs_blocks st")
    case 0
    then show ?thesis using Suc.prems by (simp add: advance_def)
  next
    case b: (Suc b)
    let ?bs = "vf_bytes (vs_file st)" and ?rd = "vs_rd st" and ?wr = "vs_wr st"
    let ?d = "sha (salt @ subbytes ?rd 4096 ?bs)"
    let ?st1 = "st\<lparr>vs_blocks := b, vs_rd := ?rd + 4096, vs_digest := ?d, vs_wr := ?wr + 32, vs_left := vs_left st - 32\<rparr>"
    from Suc.prems have rd: "fread (vs_file st) ?rd 4096 \<noteq> None"
      and wr: "fread (vs_file st) ?wr 32 = Some ?d" and r: "digest_row sha salt True True i ?st1 = Inr st'"
      unfolding digest_row_Suc [OF b len] by (simp_all split: if_splits option.splits)
    have bounds: "?rd + 4096 \<le> length ?bs" "?wr + 32 \<le> length ?bs" "subbytes ?wr 32 ?bs = ?d"
      using rd wr by (auto simp: fread_Some_iff)
    have step: "subbytes ?wr (32 + n) ?bs = ?d @ subbytes (?wr + 32) n ?bs" for n
      using bounds(3) by (simp add: subbytes_append)
    show ?thesis using Suc.IH [OF r] b bounds step [of "32 * min i b"]
      by (cases "min i b") (simp_all add: advance_def block_digests_Suc)
  qed
qed

lemma put_spare_verify:
  assumes "put_spare True n st = Inr st'"
  shows "st' = st\<lparr>vs_wr := vs_wr st + n\<rparr>"
  using assms by (auto simp: put_spare_def split: if_splits sum.splits)

lemma digest_rows_Suc:
  "digest_rows sha salt v True (Suc b) st = Inr st' \<longleftrightarrow>
    (\<exists>st1 st2. digest_row sha salt v True 128 (st\<lparr>vs_left := 4096\<rparr>) = Inr st1 \<and> put_spare v (vs_left st1) st1 = Inr st2 \<and>
      digest_rows sha salt v True b st2 = Inr st')"
  by (auto split: sum.splits)

lemma rows_verify:
  assumes "digest_rows sha salt True True b st = Inr st'" and len: "\<And>x. length (sha x) = 32" and "vs_blocks st \<le> 128 * b"
  defines "n \<equiv> vs_blocks st" and "bs \<equiv> vf_bytes (vs_file st)"
  shows "vs_file st' = vs_file st \<and>
    (0 < n \<longrightarrow> vs_rd st + 4096 * n \<le> length bs \<and> vs_wr st + 32 * n \<le> length bs) \<and>
    subbytes (vs_wr st) (32 * n) bs = block_digests sha salt bs (vs_rd st) n"
  using assms(1,3) unfolding n_def bs_def
proof (induction b arbitrary: st)
  case 0
  then show ?case by simp
next
  case (Suc b)
  let ?bs = "vf_bytes (vs_file st)" and ?rd = "vs_rd st" and ?wr = "vs_wr st" and ?n = "vs_blocks st"
  define m where "m = min 128 ?n"
  obtain st1 st2 where r: "digest_row sha salt True True 128 (st\<lparr>vs_left := 4096\<rparr>) = Inr st1"
    and s2: "put_spare True (vs_left st1) st1 = Inr st2" and rs: "digest_rows sha salt True True b st2 = Inr st'"
    using Suc.prems(1) unfolding digest_rows_Suc by (elim exE conjE) (rule that)
  note row = row_verify [OF r len] and st2 = put_spare_verify [OF s2]
  have st2_simps: "vs_file st2 = vs_file st" "vs_rd st2 = ?rd + 4096 * m" "vs_blocks st2 = ?n - m" "vs_wr st2 = ?wr + 4096"
    using row st2 by (auto simp: advance_def m_def)
  have ih: "vs_file st' = vs_file st \<and>
      (0 < ?n - m \<longrightarrow> ?rd + 4096 * m + 4096 * (?n - m) \<le> length ?bs \<and> ?wr + 4096 + 32 * (?n - m) \<le> length ?bs) \<and>
      subbytes (?wr + 4096) (32 * (?n - m)) ?bs = block_digests sha salt ?bs (?rd + 4096 * m) (?n - m)"
    using Suc.IH [OF rs] Suc.prems(2) unfolding st2_simps m_def by simp
  show ?case
  proof (cases "?n \<le> 128")
    case True
    then show ?thesis using ih row by (simp add: m_def)
  next
    case False
    then have n: "?n = 128 + (?n - 128)" "m = 128" by (simp_all add: m_def)
    have "subbytes ?wr (32 * ?n) ?bs = subbytes ?wr 4096 ?bs @ subbytes (?wr + 4096) (32 * (?n - 128)) ?bs"
      using subbytes_append [of ?wr 4096 "32 * (?n - 128)" ?bs] False by (simp add: diff_mult_distrib2)
    moreover have "block_digests sha salt ?bs ?rd ?n = block_digests sha salt ?bs ?rd 128 @
        block_digests sha salt ?bs (?rd + 4096 * 128) (?n - 128)"
      using block_digests_add [of sha salt ?bs ?rd 128 "?n - 128"] False by simp
    ultimately show ?thesis using ih row n False by (simp, intro conjI; linarith)
  qed
qed

lemma row_create:
  assumes "digest_row sha salt False True i st = Inr st'" and len: "\<And>x. length (sha x) = 32"
  defines "m \<equiv> min i (vs_blocks st)" and "bs \<equiv> vf_bytes (vs_file st)"
  assumes "vs_rd st + 4096 * m \<le> vs_wr st \<or> vs_wr st + 32 * m \<le> vs_rd st"
    and "vs_rd st + 4096 * m \<le> length bs"
  shows "vs_file st' = (vs_file st)\<lparr>vf_bytes := write_at (vs_wr st) (block_digests sha salt bs (vs_rd st) m) bs\<rparr> \<and>
    advance m (32 * m) st st' \<and> vs_left st' = vs_left st - 32 * m"
  using assms(1,5,6) unfolding m_def bs_def
proof (induction i arbitrary: st)
  case 0
  then show ?case by (simp add: advance_def write_at_def)
next
  case (Suc i)
  show ?case
  proof (cases "vs_blocks st")
    case 0
    then show ?thesis using Suc.prems by (simp add: advance_def write_at_def)
  next
    case b: (Suc b)
    let ?bs = "vf_bytes (vs_file st)" and ?rd = "vs_rd st" and ?wr = "vs_wr st" and ?m = "min i b"
    let ?d = "sha (salt @ subbytes ?rd 4096 ?bs)"
    obtain f' where wr: "fwrite (vs_file st) ?wr ?d = Some f'"
      and r: "digest_row sha salt False True i (st\<lparr>vs_blocks := b, vs_rd := ?rd + 4096, vs_digest := ?d,
        vs_file := f', vs_wr := ?wr + 32, vs_left := vs_left st - 32\<rparr>) = Inr st'"
      using Suc.prems(1) unfolding digest_row_Suc [OF b len] by (auto split: if_splits option.splits)
    have f': "f' = (vs_file st)\<lparr>vf_bytes := write_at ?wr ?d ?bs\<rparr>" using wr by (simp add: fwrite_def split: if_splits)
    have apart: "?rd + 4096 + 4096 * ?m \<le> ?wr \<or> ?wr + 32 + 32 * ?m \<le> ?rd" "?rd + 4096 + 4096 * ?m \<le> length ?bs"
      using Suc.prems(2,3) b by auto
    have same: "block_digests sha salt (write_at ?wr ?d ?bs) (?rd + 4096) ?m = block_digests sha salt ?bs (?rd + 4096) ?m"
      using apart len by (intro block_digests_cong subbytes_write_other) auto
    have "length ?bs \<le> length (write_at ?wr ?d ?bs)" by (simp add: length_write_at)
    then have "vs_file st' = f'\<lparr>vf_bytes := write_at (?wr + 32) (block_digests sha salt ?bs (?rd + 4096) ?m) (write_at ?wr ?d ?bs)\<rparr> \<and>
        vs_rd st' = ?rd + 4096 + 4096 * ?m \<and> vs_wr st' = ?wr + 32 + 32 * ?m \<and> vs_blocks st' = b - ?m \<and>
        vs_left st' = vs_left st - 32 - 32 * ?m"
      using Suc.IH [OF r] apart same by (auto simp: f' advance_def)
    then show ?thesis
      using b len write_at_append [of ?wr ?d] by (simp add: f' advance_def block_digests_Suc)
  qed
qed

definition level_bytes :: "sha256 \<Rightarrow> 8 word list \<Rightarrow> 8 word list \<Rightarrow> nat \<Rightarrow> nat \<Rightarrow> nat \<Rightarrow> 8 word list" where
  "level_bytes sha salt bs p n b = block_digests sha salt bs p n @ replicate (4096 * b - 32 * n) 0"

lemma length_level_bytes: "(\<And>x. length (sha x) = 32) \<Longrightarrow> n \<le> 128 * b \<Longrightarrow> length (level_bytes sha salt bs p n b) = 4096 * b"
  by (simp add: level_bytes_def length_block_digests)

lemma put_spare_create:
  assumes "put_spare False n st = Inr st'"
  shows "st' = st\<lparr>vs_file := (vs_file st)\<lparr>vf_bytes := write_at (vs_wr st) (replicate n 0) (vf_bytes (vs_file st))\<rparr>, vs_wr := vs_wr st + n\<rparr>"
  using assms by (auto simp: put_spare_def fwrite_def write_at_def split: if_splits option.splits)

lemma level_bytes_split:
  assumes "n \<le> 128 * Suc b"
  defines "m \<equiv> min 128 n"
  shows "level_bytes sha salt bs p n (Suc b) =
    (block_digests sha salt bs p m @ replicate (4096 - 32 * m) 0) @ level_bytes sha salt bs (p + 4096 * m) (n - m) b"
proof (cases "n \<le> 128")
  case True
  then have "m = n" by (simp add: m_def)
  moreover have "4096 * Suc b - 32 * n = (4096 - 32 * n) + 4096 * b" using True by simp
  ultimately show ?thesis by (simp only: level_bytes_def) (simp add: replicate_add)
next
  case False
  then have "m = 128" "n = 128 + (n - 128)" by (simp_all add: m_def)
  moreover have "4096 * Suc b - 32 * n = 4096 * b - 32 * (n - 128)" using False by simp
  ultimately show ?thesis
    using block_digests_add [of sha salt bs p 128 "n - 128"] by (simp add: level_bytes_def)
qed

lemma rows_create:
  assumes "digest_rows sha salt False True b st = Inr st'" and len: "\<And>x. length (sha x) = 32"
  defines "n \<equiv> vs_blocks st" and "bs \<equiv> vf_bytes (vs_file st)"
  assumes "n \<le> 128 * b"
    and "vs_rd st + 4096 * n \<le> vs_wr st \<or> vs_wr st + 4096 * b \<le> vs_rd st"
    and "vs_rd st + 4096 * n \<le> length bs"
  shows "vs_file st' = (vs_file st)\<lparr>vf_bytes := write_at (vs_wr st) (level_bytes sha salt bs (vs_rd st) n b) bs\<rparr>"
  using assms(1,5-7) unfolding n_def bs_def
proof (induction b arbitrary: st)
  case 0
  then show ?case by (simp add: level_bytes_def write_at_def)
next
  case (Suc b)
  let ?bs = "vf_bytes (vs_file st)" and ?rd = "vs_rd st" and ?wr = "vs_wr st" and ?n = "vs_blocks st"
  define m where "m = min 128 ?n"
  obtain st1 st2 where r: "digest_row sha salt False True 128 (st\<lparr>vs_left := 4096\<rparr>) = Inr st1"
    and s2: "put_spare False (vs_left st1) st1 = Inr st2" and rs: "digest_rows sha salt False True b st2 = Inr st'"
    using Suc.prems(1) unfolding digest_rows_Suc by (elim exE conjE) (rule that)
  have m: "m \<le> 128" "m \<le> ?n" "?n - m \<le> 128 * b" using Suc.prems(2) by (simp_all add: m_def)
  let ?d = "block_digests sha salt ?bs ?rd m"
  have apart: "?rd + 4096 * m \<le> ?wr \<or> ?wr + 32 * m \<le> ?rd" "?rd + 4096 * m \<le> length ?bs"
    using Suc.prems(3,4) m by auto
  have row: "vs_file st1 = (vs_file st)\<lparr>vf_bytes := write_at ?wr ?d ?bs\<rparr> \<and>
      advance m (32 * m) st st1 \<and> vs_left st1 = 4096 - 32 * m"
    using row_create [OF r len] apart by (simp add: m_def advance_def)
  let ?w = "?d @ replicate (4096 - 32 * m) 0"
  have lw: "length ?w = 4096" using m(1) len by (simp add: length_block_digests)
  have "write_at (?wr + 32 * m) (replicate (4096 - 32 * m) 0) (write_at ?wr ?d ?bs) = write_at ?wr ?w ?bs"
    using write_at_append [of ?wr ?d "replicate (4096 - 32 * m) 0" ?bs] len by (simp add: length_block_digests)
  then have st2: "vs_file st2 = (vs_file st)\<lparr>vf_bytes := write_at ?wr ?w ?bs\<rparr>" "vs_rd st2 = ?rd + 4096 * m"
      "vs_blocks st2 = ?n - m" "vs_wr st2 = ?wr + 4096"
    using put_spare_create [OF s2] row m(1) by (simp_all add: advance_def)
  have same: "block_digests sha salt (write_at ?wr ?w ?bs) (?rd + 4096 * m) (?n - m) = block_digests sha salt ?bs (?rd + 4096 * m) (?n - m)"
    unfolding lw using Suc.prems(3,4) m lw
    by (intro block_digests_cong subbytes_write_other) (auto simp: diff_mult_distrib2)
  have "length ?bs \<le> length (write_at ?wr ?w ?bs)" using lw by (simp add: length_write_at)
  then have ih: "vs_file st' = (vs_file st2)\<lparr>vf_bytes := write_at (?wr + 4096)
      (level_bytes sha salt (write_at ?wr ?w ?bs) (?rd + 4096 * m) (?n - m) b) (write_at ?wr ?w ?bs)\<rparr>"
    using Suc.IH [OF rs] Suc.prems(3,4) m by (simp add: st2 diff_mult_distrib2) linarith
  have "level_bytes sha salt (write_at ?wr ?w ?bs) (?rd + 4096 * m) (?n - m) b = level_bytes sha salt ?bs (?rd + 4096 * m) (?n - m) b"
    by (simp add: level_bytes_def same)
  moreover have "write_at (?wr + 4096) L (write_at ?wr ?w ?bs) = write_at ?wr (?w @ L) ?bs" for L
    using write_at_append [of ?wr ?w L ?bs] unfolding lw .
  moreover note level_bytes_split [OF Suc.prems(2), of sha salt ?bs ?rd, folded m_def]
  ultimately show ?case using ih by (simp only: st2) simp
qed

text \<open>A level that is as it should be, in a file that can be read, verifies.\<close>

definition readable :: "vfile \<Rightarrow> bool" where
  "readable f \<longleftrightarrow> (\<forall>p. \<not> vf_read_error f p)"

lemma readable_fread: "readable f \<Longrightarrow> p + n \<le> length (vf_bytes f) \<Longrightarrow> fread f p n = Some (subbytes p n (vf_bytes f))"
  by (simp add: readable_def fread_def list_ex_iff)

lemma row_verify_complete:
  fixes st :: vstate and i :: nat
  assumes len: "\<And>x. length (sha x) = 32"
  defines "m \<equiv> min i (vs_blocks st)" and "bs \<equiv> vf_bytes (vs_file st)"
  assumes "readable (vs_file st)" "vs_rd st + 4096 * m \<le> length bs" "vs_wr st + 32 * m \<le> length bs"
    "subbytes (vs_wr st) (32 * m) bs = block_digests sha salt bs (vs_rd st) m"
  shows "\<exists>st'. digest_row sha salt True True i st = Inr st'"
  using assms(4-) unfolding m_def bs_def
proof (induction i arbitrary: st)
  case (Suc i)
  show ?case
  proof (cases "vs_blocks st")
    case b: (Suc b)
    let ?bs = "vf_bytes (vs_file st)" and ?rd = "vs_rd st" and ?wr = "vs_wr st" and ?m = "min i b"
    let ?d = "sha (salt @ subbytes ?rd 4096 ?bs)"
    have m: "min (Suc i) (vs_blocks st) = Suc ?m" using b by simp
    have bounds: "?rd + 4096 + 4096 * ?m \<le> length ?bs" "?wr + 32 + 32 * ?m \<le> length ?bs"
      using Suc.prems(2,3) unfolding m by simp_all
    have eq: "subbytes ?wr 32 ?bs @ subbytes (?wr + 32) (32 * ?m) ?bs = ?d @ block_digests sha salt ?bs (?rd + 4096) ?m"
      using Suc.prems(4) unfolding m block_digests_Suc by (simp add: subbytes_append [of ?wr 32, symmetric])
    moreover have "length (subbytes ?wr 32 ?bs) = length ?d" using bounds len by simp
    ultimately have here: "subbytes ?wr 32 ?bs = ?d" "subbytes (?wr + 32) (32 * ?m) ?bs = block_digests sha salt ?bs (?rd + 4096) ?m"
      by (simp_all add: append_eq_append_conv)
    have "\<exists>st'. digest_row sha salt True True i (st\<lparr>vs_blocks := b, vs_rd := ?rd + 4096, vs_digest := ?d,
        vs_wr := ?wr + 32, vs_left := vs_left st - 32\<rparr>) = Inr st'"
      using Suc.IH [of "st\<lparr>vs_blocks := b, vs_rd := ?rd + 4096, vs_digest := ?d, vs_wr := ?wr + 32, vs_left := vs_left st - 32\<rparr>"]
        bounds here Suc.prems(1) by simp
    moreover have "fread (vs_file st) ?rd 4096 \<noteq> None" "fread (vs_file st) ?wr 32 = Some ?d"
      using readable_fread [OF Suc.prems(1)] bounds here(1) by simp_all
    ultimately show ?thesis unfolding digest_row_Suc [OF b len] by simp
  qed simp
qed simp

lemma rows_verify_complete:
  fixes st :: vstate
  assumes len: "\<And>x. length (sha x) = 32"
  defines "n \<equiv> vs_blocks st" and "bs \<equiv> vf_bytes (vs_file st)"
  assumes "readable (vs_file st)" "n \<le> 128 * b" "vs_rd st + 4096 * n \<le> length bs" "vs_wr st + 4096 * b \<le> length bs"
    "subbytes (vs_wr st) (4096 * b) bs = level_bytes sha salt bs (vs_rd st) n b"
  shows "\<exists>st'. digest_rows sha salt True True b st = Inr st'"
  using assms(4-) unfolding n_def bs_def
proof (induction b arbitrary: st)
  case (Suc b)
  let ?bs = "vf_bytes (vs_file st)" and ?rd = "vs_rd st" and ?wr = "vs_wr st" and ?n = "vs_blocks st"
  define m where "m = min 128 ?n"
  have m: "m \<le> 128" "m \<le> ?n" "?n - m \<le> 128 * b" using Suc.prems(2) by (simp_all add: m_def)
  let ?d = "block_digests sha salt ?bs ?rd m" and ?rest = "level_bytes sha salt ?bs (?rd + 4096 * m) (?n - m) b"
  have room: "?wr + 4096 + 4096 * b \<le> length ?bs" using Suc.prems(4) by simp
  have "subbytes ?wr 4096 ?bs @ subbytes (?wr + 4096) (4096 * b) ?bs = subbytes ?wr (4096 * Suc b) ?bs"
    by (simp add: subbytes_append [of ?wr 4096, symmetric])
  also have "\<dots> = (?d @ replicate (4096 - 32 * m) 0) @ ?rest"
    using Suc.prems(5) level_bytes_split [OF Suc.prems(2), of sha salt ?bs ?rd, folded m_def] by simp
  finally have "subbytes ?wr 4096 ?bs = ?d @ replicate (4096 - 32 * m) 0 \<and> subbytes (?wr + 4096) (4096 * b) ?bs = ?rest"
    using room m(1) len by (subst (asm) append_eq_append_conv) (auto simp: length_block_digests)
  then have eq: "subbytes ?wr (32 * m) ?bs @ subbytes (?wr + 32 * m) (4096 - 32 * m) ?bs = ?d @ replicate (4096 - 32 * m) 0"
    and rest: "subbytes (?wr + 4096) (4096 * b) ?bs = ?rest"
    using m(1) subbytes_append [of ?wr "32 * m" "4096 - 32 * m" ?bs] by simp_all
  have "length (subbytes ?wr (32 * m) ?bs) = length ?d" using room m(1) len by (simp add: length_block_digests)
  then have d: "subbytes ?wr (32 * m) ?bs = ?d" and z: "subbytes (?wr + 32 * m) (4096 - 32 * m) ?bs = replicate (4096 - 32 * m) 0"
    using eq by (simp_all add: append_eq_append_conv)
  have "?rd + 4096 * m \<le> length ?bs" using Suc.prems(3) m(2) by (meson add_left_mono le_trans mult_le_mono2)
  then obtain st1 where r: "digest_row sha salt True True 128 (st\<lparr>vs_left := 4096\<rparr>) = Inr st1"
    using row_verify_complete [of sha "st\<lparr>vs_left := 4096\<rparr>" 128 salt] len Suc.prems(1) room m(1) d by (auto simp: m_def [symmetric])
  have st1: "vs_file st1 = vs_file st" "vs_rd st1 = ?rd + 4096 * m" "vs_wr st1 = ?wr + 32 * m" "vs_blocks st1 = ?n - m"
      "vs_left st1 = 4096 - 32 * m"
    using row_verify [OF r len] by (simp_all add: advance_def m_def)
  have s2: "put_spare True (vs_left st1) st1 = Inr (st1\<lparr>vs_wr := ?wr + 4096\<rparr>)"
    using readable_fread [OF Suc.prems(1), of "?wr + 32 * m" "4096 - 32 * m"] room m(1) z
    by (cases "m = 128") (simp_all add: put_spare_def st1 verify_zero_def list_ex_iff)
  have "\<exists>st'. digest_rows sha salt True True b (st1\<lparr>vs_wr := ?wr + 4096\<rparr>) = Inr st'"
    using Suc.IH [of "st1\<lparr>vs_wr := ?wr + 4096\<rparr>"] Suc.prems(1,3) room rest m by (simp add: st1 diff_mult_distrib2)
  then show ?case unfolding digest_rows_Suc using r s2 by blast
qed simp

subsection \<open>Word arithmetic\<close>

lemma mult_overflow_Some:
  assumes "uint64_mult_overflow b 4096 = Some u"
  shows "unat b < 2 ^ 52" and "unat u = 4096 * unat b"
proof -
  have u: "u = b * 4096" "u div 4096 = b" using assms by (simp_all add: uint64_mult_overflow_def Let_def split: if_splits)
  have "unat b = unat u div 4096" using arg_cong [OF u(2), of unat] by (simp add: unat_div)
  moreover have "unat u < 2 ^ 64" using unsigned_less [of u, where ?'a = nat] by simp
  ultimately show b: "unat b < 2 ^ 52" by simp
  then show "unat u = 4096 * unat b" unfolding u(1) by (simp add: unat_word_ariths)
qed

definition seek_ok :: "64 word \<Rightarrow> bool" where
  "seek_ok b \<longleftrightarrow> (\<exists>u. uint64_mult_overflow b 4096 = Some u \<and> 0 \<le> sint u)"

lemma blocks_to_write: "unat n < 2 ^ 52 \<Longrightarrow> unat ((n + 128 - 1) div 128 :: 64 word) = (unat n + 127) div 128"
  by (simp add: unat_div unat_word_ariths)

lemma create_or_verify_wr:
  "create_or_verify sha salt v True db hb n d f = Inr (f', d') \<longleftrightarrow> seek_ok db \<and> seek_ok hb \<and>
    (\<exists>st. digest_rows sha salt v True (unat ((n + 128 - 1) div 128))
      \<lparr>vs_file = f, vs_rd = 4096 * unat db, vs_wr = 4096 * unat hb, vs_blocks = unat n, vs_left = 0, vs_digest = d\<rparr> = Inr st \<and>
      f' = vs_file st \<and> d' = vs_digest st)"
proof (cases "seek_ok db \<and> seek_ok hb")
  case True
  then obtain u w where u: "uint64_mult_overflow db 4096 = Some u" "0 \<le> sint u" "uint64_mult_overflow hb 4096 = Some w" "0 \<le> sint w"
    by (auto simp: seek_ok_def)
  then show ?thesis
    using True mult_overflow_Some(2) [OF u(1)] mult_overflow_Some(2) [OF u(3)] by (simp add: create_or_verify_def split: sum.split) auto
next
  case False
  then show ?thesis by (auto simp: create_or_verify_def seek_ok_def split: option.split)
qed

lemma root_row:
  assumes "vs_blocks st = 1"
  shows "digest_rows sha salt v False 1 st = (case fread (vs_file st) (vs_rd st) 4096 of
      None \<Rightarrow> Inl EIO
    | Some data \<Rightarrow> Inr (st\<lparr>vs_left := 4096, vs_blocks := 0, vs_rd := vs_rd st + 4096, vs_digest := sha (salt @ data)\<rparr>))"
proof -
  have h: "hash_per_block = Suc 127" by simp
  show ?thesis
    using assms unfolding One_nat_def digest_rows.simps h digest_row.simps
    by (simp add: Let_def verify_hash_block_def split: option.split)
qed

lemma create_or_verify_root:
  "create_or_verify sha salt v False db 0 1 d f = Inr (f', d') \<longleftrightarrow> seek_ok db \<and> fread f (4096 * unat db) 4096 \<noteq> None \<and>
    f' = f \<and> d' = sha (salt @ subbytes (4096 * unat db) 4096 (vf_bytes f))"
proof (cases "seek_ok db")
  case True
  then obtain u where u: "uint64_mult_overflow db 4096 = Some u" "0 \<le> sint u" by (auto simp: seek_ok_def)
  have z: "uint64_mult_overflow 0 4096 = Some 0" by (simp add: uint64_mult_overflow_def)
  let ?st = "\<lparr>vs_file = f, vs_rd = 4096 * unat db, vs_wr = 0, vs_blocks = 1, vs_left = 0, vs_digest = d\<rparr>"
  have "create_or_verify sha salt v False db 0 1 d f =
      (case digest_rows sha salt v False 1 ?st of Inl e \<Rightarrow> Inl e | Inr st \<Rightarrow> Inr (vs_file st, vs_digest st))"
    using u mult_overflow_Some(2) [OF u(1)] z by (simp add: create_or_verify_def del: digest_rows.simps One_nat_def)
  then show ?thesis
    using True root_row [of ?st sha salt v]
    by (cases "fread f (4096 * unat db) 4096") (auto simp: fread_Some_iff simp del: digest_rows.simps One_nat_def)
next
  case False
  then show ?thesis by (auto simp: create_or_verify_def seek_ok_def split: option.split)
qed

subsection \<open>The layout of the tree\<close>

definition nats :: "(64 word \<times> 64 word) list \<Rightarrow> (nat \<times> nat) list" where
  "nats ls = map (\<lambda>(b, s). (unat b, unat s)) ls"

lemma nats_simps [simp]: "nats [] = []" "nats ((b, s) # ls) = (unat b, unat s) # nats ls" "nats (ls @ ls') = nats ls @ nats ls'"
  by (simp_all add: nats_def)

text \<open>The levels fill the area from \<open>p\<close> to \<open>e\<close>, the first one at its end.\<close>

fun stacked :: "nat \<Rightarrow> (nat \<times> nat) list \<Rightarrow> nat \<Rightarrow> bool" where
  "stacked e [] p \<longleftrightarrow> e = p"
| "stacked e ((b, s) # ls) p \<longleftrightarrow> b + s = e \<and> stacked b ls p"

text \<open>Each level has a block for 128 blocks of the one below, and the last one has one block.\<close>

fun sized :: "nat \<Rightarrow> (nat \<times> nat) list \<Rightarrow> bool" where
  "sized n [] \<longleftrightarrow> n = 1"
| "sized n ((b, s) # ls) \<longleftrightarrow> s = (n + 127) div 128 \<and> sized s ls"

definition level_size :: "nat \<Rightarrow> nat \<Rightarrow> nat" where
  "level_size n i = (n + 128 ^ i - 1) div 128 ^ i"

lemma level_size_Suc: "(level_size n i + 127) div 128 = level_size n (Suc i)"
proof -
  have "level_size n i + 127 = (n + 128 ^ i - 1 + 127 * 128 ^ i) div 128 ^ i" by (simp add: level_size_def)
  also have "n + 128 ^ i - 1 + 127 * 128 ^ i = n + 128 ^ Suc i - 1"
    using one_le_power [of "128 :: nat" i] by simp
  finally have "(level_size n i + 127) div 128 = (n + 128 ^ Suc i - 1) div (128 ^ i * 128)" by (simp only: div_mult2_eq)
  then show ?thesis by (simp only: level_size_def power_Suc2)
qed

lemma level_size_top: "0 < n \<Longrightarrow> (n - 1) div 128 ^ i = 0 \<Longrightarrow> level_size n i = 1"
proof -
  assume "0 < n" and "(n - 1) div 128 ^ i = 0"
  then have "n - 1 < 128 ^ i" by (simp add: div_eq_0_iff)
  then have "n + 128 ^ i - 1 = 128 ^ i + (n - 1)" "(n - 1) div 128 ^ i = 0" using \<open>0 < n\<close> by simp_all
  then show ?thesis by (simp add: level_size_def div_add_self1)
qed

lemma sized_levels: "map snd ls = map (\<lambda>j. level_size n (Suc j)) [i..<L] \<Longrightarrow> i \<le> L \<Longrightarrow> level_size n L = 1 \<Longrightarrow> sized (level_size n i) ls"
proof (induction ls arbitrary: i)
  case Nil
  then have "i = L" by auto
  then show ?case using Nil by simp
next
  case (Cons x ls)
  then have "i < L" by (cases "i < L") auto
  then have "snd x = level_size n (Suc i)" "map snd ls = map (\<lambda>j. level_size n (Suc j)) [Suc i..<L]"
    using Cons.prems(1) by (simp_all add: upt_conv_Cons)
  then show ?case using Cons.IH [of "Suc i"] Cons.prems(3) \<open>i < L\<close> level_size_Suc [of n i] by (cases x) simp
qed

lemma stacked_append: "stacked e ls (p + s) \<Longrightarrow> stacked e (ls @ [(p, s)]) p"
  by (induction e ls "p + s" rule: stacked.induct) auto

lemma unat_level_size:
  assumes "unat (n :: 64 word) < 2 ^ 52" and "7 * i \<le> 63"
  shows "unat (drop_bit (7 * i) (n + push_bit (7 * i) 1 - 1)) = level_size (unat n) i"
proof -
  have k: "(2 :: nat) ^ (7 * i) = 128 ^ i" by (simp add: power_mult)
  have "(128 :: nat) ^ i \<le> 2 ^ 63" unfolding k [symmetric] using assms(2) by (intro power_increasing) simp_all
  moreover have "unat (push_bit (7 * i) 1 :: 64 word) = 128 ^ i"
  proof -
    have "(2 :: nat) ^ (7 * i) < 2 ^ 64" using assms(2) by (intro power_strict_increasing) simp_all
    then have "unat (of_nat (2 ^ (7 * i)) :: 64 word) = 2 ^ (7 * i)" unfolding unat_of_nat by (intro mod_less) simp
    then show ?thesis by (simp add: k [symmetric])
  qed
  ultimately have sum: "unat (n + push_bit (7 * i) 1) = unat n + 128 ^ i"
    using assms(1) by (simp only: unat_word_ariths) simp
  then have "n + push_bit (7 * i) 1 \<noteq> 0" by (metis add_is_0 power_not_zero unat_0 zero_neq_numeral)
  then have "unat (n + push_bit (7 * i) 1 - 1) = unat n + 128 ^ i - 1" using sum by (metis unat_minus_one)
  then show ?thesis unfolding unat_drop_bit_eq by (simp add: drop_bit_eq_div k level_size_def)
qed

lemma level_positions_layout:
  assumes "level_positions n L pos = Inr (e, ls)" and "unat n < 2 ^ 52"
  shows "stacked (unat e) (nats ls) (unat pos) \<and> map snd (nats ls) = map (\<lambda>j. level_size (unat n) (Suc j)) [0..<L] \<and> 7 * L \<le> 63"
  using assms(1)
proof (induction L arbitrary: pos ls)
  case 0
  then show ?case by simp
next
  case (Suc i)
  let ?s = "drop_bit (7 * Suc i) (n + push_bit (7 * Suc i) 1 - 1)"
  obtain ls' where i: "7 * Suc i \<le> 63" and no_wrap: "\<not> pos + ?s < pos" and r: "level_positions n i (pos + ?s) = Inr (e, ls')"
    and ls: "ls = ls' @ [(pos, ?s)]"
    using Suc.prems by (auto simp: Let_def mult.commute split: if_splits sum.splits prod.splits)
  have s: "unat ?s = level_size (unat n) (Suc i)" by (rule unat_level_size [OF assms(2) i])
  have "unat (pos + ?s) = unat pos + unat ?s" using no_wrap by (simp add: unat_plus_simple [symmetric] linorder_not_less)
  then show ?case using Suc.IH [OF r] i s stacked_append by (simp add: ls)
qed

lemma count_levels_done:
  "\<not> (7 * count_levels n l < 64 \<and> drop_bit (7 * count_levels n l) (n - 1) \<noteq> 0)"
proof (induction n l rule: count_levels.induct)
  case (1 n l)
  then show ?case by (cases "7 * l < 64 \<and> drop_bit (7 * l) (n - 1) \<noteq> 0") (subst (1 2) count_levels.simps; simp)+
qed

lemma hash_levels_layout:
  assumes "hash_levels n n = Inr (e, ls)" and "unat n < 2 ^ 52"
  shows "stacked (unat e) (nats ls) (unat n)" and "sized (unat n) (nats ls)"
proof -
  let ?L = "count_levels n 0"
  have lp: "level_positions n ?L n = Inr (e, ls)" using assms(1) by (simp add: hash_levels_def Let_def split: if_splits)
  note layout = level_positions_layout [OF this assms(2)]
  then show "stacked (unat e) (nats ls) (unat n)" by simp
  have z: "drop_bit (7 * ?L) (n - 1) = 0" using count_levels_done [of n 0] layout by auto
  have div: "unat (n - 1) div 2 ^ (7 * ?L) = 0"
    using arg_cong [OF z, of unat] unfolding unat_drop_bit_eq by (simp add: drop_bit_eq_div)
  have pos: "0 < unat n"
  proof (rule ccontr)
    assume "\<not> 0 < unat n"
    then have "n = 0" by (simp add: unat_eq_0)
    then have "unat (n - 1) = 2 ^ 64 - 1" by (simp add: unsigned_minus_1_eq_mask mask_eq_exp_minus_1)
    moreover have "(2 :: nat) ^ (7 * ?L) \<le> 2 ^ 63" using layout by (intro power_increasing) simp_all
    ultimately show False using div by (simp add: div_eq_0_iff)
  qed
  then have "unat (n - 1) = unat n - 1" by (intro unat_minus_one) auto
  then have "level_size (unat n) ?L = 1" using div pos by (intro level_size_top) (simp_all add: power_mult)
  then show "sized (unat n) (nats ls)"
    using sized_levels [of "nats ls" "unat n" 0 ?L] layout by (simp add: level_size_def)
qed

subsection \<open>Verification\<close>

definition level_ok :: "sha256 \<Rightarrow> 8 word list \<Rightarrow> 8 word list \<Rightarrow> nat \<Rightarrow> nat \<Rightarrow> nat \<Rightarrow> bool" where
  "level_ok sha salt bs db n hb \<longleftrightarrow> subbytes (4096 * hb) (32 * n) bs = block_digests sha salt bs (4096 * db) n \<and>
     4096 * (db + n) \<le> length bs \<and> 4096 * hb + 32 * n \<le> length bs"

fun tree_ok :: "sha256 \<Rightarrow> 8 word list \<Rightarrow> 8 word list \<Rightarrow> nat \<times> nat \<Rightarrow> (nat \<times> nat) list \<Rightarrow> 8 word list \<Rightarrow> bool" where
  "tree_ok sha salt bs (db, n) [] root \<longleftrightarrow> root = sha (salt @ subbytes (4096 * db) 4096 bs) \<and> 4096 * (db + 1) \<le> length bs"
| "tree_ok sha salt bs (db, n) ((hb, s) # ls) root \<longleftrightarrow> level_ok sha salt bs db n hb \<and> tree_ok sha salt bs (hb, s) ls root"

lemma sized_pos: "sized n ls \<Longrightarrow> 0 < n"
proof (cases ls)
  case (Cons x ls')
  have "0 < n" if "sized n ((b, s) # ls')" for b s
    using that
  proof (induction ls' arbitrary: n b s)
    case Nil
    then show ?case by (cases n) simp_all
  next
    case (Cons y ls'')
    have "0 < s" using Cons.IH [of s] Cons.prems by (cases y) simp
    then show ?case using Cons.prems by (cases n) simp_all
  qed
  then show "sized n ls \<Longrightarrow> 0 < n" using Cons by (cases x) simp
qed simp

lemma unat_is_1: "unat (w :: 64 word) = Suc 0 \<longleftrightarrow> w = 1"
  by (simp add: word_unat_eq_iff)

lemma tree_loop_verify:
  assumes "tree_loop sha salt True (db, n) ls d f = Inr (f', root)" and len: "\<And>x. length (sha x) = 32"
    and "sized (unat n) (nats ls)" and "unat n < 2 ^ 52"
  shows "f' = f \<and> tree_ok sha salt (vf_bytes f) (unat db, unat n) (nats ls) root"
  using assms(1,3,4)
proof (induction ls arbitrary: db n d)
  case Nil
  then have "n = 1" by (simp add: unat_is_1)
  then show ?case
    using Nil.prems(1) by (auto simp: create_or_verify_root fread_Some_iff simp del: One_nat_def)
next
  case (Cons x ls)
  obtain hb s where x: "x = (hb, s)" by (cases x)
  have s: "unat s = (unat n + 127) div 128" "sized (unat s) (nats ls)" using Cons.prems(2) by (auto simp: x)
  have one: "(if ls = [] then 1 else s) = s" using s(2) by (cases ls) (simp_all add: unat_is_1)
  obtain f1 d1 where l: "create_or_verify sha salt True True db hb n d f = Inr (f1, d1)"
    and r: "tree_loop sha salt True (hb, s) ls d1 f1 = Inr (f', root)"
    using Cons.prems(1) one by (auto simp: x split: sum.splits prod.splits)
  obtain st where st: "digest_rows sha salt True True (unat ((n + 128 - 1) div 128))
      \<lparr>vs_file = f, vs_rd = 4096 * unat db, vs_wr = 4096 * unat hb, vs_blocks = unat n, vs_left = 0, vs_digest = d\<rparr> = Inr st" "f1 = vs_file st"
    using l by (auto simp: create_or_verify_wr)
  have pos: "0 < unat n" by (rule sized_pos [OF Cons.prems(2)])
  have "unat n \<le> 128 * unat ((n + 128 - 1) div 128)" unfolding blocks_to_write [OF Cons.prems(3)] by simp
  with rows_verify [OF st(1) len] pos have "f1 = f" "level_ok sha salt (vf_bytes f) (unat db) (unat n) (unat hb)"
    by (simp_all add: st(2) level_ok_def distrib_left)
  moreover have "unat s < 2 ^ 52" using s(1) Cons.prems(3) by simp
  ultimately show ?case using Cons.IH [of hb s d1] r s(2) by (simp add: x)
qed

text \<open>
  Two different blocks at the same place of two files with the same digest. Collisions of SHA-256
  exist, so they cannot be excluded as such.
\<close>

definition collides :: "sha256 \<Rightarrow> 8 word list \<Rightarrow> 8 word list \<Rightarrow> 8 word list \<Rightarrow> bool" where
  "collides sha salt bs bs' \<longleftrightarrow> (\<exists>p. subbytes p 4096 bs \<noteq> subbytes p 4096 bs' \<and>
     sha (salt @ subbytes p 4096 bs) = sha (salt @ subbytes p 4096 bs'))"

lemma block_digests_binding:
  assumes "block_digests sha salt bs p n = block_digests sha salt bs' p n" and len: "\<And>x. length (sha x) = 32"
    and none: "\<not> collides sha salt bs bs'"
  shows "subbytes p (4096 * n) bs = subbytes p (4096 * n) bs'"
  using assms(1)
proof (induction n arbitrary: p)
  case (Suc n)
  have "sha (salt @ subbytes p 4096 bs) = sha (salt @ subbytes p 4096 bs') \<and>
      block_digests sha salt bs (p + 4096) n = block_digests sha salt bs' (p + 4096) n"
    using Suc.prems(1) len by (simp add: block_digests_Suc append_eq_append_conv)
  then have "subbytes p 4096 bs = subbytes p 4096 bs'" and "subbytes (p + 4096) (4096 * n) bs = subbytes (p + 4096) (4096 * n) bs'"
    using none Suc.IH unfolding collides_def by (blast, simp)
  then show ?case by (simp add: subbytes_append [of p 4096])
qed simp

lemma tree_binding:
  assumes "tree_ok sha salt bs (db, n) ls root" and "tree_ok sha salt bs' (db, n) ls root" and "sized n ls"
    and len: "\<And>x. length (sha x) = 32" and none: "\<not> collides sha salt bs bs'"
  shows "subbytes (4096 * db) (4096 * n) bs = subbytes (4096 * db) (4096 * n) bs'"
  using assms(1-3)
proof (induction ls arbitrary: db n)
  case Nil
  then have "sha (salt @ subbytes (4096 * db) 4096 bs) = sha (salt @ subbytes (4096 * db) 4096 bs')"
    by auto
  then have "subbytes (4096 * db) 4096 bs = subbytes (4096 * db) 4096 bs'" using none unfolding collides_def by blast
  then show ?case using Nil.prems(3) by simp
next
  case (Cons x ls)
  obtain hb s where x: "x = (hb, s)" by (cases x)
  have "subbytes (4096 * hb) (4096 * s) bs = subbytes (4096 * hb) (4096 * s) bs'"
    using Cons.prems by (intro Cons.IH) (auto simp: x)
  moreover have "32 * n \<le> 4096 * s" using Cons.prems(3) by (simp add: x)
  ultimately have "subbytes (4096 * hb) (32 * n) bs = subbytes (4096 * hb) (32 * n) bs'"
    using subbytes_subbytes [of 0 "32 * n" "4096 * s" "4096 * hb"] by (metis add.right_neutral add_0)
  then have "block_digests sha salt bs (4096 * db) n = block_digests sha salt bs' (4096 * db) n"
    using Cons.prems(1,2) by (simp add: x level_ok_def)
  then show ?case
    using block_digests_binding [of sha salt bs "4096 * db" n bs'] len none Cons.prems(1,2)
    by (simp add: x level_ok_def distrib_left)
qed

lemma verify_tree:
  assumes "verity_create_or_verify_hash sha True n root salt f = Inr r" and len: "\<And>x. length (sha x) = 32"
  obtains e ls where "hash_levels n n = Inr (e, ls)" "unat n < 2 ^ 52" "sized (unat n) (nats ls)"
    "tree_ok sha salt (vf_bytes f) (0, unat n) (nats ls) root"
proof -
  obtain u e ls f' where u: "uint64_mult_overflow n 4096 = Some u" and h: "hash_levels n n = Inr (e, ls)"
    and t: "tree_loop sha salt True (0, n) ls (replicate 32 0) f = Inr (f', root)"
    using assms(1) by (auto simp: verity_create_or_verify_hash_def split: option.splits sum.splits prod.splits if_splits)
  note small = mult_overflow_Some(1) [OF u]
  have "sized (unat n) (nats ls)" using hash_levels_layout(2) [OF h small] .
  then show ?thesis using that [OF h small] tree_loop_verify [OF t len] small by simp
qed

text \<open>
  C19. The root hash and the salt determine the data: two files that verify against the same root hash
  have the same data blocks, unless the two files themselves hold different blocks, at the same place,
  with the same SHA-256 digest.
\<close>

theorem verity_binding:
  assumes "r_verity_hash_verify sha n root salt f = Inr ()" and "r_verity_hash_verify sha n root salt f' = Inr ()"
    and len: "\<And>x. length (sha x) = 32" and none: "\<not> collides sha salt (vf_bytes f) (vf_bytes f')"
  shows "take (4096 * unat n) (vf_bytes f) = take (4096 * unat n) (vf_bytes f')"
proof -
  obtain r r' where r: "verity_create_or_verify_hash sha True n root salt f = Inr r" "verity_create_or_verify_hash sha True n root salt f' = Inr r'"
    using assms(1,2) by (auto simp: r_verity_hash_verify_def split: sum.splits)
  obtain e ls where h: "hash_levels n n = Inr (e, ls)" "sized (unat n) (nats ls)" "tree_ok sha salt (vf_bytes f) (0, unat n) (nats ls) root"
    by (rule verify_tree [OF r(1) len])
  obtain e' ls' where h': "hash_levels n n = Inr (e', ls')" "tree_ok sha salt (vf_bytes f') (0, unat n) (nats ls') root"
    by (rule verify_tree [OF r(2) len])
  have "ls' = ls" using h(1) h'(1) by simp
  then show ?thesis using tree_binding [OF h(3) _ h(2) len none] h'(2) by (simp add: subbytes_def)
qed

subsection \<open>Creation\<close>

lemma stacked_le: "stacked e ls p \<Longrightarrow> p \<le> e"
  by (induction e ls p rule: stacked.induct) auto

lemma top_one: "sized (unat (s :: 64 word)) (nats ls) \<Longrightarrow> (if ls = [] then 1 else s) = s"
  by (cases ls) (simp_all add: unat_is_1)

lemma level_create:
  assumes "create_or_verify sha salt False True db hb n d f = Inr (f', d')" and len: "\<And>x. length (sha x) = 32" and n: "unat n < 2 ^ 52"
    and apart: "unat db + unat n \<le> unat hb \<or> unat hb + (unat n + 127) div 128 \<le> unat db"
    and inside: "4096 * (unat db + unat n) \<le> length (vf_bytes f)"
  shows "f' = f\<lparr>vf_bytes := write_at (4096 * unat hb)
      (level_bytes sha salt (vf_bytes f) (4096 * unat db) (unat n) ((unat n + 127) div 128)) (vf_bytes f)\<rparr>"
proof -
  let ?b = "(unat n + 127) div 128"
  obtain st where st: "digest_rows sha salt False True ?b
      \<lparr>vs_file = f, vs_rd = 4096 * unat db, vs_wr = 4096 * unat hb, vs_blocks = unat n, vs_left = 0, vs_digest = d\<rparr> = Inr st" "f' = vs_file st"
    using assms(1) unfolding create_or_verify_wr blocks_to_write [OF n] by blast
  have "unat n \<le> 128 * ?b" by simp
  moreover have "4096 * unat db + 4096 * unat n \<le> 4096 * unat hb \<or> 4096 * unat hb + 4096 * ?b \<le> 4096 * unat db"
    using apart by linarith
  ultimately show ?thesis using rows_create [OF st(1) len] inside by (simp add: st(2))
qed

lemma level_complete:
  assumes "seek_ok db" "seek_ok hb" and len: "\<And>x. length (sha x) = 32" and n: "unat n < 2 ^ 52"
    and "readable f" and "4096 * (unat db + unat n) \<le> length (vf_bytes f)"
    and "4096 * (unat hb + (unat n + 127) div 128) \<le> length (vf_bytes f)"
    and "subbytes (4096 * unat hb) (4096 * ((unat n + 127) div 128)) (vf_bytes f) =
      level_bytes sha salt (vf_bytes f) (4096 * unat db) (unat n) ((unat n + 127) div 128)"
  shows "\<exists>d'. create_or_verify sha salt True True db hb n d f = Inr (f, d')"
proof -
  let ?st = "\<lparr>vs_file = f, vs_rd = 4096 * unat db, vs_wr = 4096 * unat hb, vs_blocks = unat n, vs_left = 0, vs_digest = d\<rparr>"
    and ?b = "(unat n + 127) div 128"
  have nb: "unat n \<le> 128 * ?b" by simp
  obtain st' where st': "digest_rows sha salt True True ?b ?st = Inr st'"
    using rows_verify_complete [of sha ?st ?b salt] len nb assms(5-) by (auto simp: distrib_left)
  have "vs_file st' = f" using rows_verify [OF st' len] nb by simp
  then show ?thesis using st' assms(1,2) unfolding create_or_verify_wr blocks_to_write [OF n] by auto
qed

lemma tree_loop_create:
  assumes "tree_loop sha salt False (db, n) ls d f = Inr (f', root)" and len: "\<And>x. length (sha x) = 32"
    and "sized (unat n) (nats ls)" and "unat n < 2 ^ 52" and "stacked e (nats ls) p"
    and "4096 * (unat db + unat n) \<le> length (vf_bytes f)" and "unat db + unat n \<le> p \<or> e \<le> unat db"
  shows "\<exists>bs'. f' = f\<lparr>vf_bytes := bs'\<rparr> \<and>
    length bs' = (if ls = [] then length (vf_bytes f) else max (4096 * e) (length (vf_bytes f))) \<and>
    (\<forall>q k. (q + k \<le> 4096 * p \<or> 4096 * e \<le> q) \<and> q + k \<le> length (vf_bytes f) \<longrightarrow> subbytes q k bs' = subbytes q k (vf_bytes f)) \<and>
    (readable f \<longrightarrow> (\<forall>d2. tree_loop sha salt True (db, n) ls d2 f' = Inr (f', root)))"
  using assms(1,3-)
proof (induction ls arbitrary: db n d f e)
  case Nil
  then have "n = 1" by (simp add: unat_is_1)
  then show ?case
    using Nil.prems(1) by (intro exI [of _ "vf_bytes f"]) (auto simp: create_or_verify_root simp del: One_nat_def)
next
  case (Cons x ls)
  obtain hb s where x: "x = (hb, s)" by (cases x)
  let ?bs = "vf_bytes f"
  have s: "unat s = (unat n + 127) div 128" and sz: "sized (unat s) (nats ls)" and e: "unat hb + unat s = e" and stk: "stacked (unat hb) (nats ls) p"
    using Cons.prems(2,4) by (auto simp: x)
  have pos: "0 < unat s" "p \<le> unat hb" using sized_pos [OF sz] stacked_le [OF stk] by simp_all
  note one = top_one [OF sz]
  obtain f1 d1 where l: "create_or_verify sha salt False True db hb n d f = Inr (f1, d1)"
    and r: "tree_loop sha salt False (hb, s) ls d1 f1 = Inr (f', root)"
    using Cons.prems(1) one by (auto simp: x split: sum.splits prod.splits)
  let ?L = "level_bytes sha salt ?bs (4096 * unat db) (unat n) (unat s)" and ?p = "4096 * unat hb"
  have f1: "f1 = f\<lparr>vf_bytes := write_at ?p ?L ?bs\<rparr>"
    using level_create [OF l len Cons.prems(3)] Cons.prems(5,6) e s pos(2) by simp linarith
  have L: "length ?L = 4096 * unat s" using len by (simp add: length_level_bytes s)
  then have len1: "length (vf_bytes f1) = max (4096 * e) (length ?bs)" using pos(1) e by (auto simp: f1 length_write_at)
  have small: "unat s < 2 ^ 52" using s Cons.prems(3) by simp
  have ih: "4096 * (unat hb + unat s) \<le> length (vf_bytes f1)" using e len1 by simp
  obtain bs' where bs': "f' = f1\<lparr>vf_bytes := bs'\<rparr>"
      "length bs' = (if ls = [] then length (vf_bytes f1) else max ?p (length (vf_bytes f1)))"
      "\<And>q k. q + k \<le> 4096 * p \<or> ?p \<le> q \<Longrightarrow> q + k \<le> length (vf_bytes f1) \<Longrightarrow> subbytes q k bs' = subbytes q k (vf_bytes f1)"
      "\<And>d2. readable f1 \<Longrightarrow> tree_loop sha salt True (hb, s) ls d2 f' = Inr (f', root)"
    using Cons.IH [OF r sz small stk ih] by auto
  have same: "subbytes q k bs' = subbytes q k ?bs" if "q + k \<le> 4096 * p \<or> 4096 * e \<le> q" "q + k \<le> length ?bs" for q k
  proof -
    have "subbytes q k (write_at ?p ?L ?bs) = subbytes q k ?bs"
      using that pos(2) e L by (intro subbytes_write_other) auto
    moreover have "q + k \<le> 4096 * p \<or> ?p \<le> q" "q + k \<le> length (vf_bytes f1)" using that e len1 by auto
    ultimately show ?thesis using bs'(3) by (simp add: f1)
  qed
  have data: "subbytes (4096 * unat db) (4096 * unat n) bs' = subbytes (4096 * unat db) (4096 * unat n) ?bs"
    using Cons.prems(5,6) by (intro same) auto
  have "subbytes ?p (4096 * unat s) bs' = ?L"
    using bs'(3) [of ?p "4096 * unat s"] ih L subbytes_write_at [of ?p ?L ?bs] by (simp add: f1)
  also have "?L = level_bytes sha salt bs' (4096 * unat db) (unat n) (unat s)"
    unfolding level_bytes_def block_digests_cong [OF data] ..
  finally have level: "subbytes ?p (4096 * unat s) bs' = level_bytes sha salt bs' (4096 * unat db) (unat n) (unat s)" .
  have len': "length bs' = max (4096 * e) (length ?bs)" using bs'(2) len1 e by auto
  have verify: "tree_loop sha salt True (db, n) (x # ls) d2 f' = Inr (f', root)" if "readable f" for d2
  proof -
    have "readable f'" "readable f1" using that by (simp_all add: readable_def bs'(1) f1)
    moreover have "seek_ok db" "seek_ok hb" using l by (simp_all add: create_or_verify_wr)
    moreover have "4096 * (unat db + unat n) \<le> length (vf_bytes f')" "4096 * (unat hb + unat s) \<le> length (vf_bytes f')"
      using len' Cons.prems(5) e by (auto simp: bs'(1))
    ultimately obtain d' where "create_or_verify sha salt True True db hb n d2 f' = Inr (f', d')"
      using level_complete [of db hb sha n f' salt d2] len Cons.prems(3) level unfolding s by (auto simp: bs'(1))
    then show ?thesis using bs'(4) \<open>readable f1\<close> one by (simp add: x)
  qed
  show ?case using bs'(1) f1 len' same verify by (intro exI [of _ bs']) simp
qed

subsection \<open>Creation succeeds\<close>

definition writable :: "vfile \<Rightarrow> bool" where
  "writable f \<longleftrightarrow> readable f \<and> vf_openable f \<and> vf_writable f \<and> (\<forall>p. \<not> vf_write_error f p)"

lemma writable_fwrite: "writable f \<Longrightarrow> fwrite f p d = Some (f\<lparr>vf_bytes := write_at p d (vf_bytes f)\<rparr>)"
  by (simp add: writable_def fwrite_def list_ex_iff)

lemma writable_bytes [simp]: "writable (f\<lparr>vf_bytes := bs\<rparr>) = writable f"
  by (simp add: writable_def readable_def)

lemma length_write_ge: "length bs \<le> length (write_at p d bs)"
  by (simp add: length_write_at)

lemma row_create_total:
  assumes "writable (vs_file st)" and "vs_rd st + 4096 * min i (vs_blocks st) \<le> length (vf_bytes (vs_file st))"
    and len: "\<And>x. length (sha x) = 32"
  shows "\<exists>st'. digest_row sha salt False True i st = Inr st'"
  using assms(1,2)
proof (induction i arbitrary: st)
  case (Suc i)
  show ?case
  proof (cases "vs_blocks st")
    case b: (Suc b)
    let ?bs = "vf_bytes (vs_file st)" and ?d = "sha (salt @ subbytes (vs_rd st) 4096 (vf_bytes (vs_file st)))"
    let ?f = "(vs_file st)\<lparr>vf_bytes := write_at (vs_wr st) ?d ?bs\<rparr>"
    have m: "min (Suc i) (vs_blocks st) = Suc (min i b)" using b by simp
    then have here: "fread (vs_file st) (vs_rd st) 4096 \<noteq> None"
      using readable_fread [of "vs_file st" "vs_rd st" 4096] Suc.prems by (simp add: writable_def)
    have "\<exists>st'. digest_row sha salt False True i (st\<lparr>vs_blocks := b, vs_rd := vs_rd st + 4096, vs_digest := ?d, vs_file := ?f,
        vs_wr := vs_wr st + 32, vs_left := vs_left st - 32\<rparr>) = Inr st'"
      using Suc.prems m by (intro Suc.IH) (auto simp: length_write_at)
    then show ?thesis
      using here writable_fwrite [OF Suc.prems(1)] unfolding digest_row_Suc [OF b len] by simp
  qed simp
qed simp

lemma rows_create_total:
  fixes st :: vstate
  assumes len: "\<And>x. length (sha x) = 32"
  defines "n \<equiv> vs_blocks st" and "bs \<equiv> vf_bytes (vs_file st)"
  assumes "writable (vs_file st)" and "n \<le> 128 * b"
    and "vs_rd st + 4096 * n \<le> vs_wr st \<or> vs_wr st + 4096 * b \<le> vs_rd st"
    and "vs_rd st + 4096 * n \<le> length bs"
  shows "\<exists>st'. digest_rows sha salt False True b st = Inr st'"
  using assms(4-) unfolding n_def bs_def
proof (induction b arbitrary: st)
  case (Suc b)
  let ?bs = "vf_bytes (vs_file st)" and ?rd = "vs_rd st" and ?wr = "vs_wr st" and ?n = "vs_blocks st"
  define m where "m = min 128 ?n"
  have m: "m \<le> 128" "m \<le> ?n" "?n - m \<le> 128 * b" using Suc.prems(2) by (simp_all add: m_def)
  have apart: "?rd + 4096 * m \<le> ?wr \<or> ?wr + 32 * m \<le> ?rd" "?rd + 4096 * m \<le> length ?bs"
    using Suc.prems(3,4) m by auto
  obtain st1 where r: "digest_row sha salt False True 128 (st\<lparr>vs_left := 4096\<rparr>) = Inr st1"
    using row_create_total [of "st\<lparr>vs_left := 4096\<rparr>" 128 sha salt] len Suc.prems(1) apart by (auto simp: m_def)
  have st1: "vs_file st1 = (vs_file st)\<lparr>vf_bytes := write_at ?wr (block_digests sha salt ?bs ?rd m) ?bs\<rparr>"
      "advance m (32 * m) st st1" "vs_left st1 = 4096 - 32 * m"
    using row_create [OF r len] apart by (simp_all add: m_def advance_def)
  obtain st2 where s2: "put_spare False (vs_left st1) st1 = Inr st2"
    using writable_fwrite [of "vs_file st1"] Suc.prems(1) st1(1) by (cases "vs_left st1 = 0") (auto simp: put_spare_def)
  note st2 = put_spare_create [OF s2]
  have "length ?bs \<le> length (vf_bytes (vs_file st1))" "length (vf_bytes (vs_file st1)) \<le> length (vf_bytes (vs_file st2))"
    by (simp_all add: st2 st1(1) length_write_ge)
  then have "\<exists>st'. digest_rows sha salt False True b st2 = Inr st'"
    using Suc.prems m st1 by (intro Suc.IH) (auto simp: st2 advance_def diff_mult_distrib2)
  then show ?case unfolding digest_rows_Suc using r s2 by blast
qed simp

lemma seek_ok_small: "unat b < 2 ^ 50 \<Longrightarrow> seek_ok b"
proof -
  assume b: "unat b < 2 ^ 50"
  let ?u = "b * 4096"
  have u: "unat ?u = 4096 * unat b" using b by (simp add: unat_word_ariths)
  have div: "?u div 4096 = b" using u by (simp add: word_unat_eq_iff unat_div)
  have "unat ?u < 2 ^ 63" using b unfolding u by simp
  then have "int (unat ?u) < 2 ^ 63" by (simp only: of_nat_less_iff [where 'a = int, symmetric]) simp
  then have "uint ?u < 2 ^ 63" by (simp only: uint_nat)
  moreover have "- (2 ^ 63) \<le> uint ?u" by (rule order.trans [of _ 0]) simp_all
  ultimately have "signed_take_bit 63 (uint ?u) = uint ?u" by (intro signed_take_bit_int_eq_self)
  then have "0 \<le> sint ?u" by (simp add: sint_uint)
  then show ?thesis using div by (simp add: seek_ok_def uint64_mult_overflow_def)
qed

lemma level_create_total:
  assumes len: "\<And>x. length (sha x) = 32" and "writable f" and "unat db < 2 ^ 50" "unat hb < 2 ^ 50" and n: "unat n < 2 ^ 52"
    and apart: "unat db + unat n \<le> unat hb \<or> unat hb + (unat n + 127) div 128 \<le> unat db"
    and inside: "4096 * (unat db + unat n) \<le> length (vf_bytes f)"
  shows "\<exists>r. create_or_verify sha salt False True db hb n d f = Inr r"
proof -
  let ?b = "(unat n + 127) div 128"
  let ?st = "\<lparr>vs_file = f, vs_rd = 4096 * unat db, vs_wr = 4096 * unat hb, vs_blocks = unat n, vs_left = 0, vs_digest = d\<rparr>"
  have "unat n \<le> 128 * ?b" by simp
  moreover have "4096 * unat db + 4096 * unat n \<le> 4096 * unat hb \<or> 4096 * unat hb + 4096 * ?b \<le> 4096 * unat db"
    using apart by linarith
  ultimately obtain st where "digest_rows sha salt False True ?b ?st = Inr st"
    using rows_create_total [of sha ?st ?b salt] len assms(2) inside by auto
  then have "create_or_verify sha salt False True db hb n d f = Inr (vs_file st, vs_digest st)"
    unfolding create_or_verify_wr blocks_to_write [OF n] using assms(3,4) seek_ok_small by auto
  then show ?thesis ..
qed

lemma count_levels_small: "unat n \<le> 2 ^ 42 \<Longrightarrow> 0 < unat n \<Longrightarrow> l \<le> 6 \<Longrightarrow> count_levels n l \<le> 6"
proof (induction n l rule: count_levels.induct)
  case (1 n l)
  have "drop_bit 42 (n - 1) = 0"
  proof -
    have "unat (n - 1) = unat n - 1" using "1.prems"(2) by (intro unat_minus_one) auto
    then have "unat (n - 1) div 2 ^ 42 = 0" using "1.prems"(1,2) by simp
    then have "unat (drop_bit 42 (n - 1)) = 0" unfolding unat_drop_bit_eq by (simp only: drop_bit_eq_div)
    then show ?thesis by (simp only: unat_eq_0)
  qed
  then have "drop_bit (7 * l) (n - 1) \<noteq> 0 \<Longrightarrow> l \<noteq> 6" by auto
  then show ?case using 1 by (subst count_levels.simps) auto
qed

lemma level_size_le: "0 < n \<Longrightarrow> level_size n i \<le> n"
proof -
  assume n: "0 < n"
  have "n + 128 ^ i - 1 \<le> n * 128 ^ i"
    using n one_le_power [of "128 :: nat" i] by (cases n) simp_all
  then have "level_size n i \<le> n * 128 ^ i div 128 ^ i" unfolding level_size_def by (rule div_le_mono)
  then show ?thesis by simp
qed

lemma level_positions_total:
  assumes "unat n \<le> 2 ^ 42" and "0 < unat n" and "L \<le> 6" and "unat pos + L * unat n < 2 ^ 50"
  shows "\<exists>e ls. level_positions n L pos = Inr (e, ls) \<and> unat e < 2 ^ 50"
  using assms(3,4)
proof (induction L arbitrary: pos)
  case (Suc i)
  let ?s = "drop_bit (7 * Suc i) (n + push_bit (7 * Suc i) 1 - 1)"
  have "unat ?s = level_size (unat n) (Suc i)" using assms(1) Suc.prems(1) by (intro unat_level_size) simp_all
  also have "\<dots> \<le> unat n" using assms(2) by (rule level_size_le)
  finally have s: "unat ?s \<le> unat n" .
  then have sum: "unat (pos + ?s) = unat pos + unat ?s" using Suc.prems(2) by (simp add: unat_word_ariths)
  then have nw: "\<not> pos + ?s < pos" by (simp add: word_less_nat_alt)
  obtain e ls where "level_positions n i (pos + ?s) = Inr (e, ls)" "unat e < 2 ^ 50"
    using Suc.IH [of "pos + ?s"] Suc.prems s sum by auto
  then show ?case using nw Suc.prems(1) by (simp add: Let_def mult.commute)
qed simp

lemma tree_loop_create_total:
  assumes len: "\<And>x. length (sha x) = 32" and "writable f" and "sized (unat n) (nats ls)" and "unat n < 2 ^ 52"
    and "stacked e (nats ls) p" and "e < 2 ^ 50" and "4096 * (unat db + unat n) \<le> length (vf_bytes f)"
    and "unat db + unat n \<le> p \<or> e \<le> unat db" and "unat db < 2 ^ 50"
  shows "\<exists>r. tree_loop sha salt False (db, n) ls d f = Inr r"
  using assms(2-)
proof (induction ls arbitrary: db n d f e)
  case Nil
  then have "n = 1" by (simp add: unat_is_1)
  moreover have "fread f (4096 * unat db) 4096 \<noteq> None"
    using readable_fread [of f "4096 * unat db" 4096] Nil.prems(1,6) \<open>n = 1\<close> by (simp add: writable_def)
  ultimately have "create_or_verify sha salt False False db 0 1 d f = Inr (f, sha (salt @ subbytes (4096 * unat db) 4096 (vf_bytes f)))"
    using seek_ok_small [OF Nil.prems(8)] by (simp add: create_or_verify_root)
  then show ?case using \<open>n = 1\<close> by simp
next
  case (Cons x ls)
  obtain hb s where x: "x = (hb, s)" by (cases x)
  have s: "unat s = (unat n + 127) div 128" and sz: "sized (unat s) (nats ls)" and e: "unat hb + unat s = e" and stk: "stacked (unat hb) (nats ls) p"
    using Cons.prems(2,4) by (auto simp: x)
  have p: "p \<le> unat hb" "unat hb < 2 ^ 50" using stacked_le [OF stk] e Cons.prems(5) by simp_all
  have apart: "unat db + unat n \<le> unat hb \<or> unat hb + (unat n + 127) div 128 \<le> unat db"
    using Cons.prems(7) p(1) e s by auto
  obtain r where r: "create_or_verify sha salt False True db hb n d f = Inr r"
    using level_create_total [of sha f db hb n salt d] len Cons.prems(1,3,6,8) p(2) apart by blast
  obtain f1 d1 where "r = (f1, d1)" by (cases r)
  note l = r [unfolded this]
  let ?L = "level_bytes sha salt (vf_bytes f) (4096 * unat db) (unat n) (unat s)"
  have f1: "f1 = f\<lparr>vf_bytes := write_at (4096 * unat hb) ?L (vf_bytes f)\<rparr>"
    unfolding s by (rule level_create [OF l len Cons.prems(3) apart Cons.prems(6)])
  have L: "length ?L = 4096 * unat s" by (rule length_level_bytes [OF len]) (simp add: s)
  moreover have "0 < unat s" by (rule sized_pos [OF sz])
  ultimately have "?L \<noteq> []" by auto
  then have "4096 * (unat hb + unat s) \<le> length (vf_bytes f1)" using L by (simp add: f1 length_write_at)
  moreover have "writable f1" "unat s < 2 ^ 52" using Cons.prems(1,3) s by (simp_all add: f1)
  ultimately have "\<exists>r. tree_loop sha salt False (hb, s) ls d1 f1 = Inr r"
    using Cons.IH [OF _ sz _ stk p(2)] p(2) by blast
  then show ?case using l top_one [OF sz] by (simp add: x)
qed

lemma create_total:
  assumes len: "\<And>x. length (sha x) = 32" and "writable f" and n: "0 < unat n" "unat n \<le> 2 ^ 42"
    and size: "length (vf_bytes f) = 4096 * unat n"
  shows "\<exists>f' c root. r_verity_hash_create sha n salt f = Inr (f', c, root) \<and> unat c < 2 ^ 50"
proof -
  have c: "count_levels n 0 \<le> 6" using n by (intro count_levels_small) simp_all
  have "7 * unat n < 2 ^ 50" using n(2) by simp
  then have "unat n + count_levels n 0 * unat n < 2 ^ 50" using mult_le_mono1 [OF c, of "unat n"] by linarith
  then obtain e ls where lp: "level_positions n (count_levels n 0) n = Inr (e, ls)" "unat e < 2 ^ 50"
    using level_positions_total [OF n(2,1) c] by blast
  then have h: "hash_levels n n = Inr (e, ls)" using c by (simp add: hash_levels_def VERITY_MAX_LEVELS_def)
  have small: "unat n < 2 ^ 52" using n(2) by simp
  note layout = hash_levels_layout [OF h small]
  have "unat n < 2 ^ 50" using n(2) by simp
  then obtain u w where "uint64_mult_overflow n 4096 = Some u" "uint64_mult_overflow e 4096 = Some w"
    using seek_ok_small [of n] seek_ok_small [OF lp(2)] by (auto simp: seek_ok_def)
  moreover obtain r where "tree_loop sha salt False (0, n) ls (replicate 32 0) f = Inr r"
    using tree_loop_create_total [OF len assms(2) layout(2) small layout(1) lp(2)] size by fastforce
  ultimately show ?thesis
    using h assms(2) lp(2) by (cases r) (simp add: r_verity_hash_create_def verity_create_or_verify_hash_def writable_def)
qed

lemma stacked_sized_less: "stacked e ls n \<Longrightarrow> sized n ls \<Longrightarrow> 1 < n \<Longrightarrow> n < e"
proof (cases ls)
  case (Cons x ls')
  assume "stacked e ls n" "sized n ls" "1 < n"
  then obtain b s where "x = (b, s)" "b + s = e" "stacked b ls' n" "sized s ls'" using Cons by (cases x) auto
  then show ?thesis using stacked_le [of b ls' n] sized_pos [of s ls'] by linarith
qed simp

lemma verity_create_verify:
  assumes len: "\<And>x. length (sha x) = 32" and "writable f" and n: "0 < unat n" "unat n \<le> 2 ^ 42"
    and size: "length (vf_bytes f) = 4096 * unat n"
  obtains bs' combined_blocks root where
    "r_verity_hash_create sha n salt f = Inr (f\<lparr>vf_bytes := bs'\<rparr>, combined_blocks, root)"
    "r_verity_hash_verify sha n root salt (f\<lparr>vf_bytes := bs'\<rparr>) = Inr ()" "take (4096 * unat n) bs' = vf_bytes f"
    "length bs' = 4096 * unat combined_blocks" "unat combined_blocks < 2 ^ 50" "1 < unat n \<longrightarrow> unat n < unat combined_blocks"
proof -
  obtain f' c root where create: "r_verity_hash_create sha n salt f = Inr (f', c, root)" and c: "unat c < 2 ^ 50"
    using create_total [of sha f n salt] assms by blast
  obtain u w ls where u: "uint64_mult_overflow n 4096 = Some u" and h: "hash_levels n n = Inr (c, ls)"
    and w: "uint64_mult_overflow c 4096 = Some w"
    and t: "tree_loop sha salt False (0, n) ls (replicate 32 0) f = Inr (f', root)"
    using create unfolding r_verity_hash_create_def verity_create_or_verify_hash_def
    by (auto split: option.splits sum.splits prod.splits if_splits)
  note small = mult_overflow_Some(1) [OF u]
  note layout = hash_levels_layout [OF h small]
  have read: "readable f" "vf_openable f" using assms(2) by (simp_all add: writable_def)
  obtain bs' where bs': "f' = f\<lparr>vf_bytes := bs'\<rparr>"
      "length bs' = (if ls = [] then length (vf_bytes f) else max (4096 * unat c) (length (vf_bytes f)))"
      "\<And>q k. q + k \<le> 4096 * unat n \<Longrightarrow> q + k \<le> length (vf_bytes f) \<Longrightarrow> subbytes q k bs' = subbytes q k (vf_bytes f)"
      "tree_loop sha salt True (0, n) ls (replicate 32 0) f' = Inr (f', root)"
    using tree_loop_create [OF t len layout(2) small layout(1)] size read by auto
  have "take (4096 * unat n) bs' = vf_bytes f" using bs'(3) [of 0 "4096 * unat n"] size by (simp add: subbytes_def)
  moreover have "unat n \<le> unat c" using stacked_le [OF layout(1)] .
  then have "length bs' = 4096 * unat c" using bs'(2) layout(1) size by (cases ls) auto
  moreover have "r_verity_hash_verify sha n root salt f' = Inr ()"
    using u w h read bs'(1,4) by (simp add: r_verity_hash_verify_def verity_create_or_verify_hash_def)
  moreover have "1 < unat n \<longrightarrow> unat n < unat c" using stacked_sized_less [OF layout] by blast
  ultimately show ?thesis using that create c unfolding bs'(1) by blast
qed

text \<open>
  C20. Creating a hash tree succeeds on a file that can be read and written, up to 16 PiB of data: the
  data stays as it was, exactly the reported blocks are appended, and the result verifies against the
  root hash.
\<close>

theorem verity_roundtrip:
  assumes len: "\<And>x. length (sha x) = 32" and "writable f" and n: "0 < unat n" "unat n \<le> 2 ^ 42"
    and size: "length (vf_bytes f) = 4096 * unat n"
  shows "\<exists>f' combined_blocks root. r_verity_hash_create sha n salt f = Inr (f', combined_blocks, root) \<and>
    r_verity_hash_verify sha n root salt f' = Inr () \<and> take (4096 * unat n) (vf_bytes f') = vf_bytes f \<and>
    length (vf_bytes f') = 4096 * unat combined_blocks"
proof (rule verity_create_verify [of sha f n salt])
  fix bs' c root
  assume "r_verity_hash_create sha n salt f = Inr (f\<lparr>vf_bytes := bs'\<rparr>, c, root)"
    "r_verity_hash_verify sha n root salt (f\<lparr>vf_bytes := bs'\<rparr>) = Inr ()" "take (4096 * unat n) bs' = vf_bytes f"
    "length bs' = 4096 * unat c"
  then show ?thesis by (intro exI [of _ "f\<lparr>vf_bytes := bs'\<rparr>"] exI [of _ c] exI [of _ root]) simp
qed (use assms in auto)

definition verity_demo_sha :: sha256 where
  "verity_demo_sha x = replicate 32 (last x)"

definition verity_demo_file :: "nat \<Rightarrow> bool \<Rightarrow> vfile" where
  "verity_demo_file n w = \<lparr>vf_bytes = replicate (4096 * n) 7, vf_openable = True, vf_writable = w,
     vf_read_error = (\<lambda>_. False), vf_write_error = (\<lambda>_. False)\<rparr>"

theorem verity_roundtrip_witness:
  "\<exists>f' combined_blocks root. r_verity_hash_create verity_demo_sha 2 [] (verity_demo_file 2 True) = Inr (f', combined_blocks, root) \<and>
    r_verity_hash_verify verity_demo_sha 2 root [] f' = Inr () \<and> take 8192 (vf_bytes f') = replicate 8192 7"
proof -
  have "length (verity_demo_sha x) = 32" for x by (simp add: verity_demo_sha_def)
  moreover have "writable (verity_demo_file 2 True)" "length (vf_bytes (verity_demo_file 2 True)) = 4096 * unat (2 :: 64 word)"
      "vf_bytes (verity_demo_file 2 True) = replicate 8192 7"
    by (simp_all add: writable_def readable_def verity_demo_file_def)
  ultimately show ?thesis
    using verity_roundtrip [of verity_demo_sha "verity_demo_file 2 True" 2 "[]"] by auto
qed

lemma demo_levels: "hash_levels 1 1 = Inr (1, [])"
  by (simp add: hash_levels_def count_levels.simps VERITY_MAX_LEVELS_def)

theorem verity_binding_witness:
  "take 4096 (vf_bytes (verity_demo_file 1 True)) = take 4096 (vf_bytes (verity_demo_file 1 False))"
proof -
  have v: "r_verity_hash_verify verity_demo_sha 1 (replicate 32 7) [] (verity_demo_file 1 w) = Inr ()" for w
  proof -
    have "create_or_verify verity_demo_sha [] True False 0 0 1 d (verity_demo_file 1 w) = Inr (verity_demo_file 1 w, replicate 32 7)" for d
      unfolding create_or_verify_root
      by (simp add: seek_ok_small fread_def verity_demo_file_def verity_demo_sha_def subbytes_def list_ex_iff)
    moreover have "uint64_mult_overflow 1 4096 = Some 4096" by (simp add: uint64_mult_overflow_def)
    ultimately show ?thesis
      by (simp add: r_verity_hash_verify_def verity_create_or_verify_hash_def demo_levels verity_demo_file_def)
  qed
  have "length (verity_demo_sha x) = 32" for x by (simp add: verity_demo_sha_def)
  moreover have "\<not> collides verity_demo_sha [] (vf_bytes (verity_demo_file 1 True)) (vf_bytes (verity_demo_file 1 False))"
    by (simp add: collides_def verity_demo_file_def)
  ultimately show ?thesis using verity_binding [OF v [of True] v [of False]] by simp
qed

end
