(* ===== verification/Config_Slots.thy ===== *)
theory Config_Slots
  imports Boot_Spec
begin

text \<open>
  The slot sections of the system configuration (\<open>parse_slots\<close> and \<open>fix_grandparent_links\<close> in
  \<open>src/src/config_file.c\<close>). The parser consumes the key file, so it is a program on that state.

  The result establishes the invariant \<open>slots_wf\<close> on which the rest of RAUC relies: slot names
  are unique, bootnames are unique and free of blanks and tabs, children have no bootname, and
  every parent link leads to a slot without a parent.

  The C code inserts the slots into a \<open>GHashTable\<close> and walks through it to set the parent links. The
  model lists the slots in the order of the sections. The order of these walks matters only for which
  of several errors is reported and for the depth that the bound of 100 in \<open>fix_grandparent_links\<close> sees;
  the invariant holds for every order in which the table is walked later (\<open>slots_wf_iterates\<close>).
\<close>

subsection \<open>One slot\<close>

text \<open>\<open>install-same\<close> and its two deprecated names; it defaults to true.\<close>

definition parse_install_same :: "string \<Rightarrow> bool kf_parser" where
  "parse_install_same g =
     io_bind (get_flag g ''install-same'' (get_flag g ''force-install-same''
         (get_flag g ''ignore-checksum'' (io_return True)))) (\<lambda>b.
     io_bind (remove_key g ''install-same'') (\<lambda>_.
     io_bind (remove_key g ''force-install-same'') (\<lambda>_.
     io_bind (remove_key g ''ignore-checksum'') (\<lambda>_. io_return b))))"

definition check_slot_device :: "string \<Rightarrow> string \<Rightarrow> unit result" where
  "check_slot_device type device =
     result_bind (fail_if (\<not> r_slot_is_valid_type type) (R_CONFIG_ERROR R_CONFIG_ERROR_SLOT_TYPE)) (\<lambda>_.
     result_bind (fail_if (type = ''jffs2'' \<and> \<not> g_str_has_prefix device ''/dev/'')
         (R_CONFIG_ERROR R_CONFIG_ERROR_INVALID_DEVICE)) (\<lambda>_.
       fail_if (type = ''boot-emmc'' \<and> (g_str_has_suffix device ''boot0'' \<or> g_str_has_suffix device ''boot1''))
         (R_CONFIG_ERROR R_CONFIG_ERROR_INVALID_DEVICE)))"

definition parse_bootname :: "string list \<Rightarrow> string \<Rightarrow> string option kf_parser" where
  "parse_bootname seen g =
     io_bind (consume_opt g ''bootname'') (\<lambda>bootname. case bootname of
         None \<Rightarrow> io_return None
       | Some b \<Rightarrow>
           io_bind (io_lift (value_check_tab_whitespace b)) (\<lambda>_.
           io_bind (io_lift (fail_if (b \<in> set seen) (R_CONFIG_ERROR R_CONFIG_ERROR_DUPLICATE_BOOTNAME)))
             (\<lambda>_. io_return (Some b))))"

definition parse_region :: "string \<Rightarrow> string \<Rightarrow> (64 word \<times> 64 word) kf_parser" where
  "parse_region g type =
     (if type = ''boot-mbr-switch'' \<or> type = ''boot-gpt-switch'' \<or> type = ''boot-raw-fallback'' then
        io_bind (consume_size g ''region-start'') (\<lambda>start.
        io_bind (consume_size g ''region-size'') (\<lambda>size. io_return (start, size)))
      else io_return (0, 0))"

definition parse_size_limit :: "string \<Rightarrow> string \<Rightarrow> 64 word kf_parser" where
  "parse_size_limit g type =
     (if type = ''boot-emmc'' then
        io_catch (consume_size g ''size-limit'')
          (\<lambda>e. if e = G_KEY_FILE_ERROR G_KEY_FILE_ERROR_KEY_NOT_FOUND then io_return 0 else io_fail e)
      else io_return 0)"

text \<open>
  One section \<open>slot.<class>.<index>\<close>. \<open>shell\<close> is \<open>g_shell_parse_argv\<close>, \<open>seen\<close> the bootnames of the
  slots parsed before.
\<close>

definition parse_slot :: "rauc_config \<Rightarrow> (string \<Rightarrow> string list result) \<Rightarrow> string \<Rightarrow> string option
    \<Rightarrow> string list \<Rightarrow> string \<Rightarrow> string list \<Rightarrow> rauc_slot kf_parser" where
  "parse_slot cfg shell cwd filename seen g split =
     (let nm = split ! 1 @ ''.'' @ split ! 2 in
      io_bind (consume_opt g ''description'') (\<lambda>description.
      io_bind (consume g ''device'') (\<lambda>dev.
      let device = resolve_path cwd filename dev in
      io_bind (consume_opt g ''type'') (\<lambda>type0.
      let type = (case type0 of None \<Rightarrow> ''raw'' | Some t \<Rightarrow> t) in
      io_bind (io_lift (check_slot_device type device)) (\<lambda>_.
      io_bind (consume_opt g ''extra-mkfs-opts'') (\<lambda>opts.
      io_bind (case opts of None \<Rightarrow> io_return None
               | Some o1 \<Rightarrow> io_bind (io_lift (shell o1)) (\<lambda>argv. io_return (Some argv))) (\<lambda>mkfs.
      io_bind (parse_bootname seen g) (\<lambda>bootname.
      io_bind (consume_opt g ''parent'') (\<lambda>parent_name.
      io_bind (consume_flag g ''allow-mounted'') (\<lambda>allow_mounted.
      io_bind (consume_flag g ''readonly'') (\<lambda>ro.
      io_bind (parse_install_same g) (\<lambda>install_same.
      io_bind (consume_opt g ''extra-mount-opts'') (\<lambda>mount_opts.
      io_bind (consume_flag g ''resize'') (\<lambda>resize.
      io_bind (parse_region g type) (\<lambda>region.
      io_bind (parse_size_limit g type) (\<lambda>size_limit.
      io_bind (if cfg_system_bootloader cfg = Some ''efi'' then
                 io_bind (consume_opt g ''efi-loader'') (\<lambda>l.
                 io_bind (consume_opt g ''efi-cmdline'') (\<lambda>c. io_return (l, c)))
               else io_return (None, None)) (\<lambda>efi.
      io_bind (kf_query (\<lambda>kf. check_remaining_keys kf g)) (\<lambda>_.
      io_bind (remove_group g) (\<lambda>_.
        io_return ((slot_new0 nm (split ! 1))
          \<lparr>slot_description := description, slot_device := device, slot_type := type,
           slot_extra_mkfs_opts := mkfs, slot_bootname := bootname, slot_allow_mounted := allow_mounted,
           slot_readonly := ro, slot_install_same := install_same, slot_extra_mount_opts := mount_opts,
           slot_resize := resize, slot_region_start := fst region, slot_region_size := snd region,
           slot_size_limit := size_limit, slot_efi_loader := fst efi, slot_efi_cmdline := snd efi,
           slot_parent_name := parent_name,
           slot_data_directory := map_option (\<lambda>d. g_build_filename d g) (cfg_data_directory cfg)\<rparr>))))))))))))))))))))"

subsection \<open>All slots\<close>

text \<open>\<open>g_hash_table_insert\<close> replaces an entry with the same key.\<close>

definition slot_insert :: "slots \<Rightarrow> rauc_slot \<Rightarrow> slots" where
  "slot_insert slots s = filter (\<lambda>t. slot_name t \<noteq> slot_name s) slots @ [s]"

fun parse_slot_groups :: "rauc_config \<Rightarrow> (string \<Rightarrow> string list result) \<Rightarrow> string \<Rightarrow> string option
    \<Rightarrow> string list \<Rightarrow> string list \<Rightarrow> slots \<Rightarrow> slots kf_parser" where
  "parse_slot_groups cfg shell cwd filename [] seen slots = io_return slots"
| "parse_slot_groups cfg shell cwd filename (g # gs) seen slots =
     (case g_strsplit g (CHR ''.'') of
        [] \<Rightarrow> io_abort
      | prefix # rest \<Rightarrow>
          if prefix \<noteq> ''slot'' then parse_slot_groups cfg shell cwd filename gs seen slots
          else if length (prefix # rest) \<noteq> 3 then io_fail (R_CONFIG_ERROR R_CONFIG_ERROR_INVALID_FORMAT)
          else io_bind (parse_slot cfg shell cwd filename seen g (prefix # rest)) (\<lambda>slot.
            parse_slot_groups cfg shell cwd filename gs
              (case slot_bootname slot of None \<Rightarrow> seen | Some b \<Rightarrow> b # seen) (slot_insert slots slot)))"

fun add_parents :: "string list \<Rightarrow> slots \<Rightarrow> slots result" where
  "add_parents [] slots = Ok slots"
| "add_parents (n # ns) slots = (case slot_lookup slots n of
      None \<Rightarrow> Abort
    | Some slot \<Rightarrow>
        (case slot_parent_name slot of
           None \<Rightarrow> add_parents ns slots
         | Some pn \<Rightarrow>
             (case slot_lookup slots pn of
                None \<Rightarrow> Error (R_CONFIG_ERROR R_CONFIG_ERROR_PARENT)
              | Some parent \<Rightarrow>
                  if slot_bootname slot \<noteq> None then Error (R_CONFIG_ERROR R_CONFIG_ERROR_CHILD_HAS_BOOTNAME)
                  else add_parents ns (slot_update slots n (\<lambda>s. s\<lparr>slot_parent := Some (slot_name parent)\<rparr>)))))"

text \<open>The walk to the real parent, at most 100 steps.\<close>

fun real_parent :: "slots \<Rightarrow> nat \<Rightarrow> rauc_slot \<Rightarrow> rauc_slot result" where
  "real_parent slots n parent = (case slot_parent parent of
      None \<Rightarrow> Ok parent
    | Some p \<Rightarrow>
        (case slot_lookup slots p of
           None \<Rightarrow> Abort
         | Some q \<Rightarrow> (case n of
             0 \<Rightarrow> Error (R_CONFIG_ERROR R_CONFIG_ERROR_PARENT_LOOP)
           | Suc m \<Rightarrow> real_parent slots m q)))"

declare real_parent.simps [simp del]

fun fix_grandparent_loop :: "string list \<Rightarrow> slots \<Rightarrow> slots result" where
  "fix_grandparent_loop [] slots = Ok slots"
| "fix_grandparent_loop (n # ns) slots = (case slot_lookup slots n of
      None \<Rightarrow> Abort
    | Some slot \<Rightarrow>
        (case slot_parent slot of
           None \<Rightarrow> fix_grandparent_loop ns slots
         | Some p \<Rightarrow>
             (case slot_lookup slots p of
                None \<Rightarrow> Abort
              | Some parent \<Rightarrow>
                  result_bind (real_parent slots 100 parent) (\<lambda>rp.
                    fix_grandparent_loop ns
                      (slot_update slots n (\<lambda>s. s\<lparr>slot_parent := Some (slot_name rp)\<rparr>))))))"

definition fix_grandparent_links :: "slots \<Rightarrow> slots result" where
  "fix_grandparent_links slots = fix_grandparent_loop (map slot_name slots) slots"

definition parse_slots :: "rauc_config \<Rightarrow> (string \<Rightarrow> string list result) \<Rightarrow> string \<Rightarrow> string option
    \<Rightarrow> slots kf_parser" where
  "parse_slots cfg shell cwd filename =
     io_bind (kf_query (\<lambda>kf. Ok (g_key_file_get_groups kf))) (\<lambda>groups.
     io_bind (parse_slot_groups cfg shell cwd filename groups [] []) (\<lambda>slots.
     io_bind (io_lift (add_parents (map slot_name slots) slots)) (\<lambda>slots.
       io_lift (fix_grandparent_links slots))))"

subsection \<open>The parsed sections\<close>

lemma consume_opt_Some: "consume_opt g k kf = (Ok (Some v), kf') \<Longrightarrow> v \<noteq> []"
  by (auto simp: consume_opt_def key_file_consume_string_opt_def key_file_consume_string_def
      split: prod.splits result.splits if_splits)

lemma parse_bootname_Ok:
  assumes "parse_bootname seen g kf = (Ok bn, kf')" and "bn = Some b"
  shows "bootname_ok b \<and> b \<notin> set seen"
  using assms
  by (auto simp: parse_bootname_def io_iff bootname_ok_def value_check_tab_whitespace_def
      split: option.splits dest: consume_opt_Some)

lemma parse_slot_Ok:
  assumes "parse_slot cfg shell cwd filename seen g split kf = (Ok slot, kf')"
  shows "slot_parent slot = None" "slot_name slot = split ! 1 @ ''.'' @ split ! 2" "slot_sclass slot = split ! 1"
    "\<And>b. slot_bootname slot = Some b \<Longrightarrow> bootname_ok b \<and> b \<notin> set seen"
  using assms parse_bootname_Ok
  by (auto simp: parse_slot_def io_iff Let_def slot_new0_def)

definition parsed_inv :: "string list \<Rightarrow> slots \<Rightarrow> bool" where
  "parsed_inv seen slots \<longleftrightarrow> distinct (map slot_name slots) \<and> distinct (bootnames slots) \<and>
     set (bootnames slots) \<subseteq> set seen \<and> list_all bootname_ok (bootnames slots) \<and>
     list_all (\<lambda>s. slot_parent s = None) slots"

lemma bootnames_append: "bootnames (xs @ ys) = bootnames xs @ bootnames ys"
  by (simp add: bootnames_def)

lemma bootnames_filter: "set (bootnames (filter P xs)) \<subseteq> set (bootnames xs)"
  by (auto simp: set_bootnames)

lemma distinct_bootnames_filter: "distinct (bootnames xs) \<Longrightarrow> distinct (bootnames (filter P xs))"
proof (induction xs)
  case (Cons x xs)
  then show ?case using bootnames_filter [of P xs] by (auto simp: bootnames_def split: option.splits)
qed simp

lemma parsed_inv_insert:
  assumes "parsed_inv seen slots" and "slot_parent slot = None"
    and "\<And>b. slot_bootname slot = Some b \<Longrightarrow> bootname_ok b \<and> b \<notin> set seen"
  shows "parsed_inv (case slot_bootname slot of None \<Rightarrow> seen | Some b \<Rightarrow> b # seen) (slot_insert slots slot)"
proof -
  let ?rest = "filter (\<lambda>t. slot_name t \<noteq> slot_name slot) slots"
  have sub: "set (bootnames ?rest) \<subseteq> set (bootnames slots)" by (rule bootnames_filter)
  have "distinct (bootnames ?rest)" using assms(1) distinct_bootnames_filter by (auto simp: parsed_inv_def)
  moreover have "distinct (map slot_name ?rest)" using assms(1) by (simp add: parsed_inv_def distinct_map_filter)
  moreover have "list_all bootname_ok (bootnames ?rest)" "list_all (\<lambda>s. slot_parent s = None) ?rest"
    using assms(1) sub by (auto simp: parsed_inv_def list_all_iff)
  moreover have "bootnames [slot] = (case slot_bootname slot of None \<Rightarrow> [] | Some b \<Rightarrow> [b])"
    by (simp add: bootnames_def)
  ultimately show ?thesis
    using assms sub by (auto simp: parsed_inv_def slot_insert_def bootnames_append split: option.splits)
qed

lemma parse_slot_groups_inv:
  assumes "parse_slot_groups cfg shell cwd filename gs seen slots kf = (Ok slots', kf')" and "parsed_inv seen slots"
  shows "\<exists>seen'. parsed_inv seen' slots'"
  using assms
proof (induction gs arbitrary: seen slots kf)
  case Nil
  then show ?case by (auto simp: io_iff)
next
  case (Cons g gs)
  show ?case
  proof (cases "g_strsplit g (CHR ''.'')")
    case Nil
    then show ?thesis using Cons.prems by (simp add: io_iff)
  next
    case split: (Cons prefix rest)
    show ?thesis
    proof (cases "prefix = ''slot''")
      case False
      then show ?thesis using Cons split by simp
    next
      case True
      then obtain slot kf1 where slot: "parse_slot cfg shell cwd filename seen g (prefix # rest) kf = (Ok slot, kf1)"
        and tail: "parse_slot_groups cfg shell cwd filename gs
            (case slot_bootname slot of None \<Rightarrow> seen | Some b \<Rightarrow> b # seen) (slot_insert slots slot) kf1 = (Ok slots', kf')"
        using Cons.prems(1) split by (auto simp: io_iff split: if_splits)
      show ?thesis
        by (rule Cons.IH [OF tail parsed_inv_insert [OF Cons.prems(2) parse_slot_Ok(1,4) [OF slot]]])
    qed
  qed
qed

subsection \<open>Parent links\<close>

text \<open>Updating the parent of a slot changes neither names nor bootnames.\<close>

lemma set_parent_simps [simp]:
  "map slot_name (slot_update slots n (\<lambda>s. s\<lparr>slot_parent := p\<rparr>)) = map slot_name slots"
  "bootnames (slot_update slots n (\<lambda>s. s\<lparr>slot_parent := p\<rparr>)) = bootnames slots"
  "slot_lookup (slot_update slots n (\<lambda>s. s\<lparr>slot_parent := p\<rparr>)) m =
     (if m = n then map_option (\<lambda>s. s\<lparr>slot_parent := p\<rparr>) (slot_lookup slots m) else slot_lookup slots m)"
proof -
  show "bootnames (slot_update slots n (\<lambda>s. s\<lparr>slot_parent := p\<rparr>)) = bootnames slots"
    by (induction slots) (auto simp: bootnames_def slot_update_def)
qed (simp_all add: slot_lookup_update)

definition links_ok :: "slots \<Rightarrow> bool" where
  "links_ok slots \<longleftrightarrow> (\<forall>n s p. slot_lookup slots n = Some s \<and> slot_parent s = Some p \<longrightarrow>
     slot_bootname s = None \<and> slot_lookup slots p \<noteq> None)"

definition is_root :: "slots \<Rightarrow> string \<Rightarrow> bool" where
  "is_root slots n \<longleftrightarrow> (\<exists>s. slot_lookup slots n = Some s \<and> slot_parent s = None)"

lemma links_ok_update:
  assumes "links_ok slots" and "slot_lookup slots n = Some s" and "slot_bootname s = None"
    and "slot_lookup slots p \<noteq> None"
  shows "links_ok (slot_update slots n (\<lambda>s. s\<lparr>slot_parent := Some p\<rparr>))"
  using assms by (auto simp: links_ok_def split: if_splits)

lemma add_parents_Ok:
  assumes "add_parents ns slots = Ok slots'" and "links_ok slots"
  shows "links_ok slots'" "map slot_name slots' = map slot_name slots" "bootnames slots' = bootnames slots"
proof -
  have "links_ok slots' \<and> map slot_name slots' = map slot_name slots \<and> bootnames slots' = bootnames slots"
    using assms
  proof (induction ns arbitrary: slots)
    case (Cons n ns)
    obtain slot where slot: "slot_lookup slots n = Some slot"
      using Cons.prems(1) by (auto split: option.splits)
    show ?case
    proof (cases "slot_parent_name slot")
      case None
      then show ?thesis using Cons slot by simp
    next
      case (Some pn)
      then obtain parent where parent: "slot_lookup slots pn = Some parent" "slot_bootname slot = None"
        and tail: "add_parents ns (slot_update slots n (\<lambda>s. s\<lparr>slot_parent := Some (slot_name parent)\<rparr>)) = Ok slots'"
        using Cons.prems(1) slot by (auto split: option.splits if_splits)
      have "slot_lookup slots (slot_name parent) \<noteq> None"
        using slot_lookup_Some [OF parent(1)] parent(1) by auto
      from Cons.IH [OF tail links_ok_update [OF Cons.prems(2) slot parent(2) this]] show ?thesis by simp
    qed
  qed simp
  then show "links_ok slots'" "map slot_name slots' = map slot_name slots" "bootnames slots' = bootnames slots"
    by simp_all
qed

lemma real_parent_Ok:
  assumes "real_parent slots k parent = Ok rp" and "slot_lookup slots (slot_name parent) = Some parent"
  shows "slot_lookup slots (slot_name rp) = Some rp \<and> slot_parent rp = None"
  using assms
proof (induction slots k parent rule: real_parent.induct)
  case (1 slots k parent)
  show ?case
  proof (cases "slot_parent parent")
    case None
    then show ?thesis using 1 by (simp add: real_parent.simps)
  next
    case (Some p)
    then obtain q m where q: "slot_lookup slots p = Some q" "k = Suc m" "real_parent slots m q = Ok rp"
      using 1(2) by (auto simp: real_parent.simps [of slots k parent] split: option.splits nat.splits)
    have "slot_lookup slots (slot_name q) = Some q" using slot_lookup_Some [OF q(1)] q(1) by auto
    then show ?thesis using 1(1) [OF Some q(1,2,3)] by simp
  qed
qed

text \<open>Redirecting the parent of a slot that has one keeps the set of roots.\<close>

lemma is_root_update:
  assumes "slot_lookup slots n = Some s" and "slot_parent s \<noteq> None"
  shows "is_root (slot_update slots n (\<lambda>s. s\<lparr>slot_parent := Some p\<rparr>)) m \<longleftrightarrow> is_root slots m"
  using assms by (auto simp: is_root_def)

lemma fix_grandparent_Ok:
  assumes "fix_grandparent_loop ns slots = Ok slots'" and "links_ok slots"
  shows "links_ok slots' \<and> map slot_name slots' = map slot_name slots \<and> bootnames slots' = bootnames slots \<and>
    (\<forall>m. is_root slots' m = is_root slots m) \<and>
    (\<forall>n\<in>set ns. \<forall>s p. slot_lookup slots' n = Some s \<and> slot_parent s = Some p \<longrightarrow> is_root slots' p) \<and>
    (\<forall>n. n \<notin> set ns \<longrightarrow> slot_lookup slots' n = slot_lookup slots n)"
  using assms
proof (induction ns arbitrary: slots)
  case (Cons n ns)
  obtain slot where slot: "slot_lookup slots n = Some slot"
    using Cons.prems(1) by (auto split: option.splits)
  show ?case
  proof (cases "slot_parent slot")
    case None
    then have "fix_grandparent_loop ns slots = Ok slots'" using Cons.prems(1) slot by simp
    from Cons.IH [OF this Cons.prems(2)] show ?thesis
      using None slot by (cases "n \<in> set ns") auto
  next
    case (Some p)
    then obtain parent rp where parent: "slot_lookup slots p = Some parent" "real_parent slots 100 parent = Ok rp"
      and tail: "fix_grandparent_loop ns (slot_update slots n (\<lambda>s. s\<lparr>slot_parent := Some (slot_name rp)\<rparr>)) = Ok slots'"
      using Cons.prems(1) slot by (auto simp: result_bind_Ok_iff split: option.splits)
    let ?slots1 = "slot_update slots n (\<lambda>s. s\<lparr>slot_parent := Some (slot_name rp)\<rparr>)"
    have "slot_lookup slots (slot_name parent) = Some parent"
      using slot_lookup_Some [OF parent(1)] parent(1) by auto
    from real_parent_Ok [OF parent(2) this]
    have rp: "slot_lookup slots (slot_name rp) = Some rp" "slot_parent rp = None" by auto
    have bn: "slot_bootname slot = None" using Cons.prems(2) slot Some by (auto simp: links_ok_def)
    have links: "links_ok ?slots1"
      by (rule links_ok_update [OF Cons.prems(2) slot bn]) (simp add: rp)
    have roots: "is_root ?slots1 m = is_root slots m" for m
      by (rule is_root_update [OF slot]) (simp add: Some)
    have "is_root slots (slot_name rp)" using rp by (auto simp: is_root_def)
    moreover have "slot_lookup ?slots1 n = Some (slot\<lparr>slot_parent := Some (slot_name rp)\<rparr>)" using slot by simp
    ultimately show ?thesis
      using Cons.IH [OF tail links] roots by (cases "n \<in> set ns") auto
  qed
qed (simp)

lemma parse_slots_wf_lemma:
  assumes "parse_slots cfg shell cwd filename kf = (Ok slots, kf')"
  shows "slots_wf slots"
proof -
  obtain s1 s2 kf1 where s1: "parse_slot_groups cfg shell cwd filename (g_key_file_get_groups kf) [] [] kf = (Ok s1, kf1)"
    and s2: "add_parents (map slot_name s1) s1 = Ok s2"
    and s3: "fix_grandparent_loop (map slot_name s2) s2 = Ok slots"
    using assms by (auto simp: parse_slots_def io_iff fix_grandparent_links_def)
  have "parsed_inv [] []" by (simp add: parsed_inv_def bootnames_def)
  then obtain seen where inv: "parsed_inv seen s1" using parse_slot_groups_inv [OF s1] by blast
  then have "links_ok s1"
    using slot_lookup_Some by (fastforce simp: links_ok_def parsed_inv_def list_all_iff)
  note s2' = add_parents_Ok [OF s2 this]
  note s3' = fix_grandparent_Ok [OF s3 s2'(1)]
  have names: "map slot_name slots = map slot_name s1" "bootnames slots = bootnames s1" using s3' s2' by simp_all
  then have dist: "distinct (map slot_name slots)" using inv by (simp add: parsed_inv_def)
  have "parent_ok slots s" if s: "s \<in> set slots" for s
  proof (cases "slot_parent s")
    case (Some p)
    have look: "slot_lookup slots (slot_name s) = Some s" by (rule slot_lookup_name [OF dist s])
    have "slot_name s \<in> set (map slot_name s2)" using s s3' by (metis image_eqI list.set_map)
    then have "is_root slots p" using s3' look Some by blast
    moreover have "slot_bootname s = None" using s3' look Some by (auto simp: links_ok_def)
    ultimately show ?thesis using Some by (auto simp: parent_ok_def is_root_def)
  qed (simp add: parent_ok_def)
  then show ?thesis
    using names dist inv by (simp add: slots_wf_def parsed_inv_def list_all_iff)
qed

text \<open>
  A configuration that \<open>parse_slots\<close> accepts is well formed: slot names and bootnames are
  unique, bootnames contain neither blanks nor tabs, no child slot has a bootname, and the parent
  of a child is a slot of the table that has no parent itself (cycles and chains are gone).
\<close>

theorem parse_slots_wf:
  assumes "parse_slots cfg shell cwd filename kf = (Ok slots, kf')"
  shows "slots_wf slots"
  by (rule parse_slots_wf_lemma [OF assms])

definition config_demo_kf :: key_file where
  "config_demo_kf =
     [(''slot.rootfs.0'', [(''device'', ''/dev/sda1''), (''type'', ''ext4''), (''bootname'', ''A'')]),
      (''slot.appfs.0'', [(''device'', ''/dev/sda2''), (''parent'', ''rootfs.0'')]),
      (''slot.data.0'', [(''device'', ''/dev/sda3''), (''parent'', ''appfs.0'')])]"

definition config_demo_slots :: slots where
  "config_demo_slots = (case parse_slots config_default (\<lambda>s. Ok [s]) ''/'' None config_demo_kf of
     (Ok slots, _) \<Rightarrow> slots | _ \<Rightarrow> [])"

theorem parse_slots_wf_witness:
  "slots_wf config_demo_slots \<and> map slot_parent config_demo_slots = [None, Some ''rootfs.0'', Some ''rootfs.0'']"
proof -
  have parents: "map slot_parent config_demo_slots = [None, Some ''rootfs.0'', Some ''rootfs.0'']" by code_simp
  have "is_ok (fst (parse_slots config_default (\<lambda>s. Ok [s]) ''/'' None config_demo_kf))" by code_simp
  then obtain slots kf' where ok: "parse_slots config_default (\<lambda>s. Ok [s]) ''/'' None config_demo_kf = (Ok slots, kf')"
    by (metis is_ok_iff prod.collapse)
  then have "config_demo_slots = slots" by (simp add: config_demo_slots_def)
  then show ?thesis using parse_slots_wf [OF ok] parents by simp
qed

end
