(* ===== verification/Manifest_Check.thy ===== *)
theory Manifest_Check
  imports Manifest
begin

text \<open>
  What the manifest parser and the manifest checks guarantee: nothing in a manifest is silently
  ignored, parsed images are complete, a manifest accepted with a bundle has usable digests, and
  the manifests written at bundle creation are accepted at installation.
\<close>

subsection \<open>Nothing is ignored\<close>

text \<open>A parser that succeeds changes only the values of the keys in \<open>S\<close>.\<close>

definition consumes :: "(string \<times> string) set \<Rightarrow> 'a kf_parser \<Rightarrow> bool" where
  "consumes S m \<longleftrightarrow> (\<forall>kf x kf'. m kf = (Ok x, kf') \<longrightarrow>
     (\<forall>g k. (g, k) \<notin> S \<longrightarrow> kf_get kf' g k = kf_get kf g k))"

named_theorems consumes_intros

lemma consumesD: "consumes S m \<Longrightarrow> m kf = (Ok x, kf') \<Longrightarrow> (g, k) \<notin> S \<Longrightarrow> kf_get kf' g k = kf_get kf g k"
  by (simp add: consumes_def)

lemma consumes_bind [consumes_intros]:
  "consumes S m \<Longrightarrow> (\<And>x. consumes S (f x)) \<Longrightarrow> consumes S (io_bind m f)"
  unfolding consumes_def by (auto simp: io_bind_Ok_iff)

lemma consumes_return [consumes_intros]: "consumes S (io_return x)"
  by (auto simp: consumes_def io_iff)

lemma consumes_fail [consumes_intros]: "consumes S (io_fail e)"
  by (auto simp: consumes_def io_iff)

lemma consumes_lift [consumes_intros]: "consumes S (io_lift r)"
  by (auto simp: consumes_def io_iff)

lemma consumes_query [consumes_intros]: "consumes S (kf_query f)"
  by (auto simp: consumes_def io_iff)

lemma consumes_if [consumes_intros]:
  "(b \<Longrightarrow> consumes S m) \<Longrightarrow> (\<not> b \<Longrightarrow> consumes S n) \<Longrightarrow> consumes S (if b then m else n)"
  by simp

lemma consumes_option [consumes_intros]:
  "consumes S m \<Longrightarrow> (\<And>x. consumes S (f x)) \<Longrightarrow> consumes S (case v of None \<Rightarrow> m | Some x \<Rightarrow> f x)"
  by (simp split: option.splits)

lemma consumes_Let [consumes_intros]: "(\<And>x. consumes S (f x)) \<Longrightarrow> consumes S (let x = v in f x)"
  by simp

lemma consumes_consume [consumes_intros]: "(g, k) \<in> S \<Longrightarrow> consumes S (consume g k)"
  by (auto simp: consumes_def consume_def key_file_consume_string_def kf_simps split: result.splits if_splits)

lemma consumes_consume_opt [consumes_intros]: "(g, k) \<in> S \<Longrightarrow> consumes S (consume_opt g k)"
  by (auto simp: consumes_def consume_opt_def kf_simps split: prod.splits)
    (metis consume_string_opt_snd snd_conv)

lemma consumes_remove_key [consumes_intros]: "(g, k) \<in> S \<Longrightarrow> consumes S (remove_key g k)"
  by (auto simp: consumes_def io_iff kf_simps)

lemma consumes_list [consumes_intros]: "(g, k) \<in> S \<Longrightarrow> consumes S (consume_list g k)"
  by (auto simp: consumes_def consume_list_def kf_simps)

lemma consumes_remove_group [consumes_intros]: "(\<And>k. (g, k) \<in> S) \<Longrightarrow> consumes S (remove_group g)"
  by (auto simp: consumes_def io_iff kf_simps)

lemma consume_unless_missing_eq:
  "consume_unless_missing g k kf = (case key_file_consume_string kf g k of
      (Ok v, kf') \<Rightarrow> (Ok (Some v), kf')
    | (Error e, kf') \<Rightarrow> (if e = G_KEY_FILE_ERROR G_KEY_FILE_ERROR_KEY_NOT_FOUND then Ok None else Error e, kf')
    | (Abort, kf') \<Rightarrow> (Abort, kf'))"
  by (auto simp: consume_unless_missing_def io_catch_def io_bind_def consume_def io_return_def io_fail_def
      split: prod.splits result.splits)

lemma consumes_unless_missing [consumes_intros]: "(g, k) \<in> S \<Longrightarrow> consumes S (consume_unless_missing g k)"
  by (auto simp: consumes_def consume_unless_missing_eq key_file_consume_string_def kf_simps
      split: result.splits if_splits)

text \<open>A group is dropped only when it has no keys left.\<close>

lemma kf_get_no_keys: "kf_keys kf g = [] \<Longrightarrow> kf_get kf g k = None"
  by (simp add: kf_get_def)

lemma consumes_close_group [consumes_intros]: "consumes S (close_group g)"
  by (auto simp: consumes_def close_group_def io_iff check_remaining_keys_Ok kf_simps kf_get_no_keys)

lemma consumes_catch_query [consumes_intros]:
  "(\<And>e. consumes S (h e)) \<Longrightarrow> consumes S (io_catch (kf_query f) h)"
  by (auto simp: consumes_def io_iff)

definition image_keys :: "string list" where
  "image_keys = [''sha256'', ''size'', ''hooks'', ''filename'', ''type'', ''version'', ''description'',
     ''build'', ''adaptive'', ''convert'', ''converted'']"

lemma consumes_parse_image:
  "(\<And>k. k \<in> set image_keys \<Longrightarrow> (g, k) \<in> S) \<Longrightarrow> consumes S (parse_image g)"
  unfolding parse_image_def parse_image_size_def parse_image_hooks_def parse_image_type_def
  by (intro consumes_intros; simp add: image_keys_def)

lemma consumes_parse_meta_keys: "(\<And>k. (g, k) \<in> S) \<Longrightarrow> consumes S (parse_meta_keys g ks kvs)"
  by (induction ks arbitrary: kvs) (auto intro!: consumes_intros)

lemma consumes_parse_meta: "(\<And>k. (g, k) \<in> S) \<Longrightarrow> consumes S (parse_meta g meta)"
  unfolding parse_meta_def
  by (auto split: list.splits intro!: consumes_intros consumes_parse_meta_keys)

text \<open>The keys of a manifest.\<close>

definition manifest_key :: "string \<Rightarrow> string \<Rightarrow> bool" where
  "manifest_key g k \<longleftrightarrow>
     g = ''update'' \<and> k \<in> set [''compatible'', ''version'', ''description'', ''build'', ''min-rauc-version''] \<or>
     g = ''bundle'' \<and> k \<in> set [''format'', ''verity-hash'', ''verity-salt'', ''verity-size'', ''crypt-key''] \<or>
     g = ''handler'' \<and> k \<in> set [''filename'', ''args''] \<or>
     g = ''hooks'' \<and> k \<in> set [''filename'', ''hooks''] \<or>
     g_str_has_prefix g ''image.'' \<and> k \<in> set image_keys \<or>
     g_str_has_prefix g ''meta.'' \<or> g = ''rollout''"

lemma consumes_parse_manifest_groups:
  "consumes {(g, k). manifest_key g k} (parse_manifest_groups gs mf)"
  by (induction gs arbitrary: mf)
    (auto intro!: consumes_intros consumes_parse_image consumes_parse_meta simp: manifest_key_def)

lemma consumes_parse_manifest: "consumes {(g, k). manifest_key g k} parse_manifest"
  unfolding parse_manifest_def parse_update_def parse_bundle_def parse_bundle_format_def parse_handler_def
    parse_hooks_def
  by (intro consumes_intros consumes_parse_manifest_groups; simp add: manifest_key_def)

lemma parse_manifest_empty: "parse_manifest kf = (Ok mf, kf') \<Longrightarrow> kf' = []"
  by (auto simp: parse_manifest_def io_iff check_remaining_groups_Ok)

text \<open>
  C30. A manifest is accepted only if every setting in it is one that RAUC knows: the parser
  consumes all of the key file, so a misspelt or unsupported key is an error and never ignored.
\<close>

theorem parse_manifest_strict:
  assumes "parse_manifest kf = (Ok mf, kf')" and "kf_get kf g k = Some v"
  shows "kf' = [] \<and> manifest_key g k"
  using consumesD [OF consumes_parse_manifest assms(1), of g k] parse_manifest_empty [OF assms(1)] assms(2)
  by (auto simp: kf_simps)

definition manifest_demo_kf :: key_file where
  "manifest_demo_kf =
     [(''update'', [(''compatible'', ''demo''), (''version'', ''1.0'')]),
      (''image.rootfs'', [(''filename'', ''rootfs.ext4''), (''hooks'', ''post-install;'')]),
      (''hooks'', [(''filename'', ''hook.sh'')])]"

lemma manifest_demo_Ok: "is_ok (fst (parse_manifest manifest_demo_kf))"
  by code_simp

theorem parse_manifest_strict_witness:
  "\<exists>mf kf'. parse_manifest manifest_demo_kf = (Ok mf, kf') \<and> kf' = [] \<and> manifest_key ''update'' ''version''"
proof -
  obtain mf kf' where mf: "parse_manifest manifest_demo_kf = (Ok mf, kf')"
    using manifest_demo_Ok by (metis is_ok_iff prod.collapse)
  have "kf_get manifest_demo_kf ''update'' ''version'' = Some ''1.0''" by code_simp
  from mf parse_manifest_strict [OF mf this] show ?thesis by blast
qed

subsection \<open>Parsed images\<close>

text \<open>
  What the installation relies on: a digest means SHA-256 and no digest the default checksum type, an
  image for a slot that RAUC writes itself has a type some handler knows and a file, unless the type is
  \<open>emptyfs\<close>, which has none; artifact images have no type.
\<close>

definition image_wf :: "rauc_image \<Rightarrow> bool" where
  "image_wf img \<longleftrightarrow>
     (cs_digest (img_checksum img) \<noteq> None \<longleftrightarrow> cs_type (img_checksum img) = G_CHECKSUM_SHA256) \<and>
     cs_type (img_checksum img) \<in> set [G_CHECKSUM_MD5, G_CHECKSUM_SHA256] \<and>
     (img_artifact img = None \<and> \<not> hooks_install img \<longrightarrow> image_type_supported img) \<and>
     (img_artifact img \<noteq> None \<longrightarrow> img_type img = None) \<and>
     (if img_type img = Some ''emptyfs'' then img_filename img = None
      else img_filename img \<noteq> None \<or> hooks_install img)"

lemma image_of_group_new:
  "image_of_group g = Ok img \<Longrightarrow>
     img_checksum img = checksum_new0\<lparr>cs_size := - 1\<rparr> \<and> img_type img = None"
  by (auto simp: image_of_group_def r_new_image_def Let_def split: list.splits if_splits)

definition same_but_type :: "rauc_image \<Rightarrow> rauc_image \<Rightarrow> bool" where
  "same_but_type img img' \<longleftrightarrow> img_checksum img' = img_checksum img \<and> img_filename img' = img_filename img \<and>
     img_hooks img' = img_hooks img \<and> img_artifact img' = img_artifact img"

lemma handle_missing_type_Ok: "handle_missing_type img = Ok img' \<Longrightarrow> same_but_type img img'"
  by (auto simp: handle_missing_type_def same_but_type_def split: if_splits option.splits)

text \<open>The type step changes the type only, and not at all for artifacts.\<close>

lemma parse_image_type_Ok:
  assumes "parse_image_type g img kf = (Ok img', kf')"
  shows "same_but_type img img' \<and> (img_artifact img \<noteq> None \<longrightarrow> img_type img' = img_type img) \<and>
    (img_artifact img = None \<and> \<not> hooks_install img' \<longrightarrow> image_type_supported img')"
  using assms
  by (auto simp: parse_image_type_def io_iff same_but_type_def split: option.splits if_splits
      dest!: handle_missing_type_Ok)

lemma parse_image_wf:
  assumes "parse_image g kf = (Ok img, kf')"
  shows "image_wf img"
proof -
  obtain i0 digest sz hooks filename i1 kf1 kf2 adaptive convert converted where
    i0: "image_of_group g = Ok i0" and
    i1: "parse_image_type g (i0\<lparr>img_checksum := \<lparr>cs_type = (if digest = None then cs_type (img_checksum i0)
        else G_CHECKSUM_SHA256), cs_digest = digest, cs_size = sz\<rparr>, img_hooks := hooks, img_filename := filename\<rparr>) kf1
        = (Ok i1, kf2)" and
    v: "validate_filename_requirements i1 = Ok ()" and
    img: "img = i1\<lparr>img_adaptive := adaptive, img_convert := convert, img_converted := converted\<rparr>"
    using assms by (auto simp: parse_image_def io_iff Let_def)
  from image_of_group_new [OF i0] parse_image_type_Ok [OF i1] v show ?thesis
    by (auto simp: img image_wf_def same_but_type_def validate_filename_requirements_def checksum_new0_def image_type_supported_def
        split: if_splits)
qed

text \<open>What every section of images and metadata preserves holds at the end.\<close>

lemma parse_manifest_groups_inv:
  assumes "parse_manifest_groups gs mf kf = (Ok mf', kf')" and "P mf"
    and img: "\<And>mf img g kf kf'. P mf \<Longrightarrow> parse_image g kf = (Ok img, kf') \<Longrightarrow> P (mf\<lparr>mf_images := mf_images mf @ [img]\<rparr>)"
    and meta: "\<And>mf meta. P mf \<Longrightarrow> P (mf\<lparr>mf_meta := meta\<rparr>)"
  shows "P mf'"
  using assms(1,2)
proof (induction gs arbitrary: mf kf)
  case (Cons g gs)
  from Cons.prems(1) obtain m1 kf1 where
    m1: "(if g_str_has_prefix g ''image.'' then
         io_bind (parse_image g) (\<lambda>img. io_return (mf\<lparr>mf_images := mf_images mf @ [img]\<rparr>))
       else io_return mf) kf = (Ok m1, kf1)" and
    rest: "io_bind (if g_str_has_prefix g ''meta.'' then
         io_bind (parse_meta g (mf_meta m1)) (\<lambda>meta. io_return (m1\<lparr>mf_meta := meta\<rparr>))
       else io_return m1) (\<lambda>mf. parse_manifest_groups gs mf) kf1 = (Ok mf', kf')"
    by (auto simp: io_bind_Ok_iff)
  have "P m1" using m1 Cons.prems(2) img by (auto simp: io_iff split: if_splits)
  with rest meta show ?case by (auto simp: io_iff split: if_splits intro: Cons.IH)
qed (simp add: io_iff)

lemma parsed_images_wf:
  assumes "parse_manifest kf = (Ok mf, kf')"
  shows "list_all image_wf (mf_images mf)"
proof -
  obtain m0 m1 m2 m3 kf0 kf1 kf2 kf3 gs kf4 where
    m0: "parse_update manifest_new0 kf = (Ok m0, kf0)" and m1: "parse_bundle m0 kf0 = (Ok m1, kf1)" and
    m2: "parse_handler m1 kf1 = (Ok m2, kf2)" and m3: "parse_hooks m2 kf2 = (Ok m3, kf3)" and
    gs: "parse_manifest_groups gs m3 kf3 = (Ok mf, kf4)"
    using assms by (auto simp: parse_manifest_def io_iff)
  have "mf_images m3 = []"
    using m0 m1 m2 m3
    by (auto simp: parse_update_def parse_bundle_def parse_bundle_format_def parse_handler_def parse_hooks_def
        io_iff Let_def manifest_new0_def split: if_splits)
  then have "list_all image_wf (mf_images m3)" by simp
  with gs show ?thesis
    by (rule parse_manifest_groups_inv [where P = "\<lambda>mf. list_all image_wf (mf_images mf)"])
      (auto dest: parse_image_wf)
qed

text \<open>
  C31. Every image of a parsed manifest is consistent: the type of its checksum is SHA-256 exactly when
  it has a digest (and the default, MD5, otherwise), an image for a slot that has no install hook has
  an image type for which some handler exists, an artifact image has no image type, and an image has a
  file or an install hook unless its type is \<open>emptyfs\<close>, which excludes a file.
\<close>

theorem parse_manifest_images_wf:
  assumes "parse_manifest kf = (Ok mf, kf')"
  shows "list_all image_wf (mf_images mf)"
  by (rule parsed_images_wf [OF assms])

theorem parse_manifest_images_wf_witness:
  "\<exists>mf kf'. parse_manifest manifest_demo_kf = (Ok mf, kf') \<and> list_all image_wf (mf_images mf)"
proof -
  obtain mf kf' where mf: "parse_manifest manifest_demo_kf = (Ok mf, kf')"
    using manifest_demo_Ok by (metis is_ok_iff prod.collapse)
  from mf parse_manifest_images_wf [OF mf] show ?thesis by blast
qed

subsection \<open>Accepted manifests\<close>

definition bundled_image_ok :: "rauc_image \<Rightarrow> bool" where
  "bundled_image_ok img \<longleftrightarrow> img_filename img = None \<or>
     cs_type (img_checksum img) = G_CHECKSUM_SHA256 \<and> cs_digest (img_checksum img) \<noteq> None \<and>
     0 \<le> sint (cs_size (img_checksum img)) \<and>
     (case img_convert img of None \<Rightarrow> True
      | Some conv \<Rightarrow> (case img_converted img of None \<Rightarrow> False | Some cs \<Rightarrow> length conv = length cs))"

lemma check_bundled_image_Ok:
  "check_bundled_image img = Ok img' \<Longrightarrow> bundled_image_ok img' \<and> img_filename img' = img_filename img \<and>
     img_checksum img' = (img_checksum img)\<lparr>cs_size := cs_size (img_checksum img')\<rparr>"
  by (auto simp: check_bundled_image_def bundled_image_ok_def io_iff split: if_splits option.splits)

lemma check_bundled_images_Ok:
  "check_bundled_images imgs = Ok imgs' \<Longrightarrow> list_all bundled_image_ok imgs' \<and> length imgs' = length imgs"
  by (induction imgs arbitrary: imgs') (auto simp: io_iff dest: check_bundled_image_Ok)

lemma check_bundled_image_id: "bundled_image_ok img \<Longrightarrow> check_bundled_image img = Ok img"
  by (auto simp: check_bundled_image_def bundled_image_ok_def fail_if_def split: option.splits)

lemma check_bundled_images_id: "list_all bundled_image_ok imgs \<Longrightarrow> check_bundled_images imgs = Ok imgs"
  by (induction imgs) (simp_all add: check_bundled_image_id)

definition hex32 :: "string option \<Rightarrow> bool" where
  "hex32 s \<longleftrightarrow> (\<exists>h raw. s = Some h \<and> hex_decode_loop h = Some raw \<and> length raw = 32)"

lemma hex_decode_length32: "length h = 64 \<Longrightarrow> hex_decode_loop h = Some raw \<Longrightarrow> length raw = 32"
  using hex_decode_loop_length [of h raw] by simp

lemma check_hex32_Ok: "check_hex32 s = Ok u \<Longrightarrow> hex32 s"
  by (auto simp: check_hex32_def hex32_def r_hex_decode_def split: option.splits if_splits
      dest: hex_decode_length32)

lemma check_manifest_common_Ok:
  "check_manifest_common version mf = Ok u \<longleftrightarrow>
     (case mf_update_min_rauc_version mf of None \<Rightarrow> True
      | Some v \<Rightarrow> semver_le ''0'' v \<and> semver_le v version \<and> \<not> semver_le v ''1.13'') \<and>
     (mf_install_check mf \<or> list_ex has_hooks (mf_images mf) \<longrightarrow> mf_hook_name mf \<noteq> None)"
  by (auto simp: check_manifest_common_def check_min_rauc_version_def io_iff split: option.splits)

text \<open>
  C29. A manifest accepted for a verity or crypt bundle carries everything that is needed to verify
  the payload: root hash and salt of 32 bytes, a positive size that is a multiple of the 4096 byte
  block, for crypt bundles a 32 byte key, and for each image that has a file a SHA-256 digest and a
  non-negative size. A manifest with an install-check hook or with an image that has hooks names a
  hook script, and the manifest does not ask for a newer RAUC.
\<close>

theorem check_manifest_external_sound:
  assumes "check_manifest_external version mf = Ok mf'"
  shows "mf_bundle_format mf' \<noteq> R_MANIFEST_FORMAT_PLAIN \<and>
    hex32 (mf_bundle_verity_hash mf') \<and> hex32 (mf_bundle_verity_salt mf') \<and>
    0 < mf_bundle_verity_size mf' \<and> 4096 dvd unat (mf_bundle_verity_size mf') \<and>
    (mf_bundle_format mf' = R_MANIFEST_FORMAT_CRYPT \<longrightarrow> hex32 (mf_bundle_crypt_key mf')) \<and>
    list_all bundled_image_ok (mf_images mf') \<and> length (mf_images mf') = length (mf_images mf) \<and>
    (mf_install_check mf' \<or> list_ex has_hooks (mf_images mf) \<longrightarrow> mf_hook_name mf' \<noteq> None) \<and>
    (\<forall>v. mf_update_min_rauc_version mf' = Some v \<longrightarrow> semver_le v version)"
proof -
  obtain imgs where imgs: "check_bundled_images (mf_images mf) = Ok imgs" "mf' = mf\<lparr>mf_images := imgs\<rparr>"
    and common: "check_manifest_common version mf = Ok ()"
    and fmt: "mf_bundle_format mf \<noteq> R_MANIFEST_FORMAT_PLAIN" "check_verity mf = Ok ()"
      "mf_bundle_format mf = R_MANIFEST_FORMAT_CRYPT \<Longrightarrow> check_hex32 (mf_bundle_crypt_key mf) = Ok ()"
    using assms by (auto simp: check_manifest_external_def check_manifest_bundled_def io_iff split: bundle_format.splits)
  have sz: "mf_bundle_verity_size mf \<noteq> 0" "mf_bundle_verity_size mf mod 4096 = 0"
    and hex: "hex32 (mf_bundle_verity_hash mf)" "hex32 (mf_bundle_verity_salt mf)"
    using fmt(2) by (auto simp: check_verity_def io_iff dest: check_hex32_Ok)
  have "unat (mf_bundle_verity_size mf) mod 4096 = unat (mf_bundle_verity_size mf mod 4096)"
    by (simp add: unat_mod)
  then have "4096 dvd unat (mf_bundle_verity_size mf)" using sz(2) by (simp add: dvd_eq_mod_eq_0)
  with sz hex fmt(1,3) check_bundled_images_Ok [OF imgs(1)] common imgs(2) show ?thesis
    by (auto simp: check_manifest_common_Ok word_gt_0 dest: check_hex32_Ok split: option.splits)
qed

definition manifest_demo_verity :: rauc_manifest where
  "manifest_demo_verity = manifest_new0\<lparr>mf_update_compatible := Some ''demo'',
     mf_bundle_format := R_MANIFEST_FORMAT_VERITY, mf_bundle_verity_hash := Some (replicate 64 CHR ''a''),
     mf_bundle_verity_salt := Some (replicate 64 CHR ''0''), mf_bundle_verity_size := 8192,
     mf_images := [r_new_image\<lparr>img_slotclass := Some ''rootfs'', img_filename := Some ''rootfs.img'',
       img_checksum := \<lparr>cs_type = G_CHECKSUM_SHA256, cs_digest = Some ''d'', cs_size = 10\<rparr>\<rparr>]\<rparr>"

theorem check_manifest_external_sound_witness:
  "\<exists>mf'. check_manifest_external ''1.15'' manifest_demo_verity = Ok mf' \<and>
     list_all bundled_image_ok (mf_images mf') \<and> 4096 dvd unat (mf_bundle_verity_size mf')"
proof -
  have "is_ok (check_manifest_external ''1.15'' manifest_demo_verity)" by code_simp
  then obtain mf' where mf': "check_manifest_external ''1.15'' manifest_demo_verity = Ok mf'"
    by (auto simp: is_ok_iff)
  from mf' check_manifest_external_sound [OF mf'] show ?thesis by blast
qed

subsection \<open>From creation to installation\<close>

lemma compute_checksum_size:
  assumes "compute_checksum gc reader cs f w = Ok cs'" and "file_content reader f w = Some content"
  shows "cs_size cs' = of_nat (length content)"
proof -
  have loop: "read_loop gc ctx sz rs = Ok (ctx', sz') \<Longrightarrow> reads_content rs = Some c \<Longrightarrow> sz' = sz + of_nat (length c)"
    for ctx sz rs ctx' sz' c
    by (induction gc ctx sz rs arbitrary: c rule: read_loop.induct) (auto split: if_splits simp: add.assoc)
  show ?thesis
    using assms loop
    by (fastforce simp: compute_checksum_def update_from_file_def io_iff Let_def file_content_def split: result.splits)
qed

lemma compute_checksum_type:
  "compute_checksum gc reader cs f w = Ok cs' \<Longrightarrow>
     cs_digest cs' \<noteq> None \<and> cs_type cs' = (if cs_type cs = G_CHECKSUM_MD5 then G_CHECKSUM_SHA256 else cs_type cs)"
  by (auto simp: compute_checksum_def io_iff Let_def)

definition files_small :: "'w reader \<Rightarrow> 'w \<Rightarrow> bool" where
  "files_small reader w \<longleftrightarrow> (\<forall>f content. file_content reader f w = Some content \<longrightarrow> length content < 2 ^ 63)"

lemma sint_of_nat_small: "n < 2 ^ 63 \<Longrightarrow> 0 \<le> sint (of_nat n :: 64 word)"
  by (simp add: signed_of_nat signed_take_bit_int_eq_self)

lemma update_image_checksums_ok:
  assumes "update_image_checksums gc reader dir w imgs = Ok imgs'"
    and "list_all image_wf imgs" and "list_all (\<lambda>img. img_convert img = None) imgs" and "files_small reader w"
  shows "list_all bundled_image_ok imgs' \<and> length imgs' = length imgs \<and>
    (\<forall>P. list_all P imgs \<longrightarrow> (\<forall>img cs. P img \<longrightarrow> P (img\<lparr>img_checksum := cs\<rparr>)) \<longrightarrow> list_all P imgs') \<and>
    (list_ex has_hooks imgs' \<longleftrightarrow> list_ex has_hooks imgs)"
  using assms(1-3)
proof (induction imgs arbitrary: imgs')
  case (Cons img imgs)
  obtain cs rest where cs: "imgs' = img\<lparr>img_checksum := cs\<rparr> # rest"
    and rest: "update_image_checksums gc reader dir w imgs = Ok rest"
    and f: "case img_filename img of None \<Rightarrow> True
      | Some f \<Rightarrow> compute_checksum gc reader (img_checksum img) (g_build_filename dir f) w = Ok cs"
    using Cons.prems(1) by (auto simp: io_iff split: option.splits result.splits)
  have "bundled_image_ok (img\<lparr>img_checksum := cs\<rparr>)"
  proof (cases "img_filename img")
    case (Some fn)
    with f have c: "compute_checksum gc reader (img_checksum img) (g_build_filename dir fn) w = Ok cs" by simp
    obtain content where content: "file_content reader (g_build_filename dir fn) w = Some content"
      using compute_checksum_Ok_content [OF c] by blast
    then have "0 \<le> sint (cs_size cs)"
      using compute_checksum_size [OF c content] assms(4) by (simp add: files_small_def sint_of_nat_small)
    moreover have "cs_type cs = G_CHECKSUM_SHA256"
      using compute_checksum_type [OF c] Cons.prems(2) by (auto simp: image_wf_def)
    ultimately show ?thesis
      using compute_checksum_type [OF c] Cons.prems(3) by (simp add: bundled_image_ok_def)
  qed (simp add: bundled_image_ok_def)
  with Cons.IH [OF rest] Cons.prems(2,3) show ?case by (simp add: cs has_hooks_def)
qed simp

definition no_verity :: "rauc_manifest \<Rightarrow> bool" where
  "no_verity mf \<longleftrightarrow> mf_bundle_format mf = R_MANIFEST_FORMAT_PLAIN \<longrightarrow> mf_bundle_crypt_key mf = None \<and>
     mf_bundle_verity_hash mf = None \<and> mf_bundle_verity_salt mf = None \<and> mf_bundle_verity_size mf = 0"

lemma parse_manifest_no_verity:
  assumes "parse_manifest kf = (Ok mf, kf')"
  shows "no_verity mf"
proof -
  obtain m0 m1 m2 m3 kf0 kf1 kf2 kf3 gs kf4 where
    m0: "parse_update manifest_new0 kf = (Ok m0, kf0)" and m1: "parse_bundle m0 kf0 = (Ok m1, kf1)" and
    m2: "parse_handler m1 kf1 = (Ok m2, kf2)" and m3: "parse_hooks m2 kf2 = (Ok m3, kf3)" and
    gs: "parse_manifest_groups gs m3 kf3 = (Ok mf, kf4)"
    using assms by (auto simp: parse_manifest_def io_iff)
  have "no_verity m3"
    using m0 m1 m2 m3
    by (auto simp: parse_update_def parse_bundle_def parse_bundle_format_def parse_handler_def parse_hooks_def
        io_iff Let_def manifest_new0_def no_verity_def split: if_splits)
  with gs show ?thesis
    by (rule parse_manifest_groups_inv [where P = no_verity]) (auto simp: no_verity_def)
qed

definition plain_image_ok :: "rauc_image \<Rightarrow> bool" where
  "plain_image_ok img \<longleftrightarrow> img_artifact img = None \<and> img_convert img = None \<and>
     (case img_converted img of None \<Rightarrow> True | Some cs \<Rightarrow> cs = [])"

lemma check_plain_images_iff: "check_manifest_plain_images imgs = Ok u \<longleftrightarrow> list_all plain_image_ok imgs"
  by (induction imgs) (auto simp: io_iff plain_image_ok_def split: option.splits)

lemma sync_manifest_Ok:
  assumes "sync_manifest_with_contentdir os gc reader mf dir w = Ok mf'"
  obtains imgs where "update_image_checksums gc reader dir w (mf_images mf) = Ok imgs" "mf' = mf\<lparr>mf_images := imgs\<rparr>"
  using assms by (auto simp: sync_manifest_with_contentdir_def update_manifest_checksums_def io_iff Let_def)

text \<open>
  C32. Bundle creation and installation agree: a plain-format manifest that was parsed, passed the
  input check and had its checksums filled in from the content directory is accepted, unchanged, by
  the check that the installing side applies to the manifest inside a bundle.
\<close>

theorem created_manifest_accepted:
  assumes "parse_manifest kf = (Ok mf, kf')" and "check_manifest_input version mf = Ok ()"
    and "mf_bundle_format mf = R_MANIFEST_FORMAT_PLAIN"
    and "sync_manifest_with_contentdir os gc reader mf dir w = Ok mf'" and "files_small reader w"
  shows "check_manifest_internal version mf' = Ok mf'"
proof -
  obtain imgs where imgs: "update_image_checksums gc reader dir w (mf_images mf) = Ok imgs"
    and mf': "mf' = mf\<lparr>mf_images := imgs\<rparr>"
    using sync_manifest_Ok [OF assms(4)] by blast
  have common: "check_manifest_common version mf = Ok ()"
    and plain: "list_all plain_image_ok (mf_images mf)"
    using assms(2,3) by (auto simp: check_manifest_input_def check_manifest_plain_def io_iff check_plain_images_iff)
  then have noconv: "list_all (\<lambda>img. img_convert img = None) (mf_images mf)"
    by (auto simp: list_all_iff plain_image_ok_def)
  note upd = update_image_checksums_ok [OF imgs parsed_images_wf [OF assms(1)] noconv assms(5)]
  have plain': "list_all plain_image_ok imgs"
    using upd plain by (auto simp: plain_image_ok_def)
  have "check_manifest_bundled mf' = Ok mf'"
    using upd by (simp add: check_manifest_bundled_def mf' check_bundled_images_id)
  moreover have "check_manifest_plain mf' = Ok ()"
    using plain' assms(3) by (simp add: check_manifest_plain_def mf' check_plain_images_iff)
  moreover have "check_manifest_common version mf' = Ok ()"
    using common upd by (simp add: check_manifest_common_Ok mf')
  ultimately show ?thesis
    using parse_manifest_no_verity [OF assms(1)] assms(3)
    by (simp add: check_manifest_internal_def no_verity_def mf' fail_if_def)
qed

definition manifest_demo_mf :: rauc_manifest where
  "manifest_demo_mf = (case fst (parse_manifest manifest_demo_kf) of Ok mf \<Rightarrow> mf | _ \<Rightarrow> manifest_new0)"

lemma manifest_demo_parsed: "parse_manifest manifest_demo_kf = (Ok manifest_demo_mf, [])"
  using manifest_demo_Ok parse_manifest_empty [of manifest_demo_kf manifest_demo_mf]
  by (cases "parse_manifest manifest_demo_kf") (auto simp: manifest_demo_mf_def is_ok_iff)

definition files_demo_os :: "unit os" where
  "files_demo_os = (os_programs (\<lambda>a w. (Not_Exited, w)))\<lparr>os_file_exists := (\<lambda>p w. True)\<rparr>"

definition files_demo_reader :: "unit reader" where
  "files_demo_reader = (\<lambda>f w. Ok [Read_Bytes ''ab'', Read_Bytes ''c''])"

theorem created_manifest_accepted_witness:
  "\<exists>mf'. sync_manifest_with_contentdir files_demo_os plain_gchecksum files_demo_reader manifest_demo_mf ''/b'' () = Ok mf' \<and>
     check_manifest_internal ''1.15'' mf' = Ok mf'"
proof -
  have "is_ok (sync_manifest_with_contentdir files_demo_os plain_gchecksum files_demo_reader manifest_demo_mf ''/b'' ())"
    by code_simp
  then obtain mf' where mf':
    "sync_manifest_with_contentdir files_demo_os plain_gchecksum files_demo_reader manifest_demo_mf ''/b'' () = Ok mf'"
    by (auto simp: is_ok_iff)
  have input: "check_manifest_input ''1.15'' manifest_demo_mf = Ok ()" by code_simp
  have fmt: "mf_bundle_format manifest_demo_mf = R_MANIFEST_FORMAT_PLAIN" by code_simp
  have "files_small files_demo_reader ()"
    by (auto simp: files_small_def files_demo_reader_def file_content_def)
  from mf' created_manifest_accepted [OF manifest_demo_parsed input fmt mf' this] show ?thesis by blast
qed

end
