(* ===== verification/Config_File.thy ===== *)
theory Config_File
  imports Config_Slots Artifacts Install_Run Manifest_Check
begin

text \<open>
  The system configuration (\<open>src/src/config_file.c\<close>): the sections of the file, the overrides from
  the command line, and the checks of \<open>load_config\<close>. Every section is consumed from the key file. The
  text parser (\<open>g_key_file_load_from_data\<close>), the checksum, the shell word splitter and the working
  directory are parameters.
\<close>

subsection \<open>Data\<close>

datatype sys_variant = R_CONFIG_SYS_VARIANT_NONE | R_CONFIG_SYS_VARIANT_DTB | R_CONFIG_SYS_VARIANT_FILE
  | R_CONFIG_SYS_VARIANT_NAME

datatype event_log_format = R_EVENT_LOGFMT_READABLE | R_EVENT_LOGFMT_READABLE_SHORT | R_EVENT_LOGFMT_JSON
  | R_EVENT_LOGFMT_JSON_PRETTY

record event_logger =
  log_name :: string
  log_filename :: string
  log_events :: "string list"
  log_format :: event_log_format
  log_maxsize :: "64 word"
  log_maxfiles :: "32 word"

record config_repo = artifact_repo +
  repo_data_directory :: "string option"

record system_config = rauc_config +
  cfg_system_variant_type :: sys_variant
  cfg_max_bundle_download_size :: "64 word"
  cfg_max_bundle_signature_size :: "64 word"
  cfg_bundle_formats_mask :: "32 word"
  cfg_perform_pre_check :: bool
  cfg_keyring_path :: "string option"
  cfg_keyring_directory :: "string option"
  cfg_keyring_check_crl :: bool
  cfg_keyring_allow_partial_chain :: bool
  cfg_use_bundle_signing_time :: bool
  cfg_keyring_check_purpose :: "string option"
  cfg_keyring_allowed_signer_cns :: "string list option"
  cfg_store_path :: "string option"
  cfg_tmp_path :: "string option"
  cfg_casync_install_args :: "string option"
  cfg_use_desync :: bool
  cfg_streaming_sandbox_user :: "string option"
  cfg_streaming_tls_cert :: "string option"
  cfg_streaming_tls_key :: "string option"
  cfg_streaming_tls_ca :: "string option"
  cfg_enabled_headers :: "string list option"
  cfg_encryption_key :: "string option"
  cfg_encryption_cert :: "string option"
  cfg_autoinstall_path :: "string option"
  cfg_systeminfo_handler :: "string option"
  cfg_loggers :: "event_logger list"
  cfg_slots :: slots
  cfg_artifact_repos :: "config_repo list"
  cfg_file_checksum :: string

definition DEFAULT_MAX_BUNDLE_DOWNLOAD_SIZE :: "64 word" where
  "DEFAULT_MAX_BUNDLE_DOWNLOAD_SIZE = 8 * 1024 * 1024"

definition DEFAULT_MAX_BUNDLE_SIGNATURE_SIZE :: "64 word" where
  "DEFAULT_MAX_BUNDLE_SIGNATURE_SIZE = 64 * 1024"

text \<open>The zeroed structure of \<open>g_new0\<close>.\<close>

definition config_new0 :: system_config where
  "config_new0 = \<lparr>cfg_system_compatible = None, cfg_system_min_bundle_version = None,
     cfg_system_variant = None, cfg_system_bootloader = None, cfg_system_bb_statename = None,
     cfg_system_bb_dtbpath = None, cfg_boot_default_attempts = 0, cfg_boot_attempts_primary = 0,
     cfg_grubenv_path = None, cfg_custom_bootloader_backend = [], cfg_efi_use_bootnext = False,
     cfg_prevent_late_fallback = False, cfg_activate_installed = False,
     cfg_mount_prefix = [], cfg_data_directory = None, cfg_statusfile_path = None,
     cfg_preinstall_handler = None, cfg_postinstall_handler = None,
     cfg_system_variant_type = R_CONFIG_SYS_VARIANT_NONE, cfg_max_bundle_download_size = 0,
     cfg_max_bundle_signature_size = 0, cfg_bundle_formats_mask = 0, cfg_perform_pre_check = False,
     cfg_keyring_path = None, cfg_keyring_directory = None, cfg_keyring_check_crl = False,
     cfg_keyring_allow_partial_chain = False, cfg_use_bundle_signing_time = False,
     cfg_keyring_check_purpose = None, cfg_keyring_allowed_signer_cns = None, cfg_store_path = None,
     cfg_tmp_path = None, cfg_casync_install_args = None, cfg_use_desync = False,
     cfg_streaming_sandbox_user = None, cfg_streaming_tls_cert = None, cfg_streaming_tls_key = None,
     cfg_streaming_tls_ca = None, cfg_enabled_headers = None, cfg_encryption_key = None,
     cfg_encryption_cert = None, cfg_autoinstall_path = None, cfg_systeminfo_handler = None,
     cfg_loggers = [], cfg_slots = [], cfg_artifact_repos = [], cfg_file_checksum = []\<rparr>"

subsection \<open>Optional keys\<close>

text \<open>\<open>g_key_file_get_integer\<close>: \<open>strtol\<close>, then nothing or a blank, and the range of a \<open>gint\<close>.\<close>

definition g_key_file_get_integer :: "key_file \<Rightarrow> string \<Rightarrow> string \<Rightarrow> 32 word result" where
  "g_key_file_get_integer kf g k = result_bind (g_key_file_get_string kf g k) (\<lambda>s.
     let (neg, s2) = skip_sign (dropWhile isspace_v s);
         (v, r) = parse_digits 10 0 s2;
         rest = (if r = s2 then s else r);
         n = (if neg then - v else v)
     in if s = [] \<or> (rest \<noteq> [] \<and> \<not> g_ascii_isspace (hd rest)) \<or> n < - (2 ^ 31) \<or> 2 ^ 31 \<le> n
        then Error (G_KEY_FILE_ERROR G_KEY_FILE_ERROR_INVALID_VALUE)
        else Ok (of_int n))"

definition key_file_consume_integer :: "string \<Rightarrow> string \<Rightarrow> 32 word kf_parser" where
  "key_file_consume_integer g k =
     io_bind (kf_query (\<lambda>kf. g_key_file_get_integer kf g k)) (\<lambda>n.
     io_bind (remove_key g k) (\<lambda>_. io_return n))"

text \<open>The two patterns of a key that may be missing: in \<open>[system]\<close> only the key, elsewhere the group too.\<close>

definition or_default :: "'a kf_parser \<Rightarrow> 'a \<Rightarrow> 'a kf_parser" where
  "or_default m d = io_catch m
     (\<lambda>e. if e = G_KEY_FILE_ERROR G_KEY_FILE_ERROR_KEY_NOT_FOUND then io_return d else io_fail e)"

definition or_absent :: "'a kf_parser \<Rightarrow> 'a \<Rightarrow> 'a kf_parser" where
  "or_absent m d = io_catch m
     (\<lambda>e. if e = G_KEY_FILE_ERROR G_KEY_FILE_ERROR_KEY_NOT_FOUND \<or>
              e = G_KEY_FILE_ERROR G_KEY_FILE_ERROR_GROUP_NOT_FOUND then io_return d else io_fail e)"

definition system_flag :: "string \<Rightarrow> bool \<Rightarrow> bool kf_parser" where
  "system_flag k d =
     io_bind (or_default (kf_query (\<lambda>kf. g_key_file_get_boolean kf ''system'' k)) d) (\<lambda>b.
     io_bind (remove_key ''system'' k) (\<lambda>_. io_return b))"

definition section_flag :: "string \<Rightarrow> string \<Rightarrow> bool kf_parser" where
  "section_flag g k =
     io_bind (or_absent (kf_query (\<lambda>kf. g_key_file_get_boolean kf g k)) False) (\<lambda>b.
     io_bind (remove_key g k) (\<lambda>_. io_return b))"

subsection \<open>Bundle formats\<close>

record format_state =
  fmt_mask :: "32 word"
  fmt_set :: bool
  fmt_modify :: bool

definition format_of :: "string \<Rightarrow> bundle_format option" where
  "format_of token =
     (if token = ''plain'' then Some R_MANIFEST_FORMAT_PLAIN
      else if token = ''verity'' then Some R_MANIFEST_FORMAT_VERITY
      else if token = ''crypt'' then Some R_MANIFEST_FORMAT_CRYPT
      else None)"

text \<open>\<open>1 << format\<close>\<close>

fun format_bit :: "bundle_format \<Rightarrow> 32 word" where
  "format_bit R_MANIFEST_FORMAT_PLAIN = push_bit 0 1"
| "format_bit R_MANIFEST_FORMAT_VERITY = push_bit 1 1"
| "format_bit R_MANIFEST_FORMAT_CRYPT = push_bit 2 1"

fun format_token :: "string \<Rightarrow> format_state \<Rightarrow> format_state result" where
  "format_token [] st = Ok st"
| "format_token (c # cs) st =
     (let minus = (c = CHR ''-''); plus = (c = CHR ''+'');
          token = (if minus \<or> plus then cs else c # cs)
      in case format_of token of
           None \<Rightarrow> Error (R_CONFIG_ERROR R_CONFIG_ERROR_INVALID_FORMAT)
         | Some format \<Rightarrow>
             let st1 = (if plus \<or> minus then st\<lparr>fmt_modify := True\<rparr>
                        else st\<lparr>fmt_mask := (if fmt_set st then fmt_mask st else 0), fmt_set := True\<rparr>)
             in Ok (st1\<lparr>fmt_mask := (if minus then and (fmt_mask st1) (not (format_bit format))
                                    else or (fmt_mask st1) (format_bit format))\<rparr>))"

fun format_tokens :: "string list \<Rightarrow> format_state \<Rightarrow> format_state result" where
  "format_tokens [] st = Ok st"
| "format_tokens (t # ts) st = result_bind (format_token t st) (format_tokens ts)"

definition parse_bundle_formats :: "32 word \<Rightarrow> string \<Rightarrow> 32 word result" where
  "parse_bundle_formats imask config =
     result_bind (format_tokens (g_strsplit config (CHR '' ''))
       \<lparr>fmt_mask = imask, fmt_set = False, fmt_modify = False\<rparr>) (\<lambda>st.
     result_bind (fail_if (fmt_set st \<and> fmt_modify st) (R_CONFIG_ERROR R_CONFIG_ERROR_INVALID_FORMAT)) (\<lambda>_.
     result_bind (fail_if (fmt_mask st = 0) (R_CONFIG_ERROR R_CONFIG_ERROR_INVALID_FORMAT)) (\<lambda>_.
       Ok (fmt_mask st))))"

subsection \<open>Event loggers\<close>

definition supported_event_types :: "string list" where
  "supported_event_types = [''all'', ''boot'', ''mark'', ''install'', ''service'', ''writeslot'']"

definition r_event_log_is_supported_type :: "string \<Rightarrow> bool" where
  "r_event_log_is_supported_type type \<longleftrightarrow> type \<in> set supported_event_types"

text \<open>\<open>json\<close> is the build option \<open>ENABLE_JSON\<close>.\<close>

definition log_format_of :: "bool \<Rightarrow> string \<Rightarrow> event_log_format result" where
  "log_format_of json s =
     (if s = ''readable'' then Ok R_EVENT_LOGFMT_READABLE
      else if s = ''short'' then Ok R_EVENT_LOGFMT_READABLE_SHORT
      else if s = ''json'' \<and> json then Ok R_EVENT_LOGFMT_JSON
      else if s = ''json-pretty'' \<and> json then Ok R_EVENT_LOGFMT_JSON_PRETTY
      else Error (G_KEY_FILE_ERROR G_KEY_FILE_ERROR_INVALID_VALUE))"

text \<open>The events, \<open>all\<close> when there is no such key; only listed events are checked.\<close>

definition check_log_events :: "string list option \<Rightarrow> string list result" where
  "check_log_events listed =
     (let events = (case listed of None \<Rightarrow> [''all''] | Some es \<Rightarrow> es) in
      result_bind (fail_if (length events > 1 \<and> ''all'' \<in> set events)
        (G_KEY_FILE_ERROR G_KEY_FILE_ERROR_INVALID_VALUE)) (\<lambda>_.
      result_bind (fail_if (listed \<noteq> None \<and> \<not> list_all r_event_log_is_supported_type events)
        (G_KEY_FILE_ERROR G_KEY_FILE_ERROR_INVALID_VALUE)) (\<lambda>_. Ok events)))"

definition log_path :: "string option \<Rightarrow> string \<Rightarrow> string result" where
  "log_path data_directory filename =
     (if g_path_is_absolute filename then Ok filename
      else case data_directory of
        None \<Rightarrow> Error (G_KEY_FILE_ERROR G_KEY_FILE_ERROR_INVALID_VALUE)
      | Some d \<Rightarrow> Ok (g_build_filename d filename))"

definition parse_logger :: "bool \<Rightarrow> string option \<Rightarrow> string \<Rightarrow> event_logger kf_parser" where
  "parse_logger json data_directory g =
     io_bind (consume g ''filename'') (\<lambda>f.
     io_bind (io_lift (log_path data_directory f)) (\<lambda>filename.
     io_bind (consume_unless_missing g ''format'') (\<lambda>fmt.
     io_bind (io_lift (log_format_of json (case fmt of None \<Rightarrow> ''readable'' | Some s \<Rightarrow> s))) (\<lambda>format.
     io_bind (kf_query (\<lambda>kf. Ok (g_key_file_get_string_list kf g ''events''))) (\<lambda>listed.
     io_bind (io_lift (check_log_events listed)) (\<lambda>events.
     io_bind (remove_key g ''events'') (\<lambda>_.
     io_bind (or_default (consume_size g ''max-size'') 0) (\<lambda>maxsize.
     io_bind (or_default (key_file_consume_integer g ''max-files'') 10) (\<lambda>maxfiles.
     io_bind (io_lift (fail_if (sint maxfiles < 1) (G_KEY_FILE_ERROR G_KEY_FILE_ERROR_INVALID_VALUE))) (\<lambda>_.
     io_bind (io_lift (fail_if (sint maxfiles > 1000) (G_KEY_FILE_ERROR G_KEY_FILE_ERROR_INVALID_VALUE))) (\<lambda>_.
     io_bind (close_group g) (\<lambda>_.
       io_return \<lparr>log_name = drop 4 g, log_filename = filename, log_events = events, log_format = format,
         log_maxsize = maxsize, log_maxfiles = maxfiles\<rparr>))))))))))))"

fun parse_loggers :: "bool \<Rightarrow> string option \<Rightarrow> string list \<Rightarrow> event_logger list \<Rightarrow> event_logger list kf_parser" where
  "parse_loggers json data_directory [] loggers = io_return loggers"
| "parse_loggers json data_directory (g # gs) loggers =
     (if \<not> g_str_has_prefix g ''log.'' then parse_loggers json data_directory gs loggers
      else io_bind (parse_logger json data_directory g) (\<lambda>l.
        parse_loggers json data_directory gs (loggers @ [l])))"

definition r_event_log_parse_config_sections :: "bool \<Rightarrow> system_config \<Rightarrow> system_config kf_parser" where
  "r_event_log_parse_config_sections json c =
     (if cfg_loggers c \<noteq> [] then io_abort
      else io_bind (kf_query (\<lambda>kf. Ok (g_key_file_get_groups kf))) (\<lambda>groups.
        io_bind (parse_loggers json (cfg_data_directory c) groups []) (\<lambda>loggers.
          io_return (c\<lparr>cfg_loggers := loggers\<rparr>))))"

subsection \<open>The system section\<close>

abbreviation bootloader_error :: gerror where
  "bootloader_error \<equiv> R_CONFIG_ERROR R_CONFIG_ERROR_BOOTLOADER"

definition parse_min_bundle_version :: "string option kf_parser" where
  "parse_min_bundle_version =
     io_bind (consume_unless_missing ''system'' ''min-bundle-version'') (\<lambda>version.
     io_bind (case version of None \<Rightarrow> io_return ()
       | Some v \<Rightarrow> io_lift (fail_if (\<not> semver_le ''0'' v) (R_CONFIG_ERROR R_CONFIG_ERROR_INVALID_FORMAT))) (\<lambda>_.
       io_return version))"

text \<open>The boot loader and the settings of the selected one. The error of \<open>bootloader\<close> is dropped.\<close>

definition parse_bootloader :: "string \<Rightarrow> string option \<Rightarrow> system_config \<Rightarrow> system_config kf_parser" where
  "parse_bootloader cwd filename c =
     io_bind (consume_opt ''system'' ''bootloader'') (\<lambda>bootloader.
     let c = c\<lparr>cfg_system_bootloader := bootloader\<rparr> in
     if bootloader = Some ''barebox'' then
       io_bind (consume_opt ''system'' ''barebox-statename'') (\<lambda>statename.
       io_bind (consume_opt ''system'' ''barebox-dtbpath'') (\<lambda>dtbpath.
         io_return (c\<lparr>cfg_system_bb_statename := statename, cfg_system_bb_dtbpath := dtbpath\<rparr>)))
     else if bootloader = Some ''grub'' then
       io_bind (consume_opt ''system'' ''grubenv'') (\<lambda>path.
         io_return (c\<lparr>cfg_grubenv_path := Some (case path of None \<Rightarrow> ''/boot/grub/grubenv''
           | Some p \<Rightarrow> resolve_path cwd filename p)\<rparr>))
     else if bootloader = Some ''efi'' then
       io_bind (system_flag ''efi-use-bootnext'' True) (\<lambda>b. io_return (c\<lparr>cfg_efi_use_bootnext := b\<rparr>))
     else if bootloader = Some ''custom'' then
       io_bind (consume_opt ''handlers'' ''bootloader-custom-backend'') (\<lambda>backend. case backend of
           None \<Rightarrow> io_fail bootloader_error
         | Some p \<Rightarrow> io_return (c\<lparr>cfg_custom_bootloader_backend := resolve_path cwd filename p\<rparr>))
     else io_return c)"

definition parse_boot_attempts :: "system_config \<Rightarrow> system_config kf_parser" where
  "parse_boot_attempts c =
     io_bind (or_default (key_file_consume_integer ''system'' ''boot-attempts'') 0) (\<lambda>attempts.
     io_bind (io_lift (fail_if (sint attempts < 0) bootloader_error)) (\<lambda>_.
     io_bind (or_default (key_file_consume_integer ''system'' ''boot-attempts-primary'') 0) (\<lambda>primary.
     io_bind (io_lift (fail_if (sint primary < 0) bootloader_error)) (\<lambda>_.
     io_bind (io_lift (fail_if ((sint attempts > 0 \<or> sint primary > 0) \<and>
         cfg_system_bootloader c \<noteq> Some ''uboot'' \<and> cfg_system_bootloader c \<noteq> Some ''barebox'') bootloader_error)) (\<lambda>_.
       io_return (c\<lparr>cfg_boot_default_attempts := attempts, cfg_boot_attempts_primary := primary\<rparr>))))))"

text \<open>A size that must not be zero.\<close>

definition parse_bundle_size :: "string \<Rightarrow> 64 word \<Rightarrow> r_config_error \<Rightarrow> 64 word kf_parser" where
  "parse_bundle_size k d err =
     io_bind (or_default (kf_query (\<lambda>kf. g_key_file_get_uint64 kf ''system'' k)) d) (\<lambda>n.
     io_bind (io_lift (fail_if (n = 0) (R_CONFIG_ERROR err))) (\<lambda>_.
     io_bind (remove_key ''system'' k) (\<lambda>_. io_return n)))"

text \<open>One of the keys \<open>variant-file\<close> and \<open>variant-name\<close>; at most one variant key may be set.\<close>

definition parse_variant_key :: "string \<Rightarrow> sys_variant \<Rightarrow> system_config \<Rightarrow> system_config kf_parser" where
  "parse_variant_key k type c =
     io_bind (consume_unless_missing ''system'' k) (\<lambda>data. case data of
         None \<Rightarrow> io_return c
       | Some v \<Rightarrow>
           if cfg_system_variant_type c \<noteq> R_CONFIG_SYS_VARIANT_NONE
           then io_fail (R_CONFIG_ERROR R_CONFIG_ERROR_INVALID_FORMAT)
           else io_return (c\<lparr>cfg_system_variant := Some v, cfg_system_variant_type := type\<rparr>))"

definition parse_status_location :: "string \<Rightarrow> string option \<Rightarrow> system_config \<Rightarrow> system_config kf_parser" where
  "parse_status_location cwd filename c =
     io_bind (consume_unless_missing ''system'' ''data-directory'') (\<lambda>d.
     let data_directory = map_option (resolve_path cwd filename) d in
     io_bind (consume_unless_missing ''system'' ''statusfile'') (\<lambda>s.
     let path = (case s of Some p \<Rightarrow> p
       | None \<Rightarrow> (case data_directory of Some dir \<Rightarrow> g_build_filename dir ''central.raucs'' | None \<Rightarrow> ''per-slot''))
     in if path = ''per-slot'' \<and> data_directory \<noteq> None then io_fail (R_CONFIG_ERROR R_CONFIG_ERROR_DATA_DIRECTORY)
        else io_return (c\<lparr>cfg_data_directory := data_directory,
          cfg_statusfile_path := Some (if path = ''per-slot'' then path else resolve_path cwd filename path)\<rparr>)))"

definition all_formats :: "32 word" where
  "all_formats = or (or (format_bit R_MANIFEST_FORMAT_PLAIN) (format_bit R_MANIFEST_FORMAT_VERITY))
     (format_bit R_MANIFEST_FORMAT_CRYPT)"

definition parse_format_mask :: "32 word kf_parser" where
  "parse_format_mask =
     io_bind (consume_unless_missing ''system'' ''bundle-formats'') (\<lambda>formats.
       io_lift (case formats of None \<Rightarrow> Ok all_formats | Some s \<Rightarrow> parse_bundle_formats all_formats s))"

definition parse_system_section :: "string \<Rightarrow> string option \<Rightarrow> system_config \<Rightarrow> system_config kf_parser" where
  "parse_system_section cwd filename c =
     io_bind (consume_unless_missing ''system'' ''compatible'') (\<lambda>compatible.
     io_bind parse_min_bundle_version (\<lambda>version.
     io_bind (parse_bootloader cwd filename
         (c\<lparr>cfg_system_compatible := compatible, cfg_system_min_bundle_version := version\<rparr>)) (\<lambda>c.
     io_bind (parse_boot_attempts c) (\<lambda>c.
     io_bind (parse_bundle_size ''max-bundle-download-size'' DEFAULT_MAX_BUNDLE_DOWNLOAD_SIZE
         R_CONFIG_ERROR_MAX_BUNDLE_DOWNLOAD_SIZE) (\<lambda>download_size.
     io_bind (parse_bundle_size ''max-bundle-signature-size'' DEFAULT_MAX_BUNDLE_SIGNATURE_SIZE
         R_CONFIG_ERROR_MAX_BUNDLE_SIGNATURE_SIZE) (\<lambda>signature_size.
     io_bind (consume_opt ''system'' ''mountprefix'') (\<lambda>prefix.
     io_bind (system_flag ''activate-installed'' True) (\<lambda>activate.
     io_bind (system_flag ''variant-dtb'' False) (\<lambda>dtbvariant.
     io_bind (system_flag ''prevent-late-fallback'' False) (\<lambda>prevent.
     io_bind (parse_variant_key ''variant-file'' R_CONFIG_SYS_VARIANT_FILE
         (c\<lparr>cfg_prevent_late_fallback := prevent, cfg_activate_installed := activate,
           cfg_mount_prefix := (case prefix of None \<Rightarrow> ''/mnt/rauc/'' | Some p \<Rightarrow> p),
           cfg_system_variant_type := (if dtbvariant then R_CONFIG_SYS_VARIANT_DTB else R_CONFIG_SYS_VARIANT_NONE),
           cfg_max_bundle_download_size := download_size, cfg_max_bundle_signature_size := signature_size\<rparr>)) (\<lambda>c.
     io_bind (parse_variant_key ''variant-name'' R_CONFIG_SYS_VARIANT_NAME c) (\<lambda>c.
     io_bind (parse_status_location cwd filename c) (\<lambda>c.
     io_bind parse_format_mask (\<lambda>formats.
     io_bind (system_flag ''perform-pre-check'' False) (\<lambda>pre_check.
     io_bind (close_group ''system'') (\<lambda>_.
       io_return (c\<lparr>cfg_bundle_formats_mask := formats, cfg_perform_pre_check := pre_check\<rparr>)))))))))))))))))"

subsection \<open>The other sections\<close>

text \<open>A section that may be missing.\<close>

definition in_section :: "string \<Rightarrow> system_config \<Rightarrow> system_config kf_parser \<Rightarrow> system_config kf_parser" where
  "in_section g c m = io_bind (kf_query (\<lambda>kf. Ok (g_key_file_has_group kf g))) (\<lambda>b.
     if b then io_bind m (\<lambda>c. io_bind (close_group g) (\<lambda>_. io_return c)) else io_return c)"

definition consume_path :: "string \<Rightarrow> string option \<Rightarrow> string \<Rightarrow> string \<Rightarrow> string option kf_parser" where
  "consume_path cwd filename g k = io_bind (consume_opt g k) (\<lambda>p.
     io_return (map_option (resolve_path cwd filename) p))"

definition parse_keyring_section :: "string \<Rightarrow> string option \<Rightarrow> system_config \<Rightarrow> system_config kf_parser" where
  "parse_keyring_section cwd filename c = in_section ''keyring'' c (
     io_bind (consume_path cwd filename ''keyring'' ''path'') (\<lambda>path.
     io_bind (consume_path cwd filename ''keyring'' ''directory'') (\<lambda>directory.
     io_bind (section_flag ''keyring'' ''check-crl'') (\<lambda>crl.
     io_bind (section_flag ''keyring'' ''allow-partial-chain'') (\<lambda>partial.
     io_bind (section_flag ''keyring'' ''use-bundle-signing-time'') (\<lambda>signing_time.
     io_bind (or_absent (io_bind (consume ''keyring'' ''check-purpose'') (\<lambda>v. io_return (Some v))) None) (\<lambda>purpose.
     io_bind (consume_list ''keyring'' ''allowed-signer-cns'') (\<lambda>cns.
       io_return (c\<lparr>cfg_keyring_path := path, cfg_keyring_directory := directory, cfg_keyring_check_crl := crl,
         cfg_keyring_allow_partial_chain := partial, cfg_use_bundle_signing_time := signing_time,
         cfg_keyring_check_purpose := (if purpose = Some ''codesign'' then Some ''codesign-rauc'' else purpose),
         cfg_keyring_allowed_signer_cns := cns\<rparr>)))))))))"

definition parse_casync_section :: "system_config \<Rightarrow> system_config kf_parser" where
  "parse_casync_section c = in_section ''casync'' c (
     io_bind (consume_opt ''casync'' ''storepath'') (\<lambda>store.
     io_bind (consume_opt ''casync'' ''tmppath'') (\<lambda>tmp.
     io_bind (consume_opt ''casync'' ''install-args'') (\<lambda>args.
     io_bind (section_flag ''casync'' ''use-desync'') (\<lambda>desync.
       io_return (c\<lparr>cfg_store_path := store, cfg_tmp_path := tmp, cfg_casync_install_args := args,
         cfg_use_desync := desync\<rparr>))))))"

definition parse_streaming_section :: "system_config \<Rightarrow> system_config kf_parser" where
  "parse_streaming_section c = in_section ''streaming'' c (
     io_bind (consume_opt ''streaming'' ''sandbox-user'') (\<lambda>user.
     io_bind (consume_opt ''streaming'' ''tls-cert'') (\<lambda>cert.
     io_bind (consume_opt ''streaming'' ''tls-key'') (\<lambda>key.
     io_bind (consume_opt ''streaming'' ''tls-ca'') (\<lambda>ca.
     io_bind (kf_query (\<lambda>kf. Ok (g_key_file_get_string_list kf ''streaming'' ''send-headers''))) (\<lambda>headers.
     io_bind (io_lift (fail_if (case headers of None \<Rightarrow> False
         | Some hs \<Rightarrow> \<not> list_all r_install_is_supported_http_header hs) (G_KEY_FILE_ERROR G_KEY_FILE_ERROR_PARSE))) (\<lambda>_.
     io_bind (remove_key ''streaming'' ''send-headers'') (\<lambda>_.
       io_return (c\<lparr>cfg_streaming_sandbox_user := user, cfg_streaming_tls_cert := cert,
         cfg_streaming_tls_key := key, cfg_streaming_tls_ca := ca, cfg_enabled_headers := headers\<rparr>)))))))))"

definition parse_encryption_section :: "string \<Rightarrow> string option \<Rightarrow> system_config \<Rightarrow> system_config kf_parser" where
  "parse_encryption_section cwd filename c = in_section ''encryption'' c (
     io_bind (consume_path cwd filename ''encryption'' ''key'') (\<lambda>key.
     io_bind (consume_path cwd filename ''encryption'' ''cert'') (\<lambda>cert.
       io_return (c\<lparr>cfg_encryption_key := key, cfg_encryption_cert := cert\<rparr>))))"

definition parse_autoinstall_section :: "string \<Rightarrow> string option \<Rightarrow> system_config \<Rightarrow> system_config kf_parser" where
  "parse_autoinstall_section cwd filename c = in_section ''autoinstall'' c (
     io_bind (consume_path cwd filename ''autoinstall'' ''path'') (\<lambda>path.
       io_return (c\<lparr>cfg_autoinstall_path := path\<rparr>)))"

definition parse_handlers_section :: "string \<Rightarrow> string option \<Rightarrow> system_config \<Rightarrow> system_config kf_parser" where
  "parse_handlers_section cwd filename c = in_section ''handlers'' c (
     io_bind (consume_path cwd filename ''handlers'' ''system-info'') (\<lambda>info.
     io_bind (consume_path cwd filename ''handlers'' ''pre-install'') (\<lambda>pre.
     io_bind (consume_path cwd filename ''handlers'' ''post-install'') (\<lambda>post.
       io_return (c\<lparr>cfg_preinstall_handler := pre, cfg_postinstall_handler := post, cfg_systeminfo_handler := info\<rparr>)))))"

definition parse_artifact_repo :: "string \<Rightarrow> string option \<Rightarrow> string option \<Rightarrow> string \<Rightarrow> string \<Rightarrow> config_repo kf_parser" where
  "parse_artifact_repo cwd filename data_directory g nm =
     io_bind (consume_opt g ''description'') (\<lambda>description.
     io_bind (consume g ''path'') (\<lambda>path.
     io_bind (consume g ''type'') (\<lambda>type.
     io_bind (io_lift (fail_if (\<not> r_artifact_repo_is_valid_type type)
         (R_CONFIG_ERROR R_CONFIG_ERROR_ARTIFACT_REPO_TYPE))) (\<lambda>_.
     io_bind (consume_opt g ''parent-class'') (\<lambda>parent_class.
     io_bind (io_lift (fail_if (parent_class \<noteq> None) (R_CONFIG_ERROR R_CONFIG_ERROR_PARENT))) (\<lambda>_.
     io_bind (close_group g) (\<lambda>_.
       io_return \<lparr>repo_name = nm, repo_description = description, repo_path = resolve_path cwd filename path,
         repo_type = type, repo_parent_class = parent_class, repo_artifacts = Null, repo_possible_references = Null,
         repo_data_directory = map_option (\<lambda>d. g_build_filename d g) data_directory\<rparr>)))))))"

definition repo_insert :: "config_repo list \<Rightarrow> config_repo \<Rightarrow> config_repo list" where
  "repo_insert repos r = filter (\<lambda>q. repo_name q \<noteq> repo_name r) repos @ [r]"

fun parse_repo_groups :: "string \<Rightarrow> string option \<Rightarrow> string option \<Rightarrow> string list \<Rightarrow> config_repo list
    \<Rightarrow> config_repo list kf_parser" where
  "parse_repo_groups cwd filename data_directory [] repos = io_return repos"
| "parse_repo_groups cwd filename data_directory (g # gs) repos =
     (case g_strsplit g (CHR ''.'') of
        [] \<Rightarrow> io_abort
      | prefix # rest \<Rightarrow>
          if prefix \<noteq> ''artifacts'' then parse_repo_groups cwd filename data_directory gs repos
          else if length (prefix # rest) \<noteq> 2 then io_fail (R_CONFIG_ERROR R_CONFIG_ERROR_INVALID_FORMAT)
          else io_bind (parse_artifact_repo cwd filename data_directory g (hd rest)) (\<lambda>repo.
            parse_repo_groups cwd filename data_directory gs (repo_insert repos repo)))"

definition parse_artifact_repos :: "string \<Rightarrow> string option \<Rightarrow> string option \<Rightarrow> config_repo list kf_parser" where
  "parse_artifact_repos cwd filename data_directory =
     io_bind (kf_query (\<lambda>kf. Ok (g_key_file_get_groups kf))) (\<lambda>groups.
       parse_repo_groups cwd filename data_directory groups [])"

subsection \<open>The file\<close>

definition check_unique_slotclasses :: "system_config \<Rightarrow> unit result" where
  "check_unique_slotclasses c =
     fail_if (list_ex (\<lambda>s. slot_sclass s \<in> set (map repo_name (cfg_artifact_repos c))) (cfg_slots c))
       (R_CONFIG_ERROR R_CONFIG_ERROR_DUPLICATE_CLASS)"

definition check_config_target :: "system_config \<Rightarrow> unit result" where
  "check_config_target c =
     (if cfg_system_compatible c = None then Error (R_CONFIG_ERROR R_CONFIG_ERROR_MISSING_OPTION)
      else case cfg_system_bootloader c of
        None \<Rightarrow> Error bootloader_error
      | Some b \<Rightarrow> fail_if (\<not> r_boot_is_supported_bootloader b) bootloader_error)"

text \<open>The parameters: build option, text parser, checksum, shell words, working directory, overrides.\<close>

record config_env =
  env_json :: bool
  env_load :: "string \<Rightarrow> key_file result"
  env_sha256 :: "string \<Rightarrow> string"
  env_shell :: "string \<Rightarrow> string list result"
  env_cwd :: string
  env_overrides :: "(string \<times> string \<times> string) list"

definition process_overrides :: "(string \<times> string \<times> string) list \<Rightarrow> key_file \<Rightarrow> key_file" where
  "process_overrides overrides kf = fold (\<lambda>(g, k, v) kf. g_key_file_set_string kf g k v) overrides kf"

definition parse_sections :: "config_env \<Rightarrow> string option \<Rightarrow> system_config \<Rightarrow> system_config kf_parser" where
  "parse_sections env filename c =
     io_bind (parse_system_section (env_cwd env) filename c) (\<lambda>c.
     io_bind (parse_keyring_section (env_cwd env) filename c) (\<lambda>c.
     io_bind (parse_casync_section c) (\<lambda>c.
     io_bind (parse_streaming_section c) (\<lambda>c.
     io_bind (parse_encryption_section (env_cwd env) filename c) (\<lambda>c.
     io_bind (parse_autoinstall_section (env_cwd env) filename c) (\<lambda>c.
     io_bind (parse_handlers_section (env_cwd env) filename c) (\<lambda>c.
     io_bind (r_event_log_parse_config_sections (env_json env) c) (\<lambda>c.
     io_bind (parse_slots (rauc_config.truncate c) (env_shell env) (env_cwd env) filename) (\<lambda>slots.
     io_bind (parse_artifact_repos (env_cwd env) filename (cfg_data_directory c)) (\<lambda>repos.
     io_bind (kf_query check_remaining_groups) (\<lambda>_.
       io_return (c\<lparr>cfg_slots := slots, cfg_artifact_repos := repos\<rparr>))))))))))))"

definition parse_config :: "config_env \<Rightarrow> string option \<Rightarrow> string \<Rightarrow> system_config result" where
  "parse_config env filename data =
     (let c = config_new0\<lparr>cfg_file_checksum := env_sha256 env data\<rparr> in
      result_bind (env_load env data) (\<lambda>kf.
        fst (parse_sections env filename c (process_overrides (env_overrides env) kf))))"

definition default_config :: "config_env \<Rightarrow> system_config result" where
  "default_config env = parse_config env None ''[system]''"

definition load_config :: "'w os \<Rightarrow> config_env \<Rightarrow> string \<Rightarrow> 'w \<Rightarrow> system_config result" where
  "load_config os env filename w =
     result_bind (os_read_file os filename w) (\<lambda>data.
     result_bind (fail_if (data = []) (R_CONFIG_ERROR R_CONFIG_ERROR_EMPTY_FILE)) (\<lambda>_.
     result_bind (parse_config env (Some filename) data) (\<lambda>c.
     result_bind (check_unique_slotclasses c) (\<lambda>_.
     result_bind (check_config_target c) (\<lambda>_. Ok c)))))"

text \<open>The two warnings: the file cannot be read, or it was changed.\<close>

definition r_config_file_modified_check :: "'w os \<Rightarrow> config_env \<Rightarrow> system_config \<Rightarrow> string \<Rightarrow> 'w \<Rightarrow> bool" where
  "r_config_file_modified_check os env c configpath w = (case os_read_file os configpath w of
      Ok data \<Rightarrow> cfg_file_checksum c \<noteq> env_sha256 env data
    | _ \<Rightarrow> True)"

definition find_config_slot_by_device :: "system_config \<Rightarrow> string \<Rightarrow> rauc_slot option" where
  "find_config_slot_by_device c device = r_slot_find_by_device (cfg_slots c) device"

definition find_config_slot_by_name :: "system_config \<Rightarrow> string \<Rightarrow> rauc_slot option" where
  "find_config_slot_by_name c nm = slot_lookup (cfg_slots c) nm"

subsection \<open>What an accepted configuration guarantees\<close>

text \<open>A path after \<open>resolve_path\<close>: absolute, or a PKCS\#11 URI.\<close>

definition resolved :: "string \<Rightarrow> bool" where
  "resolved p \<longleftrightarrow> g_path_is_absolute p \<or> g_str_has_prefix p ''pkcs11:''"

lemma resolve_path_resolved: "g_path_is_absolute cwd \<Longrightarrow> resolved (resolve_path cwd f p)"
  by (simp add: resolved_def resolve_path_def Let_def build_filename_absolute split: option.split)

lemma per_slot_not_resolved: "\<not> resolved ''per-slot''"
  by code_simp

text \<open>What every result of a parser satisfies. The rules are tried in their order.\<close>

definition yields :: "('a \<Rightarrow> bool) \<Rightarrow> 'a kf_parser \<Rightarrow> bool" where
  "yields P m \<longleftrightarrow> (\<forall>kf x kf'. m kf = (Ok x, kf') \<longrightarrow> P x)"

lemma yieldsD: "yields P m \<Longrightarrow> m kf = (Ok x, kf') \<Longrightarrow> P x"
  unfolding yields_def by blast

lemma yields_then: "yields Q m \<Longrightarrow> (\<And>x. Q x \<Longrightarrow> yields P (f x)) \<Longrightarrow> yields P (io_bind m f)"
  unfolding yields_def io_bind_Ok_iff by blast

lemma yields_bind: "(\<And>x. yields P (f x)) \<Longrightarrow> yields P (io_bind m f)"
  unfolding yields_def io_bind_Ok_iff by blast

lemma yields_check: "(\<not> b \<Longrightarrow> yields P (f ())) \<Longrightarrow> yields P (io_bind (io_lift (fail_if b e)) f)"
  by (cases b) (auto simp: yields_def fail_if_def io_bind_def io_lift_def)

lemma yields_return: "P x \<Longrightarrow> yields P (io_return x)"
  by (auto simp: yields_def io_iff)

lemma yields_fail: "yields P (io_fail e)" "yields P io_abort"
  by (auto simp: yields_def io_iff)

lemma yields_lift: "(\<And>x. r = Ok x \<Longrightarrow> P x) \<Longrightarrow> yields P (io_lift r)"
  by (auto simp: yields_def io_iff)

lemma yields_if: "(b \<Longrightarrow> yields P m) \<Longrightarrow> (\<not> b \<Longrightarrow> yields P n) \<Longrightarrow> yields P (if b then m else n)"
  by simp

lemma yields_option: "(v = None \<Longrightarrow> yields P m) \<Longrightarrow> (\<And>x. v = Some x \<Longrightarrow> yields P (f x)) \<Longrightarrow>
    yields P (case v of None \<Rightarrow> m | Some x \<Rightarrow> f x)"
  by (simp split: option.split)

lemma yields_Let: "(\<And>x. x = v \<Longrightarrow> yields P (f x)) \<Longrightarrow> yields P (let x = v in f x)"
  by simp

lemmas yields_intros = yields_check yields_return yields_fail yields_if yields_option yields_Let yields_bind

definition bootloader_ok :: "system_config \<Rightarrow> bool" where
  "bootloader_ok c \<longleftrightarrow>
     (case cfg_system_min_bundle_version c of None \<Rightarrow> True | Some v \<Rightarrow> semver_le ''0'' v) \<and>
     (cfg_system_bootloader c = Some ''grub'' \<longrightarrow> (case cfg_grubenv_path c of None \<Rightarrow> False | Some p \<Rightarrow> resolved p)) \<and>
     (cfg_system_bootloader c = Some ''custom'' \<longrightarrow> resolved (cfg_custom_bootloader_backend c))"

lemma parse_min_bundle_version_yields:
  "yields (\<lambda>v. case v of None \<Rightarrow> True | Some v \<Rightarrow> semver_le ''0'' v) parse_min_bundle_version"
  unfolding parse_min_bundle_version_def
  by (auto simp: yields_def io_iff split: option.splits)

lemma parse_bootloader_yields:
  assumes "g_path_is_absolute cwd" and "case cfg_system_min_bundle_version c of None \<Rightarrow> True | Some v \<Rightarrow> semver_le ''0'' v"
  shows "yields (\<lambda>c'. bootloader_ok c' \<and> cfg_system_variant c' = cfg_system_variant c) (parse_bootloader cwd filename c)"
  unfolding parse_bootloader_def
proof (intro yields_intros, goal_cases)
  case (2 b path)
  have "resolved ''/boot/grub/grubenv''" by code_simp
  then show ?case using 2 assms resolve_path_resolved [OF assms(1)] by (simp add: bootloader_ok_def split: option.split)
next
  case (4 b path)
  then show ?case using assms resolve_path_resolved [OF assms(1)] by (simp add: bootloader_ok_def)
qed (use assms in \<open>simp_all add: bootloader_ok_def\<close>)

definition attempts_ok :: "system_config \<Rightarrow> bool" where
  "attempts_ok c \<longleftrightarrow> 0 \<le> sint (cfg_boot_default_attempts c) \<and> 0 \<le> sint (cfg_boot_attempts_primary c) \<and>
     (cfg_boot_default_attempts c = 0 \<and> cfg_boot_attempts_primary c = 0 \<or>
        cfg_system_bootloader c \<in> {Some ''uboot'', Some ''barebox''})"

lemma sint_zero: "0 \<le> sint a \<Longrightarrow> \<not> 0 < sint a \<Longrightarrow> a = (0 :: 32 word)"
  by (metis antisym_conv linorder_not_less signed_0 signed_word_eqI)

lemma parse_boot_attempts_yields:
  assumes "bootloader_ok c"
  shows "yields (\<lambda>c'. bootloader_ok c' \<and> attempts_ok c' \<and> cfg_system_variant c' = cfg_system_variant c) (parse_boot_attempts c)"
  unfolding parse_boot_attempts_def
  by (intro yields_intros) (use assms sint_zero in \<open>auto simp: bootloader_ok_def attempts_ok_def not_less\<close>)

lemma parse_bundle_size_yields: "yields (\<lambda>n. n \<noteq> 0) (parse_bundle_size k d err)"
  unfolding parse_bundle_size_def by (intro yields_bind yields_check yields_return)

definition variant_ok :: "system_config \<Rightarrow> bool" where
  "variant_ok c \<longleftrightarrow> (cfg_system_variant c \<noteq> None \<longleftrightarrow>
     cfg_system_variant_type c \<in> {R_CONFIG_SYS_VARIANT_FILE, R_CONFIG_SYS_VARIANT_NAME})"

text \<open>The settings that are final before the variant keys are read.\<close>

definition base_ok :: "system_config \<Rightarrow> bool" where
  "base_ok c \<longleftrightarrow> bootloader_ok c \<and> attempts_ok c \<and> cfg_max_bundle_download_size c \<noteq> 0 \<and> cfg_max_bundle_signature_size c \<noteq> 0 \<and>
     variant_ok c"

lemma parse_variant_key_yields:
  assumes "base_ok c" and "type \<in> {R_CONFIG_SYS_VARIANT_FILE, R_CONFIG_SYS_VARIANT_NAME}"
  shows "yields base_ok (parse_variant_key k type c)"
  unfolding parse_variant_key_def
  by (intro yields_intros) (use assms in \<open>simp_all add: base_ok_def bootloader_ok_def attempts_ok_def variant_ok_def\<close>)

definition status_ok :: "system_config \<Rightarrow> bool" where
  "status_ok c \<longleftrightarrow>
     (case cfg_statusfile_path c of None \<Rightarrow> False
      | Some p \<Rightarrow> if p = ''per-slot'' then cfg_data_directory c = None else resolved p) \<and>
     (case cfg_data_directory c of None \<Rightarrow> True | Some d \<Rightarrow> resolved d)"

lemma parse_status_location_yields:
  assumes "base_ok c" and abs: "g_path_is_absolute cwd"
  shows "yields (\<lambda>c'. base_ok c' \<and> status_ok c') (parse_status_location cwd filename c)"
  unfolding parse_status_location_def
proof (intro yields_intros, goal_cases)
  case (1 d dir s path)
  have "base_ok (c\<lparr>cfg_data_directory := dir, cfg_statusfile_path := q\<rparr>)" for q
    using assms(1) by (simp add: base_ok_def bootloader_ok_def attempts_ok_def variant_ok_def)
  moreover have "resolve_path cwd filename path \<noteq> ''per-slot''"
    using resolve_path_resolved [OF abs] per_slot_not_resolved by metis
  moreover have "case dir of None \<Rightarrow> True | Some d \<Rightarrow> resolved d"
    using 1(1) resolve_path_resolved [OF abs] by (simp split: option.split)
  ultimately show ?case
    using 1(3) resolve_path_resolved [OF abs] by (simp add: status_ok_def)
qed

subsubsection \<open>Bundle formats\<close>

lemma format_bit_all: "and (format_bit f) (not all_formats) = 0"
  by (cases f; simp add: all_formats_def; code_simp)

definition formats_only :: "32 word \<Rightarrow> bool" where
  "formats_only m \<longleftrightarrow> and m (not all_formats) = 0"

lemma formats_only_or: "formats_only m \<Longrightarrow> formats_only (or m (format_bit f))"
  using format_bit_all [of f] by (simp add: formats_only_def bit.conj_disj_distrib2)

lemma formats_only_and: "formats_only m \<Longrightarrow> formats_only (and m x)"
  by (simp add: formats_only_def) (metis and.assoc and.commute and_zero_eq)

lemma format_token_only: "format_token t st = Ok st' \<Longrightarrow> formats_only (fmt_mask st) \<Longrightarrow> formats_only (fmt_mask st')"
proof (cases t)
  case (Cons c cs)
  assume "format_token t st = Ok st'" and "formats_only (fmt_mask st)"
  moreover have "formats_only 0" "\<And>f. formats_only (format_bit f)" by (simp_all add: formats_only_def format_bit_all)
  ultimately show ?thesis using Cons formats_only_or formats_only_and
    by (auto simp: Let_def split: option.splits if_splits)
qed simp

lemma format_tokens_only: "format_tokens ts st = Ok st' \<Longrightarrow> formats_only (fmt_mask st) \<Longrightarrow> formats_only (fmt_mask st')"
  by (induction ts arbitrary: st) (auto simp: result_bind_Ok_iff dest: format_token_only)

lemma parse_bundle_formats_Ok:
  "parse_bundle_formats m s = Ok m' \<Longrightarrow> formats_only m \<Longrightarrow> m' \<noteq> 0 \<and> formats_only m'"
  by (auto simp: parse_bundle_formats_def result_bind_Ok_iff dest: format_tokens_only)

lemma parse_format_mask_yields: "yields (\<lambda>m. m \<noteq> 0 \<and> formats_only m) parse_format_mask"
proof -
  have "formats_only all_formats" "all_formats \<noteq> 0" by (simp add: formats_only_def, code_simp)
  then show ?thesis unfolding parse_format_mask_def
    by (intro yields_bind yields_lift) (auto split: option.splits dest: parse_bundle_formats_Ok)
qed

subsubsection \<open>The sections\<close>

definition system_ok :: "system_config \<Rightarrow> bool" where
  "system_ok c \<longleftrightarrow> base_ok c \<and> status_ok c \<and> cfg_bundle_formats_mask c \<noteq> 0 \<and> formats_only (cfg_bundle_formats_mask c)"

lemma parse_system_section_yields:
  assumes abs: "g_path_is_absolute cwd" and "cfg_system_variant c = None"
  shows "yields system_ok (parse_system_section cwd filename c)"
  unfolding parse_system_section_def
proof (rule yields_bind, rule yields_then [OF parse_min_bundle_version_yields],
    rule yields_then [OF parse_bootloader_yields [OF abs]], goal_cases)
  case (2 compatible version c1)
  then have c1: "bootloader_ok c1" "cfg_system_variant c1 = None" using assms(2) by simp_all
  show ?case
  proof (rule yields_then [OF parse_boot_attempts_yields [OF c1(1)]],
      rule yields_then [OF parse_bundle_size_yields], rule yields_then [OF parse_bundle_size_yields],
      rule yields_bind, rule yields_bind, rule yields_bind, rule yields_bind,
      rule yields_then [OF parse_variant_key_yields], goal_cases)
    case (1 c2 n m prefix activate dtb prevent)
    then show ?case using c1(2)
      by (simp add: base_ok_def bootloader_ok_def attempts_ok_def variant_ok_def split: if_splits)
  next
    case (3 c2 n m prefix activate dtb prevent c3)
    show ?case
      by (rule yields_then [OF parse_variant_key_yields [OF 3(4)]], simp,
          rule yields_then [OF parse_status_location_yields [OF _ abs]], assumption,
          rule yields_then [OF parse_format_mask_yields], intro yields_bind yields_return)
        (simp add: system_ok_def base_ok_def bootloader_ok_def attempts_ok_def variant_ok_def status_ok_def
          cong: option.case_cong if_cong)
  qed simp
qed simp

lemmas system_ok_defs = system_ok_def base_ok_def bootloader_ok_def attempts_ok_def variant_ok_def status_ok_def

text \<open>The other sections keep these settings, and none of them has loggers.\<close>

definition keeps_system :: "system_config \<Rightarrow> system_config \<Rightarrow> bool" where
  "keeps_system c c' \<longleftrightarrow> (system_ok c \<longrightarrow> system_ok c') \<and> cfg_loggers c' = cfg_loggers c \<and>
     cfg_data_directory c' = cfg_data_directory c \<and> cfg_system_compatible c' = cfg_system_compatible c \<and>
     cfg_system_bootloader c' = cfg_system_bootloader c"

lemma keeps_system_trans: "keeps_system a b \<Longrightarrow> keeps_system b c \<Longrightarrow> keeps_system a c"
  by (simp add: keeps_system_def)

lemma in_section_yields: "yields (keeps_system c) m \<Longrightarrow> yields (keeps_system c) (in_section g c m)"
  unfolding in_section_def
  by (rule yields_bind, rule yields_if, rule yields_then, assumption)
    (intro yields_bind yields_return, simp_all add: keeps_system_def yields_return)

lemmas section_defs = parse_keyring_section_def parse_casync_section_def parse_streaming_section_def
  parse_encryption_section_def parse_autoinstall_section_def parse_handlers_section_def

lemma sections_yield:
  "yields (keeps_system c) (parse_keyring_section cwd filename c)"
  "yields (keeps_system c) (parse_casync_section c)"
  "yields (keeps_system c) (parse_streaming_section c)"
  "yields (keeps_system c) (parse_encryption_section cwd filename c)"
  "yields (keeps_system c) (parse_autoinstall_section cwd filename c)"
  "yields (keeps_system c) (parse_handlers_section cwd filename c)"
  unfolding section_defs
  by (intro in_section_yields yields_bind yields_return; simp add: keeps_system_def system_ok_defs
      cong: option.case_cong if_cong)+

definition logger_ok :: "event_logger \<Rightarrow> bool" where
  "logger_ok l \<longleftrightarrow> 1 \<le> sint (log_maxfiles l) \<and> sint (log_maxfiles l) \<le> 1000 \<and>
     list_all r_event_log_is_supported_type (log_events l) \<and> (''all'' \<in> set (log_events l) \<longrightarrow> log_events l = [''all''])"

lemma check_log_events_Ok: "check_log_events es = Ok events \<Longrightarrow>
    list_all r_event_log_is_supported_type events \<and> (''all'' \<in> set events \<longrightarrow> events = [''all''])"
proof (cases es)
  case None
  moreover assume "check_log_events es = Ok events"
  ultimately have "events = [''all'']" by (auto simp: check_log_events_def result_bind_Ok_iff)
  then show ?thesis by (simp add: r_event_log_is_supported_type_def supported_event_types_def)
next
  case (Some l)
  moreover assume "check_log_events es = Ok events"
  ultimately have "list_all r_event_log_is_supported_type events" "\<not> (length events > 1 \<and> ''all'' \<in> set events)"
    by (auto simp: check_log_events_def result_bind_Ok_iff)
  then show ?thesis by (cases events; cases "tl events") auto
qed

lemma parse_logger_yields: "yields logger_ok (parse_logger json d g)"
  unfolding parse_logger_def
proof (rule yields_bind, rule yields_bind, rule yields_bind, rule yields_bind, rule yields_bind,
    rule yields_then [where Q = "\<lambda>es. list_all r_event_log_is_supported_type es \<and> (''all'' \<in> set es \<longrightarrow> es = [''all''])"],
    goal_cases)
  case (1 f path fmt format listed)
  show ?case by (rule yields_lift) (rule check_log_events_Ok)
next
  case (2 f path fmt format listed events)
  then show ?case
    by - (rule yields_bind, rule yields_bind, rule yields_bind, rule yields_check, rule yields_check,
        rule yields_bind, rule yields_return, simp add: logger_ok_def)
qed

lemma parse_loggers_yields: "list_all logger_ok ls \<Longrightarrow> yields (list_all logger_ok) (parse_loggers json d gs ls)"
proof (induction gs arbitrary: ls)
  case (Cons g gs)
  show ?case
    by (simp only: parse_loggers.simps)
      (intro yields_if Cons.IH [OF Cons.prems] yields_then [OF parse_logger_yields]; rule Cons.IH; simp add: Cons.prems)
qed (simp add: yields_return)

definition repos_ok :: "config_repo list \<Rightarrow> bool" where
  "repos_ok repos \<longleftrightarrow> distinct (map repo_name repos) \<and>
     list_all (\<lambda>r. r_artifact_repo_is_valid_type (repo_type r) \<and> repo_parent_class r = None) repos"

lemma parse_artifact_repo_yields:
  "yields (\<lambda>r. r_artifact_repo_is_valid_type (repo_type r) \<and> repo_parent_class r = None)
     (parse_artifact_repo cwd filename d g nm)"
  unfolding parse_artifact_repo_def by (intro yields_check yields_return yields_bind) simp_all

lemma repos_ok_insert:
  assumes "repos_ok repos" and "r_artifact_repo_is_valid_type (repo_type r) \<and> repo_parent_class r = None"
  shows "repos_ok (repo_insert repos r)"
proof -
  have "distinct (map repo_name (filter P repos))" for P
    using assms(1) by (simp add: repos_ok_def distinct_map_filter)
  then show ?thesis using assms by (auto simp: repos_ok_def repo_insert_def list_all_iff)
qed

lemma parse_repo_groups_yields: "repos_ok repos \<Longrightarrow> yields repos_ok (parse_repo_groups cwd filename d gs repos)"
proof (induction gs arbitrary: repos)
  case (Cons g gs)
  then show ?case
    by (simp split: list.split)
      (intro allI impI conjI yields_fail yields_then [OF parse_artifact_repo_yields]; blast intro: repos_ok_insert)
qed (simp add: yields_return)

subsubsection \<open>The whole file\<close>

text \<open>
  What the rest of RAUC relies on: the settings of the sections above, a well formed slot table,
  bounded loggers, and uniquely named artifact repositories.
\<close>

definition parsed_ok :: "system_config \<Rightarrow> bool" where
  "parsed_ok c \<longleftrightarrow> system_ok c \<and> list_all logger_ok (cfg_loggers c) \<and> slots_wf (cfg_slots c) \<and>
     repos_ok (cfg_artifact_repos c)"

definition config_wf :: "system_config \<Rightarrow> bool" where
  "config_wf c \<longleftrightarrow> parsed_ok c \<and> cfg_system_compatible c \<noteq> None \<and>
     (case cfg_system_bootloader c of None \<Rightarrow> False | Some b \<Rightarrow> r_boot_is_supported_bootloader b) \<and>
     list_all (\<lambda>s. slot_sclass s \<notin> set (map repo_name (cfg_artifact_repos c))) (cfg_slots c)"

lemma parse_slots_yields: "yields slots_wf (parse_slots cfg shell cwd filename)"
  by (auto simp: yields_def dest: parse_slots_wf_lemma)

lemma parse_artifact_repos_yields: "yields repos_ok (parse_artifact_repos cwd filename d)"
  unfolding parse_artifact_repos_def by (rule yields_bind, rule parse_repo_groups_yields) (simp add: repos_ok_def)

lemma parse_event_log_yields:
  assumes "system_ok c"
  shows "yields (\<lambda>c'. system_ok c' \<and> list_all logger_ok (cfg_loggers c')) (r_event_log_parse_config_sections json c)"
  unfolding r_event_log_parse_config_sections_def
  by (rule yields_if, rule yields_fail, rule yields_bind, rule yields_then [OF parse_loggers_yields], simp, rule yields_return)
    (use assms in \<open>simp add: system_ok_defs cong: option.case_cong if_cong\<close>)

lemma parse_sections_yields:
  assumes "g_path_is_absolute (env_cwd env)" and "cfg_system_variant c = None"
  shows "yields parsed_ok (parse_sections env filename c)"
  unfolding parse_sections_def
proof (rule yields_then [OF parse_system_section_yields [OF assms]], (rule yields_then [OF sections_yield(1)],
      rule yields_then [OF sections_yield(2)], rule yields_then [OF sections_yield(3)], rule yields_then [OF sections_yield(4)],
      rule yields_then [OF sections_yield(5)], rule yields_then [OF sections_yield(6)]),
    rule yields_then [OF parse_event_log_yields], goal_cases)
  case (1 c1 c2 c3 c4 c5 c6 c7)
  then show ?case by (simp add: keeps_system_def)
next
  case (2 c1 c2 c3 c4 c5 c6 c7 c8)
  show ?case
    by (rule yields_then [OF parse_slots_yields], rule yields_then [OF parse_artifact_repos_yields],
        rule yields_bind, rule yields_return)
      (use 2(8) in \<open>simp add: parsed_ok_def system_ok_defs cong: option.case_cong if_cong\<close>)
qed

lemma parse_config_ok:
  assumes "parse_config env filename data = Ok c" and "g_path_is_absolute (env_cwd env)"
  shows "parsed_ok c"
proof -
  let ?c = "config_new0\<lparr>cfg_file_checksum := env_sha256 env data\<rparr>"
  obtain kf where "fst (parse_sections env filename ?c (process_overrides (env_overrides env) kf)) = Ok c"
    using assms(1) by (auto simp: parse_config_def Let_def result_bind_Ok_iff)
  then obtain kf' where run: "parse_sections env filename ?c (process_overrides (env_overrides env) kf) = (Ok c, kf')"
    by (metis prod.collapse)
  have "cfg_system_variant ?c = None" by (simp add: config_new0_def)
  from yieldsD [OF parse_sections_yields [OF assms(2) this] run] show ?thesis .
qed

text \<open>
  C12. A configuration that \<open>load_config\<close> accepts satisfies everything the rest of RAUC relies on: a
  compatible string and a supported boot loader with its mandatory settings, boot attempts that are not
  negative and only for boot loaders that count them, positive size limits, a non-empty set of known
  bundle formats, at most one kind of variant, a status file that agrees with the data directory, bounded
  loggers of known events, a well formed slot table, and artifact repositories with unique names that
  are no slot classes.
\<close>

theorem load_config_wf:
  assumes "load_config os env filename w = Ok c" and "g_path_is_absolute (env_cwd env)"
  shows "config_wf c"
proof -
  obtain data where "parse_config env (Some filename) data = Ok c"
      "\<not> list_ex (\<lambda>s. slot_sclass s \<in> set (map repo_name (cfg_artifact_repos c))) (cfg_slots c)"
      "check_config_target c = Ok ()"
    using assms(1) unfolding load_config_def check_unique_slotclasses_def by (auto simp: result_bind_Ok_iff)
  then show ?thesis using parse_config_ok [OF _ assms(2)]
    by (auto simp: config_wf_def check_config_target_def list_all_iff list_ex_iff split: if_splits option.splits)
qed

subsection \<open>Nothing is ignored\<close>

lemma or_default_Ok: "or_default m d kf = (Ok x, kf') \<longleftrightarrow> m kf = (Ok x, kf') \<or>
    x = d \<and> m kf = (Error (G_KEY_FILE_ERROR G_KEY_FILE_ERROR_KEY_NOT_FOUND), kf')"
  by (auto simp: or_default_def io_iff split: if_splits)

text \<open>A failure for a missing key leaves the key file as it was.\<close>

definition stays_on_missing :: "'a kf_parser \<Rightarrow> bool" where
  "stays_on_missing m \<longleftrightarrow>
     (\<forall>kf kf'. m kf = (Error (G_KEY_FILE_ERROR G_KEY_FILE_ERROR_KEY_NOT_FOUND), kf') \<longrightarrow> kf' = kf) \<and>
     (\<forall>kf kf'. m kf = (Error (G_KEY_FILE_ERROR G_KEY_FILE_ERROR_GROUP_NOT_FOUND), kf') \<longrightarrow> kf' = kf)"

lemma stays_query: "stays_on_missing (kf_query f)"
  by (auto simp: stays_on_missing_def kf_query_def)

lemma stays_consume: "stays_on_missing (consume g k)"
  by (auto simp: stays_on_missing_def consume_def key_file_consume_string_def split: result.splits if_splits)

lemma stays_size: "stays_on_missing (consume_size g k)"
  by (auto simp: stays_on_missing_def consume_size_def key_file_consume_binary_suffixed_string_def Let_def
      key_file_consume_string_def split: result.splits if_splits prod.splits)

lemma stays_bind: "stays_on_missing m \<Longrightarrow> (\<And>x kf e kf'. f x kf \<noteq> (Error e, kf')) \<Longrightarrow> stays_on_missing (io_bind m f)"
  by (auto simp: stays_on_missing_def io_bind_def split: prod.splits result.splits)

lemma stays_integer: "stays_on_missing (key_file_consume_integer g k)"
  unfolding key_file_consume_integer_def
  by (rule stays_bind [OF stays_query]) (simp add: io_bind_def remove_key_def io_return_def)

lemma consumes_or_absent:
  assumes "consumes S m" and "stays_on_missing m"
  shows "consumes S (or_absent m d)" "consumes S (or_default m d)"
  using assms unfolding consumes_def stays_on_missing_def
  by (fastforce simp: or_absent_def io_iff split: if_splits, fastforce simp: or_default_Ok)

lemma consumes_size [consumes_intros]: "(g, k) \<in> S \<Longrightarrow> consumes S (consume_size g k)"
  by (auto simp: consumes_def consume_size_def key_file_consume_binary_suffixed_string_def
      key_file_consume_string_def kf_simps Let_def split: result.splits if_splits prod.splits)

lemma consumes_integer [consumes_intros]: "(g, k) \<in> S \<Longrightarrow> consumes S (key_file_consume_integer g k)"
  unfolding key_file_consume_integer_def by (intro consumes_intros)

lemma consumes_or_default [consumes_intros]:
  "consumes S (or_default (kf_query f) d)"
  "(g, k) \<in> S \<Longrightarrow> consumes S (or_default (consume_size g k) w)"
  "(g, k) \<in> S \<Longrightarrow> consumes S (or_default (key_file_consume_integer g k) n)"
  "(g, k) \<in> S \<Longrightarrow> consumes S (or_absent (io_bind (consume g k) (\<lambda>v. io_return (h v))) a)"
  "consumes S (or_absent (kf_query f) d)"
  by (intro consumes_or_absent consumes_intros stays_query stays_size stays_integer stays_bind [OF stays_consume];
      simp add: io_return_def)+

lemma consumes_system_flag [consumes_intros]: "(''system'', k) \<in> S \<Longrightarrow> consumes S (system_flag k d)"
  unfolding system_flag_def by (intro consumes_intros)

lemma consumes_section_flag [consumes_intros]: "(g, k) \<in> S \<Longrightarrow> consumes S (section_flag g k)"
  unfolding section_flag_def by (intro consumes_intros)

lemma consumes_path [consumes_intros]: "(g, k) \<in> S \<Longrightarrow> consumes S (consume_path cwd f g k)"
  unfolding consume_path_def by (intro consumes_intros)

lemma consumes_in_section [consumes_intros]: "consumes S m \<Longrightarrow> consumes S (in_section g c m)"
  unfolding in_section_def by (intro consumes_intros)

lemma consumes_get_flag [consumes_intros]: "consumes S m \<Longrightarrow> consumes S (get_flag g k m)"
  by (auto simp: consumes_def get_flag_def split: result.splits if_splits)

lemma consumes_flag [consumes_intros]: "(g, k) \<in> S \<Longrightarrow> consumes S (consume_flag g k)"
  unfolding consume_flag_def by (intro consumes_intros)

lemma consumes_abort [consumes_intros]: "consumes S io_abort"
  by (auto simp: consumes_def io_iff)

text \<open>The keys of the configuration file.\<close>

definition section_keys :: "string \<Rightarrow> string list" where
  "section_keys g =
     (if g = ''system'' then [''compatible'', ''min-bundle-version'', ''bootloader'', ''barebox-statename'',
        ''barebox-dtbpath'', ''grubenv'', ''efi-use-bootnext'', ''boot-attempts'', ''boot-attempts-primary'',
        ''max-bundle-download-size'', ''max-bundle-signature-size'', ''mountprefix'', ''activate-installed'',
        ''variant-dtb'', ''prevent-late-fallback'', ''variant-file'', ''variant-name'', ''data-directory'',
        ''statusfile'', ''bundle-formats'', ''perform-pre-check'']
      else if g = ''keyring'' then [''path'', ''directory'', ''check-crl'', ''allow-partial-chain'',
        ''use-bundle-signing-time'', ''check-purpose'', ''allowed-signer-cns'']
      else if g = ''casync'' then [''storepath'', ''tmppath'', ''install-args'', ''use-desync'']
      else if g = ''streaming'' then [''sandbox-user'', ''tls-cert'', ''tls-key'', ''tls-ca'', ''send-headers'']
      else if g = ''encryption'' then [''key'', ''cert'']
      else if g = ''autoinstall'' then [''path'']
      else if g = ''handlers'' then [''bootloader-custom-backend'', ''system-info'', ''pre-install'', ''post-install'']
      else [])"

definition log_keys :: "string list" where
  "log_keys = [''filename'', ''format'', ''events'', ''max-size'', ''max-files'']"

definition slot_keys :: "string list" where
  "slot_keys = [''description'', ''device'', ''type'', ''extra-mkfs-opts'', ''bootname'', ''parent'', ''allow-mounted'',
     ''readonly'', ''install-same'', ''force-install-same'', ''ignore-checksum'', ''extra-mount-opts'', ''resize'',
     ''region-start'', ''region-size'', ''size-limit'', ''efi-loader'', ''efi-cmdline'']"

definition repo_keys :: "string list" where
  "repo_keys = [''description'', ''path'', ''type'', ''parent-class'']"

definition config_key :: "string \<Rightarrow> string \<Rightarrow> bool" where
  "config_key g k \<longleftrightarrow> k \<in> set (section_keys g) \<or>
     g_str_has_prefix g ''log.'' \<and> k \<in> set log_keys \<or>
     (case g_strsplit g (CHR ''.'') of
        [p, class, index] \<Rightarrow> p = ''slot'' \<and> k \<in> set slot_keys
      | [p, nm] \<Rightarrow> p = ''artifacts'' \<and> k \<in> set repo_keys
      | _ \<Rightarrow> False)"

abbreviation config_keys :: "(string \<times> string) set" where
  "config_keys \<equiv> {(g, k). config_key g k}"

lemma section_keys_known: "k \<in> set (section_keys g) \<Longrightarrow> (g, k) \<in> config_keys"
  by (simp add: config_key_def)

lemma consumes_system: "consumes config_keys (parse_system_section cwd filename c)"
  unfolding parse_system_section_def parse_min_bundle_version_def parse_bootloader_def parse_boot_attempts_def
    parse_bundle_size_def parse_variant_key_def parse_status_location_def parse_format_mask_def
  by (intro consumes_intros section_keys_known; simp add: section_keys_def)

lemma consumes_sections:
  "consumes config_keys (parse_keyring_section cwd filename c)"
  "consumes config_keys (parse_casync_section c)"
  "consumes config_keys (parse_streaming_section c)"
  "consumes config_keys (parse_encryption_section cwd filename c)"
  "consumes config_keys (parse_autoinstall_section cwd filename c)"
  "consumes config_keys (parse_handlers_section cwd filename c)"
  unfolding section_defs by (intro consumes_intros section_keys_known; simp add: section_keys_def)+

lemma consumes_logger: "g_str_has_prefix g ''log.'' \<Longrightarrow> consumes config_keys (parse_logger json d g)"
  unfolding parse_logger_def by (intro consumes_intros; simp add: config_key_def log_keys_def)

lemma consumes_loggers: "consumes config_keys (parse_loggers json d gs ls)"
proof (induction gs arbitrary: ls)
  case (Cons g gs)
  show ?case by (simp only: parse_loggers.simps) (intro consumes_intros Cons.IH consumes_logger; simp)
qed (simp add: consumes_return)

lemma consumes_checked_group [consumes_intros]:
  "(\<And>u. consumes S (f u)) \<Longrightarrow>
     consumes S (io_bind (kf_query (\<lambda>kf. check_remaining_keys kf g)) (\<lambda>_. io_bind (remove_group g) f))"
  unfolding consumes_def by (auto simp: io_iff check_remaining_keys_Ok kf_simps kf_get_no_keys)

lemma slot_keys_known: "k \<in> set slot_keys \<Longrightarrow> g_strsplit g (CHR ''.'') = [''slot'', a, b] \<Longrightarrow> (g, k) \<in> config_keys"
  by (simp add: config_key_def)

lemma consumes_slot:
  assumes "g_strsplit g (CHR ''.'') = [''slot'', a, b]"
  shows "consumes config_keys (parse_slot cfg shell cwd filename seen g split)"
  unfolding parse_slot_def parse_bootname_def parse_install_same_def parse_region_def parse_size_limit_def
    or_default_def [symmetric]
  by (intro consumes_Let consumes_checked_group consumes_intros slot_keys_known [OF _ assms]; simp add: slot_keys_def)

lemma consumes_slot_groups: "consumes config_keys (parse_slot_groups cfg shell cwd filename gs seen slots)"
proof (induction gs arbitrary: seen slots)
  case (Cons g gs)
  show ?case
  proof (cases "\<exists>a b. g_strsplit g (CHR ''.'') = [''slot'', a, b]")
    case True
    then obtain a b where sp: "g_strsplit g (CHR ''.'') = [''slot'', a, b]" by blast
    then show ?thesis by (simp add: consumes_bind [OF consumes_slot [OF sp] Cons.IH])
  next
    case False
    then have "length (p # r) \<noteq> 3" if "g_strsplit g (CHR ''.'') = p # r" "p = ''slot''" for p r
      using that by (auto simp: numeral_3_eq_3 length_Suc_conv)
    then show ?thesis
      by (simp only: parse_slot_groups.simps split: list.split) (simp add: consumes_fail consumes_abort Cons.IH)
  qed
qed (simp add: consumes_return)

lemma consumes_slots: "consumes config_keys (parse_slots cfg shell cwd filename)"
  unfolding parse_slots_def by (intro consumes_intros consumes_slot_groups)

lemma consumes_repo:
  assumes "g_strsplit g (CHR ''.'') = [''artifacts'', nm]"
  shows "consumes config_keys (parse_artifact_repo cwd filename d g n)"
  unfolding parse_artifact_repo_def
  by (intro consumes_intros; simp add: config_key_def assms repo_keys_def)

lemma consumes_repo_groups: "consumes config_keys (parse_repo_groups cwd filename d gs repos)"
proof (induction gs arbitrary: repos)
  case (Cons g gs)
  show ?case
  proof (cases "\<exists>a. g_strsplit g (CHR ''.'') = [''artifacts'', a]")
    case True
    then obtain a where sp: "g_strsplit g (CHR ''.'') = [''artifacts'', a]" by blast
    then show ?thesis by (simp add: consumes_bind [OF consumes_repo [OF sp] Cons.IH])
  next
    case False
    then have "length (p # r) \<noteq> 2" if "g_strsplit g (CHR ''.'') = p # r" "p = ''artifacts''" for p r
      using that by (auto simp: numeral_2_eq_2 length_Suc_conv)
    then show ?thesis
      by (simp only: parse_repo_groups.simps split: list.split) (simp add: consumes_fail consumes_abort Cons.IH)
  qed
qed (simp add: consumes_return)

lemma consumes_parse_sections: "consumes config_keys (parse_sections env filename c)"
  unfolding parse_sections_def r_event_log_parse_config_sections_def parse_artifact_repos_def
  by (intro consumes_bind consumes_query consumes_return consumes_if consumes_abort consumes_system consumes_sections
      consumes_loggers consumes_slots consumes_repo_groups)

lemma parse_sections_empty: "parse_sections env filename c kf = (Ok c', kf') \<Longrightarrow> kf' = []"
  by (auto simp: parse_sections_def io_bind_Ok_iff io_return_iff kf_query_iff check_remaining_groups_Ok)

text \<open>
  C13. A configuration is accepted only if every setting of the file, and every override from the
  command line, is one that RAUC knows; nothing is silently ignored.
\<close>

theorem load_config_strict:
  assumes "load_config os env filename w = Ok c" and "os_read_file os filename w = Ok data"
    and "env_load env data = Ok kf" and "kf_get (process_overrides (env_overrides env) kf) g k = Some v"
  shows "config_key g k"
proof -
  let ?kf = "process_overrides (env_overrides env) kf"
  obtain c0 where "fst (parse_sections env (Some filename) c0 ?kf) = Ok c"
    using assms(1-3) by (auto simp: load_config_def parse_config_def Let_def result_bind_Ok_iff)
  then obtain kf' where run: "parse_sections env (Some filename) c0 ?kf = (Ok c, kf')" by (metis prod.collapse)
  then have "kf_get kf' g k = None" using parse_sections_empty [OF run] by (simp add: kf_simps)
  then show ?thesis using consumesD [OF consumes_parse_sections run, of g k] assms(4) by auto
qed

subsection \<open>Examples\<close>

definition config_demo_file :: key_file where
  "config_demo_file =
     [(''system'', [(''compatible'', ''demo''), (''bootloader'', ''grub''), (''data-directory'', ''data''),
        (''bundle-formats'', ''-plain''), (''variant-name'', ''v1'')]),
      (''keyring'', [(''path'', ''ca.pem''), (''check-purpose'', ''codesign'')]),
      (''log.main'', [(''filename'', ''main.log''), (''events'', ''install;boot''), (''max-files'', ''5'')]),
      (''slot.rootfs.0'', [(''device'', ''/dev/sda1''), (''type'', ''ext4''), (''bootname'', ''A'')]),
      (''slot.rootfs.1'', [(''device'', ''/dev/sda2''), (''type'', ''ext4''), (''bootname'', ''B'')]),
      (''artifacts.apps'', [(''path'', ''/srv/apps''), (''type'', ''files'')])]"

definition config_demo_env :: config_env where
  "config_demo_env = \<lparr>env_json = True, env_load = (\<lambda>data. Ok config_demo_file), env_sha256 = (\<lambda>data. data),
     env_shell = (\<lambda>s. Ok [s]), env_cwd = ''/'', env_overrides = [(''system'', ''mountprefix'', ''/run/rauc'')]\<rparr>"

definition config_demo_os :: "unit os" where
  "config_demo_os = (os_programs (\<lambda>args w. (Exited 0 [], w)))\<lparr>os_read_file := (\<lambda>f w. Ok ''text'')\<rparr>"

definition config_demo :: system_config where
  "config_demo = (case load_config config_demo_os config_demo_env ''/etc/rauc/system.conf'' () of Ok c \<Rightarrow> c | _ \<Rightarrow> config_new0)"

lemma config_demo_Ok: "load_config config_demo_os config_demo_env ''/etc/rauc/system.conf'' () = Ok config_demo"
proof -
  have "is_ok (load_config config_demo_os config_demo_env ''/etc/rauc/system.conf'' ())" by code_simp
  then show ?thesis by (auto simp: config_demo_def is_ok_iff)
qed

theorem load_config_wf_witness:
  "config_wf config_demo \<and> cfg_statusfile_path config_demo = Some ''/etc/rauc/data/central.raucs'' \<and>
   cfg_bundle_formats_mask config_demo = 6 \<and> map log_filename (cfg_loggers config_demo) = [''/etc/rauc/data/main.log'']"
proof -
  have vals: "cfg_statusfile_path config_demo = Some ''/etc/rauc/data/central.raucs'' \<and>
     cfg_bundle_formats_mask config_demo = 6 \<and> map log_filename (cfg_loggers config_demo) = [''/etc/rauc/data/main.log'']"
    by code_simp
  have "g_path_is_absolute (env_cwd config_demo_env)" by code_simp
  from load_config_wf [OF config_demo_Ok this] vals show ?thesis by blast
qed

theorem load_config_strict_witness: "config_key ''system'' ''mountprefix''"
proof -
  have "kf_get (process_overrides (env_overrides config_demo_env) config_demo_file) ''system'' ''mountprefix'' = Some ''/run/rauc''"
    by code_simp
  moreover have "os_read_file config_demo_os ''/etc/rauc/system.conf'' () = Ok ''text''"
    "env_load config_demo_env ''text'' = Ok config_demo_file"
    by (simp_all add: config_demo_os_def config_demo_env_def)
  ultimately show ?thesis using load_config_strict [OF config_demo_Ok] by blast
qed

text \<open>The built-in configuration satisfies the same conditions, but it is not one for a target.\<close>

lemma default_config_ok: "default_config env = Ok c \<Longrightarrow> g_path_is_absolute (env_cwd env) \<Longrightarrow> parsed_ok c"
  by (simp add: default_config_def parse_config_ok)

lemma default_config_example:
  "map_result (\<lambda>c. check_config_target c) (default_config (config_demo_env\<lparr>env_load := \<lambda>data. Ok [(''system'', [])]\<rparr>)) =
     Ok (Error (R_CONFIG_ERROR R_CONFIG_ERROR_MISSING_OPTION))"
  by code_simp

end
