(* ===== verification/Bundle_File.thy ===== *)
theory Bundle_File
  imports Verity Config_File
begin

text \<open>
  The bundle file (\<open>src/src/bundle.c\<close>): the payload, followed by the signature and its size as 64 bit
  big endian number. This theory has the functions that write and read this layout, the hash tree and
  the signature at creation. A file is a \<open>vfile\<close>; a failing function drops it, as the program removes
  the unfinished file. The functions of \<open>signature.c\<close> are the parameters \<open>cms\<close>.
\<close>

type_synonym bytes = "8 word list"

abbreviation G_IO_ERROR_FAILED :: gerror where
  "G_IO_ERROR_FAILED \<equiv> G_IO_ERROR 0"

abbreviation G_IO_ERROR_INVALID_ARGUMENT :: gerror where
  "G_IO_ERROR_INVALID_ARGUMENT \<equiv> G_IO_ERROR 13"

subsection \<open>Big endian numbers\<close>

fun be_bytes :: "nat \<Rightarrow> nat \<Rightarrow> bytes" where
  "be_bytes 0 n = []"
| "be_bytes (Suc k) n = be_bytes k (n div 256) @ [of_nat n]"

definition be_nat :: "bytes \<Rightarrow> nat" where
  "be_nat bs = foldl (\<lambda>n b. 256 * n + unat b) 0 bs"

definition GUINT64_TO_BE :: "64 word \<Rightarrow> bytes" where
  "GUINT64_TO_BE w = be_bytes 8 (unat w)"

definition GUINT64_FROM_BE :: "bytes \<Rightarrow> 64 word" where
  "GUINT64_FROM_BE bs = of_nat (be_nat bs)"

lemma be_nat_snoc: "be_nat (bs @ [b]) = 256 * be_nat bs + unat b"
  by (simp add: be_nat_def)

lemma be_nat_bytes: "be_nat (be_bytes k n) = n mod 256 ^ k"
proof (induction k arbitrary: n)
  case (Suc k)
  have "be_nat (be_bytes (Suc k) n) = 256 * (n div 256 mod 256 ^ k) + n mod 256"
    by (simp only: be_bytes.simps be_nat_snoc Suc.IH) (simp add: unat_of_nat)
  then show ?case by (simp add: mod_mult2_eq add.commute)
qed (simp add: be_nat_def)

lemma length_be_bytes [simp]: "length (be_bytes k n) = k"
  by (induction k arbitrary: n) simp_all

lemma length_TO_BE [simp]: "length (GUINT64_TO_BE w) = 8"
  by (simp add: GUINT64_TO_BE_def)

lemma FROM_BE_TO_BE [simp]: "GUINT64_FROM_BE (GUINT64_TO_BE w) = w"
proof -
  have "unat w < 256 ^ 8" using unsigned_less [of w, where ?'a = nat] by simp
  then show ?thesis by (simp add: GUINT64_FROM_BE_def GUINT64_TO_BE_def be_nat_bytes)
qed

subsection \<open>Streams\<close>

text \<open>\<open>g_output_stream_write_all\<close> and \<open>g_input_stream_read_all\<close> at a position of the file. A read at the
  end of the file is short and not an error; the callers assert that it was complete.\<close>

definition write_all_at :: "vfile \<Rightarrow> nat \<Rightarrow> bytes \<Rightarrow> vfile result" where
  "write_all_at f pos data = (case fwrite f pos data of None \<Rightarrow> Error G_IO_ERROR_FAILED | Some f' \<Rightarrow> Ok f')"

definition read_all_at :: "vfile \<Rightarrow> nat \<Rightarrow> nat \<Rightarrow> bytes result" where
  "read_all_at f pos n =
     (if list_ex (vf_read_error f) [pos..<min (pos + n) (length (vf_bytes f))] then Error G_IO_ERROR_FAILED
      else if pos + n > length (vf_bytes f) then Abort
      else Ok (subbytes pos n (vf_bytes f)))"

definition output_stream_write_uint64_all :: "vfile \<Rightarrow> nat \<Rightarrow> 64 word \<Rightarrow> vfile result" where
  "output_stream_write_uint64_all f pos data = write_all_at f pos (GUINT64_TO_BE data)"

definition input_stream_read_uint64_all :: "vfile \<Rightarrow> nat \<Rightarrow> 64 word result" where
  "input_stream_read_uint64_all f pos = result_bind (read_all_at f pos 8) (\<lambda>bs. Ok (GUINT64_FROM_BE bs))"

definition output_stream_write_bytes_all :: "vfile \<Rightarrow> nat \<Rightarrow> bytes \<Rightarrow> vfile result" where
  "output_stream_write_bytes_all f pos bs = write_all_at f pos bs"

definition input_stream_read_bytes_all :: "vfile \<Rightarrow> nat \<Rightarrow> nat \<Rightarrow> bytes result" where
  "input_stream_read_bytes_all f pos count = (if count = 0 then Abort else read_all_at f pos count)"

definition open_readwrite :: "vfile \<Rightarrow> unit result" where
  "open_readwrite f = fail_if (\<not> vf_openable f \<or> \<not> vf_writable f) G_IO_ERROR_FAILED"

subsection \<open>Writing the layout\<close>

definition append_signature_to_bundle :: "vfile \<Rightarrow> bytes \<Rightarrow> vfile result" where
  "append_signature_to_bundle f sig =
     result_bind (open_readwrite f) (\<lambda>_.
     let offset = length (vf_bytes f) in
     result_bind (output_stream_write_bytes_all f offset sig) (\<lambda>f1.
       output_stream_write_uint64_all f1 (offset + length sig) (of_nat (length sig))))"

text \<open>The copy of a bundle into the new file \<open>out\<close>, cut off at \<open>sz\<close>.\<close>

definition truncate_bundle :: "vfile \<Rightarrow> vfile \<Rightarrow> 64 word \<Rightarrow> vfile result" where
  "truncate_bundle f out sz =
     (if \<not> vf_openable f \<or> \<not> vf_writable out then Error G_IO_ERROR_FAILED
      else result_bind (read_all_at f 0 (length (vf_bytes f))) (\<lambda>bs.
        result_bind (write_all_at (out\<lparr>vf_bytes := []\<rparr>) 0 bs) (\<lambda>out1.
          Ok (out1\<lparr>vf_bytes := take (unat sz) (vf_bytes out1) @ replicate (unat sz - length (vf_bytes out1)) 0\<rparr>))))"

subsection \<open>Reading the layout\<close>

text \<open>The payload size and the signature. \<open>max_size\<close> is \<open>max-bundle-signature-size\<close>.\<close>

definition check_sigsize :: "64 word \<Rightarrow> 64 word \<Rightarrow> 64 word \<Rightarrow> unit result" where
  "check_sigsize max_size offset sigsize =
     result_bind (fail_if (sigsize = 0) (R_BUNDLE_ERROR R_BUNDLE_ERROR_SIGNATURE)) (\<lambda>_.
     result_bind (fail_if (sigsize > offset) (R_BUNDLE_ERROR R_BUNDLE_ERROR_SIGNATURE)) (\<lambda>_.
       fail_if (sigsize > max_size) (R_BUNDLE_ERROR R_BUNDLE_ERROR_SIGNATURE)))"

definition open_local_bundle :: "64 word \<Rightarrow> bool \<Rightarrow> vfile \<Rightarrow> (64 word \<times> bytes) result" where
  "open_local_bundle max_size regular f =
     result_bind (fail_if (\<not> vf_openable f) G_IO_ERROR_FAILED) (\<lambda>_.
     result_bind (fail_if (\<not> regular) (R_BUNDLE_ERROR R_BUNDLE_ERROR_UNSAFE)) (\<lambda>_.
     result_bind (fail_if (length (vf_bytes f) < 8) G_IO_ERROR_INVALID_ARGUMENT) (\<lambda>_.
     let offset = length (vf_bytes f) - 8 in
     result_bind (input_stream_read_uint64_all f offset) (\<lambda>sigsize.
     result_bind (check_sigsize max_size (of_nat offset) sigsize) (\<lambda>_.
     let size = of_nat offset - sigsize in
     result_bind (input_stream_read_bytes_all f (unat size) (unat sigsize)) (\<lambda>sig.
       Ok (size, sig)))))))"

text \<open>A streamed bundle: its size and the requests to the server, for a range of bytes.\<close>

record nbd_server =
  srv_data_size :: "64 word"
  srv_read :: "64 word \<Rightarrow> 64 word \<Rightarrow> bytes result"

definition open_remote_bundle :: "64 word \<Rightarrow> nbd_server \<Rightarrow> (64 word \<times> bytes) result" where
  "open_remote_bundle max_size srv =
     result_bind (fail_if (srv_data_size srv < 8) (R_BUNDLE_ERROR R_BUNDLE_ERROR_SIGNATURE)) (\<lambda>_.
     let offset = srv_data_size srv - 8 in
     result_bind (srv_read srv offset 8) (\<lambda>bs.
     let sigsize = GUINT64_FROM_BE bs in
     result_bind (check_sigsize max_size offset sigsize) (\<lambda>_.
     let size = offset - sigsize in
     result_bind (fail_if (size mod 4096 \<noteq> 0) (R_BUNDLE_ERROR R_BUNDLE_ERROR_SIGNATURE)) (\<lambda>_.
     result_bind (srv_read srv size sigsize) (\<lambda>sig. Ok (size, sig))))))"

subsection \<open>Signing\<close>

text \<open>What \<open>bundle.c\<close> uses of \<open>signature.c\<close>; \<open>'x\<close> is the certificate store.\<close>

record 'x cms =
  cms_is_detached :: "bytes \<Rightarrow> bool result"
  cms_is_envelopeddata :: "bytes \<Rightarrow> bool"
  cms_decrypt :: "bytes \<Rightarrow> string option \<Rightarrow> string \<Rightarrow> bytes result"
  cms_encrypt :: "bytes \<Rightarrow> string list \<Rightarrow> bytes result"
  cms_store :: "system_config \<Rightarrow> 'x result"
  cms_no_check_time :: "'x \<Rightarrow> 'x"
  cms_verify_fd :: "bytes \<Rightarrow> bytes \<Rightarrow> 'x \<Rightarrow> unit result"
  cms_verify_sig :: "bytes \<Rightarrow> 'x \<Rightarrow> string result"
  cms_get_cert_chain :: "bytes \<Rightarrow> 'x \<Rightarrow> bytes list result"
  cms_get_unverified_manifest :: "bytes \<Rightarrow> string result"
  cms_sign_file :: "bytes \<Rightarrow> string \<Rightarrow> string \<Rightarrow> string list \<Rightarrow> bytes result"
  cms_sign_manifest :: "rauc_manifest \<Rightarrow> string \<Rightarrow> string \<Rightarrow> string list \<Rightarrow> bytes result"
  cms_append_signature :: "bytes \<Rightarrow> string \<Rightarrow> string \<Rightarrow> string list \<Rightarrow> bytes result"

record sign_context =
  sc_certpath :: "string option"
  sc_keypath :: "string option"
  sc_intermediatepaths :: "string list"
  sc_version :: string
  sc_salt :: "bytes option"

definition VERITY_ERROR :: gerror where
  "VERITY_ERROR = R_BUNDLE_ERROR R_BUNDLE_ERROR_VERITY"

text \<open>\<open>sc_salt\<close> is the outcome of \<open>RAND_bytes\<close>.\<close>

definition create_verity :: "sha256 \<Rightarrow> sign_context \<Rightarrow> vfile \<Rightarrow> rauc_manifest \<Rightarrow> (vfile \<times> rauc_manifest) result" where
  "create_verity sha sc f mf =
     result_bind (open_readwrite f) (\<lambda>_.
     if mf_bundle_verity_salt mf \<noteq> None \<or> mf_bundle_verity_hash mf \<noteq> None \<or> mf_bundle_verity_size mf \<noteq> 0 then Abort
     else let offset = of_nat (length (vf_bytes f)) :: 64 word in
     case sc_salt sc of
       None \<Rightarrow> Error VERITY_ERROR
     | Some salt \<Rightarrow>
         result_bind (fail_if (offset mod 4096 \<noteq> 0) VERITY_ERROR) (\<lambda>_.
         result_bind (fail_if (offset \<le> 4096) VERITY_ERROR) (\<lambda>_.
         case r_verity_hash_create sha (offset div 4096) salt f of
           Inl e \<Rightarrow> Error VERITY_ERROR
         | Inr (f', combined_size, hash) \<Rightarrow>
             if \<not> combined_size * 4096 > offset then Abort
             else let verity_size = combined_size * 4096 - offset in
               if verity_size mod 4096 \<noteq> 0 then Abort
               else result_bind (r_hex_encode salt) (\<lambda>salt_hex.
                 result_bind (r_hex_encode hash) (\<lambda>hash_hex.
                   Ok (f', mf\<lparr>mf_bundle_verity_salt := Some salt_hex, mf_bundle_verity_hash := Some hash_hex,
                     mf_bundle_verity_size := verity_size\<rparr>))))))"

definition with_signer :: "sign_context \<Rightarrow> (string \<Rightarrow> string \<Rightarrow> string list \<Rightarrow> 'a result) \<Rightarrow> 'a result" where
  "with_signer sc k = (case (sc_certpath sc, sc_keypath sc) of
      (Some cert, Some key) \<Rightarrow> k cert key (sc_intermediatepaths sc)
    | _ \<Rightarrow> Abort)"

definition append_signature :: "'x cms \<Rightarrow> sign_context \<Rightarrow> bytes \<Rightarrow> bytes result" where
  "append_signature cms sc input_sig = with_signer sc (cms_append_signature cms input_sig)"

definition generate_bundle_signature :: "'x cms \<Rightarrow> sign_context \<Rightarrow> vfile \<Rightarrow> rauc_manifest \<Rightarrow> bytes result" where
  "generate_bundle_signature cms sc f mf = with_signer sc (\<lambda>cert key intermediates.
     if mf_bundle_format mf = R_MANIFEST_FORMAT_PLAIN then
       result_bind (check_manifest_internal (sc_version sc) mf) (\<lambda>_.
         cms_sign_file cms (vf_bytes f) cert key intermediates)
     else
       result_bind (check_manifest_external (sc_version sc) mf) (\<lambda>mf'.
         cms_sign_manifest cms mf' cert key intermediates))"

definition sign_bundle :: "sha256 \<Rightarrow> 'x cms \<Rightarrow> sign_context \<Rightarrow> vfile \<Rightarrow> rauc_manifest \<Rightarrow> (vfile \<times> rauc_manifest) result" where
  "sign_bundle sha cms sc f mf = with_signer sc (\<lambda>cert key intermediates.
     result_bind (if mf_bundle_format mf = R_MANIFEST_FORMAT_PLAIN then Ok (f, mf) else create_verity sha sc f mf) (\<lambda>(f1, mf1).
     result_bind (generate_bundle_signature cms sc f1 mf1) (\<lambda>sig.
     result_bind (append_signature_to_bundle f1 sig) (\<lambda>f2. Ok (f2, mf1)))))"

subsection \<open>The layout\<close>

lemma write_at_end [simp]: "write_at (length bs) d bs = bs @ d"
  by (simp add: write_at_def)

lemma write_all_at_end:
  assumes "write_all_at f (length (vf_bytes f)) d = Ok f'"
  shows "f' = f\<lparr>vf_bytes := vf_bytes f @ d\<rparr>"
  using assms by (auto simp: write_all_at_def fwrite_def split: option.splits if_splits)

lemma append_signature_layout:
  assumes "append_signature_to_bundle f sig = Ok f'"
  shows "f' = f\<lparr>vf_bytes := vf_bytes f @ sig @ GUINT64_TO_BE (of_nat (length sig))\<rparr>"
proof -
  obtain f1 where f1: "write_all_at f (length (vf_bytes f)) sig = Ok f1"
    and f2: "write_all_at f1 (length (vf_bytes f) + length sig) (GUINT64_TO_BE (of_nat (length sig))) = Ok f'"
    using assms by (auto simp: append_signature_to_bundle_def output_stream_write_bytes_all_def
        output_stream_write_uint64_all_def Let_def result_bind_Ok_iff)
  from write_all_at_end [OF f1] have "f1 = f\<lparr>vf_bytes := vf_bytes f @ sig\<rparr>" .
  with f2 write_all_at_end [of f1] show ?thesis by simp
qed

lemma read_all_at_readable:
  "readable f \<Longrightarrow> pos + n \<le> length (vf_bytes f) \<Longrightarrow> read_all_at f pos n = Ok (subbytes pos n (vf_bytes f))"
  by (simp add: read_all_at_def readable_def list_ex_iff)

lemma read_all_at_Ok: "read_all_at f pos n = Ok bs \<Longrightarrow> bs = subbytes pos n (vf_bytes f) \<and> pos + n \<le> length (vf_bytes f)"
  by (simp add: read_all_at_def split: if_splits)

lemma open_local_bundle_written:
  assumes bytes: "vf_bytes f = payload @ sig @ GUINT64_TO_BE (of_nat (length sig))" and "readable f" and "vf_openable f"
    and sig: "sig \<noteq> []" "length sig \<le> unat max_size" and small: "length payload + length sig < 2 ^ 63"
  shows "open_local_bundle max_size True f = Ok (of_nat (length payload), sig)"
proof -
  have off: "length (vf_bytes f) - 8 = length payload + length sig" using bytes by simp
  have "read_all_at f (length payload + length sig) 8 = Ok (GUINT64_TO_BE (of_nat (length sig)))"
    using read_all_at_readable [OF assms(2)] bytes by (simp add: subbytes_def)
  then have sz: "input_stream_read_uint64_all f (length payload + length sig) = Ok (of_nat (length sig))"
    by (simp add: input_stream_read_uint64_all_def)
  have u: "unat (of_nat (length sig) :: 64 word) = length sig"
    "unat (of_nat (length payload + length sig) :: 64 word) = length payload + length sig"
    "unat (of_nat (length payload) :: 64 word) = length payload"
    using small by (simp_all only: unat_of_nat) simp_all
  have "check_sigsize max_size (of_nat (length payload + length sig)) (of_nat (length sig)) = Ok ()"
    using sig u by (simp add: check_sigsize_def fail_if_def word_less_nat_alt word_unat_eq_iff del: of_nat_add)
  moreover have "of_nat (length payload + length sig) - of_nat (length sig) = (of_nat (length payload) :: 64 word)" by simp
  moreover have "read_all_at f (length payload) (length sig) = Ok sig"
    using read_all_at_readable [OF assms(2)] bytes by (simp add: subbytes_def)
  ultimately show ?thesis
    using assms(3) sig off sz u bytes unfolding open_local_bundle_def
    by (simp add: fail_if_def Let_def input_stream_read_bytes_all_def del: of_nat_add)
qed

text \<open>
  A signature that was appended to a bundle is found again: opening the file gives the size of the
  payload and the signature, and the payload is unchanged.
\<close>

theorem bundle_layout_roundtrip:
  assumes "append_signature_to_bundle f sig = Ok f'" and "readable f"
    and "sig \<noteq> []" and "length sig \<le> unat max_size" and "length (vf_bytes f) + length sig < 2 ^ 63"
  shows "open_local_bundle max_size True f' = Ok (of_nat (length (vf_bytes f)), sig) \<and>
    take (length (vf_bytes f)) (vf_bytes f') = vf_bytes f"
proof -
  note f' = append_signature_layout [OF assms(1)]
  have "vf_openable f" using assms(1) by (auto simp: append_signature_to_bundle_def open_readwrite_def result_bind_Ok_iff)
  then have "open_local_bundle max_size True f' = Ok (of_nat (length (vf_bytes f)), sig)"
    using assms f' by (intro open_local_bundle_written) (auto simp: readable_def)
  then show ?thesis using f' by simp
qed

definition bundle_demo_file :: vfile where
  "bundle_demo_file = \<lparr>vf_bytes = replicate 20 7, vf_openable = True, vf_writable = True,
     vf_read_error = (\<lambda>_. False), vf_write_error = (\<lambda>_. False)\<rparr>"

theorem bundle_layout_roundtrip_witness:
  "\<exists>f'. append_signature_to_bundle bundle_demo_file [1, 2, 3] = Ok f' \<and>
     open_local_bundle 65536 True f' = Ok (20, [1, 2, 3]) \<and> take 20 (vf_bytes f') = replicate 20 7"
proof -
  have "is_ok (append_signature_to_bundle bundle_demo_file [1, 2, 3])" by code_simp
  then obtain f' where f': "append_signature_to_bundle bundle_demo_file [1, 2, 3] = Ok f'" by (auto simp: is_ok_iff)
  have "readable bundle_demo_file" "vf_bytes bundle_demo_file = replicate 20 7"
    by (simp_all add: readable_def bundle_demo_file_def)
  then show ?thesis using f' bundle_layout_roundtrip [OF f', of 65536] by simp
qed

text \<open>Conversely every file that is accepted has this layout.\<close>

lemma open_local_bundle_layout:
  assumes "open_local_bundle max_size regular f = Ok (sz, sig)" and small: "length (vf_bytes f) < 2 ^ 63"
  shows "vf_bytes f = take (unat sz) (vf_bytes f) @ sig @ drop (length (vf_bytes f) - 8) (vf_bytes f)"
    and "GUINT64_FROM_BE (drop (length (vf_bytes f) - 8) (vf_bytes f)) = of_nat (length sig)"
    and "unat sz + length sig + 8 = length (vf_bytes f)" and "0 < length sig" and "length sig \<le> unat max_size" and regular
proof -
  let ?n = "length (vf_bytes f) - 8"
  obtain sigsize where 8: "8 \<le> length (vf_bytes f)" and reg: regular
    and ss: "input_stream_read_uint64_all f ?n = Ok sigsize" "check_sigsize max_size (of_nat ?n) sigsize = Ok ()"
    and szdef: "sz = of_nat ?n - sigsize" and rd: "input_stream_read_bytes_all f (unat sz) (unat sigsize) = Ok sig"
    using assms(1) by (auto simp: open_local_bundle_def result_bind_Ok_iff Let_def not_less)
  have un: "unat (of_nat ?n :: 64 word) = ?n" using small by (simp only: unat_of_nat) simp
  have c: "sigsize \<noteq> 0" "sigsize \<le> of_nat ?n" "sigsize \<le> max_size"
    using ss(2) by (auto simp: check_sigsize_def result_bind_Ok_iff)
  then have usz: "unat sz = ?n - unat sigsize" "unat sigsize \<le> ?n" using un szdef by (simp_all add: unat_sub word_le_nat_alt)
  from read_all_at_Ok rd have sig: "sig = subbytes (unat sz) (unat sigsize) (vf_bytes f)" "unat sz + unat sigsize \<le> length (vf_bytes f)"
    by (auto simp: input_stream_read_bytes_all_def split: if_splits)
  have len: "length sig = unat sigsize" using sig by (simp add: subbytes_def)
  have "subbytes ?n 8 (vf_bytes f) = drop ?n (vf_bytes f)" using 8 by (simp add: subbytes_def)
  then have "sigsize = GUINT64_FROM_BE (drop ?n (vf_bytes f))"
    using ss(1) read_all_at_Ok [of f ?n 8] by (auto simp: input_stream_read_uint64_all_def result_bind_Ok_iff)
  then show "GUINT64_FROM_BE (drop ?n (vf_bytes f)) = of_nat (length sig)" using len by simp
  show "unat sz + length sig + 8 = length (vf_bytes f)" using usz len 8 by simp
  show "0 < length sig" "length sig \<le> unat max_size" using c len by (simp_all add: word_le_nat_alt unat_gt_0)
  have "unat sigsize + unat sz = ?n" using usz by simp
  then have "drop ?n (vf_bytes f) = drop (unat sigsize) (drop (unat sz) (vf_bytes f))" by (simp only: drop_drop)
  then show "vf_bytes f = take (unat sz) (vf_bytes f) @ sig @ drop ?n (vf_bytes f)"
    using sig(1) by (metis append_take_drop_id subbytes_def)
  show regular by (rule reg)
qed

end
