(* ===== verification/Bundle_Check.thy ===== *)
theory Bundle_Check
  imports Bundle_File
begin

text \<open>
  Checking a bundle (\<open>src/src/bundle.c\<close>): exclusive access to the file, \<open>check_bundle\<close> with the
  verification of the signature, and \<open>check_bundle_payload\<close>. The open file is named by its path; what
  the kernel tells about it depends on the world and may change between two calls. Steps of the progress
  indicator and the copy of \<open>was_encrypted\<close> in the manifest, which is only shown, are left out.
\<close>

subsection \<open>Files\<close>

record file_stat =
  st_regular :: bool
  st_uid :: nat
  st_perm :: "32 word"
  st_dev :: nat
  st_rdev :: nat

datatype fs_type = FUSE_SUPER_MAGIC | NFS_SUPER_MAGIC
  | AFS_SUPER_MAGIC | BTRFS_SUPER_MAGIC | CRAMFS_MAGIC | EXFAT_SUPER_MAGIC | EXT4_SUPER_MAGIC | F2FS_SUPER_MAGIC
  | ISOFS_SUPER_MAGIC | JFFS2_SUPER_MAGIC | MSDOS_SUPER_MAGIC | NTFS_SB_MAGIC | NTFS3_SUPER_MAGIC | ROMFS_MAGIC
  | SQUASHFS_MAGIC | UDF_SUPER_MAGIC | XFS_SUPER_MAGIC
  | HOSTFS_SUPER_MAGIC | OVERLAYFS_SUPER_MAGIC | RAMFS_MAGIC | TMPFS_MAGIC | UBIFS_SUPER_MAGIC | ZFS_SUPER_MAGIC
  | OTHER_MAGIC int

datatype lease = F_RDLCK | F_UNLCK

record 'w file_ops =
  fo_open :: "string \<Rightarrow> 'w \<Rightarrow> bool result"
  fo_content :: "string \<Rightarrow> 'w \<Rightarrow> vfile"
  fo_fstat :: "string \<Rightarrow> 'w \<Rightarrow> file_stat result"
  fo_fstatfs :: "string \<Rightarrow> 'w \<Rightarrow> fs_type result"
  fo_stat :: "string \<Rightarrow> 'w \<Rightarrow> file_stat result"
  fo_mounts :: "'w \<Rightarrow> string list"
  fo_euid :: nat
  fo_fchown_root :: "string \<Rightarrow> ('w, unit) io"
  fo_fchmod :: "string \<Rightarrow> 32 word \<Rightarrow> ('w, unit) io"
  fo_setlease :: "string \<Rightarrow> lease \<Rightarrow> ('w, unit) io"
  fo_getlease :: "string \<Rightarrow> 'w \<Rightarrow> lease"

definition ask :: "('w \<Rightarrow> 'a result) \<Rightarrow> ('w, 'a) io" where
  "ask f w = (f w, w)"

lemma ask_iff [io_iff]: "ask f w = (r, w') \<longleftrightarrow> f w = r \<and> w' = w"
  by (auto simp: ask_def)

abbreviation UNSAFE :: gerror where
  "UNSAFE \<equiv> R_BUNDLE_ERROR R_BUNDLE_ERROR_UNSAFE"

subsection \<open>Exclusive access\<close>

text \<open>The permission bits \<open>S_IRUSR | S_IWUSR | S_IRGRP | S_IROTH\<close> and 0755.\<close>

definition PERM_0644 :: "32 word" where "PERM_0644 = 420"
definition PERM_0755 :: "32 word" where "PERM_0755 = 493"

definition take_bundle_ownership :: "'w file_ops \<Rightarrow> string \<Rightarrow> ('w, unit) io" where
  "take_bundle_ownership fo fd =
     io_bind (ask (fo_fstat fo fd)) (\<lambda>st.
     io_bind (if st_uid st \<noteq> 0 \<and> st_uid st \<noteq> fo_euid fo then
                if fo_euid fo \<noteq> 0 then io_fail (G_FILE_ERROR (G_FILE_ERROR_OTHER 2))
                else fo_fchown_root fo fd
              else io_return ()) (\<lambda>_.
     let perm_new = and (st_perm st) PERM_0644 in
     if st_perm st \<noteq> perm_new then fo_fchmod fo fd perm_new else io_return ()))"

text \<open>File systems that are refused, local ones, and those that root has prepared.\<close>

definition unsafe_fs :: "fs_type list" where
  "unsafe_fs = [FUSE_SUPER_MAGIC, NFS_SUPER_MAGIC]"

definition local_fs :: "fs_type list" where
  "local_fs = [AFS_SUPER_MAGIC, BTRFS_SUPER_MAGIC, CRAMFS_MAGIC, EXFAT_SUPER_MAGIC, EXT4_SUPER_MAGIC, F2FS_SUPER_MAGIC,
     ISOFS_SUPER_MAGIC, JFFS2_SUPER_MAGIC, MSDOS_SUPER_MAGIC, NTFS_SB_MAGIC, NTFS3_SUPER_MAGIC, ROMFS_MAGIC,
     SQUASHFS_MAGIC, UDF_SUPER_MAGIC, XFS_SUPER_MAGIC]"

definition prepared_fs :: "fs_type list" where
  "prepared_fs = [HOSTFS_SUPER_MAGIC, OVERLAYFS_SUPER_MAGIC, RAMFS_MAGIC, TMPFS_MAGIC, UBIFS_SUPER_MAGIC, ZFS_SUPER_MAGIC]"

text \<open>The first mounted device that holds the file must belong to root.\<close>

fun check_mounted_device :: "'w file_ops \<Rightarrow> nat \<Rightarrow> string list \<Rightarrow> 'w \<Rightarrow> bool result" where
  "check_mounted_device fo dev [] w = Ok False"
| "check_mounted_device fo dev (dev_path # ds) w = (case fo_stat fo dev_path w of
      Ok dev_stat \<Rightarrow>
        if st_rdev dev_stat \<noteq> dev then check_mounted_device fo dev ds w
        else if st_uid dev_stat \<noteq> 0 then Error UNSAFE
        else Ok True
    | _ \<Rightarrow> check_mounted_device fo dev ds w)"

definition check_file_system :: "'w file_ops \<Rightarrow> file_stat \<Rightarrow> fs_type \<Rightarrow> 'w \<Rightarrow> unit result" where
  "check_file_system fo st fs w =
     result_bind (fo_stat fo ''/'' w) (\<lambda>root.
     if st_dev root = st_dev st then Ok ()
     else if fs \<in> set unsafe_fs then Error UNSAFE
     else if fs \<in> set prepared_fs then Ok ()
     else if fs \<in> set local_fs then
       result_bind (check_mounted_device fo (st_dev st) (fo_mounts fo w) w) (\<lambda>mount_checked.
         fail_if (\<not> mount_checked) UNSAFE)
     else Error UNSAFE)"

definition check_lease :: "'w file_ops \<Rightarrow> string \<Rightarrow> ('w, unit) io" where
  "check_lease fo fd =
     io_bind (io_catch (fo_setlease fo fd F_RDLCK) (\<lambda>e. io_fail UNSAFE)) (\<lambda>_.
     io_bind (ask (\<lambda>w. fail_if (fo_getlease fo fd w \<noteq> F_RDLCK) UNSAFE)) (\<lambda>_.
       fo_setlease fo fd F_UNLCK))"

definition check_bundle_access :: "'w file_ops \<Rightarrow> string \<Rightarrow> ('w, unit) io" where
  "check_bundle_access fo fd =
     io_bind (ask (fo_fstat fo fd)) (\<lambda>st.
     io_bind (ask (fo_fstatfs fo fd)) (\<lambda>fs.
     io_bind (io_lift (fail_if (\<not> st_regular st) UNSAFE)) (\<lambda>_.
     io_bind (io_lift (fail_if (st_uid st \<noteq> 0 \<and> st_uid st \<noteq> fo_euid fo) UNSAFE)) (\<lambda>_.
     io_bind (io_lift (fail_if (and (st_perm st) (not PERM_0755) \<noteq> 0) UNSAFE)) (\<lambda>_.
     io_bind (ask (check_file_system fo st fs)) (\<lambda>_.
       check_lease fo fd))))))"

definition enforce_bundle_exclusive :: "'w file_ops \<Rightarrow> string \<Rightarrow> ('w, unit) io" where
  "enforce_bundle_exclusive fo fd w = (case check_bundle_access fo fd w of
      (Ok _, w1) \<Rightarrow> (Ok (), w1)
    | (Abort, w1) \<Rightarrow> (Abort, w1)
    | (Error e, w1) \<Rightarrow> if e = ERROR_UNSET then (Abort, w1) else (case take_bundle_ownership fo fd w1 of
        (Abort, w2) \<Rightarrow> (Abort, w2)
      | (r, w2) \<Rightarrow> (case check_bundle_access fo fd w2 of
          (Error e_check, w3) \<Rightarrow> (case r of Error e_take \<Rightarrow> (Error e_take, w3) | _ \<Rightarrow> (Error e_check, w3))
        | (res, w3) \<Rightarrow> (res, w3))))"

subsection \<open>The bundle\<close>

record rauc_open_bundle = rauc_bundle +
  bnd_path :: string
  bnd_origpath :: "string option"
  bnd_storepath :: string
  bnd_nbd_srv :: "nbd_server option"
  bnd_stream :: "string option"
  bnd_size :: "64 word"
  bnd_enveloped_data :: "bytes option"
  bnd_sigdata :: bytes
  bnd_verification_disabled :: bool
  bnd_signature_verified :: bool
  bnd_payload_verified :: bool
  bnd_exclusive_verified :: bool
  bnd_exclusive_check_error :: "gerror option"
  bnd_verified_chain :: "bytes list"

definition bundle_new0 :: rauc_open_bundle where
  "bundle_new0 = \<lparr>bnd_manifest = None, bnd_was_encrypted = False, bnd_mount_point = None, bnd_path = [],
     bnd_origpath = None, bnd_storepath = [], bnd_nbd_srv = None, bnd_stream = None, bnd_size = 0,
     bnd_enveloped_data = None, bnd_sigdata = [], bnd_verification_disabled = False, bnd_signature_verified = False,
     bnd_payload_verified = False, bnd_exclusive_verified = False, bnd_exclusive_check_error = None,
     bnd_verified_chain = []\<rparr>"

text \<open>\<open>CheckBundleParams\<close>\<close>

record check_params =
  CHECK_BUNDLE_NO_VERIFY :: bool
  CHECK_BUNDLE_NO_CHECK_TIME :: bool
  CHECK_BUNDLE_TRUST_ENV :: bool

text \<open>\<open>RaucBundleAccessArgs\<close>; with the address it is what the streaming server is started with.\<close>

record access_args =
  aa_tls_cert :: "string option"
  aa_tls_key :: "string option"
  aa_tls_ca :: "string option"
  aa_tls_no_verify :: bool
  aa_http_headers :: "string list"
  aa_http_info_headers :: "string list"

record ('w, 'x) bundle_env =
  be_files :: "'w file_ops"
  be_cms :: "'x cms"
  be_sha256 :: sha256
  be_load :: "string \<Rightarrow> key_file result"
  be_checksum :: "string \<Rightarrow> string"
  be_version :: string
  be_streaming :: bool
  be_network :: bool
  be_start_server :: "string \<Rightarrow> access_args \<Rightarrow> ('w, nbd_server) io"
  be_download :: "string \<Rightarrow> 64 word \<Rightarrow> ('w, string) io"

subsection \<open>Locating the bundle\<close>

definition scheme_char :: "char \<Rightarrow> bool" where
  "scheme_char c \<longleftrightarrow> g_ascii_isalnum c \<or> c \<in> set ''.+-''"

definition g_uri_parse_scheme :: "string \<Rightarrow> string option" where
  "g_uri_parse_scheme uri =
     (let scheme = takeWhile scheme_char uri; rest = dropWhile scheme_char uri in
      if uri = [] \<or> \<not> (g_ascii_isupper (hd uri) \<or> g_ascii_islower (hd uri)) then None
      else if rest \<noteq> [] \<and> hd rest = CHR '':'' then Some scheme else None)"

definition is_remote_scheme :: "string option \<Rightarrow> bool" where
  "is_remote_scheme scheme \<longleftrightarrow>
     scheme \<in> set (map Some [''http'', ''https'', ''tftp'', ''sftp'', ''ftp'', ''ftps''])"

definition no_access_args :: access_args where
  "no_access_args = \<lparr>aa_tls_cert = None, aa_tls_key = None, aa_tls_ca = None, aa_tls_no_verify = False,
     aa_http_headers = [], aa_http_info_headers = []\<rparr>"

definition or_else :: "'a option \<Rightarrow> 'a option \<Rightarrow> 'a option" where
  "or_else a b = (case a of None \<Rightarrow> b | Some x \<Rightarrow> Some x)"

definition server_args :: "system_config \<Rightarrow> access_args option \<Rightarrow> access_args" where
  "server_args cfg access =
     (let a = (case access of None \<Rightarrow> no_access_args | Some a \<Rightarrow> a) in
      a\<lparr>aa_tls_cert := or_else (aa_tls_cert a) (cfg_streaming_tls_cert cfg),
        aa_tls_key := or_else (aa_tls_key a) (cfg_streaming_tls_key cfg),
        aa_tls_ca := or_else (aa_tls_ca a) (cfg_streaming_tls_ca cfg)\<rparr>)"

text \<open>Streaming, download to a temporary directory, or a local path. The download is \<open>g_dir_make_tmp\<close>
  and \<open>download_file\<close>.\<close>

definition locate_bundle :: "('w, 'x) bundle_env \<Rightarrow> system_config \<Rightarrow> access_args option \<Rightarrow> string \<Rightarrow> rauc_open_bundle
    \<Rightarrow> ('w, rauc_open_bundle) io" where
  "locate_bundle env cfg access bundlename b =
     (if is_remote_scheme (g_uri_parse_scheme bundlename) then
        if be_streaming env then
          io_bind (be_start_server env bundlename (server_args cfg access)) (\<lambda>srv.
            io_return (b\<lparr>bnd_path := bundlename, bnd_nbd_srv := Some srv\<rparr>))
        else if be_network env then
          io_bind (be_download env bundlename (cfg_max_bundle_download_size cfg)) (\<lambda>path.
            io_return (b\<lparr>bnd_path := path, bnd_origpath := Some bundlename\<rparr>))
        else io_fail (R_BUNDLE_ERROR R_BUNDLE_ERROR_UNSUPPORTED)
      else io_return (b\<lparr>bnd_path := bundlename\<rparr>))"

definition store_path :: "system_config \<Rightarrow> rauc_open_bundle \<Rightarrow> string" where
  "store_path cfg b = (case cfg_store_path cfg of
      Some p \<Rightarrow> p
    | None \<Rightarrow>
        let path = (case bnd_origpath b of Some p \<Rightarrow> p | None \<Rightarrow> bnd_path b) in
        if g_str_has_suffix path ''.raucb'' then take (length path - 6) path @ ''.castr'' else path @ ''.castr'')"

definition open_bundle_data :: "('w, 'x) bundle_env \<Rightarrow> system_config \<Rightarrow> rauc_open_bundle \<Rightarrow> ('w, rauc_open_bundle) io" where
  "open_bundle_data env cfg b = (case bnd_nbd_srv b of
      None \<Rightarrow>
        io_bind (ask (fo_open (be_files env) (bnd_path b))) (\<lambda>regular.
        io_bind (ask (\<lambda>w. open_local_bundle (cfg_max_bundle_signature_size cfg) regular
            (fo_content (be_files env) (bnd_path b) w))) (\<lambda>(sz, sig).
          io_return (b\<lparr>bnd_stream := Some (bnd_path b), bnd_size := sz, bnd_sigdata := sig\<rparr>)))
    | Some srv \<Rightarrow>
        io_bind (io_lift (open_remote_bundle (cfg_max_bundle_signature_size cfg) srv)) (\<lambda>(sz, sig).
          io_return (b\<lparr>bnd_size := sz, bnd_sigdata := sig\<rparr>)))"

subsection \<open>Verifying the signature\<close>

text \<open>The signed CMS of an encrypted bundle is the payload of the enveloped one.\<close>

definition decrypt_sigdata :: "'x cms \<Rightarrow> system_config \<Rightarrow> rauc_open_bundle \<Rightarrow> rauc_open_bundle result" where
  "decrypt_sigdata cms cfg b =
     (if \<not> cms_is_envelopeddata cms (bnd_sigdata b) then Ok b
      else case cfg_encryption_key cfg of
        None \<Rightarrow> Error (R_BUNDLE_ERROR R_BUNDLE_ERROR_SIGNATURE)
      | Some key \<Rightarrow>
          result_bind (cms_decrypt cms (bnd_sigdata b) (cfg_encryption_cert cfg) key) (\<lambda>decrypted.
            Ok (b\<lparr>bnd_was_encrypted := True, bnd_enveloped_data := Some (bnd_sigdata b), bnd_sigdata := decrypted\<rparr>)))"

definition verify_detached :: "('w, 'x) bundle_env \<Rightarrow> bool \<Rightarrow> 'x \<Rightarrow> rauc_open_bundle \<Rightarrow> ('w, rauc_open_bundle) io" where
  "verify_detached env trust_env store b = (case bnd_stream b of
      None \<Rightarrow> io_abort
    | Some fd \<Rightarrow>
        io_bind (if trust_env then io_return () else enforce_bundle_exclusive (be_files env) fd) (\<lambda>_.
        io_bind (ask (\<lambda>w. cms_verify_fd (be_cms env) (take (unat (bnd_size b)) (vf_bytes (fo_content (be_files env) fd w)))
            (bnd_sigdata b) store)) (\<lambda>_.
          io_return (b\<lparr>bnd_signature_verified := True, bnd_payload_verified := True, bnd_exclusive_verified := True\<rparr>))))"

definition check_exclusive :: "('w, 'x) bundle_env \<Rightarrow> bool \<Rightarrow> rauc_open_bundle \<Rightarrow> ('w, rauc_open_bundle) io" where
  "check_exclusive env trust_env b = (case bnd_stream b of
      None \<Rightarrow> io_return b
    | Some fd \<Rightarrow>
        if trust_env then io_return (b\<lparr>bnd_exclusive_verified := True\<rparr>)
        else io_catch (io_bind (check_bundle_access (be_files env) fd) (\<lambda>_. io_return (b\<lparr>bnd_exclusive_verified := True\<rparr>)))
          (\<lambda>e. if e = ERROR_UNSET then io_abort else io_return (b\<lparr>bnd_exclusive_check_error := Some e\<rparr>)))"

definition verify_attached :: "('w, 'x) bundle_env \<Rightarrow> bool \<Rightarrow> 'x \<Rightarrow> rauc_open_bundle \<Rightarrow> ('w, rauc_open_bundle \<times> string) io" where
  "verify_attached env trust_env store b =
     io_bind (check_exclusive env trust_env b) (\<lambda>b.
     io_bind (io_lift (cms_verify_sig (be_cms env) (bnd_sigdata b) store)) (\<lambda>text.
       io_return (b\<lparr>bnd_signature_verified := True, bnd_payload_verified := False\<rparr>, text)))"

text \<open>The bundle and, unless it is in the plain format, the text of the manifest.\<close>

definition verify_signature :: "('w, 'x) bundle_env \<Rightarrow> system_config \<Rightarrow> check_params \<Rightarrow> bool \<Rightarrow> rauc_open_bundle
    \<Rightarrow> ('w, rauc_open_bundle \<times> string option) io" where
  "verify_signature env cfg params detached b =
     io_bind (io_lift (cms_store (be_cms env) cfg)) (\<lambda>store0.
     let store = (if CHECK_BUNDLE_NO_CHECK_TIME params then cms_no_check_time (be_cms env) store0 else store0) in
     io_bind (if detached
              then io_bind (verify_detached env (CHECK_BUNDLE_TRUST_ENV params) store b) (\<lambda>b. io_return (b, None))
              else io_bind (verify_attached env (CHECK_BUNDLE_TRUST_ENV params) store b) (\<lambda>(b, text).
                io_return (b, Some text))) (\<lambda>(b, text).
     io_bind (io_lift (cms_get_cert_chain (be_cms env) (bnd_sigdata b) store)) (\<lambda>chain.
       io_return (b\<lparr>bnd_verified_chain := chain\<rparr>, text))))"

definition skip_verification :: "'x cms \<Rightarrow> bool \<Rightarrow> rauc_open_bundle \<Rightarrow> (rauc_open_bundle \<times> string option) result" where
  "skip_verification cms detached b =
     (if detached then Ok (b, None)
      else result_bind (cms_get_unverified_manifest cms (bnd_sigdata b)) (\<lambda>text. Ok (b, Some text)))"

definition load_external_manifest :: "('w, 'x) bundle_env \<Rightarrow> rauc_open_bundle \<Rightarrow> string option \<Rightarrow> rauc_open_bundle result" where
  "load_external_manifest env b text = (case text of
      None \<Rightarrow> Ok b
    | Some _ \<Rightarrow>
        result_bind (load_manifest_mem (be_load env) (be_checksum env) text) (\<lambda>mf.
        result_bind (fail_if (mf_bundle_format mf = R_MANIFEST_FORMAT_PLAIN) (R_BUNDLE_ERROR R_BUNDLE_ERROR_FORMAT)) (\<lambda>_.
          Ok (b\<lparr>bnd_manifest := Some mf\<rparr>))))"

definition check_allowed_bundle_format :: "system_config \<Rightarrow> rauc_manifest option \<Rightarrow> unit result" where
  "check_allowed_bundle_format cfg mf =
     (let format = (case mf of None \<Rightarrow> R_MANIFEST_FORMAT_PLAIN | Some m \<Rightarrow> mf_bundle_format m) in
      fail_if ((mf = None \<or> format \<noteq> R_MANIFEST_FORMAT_PLAIN) \<and> and (cfg_bundle_formats_mask cfg) (format_bit format) = 0)
        (R_BUNDLE_ERROR R_BUNDLE_ERROR_FORMAT))"

definition check_bundle :: "('w, 'x) bundle_env \<Rightarrow> system_config \<Rightarrow> check_params \<Rightarrow> access_args option \<Rightarrow> string
    \<Rightarrow> ('w, rauc_open_bundle) io" where
  "check_bundle env cfg params access bundlename =
     (let verify = (\<not> CHECK_BUNDLE_NO_VERIFY params) in
      io_bind (io_lift (fail_if (verify \<and> cfg_keyring_path cfg = None \<and> cfg_keyring_directory cfg = None)
          (R_BUNDLE_ERROR R_BUNDLE_ERROR_KEYRING))) (\<lambda>_.
      io_bind (locate_bundle env cfg access bundlename (bundle_new0\<lparr>bnd_verification_disabled := \<not> verify\<rparr>)) (\<lambda>b.
      io_bind (open_bundle_data env cfg (b\<lparr>bnd_storepath := store_path cfg b\<rparr>)) (\<lambda>b.
      io_bind (io_lift (cms_is_detached (be_cms env) (bnd_sigdata b))) (\<lambda>detached.
      io_bind (io_lift (fail_if (detached \<and> bnd_nbd_srv b \<noteq> None) (R_BUNDLE_ERROR R_BUNDLE_ERROR_FORMAT))) (\<lambda>_.
      io_bind (io_lift (decrypt_sigdata (be_cms env) cfg b)) (\<lambda>b.
      io_bind (if verify then verify_signature env cfg params detached b
               else io_lift (skip_verification (be_cms env) detached b)) (\<lambda>(b, text).
      io_bind (io_lift (load_external_manifest env b text)) (\<lambda>b.
      io_bind (io_lift (check_allowed_bundle_format cfg (bnd_manifest b))) (\<lambda>_.
        io_return b))))))))))"

subsection \<open>Verifying the payload\<close>

text \<open>\<open>off_t\<close> is signed, so the number of data blocks is a signed quotient.\<close>

definition verify_verity_payload :: "sha256 \<Rightarrow> vfile \<Rightarrow> 64 word \<Rightarrow> rauc_manifest \<Rightarrow> unit result" where
  "verify_verity_payload sha f sz mf =
     (case (map_option (\<lambda>h. r_hex_decode h 32) (mf_bundle_verity_hash mf), map_option (\<lambda>h. r_hex_decode h 32) (mf_bundle_verity_salt mf)) of
        (Some (Some root_digest), Some (Some salt)) \<Rightarrow>
          let data_size = sz - mf_bundle_verity_size mf in
          if sz mod 4096 \<noteq> 0 \<or> data_size mod 4096 \<noteq> 0 then Abort
          else (case r_verity_hash_verify sha (of_int (sint data_size div 4096)) root_digest salt f of
              Inl _ \<Rightarrow> Error (R_BUNDLE_ERROR R_BUNDLE_ERROR_PAYLOAD)
            | Inr _ \<Rightarrow> Ok ())
      | _ \<Rightarrow> Abort)"

definition check_bundle_payload :: "('w, 'x) bundle_env \<Rightarrow> rauc_open_bundle \<Rightarrow> ('w, rauc_open_bundle) io" where
  "check_bundle_payload env b =
     (if bnd_verification_disabled b \<or> bnd_payload_verified b then io_return b
      else case bnd_stream b of
        None \<Rightarrow> io_fail UNSAFE
      | Some fd \<Rightarrow>
          if \<not> bnd_exclusive_verified b then io_fail UNSAFE
          else (case bnd_manifest b of
              None \<Rightarrow> io_abort
            | Some mf \<Rightarrow>
                io_bind (io_lift (check_manifest_external (be_version env) mf)) (\<lambda>mf.
                io_bind (ask (\<lambda>w. verify_verity_payload (be_sha256 env) (fo_content (be_files env) fd w) (bnd_size b) mf)) (\<lambda>_.
                  io_return (b\<lparr>bnd_manifest := Some mf, bnd_payload_verified := True\<rparr>)))))"

subsection \<open>What the checks guarantee\<close>

text \<open>
  What it means that nobody but root and the own user can write to the file: it is a regular file of
  root or the own user without write permission for group and others; it is on the root file system,
  or on one of the file systems that only root prepares, or on a device of root with another known
  file system (never FUSE, NFS or an unknown one); and the kernel granted a read lease, which it
  refuses while a descriptor is open for writing, still had it when asked, and took it back. The
  world is \<open>v\<close> before and \<open>w\<close> after the lease.
\<close>

definition lease_granted :: "'w file_ops \<Rightarrow> string \<Rightarrow> 'w \<Rightarrow> 'w \<Rightarrow> bool" where
  "lease_granted fo fd v w \<longleftrightarrow> (\<exists>held. fo_setlease fo fd F_RDLCK v = (Ok (), held) \<and>
     fo_getlease fo fd held = F_RDLCK \<and> fo_setlease fo fd F_UNLCK held = (Ok (), w))"

definition exclusive_access :: "'w file_ops \<Rightarrow> string \<Rightarrow> 'w \<Rightarrow> 'w \<Rightarrow> bool" where
  "exclusive_access fo fd v w \<longleftrightarrow> (\<exists>st fs root. fo_fstat fo fd v = Ok st \<and> fo_fstatfs fo fd v = Ok fs \<and>
     fo_stat fo ''/'' v = Ok root \<and> st_regular st \<and> st_uid st \<in> {0, fo_euid fo} \<and>
     \<not> bit (st_perm st) 4 \<and> \<not> bit (st_perm st) 1 \<and>
     (st_dev root = st_dev st \<or>
       fs \<in> {HOSTFS_SUPER_MAGIC, OVERLAYFS_SUPER_MAGIC, RAMFS_MAGIC, TMPFS_MAGIC, UBIFS_SUPER_MAGIC, ZFS_SUPER_MAGIC} \<or>
       fs \<notin> {FUSE_SUPER_MAGIC, NFS_SUPER_MAGIC} \<union> range OTHER_MAGIC \<and>
         (\<exists>d\<in>set (fo_mounts fo v). \<exists>ds. fo_stat fo d v = Ok ds \<and> st_rdev ds = st_dev st \<and> st_uid ds = 0))) \<and>
     lease_granted fo fd v w"

lemma check_mounted_device_Ok:
  "check_mounted_device fo dev ds w = Ok True \<Longrightarrow>
     \<exists>d\<in>set ds. \<exists>s. fo_stat fo d w = Ok s \<and> st_rdev s = dev \<and> st_uid s = 0"
  by (induction ds) (auto split: result.splits if_splits)

lemma perm_0755_group_other:
  assumes "and p (not PERM_0755) = 0"
  shows "\<not> bit p 4 \<and> \<not> bit p 1"
proof -
  have "bit (not PERM_0755) 4" "bit (not PERM_0755) 1" by (simp_all add: PERM_0755_def bit_not_iff)
  with assms show ?thesis by (metis bit_0_eq bit_and_iff bot_apply bot_bool_def)
qed

lemma check_file_system_Ok:
  assumes "check_file_system fo st fs w = Ok ()"
  shows "\<exists>root. fo_stat fo ''/'' w = Ok root \<and> (st_dev root = st_dev st \<or>
       fs \<in> {HOSTFS_SUPER_MAGIC, OVERLAYFS_SUPER_MAGIC, RAMFS_MAGIC, TMPFS_MAGIC, UBIFS_SUPER_MAGIC, ZFS_SUPER_MAGIC} \<or>
       fs \<notin> {FUSE_SUPER_MAGIC, NFS_SUPER_MAGIC} \<union> range OTHER_MAGIC \<and>
         (\<exists>d\<in>set (fo_mounts fo w). \<exists>ds. fo_stat fo d w = Ok ds \<and> st_rdev ds = st_dev st \<and> st_uid ds = 0))"
proof -
  obtain root where root: "fo_stat fo ''/'' w = Ok root"
      "st_dev root = st_dev st \<or> fs \<in> set prepared_fs \<or>
        fs \<in> set local_fs \<and> check_mounted_device fo (st_dev st) (fo_mounts fo w) w = Ok True"
    using assms by (auto simp: check_file_system_def result_bind_Ok_iff split: if_splits)
  have "fs \<notin> {FUSE_SUPER_MAGIC, NFS_SUPER_MAGIC} \<union> range OTHER_MAGIC" if "fs \<in> set local_fs"
    using that by (auto simp: local_fs_def)
  with root check_mounted_device_Ok [of fo "st_dev st" "fo_mounts fo w" w] show ?thesis
    by (auto simp: prepared_fs_def)
qed

lemma check_lease_Ok: "check_lease fo fd v = (Ok (), w) \<Longrightarrow> lease_granted fo fd v w"
  by (auto simp: check_lease_def lease_granted_def io_iff io_catch_Ok_iff split: if_splits)

lemma check_bundle_access_Ok:
  assumes "check_bundle_access fo fd v = (Ok (), w)"
  shows "exclusive_access fo fd v w"
proof -
  obtain st fs where st: "fo_fstat fo fd v = Ok st" "fo_fstatfs fo fd v = Ok fs" "st_regular st"
      "st_uid st = 0 \<or> st_uid st = fo_euid fo" "and (st_perm st) (not PERM_0755) = 0"
      "check_file_system fo st fs v = Ok ()" "check_lease fo fd v = (Ok (), w)"
    using assms by (auto simp: check_bundle_access_def io_iff)
  from check_file_system_Ok [OF st(6)] st perm_0755_group_other [OF st(5)] check_lease_Ok [OF st(7)] show ?thesis
    unfolding exclusive_access_def by blast
qed

text \<open>Exclusive access was established, and the world was \<open>w\<close> afterwards.\<close>

definition checked_access :: "'w file_ops \<Rightarrow> string \<Rightarrow> 'w \<Rightarrow> bool" where
  "checked_access fo fd w \<longleftrightarrow> (\<exists>v. exclusive_access fo fd v w)"

lemma checked_accessI: "check_bundle_access fo fd v = (Ok (), w) \<Longrightarrow> checked_access fo fd w"
  unfolding checked_access_def by (blast intro: check_bundle_access_Ok)

lemma enforce_bundle_exclusive_Ok:
  assumes "enforce_bundle_exclusive fo fd w = (Ok (), w')"
  shows "checked_access fo fd w'"
  using assms by (auto simp: enforce_bundle_exclusive_def split: prod.splits result.splits if_splits intro: checked_accessI)

text \<open>What a verified signature means.\<close>

definition authentic :: "('w, 'x) bundle_env \<Rightarrow> bool \<Rightarrow> 'x \<Rightarrow> rauc_open_bundle \<Rightarrow> 'w \<Rightarrow> bool" where
  "authentic env trust_env store b w \<longleftrightarrow>
     \<not> bnd_verification_disabled b \<and> bnd_signature_verified b \<and>
     (case bnd_manifest b of
        None \<Rightarrow> bnd_payload_verified b \<and> (case bnd_stream b of
            None \<Rightarrow> False
          | Some fd \<Rightarrow> cms_verify_fd (be_cms env) (take (unat (bnd_size b)) (vf_bytes (fo_content (be_files env) fd w)))
              (bnd_sigdata b) store = Ok () \<and>
              (trust_env \<or> checked_access (be_files env) fd w))
      | Some mf \<Rightarrow> \<not> bnd_payload_verified b \<and> mf_bundle_format mf \<noteq> R_MANIFEST_FORMAT_PLAIN \<and>
          (\<exists>text. cms_verify_sig (be_cms env) (bnd_sigdata b) store = Ok text \<and>
             load_manifest_mem (be_load env) (be_checksum env) (Some text) = Ok mf)) \<and>
     (case bnd_stream b of
        None \<Rightarrow> True
      | Some fd \<Rightarrow> bnd_exclusive_verified b \<longrightarrow> trust_env \<or> checked_access (be_files env) fd w)"

text \<open>The flags of a bundle whose signature was not looked at.\<close>

definition unverified :: "rauc_open_bundle \<Rightarrow> bool" where
  "unverified b \<longleftrightarrow> \<not> bnd_verification_disabled b \<and> \<not> bnd_signature_verified b \<and> \<not> bnd_payload_verified b \<and>
     \<not> bnd_exclusive_verified b \<and> bnd_manifest b = None \<and> bnd_mount_point b = None"

lemma locate_bundle_unverified:
  "locate_bundle env cfg access nm b w = (Ok b', w') \<Longrightarrow> unverified b \<Longrightarrow> bnd_stream b = None \<Longrightarrow>
     unverified b' \<and> bnd_stream b' = None"
  by (auto simp: locate_bundle_def unverified_def io_iff split: if_splits)

lemma open_bundle_data_unverified:
  "open_bundle_data env cfg b w = (Ok b', w') \<Longrightarrow> unverified b \<Longrightarrow> bnd_stream b = None \<Longrightarrow>
     unverified b' \<and> bnd_nbd_srv b' = bnd_nbd_srv b \<and> (bnd_stream b' = None \<longleftrightarrow> bnd_nbd_srv b \<noteq> None)"
  by (auto simp: open_bundle_data_def unverified_def io_iff split: option.splits prod.splits)

lemma decrypt_sigdata_unverified:
  "decrypt_sigdata cms cfg b = Ok b' \<Longrightarrow>
     (unverified b' \<longleftrightarrow> unverified b) \<and> bnd_stream b' = bnd_stream b \<and> bnd_nbd_srv b' = bnd_nbd_srv b"
  by (auto simp: decrypt_sigdata_def unverified_def result_bind_Ok_iff split: if_splits option.splits)

lemma check_exclusive_Ok:
  assumes "check_exclusive env trust_env b w = (Ok b', w')" and "unverified b"
  shows "\<exists>v e. b' = b\<lparr>bnd_exclusive_verified := v, bnd_exclusive_check_error := e\<rparr> \<and>
    (case bnd_stream b of None \<Rightarrow> True | Some fd \<Rightarrow> v \<longrightarrow> trust_env \<or> checked_access (be_files env) fd w')"
proof -
  show ?thesis
  proof (cases "bnd_stream b")
    case None
    then have "b' = b" using assms(1) by (simp add: check_exclusive_def io_iff)
    then show ?thesis using None assms(2)
      by (intro exI [of _ False] exI [of _ "bnd_exclusive_check_error b"]) (simp add: unverified_def)
  next
    case (Some fd)
    show ?thesis
    proof (cases trust_env)
      case True
      then have "b' = b\<lparr>bnd_exclusive_verified := True\<rparr>" using assms(1) Some by (simp add: check_exclusive_def io_iff)
      then show ?thesis using True Some
        by (intro exI [of _ True] exI [of _ "bnd_exclusive_check_error b"]) simp
    next
      case False
      then have "check_bundle_access (be_files env) fd w = (Ok (), w') \<and> b' = b\<lparr>bnd_exclusive_verified := True\<rparr> \<or>
          (\<exists>e. b' = b\<lparr>bnd_exclusive_check_error := Some e\<rparr>)"
        using assms(1) Some by (auto simp: check_exclusive_def io_iff split: if_splits)
      then show ?thesis
      proof (elim disjE conjE exE)
        assume "check_bundle_access (be_files env) fd w = (Ok (), w')" "b' = b\<lparr>bnd_exclusive_verified := True\<rparr>"
        then show ?thesis using Some
          by (intro exI [of _ True] exI [of _ "bnd_exclusive_check_error b"]) (simp add: checked_accessI)
      next
        fix e
        assume "b' = b\<lparr>bnd_exclusive_check_error := Some e\<rparr>"
        then show ?thesis using Some assms(2)
          by (intro exI [of _ False] exI [of _ "Some e"]) (simp add: unverified_def)
      qed
    qed
  qed
qed

text \<open>The store that was used.\<close>

definition store_of :: "('w, 'x) bundle_env \<Rightarrow> system_config \<Rightarrow> check_params \<Rightarrow> 'x result" where
  "store_of env cfg params = result_bind (cms_store (be_cms env) cfg) (\<lambda>s.
     Ok (if CHECK_BUNDLE_NO_CHECK_TIME params then cms_no_check_time (be_cms env) s else s))"

lemma verify_signature_Ok:
  assumes "verify_signature env cfg params detached b w = (Ok (b', text), w')" and "unverified b"
    and "detached \<longrightarrow> bnd_stream b \<noteq> None"
  shows "\<exists>store. store_of env cfg params = Ok store \<and> \<not> bnd_verification_disabled b' \<and> bnd_signature_verified b' \<and>
    bnd_manifest b' = None \<and> bnd_mount_point b' = None \<and> bnd_stream b' = bnd_stream b \<and> bnd_nbd_srv b' = bnd_nbd_srv b \<and>
    (case text of
       None \<Rightarrow> bnd_payload_verified b' \<and> (case bnd_stream b' of
            None \<Rightarrow> False
          | Some fd \<Rightarrow> cms_verify_fd (be_cms env) (take (unat (bnd_size b')) (vf_bytes (fo_content (be_files env) fd w')))
              (bnd_sigdata b') store = Ok () \<and>
              (CHECK_BUNDLE_TRUST_ENV params \<or> checked_access (be_files env) fd w'))
     | Some t \<Rightarrow> \<not> bnd_payload_verified b' \<and> cms_verify_sig (be_cms env) (bnd_sigdata b') store = Ok t) \<and>
    (case bnd_stream b' of
        None \<Rightarrow> True
      | Some fd \<Rightarrow> bnd_exclusive_verified b' \<longrightarrow> CHECK_BUNDLE_TRUST_ENV params \<or>
          checked_access (be_files env) fd w')"
proof -
  obtain s0 where s0: "cms_store (be_cms env) cfg = Ok s0"
    using assms(1) by (auto simp: verify_signature_def io_iff Let_def)
  define store where "store = (if CHECK_BUNDLE_NO_CHECK_TIME params then cms_no_check_time (be_cms env) s0 else s0)"
  let ?t = "CHECK_BUNDLE_TRUST_ENV params"
  have so: "store_of env cfg params = Ok store" using s0 by (simp add: store_of_def store_def)
  show ?thesis
  proof (cases detached)
    case True
    then obtain fd where fd: "bnd_stream b = Some fd" using assms(3) by auto
    obtain c w1 where "(if ?t then io_return () else enforce_bundle_exclusive (be_files env) fd) w = (Ok (), w')"
        "cms_verify_fd (be_cms env) (take (unat (bnd_size b)) (vf_bytes (fo_content (be_files env) fd w'))) (bnd_sigdata b) store = Ok ()"
        "b' = b\<lparr>bnd_signature_verified := True, bnd_payload_verified := True, bnd_exclusive_verified := True, bnd_verified_chain := c\<rparr>"
        "text = None"
      using assms(1) True s0 fd by (auto simp: verify_signature_def verify_detached_def io_iff Let_def store_def)
    then show ?thesis using so fd assms(2) enforce_bundle_exclusive_Ok
      by (auto simp: unverified_def io_iff split: if_splits)
  next
    case False
    then obtain b1 t c where b1: "check_exclusive env ?t b w = (Ok b1, w')" "cms_verify_sig (be_cms env) (bnd_sigdata b1) store = Ok t"
        "b' = b1\<lparr>bnd_signature_verified := True, bnd_payload_verified := False, bnd_verified_chain := c\<rparr>" "text = Some t"
      using assms(1) s0 by (auto simp: verify_signature_def verify_attached_def io_iff Let_def store_def)
    from check_exclusive_Ok [OF b1(1) assms(2)] obtain v e where
      "b1 = b\<lparr>bnd_exclusive_verified := v, bnd_exclusive_check_error := e\<rparr>"
      "case bnd_stream b of None \<Rightarrow> True | Some fd \<Rightarrow> v \<longrightarrow> ?t \<or> checked_access (be_files env) fd w'"
      by blast
    then show ?thesis using so b1 assms(2) by (auto simp: unverified_def split: option.splits)
  qed
qed

lemma check_bundle_verified:
  assumes "check_bundle env cfg params access nm w = (Ok b, w')" and "\<not> CHECK_BUNDLE_NO_VERIFY params"
  shows "\<exists>store. store_of env cfg params = Ok store \<and> authentic env (CHECK_BUNDLE_TRUST_ENV params) store b w' \<and>
    bnd_mount_point b = None \<and>
    and (cfg_bundle_formats_mask cfg)
      (format_bit (case bnd_manifest b of None \<Rightarrow> R_MANIFEST_FORMAT_PLAIN | Some mf \<Rightarrow> mf_bundle_format mf)) \<noteq> 0"
proof -
  let ?b0 = "bundle_new0\<lparr>bnd_verification_disabled := False\<rparr>"
  have b0: "unverified ?b0" "bnd_stream ?b0 = None" by (simp_all add: unverified_def bundle_new0_def)
  obtain b1 w1 b2 w2 detached b3 b4 mtext where steps:
      "locate_bundle env cfg access nm ?b0 w = (Ok b1, w1)"
      "open_bundle_data env cfg (b1\<lparr>bnd_storepath := store_path cfg b1\<rparr>) w1 = (Ok b2, w2)"
      "\<not> (detached \<and> bnd_nbd_srv b2 \<noteq> None)" "decrypt_sigdata (be_cms env) cfg b2 = Ok b3"
      "verify_signature env cfg params detached b3 w2 = (Ok (b4, mtext), w')"
      "load_external_manifest env b4 mtext = Ok b" "check_allowed_bundle_format cfg (bnd_manifest b) = Ok ()"
    using assms unfolding check_bundle_def Let_def
    by (clarsimp simp: io_iff split: prod.splits)
  have "unverified (b1\<lparr>bnd_storepath := p\<rparr>)" "bnd_stream (b1\<lparr>bnd_storepath := p\<rparr>) = None" for p
    using locate_bundle_unverified [OF steps(1) b0] by (simp_all add: unverified_def)
  from open_bundle_data_unverified [OF steps(2) this] decrypt_sigdata_unverified [OF steps(4)]
  have "unverified b3" "detached \<longrightarrow> bnd_stream b3 \<noteq> None" using steps(3) by auto
  from verify_signature_Ok [OF steps(5) this] steps(6,7) show ?thesis
    by (auto simp: load_external_manifest_def authentic_def check_allowed_bundle_format_def result_bind_Ok_iff Let_def
        split: option.splits)
qed

text \<open>
  C9. A bundle that \<open>check_bundle\<close> accepts with verification is authentic, and its format is allowed by
  the configuration. For a plain bundle the signature covers the whole payload as it is in the file,
  and, unless the caller trusts the environment (\<open>CHECK_BUNDLE_TRUST_ENV\<close>, where nothing about the file is
  checked), nobody but root and the own user can write to that file; otherwise the manifest that is
  used is the signed one. Exclusive access is recorded only after it was established, or when the
  environment is trusted.
\<close>

theorem check_bundle_authentic:
  assumes "check_bundle env cfg params access nm w = (Ok b, w')" and "\<not> CHECK_BUNDLE_NO_VERIFY params"
  shows "\<exists>store. store_of env cfg params = Ok store \<and> authentic env (CHECK_BUNDLE_TRUST_ENV params) store b w' \<and>
    and (cfg_bundle_formats_mask cfg)
      (format_bit (case bnd_manifest b of None \<Rightarrow> R_MANIFEST_FORMAT_PLAIN | Some mf \<Rightarrow> mf_bundle_format mf)) \<noteq> 0"
  using check_bundle_verified [OF assms] by blast

subsection \<open>A simulated signature scheme\<close>

text \<open>
  A detached signature is a 1 and a checksum of the content, an attached one is a 0 and the text. The
  store is trivial.
\<close>

definition byte_char :: "8 word \<Rightarrow> char" where
  "byte_char b = char_of (unat b)"

definition char_byte :: "char \<Rightarrow> 8 word" where
  "char_byte c = of_nat (of_char c)"

lemma byte_char_byte [simp]: "char_byte (byte_char b) = b"
proof -
  have "unat b < 256" using unsigned_less [of b, where ?'a = nat] by simp
  then show ?thesis by (simp add: byte_char_def char_byte_def)
qed

lemma char_byte_char [simp]: "byte_char (char_byte c) = c"
  by (simp add: byte_char_def char_byte_def unat_of_nat of_char_mod_256)

definition cms_sim :: "(rauc_manifest \<Rightarrow> string) \<Rightarrow> unit cms" where
  "cms_sim print = \<lparr>cms_is_detached = (\<lambda>s. Ok (s \<noteq> [] \<and> hd s = 1)), cms_is_envelopeddata = (\<lambda>s. s \<noteq> [] \<and> hd s = 2),
     cms_decrypt = (\<lambda>s c k. Ok (tl s)), cms_encrypt = (\<lambda>s r. Ok (2 # s)), cms_store = (\<lambda>cfg. Ok ()),
     cms_no_check_time = (\<lambda>s. s),
     cms_verify_fd = (\<lambda>data s st. fail_if (s \<noteq> [1, sum_list data]) (R_BUNDLE_ERROR R_BUNDLE_ERROR_SIGNATURE)),
     cms_verify_sig = (\<lambda>s st. if s \<noteq> [] \<and> hd s = 0 then Ok (map byte_char (tl s)) else Error (R_BUNDLE_ERROR R_BUNDLE_ERROR_SIGNATURE)),
     cms_get_cert_chain = (\<lambda>s st. Ok [s]), cms_get_unverified_manifest = (\<lambda>s. Ok (map byte_char (tl s))),
     cms_sign_file = (\<lambda>data c k i. Ok [1, sum_list data]),
     cms_sign_manifest = (\<lambda>mf c k i. Ok (0 # map char_byte (print mf))),
     cms_append_signature = (\<lambda>s c k i. Ok s)\<rparr>"

text \<open>Files of which only one exists; it belongs to root and is on the root file system.\<close>

definition root_stat :: file_stat where
  "root_stat = \<lparr>st_regular = True, st_uid = 0, st_perm = PERM_0644, st_dev = 1, st_rdev = 0\<rparr>"

definition file_sim :: "('w \<Rightarrow> vfile) \<Rightarrow> 'w file_ops" where
  "file_sim content = \<lparr>fo_open = (\<lambda>p f. Ok True), fo_content = (\<lambda>p. content), fo_fstat = (\<lambda>p f. Ok root_stat),
     fo_fstatfs = (\<lambda>p f. Ok EXT4_SUPER_MAGIC), fo_stat = (\<lambda>p f. Ok root_stat), fo_mounts = (\<lambda>f. []), fo_euid = 0,
     fo_fchown_root = (\<lambda>p. io_return ()), fo_fchmod = (\<lambda>p m. io_return ()), fo_setlease = (\<lambda>p l. io_return ()),
     fo_getlease = (\<lambda>p f. F_RDLCK)\<rparr>"

definition bundle_sim :: "(rauc_manifest \<Rightarrow> string) \<Rightarrow> (string \<Rightarrow> key_file result) \<Rightarrow> sha256 \<Rightarrow> (vfile, unit) bundle_env" where
  "bundle_sim print load sha = \<lparr>be_files = file_sim (\<lambda>f. f), be_cms = cms_sim print, be_sha256 = sha, be_load = load,
     be_checksum = (\<lambda>s. s), be_version = ''1.15'', be_streaming = False, be_network = False,
     be_start_server = (\<lambda>u a. io_fail G_SPAWN_ERROR_FAILED), be_download = (\<lambda>u n. io_fail G_SPAWN_ERROR_FAILED)\<rparr>"

definition check_demo_config :: system_config where
  "check_demo_config = config_new0\<lparr>cfg_max_bundle_signature_size := DEFAULT_MAX_BUNDLE_SIGNATURE_SIZE,
     cfg_bundle_formats_mask := 7, cfg_keyring_path := Some ''/etc/rauc/ca.pem''\<rparr>"

definition check_demo_params :: check_params where
  "check_demo_params = \<lparr>CHECK_BUNDLE_NO_VERIFY = False, CHECK_BUNDLE_NO_CHECK_TIME = False, CHECK_BUNDLE_TRUST_ENV = False\<rparr>"

definition plain_demo_file :: vfile where
  "plain_demo_file = bundle_demo_file\<lparr>vf_bytes := replicate 20 7 @ [1, 140] @ GUINT64_TO_BE 2\<rparr>"

abbreviation plain_demo_env :: "(vfile, unit) bundle_env" where
  "plain_demo_env \<equiv> bundle_sim (\<lambda>mf. []) (\<lambda>s. Ok []) (\<lambda>bs. bs)"

theorem check_bundle_authentic_witness:
  "\<exists>b w'. check_bundle plain_demo_env check_demo_config check_demo_params None ''b.raucb'' plain_demo_file = (Ok b, w') \<and>
     (\<exists>store. store_of plain_demo_env check_demo_config check_demo_params = Ok store \<and> authentic plain_demo_env False store b w')"
proof -
  have "is_ok (fst (check_bundle plain_demo_env check_demo_config check_demo_params None ''b.raucb'' plain_demo_file))"
    by code_simp
  then obtain b w' where run:
    "check_bundle plain_demo_env check_demo_config check_demo_params None ''b.raucb'' plain_demo_file = (Ok b, w')"
    by (metis is_ok_iff prod.collapse)
  have "\<not> CHECK_BUNDLE_NO_VERIFY check_demo_params" "CHECK_BUNDLE_TRUST_ENV check_demo_params = False"
    by (simp_all add: check_demo_params_def)
  with check_bundle_authentic [OF run] run show ?thesis by auto
qed

end
