(* ===== verification/Bundle_Devices.thy ===== *)
theory Bundle_Devices
  imports Config_File
begin

text \<open>
  The block devices below a mounted bundle: loop devices and mounts (\<open>src/src/mount.c\<close>) and the
  device mapper (\<open>src/src/dm.c\<close>). The kernel calls are parameters; a call that RAUC repeats on
  \<open>EAGAIN\<close> is one call here.
\<close>

subsection \<open>Loop devices\<close>

datatype loop_outcome = Loop_Ok | Loop_Retry | Loop_Failed g_file_error

record 'w loop_ops =
  lo_open_control :: "('w, unit) io"
  lo_get_free :: "('w, nat) io"
  lo_open :: "string \<Rightarrow> 'w \<Rightarrow> loop_outcome \<times> 'w"
  lo_set_fd :: "string \<Rightarrow> string \<Rightarrow> 'w \<Rightarrow> loop_outcome \<times> 'w"
  lo_set_status :: "string \<Rightarrow> 64 word \<Rightarrow> ('w, unit) io"
  lo_clr_fd :: "string \<Rightarrow> 'w \<Rightarrow> 'w"
  lo_set_block_size :: "string \<Rightarrow> 'w \<Rightarrow> 'w"

text \<open>\<open>lo_open\<close> fails with \<open>ENOENT\<close> or \<open>ENXIO\<close>, \<open>lo_set_fd\<close> with \<open>EBUSY\<close> when the device was taken
  by somebody else: the next one is tried.\<close>

fun claim_loop :: "'w loop_ops \<Rightarrow> string \<Rightarrow> nat \<Rightarrow> ('w, string) io" where
  "claim_loop lo fd 0 = io_fail (G_FILE_ERROR (G_FILE_ERROR_OTHER 16))"
| "claim_loop lo fd (Suc tries) =
     io_bind (lo_get_free lo) (\<lambda>loopidx w.
       let loopname = ''/dev/loop'' @ nat_str 10 loopidx in
       case lo_open lo loopname w of
         (Loop_Failed e, w1) \<Rightarrow> (Error (G_FILE_ERROR e), w1)
       | (Loop_Retry, w1) \<Rightarrow> claim_loop lo fd tries w1
       | (Loop_Ok, w1) \<Rightarrow> (case lo_set_fd lo loopname fd w1 of
           (Loop_Failed e, w2) \<Rightarrow> (Error (G_FILE_ERROR e), w2)
         | (Loop_Retry, w2) \<Rightarrow> claim_loop lo fd tries w2
         | (Loop_Ok, w2) \<Rightarrow> (Ok loopname, w2)))"

definition r_setup_loop :: "'w loop_ops \<Rightarrow> string \<Rightarrow> 64 word \<Rightarrow> ('w, string) io" where
  "r_setup_loop lo fd sz =
     (if \<not> sint sz > 0 then io_fail ERROR_UNSET
      else io_bind (lo_open_control lo) (\<lambda>_.
        io_bind (claim_loop lo fd 10) (\<lambda>loopname.
        io_bind (io_catch (lo_set_status lo loopname sz) (\<lambda>e w. (Error e, lo_clr_fd lo loopname w))) (\<lambda>_ w.
          (Ok loopname, lo_set_block_size lo loopname w)))))"

subsection \<open>Mounting\<close>

text \<open>The system calls \<open>mount\<close> and \<open>umount2\<close> are parameters with their flags; they fail with the error of \<open>errno\<close>.\<close>

datatype mount_flag = MS_NODEV | MS_NOSUID | MS_RDONLY | UMOUNT_NOFOLLOW

type_synonym 'w mount_call = "string \<Rightarrow> string \<Rightarrow> string \<Rightarrow> mount_flag list \<Rightarrow> ('w, unit) io"
type_synonym 'w umount_call = "string \<Rightarrow> mount_flag list \<Rightarrow> ('w, unit) io"

definition r_mount_bundle :: "'w mount_call \<Rightarrow> string \<Rightarrow> string \<Rightarrow> ('w, unit) io" where
  "r_mount_bundle mount source mountpoint = mount source mountpoint ''squashfs'' [MS_NODEV, MS_NOSUID, MS_RDONLY]"

definition r_umount_bundle :: "'w umount_call \<Rightarrow> string \<Rightarrow> ('w, unit) io" where
  "r_umount_bundle umount2 mountpoint = umount2 mountpoint [UMOUNT_NOFOLLOW]"

subsection \<open>Device mapper\<close>

datatype dm_type = RAUC_DM_VERITY | RAUC_DM_CRYPT

record rauc_dm =
  dm_type :: dm_type
  dm_uuid :: string
  dm_lower_dev :: "string option"
  dm_upper_dev :: "string option"
  dm_data_size :: "64 word"
  dm_root_digest :: "string option"
  dm_salt :: "string option"
  dm_key :: "string option"

definition dm_new :: "dm_type \<Rightarrow> string \<Rightarrow> rauc_dm" where
  "dm_new t uuid = \<lparr>dm_type = t, dm_uuid = uuid, dm_lower_dev = None, dm_upper_dev = None, dm_data_size = 0,
     dm_root_digest = None, dm_salt = None, dm_key = None\<rparr>"

definition r_dm_new_verity :: "string \<Rightarrow> rauc_dm" where
  "r_dm_new_verity uuid = dm_new RAUC_DM_VERITY uuid"

definition r_dm_new_crypt :: "string \<Rightarrow> rauc_dm" where
  "r_dm_new_crypt uuid = dm_new RAUC_DM_CRYPT uuid"

fun dmtype_to_str :: "dm_type \<Rightarrow> string" where
  "dmtype_to_str RAUC_DM_VERITY = ''verity''"
| "dmtype_to_str RAUC_DM_CRYPT = ''crypt''"

fun dm_device_name :: "dm_type \<Rightarrow> string" where
  "dm_device_name RAUC_DM_VERITY = ''rauc-verity-bundle''"
| "dm_device_name RAUC_DM_CRYPT = ''rauc-crypt-bundle''"

definition check_status :: "dm_type \<Rightarrow> string \<Rightarrow> unit result" where
  "check_status t params =
     (let parts = g_strsplit params (CHR '' '') in
      case t of
        RAUC_DM_VERITY \<Rightarrow> (case parts of
            [] \<Rightarrow> Error (G_FILE_ERROR G_FILE_ERROR_FAILED)
          | p # _ \<Rightarrow> fail_if (p \<noteq> ''V'') (G_FILE_ERROR G_FILE_ERROR_FAILED))
      | RAUC_DM_CRYPT \<Rightarrow> fail_if (parts \<noteq> []) (G_FILE_ERROR G_FILE_ERROR_FAILED))"

text \<open>\<open>printf\<close> shows a NULL string as \<open>(null)\<close>.\<close>

definition printed :: "string option \<Rightarrow> string" where
  "printed s = (case s of None \<Rightarrow> ''(null)'' | Some t \<Rightarrow> t)"

definition dm_params :: "rauc_dm \<Rightarrow> string" where
  "dm_params dm = (case dm_type dm of
      RAUC_DM_VERITY \<Rightarrow>
        let dev = printed (dm_lower_dev dm); n = nat_str 10 (unat (dm_data_size dm div 4096)) in
        g_strjoinv '' '' [''1'', dev, dev, ''4096'', ''4096'', n, n, ''sha256'', printed (dm_root_digest dm), printed (dm_salt dm)]
    | RAUC_DM_CRYPT \<Rightarrow>
        g_strjoinv '' '' [''aes-cbc-plain64'', printed (dm_key dm), ''0'', printed (dm_lower_dev dm), ''0'', ''1'', ''sector_size:4096''])"

record 'w dm_ops =
  dmo_open_control :: "('w, unit) io"
  dmo_create :: "string \<Rightarrow> string \<Rightarrow> ('w, unit) io"
  dmo_table_load :: "string \<Rightarrow> 64 word \<Rightarrow> string \<Rightarrow> string \<Rightarrow> ('w, unit) io"
  dmo_resume :: "string \<Rightarrow> ('w, nat) io"
  dmo_check_read :: "string \<Rightarrow> ('w, unit) io"
  dmo_status :: "string \<Rightarrow> ('w, string) io"
  dmo_remove :: "string \<Rightarrow> bool \<Rightarrow> ('w, unit) io"

definition dm_configure :: "'w dm_ops \<Rightarrow> rauc_dm \<Rightarrow> ('w, rauc_dm) io" where
  "dm_configure dmo dm =
     io_bind (io_lift (fail_if (length (dm_params dm) \<ge> 1024) (G_FILE_ERROR G_FILE_ERROR_FAILED))) (\<lambda>_.
     io_bind (dmo_table_load dmo (dm_uuid dm) (dm_data_size dm div 512) (dmtype_to_str (dm_type dm)) (dm_params dm)) (\<lambda>_.
     io_bind (dmo_resume dmo (dm_uuid dm)) (\<lambda>minor.
     let dev = ''/dev/dm-'' @ nat_str 10 minor in
     io_bind (dmo_check_read dmo dev) (\<lambda>_.
     io_bind (dmo_status dmo (dm_uuid dm)) (\<lambda>params.
     io_bind (io_lift (check_status (dm_type dm) params)) (\<lambda>_.
       io_return (dm\<lparr>dm_upper_dev := Some dev\<rparr>)))))))"

definition r_dm_setup :: "'w dm_ops \<Rightarrow> rauc_dm \<Rightarrow> ('w, rauc_dm) io" where
  "r_dm_setup dmo dm =
     (if dm_lower_dev dm = None \<or> dm_upper_dev dm \<noteq> None \<or> dm_data_size dm = 0 then io_fail ERROR_UNSET
      else if dm_data_size dm mod 4096 \<noteq> 0 then io_fail (G_FILE_ERROR G_FILE_ERROR_FAILED)
      else io_bind (dmo_open_control dmo) (\<lambda>_.
        io_bind (dmo_create dmo (dm_device_name (dm_type dm)) (dm_uuid dm)) (\<lambda>_.
          io_catch (dm_configure dmo dm) (\<lambda>e.
            io_bind (io_catch (dmo_remove dmo (dm_uuid dm) False) (\<lambda>_. io_return ())) (\<lambda>_. io_fail e)))))"

definition r_dm_remove :: "'w dm_ops \<Rightarrow> rauc_dm \<Rightarrow> bool \<Rightarrow> ('w, rauc_dm) io" where
  "r_dm_remove dmo dm deferred =
     (if dm_lower_dev dm = None \<or> dm_upper_dev dm = None \<or> dm_data_size dm = 0 \<or> dm_data_size dm mod 4096 \<noteq> 0 \<or>
         (case dm_type dm of
            RAUC_DM_VERITY \<Rightarrow> dm_root_digest dm = None \<or> dm_salt dm = None
          | RAUC_DM_CRYPT \<Rightarrow> dm_key dm = None) then io_fail ERROR_UNSET
      else io_bind (dmo_open_control dmo) (\<lambda>_.
        io_bind (dmo_remove dmo (dm_uuid dm) deferred) (\<lambda>_. io_return (dm\<lparr>dm_upper_dev := None\<rparr>))))"

lemma mod_4096_dvd: "(x :: 64 word) mod 4096 = 0 \<Longrightarrow> 4096 dvd unat x"
proof -
  assume "x mod 4096 = 0"
  moreover have "unat (x mod 4096) = unat x mod 4096" by (simp add: unat_mod)
  ultimately show ?thesis by (simp add: dvd_eq_mod_eq_0)
qed

end
