(* ===== verification/Bundle_Mount.thy ===== *)
theory Bundle_Mount
  imports Bundle_Check Bundle_Devices
begin

text \<open>
  Mounting a bundle (\<open>src/src/bundle.c\<close>): the loop or NBD device, the dm-verity and dm-crypt layers, and
  the squashfs mount. What is mounted for a bundle with a verified signature is always covered by that
  signature; this is stated over the trace of the device operations.
\<close>

subsection \<open>Operations\<close>

text \<open>
  The devices: a loop device for a file and a size, an NBD device for a size, and the two dm operations.
  \<open>mo_reads\<close> are the results of reading a device completely in chunks of 64 KiB.
\<close>

record 'w mount_ops =
  mo_setup_loop :: "string \<Rightarrow> 64 word \<Rightarrow> ('w, string) io"
  mo_setup_nbd :: "64 word \<Rightarrow> ('w, string) io"
  mo_remove_nbd :: "('w, unit) io"
  mo_stop_server :: "('w, unit) io"
  mo_dm_setup :: "rauc_dm \<Rightarrow> ('w, rauc_dm) io"
  mo_dm_remove :: "rauc_dm \<Rightarrow> bool \<Rightarrow> ('w, rauc_dm) io"
  mo_reads :: "'w reader"
  mo_mount :: "string \<Rightarrow> string \<Rightarrow> ('w, unit) io"
  mo_umount :: "string \<Rightarrow> ('w, unit) io"
  mo_create_mount_point :: "string \<Rightarrow> ('w, string) io"
  mo_rmdir :: "string \<Rightarrow> 'w \<Rightarrow> 'w"
  mo_load_manifest :: "string \<Rightarrow> 'w \<Rightarrow> rauc_manifest result"
  mo_uuid :: "nat \<Rightarrow> string"

text \<open>The operations of the program, on the kernel's loop devices and device mapper.\<close>

definition kernel_mount_ops :: "'w os \<Rightarrow> 'w loop_ops \<Rightarrow> 'w dm_ops \<Rightarrow> (64 word \<Rightarrow> ('w, string) io) \<Rightarrow> ('w, unit) io
    \<Rightarrow> ('w, unit) io \<Rightarrow> 'w reader \<Rightarrow> 'w mount_call \<Rightarrow> 'w umount_call
    \<Rightarrow> ('w, 'x) bundle_env \<Rightarrow> system_config \<Rightarrow> (nat \<Rightarrow> string) \<Rightarrow> 'w mount_ops" where
  "kernel_mount_ops os lo dmo nbd nbd_remove stop reads mount umount env cfg uuid =
     \<lparr>mo_setup_loop = r_setup_loop lo, mo_setup_nbd = nbd, mo_remove_nbd = nbd_remove, mo_stop_server = stop,
      mo_dm_setup = r_dm_setup dmo, mo_dm_remove = r_dm_remove dmo, mo_reads = reads, mo_mount = r_mount_bundle mount,
      mo_umount = r_umount_bundle umount,
      mo_create_mount_point = r_create_mount_point os (rauc_config.truncate cfg), mo_rmdir = os_rmdir os,
      mo_load_manifest = load_manifest_file os (be_load env) (be_checksum env), mo_uuid = uuid\<rparr>"

subsection \<open>The code\<close>

fun read_chunks :: "read_result list \<Rightarrow> unit result" where
  "read_chunks [] = Ok ()"
| "read_chunks (Read_Failed e # rs) = Error e"
| "read_chunks (Read_Bytes buf # rs) = (if buf = [] then Ok () else read_chunks rs)"

definition read_complete_dm_device :: "'w mount_ops \<Rightarrow> string \<Rightarrow> ('w, unit) io" where
  "read_complete_dm_device mo dev = ask (\<lambda>w. result_bind (mo_reads mo dev w) read_chunks)"

text \<open>Removing a dm device with the error only logged; an unset error is a NULL pointer there.\<close>

definition remove_dm :: "'w mount_ops \<Rightarrow> rauc_dm \<Rightarrow> bool \<Rightarrow> ('w, unit) io" where
  "remove_dm mo dm deferred = io_bind (io_warn (mo_dm_remove mo dm deferred)) (\<lambda>_. io_return ())"

definition verity_layer :: "'w mount_ops \<Rightarrow> rauc_open_bundle \<Rightarrow> rauc_manifest \<Rightarrow> string \<Rightarrow> rauc_dm" where
  "verity_layer mo b mf loopname = (r_dm_new_verity (mo_uuid mo 0))
     \<lparr>dm_lower_dev := Some loopname, dm_data_size := bnd_size b - mf_bundle_verity_size mf,
      dm_root_digest := mf_bundle_verity_hash mf, dm_salt := mf_bundle_verity_salt mf\<rparr>"

definition crypt_layer :: "'w mount_ops \<Rightarrow> rauc_open_bundle \<Rightarrow> rauc_manifest \<Rightarrow> rauc_dm \<Rightarrow> rauc_dm" where
  "crypt_layer mo b mf dm_verity = (r_dm_new_crypt (mo_uuid mo 1))
     \<lparr>dm_lower_dev := dm_upper_dev dm_verity, dm_data_size := bnd_size b - mf_bundle_verity_size mf,
      dm_key := mf_bundle_crypt_key mf\<rparr>"

text \<open>Mount the upper device, then mark the layers for removal; the outcome is that of the mount.\<close>

definition mount_layers :: "'w mount_ops \<Rightarrow> rauc_dm \<Rightarrow> rauc_dm list \<Rightarrow> string \<Rightarrow> ('w, unit) io" where
  "mount_layers mo upper layers mount_point w = (case mo_mount mo (printed (dm_upper_dev upper)) mount_point w of
      (Abort, w1) \<Rightarrow> (Abort, w1)
    | (r, w1) \<Rightarrow> (case fold (\<lambda>dm m. io_bind m (\<lambda>_. remove_dm mo dm True)) layers (io_return ()) w1 of
        (Ok _, w2) \<Rightarrow> (r, w2)
      | (e, w2) \<Rightarrow> (e, w2)))"

definition pre_check :: "'w mount_ops \<Rightarrow> system_config \<Rightarrow> rauc_dm \<Rightarrow> (rauc_dm \<times> bool) list \<Rightarrow> ('w, unit) io" where
  "pre_check mo cfg upper layers =
     (if cfg_perform_pre_check cfg then
        io_catch (read_complete_dm_device mo (printed (dm_upper_dev upper))) (\<lambda>e.
          io_bind (fold (\<lambda>(dm, deferred) m. io_bind m (\<lambda>_. remove_dm mo dm deferred)) layers (io_return ())) (\<lambda>_. io_fail e))
      else io_return ())"

definition prepare_verity :: "'w mount_ops \<Rightarrow> system_config \<Rightarrow> string \<Rightarrow> rauc_open_bundle \<Rightarrow> rauc_manifest \<Rightarrow> string
    \<Rightarrow> string \<Rightarrow> ('w, rauc_manifest) io" where
  "prepare_verity mo cfg version b mf loopname mount_point =
     io_bind (io_lift (check_manifest_external version mf)) (\<lambda>mf.
     io_bind (mo_dm_setup mo (verity_layer mo b mf loopname)) (\<lambda>dm_verity.
     io_bind (pre_check mo cfg dm_verity [(dm_verity, False)]) (\<lambda>_.
     io_bind (mount_layers mo dm_verity [dm_verity] mount_point) (\<lambda>_.
       io_return mf))))"

definition prepare_crypt :: "'w mount_ops \<Rightarrow> system_config \<Rightarrow> string \<Rightarrow> rauc_open_bundle \<Rightarrow> rauc_manifest \<Rightarrow> string
    \<Rightarrow> string \<Rightarrow> ('w, rauc_manifest) io" where
  "prepare_crypt mo cfg version b mf loopname mount_point =
     io_bind (io_lift (check_manifest_external version mf)) (\<lambda>mf.
     io_bind (mo_dm_setup mo (verity_layer mo b mf loopname)) (\<lambda>dm_verity.
     io_bind (io_catch (mo_dm_setup mo (crypt_layer mo b mf dm_verity))
         (\<lambda>e. io_bind (remove_dm mo dm_verity False) (\<lambda>_. io_fail e))) (\<lambda>dm_crypt.
     io_bind (pre_check mo cfg dm_crypt [(dm_crypt, True), (dm_verity, True)]) (\<lambda>_.
     io_bind (mount_layers mo dm_crypt [dm_crypt, dm_verity] mount_point) (\<lambda>_.
       io_return mf)))))"

text \<open>The device with the payload. A streaming bundle needs a build with streaming.\<close>

definition setup_device :: "'w mount_ops \<Rightarrow> bool \<Rightarrow> rauc_open_bundle \<Rightarrow> ('w, string) io" where
  "setup_device mo streaming b = (case bnd_stream b of
      Some fd \<Rightarrow> mo_setup_loop mo fd (bnd_size b)
    | None \<Rightarrow> if streaming \<and> bnd_nbd_srv b \<noteq> None then mo_setup_nbd mo (bnd_size b) else io_abort)"

definition check_plain_manifest :: "'w mount_ops \<Rightarrow> string \<Rightarrow> string \<Rightarrow> ('w, rauc_manifest) io" where
  "check_plain_manifest mo version mount_point =
     io_bind (ask (mo_load_manifest mo (g_build_filename mount_point ''manifest.raucm''))) (\<lambda>mf.
     io_bind (io_lift (check_manifest_internal version mf)) (\<lambda>mf.
     io_bind (io_lift (fail_if (mf_bundle_format mf \<noteq> R_MANIFEST_FORMAT_PLAIN) (R_BUNDLE_ERROR R_BUNDLE_ERROR_PAYLOAD))) (\<lambda>_.
       io_return mf)))"

definition mount_plain :: "'w mount_ops \<Rightarrow> string \<Rightarrow> rauc_open_bundle \<Rightarrow> string \<Rightarrow> string \<Rightarrow> ('w, rauc_manifest) io" where
  "mount_plain mo version b loopname mount_point =
     (if \<not> bnd_payload_verified b \<and> \<not> bnd_verification_disabled b then io_abort
      else io_bind (mo_mount mo loopname mount_point) (\<lambda>_.
        io_catch (check_plain_manifest mo version mount_point) (\<lambda>e.
          io_bind (io_warn (mo_umount mo mount_point)) (\<lambda>_. io_fail e))))"

definition mount_device :: "'w mount_ops \<Rightarrow> system_config \<Rightarrow> string \<Rightarrow> bool \<Rightarrow> rauc_open_bundle \<Rightarrow> string \<Rightarrow> ('w, rauc_manifest) io" where
  "mount_device mo cfg version streaming b mount_point =
     io_bind (setup_device mo streaming b) (\<lambda>loopname.
       case bnd_manifest b of
         None \<Rightarrow> mount_plain mo version b loopname mount_point
       | Some mf \<Rightarrow> (case mf_bundle_format mf of
             R_MANIFEST_FORMAT_VERITY \<Rightarrow> prepare_verity mo cfg version b mf loopname mount_point
           | R_MANIFEST_FORMAT_CRYPT \<Rightarrow> prepare_crypt mo cfg version b mf loopname mount_point
           | R_MANIFEST_FORMAT_PLAIN \<Rightarrow> io_abort))"

text \<open>The bundle gets its mount point and, in the plain format, its manifest only on success.\<close>

definition mount_bundle :: "'w mount_ops \<Rightarrow> system_config \<Rightarrow> string \<Rightarrow> bool \<Rightarrow> rauc_open_bundle \<Rightarrow> 'w
    \<Rightarrow> (unit result \<times> rauc_open_bundle) \<times> 'w" where
  "mount_bundle mo cfg version streaming b w =
     (if bnd_mount_point b \<noteq> None then ((Abort, b), w)
      else case mo_create_mount_point mo ''bundle'' w of
        (Error e, w1) \<Rightarrow> ((Error e, b), w1)
      | (Abort, w1) \<Rightarrow> ((Abort, b), w1)
      | (Ok mount_point, w1) \<Rightarrow>
          if \<not> bnd_signature_verified b \<and> \<not> bnd_verification_disabled b then ((Abort, b), w1)
          else case mount_device mo cfg version streaming b mount_point w1 of
            (Ok mf, w2) \<Rightarrow> ((Ok (), b\<lparr>bnd_manifest := Some mf, bnd_mount_point := Some mount_point\<rparr>), w2)
          | (Error e, w2) \<Rightarrow> ((Error e, b), mo_rmdir mo mount_point w2)
          | (Abort, w2) \<Rightarrow> ((Abort, b), w2))"

definition umount_bundle :: "'w mount_ops \<Rightarrow> bool \<Rightarrow> rauc_open_bundle \<Rightarrow> ('w, rauc_open_bundle) io" where
  "umount_bundle mo streaming b = (case bnd_mount_point b of
      None \<Rightarrow> io_abort
    | Some mount_point \<Rightarrow>
        io_bind (mo_umount mo mount_point) (\<lambda>_ w.
          io_bind (if streaming \<and> bnd_stream b = None then mo_remove_nbd mo else io_return ()) (\<lambda>_.
          io_bind (if streaming \<and> bnd_nbd_srv b \<noteq> None then mo_stop_server mo else io_return ()) (\<lambda>_.
            io_return (b\<lparr>bnd_mount_point := None\<rparr>))) (mo_rmdir mo mount_point w)))"


subsection \<open>The trace of a mount\<close>

text \<open>
  The calls to the kernel on the way to a mount, the newest first: the file and the size given to a loop
  device (\<open>LOOP_SET_FD\<close>, \<open>LOOP_SET_STATUS64\<close>), an NBD device, the table loaded into a dm device
  (\<open>DM_TABLE_LOAD\<close>), the number of the dm device (\<open>DM_DEV_SUSPEND\<close> resumes it), and each \<open>mount\<close>.
\<close>

datatype mount_event = Ev_Set_Fd string string | Ev_Set_Status string "64 word" | Ev_Nbd "64 word" string
  | Ev_Table string "64 word" string string | Ev_Resume string nat | Ev_Mount string

text \<open>A successful call leaves an event; an attempt to mount always does.\<close>

definition record_ok :: "('a \<Rightarrow> mount_event list) \<Rightarrow> ('w, 'a) io \<Rightarrow> ('w \<times> mount_event list, 'a) io" where
  "record_ok ev m s = (case m (fst s) of (r, w) \<Rightarrow> (r, w, (case r of Ok x \<Rightarrow> ev x | _ \<Rightarrow> []) @ snd s))"

definition record_call :: "mount_event list \<Rightarrow> ('w, 'a) io \<Rightarrow> ('w \<times> mount_event list, 'a) io" where
  "record_call evs m s = (case m (fst s) of (r, w) \<Rightarrow> (r, w, evs @ snd s))"

definition traced_loop :: "'w loop_ops \<Rightarrow> ('w \<times> mount_event list) loop_ops" where
  "traced_loop lo = \<lparr>
     lo_open_control = record_call [] (lo_open_control lo), lo_get_free = record_call [] (lo_get_free lo),
     lo_open = (\<lambda>n s. case lo_open lo n (fst s) of (r, w) \<Rightarrow> (r, w, snd s)),
     lo_set_fd = (\<lambda>n fd s. case lo_set_fd lo n fd (fst s) of
        (r, w) \<Rightarrow> (r, w, (if r = Loop_Ok then [Ev_Set_Fd n fd] else []) @ snd s)),
     lo_set_status = (\<lambda>n sz. record_ok (\<lambda>_. [Ev_Set_Status n sz]) (lo_set_status lo n sz)),
     lo_clr_fd = (\<lambda>n s. (lo_clr_fd lo n (fst s), snd s)),
     lo_set_block_size = (\<lambda>n s. (lo_set_block_size lo n (fst s), snd s))\<rparr>"

definition traced_dm :: "'w dm_ops \<Rightarrow> ('w \<times> mount_event list) dm_ops" where
  "traced_dm dmo = \<lparr>
     dmo_open_control = record_call [] (dmo_open_control dmo), dmo_create = (\<lambda>n u. record_call [] (dmo_create dmo n u)),
     dmo_table_load = (\<lambda>u n t p. record_ok (\<lambda>_. [Ev_Table u n t p]) (dmo_table_load dmo u n t p)),
     dmo_resume = (\<lambda>u. record_ok (\<lambda>minor. [Ev_Resume u minor]) (dmo_resume dmo u)),
     dmo_check_read = (\<lambda>d. record_call [] (dmo_check_read dmo d)), dmo_status = (\<lambda>u. record_call [] (dmo_status dmo u)),
     dmo_remove = (\<lambda>u d. record_call [] (dmo_remove dmo u d))\<rparr>"

definition traced_mount :: "'w mount_call \<Rightarrow> ('w \<times> mount_event list) mount_call" where
  "traced_mount mnt source mountpoint fstype flags = record_call [Ev_Mount source] (mnt source mountpoint fstype flags)"

text \<open>RAUC's operations on the traced kernel, with the other operations of \<open>mo\<close>.\<close>

definition traced :: "'w loop_ops \<Rightarrow> 'w dm_ops \<Rightarrow> 'w mount_call \<Rightarrow> 'w mount_ops \<Rightarrow> ('w \<times> mount_event list) mount_ops" where
  "traced lo dmo mnt mo = \<lparr>
     mo_setup_loop = r_setup_loop (traced_loop lo),
     mo_setup_nbd = (\<lambda>sz. record_ok (\<lambda>dev. [Ev_Nbd sz dev]) (mo_setup_nbd mo sz)),
     mo_remove_nbd = record_call [] (mo_remove_nbd mo), mo_stop_server = record_call [] (mo_stop_server mo),
     mo_dm_setup = r_dm_setup (traced_dm dmo), mo_dm_remove = r_dm_remove (traced_dm dmo),
     mo_reads = (\<lambda>dev s. mo_reads mo dev (fst s)), mo_mount = r_mount_bundle (traced_mount mnt),
     mo_umount = (\<lambda>mp. record_call [] (mo_umount mo mp)),
     mo_create_mount_point = (\<lambda>nm. record_call [] (mo_create_mount_point mo nm)),
     mo_rmdir = (\<lambda>mp s. (mo_rmdir mo mp (fst s), snd s)), mo_load_manifest = (\<lambda>p s. mo_load_manifest mo p (fst s)),
     mo_uuid = mo_uuid mo\<rparr>"

text \<open>The device below all layers holds the payload of the bundle.\<close>

fun base_device :: "rauc_open_bundle \<Rightarrow> mount_event list \<Rightarrow> string option" where
  "base_device b [Ev_Set_Status n sz, Ev_Set_Fd n' fd] =
     (if n = n' \<and> bnd_stream b = Some fd \<and> sz = bnd_size b then Some n else None)"
| "base_device b [Ev_Nbd sz dev] = (if bnd_stream b = None \<and> bnd_nbd_srv b \<noteq> None \<and> sz = bnd_size b then Some dev else None)"
| "base_device b _ = None"

text \<open>
  The tables of the two targets as the kernel documents them. A verity table names the data and the hash
  device, here the same one, the sizes of their blocks, the number of data blocks, the block at which
  the hash tree starts, the hash algorithm, the root hash and the salt; a crypt table the cipher, the
  key, the offset of the initialisation vectors, the device, the start on it, and one option.
\<close>

definition verity_table :: "string \<Rightarrow> nat \<Rightarrow> string \<Rightarrow> string \<Rightarrow> string" where
  "verity_table lower blocks root_hash salt = ''1 '' @ lower @ '' '' @ lower @ '' 4096 4096 '' @ nat_str 10 blocks @ '' '' @
     nat_str 10 blocks @ '' sha256 '' @ root_hash @ '' '' @ salt"

definition crypt_table :: "string \<Rightarrow> string \<Rightarrow> string" where
  "crypt_table lower key = ''aes-cbc-plain64 '' @ key @ '' 0 '' @ lower @ '' 0 1 sector_size:4096''"

definition dm_device :: "nat \<Rightarrow> string" where
  "dm_device minor = ''/dev/dm-'' @ nat_str 10 minor"

text \<open>The size of the data in front of the hash tree, in bytes.\<close>

definition payload_size :: "rauc_open_bundle \<Rightarrow> rauc_manifest \<Rightarrow> nat" where
  "payload_size b mf = unat (bnd_size b - mf_bundle_verity_size mf)"

text \<open>The dm-verity device on the payload with the root hash and salt of the manifest, and on it the
  dm-crypt device with the manifest's key.\<close>

fun verity_device :: "rauc_open_bundle \<Rightarrow> rauc_manifest \<Rightarrow> mount_event list \<Rightarrow> string option" where
  "verity_device b mf (Ev_Resume u minor # Ev_Table u' sectors target params # tr) =
     (case (base_device b tr, mf_bundle_verity_hash mf, mf_bundle_verity_salt mf) of
        (Some lower, Some root_hash, Some salt) \<Rightarrow>
          if u = u' \<and> target = ''verity'' \<and> hex32 (Some root_hash) \<and> hex32 (Some salt) \<and>
             0 < payload_size b mf \<and> 4096 dvd payload_size b mf \<and> 512 * unat sectors = payload_size b mf \<and>
             params = verity_table lower (payload_size b mf div 4096) root_hash salt
          then Some (dm_device minor) else None
      | _ \<Rightarrow> None)"
| "verity_device b mf _ = None"

fun crypt_device :: "rauc_open_bundle \<Rightarrow> rauc_manifest \<Rightarrow> mount_event list \<Rightarrow> string option" where
  "crypt_device b mf (Ev_Resume u minor # Ev_Table u' sectors target params # tr) =
     (case (verity_device b mf tr, mf_bundle_crypt_key mf) of
        (Some lower, Some key) \<Rightarrow>
          if u = u' \<and> target = ''crypt'' \<and> hex32 (Some key) \<and> 512 * unat sectors = payload_size b mf \<and>
             params = crypt_table lower key
          then Some (dm_device minor) else None
      | _ \<Rightarrow> None)"
| "crypt_device b mf _ = None"

text \<open>The device with this name gives access to verified data only.\<close>

definition covered :: "rauc_open_bundle \<Rightarrow> mount_event list \<Rightarrow> string \<Rightarrow> bool" where
  "covered b tr dev \<longleftrightarrow> (case bnd_manifest b of
      None \<Rightarrow> bnd_payload_verified b \<and> base_device b tr = Some dev
    | Some mf \<Rightarrow> (case mf_bundle_format mf of
          R_MANIFEST_FORMAT_PLAIN \<Rightarrow> False
        | R_MANIFEST_FORMAT_VERITY \<Rightarrow> verity_device b mf tr = Some dev
        | R_MANIFEST_FORMAT_CRYPT \<Rightarrow> crypt_device b mf tr = Some dev))"

fun mounts_covered :: "rauc_open_bundle \<Rightarrow> mount_event list \<Rightarrow> bool" where
  "mounts_covered b [] \<longleftrightarrow> True"
| "mounts_covered b (Ev_Mount dev # tr) \<longleftrightarrow> covered b tr dev \<and> mounts_covered b tr"
| "mounts_covered b (_ # tr) \<longleftrightarrow> mounts_covered b tr"

subsection \<open>Reasoning about traces\<close>

text \<open>A program whose trace satisfies \<open>Q\<close> after a success and \<open>E\<close> after any other outcome.\<close>

definition traces :: "(mount_event list \<Rightarrow> bool) \<Rightarrow> ('w \<times> mount_event list, 'a) io \<Rightarrow> ('a \<Rightarrow> mount_event list \<Rightarrow> bool)
    \<Rightarrow> (mount_event list \<Rightarrow> bool) \<Rightarrow> bool" where
  "traces P m Q E \<longleftrightarrow> (\<forall>s r s'. P (snd s) \<longrightarrow> m s = (r, s') \<longrightarrow> (case r of Ok x \<Rightarrow> Q x (snd s') | _ \<Rightarrow> E (snd s')))"

lemma tracesD:
  assumes "traces P m Q E" and "P (snd s)" and "m s = (r, s')"
  shows "case r of Ok x \<Rightarrow> Q x (snd s') | _ \<Rightarrow> E (snd s')"
  using assms unfolding traces_def by blast

lemma traces_bind:
  assumes "traces P m R E" and "\<And>x. traces (R x) (k x) Q E"
  shows "traces P (io_bind m k) Q E"
  unfolding traces_def
proof (intro allI impI)
  fix s r s'
  assume P: "P (snd s)" and run: "io_bind m k s = (r, s')"
  obtain r1 s1 where m: "m s = (r1, s1)" by (cases "m s")
  show "case r of Ok x \<Rightarrow> Q x (snd s') | _ \<Rightarrow> E (snd s')"
    using tracesD [OF assms(1) P m] run m
    by (cases r1) (auto simp: io_bind_def dest: tracesD [OF assms(2)])
qed

lemma traces_catch:
  assumes "traces P m Q R" and "\<And>e. traces R (h e) Q E" and "\<And>tr. R tr \<Longrightarrow> E tr"
  shows "traces P (io_catch m h) Q E"
  unfolding traces_def
proof (intro allI impI)
  fix s r s'
  assume P: "P (snd s)" and run: "io_catch m h s = (r, s')"
  obtain r1 s1 where m: "m s = (r1, s1)" by (cases "m s")
  show "case r of Ok x \<Rightarrow> Q x (snd s') | _ \<Rightarrow> E (snd s')"
    using tracesD [OF assms(1) P m] run m assms(3)
    by (cases r1) (auto simp: io_catch_def dest: tracesD [OF assms(2)])
qed

lemma traces_preserves:
  assumes "preserves snd m" and "\<And>tr x. P tr \<Longrightarrow> Q x tr" and "\<And>tr. P tr \<Longrightarrow> E tr"
  shows "traces P m Q E"
  unfolding traces_def by (auto dest!: preservesD [OF assms(1)] simp: assms(2,3) split: result.split)

lemma traces_lift: "(\<And>x tr. r = Ok x \<Longrightarrow> P tr \<Longrightarrow> Q x tr) \<Longrightarrow> (\<And>tr. P tr \<Longrightarrow> E tr) \<Longrightarrow> traces P (io_lift r) Q E"
  by (auto simp: traces_def io_lift_def split: result.splits)

lemma traces_return: "(\<And>tr. P tr \<Longrightarrow> Q x tr) \<Longrightarrow> traces P (io_return x) Q E"
  by (auto simp: traces_def io_return_def)

lemma traces_fail: "(\<And>tr. P tr \<Longrightarrow> E tr) \<Longrightarrow> traces P (io_fail e) Q E"
  by (auto simp: traces_def io_fail_def)

lemma traces_abort: "(\<And>tr. P tr \<Longrightarrow> E tr) \<Longrightarrow> traces P io_abort Q E"
  by (auto simp: traces_def io_abort_def)

lemma preserves_record [preserves_intros]: "preserves snd (record_call [] m)"
  by (simp add: preserves_def record_call_def split: prod.split)

lemma preserves_ask [preserves_intros]: "preserves v (ask f)"
  by (simp add: preserves_def ask_def)


lemma traces_weaken:
  "traces P m Q E \<Longrightarrow> (\<And>tr. P' tr \<Longrightarrow> P tr) \<Longrightarrow> (\<And>x tr. Q x tr \<Longrightarrow> Q' x tr) \<Longrightarrow> (\<And>tr. E tr \<Longrightarrow> E' tr) \<Longrightarrow> traces P' m Q' E'"
  unfolding traces_def by (auto split: result.splits; blast)

lemma check_manifest_external_Ok:
  assumes "check_manifest_external version mf = Ok mf'"
  shows "\<exists>imgs. mf' = mf\<lparr>mf_images := imgs\<rparr>" and "hex32 (mf_bundle_verity_hash mf)" and "hex32 (mf_bundle_verity_salt mf)"
    and "mf_bundle_format mf = R_MANIFEST_FORMAT_CRYPT \<Longrightarrow> hex32 (mf_bundle_crypt_key mf)"
  using assms by (auto simp: check_manifest_external_def check_manifest_bundled_def check_verity_def io_iff
      split: bundle_format.splits dest: check_hex32_Ok)

lemma hex32_Some: "hex32 x \<Longrightarrow> \<exists>h. x = Some h \<and> hex32 (Some h)"
  by (cases x) (simp_all add: hex32_def)

text \<open>Events that are no mounts, and the stages of a trace.\<close>

definition no_mount :: "mount_event list \<Rightarrow> bool" where
  "no_mount tr \<longleftrightarrow> (\<forall>dev. Ev_Mount dev \<notin> set tr)"

text \<open>Some events, none of them a mount, after a trace that satisfies \<open>P\<close>.\<close>

definition after :: "(mount_event list \<Rightarrow> bool) \<Rightarrow> mount_event list \<Rightarrow> bool" where
  "after P tr \<longleftrightarrow> (\<exists>evs tr0. tr = evs @ tr0 \<and> no_mount evs \<and> P tr0)"

lemma no_mount_covered: "no_mount evs \<Longrightarrow> mounts_covered b (evs @ tr) = mounts_covered b tr"
proof (induction evs)
  case (Cons e evs)
  then show ?case by (cases e) (auto simp: no_mount_def)
qed simp

lemma after_covered: "(\<And>tr. P tr \<Longrightarrow> mounts_covered b tr) \<Longrightarrow> after P tr \<Longrightarrow> mounts_covered b tr"
  by (auto simp: after_def no_mount_covered)

lemma after_here: "P tr \<Longrightarrow> after P tr"
  unfolding after_def no_mount_def by (rule exI [of _ "[]"]) simp

lemma after_event: "after P tr \<Longrightarrow> (\<And>dev. e \<noteq> Ev_Mount dev) \<Longrightarrow> after P (e # tr)"
  unfolding after_def no_mount_def
  by (elim exE conjE, rule_tac x = "e # evs" in exI) auto

abbreviation base_trace :: "rauc_open_bundle \<Rightarrow> string \<Rightarrow> mount_event list \<Rightarrow> bool" where
  "base_trace b dev tr \<equiv> base_device b tr = Some dev"

definition verity_trace :: "rauc_open_bundle \<Rightarrow> rauc_manifest \<Rightarrow> rauc_dm \<Rightarrow> mount_event list \<Rightarrow> bool" where
  "verity_trace b mf v tr \<longleftrightarrow> dm_upper_dev v \<noteq> None \<and> verity_device b mf tr = dm_upper_dev v"

definition crypt_trace :: "rauc_open_bundle \<Rightarrow> rauc_manifest \<Rightarrow> rauc_dm \<Rightarrow> mount_event list \<Rightarrow> bool" where
  "crypt_trace b mf c tr \<longleftrightarrow> dm_upper_dev c \<noteq> None \<and> crypt_device b mf tr = dm_upper_dev c"

definition mounted_trace :: "rauc_open_bundle \<Rightarrow> mount_event list \<Rightarrow> bool" where
  "mounted_trace b tr \<longleftrightarrow> mounts_covered b tr \<and> (\<exists>dev tr0. tr = Ev_Mount dev # tr0)"

lemma base_trace_covered: "base_trace b dev tr \<Longrightarrow> mounts_covered b' tr"
  by (cases "(b, tr)" rule: base_device.cases) auto

lemma verity_device_covered: "verity_device b mf tr = Some dev \<Longrightarrow> mounts_covered b' tr"
  by (cases "(b, mf, tr)" rule: verity_device.cases) (auto split: option.splits if_splits intro: base_trace_covered)

lemma crypt_device_covered: "crypt_device b mf tr = Some dev \<Longrightarrow> mounts_covered b' tr"
  by (cases "(b, mf, tr)" rule: crypt_device.cases) (auto split: option.splits if_splits intro: verity_device_covered)

lemma verity_trace_covered: "verity_trace b mf v tr \<Longrightarrow> mounts_covered b tr"
  by (auto simp: verity_trace_def intro: verity_device_covered)

lemma crypt_trace_covered: "crypt_trace b mf c tr \<Longrightarrow> mounts_covered b tr"
  by (auto simp: crypt_trace_def intro: crypt_device_covered)

lemma mounted_trace_covered: "mounted_trace b tr \<Longrightarrow> mounts_covered b tr"
  by (simp add: mounted_trace_def)

lemma verity_trace_mount:
  assumes "verity_trace b mf v tr" and "bnd_manifest b = Some mf" and "mf_bundle_format mf = R_MANIFEST_FORMAT_VERITY"
  shows "mounted_trace b (Ev_Mount (printed (dm_upper_dev v)) # tr)"
  using assms verity_trace_covered [OF assms(1)]
  by (auto simp: mounted_trace_def verity_trace_def covered_def printed_def)

lemma crypt_trace_mount:
  assumes "crypt_trace b mf c tr" and "bnd_manifest b = Some mf" and "mf_bundle_format mf = R_MANIFEST_FORMAT_CRYPT"
  shows "mounted_trace b (Ev_Mount (printed (dm_upper_dev c)) # tr)"
  using assms crypt_trace_covered [OF assms(1)]
  by (auto simp: mounted_trace_def crypt_trace_def covered_def printed_def)

text \<open>What a dm device set up for a request is.\<close>

definition layer_target :: "rauc_dm \<Rightarrow> string \<times> string" where
  "layer_target dm = (case dm_type dm of
      RAUC_DM_VERITY \<Rightarrow> (''verity'', verity_table (printed (dm_lower_dev dm)) (unat (dm_data_size dm) div 4096)
        (printed (dm_root_digest dm)) (printed (dm_salt dm)))
    | RAUC_DM_CRYPT \<Rightarrow> (''crypt'', crypt_table (printed (dm_lower_dev dm)) (printed (dm_key dm))))"

definition dm_set_up :: "rauc_dm \<Rightarrow> rauc_dm \<Rightarrow> mount_event list \<Rightarrow> bool" where
  "dm_set_up dm dm' evs \<longleftrightarrow> 0 < unat (dm_data_size dm) \<and> 4096 dvd unat (dm_data_size dm) \<and>
     (\<exists>minor sectors. dm' = dm\<lparr>dm_upper_dev := Some (dm_device minor)\<rparr> \<and> 512 * unat sectors = unat (dm_data_size dm) \<and>
        evs = [Ev_Resume (dm_uuid dm) minor, Ev_Table (dm_uuid dm) sectors (fst (layer_target dm)) (snd (layer_target dm))])"

lemma verity_layer_set_up:
  assumes "base_trace b lower tr" and "dm_set_up (verity_layer mo b (mf\<lparr>mf_images := imgs\<rparr>) lower) dm evs"
    and "hex32 (mf_bundle_verity_hash mf)" and "hex32 (mf_bundle_verity_salt mf)"
  shows "verity_trace b mf dm (evs @ tr)"
proof -
  obtain root_hash salt where mf: "mf_bundle_verity_hash mf = Some root_hash" "hex32 (Some root_hash)"
      "mf_bundle_verity_salt mf = Some salt" "hex32 (Some salt)"
    using assms(3,4) by (metis hex32_Some)
  show ?thesis using assms(2)
    by (clarsimp simp: dm_set_up_def verity_trace_def verity_layer_def r_dm_new_verity_def dm_new_def layer_target_def
        payload_size_def printed_def mf assms(1))
qed

lemma crypt_layer_set_up:
  assumes "verity_trace b mf v tr" and "dm_set_up (crypt_layer mo b (mf\<lparr>mf_images := imgs\<rparr>) v) dm evs"
    and "hex32 (mf_bundle_crypt_key mf)"
  shows "crypt_trace b mf dm (evs @ tr)"
proof -
  obtain key where mf: "mf_bundle_crypt_key mf = Some key" "hex32 (Some key)"
    using assms(3) by (metis hex32_Some)
  obtain lower where "dm_upper_dev v = Some lower" "verity_device b mf tr = Some lower"
    using assms(1) by (auto simp: verity_trace_def)
  then show ?thesis using assms(2)
    by (clarsimp simp: dm_set_up_def crypt_trace_def crypt_layer_def r_dm_new_crypt_def dm_new_def layer_target_def
        payload_size_def printed_def mf)
qed

lemma preserves_fold:
  "(\<And>x. preserves v (f x)) \<Longrightarrow> preserves v m \<Longrightarrow> preserves v (fold (\<lambda>x m. io_bind m (\<lambda>_. f x)) xs m)"
  by (induction xs arbitrary: m) (simp_all add: preserves_bind)

text \<open>
  What mounting needs from the layers below it: a loop device is for the given file and size, a dm device
  has the table for the request, and the other operations mount nothing.
\<close>

locale device_layers =
  fixes mo :: "('w \<times> mount_event list) mount_ops"
  assumes loop_setup: "traces P (mo_setup_loop mo fd sz)
      (\<lambda>dev tr. \<exists>tr0. P tr0 \<and> tr = [Ev_Set_Status dev sz, Ev_Set_Fd dev fd] @ tr0) (after P)"
    and nbd_setup: "traces P (mo_setup_nbd mo sz) (\<lambda>dev tr. \<exists>tr0. P tr0 \<and> tr = Ev_Nbd sz dev # tr0) (after P)"
    and dm_setup: "traces P (mo_dm_setup mo dm) (\<lambda>dm' tr. \<exists>evs tr0. P tr0 \<and> dm_set_up dm dm' evs \<and> tr = evs @ tr0) (after P)"
    and traces_mount: "traces P (mo_mount mo dev mp) (\<lambda>_ tr. \<exists>tr0. P tr0 \<and> tr = Ev_Mount dev # tr0)
      (\<lambda>tr. \<exists>tr0. P tr0 \<and> tr = Ev_Mount dev # tr0)"
    and quiet: "preserves snd (mo_umount mo mp)" "preserves snd (mo_create_mount_point mo nm)"
      "preserves snd (mo_dm_remove mo dm d)" "snd (mo_rmdir mo mp s) = snd s"
begin

lemmas preserves_calls [preserves_intros] = quiet(1-3)

lemma traces_device:
  "traces (\<lambda>tr. tr = []) (setup_device mo streaming b) (\<lambda>dev. base_trace b dev) (mounts_covered b)"
proof -
  have none: "after (\<lambda>tr. tr = []) tr \<Longrightarrow> mounts_covered b tr" for tr by (rule after_covered) auto
  show ?thesis
  proof (cases "bnd_stream b")
    case (Some fd)
    then show ?thesis unfolding setup_device_def
      by simp (rule traces_weaken [OF loop_setup [where P = "\<lambda>tr. tr = []"]], auto intro: none)
  next
    case None
    then show ?thesis unfolding setup_device_def
      by (auto intro!: traces_abort)
        (rule traces_weaken [OF nbd_setup [where P = "\<lambda>tr. tr = []"]], auto intro: none)
  qed
qed

lemma preserves_remove_dm [preserves_intros]: "preserves snd (remove_dm mo dm d)"
  unfolding remove_dm_def by (intro preserves_intros)

lemma preserves_pre_check [preserves_intros]: "preserves snd (pre_check mo cfg dm layers)"
proof -
  have f: "(\<lambda>(dm, deferred) m. io_bind m (\<lambda>_. remove_dm mo dm deferred)) =
      (\<lambda>x m. io_bind m (\<lambda>_. remove_dm mo (fst x) (snd x)))"
    by (simp add: fun_eq_iff split: prod.split)
  show ?thesis
    unfolding pre_check_def read_complete_dm_device_def f
    by (intro preserves_intros preserves_fold)
qed

lemma traces_layers:
  "traces P (mount_layers mo dm layers mp)
     (\<lambda>_ tr. \<exists>tr0. P tr0 \<and> tr = Ev_Mount (printed (dm_upper_dev dm)) # tr0)
     (\<lambda>tr. \<exists>tr0. P tr0 \<and> tr = Ev_Mount (printed (dm_upper_dev dm)) # tr0)"
  unfolding traces_def
proof (intro allI impI)
  fix s r s'
  assume P: "P (snd s)" and run: "mount_layers mo dm layers mp s = (r, s')"
  obtain r1 s1 where m: "mo_mount mo (printed (dm_upper_dev dm)) mp s = (r1, s1)" by (metis surj_pair)
  let ?rm = "fold (\<lambda>dm m. io_bind m (\<lambda>_. remove_dm mo dm True)) layers (io_return ())"
  have "preserves snd ?rm" by (intro preserves_fold preserves_intros)
  then have "snd (snd (?rm s1)) = snd s1" unfolding preserves_def by blast
  then have "snd s' = snd s1" using run m by (auto simp: mount_layers_def split: result.splits prod.splits)
  moreover have "\<exists>tr0. P tr0 \<and> snd s1 = Ev_Mount (printed (dm_upper_dev dm)) # tr0"
    using tracesD [OF traces_mount [where P = P] P m] by (cases r1) auto
  ultimately show "case r of Ok x \<Rightarrow> \<exists>tr0. P tr0 \<and> snd s' = Ev_Mount (printed (dm_upper_dev dm)) # tr0
      | _ \<Rightarrow> \<exists>tr0. P tr0 \<and> snd s' = Ev_Mount (printed (dm_upper_dev dm)) # tr0"
    by (simp split: result.split)
qed

lemma traces_check_manifest:
  "traces (base_trace b dev) (io_lift (check_manifest_external version mf))
     (\<lambda>mf' tr. check_manifest_external version mf = Ok mf' \<and> base_trace b dev tr) (mounts_covered b)"
  by (rule traces_lift) (auto intro: base_trace_covered)

lemma traces_verity_layer:
  assumes "check_manifest_external version mf = Ok mf'"
  shows "traces (base_trace b dev) (mo_dm_setup mo (verity_layer mo b mf' dev)) (verity_trace b mf) (mounts_covered b)"
proof -
  obtain imgs where mf': "mf' = mf\<lparr>mf_images := imgs\<rparr>" using check_manifest_external_Ok(1) [OF assms] ..
  show ?thesis unfolding mf'
  proof (rule traces_weaken [OF dm_setup [where P = "base_trace b dev"]])
    show "verity_trace b mf dm tr"
      if "\<exists>evs tr0. base_trace b dev tr0 \<and> dm_set_up (verity_layer mo b (mf\<lparr>mf_images := imgs\<rparr>) dev) dm evs \<and> tr = evs @ tr0" for dm tr
      using that verity_layer_set_up check_manifest_external_Ok(2,3) [OF assms] by blast
    show "mounts_covered b tr" if "after (base_trace b dev) tr" for tr
      by (rule after_covered [OF _ that]) (rule base_trace_covered)
  qed
qed

lemma traces_verity:
  assumes "bnd_manifest b = Some mf" and "mf_bundle_format mf = R_MANIFEST_FORMAT_VERITY"
  shows "traces (base_trace b dev) (prepare_verity mo cfg version b mf dev mp) (\<lambda>_. mounted_trace b) (mounts_covered b)"
proof -
  have mount: "traces (verity_trace b mf v) (mount_layers mo v ls mp) (\<lambda>_. mounted_trace b) (mounts_covered b)" for v ls
    by (rule traces_weaken [OF traces_layers [where P = "verity_trace b mf v"]])
      (auto intro: verity_trace_mount [OF _ assms] mounted_trace_covered [OF verity_trace_mount [OF _ assms]])
  have pre: "traces (verity_trace b mf v) (pre_check mo cfg v ls) (\<lambda>_. verity_trace b mf v) (mounts_covered b)" for v ls
    by (rule traces_preserves [OF preserves_pre_check]) (auto intro: verity_trace_covered)
  have layer: "traces (\<lambda>tr. check_manifest_external version mf = Ok mf' \<and> base_trace b dev tr)
      (mo_dm_setup mo (verity_layer mo b mf' dev)) (verity_trace b mf) (mounts_covered b)" for mf'
    using traces_verity_layer [of version mf mf' b dev] unfolding traces_def by blast
  show ?thesis unfolding prepare_verity_def
    by (intro traces_bind [OF traces_check_manifest] traces_bind [OF layer] traces_bind [OF pre] traces_bind [OF mount] traces_return)
qed

lemma traces_crypt_layer:
  assumes "check_manifest_external version mf = Ok mf'" and "mf_bundle_format mf = R_MANIFEST_FORMAT_CRYPT"
  shows "traces (verity_trace b mf v) (io_catch (mo_dm_setup mo (crypt_layer mo b mf' v))
      (\<lambda>e. io_bind (remove_dm mo v False) (\<lambda>_. io_fail e))) (crypt_trace b mf) (mounts_covered b)"
proof (rule traces_catch [where R = "mounts_covered b"])
  obtain imgs where mf': "mf' = mf\<lparr>mf_images := imgs\<rparr>" using check_manifest_external_Ok(1) [OF assms(1)] ..
  show "traces (verity_trace b mf v) (mo_dm_setup mo (crypt_layer mo b mf' v)) (crypt_trace b mf) (mounts_covered b)"
    unfolding mf'
  proof (rule traces_weaken [OF dm_setup [where P = "verity_trace b mf v"]])
    show "crypt_trace b mf dm tr"
      if "\<exists>evs tr0. verity_trace b mf v tr0 \<and> dm_set_up (crypt_layer mo b (mf\<lparr>mf_images := imgs\<rparr>) v) dm evs \<and> tr = evs @ tr0" for dm tr
      using that crypt_layer_set_up check_manifest_external_Ok(4) [OF assms] by blast
    show "mounts_covered b tr" if "after (verity_trace b mf v) tr" for tr
      by (rule after_covered [OF _ that]) (rule verity_trace_covered)
  qed
  show "traces (mounts_covered b) (io_bind (remove_dm mo v False) (\<lambda>_. io_fail e)) (crypt_trace b mf) (mounts_covered b)" for e
    by (rule traces_bind [OF traces_preserves [OF preserves_remove_dm, where Q = "\<lambda>_. mounts_covered b"]])
      (auto intro: traces_fail)
qed

lemma traces_crypt:
  assumes "bnd_manifest b = Some mf" and "mf_bundle_format mf = R_MANIFEST_FORMAT_CRYPT"
  shows "traces (base_trace b dev) (prepare_crypt mo cfg version b mf dev mp) (\<lambda>_. mounted_trace b) (mounts_covered b)"
proof -
  have mount: "traces (crypt_trace b mf c) (mount_layers mo c ls mp) (\<lambda>_. mounted_trace b) (mounts_covered b)" for c ls
    by (rule traces_weaken [OF traces_layers [where P = "crypt_trace b mf c"]])
      (auto intro: crypt_trace_mount [OF _ assms] mounted_trace_covered [OF crypt_trace_mount [OF _ assms]])
  have pre: "traces (crypt_trace b mf c) (pre_check mo cfg c ls) (\<lambda>_. crypt_trace b mf c) (mounts_covered b)" for c ls
    by (rule traces_preserves [OF preserves_pre_check]) (auto intro: crypt_trace_covered)
  let ?ok = "\<lambda>mf'. check_manifest_external version mf = Ok mf'"
  have verity: "traces (\<lambda>tr. ?ok mf' \<and> base_trace b dev tr) (mo_dm_setup mo (verity_layer mo b mf' dev))
      (\<lambda>v tr. ?ok mf' \<and> verity_trace b mf v tr) (mounts_covered b)" for mf'
    using traces_verity_layer [of version mf mf' b dev] unfolding traces_def by (fastforce split: result.splits)
  have crypt: "traces (\<lambda>tr. ?ok mf' \<and> verity_trace b mf v tr) (io_catch (mo_dm_setup mo (crypt_layer mo b mf' v))
      (\<lambda>e. io_bind (remove_dm mo v False) (\<lambda>_. io_fail e))) (crypt_trace b mf) (mounts_covered b)" for mf' v
    using traces_crypt_layer [of version mf mf' b v] assms(2) unfolding traces_def by blast
  show ?thesis unfolding prepare_crypt_def
    by (intro traces_bind [OF traces_check_manifest] traces_bind [OF verity] traces_bind [OF crypt] traces_bind [OF pre]
        traces_bind [OF mount] traces_return)
qed

lemma traces_plain:
  assumes "bnd_manifest b = None" and "\<not> bnd_verification_disabled b"
  shows "traces (base_trace b dev) (mount_plain mo version b dev mp) (\<lambda>_. mounted_trace b) (mounts_covered b)"
proof (cases "bnd_payload_verified b")
  case True
  have ok: "base_trace b dev tr \<Longrightarrow> mounted_trace b (Ev_Mount dev # tr)" for tr
    using assms True base_trace_covered [of b tr dev b] by (auto simp: mounted_trace_def covered_def)
  have "traces (base_trace b dev) (mo_mount mo dev mp) (\<lambda>_. mounted_trace b) (mounts_covered b)"
    by (rule traces_weaken [OF traces_mount [where P = "base_trace b dev"]]) (auto dest!: ok intro: mounted_trace_covered)
  moreover have "preserves snd (io_catch (check_plain_manifest mo version mp)
      (\<lambda>e. io_bind (io_warn (mo_umount mo mp)) (\<lambda>_. io_fail e)))"
    unfolding check_plain_manifest_def by (intro preserves_intros)
  ultimately show ?thesis using True unfolding mount_plain_def
    by (simp add: traces_bind [OF _ traces_preserves] mounted_trace_covered)
next
  case False
  then show ?thesis using assms unfolding mount_plain_def by (auto intro: traces_abort base_trace_covered)
qed

lemma traces_mount_device:
  assumes "\<not> bnd_verification_disabled b"
  shows "traces (\<lambda>tr. tr = []) (mount_device mo cfg version streaming b mp) (\<lambda>_. mounted_trace b) (mounts_covered b)"
  unfolding mount_device_def
proof (rule traces_bind [OF traces_device])
  fix dev
  show "traces (base_trace b dev)
      (case bnd_manifest b of None \<Rightarrow> mount_plain mo version b dev mp
       | Some mf \<Rightarrow> case mf_bundle_format mf of
             R_MANIFEST_FORMAT_PLAIN \<Rightarrow> io_abort
           | R_MANIFEST_FORMAT_VERITY \<Rightarrow> prepare_verity mo cfg version b mf dev mp
           | R_MANIFEST_FORMAT_CRYPT \<Rightarrow> prepare_crypt mo cfg version b mf dev mp)
      (\<lambda>_. mounted_trace b) (mounts_covered b)"
    using assms
    by (auto split: option.split bundle_format.split intro: traces_plain traces_verity traces_crypt traces_abort base_trace_covered)
qed

lemma mount_bundle_trace:
  assumes "mount_bundle mo cfg version streaming b (w, []) = ((r, b'), (w', tr))" and "\<not> bnd_verification_disabled b"
  shows "mounts_covered b tr \<and> (r = Ok () \<longrightarrow> (\<exists>dev tr0. tr = Ev_Mount dev # tr0))"
proof (cases "bnd_mount_point b = None \<and> is_ok (fst (mo_create_mount_point mo ''bundle'' (w, []))) \<and> bnd_signature_verified b")
  case False
  have "snd (snd (mo_create_mount_point mo ''bundle'' (w, []))) = []"
    using preserves_calls(2) unfolding preserves_def by (metis snd_conv)
  then show ?thesis using False assms
    by (auto simp: mount_bundle_def split: if_splits prod.splits result.splits)
next
  case True
  then obtain mp s where mp: "mo_create_mount_point mo ''bundle'' (w, []) = (Ok mp, s)"
    by (metis is_ok_iff prod.collapse)
  then have s: "snd s = []" using preservesD [OF preserves_calls(2) mp] by simp
  obtain r1 s1 where dev: "mount_device mo cfg version streaming b mp s = (r1, s1)" by (metis surj_pair)
  have rm: "snd (mo_rmdir mo mp s1) = snd s1" by (rule quiet(4))
  have "case r1 of Ok _ \<Rightarrow> mounted_trace b (snd s1) | _ \<Rightarrow> mounts_covered b (snd s1)"
    by (rule tracesD [OF traces_mount_device [OF assms(2)] _ dev]) (rule s)
  then show ?thesis using assms(1) True mp dev rm
    by (cases r1) (auto simp: mount_bundle_def mounted_trace_def)
qed

end

subsection \<open>The traced kernel\<close>

lemma traced_sel [simp]:
  "mo_setup_loop (traced lo dmo mnt mo) = r_setup_loop (traced_loop lo)"
  "mo_setup_nbd (traced lo dmo mnt mo) sz = record_ok (\<lambda>dev. [Ev_Nbd sz dev]) (mo_setup_nbd mo sz)"
  "mo_dm_setup (traced lo dmo mnt mo) = r_dm_setup (traced_dm dmo)"
  "mo_dm_remove (traced lo dmo mnt mo) = r_dm_remove (traced_dm dmo)"
  "mo_mount (traced lo dmo mnt mo) = r_mount_bundle (traced_mount mnt)"
  "mo_umount (traced lo dmo mnt mo) mp = record_call [] (mo_umount mo mp)"
  "mo_create_mount_point (traced lo dmo mnt mo) nm = record_call [] (mo_create_mount_point mo nm)"
  "mo_reads (traced lo dmo mnt mo) dev = (\<lambda>s. mo_reads mo dev (fst s))"
  "mo_load_manifest (traced lo dmo mnt mo) p = (\<lambda>s. mo_load_manifest mo p (fst s))"
  "mo_rmdir (traced lo dmo mnt mo) mp s = (mo_rmdir mo mp (fst s), snd s)" "mo_uuid (traced lo dmo mnt mo) = mo_uuid mo"
  by (simp_all add: traced_def fun_eq_iff)

lemma traced_loop_sel [simp]:
  "lo_open_control (traced_loop lo) = record_call [] (lo_open_control lo)"
  "lo_get_free (traced_loop lo) = record_call [] (lo_get_free lo)"
  "lo_open (traced_loop lo) n s = (case lo_open lo n (fst s) of (r, w) \<Rightarrow> (r, w, snd s))"
  "lo_set_fd (traced_loop lo) n fd s = (case lo_set_fd lo n fd (fst s) of
     (r, w) \<Rightarrow> (r, w, (if r = Loop_Ok then [Ev_Set_Fd n fd] else []) @ snd s))"
  "lo_set_status (traced_loop lo) n sz = record_ok (\<lambda>_. [Ev_Set_Status n sz]) (lo_set_status lo n sz)"
  "lo_clr_fd (traced_loop lo) n s = (lo_clr_fd lo n (fst s), snd s)"
  "lo_set_block_size (traced_loop lo) n s = (lo_set_block_size lo n (fst s), snd s)"
  by (simp_all add: traced_loop_def)

lemma traced_dm_sel [simp]:
  "dmo_open_control (traced_dm dmo) = record_call [] (dmo_open_control dmo)"
  "dmo_create (traced_dm dmo) n u = record_call [] (dmo_create dmo n u)"
  "dmo_table_load (traced_dm dmo) u k t p = record_ok (\<lambda>_. [Ev_Table u k t p]) (dmo_table_load dmo u k t p)"
  "dmo_resume (traced_dm dmo) u = record_ok (\<lambda>minor. [Ev_Resume u minor]) (dmo_resume dmo u)"
  "dmo_check_read (traced_dm dmo) d = record_call [] (dmo_check_read dmo d)"
  "dmo_status (traced_dm dmo) u = record_call [] (dmo_status dmo u)"
  "dmo_remove (traced_dm dmo) u df = record_call [] (dmo_remove dmo u df)"
  by (simp_all add: traced_dm_def)

lemma traces_record_ok:
  "traces P (record_ok (\<lambda>x. [ev x]) m) (\<lambda>x tr. \<exists>tr0. P tr0 \<and> tr = ev x # tr0) P"
  unfolding traces_def record_ok_def by (auto split: prod.splits result.splits)

lemma traces_quiet: "traces P (record_call [] m) (\<lambda>_. P) P"
  by (rule traces_preserves [OF preserves_record])

text \<open>Loop devices.\<close>

lemma traces_claim_loop:
  "traces P (claim_loop (traced_loop lo) fd tries) (\<lambda>n tr. \<exists>tr0. P tr0 \<and> tr = Ev_Set_Fd n fd # tr0) P"
proof (induction tries)
  case 0
  show ?case by (simp add: traces_fail)
next
  case (Suc tries)
  show ?case unfolding claim_loop.simps traced_loop_sel(2)
  proof (rule traces_bind [OF traces_quiet])
    fix i
    show "traces P (\<lambda>w. let loopname = ''/dev/loop'' @ nat_str 10 i in
       case lo_open (traced_loop lo) loopname w of
         (Loop_Ok, w1) \<Rightarrow> (case lo_set_fd (traced_loop lo) loopname fd w1 of
           (Loop_Ok, w2) \<Rightarrow> (Ok loopname, w2)
         | (Loop_Retry, w2) \<Rightarrow> claim_loop (traced_loop lo) fd tries w2
         | (Loop_Failed e, w2) \<Rightarrow> (Error (G_FILE_ERROR e), w2))
       | (Loop_Retry, w1) \<Rightarrow> claim_loop (traced_loop lo) fd tries w1
       | (Loop_Failed e, w1) \<Rightarrow> (Error (G_FILE_ERROR e), w1))
      (\<lambda>n tr. \<exists>tr0. P tr0 \<and> tr = Ev_Set_Fd n fd # tr0) P"
      using tracesD [OF Suc] unfolding traces_def Let_def
      by (auto split: prod.splits loop_outcome.splits)
  qed
qed

lemma traces_setup_loop:
  "traces P (r_setup_loop (traced_loop lo) fd sz)
     (\<lambda>dev tr. \<exists>tr0. P tr0 \<and> tr = [Ev_Set_Status dev sz, Ev_Set_Fd dev fd] @ tr0) (after P)"
proof (cases "sint sz > 0")
  case True
  let ?fd = "\<lambda>n tr. \<exists>tr0. P tr0 \<and> tr = Ev_Set_Fd n fd # tr0"
  let ?st = "\<lambda>n tr. \<exists>tr0. ?fd n tr0 \<and> tr = Ev_Set_Status n sz # tr0"
  have fd: "?fd n tr \<Longrightarrow> after P tr" for n tr by (auto intro: after_event after_here)
  have control: "traces P (record_call [] (lo_open_control lo)) (\<lambda>_. P) (after P)"
    by (rule traces_weaken [OF traces_quiet [where P = P]]) (auto intro: after_here)
  have claim: "traces P (claim_loop (traced_loop lo) fd 10) ?fd (after P)"
    by (rule traces_weaken [OF traces_claim_loop [where P = P]]) (auto intro: after_here)
  have status: "traces (?fd n) (io_catch (lo_set_status (traced_loop lo) n sz)
      (\<lambda>e w. (Error e, lo_clr_fd (traced_loop lo) n w))) (\<lambda>_. ?st n) (after P)" for n
  proof (rule traces_catch)
    show "traces (?fd n) (lo_set_status (traced_loop lo) n sz) (\<lambda>_. ?st n) (?fd n)"
      unfolding traced_loop_sel by (rule traces_record_ok)
    show "traces (?fd n) (\<lambda>w. (Error e, lo_clr_fd (traced_loop lo) n w)) (\<lambda>_. ?st n) (after P)" for e
      unfolding traces_def using fd by auto
  qed (rule fd)
  have block: "traces (?st n) (\<lambda>w. (Ok n, lo_set_block_size (traced_loop lo) n w))
      (\<lambda>dev tr. \<exists>tr0. P tr0 \<and> tr = [Ev_Set_Status dev sz, Ev_Set_Fd dev fd] @ tr0) (after P)" for n
    unfolding traces_def by auto
  show ?thesis using True unfolding r_setup_loop_def traced_loop_sel(1)
    by simp (intro traces_bind [OF control] traces_bind [OF claim] traces_bind [OF status [simplified]] block [simplified])
qed (simp add: r_setup_loop_def traces_fail after_here)

text \<open>Device mapper: the table given to the kernel is the documented one for the request.\<close>

lemma dm_params_target: "dmtype_to_str (dm_type dm) = fst (layer_target dm)" "dm_params dm = snd (layer_target dm)"
proof -
  have "unat (dm_data_size dm div 4096) = unat (dm_data_size dm) div 4096" by (simp add: unat_div)
  then show "dmtype_to_str (dm_type dm) = fst (layer_target dm)" "dm_params dm = snd (layer_target dm)"
    by (cases "dm_type dm"; simp add: dm_params_def layer_target_def verity_table_def crypt_table_def Let_def)+
qed

lemma sectors_size:
  assumes "4096 dvd unat (n :: 64 word)"
  shows "512 * unat (n div 512) = unat n"
proof -
  have "512 dvd unat n" using assms by (rule dvd_trans [rotated]) simp
  then show ?thesis by (simp add: unat_div)
qed

lemma traces_dm_configure:
  assumes "0 < unat (dm_data_size dm)" and "4096 dvd unat (dm_data_size dm)"
  shows "traces P (dm_configure (traced_dm dmo) dm) (\<lambda>dm' tr. \<exists>evs tr0. P tr0 \<and> dm_set_up dm dm' evs \<and> tr = evs @ tr0) (after P)"
proof -
  let ?table = "Ev_Table (dm_uuid dm) (dm_data_size dm div 512) (dmtype_to_str (dm_type dm)) (dm_params dm)"
  let ?loaded = "\<lambda>tr. \<exists>tr0. P tr0 \<and> tr = ?table # tr0"
  let ?resumed = "\<lambda>minor tr. \<exists>tr0. ?loaded tr0 \<and> tr = Ev_Resume (dm_uuid dm) minor # tr0"
  have len: "traces P (io_lift r) (\<lambda>_. P) (after P)" for r :: "unit result" by (rule traces_lift) (auto intro: after_here)
  have load: "traces P (dmo_table_load (traced_dm dmo) (dm_uuid dm) (dm_data_size dm div 512) (dmtype_to_str (dm_type dm)) (dm_params dm))
      (\<lambda>_. ?loaded) (after P)"
    unfolding traced_dm_sel by (rule traces_weaken [OF traces_record_ok [where P = P]]) (auto intro: after_here)
  have resume: "traces ?loaded (dmo_resume (traced_dm dmo) (dm_uuid dm)) ?resumed (after P)"
    unfolding traced_dm_sel by (rule traces_weaken [OF traces_record_ok [where P = ?loaded]]) (auto intro: after_event after_here)
  have resumed: "?resumed minor tr \<Longrightarrow> after P tr" for minor tr by (auto intro: after_event after_here)
  have quiet: "traces (?resumed minor) (record_call [] m) (\<lambda>_. ?resumed minor) (after P)" for minor and m :: "('a, 'b) io"
    by (rule traces_weaken [OF traces_quiet [where P = "?resumed minor"]]) (auto intro: resumed)
  have status: "traces (?resumed minor) (io_lift r) (\<lambda>_. ?resumed minor) (after P)" for minor and r :: "unit result"
    by (rule traces_lift) (auto intro: resumed)
  have done_: "traces (?resumed minor) (io_return (dm\<lparr>dm_upper_dev := Some (''/dev/dm-'' @ nat_str 10 minor)\<rparr>))
      (\<lambda>dm' tr. \<exists>evs tr0. P tr0 \<and> dm_set_up dm dm' evs \<and> tr = evs @ tr0) (after P)" for minor
  proof (rule traces_return)
    fix tr
    assume "?resumed minor tr"
    then obtain tr0 where tr: "P tr0" "tr = [Ev_Resume (dm_uuid dm) minor, ?table] @ tr0" by auto
    have "dm_set_up dm (dm\<lparr>dm_upper_dev := Some (''/dev/dm-'' @ nat_str 10 minor)\<rparr>) [Ev_Resume (dm_uuid dm) minor, ?table]"
      unfolding dm_set_up_def dm_device_def dm_params_target using assms sectors_size [OF assms(2)] by blast
    with tr show "\<exists>evs tr0. P tr0 \<and> dm_set_up dm (dm\<lparr>dm_upper_dev := Some (''/dev/dm-'' @ nat_str 10 minor)\<rparr>) evs \<and> tr = evs @ tr0"
      by blast
  qed
  show ?thesis unfolding dm_configure_def Let_def traced_dm_sel(5,6)
    by (intro traces_bind [OF len] traces_bind [OF load] traces_bind [OF resume] traces_bind [OF quiet] traces_bind [OF status] done_)
qed

lemma traces_setup_dm:
  "traces P (r_dm_setup (traced_dm dmo) dm) (\<lambda>dm' tr. \<exists>evs tr0. P tr0 \<and> dm_set_up dm dm' evs \<and> tr = evs @ tr0) (after P)"
proof -
  let ?Q = "\<lambda>dm' tr. \<exists>evs tr0. P tr0 \<and> dm_set_up dm dm' evs \<and> tr = evs @ tr0"
  have fail: "traces P (io_fail e) ?Q (after P)" for e by (rule traces_fail) (rule after_here)
  have quiet: "traces P (record_call [] m) (\<lambda>_. P) (after P)" for m :: "('a, unit) io"
    by (rule traces_weaken [OF traces_quiet [where P = P]]) (auto intro: after_here)
  have conf: "traces P (io_catch (dm_configure (traced_dm dmo) dm) (\<lambda>e.
      io_bind (io_catch (dmo_remove (traced_dm dmo) (dm_uuid dm) False) (\<lambda>_. io_return ())) (\<lambda>_. io_fail e))) ?Q (after P)"
    if "0 < unat (dm_data_size dm)" "4096 dvd unat (dm_data_size dm)"
  proof (rule traces_catch [OF traces_dm_configure [OF that]])
    have "preserves snd (io_bind (io_catch (dmo_remove (traced_dm dmo) (dm_uuid dm) False) (\<lambda>_. io_return ())) (\<lambda>_. io_fail e :: ('a \<times> mount_event list, rauc_dm) io))" for e
      unfolding traced_dm_sel by (intro preserves_intros)
    then show "traces (after P) (io_bind (io_catch (dmo_remove (traced_dm dmo) (dm_uuid dm) False) (\<lambda>_. io_return ())) (\<lambda>_. io_fail e)) ?Q (after P)" for e
      unfolding traced_dm_sel
      by (intro traces_bind [OF traces_preserves [where Q = "\<lambda>_. after P"]] traces_fail) (auto intro: preserves_intros)
  qed
  show ?thesis
  proof (cases "dm_lower_dev dm = None \<or> dm_upper_dev dm \<noteq> None \<or> dm_data_size dm = 0 \<or> dm_data_size dm mod 4096 \<noteq> 0")
    case False
    then have sz: "0 < unat (dm_data_size dm)" "4096 dvd unat (dm_data_size dm)"
      by (auto simp: mod_4096_dvd unat_gt_0)
    from False have "r_dm_setup (traced_dm dmo) dm = io_bind (record_call [] (dmo_open_control dmo)) (\<lambda>_.
        io_bind (record_call [] (dmo_create dmo (dm_device_name (dm_type dm)) (dm_uuid dm))) (\<lambda>_.
          io_catch (dm_configure (traced_dm dmo) dm) (\<lambda>e.
            io_bind (io_catch (dmo_remove (traced_dm dmo) (dm_uuid dm) False) (\<lambda>_. io_return ())) (\<lambda>_. io_fail e))))"
      by (auto simp: r_dm_setup_def)
    then show ?thesis by (simp only:) (intro traces_bind [OF quiet] conf [OF sz])
  next
    case True
    then have "\<exists>e. r_dm_setup (traced_dm dmo) dm = io_fail e" by (metis r_dm_setup_def)
    then show ?thesis using fail by auto
  qed
qed

interpretation kernel: device_layers "traced lo dmo mnt mo"
proof unfold_locales
  fix P dev mp nm dm d s and fd :: string and sz :: "64 word"
  show "traces P (mo_setup_loop (traced lo dmo mnt mo) fd sz)
      (\<lambda>dev tr. \<exists>tr0. P tr0 \<and> tr = [Ev_Set_Status dev sz, Ev_Set_Fd dev fd] @ tr0) (after P)"
    unfolding traced_sel by (rule traces_setup_loop)
  show "traces P (mo_setup_nbd (traced lo dmo mnt mo) sz) (\<lambda>dev tr. \<exists>tr0. P tr0 \<and> tr = Ev_Nbd sz dev # tr0) (after P)"
    unfolding traced_sel by (rule traces_weaken [OF traces_record_ok [where P = P]]) (auto intro: after_here)
  show "traces P (mo_dm_setup (traced lo dmo mnt mo) dm)
      (\<lambda>dm' tr. \<exists>evs tr0. P tr0 \<and> dm_set_up dm dm' evs \<and> tr = evs @ tr0) (after P)"
    unfolding traced_sel by (rule traces_setup_dm)
  show "traces P (mo_mount (traced lo dmo mnt mo) dev mp) (\<lambda>_ tr. \<exists>tr0. P tr0 \<and> tr = Ev_Mount dev # tr0)
      (\<lambda>tr. \<exists>tr0. P tr0 \<and> tr = Ev_Mount dev # tr0)"
    unfolding traces_def traced_sel r_mount_bundle_def traced_mount_def record_call_def by (auto split: prod.splits result.splits)
  show "preserves snd (mo_dm_remove (traced lo dmo mnt mo) dm d)"
    unfolding traced_sel r_dm_remove_def traced_dm_sel by (intro preserves_intros)
qed (simp_all add: preserves_record)

subsection \<open>Recording the events changes nothing\<close>

definition erases :: "('w \<times> mount_event list, 'a) io \<Rightarrow> ('w, 'a) io \<Rightarrow> bool" where
  "erases m' m \<longleftrightarrow> (\<forall>s r s'. m' s = (r, s') \<longrightarrow> m (fst s) = (r, fst s'))"

lemma erasesD: "erases m' m \<Longrightarrow> m' s = (r, s') \<Longrightarrow> m (fst s) = (r, fst s')"
  unfolding erases_def by blast

named_theorems erases_intros \<open>introduction rules for programs that do the same and record events\<close>

lemma erases_basic [erases_intros]:
  "erases (io_return x) (io_return x)" "erases (io_fail e) (io_fail e)" "erases io_abort io_abort"
  "erases (io_lift r) (io_lift r)" "erases (ask (\<lambda>s. f (fst s))) (ask f)"
  "erases (record_ok ev m) m" "erases (record_call evs m) m"
  by (auto simp: erases_def io_defs ask_def record_ok_def record_call_def split: prod.splits)

lemma erases_bind [erases_intros]:
  assumes "erases m' m" and "\<And>x. erases (k' x) (k x)"
  shows "erases (io_bind m' k') (io_bind m k)"
  unfolding erases_def
proof (intro allI impI)
  fix s r s'
  assume run: "io_bind m' k' s = (r, s')"
  obtain r1 s1 where m': "m' s = (r1, s1)" by (cases "m' s")
  then have "m (fst s) = (r1, fst s1)" by (rule erasesD [OF assms(1)])
  then show "io_bind m k (fst s) = (r, fst s')" using run m'
    by (cases r1) (auto simp: io_bind_def dest: erasesD [OF assms(2)])
qed

lemma erases_catch [erases_intros]:
  assumes "erases m' m" and "\<And>e. erases (h' e) (h e)"
  shows "erases (io_catch m' h') (io_catch m h)"
  unfolding erases_def
proof (intro allI impI)
  fix s r s'
  assume run: "io_catch m' h' s = (r, s')"
  obtain r1 s1 where m': "m' s = (r1, s1)" by (cases "m' s")
  then have "m (fst s) = (r1, fst s1)" by (rule erasesD [OF assms(1)])
  then show "io_catch m h (fst s) = (r, fst s')" using run m'
    by (cases r1) (auto simp: io_catch_def dest: erasesD [OF assms(2)])
qed

lemma erases_warn [erases_intros]: "erases m' m \<Longrightarrow> erases (io_warn m') (io_warn m)"
  unfolding io_warn_def by (auto intro!: erases_intros)

lemma erases_fold:
  "(\<And>x. erases (f' x) (f x)) \<Longrightarrow> erases m' m \<Longrightarrow>
     erases (fold (\<lambda>x m. io_bind m (\<lambda>_. f' x)) xs m') (fold (\<lambda>x m. io_bind m (\<lambda>_. f x)) xs m)"
  by (induction xs arbitrary: m m') (simp_all add: erases_bind)

lemma erases_fold_pair [erases_intros]:
  "(\<And>x y. erases (f' x y) (f x y)) \<Longrightarrow>
     erases (fold (\<lambda>(x, y) m. io_bind m (\<lambda>_. f' x y)) xs (io_return ())) (fold (\<lambda>(x, y) m. io_bind m (\<lambda>_. f x y)) xs (io_return ()))"
  using erases_fold [of "\<lambda>(x, y). f' x y" "\<lambda>(x, y). f x y" "io_return ()" "io_return ()" xs, OF _ erases_basic(1)]
  by (simp add: case_prod_unfold)

lemma erases_if [erases_intros]: "erases m' m \<Longrightarrow> erases k' k \<Longrightarrow> erases (if c then m' else k') (if c then m else k)"
  by simp

lemma erases_claim_loop: "erases (claim_loop (traced_loop lo) fd tries) (claim_loop lo fd tries)"
proof (induction tries)
  case (Suc tries)
  show ?case unfolding claim_loop.simps traced_loop_sel(2)
    by (rule erases_bind [OF erases_basic(7)])
      (use erasesD [OF Suc] in \<open>auto simp: erases_def Let_def split: prod.splits loop_outcome.splits if_splits\<close>)
qed (simp add: erases_basic)

lemma erases_setup_loop [erases_intros]: "erases (r_setup_loop (traced_loop lo) fd sz) (r_setup_loop lo fd sz)"
  unfolding r_setup_loop_def
  by (auto intro!: erases_intros erases_claim_loop) (simp_all add: erases_def)

lemma erases_dm [erases_intros]:
  "erases (r_dm_setup (traced_dm dmo) dm) (r_dm_setup dmo dm)" "erases (r_dm_remove (traced_dm dmo) dm d) (r_dm_remove dmo dm d)"
  unfolding r_dm_setup_def r_dm_remove_def dm_configure_def Let_def traced_dm_sel by (intro erases_intros)+

lemma erases_mount [erases_intros]: "erases (r_mount_bundle (traced_mount mnt) dev mp) (r_mount_bundle mnt dev mp)"
  unfolding r_mount_bundle_def traced_mount_def by (rule erases_basic)

text \<open>The operations that go to the loop devices, the device mapper and the \<open>mount\<close> call.\<close>

definition on_kernel :: "'w loop_ops \<Rightarrow> 'w dm_ops \<Rightarrow> 'w mount_call \<Rightarrow> 'w mount_ops \<Rightarrow> bool" where
  "on_kernel lo dmo mnt mo \<longleftrightarrow> mo_setup_loop mo = r_setup_loop lo \<and> mo_dm_setup mo = r_dm_setup dmo \<and>
     mo_dm_remove mo = r_dm_remove dmo \<and> mo_mount mo = r_mount_bundle mnt"

lemma kernel_on_kernel: "on_kernel lo dmo mnt (kernel_mount_ops os lo dmo nbd nbd_remove stop reads mnt umount env cfg uuid)"
  by (simp add: on_kernel_def kernel_mount_ops_def)

lemma erases_remove_dm:
  assumes "on_kernel lo dmo mnt mo"
  shows "erases (remove_dm (traced lo dmo mnt mo) dm d) (remove_dm mo dm d)"
  using assms unfolding remove_dm_def on_kernel_def by (simp add: erases_intros)

lemma erases_layers:
  assumes on: "on_kernel lo dmo mnt mo"
  shows "erases (mount_layers (traced lo dmo mnt mo) dm layers mp) (mount_layers mo dm layers mp)"
  unfolding erases_def
proof (intro allI impI)
  fix s r s'
  let ?t = "traced lo dmo mnt mo"
  assume run: "mount_layers ?t dm layers mp s = (r, s')"
  let ?dev = "printed (dm_upper_dev dm)"
  let ?rm = "\<lambda>mo. fold (\<lambda>dm m. io_bind m (\<lambda>_. remove_dm mo dm True)) layers (io_return ())"
  obtain r1 s1 where m': "mo_mount ?t ?dev mp s = (r1, s1)" by (metis surj_pair)
  have m: "mo_mount mo ?dev mp (fst s) = (r1, fst s1)"
    using erasesD [OF erases_mount, of mnt ?dev mp s r1 s1] m' on by (simp add: on_kernel_def)
  obtain r2 s2 where rm': "?rm ?t s1 = (r2, s2)" by (metis surj_pair)
  have "erases (?rm ?t) (?rm mo)" by (intro erases_fold erases_remove_dm [OF on] erases_intros)
  then have "?rm mo (fst s1) = (r2, fst s2)" using rm' by (rule erasesD)
  then show "mount_layers mo dm layers mp (fst s) = (r, fst s')" using run m m' rm'
    by (cases r1; cases r2) (auto simp: mount_layers_def simp del: traced_sel)
qed

lemma erases_pre_check:
  assumes "on_kernel lo dmo mnt mo"
  shows "erases (pre_check (traced lo dmo mnt mo) cfg dm layers) (pre_check mo cfg dm layers)"
proof -
  have "erases (read_complete_dm_device (traced lo dmo mnt mo) dev) (read_complete_dm_device mo dev)" for dev
    using erases_basic(5) [of "\<lambda>w. result_bind (mo_reads mo dev w) read_chunks"] by (simp add: read_complete_dm_device_def)
  then show ?thesis unfolding pre_check_def by (auto intro!: erases_intros erases_remove_dm [OF assms])
qed

lemma layers_traced [simp]:
  "verity_layer (traced lo dmo mnt mo) = verity_layer mo" "crypt_layer (traced lo dmo mnt mo) = crypt_layer mo"
  by (simp_all add: fun_eq_iff verity_layer_def crypt_layer_def)

lemma erases_mount_device:
  assumes on: "on_kernel lo dmo mnt mo"
  shows "erases (mount_device (traced lo dmo mnt mo) cfg version streaming b mp) (mount_device mo cfg version streaming b mp)"
proof -
  let ?t = "traced lo dmo mnt mo"
  have calls: "erases (mo_setup_loop ?t fd sz) (mo_setup_loop mo fd sz)" "erases (mo_dm_setup ?t dm) (mo_dm_setup mo dm)"
      "erases (mo_mount ?t dev mp) (mo_mount mo dev mp)" for fd sz dm dev
    using on by (simp_all add: on_kernel_def erases_intros)
  have "erases (setup_device ?t streaming b) (setup_device mo streaming b)"
    unfolding setup_device_def using calls(1) by (auto intro: erases_intros split: option.split)
  moreover have "erases (mount_plain ?t version b dev mp) (mount_plain mo version b dev mp)" for dev
    unfolding mount_plain_def check_plain_manifest_def using calls(3) by (auto intro!: erases_intros)
  moreover have "erases (prepare_verity ?t cfg version b mf dev mp) (prepare_verity mo cfg version b mf dev mp)"
      "erases (prepare_crypt ?t cfg version b mf dev mp) (prepare_crypt mo cfg version b mf dev mp)" for mf dev
    unfolding prepare_verity_def prepare_crypt_def layers_traced
    by (intro erases_bind erases_catch erases_basic calls erases_remove_dm [OF on] erases_pre_check [OF on] erases_layers [OF on])+
  ultimately show ?thesis unfolding mount_device_def
    by (auto intro!: erases_intros split: option.split bundle_format.split)
qed

lemma mount_bundle_erase:
  assumes on: "on_kernel lo dmo mnt mo" and "mount_bundle (traced lo dmo mnt mo) cfg version streaming b s = (rb, s')"
  shows "mount_bundle mo cfg version streaming b (fst s) = (rb, fst s')"
proof -
  let ?t = "traced lo dmo mnt mo"
  obtain r1 s1 where c': "mo_create_mount_point ?t ''bundle'' s = (r1, s1)" by (metis surj_pair)
  have c: "mo_create_mount_point mo ''bundle'' (fst s) = (r1, fst s1)"
    by (rule erasesD [OF erases_basic(7) [of "[]"]]) (use c' in simp)
  show ?thesis
  proof (cases r1)
    case (Ok mp)
    obtain r2 s2 where d': "mount_device ?t cfg version streaming b mp s1 = (r2, s2)" by (metis surj_pair)
    have "mount_device mo cfg version streaming b mp (fst s1) = (r2, fst s2)"
      by (rule erasesD [OF erases_mount_device [OF on] d'])
    then show ?thesis using assms(2) c c' d' Ok
      by (cases r2) (auto simp: mount_bundle_def simp del: traced_sel(7) split: if_splits)
  qed (use assms(2) c c' in \<open>auto simp: mount_bundle_def simp del: traced_sel(7) split: if_splits\<close>)
qed

subsection \<open>Only signed content is mounted\<close>

text \<open>
  C10. Whatever the outcome of \<open>mount_bundle\<close> for a bundle that \<open>check_bundle\<close> has accepted with
  verification, it asks the kernel to mount only devices whose content is covered by the signature: for
  a plain bundle the loop device of the file and size that was verified, otherwise the top of a stack
  on the payload of which the lowest layer is a dm-verity device whose table, as loaded into the
  kernel, has the root hash, salt and size from the signed manifest. A crypt bundle has one more
  layer, with the key from the manifest. After a success the last of these devices is mounted. (A
  bundle accepted without verification is mounted unchecked.)
\<close>

theorem mounted_content_signed:
  assumes mo_def: "mo = kernel_mount_ops os lo dmo nbd nbd_remove stop reads mnt umount env cfg uuid"
    and "check_bundle env cfg params access nm w0 = (Ok b, w1)" and "\<not> CHECK_BUNDLE_NO_VERIFY params"
    and "mount_bundle (traced lo dmo mnt mo) cfg version streaming b (w, []) = ((r, b'), (w', tr))"
  shows "mounts_covered b tr \<and> (r = Ok () \<longrightarrow> (\<exists>dev tr0. tr = Ev_Mount dev # tr0)) \<and>
    mount_bundle mo cfg version streaming b w = ((r, b'), w') \<and>
    (\<exists>store. store_of env cfg params = Ok store \<and> authentic env (CHECK_BUNDLE_TRUST_ENV params) store b w1)"
proof -
  obtain store where store: "store_of env cfg params = Ok store" "authentic env (CHECK_BUNDLE_TRUST_ENV params) store b w1"
    using check_bundle_verified [OF assms(2,3)] by blast
  then have "\<not> bnd_verification_disabled b" by (simp add: authentic_def)
  from kernel.mount_bundle_trace [OF assms(4) this] mount_bundle_erase [OF kernel_on_kernel [of lo dmo mnt os] assms(4) [unfolded mo_def]] store
  show ?thesis by (auto simp: mo_def)
qed

text \<open>A streamed verity bundle with one block of data, and devices that always work.\<close>

definition verity_demo_key_file :: key_file where
  "verity_demo_key_file = [(''update'', [(''compatible'', ''demo'')]),
     (''bundle'', [(''format'', ''verity''), (''verity-hash'', replicate 64 CHR ''a''), (''verity-salt'', replicate 64 CHR ''0''),
        (''verity-size'', ''4096'')])]"

definition verity_demo_server :: nbd_server where
  "verity_demo_server = \<lparr>srv_data_size = 8201, srv_read = (\<lambda>pos n. Ok (if n = 8 then GUINT64_TO_BE 1 else [0]))\<rparr>"

definition verity_demo_env :: "(unit, unit) bundle_env" where
  "verity_demo_env = \<lparr>be_files = file_sim (\<lambda>_. bundle_demo_file), be_cms = cms_sim (\<lambda>mf. []), be_sha256 = (\<lambda>bs. bs),
     be_load = (\<lambda>s. Ok verity_demo_key_file), be_checksum = (\<lambda>s. s), be_version = ''1.15'', be_streaming = True,
     be_network = True, be_start_server = (\<lambda>u a. io_return verity_demo_server), be_download = (\<lambda>u n. io_fail G_SPAWN_ERROR_FAILED)\<rparr>"

definition demo_os :: "'w os" where
  "demo_os = \<lparr>os_run = (\<lambda>a w. (Exited 0 [], w)), os_file_exists = (\<lambda>p w. True), os_is_dir = (\<lambda>p w. True),
     os_realpath = (\<lambda>p w. Some p), os_read_file = (\<lambda>p w. Ok []), os_list_dir = (\<lambda>p w. None),
     os_mkdir_with_parents = (\<lambda>p. io_return ()), os_rmdir = (\<lambda>p w. w), os_rename = (\<lambda>p q. io_return ()),
     os_remove_tree = (\<lambda>p. io_return ()), os_load_key_file = (\<lambda>p w. Ok []), os_save_key_file = (\<lambda>p k. io_return ()),
     os_now = (\<lambda>w. 0), os_time_format = (\<lambda>t. []), os_time_parse = (\<lambda>s. None)\<rparr>"

definition demo_loop_ops :: "'w loop_ops" where
  "demo_loop_ops = \<lparr>lo_open_control = io_return (), lo_get_free = io_return 0, lo_open = (\<lambda>p w. (Loop_Ok, w)),
     lo_set_fd = (\<lambda>p f w. (Loop_Ok, w)), lo_set_status = (\<lambda>p s. io_return ()), lo_clr_fd = (\<lambda>p w. w),
     lo_set_block_size = (\<lambda>p w. w)\<rparr>"

definition demo_dm_ops :: "'w dm_ops" where
  "demo_dm_ops = \<lparr>dmo_open_control = io_return (), dmo_create = (\<lambda>n u. io_return ()),
     dmo_table_load = (\<lambda>u s t p. io_return ()), dmo_resume = (\<lambda>u. io_return 5), dmo_check_read = (\<lambda>d. io_return ()),
     dmo_status = (\<lambda>u. io_return ''V''), dmo_remove = (\<lambda>u d. io_return ())\<rparr>"

definition demo_mount :: "'w mount_call" where
  "demo_mount = (\<lambda>d m t f. io_return ())"

definition demo_mount_ops :: "unit mount_ops" where
  "demo_mount_ops = kernel_mount_ops demo_os demo_loop_ops demo_dm_ops (\<lambda>s. io_return ''/dev/nbd0'') (io_return ()) (io_return ())
     (\<lambda>d w. Ok []) demo_mount (\<lambda>m f. io_return ()) verity_demo_env check_demo_config (\<lambda>n. ''uuid'')"

theorem mounted_content_signed_witness:
  "\<exists>b w1 b' w' dev tr. check_bundle verity_demo_env check_demo_config check_demo_params None ''http://b'' () = (Ok b, w1) \<and>
     mount_bundle (traced demo_loop_ops demo_dm_ops demo_mount demo_mount_ops) check_demo_config ''1.15'' True b ((), []) = ((Ok (), b'), (w', Ev_Mount dev # tr)) \<and>
     mounts_covered b (Ev_Mount dev # tr)"
proof -
  let ?check = "check_bundle verity_demo_env check_demo_config check_demo_params None ''http://b'' ()"
  have "case ?check of (Ok b, w1) \<Rightarrow>
      is_ok (fst (fst (mount_bundle (traced demo_loop_ops demo_dm_ops demo_mount demo_mount_ops) check_demo_config ''1.15'' True b ((), [])))) | _ \<Rightarrow> False"
    by code_simp
  then obtain b w1 where b: "?check = (Ok b, w1)"
      "is_ok (fst (fst (mount_bundle (traced demo_loop_ops demo_dm_ops demo_mount demo_mount_ops) check_demo_config ''1.15'' True b ((), []))))"
    by (auto split: prod.splits result.splits)
  obtain r b' w' tr where run: "mount_bundle (traced demo_loop_ops demo_dm_ops demo_mount demo_mount_ops) check_demo_config ''1.15'' True b ((), []) = ((r, b'), (w', tr))"
    by (metis surj_pair)
  have "r = Ok ()" using b(2) run by (auto simp: is_ok_iff)
  moreover have "\<not> CHECK_BUNDLE_NO_VERIFY check_demo_params" by (simp add: check_demo_params_def)
  ultimately show ?thesis using mounted_content_signed [OF demo_mount_ops_def b(1) _ run] b(1) run by blast
qed

end
