(* ===== verification/Install_Status.thy ===== *)
theory Install_Status
  imports Install_Safety Manifest_Check
begin

text \<open>
  What an installation records about a slot: the status file says \<open>pending\<close> before the slot is
  written, and the status afterwards tells whether the write succeeded. Also the bundles that are
  refused before anything is written.
\<close>

subsection \<open>Pending while writing\<close>

text \<open>A writer with an assertion about the state it is called in.\<close>

definition asserting_writer :: "('w sys \<Rightarrow> bool) \<Rightarrow> 'w writer \<Rightarrow> 'w writer" where
  "asserting_writer P wr h img n hook s = (if P s then wr h img n hook s else (Abort, s))"

definition pending_on_disk :: "'w os \<Rightarrow> string \<Rightarrow> string \<Rightarrow> 'w sys \<Rightarrow> bool" where
  "pending_on_disk os path n s \<longleftrightarrow> (case os_load_key_file os path (snd s) of
      Ok kf \<Rightarrow> kf_get kf (status_group n) ''status'' = Some ''pending'' \<and> kf_get kf (status_group n) ''sha256'' = None
    | _ \<Rightarrow> False)"

lemma io_bind_cong:
  "(\<And>x s'. m s = (Ok x, s') \<Longrightarrow> k x s' = k' x s') \<Longrightarrow> io_bind m k s = io_bind m k' s"
  by (cases "m s") (auto simp: io_bind_def split: result.splits)

lemma io_first_cong:
  "m s = m' s \<Longrightarrow> io_bind m k s = io_bind m' k s" "m s = m' s \<Longrightarrow> io_catch m h s = io_catch m' h s"
  by (simp_all add: io_bind_def io_catch_def)

lemma names_frame: "boot_frame os (\<lambda>_. ())"
  by unfold_locales (simp_all add: preserves_def)

lemma load_keeps_names:
  assumes "r_slot_status_load os cfg n s = (r, s')"
  shows "map slot_name (fst s') = map slot_name (fst s)"
proof (rule names_view)
  from preservesD [OF boot_frame.load_leaves [OF names_frame] assms]
  show "name_view (fst s') = name_view (fst s)" by simp
qed

lemma mark_pending_saved:
  assumes "key_file_store os" and "cfg_statusfile_path cfg = Some path" and "path \<noteq> ''per-slot''"
    and "distinct (map slot_name (fst s))" and "slot_lookup (fst s) n = Some slot" and "slot_status slot = Some st"
    and "mark_pending os cfg n st s = (Ok (), s')"
  shows "pending_on_disk os path n s'"
proof -
  let ?st = "st\<lparr>st_status := Some ''pending'', st_checksum := (st_checksum st)\<lparr>cs_digest := None, cs_size := 0\<rparr>\<rparr>"
  let ?f = "\<lambda>s. s\<lparr>slot_status := map_option (\<lambda>st. st\<lparr>st_status := Some ''pending'',
    st_checksum := (st_checksum st)\<lparr>cs_digest := None, cs_size := 0\<rparr>\<rparr>) (slot_status s)\<rparr>"
  let ?ss = "slot_update (fst s) n ?f"
  obtain w1 where save: "save_slot_status_globally os cfg ?ss w1 = (Ok (), snd s')"
    using assms(2,3,7) by (auto simp: mark_pending_def modify_status_def r_slot_status_save_def io_iff sys_Error_iff)
  have look: "slot_lookup ?ss n = Some (?f slot)" using assms(5) by (simp add: slot_lookup_update)
  then have mem: "?f slot \<in> set ?ss" and nm: "slot_name slot = n"
    using slot_lookup_Some [OF look] slot_lookup_Some [OF assms(5)] by auto
  have dist: "distinct (map slot_name ?ss)" using assms(4) by simp
  obtain kf where load: "os_load_key_file os path (snd s') = Ok kf"
    by (rule key_file_store.saved_file [OF assms(1,2) save]) (rule that)
  have "kf_get kf (status_group n) k = kf_get (status_file_set_slot_status (os_time_format os) [] (status_group n) ?st) (status_group n) k"
    for k using key_file_store.saved_group [OF assms(1,2) save dist mem _ load] assms(6) nm by simp
  then show ?thesis by (simp add: pending_on_disk_def load set_slot_status_get)
qed

text \<open>
  C6. With a central status file, a slot is never written while the file still claims that it holds
  a known image: whenever the slot handler is called, the file on disk says \<open>pending\<close> and has no
  digest for the slot. (An assertion to that effect in front of every slot handler changes nothing.)
\<close>

theorem pending_before_write:
  assumes "key_file_store os" and "cfg_statusfile_path cfg = Some path" and "path \<noteq> ''per-slot''"
    and "distinct (map slot_name (fst s))" and "plan_target_slot p = Some n"
  shows "handle_slot_install_plan os (asserting_writer (pending_on_disk os path n) wr) cfg mf args hook p s
    = handle_slot_install_plan os wr cfg mf args hook p s"
proof (cases "plan_slot_handler p")
  case None
  then show ?thesis using assms(5) by (simp add: handle_slot_install_plan_def)
next
  case (Some h)
  have checked: "asserting_writer (pending_on_disk os path n) wr h (plan_image p) n hook s3 = wr h (plan_image p) n hook s3"
    if "modify_status n f s2 = (Ok (), s3)" "mark_pending os cfg n st s1 = (Ok (), s2)"
      "distinct (map slot_name (fst s1))" "slot_lookup (fst s1) n = Some slot" "slot_status slot = Some st" for s1 s2 s3 f st slot
  proof -
    have "pending_on_disk os path n s3"
      using mark_pending_saved [OF assms(1-3) that(3-5,2)] that(1)
      by (simp add: modify_status_def modify_slot_def pending_on_disk_def) auto
    then show ?thesis by (simp add: asserting_writer_def)
  qed
  have names: "distinct (map slot_name (fst s'))" if "r_slot_status_load os cfg n s = (Ok u, s')" for u s'
    using load_keeps_names [OF that] assms(4) by simp
  show ?thesis
    unfolding handle_slot_install_plan_def write_slot_def
    by (simp add: assms(5) Some, (rule io_bind_cong)+)
      (auto simp: io_iff split: option.splits intro!: io_bind_cong io_first_cong checked names)
qed

definition pending_demo_config :: rauc_config where
  "pending_demo_config = config_default\<lparr>cfg_statusfile_path := Some ''/data/central.raucs''\<rparr>"

definition pending_demo_plan :: install_plan where
  "pending_demo_plan = \<lparr>plan_image = mf_images plan_demo_manifest ! 0, plan_target_slot = Some ''rootfs.1'',
      plan_slot_handler = Some img_to_raw_handler, plan_target_repo = None\<rparr>"

theorem pending_before_write_witness:
  "handle_slot_install_plan kf_sim (asserting_writer (pending_on_disk kf_sim ''/data/central.raucs'' ''rootfs.1'')
     (\<lambda>h img n hook. io_return ())) pending_demo_config plan_demo_manifest install_demo_args None pending_demo_plan
     (mark_demo_slots, []) =
   handle_slot_install_plan kf_sim (\<lambda>h img n hook. io_return ()) pending_demo_config plan_demo_manifest
     install_demo_args None pending_demo_plan (mark_demo_slots, [])"
proof -
  have "cfg_statusfile_path pending_demo_config = Some ''/data/central.raucs''" "''/data/central.raucs'' \<noteq> ''per-slot''"
    "distinct (map slot_name (fst (mark_demo_slots, [] :: (string \<times> key_file) list)))"
    "plan_target_slot pending_demo_plan = Some ''rootfs.1''" by code_simp+
  from pending_before_write [OF kf_sim.key_file_store_axioms this] show ?thesis .
qed

subsection \<open>The recorded status\<close>

definition status_of :: "'w sys \<Rightarrow> string \<Rightarrow> rauc_slot_status option" where
  "status_of s n = Option.bind (slot_lookup (fst s) n) slot_status"

lemma keeps_status_of:
  assumes "keeps_status m" and "m s = (r, s')"
  shows "status_of s' n = status_of s n"
proof -
  have "status_of s n = Option.bind (map_option slot_status (slot_lookup (fst s) n)) (\<lambda>x. x)" for s :: "'a sys"
    by (cases "slot_lookup (fst s) n") (simp_all add: status_of_def)
  then show ?thesis using status_view_lookup [OF preservesD [OF assms]] by simp
qed

lemma modify_status_of:
  "modify_status n f s = (Ok (), s') \<Longrightarrow> status_of s' n = map_option f (status_of s n)"
  by (cases "slot_lookup (fst s) n") (auto simp: modify_status_def modify_slot_def status_of_def slot_lookup_update)

lemma record_status_of:
  assumes "record_status os n status mf img args s = (Ok (), s1)" and "r_slot_status_save os cfg n s1 = (Ok (), s')"
  shows "\<exists>now. status_of s' n = map_option (update_slot_status now status mf img args) (status_of s n)"
proof -
  have "modify_status n (update_slot_status (os_now os (snd s)) status mf img args) s = (Ok (), s1)"
    using assms(1) by (simp add: record_status_def io_bind_Ok_iff get_world_iff)
  note modify_status_of [OF this]
  then show ?thesis using keeps_status_of [OF keeps_save assms(2)] by auto
qed

lemma mark_pending_status:
  assumes "mark_pending os cfg n st s = (Ok (), s')" and "status_of s n = Some st0"
  shows "\<exists>st1. status_of s' n = Some st1 \<and> st_installed_count st1 = st_installed_count st0"
proof (cases "cfg_statusfile_path cfg = Some ''per-slot''")
  case True
  then show ?thesis using assms by (simp add: mark_pending_def io_iff)
next
  case False
  define rest where "rest = io_bind (get_slot n) (\<lambda>slot.
        io_bind (io_warn (in_world (r_slot_move_checksum_data_directory os slot (cs_digest (st_checksum st)) None))) (\<lambda>_.
          r_slot_status_save os cfg n))"
  from False obtain s1 where mod: "modify_status n (\<lambda>st. st\<lparr>st_status := Some ''pending'',
      st_checksum := (st_checksum st)\<lparr>cs_digest := None, cs_size := 0\<rparr>\<rparr>) s = (Ok (), s1)" and rest: "rest s1 = (Ok (), s')"
    using assms(1) unfolding mark_pending_def rest_def [symmetric] by (auto simp: io_bind_Ok_iff)
  have "keeps_status rest" unfolding rest_def by (intro preserves_intros)
  then show ?thesis using keeps_status_of [of rest s1 "Ok ()" s' n] rest modify_status_of [OF mod] assms(2) by simp
qed

text \<open>What the status of a slot says after a successful installation, when it was \<open>st0\<close> before.\<close>

definition status_records :: "rauc_manifest \<Rightarrow> rauc_image \<Rightarrow> install_args \<Rightarrow> rauc_slot_status \<Rightarrow> rauc_slot_status \<Rightarrow> bool" where
  "status_records mf img args st0 st \<longleftrightarrow> st_status st = Some ''ok'' \<and> st_checksum st = img_checksum img \<and>
     st_bundle_compatible st = mf_update_compatible mf \<and> st_bundle_version st = mf_update_version mf \<and>
     st_bundle_description st = mf_update_description mf \<and> st_bundle_build st = mf_update_build mf \<and>
     st_bundle_hash st = mf_hash mf \<and> st_installed_txn st = args_transaction args \<and>
     st_installed_timestamp st \<noteq> None \<and> st_installed_count st = st_installed_count st0 + 1"

lemma update_slot_status_records:
  "st_installed_count st1 = st_installed_count st0 \<Longrightarrow>
     status_records mf img args st0 (update_slot_status now ''ok'' mf img args st1)"
  by (simp add: status_records_def update_slot_status_def Let_def r_slot_clear_status_def)

text \<open>A slot handler that fails when it is called in the state \<open>s\<close>.\<close>

definition failing_at :: "'w sys \<Rightarrow> 'w writer \<Rightarrow> 'w writer" where
  "failing_at s wr h img n hook s' = (if s' = s then (Error (R_INSTALL_ERROR R_INSTALL_ERROR_FAILED), s') else wr h img n hook s')"

text \<open>A successful run of \<open>write_slot\<close>: the handler succeeded, and its success was needed.\<close>

lemma write_slot_Ok:
  assumes "write_slot os wr cfg mf args hook img n h st s = (Ok (), s')"
  obtains s1 s2 s3 s4 where "mark_pending os cfg n st s = (Ok (), s1)"
    "modify_status n (\<lambda>st. st\<lparr>st_status := Some ''update''\<rparr>) s1 = (Ok (), s2)"
    "wr h img n hook s2 = (Ok (), s3)" "record_status os n ''ok'' mf img args s3 = (Ok (), s4)"
    "r_slot_status_save os cfg n s4 = (Ok (), s')"
  using assms by (auto simp: write_slot_def io_bind_Ok_iff io_catch_Ok_iff io_fail_iff)

lemma write_slot_needs_handler:
  assumes "mark_pending os cfg n st s = (Ok (), s1)"
    and "modify_status n (\<lambda>st. st\<lparr>st_status := Some ''update''\<rparr>) s1 = (Ok (), s2)"
  shows "fst (write_slot os (failing_at s2 wr) cfg mf args hook img n h st s) \<noteq> Ok ()"
proof
  assume "fst (write_slot os (failing_at s2 wr) cfg mf args hook img n h st s) = Ok ()"
  then obtain s' where "write_slot os (failing_at s2 wr) cfg mf args hook img n h st s = (Ok (), s')" by (metis prod.collapse)
  then show False by (rule write_slot_Ok) (use assms in \<open>auto simp: failing_at_def\<close>)
qed

text \<open>The part of \<open>handle_slot_install_plan\<close> after the status of the slot is loaded.\<close>

lemma handle_slot_plan_loaded:
  assumes "plan_target_slot p = Some n" and "plan_slot_handler p = Some h" and "r_slot_status_load os cfg n s = (Ok (), s1)"
    and "slot_lookup (fst s1) n = Some slot" and "slot_mount_point slot = None" and "slot_status slot = Some st"
  shows "handle_slot_install_plan os wr cfg mf args hook p s =
    (if slot_up_to_date slot st (plan_image p)
     then io_bind (record_status os n ''ok'' mf (plan_image p) args) (\<lambda>_. r_slot_status_save os cfg n)
     else write_slot os wr cfg mf args hook (plan_image p) n h st) s1"
proof -
  have "get_slot n s1 = (Ok slot, s1)" using assms(4) by (simp add: get_slot_Ok_iff)
  then show ?thesis using assms by (simp add: handle_slot_install_plan_def io_bind_def)
qed

lemma handle_slot_plan_Ok:
  assumes "plan_target_slot p = Some n" and "handle_slot_install_plan os wr cfg mf args hook p s = (Ok (), s')"
  obtains h s1 slot st where "plan_slot_handler p = Some h" "r_slot_status_load os cfg n s = (Ok (), s1)"
    "slot_lookup (fst s1) n = Some slot" "slot_mount_point slot = None" "slot_status slot = Some st"
proof -
  obtain h where h: "plan_slot_handler p = Some h"
    using assms by (cases "plan_slot_handler p") (simp_all add: handle_slot_install_plan_def io_iff)
  let ?body = "\<lambda>slot st. if slot_up_to_date slot st (plan_image p)
            then io_bind (record_status os n ''ok'' mf (plan_image p) args) (\<lambda>_. r_slot_status_save os cfg n)
            else write_slot os wr cfg mf args hook (plan_image p) n h st"
  obtain u s1 slot where load: "r_slot_status_load os cfg n s = (Ok u, s1)" and look: "slot_lookup (fst s1) n = Some slot"
    and rest: "(if slot_mount_point slot \<noteq> None then io_fail (R_INSTALL_ERROR R_INSTALL_ERROR_MOUNTED)
        else case slot_status slot of None \<Rightarrow> io_abort | Some st \<Rightarrow> ?body slot st) s1 = (Ok (), s')"
    using assms(2) unfolding handle_slot_install_plan_def assms(1) h by (auto simp only: prod.case option.case io_bind_Ok_iff get_slot_Ok_iff)
  from rest obtain st where "slot_mount_point slot = None" "slot_status slot = Some st"
    by (cases "slot_mount_point slot"; cases "slot_status slot") (auto simp: io_fail_iff io_abort_iff)
  with h load look that show ?thesis by simp
qed

text \<open>
  C7. When the update of a slot succeeds, the slot's status describes the bundle and the image that
  were installed and counts one more installation, and the status \<open>ok\<close> is justified. Either the status
  loaded at the start of the update already said \<open>ok\<close> with the image's digest, and the slot is not
  configured to be written anyway (\<open>install-same\<close>); or the slot handler was called for this image and
  returned success, and without that success (with a handler that fails in the state in which it was
  called) the update would not have succeeded.
\<close>

theorem slot_install_recorded:
  assumes "\<And>h img n hook. keeps_status (wr h img n hook)" and "plan_target_slot p = Some n"
    and run: "handle_slot_install_plan os wr cfg mf args hook p s = (Ok (), s')"
  shows "\<exists>h s1 slot st0 st. plan_slot_handler p = Some h \<and> r_slot_status_load os cfg n s = (Ok (), s1) \<and>
     slot_lookup (fst s1) n = Some slot \<and> slot_status slot = Some st0 \<and>
     status_of s' n = Some st \<and> status_records mf (plan_image p) args st0 st \<and>
     (\<not> slot_install_same slot \<and> st_status st0 = Some ''ok'' \<and>
        cs_digest (st_checksum st0) = cs_digest (img_checksum (plan_image p)) \<or>
      (\<exists>s2 s3. wr h (plan_image p) n hook s2 = (Ok (), s3) \<and>
         fst (handle_slot_install_plan os (failing_at s2 wr) cfg mf args hook p s) \<noteq> Ok ()))"
proof -
  obtain h s1 slot st where
    l: "plan_slot_handler p = Some h" "r_slot_status_load os cfg n s = (Ok (), s1)"
      "slot_lookup (fst s1) n = Some slot" "slot_mount_point slot = None" "slot_status slot = Some st"
    using handle_slot_plan_Ok [OF assms(2) run] by blast
  note body = handle_slot_plan_loaded [OF assms(2) l, of _ mf args hook]
  have st: "status_of s1 n = Some st" using l by (simp add: status_of_def)
  show ?thesis
  proof (cases "slot_up_to_date slot st (plan_image p)")
    case True
    have "io_bind (record_status os n ''ok'' mf (plan_image p) args) (\<lambda>_. r_slot_status_save os cfg n) s1 = (Ok (), s')"
      using run unfolding body using True by simp
    then obtain s2 where "record_status os n ''ok'' mf (plan_image p) args s1 = (Ok (), s2)"
      "r_slot_status_save os cfg n s2 = (Ok (), s')" by (auto simp: io_bind_Ok_iff)
    from record_status_of [OF this] st obtain now where
      "status_of s' n = Some (update_slot_status now ''ok'' mf (plan_image p) args st)" by auto
    with True l show ?thesis
      by (intro exI [of _ h] exI [of _ s1] exI [of _ slot] exI [of _ st]
          exI [of _ "update_slot_status now ''ok'' mf (plan_image p) args st"])
        (simp add: slot_up_to_date_def update_slot_status_records)
  next
    case False
    have "write_slot os wr cfg mf args hook (plan_image p) n h st s1 = (Ok (), s')"
      using run unfolding body using False by simp
    then obtain s2 s3 s4 s5 where pend: "mark_pending os cfg n st s1 = (Ok (), s2)"
      and upd: "modify_status n (\<lambda>st. st\<lparr>st_status := Some ''update''\<rparr>) s2 = (Ok (), s3)"
      and wr: "wr h (plan_image p) n hook s3 = (Ok (), s4)"
      and rec: "record_status os n ''ok'' mf (plan_image p) args s4 = (Ok (), s5)" "r_slot_status_save os cfg n s5 = (Ok (), s')"
      by (rule write_slot_Ok)
    have "fst (handle_slot_install_plan os (failing_at s3 wr) cfg mf args hook p s) \<noteq> Ok ()"
      unfolding body using False write_slot_needs_handler [OF pend upd] by simp
    moreover obtain st1 where st1: "status_of s2 n = Some st1" "st_installed_count st1 = st_installed_count st"
      using mark_pending_status [OF pend st] by blast
    then have "status_of s4 n = Some (st1\<lparr>st_status := Some ''update''\<rparr>)"
      using modify_status_of [OF upd] keeps_status_of [OF assms(1) wr] by simp
    with record_status_of [OF rec] obtain now where
      "status_of s' n = Some (update_slot_status now ''ok'' mf (plan_image p) args (st1\<lparr>st_status := Some ''update''\<rparr>))" by auto
    moreover have "status_records mf (plan_image p) args st
        (update_slot_status now ''ok'' mf (plan_image p) args (st1\<lparr>st_status := Some ''update''\<rparr>))"
      by (rule update_slot_status_records) (simp add: st1)
    ultimately show ?thesis using wr l(1,2,3,5) by blast
  qed
qed

theorem slot_install_recorded_witness:
  "\<exists>st0 st. status_of (snd (handle_slot_install_plan install_demo_os install_demo_writer install_demo_config
       plan_demo_manifest install_demo_args None pending_demo_plan (mark_demo_slots, uboot_demo_env))) ''rootfs.1'' = Some st \<and>
     status_records plan_demo_manifest (plan_image pending_demo_plan) install_demo_args st0 st"
proof -
  let ?run = "handle_slot_install_plan install_demo_os install_demo_writer install_demo_config
       plan_demo_manifest install_demo_args None pending_demo_plan (mark_demo_slots, uboot_demo_env)"
  have "fst ?run = Ok ()" by code_simp
  then have run: "?run = (Ok (), snd ?run)" by (simp add: prod_eq_iff)
  have tgt: "plan_target_slot pending_demo_plan = Some ''rootfs.1''" by code_simp
  have "keeps_status (install_demo_writer h img n hook)" for h img n hook by (simp add: install_demo_writer_def preserves_basic)
  from slot_install_recorded [OF this tgt run] show ?thesis by blast
qed

subsection \<open>Refused bundles\<close>

definition refused :: "rauc_config \<Rightarrow> install_args \<Rightarrow> rauc_manifest \<Rightarrow> bool" where
  "refused cfg args mf \<longleftrightarrow>
     \<not> mf_install_check mf \<and> \<not> args_ignore_compatible args \<and> cfg_system_compatible cfg \<noteq> mf_update_compatible mf \<or>
     (\<exists>limit. cfg_system_min_bundle_version cfg = Some limit \<and> \<not> args_ignore_version_limit args \<and>
        (case mf_update_version mf of None \<Rightarrow> True | Some v \<Rightarrow> r_semver_less_equal limit v \<noteq> Ok True))"

lemma refused_checks:
  assumes "refused cfg args mf"
  shows "(\<not> mf_install_check mf \<and> verify_compatible cfg args mf \<noteq> Ok ()) \<or> check_version_limits cfg args mf \<noteq> Ok ()"
  using assms by (auto simp: refused_def verify_compatible_def check_version_limits_def io_iff split: option.splits)

lemma lift_not_Ok: "r \<noteq> Ok () \<Longrightarrow> io_bind (io_lift r) k s = io_bind (io_lift r) k' s \<and> fst (io_bind (io_lift r) k s) \<noteq> Ok y"
  by (cases r) (simp_all add: io_bind_def io_lift_def)

text \<open>The steps after the checks are never reached.\<close>

lemma refused_stops:
  assumes "refused cfg args mf"
  shows "io_bind (check_compatible launch ctx cfg args mp mf) (\<lambda>_. io_bind (io_lift (check_version_limits cfg args mf)) k) s =
      io_bind (check_compatible launch ctx cfg args mp mf) (\<lambda>_. io_bind (io_lift (check_version_limits cfg args mf)) k') s \<and>
    fst (io_bind (check_compatible launch ctx cfg args mp mf) (\<lambda>_.
      io_bind (io_lift (check_version_limits cfg args mf)) k) s) \<noteq> Ok y"
  using refused_checks [OF assms]
proof
  assume "\<not> mf_install_check mf \<and> verify_compatible cfg args mf \<noteq> Ok ()"
  then have lift: "check_compatible launch ctx cfg args mp mf = io_lift (verify_compatible cfg args mf)"
    and bad: "verify_compatible cfg args mf \<noteq> Ok ()" by (simp_all add: check_compatible_def)
  show ?thesis unfolding lift by (rule lift_not_Ok [OF bad])
next
  assume limit: "check_version_limits cfg args mf \<noteq> Ok ()"
  then show ?thesis
    using lift_not_Ok [OF limit, of k _ k'] lift_not_Ok [OF limit, of k _ k' y]
    by (cases "check_compatible launch ctx cfg args mp mf s") (auto simp: io_bind_def [of "check_compatible launch ctx cfg args mp mf"] split: result.splits)
qed

lemma io_bind_not_Ok:
  "(\<And>x s'. m s = (Ok x, s') \<Longrightarrow> fst (k x s') \<noteq> Ok y) \<Longrightarrow> fst (io_bind m k s) \<noteq> Ok y"
  by (cases "m s") (auto simp: io_bind_def split: result.splits)

lemma install_mounted_refused:
  assumes "refused cfg args mf"
  shows "install_mounted os launch shell wr arts ctx cfg args txn mp mf s =
      install_mounted os launch shell wr' arts' ctx cfg args txn mp mf s"
    and "fst (install_mounted os launch shell wr arts ctx cfg args txn mp mf s) \<noteq> Ok ()"
  unfolding install_mounted_def
  by (intro io_bind_cong refused_stops [OF assms, THEN conjunct1])
    (intro io_bind_not_Ok refused_stops [OF assms, THEN conjunct2])

lemma finally_umount_not_Ok: "fst (m s) \<noteq> Ok () \<Longrightarrow> fst (finally_umount bops bundle m s) \<noteq> Ok ()"
  by (auto simp: finally_umount_def split: prod.splits result.splits)

lemma finally_umount_cong: "m s = m' s \<Longrightarrow> finally_umount bops bundle m s = finally_umount bops bundle m' s"
  by (simp add: finally_umount_def)

text \<open>
  When the manifest of the bundle is refused once the bundle is mounted, the slot handlers and the
  artifact repositories make no difference to the installation, and it fails.
\<close>

lemma install_from_refused:
  assumes "bop_mount bops bd s = ((r, b), s1)" and "\<And>mf. bnd_manifest b = Some mf \<Longrightarrow> refused cfg args mf"
  shows "install_from os launch shell wr arts bops ctx cfg args txn bd s =
      install_from os launch shell wr' arts' bops ctx cfg args txn bd s \<and>
    fst (install_from os launch shell wr arts bops ctx cfg args txn bd s) \<noteq> Ok ()"
proof -
  let ?k = "\<lambda>wr arts _. case (bnd_mount_point b, bnd_manifest b) of
      (Some mp, Some mf) \<Rightarrow> install_mounted os launch shell wr arts ctx cfg args txn mp mf
    | _ \<Rightarrow> io_abort"
  have "?k wr arts () s2 = ?k wr' arts' () s2 \<and> fst (?k wr arts () s2) \<noteq> Ok ()" for s2
  proof (cases "bnd_mount_point b = None \<or> bnd_manifest b = None")
    case True
    then show ?thesis by (auto simp: io_abort_def split: option.splits)
  next
    case False
    then obtain mp mf where b: "bnd_mount_point b = Some mp" "bnd_manifest b = Some mf" by auto
    show ?thesis unfolding b prod.case option.case
      by (intro conjI install_mounted_refused assms(2) [OF b(2)])
  qed
  then have "io_bind (io_lift r) (?k wr arts) s1 = io_bind (io_lift r) (?k wr' arts') s1"
    and "fst (io_bind (io_lift r) (?k wr arts) s1) \<noteq> Ok ()"
    by (auto intro!: io_bind_cong io_bind_not_Ok)
  then show ?thesis
    unfolding install_from_def assms(1) prod.case by (intro conjI finally_umount_cong finally_umount_not_Ok)
qed

lemma do_install_refused:
  assumes "\<And>s1 b s2 r b' s3 mf. update_external_mount_points os mounts s = (Ok (), s1) \<Longrightarrow>
      bop_check bops (args_name args) s1 = (Ok b, s2) \<Longrightarrow> bop_mount bops b s2 = ((r, b'), s3) \<Longrightarrow>
      bnd_manifest b' = Some mf \<Longrightarrow> refused cfg args mf"
  shows "do_install_bundle os launch shell wr arts bops mounts uuid ctx cfg args s =
      do_install_bundle os launch shell wr' arts' bops mounts uuid ctx cfg args s \<and>
    fst (do_install_bundle os launch shell wr arts bops mounts uuid ctx cfg args s) \<noteq> Ok ()"
proof -
  have nm: "args_name (args\<lparr>args_transaction := t\<rparr>) = args_name args" for t by simp
  have refuse: "install_from os launch shell wr arts bops ctx cfg (args\<lparr>args_transaction := t\<rparr>) txn b s3 =
      install_from os launch shell wr' arts' bops ctx cfg (args\<lparr>args_transaction := t\<rparr>) txn b s3 \<and>
    fst (install_from os launch shell wr arts bops ctx cfg (args\<lparr>args_transaction := t\<rparr>) txn b s3) \<noteq> Ok ()"
    if "update_external_mount_points os mounts s = (Ok u, s1)" "bop_check bops (args_name args) s1 = (Ok b, s2)"
      "io_lift a s2 = (Ok v, s3)" for u s1 b s2 t txn v s3 and a :: "unit result"
  proof -
    have s3: "s3 = s2" using that(3) by (simp add: io_lift_iff)
    obtain r b' s4 where m: "bop_mount bops b s2 = ((r, b'), s4)" by (metis prod.exhaust)
    show ?thesis unfolding s3
      by (rule install_from_refused [OF m]) (use assms [OF _ that(2) m] that(1) in \<open>simp add: refused_def\<close>)
  qed
  show ?thesis
    unfolding do_install_bundle_def Let_def nm
    by (intro conjI io_bind_cong io_bind_not_Ok; erule (2) refuse [THEN conjunct1] refuse [THEN conjunct2])
qed

definition install_demo_context :: install_context where
  "install_demo_context = \<lparr>ctx_configpath = ''/etc/rauc/system.conf'', ctx_bootslot = Some ''A'', ctx_system_info = [],
     ctx_handlerextra = None, ctx_environ = []\<rparr>"

subsection \<open>Inputs that end the process\<close>

lemma pre_install_checks_append:
  "pre_install_checks os repos slots bundledir w ps = Ok ps' \<Longrightarrow>
     pre_install_check_plan os repos slots bundledir w p = Abort \<Longrightarrow>
     pre_install_checks os repos slots bundledir w (ps @ p # rest) = Abort"
  by (induction ps arbitrary: ps') (auto simp: result_bind_Ok_iff)

text \<open>
  C39. An image of type \<open>emptyfs\<close>, which must not have a file, ends the process when it is installed.
  In every manifest the parser accepts such an image has no file, and the check of bundled images
  accepts it unchanged; but when the plans of the default installation procedure contain it (without
  an install hook) and the plans before it pass the checks before the installation, the procedure ends
  in \<open>g_assert_not_reached\<close>, before anything is marked or written.
\<close>

theorem emptyfs_image_aborts:
  assumes "parse_manifest kf = (Ok mf, kf')" and "plan_image p \<in> set (mf_images mf)"
    and "img_type (plan_image p) = Some ''emptyfs''" and "\<not> hooks_install (plan_image p)"
    and "r_install_make_plans arts cfg mf' tg s = (Ok (ps @ p # rest), s1)"
    and "get_boot_mark_slot (fst s1) (ps @ p # rest) = Ok boot_mark_slot"
    and "pre_install_checks os (art_repos arts) (fst s1) bundledir (snd s1) ps = Ok ps'"
  shows "img_filename (plan_image p) = None \<and> check_bundled_image (plan_image p) = Ok (plan_image p) \<and>
    launch_and_wait_default_handler os wr arts cfg args bundledir mf' tg s = (Abort, s1)"
proof -
  have no_file: "img_filename (plan_image p) = None"
    using parsed_images_wf [OF assms(1)] assms(2,3) by (auto simp: list_all_iff image_wf_def)
  have "pre_install_check_plan os (art_repos arts) (fst s1) bundledir (snd s1) p = Abort"
    using no_file assms(4) by (simp add: pre_install_check_plan_def pre_install_check_image_def)
  from pre_install_checks_append [OF assms(7) this, of rest] no_file assms(5,6) show ?thesis
    by (simp add: check_bundled_image_def launch_and_wait_default_handler_def io_bind_def get_slots_def get_world_def io_lift_def)
qed

definition emptyfs_demo_kf :: key_file where
  "emptyfs_demo_kf = [(''update'', [(''compatible'', ''board'')]), (''bundle'', [(''format'', ''plain'')]),
     (''image.data'', [(''type'', ''emptyfs'')])]"

definition emptyfs_demo_image :: rauc_image where
  "emptyfs_demo_image = r_new_image\<lparr>img_slotclass := Some ''data'', img_type := Some ''emptyfs''\<rparr>"

definition emptyfs_demo_manifest :: rauc_manifest where
  "emptyfs_demo_manifest = manifest_new0\<lparr>mf_update_compatible := Some ''board'', mf_bundle_format_explicit := True,
     mf_images := [emptyfs_demo_image]\<rparr>"

definition emptyfs_demo_slots :: slots where
  "emptyfs_demo_slots = [(slot_new0 ''data.0'' ''data'')\<lparr>slot_device := ''/dev/d'', slot_type := ''ext4''\<rparr>]"

theorem emptyfs_image_aborts_witness:
  "parse_manifest emptyfs_demo_kf = (Ok emptyfs_demo_manifest, []) \<and>
   check_manifest_internal ''1.15'' emptyfs_demo_manifest = Ok emptyfs_demo_manifest \<and>
   launch_and_wait_default_handler (os_programs fw_env_sim) (\<lambda>h img n hook. io_return ()) plan_demo_arts config_default
     install_demo_args ''/mnt'' emptyfs_demo_manifest [(''data'', ''data.0'')] (emptyfs_demo_slots, []) =
     (Abort, (emptyfs_demo_slots, []))"
proof -
  let ?p = "\<lparr>plan_image = emptyfs_demo_image, plan_target_slot = Some ''data.0'',
      plan_slot_handler = Some archive_to_ext4_handler, plan_target_repo = None\<rparr>"
  have mf: "parse_manifest emptyfs_demo_kf = (Ok emptyfs_demo_manifest, [])" by code_simp
  have img: "plan_image ?p \<in> set (mf_images emptyfs_demo_manifest)" "img_type (plan_image ?p) = Some ''emptyfs''"
    "\<not> hooks_install (plan_image ?p)" by code_simp+
  have plans: "r_install_make_plans plan_demo_arts config_default emptyfs_demo_manifest [(''data'', ''data.0'')]
      (emptyfs_demo_slots, []) = (Ok ([] @ ?p # []), (emptyfs_demo_slots, []))" by code_simp
  have mark: "get_boot_mark_slot (fst (emptyfs_demo_slots, [] :: (string \<times> string) list)) ([] @ ?p # []) = Ok None" by code_simp
  have pre: "pre_install_checks (os_programs fw_env_sim) (art_repos plan_demo_arts) (fst (emptyfs_demo_slots, []))
      ''/mnt'' (snd (emptyfs_demo_slots, [])) [] = Ok []" by simp
  have "check_manifest_internal ''1.15'' emptyfs_demo_manifest = Ok emptyfs_demo_manifest" by code_simp
  with mf emptyfs_image_aborts [OF mf img plans mark pre] show ?thesis by blast
qed

text \<open>
  A status line \<open><< image\<close> without an image name, printed by a handler script, makes
  \<open>parse_handler_output\<close> read past the end of the array of words; every other line of output is
  handled.
\<close>

theorem handler_output_crash:
  "parse_handler_output line = Abort \<longleftrightarrow>
     g_str_has_prefix line ''<< '' \<and> (\<exists>w0. g_strsplit_max line (CHR '' '') 5 = [w0, ''image''])"
proof -
  have word: "status_word ws i = Abort \<longleftrightarrow> length ws < i" for ws i by (auto simp: status_word_def)
  have bind: "result_bind r k = Abort \<longleftrightarrow> r = Abort \<or> (\<exists>x. r = Ok x \<and> k x = Abort)" for r :: "string result" and k :: "string \<Rightarrow> string option result"
    by (cases r) auto
  define ws where "ws = g_strsplit_max line (CHR '' '') 5"
  have two: "length ws < 2 \<or> length ws = 2 \<or> 2 < length ws" by arith
  have "(\<exists>w0. ws = [w0, ''image'']) \<longleftrightarrow> length ws = 2 \<and> ws ! 1 = ''image''"
    by (auto simp: numeral_2_eq_2 length_Suc_conv)
  moreover have "status_word ws 2 \<noteq> Abort" if "\<not> length ws < 2" using that by (simp add: word)
  moreover have "\<exists>x. status_word ws 2 = Ok x" if "\<not> length ws < 2" using that by (auto simp: status_word_def)
  ultimately show ?thesis
    unfolding parse_handler_output_def Let_def ws_def [symmetric]
    by (auto simp: bind word)
qed

end
