(* ===== verification/Bundle_Install.thy ===== *)
theory Bundle_Install
  imports Bundle_Mount Install_Status
begin

text \<open>
  The installer on top of the bundle code: \<open>do_install_bundle\<close> with \<open>check_bundle\<close>,
  \<open>mount_bundle\<close> and \<open>umount_bundle\<close> as they are. The content of a verity or crypt bundle is only read
  after the signature of its manifest was verified, so that the size of the payload is chosen by whoever
  wrote the file.
\<close>

text \<open>\<open>CHECK_BUNDLE_DEFAULT\<close>\<close>

definition CHECK_BUNDLE_DEFAULT :: check_params where
  "CHECK_BUNDLE_DEFAULT = \<lparr>CHECK_BUNDLE_NO_VERIFY = False, CHECK_BUNDLE_NO_CHECK_TIME = False, CHECK_BUNDLE_TRUST_ENV = False\<rparr>"

definition program_bundle_ops :: "('w, 'x) bundle_env \<Rightarrow> 'w mount_ops \<Rightarrow> system_config \<Rightarrow> access_args
    \<Rightarrow> ('w, unit rauc_open_bundle_ext) bundle_ops" where
  "program_bundle_ops env mo cfg access =
     \<lparr>bop_check = (\<lambda>bundlename. in_world (check_bundle env cfg CHECK_BUNDLE_DEFAULT (Some access) bundlename)),
      bop_mount = (\<lambda>b s. case mount_bundle mo cfg (be_version env) (be_streaming env) b (snd s) of (r, w) \<Rightarrow> (r, (fst s, w))),
      bop_umount = (\<lambda>b. in_world (io_bind (umount_bundle mo (be_streaming env) b) (\<lambda>_. io_return ())))\<rparr>"

text \<open>
  C8. A bundle for another system is not installed, unless the bundle's own install-check hook decides
  or the caller ignores the compatible string; neither is one below the configured minimum version,
  unless the caller ignores the limit. When the bundle that the installer checks and mounts turns out
  to have such a manifest, the installation fails, and neither the slot handlers nor the artifact
  repositories are used: the outcome is the same for any other ones in their place.
\<close>

theorem refused_bundle_not_installed:
  assumes "update_external_mount_points os mounts s = (Ok (), (ss, w))"
    and "check_bundle env scfg CHECK_BUNDLE_DEFAULT (Some access) (args_name args) w = (Ok b, w1)"
    and "mount_bundle mo scfg (be_version env) (be_streaming env) b w1 = ((r, b'), w2)"
    and "bnd_manifest b' = Some mf" and "refused cfg args mf"
  shows "do_install_bundle os launch shell wr arts (program_bundle_ops env mo scfg access) mounts uuid ctx cfg args s =
      do_install_bundle os launch shell wr' arts' (program_bundle_ops env mo scfg access) mounts uuid ctx cfg args s \<and>
    fst (do_install_bundle os launch shell wr arts (program_bundle_ops env mo scfg access) mounts uuid ctx cfg args s) \<noteq> Ok ()"
  by (rule do_install_refused)
    (use assms in \<open>auto simp: program_bundle_ops_def in_world_def split: prod.splits\<close>)

definition refused_demo_args :: install_args where
  "refused_demo_args = \<lparr>args_name = ''http://b'', args_ignore_compatible = False, args_ignore_version_limit = False,
     args_require_manifest_hash = None, args_transaction = None\<rparr>"

abbreviation refused_demo_ops :: "(unit, unit rauc_open_bundle_ext) bundle_ops" where
  "refused_demo_ops \<equiv> program_bundle_ops verity_demo_env demo_mount_ops check_demo_config no_access_args"

theorem refused_bundle_not_installed_witness:
  "fst (do_install_bundle demo_os (\<lambda>argv env w. ((Exited 0 [], []), w)) (\<lambda>s. Ok []) (\<lambda>h img n hook. io_return ())
     \<lparr>art_repos = [], art_init = io_return (), art_prune = io_return (), art_install = (\<lambda>mf p. io_return ())\<rparr>
     refused_demo_ops (\<lambda>w. []) ''1'' install_demo_context (config_default\<lparr>cfg_system_compatible := Some ''board''\<rparr>)
     refused_demo_args ([], ())) \<noteq> Ok ()"
proof -
  let ?cfg = "config_default\<lparr>cfg_system_compatible := Some ''board''\<rparr>"
  let ?check = "check_bundle verity_demo_env check_demo_config CHECK_BUNDLE_DEFAULT (Some no_access_args) ''http://b'' ()"
  let ?mount = "\<lambda>b. mount_bundle demo_mount_ops check_demo_config (be_version verity_demo_env) (be_streaming verity_demo_env) b ()"
  have "case ?check of (Ok b, w1) \<Rightarrow> (case bnd_manifest (snd (fst (?mount b))) of
      Some mf \<Rightarrow> \<not> mf_install_check mf \<and> mf_update_compatible mf = Some ''demo'' | None \<Rightarrow> False) | _ \<Rightarrow> False"
    by code_simp
  then obtain b w1 mf where b: "?check = (Ok b, w1)" "bnd_manifest (snd (fst (?mount b))) = Some mf"
      "\<not> mf_install_check mf" "mf_update_compatible mf = Some ''demo''"
    by (auto split: prod.splits result.splits option.splits)
  obtain r b' w2 where m: "?mount b = ((r, b'), w2)" by (metis surj_pair)
  have "refused ?cfg refused_demo_args mf" using b(3,4) by (simp add: refused_def refused_demo_args_def)
  moreover have "update_external_mount_points demo_os (\<lambda>w. []) ([], ()) = (Ok (), ([], ()))"
    by (simp add: update_external_mount_points_def)
  moreover have "bnd_manifest b' = Some mf" using b(2) m by simp
  moreover have "args_name refused_demo_args = ''http://b''" by (simp add: refused_demo_args_def)
  ultimately show ?thesis using b(1) m by (intro refused_bundle_not_installed [THEN conjunct2]) simp_all
qed

lemma setup_loop_empty: "r_setup_loop lo fd 0 = io_fail ERROR_UNSET"
  by (simp add: r_setup_loop_def)

text \<open>
  C38. A local bundle without payload crashes the service: \<open>r_setup_loop\<close> refuses a size of 0 without
  setting an error, and the installer thread reads the message of that error. The signature of a verity
  bundle does not cover the size, so the file can be made from any such bundle by leaving out the payload.
\<close>

theorem stripped_bundle_crashes:
  assumes "mo = kernel_mount_ops os lo dmo nbd nbd_remove stop reads mount umount env scfg uuid"
    and "update_external_mount_points os mounts s = (Ok (), (ss, w))"
    and "check_bundle env scfg CHECK_BUNDLE_DEFAULT (Some access) (args_name args) w = (Ok b, w1)"
    and "bnd_size b = 0" and "bnd_stream b = Some fd" and "bundle_acceptable args b = Ok ()"
    and "mo_create_mount_point mo ''bundle'' w1 = (Ok mp, w2)"
  shows "\<exists>s'. install_thread (do_install_bundle os launch shell writer arts (program_bundle_ops env mo scfg access)
    mounts transaction ctx cfg args) s = (Abort, s')"
proof -
  have "\<not> CHECK_BUNDLE_NO_VERIFY CHECK_BUNDLE_DEFAULT" by (simp add: CHECK_BUNDLE_DEFAULT_def)
  from check_bundle_verified [OF assms(3) this] have "bnd_signature_verified b" and np: "bnd_mount_point b = None"
    by (auto simp: authentic_def)
  moreover note np
  moreover have "setup_device mo st b = io_fail ERROR_UNSET" for st
    using assms(1,4,5) by (simp add: setup_device_def kernel_mount_ops_def setup_loop_empty)
  ultimately have "\<exists>w3. mount_bundle mo scfg v st b w1 = ((Error ERROR_UNSET, b), w3)" for v st
    using assms(7) by (simp add: mount_bundle_def mount_device_def io_fail_def)
  then obtain w3 where "mount_bundle mo scfg (be_version env) (be_streaming env) b w1 = ((Error ERROR_UNSET, b), w3)" by blast
  moreover have "bundle_acceptable (args\<lparr>args_transaction := Some t\<rparr>) b = Ok ()" for t
    using assms(6) by (simp add: bundle_acceptable_def)
  ultimately show ?thesis using assms(2,3) np
    by (simp add: install_thread_def do_install_bundle_def Let_def install_from_def finally_umount_def program_bundle_ops_def
        in_world_def io_bind_def io_catch_def io_lift_def io_abort_def)
qed

definition stripped_demo_bundle :: vfile where
  "stripped_demo_bundle = bundle_demo_file\<lparr>vf_bytes := [0] @ GUINT64_TO_BE 1\<rparr>"

abbreviation stripped_demo_env :: "(vfile, unit) bundle_env" where
  "stripped_demo_env \<equiv> bundle_sim (\<lambda>mf. []) (\<lambda>s. Ok verity_demo_key_file) (\<lambda>bs. bs)"

definition stripped_demo_ops :: "vfile mount_ops" where
  "stripped_demo_ops = kernel_mount_ops demo_os demo_loop_ops demo_dm_ops (\<lambda>s. io_return ''/dev/nbd0'') (io_return ()) (io_return ())
     (\<lambda>d w. Ok []) (\<lambda>d m t f. io_return ()) (\<lambda>m f. io_return ()) stripped_demo_env check_demo_config (\<lambda>n. ''uuid'')"

definition stripped_demo_args :: install_args where
  "stripped_demo_args = \<lparr>args_name = ''b.raucb'', args_ignore_compatible = False, args_ignore_version_limit = False,
     args_require_manifest_hash = None, args_transaction = None\<rparr>"

theorem stripped_bundle_crashes_witness:
  "\<exists>s'. install_thread (do_install_bundle demo_os (\<lambda>argv env w. ((Exited 0 [], []), w)) (\<lambda>s. Ok [])
      (\<lambda>h img n hook. io_return ())
      \<lparr>art_repos = [], art_init = io_return (), art_prune = io_return (), art_install = (\<lambda>mf p. io_return ())\<rparr>
      (program_bundle_ops stripped_demo_env stripped_demo_ops check_demo_config no_access_args)
      (\<lambda>w. []) ''id'' install_demo_context config_default stripped_demo_args) ([], stripped_demo_bundle) = (Abort, s')"
proof -
  let ?check = "check_bundle stripped_demo_env check_demo_config CHECK_BUNDLE_DEFAULT (Some no_access_args) ''b.raucb'' stripped_demo_bundle"
  have "case ?check of (Ok b, w1) \<Rightarrow> bnd_size b = 0 \<and> bnd_stream b = Some ''b.raucb'' \<and> bundle_acceptable stripped_demo_args b = Ok ()
      \<and> fst (mo_create_mount_point stripped_demo_ops ''bundle'' w1) = Ok ''bundle'' | _ \<Rightarrow> False"
    by code_simp
  then obtain b w1 where b: "?check = (Ok b, w1)" "bnd_size b = 0" "bnd_stream b = Some ''b.raucb''"
      "bundle_acceptable stripped_demo_args b = Ok ()"
      "fst (mo_create_mount_point stripped_demo_ops ''bundle'' w1) = Ok ''bundle''"
    by (auto split: prod.splits result.splits)
  then obtain w2 where "mo_create_mount_point stripped_demo_ops ''bundle'' w1 = (Ok ''bundle'', w2)" by (metis prod.collapse)
  moreover have "update_external_mount_points demo_os (\<lambda>w. []) ([], stripped_demo_bundle) = (Ok (), ([], stripped_demo_bundle))"
    by (simp add: update_external_mount_points_def)
  moreover have "args_name stripped_demo_args = ''b.raucb''" by (simp add: stripped_demo_args_def)
  ultimately show ?thesis using b by (intro stripped_bundle_crashes [OF stripped_demo_ops_def]) simp_all
qed

text \<open>A payload that is not a multiple of the block size ends \<open>check_bundle_payload\<close> with an assertion.\<close>

lemma unaligned_payload_aborts:
  assumes "check_manifest_external (be_version env) mf = Ok mf'" and "bnd_size b mod 4096 \<noteq> 0"
    and "\<not> bnd_verification_disabled b" "\<not> bnd_payload_verified b" "bnd_exclusive_verified b" "bnd_stream b = Some fd"
    and "bnd_manifest b = Some mf"
  shows "check_bundle_payload env b w = (Abort, w)"
  using assms by (auto simp: check_bundle_payload_def verify_verity_payload_def io_bind_def io_lift_def ask_def Let_def
      split: option.split prod.split)

end
