(* ===== verification/Manifest_Roundtrip.thy ===== *)
theory Manifest_Roundtrip
  imports Manifest_Check
begin

text \<open>
  The printer of manifests and its parser are inverse to each other.

  A section is described by its entries: for every key the value, if there is one. The printer
  appends one section after the other, and the parser takes them apart in the same order, so each
  parser works on the first section of the key file.
\<close>

subsection \<open>Sections\<close>

type_synonym entries = "(string \<times> string option) list"

definition kvs_of :: "entries \<Rightarrow> kf_group" where
  "kvs_of es = concat (map (\<lambda>(k, v). case v of None \<Rightarrow> [] | Some s \<Rightarrow> [(k, s)]) es)"

definition sect :: "string \<Rightarrow> kf_group \<Rightarrow> key_file" where
  "sect g ks = (if ks = [] then [] else [(g, ks)])"

definition entry :: "entries \<Rightarrow> string \<Rightarrow> string option" where
  "entry es k = (case map_of es k of None \<Rightarrow> None | Some v \<Rightarrow> v)"

lemma kvs_of_Nil [simp]: "kvs_of [] = []"
  by (simp add: kvs_of_def)

lemma kvs_of_simps:
  "kvs_of ((k, None) # es) = kvs_of es"
  "kvs_of ((k, Some s) # es) = (k, s) # kvs_of es"
  by (simp_all add: kvs_of_def)

lemma kvs_of_Cons: "kvs_of ((k, v) # es) = (case v of None \<Rightarrow> [] | Some s \<Rightarrow> [(k, s)]) @ kvs_of es"
  by (cases v) (simp_all add: kvs_of_simps)

lemma kvs_of_append: "kvs_of (es @ fs) = kvs_of es @ kvs_of fs"
  by (simp add: kvs_of_def)

lemma keys_kvs_of: "fst ` set (kvs_of es) \<subseteq> fst ` set es"
proof (induction es)
  case (Cons e es)
  then show ?case by (cases e; cases "snd e") (auto simp: kvs_of_simps)
qed simp

lemma map_of_kvs_of: "distinct (map fst es) \<Longrightarrow> map_of (kvs_of es) k = entry es k"
proof (induction es)
  case (Cons e es)
  obtain k' v where e: "e = (k', v)" by (cases e)
  from Cons.prems e have "k' \<notin> fst ` set es" by simp
  then have "map_of (kvs_of es) k' = None"
    using keys_kvs_of [of es] by (auto simp: map_of_eq_None_iff)
  with Cons e show ?case by (auto simp: entry_def kvs_of_Cons split: option.splits)
qed (simp add: entry_def)

lemma delete_kvs_of: "AList.delete k (kvs_of es) = kvs_of (AList.delete k es)"
  by (induction es) (auto simp: kvs_of_Cons split: option.splits)

lemma delete_entry_None: "distinct (map fst es) \<Longrightarrow> entry es k = None \<Longrightarrow> kvs_of (AList.delete k es) = kvs_of es"
proof -
  assume "distinct (map fst es)" "entry es k = None"
  then have "map_of (kvs_of es) k = None" by (simp add: map_of_kvs_of)
  then have "k \<notin> fst ` set (kvs_of es)" by (simp add: map_of_eq_None_iff)
  then have "AList.delete k (kvs_of es) = kvs_of es" by (rule delete_id)
  then show ?thesis by (simp add: delete_kvs_of)
qed

subsection \<open>Writing a section\<close>

lemma update_not_in: "g \<notin> fst ` set kf \<Longrightarrow> AList.update g v kf = kf @ [(g, v)]"
  by (induction kf) auto

lemma update_append_not_in: "g \<notin> fst ` set kf \<Longrightarrow> AList.update g v (kf @ ks) = kf @ AList.update g v ks"
  by (induction kf) auto

lemma kf_keys_append: "g \<notin> fst ` set kf \<Longrightarrow> kf_keys (kf @ sect g ks) g = ks"
proof -
  assume "g \<notin> fst ` set kf"
  then have "map_of kf g = None" by (simp add: map_of_eq_None_iff)
  then show ?thesis by (simp add: kf_keys_def sect_def map_add_def)
qed

lemma set_string_sect:
  assumes "g \<notin> fst ` set kf" and "k \<notin> fst ` set ks"
  shows "g_key_file_set_string (kf @ sect g ks) g k v = kf @ sect g (ks @ [(k, v)])"
  using assms
  by (simp add: g_key_file_set_string_def kf_keys_append update_not_in update_append_not_in)
    (simp add: sect_def)

definition set_entries :: "string \<Rightarrow> entries \<Rightarrow> key_file \<Rightarrow> key_file" where
  "set_entries g es kf = fold (\<lambda>(k, v) kf. set_string_opt g k v kf) es kf"

lemma set_entries_sect:
  assumes "g \<notin> fst ` set kf" and "distinct (map fst es)" and "fst ` set ks \<inter> fst ` set es = {}"
  shows "set_entries g es (kf @ sect g ks) = kf @ sect g (ks @ kvs_of es)"
  using assms(2,3)
proof (induction es arbitrary: ks)
  case (Cons e es)
  obtain k v where e: "e = (k, v)" by (cases e)
  show ?case
  proof (cases v)
    case None
    with Cons e show ?thesis by (simp add: set_entries_def set_string_opt_def kvs_of_simps)
  next
    case (Some s)
    have "k \<notin> fst ` set ks" using Cons.prems(2) e by auto
    then have "set_string_opt g k v (kf @ sect g ks) = kf @ sect g (ks @ [(k, s)])"
      using assms(1) Some by (simp add: set_string_opt_def set_string_sect)
    moreover have "set_entries g es (kf @ sect g (ks @ [(k, s)])) = kf @ sect g ((ks @ [(k, s)]) @ kvs_of es)"
      using Cons.prems e by (intro Cons.IH) auto
    ultimately show ?thesis using e Some by (simp add: set_entries_def kvs_of_simps)
  qed
qed (simp add: set_entries_def)

lemma set_entries_new:
  assumes "g \<notin> fst ` set kf" and "distinct (map fst es)"
  shows "set_entries g es kf = kf @ sect g (kvs_of es)"
  using set_entries_sect [OF assms, of "[]"] by (simp add: sect_def)

subsection \<open>Reading the first section\<close>

lemma update_head: "AList.update g v ((g, w) # rest) = (g, v) # rest"
  by simp

lemma get_string_head:
  "distinct (map fst es) \<Longrightarrow> g_key_file_get_string ((g, kvs_of es) # rest) g k =
     (case entry es k of None \<Rightarrow> Error (G_KEY_FILE_ERROR G_KEY_FILE_ERROR_KEY_NOT_FOUND) | Some v \<Rightarrow> Ok v)"
  by (simp add: g_key_file_get_string_def map_of_kvs_of)

lemma remove_key_head:
  "g_key_file_remove_key ((g, kvs_of es) # rest) g k = (g, kvs_of (AList.delete k es)) # rest"
  by (simp add: g_key_file_remove_key_def delete_kvs_of)

lemma consume_string_head:
  assumes "distinct (map fst es)" and "entry es k \<noteq> Some []"
  shows "key_file_consume_string ((g, kvs_of es) # rest) g k =
    ((case entry es k of None \<Rightarrow> Error (G_KEY_FILE_ERROR G_KEY_FILE_ERROR_KEY_NOT_FOUND) | Some v \<Rightarrow> Ok v),
     (g, kvs_of (AList.delete k es)) # rest)"
  using assms
  by (auto simp: key_file_consume_string_def get_string_head remove_key_head delete_entry_None split: option.splits)

lemma consume_opt_head:
  assumes "distinct (map fst es)" and "entry es k \<noteq> Some []"
  shows "consume_opt g k ((g, kvs_of es) # rest) = (Ok (entry es k), (g, kvs_of (AList.delete k es)) # rest)"
  using consume_string_head [OF assms, of g rest]
  by (simp add: consume_opt_def key_file_consume_string_opt_def split: option.splits)

lemma consume_unless_missing_head:
  assumes "distinct (map fst es)" and "entry es k \<noteq> Some []"
  shows "consume_unless_missing g k ((g, kvs_of es) # rest) =
    (Ok (entry es k), (g, kvs_of (AList.delete k es)) # rest)"
  using consume_string_head [OF assms, of g rest]
  by (simp add: consume_unless_missing_eq split: option.splits)

lemma get_list_head:
  "distinct (map fst es) \<Longrightarrow>
     g_key_file_get_string_list ((g, kvs_of es) # rest) g k = map_option kf_parse_list (entry es k)"
  by (simp add: g_key_file_get_string_list_def kf_get_def kf_keys_def map_of_kvs_of)

lemma consume_list_head:
  "distinct (map fst es) \<Longrightarrow> consume_list g k ((g, kvs_of es) # rest) =
     (Ok (map_option kf_parse_list (entry es k)), (g, kvs_of (AList.delete k es)) # rest)"
  by (simp add: consume_list_def get_list_head remove_key_head)

lemma remove_key_parser_head:
  "remove_key g k ((g, kvs_of es) # rest) = (Ok (), (g, kvs_of (AList.delete k es)) # rest)"
  by (simp add: remove_key_def remove_key_head)

lemma get_uint64_head:
  assumes "distinct (map fst es)" and "entry es k = Some (nat_str 10 (unat n))"
  shows "g_key_file_get_uint64 ((g, kvs_of es) # rest) g k = Ok n"
proof (rule get_uint64_set)
  show "kf_get ((g, kvs_of es) # rest) g k = Some (nat_str 10 (unat n))"
    using assms by (simp add: kf_get_def kf_keys_def map_of_kvs_of)
qed

lemma get_uint64_missing_head:
  "distinct (map fst es) \<Longrightarrow> entry es k = None \<Longrightarrow>
     g_key_file_get_uint64 ((g, kvs_of es) # rest) g k = Error (G_KEY_FILE_ERROR G_KEY_FILE_ERROR_KEY_NOT_FOUND)"
  by (simp add: g_key_file_get_uint64_def get_string_head)

lemma close_group_head:
  "g \<notin> fst ` set rest \<Longrightarrow> close_group g ((g, []) # rest) = (Ok (), rest)"
  by (simp add: close_group_def io_bind_def kf_query_def check_remaining_keys_def g_key_file_get_keys_def
      kf_keys_def remove_group_def g_key_file_remove_group_def delete_id fail_if_def)

lemma missing_None: "g \<notin> fst ` set rest \<Longrightarrow> map_of rest g = None"
  by (simp add: map_of_eq_None_iff)

lemma close_group_missing:
  "g \<notin> fst ` set rest \<Longrightarrow> close_group g rest = (Ok (), rest)"
  by (simp add: close_group_def io_bind_def kf_query_def check_remaining_keys_def g_key_file_get_keys_def
      kf_keys_def remove_group_def g_key_file_remove_group_def delete_id fail_if_def missing_None)

lemma missing_get: "g \<notin> fst ` set rest \<Longrightarrow>
    g_key_file_get_string rest g k = Error (G_KEY_FILE_ERROR G_KEY_FILE_ERROR_GROUP_NOT_FOUND)"
  by (simp add: g_key_file_get_string_def missing_None)

lemma consume_opt_missing: "g \<notin> fst ` set rest \<Longrightarrow> consume_opt g k rest = (Ok None, rest)"
  by (simp add: consume_opt_def key_file_consume_string_opt_def key_file_consume_string_def missing_get)

lemma consume_list_missing: "g \<notin> fst ` set rest \<Longrightarrow> consume_list g k rest = (Ok None, rest)"
  by (simp add: consume_list_def g_key_file_get_string_list_def kf_get_def kf_keys_def
      g_key_file_remove_key_def missing_None)

lemma entry_simps [simp]:
  "entry [] k = None"
  "entry ((k, v) # es) k' = (if k = k' then v else entry es k')"
  by (simp_all add: entry_def)

lemma empty_head_simps:
  "consume_opt g k ((g, []) # rest) = (Ok None, (g, []) # rest)"
  "consume_list g k ((g, []) # rest) = (Ok None, (g, []) # rest)"
  "remove_key g k ((g, []) # rest) = (Ok (), (g, []) # rest)"
  using consume_opt_head [of "[]" k g rest] consume_list_head [of "[]" g k rest]
    remove_key_parser_head [of g k "[]" rest] by simp_all

lemmas head_simps = io_bind_def empty_head_simps consume_opt_head consume_unless_missing_head consume_list_head
  remove_key_parser_head close_group_head io_return_def io_lift_def kf_query_def fail_if_def

lemmas missing_simps = io_bind_def consume_opt_missing consume_list_missing close_group_missing
  io_return_def io_lift_def kf_query_def fail_if_def

subsection \<open>The fixed sections\<close>

definition text_set :: "string option \<Rightarrow> bool" where
  "text_set v \<longleftrightarrow> v \<noteq> Some []"

definition update_entries :: "rauc_manifest \<Rightarrow> entries" where
  "update_entries mf = [(''compatible'', mf_update_compatible mf), (''version'', mf_update_version mf),
     (''description'', mf_update_description mf), (''build'', mf_update_build mf)]"

definition handler_entries :: "rauc_manifest \<Rightarrow> entries" where
  "handler_entries mf = [(''filename'', mf_handler_name mf), (''args'', mf_handler_args mf)]"

definition hooks_entries :: "rauc_manifest \<Rightarrow> entries" where
  "hooks_entries mf = [(''filename'', mf_hook_name mf),
     (''hooks'', if mf_install_check mf then Some ''install-check;'' else None)]"

definition bundle_entries :: "rauc_manifest \<Rightarrow> entries" where
  "bundle_entries mf = (case mf_bundle_format mf of
      R_MANIFEST_FORMAT_PLAIN \<Rightarrow> [(''format'', if mf_bundle_format_explicit mf then Some ''plain'' else None)]
    | fmt \<Rightarrow> (if fmt = R_MANIFEST_FORMAT_CRYPT then [(''crypt-key'', mf_bundle_crypt_key mf)] else []) @
        [(''format'', Some (r_manifest_bundle_format_to_str fmt)), (''verity-hash'', mf_bundle_verity_hash mf),
         (''verity-salt'', mf_bundle_verity_salt mf),
         (''verity-size'', if mf_bundle_verity_size mf \<noteq> 0 then Some (nat_str 10 (unat (mf_bundle_verity_size mf))) else None)])"

definition bundle_printable :: "rauc_manifest \<Rightarrow> bool" where
  "bundle_printable mf \<longleftrightarrow> (case mf_bundle_format mf of
      R_MANIFEST_FORMAT_PLAIN \<Rightarrow> mf_bundle_crypt_key mf = None \<and> mf_bundle_verity_hash mf = None \<and>
        mf_bundle_verity_salt mf = None \<and> mf_bundle_verity_size mf = 0
    | fmt \<Rightarrow> mf_bundle_format_explicit mf \<and> text_set (mf_bundle_verity_hash mf) \<and>
        text_set (mf_bundle_verity_salt mf) \<and> text_set (mf_bundle_crypt_key mf) \<and>
        (fmt = R_MANIFEST_FORMAT_VERITY \<longrightarrow> mf_bundle_crypt_key mf = None))"

lemma parse_update_head:
  assumes "''update'' \<notin> fst ` set rest" and "mf_update_compatible mf = Some c" and "c \<noteq> []"
    and "text_set (mf_update_version mf)" "text_set (mf_update_description mf)" "text_set (mf_update_build mf)"
  shows "parse_update m (sect ''update'' (kvs_of (update_entries mf)) @ rest) =
    (Ok (m\<lparr>mf_update_compatible := Some c, mf_update_version := mf_update_version mf,
       mf_update_description := mf_update_description mf, mf_update_build := mf_update_build mf,
       mf_update_min_rauc_version := None\<rparr>), rest)"
proof -
  let ?es = "[(''compatible'', Some c), (''version'', mf_update_version mf),
     (''description'', mf_update_description mf), (''build'', mf_update_build mf)]"
  have "consume ''update'' ''compatible'' ((''update'', kvs_of ?es) # rest) =
      (Ok c, (''update'', kvs_of (AList.delete ''compatible'' ?es)) # rest)"
    unfolding consume_def using assms(3) by (subst consume_string_head) simp_all
  moreover have "sect ''update'' (kvs_of (update_entries mf)) @ rest = (''update'', kvs_of ?es) # rest"
    using assms(2) by (simp add: update_entries_def sect_def kvs_of_simps)
  ultimately show ?thesis
    using assms by (simp add: parse_update_def head_simps text_set_def)
qed

lemma parse_handler_head:
  assumes "''handler'' \<notin> fst ` set rest" and "text_set (mf_handler_name mf)" and "text_set (mf_handler_args mf)"
    and "mf_handler_args mf \<noteq> None \<longrightarrow> mf_handler_name mf \<noteq> None"
  shows "parse_handler m (sect ''handler'' (kvs_of (handler_entries mf)) @ rest) =
    (Ok (m\<lparr>mf_handler_name := mf_handler_name mf, mf_handler_args := mf_handler_args mf\<rparr>), rest)"
proof (cases "mf_handler_name mf")
  case None
  with assms show ?thesis
    by (simp add: parse_handler_def handler_entries_def kvs_of_simps sect_def missing_simps)
next
  case (Some h)
  then have s: "sect ''handler'' (kvs_of (handler_entries mf)) @ rest =
      (''handler'', kvs_of [(''filename'', Some h), (''args'', mf_handler_args mf)]) # rest"
    by (simp add: sect_def handler_entries_def kvs_of_simps)
  from assms Some show ?thesis
    unfolding s by (simp add: parse_handler_def head_simps text_set_def)
qed

lemma kf_parse_list_hooks: "kf_parse_list ''install-check;'' = [''install-check'']"
  by code_simp

lemma parse_hooks_head:
  assumes "''hooks'' \<notin> fst ` set rest" and "text_set (mf_hook_name mf)"
  shows "parse_hooks m (sect ''hooks'' (kvs_of (hooks_entries mf)) @ rest) =
    (Ok (m\<lparr>mf_hook_name := mf_hook_name mf, mf_install_check := mf_install_check m \<or> mf_install_check mf\<rparr>), rest)"
proof (cases "mf_hook_name mf = None \<and> \<not> mf_install_check mf")
  case True
  with assms show ?thesis
    by (simp add: parse_hooks_def hooks_entries_def kvs_of_simps sect_def missing_simps Let_def)
next
  case False
  then have s: "sect ''hooks'' (kvs_of (hooks_entries mf)) @ rest = (''hooks'', kvs_of (hooks_entries mf)) # rest"
    by (auto simp: sect_def hooks_entries_def kvs_of_Cons split: option.splits)
  from assms False show ?thesis
    unfolding s by (simp add: parse_hooks_def hooks_entries_def head_simps text_set_def Let_def kf_parse_list_hooks)
qed

lemma parse_bundle_head:
  assumes "''bundle'' \<notin> fst ` set rest" and "bundle_printable mf"
    and "m = manifest_new0\<lparr>mf_update_compatible := c, mf_update_version := v, mf_update_description := d,
      mf_update_build := b, mf_update_min_rauc_version := None\<rparr>"
  shows "parse_bundle m (sect ''bundle'' (kvs_of (bundle_entries mf)) @ rest) =
    (Ok (m\<lparr>mf_bundle_format := mf_bundle_format mf, mf_bundle_format_explicit := mf_bundle_format_explicit mf,
       mf_bundle_crypt_key := mf_bundle_crypt_key mf, mf_bundle_verity_hash := mf_bundle_verity_hash mf,
       mf_bundle_verity_salt := mf_bundle_verity_salt mf, mf_bundle_verity_size := mf_bundle_verity_size mf,
       mf_warnings := if mf_bundle_format_explicit mf then [] else format_warnings\<rparr>), rest)"
proof (cases "mf_bundle_format mf")
  case R_MANIFEST_FORMAT_PLAIN
  show ?thesis
  proof (cases "mf_bundle_format_explicit mf")
    case True
    then have s: "sect ''bundle'' (kvs_of (bundle_entries mf)) @ rest = (''bundle'', kvs_of [(''format'', Some ''plain'')]) # rest"
      using R_MANIFEST_FORMAT_PLAIN by (simp add: sect_def bundle_entries_def kvs_of_simps)
    show ?thesis
      using assms True R_MANIFEST_FORMAT_PLAIN unfolding s
      by (simp add: parse_bundle_def parse_bundle_format_def head_simps Let_def bundle_printable_def manifest_new0_def)
  next
    case False
    with assms R_MANIFEST_FORMAT_PLAIN show ?thesis
      by (simp add: parse_bundle_def parse_bundle_format_def missing_simps Let_def bundle_printable_def manifest_new0_def
          bundle_entries_def kvs_of_simps sect_def)
  qed
next
  case R_MANIFEST_FORMAT_VERITY
  let ?es = "[(''format'', Some ''verity''), (''verity-hash'', mf_bundle_verity_hash mf),
         (''verity-salt'', mf_bundle_verity_salt mf),
         (''verity-size'', if mf_bundle_verity_size mf \<noteq> 0 then Some (nat_str 10 (unat (mf_bundle_verity_size mf))) else None)]"
  have s: "sect ''bundle'' (kvs_of (bundle_entries mf)) @ rest = (''bundle'', kvs_of ?es) # rest"
    using R_MANIFEST_FORMAT_VERITY by (simp add: sect_def bundle_entries_def kvs_of_simps)
  show ?thesis
    using assms R_MANIFEST_FORMAT_VERITY unfolding s
    by (cases "mf_bundle_verity_size mf = 0")
      (simp_all add: parse_bundle_def parse_bundle_format_def head_simps Let_def bundle_printable_def manifest_new0_def text_set_def
        get_uint64_head get_uint64_missing_head)
next
  case R_MANIFEST_FORMAT_CRYPT
  let ?es = "[(''crypt-key'', mf_bundle_crypt_key mf), (''format'', Some ''crypt''), (''verity-hash'', mf_bundle_verity_hash mf),
         (''verity-salt'', mf_bundle_verity_salt mf),
         (''verity-size'', if mf_bundle_verity_size mf \<noteq> 0 then Some (nat_str 10 (unat (mf_bundle_verity_size mf))) else None)]"
  have s: "sect ''bundle'' (kvs_of (bundle_entries mf)) @ rest = (''bundle'', kvs_of ?es) # rest"
    using R_MANIFEST_FORMAT_CRYPT by (simp add: sect_def bundle_entries_def kvs_of_Cons split: option.splits)
  show ?thesis
    using assms R_MANIFEST_FORMAT_CRYPT unfolding s
    by (cases "mf_bundle_verity_size mf = 0")
      (simp_all add: parse_bundle_def parse_bundle_format_def head_simps Let_def bundle_printable_def manifest_new0_def text_set_def
        get_uint64_head get_uint64_missing_head)
qed

subsection \<open>Image sections\<close>

definition size_entry :: "64 word \<Rightarrow> string option" where
  "size_entry sz = (if sint sz \<ge> 0 then Some (nat_str 10 (unat sz)) else None)"

definition image_entries :: "rauc_image \<Rightarrow> entries" where
  "image_entries img =
     [(''sha256'', if cs_type (img_checksum img) = G_CHECKSUM_SHA256 then cs_digest (img_checksum img) else None),
      (''size'', size_entry (cs_size (img_checksum img))),
      (''filename'', img_filename img), (''type'', if img_type_from_fileext img then None else img_type img),
      (''hooks'', map_option kf_print_list (nonempty_list (hooklist (img_hooks img)))),
      (''adaptive'', map_option kf_print_list (img_adaptive img)),
      (''convert'', map_option kf_print_list (img_convert img)),
      (''converted'', map_option kf_print_list (case img_converted img of None \<Rightarrow> None | Some cs \<Rightarrow> nonempty_list cs))]"

definition list_printable :: "string list option \<Rightarrow> bool" where
  "list_printable v = (case v of None \<Rightarrow> True | Some xs \<Rightarrow> list_all (\<lambda>x. CHR '';'' \<notin> set x) xs)"

definition image_printable :: "rauc_image \<Rightarrow> bool" where
  "image_printable img \<longleftrightarrow> image_wf img \<and>
     (case img_slotclass img of None \<Rightarrow> False | Some c \<Rightarrow> c \<noteq> [] \<and> CHR ''.'' \<notin> set c \<and> CHR ''/'' \<notin> set c) \<and>
     (case img_artifact img of None \<Rightarrow> True | Some a \<Rightarrow> CHR ''.'' \<notin> set a) \<and>
     text_set (cs_digest (img_checksum img)) \<and>
     (sint (cs_size (img_checksum img)) \<ge> 0 \<or> cs_size (img_checksum img) = - 1) \<and>
     text_set (img_filename img) \<and> text_set (img_type img) \<and>
     (img_type_from_fileext img \<longrightarrow> img_artifact img = None \<and> \<not> hooks_install img \<and> img_type img \<noteq> None \<and>
        Option.bind (img_filename img) derive_image_type_from_filename_pattern = img_type img) \<and>
     list_printable (img_adaptive img) \<and> list_printable (img_convert img) \<and> list_printable (img_converted img) \<and>
     img_converted img \<noteq> Some []"

lemma split_max_delim: "d \<notin> set a \<Longrightarrow> split_max (Suc (Suc n)) d (a @ d # b) = a # split_max (Suc n) d b"
proof -
  assume d: "d \<notin> set a"
  have "takeWhile (\<lambda>c. c \<noteq> d) (a @ d # b) = a" "dropWhile (\<lambda>c. c \<noteq> d) (a @ d # b) = d # b"
    using d by (induction a) auto
  then show ?thesis by simp
qed

lemma split_max_plain: "d \<notin> set a \<Longrightarrow> split_max n d a = [a]"
proof -
  assume d: "d \<notin> set a"
  have drop: "dropWhile (\<lambda>c. c \<noteq> d) a = []" using d by (induction a) auto
  show ?thesis by (cases "(n, d, a)" rule: split_max.cases) (simp_all add: drop)
qed

declare split_max.simps(3) [simp del]

lemma split_target:
  "CHR ''/'' \<notin> set c \<Longrightarrow> c \<noteq> [] \<Longrightarrow>
     g_strsplit_max (c @ (case a of None \<Rightarrow> [] | Some a \<Rightarrow> ''/'' @ a)) (CHR ''/'') 2 =
       c # (case a of None \<Rightarrow> [] | Some a \<Rightarrow> [a])"
  by (cases a) (simp_all add: g_strsplit_max_def numeral_2_eq_2 split_max_plain split_max_delim)

lemma split_image_group:
  assumes "CHR ''.'' \<notin> set t"
  shows "g_strsplit_max (''image.'' @ t @ (case v of None \<Rightarrow> [] | Some v \<Rightarrow> ''.'' @ v)) (CHR ''.'') 3 =
    ''image'' # t # (case v of None \<Rightarrow> [] | Some v \<Rightarrow> [v])"
proof -
  have "g_strsplit_max (''image.'' @ s) (CHR ''.'') 3 = ''image'' # split_max 2 (CHR ''.'') s" for s
    using split_max_delim [of "CHR ''.''" "''image''" 1 s] by (simp add: g_strsplit_max_def numeral_3_eq_3 numeral_2_eq_2)
  then show ?thesis
    using assms by (cases v) (simp_all add: numeral_2_eq_2 split_max_plain split_max_delim)
qed

lemma image_of_image_group:
  assumes "image_printable img" and "img_slotclass img = Some c"
  shows "image_of_group (image_group img c) =
    Ok (r_new_image\<lparr>img_slotclass := Some c, img_artifact := img_artifact img, img_variant := img_variant img\<rparr>)"
proof -
  define t where "t = c @ (case img_artifact img of None \<Rightarrow> [] | Some a \<Rightarrow> ''/'' @ a)"
  have c: "c \<noteq> []" "CHR ''.'' \<notin> set c" "CHR ''/'' \<notin> set c"
    and a: "case img_artifact img of None \<Rightarrow> True | Some a \<Rightarrow> CHR ''.'' \<notin> set a"
    using assms by (auto simp: image_printable_def)
  then have "CHR ''.'' \<notin> set t" by (auto simp: t_def split: option.splits)
  moreover have "image_group img c = ''image.'' @ t @ (case img_variant img of None \<Rightarrow> [] | Some v \<Rightarrow> ''.'' @ v)"
    by (simp add: image_group_def t_def)
  ultimately have "g_strsplit_max (image_group img c) (CHR ''.'') 3 =
      ''image'' # t # (case img_variant img of None \<Rightarrow> [] | Some v \<Rightarrow> [v])"
    using split_image_group [of t "img_variant img"] by simp
  moreover have "g_strsplit_max t (CHR ''/'') 2 = c # (case img_artifact img of None \<Rightarrow> [] | Some a \<Rightarrow> [a])"
    using split_target [OF c(3,1)] by (simp add: t_def)
  ultimately show ?thesis
    by (cases "img_artifact img"; cases "img_variant img") (simp_all add: image_of_group_def r_new_image_def)
qed

lemma hooklist_no_sep: "\<forall>x\<in>set (hooklist h). CHR '';'' \<notin> set x"
  by (auto simp: hooklist_def)

lemma parse_hooklist: "parse_slot_hooks (hooklist h) no_hooks = Ok h"
  by (cases h) (auto simp: hooklist_def no_hooks_def)

lemma parse_printed_list:
  "list_printable v \<Longrightarrow> map_option kf_parse_list (map_option kf_print_list v) = v"
  by (cases v) (auto simp: list_printable_def list_all_iff kf_list_roundtrip)

lemma parse_printed_hooks:
  "(case map_option kf_parse_list (map_option kf_print_list (nonempty_list (hooklist h))) of
      None \<Rightarrow> [] | Some hs \<Rightarrow> hs) = hooklist h"
  by (simp add: nonempty_list_def kf_list_roundtrip hooklist_no_sep)

lemma parse_image_size_head:
  assumes "distinct (map fst es)" and "entry es ''size'' = size_entry sz" and "sint sz \<ge> 0 \<or> sz = - 1"
  shows "parse_image_size g ((g, kvs_of es) # rest) = (Ok sz, (g, kvs_of (AList.delete ''size'' es)) # rest)"
proof (cases "sint sz \<ge> 0")
  case True
  with assms show ?thesis
    by (simp add: parse_image_size_def io_catch_def head_simps size_entry_def get_uint64_head)
next
  case False
  with assms show ?thesis
    by (simp add: parse_image_size_def io_catch_def head_simps size_entry_def get_uint64_missing_head)
qed

lemma parse_image_hooks_head:
  assumes "distinct (map fst es)" and "entry es ''hooks'' = map_option kf_print_list (nonempty_list (hooklist h))"
  shows "parse_image_hooks g ((g, kvs_of es) # rest) = (Ok h, (g, kvs_of (AList.delete ''hooks'' es)) # rest)"
  using assms parse_printed_hooks [of h]
  by (simp add: parse_image_hooks_def head_simps get_list_head parse_hooklist del: option.case_eq_if)

lemma parse_image_type_head:
  assumes es: "distinct (map fst es)" and t: "entry es ''type'' = (if img_type_from_fileext img then None else img_type img)"
    and ok: "image_printable img" and i0: "img0 = img\<lparr>img_type := None, img_type_from_fileext := False\<rparr>"
  shows "parse_image_type g img0 ((g, kvs_of es) # rest) =
    (Ok img, (g, kvs_of (if img_artifact img = None then AList.delete ''type'' es else es)) # rest)"
proof (cases "img_artifact img")
  case (Some a)
  then have "img0 = img" using ok i0 by (cases img) (auto simp: image_printable_def image_wf_def)
  with Some show ?thesis by (simp add: parse_image_type_def io_return_def)
next
  case None
  have eq: "img0\<lparr>img_type := img_type img, img_type_from_fileext := img_type_from_fileext img\<rparr> = img"
    using i0 by (cases img) simp
  have sup: "hooks_install img \<or> image_type_supported img"
    using ok None by (auto simp: image_printable_def image_wf_def)
  have missing: "handle_missing_type img0 = Ok img" if "img_type_from_fileext img \<or> img_type img = None"
  proof (cases "img_type_from_fileext img")
    case True
    then obtain f where "img_filename img = Some f" "derive_image_type_from_filename_pattern f = img_type img"
        "\<not> hooks_install img" "img_type img \<noteq> None"
      using ok by (auto simp: image_printable_def bind_eq_Some_conv)
    with True eq i0 show ?thesis by (auto simp: handle_missing_type_def)
  next
    case False
    with that have "img_type img = None" by simp
    with sup have "hooks_install img" by (auto simp: image_type_supported_def)
    with False \<open>img_type img = None\<close> eq i0 show ?thesis by (simp add: handle_missing_type_def)
  qed
  have given: "img0\<lparr>img_type := Some t\<rparr> = img" if "\<not> img_type_from_fileext img" "img_type img = Some t" for t
    using that eq i0 by simp
  show ?thesis
  proof (cases "img_type_from_fileext img \<or> img_type img = None")
    case True
    then have "entry es ''type'' = None" using t by auto
    with True missing None sup es i0 show ?thesis
      by (simp add: parse_image_type_def head_simps)
  next
    case False
    then obtain ty where ty: "img_type img = Some ty" "\<not> img_type_from_fileext img" by auto
    moreover have "ty \<noteq> []" using ok ty by (auto simp: image_printable_def text_set_def)
    moreover have "img_artifact img0 = None" using None i0 by simp
    ultimately show ?thesis
      using t None sup es by (simp add: parse_image_type_def head_simps given [OF ty(2,1)])
  qed
qed

lemma image_entries_keys: "map fst (image_entries img) =
    [''sha256'', ''size'', ''filename'', ''type'', ''hooks'', ''adaptive'', ''convert'', ''converted'']"
  by (simp add: image_entries_def)

lemma image_printable_no_lists:
  "image_printable img \<Longrightarrow> image_printable (img\<lparr>img_adaptive := None, img_convert := None, img_converted := None\<rparr>)"
  unfolding image_printable_def image_wf_def image_type_supported_def list_printable_def
  by (cases img) (simp split: if_splits)

text \<open>After the type step, the entries that are left are gone when the lists have been read.\<close>

lemma parse_image_head:
  assumes ok: "image_printable img" and c: "img_slotclass img = Some c" and g: "g = image_group img c"
    and rest: "g \<notin> fst ` set rest"
  shows "parse_image g ((g, kvs_of (image_entries img)) # rest) = (Ok img, rest)"
proof -
  have digest: "(if cs_type (img_checksum img) = G_CHECKSUM_SHA256 then cs_digest (img_checksum img) else None)
      = cs_digest (img_checksum img)"
    using ok by (auto simp: image_printable_def image_wf_def)
  have cs: "\<lparr>cs_type = (if cs_digest (img_checksum img) = None then G_CHECKSUM_MD5 else G_CHECKSUM_SHA256),
      cs_digest = cs_digest (img_checksum img), cs_size = cs_size (img_checksum img)\<rparr> = img_checksum img"
    using ok by (cases "img_checksum img") (auto simp: image_printable_def image_wf_def)
  have art: "img_artifact img \<noteq> None \<Longrightarrow> img_type img = None"
    using ok by (simp add: image_printable_def image_wf_def)
  have conv: "(case img_converted img of None \<Rightarrow> None | Some cs \<Rightarrow> nonempty_list cs) = img_converted img"
    using ok by (auto simp: image_printable_def nonempty_list_def split: option.splits)
  define hk where "hk = map_option kf_print_list (nonempty_list (hooklist (img_hooks img)))"
  define es where "es = [(''adaptive'', map_option kf_print_list (img_adaptive img)),
      (''convert'', map_option kf_print_list (img_convert img)),
      (''converted'', map_option kf_print_list (img_converted img))]"
  define ty where "ty = (if img_type_from_fileext img then None else img_type img)"
  define img0 where "img0 = img\<lparr>img_type := None, img_type_from_fileext := False\<rparr>"
  define i1 where "i1 = (r_new_image\<lparr>img_slotclass := Some c, img_artifact := img_artifact img,
      img_variant := img_variant img\<rparr>)\<lparr>img_checksum := img_checksum img, img_hooks := img_hooks img,
      img_filename := img_filename img\<rparr>"
  have i1: "i1 = img0\<lparr>img_adaptive := None, img_convert := None, img_converted := None\<rparr>"
    using c by (cases img) (simp add: i1_def img0_def r_new_image_def)
  have ents: "image_entries img = [(''sha256'', cs_digest (img_checksum img)),
      (''size'', size_entry (cs_size (img_checksum img))), (''filename'', img_filename img), (''type'', ty),
      (''hooks'', hk)] @ es"
    by (simp add: image_entries_def digest conv hk_def es_def ty_def)
  have dist: "distinct (map fst ((''type'', ty) # es))" by (simp add: es_def)
  let ?no = "img\<lparr>img_adaptive := None, img_convert := None, img_converted := None\<rparr>"
  have type: "parse_image_type g i1 ((g, kvs_of ((''type'', ty) # es)) # rest) =
      (Ok ?no, (g, kvs_of es) # rest)"
    using parse_image_type_head [OF dist _ image_printable_no_lists [OF ok], of i1 g rest] art
    by (auto simp: ty_def i1 img0_def es_def kvs_of_simps)
  have start: "parse_image g ((g, kvs_of (image_entries img)) # rest) =
    io_bind (parse_image_type g i1) (\<lambda>img.
     io_bind (io_lift (validate_filename_requirements img)) (\<lambda>_.
     io_bind (remove_key g ''version'') (\<lambda>_.
     io_bind (remove_key g ''description'') (\<lambda>_.
     io_bind (remove_key g ''build'') (\<lambda>_.
     io_bind (consume_list g ''adaptive'') (\<lambda>adaptive.
     io_bind (consume_list g ''convert'') (\<lambda>convert.
     io_bind (consume_list g ''converted'') (\<lambda>converted.
     io_bind (close_group g) (\<lambda>_.
       io_return (img\<lparr>img_adaptive := adaptive, img_convert := convert, img_converted := converted\<rparr>))))))))))
     ((g, kvs_of ((''type'', ty) # es)) # rest)"
    using ok
    by (simp add: parse_image_def g image_of_image_group [OF ok c] head_simps ents es_def image_printable_def
        parse_image_size_head parse_image_hooks_head hk_def text_set_def cs i1_def Let_def r_new_image_def checksum_new0_def
        split del: if_split cong: if_cong)
  have valid: "validate_filename_requirements ?no = Ok ()"
    using ok by (auto simp: image_printable_def image_wf_def validate_filename_requirements_def)
  have lists: "list_printable (img_adaptive img)" "list_printable (img_convert img)" "list_printable (img_converted img)"
    using ok by (simp_all add: image_printable_def)
  have fin: "?no\<lparr>img_adaptive := img_adaptive img, img_convert := img_convert img, img_converted := img_converted img\<rparr> = img"
    by (cases img) simp
  show ?thesis
    unfolding start using rest fin
    by (simp add: io_bind_def type valid io_lift_def) (simp add: es_def head_simps parse_printed_list lists)
qed

subsection \<open>Metadata sections\<close>

definition meta_printable :: "string \<times> (string \<times> string) list \<Rightarrow> bool" where
  "meta_printable m = (case m of (label, kvs) \<Rightarrow>
     CHR ''.'' \<notin> set label \<and> is_ok (r_prepare_env_key label) \<and> kvs \<noteq> [] \<and> distinct (map fst kvs) \<and>
     list_all (\<lambda>(k, v). v \<noteq> [] \<and> is_ok (r_prepare_env_key k)) kvs)"

lemma parse_meta_keys_head:
  assumes "distinct (map fst (acc @ kvs))" and "list_all (\<lambda>(k, v). v \<noteq> [] \<and> is_ok (r_prepare_env_key k)) kvs"
  shows "parse_meta_keys g (map fst kvs) acc ((g, kvs) # rest) = (Ok (acc @ kvs), (g, []) # rest)"
  using assms
proof (induction kvs arbitrary: acc)
  case (Cons kv kvs)
  obtain k v where kv: "kv = (k, v)" by (cases kv)
  have "consume g k ((g, (k, v) # kvs) # rest) = (Ok v, (g, kvs) # rest)"
    using Cons.prems kv
    by (simp add: consume_def key_file_consume_string_def g_key_file_get_string_def g_key_file_remove_key_def delete_id)
  moreover have "AList.update k v acc = acc @ [(k, v)]"
    using Cons.prems(1) kv by (intro update_not_in) auto
  moreover obtain env where "r_prepare_env_key k = Ok env"
    using Cons.prems(2) kv by (auto simp: is_ok_iff)
  moreover have "parse_meta_keys g (map fst kvs) (acc @ [(k, v)]) ((g, kvs) # rest)
      = (Ok ((acc @ [(k, v)]) @ kvs), (g, []) # rest)"
    using Cons.prems by (intro Cons.IH) (auto simp: kv)
  ultimately show ?case by (simp add: kv io_bind_def io_lift_def)
qed (simp add: io_return_def)

lemma split_meta_group:
  "g_strsplit_max (''meta.'' @ label) (CHR ''.'') 2 = [''meta'', label]"
  using split_max_delim [of "CHR ''.''" "''meta''" 0 label] by (simp add: g_strsplit_max_def numeral_2_eq_2)

lemma parse_meta_head:
  assumes ok: "meta_printable (label, kvs)" and rest: "''meta.'' @ label \<notin> fst ` set rest" and new: "label \<notin> fst ` set meta"
  shows "parse_meta (''meta.'' @ label) meta ((''meta.'' @ label, kvs) # rest) = (Ok (meta @ [(label, kvs)]), rest)"
proof -
  obtain env where env: "r_prepare_env_key label = Ok env"
    using ok by (auto simp: meta_printable_def is_ok_iff)
  have keys: "parse_meta_keys (''meta.'' @ label) (map fst kvs) [] ((''meta.'' @ label, kvs) # rest) =
      (Ok kvs, (''meta.'' @ label, []) # rest)"
    using ok parse_meta_keys_head [of "[]" kvs] by (simp add: meta_printable_def)
  show ?thesis
    using ok rest keys unfolding parse_meta_def split_meta_group
    by (simp add: meta_printable_def io_bind_def io_lift_def env kf_query_def g_key_file_get_keys_def kf_keys_def
        remove_group_def g_key_file_remove_group_def delete_id io_return_def update_not_in [OF new])
qed

subsection \<open>The sections of a manifest\<close>

definition image_sect :: "rauc_image \<Rightarrow> string \<times> kf_group" where
  "image_sect img = (image_group img (case img_slotclass img of None \<Rightarrow> [] | Some c \<Rightarrow> c), kvs_of (image_entries img))"

definition meta_sect :: "string \<times> (string \<times> string) list \<Rightarrow> string \<times> kf_group" where
  "meta_sect m = (''meta.'' @ fst m, snd m)"

lemma image_sect_prefix: "\<exists>r. fst (image_sect img) = ''image.'' @ r"
  by (simp add: image_sect_def image_group_def)

lemma meta_sect_prefix: "fst (meta_sect m) = ''meta.'' @ fst m"
  by (simp add: meta_sect_def)

lemma parse_images:
  assumes "distinct (map fst (map image_sect imgs @ rest))" and "list_all image_printable imgs"
  shows "parse_manifest_groups (map (fst \<circ> image_sect) imgs @ gs) m (map image_sect imgs @ rest) =
    parse_manifest_groups gs (m\<lparr>mf_images := mf_images m @ imgs\<rparr>) rest"
  using assms
proof (induction imgs arbitrary: m)
  case (Cons img imgs)
  obtain c where c: "img_slotclass img = Some c"
    using Cons.prems(2) by (auto simp: image_printable_def split: option.splits)
  have g: "fst (image_sect img) = image_group img c" "image_sect img = (image_group img c, kvs_of (image_entries img))"
    using c by (simp_all add: image_sect_def)
  have "parse_image (image_group img c) ((image_group img c, kvs_of (image_entries img)) # map image_sect imgs @ rest)
      = (Ok img, map image_sect imgs @ rest)"
    using Cons.prems by (intro parse_image_head [OF _ c refl]) (auto simp: g image_comp)
  moreover have "g_str_has_prefix (image_group img c) ''image.''" "\<not> g_str_has_prefix (image_group img c) ''meta.''"
    by (simp_all add: image_group_def)
  ultimately show ?case
    using Cons.IH [of "m\<lparr>mf_images := mf_images m @ [img]\<rparr>"] Cons.prems
    by (simp add: g io_bind_def io_return_def)
qed simp

lemma parse_metas:
  assumes "distinct (map fst metas)" and "list_all meta_printable metas"
    and "fst ` set (mf_meta m) \<inter> fst ` set metas = {}"
  shows "parse_manifest_groups (map (fst \<circ> meta_sect) metas) m (map meta_sect metas) =
    (Ok (m\<lparr>mf_meta := mf_meta m @ metas\<rparr>), [])"
  using assms
proof (induction metas arbitrary: m)
  case (Cons mt metas)
  obtain label kvs where mt: "mt = (label, kvs)" by (cases mt)
  have "parse_meta (''meta.'' @ label) (mf_meta m) ((''meta.'' @ label, kvs) # map meta_sect metas) =
      (Ok (mf_meta m @ [(label, kvs)]), map meta_sect metas)"
    using Cons.prems by (intro parse_meta_head) (auto simp: mt meta_sect_def intro: rev_image_eqI)
  moreover have "parse_manifest_groups (map (fst \<circ> meta_sect) metas) (m\<lparr>mf_meta := mf_meta m @ [(label, kvs)]\<rparr>)
      (map meta_sect metas) = (Ok (m\<lparr>mf_meta := (mf_meta m @ [(label, kvs)]) @ metas\<rparr>), [])"
    using Cons.prems by (subst Cons.IH) (auto simp: mt)
  moreover have "meta_sect mt = (''meta.'' @ label, kvs)" by (simp add: mt meta_sect_def)
  ultimately show ?case by (simp add: mt io_bind_def io_return_def comp_def)
qed (simp add: io_return_def)

subsection \<open>Printing\<close>

lemma set_opt_simps:
  "set_list_opt g k v kf = set_string_opt g k (map_option kf_print_list v) kf"
  "(if b then set_string_opt g k w kf else kf) = set_string_opt g k (if b then w else None) kf"
  "(if b then kf else set_string_opt g k w kf) = set_string_opt g k (if b then None else w) kf"
  "(if b then g_key_file_set_uint64 kf g k n else kf) = set_string_opt g k (if b then Some (nat_str 10 (unat n)) else None) kf"
  "(if b then g_key_file_set_string_list kf g k xs else kf) = set_string_opt g k (if b then Some (kf_print_list xs) else None) kf"
  "(if b then g_key_file_set_string kf g k s else kf) = set_string_opt g k (if b then Some s else None) kf"
  "g_key_file_set_string kf g k s = set_string_opt g k (Some s) kf"
  by (simp_all add: set_list_opt_def set_string_opt_def g_key_file_set_string_list_def g_key_file_set_uint64_def
      split: option.splits)

lemma prepare_image_entries:
  assumes "img_slotclass img = Some c"
  shows "prepare_image img kf = set_entries (image_group img c) (image_entries img) kf"
  unfolding prepare_image_def image_entries_def size_entry_def Let_def
  by (simp add: assms set_entries_def set_opt_simps split del: if_split)

lemma image_entries_nonempty: "image_printable img \<Longrightarrow> kvs_of (image_entries img) \<noteq> []"
  by (auto simp: image_printable_def image_wf_def image_entries_def kvs_of_Cons nonempty_list_def hooklist_def
      split: option.splits if_splits)

lemma prepare_images:
  assumes "distinct (map fst (kf @ map image_sect imgs))" and "list_all image_printable imgs"
  shows "fold prepare_image imgs kf = kf @ map image_sect imgs"
  using assms
proof (induction imgs arbitrary: kf)
  case (Cons img imgs)
  obtain c where c: "img_slotclass img = Some c"
    using Cons.prems(2) by (auto simp: image_printable_def split: option.splits)
  have sect: "image_sect img = (image_group img c, kvs_of (image_entries img))"
    using c by (simp add: image_sect_def)
  have "prepare_image img kf = kf @ [image_sect img]"
    using Cons.prems image_entries_nonempty [of img]
    by (simp add: prepare_image_entries [OF c] set_entries_new image_entries_keys sect sect_def)
  with Cons.IH [of "kf @ [image_sect img]"] Cons.prems show ?case by simp
qed simp

lemma kvs_of_Some: "kvs_of (map (\<lambda>(k, v). (k, Some v)) kvs) = kvs"
  by (induction kvs) (auto simp: kvs_of_simps)

lemma prepare_metas:
  assumes "distinct (map fst (kf @ map meta_sect metas))" and "list_all meta_printable metas"
  shows "fold prepare_meta metas kf = kf @ map meta_sect metas"
  using assms
proof (induction metas arbitrary: kf)
  case (Cons m metas)
  obtain label kvs where m: "m = (label, kvs)" by (cases m)
  have "prepare_meta m kf = set_entries (''meta.'' @ label) (map (\<lambda>(k, v). (k, Some v)) kvs) kf"
    by (simp add: prepare_meta_def m set_entries_def fold_map comp_def case_prod_beta' set_string_opt_def)
  also have "\<dots> = kf @ sect (''meta.'' @ label) kvs"
  proof -
    have "''meta.'' @ label \<notin> fst ` set kf" "distinct (map fst (map (\<lambda>(k, v). (k, Some v)) kvs))"
      using Cons.prems by (auto simp: m meta_sect_def meta_printable_def comp_def case_prod_beta')
    from set_entries_new [OF this] show ?thesis by (simp only: kvs_of_Some)
  qed
  also have "\<dots> = kf @ [meta_sect m]"
    using Cons.prems(2) by (simp add: m sect_def meta_sect_def meta_printable_def)
  finally show ?case using Cons.IH [of "kf @ [meta_sect m]"] Cons.prems by simp
qed simp

definition manifest_printable :: "rauc_manifest \<Rightarrow> bool" where
  "manifest_printable mf \<longleftrightarrow>
     mf_update_compatible mf \<notin> {None, Some []} \<and> text_set (mf_update_version mf) \<and>
     text_set (mf_update_description mf) \<and> text_set (mf_update_build mf) \<and>
     bundle_printable mf \<and>
     text_set (mf_handler_name mf) \<and> text_set (mf_handler_args mf) \<and>
     (mf_handler_args mf \<noteq> None \<longrightarrow> mf_handler_name mf \<noteq> None) \<and> text_set (mf_hook_name mf) \<and>
     list_all image_printable (mf_images mf) \<and> distinct (map (fst \<circ> image_sect) (mf_images mf)) \<and>
     list_all meta_printable (mf_meta mf) \<and> distinct (map fst (mf_meta mf))"

definition var_sects :: "rauc_manifest \<Rightarrow> key_file" where
  "var_sects mf = map image_sect (mf_images mf) @ map meta_sect (mf_meta mf)"

definition fixed_sects :: "rauc_manifest \<Rightarrow> key_file" where
  "fixed_sects mf = sect ''update'' (kvs_of (update_entries mf)) @ sect ''bundle'' (kvs_of (bundle_entries mf)) @
     sect ''handler'' (kvs_of (handler_entries mf)) @ sect ''hooks'' (kvs_of (hooks_entries mf))"

lemma sect_keys: "fst ` set (sect g ks) \<subseteq> {g}"
  by (simp add: sect_def)

lemma var_sects_keys: "g \<in> fst ` set (var_sects mf) \<Longrightarrow> (\<exists>r. g = ''image.'' @ r) \<or> (\<exists>r. g = ''meta.'' @ r)"
  by (auto simp: var_sects_def image_sect_def image_group_def meta_sect_def)

lemma fixed_not_var:
  "''update'' \<notin> fst ` set (var_sects mf)" "''bundle'' \<notin> fst ` set (var_sects mf)"
  "''handler'' \<notin> fst ` set (var_sects mf)" "''hooks'' \<notin> fst ` set (var_sects mf)"
  by (auto dest!: var_sects_keys)

lemma prepare_bundle_entries: "prepare_bundle mf kf = set_entries ''bundle'' (bundle_entries mf) kf"
  by (cases "mf_bundle_format mf")
    (simp_all add: prepare_bundle_def set_entries_def bundle_entries_def Let_def set_opt_simps split del: if_split)

lemma bundle_entries_distinct: "distinct (map fst (bundle_entries mf))"
  by (simp add: bundle_entries_def split: bundle_format.splits)

lemma sects_distinct:
  assumes "manifest_printable mf"
  shows "distinct (map fst (fixed_sects mf @ var_sects mf))"
proof -
  have "distinct (map fst (fixed_sects mf))" by (simp add: fixed_sects_def sect_def)
  moreover have "distinct (map fst (var_sects mf))"
  proof -
    have "map fst (map meta_sect (mf_meta mf)) = map (\<lambda>l. ''meta.'' @ l) (map fst (mf_meta mf))"
      by (simp add: meta_sect_def)
    moreover have "distinct (map (\<lambda>l. ''meta.'' @ l) (map fst (mf_meta mf)))"
      using assms by (simp add: manifest_printable_def distinct_map inj_on_def)
    moreover have "distinct (map fst (map image_sect (mf_images mf)))"
      using assms by (simp add: manifest_printable_def)
    moreover have "fst ` set (map image_sect (mf_images mf)) \<inter> fst ` set (map meta_sect (mf_meta mf)) = {}"
      by (auto simp: image_sect_def image_group_def meta_sect_def)
    ultimately show ?thesis unfolding var_sects_def map_append distinct_append set_map by (simp only: set_map)
  qed
  moreover have "fst ` set (fixed_sects mf) \<inter> fst ` set (var_sects mf) = {}"
  proof -
    have sub: "fst ` set (fixed_sects mf) \<subseteq> {''update'', ''bundle'', ''handler'', ''hooks''}"
      by (auto simp: fixed_sects_def sect_def split: if_splits)
    have "g \<notin> fst ` set (var_sects mf)" if "g \<in> fst ` set (fixed_sects mf)" for g
      using subsetD [OF sub that] fixed_not_var [of mf] by (elim insertE emptyE) simp_all
    then show ?thesis by (simp only: disjoint_iff) simp
  qed
  ultimately show ?thesis by (simp only: map_append distinct_append set_map simp_thms)
qed

lemma prepare_manifest_sects:
  assumes "manifest_printable mf"
  shows "prepare_manifest mf = fixed_sects mf @ var_sects mf"
proof -
  have upd: "set_entries ''update'' (update_entries mf) [] = sect ''update'' (kvs_of (update_entries mf))"
    using set_entries_new [of "''update''" "[]" "update_entries mf"] by (simp add: update_entries_def)
  have bdl: "prepare_bundle mf (sect ''update'' ks) = sect ''update'' ks @ sect ''bundle'' (kvs_of (bundle_entries mf))" for ks
    by (simp add: prepare_bundle_entries set_entries_new bundle_entries_distinct sect_def)
  have hdl: "set_entries ''handler'' (handler_entries mf) (sect ''update'' us @ sect ''bundle'' bs) =
      (sect ''update'' us @ sect ''bundle'' bs) @ sect ''handler'' (kvs_of (handler_entries mf))" for us bs
    by (rule set_entries_new) (simp_all add: handler_entries_def sect_def)
  have hks: "set_entries ''hooks'' (hooks_entries mf) ((sect ''update'' us @ sect ''bundle'' bs) @ sect ''handler'' hs) =
      ((sect ''update'' us @ sect ''bundle'' bs) @ sect ''handler'' hs) @ sect ''hooks'' (kvs_of (hooks_entries mf))" for us bs hs
    by (rule set_entries_new) (simp_all add: hooks_entries_def sect_def)
  have il: "kf_print_list [''install-check''] = ''install-check;''" by code_simp
  have "prepare_manifest mf = fold prepare_meta (mf_meta mf) (fold prepare_image (mf_images mf)
      (set_entries ''hooks'' (hooks_entries mf) (set_entries ''handler'' (handler_entries mf)
        (prepare_bundle mf (set_entries ''update'' (update_entries mf) [])))))"
    unfolding prepare_manifest_def Let_def
    by (simp add: set_entries_def hooks_entries_def handler_entries_def update_entries_def set_opt_simps il split del: if_split cong: if_cong)
  also have "\<dots> = fold prepare_meta (mf_meta mf) (fold prepare_image (mf_images mf) (fixed_sects mf))"
    by (simp add: upd bdl hdl [simplified] hks [simplified] fixed_sects_def)
  also have "\<dots> = fixed_sects mf @ var_sects mf"
  proof -
    have d: "distinct (map fst (fixed_sects mf @ map image_sect (mf_images mf)))"
        "distinct (map fst ((fixed_sects mf @ map image_sect (mf_images mf)) @ map meta_sect (mf_meta mf)))"
      using sects_distinct [OF assms] by (auto simp: var_sects_def)
    have p: "list_all image_printable (mf_images mf)" "list_all meta_printable (mf_meta mf)"
      using assms by (simp_all add: manifest_printable_def)
    show ?thesis
      by (simp only: prepare_images [OF d(1) p(1)] prepare_metas [OF d(2) p(2)] var_sects_def append_assoc)
  qed
  finally show ?thesis .
qed

subsection \<open>Round trip\<close>

lemma parse_var_sects:
  assumes "manifest_printable mf" and "mf_images m = []" and "mf_meta m = []"
  shows "parse_manifest_groups (map fst (var_sects mf)) m (var_sects mf) =
    (Ok (m\<lparr>mf_images := mf_images mf, mf_meta := mf_meta mf\<rparr>), [])"
proof -
  have "distinct (map fst (map image_sect (mf_images mf) @ map meta_sect (mf_meta mf)))"
    using sects_distinct [OF assms(1)] by (simp add: var_sects_def)
  moreover have "list_all image_printable (mf_images mf)" "list_all meta_printable (mf_meta mf)" "distinct (map fst (mf_meta mf))"
    using assms(1) by (simp_all add: manifest_printable_def)
  ultimately show ?thesis
    using parse_images [of "mf_images mf" "map meta_sect (mf_meta mf)" "map (fst \<circ> meta_sect) (mf_meta mf)" m]
      parse_metas [of "mf_meta mf" "m\<lparr>mf_images := mf_images mf\<rparr>"] assms(2,3)
    by (simp add: var_sects_def)
qed

lemma parse_prepare_manifest:
  assumes "manifest_printable mf"
  shows "parse_manifest (prepare_manifest mf) =
    (Ok (mf\<lparr>mf_update_min_rauc_version := None, mf_hash := None,
       mf_warnings := if mf_bundle_format_explicit mf then [] else format_warnings\<rparr>), [])"
proof -
  let ?r0 = "sect ''bundle'' (kvs_of (bundle_entries mf)) @ sect ''handler'' (kvs_of (handler_entries mf)) @
      sect ''hooks'' (kvs_of (hooks_entries mf)) @ var_sects mf"
  let ?r1 = "sect ''handler'' (kvs_of (handler_entries mf)) @ sect ''hooks'' (kvs_of (hooks_entries mf)) @ var_sects mf"
  let ?r2 = "sect ''hooks'' (kvs_of (hooks_entries mf)) @ var_sects mf"
  have notin: "''update'' \<notin> fst ` set ?r0" "''bundle'' \<notin> fst ` set ?r1" "''handler'' \<notin> fst ` set ?r2"
      "''hooks'' \<notin> fst ` set (var_sects mf)"
    using fixed_not_var [of mf] by (auto simp: sect_def split: if_splits)
  obtain c where c: "mf_update_compatible mf = Some c" "c \<noteq> []"
    using assms by (auto simp: manifest_printable_def)
  have ok: "text_set (mf_update_version mf)" "text_set (mf_update_description mf)" "text_set (mf_update_build mf)"
      "bundle_printable mf" "text_set (mf_handler_name mf)" "text_set (mf_handler_args mf)"
      "mf_handler_args mf \<noteq> None \<longrightarrow> mf_handler_name mf \<noteq> None" "text_set (mf_hook_name mf)"
    using assms by (auto simp: manifest_printable_def)
  have start: "prepare_manifest mf = sect ''update'' (kvs_of (update_entries mf)) @ ?r0"
    using prepare_manifest_sects [OF assms] by (simp add: fixed_sects_def)
  define m0 where "m0 = manifest_new0\<lparr>mf_update_compatible := Some c, mf_update_version := mf_update_version mf,
      mf_update_description := mf_update_description mf, mf_update_build := mf_update_build mf,
      mf_update_min_rauc_version := None\<rparr>"
  define m1 where "m1 = m0\<lparr>mf_bundle_format := mf_bundle_format mf, mf_bundle_format_explicit := mf_bundle_format_explicit mf,
      mf_bundle_crypt_key := mf_bundle_crypt_key mf, mf_bundle_verity_hash := mf_bundle_verity_hash mf,
      mf_bundle_verity_salt := mf_bundle_verity_salt mf, mf_bundle_verity_size := mf_bundle_verity_size mf,
      mf_warnings := if mf_bundle_format_explicit mf then [] else format_warnings\<rparr>"
  define m2 where "m2 = m1\<lparr>mf_handler_name := mf_handler_name mf, mf_handler_args := mf_handler_args mf\<rparr>"
  define m3 where "m3 = m2\<lparr>mf_hook_name := mf_hook_name mf, mf_install_check := mf_install_check m2 \<or> mf_install_check mf\<rparr>"
  have upd: "parse_update manifest_new0 (prepare_manifest mf) = (Ok m0, ?r0)"
    unfolding start using parse_update_head [OF notin(1) c ok(1-3), of manifest_new0] by (simp add: m0_def)
  have bdl: "parse_bundle m0 ?r0 = (Ok m1, ?r1)"
    using parse_bundle_head [OF notin(2) ok(4) m0_def] by (simp add: m1_def)
  have hdl: "parse_handler m1 ?r1 = (Ok m2, ?r2)"
    using parse_handler_head [OF notin(3) ok(5-7), of m1] by (simp add: m2_def)
  have hks: "parse_hooks m2 ?r2 = (Ok m3, var_sects mf)"
    using parse_hooks_head [OF notin(4) ok(8), of m2] by (simp add: m3_def)
  have var: "parse_manifest_groups (map fst (var_sects mf)) m3 (var_sects mf) =
      (Ok (m3\<lparr>mf_images := mf_images mf, mf_meta := mf_meta mf\<rparr>), [])"
    by (rule parse_var_sects [OF assms]) (simp_all add: m3_def m2_def m1_def m0_def manifest_new0_def)
  have fin: "m3\<lparr>mf_images := mf_images mf, mf_meta := mf_meta mf\<rparr> = mf\<lparr>mf_update_min_rauc_version := None, mf_hash := None,
       mf_warnings := if mf_bundle_format_explicit mf then [] else format_warnings\<rparr>"
    using c by (cases mf) (simp add: m3_def m2_def m1_def m0_def manifest_new0_def)
  show ?thesis
    unfolding parse_manifest_def
    by (simp add: io_bind_def upd bdl hdl hks kf_query_def g_key_file_get_groups_def var fin remove_group_def
        g_key_file_remove_group_def check_remaining_groups_def io_return_def fail_if_def)
qed

text \<open>
  C33. Printing a manifest and parsing the result gives the manifest back, with two exceptions that
  the code makes: the minimum RAUC version is read but never written, and the parser adds its
  warning about an unspecified bundle format (the hash of the text is not part of the key file). \<open>manifest_printable\<close> asks for what the key file format
  can express: no empty strings, no separators inside names and list elements, unique sections.
\<close>

theorem manifest_roundtrip:
  assumes "manifest_printable mf"
  shows "parse_manifest (prepare_manifest mf) =
    (Ok (mf\<lparr>mf_update_min_rauc_version := None, mf_hash := None,
       mf_warnings := if mf_bundle_format_explicit mf then [] else format_warnings\<rparr>), [])"
  using assms by (rule parse_prepare_manifest)

definition manifest_demo_print :: rauc_manifest where
  "manifest_demo_print = manifest_new0\<lparr>mf_update_compatible := Some ''demo'',
     mf_bundle_format := R_MANIFEST_FORMAT_VERITY, mf_bundle_format_explicit := True,
     mf_bundle_verity_size := 8192, mf_hook_name := Some ''hook'', mf_install_check := True,
     mf_images := [r_new_image\<lparr>img_slotclass := Some ''rootfs'', img_filename := Some ''rootfs.img'',
       img_type := Some ''raw'', img_hooks := no_hooks\<lparr>hook_post_install := True\<rparr>,
       img_checksum := \<lparr>cs_type = G_CHECKSUM_SHA256, cs_digest = Some ''d'', cs_size = 10\<rparr>\<rparr>,
       r_new_image\<lparr>img_slotclass := Some ''repo'', img_artifact := Some ''app'', img_variant := Some ''a.b'',
         img_filename := Some ''app.tar'', img_adaptive := Some [''x'', ''y'']\<rparr>],
     mf_meta := [(''vendor'', [(''name'', ''acme'')])]\<rparr>"

theorem manifest_roundtrip_witness:
  "parse_manifest (prepare_manifest manifest_demo_print) = (Ok manifest_demo_print, [])"
proof -
  have "manifest_printable manifest_demo_print" by code_simp
  moreover have "manifest_demo_print\<lparr>mf_update_min_rauc_version := None, mf_hash := None,
       mf_warnings := if mf_bundle_format_explicit manifest_demo_print then [] else format_warnings\<rparr> = manifest_demo_print"
    by (simp add: manifest_demo_print_def manifest_new0_def)
  ultimately show ?thesis using manifest_roundtrip [of manifest_demo_print] by simp
qed

end
