(* ===== verification/Bundle_Accept.thy ===== *)
theory Bundle_Accept
  imports Bundle_Mount Manifest_Roundtrip
begin

text \<open>
  From signing to checking (\<open>src/src/bundle.c\<close>): the bundle that \<open>sign_bundle\<close> writes passes
  \<open>check_bundle\<close> and \<open>check_bundle_payload\<close>. The proof goes through the layout of the file, the round trip of the
  manifest and the hash tree.
\<close>

subsection \<open>Verification does not depend on what follows the hash tree\<close>

definition reads_more :: "vfile \<Rightarrow> vfile \<Rightarrow> bool" where
  "reads_more f g \<longleftrightarrow> (\<forall>p n d. fread f p n = Some d \<longrightarrow> fread g p n = Some d)"

lemma reads_more_append: "reads_more f (f\<lparr>vf_bytes := vf_bytes f @ bs\<rparr>)"
  by (auto simp: reads_more_def fread_Some_iff subbytes_def)

lemma file_outermost:
  "vs_rd_update a (vs_file_update c st) = vs_file_update c (vs_rd_update a st)"
  "vs_wr_update a (vs_file_update c st) = vs_file_update c (vs_wr_update a st)"
  "vs_blocks_update a (vs_file_update c st) = vs_file_update c (vs_blocks_update a st)"
  "vs_left_update a (vs_file_update c st) = vs_file_update c (vs_left_update a st)"
  "vs_digest_update b (vs_file_update c st) = vs_file_update c (vs_digest_update b st)"
  by simp_all

lemma put_digest_more:
  "put_digest True st = Inr st' \<Longrightarrow> reads_more (vs_file st) g \<Longrightarrow>
     put_digest True (st\<lparr>vs_file := g\<rparr>) = Inr (st'\<lparr>vs_file := g\<rparr>) \<and> vs_file st' = vs_file st"
  by (auto simp: put_digest_def reads_more_def split: option.splits if_splits)

lemma put_spare_more:
  "put_spare True n st = Inr st' \<Longrightarrow> reads_more (vs_file st) g \<Longrightarrow>
     put_spare True n (st\<lparr>vs_file := g\<rparr>) = Inr (st'\<lparr>vs_file := g\<rparr>) \<and> vs_file st' = vs_file st"
  by (auto simp: put_spare_def verify_zero_def reads_more_def split: option.splits if_splits sum.splits)

lemma digest_row_more:
  "digest_row sha salt True wr i st = Inr st' \<Longrightarrow> reads_more (vs_file st) g \<Longrightarrow>
     digest_row sha salt True wr i (st\<lparr>vs_file := g\<rparr>) = Inr (st'\<lparr>vs_file := g\<rparr>) \<and> vs_file st' = vs_file st"
proof (induction i arbitrary: st)
  case (Suc i)
  show ?case
  proof (cases "vs_blocks st = 0")
    case False
    then obtain data where data: "fread (vs_file st) (vs_rd st) 4096 = Some data" "fread g (vs_rd st) 4096 = Some data"
      using Suc.prems by (auto simp: reads_more_def split: option.splits)
    let ?st1 = "st\<lparr>vs_blocks := vs_blocks st - 1, vs_rd := vs_rd st + 4096, vs_digest := verify_hash_block sha data salt\<rparr>"
    show ?thesis
    proof (cases wr)
      case True
      then obtain st2 where "put_digest True ?st1 = Inr st2"
          "digest_row sha salt True True i (st2\<lparr>vs_left := vs_left st2 - 32\<rparr>) = Inr st'"
        using Suc.prems(1) False data by (auto simp: Let_def split: sum.splits)
      then show ?thesis
        using True False data put_digest_more [of ?st1 st2 g] Suc.IH [of "st2\<lparr>vs_left := vs_left st2 - 32\<rparr>"] Suc.prems(2)
        by (simp add: Let_def file_outermost)
    qed (use Suc.prems False data in \<open>auto simp: Let_def file_outermost\<close>)
  qed (use Suc.prems in simp)
qed simp

lemma digest_rows_more:
  "digest_rows sha salt True wr k st = Inr st' \<Longrightarrow> reads_more (vs_file st) g \<Longrightarrow>
     digest_rows sha salt True wr k (st\<lparr>vs_file := g\<rparr>) = Inr (st'\<lparr>vs_file := g\<rparr>) \<and> vs_file st' = vs_file st"
proof (induction k arbitrary: st)
  case (Suc k)
  obtain st1 where r: "digest_row sha salt True wr 128 (st\<lparr>vs_left := 4096\<rparr>) = Inr st1"
    using Suc.prems(1) by (auto split: sum.splits)
  note r' = digest_row_more [OF r, of g]
  obtain st2 where s: "(if wr then put_spare True (vs_left st1) st1 else Inr st1) = Inr st2"
    and d: "digest_rows sha salt True wr k st2 = Inr st'"
    using Suc.prems(1) r by (auto split: sum.splits)
  then have "(if wr then put_spare True (vs_left st1) (st1\<lparr>vs_file := g\<rparr>) else Inr (st1\<lparr>vs_file := g\<rparr>)) = Inr (st2\<lparr>vs_file := g\<rparr>)"
      "vs_file st2 = vs_file st1"
    using put_spare_more [of "vs_left st1" st1 st2 g] r' Suc.prems(2) by (auto split: if_splits)
  then show ?case using Suc.IH [OF d] r r' Suc.prems(2) by (cases wr) (simp_all add: file_outermost)
qed simp

lemma create_or_verify_more:
  assumes "create_or_verify sha salt True wr db hb n d f = Inr (f', d')" and "reads_more f g"
  shows "create_or_verify sha salt True wr db hb n d g = Inr (g, d') \<and> f' = f"
proof -
  let ?st = "\<lambda>f rd w. \<lparr>vs_file = f, vs_rd = unat rd, vs_wr = unat w, vs_blocks = unat n, vs_left = 0, vs_digest = d\<rparr>"
  obtain rd w st where o: "uint64_mult_overflow db data_block_size = Some rd" "uint64_mult_overflow hb hash_block_size = Some w"
    and ok: "\<not> (sint rd < 0 \<or> wr \<and> sint w < 0)"
    and st: "digest_rows sha salt True wr (unat ((n + of_nat hash_per_block - 1) div of_nat hash_per_block)) (?st f rd w) = Inr st"
    and res: "f' = vs_file st" "d' = vs_digest st"
    using assms(1) unfolding create_or_verify_def by (auto split: option.splits sum.splits if_splits)
  from digest_rows_more [OF st, of g] assms(2) o ok res show ?thesis
    unfolding create_or_verify_def by simp
qed

lemma tree_loop_more:
  "tree_loop sha salt True x ls d f = Inr (f', d') \<Longrightarrow> reads_more f g \<Longrightarrow> tree_loop sha salt True x ls d g = Inr (g, d') \<and> f' = f"
proof (induction sha salt True x ls d f rule: tree_loop.induct)
  case (1 sha salt db n d f)
  then show ?case using create_or_verify_more by simp
next
  case (2 sha salt db n hb s ls d f)
  then obtain f1 d1 where c: "create_or_verify sha salt True True db hb n d f = Inr (f1, d1)"
    by (auto split: sum.splits)
  from create_or_verify_more [OF c "2.prems"(2)] 2 c show ?case by auto
qed

lemma verify_more:
  assumes "r_verity_hash_verify sha n root salt f = Inr ()"
  shows "r_verity_hash_verify sha n root salt (f\<lparr>vf_bytes := vf_bytes f @ bs\<rparr>) = Inr ()"
proof -
  obtain u e ls w f' where "uint64_mult_overflow n data_block_size = Some u" "hash_levels n n = Inr (e, ls)"
      "uint64_mult_overflow e hash_block_size = Some w" "vf_openable f"
      "tree_loop sha salt True (0, n) ls (replicate digest_size 0) f = Inr (f', root)"
    using assms unfolding r_verity_hash_verify_def verity_create_or_verify_hash_def
    by (auto split: option.splits sum.splits prod.splits if_splits)
  then show ?thesis using tree_loop_more [OF _ reads_more_append]
    unfolding r_verity_hash_verify_def verity_create_or_verify_hash_def by auto
qed

subsection \<open>Creating a verity bundle\<close>

lemma create_verity_Ok:
  assumes "create_verity sha sc f mf = Ok (f1, mf1)" and len: "\<And>x. length (sha x) = 32" and "writable f"
    and "length (vf_bytes f) \<le> 2 ^ 54"
  obtains n c salt root salt_hex root_hex where
    "length (vf_bytes f) = 4096 * unat n" "unat n \<le> 2 ^ 42" "f1 = f\<lparr>vf_bytes := vf_bytes f1\<rparr>"
    "r_verity_hash_verify sha n root salt f1 = Inr ()"
    "take (4096 * unat n) (vf_bytes f1) = vf_bytes f" "length (vf_bytes f1) = 4096 * unat c" "unat n < unat c" "unat c < 2 ^ 50"
    "r_hex_encode salt = Ok salt_hex" "r_hex_encode root = Ok root_hex"
    "mf1 = mf\<lparr>mf_bundle_verity_salt := Some salt_hex, mf_bundle_verity_hash := Some root_hex,
       mf_bundle_verity_size := c * 4096 - n * 4096\<rparr>"
proof -
  let ?o = "of_nat (length (vf_bytes f)) :: 64 word"
  have uo: "unat ?o = length (vf_bytes f)" using assms(4) by (simp only: unat_of_nat) simp
  obtain salt c root salt_hex root_hex where o: "?o mod 4096 = 0" "4096 < ?o"
    and create: "r_verity_hash_create sha (?o div 4096) salt f = Inr (f1, c, root)"
    and hex: "r_hex_encode salt = Ok salt_hex" "r_hex_encode root = Ok root_hex"
    and mf1: "mf1 = mf\<lparr>mf_bundle_verity_salt := Some salt_hex, mf_bundle_verity_hash := Some root_hex,
       mf_bundle_verity_size := c * 4096 - ?o\<rparr>"
    using assms(1) unfolding create_verity_def
    by (auto simp: result_bind_Ok_iff Let_def not_le split: option.splits sum.splits if_splits)
  define n where "n = ?o div 4096"
  have un: "unat n = length (vf_bytes f) div 4096" using uo by (simp add: n_def unat_div)
  have size: "length (vf_bytes f) = 4096 * unat n"
    using mod_4096_dvd [OF o(1)] uo un by simp
  have "4096 < length (vf_bytes f)" using o(2) uo by (simp add: word_less_nat_alt)
  then have n: "1 < unat n" "unat n \<le> 2 ^ 42" using size assms(4) by simp_all
  have "n * 4096 = ?o" by (rule word_unat_eq_iff [THEN iffD2]) (use size n uo in \<open>simp add: unat_mult_lem [THEN iffD1]\<close>)
  obtain bs' c' root' where cv: "r_verity_hash_create sha n salt f = Inr (f\<lparr>vf_bytes := bs'\<rparr>, c', root')"
      "r_verity_hash_verify sha n root' salt (f\<lparr>vf_bytes := bs'\<rparr>) = Inr ()" "take (4096 * unat n) bs' = vf_bytes f"
      "length bs' = 4096 * unat c'" "unat c' < 2 ^ 50" "1 < unat n \<longrightarrow> unat n < unat c'"
    using verity_create_verify [of sha f n salt] len assms(3) n size by auto
  have eq: "f1 = f\<lparr>vf_bytes := bs'\<rparr>" "c' = c" "root' = root" using create cv(1) by (simp_all add: n_def)
  show ?thesis
    by (rule that [of n root salt c salt_hex root_hex]) (use size n cv eq hex mf1 \<open>n * 4096 = ?o\<close> in simp_all)
qed

lemma check_bundled_images_hooks: "check_bundled_images imgs = Ok imgs' \<Longrightarrow> list_ex has_hooks imgs' \<longleftrightarrow> list_ex has_hooks imgs"
  by (induction imgs arbitrary: imgs') (auto simp: io_iff check_bundled_image_def has_hooks_def split: if_splits)

lemma check_manifest_external_reload:
  assumes "check_manifest_external version mf = Ok mf'"
  shows "check_manifest_external version' (mf'\<lparr>mf_update_min_rauc_version := None, mf_hash := h, mf_warnings := ws\<rparr>) =
    Ok (mf'\<lparr>mf_update_min_rauc_version := None, mf_hash := h, mf_warnings := ws\<rparr>)"
proof -
  obtain imgs where imgs: "check_bundled_images (mf_images mf) = Ok imgs" "mf' = mf\<lparr>mf_images := imgs\<rparr>"
    and common: "check_manifest_common version mf = Ok ()"
    using assms by (auto simp: check_manifest_external_def check_manifest_bundled_def io_iff split: bundle_format.splits)
  note ok = check_bundled_images_Ok [OF imgs(1)]
  have "check_bundled_images imgs = Ok imgs" using ok by (simp add: check_bundled_images_id)
  moreover have "mf_install_check mf \<or> list_ex has_hooks imgs \<longrightarrow> mf_hook_name mf \<noteq> None"
    using common check_bundled_images_hooks [OF imgs(1)] by (simp add: check_manifest_common_Ok)
  ultimately show ?thesis
    using assms imgs(2)
    by (cases "mf_bundle_format mf") (auto simp: check_manifest_external_def check_manifest_bundled_def check_verity_def
        check_manifest_common_def check_min_rauc_version_def io_iff)
qed

subsection \<open>Accepting it\<close>

lemma check_bundle_accepts:
  assumes "\<not> CHECK_BUNDLE_NO_VERIFY params" and "cfg_keyring_path cfg \<noteq> None \<or> cfg_keyring_directory cfg \<noteq> None"
    and "\<not> is_remote_scheme (g_uri_parse_scheme nm)" and "fo_open (be_files env) nm w = Ok regular"
    and "open_local_bundle (cfg_max_bundle_signature_size cfg) regular (fo_content (be_files env) nm w) = Ok (sz, sig)"
    and "cms_is_detached (be_cms env) sig = Ok False" and "\<not> cms_is_envelopeddata (be_cms env) sig"
    and "store_of env cfg params = Ok store"
    and "CHECK_BUNDLE_TRUST_ENV params \<or> check_bundle_access (be_files env) nm w = (Ok (), w)"
    and "cms_verify_sig (be_cms env) sig store = Ok t" and "cms_get_cert_chain (be_cms env) sig store = Ok chain"
    and "load_manifest_mem (be_load env) (be_checksum env) (Some t) = Ok mf" and "mf_bundle_format mf \<noteq> R_MANIFEST_FORMAT_PLAIN"
    and "and (cfg_bundle_formats_mask cfg) (format_bit (mf_bundle_format mf)) \<noteq> 0"
  shows "\<exists>b. check_bundle env cfg params access nm w = (Ok b, w) \<and> bnd_manifest b = Some mf \<and> bnd_stream b = Some nm \<and>
    bnd_size b = sz \<and> \<not> bnd_verification_disabled b \<and> \<not> bnd_payload_verified b \<and> bnd_exclusive_verified b"
proof -
  define b0 where "b0 = bundle_new0\<lparr>bnd_verification_disabled := False, bnd_path := nm\<rparr>"
  define b1 where "b1 = b0\<lparr>bnd_storepath := store_path cfg b0, bnd_stream := Some nm, bnd_size := sz, bnd_sigdata := sig\<rparr>"
  define b2 where "b2 = b1\<lparr>bnd_exclusive_verified := True\<rparr>"
  define b3 where "b3 = b2\<lparr>bnd_signature_verified := True, bnd_payload_verified := False, bnd_verified_chain := chain\<rparr>"
  obtain s0 where s0: "cms_store (be_cms env) cfg = Ok s0"
      "store = (if CHECK_BUNDLE_NO_CHECK_TIME params then cms_no_check_time (be_cms env) s0 else s0)"
    using assms(8) by (auto simp: store_of_def result_bind_Ok_iff)
  have 1: "locate_bundle env cfg access nm (bundle_new0\<lparr>bnd_verification_disabled := False\<rparr>) w = (Ok b0, w)"
    using assms(3) by (simp add: locate_bundle_def io_return_def b0_def)
  have 2: "open_bundle_data env cfg (b0\<lparr>bnd_storepath := store_path cfg b0\<rparr>) w = (Ok b1, w)"
    using assms(4,5) by (simp add: open_bundle_data_def b0_def b1_def bundle_new0_def io_iff)
  have b1: "bnd_sigdata b1 = sig" "bnd_nbd_srv b1 = None" "bnd_stream b1 = Some nm" by (simp_all add: b1_def b0_def bundle_new0_def)
  have 3: "decrypt_sigdata (be_cms env) cfg b1 = Ok b1" using assms(7) b1 by (simp add: decrypt_sigdata_def)
  have 4: "check_exclusive env (CHECK_BUNDLE_TRUST_ENV params) b1 w = (Ok b2, w)"
    using assms(9) b1 by (auto simp: check_exclusive_def b2_def io_iff)
  have b2: "bnd_sigdata b2 = sig" by (simp add: b2_def b1)
  have 5: "verify_signature env cfg params False b1 w = (Ok (b3, Some t), w)"
    using s0 4 assms(10,11) b2 by (simp add: verify_signature_def verify_attached_def io_iff Let_def b3_def)
  have 6: "load_external_manifest env b3 (Some t) = Ok (b3\<lparr>bnd_manifest := Some mf\<rparr>)"
    using assms(12,13) by (simp add: load_external_manifest_def fail_if_def)
  have 7: "check_allowed_bundle_format cfg (bnd_manifest (b3\<lparr>bnd_manifest := Some mf\<rparr>)) = Ok ()"
    using assms(14) by (simp add: check_allowed_bundle_format_def fail_if_def)
  have "check_bundle env cfg params access nm w = (Ok (b3\<lparr>bnd_manifest := Some mf\<rparr>), w)"
    using assms(1,2,6) 1 2 3 5 6 7 b1
    by (auto simp: check_bundle_def io_bind_def io_lift_def io_return_def fail_if_def)
  then show ?thesis
    by (intro exI [of _ "b3\<lparr>bnd_manifest := Some mf\<rparr>"]) (simp add: b3_def b2_def b1_def b0_def bundle_new0_def)
qed

lemma verify_verity_payload_Ok:
  assumes "r_verity_hash_verify sha n root salt f = Inr ()" and "unat n \<le> 2 ^ 42" "unat c < 2 ^ 50"
    and "mf_bundle_verity_size mf = c * 4096 - n * 4096"
    and "mf_bundle_verity_hash mf = Some root_hex" "r_hex_decode root_hex 32 = Some root"
    and "mf_bundle_verity_salt mf = Some salt_hex" "r_hex_decode salt_hex 32 = Some salt"
  shows "verify_verity_payload sha f (c * 4096) mf = Ok ()"
proof -
  have u: "unat (n * 4096) = unat n * 4096" "unat (c * 4096) = unat c * 4096"
    using assms(2,3) by (simp_all add: unat_mult_lem [THEN iffD1])
  have "unat (n * 4096 mod 4096) = 0" "unat (c * 4096 mod 4096) = 0" by (simp_all add: unat_mod u)
  then have m: "n * 4096 mod 4096 = 0" "c * 4096 mod 4096 = 0" by (simp_all add: unat_eq_0)
  have "sint (n * 4096) = int (unat n * 4096)"
  proof -
    have small: "k < 2 ^ 63 \<Longrightarrow> sint (of_nat k :: 64 word) = int k" for k
      by (simp add: signed_of_nat signed_take_bit_int_eq_self)
    have "unat n * 4096 < 2 ^ 63" using assms(2,3) by simp
    from small [OF this] show ?thesis by simp
  qed
  then have "of_int (sint (n * 4096) div 4096) = n" by simp
  then show ?thesis using assms m by (simp add: verify_verity_payload_def Let_def)
qed

text \<open>
  What is expected of the signature of a manifest: the store accepts it, and its content loads as the key file
  that was signed.
\<close>

definition signed_as :: "('w, 'x) bundle_env \<Rightarrow> system_config \<Rightarrow> 'x \<Rightarrow> rauc_manifest \<Rightarrow> bytes \<Rightarrow> bool" where
  "signed_as env cfg store mf sig \<longleftrightarrow>
     cms_is_detached (be_cms env) sig = Ok False \<and> \<not> cms_is_envelopeddata (be_cms env) sig \<and>
     sig \<noteq> [] \<and> length sig \<le> unat (cfg_max_bundle_signature_size cfg) \<and> is_ok (cms_get_cert_chain (be_cms env) sig store) \<and>
     (case cms_verify_sig (be_cms env) sig store of
        Ok t \<Rightarrow> be_load env t = Ok (prepare_manifest mf)
      | _ \<Rightarrow> False)"

text \<open>
  C11. What \<open>sign_bundle\<close> makes is accepted: a verity bundle, signed with a certificate that the store
  trusts, passes \<open>check_bundle\<close> and then \<open>check_bundle_payload\<close>. The manifest is the one that was signed, and the
  data below the hash tree is the original payload.
\<close>

theorem signed_bundle_accepted:
  assumes "sign_bundle (be_sha256 env) (be_cms env) sc f mf = Ok (f2, mf1)" and "mf_bundle_format mf = R_MANIFEST_FORMAT_VERITY"
    and len: "\<And>x. length (be_sha256 env x) = 32" and "writable f" and "length (vf_bytes f) \<le> 2 ^ 54" and "length (vf_bytes f2) < 2 ^ 63"
    and mf': "check_manifest_external (sc_version sc) mf1 = Ok mf'" and "manifest_printable mf'"
    and signed: "\<And>cert key inter sig. cms_sign_manifest (be_cms env) mf' cert key inter = Ok sig \<Longrightarrow> signed_as env cfg store mf' sig"
    and "store_of env cfg params = Ok store" and "\<not> CHECK_BUNDLE_NO_VERIFY params"
    and "CHECK_BUNDLE_TRUST_ENV params \<or> check_bundle_access (be_files env) nm w = (Ok (), w)"
    and "fo_open (be_files env) nm w = Ok True" and "fo_content (be_files env) nm w = f2"
    and "\<not> is_remote_scheme (g_uri_parse_scheme nm)" and "cfg_keyring_path cfg \<noteq> None \<or> cfg_keyring_directory cfg \<noteq> None"
    and "and (cfg_bundle_formats_mask cfg) (format_bit R_MANIFEST_FORMAT_VERITY) \<noteq> 0"
  shows "\<exists>b b' m. check_bundle env cfg params access nm w = (Ok b, w) \<and> check_bundle_payload env b w = (Ok b', w) \<and>
    bnd_payload_verified b' \<and> bnd_manifest b' = Some m \<and>
    m\<lparr>mf_hash := None, mf_warnings := []\<rparr> = mf'\<lparr>mf_update_min_rauc_version := None, mf_hash := None, mf_warnings := []\<rparr> \<and>
    take (unat (bnd_size b - mf_bundle_verity_size m)) (vf_bytes f2) = vf_bytes f"
proof -
  obtain f1 sig where create: "create_verity (be_sha256 env) sc f mf = Ok (f1, mf1)"
    and gen: "generate_bundle_signature (be_cms env) sc f1 mf1 = Ok sig" and app: "append_signature_to_bundle f1 sig = Ok f2"
    using assms(1,2) by (auto simp: sign_bundle_def with_signer_def result_bind_Ok_iff split: option.splits)
  obtain n c salt root salt_hex root_hex where n: "length (vf_bytes f) = 4096 * unat n" "unat n \<le> 2 ^ 42"
    and f1: "f1 = f\<lparr>vf_bytes := vf_bytes f1\<rparr>" "r_verity_hash_verify (be_sha256 env) n root salt f1 = Inr ()"
      "take (4096 * unat n) (vf_bytes f1) = vf_bytes f" "length (vf_bytes f1) = 4096 * unat c"
    and c: "unat n < unat c" "unat c < 2 ^ 50" and hex: "r_hex_encode salt = Ok salt_hex" "r_hex_encode root = Ok root_hex"
    and mf1: "mf1 = mf\<lparr>mf_bundle_verity_salt := Some salt_hex, mf_bundle_verity_hash := Some root_hex,
       mf_bundle_verity_size := c * 4096 - n * 4096\<rparr>"
    using create_verity_Ok [OF create len assms(4,5)] by metis
  obtain imgs where imgs: "mf' = mf1\<lparr>mf_images := imgs\<rparr>" using check_manifest_external_Ok(1) [OF mf'] ..
  have fields: "mf_bundle_format mf' = R_MANIFEST_FORMAT_VERITY" "mf_bundle_verity_size mf' = c * 4096 - n * 4096"
      "mf_bundle_verity_hash mf' = Some root_hex" "mf_bundle_verity_salt mf' = Some salt_hex"
    using assms(2) by (simp_all add: imgs mf1)
  obtain cert key inter where "cms_sign_manifest (be_cms env) mf' cert key inter = Ok sig"
    using gen mf' fields(1) imgs by (auto simp: generate_bundle_signature_def with_signer_def split: option.splits)
  note sa = signed [OF this, unfolded signed_as_def]
  obtain t chain where t: "cms_verify_sig (be_cms env) sig store = Ok t" "be_load env t = Ok (prepare_manifest mf')"
      "cms_get_cert_chain (be_cms env) sig store = Ok chain"
    using sa by (auto simp: is_ok_iff split: result.splits)
  define m where "m = mf'\<lparr>mf_update_min_rauc_version := None, mf_hash := Some (be_checksum env t),
      mf_warnings := if mf_bundle_format_explicit mf' then [] else format_warnings\<rparr>"
  have load: "load_manifest_mem (be_load env) (be_checksum env) (Some t) = Ok m"
    using t(2) parse_prepare_manifest [OF assms(8)] by (simp add: load_manifest_mem_def m_def)
  note f2 = append_signature_layout [OF app]
  have opened: "open_local_bundle (cfg_max_bundle_signature_size cfg) True f2 = Ok (of_nat (length (vf_bytes f1)), sig)"
  proof (rule open_local_bundle_written)
    show "vf_bytes f2 = vf_bytes f1 @ sig @ GUINT64_TO_BE (of_nat (length sig))" using f2 by simp
    have "writable f2" using assms(4) f1(1) f2 by (metis writable_bytes)
    then show "readable f2" "vf_openable f2" by (simp_all add: writable_def)
  qed (use sa assms(6) f2 in auto)
  have sz: "of_nat (length (vf_bytes f1)) = c * 4096" using f1(4) by simp
  obtain b where b: "check_bundle env cfg params access nm w = (Ok b, w)" "bnd_manifest b = Some m" "bnd_stream b = Some nm"
      "bnd_size b = c * 4096" "\<not> bnd_verification_disabled b" "\<not> bnd_payload_verified b" "bnd_exclusive_verified b"
    using check_bundle_accepts [OF assms(11,16,15,13) _ _ _ assms(10,12) t(1,3) load] opened assms(14,17) sa fields(1) sz
    by (auto simp: m_def)
  have verify: "r_verity_hash_verify (be_sha256 env) n root salt f2 = Inr ()"
    using verify_more [OF f1(2), of "sig @ GUINT64_TO_BE (of_nat (length sig))"] f2 by simp
  have "hex32 (Some root_hex)" "hex32 (Some salt_hex)"
    using check_manifest_external_Ok(2,3) [OF mf'] by (simp_all add: mf1)
  then have dec: "r_hex_decode root_hex 32 = Some root" "r_hex_decode salt_hex 32 = Some salt"
    using hex by (auto simp: hex32_def r_hex_decode_def r_hex_encode_def hex_encode_length hex_decode_encode_loop split: if_splits)
  have "verify_verity_payload (be_sha256 env) f2 (bnd_size b) m = Ok ()"
    unfolding b(4) by (rule verify_verity_payload_Ok [OF verify n(2) c(2)]) (use fields dec in \<open>simp_all add: m_def\<close>)
  moreover have "check_manifest_external (be_version env) m = Ok m"
    unfolding m_def by (rule check_manifest_external_reload [OF mf'])
  ultimately have "check_bundle_payload env b w = (Ok (b\<lparr>bnd_manifest := Some m, bnd_payload_verified := True\<rparr>), w)"
    using b assms(14) by (simp add: check_bundle_payload_def io_bind_def io_lift_def io_return_def ask_def)
  moreover have "unat (bnd_size b - mf_bundle_verity_size m) = 4096 * unat n"
    using n(2) by (simp add: b(4) m_def fields(2) unat_mult_lem [THEN iffD1])
  then have "take (unat (bnd_size b - mf_bundle_verity_size m)) (vf_bytes f2) = vf_bytes f"
    using f1(3,4) c(1) f2 by simp
  ultimately show ?thesis using b(1)
    by (intro exI [of _ b] exI [of _ "b\<lparr>bnd_manifest := Some m, bnd_payload_verified := True\<rparr>"] exI [of _ m])
      (simp add: m_def)
qed

subsection \<open>An example\<close>

lemma verify_root_length:
  assumes "r_verity_hash_verify sha n root salt f = Inr ()" and len: "\<And>x. length (sha x) = 32"
  shows "length root = 32"
proof -
  have tree: "tree_ok sha salt bs x ls root \<Longrightarrow> length root = 32" for bs x ls
  proof (induction ls arbitrary: x)
    case Nil
    then show ?case using len by (cases x) simp
  next
    case (Cons y ls)
    then show ?case by (cases x; cases y) auto
  qed
  obtain r where "verity_create_or_verify_hash sha True n root salt f = Inr r"
    using assms(1) by (auto simp: r_verity_hash_verify_def split: sum.splits)
  then show ?thesis by (rule verify_tree [OF _ len]) (rule tree)
qed

lemma create_verity_total:
  assumes len: "\<And>x. length (sha x) = 32" and "writable f" and "sc_salt sc = Some salt" and "length salt = 32"
    and "4096 dvd length (vf_bytes f)" and "4096 < length (vf_bytes f)" and "length (vf_bytes f) \<le> 2 ^ 54"
    and "mf_bundle_verity_salt mf = None" and "mf_bundle_verity_hash mf = None" and "mf_bundle_verity_size mf = 0"
  obtains bs' c root where "create_verity sha sc f mf = Ok (f\<lparr>vf_bytes := bs'\<rparr>, mf\<lparr>mf_bundle_verity_salt := Some (hex_encode_loop salt),
      mf_bundle_verity_hash := Some (hex_encode_loop root), mf_bundle_verity_size := c\<rparr>)" "length root = 32" "0 < c" "c mod 4096 = 0"
    "length bs' < 2 ^ 62"
proof -
  let ?o = "of_nat (length (vf_bytes f)) :: 64 word"
  define n where "n = ?o div 4096"
  have uo: "unat ?o = length (vf_bytes f)" using assms(7) by (simp only: unat_of_nat) simp
  have un: "unat n = length (vf_bytes f) div 4096" using uo by (simp add: n_def unat_div)
  have size: "length (vf_bytes f) = 4096 * unat n" using assms(5) un by simp
  have n: "1 < unat n" "unat n \<le> 2 ^ 42" using size assms(6,7) by simp_all
  have o: "n * 4096 = ?o" by (rule word_unat_eq_iff [THEN iffD2]) (use size n uo in \<open>simp add: unat_mult_lem [THEN iffD1]\<close>)
  obtain bs' c root where cv: "r_verity_hash_create sha n salt f = Inr (f\<lparr>vf_bytes := bs'\<rparr>, c, root)"
      "r_verity_hash_verify sha n root salt (f\<lparr>vf_bytes := bs'\<rparr>) = Inr ()" "take (4096 * unat n) bs' = vf_bytes f"
      "length bs' = 4096 * unat c" "unat c < 2 ^ 50" "1 < unat n \<longrightarrow> unat n < unat c"
    using verity_create_verify [of sha f n salt] len assms(2) n size by auto
  have nc: "unat n < unat c" using cv(6) n(1) by simp
  have root: "length root = 32" by (rule verify_root_length [OF cv(2) len])
  have uc: "unat (c * 4096) = unat c * 4096" using cv(5) by (simp add: unat_mult_lem [THEN iffD1])
  have lt: "?o < c * 4096" using uc nc size uo by (simp add: word_less_nat_alt)
  have d: "c * 4096 - ?o = (c - n) * 4096" using o by (simp add: left_diff_distrib)
  have ucn: "unat (c - n) = unat c - unat n" using nc by (simp add: unat_sub word_le_nat_alt)
  have "unat ((c - n) * 4096) = (unat c - unat n) * 4096" using cv(5) by (subst unat_mult_lem [THEN iffD1]) (simp_all add: ucn)
  then have "unat ((c - n) * 4096 mod 4096) = 0" "0 < unat ((c - n) * 4096)" using nc by (simp_all add: unat_mod)
  then have v: "(c * 4096 - ?o) mod 4096 = 0" "0 < c * 4096 - ?o" unfolding d by (simp_all add: unat_eq_0 unat_gt_0 word_gt_0)
  have "unat (?o mod 4096) = 0" "\<not> ?o \<le> 4096" using assms(5,6) uo by (simp_all add: unat_mod word_le_nat_alt)
  then have "?o mod 4096 = 0" "\<not> ?o \<le> 4096" by (simp_all add: unat_eq_0)
  moreover have "salt \<noteq> []" "root \<noteq> []" using assms(4) root by auto
  ultimately have "create_verity sha sc f mf = Ok (f\<lparr>vf_bytes := bs'\<rparr>, mf\<lparr>mf_bundle_verity_salt := Some (hex_encode_loop salt),
      mf_bundle_verity_hash := Some (hex_encode_loop root), mf_bundle_verity_size := c * 4096 - ?o\<rparr>)"
    using assms(2,3,8-10) cv(1) lt v(1)
    by (simp add: create_verity_def open_readwrite_def writable_def Let_def fail_if_def r_hex_encode_def n_def)
  then show ?thesis by (rule that) (use root v cv(4,5) in simp_all)
qed

definition accept_demo_manifest :: rauc_manifest where
  "accept_demo_manifest = manifest_new0\<lparr>mf_update_compatible := Some ''demo'',
     mf_bundle_format := R_MANIFEST_FORMAT_VERITY, mf_bundle_format_explicit := True\<rparr>"

definition accept_demo_signer :: sign_context where
  "accept_demo_signer = \<lparr>sc_certpath = Some ''cert.pem'', sc_keypath = Some ''key.pem'', sc_intermediatepaths = [],
     sc_version = ''1.15'', sc_salt = Some (replicate 32 0)\<rparr>"

text \<open>Only one manifest can be signed.\<close>

definition accept_demo_env :: "rauc_manifest \<Rightarrow> (vfile, unit) bundle_env" where
  "accept_demo_env mf = (bundle_sim (\<lambda>mf. []) (\<lambda>s. Ok (prepare_manifest mf)) verity_demo_sha)
     \<lparr>be_cms := (cms_sim (\<lambda>mf. []))\<lparr>cms_sign_manifest := (\<lambda>m cert key inter. if m = mf then Ok [0] else Error ERROR_UNSET)\<rparr>\<rparr>"

theorem signed_bundle_accepted_witness:
  "\<exists>mf f2 mf1 b b'. sign_bundle verity_demo_sha (be_cms (accept_demo_env mf)) accept_demo_signer (verity_demo_file 2 True)
      accept_demo_manifest = Ok (f2, mf1) \<and>
    check_bundle (accept_demo_env mf) check_demo_config check_demo_params None ''b.raucb'' f2 = (Ok b, f2) \<and>
    check_bundle_payload (accept_demo_env mf) b f2 = (Ok b', f2) \<and> bnd_payload_verified b'"
proof -
  let ?f = "verity_demo_file 2 True"
  have len: "length (verity_demo_sha x) = 32" for x by (simp add: verity_demo_sha_def)
  have f: "writable ?f" "length (vf_bytes ?f) = 8192" by (simp_all add: writable_def readable_def verity_demo_file_def)
  obtain bs' c root where cr: "create_verity verity_demo_sha accept_demo_signer ?f accept_demo_manifest =
      Ok (?f\<lparr>vf_bytes := bs'\<rparr>, accept_demo_manifest\<lparr>mf_bundle_verity_salt := Some (hex_encode_loop (replicate 32 0)),
      mf_bundle_verity_hash := Some (hex_encode_loop root), mf_bundle_verity_size := c\<rparr>)" "length root = 32" "0 < c" "c mod 4096 = 0"
      "length bs' < 2 ^ 62"
    by (rule create_verity_total [of verity_demo_sha ?f accept_demo_signer "replicate 32 0" accept_demo_manifest])
      (use len f in \<open>auto simp: accept_demo_signer_def accept_demo_manifest_def manifest_new0_def\<close>)
  define mf1 where "mf1 = accept_demo_manifest\<lparr>mf_bundle_verity_salt := Some (hex_encode_loop (replicate 32 0)),
      mf_bundle_verity_hash := Some (hex_encode_loop root), mf_bundle_verity_size := c\<rparr>"
  let ?env = "accept_demo_env mf1"
  define f2 where "f2 = ?f\<lparr>vf_bytes := bs' @ [0] @ GUINT64_TO_BE 1\<rparr>"
  have sel: "mf_images mf1 = []" "mf_bundle_format mf1 = R_MANIFEST_FORMAT_VERITY" "mf_update_min_rauc_version mf1 = None"
      "\<not> mf_install_check mf1" "mf_bundle_format accept_demo_manifest = R_MANIFEST_FORMAT_VERITY"
    by (simp_all add: mf1_def accept_demo_manifest_def manifest_new0_def)
  have mf': "check_manifest_external ''1.15'' mf1 = Ok mf1"
    using cr(2-4) sel
    by (simp add: check_manifest_external_def check_manifest_common_def check_manifest_bundled_def check_verity_def check_hex32_def
        mf1_def r_hex_decode_def hex_encode_length hex_decode_encode_loop fail_if_def)
  have printable: "manifest_printable mf1"
  proof -
    have "hex_encode_loop root \<noteq> []" "hex_encode_loop (replicate 32 0) \<noteq> []"
      using cr(2) hex_encode_length [of root] hex_encode_length [of "replicate 32 0"] by auto
    then show ?thesis
      by (simp add: manifest_printable_def bundle_printable_def mf1_def accept_demo_manifest_def manifest_new0_def text_set_def)
  qed
  have app: "append_signature_to_bundle (?f\<lparr>vf_bytes := bs'\<rparr>) [0] = Ok f2"
  proof -
    have "vf_openable ?f" "vf_writable ?f" using f(1) by (simp_all add: writable_def)
    then show ?thesis
      using f(1) by (simp add: append_signature_to_bundle_def open_readwrite_def Let_def output_stream_write_bytes_all_def
          output_stream_write_uint64_all_def write_all_at_def writable_fwrite write_at_def f2_def fail_if_def)
  qed
  have env: "be_sha256 ?env = verity_demo_sha" "be_files ?env = file_sim (\<lambda>f. f)"
    by (simp_all add: accept_demo_env_def bundle_sim_def)
  have sign: "sign_bundle (be_sha256 ?env) (be_cms ?env) accept_demo_signer ?f accept_demo_manifest = Ok (f2, mf1)"
    using cr(1) mf' app sel
    by (simp add: sign_bundle_def with_signer_def generate_bundle_signature_def env flip: mf1_def)
      (simp add: accept_demo_signer_def accept_demo_env_def)
  have acc: "check_bundle_access (be_files ?env) ''b.raucb'' f2 = (Ok (), f2)"
    by (simp add: env file_sim_def check_bundle_access_def check_file_system_def check_lease_def root_stat_def PERM_0644_def PERM_0755_def
        io_bind_def io_lift_def io_return_def io_catch_def ask_def fail_if_def)
  have "\<exists>b b' m. check_bundle ?env check_demo_config check_demo_params None ''b.raucb'' f2 = (Ok b, f2) \<and>
      check_bundle_payload ?env b f2 = (Ok b', f2) \<and> bnd_payload_verified b' \<and> bnd_manifest b' = Some m \<and>
      m\<lparr>mf_hash := None, mf_warnings := []\<rparr> = mf1\<lparr>mf_update_min_rauc_version := None, mf_hash := None, mf_warnings := []\<rparr> \<and>
      take (unat (bnd_size b - mf_bundle_verity_size m)) (vf_bytes f2) = vf_bytes ?f"
  proof (rule signed_bundle_accepted [OF sign])
    show "signed_as ?env check_demo_config () mf1 sig" if "cms_sign_manifest (be_cms ?env) mf1 cert key inter = Ok sig" for cert key inter sig
      using that by (auto simp: signed_as_def accept_demo_env_def bundle_sim_def cms_sim_def check_demo_config_def
          DEFAULT_MAX_BUNDLE_SIGNATURE_SIZE_def split: if_splits)
    show "store_of ?env check_demo_config check_demo_params = Ok ()"
      by (simp add: store_of_def accept_demo_env_def bundle_sim_def cms_sim_def)
    show "check_manifest_external (sc_version accept_demo_signer) mf1 = Ok mf1" using mf' by (simp add: accept_demo_signer_def)
    show "CHECK_BUNDLE_TRUST_ENV check_demo_params \<or> check_bundle_access (be_files ?env) ''b.raucb'' f2 = (Ok (), f2)"
      using acc by blast
    show "length (vf_bytes f2) < 2 ^ 63" using cr(5) by (simp add: f2_def)
    show "\<not> is_remote_scheme (g_uri_parse_scheme ''b.raucb'')" by code_simp
    show "and (cfg_bundle_formats_mask check_demo_config) (format_bit R_MANIFEST_FORMAT_VERITY) \<noteq> 0" by code_simp
  qed (use f len printable sel in \<open>simp_all add: env file_sim_def check_demo_params_def check_demo_config_def\<close>)
  then show ?thesis using sign unfolding env by blast
qed

end
