(* ===== verification/Spec2Isabelle.thy ===== *)
theory Spec2Isabelle
  imports Artifact_Prune Emmc Bundle_Install Bundle_Accept
begin

text \<open>
  RAUC (\<open>src/\<close>) is an update client for embedded Linux systems with redundant partitions, called
  slots. A daemon or a command line tool takes a signed bundle, checks its manifest, chooses the
  slots that the running system does not use, writes the images of the bundle to them and tells the
  boot loader to start from the new slots. This development models the program's own decisions and
  states, from the configuration file to the boot loader, and proves that they keep a system
  bootable and its records truthful.

  \<^bold>\<open>Modelling.\<close> A C function becomes a HOL function of the same name. A call that may fail with a
  \<open>GError\<close> returns a \<open>result\<close> (\<open>Ok\<close>, \<open>Error\<close> with domain and code, or \<open>Abort\<close> for an
  assertion, a \<open>g_error\<close> or an invalid memory access); a call with effects is a state transformer
  \<open>('w, 'a) io\<close> over a world \<open>'w\<close> (theory \<open>Rauc_Base\<close>). The world is arbitrary: the helper
  programs (\<open>fw_setenv\<close>, \<open>grub-editenv\<close>, \<open>barebox-state\<close>, \<open>efibootmgr\<close>, the custom script) are
  a \<open>runner\<close>, the file system and the clock are a record \<open>os\<close> of operations, and both are
  parameters. What a property needs of them is stated by a locale that says what their manuals
  promise, and every such locale is interpreted by an executable simulation. Texts of error messages,
  log output and translations are not modelled. Machine integers keep their width (\<open>gint\<close> and
  \<open>guint32\<close> as \<open>32 word\<close>, \<open>guint64\<close> and \<open>goffset\<close> as \<open>64 word\<close>). A slot pointer is the name
  of the slot in the table of slots, a NULL string is \<open>None\<close>, a time is a number of microseconds. A hash
  table is a list in its iteration order; GLib leaves that order open. The parser lists the slots in the
  order of the sections, but what is shown about the table later holds for every order
  (\<open>slots_wf_iterates\<close>, \<open>configured_targets_safe\<close>).

  \<^bold>\<open>Theories.\<close>
  \<^item> \<open>Rauc_Base\<close>, \<open>Rauc_Strings\<close>: results, state transformers and the notion \<open>preserves\<close> of an
    operation that leaves a view of the state alone; the GLib string and number functions.
  \<^item> \<open>Key_File\<close>: GLib key files and the consuming accessors of \<open>utils.c\<close>. \<open>Rauc_Utils\<close>,
    \<open>Semver\<close>: hexadecimal texts, environment names, paths and version comparison of \<open>utils.c\<close>.
  \<^item> \<open>Slot\<close> (\<open>slot.c\<close>): slots, their status, parents and children, data directories; \<open>slots_wf\<close>
    is the invariant of the slot table. \<open>Config_Slots\<close> (\<open>config_file.c\<close>): \<open>parse_slots\<close>
    establishes it. \<open>Config_File\<close>: all other sections of the configuration file, defaults and
    overrides, up to \<open>load_config\<close>.
  \<^item> \<open>Boot_Spec\<close>: the contract of a boot loader backend, as locales \<open>boot_primary\<close> and
    \<open>boot_backend\<close>: what the primary slot and the good slots are after \<open>set_primary\<close> and
    \<open>set_state\<close>. \<open>Uboot\<close>, \<open>Grub\<close>, \<open>Barebox\<close>, \<open>Efi\<close>, \<open>Custom\<close> (\<open>src/bootloaders/\<close>)
    are its implementations: each has the parser for the output of its tool, the operations, a
    locale for the tool and a \<open>sublocale\<close> proof that the operations meet the contract.
    \<open>Bootchooser\<close> (\<open>bootchooser.c\<close>, command line parsing of \<open>context.c\<close>) dispatches to them.
  \<^item> \<open>Mount\<close>, \<open>Status_File\<close> (\<open>mount.c\<close>, \<open>status_file.c\<close>): the per-slot and the central
    status file; the state is now the pair of the slot table and the world. \<open>Mark\<close> (\<open>mark.c\<close>):
    marking slots good, bad and active.
  \<^item> \<open>Checksum\<close>, \<open>Manifest\<close> (\<open>checksum.c\<close>, \<open>manifest.c\<close>): reading, checking and printing
    manifests; \<open>Update_Types\<close>: the type tables of \<open>update_handler.c\<close>. \<open>Manifest_Check\<close> and
    \<open>Manifest_Roundtrip\<close> hold the properties.
  \<^item> \<open>Install\<close>, \<open>Install_Run\<close> (\<open>install.c\<close>): slot states, target groups, plans; hooks and
    handlers, the update of one slot, the installation procedures, \<open>do_install_bundle\<close> and the
    installation thread. \<open>Install_Target\<close>, \<open>Install_Safety\<close>, \<open>Install_Status\<close>: properties.
  \<^item> \<open>Artifacts\<close> (\<open>artifacts.c\<close>): repositories of files and trees with their tables, preparation,
    installation, activation, commit and pruning, over an abstract file system; a table that was freed
    is the pointer \<open>Freed\<close>. \<open>Artifact_Links\<close> has the simulation of links, \<open>Install_Artifacts\<close>
    the artifact part of \<open>install.c\<close>, \<open>Artifact_Prune\<close> the pruning properties.
  \<^item> \<open>Hash_Index\<close> (\<open>hash_index.c\<close>): chunk hash indices, their construction and search; a device
    is a list of 4096 byte chunks, each readable or not. \<open>Adaptive_Copy\<close> (\<open>update_handler.c\<close>):
    the copy of an image that takes chunks from the target, the active slot and the image.
  \<^item> \<open>Boot_Device\<close>, \<open>Mbr\<close>, \<open>Boot_Switch\<close>, \<open>Emmc\<close> (\<open>update_handler.c\<close>,
    \<open>update_utils.c\<close>, \<open>mbr.c\<close>, \<open>emmc.c\<close>): a block device as bytes with a clock that says which
    of its calls fail, and the bytes that the last successful \<open>fsync\<close> made durable (a write is visible
    at once, and a failing one has no effect); clearing, copying and header-last writing; the MBR partition table; the slot
    hooks and the handlers for boot slots with two copies; the register and the boot partitions of an
    eMMC card.
  \<^item> \<open>Verity\<close> (\<open>verity_hash.c\<close>): hash trees over a file of bytes; SHA-256 is a parameter.
  \<^item> \<open>Bundle_File\<close>, \<open>Bundle_Check\<close> (\<open>bundle.c\<close>): a bundle is payload, signature and size of the
    signature; writing and reading this layout, signing, exclusive access to the file, \<open>check_bundle\<close>
    and \<open>check_bundle_payload\<close>. The CMS operations of \<open>signature.c\<close> are a record of parameters.
    \<open>Bundle_Devices\<close> (\<open>mount.c\<close>, \<open>dm.c\<close>): loop devices, dm-verity and dm-crypt over the system
    calls. \<open>Bundle_Mount\<close>: \<open>mount_bundle\<close> and the trace of the kernel calls it makes (loop devices,
    tables loaded into the device mapper, mounts), with the contract of the device set-up as the locale
    \<open>device_layers\<close>. \<open>Bundle_Accept\<close>: from signing to checking.
    \<open>Bundle_Install\<close>: the installer on these operations.
  \<^item> \<open>Spec2Isabelle\<close> (this theory): properties that span components.

  \<^bold>\<open>What is shown.\<close>
  \<^item> Boot selection: each backend with its documented tool implements the abstract boot selection:
    a slot marked bad is neither good nor primary, other good slots stay good, an activated slot is
    primary (\<open>boot_install_sequence\<close> and the properties of the backends).
  \<^item> Installation: targets are never in use by the running system (\<open>target_group_inactive\<close>,
    \<open>configured_targets_safe\<close>), the determination of the group terminates, plans fit their targets,
    a bundle for another system is not installed (\<open>refused_bundle_not_installed\<close> in
    \<open>Bundle_Install\<close>), and the procedure as a whole leaves the boot loader in a safe state unless
    marking or activating the target fails itself (\<open>default_install_boot_safe\<close>).
  \<^item> Records: a slot is marked pending on disk before it is written, the status after an update
    describes it, and saving and loading the status file is a round trip up to what the format loses.
  \<^item> Inputs: accepted configurations (\<open>load_config_wf\<close>) and manifests are well formed, unknown keys are
    refused, printing and parsing a manifest is a round trip, checksums verify what was computed.
  \<^item> Bundles: an accepted bundle is authentic (\<open>check_bundle_authentic\<close>), only content that the signature
    covers is mounted after verification, whatever fails on the way (\<open>mounted_content_signed\<close>), and a bundle that was signed
    is accepted (\<open>signed_bundle_accepted\<close>).
  \<^item> Devices: whichever call fails, the handlers for boot slots leave one copy that can be booted
    (\<open>fallback_always_bootable\<close>, for a boot ROM as the documentation demands it, \<open>mbr_update_safe\<close>,
    \<open>emmc_update_safe\<close>), for images of the announced size and regions below the sizes at which the
    counters overflow; the search in a hash
    index stays in its tables and is a linear search, and the adaptive copy writes the image. The
    root hash of a verity tree determines the data (\<open>verity_binding\<close>), and what was created
    verifies (\<open>verity_roundtrip\<close>).
  \<^item> Artifacts: after an update the links point to the installed artifacts, and pruning keeps what they
    need (\<open>artifact_install_links\<close>, \<open>prune_keeps_active\<close>).
  \<^item> Deviations of the code from its intent, as theorems: \<open>booted_child_is_target\<close>,
    \<open>emptyfs_image_aborts\<close>, \<open>jffs2_slots_rejected\<close>,
    \<open>failed_prepare_double_free\<close>, \<open>smallest_hash_missed\<close>,
    \<open>hash_file_small\<close>, \<open>hash_file_large\<close>, \<open>clear_overruns_partition\<close>, \<open>emmc_hooks_fail\<close>,
    \<open>stripped_bundle_crashes\<close>, \<open>unaligned_payload_aborts\<close>.

  \<^bold>\<open>Bounds.\<close> No definition takes fuel. A loop of the program that may run forever has the value
  \<open>None\<close> when it does not return: the walk along parent pointers (\<open>r_slot_get_parent_root\<close>), the
  bisection in a hash index and the check for a cleared area. \<open>target_group_total\<close>,
  \<open>get_chunk_in_bounds\<close> and \<open>fallback_always_bootable\<close> show that they return. The bound of 100 in
  \<open>fix_grandparent_links\<close> is the program's own. Reading a file takes the list of chunks that the
  kernel delivers.

  \<^bold>\<open>Not modelled.\<close> The code whose work is done by libraries and the kernel: signatures
  (\<open>signature.c\<close>, OpenSSL), encryption (\<open>crypt.c\<close>), downloads and streaming (\<open>network.c\<close>,
  \<open>nbd.c\<close>), GPT tables (\<open>gpt.c\<close>, libfdisk), composefs repositories, the handlers for archives,
  file systems, UBI, NAND and casync in \<open>update_handler.c\<close>, which run helper programs, the D-Bus service
  and the command line (\<open>service.c\<close>, \<open>main.c\<close>). Of \<open>bundle.c\<close> the creation of the squashfs image and
  the commands that extract, re-sign, convert or encrypt an existing bundle are left out. A system call
  that is repeated on \<open>EINTR\<close> or \<open>EAGAIN\<close> is one call. The installer takes slot handlers as
  parameters; its bundle operations are parameters too, and \<open>Bundle_Install\<close> puts the real ones in.
\<close>

subsection \<open>From the configuration to the target group\<close>

lemma load_globally_wf:
  assumes "slots_wf slots"
  shows "slots_wf (r_slot_status_load_globally os (Some path) slots w)"
    "\<forall>s\<in>set (r_slot_status_load_globally os (Some path) slots w). slot_status s \<noteq> None"
proof -
  define kf where "kf = (case os_load_key_file os path w of Ok kf \<Rightarrow> kf | _ \<Rightarrow> [])"
  define f where "f s = (if status_group (slot_name s) \<in> set (g_key_file_get_groups kf) \<and> slot_status s = None
      then s\<lparr>slot_status := Some (status_file_get_slot_status (os_time_parse os) kf (status_group (slot_name s))
        slot_status_new0)\<rparr> else s)" for s :: rauc_slot
  have eq: "r_slot_status_load_globally os (Some path) slots w = map (\<lambda>s. set_default_status (f s)) slots"
    using load_groups_map [OF slots_wfD(1) [OF assms], of "os_time_parse os" kf "g_key_file_get_groups kf"]
    by (simp add: r_slot_status_load_globally_def Let_def kf_def [symmetric] f_def comp_def)
  show "slots_wf (r_slot_status_load_globally os (Some path) slots w)"
    unfolding eq by (rule slots_wf_update_map [OF assms]) (auto simp: set_default_status_def f_def)
  show "\<forall>s\<in>set (r_slot_status_load_globally os (Some path) slots w). slot_status s \<noteq> None"
    by (auto simp: eq set_default_status_def)
qed

text \<open>The slot table after the start of the service: parsed, with the statuses of a central status
  file, and with the states for the detected boot slot.\<close>

definition service_slots :: "'w os \<Rightarrow> string \<Rightarrow> slots \<Rightarrow> 'w \<Rightarrow> slots" where
  "service_slots os path slots w =
     (if path = ''per-slot'' then slots else r_slot_status_load_globally os (Some path) slots w)"

text \<open>
  C2. From the configuration file to the installation target: when the parser accepts the slots,
  the booted slot is identified and has no parent, then the target group is found, and every class
  in it is mapped to a slot of that class that the running system does not use. This holds for every
  order in which the hash table of the parsed slots may be walked.
\<close>

theorem configured_targets_safe:
  assumes "parse_slots cfg shell cwd filename kf = (Ok slots, kf')" and "iterates table slots"
    and "cfg_statusfile_path cfg = Some path"
    and states: "determine_slot_states os bootslot (service_slots os path table w, w) = (Ok (), s')"
    and "\<forall>b\<in>set (fst s'). slot_state b = ST_BOOTED \<longrightarrow> slot_parent b = None"
  shows "\<exists>tg. determine_target_install_group cfg (fst s') = Ok tg \<and>
    (\<forall>c n. map_of tg c = Some n \<longrightarrow>
       (\<exists>t. slot_lookup (fst s') n = Some t \<and> slot_sclass t = c \<and> slot_state t = ST_INACTIVE))"
proof -
  note wf = slots_wf_iterates [OF parse_slots_wf_lemma [OF assms(1)] assms(2)]
  have wf': "slots_wf (fst (service_slots os path table w, w))"
    using wf by (simp add: service_slots_def load_globally_wf(1))
  have "\<forall>s\<in>set (fst s'). slot_status s \<noteq> None" if "path \<noteq> ''per-slot''"
    using states load_globally_wf(2) [OF wf, of os path w] that
    by (auto simp: determine_slot_states_def service_slots_def split: option.splits if_splits)
  then have "cfg_statusfile_path cfg = Some ''per-slot'' \<or> (\<forall>s\<in>set (fst s'). slot_status s \<noteq> None)"
    using assms(3) by auto
  from target_group_total_lemma [OF determine_slot_states_wf [OF states wf'] this]
  obtain tg where tg: "determine_target_install_group cfg (fst s') = Ok tg" ..
  with target_group_inactive_lemma [OF wf' states assms(5) tg] show ?thesis by blast
qed

theorem configured_targets_safe_witness:
  "\<exists>tg. determine_target_install_group (config_default\<lparr>cfg_statusfile_path := Some ''per-slot''\<rparr>)
      (fst (snd (determine_slot_states (os_programs fw_env_sim) (Some ''A'') (rev config_demo_slots, [])))) = Ok tg"
proof -
  let ?cfg = "config_default\<lparr>cfg_statusfile_path := Some ''per-slot''\<rparr>"
  let ?run = "determine_slot_states (os_programs fw_env_sim) (Some ''A'') (rev config_demo_slots, [])"
  have parse: "parse_slots ?cfg (\<lambda>s. Ok [s]) ''/'' None config_demo_kf =
      (Ok config_demo_slots, snd (parse_slots ?cfg (\<lambda>s. Ok [s]) ''/'' None config_demo_kf))" by code_simp
  have order: "iterates (rev config_demo_slots) config_demo_slots" by code_simp
  have path: "cfg_statusfile_path ?cfg = Some ''per-slot''" by simp
  have "fst ?run = Ok ()" by code_simp
  then have run: "determine_slot_states (os_programs fw_env_sim) (Some ''A'')
      (service_slots (os_programs fw_env_sim) ''per-slot'' (rev config_demo_slots) [], []) = (Ok (), snd ?run)"
    by (simp add: prod_eq_iff service_slots_def)
  have root: "\<forall>b\<in>set (fst (snd ?run)). slot_state b = ST_BOOTED \<longrightarrow> slot_parent b = None" by code_simp
  from configured_targets_safe [OF parse order path run root] show ?thesis by blast
qed

subsection \<open>Small routines\<close>

text \<open>
  C36. The version comparison is the semantic-versioning precedence, a linear order: versions compare
  by their three numbers, then a release is above its pre-releases, then pre-releases compare field
  by field, numbers numerically and below texts. It fails exactly when a version is not accepted,
  with the error for the first such one.
\<close>

theorem semver_precedence:
  "r_semver_less_equal a b = result_bind (semver_key a) (\<lambda>ka. result_bind (semver_key b) (\<lambda>kb. Ok (ka \<le> kb)))"
proof (rule semver_key_cases [of a])
  fix ka assume ka: "semver_key a = Ok ka"
  show ?thesis
  proof (rule semver_key_cases [of b])
    fix kb assume "semver_key b = Ok kb"
    with ka show ?thesis using r_semver_less_equal_key by simp
  next
    fix e assume "r_semver_parse b = Error e" "semver_key b = Error e"
    with ka show ?thesis by (auto simp: r_semver_less_equal_def semver_key_def io_iff)
  qed
next
  fix e assume "r_semver_parse a = Error e" "semver_key a = Error e"
  then show ?thesis by (simp add: r_semver_less_equal_def)
qed

text \<open>
  Encoding bytes as hexadecimal text and decoding gives the bytes back; the text has two
  characters per byte.
\<close>

theorem hex_roundtrip:
  assumes "raw \<noteq> []"
  shows "\<exists>hex. r_hex_encode raw = Ok hex \<and> length hex = 2 * length raw \<and> r_hex_decode hex (length raw) = Some raw"
  using assms by (simp add: r_hex_encode_def r_hex_decode_def hex_encode_length hex_decode_encode_loop)

theorem hex_roundtrip_witness:
  "\<exists>hex. r_hex_encode [0xAB, 0x05] = Ok hex \<and> length hex = 2 * 2 \<and> r_hex_decode hex 2 = Some [0xAB, 0x05]"
  using hex_roundtrip [of "[0xAB, 0x05]"] by (simp add: numeral_2_eq_2)

text \<open>
  C37. Whatever a bundle's metadata names are, the environment variables made from them for the
  handlers consist of upper case letters, digits and underscores, and preparing a name twice gives
  the same name.
\<close>

theorem env_key_safe:
  assumes "r_prepare_env_key k = Ok k'"
  shows "length k' = length k \<and> list_all env_key_char_ok k' \<and> r_prepare_env_key k' = Ok k'"
  using prepare_env_key_chars [OF assms] prepare_env_key_fix by (auto simp: list_all_iff)

theorem env_key_safe_witness:
  "length ''SOME_KEY'' = length ''some-key'' \<and> list_all env_key_char_ok ''SOME_KEY'' \<and>
     r_prepare_env_key ''SOME_KEY'' = Ok ''SOME_KEY''"
proof (rule env_key_safe)
  show "r_prepare_env_key ''some-key'' = Ok ''SOME_KEY''" by code_simp
qed

text \<open>
  The configuration parser refuses every slot of type \<open>jffs2\<close>, although there are handlers that
  write to such slots and the parser has a check for their device names.
\<close>

theorem jffs2_slots_rejected:
  "check_slot_device ''jffs2'' device = Error (R_CONFIG_ERROR R_CONFIG_ERROR_SLOT_TYPE) \<and>
   get_handler_from_type ''tar'' ''jffs2'' = Some archive_to_jffs2_handler"
proof -
  have "\<not> r_slot_is_valid_type ''jffs2''" by code_simp
  moreover have "get_handler_from_type ''tar'' ''jffs2'' = Some archive_to_jffs2_handler" by code_simp
  ultimately show ?thesis by (simp add: check_slot_device_def fail_if_def)
qed

end
